(* ===== verification/Prelude.thy ===== *)
theory Prelude
  imports Main "HOL-Library.Word" "HOL-Library.Monad_Syntax"
begin

text \<open>
  Shared vocabulary of the development: the machine integers of the build the repository ships
  (\<open>armv6l\<close>, little endian, 32-bit \<open>size_t\<close>), C pointers, and byte buffers whose accesses are
  checked.

  A C object of \<open>n\<close> bytes is a list of \<open>n\<close> bytes.  A computation of type \<open>'a option\<close> is a
  piece of C code: \<open>None\<close> means that the code performs an access C leaves undefined (a byte
  outside the object, a null pointer, an uninitialised variable); the values the C function
  returns, its error codes included, are under \<open>Some\<close>.  A theorem that a model is not
  \<open>None\<close> is therefore a memory-safety statement about the code.
\<close>

unbundle bit_operations_syntax

named_theorems mem_simps "evaluation of checked reads and writes"
named_theorems att_enc "definitions of the ATT encoders"
named_theorems att_dec "definitions of the ATT decoders"

text \<open>
  The checked accesses below are rewritten under conditions on the length of a buffer, which
  arithmetic decides; \<open>0 < length p\<close> is therefore kept as it is.
\<close>

declare length_greater_0_conv [simp del]

section \<open>Machine integers, pointers, buffers\<close>

type_synonym u8 = "8 word"
type_synonym u16 = "16 word"
type_synonym u32 = "32 word"
type_synonym u64 = "64 word"
type_synonym size_t = "32 word"
type_synonym buf = "u8 list"

datatype 'a ptr = NULL | Ptr 'a

primrec deref :: "'a ptr \<Rightarrow> 'a option" where
  "deref NULL = None"
| "deref (Ptr a) = Some a"

abbreviation min_of :: "'a::len word \<Rightarrow> 'a word \<Rightarrow> 'a word" where
  "min_of a b \<equiv> (if a < b then a else b)"

section \<open>Checked accesses\<close>

text \<open>
  \<open>rd8\<close> and \<open>wr8\<close> are \<open>p[i]\<close> as an rvalue and as an lvalue; \<open>rd b i n\<close> is the source side
  of a \<open>memcpy\<close> of \<open>n\<close> bytes from \<open>&b[i]\<close> and \<open>wr b i xs\<close> its destination side.
\<close>

definition rd8 :: "buf \<Rightarrow> nat \<Rightarrow> u8 option" where
  "rd8 b i = (if i < length b then Some (b ! i) else None)"

definition wr8 :: "buf \<Rightarrow> nat \<Rightarrow> u8 \<Rightarrow> buf option" where
  "wr8 b i v = (if i < length b then Some (b[i := v]) else None)"

definition rd :: "buf \<Rightarrow> nat \<Rightarrow> nat \<Rightarrow> buf option" where
  "rd b i n = (if i + n \<le> length b then Some (take n (drop i b)) else None)"

definition wr :: "buf \<Rightarrow> nat \<Rightarrow> buf \<Rightarrow> buf option" where
  "wr b i xs =
     (if i + length xs \<le> length b then Some (take i b @ xs @ drop (i + length xs) b) else None)"

text \<open>
  \<open>written xs p\<close> is the buffer \<open>p\<close> with its first \<open>length xs\<close> bytes replaced by \<open>xs\<close>: the
  state of an output buffer after a function has filled its front.
\<close>

definition written :: "buf \<Rightarrow> buf \<Rightarrow> buf" where
  "written xs p = xs @ drop (length xs) p"

lemma length_written [simp]: "length xs \<le> length p \<Longrightarrow> length (written xs p) = length p"
  by (simp add: written_def)

lemma take_written [simp]: "n = length xs \<Longrightarrow> take n (written xs p) = xs"
  by (simp add: written_def)

lemma rd8_Cons_0 [mem_simps]: "rd8 (x # xs) 0 = Some x"
  by (simp add: rd8_def)

lemma rd8_Cons_Suc [mem_simps]: "rd8 (x # xs) (Suc i) = rd8 xs i"
  by (simp add: rd8_def)

lemma rd8_Cons_numeral [mem_simps]: "rd8 (x # xs) (numeral k) = rd8 xs (pred_numeral k)"
  by (simp add: rd8_def numeral_eq_Suc)

lemma rd8_Nil [mem_simps]: "rd8 [] i = None"
  by (simp add: rd8_def)

lemma rd8_append_skip [mem_simps]: "length xs \<le> i \<Longrightarrow> rd8 (xs @ ys) i = rd8 ys (i - length xs)"
  by (auto simp: rd8_def nth_append)

lemma rd8_eq_None [simp]: "rd8 b i = None \<longleftrightarrow> length b \<le> i"
  by (simp add: rd8_def)

lemma rd8_Some_iff: "rd8 b i = Some v \<longleftrightarrow> i < length b \<and> v = b ! i"
  by (auto simp: rd8_def)

lemma rd_eq_None [simp]: "rd b i n = None \<longleftrightarrow> length b < i + n"
  by (simp add: rd_def)

lemma rd_Some_iff: "rd b i n = Some xs \<longleftrightarrow> i + n \<le> length b \<and> xs = take n (drop i b)"
  by (auto simp: rd_def)

lemma rd_length: "rd b i n = Some xs \<Longrightarrow> length xs = n"
  by (auto simp: rd_def split: if_splits)

lemma rd_Cons_Suc [mem_simps]: "rd (x # xs) (Suc i) n = rd xs i n"
  by (simp add: rd_def)

lemma rd_Cons_numeral [mem_simps]: "rd (x # xs) (numeral k) n = rd xs (pred_numeral k) n"
  by (simp add: rd_def numeral_eq_Suc)

lemma rd_append_skip [mem_simps]: "length xs \<le> i \<Longrightarrow> rd (xs @ ys) i n = rd ys (i - length xs) n"
  by (auto simp: rd_def)

lemma rd_append_hit [mem_simps]: "length xs = n \<Longrightarrow> rd (xs @ ys) 0 n = Some xs"
  by (auto simp: rd_def)

lemma rd_all [mem_simps]: "length xs = n \<Longrightarrow> rd xs 0 n = Some xs"
  by (auto simp: rd_def)

lemma rd_take: "n \<le> length b \<Longrightarrow> rd b 0 n = Some (take n b)"
  by (simp add: rd_def)

lemma wr8_start [mem_simps]: "0 < length p \<Longrightarrow> wr8 p 0 v = Some (written [v] p)"
  by (cases p) (auto simp: wr8_def written_def)

lemma wr8_written [mem_simps]:
  "i = length xs \<Longrightarrow> i < length p \<Longrightarrow> wr8 (written xs p) i v = Some (written (xs @ [v]) p)"
  by (auto simp: wr8_def written_def list_update_append Cons_nth_drop_Suc [symmetric])

lemma wr_start: "length ys \<le> length p \<Longrightarrow> wr p 0 ys = Some (written ys p)"
  by (simp add: wr_def written_def)

lemma wr_written [mem_simps]:
  "i = length xs \<Longrightarrow> i + length ys \<le> length p \<Longrightarrow>
     wr (written xs p) i ys = Some (written (xs @ ys) p)"
  by (auto simp: wr_def written_def add.commute)

lemma wr_eq_None [simp]: "wr p i ys = None \<longleftrightarrow> length p < i + length ys"
  by (simp add: wr_def)

lemma wr8_eq_None [simp]: "wr8 p i v = None \<longleftrightarrow> length p \<le> i"
  by (simp add: wr8_def)

lemma wr_full [mem_simps]: "length ys = length p \<Longrightarrow> wr p 0 ys = Some ys"
  by (simp add: wr_def)

section \<open>Byte order\<close>

text \<open>
  \<open>le_of n v\<close> are the \<open>n\<close> low bytes of \<open>v\<close>, least significant first; \<open>of_le\<close> reads bytes
  back.  The big-endian accessors reverse.
\<close>

primrec le_of :: "nat \<Rightarrow> 'a::len word \<Rightarrow> u8 list" where
  "le_of 0 v = []"
| "le_of (Suc n) v = ucast v # le_of n (drop_bit 8 v)"

primrec of_le :: "u8 list \<Rightarrow> 'a::len word" where
  "of_le [] = 0"
| "of_le (b # bs) = ucast b OR push_bit 8 (of_le bs)"

abbreviation le16 :: "u16 \<Rightarrow> buf" where
  "le16 v \<equiv> le_of 2 v"

lemma length_le_of [simp]: "length (le_of n v) = n"
  by (induction n arbitrary: v) auto

lemma bit_of_le:
  "bit (of_le bs :: 'a::len word) k \<longleftrightarrow> k < LENGTH('a) \<and> k < 8 * length bs \<and> bit (bs ! (k div 8)) (k mod 8)"
proof (induction bs arbitrary: k)
  case Nil
  then show ?case by simp
next
  case (Cons b bs)
  show ?case
  proof (cases "k < 8")
    case True
    then show ?thesis by (simp add: bit_simps)
  next
    case False
    then have "\<not> bit b k" using bit_imp_le_length [of b k] by auto
    moreover from False have "k div 8 = Suc ((k - 8) div 8)" "k mod 8 = (k - 8) mod 8"
      by (simp_all add: div_if mod_if)
    moreover from False have "k - 8 < 8 * length bs \<longleftrightarrow> k < 8 * length (b # bs)" by auto
    ultimately show ?thesis using False Cons.IH [of "k - 8"]
      by (auto simp add: bit_simps)
  qed
qed

lemma nth_le_of: "i < n \<Longrightarrow> le_of n (v :: 'a::len word) ! i = ucast (drop_bit (8 * i) v)"
proof (induction n arbitrary: v i)
  case 0
  then show ?case by simp
next
  case (Suc n)
  then show ?case by (cases i) (simp_all add: add.commute)
qed

lemma of_le_le_of [simp]:
  assumes "LENGTH('a) \<le> 8 * n"
  shows "of_le (le_of n (v :: 'a::len word)) = v"
proof (rule bit_word_eqI)
  fix k assume k: "k < LENGTH('a)"
  with assms have "k div 8 < n" by arith
  with k assms show "bit (of_le (le_of n v) :: 'a word) k = bit v k"
    by (auto simp: bit_of_le nth_le_of bit_simps)
qed

lemma le_of_of_le [simp]:
  assumes "length bs = n" and "8 * n \<le> LENGTH('a)"
  shows "le_of n (of_le bs :: 'a::len word) = bs"
proof (rule nth_equalityI)
  show "length (le_of n (of_le bs :: 'a word)) = length bs" using assms by simp
next
  fix i assume "i < length (le_of n (of_le bs :: 'a word))"
  then have i: "i < n" by simp
  show "le_of n (of_le bs :: 'a word) ! i = bs ! i"
  proof (rule bit_word_eqI)
    fix k :: nat assume k: "k < LENGTH(8)"
    with i assms have "8 * i + k < LENGTH('a)" "8 * i + k < 8 * length bs" by auto
    with i k show "bit (le_of n (of_le bs :: 'a word) ! i) k = bit (bs ! i) k"
      by (simp add: nth_le_of bit_simps bit_of_le)
  qed
qed

text \<open>The unaligned accessors of \<open>src/shared/util.h\<close>.\<close>

definition get_le16 :: "buf \<Rightarrow> nat \<Rightarrow> u16 option" where
  "get_le16 b i = do { bs \<leftarrow> rd b i 2; Some (of_le bs) }"

definition put_le16 :: "u16 \<Rightarrow> buf \<Rightarrow> nat \<Rightarrow> buf option" where
  "put_le16 v b i = wr b i (le_of 2 v)"

definition get_be16 :: "buf \<Rightarrow> nat \<Rightarrow> u16 option" where
  "get_be16 b i = do { bs \<leftarrow> rd b i 2; Some (of_le (rev bs)) }"

definition put_be16 :: "u16 \<Rightarrow> buf \<Rightarrow> nat \<Rightarrow> buf option" where
  "put_be16 v b i = wr b i (rev (le_of 2 v))"

definition get_le24 :: "buf \<Rightarrow> nat \<Rightarrow> u32 option" where
  "get_le24 b i = do {
     h \<leftarrow> rd8 b (i + 2);
     l \<leftarrow> get_le16 b i;
     Some (push_bit 16 (ucast h) OR ucast l) }"

definition get_be24 :: "buf \<Rightarrow> nat \<Rightarrow> u32 option" where
  "get_be24 b i = do {
     h \<leftarrow> rd8 b i;
     l \<leftarrow> get_be16 b (i + 1);
     Some (push_bit 16 (ucast h) OR ucast l) }"

definition get_le32 :: "buf \<Rightarrow> nat \<Rightarrow> u32 option" where
  "get_le32 b i = do { bs \<leftarrow> rd b i 4; Some (of_le bs) }"

definition get_be32 :: "buf \<Rightarrow> nat \<Rightarrow> u32 option" where
  "get_be32 b i = do { bs \<leftarrow> rd b i 4; Some (of_le (rev bs)) }"

definition get_le64 :: "buf \<Rightarrow> nat \<Rightarrow> u64 option" where
  "get_le64 b i = do { bs \<leftarrow> rd b i 8; Some (of_le bs) }"

definition get_be64 :: "buf \<Rightarrow> nat \<Rightarrow> u64 option" where
  "get_be64 b i = do { bs \<leftarrow> rd b i 8; Some (of_le (rev bs)) }"

definition put_le24 :: "u32 \<Rightarrow> buf \<Rightarrow> nat \<Rightarrow> buf option" where
  "put_le24 v b i = do {
     b \<leftarrow> put_le16 (ucast v) b i;
     wr8 b (i + 2) (ucast (drop_bit 16 v)) }"

definition put_be24 :: "u32 \<Rightarrow> buf \<Rightarrow> nat \<Rightarrow> buf option" where
  "put_be24 v b i = do {
     b \<leftarrow> wr8 b (i + 2) (ucast (drop_bit 16 v));
     put_be16 (ucast v) b (i + 1) }"

definition put_le32 :: "u32 \<Rightarrow> buf \<Rightarrow> nat \<Rightarrow> buf option" where
  "put_le32 v b i = wr b i (le_of 4 v)"

definition put_be32 :: "u32 \<Rightarrow> buf \<Rightarrow> nat \<Rightarrow> buf option" where
  "put_be32 v b i = wr b i (rev (le_of 4 v))"

definition put_le64 :: "u64 \<Rightarrow> buf \<Rightarrow> nat \<Rightarrow> buf option" where
  "put_le64 v b i = wr b i (le_of 8 v)"

definition put_be64 :: "u64 \<Rightarrow> buf \<Rightarrow> nat \<Rightarrow> buf option" where
  "put_be64 v b i = wr b i (rev (le_of 8 v))"

text \<open>\<open>bswap_128\<close> of \<open>lib/bluetooth.h\<close>: \<open>d[15 - i] = s[i]\<close> for sixteen bytes at \<open>i\<close>.\<close>

definition bswap_128 :: "buf \<Rightarrow> nat \<Rightarrow> buf option" where
  "bswap_128 b i = do { bs \<leftarrow> rd b i 16; Some (rev bs) }"

lemma get_le16_simps [mem_simps]:
  "get_le16 (x # xs) (Suc i) = get_le16 xs i"
  "get_le16 (x # xs) (numeral k) = get_le16 xs (pred_numeral k)"
  "length ys \<le> i \<Longrightarrow> get_le16 (ys @ zs) i = get_le16 zs (i - length ys)"
  "get_le16 (le16 v @ zs) 0 = Some v"
  "get_le16 (le16 v) 0 = Some v"
  by (simp_all add: get_le16_def mem_simps)

lemma get_le16_eq_None [simp]: "get_le16 b i = None \<longleftrightarrow> length b < i + 2"
  by (simp add: get_le16_def rd_def)

lemma get_le16_Some: "i + 2 \<le> length b \<Longrightarrow> get_le16 b i = Some (of_le (take 2 (drop i b)))"
  by (simp add: get_le16_def rd_def)

lemma put_le16_written [mem_simps]:
  "i = length xs \<Longrightarrow> i + 2 \<le> length p \<Longrightarrow>
     put_le16 v (written xs p) i = Some (written (xs @ le16 v) p)"
  by (simp add: put_le16_def mem_simps)

lemma put_le16_eq_None [simp]: "put_le16 v b i = None \<longleftrightarrow> length b < i + 2"
  by (simp add: put_le16_def)

section \<open>Generic lemmas\<close>

lemma option_bind_Some_iff:
  "Option.bind m f = Some y \<longleftrightarrow> (\<exists>x. m = Some x \<and> f x = Some y)"
  by (cases m) auto

lemma option_bind_neq_None:
  "Option.bind m f \<noteq> None \<longleftrightarrow> (\<exists>x. m = Some x \<and> f x \<noteq> None)"
  by (cases m) auto

lemma word_eq_of_nat: "unat w = n \<Longrightarrow> w = of_nat n"
  by auto

lemma unat_minus_le: "b \<le> a \<Longrightarrow> unat (a - b) = unat a - unat (b :: 'a::len word)"
  by (simp add: unat_sub)

lemma unat_of_nat_32 [simp]: "n < 4294967296 \<Longrightarrow> unat (of_nat n :: 32 word) = n"
  by (simp add: unat_of_nat take_bit_nat_eq_self)

lemma unat_of_nat_16 [simp]: "n < 65536 \<Longrightarrow> unat (of_nat n :: 16 word) = n"
  by (simp add: unat_of_nat take_bit_nat_eq_self)

lemma unat_lt_32: "unat (a :: 32 word) < 4294967296"
  using unsigned_less [of a] by simp

lemma unat_lt_16: "unat (a :: 16 word) < 65536"
  using unsigned_less [of a] by simp

lemma unat_lt_8: "unat (a :: 8 word) < 256"
  using unsigned_less [of a] by simp

lemma unat_ucast_up [simp]:
  "unat (ucast (a :: u8) :: u16) = unat a"
  "unat (ucast (a :: u8) :: u32) = unat a"
  "unat (ucast (b :: u16) :: u32) = unat b"
  using unat_lt_8 [of a] unat_lt_16 [of b]
  by (simp_all add: unsigned_ucast_eq take_bit_nat_eq_self)

lemma unat_ucast_down_16 [simp]: "unat (ucast (c :: u32) :: u16) = unat c mod 65536"
  by (simp add: unsigned_ucast_eq take_bit_eq_mod)

lemma unat_ucast_down_8 [simp]:
  "unat (ucast (c :: u32) :: u8) = unat c mod 256"
  "unat (ucast (b :: u16) :: u8) = unat b mod 256"
  by (simp_all add: unsigned_ucast_eq take_bit_eq_mod)


lemma ucast_of_nat_32_16:
  "(ucast (of_nat n :: size_t) :: u16) = of_nat n"
  "(ucast (2 + of_nat n :: size_t) :: u16) = 2 + of_nat n"
proof -
  show *: "(ucast (of_nat n :: size_t) :: u16) = of_nat n" for n
    by (simp add: word_unat_eq_iff unat_of_nat take_bit_eq_mod mod_mod_cancel)
  show "(ucast (2 + of_nat n :: size_t) :: u16) = 2 + of_nat n"
    using * [of "2 + n"] by simp
qed


lemma ucast_add_32_16: "(ucast (a + b :: size_t) :: u16) = ucast a + ucast b"
  by (simp add: word_unat_eq_iff unat_word_ariths mod_mod_cancel mod_add_eq)


lemma ucast_of_nat_16_32: "n < 65536 \<Longrightarrow> (ucast (of_nat n :: u16) :: size_t) = of_nat n"
  by (simp add: word_unat_eq_iff)

lemma sint_small:
  assumes "unat (n :: u32) < 2 ^ 31"
  shows "sint n = int (unat n)"
proof -
  have "int (unat n) < int (2 ^ 31)" using assms by (simp only: of_nat_less_iff)
  then have "uint n < 2 ^ 31" by simp
  moreover have "- (2 ^ 31) \<le> uint n" by (rule order_trans [of _ 0]) simp_all
  ultimately show ?thesis by (simp add: sint_uint signed_take_bit_int_eq_self)
qed

end
