(* ===== verification/CText.thy ===== *)
theory CText
  imports Prelude
begin

text \<open>
  The text conversions of the C library that the repository's code relies on, as the GNU C
  library performs them: \<open>%.Nx\<close> and \<open>%0Nx\<close> of \<open>printf\<close>, \<open>%Nx\<close> of \<open>sscanf\<close>, \<open>strtol\<close> and
  \<open>strtoul\<close> in base 16, \<open>memcmp\<close>.  C strings are HOL strings without the terminating NUL.
\<close>

section \<open>Printing hexadecimal\<close>

definition hexdigit :: "nat \<Rightarrow> char" where
  "hexdigit n = ''0123456789abcdef'' ! n"

fun hex_of :: "nat \<Rightarrow> string" where
  "hex_of n = (if n < 16 then [hexdigit n] else hex_of (n div 16) @ [hexdigit (n mod 16)])"

declare hex_of.simps [simp del]

text \<open>\<open>%.wx\<close>, and \<open>%0wx\<close>, which agree on non-negative arguments.\<close>

definition fmt_x :: "nat \<Rightarrow> nat \<Rightarrow> string" where
  "fmt_x w n = (let ds = hex_of n in replicate (w - length ds) (CHR ''0'') @ ds)"

primrec hexw :: "nat \<Rightarrow> nat \<Rightarrow> string" where
  "hexw 0 n = []"
| "hexw (Suc w) n = hexw w (n div 16) @ [hexdigit (n mod 16)]"

lemma length_hexw [simp]: "length (hexw w n) = w"
  by (induction w arbitrary: n) auto

lemma hexw_0: "hexw w 0 = replicate w (CHR ''0'')"
  by (induction w) (auto simp: hexdigit_def replicate_append_same)

lemma hex_of_length: "n < 16 ^ w \<Longrightarrow> 0 < w \<Longrightarrow> length (hex_of n) \<le> w"
proof (induction n arbitrary: w rule: hex_of.induct)
  case (1 n)
  show ?case
  proof (cases "n < 16")
    case True
    with "1.prems" show ?thesis by (simp add: hex_of.simps [of n])
  next
    case False
    with "1.prems" obtain v where w: "w = Suc v" and v: "0 < v" and lt: "n div 16 < 16 ^ v"
      by (cases w; cases "w - 1") auto
    from "1.IH" [OF False lt v] False w show ?thesis
      by (simp add: hex_of.simps [of n])
  qed
qed

lemma fmt_x_hexw: "n < 16 ^ w \<Longrightarrow> 0 < w \<Longrightarrow> fmt_x w n = hexw w n"
proof (induction n arbitrary: w rule: hex_of.induct)
  case (1 n)
  show ?case
  proof (cases "n < 16")
    case True
    with "1.prems" obtain v where "w = Suc v" by (cases w) auto
    with True show ?thesis
      by (simp add: fmt_x_def hex_of.simps [of n] hexw_0)
  next
    case False
    with "1.prems" obtain v where w: "w = Suc v" and v: "0 < v" and lt: "n div 16 < 16 ^ v"
      by (cases w; cases "w - 1") auto
    have "fmt_x v (n div 16) = hexw v (n div 16)" using "1.IH" [OF False lt v] .
    moreover have "length (hex_of (n div 16)) \<le> v" using lt v by (rule hex_of_length)
    ultimately show ?thesis using False w
      by (simp add: fmt_x_def hex_of.simps [of n] Let_def)
  qed
qed

section \<open>Reading hexadecimal\<close>

definition hexval :: "char \<Rightarrow> nat option" where
  "hexval c = (let n = of_char c :: nat in
     if 48 \<le> n \<and> n \<le> 57 then Some (n - 48)
     else if 97 \<le> n \<and> n \<le> 102 then Some (n - 87)
     else if 65 \<le> n \<and> n \<le> 70 then Some (n - 55)
     else None)"

definition is_space :: "char \<Rightarrow> bool" where
  "is_space c = (let n = of_char c :: nat in n = 32 \<or> 9 \<le> n \<and> n \<le> 13)"

fun scan_digits :: "nat \<Rightarrow> nat \<Rightarrow> string \<Rightarrow> nat \<times> string" where
  "scan_digits 0 acc s = (acc, s)"
| "scan_digits (Suc w) acc [] = (acc, [])"
| "scan_digits (Suc w) acc (c # s) =
     (case hexval c of None \<Rightarrow> (acc, c # s) | Some d \<Rightarrow> scan_digits w (16 * acc + d) s)"

definition scan_sign :: "nat \<Rightarrow> string \<Rightarrow> bool \<times> nat \<times> string" where
  "scan_sign w s = (case s of
     [] \<Rightarrow> (False, w, s)
   | c # t \<Rightarrow> if c = CHR ''-'' then (True, w - 1, t)
             else if c = CHR ''+'' then (False, w - 1, t) else (False, w, s))"

text \<open>
  \<open>scan_x w s\<close> is the conversion \<open>%wx\<close>: white space is skipped, a sign and a prefix \<open>0x\<close>
  count towards the width, a lone \<open>0\<close> before \<open>x\<close> is accepted, and a conversion without a
  digit fails (\<open>None\<close>).
\<close>

definition scan_prefix :: "nat \<Rightarrow> string \<Rightarrow> bool \<times> nat \<times> string" where
  "scan_prefix w s = (case s of
     [] \<Rightarrow> (False, w, s)
   | c # t \<Rightarrow>
       if 0 < w \<and> c = CHR ''0'' then
         (case t of
            [] \<Rightarrow> (True, w - 1, t)
          | d # u \<Rightarrow> if 1 < w \<and> (d = CHR ''x'' \<or> d = CHR ''X'') then (True, w - 2, u)
                    else (True, w - 1, t))
       else (False, w, s))"

definition scan_x :: "nat \<Rightarrow> string \<Rightarrow> (int \<times> string) option" where
  "scan_x w s =
     (let (neg, w, s) = scan_sign w (dropWhile is_space s);
          (zero, w, s) = scan_prefix w s;
          (v, r) = scan_digits w 0 s
      in if \<not> zero \<and> length r = length s then None
         else Some (if neg then - int v else int v, r))"

text \<open>Literal characters and one-character sets (\<open>%1[fF]\<close>) of a \<open>sscanf\<close> format.\<close>

fun scan_lit :: "string \<Rightarrow> string \<Rightarrow> string option" where
  "scan_lit [] s = Some s"
| "scan_lit (c # cs) [] = None"
| "scan_lit (c # cs) (d # s) = (if c = d then scan_lit cs s else None)"

definition scan_set :: "char list \<Rightarrow> string \<Rightarrow> string option" where
  "scan_set cs s = (case s of [] \<Rightarrow> None | c # t \<Rightarrow> if List.member cs c then Some t else None)"

text \<open>
  \<open>strto16 s\<close> is the common part of \<open>strtol(s, &endptr, 16)\<close> and \<open>strtoul\<close>: the sign, the
  magnitude and \<open>endptr\<close> (as the rest of the string).  The clamping to the 32-bit \<open>long\<close> of
  the build is in \<open>strtol16\<close> and \<open>strtoul16\<close>.
\<close>

definition strto16 :: "string \<Rightarrow> bool \<times> nat \<times> string" where
  "strto16 s =
     (let (neg, _, t) = scan_sign 0 (dropWhile is_space s);
          has0x = (case t of c # d # _ \<Rightarrow> c = CHR ''0'' \<and> (d = CHR ''x'' \<or> d = CHR ''X'') | _ \<Rightarrow> False);
          body = (if has0x then drop 2 t else t);
          (v, r) = scan_digits (length body) 0 body
      in if length r = length body then (False, 0, if has0x then tl t else s) else (neg, v, r))"

definition strtol16 :: "string \<Rightarrow> int \<times> string" where
  "strtol16 s = (let (neg, v, r) = strto16 s in
     (if neg then - int (min v (2 ^ 31)) else int (min v (2 ^ 31 - 1)), r))"

definition strtoul16 :: "string \<Rightarrow> u32 \<times> string" where
  "strtoul16 s = (let (neg, v, r) = strto16 s in
     (if 2 ^ 32 \<le> v then - 1 else if neg then - word_of_nat v else word_of_nat v, r))"

fun memcmp :: "buf \<Rightarrow> buf \<Rightarrow> int" where
  "memcmp (a # as) (b # bs) = (if a = b then memcmp as bs else if a < b then - 1 else 1)"
| "memcmp _ _ = 0"

lemma memcmp_refl [simp]: "memcmp a a = 0"
  by (induction a) auto

lemma memcmp_eq_0: "length a = length b \<Longrightarrow> memcmp a b = 0 \<longleftrightarrow> a = b"
  by (induction a b rule: memcmp.induct) auto

section \<open>Reading back what was printed\<close>

lemma hexdigit_cases:
  assumes "n < 16"
  shows "hexdigit n \<in> set ''0123456789abcdef''"
  using assms by (simp add: hexdigit_def del: set_simps)

lemma less_16_cases: "(n::nat) < 16 \<Longrightarrow> n \<in> {0, 1, 2, 3, 4, 5, 6, 7, 8, 9, 10, 11, 12, 13, 14, 15}"
  by (simp, presburger)

lemma hexval_hexdigit [simp]: "n < 16 \<Longrightarrow> hexval (hexdigit n) = Some n"
  by (drule less_16_cases) (elim insertE emptyE, simp_all add: hexval_def hexdigit_def)

lemma hexdigit_inj: "n < 16 \<Longrightarrow> m < 16 \<Longrightarrow> hexdigit n = hexdigit m \<longleftrightarrow> n = m"
  using hexval_hexdigit by (metis option.inject)

lemma hexdigit_plain:
  assumes "n < 16"
  shows "\<not> is_space (hexdigit n)" "hexdigit n \<noteq> CHR ''-''" "hexdigit n \<noteq> CHR ''+''"
    "hexdigit n \<noteq> CHR ''x''" "hexdigit n \<noteq> CHR ''X''"
  using less_16_cases [OF assms] by (elim insertE emptyE; simp add: hexdigit_def is_space_def)+

lemma hexw_rec: "hexw (Suc w) n = hexdigit (n div 16 ^ w mod 16) # hexw w n"
proof (induction w arbitrary: n)
  case 0
  then show ?case by simp
next
  case (Suc w)
  have "n div 16 div 16 ^ w = n div 16 ^ Suc w" by (simp add: div_mult2_eq)
  with Suc.IH [of "n div 16"] show ?case by simp
qed

lemma scan_digits_hexw:
  "scan_digits w acc (hexw w n @ r) = (16 ^ w * acc + n mod 16 ^ w, r)"
proof (induction w arbitrary: acc)
  case 0
  then show ?case by simp
next
  case (Suc w)
  let ?d = "n div 16 ^ w mod 16"
  have "n mod 16 ^ Suc w = 16 ^ w * ?d + n mod 16 ^ w"
    by (metis mod_mult2_eq mult.commute power_Suc)
  with Suc.IH [of "16 * acc + ?d"] show ?case
    by (simp add: hexw_rec del: hexw.simps) (simp add: algebra_simps)
qed

lemma dropWhile_hexw: "0 < w \<Longrightarrow> dropWhile is_space (hexw w n @ r) = hexw w n @ r"
  by (cases w) (simp_all add: hexw_rec hexdigit_plain del: hexw.simps)

lemma scan_sign_hexw: "0 < w \<Longrightarrow> scan_sign k (hexw w n @ r) = (False, k, hexw w n @ r)"
  by (cases w) (simp_all add: hexw_rec hexdigit_plain scan_sign_def del: hexw.simps)

text \<open>
  Reading a \<open>w\<close>-digit number with \<open>%wx\<close> gives it back: no digit of it can start a prefix
  \<open>0x\<close>, so the leading zero that \<open>scan_prefix\<close> may consume only stands for itself.
\<close>

lemma scan_x_hexw:
  assumes "1 < w" and "n < 16 ^ w"
  shows "scan_x w (hexw w n @ r) = Some (int n, r)"
proof -
  from assms(1) obtain v where w: "w = Suc (Suc v)" by (cases w; cases "w - 1") auto
  let ?d = "n div 16 ^ Suc v mod 16" and ?e = "n div 16 ^ v mod 16"
  have hd: "hexw w n = hexdigit ?d # hexw (Suc v) n"
    and hd2: "hexw (Suc v) n = hexdigit ?e # hexw v n"
    unfolding w by (rule hexw_rec)+
  have zero: "hexdigit ?d = CHR ''0'' \<longleftrightarrow> ?d = 0"
    using hexdigit_inj [of ?d 0] by (simp add: hexdigit_def)
  have nm: "n mod 16 ^ w = n" using assms(2) by simp
  have dec: "n mod 16 ^ Suc v = n" if "?d = 0"
  proof -
    have "n mod 16 ^ Suc (Suc v) = 16 ^ Suc v * ?d + n mod 16 ^ Suc v"
      by (metis mod_mult2_eq mult.commute power_Suc)
    with that nm show ?thesis unfolding w by simp
  qed
  show ?thesis
  proof (cases "?d = 0")
    case True
    then have "scan_prefix w (hexw w n @ r) = (True, Suc v, hexw (Suc v) n @ r)"
      unfolding hd hd2 using zero w by (simp add: scan_prefix_def hexdigit_plain)
    with True dec show ?thesis using assms(1)
      by (simp add: scan_x_def dropWhile_hexw scan_sign_hexw scan_digits_hexw del: hexw.simps)
  next
    case False
    then have "scan_prefix w (hexw w n @ r) = (False, w, hexw w n @ r)"
      unfolding hd using zero by (simp add: scan_prefix_def)
    with nm show ?thesis using assms(1)
      by (simp add: scan_x_def dropWhile_hexw scan_sign_hexw scan_digits_hexw)
  qed
qed

lemma scan_lit_append: "length xs = length ys \<Longrightarrow> scan_lit xs (ys @ r) = (if xs = ys then Some r else None)"
  by (induction xs ys rule: list_induct2) auto

lemma eq_char_commute: "(x = y \<longleftrightarrow> P) \<Longrightarrow> (y = x \<longleftrightarrow> P)"
  by auto

lemma hexdigit_eq_char:
  assumes "n < 16"
  shows "hexdigit n = CHR ''0'' \<longleftrightarrow> n = 0" "hexdigit n = CHR ''3'' \<longleftrightarrow> n = 3"
    "hexdigit n = CHR ''4'' \<longleftrightarrow> n = 4" "hexdigit n = CHR ''5'' \<longleftrightarrow> n = 5"
    "hexdigit n = CHR ''8'' \<longleftrightarrow> n = 8" "hexdigit n = CHR ''9'' \<longleftrightarrow> n = 9"
    "hexdigit n = CHR ''1'' \<longleftrightarrow> n = 1"
    "hexdigit n = CHR ''f'' \<longleftrightarrow> n = 15" "hexdigit n = CHR ''b'' \<longleftrightarrow> n = 11"
    "hexdigit n = CHR ''F'' \<longleftrightarrow> False" "hexdigit n = CHR ''B'' \<longleftrightarrow> False"
proof -
  have c: "CHR ''0'' = hexdigit 0" "CHR ''1'' = hexdigit 1" "CHR ''3'' = hexdigit 3"
    "CHR ''4'' = hexdigit 4" "CHR ''5'' = hexdigit 5" "CHR ''8'' = hexdigit 8"
    "CHR ''9'' = hexdigit 9" "CHR ''b'' = hexdigit 11" "CHR ''f'' = hexdigit 15"
    by (simp_all add: hexdigit_def)
  show "hexdigit n = CHR ''0'' \<longleftrightarrow> n = 0" "hexdigit n = CHR ''3'' \<longleftrightarrow> n = 3"
    "hexdigit n = CHR ''4'' \<longleftrightarrow> n = 4" "hexdigit n = CHR ''5'' \<longleftrightarrow> n = 5"
    "hexdigit n = CHR ''8'' \<longleftrightarrow> n = 8" "hexdigit n = CHR ''9'' \<longleftrightarrow> n = 9"
    "hexdigit n = CHR ''1'' \<longleftrightarrow> n = 1"
    "hexdigit n = CHR ''f'' \<longleftrightarrow> n = 15" "hexdigit n = CHR ''b'' \<longleftrightarrow> n = 11"
    unfolding c using assms by (simp_all add: hexdigit_inj)
  have "hexval (CHR ''F'') = Some 15" "hexval (CHR ''B'') = Some 11"
    "hexdigit 15 \<noteq> CHR ''F''" "hexdigit 11 \<noteq> CHR ''B''"
    by (simp_all add: hexval_def hexdigit_def)
  with hexval_hexdigit [OF assms] show "hexdigit n = CHR ''F'' \<longleftrightarrow> False"
    "hexdigit n = CHR ''B'' \<longleftrightarrow> False" by auto
qed

lemma scan_lit_split: "scan_lit (xs @ ys) s = Option.bind (scan_lit xs s) (scan_lit ys)"
  by (induction xs s rule: scan_lit.induct) auto

lemma hexw_inj: "hexw w n = hexw w m \<longleftrightarrow> n mod 16 ^ w = m mod 16 ^ w"
proof
  assume "hexw w n = hexw w m"
  then have "scan_digits w 0 (hexw w n @ []) = scan_digits w 0 (hexw w m @ [])" by simp
  then show "n mod 16 ^ w = m mod 16 ^ w" unfolding scan_digits_hexw by simp
next
  assume eq: "n mod 16 ^ w = m mod 16 ^ w"
  have "hexw w (n mod 16 ^ w) = hexw w n" for n
  proof (induction w arbitrary: n)
    case (Suc w)
    have *: "n mod 16 ^ Suc w = 16 * (n div 16 mod 16 ^ w) + n mod 16"
      by (simp add: mod_mult2_eq)
    have "n mod 16 ^ Suc w div 16 = n div 16 mod 16 ^ w" unfolding * by simp
    moreover have "n mod 16 ^ Suc w mod 16 = n mod 16" unfolding * by simp
    ultimately show ?case using Suc.IH [of "n div 16"] by (simp del: power_Suc)
  qed simp
  with eq show "hexw w n = hexw w m" by metis
qed

lemma hexw_4: "hexw 4 n = [hexdigit (n div 4096 mod 16), hexdigit (n div 256 mod 16),
    hexdigit (n div 16 mod 16), hexdigit (n mod 16)]"
proof -
  have 4: "4 = Suc (Suc (Suc (Suc 0)))" by simp
  show ?thesis by (subst 4) (simp flip: div_mult2_eq)
qed

lemma hexw_8_split: "hexw 8 n = hexw 4 (n div 65536) @ hexw 4 n"
proof -
  have 8: "8 = Suc (Suc (Suc (Suc 4)))" by simp
  show ?thesis by (subst 8) (simp add: hexw_4 del: Suc_numeral flip: div_mult2_eq)
qed

text \<open>Reading with a wider field, up to a character that is no hexadecimal digit.\<close>

lemma scan_digits_stop:
  assumes "r = [] \<or> hexval (hd r) = None" and "w \<le> k"
  shows "scan_digits k acc (hexw w n @ r) = (16 ^ w * acc + n mod 16 ^ w, r)"
  using assms(2)
proof (induction w arbitrary: acc k)
  case 0
  then show ?case using assms(1) by (cases k; cases r) auto
next
  case (Suc w)
  then obtain j where k: "k = Suc j" and j: "w \<le> j" by (cases k) auto
  let ?d = "n div 16 ^ w mod 16"
  have "n mod 16 ^ Suc w = 16 ^ w * ?d + n mod 16 ^ w"
    by (metis mod_mult2_eq mult.commute power_Suc)
  with Suc.IH [OF j, of "16 * acc + ?d"] show ?case unfolding k
    by (simp add: hexw_rec del: hexw.simps) (simp add: algebra_simps)
qed

lemma strto16_hexw:
  assumes "1 < w" and "r = [] \<or> hexval (hd r) = None" and "n < 16 ^ w"
  shows "strto16 (hexw w n @ r) = (False, n, r)"
proof -
  from assms(1) obtain v where w: "w = Suc (Suc v)" by (cases w; cases "w - 1") auto
  let ?s = "hexw w n @ r"
  have no0x: "\<not> (case ?s of c # d # _ \<Rightarrow> c = CHR ''0'' \<and> (d = CHR ''x'' \<or> d = CHR ''X'') | _ \<Rightarrow> False)"
    unfolding w hexw_rec by (simp add: hexdigit_plain del: hexw.simps)
  have "scan_digits (length ?s) 0 ?s = (n, r)"
    using scan_digits_stop [OF assms(2), of w "length ?s" 0 n] assms(3) by simp
  moreover have "scan_sign 0 (dropWhile is_space ?s) = (False, 0, ?s)"
    using assms(1) by (simp add: dropWhile_hexw scan_sign_hexw)
  ultimately show ?thesis using no0x assms(1) unfolding strto16_def by simp
qed

text \<open>The same after a prefix \<open>0x\<close>.\<close>

lemma strto16_0x_hexw:
  assumes "0 < w" and "r = [] \<or> hexval (hd r) = None" and "n < 16 ^ w"
  shows "strto16 (''0x'' @ hexw w n @ r) = (False, n, r)"
proof -
  let ?s = "hexw w n @ r"
  have "scan_digits (length ?s) 0 ?s = (n, r)"
    using scan_digits_stop [OF assms(2), of w "length ?s" 0 n] assms(3) by simp
  moreover have "scan_sign 0 (dropWhile is_space (''0x'' @ ?s)) = (False, 0, ''0x'' @ ?s)"
    by (simp add: is_space_def scan_sign_def)
  ultimately show ?thesis using assms(1) unfolding strto16_def by simp
qed

end
