(* ===== verification/Uuid.thy ===== *)
theory Uuid
  imports CText
begin

text \<open>
  Bluetooth UUIDs (\<open>lib/uuid.c\<close>, \<open>lib/uuid.h\<close>): the tagged union \<open>bt_uuid_t\<close>, the conversion
  of its short forms to 128 bits through the Bluetooth base UUID, comparison, and the textual
  form that \<open>gatttool\<close> writes to its log and parses from its options.

  A 128-bit value is the array \<open>uint128_t.data\<close>, sixteen bytes in big-endian order.  A
  \<open>bt_uuid_t\<close> that a function leaves unset is \<open>None\<close>; reading it is undefined behaviour.
\<close>

section \<open>Data\<close>

datatype bt_uuid = BT_UUID_UNSPEC | BT_UUID16 u16 | BT_UUID32 u32 | BT_UUID128 buf

fun wf_uuid :: "bt_uuid \<Rightarrow> bool" where
  "wf_uuid (BT_UUID128 b) = (length b = 16)"
| "wf_uuid BT_UUID_UNSPEC = False"
| "wf_uuid _ = True"

text \<open>
  The bytes \<open>value.u128\<close> of the union, whatever its tag: the constructors zero the union before
  they store a short value in host order.
\<close>

fun uuid_u128 :: "bt_uuid \<Rightarrow> buf" where
  "uuid_u128 (BT_UUID128 b) = b"
| "uuid_u128 (BT_UUID16 v) = le_of 2 v @ replicate 14 0"
| "uuid_u128 (BT_UUID32 v) = le_of 4 v @ replicate 12 0"
| "uuid_u128 BT_UUID_UNSPEC = replicate 16 0"

definition bluetooth_base_uuid :: buf where
  "bluetooth_base_uuid =
     [0x00, 0x00, 0x00, 0x00, 0x00, 0x00, 0x10, 0x00,
      0x80, 0x00, 0x00, 0x80, 0x5F, 0x9B, 0x34, 0xFB]"

definition EINVAL :: int where
  "EINVAL = 22"

section \<open>Conversion and comparison\<close>

definition bt_uuid16_to_uuid128 :: "u16 \<Rightarrow> bt_uuid" where
  "bt_uuid16_to_uuid128 v =
     BT_UUID128 (take 2 bluetooth_base_uuid @ rev (le_of 2 v) @ drop 4 bluetooth_base_uuid)"

definition bt_uuid32_to_uuid128 :: "u32 \<Rightarrow> bt_uuid" where
  "bt_uuid32_to_uuid128 v = BT_UUID128 (rev (le_of 4 v) @ drop 4 bluetooth_base_uuid)"

text \<open>\<open>bt_uuid_to_uuid128 src dst\<close> is the content of \<open>*dst\<close> afterwards.\<close>

fun bt_uuid_to_uuid128 :: "bt_uuid \<Rightarrow> bt_uuid option \<Rightarrow> bt_uuid option" where
  "bt_uuid_to_uuid128 (BT_UUID128 b) dst = Some (BT_UUID128 b)"
| "bt_uuid_to_uuid128 (BT_UUID32 v) dst = Some (bt_uuid32_to_uuid128 v)"
| "bt_uuid_to_uuid128 (BT_UUID16 v) dst = Some (bt_uuid16_to_uuid128 v)"
| "bt_uuid_to_uuid128 BT_UUID_UNSPEC dst = dst"

definition bt_uuid128_cmp :: "bt_uuid \<Rightarrow> bt_uuid \<Rightarrow> int" where
  "bt_uuid128_cmp u1 u2 = memcmp (uuid_u128 u1) (uuid_u128 u2)"

definition bt_uuid16_create :: "u16 \<Rightarrow> int \<times> bt_uuid" where
  "bt_uuid16_create v = (0, BT_UUID16 v)"

definition bt_uuid32_create :: "u32 \<Rightarrow> int \<times> bt_uuid" where
  "bt_uuid32_create v = (0, BT_UUID32 v)"

definition bt_uuid128_create :: "buf \<Rightarrow> int \<times> bt_uuid" where
  "bt_uuid128_create v = (0, BT_UUID128 v)"

definition bt_uuid_cmp :: "bt_uuid \<Rightarrow> bt_uuid \<Rightarrow> int option" where
  "bt_uuid_cmp uuid1 uuid2 = do {
     u1 \<leftarrow> bt_uuid_to_uuid128 uuid1 None;
     u2 \<leftarrow> bt_uuid_to_uuid128 uuid2 None;
     Some (bt_uuid128_cmp u1 u2) }"

fun bt_uuid_len :: "bt_uuid \<Rightarrow> size_t" where
  "bt_uuid_len BT_UUID_UNSPEC = 0 div 8"
| "bt_uuid_len (BT_UUID16 _) = 16 div 8"
| "bt_uuid_len (BT_UUID32 _) = 32 div 8"
| "bt_uuid_len (BT_UUID128 _) = 128 div 8"

definition bt_uuid_to_le :: "bt_uuid \<Rightarrow> buf \<Rightarrow> (int \<times> buf) option" where
  "bt_uuid_to_le src dst =
     (case src of
        BT_UUID16 v \<Rightarrow> do { d \<leftarrow> put_le16 v dst 0; Some (0, d) }
      | BT_UUID32 v \<Rightarrow> do {
          s \<leftarrow> bswap_128 (uuid_u128 (bt_uuid32_to_uuid128 v)) 0;
          d \<leftarrow> wr dst 0 s;
          Some (0, d) }
      | BT_UUID128 b \<Rightarrow> do { s \<leftarrow> bswap_128 b 0; d \<leftarrow> wr dst 0 s; Some (0, d) }
      | BT_UUID_UNSPEC \<Rightarrow> Some (- EINVAL, dst))"

section \<open>Text\<close>

text \<open>\<open>snprintf(str, n, ...)\<close> with output \<open>s\<close>: at most \<open>n - 1\<close> characters are stored.\<close>

definition snprintf_to :: "string \<Rightarrow> size_t \<Rightarrow> string \<Rightarrow> string" where
  "snprintf_to str n s = (if n = 0 then str else take (unat n - 1) s)"

text \<open>
  The six fields of the printed form.  Each is copied out of the byte array in host order and
  brought to its value by \<open>ntohl\<close> or \<open>ntohs\<close>, so it is the big-endian value of its bytes.
\<close>

definition be32_at :: "buf \<Rightarrow> nat \<Rightarrow> u32" where
  "be32_at d i = of_le (rev (take 4 (drop i d)))"

definition be16_at :: "buf \<Rightarrow> nat \<Rightarrow> u16" where
  "be16_at d i = of_le (rev (take 2 (drop i d)))"

definition uuid_text :: "buf \<Rightarrow> string" where
  "uuid_text data =
     fmt_x 8 (unat (be32_at data 0)) @ ''-'' @ fmt_x 4 (unat (be16_at data 4)) @ ''-'' @
     fmt_x 4 (unat (be16_at data 6)) @ ''-'' @ fmt_x 4 (unat (be16_at data 8)) @ ''-'' @
     fmt_x 8 (unat (be32_at data 10)) @ fmt_x 4 (unat (be16_at data 14))"

definition bt_uuid_to_string :: "bt_uuid ptr \<Rightarrow> string \<Rightarrow> size_t \<Rightarrow> (int \<times> string) option" where
  "bt_uuid_to_string uuid str n =
     (case uuid of
        NULL \<Rightarrow> Some (- EINVAL, snprintf_to str n ''NULL'')
      | Ptr BT_UUID_UNSPEC \<Rightarrow> Some (- EINVAL, snprintf_to str n ''NULL'')
      | Ptr u \<Rightarrow> do {
          tmp \<leftarrow> bt_uuid_to_uuid128 u None;
          Some (0, snprintf_to str n (uuid_text (uuid_u128 tmp))) })"

definition is_uuid128 :: "string \<Rightarrow> bool" where
  "is_uuid128 s \<longleftrightarrow> length s = 36 \<and> s ! 8 = CHR ''-'' \<and> s ! 13 = CHR ''-'' \<and>
     s ! 18 = CHR ''-'' \<and> s ! 23 = CHR ''-''"

definition is_base_uuid128 :: "string \<Rightarrow> bool" where
  "is_base_uuid128 s \<longleftrightarrow> is_uuid128 s \<and>
     (do {
        s \<leftarrow> scan_lit ''0000'' s;
        (_, s) \<leftarrow> scan_x 4 s;
        s \<leftarrow> scan_lit ''-0000-1000-8000-00805'' s;
        s \<leftarrow> scan_set ''fF'' s;
        s \<leftarrow> scan_lit ''9'' s;
        s \<leftarrow> scan_set ''bB'' s;
        s \<leftarrow> scan_lit ''34'' s;
        s \<leftarrow> scan_set ''fF'' s;
        scan_set ''bB'' s }) \<noteq> None"

definition is_uuid32 :: "string \<Rightarrow> bool" where
  "is_uuid32 s \<longleftrightarrow> length s = 8 \<or> length s = 10"

definition is_uuid16 :: "string \<Rightarrow> bool" where
  "is_uuid16 s \<longleftrightarrow> length s = 4 \<or> length s = 6"

text \<open>
  The parsers return the code's result and the content of \<open>*uuid\<close>, which a failure leaves
  as it was.
\<close>

definition bt_string_to_uuid16 :: "bt_uuid \<Rightarrow> string \<Rightarrow> int \<times> bt_uuid" where
  "bt_string_to_uuid16 uuid s =
     (let (l, endptr) = strtol16 s; u16 = word_of_int l
      in if endptr = [] \<or> hd endptr = CHR ''-'' then (0, snd (bt_uuid16_create u16))
         else (- EINVAL, uuid))"

definition bt_string_to_uuid32 :: "bt_uuid \<Rightarrow> string \<Rightarrow> int \<times> bt_uuid" where
  "bt_string_to_uuid32 uuid s =
     (let (u32, endptr) = strtoul16 s
      in if endptr = [] then (0, snd (bt_uuid32_create u32)) else (- EINVAL, uuid))"

definition bt_string_to_uuid128 :: "bt_uuid \<Rightarrow> string \<Rightarrow> int \<times> bt_uuid" where
  "bt_string_to_uuid128 uuid s =
     (case do {
        (data0, s) \<leftarrow> scan_x 8 s; s \<leftarrow> scan_lit ''-'' s;
        (data1, s) \<leftarrow> scan_x 4 s; s \<leftarrow> scan_lit ''-'' s;
        (data2, s) \<leftarrow> scan_x 4 s; s \<leftarrow> scan_lit ''-'' s;
        (data3, s) \<leftarrow> scan_x 4 s; s \<leftarrow> scan_lit ''-'' s;
        (data4, s) \<leftarrow> scan_x 8 s;
        (data5, s) \<leftarrow> scan_x 4 s;
        Some (rev (le_of 4 (word_of_int data0 :: u32)) @ rev (le_of 2 (word_of_int data1 :: u16)) @
              rev (le_of 2 (word_of_int data2 :: u16)) @ rev (le_of 2 (word_of_int data3 :: u16)) @
              rev (le_of 4 (word_of_int data4 :: u32)) @ rev (le_of 2 (word_of_int data5 :: u16)))
      } of
        None \<Rightarrow> (- EINVAL, uuid)
      | Some val \<Rightarrow> (0, snd (bt_uuid128_create val)))"

definition bt_string_to_uuid :: "bt_uuid \<Rightarrow> string ptr \<Rightarrow> int \<times> bt_uuid" where
  "bt_string_to_uuid uuid s =
     (case s of
        NULL \<Rightarrow> (- EINVAL, uuid)
      | Ptr s \<Rightarrow>
          if is_base_uuid128 s then bt_string_to_uuid16 uuid (drop 4 s)
          else if is_uuid128 s then bt_string_to_uuid128 uuid s
          else if is_uuid32 s then bt_string_to_uuid32 uuid s
          else if is_uuid16 s then bt_string_to_uuid16 uuid s
          else (- EINVAL, uuid))"

definition bt_uuid_strcmp :: "string ptr \<Rightarrow> string ptr \<Rightarrow> int option" where
  "bt_uuid_strcmp a b =
     (let (r1, u1) = bt_string_to_uuid BT_UUID_UNSPEC a
      in if r1 < 0 then Some (- EINVAL)
         else let (r2, u2) = bt_string_to_uuid BT_UUID_UNSPEC b
              in if r2 < 0 then Some (- EINVAL) else bt_uuid_cmp u1 u2)"

section \<open>The 128-bit form\<close>

definition uuid_canon :: "bt_uuid \<Rightarrow> buf" where
  "uuid_canon u = (case bt_uuid_to_uuid128 u None of Some v \<Rightarrow> uuid_u128 v | None \<Rightarrow> [])"

lemma uuid_canon_simps [simp]:
  "uuid_canon (BT_UUID128 b) = b"
  "uuid_canon (BT_UUID16 v) = [0, 0] @ rev (le_of 2 v) @ drop 4 bluetooth_base_uuid"
  "uuid_canon (BT_UUID32 w) = rev (le_of 4 w) @ drop 4 bluetooth_base_uuid"
  by (simp_all add: uuid_canon_def bt_uuid16_to_uuid128_def bt_uuid32_to_uuid128_def
      bluetooth_base_uuid_def)

lemma length_base_uuid [simp]: "length bluetooth_base_uuid = 16"
  by (simp add: bluetooth_base_uuid_def)

lemma wf_uuid_canon_length: "wf_uuid u \<Longrightarrow> length (uuid_canon u) = 16"
  by (cases u) auto

lemma bt_uuid_to_uuid128_wf:
  "wf_uuid u \<Longrightarrow> bt_uuid_to_uuid128 u dst = Some (BT_UUID128 (uuid_canon u))"
  by (cases u) (auto simp: bt_uuid16_to_uuid128_def bt_uuid32_to_uuid128_def bluetooth_base_uuid_def)

lemma bt_uuid_cmp_wf:
  "wf_uuid u \<Longrightarrow> wf_uuid v \<Longrightarrow> bt_uuid_cmp u v = Some (memcmp (uuid_canon u) (uuid_canon v))"
  by (simp add: bt_uuid_cmp_def bt_uuid_to_uuid128_wf bt_uuid128_cmp_def)

lemma bt_uuid_cmp_0_iff:
  "wf_uuid u \<Longrightarrow> wf_uuid v \<Longrightarrow> bt_uuid_cmp u v = Some 0 \<longleftrightarrow> uuid_canon u = uuid_canon v"
  by (simp add: bt_uuid_cmp_wf memcmp_eq_0 wf_uuid_canon_length)

lemma le_of_inj: "LENGTH('a) \<le> 8 * n \<Longrightarrow> le_of n (v :: 'a::len word) = le_of n w \<longleftrightarrow> v = w"
  by (metis of_le_le_of)

end
