(* ===== verification/UuidText.thy ===== *)
theory UuidText
  imports Uuid
begin

text \<open>
  The textual form of UUIDs: what \<open>bt_uuid_to_string\<close> prints, \<open>bt_string_to_uuid\<close> reads back.
  The printed form of the 128-bit value is analysed digit by digit (\<open>text_of\<close>); a value of the
  Bluetooth base range is recognised by \<open>is_base_uuid128\<close> and comes back as a 16-bit UUID, any
  other value as the same 128-bit UUID.
\<close>

definition text_of :: "nat \<Rightarrow> nat \<Rightarrow> nat \<Rightarrow> nat \<Rightarrow> nat \<Rightarrow> nat \<Rightarrow> string" where
  "text_of a b c d e f = hexw 8 a @ ''-'' @ hexw 4 b @ ''-'' @ hexw 4 c @ ''-'' @ hexw 4 d @ ''-'' @
     hexw 8 e @ hexw 4 f"

lemma uuid_text_hexw:
  "uuid_text d = text_of (unat (be32_at d 0)) (unat (be16_at d 4)) (unat (be16_at d 6))
     (unat (be16_at d 8)) (unat (be32_at d 10)) (unat (be16_at d 14))"
proof -
  have "fmt_x 8 (unat x) = hexw 8 (unat x)" for x :: u32
    using unat_lt_32 [of x] by (intro fmt_x_hexw) auto
  moreover have "fmt_x 4 (unat x) = hexw 4 (unat x)" for x :: u16
    using unat_lt_16 [of x] by (intro fmt_x_hexw) auto
  ultimately show ?thesis by (simp add: uuid_text_def text_of_def)
qed

lemma length_text_of [simp]: "length (text_of a b c d e f) = 36"
  by (simp add: text_of_def)

lemma is_uuid128_text_of: "is_uuid128 (text_of a b c d e f)"
  by (simp add: is_uuid128_def) (simp add: text_of_def nth_append)

lemma bytes_of_fields:
  assumes "length b = 16"
  shows "b = rev (le_of 4 (be32_at b 0)) @ rev (le_of 2 (be16_at b 4)) @ rev (le_of 2 (be16_at b 6)) @
    rev (le_of 2 (be16_at b 8)) @ rev (le_of 4 (be32_at b 10)) @ rev (le_of 2 (be16_at b 14))"
proof -
  have b: "b = take 4 (drop 0 b) @ take 2 (drop 4 b) @ take 2 (drop 6 b) @ take 2 (drop 8 b) @
    take 4 (drop 10 b) @ take 2 (drop 14 b)"
    using assms by (auto simp: numeral_eq_Suc length_Suc_conv)
  show ?thesis using assms by (subst b) (simp add: be32_at_def be16_at_def)
qed

lemma bt_string_to_uuid128_text:
  assumes "length b = 16"
  shows "bt_string_to_uuid128 u (uuid_text b) = (0, BT_UUID128 b)"
proof -
  have s4: "scan_x 4 (hexw 4 (unat x) @ r) = Some (int (unat x), r)" for x :: u16 and r
    using unat_lt_16 [of x] by (intro scan_x_hexw) auto
  have s4e: "scan_x 4 (hexw 4 (unat x)) = Some (int (unat x), [])" for x :: u16
    using s4 [of x "[]"] by simp
  have s8: "scan_x 8 (hexw 8 (unat x) @ r) = Some (int (unat x), r)" for x :: u32 and r
    using unat_lt_32 [of x] by (intro scan_x_hexw) auto
  have "bt_string_to_uuid128 u (uuid_text b) = (0, BT_UUID128
    (rev (le_of 4 (be32_at b 0)) @ rev (le_of 2 (be16_at b 4)) @ rev (le_of 2 (be16_at b 6)) @
    rev (le_of 2 (be16_at b 8)) @ rev (le_of 4 (be32_at b 10)) @ rev (le_of 2 (be16_at b 14))))"
    by (simp add: bt_string_to_uuid128_def uuid_text_hexw text_of_def s4 s4e s8 bt_uuid128_create_def)
  then show ?thesis using bytes_of_fields [OF assms] by simp
qed

lemma hexw_consts:
  "''0000'' = hexw 4 0" "''1000'' = hexw 4 0x1000" "''8000'' = hexw 4 0x8000"
  "''0080'' = hexw 4 0x0080" "''5f9b'' = hexw 4 0x5f9b" "''34fb'' = hexw 4 0x34fb"
  by (simp_all add: hexw_4 hexdigit_def)

lemma hexw_4_iff:
  assumes "n < 65536"
  shows "''0000'' = hexw 4 n \<longleftrightarrow> n = 0" "''1000'' = hexw 4 n \<longleftrightarrow> n = 0x1000"
    "''8000'' = hexw 4 n \<longleftrightarrow> n = 0x8000" "''0080'' = hexw 4 n \<longleftrightarrow> n = 0x0080"
    "''5f9b'' = hexw 4 n \<longleftrightarrow> n = 0x5f9b" "''34fb'' = hexw 4 n \<longleftrightarrow> n = 0x34fb"
  using assms unfolding hexw_consts hexw_inj by auto

lemma hexw_digits:
  "\<exists>p q r s. p < 16 \<and> q < 16 \<and> r < 16 \<and> s < 16 \<and>
     hexw 4 n = [hexdigit p, hexdigit q, hexdigit r, hexdigit s]"
proof -
  have "m mod 16 < 16" for m :: nat by simp
  then show ?thesis unfolding hexw_4 by blast
qed

lemma scan_tail:
  "(do { s \<leftarrow> scan_lit ''5'' (hexw 4 e @ hexw 4 f);
     s \<leftarrow> scan_set ''fF'' s;
     s \<leftarrow> scan_lit ''9'' s;
     s \<leftarrow> scan_set ''bB'' s;
     s \<leftarrow> scan_lit ''34'' s;
     s \<leftarrow> scan_set ''fF'' s;
     scan_set ''bB'' s }) \<noteq> None \<longleftrightarrow> ''5f9b'' = hexw 4 e \<and> ''34fb'' = hexw 4 f"
proof -
  obtain p q r s where e: "p < 16" "q < 16" "r < 16" "s < 16"
    "hexw 4 e = [hexdigit p, hexdigit q, hexdigit r, hexdigit s]"
    using hexw_digits by blast
  obtain t u v w where f: "t < 16" "u < 16" "v < 16" "w < 16"
    "hexw 4 f = [hexdigit t, hexdigit u, hexdigit v, hexdigit w]"
    using hexw_digits by blast
  show ?thesis unfolding e(5) f(5)
    using e(1-4) f(1-4)
    by (auto simp: hexdigit_eq_char simp: scan_set_def hexdigit_eq_char [THEN eq_char_commute])
qed

lemma is_base_text_of:
  assumes "a < 4294967296" "b < 65536" "c < 65536" "d < 65536" "e < 4294967296" "f < 65536"
  shows "is_base_uuid128 (text_of a b c d e f) \<longleftrightarrow>
    a < 65536 \<and> b = 0 \<and> c = 0x1000 \<and> d = 0x8000 \<and> e = 0x00805f9b \<and> f = 0x34fb"
proof -
  have lit: "''-0000-1000-8000-00805'' = ''-'' @ ''0000'' @ ''-'' @ ''1000'' @ ''-'' @ ''8000'' @ ''-'' @
    ''0080'' @ ''5''" by simp
  have l4: "scan_lit xs (hexw 4 n @ r) = (if xs = hexw 4 n then Some r else None)"
    if "length xs = 4" for xs n r
    using scan_lit_append [of xs "hexw 4 n" r] that by simp
  have l1: "scan_lit ''-'' (CHR ''-'' # r) = Some r" for r by simp
  have x: "scan_x 4 (hexw 4 a @ r) = Some (int (a mod 65536), r)" for r
  proof -
    have "hexw 4 a = hexw 4 (a mod 65536)" unfolding hexw_inj by simp
    moreover have "scan_x 4 (hexw 4 (a mod 65536) @ r) = Some (int (a mod 65536), r)"
      by (rule scan_x_hexw) simp_all
    ultimately show ?thesis by simp
  qed
  have a: "''0000'' = hexw 4 (a div 65536) \<longleftrightarrow> a < 65536" using assms(1) hexw_4_iff(1) [of "a div 65536"]
    by auto
  have e: "''0080'' = hexw 4 (e div 65536) \<and> ''5f9b'' = hexw 4 e \<longleftrightarrow> e = 0x00805f9b"
  proof -
    have "hexw 4 e = hexw 4 (e mod 65536)" unfolding hexw_inj by simp
    moreover have "e = 0x00805f9b" if "e div 65536 = 0x0080" "e mod 65536 = 0x5f9b"
      using mult_div_mod_eq [of 65536 e] that by linarith
    then have "e = 0x00805f9b \<longleftrightarrow> e div 65536 = 0x0080 \<and> e mod 65536 = 0x5f9b" by auto
    ultimately show ?thesis using assms(5) hexw_4_iff(4) [of "e div 65536"] hexw_4_iff(5) [of "e mod 65536"]
      by simp
  qed
  let ?r2 = "''-'' @ hexw 4 b @ ''-'' @ hexw 4 c @ ''-'' @ hexw 4 d @ ''-'' @
    hexw 4 (e div 65536) @ hexw 4 e @ hexw 4 f"
  have tx: "text_of a b c d e f = hexw 4 (a div 65536) @ hexw 4 a @ ?r2"
    by (simp add: text_of_def hexw_8_split)
  have s3: "scan_lit ''-0000-1000-8000-00805'' ?r2 =
    (if b = 0 \<and> c = 0x1000 \<and> d = 0x8000 \<and> ''0080'' = hexw 4 (e div 65536)
     then scan_lit ''5'' (hexw 4 e @ hexw 4 f) else None)"
    unfolding lit scan_lit_split using assms(2-4) by (simp add: l1 l4 hexw_4_iff del: scan_lit.simps)
  show ?thesis
  proof (cases "a < 65536 \<and> b = 0 \<and> c = 0x1000 \<and> d = 0x8000 \<and> ''0080'' = hexw 4 (e div 65536)")
    case True
    then have "is_base_uuid128 (text_of a b c d e f) \<longleftrightarrow> ''5f9b'' = hexw 4 e \<and> ''34fb'' = hexw 4 f"
      unfolding is_base_uuid128_def tx scan_tail [symmetric]
      using is_uuid128_text_of [of a b c d e f] a s3 x l4 tx by (simp del: scan_lit.simps append_Cons)
    with True e hexw_4_iff(6) [OF assms(6)] show ?thesis by blast
  next
    case False
    then have "\<not> is_base_uuid128 (text_of a b c d e f)"
      unfolding is_base_uuid128_def tx
      using a s3 x l4 by (auto simp: option_bind_Some_iff simp del: scan_lit.simps append_Cons split: if_splits)
    with False e show ?thesis by blast
  qed
qed
lemma bt_string_to_uuid16_text:
  assumes "a < 65536" and "r = [] \<or> hd r = CHR ''-''"
  shows "bt_string_to_uuid16 u (hexw 4 a @ r) = (0, BT_UUID16 (word_of_nat a))"
proof -
  have "hexval (CHR ''-'') = None" by (simp add: hexval_def)
  with assms(2) have r: "r = [] \<or> hexval (hd r) = None" by auto
  have "strto16 (hexw 4 a @ r) = (False, a, r)"
    using assms(1) by (intro strto16_hexw [OF _ r]) auto
  with assms show ?thesis
    by (auto simp: bt_string_to_uuid16_def strtol16_def bt_uuid16_create_def)
qed

lemma base_fields:
  assumes "length b = 16" "be32_at b 0 = ucast (v :: u16)" "be16_at b 4 = 0" "be16_at b 6 = 0x1000"
    "be16_at b 8 = 0x8000" "be32_at b 10 = 0x00805f9b" "be16_at b 14 = 0x34fb"
  shows "b = uuid_canon (BT_UUID16 v)"
proof -
  have n2: "(2::nat) = Suc (Suc 0)" and n4: "(4::nat) = Suc (Suc (Suc (Suc 0)))" by simp_all
  have "rev (le_of 4 (ucast v :: u32)) = [0, 0] @ rev (le_of 2 v)"
    unfolding n2 n4 by (simp, intro conjI; rule bit_word_eqI; auto simp: bit_simps dest: bit_imp_le_length)
  moreover have "rev (le_of 2 (0x1000 :: u16)) = [0x10, 0x00]" "rev (le_of 2 (0x8000 :: u16)) = [0x80, 0x00]"
    "rev (le_of 2 (0x34fb :: u16)) = [0x34, 0xfb]" "rev (le_of 2 (0 :: u16)) = [0, 0]"
    unfolding n2 by simp_all
  moreover have "rev (le_of 4 (0x00805f9b :: u32)) = [0x00, 0x80, 0x5f, 0x9b]"
    unfolding n4 by simp
  ultimately show ?thesis
    by (subst bytes_of_fields [OF assms(1)]) (simp add: assms bluetooth_base_uuid_def)
qed

lemma uuid_text_roundtrip:
  assumes b: "length b = 16"
  shows "\<exists>u'. bt_string_to_uuid old (Ptr (uuid_text b)) = (0, u') \<and> wf_uuid u' \<and> uuid_canon u' = b"
proof -
  let ?a = "unat (be32_at b 0)"
  have tx: "uuid_text b = text_of ?a (unat (be16_at b 4)) (unat (be16_at b 6))
     (unat (be16_at b 8)) (unat (be32_at b 10)) (unat (be16_at b 14))" (is "_ = ?t")
    by (rule uuid_text_hexw)
  show ?thesis
  proof (cases "is_base_uuid128 ?t")
    case False
    then have "bt_string_to_uuid old (Ptr (uuid_text b)) = (0, BT_UUID128 b)"
      using is_uuid128_text_of bt_string_to_uuid128_text [OF b]
      by (simp add: bt_string_to_uuid_def tx)
    with b show ?thesis by auto
  next
    case True
    note unat_lt_32 [of "be32_at b 0"] unat_lt_32 [of "be32_at b 10"]
    with True have f: "?a < 65536" "unat (be16_at b 4) = 0" "unat (be16_at b 6) = 0x1000"
        "unat (be16_at b 8) = 0x8000" "unat (be32_at b 10) = 0x00805f9b" "unat (be16_at b 14) = 0x34fb"
      by (auto simp: is_base_text_of unat_lt_16)
    let ?v = "word_of_nat ?a :: u16"
    have a: "be32_at b 0 = ucast ?v" using f(1) by (simp add: word_unat_eq_iff)
    have "?a div 65536 = 0" using f(1) by simp
    then have drop: "drop 4 ?t = hexw 4 ?a @ ''-'' @ drop 9 ?t"
      by (simp add: text_of_def hexw_8_split)
    have "bt_string_to_uuid old (Ptr (uuid_text b)) = (0, BT_UUID16 ?v)"
      unfolding bt_string_to_uuid_def tx using True f(1) bt_string_to_uuid16_text [of ?a "''-'' @ drop 9 ?t" old]
      by (simp add: drop)
    moreover have "b = uuid_canon (BT_UUID16 ?v)"
      using b a f(2-6) by (intro base_fields) (auto simp: word_unat_eq_iff)
    ultimately show ?thesis by (metis wf_uuid.simps(3))
  qed
qed

section \<open>Properties\<close>

text \<open>
  C36: what \<open>bt_uuid_to_string\<close> writes into a buffer of at least 37 characters for any valid
  UUID is accepted by \<open>bt_string_to_uuid\<close>, which returns a UUID that \<open>bt_uuid_cmp\<close> finds
  equal to the original one.
\<close>

theorem uuid_string_roundtrip:
  assumes "wf_uuid u" and "37 \<le> unat n"
  shows "\<exists>s u'. bt_uuid_to_string (Ptr u) str n = Some (0, s) \<and> length s = 36 \<and>
           bt_string_to_uuid old (Ptr s) = (0, u') \<and> bt_uuid_cmp u u' = Some 0"
proof -
  let ?b = "uuid_canon u"
  have b: "length ?b = 16" using assms(1) by (rule wf_uuid_canon_length)
  have l: "length (uuid_text ?b) = 36" by (simp add: uuid_text_hexw)
  then have "bt_uuid_to_string (Ptr u) str n = Some (0, uuid_text ?b)"
    using assms by (cases u) (auto simp: bt_uuid_to_string_def bt_uuid_to_uuid128_wf snprintf_to_def
        simp del: uuid_canon_simps bt_uuid_to_uuid128.simps)
  moreover obtain u' where "bt_string_to_uuid old (Ptr (uuid_text ?b)) = (0, u')"
      and u': "wf_uuid u'" "uuid_canon u' = ?b"
    using uuid_text_roundtrip [OF b] by blast
  moreover have "bt_uuid_cmp u u' = Some 0" using assms(1) u' by (simp add: bt_uuid_cmp_0_iff)
  ultimately show ?thesis using l by blast
qed

theorem uuid_string_roundtrip_witness:
  "wf_uuid (BT_UUID16 0x2800) \<and> 37 \<le> unat (38 :: size_t) \<and>
   (\<exists>s u'. bt_uuid_to_string (Ptr (BT_UUID16 0x2800)) [] 38 = Some (0, s) \<and> length s = 36 \<and>
     bt_string_to_uuid BT_UUID_UNSPEC (Ptr s) = (0, u') \<and> bt_uuid_cmp (BT_UUID16 0x2800) u' = Some 0)"
  using uuid_string_roundtrip [of "BT_UUID16 0x2800" 38 "[]" BT_UUID_UNSPEC] by simp

text \<open>
  The short textual forms.  Four hexadecimal digits, or \<open>0x\<close> and four digits, denote the
  16-bit UUID of that value; eight digits, or \<open>0x\<close> and eight digits, the 32-bit one.
\<close>

theorem short_uuid_strings:
  "bt_string_to_uuid old (Ptr (fmt_x 4 (unat v))) = (0, BT_UUID16 v) \<and>
   bt_string_to_uuid old (Ptr (''0x'' @ fmt_x 4 (unat v))) = (0, BT_UUID16 v) \<and>
   bt_string_to_uuid old (Ptr (fmt_x 8 (unat w))) = (0, BT_UUID32 w) \<and>
   bt_string_to_uuid old (Ptr (''0x'' @ fmt_x 8 (unat w))) = (0, BT_UUID32 w)"
proof -
  have v: "unat v < 65536" and w: "unat w < 4294967296" by (rule unat_lt_16 unat_lt_32)+
  have f: "fmt_x 4 (unat v) = hexw 4 (unat v)" "fmt_x 8 (unat w) = hexw 8 (unat w)"
    using v w by (auto intro: fmt_x_hexw)
  have "strto16 (hexw 4 (unat v)) = (False, unat v, [])" "strto16 (''0x'' @ hexw 4 (unat v)) = (False, unat v, [])"
    using strto16_hexw [of 4 "[]" "unat v"] strto16_0x_hexw [of 4 "[]" "unat v"] v by simp_all
  moreover have "strto16 (hexw 8 (unat w)) = (False, unat w, [])" "strto16 (''0x'' @ hexw 8 (unat w)) = (False, unat w, [])"
    using strto16_hexw [of 8 "[]" "unat w"] strto16_0x_hexw [of 8 "[]" "unat w"] w by simp_all
  moreover note defs = bt_string_to_uuid_def is_base_uuid128_def is_uuid128_def is_uuid32_def is_uuid16_def
    bt_string_to_uuid16_def bt_string_to_uuid32_def strtol16_def strtoul16_def bt_uuid16_create_def
    bt_uuid32_create_def
  ultimately show "bt_string_to_uuid old (Ptr (fmt_x 4 (unat v))) = (0, BT_UUID16 v) \<and>
    bt_string_to_uuid old (Ptr (''0x'' @ fmt_x 4 (unat v))) = (0, BT_UUID16 v) \<and>
    bt_string_to_uuid old (Ptr (fmt_x 8 (unat w))) = (0, BT_UUID32 w) \<and>
    bt_string_to_uuid old (Ptr (''0x'' @ fmt_x 8 (unat w))) = (0, BT_UUID32 w)"
    using v w by (simp_all add: f defs not_le)
qed

end
