(* ===== verification/Crypto.thy ===== *)
theory Crypto
  imports Prelude
begin

text \<open>
  \<open>src/shared/crypto.c\<close>: the security functions of the Security Manager and the signature of
  Signed Write commands.  AES itself runs in the kernel, behind an \<open>AF_ALG\<close> socket; what the
  sockets compute is the parameter \<open>kalg\<close> of the model, and \<open>None\<close> stands for a failed system
  call.  Everything the C code does around it (byte order, concatenation, truncation) is here.

  A function returning \<open>bool\<close> with an output array is \<open>Some None\<close> when it returns false
  without touching the output, \<open>Some (Some out)\<close> when it returns true; \<open>c1\<close>, \<open>s1\<close> and \<open>f5\<close>,
  which write their outputs even on failure, return the flag and the outputs.
\<close>

record kalg =
  ecb_aes :: "buf \<Rightarrow> buf \<Rightarrow> buf option"
  cmac_aes :: "buf \<Rightarrow> buf \<Rightarrow> buf option"

definition swap_buf :: "buf \<Rightarrow> nat \<Rightarrow> buf option" where
  "swap_buf src len = do { s \<leftarrow> rd src 0 len; Some (rev s) }"

definition bt_crypto_sign_att :: "kalg ptr \<Rightarrow> buf \<Rightarrow> buf \<Rightarrow> u16 \<Rightarrow> u32 \<Rightarrow> buf option option" where
  "bt_crypto_sign_att crypto key m m_len sign_cnt =
     (case crypto of
        NULL \<Rightarrow> Some None
      | Ptr k \<Rightarrow> do {
          let msg_len = m_len + 4;
          s \<leftarrow> rd m 0 (unat m_len);
          msg \<leftarrow> wr (replicate (unat msg_len) 0) 0 s;
          msg \<leftarrow> put_le32 sign_cnt msg (unat m_len);
          tmp \<leftarrow> swap_buf key 16;
          msg_s \<leftarrow> swap_buf msg (unat msg_len);
          (case cmac_aes k tmp msg_s of
             None \<Rightarrow> Some None
           | Some out \<Rightarrow> do {
               out \<leftarrow> put_be32 sign_cnt out 8;
               tmp \<leftarrow> swap_buf out 16;
               sg \<leftarrow> rd tmp 4 12;
               Some (Some sg) }) })"

definition bt_crypto_verify_att_sign :: "kalg ptr \<Rightarrow> buf \<Rightarrow> buf \<Rightarrow> u16 \<Rightarrow> bool option" where
  "bt_crypto_verify_att_sign crypto key pdu pdu_len =
     (if pdu_len < 12 then Some False
      else do {
        let sign = unat (pdu_len - 12);
        sign_cnt \<leftarrow> get_le32 pdu sign;
        r \<leftarrow> bt_crypto_sign_att crypto key pdu (pdu_len - 12) sign_cnt;
        (case r of
           None \<Rightarrow> Some False
         | Some generated_sign \<Rightarrow> do {
             s \<leftarrow> rd pdu sign 12;
             Some (generated_sign = s) }) })"

definition bt_crypto_e :: "kalg ptr \<Rightarrow> buf \<Rightarrow> buf \<Rightarrow> buf option option" where
  "bt_crypto_e crypto key plaintext =
     (case crypto of
        NULL \<Rightarrow> Some None
      | Ptr k \<Rightarrow> do {
          tmp \<leftarrow> swap_buf key 16;
          inb \<leftarrow> swap_buf plaintext 16;
          (case ecb_aes k tmp inb of
             None \<Rightarrow> Some None
           | Some out \<Rightarrow> do { enc \<leftarrow> swap_buf out 16; Some (Some enc) }) })"

definition bt_crypto_ah :: "kalg ptr \<Rightarrow> buf \<Rightarrow> buf \<Rightarrow> buf option option" where
  "bt_crypto_ah crypto k r =
     (case crypto of
        NULL \<Rightarrow> Some None
      | Ptr _ \<Rightarrow> do {
          r \<leftarrow> rd r 0 3;
          let rp = r @ replicate 13 0;
          enc \<leftarrow> bt_crypto_e crypto k rp;
          (case enc of
             None \<Rightarrow> Some None
           | Some encrypted \<Rightarrow> do { hash \<leftarrow> rd encrypted 0 3; Some (Some hash) }) })"

definition u128_xor :: "buf \<Rightarrow> buf \<Rightarrow> buf option" where
  "u128_xor p q = do {
     pp \<leftarrow> rd p 0 16;
     qq \<leftarrow> rd q 0 16;
     Some (le_of 8 ((of_le (take 8 pp) :: u64) XOR of_le (take 8 qq)) @
           le_of 8 ((of_le (drop 8 pp) :: u64) XOR of_le (drop 8 qq))) }"

definition bt_crypto_c1 ::
    "kalg ptr \<Rightarrow> buf \<Rightarrow> buf \<Rightarrow> buf \<Rightarrow> buf \<Rightarrow> u8 \<Rightarrow> buf \<Rightarrow> u8 \<Rightarrow> buf \<Rightarrow> (bool \<times> buf) option" where
  "bt_crypto_c1 crypto k r pres preq iat ia rat ra = do {
     preq \<leftarrow> rd preq 0 7;
     pres \<leftarrow> rd pres 0 7;
     let p1 = [iat, rat] @ preq @ pres;
     ra \<leftarrow> rd ra 0 6;
     ia \<leftarrow> rd ia 0 6;
     let p2 = ra @ ia @ replicate 4 0;
     res \<leftarrow> u128_xor r p1;
     e1 \<leftarrow> bt_crypto_e crypto k res;
     (case e1 of
        None \<Rightarrow> Some (False, res)
      | Some res \<Rightarrow> do {
          res \<leftarrow> u128_xor res p2;
          e2 \<leftarrow> bt_crypto_e crypto k res;
          (case e2 of None \<Rightarrow> Some (False, res) | Some res \<Rightarrow> Some (True, res)) }) }"

definition bt_crypto_s1 :: "kalg ptr \<Rightarrow> buf \<Rightarrow> buf \<Rightarrow> buf \<Rightarrow> (bool \<times> buf) option" where
  "bt_crypto_s1 crypto k r1 r2 = do {
     a \<leftarrow> rd r2 0 8;
     b \<leftarrow> rd r1 0 8;
     let res = a @ b;
     e \<leftarrow> bt_crypto_e crypto k res;
     (case e of None \<Rightarrow> Some (False, res) | Some res \<Rightarrow> Some (True, res)) }"

definition aes_cmac :: "kalg ptr \<Rightarrow> buf \<Rightarrow> buf \<Rightarrow> size_t \<Rightarrow> buf option option" where
  "aes_cmac crypto key msg msg_len =
     (if 80 < msg_len then Some None
      else do {
        key_msb \<leftarrow> swap_buf key 16;
        k \<leftarrow> deref crypto;
        msg_msb \<leftarrow> swap_buf msg (unat msg_len);
        (case cmac_aes k key_msb msg_msb of
           None \<Rightarrow> Some None
         | Some out \<Rightarrow> do { res \<leftarrow> swap_buf out 16; Some (Some res) }) })"

definition bt_crypto_f4 :: "kalg ptr \<Rightarrow> buf \<Rightarrow> buf \<Rightarrow> buf \<Rightarrow> u8 \<Rightarrow> buf option option" where
  "bt_crypto_f4 crypto u v x z =
     (case crypto of
        NULL \<Rightarrow> Some None
      | Ptr _ \<Rightarrow> do {
          v \<leftarrow> rd v 0 32;
          u \<leftarrow> rd u 0 32;
          aes_cmac crypto x ([z] @ v @ u) 65 })"

definition f5_btle :: buf where
  "f5_btle = [0x65, 0x6c, 0x74, 0x62]"

definition f5_salt :: buf where
  "f5_salt = [0xbe, 0x83, 0x60, 0x5a, 0xdb, 0x0b, 0x37, 0x60,
              0x38, 0xa5, 0xf5, 0xaa, 0x91, 0x83, 0x88, 0x6c]"

definition bt_crypto_f5 ::
    "kalg ptr \<Rightarrow> buf \<Rightarrow> buf \<Rightarrow> buf \<Rightarrow> buf \<Rightarrow> buf \<Rightarrow> buf \<Rightarrow> buf \<Rightarrow> (bool \<times> buf \<times> buf) option" where
  "bt_crypto_f5 crypto w n1 n2 a1 a2 mackey ltk = do {
     t \<leftarrow> aes_cmac crypto f5_salt w 32;
     (case t of
        None \<Rightarrow> Some (False, mackey, ltk)
      | Some t \<Rightarrow> do {
          a2 \<leftarrow> rd a2 0 7;
          a1 \<leftarrow> rd a1 0 7;
          n2 \<leftarrow> rd n2 0 16;
          n1 \<leftarrow> rd n1 0 16;
          let m = [0x00, 0x01] @ a2 @ a1 @ n2 @ n1 @ f5_btle;
          r0 \<leftarrow> aes_cmac crypto t (m @ [0]) 53;
          (case r0 of
             None \<Rightarrow> Some (False, mackey, ltk)
           | Some mackey \<Rightarrow> do {
               r1 \<leftarrow> aes_cmac crypto t (m @ [1]) 53;
               (case r1 of
                  None \<Rightarrow> Some (False, mackey, ltk)
                | Some ltk \<Rightarrow> Some (True, mackey, ltk)) }) }) }"

definition bt_crypto_f6 ::
    "kalg ptr \<Rightarrow> buf \<Rightarrow> buf \<Rightarrow> buf \<Rightarrow> buf \<Rightarrow> buf \<Rightarrow> buf \<Rightarrow> buf \<Rightarrow> buf option option" where
  "bt_crypto_f6 crypto w n1 n2 r io_cap a1 a2 = do {
     a2 \<leftarrow> rd a2 0 7;
     a1 \<leftarrow> rd a1 0 7;
     io_cap \<leftarrow> rd io_cap 0 3;
     r \<leftarrow> rd r 0 16;
     n2 \<leftarrow> rd n2 0 16;
     n1 \<leftarrow> rd n1 0 16;
     aes_cmac crypto w (a2 @ a1 @ io_cap @ r @ n2 @ n1) 65 }"

definition bt_crypto_g2 :: "kalg ptr \<Rightarrow> buf \<Rightarrow> buf \<Rightarrow> buf \<Rightarrow> buf \<Rightarrow> u32 option option" where
  "bt_crypto_g2 crypto u v x y = do {
     y \<leftarrow> rd y 0 16;
     v \<leftarrow> rd v 0 32;
     u \<leftarrow> rd u 0 32;
     t \<leftarrow> aes_cmac crypto x (y @ v @ u) 80;
     (case t of
        None \<Rightarrow> Some None
      | Some tmp \<Rightarrow> do { val \<leftarrow> get_le32 tmp 0; Some (Some (val mod 1000000)) }) }"

definition bt_crypto_h6 :: "kalg ptr \<Rightarrow> buf \<Rightarrow> buf \<Rightarrow> buf option option" where
  "bt_crypto_h6 crypto w keyid = aes_cmac crypto w keyid 4"

text \<open>\<open>writev\<close> hands the concatenation of the vectors to the kernel; the key is all zero.\<close>

definition bt_crypto_gatt_hash :: "kalg ptr \<Rightarrow> buf list \<Rightarrow> buf option option" where
  "bt_crypto_gatt_hash crypto iov =
     (case crypto of
        NULL \<Rightarrow> Some None
      | Ptr k \<Rightarrow>
          (case cmac_aes k (replicate 16 0) (concat iov) of
             None \<Rightarrow> Some None
           | Some res \<Rightarrow> Some (Some res)))"

end
