(* ===== verification/CryptoSpec.thy ===== *)
theory CryptoSpec
  imports Crypto
begin

text \<open>
  What the functions of \<open>src/shared/crypto.c\<close> compute, in terms of the kernel's AES: the security
  functions of the Security Manager as the specification writes them.
\<close>

section \<open>Exclusive or of 128-bit values\<close>

definition xor_bytes :: "buf \<Rightarrow> buf \<Rightarrow> buf" where
  "xor_bytes xs ys = map2 (XOR) xs ys"

lemma le_of_xor:
  assumes "length xs = 8" "length ys = 8"
  shows "le_of 8 ((of_le xs :: u64) XOR of_le ys) = xor_bytes xs ys"
proof (rule nth_equalityI)
  show "length (le_of 8 ((of_le xs :: u64) XOR of_le ys)) = length (xor_bytes xs ys)"
    using assms by (simp add: xor_bytes_def)
next
  fix i assume "i < length (le_of 8 ((of_le xs :: u64) XOR of_le ys))"
  then have i: "i < 8" by simp
  show "le_of 8 ((of_le xs :: u64) XOR of_le ys) ! i = xor_bytes xs ys ! i"
  proof (rule bit_word_eqI)
    fix k :: nat assume "k < LENGTH(8)"
    with i assms show "bit (le_of 8 ((of_le xs :: u64) XOR of_le ys) ! i) k = bit (xor_bytes xs ys ! i) k"
      by (simp add: xor_bytes_def nth_le_of bit_simps bit_of_le)
  qed
qed

lemma u128_xor_bytes:
  assumes "length p = 16" "length q = 16"
  shows "u128_xor p q = Some (xor_bytes p q)"
proof -
  have "xor_bytes p q = xor_bytes (take 8 p) (take 8 q) @ xor_bytes (drop 8 p) (drop 8 q)"
    unfolding xor_bytes_def using assms
    by (metis append_take_drop_id length_take map_append zip_append)
  then show ?thesis using assms by (simp add: u128_xor_def rd_take le_of_xor)
qed

lemma length_xor_bytes [simp]: "length (xor_bytes p q) = min (length p) (length q)"
  by (simp add: xor_bytes_def)

section \<open>The functions on a kernel that answers\<close>

text \<open>
  \<open>answers K\<close>: the \<open>AF_ALG\<close> sockets return sixteen bytes for a sixteen byte key.  \<open>aes K\<close> and
  \<open>mac K\<close> are their answers with the byte order of the Bluetooth functions, least significant
  first.
\<close>

definition answers :: "kalg \<Rightarrow> bool" where
  "answers K \<longleftrightarrow> (\<forall>key x. length key = 16 \<longrightarrow>
     (\<exists>y. ecb_aes K key x = Some y \<and> length y = 16) \<and> (\<exists>y. cmac_aes K key x = Some y \<and> length y = 16))"

definition aes :: "kalg \<Rightarrow> buf \<Rightarrow> buf \<Rightarrow> buf" where
  "aes K key x = rev (the (ecb_aes K (rev key) (rev x)))"

definition mac :: "kalg \<Rightarrow> buf \<Rightarrow> buf \<Rightarrow> buf" where
  "mac K key x = rev (the (cmac_aes K (rev key) (rev x)))"

lemma crypto_e_aes:
  assumes "answers K" "length key = 16" "length x = 16"
  shows "bt_crypto_e (Ptr K) key x = Some (Some (aes K key x))" "length (aes K key x) = 16"
proof -
  have "\<exists>y. ecb_aes K (rev key) (rev x) = Some y \<and> length y = 16"
    using assms(1,2) by (simp add: answers_def)
  then show "bt_crypto_e (Ptr K) key x = Some (Some (aes K key x))" "length (aes K key x) = 16"
    using assms(2,3) by (auto simp: bt_crypto_e_def swap_buf_def rd_take aes_def)
qed

lemma cmac_mac:
  assumes "answers K" "length key = 16" "length x = unat n" "n \<le> 80"
  shows "aes_cmac (Ptr K) key x n = Some (Some (mac K key x))" "length (mac K key x) = 16"
proof -
  have "\<exists>y. cmac_aes K (rev key) (rev x) = Some y \<and> length y = 16"
    using assms(1,2) by (simp add: answers_def)
  then show "aes_cmac (Ptr K) key x n = Some (Some (mac K key x))" "length (mac K key x) = 16"
    using assms(2-) by (auto simp: aes_cmac_def swap_buf_def rd_take mac_def)
qed

text \<open>A kernel whose answer is the message itself, cut or padded to sixteen bytes.\<close>

definition echo_alg :: kalg where
  "echo_alg = \<lparr>ecb_aes = \<lambda>_ x. Some (take 16 (x @ replicate 16 0)),
               cmac_aes = \<lambda>_ x. Some (take 16 (x @ replicate 16 0))\<rparr>"

lemma answers_echo: "answers echo_alg"
  by (auto simp: answers_def echo_alg_def)

section \<open>Properties\<close>

text \<open>
  The legacy pairing functions compute the formulas of the Security Manager:
  \<open>c1 = e(k, e(k, r xor p1) xor p2)\<close> with \<open>p1\<close> the address types, the request and the response
  and \<open>p2\<close> the addresses padded with zeroes, \<open>s1 = e(k, r1' || r2')\<close> on the low halves, and \<open>ah\<close>
  the low 24 bits of \<open>e(k, 0 || r)\<close>.
\<close>

theorem legacy_pairing_functions:
  assumes "answers K" "length k = 16" "length r = 16" "length pres = 7" "length preq = 7"
    "length ia = 6" "length ra = 6" "length r1 = 16" "length r2 = 16" "length pr = 3"
  shows "bt_crypto_c1 (Ptr K) k r pres preq iat ia rat ra =
      Some (True, aes K k (xor_bytes (aes K k (xor_bytes r ([iat, rat] @ preq @ pres)))
                                     (ra @ ia @ replicate 4 0))) \<and>
    bt_crypto_s1 (Ptr K) k r1 r2 = Some (True, aes K k (take 8 r2 @ take 8 r1)) \<and>
    bt_crypto_ah (Ptr K) k pr = Some (Some (take 3 (aes K k (pr @ replicate 13 0))))"
  using assms
  by (simp add: bt_crypto_c1_def bt_crypto_s1_def bt_crypto_ah_def rd_take u128_xor_bytes crypto_e_aes)

theorem legacy_pairing_functions_witness:
  "bt_crypto_ah (Ptr echo_alg) (replicate 16 0) [1, 2, 3] = Some (Some [1, 2, 3])"
  using legacy_pairing_functions [OF answers_echo, of "replicate 16 0" "replicate 16 0" "replicate 7 0"
      "replicate 7 0" "replicate 6 0" "replicate 6 0" "replicate 16 0" "replicate 16 0" "[1, 2, 3]" 0 0]
  by (simp add: aes_def echo_alg_def)

text \<open>
  The secure connections functions hand the kernel the concatenations of the specification,
  none longer than the 80 bytes their buffer has: \<open>f4\<close> the confirm value over \<open>u || v || z\<close>, \<open>f5\<close>
  the MacKey and the LTK from counters 0 and 1 under the key derived with the fixed salt, \<open>f6\<close> the
  check value, and \<open>g2\<close> a number of at most six decimal digits.
\<close>

theorem secure_connections_functions:
  assumes "answers K" "length u = 32" "length v = 32" "length x = 16" "length y = 16"
    "length w = 32" "length n1 = 16" "length n2 = 16" "length a1 = 7" "length a2 = 7"
    "length r = 16" "length io = 3"
  defines "t \<equiv> mac K f5_salt w"
  defines "m \<equiv> [0x00, 0x01] @ a2 @ a1 @ n2 @ n1 @ f5_btle"
  shows "bt_crypto_f4 (Ptr K) u v x z = Some (Some (mac K x ([z] @ v @ u))) \<and>
    bt_crypto_f5 (Ptr K) w n1 n2 a1 a2 mk ltk = Some (True, mac K t (m @ [0]), mac K t (m @ [1])) \<and>
    bt_crypto_f6 (Ptr K) x n1 n2 r io a1 a2 = Some (Some (mac K x (a2 @ a1 @ io @ r @ n2 @ n1))) \<and>
    (\<exists>d < 1000000. bt_crypto_g2 (Ptr K) u v x y = Some (Some d))"
proof -
  have s: "length f5_salt = 16" "length f5_btle = 4" by (simp_all add: f5_salt_def f5_btle_def)
  have t: "length t = 16" unfolding t_def using cmac_mac(2) [of K f5_salt w 32] assms(1,6) s by simp
  have f5: "bt_crypto_f5 (Ptr K) w n1 n2 a1 a2 mk ltk = Some (True, mac K t (m @ [0]), mac K t (m @ [1]))"
    using assms(1-12) s t
    by (simp add: bt_crypto_f5_def rd_take cmac_mac(1) t_def [symmetric] m_def)
  have 80: "length (mac K x (y @ v @ u)) = 16"
    using assms(1-5) by (intro cmac_mac(2) [of _ _ _ 80]) simp_all
  have "get_le32 (mac K x (y @ v @ u)) 0 \<noteq> None" using 80 by (simp add: get_le32_def rd_def)
  then obtain d where d: "get_le32 (mac K x (y @ v @ u)) 0 = Some d" by blast
  have "d mod 1000000 < 1000000" by (simp add: word_less_nat_alt unat_mod)
  then have "\<exists>d < 1000000. bt_crypto_g2 (Ptr K) u v x y = Some (Some d)"
    using assms(1-5) d by (auto simp: bt_crypto_g2_def rd_take cmac_mac(1))
  then show ?thesis using assms(1-12) f5 by (simp add: bt_crypto_f4_def bt_crypto_f6_def rd_take cmac_mac(1))
qed

theorem secure_connections_functions_witness:
  "\<exists>d < 1000000. bt_crypto_g2 (Ptr echo_alg) (replicate 32 1) (replicate 32 2) (replicate 16 3)
     (replicate 16 4) = Some (Some d)"
  using secure_connections_functions [OF answers_echo, of "replicate 32 1" "replicate 32 2" "replicate 16 3"
      "replicate 16 4" "replicate 32 0" "replicate 16 0" "replicate 16 0" "replicate 7 0" "replicate 7 0"
      "replicate 16 0" "replicate 3 0" 0 "[]" "[]"]
  by simp

end
