(* ===== verification/Att.thy ===== *)
theory Att
  imports Uuid Crypto
begin

text \<open>
  \<open>attrib/att.c\<close> and \<open>attrib/att.h\<close>: the encoders and decoders of the Attribute Protocol PDUs
  that \<open>gatttool\<close> exchanges with a peer.

  An encoder takes the output buffer and the size the caller states for it, and returns the
  number of bytes of the PDU (0 for a refusal) with the buffer afterwards.  A decoder takes the
  PDU, its stated length and the output locations, and returns its result with the contents of
  the locations afterwards.  Sizes are \<open>size_t\<close> words, so \<open>len - min_len\<close> wraps as in the code.
  A pointer the code compares with \<open>NULL\<close> or dereferences unchecked is a \<open>ptr\<close>; the input
  value of an encoder, which the code only passes to \<open>memcpy\<close>, is its object.
\<close>

section \<open>Constants and data\<close>

abbreviation (input) ATT_OP_ERROR :: u8 where "ATT_OP_ERROR \<equiv> 0x01"
abbreviation (input) ATT_OP_MTU_REQ :: u8 where "ATT_OP_MTU_REQ \<equiv> 0x02"
abbreviation (input) ATT_OP_MTU_RESP :: u8 where "ATT_OP_MTU_RESP \<equiv> 0x03"
abbreviation (input) ATT_OP_FIND_INFO_REQ :: u8 where "ATT_OP_FIND_INFO_REQ \<equiv> 0x04"
abbreviation (input) ATT_OP_FIND_INFO_RESP :: u8 where "ATT_OP_FIND_INFO_RESP \<equiv> 0x05"
abbreviation (input) ATT_OP_FIND_BY_TYPE_REQ :: u8 where "ATT_OP_FIND_BY_TYPE_REQ \<equiv> 0x06"
abbreviation (input) ATT_OP_FIND_BY_TYPE_RESP :: u8 where "ATT_OP_FIND_BY_TYPE_RESP \<equiv> 0x07"
abbreviation (input) ATT_OP_READ_BY_TYPE_REQ :: u8 where "ATT_OP_READ_BY_TYPE_REQ \<equiv> 0x08"
abbreviation (input) ATT_OP_READ_BY_TYPE_RESP :: u8 where "ATT_OP_READ_BY_TYPE_RESP \<equiv> 0x09"
abbreviation (input) ATT_OP_READ_REQ :: u8 where "ATT_OP_READ_REQ \<equiv> 0x0A"
abbreviation (input) ATT_OP_READ_RESP :: u8 where "ATT_OP_READ_RESP \<equiv> 0x0B"
abbreviation (input) ATT_OP_READ_BLOB_REQ :: u8 where "ATT_OP_READ_BLOB_REQ \<equiv> 0x0C"
abbreviation (input) ATT_OP_READ_BLOB_RESP :: u8 where "ATT_OP_READ_BLOB_RESP \<equiv> 0x0D"
abbreviation (input) ATT_OP_READ_BY_GROUP_REQ :: u8 where "ATT_OP_READ_BY_GROUP_REQ \<equiv> 0x10"
abbreviation (input) ATT_OP_READ_BY_GROUP_RESP :: u8 where "ATT_OP_READ_BY_GROUP_RESP \<equiv> 0x11"
abbreviation (input) ATT_OP_WRITE_REQ :: u8 where "ATT_OP_WRITE_REQ \<equiv> 0x12"
abbreviation (input) ATT_OP_WRITE_RESP :: u8 where "ATT_OP_WRITE_RESP \<equiv> 0x13"
abbreviation (input) ATT_OP_WRITE_CMD :: u8 where "ATT_OP_WRITE_CMD \<equiv> 0x52"
abbreviation (input) ATT_OP_PREP_WRITE_REQ :: u8 where "ATT_OP_PREP_WRITE_REQ \<equiv> 0x16"
abbreviation (input) ATT_OP_PREP_WRITE_RESP :: u8 where "ATT_OP_PREP_WRITE_RESP \<equiv> 0x17"
abbreviation (input) ATT_OP_EXEC_WRITE_REQ :: u8 where "ATT_OP_EXEC_WRITE_REQ \<equiv> 0x18"
abbreviation (input) ATT_OP_EXEC_WRITE_RESP :: u8 where "ATT_OP_EXEC_WRITE_RESP \<equiv> 0x19"
abbreviation (input) ATT_OP_HANDLE_NOTIFY :: u8 where "ATT_OP_HANDLE_NOTIFY \<equiv> 0x1B"
abbreviation (input) ATT_OP_HANDLE_IND :: u8 where "ATT_OP_HANDLE_IND \<equiv> 0x1D"
abbreviation (input) ATT_OP_HANDLE_CNF :: u8 where "ATT_OP_HANDLE_CNF \<equiv> 0x1E"
abbreviation (input) ATT_OP_SIGNED_WRITE_CMD :: u8 where "ATT_OP_SIGNED_WRITE_CMD \<equiv> 0xD2"

abbreviation (input) ATT_ECODE_INVALID_PDU :: u8 where "ATT_ECODE_INVALID_PDU \<equiv> 0x04"
abbreviation (input) ATT_ECODE_ATTR_NOT_FOUND :: u8 where "ATT_ECODE_ATTR_NOT_FOUND \<equiv> 0x0A"
abbreviation (input) ATT_ECODE_UNLIKELY :: u8 where "ATT_ECODE_UNLIKELY \<equiv> 0x0E"
abbreviation (input) ATT_ECODE_INSUFF_RESOURCES :: u8 where "ATT_ECODE_INSUFF_RESOURCES \<equiv> 0x11"
abbreviation (input) ATT_ECODE_IO :: u8 where "ATT_ECODE_IO \<equiv> 0x80"
abbreviation (input) ATT_WRITE_ALL_PREP_WRITES :: u8 where "ATT_WRITE_ALL_PREP_WRITES \<equiv> 0x01"
abbreviation (input) ATT_FIND_INFO_RESP_FMT_16BIT :: u8 where "ATT_FIND_INFO_RESP_FMT_16BIT \<equiv> 0x01"

definition ENOBUFS :: int where
  "ENOBUFS = 105"

record att_data_list =
  adl_num :: u16
  adl_len :: u16
  adl_data :: "buf list"

record att_range =
  rstart :: u16
  rend :: u16

definition att_ecode2str :: "u8 \<Rightarrow> string" where
  "att_ecode2str status =
     (if status = 0x01 then ''Invalid handle''
      else if status = 0x02 then ''Attribute can't be read''
      else if status = 0x03 then ''Attribute can't be written''
      else if status = 0x04 then ''Attribute PDU was invalid''
      else if status = 0x05 then ''Attribute requires authentication before read/write''
      else if status = 0x06 then ''Server doesn't support the request received''
      else if status = 0x07 then ''Offset past the end of the attribute''
      else if status = 0x08 then ''Attribute requires authorization before read/write''
      else if status = 0x09 then ''Too many prepare writes have been queued''
      else if status = 0x0A then ''No attribute found within the given range''
      else if status = 0x0B then ''Attribute can't be read/written using Read Blob Req''
      else if status = 0x0C then ''Encryption Key Size is insufficient''
      else if status = 0x0D then ''Attribute value length is invalid''
      else if status = 0x0E then ''Request attribute has encountered an unlikely error''
      else if status = 0x0F then ''Encryption required before read/write''
      else if status = 0x10 then ''Attribute type is not a supported grouping attribute''
      else if status = 0x11 then ''Insufficient Resources to complete the request''
      else if status = 0x80 then ''Internal application error: I/O''
      else if status = 0x81 then ''A timeout occured''
      else if status = 0x82 then ''The operation was aborted''
      else ''Unexpected error code'')"

section \<open>Shared helpers\<close>

definition put_uuid_le :: "bt_uuid \<Rightarrow> buf \<Rightarrow> nat \<Rightarrow> buf option" where
  "put_uuid_le src dst i =
     (case src of
        BT_UUID16 v \<Rightarrow> put_le16 v dst i
      | _ \<Rightarrow> do { s \<leftarrow> bswap_128 (uuid_u128 src) 0; wr dst i s })"

text \<open>\<open>type\<close> is 16 (\<open>BT_UUID16\<close>) or anything else, which is read as 128.\<close>

definition get_uuid :: "u8 \<Rightarrow> buf \<Rightarrow> nat \<Rightarrow> bt_uuid option" where
  "get_uuid type val i =
     (if type = 16 then do { v \<leftarrow> get_le16 val i; Some (snd (bt_uuid16_create v)) }
      else do { u128 \<leftarrow> bswap_128 val i; Some (snd (bt_uuid128_create u128)) })"

text \<open>
  Shared by the encoders that carry a value: \<open>if (vlen > len - min_len) vlen = len - min_len\<close>,
  and the copy of the value behind the \<open>min_len\<close> bytes of the header with the return value.
\<close>

definition clamp_vlen :: "size_t \<Rightarrow> size_t \<Rightarrow> u16 \<Rightarrow> size_t" where
  "clamp_vlen vlen len min_len =
     (if len - ucast min_len < vlen then len - ucast min_len else vlen)"

definition put_value :: "buf \<Rightarrow> size_t \<Rightarrow> u16 \<Rightarrow> buf \<Rightarrow> (u16 \<times> buf ptr) option" where
  "put_value val vlen min_len p =
     (if 0 < vlen then do {
        s \<leftarrow> rd val 0 (unat vlen);
        p \<leftarrow> wr p (unat min_len) s;
        Some (min_len + ucast vlen, Ptr p) }
      else Some (min_len, Ptr p))"

definition att_data_list_alloc :: "u16 \<Rightarrow> u16 \<Rightarrow> att_data_list ptr" where
  "att_data_list_alloc num len =
     (if 255 < len then NULL
      else Ptr \<lparr>adl_num = num, adl_len = len,
                adl_data = replicate (unat num) (replicate (unat len) 0)\<rparr>)"

definition row :: "buf list \<Rightarrow> nat \<Rightarrow> buf option" where
  "row ds i = (if i < length ds then Some (ds ! i) else None)"

text \<open>
  The decoders' loop: \<open>memcpy(list->data[i], ptr, list->len); ptr += list->len\<close> for the \<open>k\<close>
  remaining rows.
\<close>

primrec fill_rows :: "nat \<Rightarrow> buf \<Rightarrow> nat \<Rightarrow> nat \<Rightarrow> nat \<Rightarrow> buf list \<Rightarrow> buf list option" where
  "fill_rows 0 pdu off len i ds = Some ds"
| "fill_rows (Suc k) pdu off len i ds = do {
     s \<leftarrow> rd pdu off len;
     d \<leftarrow> row ds i;
     d \<leftarrow> wr d 0 s;
     fill_rows k pdu (off + len) len (Suc i) (ds[i := d]) }"

text \<open>
  The encoders' loop over the rows, for a write counter \<open>w\<close> kept in \<open>uint16_t\<close> and in
  \<open>size_t\<close>; \<open>off\<close> is the position of \<open>ptr\<close> in the PDU and \<open>k\<close> the rows left.
\<close>

primrec copy_rows16 ::
    "nat \<Rightarrow> att_data_list \<Rightarrow> size_t \<Rightarrow> nat \<Rightarrow> u16 \<Rightarrow> nat \<Rightarrow> buf \<Rightarrow> (u16 \<times> buf) option" where
  "copy_rows16 0 l len i w off p = Some (w, p)"
| "copy_rows16 (Suc k) l len i w off p =
     (if (ucast w :: size_t) + ucast (adl_len l) \<le> len then do {
        d \<leftarrow> row (adl_data l) i;
        s \<leftarrow> rd d 0 (unat (adl_len l));
        p \<leftarrow> wr p off s;
        copy_rows16 k l len (Suc i) (w + adl_len l) (off + unat (adl_len l)) p }
      else Some (w, p))"

primrec copy_rows ::
    "nat \<Rightarrow> att_data_list \<Rightarrow> size_t \<Rightarrow> size_t \<Rightarrow> nat \<Rightarrow> size_t \<Rightarrow> nat \<Rightarrow> buf \<Rightarrow> (size_t \<times> buf) option" where
  "copy_rows 0 list l len i w off p = Some (w, p)"
| "copy_rows (Suc k) list l len i w off p =
     (if w + l \<le> len then do {
        d \<leftarrow> row (adl_data list) i;
        s \<leftarrow> rd d 0 (unat l);
        p \<leftarrow> wr p off s;
        copy_rows k list l len (Suc i) (w + l) (off + unat l) p }
      else Some (w, p))"

section \<open>Read By Group Type\<close>

text \<open>The length of the two UUID forms a request can carry.\<close>

definition att_uuid_len :: "bt_uuid \<Rightarrow> u16 option" where
  "att_uuid_len u = (case u of BT_UUID16 _ \<Rightarrow> Some 2 | BT_UUID128 _ \<Rightarrow> Some 16 | _ \<Rightarrow> None)"

definition enc_read_by_grp_req ::
    "u16 \<Rightarrow> u16 \<Rightarrow> bt_uuid ptr \<Rightarrow> buf ptr \<Rightarrow> size_t \<Rightarrow> (u16 \<times> buf ptr) option" where
  [att_enc]: "enc_read_by_grp_req start endh uuid pdu len =
     (case uuid of
        NULL \<Rightarrow> Some (0, pdu)
      | Ptr u \<Rightarrow>
          (case att_uuid_len u of
             None \<Rightarrow> Some (0, pdu)
           | Some uuid_len \<Rightarrow> do {
               p \<leftarrow> deref pdu;
               p \<leftarrow> wr8 p 0 ATT_OP_READ_BY_GROUP_REQ;
               p \<leftarrow> put_le16 start p 1;
               p \<leftarrow> put_le16 endh p 3;
               p \<leftarrow> put_uuid_le u p 5;
               Some (5 + uuid_len, Ptr p) }))"

definition dec_read_by_grp_req ::
    "buf ptr \<Rightarrow> size_t \<Rightarrow> u16 ptr \<Rightarrow> u16 ptr \<Rightarrow> bt_uuid ptr \<Rightarrow>
       (u16 \<times> u16 ptr \<times> u16 ptr \<times> bt_uuid ptr) option" where
  [att_dec]: "dec_read_by_grp_req pdu len start endh uuid =
     (let min_len = 5; fail = Some (0, start, endh, uuid) in
      case (pdu, start, endh, uuid) of
        (Ptr p, Ptr _, Ptr _, Ptr _) \<Rightarrow> do {
          op \<leftarrow> rd8 p 0;
          if op \<noteq> ATT_OP_READ_BY_GROUP_REQ then fail
          else if len = min_len + 2 \<or> len = min_len + 16 then do {
            let type = (if len = min_len + 2 then 16 else 128);
            s \<leftarrow> get_le16 p 1;
            e \<leftarrow> get_le16 p 3;
            u \<leftarrow> get_uuid type p 5;
            Some (ucast len, Ptr s, Ptr e, Ptr u) }
          else fail }
      | _ \<Rightarrow> fail)"

definition enc_read_by_grp_resp ::
    "att_data_list ptr \<Rightarrow> buf ptr \<Rightarrow> size_t \<Rightarrow> (u16 \<times> buf ptr) option" where
  [att_enc]: "enc_read_by_grp_resp list pdu len =
     (case list of
        NULL \<Rightarrow> Some (0, pdu)
      | Ptr l \<Rightarrow>
          if len < ucast (adl_len l) + 2 then Some (0, pdu)
          else do {
            p \<leftarrow> deref pdu;
            p \<leftarrow> wr8 p 0 ATT_OP_READ_BY_GROUP_RESP;
            p \<leftarrow> wr8 p 1 (ucast (adl_len l));
            (w, p) \<leftarrow> copy_rows16 (unat (adl_num l)) l len 0 2 2 p;
            Some (w, Ptr p) })"

definition dec_read_by_grp_resp :: "buf ptr \<Rightarrow> size_t \<Rightarrow> att_data_list ptr option" where
  [att_dec]: "dec_read_by_grp_resp pdu len = do {
     p \<leftarrow> deref pdu;
     op \<leftarrow> rd8 p 0;
     if op \<noteq> ATT_OP_READ_BY_GROUP_RESP then Some NULL
     else if len < 7 then Some NULL
     else do {
       e \<leftarrow> rd8 p 1;
       let elen = (ucast e :: u16);
       if elen < 5 then Some NULL
       else if (len - 2) mod ucast elen \<noteq> 0 then Some NULL
       else do {
         let num = ucast ((len - 2) div ucast elen);
         (case att_data_list_alloc num elen of
            NULL \<Rightarrow> Some NULL
          | Ptr list \<Rightarrow> do {
              ds \<leftarrow> fill_rows (unat num) p 2 (unat (adl_len list)) 0 (adl_data list);
              Some (Ptr (list\<lparr>adl_data := ds\<rparr>)) }) } } }"

section \<open>Find By Type Value\<close>

definition enc_find_by_type_req ::
    "u16 \<Rightarrow> u16 \<Rightarrow> bt_uuid ptr \<Rightarrow> buf \<Rightarrow> size_t \<Rightarrow> buf ptr \<Rightarrow> size_t \<Rightarrow> (u16 \<times> buf ptr) option" where
  [att_enc]: "enc_find_by_type_req start endh uuid val vlen pdu len =
     (let min_len = 7 :: u16 in
      case (pdu, uuid) of
        (Ptr p, Ptr (BT_UUID16 v)) \<Rightarrow> do {
          let vlen = clamp_vlen vlen len min_len;
          p \<leftarrow> wr8 p 0 ATT_OP_FIND_BY_TYPE_REQ;
          p \<leftarrow> put_le16 start p 1;
          p \<leftarrow> put_le16 endh p 3;
          p \<leftarrow> put_le16 v p 5;
          put_value val vlen min_len p }
      | _ \<Rightarrow> Some (0, pdu))"

definition dec_find_by_type_req ::
    "buf ptr \<Rightarrow> size_t \<Rightarrow> u16 ptr \<Rightarrow> u16 ptr \<Rightarrow> bt_uuid ptr \<Rightarrow> buf \<Rightarrow> size_t ptr \<Rightarrow>
       (u16 \<times> u16 ptr \<times> u16 ptr \<times> bt_uuid ptr \<times> buf \<times> size_t ptr) option" where
  [att_dec]: "dec_find_by_type_req pdu len start endh uuid val vlen =
     (let fail = Some (0, start, endh, uuid, val, vlen) in
      case pdu of
        NULL \<Rightarrow> fail
      | Ptr p \<Rightarrow>
          if len < 7 then fail
          else do {
            op \<leftarrow> rd8 p 0;
            if op \<noteq> ATT_OP_FIND_BY_TYPE_REQ then fail
            else do {
              _ \<leftarrow> deref start;
              s \<leftarrow> get_le16 p 1;
              _ \<leftarrow> deref endh;
              e \<leftarrow> get_le16 p 3;
              _ \<leftarrow> deref uuid;
              u \<leftarrow> get_le16 p 5;
              _ \<leftarrow> deref vlen;
              let n = len - 7;
              if 0 < n then do {
                b \<leftarrow> rd p 7 (unat n);
                v \<leftarrow> wr val 0 b;
                Some (ucast len, Ptr s, Ptr e, Ptr (snd (bt_uuid16_create u)), v, Ptr n) }
              else Some (ucast len, Ptr s, Ptr e, Ptr (snd (bt_uuid16_create u)), val, Ptr n) } })"

primrec put_ranges :: "att_range list \<Rightarrow> size_t \<Rightarrow> u16 \<Rightarrow> buf \<Rightarrow> (u16 \<times> buf) option" where
  "put_ranges [] len offset p = Some (offset, p)"
| "put_ranges (r # rs) len offset p =
     (if (ucast offset :: size_t) + 4 \<le> len then do {
        p \<leftarrow> put_le16 (rstart r) p (unat offset);
        p \<leftarrow> put_le16 (rend r) p (unat offset + 2);
        put_ranges rs len (offset + 4) p }
      else Some (offset, p))"

definition enc_find_by_type_resp ::
    "att_range list \<Rightarrow> buf ptr \<Rightarrow> size_t \<Rightarrow> (u16 \<times> buf ptr) option" where
  [att_enc]: "enc_find_by_type_resp matches pdu len =
     (case pdu of
        NULL \<Rightarrow> Some (0, NULL)
      | Ptr p \<Rightarrow> do {
          p \<leftarrow> wr8 p 0 ATT_OP_FIND_BY_TYPE_RESP;
          (offset, p) \<leftarrow> put_ranges matches len 1 p;
          Some (offset, Ptr p) })"

text \<open>
  The loop of the decoder; \<open>off_t\<close> has 64 bits in the build, so the offset does not wrap.
\<close>

function get_ranges :: "buf \<Rightarrow> nat \<Rightarrow> nat \<Rightarrow> att_range list option" where
  "get_ranges p len offset =
     (if offset + 4 \<le> len then do {
        s \<leftarrow> get_le16 p offset;
        e \<leftarrow> get_le16 p (offset + 2);
        rs \<leftarrow> get_ranges p len (offset + 4);
        Some (\<lparr>rstart = s, rend = e\<rparr> # rs) }
      else Some [])"
  by pat_completeness auto
termination
  by (relation "measure (\<lambda>(p, len, offset). len - offset)") auto

declare get_ranges.simps [simp del]

text \<open>The result is a \<open>GSList\<close>, whose empty list is \<open>NULL\<close>.\<close>

definition dec_find_by_type_resp :: "buf ptr \<Rightarrow> size_t \<Rightarrow> att_range list option" where
  [att_dec]: "dec_find_by_type_resp pdu len =
     (case pdu of
        NULL \<Rightarrow> Some []
      | Ptr p \<Rightarrow>
          if len < 5 then Some []
          else do {
            op \<leftarrow> rd8 p 0;
            if op \<noteq> ATT_OP_FIND_BY_TYPE_RESP then Some []
            else if (len - 1) mod 4 \<noteq> 0 then Some []
            else get_ranges p (unat len) 1 })"

section \<open>Read By Type\<close>

definition enc_read_by_type_req ::
    "u16 \<Rightarrow> u16 \<Rightarrow> bt_uuid ptr \<Rightarrow> buf ptr \<Rightarrow> size_t \<Rightarrow> (u16 \<times> buf ptr) option" where
  [att_enc]: "enc_read_by_type_req start endh uuid pdu len =
     (case uuid of
        NULL \<Rightarrow> Some (0, pdu)
      | Ptr u \<Rightarrow>
          (case att_uuid_len u of
             None \<Rightarrow> Some (0, pdu)
           | Some uuid_len \<Rightarrow> do {
               p \<leftarrow> deref pdu;
               p \<leftarrow> wr8 p 0 ATT_OP_READ_BY_TYPE_REQ;
               p \<leftarrow> put_le16 start p 1;
               p \<leftarrow> put_le16 endh p 3;
               p \<leftarrow> put_uuid_le u p 5;
               Some (5 + uuid_len, Ptr p) }))"

definition dec_read_by_type_req ::
    "buf ptr \<Rightarrow> size_t \<Rightarrow> u16 ptr \<Rightarrow> u16 ptr \<Rightarrow> bt_uuid ptr \<Rightarrow>
       (u16 \<times> u16 ptr \<times> u16 ptr \<times> bt_uuid ptr) option" where
  [att_dec]: "dec_read_by_type_req pdu len start endh uuid =
     (let min_len = 5; fail = Some (0, start, endh, uuid) in
      case (pdu, start, endh, uuid) of
        (Ptr p, Ptr _, Ptr _, Ptr _) \<Rightarrow>
          if len = min_len + 2 \<or> len = min_len + 16 then do {
            let type = (if len = min_len + 2 then 16 else 128);
            op \<leftarrow> rd8 p 0;
            if op \<noteq> ATT_OP_READ_BY_TYPE_REQ then fail
            else do {
              s \<leftarrow> get_le16 p 1;
              e \<leftarrow> get_le16 p 3;
              u \<leftarrow> get_uuid type p 5;
              Some (ucast len, Ptr s, Ptr e, Ptr u) } }
          else fail
      | _ \<Rightarrow> fail)"

definition enc_read_by_type_resp ::
    "att_data_list ptr \<Rightarrow> buf ptr \<Rightarrow> size_t \<Rightarrow> (u16 \<times> buf ptr) option" where
  [att_enc]: "enc_read_by_type_resp list pdu len =
     (case (list, pdu) of
        (Ptr ls, Ptr p) \<Rightarrow> do {
          let l = min_of (len - 2) (ucast (adl_len ls));
          p \<leftarrow> wr8 p 0 ATT_OP_READ_BY_TYPE_RESP;
          p \<leftarrow> wr8 p 1 (ucast l);
          (w, p) \<leftarrow> copy_rows (unat (adl_num ls)) ls l len 0 2 2 p;
          Some (ucast w, Ptr p) }
      | _ \<Rightarrow> Some (0, pdu))"

definition dec_read_by_type_resp :: "buf ptr \<Rightarrow> size_t \<Rightarrow> att_data_list ptr option" where
  [att_dec]: "dec_read_by_type_resp pdu len = do {
     p \<leftarrow> deref pdu;
     op \<leftarrow> rd8 p 0;
     if op \<noteq> ATT_OP_READ_BY_TYPE_RESP then Some NULL
     else if len < 5 then Some NULL
     else do {
       e \<leftarrow> rd8 p 1;
       let elen = (ucast e :: u16);
       if elen < 3 then Some NULL
       else if (len - 2) mod ucast elen \<noteq> 0 then Some NULL
       else do {
         let num = ucast ((len - 2) div ucast elen);
         (case att_data_list_alloc num elen of
            NULL \<Rightarrow> Some NULL
          | Ptr list \<Rightarrow> do {
              ds \<leftarrow> fill_rows (unat num) p 2 (unat (adl_len list)) 0 (adl_data list);
              Some (Ptr (list\<lparr>adl_data := ds\<rparr>)) }) } } }"

section \<open>Writes\<close>

definition enc_write_cmd :: "u16 \<Rightarrow> buf \<Rightarrow> size_t \<Rightarrow> buf ptr \<Rightarrow> size_t \<Rightarrow> (u16 \<times> buf ptr) option" where
  [att_enc]: "enc_write_cmd handle val vlen pdu len =
     (let min_len = 3 :: u16 in
      case pdu of
        NULL \<Rightarrow> Some (0, NULL)
      | Ptr p \<Rightarrow> do {
          let vlen = clamp_vlen vlen len min_len;
          p \<leftarrow> wr8 p 0 ATT_OP_WRITE_CMD;
          p \<leftarrow> put_le16 handle p 1;
          put_value val vlen min_len p })"

definition dec_write_cmd ::
    "buf ptr \<Rightarrow> size_t \<Rightarrow> u16 ptr \<Rightarrow> buf ptr \<Rightarrow> size_t ptr \<Rightarrow>
       (u16 \<times> u16 ptr \<times> buf ptr \<times> size_t ptr) option" where
  [att_dec]: "dec_write_cmd pdu len handle val vlen =
     (let min_len = 3; fail = Some (0, handle, val, vlen) in
      case (pdu, val, vlen, handle) of
        (Ptr p, Ptr v, Ptr _, Ptr _) \<Rightarrow>
          if len < min_len then fail
          else do {
            op \<leftarrow> rd8 p 0;
            if op \<noteq> ATT_OP_WRITE_CMD then fail
            else do {
              h \<leftarrow> get_le16 p 1;
              s \<leftarrow> rd p 3 (unat (len - min_len));
              v \<leftarrow> wr v 0 s;
              Some (ucast len, Ptr h, Ptr v, Ptr (len - min_len)) } }
      | _ \<Rightarrow> fail)"

definition enc_signed_write_cmd ::
    "u16 \<Rightarrow> buf \<Rightarrow> size_t \<Rightarrow> kalg ptr \<Rightarrow> buf \<Rightarrow> u32 \<Rightarrow> buf ptr \<Rightarrow> size_t \<Rightarrow> (u16 \<times> buf ptr) option" where
  [att_enc]: "enc_signed_write_cmd handle val vlen crypto csrk sign_cnt pdu len =
     (let hdr_len = 3 :: u16; min_len = hdr_len + 12 in
      case pdu of
        NULL \<Rightarrow> Some (0, NULL)
      | Ptr p \<Rightarrow> do {
          let vlen = clamp_vlen vlen len min_len;
          p \<leftarrow> wr8 p 0 ATT_OP_SIGNED_WRITE_CMD;
          p \<leftarrow> put_le16 handle p 1;
          p \<leftarrow> (if 0 < vlen then do { s \<leftarrow> rd val 0 (unat vlen); wr p (unat hdr_len) s } else Some p);
          sg \<leftarrow> bt_crypto_sign_att crypto csrk p (hdr_len + ucast vlen) sign_cnt;
          (case sg of
             None \<Rightarrow> Some (0, Ptr p)
           | Some s \<Rightarrow> do {
               p \<leftarrow> wr p (unat hdr_len + unat vlen) s;
               Some (min_len + ucast vlen, Ptr p) }) })"

definition dec_signed_write_cmd ::
    "buf ptr \<Rightarrow> size_t \<Rightarrow> u16 ptr \<Rightarrow> buf ptr \<Rightarrow> size_t ptr \<Rightarrow> buf \<Rightarrow>
       (u16 \<times> u16 ptr \<times> buf ptr \<times> size_t ptr \<times> buf) option" where
  [att_dec]: "dec_signed_write_cmd pdu len handle val vlen signature =
     (let hdr_len = 3; min_len = hdr_len + 12; fail = Some (0, handle, val, vlen, signature) in
      case (pdu, val, vlen, handle) of
        (Ptr p, Ptr v, Ptr _, Ptr _) \<Rightarrow>
          if len < min_len then fail
          else do {
            op \<leftarrow> rd8 p 0;
            if op \<noteq> ATT_OP_SIGNED_WRITE_CMD then fail
            else do {
              let n = len - min_len;
              h \<leftarrow> get_le16 p 1;
              s \<leftarrow> rd p 3 (unat n);
              v \<leftarrow> wr v 0 s;
              sg \<leftarrow> rd p (3 + unat n) 12;
              signature \<leftarrow> wr signature 0 sg;
              Some (ucast len, Ptr h, Ptr v, Ptr n, signature) } }
      | _ \<Rightarrow> fail)"

definition enc_write_req :: "u16 \<Rightarrow> buf \<Rightarrow> size_t \<Rightarrow> buf ptr \<Rightarrow> size_t \<Rightarrow> (u16 \<times> buf ptr) option" where
  [att_enc]: "enc_write_req handle val vlen pdu len =
     (let min_len = 3 :: u16 in
      case pdu of
        NULL \<Rightarrow> Some (0, NULL)
      | Ptr p \<Rightarrow> do {
          let vlen = clamp_vlen vlen len min_len;
          p \<leftarrow> wr8 p 0 ATT_OP_WRITE_REQ;
          p \<leftarrow> put_le16 handle p 1;
          put_value val vlen min_len p })"

definition dec_write_req ::
    "buf ptr \<Rightarrow> size_t \<Rightarrow> u16 ptr \<Rightarrow> buf ptr \<Rightarrow> size_t ptr \<Rightarrow>
       (u16 \<times> u16 ptr \<times> buf ptr \<times> size_t ptr) option" where
  [att_dec]: "dec_write_req pdu len handle val vlen =
     (let min_len = 3; fail = Some (0, handle, val, vlen) in
      case (pdu, val, vlen, handle) of
        (Ptr p, Ptr v, Ptr _, Ptr _) \<Rightarrow>
          if len < min_len then fail
          else do {
            op \<leftarrow> rd8 p 0;
            if op \<noteq> ATT_OP_WRITE_REQ then fail
            else do {
              h \<leftarrow> get_le16 p 1;
              let n = len - min_len;
              if 0 < n then do {
                s \<leftarrow> rd p 3 (unat n);
                v \<leftarrow> wr v 0 s;
                Some (ucast len, Ptr h, Ptr v, Ptr n) }
              else Some (ucast len, Ptr h, Ptr v, Ptr n) } }
      | _ \<Rightarrow> fail)"

definition enc_write_resp :: "buf ptr \<Rightarrow> (u16 \<times> buf ptr) option" where
  [att_enc]: "enc_write_resp pdu =
     (case pdu of
        NULL \<Rightarrow> Some (0, NULL)
      | Ptr p \<Rightarrow> do { p \<leftarrow> wr8 p 0 ATT_OP_WRITE_RESP; Some (1, Ptr p) })"

definition dec_write_resp :: "buf ptr \<Rightarrow> size_t \<Rightarrow> u16 option" where
  [att_dec]: "dec_write_resp pdu len =
     (case pdu of
        NULL \<Rightarrow> Some 0
      | Ptr p \<Rightarrow> do {
          op \<leftarrow> rd8 p 0;
          if op \<noteq> ATT_OP_WRITE_RESP then Some 0 else Some (ucast len) })"

section \<open>Reads\<close>

definition enc_read_req :: "u16 \<Rightarrow> buf ptr \<Rightarrow> size_t \<Rightarrow> (u16 \<times> buf ptr) option" where
  [att_enc]: "enc_read_req handle pdu len =
     (case pdu of
        NULL \<Rightarrow> Some (0, NULL)
      | Ptr p \<Rightarrow> do {
          p \<leftarrow> wr8 p 0 ATT_OP_READ_REQ;
          p \<leftarrow> put_le16 handle p 1;
          Some (3, Ptr p) })"

definition enc_read_blob_req :: "u16 \<Rightarrow> u16 \<Rightarrow> buf ptr \<Rightarrow> size_t \<Rightarrow> (u16 \<times> buf ptr) option" where
  [att_enc]: "enc_read_blob_req handle offset pdu len =
     (case pdu of
        NULL \<Rightarrow> Some (0, NULL)
      | Ptr p \<Rightarrow> do {
          p \<leftarrow> wr8 p 0 ATT_OP_READ_BLOB_REQ;
          p \<leftarrow> put_le16 handle p 1;
          p \<leftarrow> put_le16 offset p 3;
          Some (5, Ptr p) })"

definition dec_read_req :: "buf ptr \<Rightarrow> size_t \<Rightarrow> u16 ptr \<Rightarrow> (u16 \<times> u16 ptr) option" where
  [att_dec]: "dec_read_req pdu len handle =
     (let min_len = 3 :: u16; fail = Some (0, handle) in
      case (pdu, handle) of
        (Ptr p, Ptr _) \<Rightarrow>
          if len < ucast min_len then fail
          else do {
            op \<leftarrow> rd8 p 0;
            if op \<noteq> ATT_OP_READ_REQ then fail
            else do { h \<leftarrow> get_le16 p 1; Some (min_len, Ptr h) } }
      | _ \<Rightarrow> fail)"

definition dec_read_blob_req ::
    "buf ptr \<Rightarrow> size_t \<Rightarrow> u16 ptr \<Rightarrow> u16 ptr \<Rightarrow> (u16 \<times> u16 ptr \<times> u16 ptr) option" where
  [att_dec]: "dec_read_blob_req pdu len handle offset =
     (let min_len = 5 :: u16; fail = Some (0, handle, offset) in
      case (pdu, handle, offset) of
        (Ptr p, Ptr _, Ptr _) \<Rightarrow>
          if len < ucast min_len then fail
          else do {
            op \<leftarrow> rd8 p 0;
            if op \<noteq> ATT_OP_READ_BLOB_REQ then fail
            else do { h \<leftarrow> get_le16 p 1; o' \<leftarrow> get_le16 p 3; Some (min_len, Ptr h, Ptr o') } }
      | _ \<Rightarrow> fail)"

definition enc_read_resp :: "buf \<Rightarrow> size_t \<Rightarrow> buf ptr \<Rightarrow> size_t \<Rightarrow> (u16 \<times> buf ptr) option" where
  [att_enc]: "enc_read_resp val vlen pdu len =
     (case pdu of
        NULL \<Rightarrow> Some (0, NULL)
      | Ptr p \<Rightarrow> do {
          let vlen = (if len - 1 < vlen then len - 1 else vlen);
          p \<leftarrow> wr8 p 0 ATT_OP_READ_RESP;
          s \<leftarrow> rd val 0 (unat vlen);
          p \<leftarrow> wr p 1 s;
          Some (ucast (vlen + 1), Ptr p) })"

definition enc_read_blob_resp ::
    "buf \<Rightarrow> size_t \<Rightarrow> u16 \<Rightarrow> buf ptr \<Rightarrow> size_t \<Rightarrow> (u16 \<times> buf ptr) option" where
  [att_enc]: "enc_read_blob_resp val vlen offset pdu len =
     (case pdu of
        NULL \<Rightarrow> Some (0, NULL)
      | Ptr p \<Rightarrow> do {
          let vlen = vlen - ucast offset;
          let vlen = (if len - 1 < vlen then len - 1 else vlen);
          p \<leftarrow> wr8 p 0 ATT_OP_READ_BLOB_RESP;
          s \<leftarrow> rd val (unat offset) (unat vlen);
          p \<leftarrow> wr p 1 s;
          Some (ucast (vlen + 1), Ptr p) })"

text \<open>\<open>ssize_t\<close> of 32 bits: \<open>len - 1\<close> is read as a signed word.\<close>

definition dec_read_resp :: "buf ptr \<Rightarrow> size_t \<Rightarrow> buf ptr \<Rightarrow> size_t \<Rightarrow> (int \<times> buf ptr) option" where
  [att_dec]: "dec_read_resp pdu len val vlen =
     (case pdu of
        NULL \<Rightarrow> Some (- EINVAL, val)
      | Ptr p \<Rightarrow> do {
          op \<leftarrow> rd8 p 0;
          if op \<noteq> ATT_OP_READ_RESP then Some (- EINVAL, val)
          else (case val of
             NULL \<Rightarrow> Some (sint (len - 1), NULL)
           | Ptr v \<Rightarrow>
               if vlen < len - 1 then Some (- ENOBUFS, val)
               else do {
                 s \<leftarrow> rd p 1 (unat (len - 1));
                 v \<leftarrow> wr v 0 s;
                 Some (sint (len - 1), Ptr v) }) })"

section \<open>Errors and Find Information\<close>

definition enc_error_resp :: "u8 \<Rightarrow> u16 \<Rightarrow> u8 \<Rightarrow> buf ptr \<Rightarrow> size_t \<Rightarrow> (u16 \<times> buf ptr) option" where
  [att_enc]: "enc_error_resp opcode handle status pdu len = do {
     p \<leftarrow> deref pdu;
     p \<leftarrow> wr8 p 0 ATT_OP_ERROR;
     p \<leftarrow> wr8 p 1 opcode;
     p \<leftarrow> put_le16 handle p 2;
     p \<leftarrow> wr8 p 4 status;
     Some (5, Ptr p) }"

definition enc_find_info_req :: "u16 \<Rightarrow> u16 \<Rightarrow> buf ptr \<Rightarrow> size_t \<Rightarrow> (u16 \<times> buf ptr) option" where
  [att_enc]: "enc_find_info_req start endh pdu len =
     (case pdu of
        NULL \<Rightarrow> Some (0, NULL)
      | Ptr p \<Rightarrow> do {
          p \<leftarrow> wr8 p 0 ATT_OP_FIND_INFO_REQ;
          p \<leftarrow> put_le16 start p 1;
          p \<leftarrow> put_le16 endh p 3;
          Some (5, Ptr p) })"

definition dec_find_info_req ::
    "buf ptr \<Rightarrow> size_t \<Rightarrow> u16 ptr \<Rightarrow> u16 ptr \<Rightarrow> (u16 \<times> u16 ptr \<times> u16 ptr) option" where
  [att_dec]: "dec_find_info_req pdu len start endh =
     (let min_len = 5 :: u16; fail = Some (0, start, endh) in
      case pdu of
        NULL \<Rightarrow> fail
      | Ptr p \<Rightarrow>
          if len < ucast min_len then fail
          else (case (start, endh) of
            (Ptr _, Ptr _) \<Rightarrow> do {
              op \<leftarrow> rd8 p 0;
              if op \<noteq> ATT_OP_FIND_INFO_REQ then fail
              else do { s \<leftarrow> get_le16 p 1; e \<leftarrow> get_le16 p 3; Some (min_len, Ptr s, Ptr e) } }
          | _ \<Rightarrow> fail))"

definition enc_find_info_resp ::
    "u8 \<Rightarrow> att_data_list ptr \<Rightarrow> buf ptr \<Rightarrow> size_t \<Rightarrow> (u16 \<times> buf ptr) option" where
  [att_enc]: "enc_find_info_resp format list pdu len =
     (case (pdu, list) of
        (Ptr p, Ptr l) \<Rightarrow>
          if len < ucast (adl_len l) + 2 then Some (0, pdu)
          else do {
            p \<leftarrow> wr8 p 0 ATT_OP_FIND_INFO_RESP;
            p \<leftarrow> wr8 p 1 format;
            (w, p) \<leftarrow> copy_rows (unat (adl_num l)) l (ucast (adl_len l)) len 0 2 2 p;
            Some (ucast w, Ptr p) }
      | _ \<Rightarrow> Some (0, pdu))"

definition dec_find_info_resp ::
    "buf ptr \<Rightarrow> size_t \<Rightarrow> u8 ptr \<Rightarrow> (att_data_list ptr \<times> u8 ptr) option" where
  [att_dec]: "dec_find_info_resp pdu len format =
     (case (pdu, format) of
        (Ptr p, Ptr _) \<Rightarrow> do {
          op \<leftarrow> rd8 p 0;
          if op \<noteq> ATT_OP_FIND_INFO_RESP then Some (NULL, format)
          else do {
            f \<leftarrow> rd8 p 1;
            let elen = (if f = 0x01 then 2 + 2 else if f = 0x02 then 2 + 16 else 2 :: u16);
            let num = ucast ((len - 2) div ucast elen);
            (case att_data_list_alloc num elen of
               NULL \<Rightarrow> Some (NULL, Ptr f)
             | Ptr list \<Rightarrow> do {
                 ds \<leftarrow> fill_rows (unat num) p 2 (unat (adl_len list)) 0 (adl_data list);
                 Some (Ptr (list\<lparr>adl_data := ds\<rparr>), Ptr f) }) } }
      | _ \<Rightarrow> Some (NULL, format))"

section \<open>Notifications, MTU, prepared writes\<close>

definition enc_notification :: "u16 \<Rightarrow> buf \<Rightarrow> size_t \<Rightarrow> buf ptr \<Rightarrow> size_t \<Rightarrow> (u16 \<times> buf ptr) option" where
  [att_enc]: "enc_notification handle val vlen pdu len =
     (let min_len = 3 :: u16 in
      case pdu of
        NULL \<Rightarrow> Some (0, NULL)
      | Ptr p \<Rightarrow>
          if len < vlen + ucast min_len then Some (0, pdu)
          else do {
            p \<leftarrow> wr8 p 0 ATT_OP_HANDLE_NOTIFY;
            p \<leftarrow> put_le16 handle p 1;
            s \<leftarrow> rd val 0 (unat vlen);
            p \<leftarrow> wr p 3 s;
            Some (ucast vlen + min_len, Ptr p) })"

definition enc_indication :: "u16 \<Rightarrow> buf \<Rightarrow> size_t \<Rightarrow> buf ptr \<Rightarrow> size_t \<Rightarrow> (u16 \<times> buf ptr) option" where
  [att_enc]: "enc_indication handle val vlen pdu len =
     (let min_len = 3 :: u16 in
      case pdu of
        NULL \<Rightarrow> Some (0, NULL)
      | Ptr p \<Rightarrow>
          if len < vlen + ucast min_len then Some (0, pdu)
          else do {
            p \<leftarrow> wr8 p 0 ATT_OP_HANDLE_IND;
            p \<leftarrow> put_le16 handle p 1;
            s \<leftarrow> rd val 0 (unat vlen);
            p \<leftarrow> wr p 3 s;
            Some (ucast vlen + min_len, Ptr p) })"

definition dec_indication ::
    "buf ptr \<Rightarrow> size_t \<Rightarrow> u16 ptr \<Rightarrow> buf \<Rightarrow> size_t \<Rightarrow> (u16 \<times> u16 ptr \<times> buf) option" where
  [att_dec]: "dec_indication pdu len handle val vlen =
     (let min_len = 3; fail = Some (0, handle, val) in
      case pdu of
        NULL \<Rightarrow> fail
      | Ptr p \<Rightarrow> do {
          op \<leftarrow> rd8 p 0;
          if op \<noteq> ATT_OP_HANDLE_IND then fail
          else if len < min_len then fail
          else do {
            let dlen = (ucast (min_of (len - min_len) vlen) :: u16);
            handle \<leftarrow> (case handle of
               NULL \<Rightarrow> Some NULL
             | Ptr _ \<Rightarrow> do { h \<leftarrow> get_le16 p 1; Some (Ptr h) });
            s \<leftarrow> rd p 3 (unat dlen);
            v \<leftarrow> wr val 0 s;
            Some (dlen, handle, v) } })"

definition enc_confirmation :: "buf ptr \<Rightarrow> size_t \<Rightarrow> (u16 \<times> buf ptr) option" where
  [att_enc]: "enc_confirmation pdu len =
     (case pdu of
        NULL \<Rightarrow> Some (0, NULL)
      | Ptr p \<Rightarrow> do { p \<leftarrow> wr8 p 0 ATT_OP_HANDLE_CNF; Some (1, Ptr p) })"

definition enc_mtu_req :: "u16 \<Rightarrow> buf ptr \<Rightarrow> size_t \<Rightarrow> (u16 \<times> buf ptr) option" where
  [att_enc]: "enc_mtu_req mtu pdu len =
     (case pdu of
        NULL \<Rightarrow> Some (0, NULL)
      | Ptr p \<Rightarrow> do {
          p \<leftarrow> wr8 p 0 ATT_OP_MTU_REQ;
          p \<leftarrow> put_le16 mtu p 1;
          Some (3, Ptr p) })"

definition dec_mtu_req :: "buf ptr \<Rightarrow> size_t \<Rightarrow> u16 ptr \<Rightarrow> (u16 \<times> u16 ptr) option" where
  [att_dec]: "dec_mtu_req pdu len mtu =
     (let min_len = 3 :: u16; fail = Some (0, mtu) in
      case (pdu, mtu) of
        (Ptr p, Ptr _) \<Rightarrow>
          if len < ucast min_len then fail
          else do {
            op \<leftarrow> rd8 p 0;
            if op \<noteq> ATT_OP_MTU_REQ then fail
            else do { m \<leftarrow> get_le16 p 1; Some (min_len, Ptr m) } }
      | _ \<Rightarrow> fail)"

definition enc_mtu_resp :: "u16 \<Rightarrow> buf ptr \<Rightarrow> size_t \<Rightarrow> (u16 \<times> buf ptr) option" where
  [att_enc]: "enc_mtu_resp mtu pdu len =
     (case pdu of
        NULL \<Rightarrow> Some (0, NULL)
      | Ptr p \<Rightarrow> do {
          p \<leftarrow> wr8 p 0 ATT_OP_MTU_RESP;
          p \<leftarrow> put_le16 mtu p 1;
          Some (3, Ptr p) })"

definition dec_mtu_resp :: "buf ptr \<Rightarrow> size_t \<Rightarrow> u16 ptr \<Rightarrow> (u16 \<times> u16 ptr) option" where
  [att_dec]: "dec_mtu_resp pdu len mtu =
     (let min_len = 3 :: u16; fail = Some (0, mtu) in
      case (pdu, mtu) of
        (Ptr p, Ptr _) \<Rightarrow>
          if len < ucast min_len then fail
          else do {
            op \<leftarrow> rd8 p 0;
            if op \<noteq> ATT_OP_MTU_RESP then fail
            else do { m \<leftarrow> get_le16 p 1; Some (min_len, Ptr m) } }
      | _ \<Rightarrow> fail)"

definition enc_prep_write_req ::
    "u16 \<Rightarrow> u16 \<Rightarrow> buf \<Rightarrow> size_t \<Rightarrow> buf ptr \<Rightarrow> size_t \<Rightarrow> (u16 \<times> buf ptr) option" where
  [att_enc]: "enc_prep_write_req handle offset val vlen pdu len =
     (let min_len = 5 :: u16 in
      case pdu of
        NULL \<Rightarrow> Some (0, NULL)
      | Ptr p \<Rightarrow> do {
          let vlen = clamp_vlen vlen len min_len;
          p \<leftarrow> wr8 p 0 ATT_OP_PREP_WRITE_REQ;
          p \<leftarrow> put_le16 handle p 1;
          p \<leftarrow> put_le16 offset p 3;
          put_value val vlen min_len p })"

definition dec_prep_write_req ::
    "buf ptr \<Rightarrow> size_t \<Rightarrow> u16 ptr \<Rightarrow> u16 ptr \<Rightarrow> buf ptr \<Rightarrow> size_t ptr \<Rightarrow>
       (u16 \<times> u16 ptr \<times> u16 ptr \<times> buf ptr \<times> size_t ptr) option" where
  [att_dec]: "dec_prep_write_req pdu len handle offset val vlen =
     (let min_len = 5; fail = Some (0, handle, offset, val, vlen) in
      case (pdu, handle, offset, val, vlen) of
        (Ptr p, Ptr _, Ptr _, Ptr v, Ptr _) \<Rightarrow>
          if len < min_len then fail
          else do {
            op \<leftarrow> rd8 p 0;
            if op \<noteq> ATT_OP_PREP_WRITE_REQ then fail
            else do {
              h \<leftarrow> get_le16 p 1;
              o' \<leftarrow> get_le16 p 3;
              let n = len - min_len;
              if 0 < n then do {
                s \<leftarrow> rd p 5 (unat n);
                v \<leftarrow> wr v 0 s;
                Some (ucast len, Ptr h, Ptr o', Ptr v, Ptr n) }
              else Some (ucast len, Ptr h, Ptr o', Ptr v, Ptr n) } }
      | _ \<Rightarrow> fail)"

definition enc_prep_write_resp ::
    "u16 \<Rightarrow> u16 \<Rightarrow> buf \<Rightarrow> size_t \<Rightarrow> buf ptr \<Rightarrow> size_t \<Rightarrow> (u16 \<times> buf ptr) option" where
  [att_enc]: "enc_prep_write_resp handle offset val vlen pdu len =
     (let min_len = 5 :: u16 in
      case pdu of
        NULL \<Rightarrow> Some (0, NULL)
      | Ptr p \<Rightarrow> do {
          let vlen = clamp_vlen vlen len min_len;
          p \<leftarrow> wr8 p 0 ATT_OP_PREP_WRITE_RESP;
          p \<leftarrow> put_le16 handle p 1;
          p \<leftarrow> put_le16 offset p 3;
          put_value val vlen min_len p })"

text \<open>The opcode compared here is the one of the request, as in the source.\<close>

definition dec_prep_write_resp ::
    "buf ptr \<Rightarrow> size_t \<Rightarrow> u16 ptr \<Rightarrow> u16 ptr \<Rightarrow> buf ptr \<Rightarrow> size_t ptr \<Rightarrow>
       (u16 \<times> u16 ptr \<times> u16 ptr \<times> buf ptr \<times> size_t ptr) option" where
  [att_dec]: "dec_prep_write_resp pdu len handle offset val vlen =
     (let min_len = 5; fail = Some (0, handle, offset, val, vlen) in
      case (pdu, handle, offset, val, vlen) of
        (Ptr p, Ptr _, Ptr _, Ptr v, Ptr _) \<Rightarrow>
          if len < min_len then fail
          else do {
            op \<leftarrow> rd8 p 0;
            if op \<noteq> ATT_OP_PREP_WRITE_REQ then fail
            else do {
              h \<leftarrow> get_le16 p 1;
              o' \<leftarrow> get_le16 p 3;
              let n = len - min_len;
              if 0 < n then do {
                s \<leftarrow> rd p 5 (unat n);
                v \<leftarrow> wr v 0 s;
                Some (ucast len, Ptr h, Ptr o', Ptr v, Ptr n) }
              else Some (ucast len, Ptr h, Ptr o', Ptr v, Ptr n) } }
      | _ \<Rightarrow> fail)"

definition enc_exec_write_req :: "u8 \<Rightarrow> buf ptr \<Rightarrow> size_t \<Rightarrow> (u16 \<times> buf ptr) option" where
  [att_enc]: "enc_exec_write_req flags pdu len =
     (case pdu of
        NULL \<Rightarrow> Some (0, NULL)
      | Ptr p \<Rightarrow>
          if 1 < flags then Some (0, pdu)
          else do {
            p \<leftarrow> wr8 p 0 ATT_OP_EXEC_WRITE_REQ;
            p \<leftarrow> wr8 p 1 flags;
            Some (2, Ptr p) })"

definition dec_exec_write_req :: "buf ptr \<Rightarrow> size_t \<Rightarrow> u8 ptr \<Rightarrow> (u16 \<times> u8 ptr) option" where
  [att_dec]: "dec_exec_write_req pdu len flags =
     (let min_len = 2 :: u16; fail = Some (0, flags) in
      case (pdu, flags) of
        (Ptr p, Ptr _) \<Rightarrow>
          if len < ucast min_len then fail
          else do {
            op \<leftarrow> rd8 p 0;
            if op \<noteq> ATT_OP_EXEC_WRITE_REQ then fail
            else do { f \<leftarrow> rd8 p 1; Some (min_len, Ptr f) } }
      | _ \<Rightarrow> fail)"

definition enc_exec_write_resp :: "buf ptr \<Rightarrow> (u16 \<times> buf ptr) option" where
  [att_enc]: "enc_exec_write_resp pdu =
     (case pdu of
        NULL \<Rightarrow> Some (0, NULL)
      | Ptr p \<Rightarrow> do { p \<leftarrow> wr8 p 0 ATT_OP_EXEC_WRITE_RESP; Some (1, Ptr p) })"

definition dec_exec_write_resp :: "buf ptr \<Rightarrow> size_t \<Rightarrow> u16 option" where
  [att_dec]: "dec_exec_write_resp pdu len =
     (case pdu of
        NULL \<Rightarrow> Some 0
      | Ptr p \<Rightarrow>
          if len < 1 then Some 0
          else do {
            op \<leftarrow> rd8 p 0;
            if op \<noteq> ATT_OP_EXEC_WRITE_RESP then Some 0 else Some (ucast len) })"

end
