(* ===== verification/AttSpec.thy ===== *)
theory AttSpec
  imports Att
begin

text \<open>
  What the codec of \<open>attrib/att.c\<close> promises.  \<open>att_pdu\<close> is the abstract syntax of the protocol
  and \<open>att_bytes\<close> its wire format; an encoder refines it when it writes exactly the bytes of its
  PDU at the front of the buffer it is given, and a decoder when it reads them back.  The
  properties state both directions, and that the decoders the client runs on a peer's packets
  stay inside the packet.
\<close>

section \<open>The wire format\<close>

datatype att_pdu =
    ErrorResp u8 u16 u8
  | MtuReq u16
  | MtuResp u16
  | FindInfoReq u16 u16
  | FindInfoResp u8 "buf list"
  | FindByTypeReq u16 u16 u16 buf
  | FindByTypeResp "(u16 \<times> u16) list"
  | ReadByTypeReq u16 u16 bt_uuid
  | ReadByTypeResp u8 "buf list"
  | ReadReq u16
  | ReadResp buf
  | ReadBlobReq u16 u16
  | ReadBlobResp buf
  | ReadByGroupReq u16 u16 bt_uuid
  | ReadByGroupResp u8 "buf list"
  | WriteReq u16 buf
  | WriteResp
  | WriteCmd u16 buf
  | PrepWriteReq u16 u16 buf
  | PrepWriteResp u16 u16 buf
  | ExecWriteReq u8
  | ExecWriteResp
  | HandleNotify u16 buf
  | HandleInd u16 buf
  | HandleCnf
  | SignedWriteCmd u16 buf buf

text \<open>A UUID on the wire: little endian, two or sixteen bytes.\<close>

fun uuid_bytes :: "bt_uuid \<Rightarrow> buf" where
  "uuid_bytes (BT_UUID16 v) = le16 v"
| "uuid_bytes u = rev (uuid_u128 u)"

fun att_bytes :: "att_pdu \<Rightarrow> buf" where
  "att_bytes (ErrorResp op h c) = [0x01, op] @ le16 h @ [c]"
| "att_bytes (MtuReq m) = [0x02] @ le16 m"
| "att_bytes (MtuResp m) = [0x03] @ le16 m"
| "att_bytes (FindInfoReq s e) = [0x04] @ le16 s @ le16 e"
| "att_bytes (FindInfoResp f rows) = [0x05, f] @ concat rows"
| "att_bytes (FindByTypeReq s e t v) = [0x06] @ le16 s @ le16 e @ le16 t @ v"
| "att_bytes (FindByTypeResp rs) = [0x07] @ concat (map (\<lambda>(a, b). le16 a @ le16 b) rs)"
| "att_bytes (ReadByTypeReq s e u) = [0x08] @ le16 s @ le16 e @ uuid_bytes u"
| "att_bytes (ReadByTypeResp n rows) = [0x09, n] @ concat rows"
| "att_bytes (ReadReq h) = [0x0A] @ le16 h"
| "att_bytes (ReadResp v) = [0x0B] @ v"
| "att_bytes (ReadBlobReq h i) = [0x0C] @ le16 h @ le16 i"
| "att_bytes (ReadBlobResp v) = [0x0D] @ v"
| "att_bytes (ReadByGroupReq s e u) = [0x10] @ le16 s @ le16 e @ uuid_bytes u"
| "att_bytes (ReadByGroupResp n rows) = [0x11, n] @ concat rows"
| "att_bytes (WriteReq h v) = [0x12] @ le16 h @ v"
| "att_bytes WriteResp = [0x13]"
| "att_bytes (WriteCmd h v) = [0x52] @ le16 h @ v"
| "att_bytes (PrepWriteReq h i v) = [0x16] @ le16 h @ le16 i @ v"
| "att_bytes (PrepWriteResp h i v) = [0x17] @ le16 h @ le16 i @ v"
| "att_bytes (ExecWriteReq f) = [0x18, f]"
| "att_bytes ExecWriteResp = [0x19]"
| "att_bytes (HandleNotify h v) = [0x1B] @ le16 h @ v"
| "att_bytes (HandleInd h v) = [0x1D] @ le16 h @ v"
| "att_bytes HandleCnf = [0x1E]"
| "att_bytes (SignedWriteCmd h v s) = [0xD2] @ le16 h @ v @ s"

text \<open>\<open>encodes r p pdu\<close>: the encoder wrote exactly \<open>pdu\<close> at the front of the buffer \<open>p\<close>.\<close>

definition encodes :: "(u16 \<times> buf ptr) option \<Rightarrow> buf \<Rightarrow> att_pdu \<Rightarrow> bool" where
  "encodes r p pdu \<longleftrightarrow>
     length (att_bytes pdu) \<le> length p \<and>
     r = Some (of_nat (length (att_bytes pdu)), Ptr (written (att_bytes pdu) p))"

section \<open>Encoders without a variable part\<close>

lemma put_uuid_le_written:
  assumes "wf_uuid u" "att_uuid_len u = Some n" "i = length xs" "i + unat n \<le> length p"
  shows "put_uuid_le u (written xs p) i = Some (written (xs @ uuid_bytes u) p)"
  using assms by (cases u)
    (auto simp: put_uuid_le_def att_uuid_len_def mem_simps bswap_128_def split: bt_uuid.splits)

lemma length_uuid_bytes:
  "wf_uuid u \<Longrightarrow> att_uuid_len u = Some n \<Longrightarrow> length (uuid_bytes u) = unat n"
  by (cases u) (auto simp: att_uuid_len_def)

lemma att_uuid_len_cases:
  assumes "wf_uuid u" "att_uuid_len u = Some n"
  shows "(\<exists>v. u = BT_UUID16 v) \<and> n = 2 \<or> (\<exists>b. u = BT_UUID128 b \<and> length b = 16) \<and> n = 16"
  using assms by (cases u) (auto simp: att_uuid_len_def)

lemma enc_fixed:
  "3 \<le> length p \<Longrightarrow> encodes (enc_read_req h (Ptr p) len) p (ReadReq h)"
  "5 \<le> length p \<Longrightarrow> encodes (enc_read_blob_req h i (Ptr p) len) p (ReadBlobReq h i)"
  "5 \<le> length p \<Longrightarrow> encodes (enc_find_info_req s e (Ptr p) len) p (FindInfoReq s e)"
  "3 \<le> length p \<Longrightarrow> encodes (enc_mtu_req m (Ptr p) len) p (MtuReq m)"
  "3 \<le> length p \<Longrightarrow> encodes (enc_mtu_resp m (Ptr p) len) p (MtuResp m)"
  "5 \<le> length p \<Longrightarrow> encodes (enc_error_resp op h c (Ptr p) len) p (ErrorResp op h c)"
  "2 \<le> length p \<Longrightarrow> f \<le> 1 \<Longrightarrow> encodes (enc_exec_write_req f (Ptr p) len) p (ExecWriteReq f)"
  "1 \<le> length p \<Longrightarrow> encodes (enc_exec_write_resp (Ptr p)) p ExecWriteResp"
  "1 \<le> length p \<Longrightarrow> encodes (enc_write_resp (Ptr p)) p WriteResp"
  "1 \<le> length p \<Longrightarrow> encodes (enc_confirmation (Ptr p) len) p HandleCnf"
  by (simp_all add: encodes_def att_enc mem_simps)

lemma enc_uuid_req:
  assumes "wf_uuid u" "att_uuid_len u = Some n" "5 + unat n \<le> length p"
  shows "encodes (enc_read_by_type_req s e (Ptr u) (Ptr p) len) p (ReadByTypeReq s e u)"
    "encodes (enc_read_by_grp_req s e (Ptr u) (Ptr p) len) p (ReadByGroupReq s e u)"
  using assms att_uuid_len_cases [OF assms(1,2)]
  by (auto simp: encodes_def att_enc mem_simps put_uuid_le_written length_uuid_bytes)

section \<open>Encoders that carry a value\<close>

lemma unat_clamp_vlen:
  "unat c \<le> unat len \<Longrightarrow> unat (clamp_vlen vlen len c) = min (unat vlen) (unat len - unat c)"
  by (auto simp: clamp_vlen_def unat_minus_le word_less_nat_alt word_le_nat_alt min_def)

lemma put_value_written:
  assumes "length hdr = unat c" "unat c + unat n \<le> length p" "unat n \<le> length val"
  shows "put_value val n c (written hdr p) =
         Some (c + of_nat (unat n), Ptr (written (hdr @ take (unat n) val) p))"
  using assms by (auto simp: put_value_def rd_take mem_simps word_gt_0)

lemma enc_value:
  assumes "unat len \<le> length p" "unat vlen \<le> length val"
  shows
    "3 \<le> unat len \<Longrightarrow> encodes (enc_write_req h val vlen (Ptr p) len) p
       (WriteReq h (take (min (unat vlen) (unat len - 3)) val))"
    "3 \<le> unat len \<Longrightarrow> encodes (enc_write_cmd h val vlen (Ptr p) len) p
       (WriteCmd h (take (min (unat vlen) (unat len - 3)) val))"
    "5 \<le> unat len \<Longrightarrow> encodes (enc_prep_write_req h i val vlen (Ptr p) len) p
       (PrepWriteReq h i (take (min (unat vlen) (unat len - 5)) val))"
    "5 \<le> unat len \<Longrightarrow> encodes (enc_prep_write_resp h i val vlen (Ptr p) len) p
       (PrepWriteResp h i (take (min (unat vlen) (unat len - 5)) val))"
    "7 \<le> unat len \<Longrightarrow> encodes (enc_find_by_type_req s e (Ptr (BT_UUID16 t)) val vlen (Ptr p) len) p
       (FindByTypeReq s e t (take (min (unat vlen) (unat len - 7)) val))"
  using assms
  by (simp_all add: encodes_def att_enc mem_simps put_value_written unat_clamp_vlen)

section \<open>Rows\<close>

primrec chunks :: "nat \<Rightarrow> nat \<Rightarrow> buf \<Rightarrow> buf list" where
  "chunks 0 n xs = []"
| "chunks (Suc k) n xs = take n xs # chunks k n (drop n xs)"

lemma length_chunks [simp]: "length (chunks k n xs) = k"
  by (induction k arbitrary: xs) auto

lemma chunks_rows: "k * n \<le> length xs \<Longrightarrow> r \<in> set (chunks k n xs) \<Longrightarrow> length r = n"
proof (induction k arbitrary: xs)
  case 0
  then show ?case by simp
next
  case (Suc k)
  then show ?case using Suc.IH [of "drop n xs"] by auto
qed

lemma concat_chunks: "k * n \<le> length xs \<Longrightarrow> concat (chunks k n xs) = take (k * n) xs"
  by (induction k arbitrary: xs) (auto simp: take_add)

lemma chunks_concat:
  "\<forall>r\<in>set rows. length r = n \<Longrightarrow> chunks (length rows) n (concat rows @ zs) = rows"
  by (induction rows) auto

lemma fill_rows_chunks:
  assumes "off + k * n \<le> length p" "i + k = length ds" "\<forall>d\<in>set ds. length d = n"
  shows "fill_rows k p off n i ds = Some (take i ds @ chunks k n (drop off p))"
  using assms
proof (induction k arbitrary: off i ds)
  case 0
  then show ?case by simp
next
  case (Suc k)
  let ?s = "take n (drop off p)"
  have s: "rd p off n = Some ?s" "length ?s = n" using Suc.prems by (auto simp: rd_def)
  have d: "row ds i = Some (ds ! i)" "wr (ds ! i) 0 ?s = Some ?s"
    using Suc.prems s(2) by (auto simp: row_def intro: wr_full)
  have "fill_rows k p (off + n) n (Suc i) (ds[i := ?s]) =
      Some (take (Suc i) (ds[i := ?s]) @ chunks k n (drop (off + n) p))"
    using Suc.prems s(2) by (intro Suc.IH) (auto dest!: set_update_subset_insert [THEN subsetD])
  then show ?case using s d Suc.prems
    by (simp add: take_Suc_conv_app_nth add.commute)
qed

lemma fill_rows_alloc:
  assumes "off + k * n \<le> length p"
  shows "fill_rows k p off n 0 (replicate k (replicate n 0)) = Some (chunks k n (drop off p))"
  using fill_rows_chunks [of off k n p 0 "replicate k (replicate n 0)"] assms by simp

lemma copy_rows_written:
  assumes "i + k = length (adl_data ls)" "\<forall>r\<in>set (adl_data ls). unat l \<le> length r"
    "unat w = length hdr" "length p = unat len" "length hdr \<le> unat len" "0 < unat l"
    "unat len + unat l < 2 ^ 32"
  shows "\<exists>m. m = min k ((unat len - length hdr) div unat l) \<and>
     copy_rows k ls l len i w (length hdr) (written hdr p) =
     Some (of_nat (length hdr + m * unat l),
           written (hdr @ concat (take m (map (take (unat l)) (drop i (adl_data ls))))) p)"
  using assms
proof (induction k arbitrary: i w hdr)
  case 0
  have "w = of_nat (length hdr)" using 0(3) by (rule word_eq_of_nat)
  then show ?case by simp
next
  case (Suc k)
  let ?d = "adl_data ls ! i"
  have i: "i < length (adl_data ls)" "drop i (adl_data ls) = ?d # drop (Suc i) (adl_data ls)"
    using Suc.prems(1) by (auto simp: Cons_nth_drop_Suc)
  have ld: "unat l \<le> length ?d" using Suc.prems(2) i(1) by auto
  have uw: "unat (w + l) = length hdr + unat l"
    using Suc.prems(3,5,7) by (subst unat_add_lem [THEN iffD1]) auto
  have weq: "w = of_nat (length hdr)" using Suc.prems(3) by (rule word_eq_of_nat)
  show ?case
  proof (cases "length hdr + unat l \<le> unat len")
    case True
    define hdr' where "hdr' = hdr @ take (unat l) ?d"
    have h: "length hdr' = length hdr + unat l" using ld by (simp add: hdr'_def)
    have step: "copy_rows (Suc k) ls l len i w (length hdr) (written hdr p) =
        copy_rows k ls l len (Suc i) (w + l) (length hdr') (written hdr' p)"
      using True uw i ld Suc.prems(4) h
      by (simp add: word_le_nat_alt row_def rd_take mem_simps hdr'_def)
    obtain m where m: "m = min k ((unat len - length hdr') div unat l)"
      "copy_rows k ls l len (Suc i) (w + l) (length hdr') (written hdr' p) =
       Some (of_nat (length hdr' + m * unat l),
         written (hdr' @ concat (take m (map (take (unat l)) (drop (Suc i) (adl_data ls))))) p)"
      using Suc.IH [of "Suc i" "w + l" hdr'] Suc.prems True uw h by (auto simp del: of_nat_add)
    have "(unat len - length hdr) div unat l = Suc ((unat len - length hdr') div unat l)"
      using True h Suc.prems(6) by (simp add: div_if diff_diff_left)
    with m(1) have "Suc m = min (Suc k) ((unat len - length hdr) div unat l)" by simp
    moreover have "copy_rows (Suc k) ls l len i w (length hdr) (written hdr p) =
      Some (of_nat (length hdr + Suc m * unat l), written (hdr @ concat (take (Suc m)
         (map (take (unat l)) (drop i (adl_data ls))))) p)"
      using step m(2) i(2) h by (simp add: hdr'_def algebra_simps)
    ultimately show ?thesis by blast
  next
    case False
    then have "(unat len - length hdr) div unat l = 0" using Suc.prems(6) by (auto simp: div_eq_0_iff)
    moreover have "\<not> w + l \<le> len" using False uw by (simp add: word_le_nat_alt)
    ultimately show ?thesis by (simp add: weq)
  qed
qed


lemma copy_rows16_written:
  assumes "i + k = length (adl_data ls)" "\<forall>r\<in>set (adl_data ls). length r = unat (adl_len ls)"
    "unat w = length hdr" "length p = unat len" "length hdr \<le> unat len" "0 < unat (adl_len ls)"
    "unat len < 65536"
  shows "\<exists>m. m = min k ((unat len - length hdr) div unat (adl_len ls)) \<and>
     copy_rows16 k ls len i w (length hdr) (written hdr p) =
     Some (of_nat (length hdr + m * unat (adl_len ls)),
           written (hdr @ concat (take m (drop i (adl_data ls)))) p)"
  using assms
proof (induction k arbitrary: i w hdr)
  case 0
  have "w = of_nat (length hdr)" using 0(3) by (rule word_eq_of_nat)
  then show ?case by simp
next
  case (Suc k)
  let ?d = "adl_data ls ! i" and ?l = "adl_len ls"
  have i: "i < length (adl_data ls)" "drop i (adl_data ls) = ?d # drop (Suc i) (adl_data ls)"
    using Suc.prems(1) by (auto simp: Cons_nth_drop_Suc)
  have ld: "length ?d = unat ?l" using Suc.prems(2) i(1) by auto
  have uw: "unat ((ucast w :: size_t) + ucast ?l) = length hdr + unat ?l"
    using Suc.prems(3) unat_lt_16 [of w] unat_lt_16 [of ?l]
    by (subst unat_add_lem [THEN iffD1]) auto
  have weq: "w = of_nat (length hdr)" using Suc.prems(3) by (rule word_eq_of_nat)
  show ?case
  proof (cases "length hdr + unat ?l \<le> unat len")
    case True
    have uw': "unat (w + ?l) = length hdr + unat ?l"
      using True Suc.prems(3,7) by (subst unat_add_lem [THEN iffD1]) auto
    define hdr' where "hdr' = hdr @ ?d"
    have h: "length hdr' = length hdr + unat ?l" using ld by (simp add: hdr'_def)
    have step: "copy_rows16 (Suc k) ls len i w (length hdr) (written hdr p) =
        copy_rows16 k ls len (Suc i) (w + ?l) (length hdr') (written hdr' p)"
      using True uw i ld Suc.prems(4) h
      by (simp add: word_le_nat_alt row_def rd_take mem_simps hdr'_def)
    obtain m where m: "m = min k ((unat len - length hdr') div unat ?l)"
      "copy_rows16 k ls len (Suc i) (w + ?l) (length hdr') (written hdr' p) =
       Some (of_nat (length hdr' + m * unat ?l),
         written (hdr' @ concat (take m (drop (Suc i) (adl_data ls)))) p)"
      using Suc.IH [of "Suc i" "w + ?l" hdr'] Suc.prems True uw' h by (auto simp del: of_nat_add)
    have "(unat len - length hdr) div unat ?l = Suc ((unat len - length hdr') div unat ?l)"
      using True h Suc.prems(6) by (simp add: div_if diff_diff_left)
    with m(1) have "Suc m = min (Suc k) ((unat len - length hdr) div unat ?l)" by simp
    moreover have "copy_rows16 (Suc k) ls len i w (length hdr) (written hdr p) =
      Some (of_nat (length hdr + Suc m * unat ?l),
        written (hdr @ concat (take (Suc m) (drop i (adl_data ls)))) p)"
      using step m(2) i(2) h by (simp add: hdr'_def algebra_simps)
    ultimately show ?thesis by blast
  next
    case False
    then have "(unat len - length hdr) div unat ?l = 0" using Suc.prems(6) by (auto simp: div_eq_0_iff)
    moreover have "\<not> (ucast w :: size_t) + ucast ?l \<le> len" using False uw by (simp add: word_le_nat_alt)
    ultimately show ?thesis by (simp add: weq)
  qed
qed

section \<open>Attribute lists\<close>

definition wf_adl :: "att_data_list \<Rightarrow> bool" where
  "wf_adl l \<longleftrightarrow> length (adl_data l) = unat (adl_num l) \<and> 0 < adl_len l \<and> adl_len l \<le> 255 \<and>
     (\<forall>r\<in>set (adl_data l). length r = unat (adl_len l))"

text \<open>The rows of a list response that fit into a PDU of \<open>len\<close> bytes.\<close>

definition fit_rows :: "nat \<Rightarrow> nat \<Rightarrow> buf list \<Rightarrow> buf list" where
  "fit_rows len n rows = take ((len - 2) div n) (map (take n) rows)"

lemma fit_rows_full: "\<forall>r\<in>set rows. length r = n \<Longrightarrow> fit_rows len n rows = take ((len - 2) div n) rows"
  unfolding fit_rows_def by (subst map_idI) auto

lemma length_concat_take:
  "\<forall>r\<in>set rows. length r = n \<Longrightarrow> m \<le> length rows \<Longrightarrow> length (concat (take m rows)) = m * n"
proof (induction rows arbitrary: m)
  case (Cons r rows)
  then show ?case by (cases m) auto
qed simp

lemma wf_adl_len: "wf_adl l \<Longrightarrow> 0 < unat (adl_len l) \<and> unat (adl_len l) \<le> 255"
  by (auto simp: wf_adl_def word_less_nat_alt word_le_nat_alt)

lemma wf_adl_rows: "wf_adl l \<Longrightarrow> \<forall>r\<in>set (adl_data l). length r = unat (adl_len l)"
  by (simp add: wf_adl_def)

lemma enc_grp_resp:
  assumes "wf_adl l" "length p = unat len" "unat len < 65536" "unat (adl_len l) + 2 \<le> unat len"
  shows "encodes (enc_read_by_grp_resp (Ptr l) (Ptr p) len) p
     (ReadByGroupResp (ucast (adl_len l)) (fit_rows (unat len) (unat (adl_len l)) (adl_data l)))"
proof -
  let ?n = "unat (adl_len l)" and ?hdr = "[0x11, ucast (adl_len l)] :: buf"
  define m where "m = min (unat (adl_num l)) ((unat len - 2) div ?n)"
  have 1: "copy_rows16 (unat (adl_num l)) l len 0 2 2 (written ?hdr p) =
      Some (of_nat (2 + m * ?n), written (?hdr @ concat (take m (adl_data l))) p)"
    using copy_rows16_written [of 0 "unat (adl_num l)" l 2 ?hdr p len] assms wf_adl_len [OF assms(1)]
    by (auto simp: wf_adl_def m_def simp flip: numeral_2_eq_2)
  have 2: "take m (adl_data l) = fit_rows (unat len) ?n (adl_data l)"
    using assms(1) by (simp add: fit_rows_full wf_adl_rows m_def min_def) (simp add: wf_adl_def)
  have 3: "length (concat (take m (adl_data l))) = m * ?n"
    using assms(1) by (intro length_concat_take) (auto simp: wf_adl_def m_def)
  have "m * ?n \<le> (unat len - 2) div ?n * ?n" unfolding m_def by (intro mult_le_mono1) simp
  also have "\<dots> \<le> unat len - 2" by (rule div_times_less_eq_dividend)
  finally have 4: "2 + m * ?n \<le> unat len" using assms(4) wf_adl_len [OF assms(1)] by linarith
  have 5: "\<not> len < ucast (adl_len l) + 2"
    using assms(4) wf_adl_len [OF assms(1)] by (simp add: word_less_nat_alt unat_word_ariths)
  show ?thesis
    using 1 3 4 5 assms(2) unfolding encodes_def att_enc 2 [symmetric]
    by (simp add: mem_simps)
qed


lemma copy_rows_resp:
  assumes "wf_adl ls" "length p = unat len" "unat len < 65536" "length hdr = 2" "2 \<le> unat len"
    "0 < unat l" "unat l \<le> unat (adl_len ls)"
  defines "xs \<equiv> hdr @ concat (fit_rows (unat len) (unat l) (adl_data ls))"
  shows "copy_rows (unat (adl_num ls)) ls l len 0 2 2 (written hdr p) =
           Some (of_nat (length xs), written xs p)"
    and "length xs \<le> length p"
proof -
  define m where "m = min (unat (adl_num ls)) ((unat len - 2) div unat l)"
  have F: "fit_rows (unat len) (unat l) (adl_data ls) = take m (map (take (unat l)) (adl_data ls))"
    using assms(1) unfolding fit_rows_def m_def by (auto simp: min_def wf_adl_def)
  have L: "length (concat (take m (map (take (unat l)) (adl_data ls)))) = m * unat l"
    using assms(1,7) by (intro length_concat_take) (auto simp: wf_adl_def m_def)
  show "copy_rows (unat (adl_num ls)) ls l len 0 2 2 (written hdr p) =
      Some (of_nat (length xs), written xs p)"
    using copy_rows_written [of 0 "unat (adl_num ls)" ls l 2 hdr p len] assms(1-7) L unat_lt_16 [of "adl_len ls"]
    by (auto simp: wf_adl_def xs_def F m_def simp flip: numeral_2_eq_2)
  have "m * unat l \<le> (unat len - 2) div unat l * unat l" unfolding m_def by (intro mult_le_mono1) simp
  also have "\<dots> \<le> unat len - 2" by (rule div_times_less_eq_dividend)
  finally show "length xs \<le> length p" using assms(2,4,5) L by (simp add: xs_def F)
qed

lemma enc_type_resp:
  assumes "wf_adl l" "length p = unat len" "unat len < 65536" "3 \<le> unat len"
  defines "n \<equiv> min (unat len - 2) (unat (adl_len l))"
  shows "encodes (enc_read_by_type_resp (Ptr l) (Ptr p) len) p
     (ReadByTypeResp (of_nat n) (fit_rows (unat len) n (adl_data l)))"
proof -
  define k where "k = min_of (len - 2) (ucast (adl_len l))"
  have k: "unat k = n" using assms(4) unfolding k_def n_def
    by (auto simp: word_less_nat_alt unat_minus_le word_le_nat_alt min_def)
  have kk: "(ucast k :: u8) = of_nat n" using k by (metis of_nat_unat ucast_id word_eq_of_nat unsigned_of_nat unsigned_ucast_eq of_nat_unat)
  have h: "length [0x09, of_nat n :: u8] = 2" by simp
  have n: "0 < unat k" "unat k \<le> unat (adl_len l)"
    using k assms(4) wf_adl_len [OF assms(1)] by (auto simp: n_def)
  note R = copy_rows_resp [OF assms(1-3) h _ n, unfolded k]
  show ?thesis using R assms(2,4) unfolding encodes_def att_enc
    by (simp add: mem_simps k_def [symmetric] kk Let_def ucast_of_nat_32_16)
qed

lemma enc_info_resp:
  assumes "wf_adl l" "length p = unat len" "unat len < 65536" "unat (adl_len l) + 2 \<le> unat len"
  shows "encodes (enc_find_info_resp f (Ptr l) (Ptr p) len) p
     (FindInfoResp f (fit_rows (unat len) (unat (adl_len l)) (adl_data l)))"
proof -
  have h: "length [0x05, f :: u8] = 2" by simp
  have n: "0 < unat (ucast (adl_len l) :: size_t)" "unat (ucast (adl_len l) :: size_t) \<le> unat (adl_len l)"
    using wf_adl_len [OF assms(1)] by auto
  have "\<not> len < ucast (adl_len l) + 2"
    using assms(4) wf_adl_len [OF assms(1)] by (simp add: word_less_nat_alt unat_word_ariths)
  then show ?thesis using copy_rows_resp [OF assms(1-3) h _ n] assms(2,4) unfolding encodes_def att_enc
    by (simp add: mem_simps ucast_of_nat_32_16)
qed

lemma put_ranges_written:
  fixes rs :: "att_range list"
  assumes "length p = unat len" "unat len < 65536" "unat off = length hdr" "length hdr \<le> unat len"
    "xs = hdr @ concat (map (\<lambda>r. le16 (rstart r) @ le16 (rend r)) (take ((unat len - length hdr) div 4) rs))"
  shows "put_ranges rs len off (written hdr p) = Some (of_nat (length xs), written xs p)
    \<and> length xs \<le> length p"
  using assms(3-)
proof (induction rs arbitrary: off hdr)
  case Nil
  then show ?case using assms(1) by (simp add: word_eq_of_nat)
next
  case (Cons r rs)
  have u: "unat ((ucast off :: size_t) + 4) = length hdr + 4"
    using Cons.prems(1,2) assms(2) by (subst unat_add_lem [THEN iffD1]) auto
  show ?case
  proof (cases "length hdr + 4 \<le> unat len")
    case True
    define h where "h = hdr @ le16 (rstart r) @ le16 (rend r)"
    have u': "unat (off + 4) = length h"
      using True Cons.prems(1) assms(2) by (subst unat_add_lem [THEN iffD1]) (auto simp: h_def)
    have d: "(unat len - length hdr) div 4 = Suc ((unat len - length h) div 4)"
      using True by (simp add: h_def div_if diff_diff_left)
    have l: "length h \<le> unat len" using True by (simp add: h_def)
    have "put_ranges (r # rs) len off (written hdr p) = put_ranges rs len (off + 4) (written h p)"
      using True u Cons.prems(1) assms(1)
      by (simp add: word_le_nat_alt mem_simps h_def numeral_2_eq_2)
    then show ?thesis using Cons.IH [OF u' l] Cons.prems(3) unfolding d by (simp add: h_def)
  next
    case False
    then have "(unat len - length hdr) div 4 = 0" by simp
    moreover have "\<not> (ucast off :: size_t) + 4 \<le> len" using False u by (simp add: word_le_nat_alt)
    ultimately show ?thesis using Cons.prems assms(1) by (simp add: word_eq_of_nat)
  qed
qed

lemma enc_by_type_resp:
  assumes "length p = unat len" "unat len < 65536" "1 \<le> unat len"
  shows "encodes (enc_find_by_type_resp rs (Ptr p) len) p
     (FindByTypeResp (map (\<lambda>r. (rstart r, rend r)) (take ((unat len - 1) div 4) rs)))"
  using put_ranges_written [of p len 1 "[0x07]" _ rs] assms unfolding encodes_def att_enc
  by (auto simp: mem_simps comp_def)

lemma unat_min_of: "unat (min_of (a :: 'a::len word) b) = min (unat a) (unat b)"
  by (simp add: word_less_nat_alt min_def)

lemma enc_read_value:
  assumes "length p = unat len" "1 \<le> unat len" "unat vlen \<le> length val"
  shows "encodes (enc_read_resp val vlen (Ptr p) len) p
       (ReadResp (take (min (unat vlen) (unat len - 1)) val))"
    and "unat off \<le> unat vlen \<Longrightarrow> encodes (enc_read_blob_resp val vlen off (Ptr p) len) p
       (ReadBlobResp (take (min (unat vlen - unat off) (unat len - 1)) (drop (unat off) val)))"
proof -
  have u: "unat (len - 1) = unat len - 1" using assms(2) by (simp add: unat_minus_le word_le_nat_alt)
  have c: "(ucast (k + 1 :: size_t) :: u16) = of_nat (Suc (unat k))" for k
    using ucast_of_nat_32_16(1) [of "Suc (unat k)"] by (simp add: add.commute)
  define k1 where "k1 = min_of (len - 1) vlen"
  have k1: "unat k1 = min (unat vlen) (unat len - 1)" unfolding k1_def unat_min_of u by simp
  have e1: "(ucast k1 :: u16) = of_nat (min (unat vlen) (unat len - 1))"
    unfolding k1 [symmetric] by simp
  show "encodes (enc_read_resp val vlen (Ptr p) len) p
       (ReadResp (take (min (unat vlen) (unat len - 1)) val))"
    using assms unfolding encodes_def att_enc
    by (simp add: mem_simps k1_def [symmetric] Let_def k1 rd_take c e1)
next
  assume o: "unat off \<le> unat vlen"
  have u: "unat (len - 1) = unat len - 1" using assms(2) by (simp add: unat_minus_le word_le_nat_alt)
  have c: "(ucast (k + 1 :: size_t) :: u16) = of_nat (Suc (unat k))" for k
    using ucast_of_nat_32_16(1) [of "Suc (unat k)"] by (simp add: add.commute)
  define k2 where "k2 = min_of (len - 1) (vlen - ucast off)"
  have k2: "unat k2 = min (unat vlen - unat off) (unat len - 1)"
    using o unfolding k2_def unat_min_of u by (simp add: unat_minus_le word_le_nat_alt)
  have le2: "unat k2 \<le> unat len - 1" unfolding k2 by simp
  define xs where "xs = take (unat k2) (drop (unat off) val)"
  have xs: "length xs = unat k2" "rd val (unat off) (unat k2) = Some xs"
    using assms(3) k2 o by (auto simp: xs_def rd_def)
  have "encodes (enc_read_blob_resp val vlen off (Ptr p) len) p (ReadBlobResp xs)"
    using assms(1,2) le2 xs unfolding encodes_def att_enc
    by (simp add: mem_simps k2_def [symmetric] Let_def c ucast_add_32_16)
  then show "encodes (enc_read_blob_resp val vlen off (Ptr p) len) p
       (ReadBlobResp (take (min (unat vlen - unat off) (unat len - 1)) (drop (unat off) val)))"
    by (simp add: xs_def k2)
qed

lemma enc_value_pdu:
  assumes "length p = unat len" "unat vlen \<le> length val" "unat vlen + 3 \<le> unat len"
  shows "encodes (enc_notification h val vlen (Ptr p) len) p (HandleNotify h (take (unat vlen) val))"
    "encodes (enc_indication h val vlen (Ptr p) len) p (HandleInd h (take (unat vlen) val))"
proof -
  have u: "\<not> len < vlen + 3" using assms(3) unat_lt_32 [of len]
    by (simp add: word_less_nat_alt unat_word_ariths)
  have c: "(ucast vlen + 3 :: u16) = 3 + of_nat (unat vlen)"
    using ucast_of_nat_32_16(1) [of "unat vlen"] by (simp add: add.commute)
  show "encodes (enc_notification h val vlen (Ptr p) len) p (HandleNotify h (take (unat vlen) val))"
    "encodes (enc_indication h val vlen (Ptr p) len) p (HandleInd h (take (unat vlen) val))"
    using assms unfolding encodes_def att_enc
    by (simp_all add: mem_simps u rd_take c)
qed

end
