(* ===== verification/AttDec.thy ===== *)
theory AttDec
  imports AttSpec
begin

text \<open>
  The decoders of \<open>attrib/att.c\<close>: what each returns on the bytes of its PDU, what the decoders of
  list responses return on any packet a peer can send, and the properties of the codec.
\<close>

section \<open>Decoders\<close>

text \<open>
  A packet \<open>pk\<close> as a caller presents it: the length passed is the length of the object.
\<close>

lemma packet_len: "length pk < 2 ^ 32 \<Longrightarrow> unat (of_nat (length pk) :: size_t) = length pk"
  by simp

lemma get_uuid_bytes:
  assumes "wf_uuid u" "att_uuid_len u = Some n"
  shows "get_uuid (if n = 2 then 16 else 128) (uuid_bytes u) 0 = Some u"
  using att_uuid_len_cases [OF assms]
  by (auto simp: get_uuid_def mem_simps bt_uuid16_create_def bt_uuid128_create_def bswap_128_def)

lemma get_uuid_skip:
  "length xs \<le> i \<Longrightarrow> get_uuid t (xs @ ys) i = get_uuid t ys (i - length xs)"
  "get_uuid t (x # xs) (Suc i) = get_uuid t xs i"
  "get_uuid t (x # xs) (numeral k) = get_uuid t xs (pred_numeral k)"
  by (simp_all add: get_uuid_def mem_simps bswap_128_def)

text \<open>Decoders of the requests a server receives, on the bytes of the request.\<close>

lemma dec_uuid_req:
  assumes "wf_uuid u" "att_uuid_len u = Some n"
  shows
    "dec_read_by_type_req (Ptr (att_bytes (ReadByTypeReq s e u)))
       (of_nat (length (att_bytes (ReadByTypeReq s e u)))) (Ptr s0) (Ptr e0) (Ptr u0)
     = Some (5 + n, Ptr s, Ptr e, Ptr u)"
    "dec_read_by_grp_req (Ptr (att_bytes (ReadByGroupReq s e u)))
       (of_nat (length (att_bytes (ReadByGroupReq s e u)))) (Ptr s0) (Ptr e0) (Ptr u0)
     = Some (5 + n, Ptr s, Ptr e, Ptr u)"
  using assms att_uuid_len_cases [OF assms] get_uuid_bytes [OF assms]
  by (auto simp: att_dec mem_simps get_uuid_skip)

lemma dec_fixed:
  "dec_read_req (Ptr (att_bytes (ReadReq h))) 3 (Ptr h0) = Some (3, Ptr h)"
  "dec_read_blob_req (Ptr (att_bytes (ReadBlobReq h i))) 5 (Ptr h0) (Ptr i0) = Some (5, Ptr h, Ptr i)"
  "dec_find_info_req (Ptr (att_bytes (FindInfoReq s e))) 5 (Ptr s0) (Ptr e0) = Some (5, Ptr s, Ptr e)"
  "dec_mtu_req (Ptr (att_bytes (MtuReq m))) 3 (Ptr m0) = Some (3, Ptr m)"
  "dec_mtu_resp (Ptr (att_bytes (MtuResp m))) 3 (Ptr m0) = Some (3, Ptr m)"
  "dec_exec_write_req (Ptr (att_bytes (ExecWriteReq f))) 2 (Ptr f0) = Some (2, Ptr f)"
  "dec_exec_write_resp (Ptr (att_bytes ExecWriteResp)) 1 = Some 1"
  "dec_write_resp (Ptr (att_bytes WriteResp)) 1 = Some 1"
  by (simp_all add: att_dec mem_simps)

lemma dec_value:
  assumes "length v + 7 < 2 ^ 32" "length v \<le> length v0"
  shows
    "dec_write_req (Ptr (att_bytes (WriteReq h v))) (of_nat (length v + 3)) (Ptr h0) (Ptr v0) (Ptr n0)
     = Some (of_nat (length v + 3), Ptr h, Ptr (written v v0), Ptr (of_nat (length v)))"
    "dec_write_cmd (Ptr (att_bytes (WriteCmd h v))) (of_nat (length v + 3)) (Ptr h0) (Ptr v0) (Ptr n0)
     = Some (of_nat (length v + 3), Ptr h, Ptr (written v v0), Ptr (of_nat (length v)))"
    "dec_prep_write_req (Ptr (att_bytes (PrepWriteReq h i v))) (of_nat (length v + 5))
       (Ptr h0) (Ptr i0) (Ptr v0) (Ptr n0)
     = Some (of_nat (length v + 5), Ptr h, Ptr i, Ptr (written v v0), Ptr (of_nat (length v)))"
    "dec_find_by_type_req (Ptr (att_bytes (FindByTypeReq s e t v))) (of_nat (length v + 7))
       (Ptr h0) (Ptr i0) (Ptr u0) v0 (Ptr n0)
     = Some (of_nat (length v + 7), Ptr s, Ptr e, Ptr (BT_UUID16 t), written v v0, Ptr (of_nat (length v)))"
proof -
  have le: "(k :: size_t) \<le> of_nat (length v + j)" "\<not> (of_nat (length v + j) :: size_t) < k"
    "unat (of_nat (length v + j) - k) = length v + j - unat k"
    if "unat k \<le> j" "j < 8" for j and k :: size_t
    using that assms(1) by (auto simp: word_le_nat_alt word_less_nat_alt unat_minus_le simp del: of_nat_add)
  note L = le [of _ 3] le [of _ 5] le [of _ 7]
  have w: "v = [] \<Longrightarrow> written v v0 = v0" by (simp add: written_def)
  have p: "(0 < (of_nat (length v) :: size_t)) = (v \<noteq> [])"
    using assms(1) by (auto simp: word_less_nat_alt)
  show
    "dec_write_req (Ptr (att_bytes (WriteReq h v))) (of_nat (length v + 3)) (Ptr h0) (Ptr v0) (Ptr n0)
     = Some (of_nat (length v + 3), Ptr h, Ptr (written v v0), Ptr (of_nat (length v)))"
    using L(1-3) [of 3] assms p w
    by (auto simp: att_dec mem_simps wr_start Let_def ucast_add_32_16 ucast_of_nat_32_16)
  show
    "dec_write_cmd (Ptr (att_bytes (WriteCmd h v))) (of_nat (length v + 3)) (Ptr h0) (Ptr v0) (Ptr n0)
     = Some (of_nat (length v + 3), Ptr h, Ptr (written v v0), Ptr (of_nat (length v)))"
    using L(1-3) [of 3] assms p w
    by (auto simp: att_dec mem_simps wr_start Let_def ucast_add_32_16 ucast_of_nat_32_16)
  show
    "dec_prep_write_req (Ptr (att_bytes (PrepWriteReq h i v))) (of_nat (length v + 5))
       (Ptr h0) (Ptr i0) (Ptr v0) (Ptr n0)
     = Some (of_nat (length v + 5), Ptr h, Ptr i, Ptr (written v v0), Ptr (of_nat (length v)))"
    using L(4-6) [of 5] assms p w
    by (auto simp: att_dec mem_simps wr_start Let_def ucast_add_32_16 ucast_of_nat_32_16)
  show
    "dec_find_by_type_req (Ptr (att_bytes (FindByTypeReq s e t v))) (of_nat (length v + 7))
       (Ptr h0) (Ptr i0) (Ptr u0) v0 (Ptr n0)
     = Some (of_nat (length v + 7), Ptr s, Ptr e, Ptr (BT_UUID16 t), written v v0, Ptr (of_nat (length v)))"
    using L(7-9) [of 7] assms p w
    by (auto simp: att_dec mem_simps wr_start Let_def ucast_add_32_16 ucast_of_nat_32_16 bt_uuid16_create_def)
qed

section \<open>Decoders of the responses\<close>

text \<open>
  The list a response of \<open>n\<close>-byte rows carries: as many whole rows as its payload holds.
\<close>

definition rows_list :: "nat \<Rightarrow> buf \<Rightarrow> att_data_list" where
  "rows_list n pk = (let k = (length pk - 2) div n in
     \<lparr>adl_num = of_nat k, adl_len = of_nat n, adl_data = chunks k n (drop 2 pk)\<rparr>)"

definition empty_list :: "nat \<Rightarrow> buf \<Rightarrow> att_data_list" where
  "empty_list n pk = (let k = (length pk - 2) div n in
     \<lparr>adl_num = of_nat k, adl_len = of_nat n, adl_data = replicate k (replicate n 0)\<rparr>)"

lemma empty_list_fill:
  "(empty_list n pk)\<lparr>adl_data := chunks ((length pk - 2) div n) n (drop 2 pk)\<rparr> = rows_list n pk"
  by (simp add: empty_list_def rows_list_def Let_def)

lemma alloc_fill:
  assumes "2 \<le> length pk" "length pk < 65536" "0 < n" "n < 256"
    "num = of_nat ((length pk - 2) div n)" "len = of_nat n"
  shows "(case att_data_list_alloc num len of
            NULL \<Rightarrow> z
          | Ptr list \<Rightarrow> do {
              ds \<leftarrow> fill_rows (unat num) pk 2 (unat (adl_len list)) 0 (adl_data list);
              g list ds }) = g (empty_list n pk) (chunks ((length pk - 2) div n) n (drop 2 pk))"
proof -
  let ?k = "(length pk - 2) div n"
  have "?k \<le> length pk - 2" by simp
  then have k: "?k < 65536" using assms(2) by linarith
  have "?k * n \<le> length pk - 2" by simp
  then have "2 + ?k * n \<le> length pk" using assms(1) by linarith
  from fill_rows_alloc [OF this] k assms(3-) show ?thesis
    by (simp add: att_data_list_alloc_def empty_list_def word_less_nat_alt Let_def)
qed

lemma size_div:
  fixes elen :: u16
  assumes "2 \<le> length pk" "length pk < 65536"
  shows "(ucast ((of_nat (length pk) - 2 :: size_t) div ucast elen) :: u16) =
           of_nat ((length pk - 2) div unat elen)"
    "((of_nat (length pk) - 2 :: size_t) mod ucast elen = 0) = ((length pk - 2) mod unat elen = 0)"
proof -
  have e: "(of_nat (length pk) - 2 :: size_t) = of_nat (length pk - 2)"
    using assms by (simp add: of_nat_diff)
  have u: "unat (of_nat (length pk) - 2 :: size_t) = length pk - 2"
    unfolding e using assms by (subst unat_of_nat_32) auto
  show "(ucast ((of_nat (length pk) - 2 :: size_t) div ucast elen) :: u16) =
           of_nat ((length pk - 2) div unat elen)"
    using u assms(2) by (simp add: word_unat_eq_iff unat_div unat_of_nat take_bit_eq_mod)
  show "((of_nat (length pk) - 2 :: size_t) mod ucast elen = 0) = ((length pk - 2) mod unat elen = 0)"
    using u by (simp add: word_unat_eq_iff unat_mod)
qed

lemma size_less: "length pk < 65536 \<Longrightarrow> ((of_nat (length pk) :: size_t) < w) = (length pk < unat w)"
  by (simp add: word_less_nat_alt)

lemma u8_less: "((ucast (b :: u8) :: u16) < w) = (unat b < unat w)"
  by (simp add: word_less_nat_alt)

lemma decoded_rows:
  fixes elen :: u16
  assumes "2 \<le> length pk" "length pk < 65536" "0 < unat elen" "unat elen < 256"
  shows "(case att_data_list_alloc (ucast ((of_nat (length pk) - 2 :: size_t) div ucast elen)) elen of
            NULL \<Rightarrow> z
          | Ptr list \<Rightarrow> do {
              ds \<leftarrow> fill_rows (unat (ucast ((of_nat (length pk) - 2 :: size_t) div ucast elen) :: u16)) pk 2
                (unat (adl_len list)) 0 (adl_data list);
              g list ds }) =
     g (empty_list (unat elen) pk) (chunks ((length pk - 2) div unat elen) (unat elen) (drop 2 pk))"
  by (rule alloc_fill [OF assms size_div(1) [OF assms(1,2)]]) simp

lemma dec_type_resp:
  assumes "pk \<noteq> []" "length pk < 65536"
  shows "dec_read_by_type_resp (Ptr pk) (of_nat (length pk)) =
     Some (if pk ! 0 = ATT_OP_READ_BY_TYPE_RESP \<and> 5 \<le> length pk \<and> 3 \<le> unat (pk ! 1) \<and>
              (length pk - 2) mod unat (pk ! 1) = 0
           then Ptr (rows_list (unat (pk ! 1)) pk) else NULL)"
proof (cases "5 \<le> length pk \<and> pk ! 0 = ATT_OP_READ_BY_TYPE_RESP \<and> 3 \<le> unat (pk ! 1)")
  case True
  define b where "b = pk ! Suc 0"
  define elen where "elen = (ucast b :: u16)"
  have l: "2 \<le> length pk" using True by simp
  have e: "unat elen = unat b" by (simp add: elen_def)
  have "0 < unat elen" "unat elen < 256" using True unat_lt_8 [of b] by (auto simp: e b_def)
  note R = decoded_rows [OF l assms(2) this] size_div(2) [OF l assms(2), of elen]
  show ?thesis unfolding att_dec Let_def using True assms(2)
    by (simp add: empty_list_fill rd8_def size_less R b_def [symmetric] elen_def [symmetric] e word_less_nat_alt [of elen]
        del: unat_ucast_down_16 cong del: ptr.case_cong_weak)
qed (use assms in \<open>auto simp: att_dec rd8_def size_less u8_less Let_def\<close>)

lemma dec_grp_resp:
  assumes "pk \<noteq> []" "length pk < 65536"
  shows "dec_read_by_grp_resp (Ptr pk) (of_nat (length pk)) =
     Some (if pk ! 0 = ATT_OP_READ_BY_GROUP_RESP \<and> 7 \<le> length pk \<and> 5 \<le> unat (pk ! 1) \<and>
              (length pk - 2) mod unat (pk ! 1) = 0
           then Ptr (rows_list (unat (pk ! 1)) pk) else NULL)"
proof (cases "7 \<le> length pk \<and> pk ! 0 = ATT_OP_READ_BY_GROUP_RESP \<and> 5 \<le> unat (pk ! 1)")
  case True
  define b where "b = pk ! Suc 0"
  define elen where "elen = (ucast b :: u16)"
  have l: "2 \<le> length pk" using True by simp
  have e: "unat elen = unat b" by (simp add: elen_def)
  have "0 < unat elen" "unat elen < 256" using True unat_lt_8 [of b] by (auto simp: e b_def)
  note R = decoded_rows [OF l assms(2) this] size_div(2) [OF l assms(2), of elen]
  show ?thesis unfolding att_dec Let_def using True assms(2)
    by (simp add: empty_list_fill rd8_def size_less R b_def [symmetric] elen_def [symmetric] e word_less_nat_alt [of elen]
        del: unat_ucast_down_16 cong del: ptr.case_cong_weak)
qed (use assms in \<open>auto simp: att_dec rd8_def size_less u8_less Let_def\<close>)

text \<open>The width of a Find Information row: a format the code does not know counts two bytes.\<close>

definition info_len :: "u8 \<Rightarrow> nat" where
  "info_len f = (if f = 1 then 4 else if f = 2 then 18 else 2)"

lemma dec_info_resp:
  assumes "2 \<le> length pk" "length pk < 65536"
  shows "dec_find_info_resp (Ptr pk) (of_nat (length pk)) (Ptr f0) =
     Some (if pk ! 0 = ATT_OP_FIND_INFO_RESP
           then (Ptr (rows_list (info_len (pk ! 1)) pk), Ptr (pk ! 1)) else (NULL, Ptr f0))"
proof -
  define b where "b = pk ! Suc 0"
  define elen where "elen = (if b = 1 then 2 + 2 else if b = 2 then 2 + 16 else 2 :: u16)"
  have u: "unat elen = info_len b" by (simp add: elen_def info_len_def)
  have "0 < unat elen" "unat elen < 256" by (auto simp: elen_def)
  note R = decoded_rows [OF assms this, unfolded u]
  have rd: "rd8 pk 0 = Some (pk ! 0)" "rd8 pk 1 = Some b" using assms by (auto simp: rd8_def b_def)
  show ?thesis
  proof (cases "pk ! 0 = ATT_OP_FIND_INFO_RESP")
    case True
    then show ?thesis unfolding att_dec Let_def
      by (simp only: ptr.case prod.case rd Option.bind.bind_lunit elen_def [symmetric] R u if_True
          simp_thms if_False empty_list_fill True) (simp add: b_def)
  next
    case False
    then show ?thesis by (simp add: att_dec rd)
  qed
qed

lemma get_ranges_concat:
  assumes "length hdr = off" "n = length hdr + 4 * length rs"
  shows "get_ranges (hdr @ concat (map (\<lambda>r. le16 (rstart r) @ le16 (rend r)) rs)) n off = Some rs"
  using assms
proof (induction rs arbitrary: hdr off)
  case Nil
  then show ?case by (simp add: get_ranges.simps)
next
  case (Cons r rs)
  have "get_ranges ((hdr @ le16 (rstart r) @ le16 (rend r)) @
      concat (map (\<lambda>r. le16 (rstart r) @ le16 (rend r)) rs)) n (off + 4) = Some rs"
    using Cons.prems by (intro Cons.IH) auto
  then show ?case using Cons.prems by (subst get_ranges.simps) (simp add: mem_simps)
qed

text \<open>A handle range list in the form of the decoder, for the rows of the wire format.\<close>

lemma dec_by_type_resp:
  assumes "rs \<noteq> []" "length rs < 16000"
  defines "pk \<equiv> att_bytes (FindByTypeResp (map (\<lambda>r. (rstart r, rend r)) rs))"
  shows "dec_find_by_type_resp (Ptr pk) (of_nat (length pk)) = Some rs"
proof -
  let ?bs = "concat (map (\<lambda>r. le16 (rstart r) @ le16 (rend r)) rs)"
  have l: "length ?bs = 4 * length rs" by (induction rs) auto
  have pk: "pk = [0x07] @ ?bs" by (simp add: pk_def comp_def)
  have n: "length pk = 1 + 4 * length rs" "length pk < 65536" using l assms(2) by (auto simp: pk)
  have "(of_nat (length pk) - 1 :: size_t) = of_nat (4 * length rs)" by (simp add: n)
  then have "unat (of_nat (length pk) - 1 :: size_t) = 4 * length rs"
    using n by (simp only: unat_of_nat_32)
  then have m: "(of_nat (length pk) - 1 :: size_t) mod 4 = 0" by (simp add: word_unat_eq_iff unat_mod)
  have g: "get_ranges pk (length pk) 1 = Some rs"
    unfolding pk using l by (intro get_ranges_concat) auto
  have r: "rd8 pk 0 = Some 0x07" by (simp add: pk mem_simps)
  have z: "\<not> (of_nat (length pk) :: size_t) < 5" unfolding size_less [OF n(2)] using n(1) assms(1) by (cases rs) auto
  show ?thesis using g m n(2) z r unfolding att_dec by simp
qed

text \<open>Any packet: the loop stays inside it and stops.\<close>

lemma get_ranges_safe: "n \<le> length pk \<Longrightarrow> get_ranges pk n off \<noteq> None"
proof (induction "n - off" arbitrary: off rule: less_induct)
  case less
  show ?case
  proof (cases "off + 4 \<le> n")
    case True
    then have "get_ranges pk n (off + 4) \<noteq> None" using less by simp
    with True less.prems show ?thesis by (subst get_ranges.simps) (auto simp: get_le16_Some)
  qed (subst get_ranges.simps, simp)
qed

lemma dec_by_type_safe:
  "length pk < 65536 \<Longrightarrow> dec_find_by_type_resp (Ptr pk) (of_nat (length pk)) \<noteq> None"
  using get_ranges_safe [of "length pk" pk 1] by (auto simp: att_dec rd8_def size_less)

lemma rows_list_att_bytes:
  assumes "\<forall>r\<in>set rows. length r = n" "0 < n"
  shows "rows_list n ([op, b] @ concat rows) =
    \<lparr>adl_num = of_nat (length rows), adl_len = of_nat n, adl_data = rows\<rparr>"
proof -
  have "length (concat rows) = length rows * n" using assms(1) by (induction rows) auto
  then show ?thesis using assms chunks_concat [of rows n "[]"] by (simp add: rows_list_def)
qed

lemma type_resp_roundtrip:
  assumes "wf_adl l" "adl_data l \<noteq> []" "3 \<le> unat (adl_len l)" "length p = unat len"
    "unat len < 65536" "unat (adl_len l) + 2 \<le> unat len"
  shows "\<exists>n q. enc_read_by_type_resp (Ptr l) (Ptr p) len = Some (n, Ptr q) \<and>
     dec_read_by_type_resp (Ptr (take (unat n) q)) (ucast n) =
       Some (Ptr \<lparr>adl_num = of_nat (min (unat (adl_num l)) ((unat len - 2) div unat (adl_len l))),
                  adl_len = adl_len l,
                  adl_data = take ((unat len - 2) div unat (adl_len l)) (adl_data l)\<rparr>)"
proof -
  let ?n = "unat (adl_len l)"
  define rows where "rows = take ((unat len - 2) div ?n) (adl_data l)"
  define pk where "pk = att_bytes (ReadByTypeResp (of_nat ?n) rows)"
  have m: "min (unat len - 2) ?n = ?n" using assms(6) by simp
  have f: "fit_rows (unat len) ?n (adl_data l) = rows"
    using assms(1) by (simp add: fit_rows_full wf_adl_rows rows_def)
  have e: "encodes (enc_read_by_type_resp (Ptr l) (Ptr p) len) p (ReadByTypeResp (of_nat ?n) rows)"
    using enc_type_resp [OF assms(1,4,5)] assms(3,6) unfolding m f by simp
  then have len: "length pk \<le> length p"
    "enc_read_by_type_resp (Ptr l) (Ptr p) len = Some (of_nat (length pk), Ptr (written pk p))"
    by (auto simp: encodes_def pk_def)
  have rl: "\<forall>r\<in>set rows. length r = ?n" using wf_adl_rows [OF assms(1)]
    by (auto simp: rows_def dest: in_set_takeD)
  have n255: "?n \<le> 255" "0 < ?n" using wf_adl_len [OF assms(1)] by auto
  have b: "unat (of_nat ?n :: u8) = ?n" using n255 by (simp add: unat_of_nat take_bit_eq_mod)
  have "1 \<le> (unat len - 2) div ?n" using assms(6) n255 by (simp add: div_greater_zero_iff Suc_le_eq)
  then have ne: "rows \<noteq> []" using assms(2) by (simp add: rows_def)
  have tot: "length pk = 2 + length rows * ?n"
    using rl by (simp add: pk_def) (induction rows, auto)
  have mods: "(length pk - 2) mod ?n = 0" "5 \<le> length pk" "pk \<noteq> []" "length pk < 65536"
    using tot ne assms(3,4,5) len(1) by (cases rows; auto)+
  have nth: "pk ! 0 = 0x09" "pk ! 1 = of_nat ?n" by (simp_all add: pk_def)
  have "dec_read_by_type_resp (Ptr pk) (of_nat (length pk)) = Some (Ptr (rows_list ?n pk))"
    using dec_type_resp [OF mods(3,4)] nth b mods(1,2) assms(3) by simp
  moreover have "rows_list ?n pk = \<lparr>adl_num = of_nat (length rows), adl_len = adl_len l, adl_data = rows\<rparr>"
    unfolding pk_def att_bytes.simps using rows_list_att_bytes [OF rl n255(2)] by simp
  moreover have "length rows = min (unat (adl_num l)) ((unat len - 2) div ?n)"
    using assms(1) by (simp add: rows_def wf_adl_def min.commute)
  ultimately show ?thesis using len mods(4)
    by (intro exI [of _ "of_nat (length pk)"] exI [of _ "written pk p"])
       (simp add: ucast_of_nat_16_32 rows_def)
qed

section \<open>Properties\<close>

text \<open>
  C33: The encoders of the client's requests implement the wire format: given a buffer of at least
  23 bytes (the smallest MTU) they write exactly the bytes of the PDU at its front, leave the rest
  of the buffer, return the length, and cut a value to what the buffer holds.
\<close>

theorem att_requests_refine:
  assumes "length p = unat len" "23 \<le> unat len" "wf_uuid u" "att_uuid_len u = Some n"
    "unat vlen \<le> length val"
  shows "encodes (enc_read_by_grp_req s e (Ptr u) (Ptr p) len) p (ReadByGroupReq s e u) \<and>
    encodes (enc_read_by_type_req s e (Ptr u) (Ptr p) len) p (ReadByTypeReq s e u) \<and>
    encodes (enc_find_by_type_req s e (Ptr (BT_UUID16 t)) val vlen (Ptr p) len) p
      (FindByTypeReq s e t (take (min (unat vlen) (unat len - 7)) val)) \<and>
    encodes (enc_find_info_req s e (Ptr p) len) p (FindInfoReq s e) \<and>
    encodes (enc_read_req h (Ptr p) len) p (ReadReq h) \<and>
    encodes (enc_read_blob_req h i (Ptr p) len) p (ReadBlobReq h i) \<and>
    encodes (enc_mtu_req m (Ptr p) len) p (MtuReq m) \<and>
    encodes (enc_write_req h val vlen (Ptr p) len) p
      (WriteReq h (take (min (unat vlen) (unat len - 3)) val)) \<and>
    encodes (enc_write_cmd h val vlen (Ptr p) len) p
      (WriteCmd h (take (min (unat vlen) (unat len - 3)) val)) \<and>
    encodes (enc_prep_write_req h i val vlen (Ptr p) len) p
      (PrepWriteReq h i (take (min (unat vlen) (unat len - 5)) val)) \<and>
    (f \<le> 1 \<longrightarrow> encodes (enc_exec_write_req f (Ptr p) len) p (ExecWriteReq f))"
proof -
  have "5 + unat n \<le> length p" using assms(1,2) att_uuid_len_cases [OF assms(3,4)] by auto
  note U = enc_uuid_req [OF assms(3,4) this]
  show ?thesis using assms(1,2,5) by (auto intro!: U enc_value enc_fixed)
qed

theorem att_requests_refine_witness:
  "encodes (enc_read_by_type_req 1 0xFFFF (Ptr (BT_UUID16 0x2803)) (Ptr (replicate 23 0)) 23)
     (replicate 23 0) (ReadByTypeReq 1 0xFFFF (BT_UUID16 0x2803))"
  using att_requests_refine [of "replicate 23 0" 23 "BT_UUID16 0x2803" 2 0 "[]" 1 "0xFFFF"]
  by (simp add: att_uuid_len_def)

text \<open>
  What a request encoder writes, the server's decoder reads back: the range and the UUID of a
  Read By Type or Read By Group Type request, the handle, offset and value of the writes; and it
  reports the length of the PDU.
\<close>

theorem att_request_roundtrip:
  assumes "wf_uuid u" "att_uuid_len u = Some n" "length v \<le> 505" "length v \<le> length v0"
  shows
    "dec_read_by_type_req (Ptr (att_bytes (ReadByTypeReq s e u)))
       (of_nat (length (att_bytes (ReadByTypeReq s e u)))) (Ptr s0) (Ptr e0) (Ptr u0)
       = Some (5 + n, Ptr s, Ptr e, Ptr u) \<and>
     dec_read_by_grp_req (Ptr (att_bytes (ReadByGroupReq s e u)))
       (of_nat (length (att_bytes (ReadByGroupReq s e u)))) (Ptr s0) (Ptr e0) (Ptr u0)
       = Some (5 + n, Ptr s, Ptr e, Ptr u) \<and>
     dec_write_req (Ptr (att_bytes (WriteReq h v))) (of_nat (length v + 3)) (Ptr h0) (Ptr v0) (Ptr n0)
       = Some (of_nat (length v + 3), Ptr h, Ptr (written v v0), Ptr (of_nat (length v))) \<and>
     dec_write_cmd (Ptr (att_bytes (WriteCmd h v))) (of_nat (length v + 3)) (Ptr h0) (Ptr v0) (Ptr n0)
       = Some (of_nat (length v + 3), Ptr h, Ptr (written v v0), Ptr (of_nat (length v))) \<and>
     dec_prep_write_req (Ptr (att_bytes (PrepWriteReq h i v))) (of_nat (length v + 5))
       (Ptr h0) (Ptr i0) (Ptr v0) (Ptr n0)
       = Some (of_nat (length v + 5), Ptr h, Ptr i, Ptr (written v v0), Ptr (of_nat (length v))) \<and>
     dec_find_by_type_req (Ptr (att_bytes (FindByTypeReq s e t v))) (of_nat (length v + 7))
       (Ptr h0) (Ptr i0) (Ptr u0) v0 (Ptr n0)
       = Some (of_nat (length v + 7), Ptr s, Ptr e, Ptr (BT_UUID16 t), written v v0,
               Ptr (of_nat (length v)))"
proof -
  have "length v + 7 < 2 ^ 32" using assms(3) by simp
  note V = dec_value [OF this assms(4)]
  show ?thesis by (intro conjI dec_uuid_req [OF assms(1,2)] V)
qed

theorem att_request_roundtrip_witness:
  "dec_write_req (Ptr (att_bytes (WriteReq 0x2A [1, 2]))) 5 (Ptr 0) (Ptr [0, 0, 9]) (Ptr 0)
     = Some (5, Ptr 0x2A, Ptr [1, 2, 9], Ptr 2)"
  using att_request_roundtrip [of "BT_UUID16 0" 2 "[1, 2]" "[0, 0, 9]" 0 0 0 0 "BT_UUID16 0" "0x2A" 0 0]
  by (simp add: att_uuid_len_def written_def)

text \<open>
  Whatever packet a peer sends, the decoders of the list responses read only bytes of the
  packet and give exactly its rows: the width is the packet's second byte, a width too small for
  a handle and a value, a packet shorter than one row or with a partial row gives \<open>NULL\<close>, and the
  loop over handle ranges stops inside the packet.
\<close>

theorem list_responses_exact:
  assumes "pk \<noteq> []" "length pk < 65536"
  shows "dec_read_by_type_resp (Ptr pk) (of_nat (length pk)) =
     Some (if pk ! 0 = ATT_OP_READ_BY_TYPE_RESP \<and> 5 \<le> length pk \<and> 3 \<le> unat (pk ! 1) \<and>
              (length pk - 2) mod unat (pk ! 1) = 0
           then Ptr (rows_list (unat (pk ! 1)) pk) else NULL) \<and>
    dec_read_by_grp_resp (Ptr pk) (of_nat (length pk)) =
     Some (if pk ! 0 = ATT_OP_READ_BY_GROUP_RESP \<and> 7 \<le> length pk \<and> 5 \<le> unat (pk ! 1) \<and>
              (length pk - 2) mod unat (pk ! 1) = 0
           then Ptr (rows_list (unat (pk ! 1)) pk) else NULL) \<and>
    dec_find_by_type_resp (Ptr pk) (of_nat (length pk)) \<noteq> None"
  by (intro conjI dec_type_resp dec_grp_resp dec_by_type_safe assms)

theorem list_responses_exact_witness:
  "dec_read_by_type_resp (Ptr [9, 3, 1, 0, 7]) 5 =
     Some (Ptr \<lparr>adl_num = 1, adl_len = 3, adl_data = [[1, 0, 7]]\<rparr>)"
  using list_responses_exact [of "[9, 3, 1, 0, 7]"] by (simp add: rows_list_def)

text \<open>
  A client that decodes a server's Read By Type response gets back the rows the server
  encoded: as many of them as the PDU holds, unchanged and in order.
\<close>

theorem type_response_roundtrip:
  assumes "wf_adl l" "adl_data l \<noteq> []" "3 \<le> unat (adl_len l)" "length p = unat len"
    "unat len < 65536" "unat (adl_len l) + 2 \<le> unat len"
  shows "\<exists>n q. enc_read_by_type_resp (Ptr l) (Ptr p) len = Some (n, Ptr q) \<and>
     dec_read_by_type_resp (Ptr (take (unat n) q)) (ucast n) =
       Some (Ptr \<lparr>adl_num = of_nat (min (unat (adl_num l)) ((unat len - 2) div unat (adl_len l))),
                  adl_len = adl_len l,
                  adl_data = take ((unat len - 2) div unat (adl_len l)) (adl_data l)\<rparr>)"
  by (rule type_resp_roundtrip [OF assms])

theorem type_response_roundtrip_witness:
  "\<exists>n q. enc_read_by_type_resp (Ptr \<lparr>adl_num = 2, adl_len = 3, adl_data = [[1, 0, 7], [2, 0, 8]]\<rparr>)
       (Ptr (replicate 7 0)) 7 = Some (n, Ptr q) \<and>
     dec_read_by_type_resp (Ptr (take (unat n) q)) (ucast n) =
       Some (Ptr \<lparr>adl_num = 1, adl_len = 3, adl_data = [[1, 0, 7]]\<rparr>)"
  using type_response_roundtrip [of "\<lparr>adl_num = 2, adl_len = 3, adl_data = [[1, 0, 7], [2, 0, 8]]\<rparr>" "replicate 7 0" 7]
  by (simp add: wf_adl_def)

text \<open>
  The decoder of Find Information responses, on every packet of two bytes or more: a list of
  the whole rows of the packet.  A format other than the two the protocol defines is not refused;
  its rows have two bytes, too few for the handle and the UUID the callers read.
\<close>

theorem find_info_response_exact:
  assumes "2 \<le> length pk" "length pk < 65536"
  shows "dec_find_info_resp (Ptr pk) (of_nat (length pk)) (Ptr f0) =
     Some (if pk ! 0 = ATT_OP_FIND_INFO_RESP
           then (Ptr (rows_list (info_len (pk ! 1)) pk), Ptr (pk ! 1)) else (NULL, Ptr f0))"
  by (rule dec_info_resp [OF assms])

theorem find_info_response_exact_witness:
  "dec_find_info_resp (Ptr [5, 9, 1, 0]) 4 (Ptr 0) =
     Some (Ptr \<lparr>adl_num = 1, adl_len = 2, adl_data = [[1, 0]]\<rparr>, Ptr 9)"
  using find_info_response_exact [of "[5, 9, 1, 0]" 0] by (simp add: rows_list_def info_len_def)

text \<open>
  The decoder of Prepare Write responses compares the opcode with that of the request, so it
  refuses every response its own encoder builds, and accepts the bytes of a request.
\<close>

theorem prep_write_resp_refused:
  assumes "5 \<le> unat len" "unat len < 65536" "length p = unat len" "unat vlen \<le> length val"
  shows "\<exists>n q. enc_prep_write_resp h i val vlen (Ptr p) len = Some (n, Ptr q) \<and> 5 \<le> n \<and>
     dec_prep_write_resp (Ptr q) (ucast n) (Ptr h0) (Ptr i0) (Ptr v0) (Ptr n0)
       = Some (0, Ptr h0, Ptr i0, Ptr v0, Ptr n0)"
proof -
  define v where "v = take (min (unat vlen) (unat len - 5)) val"
  have e: "encodes (enc_prep_write_resp h i val vlen (Ptr p) len) p (PrepWriteResp h i v)"
    unfolding v_def using assms by (intro enc_value(4)) simp_all
  let ?xs = "att_bytes (PrepWriteResp h i v)"
  have l: "length ?xs \<le> length p" "5 \<le> length ?xs" using e by (auto simp: encodes_def)
  have n: "5 \<le> (of_nat (length ?xs) :: u16)"
    using l assms(2,3) by (simp only: word_le_nat_alt) (simp del: of_nat_add of_nat_Suc)
  have "rd8 (written ?xs p) 0 = Some ATT_OP_PREP_WRITE_RESP" by (simp add: written_def mem_simps)
  then have "dec_prep_write_resp (Ptr (written ?xs p)) (ucast (of_nat (length ?xs) :: u16))
      (Ptr h0) (Ptr i0) (Ptr v0) (Ptr n0) = Some (0, Ptr h0, Ptr i0, Ptr v0, Ptr n0)"
    by (simp add: att_dec Let_def)
  with e n show ?thesis by (auto simp: encodes_def)
qed

theorem prep_write_resp_refused_witness:
  "\<exists>n q. enc_prep_write_resp 3 0 [1, 2] 2 (Ptr (replicate 8 0)) 8 = Some (n, Ptr q) \<and> 5 \<le> n \<and>
     dec_prep_write_resp (Ptr q) (ucast n) (Ptr 0) (Ptr 0) (Ptr [0, 0]) (Ptr 0)
       = Some (0, Ptr 0, Ptr 0, Ptr [0, 0], Ptr 0)"
  by (rule prep_write_resp_refused) simp_all

section \<open>Signatures\<close>

lemma sign_att_some:
  assumes "\<And>key m. \<exists>out. cmac_aes K key m = Some out \<and> length out = 16"
    "16 \<le> length key" "unat m_len \<le> length m" "unat m_len + 4 < 65536"
  shows "\<exists>sg. bt_crypto_sign_att (Ptr K) key m m_len cnt = Some (Some (le_of 4 cnt @ sg)) \<and> length sg = 8"
proof -
  have u: "unat (m_len + 4) = unat m_len + 4" using assms(4)
    by (subst unat_add_lem [THEN iffD1]) auto
  have w: "wr (replicate (unat m_len + 4) 0) 0 (take (unat m_len) m) =
      Some (written (take (unat m_len) m) (replicate (unat m_len + 4) 0))"
    using assms(3) by (intro wr_start) simp
  define msg where "msg = take (unat m_len) m @ le_of 4 cnt"
  have w2: "put_le32 cnt (written (take (unat m_len) m) (replicate (unat m_len + 4) 0)) (unat m_len) = Some msg"
    using assms(3) by (simp add: put_le32_def mem_simps) (simp add: written_def msg_def)
  have lm: "length msg = unat m_len + 4" using assms(3) by (simp add: msg_def)
  obtain out where out: "cmac_aes K (rev (take 16 key)) (rev msg) = Some out" "length out = 16"
    using assms(1) by blast
  have p: "put_be32 cnt out 8 = Some (take 8 out @ rev (le_of 4 cnt) @ drop 12 out)"
    using out(2) by (simp add: put_be32_def wr_def)
  have "swap_buf (take 8 out @ rev (le_of 4 cnt) @ drop 12 out) 16 =
      Some (rev (drop 12 out) @ le_of 4 cnt @ rev (take 8 out))"
    using out(2) by (simp add: swap_buf_def rd_def)
  moreover have "rd (rev (drop 12 out) @ le_of 4 cnt @ rev (take 8 out)) 4 12 =
      Some (le_of 4 cnt @ rev (take 8 out))"
    using out(2) by (simp add: rd_def)
  ultimately show ?thesis
    using assms(2,3) out p w w2 lm u
    by (simp add: bt_crypto_sign_att_def rd_take swap_buf_def Let_def)
qed

text \<open>
  A signed write that the client builds is accepted by the receiver's check: the signature
  covers the header and the value, carries the counter in its first four bytes, and verifies with
  the same key, for every counter.
\<close>

theorem signed_write_verifies:
  assumes "\<And>key m. \<exists>out. cmac_aes K key m = Some out \<and> length out = 16"
    "16 \<le> length csrk" "15 \<le> unat len" "unat len < 65536" "length p = unat len"
    "unat vlen \<le> length val"
  shows "\<exists>n q. enc_signed_write_cmd h val vlen (Ptr K) csrk cnt (Ptr p) len = Some (n, Ptr q) \<and>
     bt_crypto_verify_att_sign (Ptr K) csrk q n = Some True"
proof -
  define k where "k = clamp_vlen vlen len 15"
  have uk: "unat k = min (unat vlen) (unat len - 15)"
    unfolding k_def using assms(3) by (subst unat_clamp_vlen) auto
  define v where "v = take (unat k) val"
  have lv: "length v = unat k" using assms(6) uk by (simp add: v_def)
  let ?hv = "[0xD2] @ le16 h @ v"
  have kk: "unat k + 15 \<le> unat len" using assms(3) uk by simp
  have um: "unat (3 + ucast k :: u16) = 3 + unat k" "unat (15 + ucast k :: u16) = 15 + unat k"
    using kk assms(4) by (auto simp: unat_word_ariths)
  obtain sg where sg: "bt_crypto_sign_att (Ptr K) csrk (written ?hv p) (3 + ucast k) cnt =
      Some (Some (le_of 4 cnt @ sg))" "length sg = 8"
    using sign_att_some [OF assms(1,2), of "3 + ucast k" "written ?hv p" cnt] kk lv assms(4,5) um
    by auto
  let ?q = "written (?hv @ le_of 4 cnt @ sg) p"
  have rdv: "rd val 0 (unat k) = Some v" using assms(6) uk by (simp add: rd_take v_def)
  have enc: "enc_signed_write_cmd h val vlen (Ptr K) csrk cnt (Ptr p) len = Some (15 + ucast k, Ptr ?q)"
  proof (cases "k = 0")
    case True
    then show ?thesis using sg kk lv assms(5)
      by (simp add: att_enc k_def [symmetric] mem_simps Let_def)
  next
    case False
    then show ?thesis using sg kk lv assms(5) rdv
      by (simp add: att_enc k_def [symmetric] mem_simps Let_def word_gt_0)
  qed
  have same: "rd ?q 0 (3 + unat k) = Some ?hv" "rd (written ?hv p) 0 (3 + unat k) = Some ?hv"
    using lv by (simp_all add: rd_def written_def take_Cons')
  have s2: "bt_crypto_sign_att (Ptr K) csrk ?q (3 + ucast k) cnt = Some (Some (le_of 4 cnt @ sg))"
    using sg(1) same um(1) by (simp add: bt_crypto_sign_att_def Let_def)
  have r: "get_le32 ?q (3 + unat k) = Some cnt" "rd ?q (3 + unat k) 12 = Some (le_of 4 cnt @ sg)"
    using lv sg(2) by (simp_all add: get_le32_def rd_def written_def drop_Cons')
  have m: "15 + ucast k - 12 = (3 + ucast k :: u16)" by simp
  have "bt_crypto_verify_att_sign (Ptr K) csrk ?q (15 + ucast k) = Some True"
    using s2 r um by (simp add: bt_crypto_verify_att_sign_def Let_def m word_less_nat_alt)
  with enc show ?thesis by blast
qed


theorem signed_write_verifies_witness:
  "\<exists>n q. enc_signed_write_cmd 0x25 [1, 2] 2
       (Ptr \<lparr>ecb_aes = \<lambda>_ _. None, cmac_aes = \<lambda>k m. Some (take 16 (m @ k @ replicate 16 0))\<rparr>)
       (replicate 16 7) 1 (Ptr (replicate 23 0)) 23 = Some (n, Ptr q) \<and>
     bt_crypto_verify_att_sign
       (Ptr \<lparr>ecb_aes = \<lambda>_ _. None, cmac_aes = \<lambda>k m. Some (take 16 (m @ k @ replicate 16 0))\<rparr>)
       (replicate 16 7) q n = Some True"
  by (rule signed_write_verifies) simp_all

end
