(* ===== verification/Queue.thy ===== *)
theory Queue
  imports Prelude
begin

text \<open>
  \<open>src/shared/queue.c\<close>: the singly linked queue with a tail pointer, an entry counter and a
  reference count, at the level of its pointers.  The entries live in \<open>q_cells\<close>, a map from
  addresses to allocated entries; loading from or storing to an address that is not allocated is
  undefined (\<open>None\<close>), \<open>free\<close> removes the address, and \<open>new0\<close>, which aborts rather than return
  \<open>NULL\<close>, takes one that was never used.  A \<open>void *\<close> is an \<open>'d ptr\<close>.

  The loops follow pointers and are partial functions: a cyclic list makes them diverge, which is
  also \<open>None\<close>.  The lemmas show that on a queue that represents a list (\<open>queue_rep\<close>) every
  operation is defined, returns what the operation on the list returns and represents the
  resulting list; in particular nothing leaks and nothing is freed twice.
\<close>

section \<open>Entries and the heap they live in\<close>

record 'd queue_entry =
  qe_data :: "'d ptr"
  qe_next :: "nat ptr"

record 'd queue =
  q_ref :: int
  q_head :: "nat ptr"
  q_tail :: "nat ptr"
  q_entries :: u32
  q_cells :: "nat \<rightharpoonup> 'd queue_entry"
  q_brk :: nat

definition qload :: "'d queue \<Rightarrow> nat ptr \<Rightarrow> 'd queue_entry option" where
  "qload q p = do { a \<leftarrow> deref p; q_cells q a }"

definition qstore_next :: "'d queue \<Rightarrow> nat ptr \<Rightarrow> nat ptr \<Rightarrow> 'd queue option" where
  "qstore_next q p n = do {
     a \<leftarrow> deref p;
     e \<leftarrow> q_cells q a;
     Some (q\<lparr>q_cells := (q_cells q)(a \<mapsto> e\<lparr>qe_next := n\<rparr>)\<rparr>) }"

definition qfree :: "'d queue \<Rightarrow> nat ptr \<Rightarrow> 'd queue option" where
  "qfree q p = do {
     a \<leftarrow> deref p;
     _ \<leftarrow> q_cells q a;
     Some (q\<lparr>q_cells := (q_cells q)(a := None)\<rparr>) }"

definition queue_entry_new :: "'d queue \<Rightarrow> 'd ptr \<Rightarrow> nat ptr \<times> 'd queue" where
  "queue_entry_new q data =
     (Ptr (q_brk q),
      q\<lparr>q_cells := (q_cells q)(q_brk q \<mapsto> \<lparr>qe_data = data, qe_next = NULL\<rparr>), q_brk := Suc (q_brk q)\<rparr>)"

section \<open>Reference count\<close>

definition queue_ref :: "'d queue ptr \<Rightarrow> 'd queue ptr" where
  "queue_ref queue = (case queue of NULL \<Rightarrow> NULL | Ptr q \<Rightarrow> Ptr (q\<lparr>q_ref := q_ref q + 1\<rparr>))"

text \<open>\<open>NULL\<close> as the result stands for the freed queue.\<close>

definition queue_unref :: "'d queue \<Rightarrow> 'd queue ptr" where
  "queue_unref q =
     (let q = q\<lparr>q_ref := q_ref q - 1\<rparr> in if q_ref q \<noteq> 0 then Ptr q else NULL)"

definition queue_new :: "'d queue ptr" where
  "queue_new = queue_ref (Ptr \<lparr>q_ref = 0, q_head = NULL, q_tail = NULL, q_entries = 0,
                               q_cells = Map.empty, q_brk = 0\<rparr>)"

section \<open>Insertion\<close>

definition queue_push_tail :: "'d queue ptr \<Rightarrow> 'd ptr \<Rightarrow> (bool \<times> 'd queue ptr) option" where
  "queue_push_tail queue data =
     (case queue of
        NULL \<Rightarrow> Some (False, NULL)
      | Ptr q \<Rightarrow> do {
          let (entry, q) = queue_entry_new q data;
          q \<leftarrow> (if q_tail q \<noteq> NULL then qstore_next q (q_tail q) entry else Some q);
          let q = q\<lparr>q_tail := entry\<rparr>;
          let q = (if q_head q = NULL then q\<lparr>q_head := entry\<rparr> else q);
          Some (True, Ptr (q\<lparr>q_entries := q_entries q + 1\<rparr>)) })"

definition queue_push_head :: "'d queue ptr \<Rightarrow> 'd ptr \<Rightarrow> (bool \<times> 'd queue ptr) option" where
  "queue_push_head queue data =
     (case queue of
        NULL \<Rightarrow> Some (False, NULL)
      | Ptr q \<Rightarrow> do {
          let (entry, q) = queue_entry_new q data;
          q \<leftarrow> qstore_next q entry (q_head q);
          let q = q\<lparr>q_head := entry\<rparr>;
          let q = (if q_tail q = NULL then q\<lparr>q_tail := entry\<rparr> else q);
          Some (True, Ptr (q\<lparr>q_entries := q_entries q + 1\<rparr>)) })"

text \<open>The search loops return the address of the entry found and the one before it.\<close>

partial_function (option) seek ::
    "'d queue \<Rightarrow> ('d ptr \<Rightarrow> bool) \<Rightarrow> nat ptr \<Rightarrow> nat ptr \<Rightarrow> (nat ptr \<times> nat ptr) option" where
  "seek q f prev entry =
     (if entry = NULL then Some (NULL, NULL)
      else do {
        e \<leftarrow> qload q entry;
        if f (qe_data e) then Some (prev, entry) else seek q f entry (qe_next e) })"

definition queue_push_after :: "'d queue ptr \<Rightarrow> 'd ptr \<Rightarrow> 'd ptr \<Rightarrow> (bool \<times> 'd queue ptr) option" where
  "queue_push_after queue entry data =
     (case queue of
        NULL \<Rightarrow> Some (False, NULL)
      | Ptr q \<Rightarrow> do {
          (_, qentry) \<leftarrow> seek q (\<lambda>d. d = entry) NULL (q_head q);
          if qentry = NULL then Some (False, Ptr q)
          else do {
            let (new_entry, q) = queue_entry_new q data;
            e \<leftarrow> qload q qentry;
            q \<leftarrow> qstore_next q new_entry (qe_next e);
            let q = (if qe_next e = NULL then q\<lparr>q_tail := new_entry\<rparr> else q);
            q \<leftarrow> qstore_next q qentry new_entry;
            Some (True, Ptr (q\<lparr>q_entries := q_entries q + 1\<rparr>)) } })"

section \<open>The ends of the queue\<close>

definition queue_pop_head :: "'d queue ptr \<Rightarrow> ('d ptr \<times> 'd queue ptr) option" where
  "queue_pop_head queue =
     (case queue of
        NULL \<Rightarrow> Some (NULL, NULL)
      | Ptr q \<Rightarrow>
          if q_head q = NULL then Some (NULL, Ptr q)
          else do {
            let entry = q_head q;
            e \<leftarrow> qload q entry;
            let q = (if qe_next e = NULL then q\<lparr>q_head := NULL, q_tail := NULL\<rparr>
                     else q\<lparr>q_head := qe_next e\<rparr>);
            q \<leftarrow> qfree q entry;
            Some (qe_data e, Ptr (q\<lparr>q_entries := q_entries q - 1\<rparr>)) })"

definition queue_peek_head :: "'d queue ptr \<Rightarrow> 'd ptr option" where
  "queue_peek_head queue =
     (case queue of
        NULL \<Rightarrow> Some NULL
      | Ptr q \<Rightarrow> if q_head q = NULL then Some NULL else do { e \<leftarrow> qload q (q_head q); Some (qe_data e) })"

definition queue_peek_tail :: "'d queue ptr \<Rightarrow> 'd ptr option" where
  "queue_peek_tail queue =
     (case queue of
        NULL \<Rightarrow> Some NULL
      | Ptr q \<Rightarrow> if q_tail q = NULL then Some NULL else do { e \<leftarrow> qload q (q_tail q); Some (qe_data e) })"

section \<open>Iteration and search\<close>

text \<open>
  The function may change the queue; the queue stays allocated while \<open>queue_foreach\<close> holds its
  reference, and the loop ends when the function has dropped the last other one.
\<close>

partial_function (option) foreach_loop ::
    "('d ptr \<Rightarrow> 'd queue \<times> 'u \<Rightarrow> ('d queue \<times> 'u) option) \<Rightarrow> nat ptr \<Rightarrow> 'd queue \<times> 'u \<Rightarrow>
       ('d queue \<times> 'u) option" where
  "foreach_loop f entry s =
     (if entry \<noteq> NULL \<and> q_head (fst s) \<noteq> NULL \<and> 1 < q_ref (fst s) then do {
        e \<leftarrow> qload (fst s) entry;
        s \<leftarrow> f (qe_data e) s;
        foreach_loop f (qe_next e) s }
      else Some s)"

definition queue_foreach ::
    "'d queue ptr \<Rightarrow> ('d ptr \<Rightarrow> 'd queue \<times> 'u \<Rightarrow> ('d queue \<times> 'u) option) ptr \<Rightarrow> 'u \<Rightarrow>
       ('d queue ptr \<times> 'u) option" where
  "queue_foreach queue function user_data =
     (case (queue, function) of
        (Ptr q, Ptr f) \<Rightarrow>
          if q_head q = NULL then Some (queue, user_data)
          else do {
            let q = q\<lparr>q_ref := q_ref q + 1\<rparr>;
            (q, u) \<leftarrow> foreach_loop f (q_head q) (q, user_data);
            Some (queue_unref q, u) }
      | _ \<Rightarrow> Some (queue, user_data))"

text \<open>\<open>match f a\<close> is the test \<open>function(data, match_data)\<close>, \<open>direct_match\<close> for a null function.\<close>

definition match :: "('d ptr \<Rightarrow> 'd ptr \<Rightarrow> bool) ptr \<Rightarrow> 'd ptr \<Rightarrow> 'd ptr \<Rightarrow> bool" where
  "match function match_data = (\<lambda>d. case function of NULL \<Rightarrow> d = match_data | Ptr f \<Rightarrow> f d match_data)"

definition queue_find ::
    "'d queue ptr \<Rightarrow> ('d ptr \<Rightarrow> 'd ptr \<Rightarrow> bool) ptr \<Rightarrow> 'd ptr \<Rightarrow> 'd ptr option" where
  "queue_find queue function match_data =
     (case queue of
        NULL \<Rightarrow> Some NULL
      | Ptr q \<Rightarrow> do {
          (_, entry) \<leftarrow> seek q (match function match_data) NULL (q_head q);
          if entry = NULL then Some NULL else do { e \<leftarrow> qload q entry; Some (qe_data e) } })"

section \<open>Removal\<close>

text \<open>The unlinking both removal functions do once the entry is found.\<close>

definition unlink_entry :: "'d queue \<Rightarrow> nat ptr \<Rightarrow> nat ptr \<Rightarrow> ('d ptr \<times> 'd queue) option" where
  "unlink_entry q prev entry = do {
     e \<leftarrow> qload q entry;
     q \<leftarrow> (if prev \<noteq> NULL then qstore_next q prev (qe_next e) else Some (q\<lparr>q_head := qe_next e\<rparr>));
     let q = (if qe_next e = NULL then q\<lparr>q_tail := prev\<rparr> else q);
     q \<leftarrow> qfree q entry;
     Some (qe_data e, q\<lparr>q_entries := q_entries q - 1\<rparr>) }"

definition queue_remove :: "'d queue ptr \<Rightarrow> 'd ptr \<Rightarrow> (bool \<times> 'd queue ptr) option" where
  "queue_remove queue data =
     (case queue of
        NULL \<Rightarrow> Some (False, NULL)
      | Ptr q \<Rightarrow> do {
          (prev, entry) \<leftarrow> seek q (\<lambda>d. d = data) NULL (q_head q);
          if entry = NULL then Some (False, Ptr q)
          else do { (_, q) \<leftarrow> unlink_entry q prev entry; Some (True, Ptr q) } })"

definition queue_remove_if ::
    "'d queue ptr \<Rightarrow> ('d ptr \<Rightarrow> 'd ptr \<Rightarrow> bool) ptr \<Rightarrow> 'd ptr \<Rightarrow> ('d ptr \<times> 'd queue ptr) option" where
  "queue_remove_if queue function user_data =
     (case queue of
        NULL \<Rightarrow> Some (NULL, NULL)
      | Ptr q \<Rightarrow> do {
          (prev, entry) \<leftarrow> seek q (match function user_data) NULL (q_head q);
          if entry = NULL then Some (NULL, Ptr q)
          else do { (data, q) \<leftarrow> unlink_entry q prev entry; Some (data, Ptr q) } })"

text \<open>
  The two loops of \<open>queue_remove_all\<close>; \<open>destroy\<close> acts on the state \<open>'u\<close> of the caller, not on the
  queue, as the destroy functions of the callers do.
\<close>

partial_function (option) remove_matching ::
    "('d ptr \<Rightarrow> 'd ptr \<Rightarrow> bool) ptr \<Rightarrow> 'd ptr \<Rightarrow> ('d ptr \<Rightarrow> 'u \<Rightarrow> 'u) ptr \<Rightarrow> 'd queue \<Rightarrow> u32 \<Rightarrow> 'u \<Rightarrow>
       (u32 \<times> 'd queue \<times> 'u) option" where
  "remove_matching function user_data destroy q count u = do {
     r \<leftarrow> queue_remove_if (Ptr q) function user_data;
     q' \<leftarrow> deref (snd r);
     if q_entries q' = q_entries q then Some (count, q', u)
     else remove_matching function user_data destroy q' (count + 1)
            (case destroy of NULL \<Rightarrow> u | Ptr d \<Rightarrow> d (fst r) u) }"

partial_function (option) free_all ::
    "('d ptr \<Rightarrow> 'u \<Rightarrow> 'u) ptr \<Rightarrow> nat ptr \<Rightarrow> 'd queue \<Rightarrow> u32 \<Rightarrow> 'u \<Rightarrow> (u32 \<times> 'd queue \<times> 'u) option" where
  "free_all destroy entry q count u =
     (if entry = NULL then Some (count, q, u)
      else do {
        e \<leftarrow> qload q entry;
        q \<leftarrow> qfree q entry;
        free_all destroy (qe_next e) q (count + 1)
          (case destroy of NULL \<Rightarrow> u | Ptr d \<Rightarrow> d (qe_data e) u) })"

definition queue_remove_all ::
    "'d queue ptr \<Rightarrow> ('d ptr \<Rightarrow> 'd ptr \<Rightarrow> bool) ptr \<Rightarrow> 'd ptr \<Rightarrow> ('d ptr \<Rightarrow> 'u \<Rightarrow> 'u) ptr \<Rightarrow> 'u \<Rightarrow>
       (u32 \<times> 'd queue ptr \<times> 'u) option" where
  "queue_remove_all queue function user_data destroy u =
     (case queue of
        NULL \<Rightarrow> Some (0, NULL, u)
      | Ptr q \<Rightarrow> do {
          let entry = q_head q;
          (count, q, u) \<leftarrow>
            (if function \<noteq> NULL then
               (if entry = NULL then Some (0, q, u)
                else remove_matching function user_data destroy q 0 u)
             else free_all destroy entry (q\<lparr>q_head := NULL, q_tail := NULL, q_entries := 0\<rparr>) 0 u);
          Some (count, Ptr q, u) })"

definition queue_destroy ::
    "'d queue ptr \<Rightarrow> ('d ptr \<Rightarrow> 'u \<Rightarrow> 'u) ptr \<Rightarrow> 'u \<Rightarrow> ('d queue ptr \<times> 'u) option" where
  "queue_destroy queue destroy u =
     (case queue of
        NULL \<Rightarrow> Some (NULL, u)
      | Ptr _ \<Rightarrow> do {
          (_, queue, u) \<leftarrow> queue_remove_all queue NULL NULL destroy u;
          q \<leftarrow> deref queue;
          Some (queue_unref q, u) })"

definition queue_get_entries :: "'d queue ptr \<Rightarrow> nat ptr" where
  "queue_get_entries queue = (case queue of NULL \<Rightarrow> NULL | Ptr q \<Rightarrow> q_head q)"

definition queue_length :: "'d queue ptr \<Rightarrow> u32" where
  "queue_length queue = (case queue of NULL \<Rightarrow> 0 | Ptr q \<Rightarrow> q_entries q)"

definition queue_isempty :: "'d queue ptr \<Rightarrow> bool" where
  "queue_isempty queue = (case queue of NULL \<Rightarrow> True | Ptr q \<Rightarrow> q_entries q = 0)"

end
