(* ===== verification/QueueRep.thy ===== *)
theory QueueRep
  imports Queue
begin

text \<open>
  The abstraction of the pointer queue to a list, and the operations as list operations.  A queue
  is described by the list \<open>xs\<close> of its entries' addresses and data; \<open>cells_of xs p\<close> is the heap
  holding exactly those entries, linked in order and ending in the pointer \<open>p\<close>.
\<close>

section \<open>Segments\<close>

fun hd_ptr :: "(nat \<times> 'd ptr) list \<Rightarrow> nat ptr \<Rightarrow> nat ptr" where
  "hd_ptr [] p = p"
| "hd_ptr ((a, _) # _) p = Ptr a"

fun last_ptr :: "(nat \<times> 'd ptr) list \<Rightarrow> nat ptr" where
  "last_ptr [] = NULL"
| "last_ptr [(a, _)] = Ptr a"
| "last_ptr (_ # x # xs) = last_ptr (x # xs)"

fun cells_of :: "(nat \<times> 'd ptr) list \<Rightarrow> nat ptr \<Rightarrow> nat \<rightharpoonup> 'd queue_entry" where
  "cells_of [] p = Map.empty"
| "cells_of ((a, d) # xs) p = (cells_of xs p)(a \<mapsto> \<lparr>qe_data = d, qe_next = hd_ptr xs p\<rparr>)"

lemma hd_ptr_append [simp]: "hd_ptr (xs @ ys) p = hd_ptr xs (hd_ptr ys p)"
  by (cases xs) auto

lemma last_ptr_snoc [simp]: "last_ptr (xs @ [(a, d)]) = Ptr a"
proof (induction xs)
  case (Cons x xs)
  then show ?case by (cases x; cases xs) auto
qed simp

lemma last_ptr_append [simp]: "ys \<noteq> [] \<Longrightarrow> last_ptr (xs @ ys) = last_ptr ys"
proof (induction xs)
  case (Cons x xs)
  then show ?case by (cases x; cases "xs @ ys") auto
qed simp

lemma hd_ptr_NULL [simp]: "hd_ptr xs NULL = NULL \<longleftrightarrow> xs = []"
  by (cases xs) auto

lemma hd_ptr_Ptr [simp]: "hd_ptr xs (Ptr a) \<noteq> NULL"
  by (cases xs) auto

lemma last_ptr_NULL [simp]: "last_ptr xs = NULL \<longleftrightarrow> xs = []"
  by (induction xs rule: last_ptr.induct) auto

lemma dom_cells_of [simp]: "dom (cells_of xs p) = fst ` set xs"
proof (induction xs p rule: cells_of.induct)
  case (2 a d xs p)
  then show ?case unfolding cells_of.simps dom_fun_upd by simp
qed simp

lemma cells_of_None: "a \<notin> fst ` set xs \<Longrightarrow> cells_of xs p a = None"
  using dom_cells_of [of xs p] by (auto simp del: dom_cells_of)

lemma cells_of_append:
  "distinct (map fst (xs @ ys)) \<Longrightarrow> cells_of (xs @ ys) p = cells_of ys p ++ cells_of xs (hd_ptr ys p)"
  by (induction xs) (auto simp: fun_eq_iff)

lemma cells_of_at:
  "distinct (map fst (xs @ (a, d) # ys)) \<Longrightarrow>
     cells_of (xs @ (a, d) # ys) p a = Some \<lparr>qe_data = d, qe_next = hd_ptr ys p\<rparr>"
  by (simp add: cells_of_append map_add_dom_app_simps cells_of_None)

lemma cells_of_snoc:
  "a \<notin> fst ` set xs \<Longrightarrow>
     cells_of (xs @ [(a, d)]) r = (cells_of xs (Ptr a))(a \<mapsto> \<lparr>qe_data = d, qe_next = r\<rparr>)"
  by (induction xs) (auto simp: fun_upd_twist)

section \<open>Representation\<close>

definition queue_rep_at :: "'d queue \<Rightarrow> (nat \<times> 'd ptr) list \<Rightarrow> bool" where
  "queue_rep_at q xs \<longleftrightarrow>
     distinct (map fst xs) \<and> (\<forall>a\<in>fst ` set xs. a < q_brk q) \<and> 1 \<le> q_ref q \<and>
     q_cells q = cells_of xs NULL \<and> q_head q = hd_ptr xs NULL \<and> q_tail q = last_ptr xs \<and>
     q_entries q = of_nat (length xs)"

definition queue_rep :: "'d queue ptr \<Rightarrow> 'd ptr list \<Rightarrow> bool" where
  "queue_rep queue ds \<longleftrightarrow> (\<exists>q xs. queue = Ptr q \<and> queue_rep_at q xs \<and> q_ref q = 1 \<and> ds = map snd xs)"

lemma dropWhile_ConsD: "dropWhile P ys = y # zs \<Longrightarrow> \<not> P y \<and> y \<in> set ys"
  by (metis dropWhile_eq_Cons_conv list.set_intros(1) set_dropWhileD)

lemma rep_entry:
  "queue_rep_at q (xs @ (a, d) # ys) \<Longrightarrow> qload q (Ptr a) = Some \<lparr>qe_data = d, qe_next = hd_ptr ys NULL\<rparr>"
  unfolding queue_rep_at_def qload_def using cells_of_at [of xs a d ys NULL] by simp

lemma rep_head_NULL: "queue_rep_at q xs \<Longrightarrow> q_head q = NULL \<longleftrightarrow> xs = []"
  by (simp add: queue_rep_at_def)

lemma rep_new: "queue_rep queue_new []"
  by (auto simp: queue_rep_def queue_rep_at_def queue_new_def queue_ref_def)

lemma push_tail_at:
  assumes "queue_rep_at q xs"
  shows "\<exists>q'. queue_push_tail (Ptr q) d = Some (True, Ptr q') \<and> queue_rep_at q' (xs @ [(q_brk q, d)]) \<and>
    q_ref q' = q_ref q"
proof (cases xs rule: rev_cases)
  case Nil
  then show ?thesis using assms
    by (auto simp: queue_rep_at_def queue_push_tail_def queue_entry_new_def Let_def)
next
  case (snoc ys y)
  obtain a e where y: "y = (a, e)" by (cases y)
  let ?b = "q_brk q"
  have b: "?b \<notin> fst ` set xs" using assms by (auto simp: queue_rep_at_def)
  have D: "distinct (map fst (ys @ [(a, e)]))" "distinct (map fst (ys @ [(a, e)] @ [(?b, d)]))"
    using assms b by (auto simp: queue_rep_at_def snoc y)
  have ab: "a \<noteq> ?b" using b by (auto simp: snoc y)
  have "(cells_of (ys @ [(a, e)]) NULL)(?b \<mapsto> \<lparr>qe_data = d, qe_next = NULL\<rparr>,
      a \<mapsto> \<lparr>qe_data = e, qe_next = Ptr ?b\<rparr>) =
      cells_of ((ys @ [(a, e)]) @ [(?b, d)]) NULL"
    using D ab b unfolding snoc y
    by (subst (2) cells_of_snoc) (auto simp: cells_of_snoc fun_upd_twist)
  moreover have "cells_of (ys @ [(a, e)]) NULL a = Some \<lparr>qe_data = e, qe_next = NULL\<rparr>"
    using cells_of_at [of ys a e "[]" NULL] D(1) by simp
  ultimately show ?thesis using assms ab D
    by (auto simp: queue_rep_at_def queue_push_tail_def queue_entry_new_def qstore_next_def Let_def snoc y)
qed

lemma push_head_at:
  assumes "queue_rep_at q xs"
  shows "\<exists>q'. queue_push_head (Ptr q) d = Some (True, Ptr q') \<and> queue_rep_at q' ((q_brk q, d) # xs) \<and>
    q_ref q' = q_ref q"
  using assms by (cases xs)
    (auto simp: queue_rep_at_def queue_push_head_def queue_entry_new_def qstore_next_def Let_def)

text \<open>The search finds the first entry that satisfies the test, and the one before it.\<close>

lemma seek_at:
  assumes "queue_rep_at q (xs @ ys)" "\<forall>x\<in>set xs. \<not> f (snd x)"
  shows "seek q f (last_ptr xs) (hd_ptr ys NULL) =
    (case dropWhile (\<lambda>x. \<not> f (snd x)) ys of
       [] \<Rightarrow> Some (NULL, NULL)
     | (a, _) # _ \<Rightarrow> Some (last_ptr (xs @ takeWhile (\<lambda>x. \<not> f (snd x)) ys), Ptr a))"
  using assms
proof (induction ys arbitrary: xs)
  case Nil
  then show ?case by (subst seek.simps) simp
next
  case (Cons y ys)
  obtain a d where y: "y = (a, d)" by (cases y)
  have l: "qload q (Ptr a) = Some \<lparr>qe_data = d, qe_next = hd_ptr ys NULL\<rparr>"
    using Cons.prems(1) unfolding y by (rule rep_entry)
  show ?case
  proof (cases "f d")
    case True
    with l show ?thesis by (subst seek.simps) (simp add: y)
  next
    case False
    have "seek q f (last_ptr (xs @ [y])) (hd_ptr ys NULL) =
      (case dropWhile (\<lambda>x. \<not> f (snd x)) ys of
         [] \<Rightarrow> Some (NULL, NULL)
       | (a, _) # _ \<Rightarrow> Some (last_ptr ((xs @ [y]) @ takeWhile (\<lambda>x. \<not> f (snd x)) ys), Ptr a))"
      using Cons.prems False by (intro Cons.IH) (auto simp: y)
    with False l show ?thesis by (subst seek.simps) (auto simp: y split: list.split dest: dropWhile_ConsD)
  qed
qed

lemma seek_head:
  assumes "queue_rep_at q xs"
  shows "(\<forall>x\<in>set xs. \<not> f (snd x)) \<and> seek q f NULL (q_head q) = Some (NULL, NULL) \<or>
    (\<exists>ys a d zs. xs = ys @ (a, d) # zs \<and> (\<forall>x\<in>set ys. \<not> f (snd x)) \<and> f d \<and>
       seek q f NULL (q_head q) = Some (last_ptr ys, Ptr a))"
proof -
  let ?P = "\<lambda>x :: nat \<times> 'a ptr. \<not> f (snd x)"
  have h: "q_head q = hd_ptr xs NULL" using assms by (simp add: queue_rep_at_def)
  have s: "seek q f NULL (q_head q) = (case dropWhile ?P xs of
       [] \<Rightarrow> Some (NULL, NULL)
     | (a, _) # _ \<Rightarrow> Some (last_ptr (takeWhile ?P xs), Ptr a))"
    unfolding h using seek_at [of q "[]" xs f] assms by (auto split: list.splits dest: dropWhile_ConsD)
  show ?thesis
  proof (cases "dropWhile ?P xs")
    case Nil
    then have "\<forall>x\<in>set xs. \<not> f (snd x)" by (simp add: dropWhile_eq_Nil_conv)
    moreover have "seek q f NULL (q_head q) = Some (NULL, NULL)" using s unfolding Nil by simp
    ultimately show ?thesis by blast
  next
    case (Cons z zs)
    obtain a d where z: "z = (a, d)" by (cases z)
    have "xs = takeWhile ?P xs @ (a, d) # zs" using Cons z by (metis takeWhile_dropWhile_id)
    moreover have "f d" using Cons z by (metis dropWhile_eq_Cons_conv snd_conv)
    moreover have "\<forall>x\<in>set (takeWhile ?P xs). \<not> f (snd x)" by (metis set_takeWhileD)
    ultimately show ?thesis using s Cons z by auto
  qed
qed

lemma unlink_at:
  assumes "queue_rep_at q (ys @ (a, d) # zs)"
  shows "\<exists>q'. unlink_entry q (last_ptr ys) (Ptr a) = Some (d, q') \<and> queue_rep_at q' (ys @ zs) \<and>
    q_ref q' = q_ref q"
proof (cases ys rule: rev_cases)
  case Nil
  have "cells_of zs NULL = (cells_of ((a, d) # zs) NULL)(a := None)"
    using assms by (auto simp: queue_rep_at_def Nil fun_eq_iff cells_of_None)
  then show ?thesis using assms
    by (cases zs) (auto simp: queue_rep_at_def Nil unlink_entry_def qload_def qfree_def Let_def)
next
  case (snoc xs x)
  obtain b e where x: "x = (b, e)" by (cases x)
  have D: "distinct (map fst ((xs @ [(b, e)]) @ (a, d) # zs))"
    using assms by (simp add: queue_rep_at_def snoc x)
  then have D2: "distinct (map fst ((xs @ [(b, e)]) @ zs))" "distinct (map fst (xs @ [(b, e)]))" "a \<noteq> b"
    by auto
  let ?c = "cells_of ((xs @ [(b, e)]) @ (a, d) # zs) NULL"
  have a: "?c a = Some \<lparr>qe_data = d, qe_next = hd_ptr zs NULL\<rparr>" using cells_of_at [OF D] .
  have b: "?c b = Some \<lparr>qe_data = e, qe_next = Ptr a\<rparr>"
    using cells_of_at [of xs b e "(a, d) # zs" NULL] D by simp
  have anot: "a \<notin> fst ` set (xs @ [(b, e)])" "a \<notin> fst ` set zs" using D by auto
  have "?c(b \<mapsto> \<lparr>qe_data = e, qe_next = hd_ptr zs NULL\<rparr>, a := None) = cells_of ((xs @ [(b, e)]) @ zs) NULL"
    unfolding cells_of_append [OF D] cells_of_append [OF D2(1)]
    using anot D2 by (auto simp: cells_of_snoc fun_eq_iff map_add_def cells_of_None split: option.splits)
  then show ?thesis using assms a b D D2(1,3)
    by (cases zs) (auto simp: queue_rep_at_def snoc x unlink_entry_def qload_def qfree_def qstore_next_def
        Let_def)
qed


section \<open>The operations on lists\<close>

lemma rep_push_tail:
  "queue_rep Q ds \<Longrightarrow> \<exists>Q'. queue_push_tail Q d = Some (True, Q') \<and> queue_rep Q' (ds @ [d])"
  unfolding queue_rep_def using push_tail_at by fastforce

lemma rep_push_head:
  "queue_rep Q ds \<Longrightarrow> \<exists>Q'. queue_push_head Q d = Some (True, Q') \<and> queue_rep Q' (d # ds)"
  unfolding queue_rep_def using push_head_at by fastforce

lemma rep_pop_head:
  assumes "queue_rep Q ds"
  shows "\<exists>Q'. queue_pop_head Q = Some (case ds of [] \<Rightarrow> NULL | d # _ \<Rightarrow> d, Q') \<and> queue_rep Q' (tl ds)"
proof -
  obtain q xs where q: "Q = Ptr q" "queue_rep_at q xs" "q_ref q = 1" "ds = map snd xs"
    using assms by (auto simp: queue_rep_def)
  show ?thesis
  proof (cases xs)
    case Nil
    then show ?thesis using q by (auto simp: queue_pop_head_def queue_rep_def queue_rep_at_def)
  next
    case (Cons x zs)
    obtain a d where x: "x = (a, d)" by (cases x)
    obtain q' where q': "unlink_entry q (last_ptr []) (Ptr a) = Some (d, q')" "queue_rep_at q' ([] @ zs)"
      "q_ref q' = q_ref q"
      using unlink_at [of q "[]" a d zs] q(2) by (auto simp: Cons x)
    have "queue_pop_head Q = Some (d, Ptr q')"
      using q' q(2) unfolding q(1) queue_pop_head_def unlink_entry_def
      by (auto simp: queue_rep_at_def Cons x option_bind_Some_iff Let_def split: if_splits)
    then show ?thesis using q' q by (auto simp: queue_rep_def Cons x)
  qed
qed

lemma find_at: "\<forall>d\<in>set ys. \<not> P d \<Longrightarrow> P d \<Longrightarrow> find P (ys @ d # zs) = Some d"
  by (induction ys) auto

lemma rep_find:
  assumes "queue_rep Q ds"
  shows "queue_find Q function a = Some (case find (match function a) ds of None \<Rightarrow> NULL | Some d \<Rightarrow> d)"
proof -
  obtain q xs where q: "Q = Ptr q" "queue_rep_at q xs" "ds = map snd xs"
    using assms by (auto simp: queue_rep_def)
  from seek_head [OF q(2), of "match function a"] show ?thesis
  proof (elim disjE exE conjE)
    fix ys b d zs
    assume *: "xs = ys @ (b, d) # zs" "\<forall>x\<in>set ys. \<not> match function a (snd x)" "match function a d"
      "seek q (match function a) NULL (q_head q) = Some (last_ptr ys, Ptr b)"
    have "find (match function a) ds = Some d" using * q(3)
      find_at [of "map snd ys" "match function a" d "map snd zs"] by simp
    with * q show ?thesis by (simp add: queue_find_def rep_entry)
  next
    assume "\<forall>x\<in>set xs. \<not> match function a (snd x)"
      "seek q (match function a) NULL (q_head q) = Some (NULL, NULL)"
    with q show ?thesis
      by (simp add: queue_find_def find_None_iff [THEN iffD2])
  qed
qed

text \<open>Removing the first element that satisfies a test.\<close>

definition remove_first :: "('a \<Rightarrow> bool) \<Rightarrow> 'a list \<Rightarrow> 'a list" where
  "remove_first P ds = takeWhile (\<lambda>d. \<not> P d) ds @ tl (dropWhile (\<lambda>d. \<not> P d) ds)"

lemma remove_first_simps [simp]:
  "remove_first P [] = []"
  "remove_first P (d # ds) = (if P d then ds else d # remove_first P ds)"
  by (simp_all add: remove_first_def)

lemma remove_first_none: "\<forall>d\<in>set ds. \<not> P d \<Longrightarrow> remove_first P ds = ds"
  by (induction ds) auto

lemma remove_first_at: "\<forall>d\<in>set ys. \<not> P d \<Longrightarrow> P d \<Longrightarrow> remove_first P (ys @ d # zs) = ys @ zs"
  by (induction ys) auto

lemma remove_first_remove1: "remove_first (\<lambda>d. d = a) ds = remove1 a ds"
  by (induction ds) auto

lemma seek_unlink:
  assumes "queue_rep_at q xs"
  shows "(\<forall>d\<in>snd ` set xs. \<not> f d) \<and> seek q f NULL (q_head q) = Some (NULL, NULL) \<or>
    (\<exists>prev a d q' ys. seek q f NULL (q_head q) = Some (prev, Ptr a) \<and> d \<in> snd ` set xs \<and>
       find f (map snd xs) = Some d \<and>
       unlink_entry q prev (Ptr a) = Some (d, q') \<and> queue_rep_at q' ys \<and> q_ref q' = q_ref q \<and>
       map snd ys = remove_first f (map snd xs))"
  using seek_head [OF assms, of f]
proof (elim disjE exE conjE)
  fix ys a d zs
  assume *: "xs = ys @ (a, d) # zs" "\<forall>x\<in>set ys. \<not> f (snd x)" "f d"
    "seek q f NULL (q_head q) = Some (last_ptr ys, Ptr a)"
  obtain q' where "unlink_entry q (last_ptr ys) (Ptr a) = Some (d, q')" "queue_rep_at q' (ys @ zs)"
    "q_ref q' = q_ref q"
    using unlink_at assms * by blast
  moreover have "map snd (ys @ zs) = remove_first f (map snd xs)"
    using * remove_first_at [of "map snd ys" f d "map snd zs"] by simp
  moreover have "find f (map snd xs) = Some d" 
    using * find_at [of "map snd ys" f d "map snd zs"] by simp
  ultimately show ?thesis using * by (intro disjI2) fastforce
qed auto

lemma rep_remove:
  assumes "queue_rep Q ds"
  shows "\<exists>Q'. queue_remove Q d = Some (d \<in> set ds, Q') \<and> queue_rep Q' (remove1 d ds)"
proof -
  obtain q xs where q: "Q = Ptr q" "queue_rep_at q xs" "q_ref q = 1" "ds = map snd xs"
    using assms by (auto simp: queue_rep_def)
  from seek_unlink [OF q(2), of "\<lambda>e. e = d"] show ?thesis
  proof (elim disjE exE conjE)
    fix prev a e q' ys
    assume *: "seek q (\<lambda>e. e = d) NULL (q_head q) = Some (prev, Ptr a)" "e \<in> snd ` set xs"
      "find (\<lambda>e. e = d) (map snd xs) = Some e"
      "unlink_entry q prev (Ptr a) = Some (e, q')" "queue_rep_at q' ys" "q_ref q' = q_ref q"
      "map snd ys = remove_first (\<lambda>e. e = d) (map snd xs)"
    have "e = d" using *(3) by (auto simp: find_Some_iff)
    with * q show ?thesis
      by (auto simp: queue_remove_def queue_rep_def remove_first_remove1 intro!: exI [of _ ys])
  next
    assume "\<forall>e\<in>snd ` set xs. e \<noteq> d" "seek q (\<lambda>e. e = d) NULL (q_head q) = Some (NULL, NULL)"
    moreover from this q(4) have "d \<notin> set ds" by auto
    ultimately show ?thesis using q assms by (auto simp: queue_remove_def remove1_idem)
  qed
qed

lemma rep_remove_if:
  assumes "queue_rep Q ds"
  shows "\<exists>Q'. queue_remove_if Q function a =
      Some (case find (match function a) ds of None \<Rightarrow> NULL | Some d \<Rightarrow> d, Q') \<and>
    queue_rep Q' (remove_first (match function a) ds)"
proof -
  obtain q xs where q: "Q = Ptr q" "queue_rep_at q xs" "q_ref q = 1" "ds = map snd xs"
    using assms by (auto simp: queue_rep_def)
  from seek_unlink [OF q(2), of "match function a"] show ?thesis
  proof (elim disjE exE conjE)
    fix prev b e q' ys
    assume "seek q (match function a) NULL (q_head q) = Some (prev, Ptr b)"
      "find (match function a) (map snd xs) = Some e"
      "unlink_entry q prev (Ptr b) = Some (e, q')" "queue_rep_at q' ys" "q_ref q' = q_ref q"
      "map snd ys = remove_first (match function a) (map snd xs)"
    with q show ?thesis
      by (auto simp: queue_remove_if_def queue_rep_def intro!: exI [of _ ys])
  next
    assume *: "\<forall>e\<in>snd ` set xs. \<not> match function a e"
      "seek q (match function a) NULL (q_head q) = Some (NULL, NULL)"
    then have "find (match function a) ds = None" "remove_first (match function a) ds = ds"
      using q(4) by (auto simp: find_None_iff remove_first_none)
    with * q assms show ?thesis by (auto simp: queue_remove_if_def)
  qed
qed

lemma rep_length: "queue_rep Q ds \<Longrightarrow> queue_length Q = of_nat (length ds)"
  by (auto simp: queue_rep_def queue_rep_at_def queue_length_def)

section \<open>Iteration, bulk removal, destruction\<close>

definition destroy_all :: "('d ptr \<Rightarrow> 'u \<Rightarrow> 'u) ptr \<Rightarrow> 'd ptr list \<Rightarrow> 'u \<Rightarrow> 'u" where
  "destroy_all destroy ds u = (case destroy of NULL \<Rightarrow> u | Ptr d \<Rightarrow> fold d ds u)"

lemma destroy_all_simps [simp]:
  "destroy_all destroy [] u = u"
  "destroy_all destroy (x # xs) u = destroy_all destroy xs (case destroy of NULL \<Rightarrow> u | Ptr d \<Rightarrow> d x u)"
  by (simp_all add: destroy_all_def split: ptr.split)

lemma free_all_at:
  assumes "distinct (map fst xs)" "q_cells q = cells_of xs NULL"
  shows "free_all destroy (hd_ptr xs NULL) q c u =
    Some (c + of_nat (length xs), q\<lparr>q_cells := Map.empty\<rparr>, destroy_all destroy (map snd xs) u)"
  using assms
proof (induction xs arbitrary: q c u)
  case Nil
  then show ?case by (subst free_all.simps) simp
next
  case (Cons x xs)
  obtain a d where x: "x = (a, d)" by (cases x)
  have a: "a \<notin> fst ` set xs" "cells_of xs NULL a = None" using Cons.prems(1) by (auto simp: x cells_of_None)
  have l: "qload q (Ptr a) = Some \<lparr>qe_data = d, qe_next = hd_ptr xs NULL\<rparr>"
    using Cons.prems(2) by (simp add: qload_def x)
  have f: "qfree q (Ptr a) = Some (q\<lparr>q_cells := cells_of xs NULL\<rparr>)"
  proof -
    have "(q_cells q)(a := None) = cells_of xs NULL" using Cons.prems(2) a(2) by (auto simp: x fun_eq_iff)
    then show ?thesis using Cons.prems(2) by (simp add: qfree_def x)
  qed
  show ?case using l f Cons.prems(1)
    by (subst free_all.simps)
       (simp add: x Cons.IH [of "q\<lparr>q_cells := cells_of xs NULL\<rparr>"] add.assoc cong: ptr.case_cong)
qed

lemma rep_remove_all:
  assumes "queue_rep Q ds"
  shows "\<exists>Q'. queue_remove_all Q NULL a destroy u = Some (of_nat (length ds), Q', destroy_all destroy ds u) \<and>
    queue_rep Q' []"
proof -
  obtain q xs where q: "Q = Ptr q" "queue_rep_at q xs" "q_ref q = 1" "ds = map snd xs"
    using assms by (auto simp: queue_rep_def)
  then show ?thesis
    using free_all_at [of xs "q\<lparr>q_head := NULL, q_tail := NULL, q_entries := 0\<rparr>" destroy 0 u]
    by (auto simp: queue_remove_all_def queue_rep_def queue_rep_at_def Let_def)
qed

lemma rep_destroy:
  assumes "queue_rep Q ds"
  shows "queue_destroy Q destroy u = Some (NULL, destroy_all destroy ds u)"
proof -
  obtain Q' where Q': "queue_remove_all Q NULL NULL destroy u = Some (of_nat (length ds), Q', destroy_all destroy ds u)"
    "queue_rep Q' []" using rep_remove_all [OF assms, of NULL destroy u] by blast
  then show ?thesis using assms by (auto simp: queue_destroy_def queue_rep_def queue_unref_def Let_def)
qed

lemma find_split:
  assumes "find P ds = Some d"
  obtains ys zs where "ds = ys @ d # zs" "\<forall>e\<in>set ys. \<not> P e" "P d"
proof -
  have "\<exists>x\<in>set ds. P x" using assms by (metis find_None_iff option.simps(3))
  from split_list_first_prop [OF this] obtain ys x zs where
    "ds = ys @ x # zs" "P x" "\<forall>e\<in>set ys. \<not> P e" by blast
  moreover from this assms have "x = d" using find_at [of ys P x zs] by simp
  ultimately show ?thesis using that by blast
qed

lemma remove_matching_rep:
  assumes "queue_rep Q ds" "Q = Ptr q"
  shows "\<exists>q'. remove_matching function a destroy q c u =
      Some (c + of_nat (length (filter (match function a) ds)), q',
            destroy_all destroy (filter (match function a) ds) u) \<and>
    queue_rep (Ptr q') (filter (\<lambda>d. \<not> match function a d) ds)"
  using assms
proof (induction "length ds" arbitrary: ds Q q c u rule: less_induct)
  case less
  let ?f = "match function a"
  obtain Q1 where Q1: "queue_remove_if Q function a = Some (case find ?f ds of None \<Rightarrow> NULL | Some d \<Rightarrow> d, Q1)"
    "queue_rep Q1 (remove_first ?f ds)" using rep_remove_if [OF less.prems(1)] by blast
  obtain q1 where q1: "Q1 = Ptr q1" using Q1(2) by (auto simp: queue_rep_def)
  have n: "q_entries q = of_nat (length ds)" "q_entries q1 = of_nat (length (remove_first ?f ds))"
    using rep_length less.prems Q1(2) by (auto simp: q1 queue_length_def queue_rep_def queue_rep_at_def)
  show ?case
  proof (cases "find ?f ds")
    case None
    then have none: "\<forall>d\<in>set ds. \<not> ?f d" by (simp add: find_None_iff)
    with Q1 q1 n less.prems(2) have "remove_matching function a destroy q c u = Some (c, q1, u)"
      by (subst remove_matching.simps) (simp add: None remove_first_none)
    with none Q1(2) q1 show ?thesis
      by (simp add: remove_first_none filter_True filter_False)
  next
    case (Some d)
    obtain ys zs where yz: "ds = ys @ d # zs" "\<forall>e\<in>set ys. \<not> ?f e" "?f d"
      using find_split [OF Some] .
    have rf: "remove_first ?f ds = ys @ zs" using yz by (simp add: remove_first_at)
    have ne: "q_entries q1 \<noteq> q_entries q" using n rf yz(1) by simp
    have "length (ys @ zs) < length ds" using yz(1) by simp
    from less.hyps [OF this] Q1(2) q1 rf obtain q' where
      q': "remove_matching function a destroy q1 (c + 1) (case destroy of NULL \<Rightarrow> u | Ptr e \<Rightarrow> e d u) =
        Some (c + 1 + of_nat (length (filter ?f (ys @ zs))), q',
          destroy_all destroy (filter ?f (ys @ zs)) (case destroy of NULL \<Rightarrow> u | Ptr e \<Rightarrow> e d u))"
      "queue_rep (Ptr q') (filter (\<lambda>d. \<not> ?f d) (ys @ zs))" by fastforce
    have ys: "filter ?f ys = []" using yz(2) by (simp add: filter_False)
    have "remove_matching function a destroy q c u =
        remove_matching function a destroy q1 (c + 1) (case destroy of NULL \<Rightarrow> u | Ptr e \<Rightarrow> e d u)"
      using Q1(1) q1 ne less.prems(2) by (subst remove_matching.simps) (simp add: Some cong: ptr.case_cong)
    with q' ys yz show ?thesis by (auto simp: add.assoc)
  qed
qed

lemma foreach_loop_at:
  assumes "queue_rep_at q (xs @ ys)" "1 < q_ref q" "\<And>d u. f d (q, u) = Some (q, g d u)"
  shows "foreach_loop f (hd_ptr ys NULL) (q, u) = Some (q, fold g (map snd ys) u)"
  using assms(1)
proof (induction ys arbitrary: xs u)
  case Nil
  then show ?case by (subst foreach_loop.simps) simp
next
  case (Cons y ys)
  obtain a d where y: "y = (a, d)" by (cases y)
  have l: "qload q (Ptr a) = Some \<lparr>qe_data = d, qe_next = hd_ptr ys NULL\<rparr>"
    using Cons.prems unfolding y by (rule rep_entry)
  have h: "q_head q \<noteq> NULL" using Cons.prems by (auto simp: queue_rep_at_def y)
  show ?case using Cons.IH [of "xs @ [y]" "g d u"] Cons.prems l h assms(2,3)
    by (subst foreach_loop.simps) (simp add: y)
qed

lemma rep_foreach:
  assumes "queue_rep Q ds" "\<And>d q u. f d (q, u) = Some (q, g d u)"
  shows "queue_foreach Q (Ptr f) u = Some (Q, fold g ds u)"
proof -
  obtain q xs where q: "Q = Ptr q" "queue_rep_at q xs" "q_ref q = 1" "ds = map snd xs"
    using assms by (auto simp: queue_rep_def)
  let ?q = "q\<lparr>q_ref := q_ref q + 1\<rparr>"
  have "queue_rep_at ?q ([] @ xs)" using q by (auto simp: queue_rep_at_def)
  then have "foreach_loop f (q_head q) (?q, u) = Some (?q, fold g ds u)"
    using foreach_loop_at [of ?q "[]" xs f g u] q assms(2) by (simp add: queue_rep_at_def)
  then show ?thesis using q
    by (auto simp: queue_foreach_def queue_rep_at_def queue_unref_def Let_def)
qed


lemma cells_of_insert:
  assumes "distinct (map fst (ys @ (a, e) # zs))" "b \<notin> fst ` set (ys @ (a, e) # zs)"
  shows "(cells_of (ys @ (a, e) # zs) NULL)(b \<mapsto> \<lparr>qe_data = d, qe_next = hd_ptr zs NULL\<rparr>,
      a \<mapsto> \<lparr>qe_data = e, qe_next = Ptr b\<rparr>) = cells_of (ys @ (a, e) # (b, d) # zs) NULL"
proof -
  have D: "distinct (map fst (ys @ (a, e) # (b, d) # zs))" using assms by auto
  have "b \<notin> fst ` set ys" using assms(2) by auto
  then show ?thesis unfolding cells_of_append [OF assms(1)] cells_of_append [OF D] using assms
    by (auto simp: fun_eq_iff map_add_def cells_of_None split: option.splits)
qed

lemma first_occurrence:
  "ds @ e # es = ys @ e # zs \<Longrightarrow> e \<notin> set ds \<Longrightarrow> e \<notin> set ys \<Longrightarrow> ds = ys \<and> es = zs"
proof (induction ds arbitrary: ys)
  case Nil
  then show ?case by (cases ys) auto
next
  case (Cons x ds)
  then show ?case by (cases ys) auto
qed

lemma rep_push_after:
  assumes "queue_rep Q (ds @ e # es)" "e \<notin> set ds"
  shows "\<exists>Q'. queue_push_after Q e d = Some (True, Q') \<and> queue_rep Q' (ds @ e # d # es)"
proof -
  obtain q xs where q: "Q = Ptr q" "queue_rep_at q xs" "q_ref q = 1" "ds @ e # es = map snd xs"
    using assms by (auto simp: queue_rep_def)
  obtain ys a e' zs where s: "xs = ys @ (a, e') # zs" "\<forall>x\<in>set ys. snd x \<noteq> e" "e' = e"
    "seek q (\<lambda>d. d = e) NULL (q_head q) = Some (last_ptr ys, Ptr a)"
    using seek_head [OF q(2), of "\<lambda>d. d = e"] q(4) by (fastforce simp: image_iff dest: arg_cong [of _ _ set])
  have split: "map snd ys = ds" "map snd zs = es"
    using q(4) s(1-3) assms(2) first_occurrence [of ds e es "map snd ys" "map snd zs"] by auto
  define b where "b = q_brk q"
  have b: "b \<notin> fst ` set xs" using q(2) by (auto simp: queue_rep_at_def b_def)
  have D: "distinct (map fst (ys @ (a, e) # zs))" using q(2) by (simp add: queue_rep_at_def s(1,3))
  note C = cells_of_insert [OF D, of b d]
  have l: "q_cells q a = Some \<lparr>qe_data = e, qe_next = hd_ptr zs NULL\<rparr>"
    using cells_of_at [OF D] q(2) by (simp add: queue_rep_at_def s(1,3))
  have ab: "a \<noteq> b" using b by (auto simp: s(1))
  let ?q = "q\<lparr>q_tail := if zs = [] then Ptr b else q_tail q, q_entries := q_entries q + 1,
    q_cells := cells_of (ys @ (a, e) # (b, d) # zs) NULL, q_brk := Suc b\<rparr>"
  have "queue_push_after Q e d = Some (True, Ptr ?q)"
    using s(4) l ab C b q(2)
    by (auto simp: q(1) queue_push_after_def queue_entry_new_def qload_def qstore_next_def Let_def
        b_def [symmetric] queue_rep_at_def s(1,3) fun_upd_twist)
  moreover have "queue_rep_at ?q (ys @ (a, e) # (b, d) # zs)"
  proof -
    have "distinct (map fst (ys @ (a, e) # (b, d) # zs))" using D b by (auto simp: s(1))
    moreover have "\<forall>x\<in>fst ` set (ys @ (a, e) # (b, d) # zs). x < q_brk ?q"
    proof -
      have "\<forall>x\<in>set xs. fst x < b" using q(2) by (simp add: queue_rep_at_def b_def)
      then show ?thesis by (auto simp: s(1) less_Suc_eq)
    qed
    moreover have "q_head ?q = hd_ptr (ys @ (a, e) # (b, d) # zs) NULL"
      "q_tail ?q = last_ptr (ys @ (a, e) # (b, d) # zs)" "1 \<le> q_ref ?q"
      "q_entries ?q = of_nat (length (ys @ (a, e) # (b, d) # zs))"
      using q(2) by (cases zs; simp add: queue_rep_at_def s(1,3))+
    moreover have "q_cells ?q = cells_of (ys @ (a, e) # (b, d) # zs) NULL" "q_brk ?q = Suc b" by simp_all
    ultimately show ?thesis unfolding queue_rep_at_def by (intro conjI) assumption+
  qed
  ultimately show ?thesis using split q(3)
    by (auto simp: queue_rep_def intro!: exI [of _ "ys @ (a, e) # (b, d) # zs"])
qed

lemma rep_peek:
  assumes "queue_rep Q ds"
  shows "queue_peek_head Q = Some (case ds of [] \<Rightarrow> NULL | d # _ \<Rightarrow> d)"
    "queue_peek_tail Q = Some (if ds = [] then NULL else last ds)"
proof -
  obtain q xs where q: "Q = Ptr q" "queue_rep_at q xs" "ds = map snd xs"
    using assms by (auto simp: queue_rep_def)
  show "queue_peek_head Q = Some (case ds of [] \<Rightarrow> NULL | d # _ \<Rightarrow> d)"
  proof (cases xs)
    case (Cons x zs)
    then show ?thesis using q rep_entry [of q "[]" "fst x" "snd x" zs]
      by (cases x) (auto simp: queue_peek_head_def queue_rep_at_def)
  qed (use q in \<open>auto simp: queue_peek_head_def queue_rep_at_def\<close>)
  show "queue_peek_tail Q = Some (if ds = [] then NULL else last ds)"
  proof (cases xs rule: rev_cases)
    case (snoc zs x)
    then show ?thesis using q rep_entry [of q zs "fst x" "snd x" "[]"]
      by (cases x) (auto simp: queue_peek_tail_def queue_rep_at_def)
  qed (use q in \<open>auto simp: queue_peek_tail_def queue_rep_at_def\<close>)
qed

end
