(* ===== verification/QueueLaws.thy ===== *)
theory QueueLaws
  imports QueueRep
begin

text \<open>
  The contract of the queue as its clients see it: a locale over an abstract state and its
  operations, an extension with search and removal, their consequences, the interpretations on
  the pointer queue, and the properties of the component.
\<close>

section \<open>Clients' programs over a queue\<close>

primrec push_all :: "('s \<Rightarrow> 'd \<Rightarrow> (bool \<times> 's) option) \<Rightarrow> 'd list \<Rightarrow> 's \<Rightarrow> 's option" where
  "push_all push [] s = Some s"
| "push_all push (x # xs) s = do { (_, s) \<leftarrow> push s x; push_all push xs s }"

primrec pop_all :: "('s \<Rightarrow> ('d \<times> 's) option) \<Rightarrow> nat \<Rightarrow> 's \<Rightarrow> ('d list \<times> 's) option" where
  "pop_all pop 0 s = Some ([], s)"
| "pop_all pop (Suc n) s = do { (x, s) \<leftarrow> pop s; (xs, s) \<leftarrow> pop_all pop n s; Some (x # xs, s) }"

section \<open>The contract\<close>

locale queue_contract =
  fixes rep :: "'s \<Rightarrow> 'd list \<Rightarrow> bool"
    and new :: 's
    and push_tail push_head :: "'s \<Rightarrow> 'd \<Rightarrow> (bool \<times> 's) option"
    and pop :: "'s \<Rightarrow> ('d \<times> 's) option"
    and none :: 'd
  assumes new_rep: "rep new []"
    and push_tail_rep: "rep s ds \<Longrightarrow> \<exists>s'. push_tail s d = Some (True, s') \<and> rep s' (ds @ [d])"
    and push_head_rep: "rep s ds \<Longrightarrow> \<exists>s'. push_head s d = Some (True, s') \<and> rep s' (d # ds)"
    and pop_rep: "rep s ds \<Longrightarrow>
      \<exists>s'. pop s = Some (case ds of [] \<Rightarrow> none | d # _ \<Rightarrow> d, s') \<and> rep s' (tl ds)"
begin

lemma push_all_rep: "rep s ds \<Longrightarrow> \<exists>s'. push_all push_tail xs s = Some s' \<and> rep s' (ds @ xs)"
proof (induction xs arbitrary: s ds)
  case (Cons x xs)
  obtain s1 where s1: "push_tail s x = Some (True, s1)" "rep s1 (ds @ [x])"
    using push_tail_rep [OF Cons.prems] by blast
  from Cons.IH [OF s1(2)] s1(1) show ?case by auto
qed simp

lemma pop_all_rep:
  "rep s (xs @ ys) \<Longrightarrow> \<exists>s'. pop_all pop (length xs) s = Some (xs, s') \<and> rep s' ys"
proof (induction xs arbitrary: s)
  case (Cons x xs)
  obtain s1 where s1: "pop s = Some (x, s1)" "rep s1 (xs @ ys)"
    using pop_rep [OF Cons.prems] by auto
  from Cons.IH [OF s1(2)] s1(1) show ?case by auto
qed simp

lemma fifo: "\<exists>s s'. push_all push_tail xs new = Some s \<and> pop_all pop (length xs) s = Some (xs, s') \<and> rep s' []"
proof -
  obtain s where s: "push_all push_tail xs new = Some s" "rep s (xs @ [])"
    using push_all_rep [OF new_rep, of xs] by auto
  from pop_all_rep [OF s(2)] s(1) show ?thesis by blast
qed

lemma lifo:
  assumes "rep s ds"
  shows "\<exists>s1 s2. push_head s d = Some (True, s1) \<and> pop s1 = Some (d, s2) \<and> rep s2 ds"
proof -
  obtain s1 where s1: "push_head s d = Some (True, s1)" "rep s1 (d # ds)"
    using push_head_rep [OF assms] by blast
  from pop_rep [OF s1(2)] s1(1) show ?thesis by auto
qed

end

text \<open>The part of the contract the attribute client relies on: membership and removal.\<close>

locale removal_contract = queue_contract +
  fixes remove :: "'s \<Rightarrow> 'd \<Rightarrow> (bool \<times> 's) option"
  assumes remove_rep: "rep s ds \<Longrightarrow> \<exists>s'. remove s d = Some (d \<in> set ds, s') \<and> rep s' (remove1 d ds)"
begin

lemma push_remove:
  assumes "rep s ds"
  shows "\<exists>s1 s2. push_head s d = Some (True, s1) \<and> remove s1 d = Some (True, s2) \<and> rep s2 ds"
proof -
  obtain s1 where s1: "push_head s d = Some (True, s1)" "rep s1 (d # ds)"
    using push_head_rep [OF assms] by blast
  from remove_rep [OF s1(2), of d] s1(1) show ?thesis by auto
qed

lemma remove_twice:
  assumes "rep s ds" "distinct ds"
  shows "\<exists>s1 s2. remove s d = Some (d \<in> set ds, s1) \<and> remove s1 d = Some (False, s2) \<and> rep s2 (remove1 d ds)"
proof -
  obtain s1 where s1: "remove s d = Some (d \<in> set ds, s1)" "rep s1 (remove1 d ds)"
    using remove_rep [OF assms(1)] by blast
  obtain s2 where "remove s1 d = Some (d \<in> set (remove1 d ds), s2)" "rep s2 (remove1 d (remove1 d ds))"
    using remove_rep [OF s1(2)] by blast
  with s1(1) assms(2) show ?thesis by (auto simp: remove1_idem)
qed

end

section \<open>The pointer queue meets the contract\<close>

interpretation ptr_queue: queue_contract queue_rep queue_new queue_push_tail queue_push_head queue_pop_head NULL
  by unfold_locales (auto intro: rep_new rep_push_tail rep_push_head rep_pop_head)

interpretation ptr_removal: removal_contract queue_rep queue_new queue_push_tail queue_push_head
    queue_pop_head NULL queue_remove
  by unfold_locales (rule rep_remove)

section \<open>Every operation on its list\<close>

text \<open>
  Iteration with a function that may fail: a relation between the entries still to come and the state,
  which one call keeps, holds at the end.
\<close>

lemma foreach_loop_inv:
  assumes "queue_rep_at q (xs @ ys)" "1 < q_ref q"
    "\<And>d es u. R (d # es) u \<Longrightarrow> \<exists>u'. f d (q, u) = Some (q, u') \<and> R es u'" "R (map snd ys) u"
  shows "\<exists>u'. foreach_loop f (hd_ptr ys NULL) (q, u) = Some (q, u') \<and> R [] u'"
  using assms(1,4)
proof (induction ys arbitrary: xs u)
  case Nil
  then show ?case by (subst foreach_loop.simps) simp
next
  case (Cons y ys)
  obtain a d where y: "y = (a, d)" by (cases y)
  have l: "qload q (Ptr a) = Some \<lparr>qe_data = d, qe_next = hd_ptr ys NULL\<rparr>" using Cons.prems(1) unfolding y by (rule rep_entry)
  have h: "q_head q \<noteq> NULL" using Cons.prems(1) by (auto simp: queue_rep_at_def y)
  obtain u1 where u1: "f d (q, u) = Some (q, u1)" "R (map snd ys) u1" using assms(3) Cons.prems(2) y by force
  from Cons.IH [of "xs @ [y]", OF _ u1(2)] Cons.prems(1) obtain u' where
    "foreach_loop f (hd_ptr ys NULL) (q, u1) = Some (q, u')" "R [] u'" by auto
  with l h u1(1) assms(2) show ?case by (subst foreach_loop.simps) (simp add: y)
qed

lemma rep_foreach_inv:
  assumes "queue_rep Q ds" "\<And>q d es u. R (d # es) u \<Longrightarrow> \<exists>u'. f d (q, u) = Some (q, u') \<and> R es u'" "R ds u"
  shows "\<exists>u'. queue_foreach Q (Ptr f) u = Some (Q, u') \<and> R [] u'"
proof -
  obtain q xs where q: "Q = Ptr q" "queue_rep_at q xs" "q_ref q = 1" "ds = map snd xs"
    using assms(1) by (auto simp: queue_rep_def)
  let ?q = "q\<lparr>q_ref := q_ref q + 1\<rparr>"
  have "queue_rep_at ?q ([] @ xs)" using q(2) by (simp add: queue_rep_at_def)
  then obtain u' where "foreach_loop f (hd_ptr xs NULL) (?q, u) = Some (?q, u')" "R [] u'"
    using foreach_loop_inv [of ?q "[]" xs R f u] assms(2,3) q(3,4) by auto
  with q assms(3) show ?thesis
    by (auto simp: queue_foreach_def queue_unref_def queue_rep_at_def Let_def)
qed

primrec insert_after :: "'d \<Rightarrow> 'd \<Rightarrow> 'd list \<Rightarrow> 'd list" where
  "insert_after e d [] = []"
| "insert_after e d (x # xs) = (if x = e then x # d # xs else x # insert_after e d xs)"

lemma insert_after_at: "e \<notin> set ds \<Longrightarrow> insert_after e d (ds @ e # es) = ds @ e # d # es"
  by (induction ds) auto

lemma insert_after_absent: "e \<notin> set ds \<Longrightarrow> insert_after e d ds = ds"
  by (induction ds) auto

lemma rep_insert_after:
  assumes "queue_rep Q ds"
  shows "\<exists>Q'. queue_push_after Q e d = Some (e \<in> set ds, Q') \<and> queue_rep Q' (insert_after e d ds)"
proof (cases "e \<in> set ds")
  case True
  then obtain xs ys where "ds = xs @ e # ys" "e \<notin> set xs" by (metis split_list_first)
  with rep_push_after [of Q xs e ys d] assms show ?thesis by (simp add: insert_after_at)
next
  case False
  obtain q xs where q: "Q = Ptr q" "queue_rep_at q xs" "ds = map snd xs"
    using assms by (auto simp: queue_rep_def)
  with seek_head [OF q(2), of "\<lambda>d. d = e"] False have "seek q (\<lambda>d. d = e) NULL (q_head q) = Some (NULL, NULL)"
    by force
  with False assms q(1) show ?thesis by (simp add: queue_push_after_def insert_after_absent)
qed

lemma rep_remove_matching:
  assumes "queue_rep Q ds"
  shows "\<exists>Q'. queue_remove_all Q (Ptr f) a destroy u = Some (of_nat (length (filter (match (Ptr f) a) ds)), Q',
      destroy_all destroy (filter (match (Ptr f) a) ds) u) \<and> queue_rep Q' (filter (\<lambda>d. \<not> match (Ptr f) a d) ds)"
proof -
  obtain q where q: "Q = Ptr q" "q_head q = NULL \<longleftrightarrow> ds = []" using assms by (auto simp: queue_rep_def rep_head_NULL)
  obtain q' where "remove_matching (Ptr f) a destroy q 0 u = Some (of_nat (length (filter (match (Ptr f) a) ds)), q',
      destroy_all destroy (filter (match (Ptr f) a) ds) u)" "queue_rep (Ptr q') (filter (\<lambda>d. \<not> match (Ptr f) a d) ds)"
    using remove_matching_rep [OF assms q(1), of "Ptr f" a destroy 0 u] by auto
  with assms q show ?thesis by (cases "ds = []") (simp_all add: queue_remove_all_def Let_def)
qed

lemma rep_get_entries:
  "queue_rep Q ds \<Longrightarrow> \<exists>q xs. Q = Ptr q \<and> queue_rep_at q xs \<and> map snd xs = ds \<and> queue_get_entries Q = hd_ptr xs NULL"
  by (auto simp: queue_rep_def queue_rep_at_def queue_get_entries_def)

lemma rep_isempty: "queue_rep Q ds \<Longrightarrow> queue_isempty Q \<longleftrightarrow> (of_nat (length ds) :: u32) = 0"
  by (auto simp: queue_rep_def queue_rep_at_def queue_isempty_def)

section \<open>Properties\<close>

text \<open>
  A queue is first in, first out: from a new queue, pushing any items at the tail and popping
  as many gives the items in the order they were pushed and leaves an empty queue with no entry
  allocated; no step touches memory that is not allocated.
\<close>

theorem queue_fifo:
  "\<exists>Q Q'. push_all queue_push_tail xs queue_new = Some Q \<and>
     pop_all queue_pop_head (length xs) Q = Some (xs, Q') \<and> queue_rep Q' []"
  by (rule ptr_queue.fifo)

text \<open>
  C35: Every operation of the pointer queue refines its list operation: on a queue that represents
  a list it is defined, returns what the list operation returns, keeps the head, tail, counter and
  links consistent, and allocates and frees exactly the entries the list gains and loses.  The
  operations are the three insertions, removal from the head, by value, by test and of all entries or
  all that match, the two peeks, search, iteration with a function that leaves the queue alone, the
  length and the test for emptiness (both modulo \<open>2 ^ 32\<close>, the width of the counter), the first entry,
  and destruction; a new queue represents the empty list.
\<close>

theorem queue_refines_list:
  assumes "queue_rep Q ds"
  shows "queue_rep (queue_new :: 'd queue ptr) [] \<and>
    (\<exists>Q'. queue_push_tail Q d = Some (True, Q') \<and> queue_rep Q' (ds @ [d])) \<and>
    (\<exists>Q'. queue_push_head Q d = Some (True, Q') \<and> queue_rep Q' (d # ds)) \<and>
    (\<exists>Q'. queue_push_after Q e d = Some (e \<in> set ds, Q') \<and> queue_rep Q' (insert_after e d ds)) \<and>
    (\<exists>Q'. queue_pop_head Q = Some (case ds of [] \<Rightarrow> NULL | d # _ \<Rightarrow> d, Q') \<and> queue_rep Q' (tl ds)) \<and>
    queue_peek_head Q = Some (case ds of [] \<Rightarrow> NULL | d # _ \<Rightarrow> d) \<and>
    queue_peek_tail Q = Some (if ds = [] then NULL else last ds) \<and>
    queue_find Q test a = Some (case find (match test a) ds of None \<Rightarrow> NULL | Some d \<Rightarrow> d) \<and>
    (\<exists>Q'. queue_remove Q d = Some (d \<in> set ds, Q') \<and> queue_rep Q' (remove1 d ds)) \<and>
    (\<exists>Q'. queue_remove_if Q test a =
        Some (case find (match test a) ds of None \<Rightarrow> NULL | Some d \<Rightarrow> d, Q') \<and>
      queue_rep Q' (remove_first (match test a) ds)) \<and>
    (\<exists>Q'. queue_remove_all Q NULL a destroy u = Some (of_nat (length ds), Q', destroy_all destroy ds u) \<and>
      queue_rep Q' []) \<and>
    (\<exists>Q'. queue_remove_all Q (Ptr f) a destroy u =
        Some (of_nat (length (filter (\<lambda>d. f d a) ds)), Q', destroy_all destroy (filter (\<lambda>d. f d a) ds) u) \<and>
      queue_rep Q' (filter (\<lambda>d. \<not> f d a) ds)) \<and>
    ((\<forall>d q v. visit d (q, v) = Some (q, g d v)) \<longrightarrow> queue_foreach Q (Ptr visit) v = Some (Q, fold g ds v)) \<and>
    queue_length Q = of_nat (length ds) \<and> (queue_isempty Q \<longleftrightarrow> (of_nat (length ds) :: u32) = 0) \<and>
    (\<exists>q xs. Q = Ptr q \<and> queue_rep_at q xs \<and> map snd xs = ds \<and> queue_get_entries Q = hd_ptr xs NULL) \<and>
    queue_destroy Q destroy u = Some (NULL, destroy_all destroy ds u)"
  using rep_remove_matching [OF assms, of f a destroy u]
  by (intro conjI rep_new rep_push_tail rep_push_head rep_insert_after rep_pop_head rep_peek rep_find rep_remove
      rep_remove_if rep_remove_all rep_length rep_isempty rep_get_entries rep_destroy impI rep_foreach assms)
    (simp_all add: match_def)

theorem queue_refines_list_witness:
  "\<exists>Q. push_all queue_push_tail [Ptr 7, Ptr 8, Ptr 7] queue_new = Some Q \<and>
     (\<exists>Q'. queue_push_after Q (Ptr 7) (Ptr 9) = Some (True, Q') \<and> queue_rep Q' [Ptr 7, Ptr 9, Ptr 8, Ptr 7]) \<and>
     (\<exists>Q'. queue_remove_all Q (Ptr (=)) (Ptr 7) (Ptr (#)) [] = Some (2, Q', [Ptr 7, Ptr 7]) \<and> queue_rep Q' [Ptr (8 :: nat)]) \<and>
     queue_foreach Q (Ptr (\<lambda>d (q, n). Some (q, Suc n))) 0 = Some (Q, 3)"
proof -
  obtain Q where Q: "push_all queue_push_tail [Ptr 7, Ptr 8, Ptr (7 :: nat)] queue_new = Some Q"
    "queue_rep Q ([] @ [Ptr 7, Ptr 8, Ptr 7])" using ptr_queue.push_all_rep [OF rep_new] by blast
  show ?thesis
    using Q(1) queue_refines_list [OF Q(2), where d = "Ptr 9" and test = NULL and e = "Ptr 7" and a = "Ptr 7" and f = "(=)" and
        destroy = "Ptr (#)" and u = "[]" and visit = "\<lambda>d (q, n). Some (q, Suc n)" and g = "\<lambda>d. Suc" and v = 0]
    by (intro exI [of _ Q], simp add: numeral_3_eq_3) (elim conjE, intro conjI; assumption)
qed

lemma foreach_destroy_loop:
  assumes "queue_rep_at q (xs @ ys)" "q_ref q = 2" "stop \<in> snd ` set ys"
    "\<And>d q u. f d (q, u) =
       (if d = stop then do { (Q', u) \<leftarrow> queue_destroy (Ptr q) NULL (g d u); q' \<leftarrow> deref Q'; Some (q', u) }
        else Some (q, g d u))"
  shows "\<exists>q'. q_ref q' = 1 \<and> foreach_loop f (hd_ptr ys NULL) (q, u) =
    Some (q', fold g (takeWhile (\<lambda>d. d \<noteq> stop) (map snd ys) @ [stop]) u)"
  using assms(1,3)
proof (induction ys arbitrary: xs u)
  case (Cons y ys)
  obtain a d where y: "y = (a, d)" by (cases y)
  have l: "qload q (Ptr a) = Some \<lparr>qe_data = d, qe_next = hd_ptr ys NULL\<rparr>"
    using Cons.prems(1) unfolding y by (rule rep_entry)
  have h: "q_head q \<noteq> NULL" using Cons.prems by (auto simp: queue_rep_at_def y)
  show ?case
  proof (cases "d = stop")
    case False
    then show ?thesis using Cons.IH [of "xs @ [y]" "g d u"] Cons.prems l h assms(2,4)
      by (subst foreach_loop.simps) (simp add: y)
  next
    case True
    obtain c where c: "free_all NULL (q_head q) (q\<lparr>q_head := NULL, q_tail := NULL, q_entries := 0\<rparr>) 0 (g d u) =
        Some (c, q\<lparr>q_head := NULL, q_tail := NULL, q_entries := 0, q_cells := Map.empty\<rparr>, g d u)"
      using free_all_at [of "xs @ y # ys" "q\<lparr>q_head := NULL, q_tail := NULL, q_entries := 0\<rparr>" NULL 0 "g d u"]
        Cons.prems(1) by (auto simp: queue_rep_at_def destroy_all_def)
    have "f d (q, u) = Some (q\<lparr>q_head := NULL, q_tail := NULL, q_entries := 0, q_cells := Map.empty,
        q_ref := 1\<rparr>, g d u)"
      using True c assms(2)
      by (simp add: assms(4) queue_destroy_def queue_remove_all_def queue_unref_def Let_def)
    with l h assms(2) True show ?thesis
      by (subst foreach_loop.simps, simp add: y, subst foreach_loop.simps, simp)
  qed
qed simp

text \<open>
  A function called by \<open>queue_foreach\<close> may destroy the queue: the iteration stops after that
  call, no freed entry is read, and the queue itself is freed once, by the iteration.
\<close>

theorem foreach_survives_destroy:
  assumes "queue_rep Q ds" "stop \<in> set ds"
    "\<And>d q u. f d (q, u) =
       (if d = stop then do { (Q', u) \<leftarrow> queue_destroy (Ptr q) NULL (g d u); q' \<leftarrow> deref Q'; Some (q', u) }
        else Some (q, g d u))"
  shows "queue_foreach Q (Ptr f) u = Some (NULL, fold g (takeWhile (\<lambda>d. d \<noteq> stop) ds @ [stop]) u)"
proof -
  obtain q xs where q: "Q = Ptr q" "queue_rep_at q xs" "q_ref q = 1" "ds = map snd xs"
    using assms(1) by (auto simp: queue_rep_def)
  have "queue_rep_at (q\<lparr>q_ref := 2\<rparr>) ([] @ xs)" using q by (auto simp: queue_rep_at_def)
  from foreach_destroy_loop [OF this _ _ assms(3), of u] q assms(2) obtain q' where
    "q_ref q' = 1" "foreach_loop f (q_head q) (q\<lparr>q_ref := 2\<rparr>, u) =
       Some (q', fold g (takeWhile (\<lambda>d. d \<noteq> stop) ds @ [stop]) u)"
    by (auto simp: queue_rep_at_def)
  moreover have "q_head q \<noteq> NULL" using q assms(2) by (auto simp: queue_rep_at_def)
  ultimately show ?thesis using q by (simp add: queue_foreach_def queue_unref_def Let_def)
qed


theorem foreach_survives_destroy_witness:
  "\<exists>Q. queue_push_tail queue_new (Ptr (1::nat)) = Some (True, Q) \<and>
     queue_foreach Q (Ptr (\<lambda>d (q, u). if d = Ptr 1 then do {
         (Q', u) \<leftarrow> queue_destroy (Ptr q) NULL (d # u); q' \<leftarrow> deref Q'; Some (q', u) }
       else Some (q, d # u))) [] = Some (NULL, [Ptr 1])"
proof -
  obtain Q where Q: "queue_push_tail queue_new (Ptr (1::nat)) = Some (True, Q)" "queue_rep Q [Ptr 1]"
    using rep_push_tail [OF rep_new, of "Ptr (1::nat)"] by auto
  from Q(1) foreach_survives_destroy [OF Q(2), where g = "\<lambda>d u. d # u" and u = "[]" and stop = "Ptr 1" and
      f = "\<lambda>d (q, u). if d = Ptr 1 then do {
         (Q', u) \<leftarrow> queue_destroy (Ptr q) NULL (d # u); q' \<leftarrow> deref Q'; Some (q', u) }
       else Some (q, d # u)"]
  show ?thesis by simp
qed

end
