(* ===== verification/Gattrib.thy ===== *)
theory Gattrib
  imports Att QueueLaws
begin

text \<open>
  \<open>attrib/gattrib.c\<close>: the \<open>GAttrib\<close> object, which hands requests to the transport
  \<open>src/shared/att.c\<close>, keeps one \<open>attrib_callbacks\<close> record per registered callback in a queue,
  and owns the buffer its clients encode into.

  The transport is the parameter \<open>bt_att_ops\<close> of the model.  A transport operation that runs the
  destroy function of an operation or handler (\<open>attrib_callbacks_remove\<close> for everything this file
  registers) returns the callback records it was run on.  \<open>'f\<close> names the client's functions and
  \<open>'u\<close> is its \<open>user_data\<close>; a call of a client function is an \<open>event\<close>.  The callback records are
  allocated objects: \<open>ga_cbs\<close> maps the address of each live one to its contents, and using a
  freed one is undefined.
\<close>

section \<open>Data\<close>

datatype ('f, 'u) event =
    CallResult 'f u8 buf u16 'u
  | CallNotify 'f buf u16 'u
  | CallDestroy 'f 'u

record ('f, 'u) attrib_callbacks =
  cb_id :: u32
  cb_result_func :: "'f ptr"
  cb_notify_func :: "'f ptr"
  cb_destroy_func :: "'f ptr"
  cb_user_data :: 'u
  cb_notify_handle :: u16

record ('f, 'u, 'a) gattrib =
  ga_ref :: int
  ga_att :: 'a
  ga_io :: int
  ga_destroy :: "'f ptr"
  ga_destroy_user_data :: 'u
  ga_callbacks :: "nat queue ptr"
  ga_buf :: buf
  ga_buflen :: int
  ga_track_ids :: "u32 queue ptr"
  ga_cbs :: "nat \<rightharpoonup> ('f, 'u) attrib_callbacks"
  ga_brk :: nat

record 'a bt_att_ops =
  ba_new :: "int \<Rightarrow> bool \<Rightarrow> 'a ptr"
  ba_set_mtu :: "'a \<Rightarrow> u16 \<Rightarrow> bool \<times> 'a"
  ba_get_mtu :: "'a \<Rightarrow> u16"
  ba_send :: "'a \<Rightarrow> u8 \<Rightarrow> buf \<Rightarrow> nat ptr \<Rightarrow> u32 \<times> 'a"
  ba_resend :: "'a \<Rightarrow> u32 \<Rightarrow> u8 \<Rightarrow> buf \<Rightarrow> nat ptr \<Rightarrow> int \<times> 'a"
  ba_cancel :: "'a \<Rightarrow> u32 \<Rightarrow> bool \<times> nat list \<times> 'a"
  ba_register :: "'a \<Rightarrow> u8 \<Rightarrow> nat ptr \<Rightarrow> u32 \<times> 'a"
  ba_unregister :: "'a \<Rightarrow> u32 \<Rightarrow> bool \<times> nat list \<times> 'a"
  ba_unregister_all :: "'a \<Rightarrow> bool \<times> nat list \<times> 'a"
  ba_unref :: "'a \<Rightarrow> nat list"

abbreviation (input) GATTRIB_ALL_REQS :: u8 where "GATTRIB_ALL_REQS \<equiv> 0xFE"
abbreviation (input) GATTRIB_ALL_HANDLES :: u16 where "GATTRIB_ALL_HANDLES \<equiv> 0x0000"
abbreviation (input) BT_ATT_ALL_REQUESTS :: u8 where "BT_ATT_ALL_REQUESTS \<equiv> 0x00"

section \<open>Creation and references\<close>

text \<open>
  \<open>io\<close> is \<open>None\<close> for a null channel and its file descriptor otherwise; \<open>user0\<close> is the zeroed
  \<open>user_data\<close> of a fresh object.  \<open>mem\<close> tells whether \<open>malloc0(mtu)\<close> succeeds.
\<close>

definition g_attrib_ref :: "('f, 'u, 'a) gattrib ptr \<Rightarrow> ('f, 'u, 'a) gattrib ptr" where
  "g_attrib_ref attrib =
     (case attrib of NULL \<Rightarrow> NULL | Ptr g \<Rightarrow> Ptr (g\<lparr>ga_ref := ga_ref g + 1\<rparr>))"

definition g_attrib_new ::
    "'a bt_att_ops \<Rightarrow> int option \<Rightarrow> u16 \<Rightarrow> bool \<Rightarrow> bool \<Rightarrow> 'u \<Rightarrow> ('f, 'u, 'a) gattrib ptr" where
  "g_attrib_new A io mtu ext_signed mem user0 =
     (case io of
        None \<Rightarrow> NULL
      | Some fd \<Rightarrow>
          (case ba_new A fd ext_signed of
             NULL \<Rightarrow> NULL
           | Ptr att \<Rightarrow>
               let (ok, att) = ba_set_mtu A att mtu in
               if \<not> ok then NULL
               else if \<not> mem then NULL
               else g_attrib_ref (Ptr \<lparr>ga_ref = 0, ga_att = att, ga_io = fd, ga_destroy = NULL,
                      ga_destroy_user_data = user0, ga_callbacks = queue_new,
                      ga_buf = replicate (unat mtu) 0, ga_buflen = int (unat mtu),
                      ga_track_ids = queue_new, ga_cbs = Map.empty, ga_brk = 0\<rparr>)))"

definition attrib_callbacks_destroy ::
    "nat ptr \<Rightarrow> (('f, 'u) event list \<times> (nat \<rightharpoonup> ('f, 'u) attrib_callbacks)) option \<Rightarrow>
       (('f, 'u) event list \<times> (nat \<rightharpoonup> ('f, 'u) attrib_callbacks)) option" where
  "attrib_callbacks_destroy data s = do {
     (evs, cbs) \<leftarrow> s;
     a \<leftarrow> deref data;
     cb \<leftarrow> cbs a;
     let evs = (case cb_destroy_func cb of
                  NULL \<Rightarrow> evs | Ptr f \<Rightarrow> evs @ [CallDestroy f (cb_user_data cb)]);
     Some (evs, cbs(a := None)) }"

text \<open>The code reads \<open>cb->parent\<close>, so the record must be allocated.\<close>

definition attrib_callbacks_remove ::
    "nat ptr \<Rightarrow> ('f, 'u, 'a) gattrib \<Rightarrow> (('f, 'u) event list \<times> ('f, 'u, 'a) gattrib) option" where
  "attrib_callbacks_remove data g =
     (case data of
        NULL \<Rightarrow> Some ([], g)
      | Ptr a \<Rightarrow> do {
          _ \<leftarrow> ga_cbs g a;
          (found, cs) \<leftarrow> queue_remove (ga_callbacks g) data;
          let g = g\<lparr>ga_callbacks := cs\<rparr>;
          if \<not> found then Some ([], g)
          else do {
            (evs, cbs) \<leftarrow> attrib_callbacks_destroy data (Some ([], ga_cbs g));
            Some (evs, g\<lparr>ga_cbs := cbs\<rparr>) } })"

primrec remove_each ::
    "nat list \<Rightarrow> ('f, 'u, 'a) gattrib \<Rightarrow> (('f, 'u) event list \<times> ('f, 'u, 'a) gattrib) option" where
  "remove_each [] g = Some ([], g)"
| "remove_each (a # as) g = do {
     (e1, g) \<leftarrow> attrib_callbacks_remove (Ptr a) g;
     (e2, g) \<leftarrow> remove_each as g;
     Some (e1 @ e2, g) }"

definition g_attrib_unref ::
    "'a bt_att_ops \<Rightarrow> ('f, 'u, 'a) gattrib ptr \<Rightarrow> (('f, 'u) event list \<times> ('f, 'u, 'a) gattrib ptr) option" where
  "g_attrib_unref A attrib =
     (case attrib of
        NULL \<Rightarrow> Some ([], NULL)
      | Ptr g \<Rightarrow>
          let g = g\<lparr>ga_ref := ga_ref g - 1\<rparr> in
          if ga_ref g \<noteq> 0 then Some ([], Ptr g)
          else do {
            let e1 = (case ga_destroy g of NULL \<Rightarrow> [] | Ptr f \<Rightarrow> [CallDestroy f (ga_destroy_user_data g)]);
            (e2, g) \<leftarrow> remove_each (ba_unref A (ga_att g)) g;
            (_, r) \<leftarrow> queue_destroy (ga_callbacks g) (Ptr attrib_callbacks_destroy) (Some ([], ga_cbs g));
            (e3, _) \<leftarrow> r;
            _ \<leftarrow> queue_destroy (ga_track_ids g) NULL ();
            Some (e1 @ e2 @ e3, NULL) })"

definition g_attrib_get_channel :: "('f, 'u, 'a) gattrib ptr \<Rightarrow> int option" where
  "g_attrib_get_channel attrib = (case attrib of NULL \<Rightarrow> None | Ptr g \<Rightarrow> Some (ga_io g))"

definition g_attrib_get_att :: "('f, 'u, 'a) gattrib ptr \<Rightarrow> 'a ptr" where
  "g_attrib_get_att attrib = (case attrib of NULL \<Rightarrow> NULL | Ptr g \<Rightarrow> Ptr (ga_att g))"

definition g_attrib_set_destroy_function ::
    "('f, 'u, 'a) gattrib ptr \<Rightarrow> 'f ptr \<Rightarrow> 'u \<Rightarrow> bool \<times> ('f, 'u, 'a) gattrib ptr" where
  "g_attrib_set_destroy_function attrib destroy user_data =
     (case attrib of
        NULL \<Rightarrow> (False, NULL)
      | Ptr g \<Rightarrow> (True, Ptr (g\<lparr>ga_destroy := destroy, ga_destroy_user_data := user_data\<rparr>)))"

section \<open>Callbacks of the transport\<close>

text \<open>\<open>mem\<close> tells whether \<open>malloc0(length + 1)\<close> succeeds.\<close>

definition construct_full_pdu :: "bool \<Rightarrow> u8 \<Rightarrow> buf ptr \<Rightarrow> u16 \<Rightarrow> buf ptr option" where
  "construct_full_pdu mem opcode pdu len =
     (if \<not> mem then Some NULL
      else do {
        b \<leftarrow> wr8 (replicate (unat len + 1) 0) 0 opcode;
        (case pdu of
           NULL \<Rightarrow> Some (Ptr b)
         | Ptr p \<Rightarrow>
             if len = 0 then Some (Ptr b)
             else do { s \<leftarrow> rd p 0 (unat len); b \<leftarrow> wr b 1 s; Some (Ptr b) }) })"

definition attrib_callback_result ::
    "bool \<Rightarrow> u8 \<Rightarrow> buf ptr \<Rightarrow> u16 \<Rightarrow> nat ptr \<Rightarrow> ('f, 'u, 'a) gattrib \<Rightarrow> ('f, 'u) event list option" where
  "attrib_callback_result mem opcode pdu len user_data g =
     (case user_data of
        NULL \<Rightarrow> Some []
      | Ptr a \<Rightarrow> do {
          buf \<leftarrow> construct_full_pdu mem opcode pdu len;
          (case buf of
             NULL \<Rightarrow> Some []
           | Ptr b \<Rightarrow> do {
               status \<leftarrow>
                 (if opcode = ATT_OP_ERROR then
                    (if len < 4 then Some ATT_ECODE_UNLIKELY else do { p \<leftarrow> deref pdu; rd8 p 3 })
                  else Some 0);
               cb \<leftarrow> ga_cbs g a;
               (case cb_result_func cb of
                  NULL \<Rightarrow> Some []
                | Ptr f \<Rightarrow> Some [CallResult f status b (len + 1) (cb_user_data cb)]) }) })"

definition attrib_callback_notify ::
    "bool \<Rightarrow> u8 \<Rightarrow> buf ptr \<Rightarrow> u16 \<Rightarrow> nat ptr \<Rightarrow> ('f, 'u, 'a) gattrib \<Rightarrow> ('f, 'u) event list option" where
  "attrib_callback_notify mem opcode pdu len user_data g =
     (case user_data of
        NULL \<Rightarrow> Some []
      | Ptr a \<Rightarrow> do {
          cb \<leftarrow> ga_cbs g a;
          (case cb_notify_func cb of
             NULL \<Rightarrow> Some []
           | Ptr f \<Rightarrow>
               if cb_notify_handle cb \<noteq> GATTRIB_ALL_HANDLES \<and> len < 2 then Some []
               else do {
                 other \<leftarrow> (if cb_notify_handle cb \<noteq> GATTRIB_ALL_HANDLES
                            then do { p \<leftarrow> deref pdu; h \<leftarrow> get_le16 p 0; Some (cb_notify_handle cb \<noteq> h) }
                            else Some False);
                 if other then Some []
                 else do {
                   buf \<leftarrow> construct_full_pdu mem opcode pdu len;
                   (case buf of
                      NULL \<Rightarrow> Some []
                    | Ptr b \<Rightarrow> Some [CallNotify f b (len + 1) (cb_user_data cb)]) } }) })"

section \<open>Requests\<close>

text \<open>
  A new callback record, pushed at the head of the queue; \<open>NULL\<close> when the client gives neither a
  function nor a destroy function.
\<close>

definition push_callbacks ::
    "('f, 'u) attrib_callbacks \<Rightarrow> bool \<Rightarrow> ('f, 'u, 'a) gattrib \<Rightarrow> (nat ptr \<times> ('f, 'u, 'a) gattrib) option" where
  "push_callbacks cb wanted g =
     (if \<not> wanted then Some (NULL, g)
      else do {
        let a = ga_brk g;
        (_, cs) \<leftarrow> queue_push_head (ga_callbacks g) (Ptr a);
        Some (Ptr a, g\<lparr>ga_cbs := (ga_cbs g)(a \<mapsto> cb), ga_brk := Suc a, ga_callbacks := cs\<rparr>) })"

definition g_attrib_send ::
    "'a bt_att_ops \<Rightarrow> ('f, 'u, 'a) gattrib ptr \<Rightarrow> u32 \<Rightarrow> buf ptr \<Rightarrow> u16 \<Rightarrow> 'f ptr \<Rightarrow> 'u \<Rightarrow> 'f ptr \<Rightarrow>
       (u32 \<times> ('f, 'u, 'a) gattrib ptr) option" where
  "g_attrib_send A attrib rid pdu len func user_data notify =
     (case (attrib, pdu) of
        (Ptr g, Ptr p) \<Rightarrow>
          if len = 0 then Some (0, attrib)
          else do {
            (cb, g) \<leftarrow> push_callbacks
              \<lparr>cb_id = 0, cb_result_func = func, cb_notify_func = NULL, cb_destroy_func = notify,
               cb_user_data = user_data, cb_notify_handle = 0\<rparr> (func \<noteq> NULL \<or> notify \<noteq> NULL) g;
            op \<leftarrow> rd8 p 0;
            body \<leftarrow> rd p 1 (unat (len - 1));
            let (rid, att) =
              (if rid = 0 then ba_send A (ga_att g) op body cb
               else let (err, att) = ba_resend A (ga_att g) rid op body cb
                    in (if err \<noteq> 0 then 0 else rid, att));
            let g = g\<lparr>ga_att := att\<rparr>;
            if rid = 0 then Some (0, Ptr g)
            else (case cb of
                NULL \<Rightarrow> Some (rid, Ptr g)
              | Ptr a \<Rightarrow> do {
                  c \<leftarrow> ga_cbs g a;
                  (_, ids) \<leftarrow> queue_push_tail (ga_track_ids g) (Ptr rid);
                  Some (rid, Ptr (g\<lparr>ga_cbs := (ga_cbs g)(a \<mapsto> c\<lparr>cb_id := rid\<rparr>), ga_track_ids := ids\<rparr>)) }) }
      | _ \<Rightarrow> Some (0, attrib))"

definition g_attrib_cancel ::
    "'a bt_att_ops \<Rightarrow> ('f, 'u, 'a) gattrib ptr \<Rightarrow> u32 \<Rightarrow>
       (bool \<times> ('f, 'u) event list \<times> ('f, 'u, 'a) gattrib ptr) option" where
  "g_attrib_cancel A attrib rid =
     (case attrib of
        NULL \<Rightarrow> Some (False, [], NULL)
      | Ptr g \<Rightarrow> do {
          let (ok, as, att) = ba_cancel A (ga_att g) rid;
          (evs, g) \<leftarrow> remove_each as (g\<lparr>ga_att := att\<rparr>);
          Some (ok, evs, Ptr g) })"

text \<open>\<open>PTR_TO_UINT\<close> of the tracked pointer; the null pointer is the identifier 0.\<close>

definition cancel_request ::
    "'a bt_att_ops \<Rightarrow> u32 ptr \<Rightarrow> u32 queue \<times> ('f, 'u) event list \<times> ('f, 'u, 'a) gattrib \<Rightarrow>
       (u32 queue \<times> ('f, 'u) event list \<times> ('f, 'u, 'a) gattrib) option" where
  "cancel_request A data s =
     (case s of (q, evs, g) \<Rightarrow> do {
        let rid = (case data of NULL \<Rightarrow> 0 | Ptr i \<Rightarrow> i);
        let (_, as, att) = ba_cancel A (ga_att g) rid;
        (e, g) \<leftarrow> remove_each as (g\<lparr>ga_att := att\<rparr>);
        Some (q, evs @ e, g) })"

definition g_attrib_cancel_all ::
    "'a bt_att_ops \<Rightarrow> ('f, 'u, 'a) gattrib ptr \<Rightarrow>
       (bool \<times> ('f, 'u) event list \<times> ('f, 'u, 'a) gattrib ptr) option" where
  "g_attrib_cancel_all A attrib =
     (case attrib of
        NULL \<Rightarrow> Some (False, [], NULL)
      | Ptr g \<Rightarrow> do {
          (ids, evs, g) \<leftarrow> queue_foreach (ga_track_ids g) (Ptr (cancel_request A)) ([], g);
          (_, ids, _) \<leftarrow> queue_remove_all ids NULL NULL NULL ();
          Some (True, evs, Ptr (g\<lparr>ga_track_ids := ids\<rparr>)) })"

definition g_attrib_register ::
    "'a bt_att_ops \<Rightarrow> ('f, 'u, 'a) gattrib ptr \<Rightarrow> u8 \<Rightarrow> u16 \<Rightarrow> 'f ptr \<Rightarrow> 'u \<Rightarrow> 'f ptr \<Rightarrow>
       (u32 \<times> ('f, 'u, 'a) gattrib ptr) option" where
  "g_attrib_register A attrib opcode handle func user_data notify =
     (case attrib of
        NULL \<Rightarrow> Some (0, NULL)
      | Ptr g \<Rightarrow> do {
          (cb, g) \<leftarrow> push_callbacks
            \<lparr>cb_id = 0, cb_result_func = NULL, cb_notify_func = func, cb_destroy_func = notify,
             cb_user_data = user_data, cb_notify_handle = handle\<rparr> (func \<noteq> NULL \<or> notify \<noteq> NULL) g;
          let opcode = (if opcode = GATTRIB_ALL_REQS then BT_ATT_ALL_REQUESTS else opcode);
          let (rid, att) = ba_register A (ga_att g) opcode cb;
          Some (rid, Ptr (g\<lparr>ga_att := att\<rparr>)) })"

section \<open>The buffer\<close>

text \<open>\<open>g_realloc\<close>: the bytes beyond the old size are unspecified, here \<open>junk\<close>.\<close>

definition g_realloc :: "(nat \<Rightarrow> u8) \<Rightarrow> buf \<Rightarrow> nat \<Rightarrow> buf" where
  "g_realloc junk b n = take n b @ map junk [length b..<n]"

definition g_attrib_get_buffer ::
    "'a bt_att_ops \<Rightarrow> (nat \<Rightarrow> u8) \<Rightarrow> ('f, 'u, 'a) gattrib ptr \<Rightarrow> (buf \<times> size_t) ptr \<times> ('f, 'u, 'a) gattrib ptr" where
  "g_attrib_get_buffer A junk attrib =
     (case attrib of
        NULL \<Rightarrow> (NULL, NULL)
      | Ptr g \<Rightarrow>
          let mtu = ba_get_mtu A (ga_att g);
              g = (if ga_buflen g < int (unat mtu)
                   then g\<lparr>ga_buf := g_realloc junk (ga_buf g) (unat mtu)\<rparr> else g);
              g = g\<lparr>ga_buflen := int (unat mtu)\<rparr>
          in (Ptr (ga_buf g, ucast mtu), Ptr g))"

definition g_attrib_set_mtu ::
    "'a bt_att_ops \<Rightarrow> (nat \<Rightarrow> u8) \<Rightarrow> ('f, 'u, 'a) gattrib ptr \<Rightarrow> int \<Rightarrow> bool \<times> ('f, 'u, 'a) gattrib ptr" where
  "g_attrib_set_mtu A junk attrib mtu =
     (case attrib of
        NULL \<Rightarrow> (False, NULL)
      | Ptr g \<Rightarrow>
          let g = (if ga_buflen g < mtu
                   then g\<lparr>ga_buf := g_realloc junk (ga_buf g) (nat mtu)\<rparr> else g);
              g = g\<lparr>ga_buflen := mtu\<rparr>;
              (ok, att) = ba_set_mtu A (ga_att g) (word_of_int mtu)
          in (ok, Ptr (g\<lparr>ga_att := att\<rparr>)))"

definition g_attrib_unregister ::
    "'a bt_att_ops \<Rightarrow> ('f, 'u, 'a) gattrib ptr \<Rightarrow> u32 \<Rightarrow>
       (bool \<times> ('f, 'u) event list \<times> ('f, 'u, 'a) gattrib ptr) option" where
  "g_attrib_unregister A attrib rid =
     (case attrib of
        NULL \<Rightarrow> Some (False, [], NULL)
      | Ptr g \<Rightarrow> do {
          let (ok, as, att) = ba_unregister A (ga_att g) rid;
          (evs, g) \<leftarrow> remove_each as (g\<lparr>ga_att := att\<rparr>);
          Some (ok, evs, Ptr g) })"

definition g_attrib_unregister_all ::
    "'a bt_att_ops \<Rightarrow> ('f, 'u, 'a) gattrib ptr \<Rightarrow>
       (bool \<times> ('f, 'u) event list \<times> ('f, 'u, 'a) gattrib ptr) option" where
  "g_attrib_unregister_all A attrib =
     (case attrib of
        NULL \<Rightarrow> Some (False, [], NULL)
      | Ptr g \<Rightarrow> do {
          let (ok, as, att) = ba_unregister_all A (ga_att g);
          (evs, g) \<leftarrow> remove_each as (g\<lparr>ga_att := att\<rparr>);
          Some (ok, evs, Ptr g) })"

end
