(* ===== verification/GattribProps.thy ===== *)
theory GattribProps
  imports Gattrib "HOL-Library.Multiset"
begin

text \<open>
  The lifetime of callback records in \<open>attrib/gattrib.c\<close>.  \<open>wf_gattrib g cs\<close> is the invariant: the
  queue of callbacks holds exactly the live records \<open>cs\<close>, each once, the queue of request ids is
  well formed, and the buffer is at least as long as its recorded length.  Every operation keeps
  it, as long as the transport runs destroy functions on live records only; destroying the object runs every client destroy function exactly once.
\<close>

section \<open>The invariant\<close>

definition wf_gattrib :: "('f, 'u, 'a) gattrib \<Rightarrow> nat list \<Rightarrow> bool" where
  "wf_gattrib g cs \<longleftrightarrow>
     queue_rep (ga_callbacks g) (map Ptr cs) \<and> distinct cs \<and> set cs = dom (ga_cbs g) \<and>
     (\<forall>a\<in>set cs. a < ga_brk g) \<and> (\<exists>ids. queue_rep (ga_track_ids g) ids) \<and>
     ga_buflen g \<le> int (length (ga_buf g))"

definition destroy_ev :: "('f, 'u, 'a) gattrib \<Rightarrow> nat \<Rightarrow> ('f, 'u) event list" where
  "destroy_ev g a =
     (case ga_cbs g a of
        None \<Rightarrow> []
      | Some cb \<Rightarrow> (case cb_destroy_func cb of NULL \<Rightarrow> [] | Ptr f \<Rightarrow> [CallDestroy f (cb_user_data cb)]))"

lemma wf_att [simp]: "wf_gattrib (g\<lparr>ga_att := att\<rparr>) cs = wf_gattrib g cs"
  by (simp add: wf_gattrib_def)

lemma wf_ref [simp]: "wf_gattrib (g\<lparr>ga_ref := n\<rparr>) cs = wf_gattrib g cs"
  by (simp add: wf_gattrib_def)

lemma destroy_ev_att [simp]: "destroy_ev (g\<lparr>ga_att := att\<rparr>) = destroy_ev g"
  "destroy_ev (g\<lparr>ga_ref := n\<rparr>) = destroy_ev g"
  by (simp_all add: destroy_ev_def fun_eq_iff)

lemma new_wf:
  assumes "g_attrib_new A io mtu ext mem u0 = Ptr g"
  shows "wf_gattrib g [] \<and> ga_ref g = 1 \<and> length (ga_buf g) = unat mtu"
  using assms
  by (auto simp: g_attrib_new_def g_attrib_ref_def wf_gattrib_def rep_new Let_def intro!: exI [of _ "[]"] rep_new
      split: option.splits ptr.splits prod.splits if_splits)

lemma push_callbacks_wf:
  assumes "wf_gattrib g cs"
  shows "\<exists>g'. push_callbacks cb True g = Some (Ptr (ga_brk g), g') \<and> wf_gattrib g' (ga_brk g # cs) \<and>
    ga_cbs g' = (ga_cbs g)(ga_brk g \<mapsto> cb) \<and> ga_att g' = ga_att g \<and> ga_track_ids g' = ga_track_ids g \<and>
    ga_buf g' = ga_buf g \<and> ga_buflen g' = ga_buflen g \<and> ga_ref g' = ga_ref g \<and> ga_destroy g' = ga_destroy g"
proof -
  have fresh: "ga_brk g \<notin> set cs" using assms by (auto simp: wf_gattrib_def)
  obtain Q where "queue_push_head (ga_callbacks g) (Ptr (ga_brk g)) = Some (True, Q)"
    "queue_rep Q (Ptr (ga_brk g) # map Ptr cs)"
    using rep_push_head [of "ga_callbacks g" "map Ptr cs" "Ptr (ga_brk g)"] assms by (auto simp: wf_gattrib_def)
  then show ?thesis using assms fresh
    by (auto simp: push_callbacks_def wf_gattrib_def Let_def intro: less_SucI)
qed

lemma remove1_map_Ptr [simp]: "remove1 (Ptr a) (map Ptr cs) = map Ptr (remove1 a cs)"
  by (induction cs) auto

lemma callbacks_remove_wf:
  assumes "wf_gattrib g cs" "a \<in> set cs"
  shows "\<exists>g'. attrib_callbacks_remove (Ptr a) g = Some (destroy_ev g a, g') \<and> wf_gattrib g' (remove1 a cs) \<and>
    ga_cbs g' = (ga_cbs g)(a := None) \<and> ga_track_ids g' = ga_track_ids g \<and> ga_buf g' = ga_buf g \<and>
    ga_buflen g' = ga_buflen g \<and> ga_att g' = ga_att g \<and> ga_ref g' = ga_ref g"
proof -
  obtain cb where cb: "ga_cbs g a = Some cb" using assms by (auto simp: wf_gattrib_def)
  obtain Q where "queue_remove (ga_callbacks g) (Ptr a) = Some (True, Q)"
    "queue_rep Q (map Ptr (remove1 a cs))"
    using rep_remove [of "ga_callbacks g" "map Ptr cs" "Ptr a"] assms by (auto simp: wf_gattrib_def)
  then show ?thesis using assms cb
    by (auto simp: attrib_callbacks_remove_def attrib_callbacks_destroy_def wf_gattrib_def destroy_ev_def Let_def
        split: ptr.splits)
qed

lemma remove_each_wf:
  assumes "wf_gattrib g cs" "distinct as" "set as \<subseteq> set cs"
  shows "\<exists>g' cs'. remove_each as g = Some (concat (map (destroy_ev g) as), g') \<and> wf_gattrib g' cs' \<and>
    set cs' = set cs - set as \<and> (\<forall>a\<in>set cs'. ga_cbs g' a = ga_cbs g a) \<and> ga_track_ids g' = ga_track_ids g \<and>
    ga_buf g' = ga_buf g \<and> ga_buflen g' = ga_buflen g \<and> ga_ref g' = ga_ref g"
  using assms
proof (induction as arbitrary: g cs)
  case Nil
  then show ?case by auto
next
  case (Cons a as)
  have dcs: "distinct cs" using Cons.prems(1) by (simp add: wf_gattrib_def)
  obtain g1 where g1: "attrib_callbacks_remove (Ptr a) g = Some (destroy_ev g a, g1)"
    "wf_gattrib g1 (remove1 a cs)" "ga_cbs g1 = (ga_cbs g)(a := None)" "ga_track_ids g1 = ga_track_ids g"
    "ga_buf g1 = ga_buf g" "ga_buflen g1 = ga_buflen g" "ga_ref g1 = ga_ref g"
    using callbacks_remove_wf [OF Cons.prems(1), of a] Cons.prems(3) by auto
  have ev: "concat (map (destroy_ev g1) as) = concat (map (destroy_ev g) as)"
    using Cons.prems(2) g1(3) by (intro arg_cong [of _ _ concat] map_cong) (auto simp: destroy_ev_def)
  have "set as \<subseteq> set (remove1 a cs)" using Cons.prems(2,3) dcs by auto
  from Cons.IH [OF g1(2) _ this] Cons.prems(2) obtain g' cs' where
    "remove_each as g1 = Some (concat (map (destroy_ev g1) as), g')" "wf_gattrib g' cs'"
    "set cs' = set (remove1 a cs) - set as" "\<forall>b\<in>set cs'. ga_cbs g' b = ga_cbs g1 b"
    "ga_track_ids g' = ga_track_ids g1" "ga_buf g' = ga_buf g1" "ga_buflen g' = ga_buflen g1" "ga_ref g' = ga_ref g1"
    by auto
  with g1 ev dcs show ?case by (intro exI [of _ g'] exI [of _ cs']) auto
qed

lemma remove_each_att:
  assumes "wf_gattrib g cs" "distinct as" "set as \<subseteq> set cs"
  shows "\<exists>g' cs'. remove_each as g = Some (concat (map (destroy_ev g) as), g') \<and> wf_gattrib g' cs' \<and>
    set cs' = set cs - set as \<and> ga_att g' = ga_att g \<and> (\<forall>a\<in>set cs'. ga_cbs g' a = ga_cbs g a)"
proof -
  have "remove_each as h = Some (e, g') \<Longrightarrow> ga_att g' = ga_att h" for as e g' and h :: "('a, 'b, 'c) gattrib"
    by (induction as arbitrary: h e)
      (auto simp: attrib_callbacks_remove_def bind_eq_Some_conv Let_def split: ptr.splits if_splits)
  with remove_each_wf [OF assms] show ?thesis by blast
qed

section \<open>Requests\<close>

text \<open>
  What a request leaves behind: the invariant, with one more record exactly when the client gave a
  function or a destroy function, whether the transport accepted the request or not.
\<close>

lemma send_wf:
  assumes "wf_gattrib g cs" "0 < len" "unat len \<le> length p" "func \<noteq> NULL \<or> notify \<noteq> NULL"
  shows "\<exists>rid g'. g_attrib_send A (Ptr g) i (Ptr p) len func u notify = Some (rid, Ptr g') \<and>
    wf_gattrib g' (ga_brk g # cs) \<and> ga_buf g' = ga_buf g \<and> ga_buflen g' = ga_buflen g \<and> ga_ref g' = ga_ref g \<and>
    (rid, ga_att g') =
      (if i = 0 then ba_send A (ga_att g) (p ! 0) (take (unat len - 1) (drop 1 p)) (Ptr (ga_brk g))
       else let (err, att) = ba_resend A (ga_att g) i (p ! 0) (take (unat len - 1) (drop 1 p)) (Ptr (ga_brk g))
            in (if err \<noteq> 0 then 0 else i, att)) \<and>
    (\<forall>a. a \<noteq> ga_brk g \<longrightarrow> ga_cbs g' a = ga_cbs g a) \<and>
    (\<exists>cb. ga_cbs g' (ga_brk g) = Some cb \<and> cb_destroy_func cb = notify \<and> cb_user_data cb = u \<and>
       cb_result_func cb = func)"
proof -
  define cb where "cb = \<lparr>cb_id = 0, cb_result_func = func, cb_notify_func = NULL, cb_destroy_func = notify,
               cb_user_data = u, cb_notify_handle = 0\<rparr>"
  obtain g1 where g1: "push_callbacks cb True g = Some (Ptr (ga_brk g), g1)" "wf_gattrib g1 (ga_brk g # cs)"
    "ga_cbs g1 = (ga_cbs g)(ga_brk g \<mapsto> cb)" "ga_att g1 = ga_att g" "ga_track_ids g1 = ga_track_ids g"
    "ga_buf g1 = ga_buf g" "ga_buflen g1 = ga_buflen g" "ga_ref g1 = ga_ref g"
    using push_callbacks_wf [OF assms(1), of cb] by auto
  define r where "r = (if i = 0 then ba_send A (ga_att g) (p ! 0) (take (unat len - 1) (drop 1 p)) (Ptr (ga_brk g))
       else let (err, att) = ba_resend A (ga_att g) i (p ! 0) (take (unat len - 1) (drop 1 p)) (Ptr (ga_brk g))
            in (if err \<noteq> 0 then 0 else i, att))"
  obtain rid att where r: "r = (rid, att)" by (cases r)
  have u1: "unat (len - 1) = unat len - 1" using assms(2) by (simp add: unat_minus_le word_le_nat_alt word_less_nat_alt)
  have l1: "1 \<le> unat len" using assms(2) by (simp add: word_less_nat_alt)
  have rd: "rd8 p 0 = Some (p ! 0)" "rd p 1 (unat (len - 1)) = Some (take (unat len - 1) (drop 1 p))"
    using assms(3) l1 by (auto simp: rd8_def rd_def u1)
  obtain ids where "queue_rep (ga_track_ids g1) ids" using g1(2) by (auto simp: wf_gattrib_def)
  then obtain ids' where ids': "queue_push_tail (ga_track_ids g1) (Ptr rid) = Some (True, ids')" "\<exists>l. queue_rep ids' l"
    using rep_push_tail by blast
  have len: "len \<noteq> 0" using assms(2) by auto
  show ?thesis
  proof (cases "rid = 0")
    case True
    then have "g_attrib_send A (Ptr g) i (Ptr p) len func u notify = Some (rid, Ptr (g1\<lparr>ga_att := att\<rparr>))"
      using g1(1,4) rd assms(4) len r unfolding r_def
      by (cases "i = 0") (auto simp: g_attrib_send_def cb_def [symmetric] split: prod.splits if_splits)
    with g1 r show ?thesis unfolding r_def [symmetric] by (auto simp: cb_def)
  next
    case False
    then have "g_attrib_send A (Ptr g) i (Ptr p) len func u notify =
        Some (rid, Ptr (g1\<lparr>ga_att := att, ga_cbs := (ga_cbs g1)(ga_brk g \<mapsto> cb\<lparr>cb_id := rid\<rparr>),
                           ga_track_ids := ids'\<rparr>))"
      using g1(1,3,4) rd assms(4) len r ids' unfolding r_def
      by (cases "i = 0") (auto simp: g_attrib_send_def cb_def [symmetric] split: prod.splits if_splits)
    moreover have "a < ga_brk g1" if "ga_cbs g a = Some y" for a y
      using that g1(2) assms(1) by (auto simp: wf_gattrib_def)
    ultimately show ?thesis using g1 r ids'(2) unfolding r_def [symmetric]
      by (auto simp: cb_def wf_gattrib_def)
  qed
qed

text \<open>Without a function and a destroy function no record is made; every branch keeps the invariant.\<close>

lemma send_kept:
  assumes "wf_gattrib g cs" "unat len \<le> length p"
  shows "\<exists>rid g'. g_attrib_send A (Ptr g) i (Ptr p) len func u notify = Some (rid, Ptr g') \<and>
    wf_gattrib g' (if len \<noteq> 0 \<and> (func \<noteq> NULL \<or> notify \<noteq> NULL) then ga_brk g # cs else cs)"
proof (cases "len = 0")
  case True
  then show ?thesis using assms(1) by (simp add: g_attrib_send_def)
next
  case False
  then have l: "0 < len" "1 \<le> unat len" by (auto simp: word_neq_0_conv Suc_le_eq unat_gt_0)
  show ?thesis
  proof (cases "func \<noteq> NULL \<or> notify \<noteq> NULL")
    case True
    with send_wf [OF assms(1) l(1) assms(2), of func notify A i u] False show ?thesis by auto
  next
    case plain: False
    have u1: "unat (len - 1) = unat len - 1" using l by (simp add: unat_minus_le word_le_nat_alt)
    have "rd8 p 0 = Some (p ! 0)" "rd p 1 (unat (len - 1)) = Some (take (unat len - 1) (drop 1 p))"
      using assms(2) l(2) by (auto simp: rd8_def rd_def u1)
    then show ?thesis using plain False assms(1)
      by (cases "i = 0") (auto simp: g_attrib_send_def push_callbacks_def Let_def split: prod.split)
  qed
qed

text \<open>The identifier of an accepted request with a record goes to the end of the tracked ones.\<close>

lemma send_tracks:
  assumes "g_attrib_send A (Ptr g) i (Ptr p) len func u notify = Some (rid, Ptr g')" "rid \<noteq> 0" "wf_gattrib g cs"
    "func \<noteq> NULL \<or> notify \<noteq> NULL" "queue_rep (ga_track_ids g) ids"
  shows "queue_rep (ga_track_ids g') (ids @ [Ptr rid])"
proof -
  define cb where "cb = \<lparr>cb_id = 0, cb_result_func = func, cb_notify_func = NULL, cb_destroy_func = notify,
               cb_user_data = u, cb_notify_handle = 0\<rparr>"
  obtain g1 where g1: "push_callbacks cb True g = Some (Ptr (ga_brk g), g1)" "ga_track_ids g1 = ga_track_ids g"
    using push_callbacks_wf [OF assms(3), of cb] by auto
  obtain Q where Q: "queue_push_tail (ga_track_ids g) (Ptr rid) = Some (True, Q)" "queue_rep Q (ids @ [Ptr rid])"
    using rep_push_tail [OF assms(5)] by blast
  have "len \<noteq> 0" using assms(1,2) by (auto simp: g_attrib_send_def)
  then have "ga_track_ids g' = Q" using assms(1,2,4) g1 Q(1)
    by (cases "i = 0") (auto simp: g_attrib_send_def cb_def [symmetric] bind_eq_Some_conv Let_def case_prod_beta
        split: if_split_asm)
  with Q(2) show ?thesis by simp
qed

lemma register_wf:
  assumes "wf_gattrib g cs"
  shows "\<exists>rid g' cs'. g_attrib_register A (Ptr g) opcode h func u notify = Some (rid, Ptr g') \<and>
    wf_gattrib g' cs' \<and> cs' = (if func \<noteq> NULL \<or> notify \<noteq> NULL then ga_brk g # cs else cs) \<and> ga_ref g' = ga_ref g"
proof (cases "func \<noteq> NULL \<or> notify \<noteq> NULL")
  case True
  then show ?thesis
    using push_callbacks_wf [OF assms, of "\<lparr>cb_id = 0, cb_result_func = NULL, cb_notify_func = func,
      cb_destroy_func = notify, cb_user_data = u, cb_notify_handle = h\<rparr>"]
    by (auto simp: g_attrib_register_def Let_def split: prod.splits)
next
  case False
  then show ?thesis using assms
    by (auto simp: g_attrib_register_def push_callbacks_def Let_def split: prod.splits)
qed

section \<open>Cancelling\<close>

text \<open>
  What the transport owes its caller: a destroy function runs once, on a record the caller
  registered and that is still live.  \<open>names_live A cs\<close> says it of the four operations that run
  destroy functions, for the live records \<open>cs\<close>.
\<close>

definition names_live :: "'a bt_att_ops \<Rightarrow> 'a \<Rightarrow> nat list \<Rightarrow> bool" where
  "names_live A att cs \<longleftrightarrow>
     (\<forall>i. distinct (fst (snd (ba_cancel A att i))) \<and> set (fst (snd (ba_cancel A att i))) \<subseteq> set cs) \<and>
     (\<forall>i. distinct (fst (snd (ba_unregister A att i))) \<and> set (fst (snd (ba_unregister A att i))) \<subseteq> set cs) \<and>
     distinct (fst (snd (ba_unregister_all A att))) \<and> set (fst (snd (ba_unregister_all A att))) \<subseteq> set cs \<and>
     distinct (ba_unref A att) \<and> set (ba_unref A att) \<subseteq> set cs"

lemma cancel_wf:
  assumes "wf_gattrib g cs" "names_live A (ga_att g) cs"
  shows "\<exists>g' cs'. g_attrib_cancel A (Ptr g) i =
      Some (fst (ba_cancel A (ga_att g) i), concat (map (destroy_ev g) (fst (snd (ba_cancel A (ga_att g) i)))), Ptr g') \<and>
    wf_gattrib g' cs' \<and> set cs' = set cs - set (fst (snd (ba_cancel A (ga_att g) i)))"
proof -
  obtain ok as att where c: "ba_cancel A (ga_att g) i = (ok, as, att)" by (cases "ba_cancel A (ga_att g) i")
  with assms(2) have "distinct as" "set as \<subseteq> set cs"
    unfolding names_live_def by (metis fst_conv snd_conv)+
  with remove_each_wf [of "g\<lparr>ga_att := att\<rparr>" cs as] assms(1) c show ?thesis
    by (auto simp: g_attrib_cancel_def)
qed

lemma unregister_wf:
  assumes "wf_gattrib g cs" "names_live A (ga_att g) cs"
  shows "\<exists>g' cs'. g_attrib_unregister A (Ptr g) i = Some (fst (ba_unregister A (ga_att g) i),
      concat (map (destroy_ev g) (fst (snd (ba_unregister A (ga_att g) i)))), Ptr g') \<and>
    wf_gattrib g' cs' \<and> set cs' = set cs - set (fst (snd (ba_unregister A (ga_att g) i)))"
proof -
  obtain ok as att where c: "ba_unregister A (ga_att g) i = (ok, as, att)" by (cases "ba_unregister A (ga_att g) i")
  with assms(2) have "distinct as" "set as \<subseteq> set cs"
    unfolding names_live_def by (metis fst_conv snd_conv)+
  with remove_each_wf [of "g\<lparr>ga_att := att\<rparr>" cs as] assms(1) c show ?thesis
    by (auto simp: g_attrib_unregister_def)
qed

lemma unregister_all_wf:
  assumes "wf_gattrib g cs" "names_live A (ga_att g) cs"
  shows "\<exists>g' cs'. g_attrib_unregister_all A (Ptr g) = Some (fst (ba_unregister_all A (ga_att g)),
      concat (map (destroy_ev g) (fst (snd (ba_unregister_all A (ga_att g))))), Ptr g') \<and>
    wf_gattrib g' cs' \<and> set cs' = set cs - set (fst (snd (ba_unregister_all A (ga_att g))))"
proof -
  obtain ok as att where c: "ba_unregister_all A (ga_att g) = (ok, as, att)" by (cases "ba_unregister_all A (ga_att g)")
  with assms(2) have "distinct as" "set as \<subseteq> set cs" unfolding names_live_def by auto
  with remove_each_wf [of "g\<lparr>ga_att := att\<rparr>" cs as] assms(1) c show ?thesis
    by (auto simp: g_attrib_unregister_all_def)
qed

text \<open>
  \<open>g_attrib_cancel_all\<close> cancels the tracked identifiers one after another: each cancellation must run
  destroy functions on records that are live then.
\<close>

definition id_of :: "u32 ptr \<Rightarrow> u32" where
  "id_of p = (case p of NULL \<Rightarrow> 0 | Ptr i \<Rightarrow> i)"

primrec cancelled :: "'a bt_att_ops \<Rightarrow> u32 ptr list \<Rightarrow> 'a \<Rightarrow> nat list" where
  "cancelled A [] att = []"
| "cancelled A (p # ps) att = (let r = snd (ba_cancel A att (id_of p)) in fst r @ cancelled A ps (snd r))"

lemma cancel_all_wf:
  fixes g :: "('f, 'u, 'a) gattrib"
  assumes "wf_gattrib g cs" "queue_rep (ga_track_ids g) ids" "distinct (cancelled A ids (ga_att g))"
    "set (cancelled A ids (ga_att g)) \<subseteq> set cs"
  shows "\<exists>g' cs'. g_attrib_cancel_all A (Ptr g) = Some (True, concat (map (destroy_ev g) (cancelled A ids (ga_att g))), Ptr g') \<and>
    wf_gattrib g' cs' \<and> set cs' = set cs - set (cancelled A ids (ga_att g)) \<and> queue_rep (ga_track_ids g') []"
proof -
  let ?c = "cancelled A ids (ga_att g)"
  define R :: "u32 ptr list \<Rightarrow> ('f, 'u) event list \<times> ('f, 'u, 'a) gattrib \<Rightarrow> bool" where
    "R es s \<longleftrightarrow> (\<exists>cs' d. wf_gattrib (snd s) cs' \<and> ?c = d @ cancelled A es (ga_att (snd s)) \<and>
       fst s = concat (map (destroy_ev g) d) \<and> set cs' = set cs - set d \<and> (\<forall>a\<in>set cs'. ga_cbs (snd s) a = ga_cbs g a))" for es s
  have step: "\<exists>u'. cancel_request A p (q, u) = Some (q, u') \<and> R es u'" if r: "R (p # es) u" for q p es u
  proof -
    obtain evs h where u: "u = (evs, h)" by (cases u)
    obtain ok as att where c: "ba_cancel A (ga_att h) (id_of p) = (ok, as, att)" by (cases "ba_cancel A (ga_att h) (id_of p)")
    obtain cs1 d where cs1: "wf_gattrib h cs1" "?c = d @ as @ cancelled A es att" "evs = concat (map (destroy_ev g) d)"
      "set cs1 = set cs - set d" "\<forall>a\<in>set cs1. ga_cbs h a = ga_cbs g a" using r u c by (auto simp: R_def)
    have as: "distinct as" "set as \<subseteq> set cs1" using assms(3,4) cs1(2,4) by auto
    obtain h' cs' where h': "remove_each as (h\<lparr>ga_att := att\<rparr>) = Some (concat (map (destroy_ev h) as), h')"
      "wf_gattrib h' cs'" "set cs' = set cs1 - set as" "ga_att h' = att" "\<forall>a\<in>set cs'. ga_cbs h' a = ga_cbs h a"
      using remove_each_att [of "h\<lparr>ga_att := att\<rparr>" cs1 as] cs1(1) as by auto
    have "concat (map (destroy_ev h) as) = concat (map (destroy_ev g) as)"
      using as(2) cs1(5) by (intro arg_cong [of _ _ concat] map_cong) (auto simp: destroy_ev_def)
    then have "cancel_request A p (q, u) = Some (q, concat (map (destroy_ev g) (d @ as)), h')"
      using u c h'(1) cs1(3) by (simp add: cancel_request_def id_of_def)
    moreover have "R es (concat (map (destroy_ev g) (d @ as)), h')"
      unfolding R_def using h'(2-5) cs1(2,4,5) by (intro exI [of _ cs'] exI [of _ "d @ as"]) auto
    ultimately show ?thesis by blast
  qed
  have "R ids ([], g)" using assms(1) unfolding R_def by (intro exI [of _ cs] exI [of _ "[]"]) simp
  then obtain evs g1 where 1: "R [] (evs, g1)"
    "queue_foreach (ga_track_ids g) (Ptr (cancel_request A)) ([], g) = Some (ga_track_ids g, evs, g1)"
    using rep_foreach_inv [of "ga_track_ids g" ids R "cancel_request A" "([], g)"] assms(2) step by auto
  obtain Q where Q: "queue_remove_all (ga_track_ids g) NULL NULL NULL () = Some (of_nat (length ids), Q, ())" "queue_rep Q []"
    using rep_remove_all [OF assms(2), of NULL NULL "()"] by auto
  obtain cs' where "wf_gattrib g1 cs'" "set cs' = set cs - set ?c" "evs = concat (map (destroy_ev g) ?c)"
    using 1(1) by (auto simp: R_def)
  moreover from this have "wf_gattrib (g1\<lparr>ga_track_ids := Q\<rparr>) cs'" using Q(2) by (auto simp: wf_gattrib_def)
  ultimately show ?thesis using 1(2) Q by (intro exI [of _ "g1\<lparr>ga_track_ids := Q\<rparr>"] exI [of _ cs'])
    (simp add: g_attrib_cancel_all_def)
qed

section \<open>Destruction\<close>

lemma fold_destroy:
  assumes "distinct cs" "set cs \<subseteq> dom m" "\<forall>a\<in>set cs. m a = ga_cbs g a"
  shows "\<exists>m'. fold attrib_callbacks_destroy (map Ptr cs) (Some (evs, m)) =
    Some (evs @ concat (map (destroy_ev g) cs), m')"
  using assms
proof (induction cs arbitrary: evs m)
  case (Cons a cs)
  then obtain cb where cb: "m a = Some cb" "ga_cbs g a = Some cb" by auto
  have s: "attrib_callbacks_destroy (Ptr a) (Some (evs, m)) = Some (evs @ destroy_ev g a, m(a := None))"
    using cb by (auto simp: attrib_callbacks_destroy_def destroy_ev_def Let_def split: ptr.splits)
  define m1 where "m1 = m(a := None)"
  have "set cs \<subseteq> dom m1" "\<forall>b\<in>set cs. m1 b = ga_cbs g b"
    using Cons.prems by (auto simp: m1_def)
  from Cons.IH [OF _ this, of "evs @ destroy_ev g a"] Cons.prems(1) s show ?case
    by (auto simp: m1_def [symmetric])
qed simp

lemma unref_last:
  assumes "wf_gattrib g cs" "ga_ref g = 1" "distinct as" "set as \<subseteq> set cs" "ba_unref A (ga_att g) = as"
  shows "\<exists>cs'. mset cs' = mset cs - mset as \<and> g_attrib_unref A (Ptr g) =
    Some ((case ga_destroy g of NULL \<Rightarrow> [] | Ptr f \<Rightarrow> [CallDestroy f (ga_destroy_user_data g)]) @
          concat (map (destroy_ev g) as) @ concat (map (destroy_ev g) cs'), NULL)"
proof -
  let ?g = "g\<lparr>ga_ref := 0\<rparr>"
  obtain g1 cs1 where g1: "remove_each as ?g = Some (concat (map (destroy_ev g) as), g1)"
    "wf_gattrib g1 cs1" "set cs1 = set cs - set as" "\<forall>a\<in>set cs1. ga_cbs g1 a = ga_cbs g a"
    using remove_each_wf [of ?g cs as] assms by auto
  have d: "distinct cs1" "distinct cs" using g1(2) assms(1) by (auto simp: wf_gattrib_def)
  have m: "mset cs1 = mset cs - mset as"
    using g1(3) d assms(3,4) by (simp add: mset_set_set [symmetric] mset_set_Diff)
  obtain m' where f: "fold attrib_callbacks_destroy (map Ptr cs1) (Some ([], ga_cbs g1)) =
      Some ([] @ concat (map (destroy_ev g1) cs1), m')"
    using fold_destroy [of cs1 "ga_cbs g1" g1 "[]"] d g1(2) by (auto simp: wf_gattrib_def)
  have e: "concat (map (destroy_ev g1) cs1) = concat (map (destroy_ev g) cs1)"
    using g1(4) by (intro arg_cong [of _ _ concat] map_cong) (auto simp: destroy_ev_def)
  have q: "queue_destroy (ga_callbacks g1) (Ptr attrib_callbacks_destroy) (Some ([], ga_cbs g1)) =
      Some (NULL, Some (concat (map (destroy_ev g) cs1), m'))"
    using rep_destroy [of "ga_callbacks g1" "map Ptr cs1" "Ptr attrib_callbacks_destroy" "Some ([], ga_cbs g1)"] g1(2) f e
    by (simp add: wf_gattrib_def destroy_all_def)
  obtain ids where "queue_rep (ga_track_ids g1) ids" using g1(2) by (auto simp: wf_gattrib_def)
  then have t: "queue_destroy (ga_track_ids g1) NULL () = Some (NULL, ())"
    using rep_destroy [of "ga_track_ids g1" ids NULL "()"] by (simp add: destroy_all_def)
  show ?thesis using g1(1) q t m assms(2,5)
    by (intro exI [of _ cs1]) (simp add: g_attrib_unref_def Let_def cong: ptr.case_cong)
qed

lemma unref_all:
  assumes "wf_gattrib g cs" "names_live A (ga_att g) cs" "ga_ref g = 1"
  shows "\<exists>cs'. mset (ba_unref A (ga_att g) @ cs') = mset cs \<and> g_attrib_unref A (Ptr g) =
    Some ((case ga_destroy g of NULL \<Rightarrow> [] | Ptr f \<Rightarrow> [CallDestroy f (ga_destroy_user_data g)]) @
          concat (map (destroy_ev g) (ba_unref A (ga_att g) @ cs')), NULL)"
proof -
  let ?as = "ba_unref A (ga_att g)"
  have l: "distinct ?as" "set ?as \<subseteq> set cs" using assms(2) by (simp_all add: names_live_def)
  then have "mset ?as \<subseteq># mset cs"
    using assms(1) unfolding wf_gattrib_def by (metis finite_set mset_set_set subset_imp_msubset_mset_set)
  moreover obtain cs' where "mset cs' = mset cs - mset ?as" "g_attrib_unref A (Ptr g) =
      Some ((case ga_destroy g of NULL \<Rightarrow> [] | Ptr f \<Rightarrow> [CallDestroy f (ga_destroy_user_data g)]) @
            concat (map (destroy_ev g) ?as) @ concat (map (destroy_ev g) cs'), NULL)"
    using unref_last [OF assms(1,3) l refl] by blast
  ultimately show ?thesis by (intro exI [of _ cs']) simp
qed

section \<open>The buffer\<close>

lemma length_g_realloc [simp]: "length (g_realloc junk b n) = n"
  by (simp add: g_realloc_def)

lemma get_buffer_wf:
  assumes "wf_gattrib g cs"
  shows "\<exists>b g'. g_attrib_get_buffer A junk (Ptr g) = (Ptr (b, ucast (ba_get_mtu A (ga_att g))), Ptr g') \<and>
    unat (ba_get_mtu A (ga_att g)) \<le> length b \<and> wf_gattrib g' cs \<and> ga_att g' = ga_att g \<and>
    ga_cbs g' = ga_cbs g \<and> ga_ref g' = ga_ref g"
proof -
  define k where "k = unat (ba_get_mtu A (ga_att g))"
  have u: "uint (ba_get_mtu A (ga_att g)) = int k" by (simp add: k_def)
  show ?thesis using assms
    by (auto simp: g_attrib_get_buffer_def wf_gattrib_def Let_def k_def [symmetric] u)
qed

lemma set_mtu_wf:
  assumes "wf_gattrib g cs"
  shows "\<exists>ok g'. g_attrib_set_mtu A junk (Ptr g) mtu = (ok, Ptr g') \<and> wf_gattrib g' cs"
  using assms by (auto simp: g_attrib_set_mtu_def wf_gattrib_def Let_def split: prod.splits)

section \<open>Properties\<close>

text \<open>
  C34: The records of registered callbacks are never lost, freed twice or used after they are freed:
  creating the object, taking and dropping a reference, setting the destroy function, sending a request
  (in every branch, whether or not the transport takes it), cancelling one request or all tracked ones,
  registering and unregistering one handler or all, asking for the buffer and changing the MTU are
  defined and keep the invariant that the queue holds exactly the live records, each once, provided the
  transport runs destroy functions on live records only (\<open>names_live\<close>, and for
  \<open>g_attrib_cancel_all\<close> the same of the records \<open>cancelled\<close> one identifier after another; it leaves no
  identifier tracked); dropping the last
  reference destroys every live record, once.
\<close>

theorem gattrib_invariant:
  assumes "wf_gattrib g cs" "names_live A (ga_att g) cs"
  shows "(g_attrib_new A io mtu ext mem u0 = Ptr g0 \<longrightarrow> wf_gattrib g0 []) \<and>
    (\<exists>g'. g_attrib_ref (Ptr g) = Ptr g' \<and> wf_gattrib g' cs) \<and>
    (\<exists>g'. g_attrib_set_destroy_function (Ptr g) func u = (True, Ptr g') \<and> wf_gattrib g' cs) \<and>
    (unat len \<le> length p \<longrightarrow>
       (\<exists>rid g'. g_attrib_send A (Ptr g) i (Ptr p) len func u notify = Some (rid, Ptr g') \<and>
          wf_gattrib g' (if len \<noteq> 0 \<and> (func \<noteq> NULL \<or> notify \<noteq> NULL) then ga_brk g # cs else cs))) \<and>
    (\<exists>evs g' cs'. g_attrib_cancel A (Ptr g) i = Some (fst (ba_cancel A (ga_att g) i), evs, Ptr g') \<and>
       wf_gattrib g' cs' \<and> set cs' = set cs - set (fst (snd (ba_cancel A (ga_att g) i)))) \<and>
    (queue_rep (ga_track_ids g) ids \<and> distinct (cancelled A ids (ga_att g)) \<and>
       set (cancelled A ids (ga_att g)) \<subseteq> set cs \<longrightarrow>
       (\<exists>g' cs'. g_attrib_cancel_all A (Ptr g) =
            Some (True, concat (map (destroy_ev g) (cancelled A ids (ga_att g))), Ptr g') \<and> wf_gattrib g' cs' \<and>
          set cs' = set cs - set (cancelled A ids (ga_att g)) \<and> queue_rep (ga_track_ids g') [])) \<and>
    (\<exists>rid g'. g_attrib_register A (Ptr g) opcode h func u notify = Some (rid, Ptr g') \<and>
       wf_gattrib g' (if func \<noteq> NULL \<or> notify \<noteq> NULL then ga_brk g # cs else cs)) \<and>
    (\<exists>evs g' cs'. g_attrib_unregister A (Ptr g) i = Some (fst (ba_unregister A (ga_att g) i), evs, Ptr g') \<and>
       wf_gattrib g' cs' \<and> set cs' = set cs - set (fst (snd (ba_unregister A (ga_att g) i)))) \<and>
    (\<exists>evs g' cs'. g_attrib_unregister_all A (Ptr g) = Some (fst (ba_unregister_all A (ga_att g)), evs, Ptr g') \<and>
       wf_gattrib g' cs' \<and> set cs' = set cs - set (fst (snd (ba_unregister_all A (ga_att g))))) \<and>
    (\<exists>b n g'. g_attrib_get_buffer A junk (Ptr g) = (Ptr (b, n), Ptr g') \<and> unat n \<le> length b \<and> wf_gattrib g' cs) \<and>
    (\<exists>ok g'. g_attrib_set_mtu A junk (Ptr g) m = (ok, Ptr g') \<and> wf_gattrib g' cs) \<and>
    (ga_ref g \<noteq> 1 \<longrightarrow> (\<exists>g'. g_attrib_unref A (Ptr g) = Some ([], Ptr g') \<and> wf_gattrib g' cs)) \<and>
    (ga_ref g = 1 \<longrightarrow> (\<exists>cs'. mset (ba_unref A (ga_att g) @ cs') = mset cs \<and> g_attrib_unref A (Ptr g) =
       Some ((case ga_destroy g of NULL \<Rightarrow> [] | Ptr f \<Rightarrow> [CallDestroy f (ga_destroy_user_data g)]) @
             concat (map (destroy_ev g) (ba_unref A (ga_att g) @ cs')), NULL)))"
proof (intro conjI impI)
  show "wf_gattrib g0 []" if "g_attrib_new A io mtu ext mem u0 = Ptr g0"
    using new_wf [OF that] by simp
  show "\<exists>rid g'. g_attrib_send A (Ptr g) i (Ptr p) len func u notify = Some (rid, Ptr g') \<and>
      wf_gattrib g' (if len \<noteq> 0 \<and> (func \<noteq> NULL \<or> notify \<noteq> NULL) then ga_brk g # cs else cs)" if "unat len \<le> length p"
    by (rule send_kept [OF assms(1) that])
  show "\<exists>g' cs'. g_attrib_cancel_all A (Ptr g) =
        Some (True, concat (map (destroy_ev g) (cancelled A ids (ga_att g))), Ptr g') \<and> wf_gattrib g' cs' \<and>
      set cs' = set cs - set (cancelled A ids (ga_att g)) \<and> queue_rep (ga_track_ids g') []"
    if "queue_rep (ga_track_ids g) ids \<and> distinct (cancelled A ids (ga_att g)) \<and> set (cancelled A ids (ga_att g)) \<subseteq> set cs"
    using cancel_all_wf [OF assms(1)] that by blast
  show "\<exists>rid g'. g_attrib_register A (Ptr g) opcode h func u notify = Some (rid, Ptr g') \<and>
      wf_gattrib g' (if func \<noteq> NULL \<or> notify \<noteq> NULL then ga_brk g # cs else cs)"
    using register_wf [OF assms(1)] by blast
  show "\<exists>b n g'. g_attrib_get_buffer A junk (Ptr g) = (Ptr (b, n), Ptr g') \<and> unat n \<le> length b \<and> wf_gattrib g' cs"
    using get_buffer_wf [OF assms(1), of A junk] by (force simp: unsigned_ucast_eq)
  show "\<exists>cs'. mset (ba_unref A (ga_att g) @ cs') = mset cs \<and> g_attrib_unref A (Ptr g) =
      Some ((case ga_destroy g of NULL \<Rightarrow> [] | Ptr f \<Rightarrow> [CallDestroy f (ga_destroy_user_data g)]) @
            concat (map (destroy_ev g) (ba_unref A (ga_att g) @ cs')), NULL)" if "ga_ref g = 1"
    using unref_all [OF assms that] .
qed (use cancel_wf [OF assms, of i] unregister_wf [OF assms, of i] unregister_all_wf [OF assms] set_mtu_wf [OF assms(1)] assms(1)
    in \<open>auto simp: g_attrib_ref_def g_attrib_set_destroy_function_def g_attrib_unref_def Let_def wf_gattrib_def\<close>)

text \<open>
  A transport for the examples: it takes every request and numbers them, and never runs a destroy
  function by itself.
\<close>

definition counting_att :: "nat bt_att_ops" where
  "counting_att = \<lparr>ba_new = \<lambda>_ _. Ptr 0, ba_set_mtu = \<lambda>a m. (23 \<le> m, a), ba_get_mtu = \<lambda>_. 23,
     ba_send = \<lambda>a _ _ _. (of_nat (Suc a), Suc a), ba_resend = \<lambda>a _ _ _ _. (0, a),
     ba_cancel = \<lambda>a _. (False, [], a), ba_register = \<lambda>a _ _. (of_nat (Suc a), Suc a),
     ba_unregister = \<lambda>a _. (False, [], a), ba_unregister_all = \<lambda>a. (True, [], a), ba_unref = \<lambda>_. []\<rparr>"

definition fresh_gattrib :: "(nat, nat, nat) gattrib" where
  "fresh_gattrib = \<lparr>ga_ref = 1, ga_att = 0, ga_io = 3, ga_destroy = NULL, ga_destroy_user_data = 0,
     ga_callbacks = queue_new, ga_buf = replicate 23 0, ga_buflen = 23, ga_track_ids = queue_new,
     ga_cbs = Map.empty, ga_brk = 0\<rparr>"

lemma wf_fresh: "wf_gattrib fresh_gattrib []"
  by (auto simp: wf_gattrib_def fresh_gattrib_def intro!: exI [of _ "[]"] rep_new)

text \<open>The same transport, which runs the destroy function of the request it cancels: request \<open>n + 1\<close> is record \<open>n\<close>.\<close>

definition cancelling_att :: "nat bt_att_ops" where
  "cancelling_att = counting_att\<lparr>ba_cancel := \<lambda>a i. if 0 < i \<and> unat i = a then (True, [a - 1], a - 1) else (False, [], a)\<rparr>"

theorem gattrib_invariant_witness:
  "\<exists>rid g1. g_attrib_send cancelling_att (Ptr fresh_gattrib) 0 (Ptr [0x0A, 3, 0]) 3 (Ptr 1) 7 NULL = Some (rid, Ptr g1) \<and>
     wf_gattrib g1 [0] \<and>
     (\<exists>evs g2. g_attrib_cancel cancelling_att (Ptr g1) 1 = Some (True, evs, Ptr g2) \<and> wf_gattrib g2 []) \<and>
     (\<exists>evs g2. g_attrib_cancel_all cancelling_att (Ptr g1) = Some (True, evs, Ptr g2) \<and> wf_gattrib g2 [] \<and>
        queue_rep (ga_track_ids g2) [])"
proof -
  have f: "ga_brk fresh_gattrib = 0" "ga_att fresh_gattrib = 0" "queue_rep (ga_track_ids fresh_gattrib) []"
    by (simp_all add: fresh_gattrib_def rep_new)
  obtain rid g1 where g1: "g_attrib_send cancelling_att (Ptr fresh_gattrib) 0 (Ptr [0x0A, 3, 0]) 3 (Ptr 1) 7 NULL = Some (rid, Ptr g1)"
    "wf_gattrib g1 [0]" "rid = 1" "ga_att g1 = 1"
    using send_wf [OF wf_fresh, of 3 "[0x0A, 3, 0]" "Ptr 1" NULL cancelling_att 0 7]
    by (auto simp: f cancelling_att_def counting_att_def)
  have ids: "queue_rep (ga_track_ids g1) [Ptr 1]" using send_tracks [OF g1(1) _ wf_fresh _ f(3)] g1(3) by simp
  have n: "names_live cancelling_att (ga_att g1) [0]" by (simp add: g1(4) names_live_def cancelling_att_def counting_att_def)
  note I = gattrib_invariant [OF g1(2) n, where ids = "[Ptr 1]" and i = 1]
  have c: "ba_cancel cancelling_att (ga_att g1) 1 = (True, [0], 0)" by (simp add: g1(4) cancelling_att_def)
  then have d: "cancelled cancelling_att [Ptr 1] (ga_att g1) = [0]" by (simp add: id_of_def)
  show ?thesis using g1(1,2) I ids unfolding c d by fastforce
qed

lemma mset_concat_map: "mset (concat (map f xs)) = (\<Sum>x\<in>#mset xs. mset (f x))"
  by (induction xs) auto

text \<open>
  Dropping the last reference runs every client destroy function exactly once: the object's
  own, then those of the records the transport still held, then those left in the queue; and it
  frees everything.
\<close>

theorem unref_destroys_once:
  assumes "wf_gattrib g cs" "ga_ref g = 1" "names_live A (ga_att g) cs"
  shows "\<exists>evs. g_attrib_unref A (Ptr g) = Some (evs, NULL) \<and>
    mset evs = (case ga_destroy g of NULL \<Rightarrow> {#} | Ptr f \<Rightarrow> {#CallDestroy f (ga_destroy_user_data g)#}) +
      mset (concat (map (destroy_ev g) cs))"
proof -
  have n: "distinct (ba_unref A (ga_att g))" "set (ba_unref A (ga_att g)) \<subseteq> set cs"
    using assms(3) by (simp_all add: names_live_def)
  obtain cs' where cs': "mset cs' = mset cs - mset (ba_unref A (ga_att g))"
    "g_attrib_unref A (Ptr g) =
      Some ((case ga_destroy g of NULL \<Rightarrow> [] | Ptr f \<Rightarrow> [CallDestroy f (ga_destroy_user_data g)]) @
          concat (map (destroy_ev g) (ba_unref A (ga_att g))) @ concat (map (destroy_ev g) cs'), NULL)"
    using unref_last [OF assms(1,2) n refl] by blast
  have "mset (ba_unref A (ga_att g)) \<subseteq># mset cs"
    using n assms(1) unfolding wf_gattrib_def
    by (metis finite_set mset_set_set subset_imp_msubset_mset_set)
  then have "mset (ba_unref A (ga_att g)) + mset cs' = mset cs" using cs'(1) by simp
  then have "mset (concat (map (destroy_ev g) cs)) =
      mset (concat (map (destroy_ev g) (ba_unref A (ga_att g)))) + mset (concat (map (destroy_ev g) cs'))"
    unfolding mset_concat_map by (metis image_mset_union sum_mset.union)
  note E = this
  show ?thesis unfolding cs'(2) E
    by (rule exI, rule conjI, rule refl, cases "ga_destroy g") (simp_all only: ptr.case mset_append, simp_all)
qed


theorem unref_destroys_once_witness:
  "\<exists>evs. g_attrib_unref counting_att (Ptr fresh_gattrib) = Some (evs, NULL) \<and> mset evs = {#}"
  using unref_destroys_once [OF wf_fresh, of counting_att]
  by (simp add: names_live_def counting_att_def fresh_gattrib_def)

text \<open>
  The buffer handed to clients always has room for as many bytes as the length it comes with,
  which is the transport's MTU, also after the MTU was lowered, raised, or set to a value the
  transport refused.
\<close>

theorem buffer_holds_mtu:
  assumes "wf_gattrib g cs"
  shows "\<exists>ok g1 b g2. g_attrib_set_mtu A junk (Ptr g) m = (ok, Ptr g1) \<and>
    g_attrib_get_buffer A junk (Ptr g1) = (Ptr (b, ucast (ba_get_mtu A (ga_att g1))), Ptr g2) \<and>
    unat (ba_get_mtu A (ga_att g1)) \<le> length b \<and> wf_gattrib g2 cs"
proof -
  obtain ok g1 where g1: "g_attrib_set_mtu A junk (Ptr g) m = (ok, Ptr g1)" "wf_gattrib g1 cs"
    using set_mtu_wf [OF assms] by blast
  from get_buffer_wf [OF g1(2), of A junk] g1(1) show ?thesis by blast
qed

theorem buffer_holds_mtu_witness:
  "\<exists>ok g1 b g2. g_attrib_set_mtu counting_att (\<lambda>_. 0) (Ptr fresh_gattrib) 10 = (ok, Ptr g1) \<and>
    g_attrib_get_buffer counting_att (\<lambda>_. 0) (Ptr g1) = (Ptr (b, ucast (ba_get_mtu counting_att (ga_att g1))), Ptr g2) \<and>
    unat (ba_get_mtu counting_att (ga_att g1)) \<le> length b \<and> wf_gattrib g2 []"
  by (rule buffer_holds_mtu [OF wf_fresh])

lemma construct_full_pdu_ok:
  "length p = unat len \<Longrightarrow> construct_full_pdu True opcode (Ptr p) len = Some (Ptr (opcode # p))"
  by (cases "len = 0")
     (auto simp: construct_full_pdu_def wr8_def rd_def wr_def)

text \<open>
  The client's result function gets the whole PDU back, the opcode in front of the parameters
  the transport passes, with its length, and the status: 0 for a response, the error code of an
  Error Response, and Unlikely Error for an error the transport reports without parameters, as it
  does when the link goes down.
\<close>

theorem result_callback_gets_pdu:
  assumes "ga_cbs g a = Some cb" "cb_result_func cb = Ptr f" "length p = unat len"
  shows "attrib_callback_result True opcode (Ptr p) len (Ptr a) g =
      Some [CallResult f (if opcode = ATT_OP_ERROR then if len < 4 then ATT_ECODE_UNLIKELY else p ! 3 else 0)
              (opcode # p) (len + 1) (cb_user_data cb)] \<and>
    attrib_callback_result True ATT_OP_ERROR NULL 0 (Ptr a) g =
      Some [CallResult f ATT_ECODE_UNLIKELY [ATT_OP_ERROR] 1 (cb_user_data cb)]"
  using assms
  by (auto simp: attrib_callback_result_def construct_full_pdu_ok rd8_def word_less_nat_alt)
     (simp add: construct_full_pdu_def wr8_def)

theorem result_callback_gets_pdu_witness:
  "attrib_callback_result True 1 (Ptr [0x0A, 3, 0, 0x05]) 4 (Ptr 0)
     (fresh_gattrib\<lparr>ga_cbs := [0 \<mapsto> \<lparr>cb_id = 1, cb_result_func = Ptr 8, cb_notify_func = NULL,
        cb_destroy_func = NULL, cb_user_data = 9, cb_notify_handle = 0\<rparr>]\<rparr>) =
     Some [CallResult 8 5 [1, 0x0A, 3, 0, 5] 5 9]"
  using result_callback_gets_pdu [of "fresh_gattrib\<lparr>ga_cbs := [0 \<mapsto> \<lparr>cb_id = 1, cb_result_func = Ptr 8,
      cb_notify_func = NULL, cb_destroy_func = NULL, cb_user_data = 9, cb_notify_handle = 0\<rparr>]\<rparr>" 0
      "\<lparr>cb_id = 1, cb_result_func = Ptr 8, cb_notify_func = NULL, cb_destroy_func = NULL, cb_user_data = 9,
        cb_notify_handle = 0\<rparr>" 8 "[0x0A, 3, 0, 0x05]" 4 1]
  by simp

text \<open>
  A request the transport refuses is reported as 0, but its callback record stays registered
  with the client's destroy function and data: dropping the last reference to the object later
  calls that function with data the client was told it still owns.
\<close>

theorem refused_send_keeps_callback:
  assumes "wf_gattrib g cs" "ga_ref g = 1" "0 < len" "unat len \<le> length p"
    "\<And>op body cb. ba_send A (ga_att g) op body cb = (0, att')"
    "distinct (ba_unref A att')" "set (ba_unref A att') \<subseteq> set cs"
  shows "\<exists>g' evs. g_attrib_send A (Ptr g) 0 (Ptr p) len func u (Ptr f) = Some (0, Ptr g') \<and>
    g_attrib_unref A (Ptr g') = Some (evs, NULL) \<and> CallDestroy f u \<in> set evs"
proof -
  obtain rid g' cb where s: "g_attrib_send A (Ptr g) 0 (Ptr p) len func u (Ptr f) = Some (rid, Ptr g')"
    "wf_gattrib g' (ga_brk g # cs)" "ga_ref g' = ga_ref g" "rid = 0" "ga_att g' = att'"
    "ga_cbs g' (ga_brk g) = Some cb" "cb_destroy_func cb = Ptr f" "cb_user_data cb = u"
    using send_wf [OF assms(1,3,4), of func "Ptr f" A 0 u] assms(5) by auto
  have r: "ga_ref g' = 1" "distinct (ba_unref A att')" "set (ba_unref A att') \<subseteq> set (ga_brk g # cs)"
    "ba_unref A (ga_att g') = ba_unref A att'"
    using assms(2,6,7) s(3,5) by auto
  obtain cs' where c: "mset cs' = mset (ga_brk g # cs) - mset (ba_unref A att')"
    "g_attrib_unref A (Ptr g') =
      Some ((case ga_destroy g' of NULL \<Rightarrow> [] | Ptr f \<Rightarrow> [CallDestroy f (ga_destroy_user_data g')]) @
          concat (map (destroy_ev g') (ba_unref A att')) @ concat (map (destroy_ev g') cs'), NULL)"
    using unref_last [OF s(2) r] by blast
  have "ga_brk g \<notin> set (ba_unref A att')" using assms(1,7) by (auto simp: wf_gattrib_def)
  then have "ga_brk g \<in># mset cs'" unfolding c(1) by (simp add: in_diff_count)
  then have "ga_brk g \<in> set cs'" by simp
  then have "CallDestroy f u \<in> set (concat (map (destroy_ev g') cs'))"
    using s(6-8) by (auto simp: destroy_ev_def intro!: bexI [of _ "ga_brk g"])
  with s(1,4) c(2) show ?thesis by auto
qed

theorem refused_send_keeps_callback_witness:
  "\<exists>g' evs. g_attrib_send (counting_att\<lparr>ba_send := \<lambda>a _ _ _. (0, a)\<rparr>) (Ptr fresh_gattrib) 0
       (Ptr [0x0A, 3, 0]) 3 (Ptr 1) 7 (Ptr 2) = Some (0, Ptr g') \<and>
     g_attrib_unref (counting_att\<lparr>ba_send := \<lambda>a _ _ _. (0, a)\<rparr>) (Ptr g') = Some (evs, NULL) \<and>
     CallDestroy 2 7 \<in> set evs"
  by (rule refused_send_keeps_callback [OF wf_fresh, where att' = 0])
     (simp_all add: counting_att_def fresh_gattrib_def)

end
