(* ===== verification/Gatt.thy ===== *)
theory Gatt
  imports Att
begin

text \<open>
  \<open>attrib/gatt.c\<close>: the GATT procedures of the client.  A procedure sends a request, and the
  response callback continues it: it decodes the packet, extends the procedure's record, and
  either sends the next request or reports to the caller.

  The procedures use the \<open>GAttrib\<close> object through two operations, the parameter \<open>attrib_ops\<close>:
  \<open>ao_buffer\<close> is \<open>g_attrib_get_buffer\<close> and \<open>ao_send\<close> is \<open>g_attrib_send\<close> with the encoded buffer,
  the length and the response callback.  The callback is a value of \<open>gatt_cb\<close>; the procedure's
  record, which the code passes as \<open>user_data\<close>, is threaded through the model.  A callback step
  returns the record, the transport and, when the code calls the caller's function, the arguments
  of that call.  \<open>mem i\<close> tells whether the allocation for row \<open>i\<close> (\<open>g_try_new0\<close>) succeeds.
\<close>

section \<open>Data\<close>

record gatt_primary =
  prim_uuid :: string
  prim_changed :: bool
  prim_range :: att_range

record gatt_included =
  incl_uuid :: string
  incl_handle :: u16
  incl_range :: att_range

record gatt_char =
  char_uuid :: string
  char_handle :: u16
  char_properties :: u8
  char_value_handle :: u16

record gatt_desc =
  desc_uuid :: string
  desc_handle :: u16
  desc_uuid16 :: u16

text \<open>The list of \<open>discover_primary\<close> holds services or, in a search by UUID, bare ranges.\<close>

datatype prim_item = Primary gatt_primary | Range att_range

datatype gatt_cb =
    PRIMARY_BY_UUID_CB | PRIMARY_ALL_CB
  | RESOLVE_INCLUDED_UUID_CB gatt_included | FIND_INCLUDED_CB
  | CHAR_DISCOVERED_CB | READ_BLOB_HELPER | READ_CHAR_HELPER
  | PREPARE_WRITE_CB | DESC_DISCOVERED_CB | USER_FUNC

record 's attrib_ops =
  ao_buffer :: "'s \<Rightarrow> (buf \<times> size_t) \<times> 's"
  ao_send :: "'s \<Rightarrow> u32 \<Rightarrow> buf ptr \<Rightarrow> u16 \<Rightarrow> gatt_cb \<Rightarrow> (u32 \<times> 's) option"

record discover_primary =
  dp_ref :: int
  dp_id :: u32
  dp_uuid :: bt_uuid
  dp_start :: u16
  dp_primaries :: "prim_item list"

record included_discovery =
  isd_id :: u32
  isd_refs :: int
  isd_err :: u8
  isd_start_handle :: u16
  isd_end_handle :: u16
  isd_includes :: "gatt_included list"

record discover_char =
  dc_ref :: int
  dc_id :: u32
  dc_uuid :: "bt_uuid ptr"
  dc_end :: u16
  dc_start :: u16
  dc_characteristics :: "gatt_char list"

record discover_desc =
  dd_ref :: int
  dd_id :: u32
  dd_uuid :: "bt_uuid ptr"
  dd_start :: u16
  dd_end :: u16
  dd_descriptors :: "gatt_desc list"

record read_long_data =
  rl_buffer :: "buf ptr"
  rl_size :: u16
  rl_handle :: u16
  rl_id :: u32
  rl_ref :: int

record write_long_data =
  lw_handle :: u16
  lw_offset :: u16
  lw_value :: buf
  lw_vlen :: size_t

abbreviation (input) GATT_PRIM_SVC_UUID :: u16 where "GATT_PRIM_SVC_UUID \<equiv> 0x2800"
abbreviation (input) GATT_INCLUDE_UUID :: u16 where "GATT_INCLUDE_UUID \<equiv> 0x2802"
abbreviation (input) GATT_CHARAC_UUID :: u16 where "GATT_CHARAC_UUID \<equiv> 0x2803"

text \<open>\<open>sizeof(primary->uuid)\<close>, and of the other records: \<open>MAX_LEN_UUID_STR + 1\<close>.\<close>

abbreviation (input) UUID_STR_SIZE :: size_t where "UUID_STR_SIZE \<equiv> 38"

section \<open>Reference counts of the procedures\<close>

text \<open>\<open>NULL\<close> as a result is the freed record.\<close>

definition discover_primary_unref :: "discover_primary \<Rightarrow> discover_primary ptr" where
  "discover_primary_unref dp =
     (let dp = dp\<lparr>dp_ref := dp_ref dp - 1\<rparr> in if 0 < dp_ref dp then Ptr dp else NULL)"

definition discover_primary_ref :: "discover_primary \<Rightarrow> discover_primary" where
  "discover_primary_ref dp = dp\<lparr>dp_ref := dp_ref dp + 1\<rparr>"

definition isd_ref :: "included_discovery \<Rightarrow> included_discovery" where
  "isd_ref isd = isd\<lparr>isd_refs := isd_refs isd + 1\<rparr>"

text \<open>The last reference reports to the caller: \<open>isd->cb(err, includes)\<close>, then frees.\<close>

definition isd_unref ::
    "included_discovery \<Rightarrow> included_discovery ptr \<times> (u8 \<times> gatt_included list) option" where
  "isd_unref isd =
     (let isd = isd\<lparr>isd_refs := isd_refs isd - 1\<rparr> in
      if 0 < isd_refs isd then (Ptr isd, None)
      else if isd_err isd \<noteq> 0 then (NULL, Some (isd_err isd, []))
      else (NULL, Some (isd_err isd, isd_includes isd)))"

definition discover_char_unref :: "discover_char \<Rightarrow> discover_char ptr" where
  "discover_char_unref dc =
     (let dc = dc\<lparr>dc_ref := dc_ref dc - 1\<rparr> in if 0 < dc_ref dc then Ptr dc else NULL)"

definition discover_char_ref :: "discover_char \<Rightarrow> discover_char" where
  "discover_char_ref dc = dc\<lparr>dc_ref := dc_ref dc + 1\<rparr>"

definition discover_desc_unref :: "discover_desc \<Rightarrow> discover_desc ptr" where
  "discover_desc_unref dd =
     (let dd = dd\<lparr>dd_ref := dd_ref dd - 1\<rparr> in if 0 < dd_ref dd then Ptr dd else NULL)"

definition discover_desc_ref :: "discover_desc \<Rightarrow> discover_desc" where
  "discover_desc_ref dd = dd\<lparr>dd_ref := dd_ref dd + 1\<rparr>"

section \<open>UUIDs in rows\<close>

definition gatt_put_uuid_le :: "bt_uuid \<Rightarrow> buf \<Rightarrow> buf option" where
  "gatt_put_uuid_le uuid dst =
     (case uuid of
        BT_UUID16 v \<Rightarrow> put_le16 v dst 0
      | _ \<Rightarrow> do { s \<leftarrow> bswap_128 (uuid_u128 uuid) 0; wr dst 0 s })"

text \<open>\<open>type\<close> is 16 (\<open>BT_UUID16\<close>) or 128.\<close>

definition get_uuid128 :: "u8 \<Rightarrow> buf \<Rightarrow> nat \<Rightarrow> bt_uuid option" where
  "get_uuid128 type val i =
     (if type = 16 then do {
        v \<leftarrow> get_le16 val i;
        let uuid16 = snd (bt_uuid16_create v);
        bt_uuid_to_uuid128 uuid16 None }
      else do {
        u128 \<leftarrow> bswap_128 val i;
        Some (snd (bt_uuid128_create u128)) })"

section \<open>Primary services\<close>

definition encode_discover_primary ::
    "u16 \<Rightarrow> u16 \<Rightarrow> bt_uuid ptr \<Rightarrow> buf \<Rightarrow> size_t \<Rightarrow> (u16 \<times> buf ptr) option" where
  "encode_discover_primary start endh uuid pdu len =
     (let prim = snd (bt_uuid16_create GATT_PRIM_SVC_UUID) in
      case uuid of
        NULL \<Rightarrow> enc_read_by_grp_req start endh (Ptr prim) (Ptr pdu) len
      | Ptr u \<Rightarrow> do {
          value \<leftarrow> gatt_put_uuid_le u (replicate 16 0);
          let vlen = bt_uuid_len u;
          enc_find_by_type_req start endh (Ptr prim) value vlen (Ptr pdu) len })"

definition primary_by_uuid_cb ::
    "'s attrib_ops \<Rightarrow> u8 \<Rightarrow> buf \<Rightarrow> u16 \<Rightarrow> discover_primary \<times> 's \<Rightarrow>
       ((discover_primary \<times> 's) \<times> (u8 \<times> prim_item list) option) option" where
  "primary_by_uuid_cb ops status ipdu iplen st =
     (case st of (dp, s) \<Rightarrow>
        let finish = (\<lambda>err dp s. Some ((dp, s), Some (err, dp_primaries dp))) in
        if status \<noteq> 0 then
          finish (if status = ATT_ECODE_ATTR_NOT_FOUND then 0 else status) dp s
        else do {
          ranges \<leftarrow> dec_find_by_type_resp (Ptr ipdu) (ucast iplen);
          if ranges = [] then finish 0 dp s
          else do {
            let dp = dp\<lparr>dp_primaries := dp_primaries dp @ map Range ranges\<rparr>;
            let range = last ranges;
            if rend range = 0xffff then finish 0 dp s
            else if rend range < dp_start dp then finish ATT_ECODE_UNLIKELY dp s
            else do {
              let dp = dp\<lparr>dp_start := rend range + 1\<rparr>;
              let ((buf, buflen), s) = ao_buffer ops s;
              (oplen, buf) \<leftarrow> encode_discover_primary (dp_start dp) 0xffff (Ptr (dp_uuid dp)) buf buflen;
              if oplen = 0 then finish 0 dp s
              else do {
                let dp = discover_primary_ref dp;
                (_, s) \<leftarrow> ao_send ops s (dp_id dp) buf oplen PRIMARY_BY_UUID_CB;
                Some ((dp, s), None) } } } })"

text \<open>The loop over the rows: \<open>False\<close> when an allocation fails.\<close>

primrec collect_primaries ::
    "(nat \<Rightarrow> bool) \<Rightarrow> u8 \<Rightarrow> buf list \<Rightarrow> nat \<Rightarrow> nat \<Rightarrow> u16 \<Rightarrow> prim_item list \<Rightarrow>
       (bool \<times> u16 \<times> prim_item list) option" where
  "collect_primaries mem type ds 0 i endh prims = Some (True, endh, prims)"
| "collect_primaries mem type ds (Suc k) i endh prims = do {
     data \<leftarrow> row ds i;
     start \<leftarrow> get_le16 data 0;
     endh \<leftarrow> get_le16 data 2;
     uuid128 \<leftarrow> get_uuid128 type data 4;
     if \<not> mem i then Some (False, endh, prims)
     else do {
       (_, str) \<leftarrow> bt_uuid_to_string (Ptr uuid128) '''' UUID_STR_SIZE;
       collect_primaries mem type ds k (Suc i) endh
         (prims @ [Primary \<lparr>prim_uuid = str, prim_changed = False, prim_range = \<lparr>rstart = start, rend = endh\<rparr>\<rparr>]) } }"

definition primary_all_cb ::
    "'s attrib_ops \<Rightarrow> (nat \<Rightarrow> bool) \<Rightarrow> u8 \<Rightarrow> buf \<Rightarrow> u16 \<Rightarrow> discover_primary \<times> 's \<Rightarrow>
       ((discover_primary \<times> 's) \<times> (u8 \<times> prim_item list) option) option" where
  "primary_all_cb ops mem status ipdu iplen st =
     (case st of (dp, s) \<Rightarrow>
        let finish = (\<lambda>err dp s. Some ((dp, s), Some (err, dp_primaries dp))) in
        if status \<noteq> 0 then
          finish (if status = ATT_ECODE_ATTR_NOT_FOUND then 0 else status) dp s
        else do {
          list \<leftarrow> dec_read_by_grp_resp (Ptr ipdu) (ucast iplen);
          (case list of
             NULL \<Rightarrow> finish ATT_ECODE_IO dp s
           | Ptr l \<Rightarrow>
               if adl_len l \<noteq> 6 \<and> adl_len l \<noteq> 20 then finish ATT_ECODE_INVALID_PDU dp s
               else do {
                 let type = (if adl_len l = 6 then 16 else 128);
                 (ok, endh, prims) \<leftarrow>
                   collect_primaries mem type (adl_data l) (unat (adl_num l)) 0 0 (dp_primaries dp);
                 let dp = dp\<lparr>dp_primaries := prims\<rparr>;
                 if \<not> ok then finish ATT_ECODE_INSUFF_RESOURCES dp s
                 else if endh < dp_start dp then finish ATT_ECODE_UNLIKELY dp s
                 else do {
                   let dp = dp\<lparr>dp_start := endh + 1\<rparr>;
                   if endh \<noteq> 0xffff then do {
                     let ((buf, buflen), s) = ao_buffer ops s;
                     (oplen, buf) \<leftarrow> encode_discover_primary (dp_start dp) 0xffff NULL buf buflen;
                     let dp = discover_primary_ref dp;
                     (_, s) \<leftarrow> ao_send ops s (dp_id dp) buf oplen PRIMARY_ALL_CB;
                     Some ((dp, s), None) }
                   else finish 0 dp s } }) })"

text \<open>\<open>None\<close> in the second component: the procedure was not started.\<close>

definition gatt_discover_primary ::
    "'s attrib_ops \<Rightarrow> bool \<Rightarrow> bt_uuid ptr \<Rightarrow> 's \<Rightarrow> (u32 \<times> discover_primary option \<times> 's) option" where
  "gatt_discover_primary ops mem uuid s = do {
     let ((buf, buflen), s) = ao_buffer ops s;
     (plen, buf) \<leftarrow> encode_discover_primary 0x0001 0xffff uuid buf buflen;
     if plen = 0 then Some (0, None, s)
     else if \<not> mem then Some (0, None, s)
     else do {
       let dp = \<lparr>dp_ref = 0, dp_id = 0,
                 dp_uuid = (case uuid of NULL \<Rightarrow> BT_UUID_UNSPEC | Ptr u \<Rightarrow> u),
                 dp_start = 0x0001, dp_primaries = []\<rparr>;
       let cb = (case uuid of NULL \<Rightarrow> PRIMARY_ALL_CB | Ptr _ \<Rightarrow> PRIMARY_BY_UUID_CB);
       let dp = discover_primary_ref dp;
       (rid, s) \<leftarrow> ao_send ops s 0 buf plen cb;
       Some (rid, Some (dp\<lparr>dp_id := rid\<rparr>), s) } }"

section \<open>Included services\<close>

text \<open>The query ends by dropping the reference it holds; its own record is the callback's.\<close>

definition resolve_included_uuid_cb ::
    "'s attrib_ops \<Rightarrow> u8 \<Rightarrow> buf \<Rightarrow> u16 \<Rightarrow> gatt_included \<Rightarrow> included_discovery \<times> 's \<Rightarrow>
       (included_discovery \<times> 's) option" where
  "resolve_included_uuid_cb ops status pdu len incl st =
     (case st of (isd, s) \<Rightarrow>
        let finish = (\<lambda>err isd s. Some ((if isd_err isd = 0 then isd\<lparr>isd_err := err\<rparr> else isd), s)) in
        if status \<noteq> 0 then finish status isd s
        else do {
          let ((buf, buflen), s) = ao_buffer ops s;
          (n, buf) \<leftarrow> dec_read_resp (Ptr pdu) (ucast len) (Ptr buf) buflen;
          if n \<noteq> 16 then finish ATT_ECODE_IO isd s
          else do {
            b \<leftarrow> deref buf;
            uuid128 \<leftarrow> get_uuid128 128 b 0;
            (_, str) \<leftarrow> bt_uuid_to_string (Ptr uuid128) '''' UUID_STR_SIZE;
            let isd = isd\<lparr>isd_includes := isd_includes isd @ [incl\<lparr>incl_uuid := str\<rparr>]\<rparr>;
            finish 0 isd s } })"

definition resolve_included_uuid ::
    "'s attrib_ops \<Rightarrow> gatt_included \<Rightarrow> included_discovery \<times> 's \<Rightarrow> (u32 \<times> included_discovery \<times> 's) option" where
  "resolve_included_uuid ops incl st =
     (case st of (isd, s) \<Rightarrow> do {
        let ((buf, buflen), s) = ao_buffer ops s;
        (oplen, buf) \<leftarrow> enc_read_req (rstart (incl_range incl)) (Ptr buf) buflen;
        let isd = isd_ref isd;
        (rid, s) \<leftarrow> ao_send ops s (isd_id isd) buf oplen (RESOLVE_INCLUDED_UUID_CB incl);
        Some (rid, isd, s) })"

definition included_from_buf :: "buf \<Rightarrow> u16 \<Rightarrow> gatt_included option" where
  "included_from_buf buf len = do {
     h \<leftarrow> get_le16 buf 0;
     st \<leftarrow> get_le16 buf 2;
     en \<leftarrow> get_le16 buf 4;
     let incl = \<lparr>incl_uuid = '''', incl_handle = h, incl_range = \<lparr>rstart = st, rend = en\<rparr>\<rparr>;
     if len = 8 then do {
       uuid128 \<leftarrow> get_uuid128 16 buf 6;
       (_, str) \<leftarrow> bt_uuid_to_string (Ptr uuid128) '''' UUID_STR_SIZE;
       Some (incl\<lparr>incl_uuid := str\<rparr>) }
     else Some incl }"

definition find_included ::
    "'s attrib_ops \<Rightarrow> u16 \<Rightarrow> included_discovery \<times> 's \<Rightarrow> (u32 \<times> included_discovery \<times> 's) option" where
  "find_included ops start st =
     (case st of (isd, s) \<Rightarrow> do {
        let ((buf, buflen), s) = ao_buffer ops s;
        let uuid = snd (bt_uuid16_create GATT_INCLUDE_UUID);
        (oplen, buf) \<leftarrow> enc_read_by_type_req start (isd_end_handle isd) (Ptr uuid) (Ptr buf) buflen;
        let isd' = isd_ref isd;
        (rid, s) \<leftarrow> ao_send ops s (isd_id isd) buf oplen FIND_INCLUDED_CB;
        if isd_id isd \<noteq> 0 then Some (rid, isd', s)
        else Some (rid, isd'\<lparr>isd_id := rid\<rparr>, s) })"

primrec collect_included ::
    "'s attrib_ops \<Rightarrow> att_data_list \<Rightarrow> nat \<Rightarrow> nat \<Rightarrow> u16 \<Rightarrow> included_discovery \<times> 's \<Rightarrow>
       (u16 \<times> included_discovery \<times> 's) option" where
  "collect_included ops l 0 i last_handle st = Some (last_handle, st)"
| "collect_included ops l (Suc k) i last_handle st = do {
     d \<leftarrow> row (adl_data l) i;
     incl \<leftarrow> included_from_buf d (adl_len l);
     if adl_len l = 6 then do {
       (_, st) \<leftarrow> resolve_included_uuid ops incl st;
       collect_included ops l k (Suc i) (incl_handle incl) st }
     else (case st of (isd, s) \<Rightarrow>
       collect_included ops l k (Suc i) (incl_handle incl)
         (isd\<lparr>isd_includes := isd_includes isd @ [incl]\<rparr>, s)) }"

definition find_included_cb ::
    "'s attrib_ops \<Rightarrow> u8 \<Rightarrow> buf \<Rightarrow> u16 \<Rightarrow> included_discovery \<times> 's \<Rightarrow> (included_discovery \<times> 's) option" where
  "find_included_cb ops status pdu len st =
     (case st of (isd, s) \<Rightarrow>
        let finish = (\<lambda>err isd s. Some ((if isd_err isd = 0 then isd\<lparr>isd_err := err\<rparr> else isd), s));
            err = (if status = ATT_ECODE_ATTR_NOT_FOUND then 0 else status) in
        if status \<noteq> 0 then finish err isd s
        else do {
          list \<leftarrow> dec_read_by_type_resp (Ptr pdu) (ucast len);
          (case list of
             NULL \<Rightarrow> finish ATT_ECODE_IO isd s
           | Ptr l \<Rightarrow>
               if adl_len l \<noteq> 6 \<and> adl_len l \<noteq> 8 then finish ATT_ECODE_IO isd s
               else do {
                 (last_handle, isd, s) \<leftarrow>
                   collect_included ops l (unat (adl_num l)) 0 (isd_end_handle isd) (isd, s);
                 if last_handle < isd_start_handle isd then
                   finish err (isd\<lparr>isd_err := ATT_ECODE_UNLIKELY\<rparr>) s
                 else do {
                   let isd = isd\<lparr>isd_start_handle := last_handle + 1\<rparr>;
                   (isd, s) \<leftarrow>
                     (if last_handle < isd_end_handle isd then do {
                        (_, st) \<leftarrow> find_included ops (isd_start_handle isd) (isd, s);
                        Some st }
                      else Some (isd, s));
                   finish err isd s } }) })"

definition gatt_find_included ::
    "'s attrib_ops \<Rightarrow> u16 \<Rightarrow> u16 \<Rightarrow> 's \<Rightarrow> (u32 \<times> included_discovery \<times> 's) option" where
  "gatt_find_included ops start endh s =
     (let isd = \<lparr>isd_id = 0, isd_refs = 0, isd_err = 0, isd_start_handle = start,
                isd_end_handle = endh, isd_includes = []\<rparr>
      in find_included ops start (isd, s))"

section \<open>Characteristics\<close>

primrec collect_chars ::
    "(nat \<Rightarrow> bool) \<Rightarrow> u8 \<Rightarrow> bt_uuid ptr \<Rightarrow> buf list \<Rightarrow> nat \<Rightarrow> nat \<Rightarrow> u16 \<Rightarrow> gatt_char list \<Rightarrow>
       (bool \<times> u16 \<times> gatt_char list) option" where
  "collect_chars mem type uuid ds 0 i lasth cs = Some (True, lasth, cs)"
| "collect_chars mem type uuid ds (Suc k) i lasth cs = do {
     value \<leftarrow> row ds i;
     lasth \<leftarrow> get_le16 value 0;
     uuid128 \<leftarrow> get_uuid128 type value 5;
     skip \<leftarrow> (case uuid of
                 NULL \<Rightarrow> Some False
               | Ptr u \<Rightarrow> do { c \<leftarrow> bt_uuid_cmp u uuid128; Some (c \<noteq> 0) });
     if skip then collect_chars mem type uuid ds k (Suc i) lasth cs
     else if \<not> mem i then Some (False, lasth, cs)
     else do {
       properties \<leftarrow> rd8 value 2;
       value_handle \<leftarrow> get_le16 value 3;
       (_, str) \<leftarrow> bt_uuid_to_string (Ptr uuid128) '''' UUID_STR_SIZE;
       collect_chars mem type uuid ds k (Suc i) lasth
         (cs @ [\<lparr>char_uuid = str, char_handle = lasth, char_properties = properties,
                 char_value_handle = value_handle\<rparr>]) } }"

definition char_discovered_cb ::
    "'s attrib_ops \<Rightarrow> (nat \<Rightarrow> bool) \<Rightarrow> u8 \<Rightarrow> buf \<Rightarrow> u16 \<Rightarrow> discover_char \<times> 's \<Rightarrow>
       ((discover_char \<times> 's) \<times> (u8 \<times> gatt_char list) option) option" where
  "char_discovered_cb ops mem status ipdu iplen st =
     (case st of (dc, s) \<Rightarrow>
        let finish = (\<lambda>err dc s. Some ((dc, s), Some (err, dc_characteristics dc))) in
        if status = ATT_ECODE_ATTR_NOT_FOUND then
          finish (if dc_characteristics dc \<noteq> [] then 0 else status) dc s
        else if status \<noteq> 0 then finish status dc s
        else do {
          list \<leftarrow> dec_read_by_type_resp (Ptr ipdu) (ucast iplen);
          (case list of
             NULL \<Rightarrow> finish ATT_ECODE_IO dc s
           | Ptr l \<Rightarrow> do {
               let type = (if adl_len l = 7 then 16 else 128);
               (ok, lasth, cs) \<leftarrow>
                 collect_chars mem type (dc_uuid dc) (adl_data l) (unat (adl_num l)) 0 0 (dc_characteristics dc);
               let dc = dc\<lparr>dc_characteristics := cs\<rparr>;
               if \<not> ok then finish ATT_ECODE_INSUFF_RESOURCES dc s
               else if lasth < dc_start dc then finish ATT_ECODE_UNLIKELY dc s
               else do {
                 let dc = dc\<lparr>dc_start := lasth + 1\<rparr>;
                 if lasth \<noteq> 0 \<and> dc_start dc < dc_end dc then do {
                   let ((buf, buflen), s) = ao_buffer ops s;
                   let uuid = snd (bt_uuid16_create GATT_CHARAC_UUID);
                   (oplen, buf) \<leftarrow> enc_read_by_type_req (dc_start dc) (dc_end dc) (Ptr uuid) (Ptr buf) buflen;
                   if oplen = 0 then Some ((dc, s), None)
                   else do {
                     let dc = discover_char_ref dc;
                     (_, s) \<leftarrow> ao_send ops s (dc_id dc) buf oplen CHAR_DISCOVERED_CB;
                     Some ((dc, s), None) } }
                 else finish 0 dc s } }) })"

definition gatt_discover_char ::
    "'s attrib_ops \<Rightarrow> bool \<Rightarrow> u16 \<Rightarrow> u16 \<Rightarrow> bt_uuid ptr \<Rightarrow> 's \<Rightarrow> (u32 \<times> discover_char option \<times> 's) option" where
  "gatt_discover_char ops mem start endh uuid s = do {
     let ((buf, buflen), s) = ao_buffer ops s;
     let type_uuid = snd (bt_uuid16_create GATT_CHARAC_UUID);
     (plen, buf) \<leftarrow> enc_read_by_type_req start endh (Ptr type_uuid) (Ptr buf) buflen;
     if plen = 0 then Some (0, None, s)
     else if \<not> mem then Some (0, None, s)
     else do {
       let dc = \<lparr>dc_ref = 0, dc_id = 0, dc_uuid = uuid, dc_end = endh, dc_start = start,
                 dc_characteristics = []\<rparr>;
       let dc = discover_char_ref dc;
       (rid, s) \<leftarrow> ao_send ops s 0 buf plen CHAR_DISCOVERED_CB;
       Some (rid, Some (dc\<lparr>dc_id := rid\<rparr>), s) } }"

definition gatt_read_char_by_uuid ::
    "'s attrib_ops \<Rightarrow> u16 \<Rightarrow> u16 \<Rightarrow> bt_uuid ptr \<Rightarrow> 's \<Rightarrow> (u32 \<times> 's) option" where
  "gatt_read_char_by_uuid ops start endh uuid s = do {
     let ((buf, buflen), s) = ao_buffer ops s;
     (plen, buf) \<leftarrow> enc_read_by_type_req start endh uuid (Ptr buf) buflen;
     if plen = 0 then Some (0, s) else ao_send ops s 0 buf plen USER_FUNC }"

end
