(* ===== verification/GattIO.thy ===== *)
theory GattIO
  imports Gatt
begin

text \<open>
  The rest of \<open>attrib/gatt.c\<close>: long reads, writes that fit one PDU and long writes by Prepare and
  Execute, descriptor discovery, and the commands.  The conventions are those of the theory Gatt;
  \<open>junk\<close> are the unspecified bytes a reallocation adds.
\<close>

section \<open>Reading\<close>

text \<open>\<open>NULL\<close> as the result of the destroy function is the freed record.\<close>

definition read_long_destroy :: "read_long_data \<Rightarrow> read_long_data ptr" where
  "read_long_destroy lr =
     (let lr = lr\<lparr>rl_ref := rl_ref lr - 1\<rparr> in if 0 < rl_ref lr then Ptr lr else NULL)"

definition read_blob_helper ::
    "'s attrib_ops \<Rightarrow> bool \<Rightarrow> (nat \<Rightarrow> u8) \<Rightarrow> u8 \<Rightarrow> buf \<Rightarrow> u16 \<Rightarrow> read_long_data \<times> 's \<Rightarrow>
       ((read_long_data \<times> 's) \<times> (u8 \<times> buf ptr \<times> u16) option) option" where
  "read_blob_helper ops mem junk status rpdu rlen st =
     (case st of (lr, s) \<Rightarrow>
        let finish = (\<lambda>status lr s. Some ((lr, s), Some (status, rl_buffer lr, rl_size lr))) in
        if status \<noteq> 0 \<or> rlen = 1 then finish 0 lr s
        else do {
          let n = (ucast (rl_size lr) + ucast rlen - 1 :: size_t);
          if \<not> mem \<or> n = 0 then finish ATT_ECODE_INSUFF_RESOURCES lr s
          else do {
            let old = (case rl_buffer lr of NULL \<Rightarrow> [] | Ptr b \<Rightarrow> b);
            let tmp = take (unat n) old @ map junk [length old..<unat n];
            d \<leftarrow> rd rpdu 1 (unat (ucast rlen - 1 :: size_t));
            tmp \<leftarrow> wr tmp (unat (rl_size lr)) d;
            let lr = lr\<lparr>rl_buffer := Ptr tmp, rl_size := rl_size lr + (rlen - 1)\<rparr>;
            let ((buf, buflen), s) = ao_buffer ops s;
            if ucast rlen < buflen then finish 0 lr s
            else do {
              (plen, buf) \<leftarrow> enc_read_blob_req (rl_handle lr) (rl_size lr - 1) (Ptr buf) buflen;
              (rid, s) \<leftarrow> ao_send ops s (rl_id lr) buf plen READ_BLOB_HELPER;
              if rid \<noteq> 0 then Some ((lr\<lparr>rl_ref := rl_ref lr + 1\<rparr>, s), None)
              else finish ATT_ECODE_IO lr s } } })"

definition read_char_helper ::
    "'s attrib_ops \<Rightarrow> bool \<Rightarrow> u8 \<Rightarrow> buf \<Rightarrow> u16 \<Rightarrow> read_long_data \<times> 's \<Rightarrow>
       ((read_long_data \<times> 's) \<times> (u8 \<times> buf ptr \<times> u16) option) option" where
  "read_char_helper ops mem status rpdu rlen st =
     (case st of (lr, s) \<Rightarrow>
        let finish = (\<lambda>status lr s. Some ((lr, s), Some (status, Ptr rpdu, rlen)));
            ((buf, buflen), s) = ao_buffer ops s in
        if status \<noteq> 0 \<or> ucast rlen < buflen then finish status lr s
        else if \<not> mem then finish ATT_ECODE_INSUFF_RESOURCES lr s
        else do {
          d \<leftarrow> rd rpdu 0 (unat rlen);
          let lr = lr\<lparr>rl_buffer := Ptr d, rl_size := rlen\<rparr>;
          (plen, buf) \<leftarrow> enc_read_blob_req (rl_handle lr) (rlen - 1) (Ptr buf) buflen;
          (rid, s) \<leftarrow> ao_send ops s (rl_id lr) buf plen READ_BLOB_HELPER;
          if rid \<noteq> 0 then Some ((lr\<lparr>rl_ref := rl_ref lr + 1\<rparr>, s), None)
          else finish ATT_ECODE_IO lr s })"

text \<open>The record is freed when the request cannot be sent.\<close>

definition gatt_read_char ::
    "'s attrib_ops \<Rightarrow> bool \<Rightarrow> u16 \<Rightarrow> 's \<Rightarrow> (u32 \<times> read_long_data option \<times> 's) option" where
  "gatt_read_char ops mem handle s =
     (if \<not> mem then Some (0, None, s)
      else do {
        let lr = \<lparr>rl_buffer = NULL, rl_size = 0, rl_handle = handle, rl_id = 0, rl_ref = 0\<rparr>;
        let ((buf, buflen), s) = ao_buffer ops s;
        (plen, buf) \<leftarrow> enc_read_req handle (Ptr buf) buflen;
        (rid, s) \<leftarrow> ao_send ops s 0 buf plen READ_CHAR_HELPER;
        if rid = 0 then Some (0, None, s)
        else Some (rid, Some (lr\<lparr>rl_ref := rl_ref lr + 1, rl_id := rid\<rparr>), s) })"

section \<open>Writing\<close>

definition execute_write :: "'s attrib_ops \<Rightarrow> u8 \<Rightarrow> 's \<Rightarrow> (u32 \<times> 's) option" where
  "execute_write ops flags s = do {
     let ((buf, buflen), s) = ao_buffer ops s;
     (plen, buf) \<leftarrow> enc_exec_write_req flags (Ptr buf) buflen;
     if plen = 0 then Some (0, s) else ao_send ops s 0 buf plen USER_FUNC }"

text \<open>\<open>value + offset\<close> may point outside the value; reading from it is then undefined.\<close>

definition prepare_write :: "'s attrib_ops \<Rightarrow> write_long_data \<Rightarrow> 's \<Rightarrow> (u32 \<times> 's) option" where
  "prepare_write ops lw s = do {
     let value = drop (unat (lw_offset lw)) (lw_value lw);
     let vlen = lw_vlen lw - ucast (lw_offset lw);
     let ((buf, buflen), s) = ao_buffer ops s;
     (plen, buf) \<leftarrow> enc_prep_write_req (lw_handle lw) (lw_offset lw) value vlen (Ptr buf) buflen;
     if plen = 0 then Some (0, s) else ao_send ops s 0 buf plen PREPARE_WRITE_CB }"

text \<open>
  The record is freed (\<open>None\<close>) after Execute Write is sent; on an error it is kept and the
  caller's function runs.
\<close>

definition prepare_write_cb ::
    "'s attrib_ops \<Rightarrow> u8 \<Rightarrow> buf \<Rightarrow> u16 \<Rightarrow> write_long_data \<times> 's \<Rightarrow>
       ((write_long_data option \<times> 's) \<times> (u8 \<times> buf \<times> u16) option) option" where
  "prepare_write_cb ops status rpdu rlen st =
     (case st of (lw, s) \<Rightarrow>
        if status \<noteq> 0 then Some ((Some lw, s), Some (status, rpdu, rlen))
        else do {
          let lw = lw\<lparr>lw_offset := lw_offset lw + (rlen - 5)\<rparr>;
          if ucast (lw_offset lw) = lw_vlen lw then do {
            (_, s) \<leftarrow> execute_write ops ATT_WRITE_ALL_PREP_WRITES s;
            Some ((None, s), None) }
          else do {
            (_, s) \<leftarrow> prepare_write ops lw s;
            Some ((Some lw, s), None) } })"

definition gatt_write_char ::
    "'s attrib_ops \<Rightarrow> bool \<Rightarrow> u16 \<Rightarrow> buf \<Rightarrow> size_t \<Rightarrow> 's \<Rightarrow> (u32 \<times> write_long_data option \<times> 's) option" where
  "gatt_write_char ops mem handle val vlen s = do {
     let ((buf, buflen), s) = ao_buffer ops s;
     if vlen \<le> buflen - 3 then do {
       (plen, buf) \<leftarrow> enc_write_req handle val vlen (Ptr buf) buflen;
       if plen = 0 then Some (0, None, s)
       else do { (rid, s) \<leftarrow> ao_send ops s 0 buf plen USER_FUNC; Some (rid, None, s) } }
     else if \<not> mem then Some (0, None, s)
     else do {
       v \<leftarrow> rd val 0 (unat vlen);
       let lw = \<lparr>lw_handle = handle, lw_offset = 0, lw_value = v, lw_vlen = vlen\<rparr>;
       (rid, s) \<leftarrow> prepare_write ops lw s;
       Some (rid, Some lw, s) } }"

definition gatt_execute_write :: "'s attrib_ops \<Rightarrow> u8 \<Rightarrow> 's \<Rightarrow> (u32 \<times> 's) option" where
  "gatt_execute_write ops flags s = execute_write ops flags s"

definition gatt_reliable_write_char ::
    "'s attrib_ops \<Rightarrow> u16 \<Rightarrow> buf \<Rightarrow> size_t \<Rightarrow> 's \<Rightarrow> (u32 \<times> 's) option" where
  "gatt_reliable_write_char ops handle val vlen s = do {
     let ((buf, buflen), s) = ao_buffer ops s;
     (plen, buf) \<leftarrow> enc_prep_write_req handle 0 val vlen (Ptr buf) buflen;
     if plen = 0 then Some (0, s) else ao_send ops s 0 buf plen USER_FUNC }"

definition gatt_exchange_mtu :: "'s attrib_ops \<Rightarrow> u16 \<Rightarrow> 's \<Rightarrow> (u32 \<times> 's) option" where
  "gatt_exchange_mtu ops mtu s = do {
     let ((buf, buflen), s) = ao_buffer ops s;
     (plen, buf) \<leftarrow> enc_mtu_req mtu (Ptr buf) buflen;
     ao_send ops s 0 buf plen USER_FUNC }"

section \<open>Descriptors\<close>

text \<open>
  The loop stops at the first match of a search by UUID.  The results are: no allocation failed,
  the UUID was found, the last handle, the descriptors.
\<close>

primrec collect_descs ::
    "(nat \<Rightarrow> bool) \<Rightarrow> u8 \<Rightarrow> bt_uuid ptr \<Rightarrow> buf list \<Rightarrow> nat \<Rightarrow> nat \<Rightarrow> u16 \<Rightarrow> gatt_desc list \<Rightarrow>
       (bool \<times> bool \<times> u16 \<times> gatt_desc list) option" where
  "collect_descs mem type uuid ds 0 i lasth descs = Some (True, False, lasth, descs)"
| "collect_descs mem type uuid ds (Suc k) i lasth descs = do {
     value \<leftarrow> row ds i;
     lasth \<leftarrow> get_le16 value 0;
     uuid128 \<leftarrow> get_uuid128 type value 2;
     (skip, found) \<leftarrow>
       (case uuid of
          NULL \<Rightarrow> Some (False, False)
        | Ptr u \<Rightarrow> do { c \<leftarrow> bt_uuid_cmp u uuid128; Some (c \<noteq> 0, c = 0) });
     if skip then collect_descs mem type uuid ds k (Suc i) lasth descs
     else if \<not> mem i then Some (False, found, lasth, descs)
     else do {
       (_, str) \<leftarrow> bt_uuid_to_string (Ptr uuid128) '''' UUID_STR_SIZE;
       u16 \<leftarrow> (if type = 16 then get_le16 value 2 else Some 0);
       let descs = descs @ [\<lparr>desc_uuid = str, desc_handle = lasth, desc_uuid16 = u16\<rparr>];
       if found then Some (True, True, lasth, descs)
       else collect_descs mem type uuid ds k (Suc i) lasth descs } }"

definition desc_discovered_cb ::
    "'s attrib_ops \<Rightarrow> (nat \<Rightarrow> bool) \<Rightarrow> u8 \<Rightarrow> buf \<Rightarrow> u16 \<Rightarrow> discover_desc \<times> 's \<Rightarrow>
       ((discover_desc \<times> 's) \<times> (u8 \<times> gatt_desc list) option) option" where
  "desc_discovered_cb ops mem status ipdu iplen st =
     (case st of (dd, s) \<Rightarrow>
        let finish = (\<lambda>err dd s. Some ((dd, s), Some (err, dd_descriptors dd))) in
        if status = ATT_ECODE_ATTR_NOT_FOUND then
          finish (if dd_descriptors dd \<noteq> [] then 0 else status) dd s
        else if status \<noteq> 0 then finish status dd s
        else do {
          (list, format) \<leftarrow> dec_find_info_resp (Ptr ipdu) (ucast iplen) (Ptr 0);
          (case list of
             NULL \<Rightarrow> finish ATT_ECODE_IO dd s
           | Ptr l \<Rightarrow> do {
               fmt \<leftarrow> deref format;
               let type = (if fmt = ATT_FIND_INFO_RESP_FMT_16BIT then 16 else 128);
               (ok, uuid_found, lasth, descs) \<leftarrow>
                 collect_descs mem type (dd_uuid dd) (adl_data l) (unat (adl_num l)) 0 0xffff (dd_descriptors dd);
               let dd = dd\<lparr>dd_descriptors := descs\<rparr>;
               if \<not> ok then finish ATT_ECODE_INSUFF_RESOURCES dd s
               else if lasth < dd_start dd then finish ATT_ECODE_UNLIKELY dd s
               else do {
                 let dd = dd\<lparr>dd_start := lasth + 1\<rparr>;
                 if lasth < dd_end dd \<and> \<not> uuid_found then do {
                   let ((buf, buflen), s) = ao_buffer ops s;
                   (oplen, buf) \<leftarrow> enc_find_info_req (dd_start dd) (dd_end dd) (Ptr buf) buflen;
                   if oplen = 0 then Some ((dd, s), None)
                   else do {
                     let dd = discover_desc_ref dd;
                     (_, s) \<leftarrow> ao_send ops s (dd_id dd) buf oplen DESC_DISCOVERED_CB;
                     Some ((dd, s), None) } }
                 else finish 0 dd s } }) })"

definition gatt_discover_desc ::
    "'s attrib_ops \<Rightarrow> bool \<Rightarrow> u16 \<Rightarrow> u16 \<Rightarrow> bt_uuid ptr \<Rightarrow> 's \<Rightarrow> (u32 \<times> discover_desc option \<times> 's) option" where
  "gatt_discover_desc ops mem start endh uuid s = do {
     let ((buf, buflen), s) = ao_buffer ops s;
     (plen, buf) \<leftarrow> enc_find_info_req start endh (Ptr buf) buflen;
     if plen = 0 then Some (0, None, s)
     else if \<not> mem then Some (0, None, s)
     else do {
       let dd = \<lparr>dd_ref = 0, dd_id = 0, dd_uuid = uuid, dd_start = start, dd_end = endh,
                 dd_descriptors = []\<rparr>;
       let dd = discover_desc_ref dd;
       (rid, s) \<leftarrow> ao_send ops s 0 buf plen DESC_DISCOVERED_CB;
       Some (rid, Some (dd\<lparr>dd_id := rid\<rparr>), s) } }"

section \<open>Commands\<close>

definition gatt_write_cmd ::
    "'s attrib_ops \<Rightarrow> u16 \<Rightarrow> buf \<Rightarrow> size_t \<Rightarrow> 's \<Rightarrow> (u32 \<times> 's) option" where
  "gatt_write_cmd ops handle val vlen s = do {
     let ((buf, buflen), s) = ao_buffer ops s;
     (plen, buf) \<leftarrow> enc_write_cmd handle val vlen (Ptr buf) buflen;
     ao_send ops s 0 buf plen USER_FUNC }"

definition gatt_signed_write_cmd ::
    "'s attrib_ops \<Rightarrow> u16 \<Rightarrow> buf \<Rightarrow> size_t \<Rightarrow> kalg ptr \<Rightarrow> buf \<Rightarrow> u32 \<Rightarrow> 's \<Rightarrow> (u32 \<times> 's) option" where
  "gatt_signed_write_cmd ops handle val vlen crypto csrk sign_cnt s = do {
     let ((buf, buflen), s) = ao_buffer ops s;
     (plen, buf) \<leftarrow> enc_signed_write_cmd handle val vlen crypto csrk sign_cnt (Ptr buf) buflen;
     if plen = 0 then Some (0, s) else ao_send ops s 0 buf plen USER_FUNC }"

end
