(* ===== verification/GattPrimary.thy ===== *)
theory GattPrimary
  imports GattIO AttDec UuidText GattribProps
begin

text \<open>
  Primary service discovery.  \<open>attrib_contract\<close> is what the procedures of \<open>attrib/gatt.c\<close> rely on
  from the \<open>GAttrib\<close> object: a buffer with room for the MTU, and a send that returns.  Inside it
  the response callback is shown to stay inside every packet, to advance, and to collect exactly
  the services a conforming server holds.  The contract is met by the model of
  \<open>attrib/gattrib.c\<close> over any transport whose MTU does not change.
\<close>

section \<open>The contract of the attribute client\<close>

locale attrib_contract =
  fixes ops :: "'s attrib_ops" and ok :: "'s \<Rightarrow> bool" and mtu :: "'s \<Rightarrow> nat"
  assumes mtu_range: "ok s \<Longrightarrow> 23 \<le> mtu s \<and> mtu s < 65536"
    and buffer: "ok s \<Longrightarrow> \<exists>b n s'. ao_buffer ops s = ((b, n), s') \<and> unat n = mtu s \<and> mtu s \<le> length b \<and>
      ok s' \<and> mtu s' = mtu s"
    and send: "ok s \<Longrightarrow> 0 < len \<Longrightarrow> unat len \<le> length b \<Longrightarrow> mtu s \<le> length b \<Longrightarrow>
      \<exists>rid s'. ao_send ops s i (Ptr b) len cb = Some (rid, s') \<and> ok s' \<and> mtu s' = mtu s"

text \<open>
  The same object with a log of the requests it sends: every \<open>ao_send\<close> appends the bytes it is
  given.  A peer knows the client from these bytes alone, so the servers of this library are
  functions of them.
\<close>

definition recorded :: "'s attrib_ops \<Rightarrow> ('s \<times> buf list) attrib_ops" where
  "recorded ops =
     \<lparr>ao_buffer = (\<lambda>(s, l). case ao_buffer ops s of (r, s') \<Rightarrow> (r, (s', l))),
      ao_send = (\<lambda>(s, l) i b len cb. do {
        p \<leftarrow> deref b;
        (rid, s) \<leftarrow> ao_send ops s i b len cb;
        Some (rid, (s, l @ [take (unat len) p])) })\<rparr>"

lemma recorded_buffer_log: "ao_buffer (recorded ops) (s, l) = (r, (s', l')) \<Longrightarrow> l' = l"
  by (auto simp: recorded_def split: prod.splits)

lemma recorded_send_log:
  "ao_send (recorded ops) (s, l) i b len cb = Some (rid, (s', l')) \<Longrightarrow> \<exists>rq. l' = l @ [rq]"
  by (auto simp: recorded_def option_bind_Some_iff split: prod.splits)

section \<open>Attributes in handle order\<close>

text \<open>
  A server's items occupy the handles \<open>lo x\<close> to \<open>hi x\<close>, one after the other.  A response reports
  some of the items from a handle; the next request starts after the last of them.
\<close>

definition ordered :: "('x \<Rightarrow> u16) \<Rightarrow> ('x \<Rightarrow> u16) \<Rightarrow> 'x list \<Rightarrow> bool" where
  "ordered lo hi db \<longleftrightarrow> (\<forall>x\<in>set db. lo x \<le> hi x) \<and> sorted_wrt (\<lambda>a b. hi a < lo b) db"

definition from_handle :: "('x \<Rightarrow> u16) \<Rightarrow> 'x list \<Rightarrow> u16 \<Rightarrow> 'x list" where
  "from_handle lo db h = filter (\<lambda>x. h \<le> lo x) db"

lemma handle_max: "\<not> 0xFFFF < (x :: u16)"
  using unat_lt_16 [of x] by (simp add: word_less_nat_alt)

lemma handle_next: "e \<noteq> 0xFFFF \<Longrightarrow> (e + 1 \<le> x) = (e < (x :: u16))"
  using unat_lt_16 [of e] by (auto simp: word_le_nat_alt word_less_nat_alt unat_word_ariths word_unat_eq_iff)

lemma from_handle_sub: "from_handle lo db h = xs @ ys \<Longrightarrow> set xs \<subseteq> set db"
  using filter_is_subset [of "\<lambda>x. h \<le> lo x" db] by (auto simp: from_handle_def)

lemma from_handle_last:
  "from_handle lo db h = xs @ ys \<Longrightarrow> xs \<noteq> [] \<Longrightarrow> last xs \<in> set db \<and> h \<le> lo (last xs)"
proof -
  assume f: "from_handle lo db h = xs @ ys" and "xs \<noteq> []"
  then have "last xs \<in> set (from_handle lo db h)" by simp
  then show ?thesis by (simp add: from_handle_def)
qed

lemma from_handle_sorted:
  "ordered lo hi db \<Longrightarrow> from_handle lo db h = xs @ ys \<Longrightarrow> sorted_wrt (\<lambda>a b. hi a < lo b) (xs @ ys)"
  by (drule sym) (simp add: from_handle_def ordered_def sorted_wrt_filter)

lemma from_handle_next:
  assumes "ordered lo hi db" "from_handle lo db h = xs @ ys" "xs \<noteq> []" "hi (last xs) \<noteq> 0xFFFF"
  shows "from_handle lo db (hi (last xs) + 1) = ys"
proof -
  let ?e = "hi (last xs)"
  note s = from_handle_sorted [OF assms(1,2)] and e1 = handle_next [OF assms(4)]
  have le: "lo x \<le> hi x" if "x \<in> set xs" for x
    using assms(1) from_handle_sub [OF assms(2)] that by (auto simp: ordered_def)
  have lo: "\<not> ?e + 1 \<le> lo x" if x: "x \<in> set xs" for x
  proof (cases "x = last xs")
    case True
    then show ?thesis using le [OF x] unfolding e1 by auto
  next
    case False
    have sp: "xs = butlast xs @ [last xs]" using assms(3) by simp
    with x False have "x \<in> set (butlast xs)" by (metis UnE empty_iff empty_set set_ConsD set_append)
    moreover have "sorted_wrt (\<lambda>a b. hi a < lo b) (butlast xs @ [last xs])"
      using s assms(3) by (simp add: sorted_wrt_append)
    ultimately have "hi x < lo (last xs)" by (auto simp: sorted_wrt_append)
    with le [OF x] le [of "last xs"] assms(3) show ?thesis unfolding e1 by auto
  qed
  have hi: "?e + 1 \<le> lo y" if "y \<in> set ys" for y
    using s that assms(3) unfolding e1 by (auto simp: sorted_wrt_append)
  have "h \<le> ?e" using from_handle_last [OF assms(2,3)] le [of "last xs"] assms(3) by auto
  then have h: "?e + 1 \<le> lo x \<Longrightarrow> h \<le> lo x" for x unfolding e1 by auto
  have "from_handle lo db (?e + 1) = filter (\<lambda>x. ?e + 1 \<le> lo x) (from_handle lo db h)"
    unfolding from_handle_def filter_filter using h by (intro filter_cong) auto
  then show ?thesis using lo hi by (simp add: assms(2))
qed

lemma from_handle_end:
  assumes "ordered lo hi db" "from_handle lo db h = xs @ ys" "xs \<noteq> []" "hi (last xs) = 0xFFFF"
  shows "ys = []"
proof -
  have "\<forall>y\<in>set ys. hi (last xs) < lo y"
    using from_handle_sorted [OF assms(1,2)] assms(3) by (auto simp: sorted_wrt_append)
  then show ?thesis using assms(4) handle_max by (cases ys) auto
qed

section \<open>Rows of services\<close>

text \<open>A service as a server declares it, its row in a response and its item in the client's list.\<close>

type_synonym service = "u16 \<times> u16 \<times> bt_uuid"

fun service_row :: "service \<Rightarrow> buf" where
  "service_row (st, en, u) = le16 st @ le16 en @ uuid_bytes u"

fun service_item :: "service \<Rightarrow> prim_item" where
  "service_item (st, en, u) =
     Primary \<lparr>prim_uuid = uuid_text (uuid_canon u), prim_changed = False,
              prim_range = \<lparr>rstart = st, rend = en\<rparr>\<rparr>"

text \<open>What a row of any six or twenty bytes says.\<close>

definition row_service :: "buf \<Rightarrow> service" where
  "row_service d = (of_le (take 2 d), of_le (take 2 (drop 2 d)),
     if length d = 6 then BT_UUID16 (of_le (drop 4 d)) else BT_UUID128 (rev (drop 4 d)))"

lemma length_uuid_text [simp]: "length (uuid_text d) = 36"
  by (simp add: uuid_text_hexw)

lemma row_service_row:
  assumes "wf_uuid u" "att_uuid_len u = Some n"
  shows "row_service (service_row (st, en, u)) = (st, en, u)"
  using att_uuid_len_cases [OF assms] by (auto simp: row_service_def)

lemma get_uuid128_row:
  assumes "length d = i + 2 \<and> type = 16 \<or> length d = i + 16 \<and> type = 128"
  shows "get_uuid128 type d i =
    Some (BT_UUID128 (uuid_canon (if type = 16 then BT_UUID16 (of_le (drop i d)) else BT_UUID128 (rev (drop i d)))))"
proof (cases "type = 16")
  case True
  with assms have "length d = i + 2" by auto
  with True show ?thesis
    by (simp add: get_uuid128_def get_le16_def rd_def bt_uuid16_create_def bt_uuid_to_uuid128_wf
        del: bt_uuid_to_uuid128.simps uuid_canon_simps)
next
  case False
  with assms have "length d = i + 16" by auto
  with False show ?thesis
    by (simp add: get_uuid128_def bswap_128_def rd_def bt_uuid128_create_def)
qed

lemma uuid_string_row:
  "wf_uuid u \<Longrightarrow> bt_uuid_to_string (Ptr (BT_UUID128 (uuid_canon u))) '''' UUID_STR_SIZE =
     Some (0, uuid_text (uuid_canon u))"
  by (simp add: bt_uuid_to_string_def snprintf_to_def)

lemma collect_primaries_step:
  assumes "i < length ds" "length (ds ! i) = (if type = 16 then 6 else 20)" "type = 16 \<or> type = 128"
  shows "collect_primaries mem type ds (Suc k) i e prims =
    (if \<not> mem i then Some (False, fst (snd (row_service (ds ! i))), prims)
     else collect_primaries mem type ds k (Suc i) (fst (snd (row_service (ds ! i))))
       (prims @ [service_item (row_service (ds ! i))]))"
proof -
  have l: "length (ds ! i) = 4 + 2 \<and> type = 16 \<or> length (ds ! i) = 4 + 16 \<and> type = 128" "4 \<le> length (ds ! i)"
    using assms(2,3) by (auto split: if_splits)
  show ?thesis using assms l
    by (auto simp: row_def get_uuid128_row [OF l(1)] get_le16_Some uuid_string_row row_service_def Let_def
        simp del: uuid_canon_simps)
qed

lemma collect_primaries_all:
  assumes "i + k \<le> length ds" "\<forall>d\<in>set ds. length d = (if type = 16 then 6 else 20)" "type = 16 \<or> type = 128"
  shows "collect_primaries (\<lambda>_. True) type ds k i e prims =
    Some (True, if k = 0 then e else fst (snd (row_service (ds ! (i + k - 1)))),
      prims @ map (service_item \<circ> row_service) (take k (drop i ds)))"
  using assms
proof (induction k arbitrary: i e prims)
  case (Suc k)
  then have i: "i < length ds" by simp
  then have l: "length (ds ! i) = (if type = 16 then 6 else 20)" using Suc.prems(2) by simp
  have "take (Suc k) (drop i ds) = ds ! i # take k (drop (Suc i) ds)"
    by (simp add: i Cons_nth_drop_Suc [symmetric])
  with collect_primaries_step [OF i l Suc.prems(3)] Suc.IH [of "Suc i"] Suc.prems show ?case
    by (simp del: collect_primaries.simps(2) service_item.simps)
qed simp

lemma collect_primaries_safe:
  assumes "i + k \<le> length ds" "\<forall>d\<in>set ds. length d = (if type = 16 then 6 else 20)" "type = 16 \<or> type = 128"
  shows "\<exists>r e' prims'. collect_primaries mem type ds k i e prims = Some (r, e', prims')"
  using assms
proof (induction k arbitrary: i e prims)
  case (Suc k)
  then have i: "i < length ds" by simp
  then have l: "length (ds ! i) = (if type = 16 then 6 else 20)" using Suc.prems(2) by simp
  with collect_primaries_step [OF i l Suc.prems(3)] Suc.IH [of "Suc i"] Suc.prems show ?case
    by (auto simp del: collect_primaries.simps(2))
qed (simp add: exI)

text \<open>The rows of a Read By Group Type response, for a packet with rows of a length the code takes.\<close>

definition group_rows :: "buf \<Rightarrow> buf list" where
  "group_rows pk = chunks ((length pk - 2) div unat (pk ! 1)) (unat (pk ! 1)) (drop 2 pk)"

definition group_ok :: "buf \<Rightarrow> bool" where
  "group_ok pk \<longleftrightarrow> 7 \<le> length pk \<and> length pk < 65536 \<and> pk ! 0 = ATT_OP_READ_BY_GROUP_RESP \<and>
     (pk ! 1 = 6 \<or> pk ! 1 = 20) \<and> (length pk - 2) mod unat (pk ! 1) = 0"

lemma group_rows_props:
  assumes "group_ok pk"
  shows "group_rows pk \<noteq> []" "length (group_rows pk) < 65536"
    "\<forall>d\<in>set (group_rows pk). length d = (if pk ! 1 = 6 then 6 else 20)"
proof -
  let ?n = "unat (pk ! 1)" and ?k = "(length pk - 2) div unat (pk ! 1)"
  have n: "?n = (if pk ! 1 = 6 then 6 else 20)" "0 < ?n" using assms by (auto simp: group_ok_def)
  have l: "?k * ?n = length pk - 2" using assms unfolding group_ok_def by (metis mult_div_mod_eq add_0_right mult.commute)
  then have "0 < ?k" using assms by (cases ?k) (auto simp: group_ok_def)
  then show "group_rows pk \<noteq> []" by (cases ?k) (auto simp: group_rows_def)
  have "?k \<le> length pk - 2" by simp
  then show "length (group_rows pk) < 65536" using assms by (auto simp: group_rows_def group_ok_def)
  show "\<forall>d\<in>set (group_rows pk). length d = (if pk ! 1 = 6 then 6 else 20)"
  proof
    fix d assume "d \<in> set (group_rows pk)"
    then have "length d = ?n" using l by (intro chunks_rows [of ?k ?n "drop 2 pk"]) (simp_all add: group_rows_def)
    then show "length d = (if pk ! 1 = 6 then 6 else 20)" using n(1) by (rule trans)
  qed
qed

lemma dec_group_ok:
  assumes "group_ok pk"
  shows "dec_read_by_grp_resp (Ptr pk) (of_nat (length pk)) =
    Some (Ptr \<lparr>adl_num = of_nat (length (group_rows pk)), adl_len = ucast (pk ! 1), adl_data = group_rows pk\<rparr>)"
proof -
  have "pk \<noteq> []" "length pk < 65536" using assms by (auto simp: group_ok_def)
  with assms show ?thesis
    by (auto simp: dec_grp_resp group_ok_def rows_list_def group_rows_def Let_def)
qed

text \<open>Any other packet ends the procedure with an error.\<close>

lemma dec_group_other:
  assumes "\<not> group_ok pk" "pk \<noteq> []" "length pk < 65536"
  shows "\<exists>r. dec_read_by_grp_resp (Ptr pk) (of_nat (length pk)) = Some r \<and>
    (r = NULL \<or> (\<exists>l. r = Ptr l \<and> adl_len l \<noteq> 6 \<and> adl_len l \<noteq> 20))"
proof -
  have w: "(of_nat (unat b) :: u16) = 6 \<Longrightarrow> b = 6" "(of_nat (unat b) :: u16) = 20 \<Longrightarrow> b = 20" for b :: u8
    using unat_lt_8 [of b] by (auto simp: word_unat_eq_iff)
  show ?thesis using assms w [of "pk ! 1"]
    by (auto simp: dec_grp_resp group_ok_def rows_list_def Let_def)
qed

lemma encode_all:
  assumes "7 \<le> length p"
  shows "encode_discover_primary s e NULL p n =
    Some (7, Ptr (written (att_bytes (ReadByGroupReq s e (BT_UUID16 0x2800))) p))"
  using enc_uuid_req(2) [of "BT_UUID16 0x2800" 2 p s e n] assms
  by (simp add: encode_discover_primary_def encodes_def att_uuid_len_def bt_uuid16_create_def)

section \<open>One round\<close>

text \<open>What the callback does with the rows of a response, as an equation.\<close>

definition primary_round ::
    "'s attrib_ops \<Rightarrow> service list \<Rightarrow> discover_primary \<times> 's \<Rightarrow>
       ((discover_primary \<times> 's) \<times> (u8 \<times> prim_item list) option) option" where
  "primary_round ops svcs st =
     (case st of (dp, s) \<Rightarrow>
        let prims = dp_primaries dp @ map service_item svcs; endh = fst (snd (last svcs));
            dp = dp\<lparr>dp_primaries := prims\<rparr> in
        if endh < dp_start dp then Some ((dp, s), Some (ATT_ECODE_UNLIKELY, prims))
        else if endh = 0xffff then Some ((dp\<lparr>dp_start := 0\<rparr>, s), Some (0, prims))
        else let ((b, n), s) = ao_buffer ops s; dp = dp\<lparr>dp_start := endh + 1, dp_ref := dp_ref dp + 1\<rparr> in do {
          (_, s) \<leftarrow> ao_send ops s (dp_id dp)
            (Ptr (written (att_bytes (ReadByGroupReq (endh + 1) 0xffff (BT_UUID16 0x2800))) b)) 7 PRIMARY_ALL_CB;
          Some ((dp, s), None) })"

text \<open>
  The exchange, over an object that records what it sends.  Exactly one request is outstanding; the
  server's answer, status and packet, to the \<open>i\<close>-th request is \<open>srv i rq\<close>, a function of the bytes
  \<open>rq\<close> of that request.  \<open>Some None\<close>: the procedure has not finished after \<open>n\<close> answers; \<open>None\<close>: a
  step is undefined, or the procedure waits without a request or with more than one.
\<close>

primrec primary_rounds ::
    "('s \<times> buf list) attrib_ops \<Rightarrow> (nat \<Rightarrow> bool) \<Rightarrow> (nat \<Rightarrow> buf \<Rightarrow> u8 \<times> buf) \<Rightarrow> nat \<Rightarrow> nat \<Rightarrow>
       discover_primary \<times> 's \<times> buf list \<Rightarrow> (u8 \<times> prim_item list) option option" where
  "primary_rounds ops mem srv i 0 st = Some None"
| "primary_rounds ops mem srv i (Suc n) st =
     (case st of
        (dp, s, [rq]) \<Rightarrow> do {
          let (status, pk) = srv i rq;
          (st, r) \<leftarrow> primary_all_cb ops mem status pk (of_nat (length pk)) (dp, (s, []));
          (case r of Some x \<Rightarrow> Some (Some x) | None \<Rightarrow> primary_rounds ops mem srv (Suc i) n st) }
      | _ \<Rightarrow> None)"

text \<open>The request for the primary services from handle \<open>h\<close> on.\<close>

abbreviation primary_req :: "u16 \<Rightarrow> buf" where
  "primary_req h \<equiv> att_bytes (ReadByGroupReq h 0xffff (BT_UUID16 0x2800))"

text \<open>
  The services of a server: groups of handles in increasing order, with UUIDs of two or sixteen
  bytes.  A conforming server reads the first handle out of the request for the services up to
  0xFFFF, answers with some of the services from that handle, of one row length, and with Attribute
  Not Found when there is none.  Nothing is known of its answers to other bytes.
\<close>

definition wf_services :: "service list \<Rightarrow> bool" where
  "wf_services db \<longleftrightarrow>
     (\<forall>(st, en, u)\<in>set db. 1 \<le> st \<and> wf_uuid u \<and> att_uuid_len u \<noteq> None) \<and>
     ordered fst (\<lambda>sv. fst (snd sv)) db"

abbreviation services_from :: "service list \<Rightarrow> u16 \<Rightarrow> service list" where
  "services_from \<equiv> from_handle fst"

definition primary_server :: "service list \<Rightarrow> (nat \<Rightarrow> buf \<Rightarrow> u8 \<times> buf) \<Rightarrow> bool" where
  "primary_server db srv \<longleftrightarrow>
     (\<forall>i h. if services_from db h = [] then fst (srv i (primary_req h)) = ATT_ECODE_ATTR_NOT_FOUND
       else \<exists>svcs later n. services_from db h = svcs @ later \<and> svcs \<noteq> [] \<and>
         (\<forall>sv\<in>set svcs. length (service_row sv) = n) \<and> length svcs * n + 2 < 65536 \<and>
         srv i (primary_req h) = (0, att_bytes (ReadByGroupResp (of_nat n) (map service_row svcs))))"

lemma service_row_map:
  assumes "wf_services db" "set svcs \<subseteq> set db"
  shows "map row_service (map service_row svcs) = svcs"
proof -
  have "map (row_service \<circ> service_row) svcs = svcs"
    using assms by (intro map_idI) (force simp: wf_services_def row_service_row simp del: service_row.simps)
  then show ?thesis by simp
qed

lemma service_row_len: "wf_services db \<Longrightarrow> sv \<in> set db \<Longrightarrow> length (service_row sv) = 6 \<or> length (service_row sv) = 20"
  by (cases sv) (auto simp: wf_services_def dest!: bspec att_uuid_len_cases)

lemma group_resp_rows:
  assumes "\<forall>sv\<in>set svcs. length (service_row sv) = n" "n = 6 \<or> n = 20" "svcs \<noteq> []" "length svcs * n + 2 < 65536"
  shows "group_ok (att_bytes (ReadByGroupResp (of_nat n) (map service_row svcs)))"
    "group_rows (att_bytes (ReadByGroupResp (of_nat n) (map service_row svcs))) = map service_row svcs"
proof -
  have l: "length (concat (map service_row svcs)) = length svcs * n"
    using assms(1) by (induction svcs) (auto simp del: service_row.simps)
  have c: "chunks (length svcs) n (concat (map service_row svcs)) = map service_row svcs"
    using chunks_concat [of "map service_row svcs" n "[]"] assms(1) by simp
  have n: "unat (of_nat n :: u8) = n" using assms(2) by auto
  have p: "Suc 0 \<le> length svcs" using assms(3) by (cases svcs) auto
  show "group_ok (att_bytes (ReadByGroupResp (of_nat n) (map service_row svcs)))"
    using assms(2,4) l p n by (auto simp: group_ok_def)
  show "group_rows (att_bytes (ReadByGroupResp (of_nat n) (map service_row svcs))) = map service_row svcs"
    using assms(2) l c n by (auto simp: group_rows_def)
qed

text \<open>Every PDU that fits the buffer can be sent from it.\<close>

definition delivers :: "'s attrib_ops \<Rightarrow> ('s \<Rightarrow> bool) \<Rightarrow> ('s \<Rightarrow> nat) \<Rightarrow> buf \<Rightarrow> 's \<Rightarrow> bool" where
  "delivers ops ok mtu b s \<longleftrightarrow>
     (\<forall>pdu i cb. length (att_bytes pdu) \<le> length b \<and> length (att_bytes pdu) < 65536 \<longrightarrow>
        (\<exists>rid s2. ao_send ops s i (Ptr (written (att_bytes pdu) b)) (of_nat (length (att_bytes pdu))) cb = Some (rid, s2) \<and>
           ok s2 \<and> mtu s2 = mtu s))"

lemma deliversD:
  "delivers ops ok mtu b s \<Longrightarrow> length (att_bytes pdu) \<le> length b \<Longrightarrow> length (att_bytes pdu) < 65536 \<Longrightarrow>
     \<exists>rid s2. ao_send ops s i (Ptr (written (att_bytes pdu) b)) (of_nat (length (att_bytes pdu))) cb = Some (rid, s2) \<and>
       ok s2 \<and> mtu s2 = mtu s"
  by (simp add: delivers_def)

definition delivers_logged :: "'s attrib_ops \<Rightarrow> ('s \<Rightarrow> bool) \<Rightarrow> ('s \<Rightarrow> nat) \<Rightarrow> buf \<Rightarrow> 's \<Rightarrow> bool" where
  "delivers_logged ops ok mtu b s \<longleftrightarrow>
     (\<forall>l pdu i cb. length (att_bytes pdu) \<le> length b \<and> length (att_bytes pdu) < 65536 \<longrightarrow>
        (\<exists>rid s2. ao_send (recorded ops) (s, l) i (Ptr (written (att_bytes pdu) b)) (of_nat (length (att_bytes pdu))) cb =
           Some (rid, (s2, l @ [att_bytes pdu])) \<and> ok s2 \<and> mtu s2 = mtu s))"

lemma delivers_loggedD:
  "delivers_logged ops ok mtu b s \<Longrightarrow> length (att_bytes pdu) \<le> length b \<Longrightarrow> length (att_bytes pdu) < 65536 \<Longrightarrow>
     \<exists>rid s2. ao_send (recorded ops) (s, l) i (Ptr (written (att_bytes pdu) b)) (of_nat (length (att_bytes pdu))) cb =
       Some (rid, (s2, l @ [att_bytes pdu])) \<and> ok s2 \<and> mtu s2 = mtu s"
  by (simp add: delivers_logged_def)

context attrib_contract
begin

text \<open>Preparing a request in the buffer and sending it.\<close>

lemma request:
  assumes "ok s"
  shows "\<exists>b n s1. ao_buffer ops s = ((b, n), s1) \<and> unat n = mtu s \<and> mtu s \<le> length b \<and> 23 \<le> length b \<and>
    ok s1 \<and> mtu s1 = mtu s \<and> delivers ops ok mtu b s1"
proof -
  obtain b n s1 where b: "ao_buffer ops s = ((b, n), s1)" "unat n = mtu s" "mtu s \<le> length b" "ok s1"
    "mtu s1 = mtu s" using buffer [OF assms] by blast
  have "\<exists>rid s2. ao_send ops s1 i (Ptr (written (att_bytes pdu) b)) (of_nat (length (att_bytes pdu))) cb = Some (rid, s2) \<and>
        ok s2 \<and> mtu s2 = mtu s1"
    if l: "length (att_bytes pdu) \<le> length b" "length (att_bytes pdu) < 65536" for pdu i cb
  proof -
    have p: "0 < length (att_bytes pdu)" by (cases pdu) auto
    then have z: "0 < (of_nat (length (att_bytes pdu)) :: u16)" using l(2) by (simp add: word_less_nat_alt)
    have u: "unat (of_nat (length (att_bytes pdu)) :: u16) = length (att_bytes pdu)" using l(2) by simp
    have w: "length (written (att_bytes pdu) b) = length b" using l(1) by (rule length_written)
    show ?thesis using send [OF b(4) z, of "written (att_bytes pdu) b" i cb] unfolding u w b(5)
      using l(1) b(3) by blast
  qed
  with b mtu_range [OF assms] show ?thesis unfolding delivers_def by auto
qed

text \<open>The recording object meets the contract; its log grows by the PDU sent.\<close>

lemma recorded_contract: "attrib_contract (recorded ops) (\<lambda>st. ok (fst st)) (\<lambda>st. mtu (fst st))"
proof
  fix st :: "'s \<times> buf list" assume o: "ok (fst st)"
  show "23 \<le> mtu (fst st) \<and> mtu (fst st) < 65536" by (rule mtu_range [OF o])
  show "\<exists>b n st'. ao_buffer (recorded ops) st = ((b, n), st') \<and> unat n = mtu (fst st) \<and> mtu (fst st) \<le> length b \<and>
      ok (fst st') \<and> mtu (fst st') = mtu (fst st)"
    using buffer [OF o] by (cases st) (auto simp: recorded_def)
  show "\<exists>rid st'. ao_send (recorded ops) st i (Ptr b) len cb = Some (rid, st') \<and> ok (fst st') \<and>
      mtu (fst st') = mtu (fst st)"
    if "0 < len" "unat len \<le> length b" "mtu (fst st) \<le> length b" for len b i cb
    using send [OF o that, of i cb] by (cases st) (auto simp: recorded_def)
qed

lemma request_logged:
  assumes "ok s"
  shows "\<exists>b n s1. (\<forall>l. ao_buffer (recorded ops) (s, l) = ((b, n), (s1, l))) \<and> unat n = mtu s \<and> mtu s \<le> length b \<and>
    23 \<le> length b \<and> ok s1 \<and> mtu s1 = mtu s \<and> delivers_logged ops ok mtu b s1"
proof -
  obtain b n s1 where b: "ao_buffer ops s = ((b, n), s1)" "unat n = mtu s" "mtu s \<le> length b" "23 \<le> length b" "ok s1"
    "mtu s1 = mtu s" "delivers ops ok mtu b s1" using request [OF assms] by blast
  have "delivers_logged ops ok mtu b s1"
    unfolding delivers_logged_def
  proof (intro allI impI, elim conjE)
    fix l pdu i cb assume p: "length (att_bytes pdu) \<le> length b" "length (att_bytes pdu) < 65536"
    have "unat (of_nat (length (att_bytes pdu)) :: u16) = length (att_bytes pdu)" using p(2) by simp
    with deliversD [OF b(7) p, of i cb] p(1) b(6)
    show "\<exists>rid s2. ao_send (recorded ops) (s1, l) i (Ptr (written (att_bytes pdu) b)) (of_nat (length (att_bytes pdu))) cb =
        Some (rid, (s2, l @ [att_bytes pdu])) \<and> ok s2 \<and> mtu s2 = mtu s1"
      by (auto simp: recorded_def)
  qed
  with b show ?thesis by (intro exI [of _ b] exI [of _ n] exI [of _ s1]) (simp add: recorded_def)
qed

lemma primary_all_cb_rows:
  assumes "ok s" "group_ok pk"
  shows "primary_all_cb ops (\<lambda>_. True) 0 pk (of_nat (length pk)) (dp, s) =
    primary_round ops (map row_service (group_rows pk)) (dp, s)"
proof -
  note R = group_rows_props [OF assms(2)]
  let ?ds = "group_rows pk" and ?type = "if pk ! 1 = 6 then 16 else 128 :: u8"
  have pk: "pk ! 1 = 6 \<or> pk ! 1 = 20" "length pk < 65536" using assms(2) by (simp_all add: group_ok_def)
  have d: "\<forall>d\<in>set ?ds. length d = (if ?type = 16 then 6 else 20)" using R(3) by simp
  have c: "collect_primaries (\<lambda>_. True) ?type ?ds (length ?ds) 0 0 prims =
      Some (True, fst (snd (last (map row_service ?ds))), prims @ map service_item (map row_service ?ds))" for prims
    using collect_primaries_all [of 0 "length ?ds" ?ds ?type 0 prims] d R(1)
    by (simp add: last_map last_conv_nth)
  obtain b n s1 where b: "ao_buffer ops s = ((b, n), s1)" "unat n = mtu s" "mtu s \<le> length b"
    using buffer [OF assms(1)] by blast
  have e: "encode_discover_primary st en NULL b n =
      Some (7, Ptr (written (att_bytes (ReadByGroupReq st en (BT_UUID16 0x2800))) b))" for st en
    using b(3) mtu_range [OF assms(1)] by (intro encode_all) simp
  have w: "(ucast (of_nat (length pk) :: u16) :: size_t) = of_nat (length pk)"
    using pk(2) by (simp add: ucast_of_nat_16_32)
  show ?thesis
    using pk(1) c R(2) b(1) w
    by (elim disjE)
       (simp_all add: primary_all_cb_def primary_round_def dec_group_ok [OF assms(2)] e discover_primary_ref_def Let_def
         cong: ptr.case_cong)
qed

text \<open>Any answer: the callback stays inside the packet, and asks again only from a higher handle.\<close>

lemma primary_all_cb_safe:
  assumes "ok s" "pk \<noteq> []" "length pk < 65536"
  shows "\<exists>dp' s' r. primary_all_cb ops mem status pk (of_nat (length pk)) (dp, s) = Some ((dp', s'), r) \<and>
    ok s' \<and> (r = None \<longrightarrow> dp_start dp < dp_start dp')"
proof (cases "status = 0 \<and> group_ok pk")
  case False
  have w: "(ucast (of_nat (length pk) :: u16) :: size_t) = of_nat (length pk)"
    using assms(3) by (simp add: ucast_of_nat_16_32)
  from False dec_group_other [OF _ assms(2,3)] show ?thesis
    using assms(1) w by (cases "status = 0") (auto simp: primary_all_cb_def)
next
  case True
  then have g: "group_ok pk" by simp
  note R = group_rows_props [OF g]
  let ?ds = "group_rows pk" and ?type = "if pk ! 1 = 6 then 16 else 128 :: u8"
  have pk: "pk ! 1 = 6 \<or> pk ! 1 = 20" using g by (simp add: group_ok_def)
  have d: "\<forall>d\<in>set ?ds. length d = (if ?type = 16 then 6 else 20)" using R(3) by simp
  have t: "?type = 16 \<or> ?type = 128" by simp
  obtain r e prims where c: "collect_primaries mem ?type ?ds (length ?ds) 0 0 (dp_primaries dp) = Some (r, e, prims)"
    using collect_primaries_safe [of 0 "length ?ds" ?ds ?type mem 0 "dp_primaries dp", OF _ d t] by auto
  obtain b n s1 where b: "ao_buffer ops s = ((b, n), s1)" "unat n = mtu s" "mtu s \<le> length b" "ok s1"
    "mtu s1 = mtu s" using buffer [OF assms(1)] by blast
  have l: "7 \<le> length b" using b(3) mtu_range [OF assms(1)] by simp
  let ?b = "written (att_bytes (ReadByGroupReq (e + 1) 0xffff (BT_UUID16 0x2800))) b"
  have "length ?b = length b" using l by (subst length_written) auto
  then obtain rid s2 where s2: "ao_send ops s1 (dp_id dp) (Ptr ?b) 7 PRIMARY_ALL_CB = Some (rid, s2)" "ok s2"
    using send [OF b(4), of 7 ?b "dp_id dp" PRIMARY_ALL_CB] l b(3,5) by auto
  have up: "\<not> e < dp_start dp \<Longrightarrow> e \<noteq> 0xffff \<Longrightarrow> dp_start dp < e + 1"
    using unat_lt_16 [of e]
    by (auto simp: word_less_nat_alt word_unat_eq_iff unat_word_ariths)
  show ?thesis
    using pk c R(2) b(1) s2 True assms(1) up assms(3)
    by (elim disjE)
       (auto simp add: primary_all_cb_def dec_group_ok [OF g] encode_all [OF l] discover_primary_ref_def Let_def
         ucast_of_nat_16_32 simp del: att_bytes.simps cong: ptr.case_cong)
qed

lemma primary_start:
  assumes "ok s"
  shows "\<exists>rid dp s'. gatt_discover_primary ops True NULL s = Some (rid, Some dp, s') \<and> ok s' \<and>
    dp_start dp = 1 \<and> dp_primaries dp = [] \<and> dp_ref dp = 1"
proof -
  obtain b n s1 where b: "ao_buffer ops s = ((b, n), s1)" "mtu s \<le> length b" "ok s1" "mtu s1 = mtu s"
    using buffer [OF assms(1)] by blast
  have l: "7 \<le> length b" using b(2) mtu_range [OF assms(1)] by simp
  let ?b = "written (att_bytes (ReadByGroupReq 1 0xffff (BT_UUID16 0x2800))) b"
  have "length ?b = length b" using l by (subst length_written) auto
  then obtain rid s2 where "ao_send ops s1 0 (Ptr ?b) 7 PRIMARY_ALL_CB = Some (rid, s2)" "ok s2"
    using send [OF b(3), of 7 ?b 0 PRIMARY_ALL_CB] l b(2,4) by auto
  then show ?thesis using b(1)
    by (simp add: gatt_discover_primary_def encode_all [OF l] discover_primary_ref_def Let_def del: att_bytes.simps)
qed

text \<open>The same with the request in the log, which is what a peer answers.\<close>

lemma primary_start_sent:
  assumes "ok s"
  shows "\<exists>rid dp s'. gatt_discover_primary (recorded ops) True NULL (s, []) = Some (rid, Some dp, (s', [primary_req 1])) \<and>
    ok s' \<and> dp_start dp = 1 \<and> dp_primaries dp = []"
proof -
  obtain b n s1 where b: "\<And>l. ao_buffer (recorded ops) (s, l) = ((b, n), (s1, l))" "23 \<le> length b" "delivers_logged ops ok mtu b s1"
    using request_logged [OF assms] by blast
  obtain rid s2 where "ao_send (recorded ops) (s1, []) 0 (Ptr (written (primary_req 1) b)) 7 PRIMARY_ALL_CB =
      Some (rid, (s2, [primary_req 1]))" "ok s2"
    using delivers_loggedD [OF b(3), of "ReadByGroupReq 1 0xffff (BT_UUID16 0x2800)" "[]" 0 PRIMARY_ALL_CB] b(2) by auto
  then show ?thesis using b(1,2)
    by (simp add: gatt_discover_primary_def encode_all discover_primary_ref_def Let_def del: att_bytes.simps)
qed

lemma primary_all_cb_log:
  assumes "primary_all_cb (recorded ops) mem status pk n (dp, (s, l)) = Some ((dp', (s', l')), None)"
  shows "\<exists>rq. l' = l @ [rq]"
proof -
  obtain b k s1 l1 where b: "ao_buffer (recorded ops) (s, l) = ((b, k), (s1, l1))" by (metis surj_pair)
  note b = b [unfolded recorded_buffer_log [OF b]]
  obtain x where x: "status = 0" "dec_read_by_grp_resp (Ptr pk) (ucast n) = Some (Ptr x)"
    using assms by (cases "dec_read_by_grp_resp (Ptr pk) (ucast n)")
      (auto simp: primary_all_cb_def split: if_splits ptr.splits)
  from assms b show ?thesis
    by (auto simp: primary_all_cb_def x option_bind_Some_iff Let_def dest!: recorded_send_log split: if_splits)
qed

lemma primary_rounds_end:
  assumes "ok s" "\<And>j rq. snd (srv j rq) \<noteq> [] \<and> length (snd (srv j rq)) < 65536"
    "65535 < unat (dp_start dp) + n"
  shows "\<exists>err prims. primary_rounds (recorded ops) mem srv i n (dp, s, [rq]) = Some (Some (err, prims))"
  using assms(1,3)
proof (induction n arbitrary: i dp s rq)
  case 0
  then show ?case using unat_lt_16 [of "dp_start dp"] by simp
next
  case (Suc n)
  obtain status pk where a: "srv i rq = (status, pk)" by fastforce
  then have pk: "pk \<noteq> []" "length pk < 65536" using assms(2) [of i rq] by auto
  obtain dp' s' l' r where
    c: "primary_all_cb (recorded ops) mem status pk (of_nat (length pk)) (dp, (s, [])) = Some ((dp', (s', l')), r)"
    "ok s'" "r = None \<longrightarrow> dp_start dp < dp_start dp'"
    using attrib_contract.primary_all_cb_safe [OF recorded_contract, of "(s, [])" pk mem status dp] Suc.prems(1) pk by auto
  show ?case
  proof (cases r)
    case None
    then obtain rq' where l': "l' = [rq']" using primary_all_cb_log [of mem status pk _ dp s "[]"] c(1) by fastforce
    from None c(3) Suc.prems(2) have "65535 < unat (dp_start dp') + n" by (simp add: word_less_nat_alt)
    from Suc.IH [OF c(2) this] None a c(1) l' show ?thesis by simp
  qed (use a c(1) in auto)
qed

lemma primary_round_sent:
  assumes "ok s" "e = fst (snd (last svcs))" "dp_start dp \<le> e"
  shows "\<exists>s'. ok s' \<and> primary_round (recorded ops) svcs (dp, (s, [])) =
    (let prims = dp_primaries dp @ map service_item svcs in
     if e = 0xffff then Some ((dp\<lparr>dp_primaries := prims, dp_start := 0\<rparr>, (s', [])), Some (0, prims))
     else Some ((dp\<lparr>dp_primaries := prims, dp_start := e + 1, dp_ref := dp_ref dp + 1\<rparr>,
       (s', [primary_req (e + 1)])), None))"
proof -
  obtain b n s1 where b: "\<And>l. ao_buffer (recorded ops) (s, l) = ((b, n), (s1, l))" "23 \<le> length b" "delivers_logged ops ok mtu b s1"
    using request_logged [OF assms(1)] by blast
  obtain rid s2 where "ao_send (recorded ops) (s1, []) (dp_id dp) (Ptr (written (primary_req (e + 1)) b)) 7 PRIMARY_ALL_CB =
      Some (rid, (s2, [primary_req (e + 1)]))" "ok s2"
    using delivers_loggedD [OF b(3), of "ReadByGroupReq (e + 1) 0xffff (BT_UUID16 0x2800)" "[]" "dp_id dp" PRIMARY_ALL_CB] b(2)
    by auto
  with assms b(1) show ?thesis
    by (auto simp: primary_round_def Let_def simp del: att_bytes.simps)
qed

lemma primary_rounds_complete:
  assumes "wf_services db" "primary_server db srv" "ok s" "dp_primaries dp = map service_item pre"
    "db = pre @ services_from db (dp_start dp)" "length (services_from db (dp_start dp)) < n"
  shows "primary_rounds (recorded ops) (\<lambda>_. True) srv i n (dp, s, [primary_req (dp_start dp)]) = Some (Some (0, map service_item db))"
  using assms(3-)
proof (induction n arbitrary: i dp s pre)
  case (Suc n)
  let ?rest = "services_from db (dp_start dp)"
  show ?case
  proof (cases "?rest = []")
    case True
    then have "fst (srv i (primary_req (dp_start dp))) = ATT_ECODE_ATTR_NOT_FOUND"
      using assms(2) by (simp add: primary_server_def del: att_bytes.simps)
    with True Suc.prems(2,3) show ?thesis
      by (cases "srv i (primary_req (dp_start dp))") (simp add: primary_all_cb_def del: att_bytes.simps)
  next
    case False
    then obtain svcs later k where r: "?rest = svcs @ later" "svcs \<noteq> []"
      "\<forall>sv\<in>set svcs. length (service_row sv) = k" "length svcs * k + 2 < 65536"
      "srv i (primary_req (dp_start dp)) = (0, att_bytes (ReadByGroupResp (of_nat k) (map service_row svcs)))"
      using assms(2) unfolding primary_server_def by (meson)
    let ?pk = "att_bytes (ReadByGroupResp (of_nat k) (map service_row svcs))" and ?e = "fst (snd (last svcs))"
    note sub = from_handle_sub [OF r(1)] and lastsv = from_handle_last [OF r(1,2)]
    have ord: "ordered fst (\<lambda>sv. fst (snd sv)) db" using assms(1) by (simp add: wf_services_def)
    have e: "dp_start dp \<le> ?e" using lastsv ord by (force simp: ordered_def)
    have "k = 6 \<or> k = 20" using service_row_len [OF assms(1) conjunct1 [OF lastsv]] r(2,3) by auto
    note g = group_resp_rows [OF r(3) this r(2,4)]
    obtain s' where s': "ok s'" "primary_all_cb (recorded ops) (\<lambda>_. True) 0 ?pk (of_nat (length ?pk)) (dp, (s, [])) =
      (let prims = dp_primaries dp @ map service_item svcs in
       if ?e = 0xffff then Some ((dp\<lparr>dp_primaries := prims, dp_start := 0\<rparr>, (s', [])), Some (0, prims))
       else Some ((dp\<lparr>dp_primaries := prims, dp_start := ?e + 1, dp_ref := dp_ref dp + 1\<rparr>,
         (s', [primary_req (?e + 1)])), None))"
      using primary_round_sent [OF Suc.prems(1) refl e]
        attrib_contract.primary_all_cb_rows [OF recorded_contract, of "(s, [])" ?pk dp] Suc.prems(1) g(1)
      unfolding g(2) service_row_map [OF assms(1) sub] by fastforce
    show ?thesis
    proof (cases "?e = 0xffff")
      case True
      have "later = []" using from_handle_end [OF ord r(1,2)] True by simp
      with True s' r(1,5) Suc.prems(2,3) show ?thesis by (simp add: Let_def del: att_bytes.simps)
    next
      case False
      from from_handle_next [OF ord r(1,2) False]
      moreover have "length later < n" using Suc.prems(4) r(1,2) by (cases svcs) auto
      ultimately have "primary_rounds (recorded ops) (\<lambda>_. True) srv (Suc i) n
          (dp\<lparr>dp_primaries := dp_primaries dp @ map service_item svcs, dp_start := ?e + 1, dp_ref := dp_ref dp + 1\<rparr>,
            s', [primary_req (dp_start (dp\<lparr>dp_primaries := dp_primaries dp @ map service_item svcs, dp_start := ?e + 1,
              dp_ref := dp_ref dp + 1\<rparr>))]) =
          Some (Some (0, map service_item db))"
        using Suc.prems(2-) s'(1) r(1,2) by (intro Suc.IH [where pre = "pre @ svcs"]) auto
      with False s'(2) r(5) show ?thesis by (simp add: Let_def del: att_bytes.simps)
    qed
  qed
qed simp

end

section \<open>The contract on the model of attrib/gattrib.c\<close>

text \<open>
  The client's functions as \<open>attrib/gattrib.c\<close> registers them: the response callback and the
  destroy function that goes with it.  The client encodes into the object's own buffer, which
  \<open>g_attrib_send\<close> reads.
\<close>

datatype client_fn = ResultOf gatt_cb | DestroyOf gatt_cb

definition destroy_of :: "gatt_cb \<Rightarrow> client_fn ptr" where
  "destroy_of cb = (case cb of PREPARE_WRITE_CB \<Rightarrow> NULL | USER_FUNC \<Rightarrow> NULL | _ \<Rightarrow> Ptr (DestroyOf cb))"

definition gattrib_ops :: "'a bt_att_ops \<Rightarrow> (nat \<Rightarrow> u8) \<Rightarrow> (client_fn, unit, 'a) gattrib attrib_ops" where
  "gattrib_ops A junk =
     \<lparr>ao_buffer = (\<lambda>g. case g_attrib_get_buffer A junk (Ptr g) of
        (Ptr r, Ptr g) \<Rightarrow> (r, g) | _ \<Rightarrow> (([], 0), g)),
      ao_send = (\<lambda>g i buf len cb. do {
        b \<leftarrow> deref buf;
        (rid, g) \<leftarrow> g_attrib_send A (Ptr (g\<lparr>ga_buf := b\<rparr>)) i buf len (Ptr (ResultOf cb)) () (destroy_of cb);
        g \<leftarrow> deref g;
        Some (rid, g) })\<rparr>"

text \<open>A transport whose MTU a request does not change.\<close>

definition mtu_kept :: "'a bt_att_ops \<Rightarrow> bool" where
  "mtu_kept A \<longleftrightarrow>
     (\<forall>a op body cb. ba_get_mtu A (snd (ba_send A a op body cb)) = ba_get_mtu A a) \<and>
     (\<forall>a i op body cb. ba_get_mtu A (snd (ba_resend A a i op body cb)) = ba_get_mtu A a)"

definition gattrib_mtu :: "'a bt_att_ops \<Rightarrow> ('f, 'u, 'a) gattrib \<Rightarrow> nat" where
  "gattrib_mtu A g = unat (ba_get_mtu A (ga_att g))"

definition gattrib_ok :: "'a bt_att_ops \<Rightarrow> ('f, 'u, 'a) gattrib \<Rightarrow> bool" where
  "gattrib_ok A g \<longleftrightarrow> mtu_kept A \<and> (\<exists>cs. wf_gattrib g cs) \<and> 23 \<le> gattrib_mtu A g \<and>
     ga_buflen g \<le> int (gattrib_mtu A g)"

lemma gattrib_buffer:
  assumes "gattrib_ok A g"
  shows "\<exists>b n g'. ao_buffer (gattrib_ops A junk) g = ((b, n), g') \<and> unat n = gattrib_mtu A g \<and>
    gattrib_mtu A g \<le> length b \<and> gattrib_ok A g' \<and> gattrib_mtu A g' = gattrib_mtu A g"
proof -
  obtain cs where "wf_gattrib g cs" using assms by (auto simp: gattrib_ok_def)
  from get_buffer_wf [OF this, of A junk] obtain b g' where
    g': "g_attrib_get_buffer A junk (Ptr g) = (Ptr (b, ucast (ba_get_mtu A (ga_att g))), Ptr g')"
    "unat (ba_get_mtu A (ga_att g)) \<le> length b" "wf_gattrib g' cs" "ga_att g' = ga_att g" by blast
  then have "ga_buflen g' = int (unat (ba_get_mtu A (ga_att g)))"
    by (auto simp: g_attrib_get_buffer_def Let_def)
  with g' assms show ?thesis by (auto simp: gattrib_ops_def gattrib_ok_def gattrib_mtu_def)
qed

lemma gattrib_send:
  assumes "gattrib_ok A g" "0 < len" "unat len \<le> length b" "gattrib_mtu A g \<le> length b"
  shows "\<exists>rid g'. ao_send (gattrib_ops A junk) g i (Ptr b) len cb = Some (rid, g') \<and> gattrib_ok A g' \<and>
    gattrib_mtu A g' = gattrib_mtu A g"
proof -
  obtain cs where cs: "wf_gattrib g cs" using assms(1) by (auto simp: gattrib_ok_def)
  let ?g = "g\<lparr>ga_buf := b\<rparr>"
  have "wf_gattrib ?g cs" using cs assms(1,4) by (auto simp: wf_gattrib_def gattrib_ok_def)
  from send_wf [OF this assms(2,3), of "Ptr (ResultOf cb)" "destroy_of cb" A i "()"] obtain rid g' where
    g': "g_attrib_send A (Ptr ?g) i (Ptr b) len (Ptr (ResultOf cb)) () (destroy_of cb) = Some (rid, Ptr g')"
    "wf_gattrib g' (ga_brk g # cs)" "ga_buflen g' = ga_buflen g"
    "(rid, ga_att g') =
      (if i = 0 then ba_send A (ga_att g) (b ! 0) (take (unat len - 1) (drop 1 b)) (Ptr (ga_brk g))
       else let (err, att) = ba_resend A (ga_att g) i (b ! 0) (take (unat len - 1) (drop 1 b)) (Ptr (ga_brk g))
            in (if err \<noteq> 0 then 0 else i, att))" by auto
  have "ga_att g' = (if i = 0 then snd (ba_send A (ga_att g) (b ! 0) (take (unat len - 1) (drop 1 b)) (Ptr (ga_brk g)))
     else snd (ba_resend A (ga_att g) i (b ! 0) (take (unat len - 1) (drop 1 b)) (Ptr (ga_brk g))))"
    using arg_cong [OF g'(4), of snd] by (auto split: prod.splits)
  with assms(1) have "gattrib_mtu A g' = gattrib_mtu A g"
    by (auto simp: gattrib_mtu_def gattrib_ok_def mtu_kept_def)
  with g' assms(1) show ?thesis by (auto simp: gattrib_ops_def gattrib_ok_def)
qed

lemma gattrib_mtu_range: "gattrib_ok A g \<Longrightarrow> 23 \<le> gattrib_mtu A g \<and> gattrib_mtu A g < 65536"
  using unat_lt_16 by (simp add: gattrib_ok_def gattrib_mtu_def)

interpretation client: attrib_contract "gattrib_ops A junk" "gattrib_ok A" "gattrib_mtu A"
  for A :: "'a bt_att_ops" and junk
  by unfold_locales (rule gattrib_mtu_range gattrib_buffer gattrib_send; assumption)+

section \<open>Properties\<close>

text \<open>
  Discovery of all primary services is memory safe and advances on every answer a peer can
  give, well formed or not: the response callback reads only inside the packet, keeps the client
  object well formed, and either reports to its caller or asks again from a strictly higher handle.
\<close>

theorem primary_callback_safe:
  assumes "gattrib_ok A g" "pk \<noteq> []" "length pk < 65536"
  shows "\<exists>dp' g' r. primary_all_cb (gattrib_ops A junk) mem status pk (of_nat (length pk)) (dp, g) =
      Some ((dp', g'), r) \<and>
    gattrib_ok A g' \<and> (r = None \<longrightarrow> dp_start dp < dp_start dp')"
  by (rule client.primary_all_cb_safe [OF assms])

text \<open>An object of the examples: a client of the transport that takes every request.\<close>

definition example_client :: "(client_fn, unit, nat) gattrib" where
  "example_client = \<lparr>ga_ref = 1, ga_att = 0, ga_io = 3, ga_destroy = NULL, ga_destroy_user_data = (),
     ga_callbacks = queue_new, ga_buf = replicate 23 0, ga_buflen = 23, ga_track_ids = queue_new,
     ga_cbs = Map.empty, ga_brk = 0\<rparr>"

lemma example_client_ok: "gattrib_ok counting_att example_client"
  by (auto simp: gattrib_ok_def wf_gattrib_def example_client_def mtu_kept_def counting_att_def gattrib_mtu_def
      intro!: exI [of _ "[]"] rep_new)

definition example_dp :: discover_primary where
  "example_dp = \<lparr>dp_ref = 1, dp_id = 1, dp_uuid = BT_UUID_UNSPEC, dp_start = 1, dp_primaries = []\<rparr>"

theorem primary_callback_safe_witness:
  "\<exists>dp' g' r. primary_all_cb (gattrib_ops counting_att (\<lambda>_. 0)) (\<lambda>_. True) 0 [0x11, 6, 1] 3 (example_dp, example_client) =
      Some ((dp', g'), r) \<and> gattrib_ok counting_att g' \<and> (r = None \<longrightarrow> 1 < dp_start dp')"
  using primary_callback_safe [OF example_client_ok, of "[0x11, 6, 1]" "\<lambda>_. 0" "\<lambda>_. True" 0 example_dp]
  by (simp add: example_dp_def)

text \<open>
  C19: Discovery of all primary services ends, whatever the peer answers: after at most 65535
  answers of any content the caller's function has been called.
\<close>

theorem primary_discovery_terminates:
  assumes "gattrib_ok A g" "\<And>j rq. snd (srv j rq) \<noteq> [] \<and> length (snd (srv j rq)) < 65536"
  shows "\<exists>rid dp g' sent err prims.
    gatt_discover_primary (recorded (gattrib_ops A junk)) True NULL (g, []) = Some (rid, Some dp, (g', sent)) \<and>
    primary_rounds (recorded (gattrib_ops A junk)) mem srv 0 65535 (dp, g', sent) = Some (Some (err, prims))"
proof -
  obtain rid dp g' where d: "gatt_discover_primary (recorded (gattrib_ops A junk)) True NULL (g, []) =
      Some (rid, Some dp, (g', [primary_req 1]))"
    "gattrib_ok A g'" "dp_start dp = 1" using client.primary_start_sent [OF assms(1)] by blast
  from client.primary_rounds_end [OF d(2) assms(2), where dp = dp and n = 65535 and junk = junk and mem = mem and i = 0]
    d(1,3) show ?thesis by (simp del: primary_rounds.simps att_bytes.simps)
qed

theorem primary_discovery_terminates_witness:
  "\<exists>rid dp g' sent err prims.
     gatt_discover_primary (recorded (gattrib_ops counting_att (\<lambda>_. 0))) True NULL (example_client, []) =
       Some (rid, Some dp, (g', sent)) \<and>
     primary_rounds (recorded (gattrib_ops counting_att (\<lambda>_. 0))) (\<lambda>_. True)
       (\<lambda>j rq. let h = of_le (take 2 (drop 1 rq)) :: u16 in (0, [0x11, 6] @ le16 h @ le16 h @ [0, 0x18])) 0 65535 (dp, g', sent) =
       Some (Some (err, prims))"
  by (rule primary_discovery_terminates [OF example_client_ok]) (simp add: Let_def)

text \<open>
  On a response with service rows the callback appends one item per row, in order, with the
  row's range and the text of its UUID; then it reports Unlikely Error when the last group ends
  before the handle asked for, reports success when it ends at 0xFFFF, and otherwise sends exactly
  the bytes of a Read By Group Type Request for the handles after it, under its own request id.
\<close>

theorem primary_response_handled:
  assumes "gattrib_ok A g" "group_ok pk"
  shows "primary_all_cb (gattrib_ops A junk) (\<lambda>_. True) 0 pk (of_nat (length pk)) (dp, g) =
    primary_round (gattrib_ops A junk) (map row_service (group_rows pk)) (dp, g)"
  by (rule client.primary_all_cb_rows [OF assms])

theorem primary_response_handled_witness:
  "primary_all_cb (gattrib_ops counting_att (\<lambda>_. 0)) (\<lambda>_. True) 0
     [0x11, 6, 1, 0, 0xFF, 0xFF, 0x00, 0x18] 8 (example_dp, example_client) =
   Some ((example_dp\<lparr>dp_primaries := [service_item (1, 0xFFFF, BT_UUID16 0x1800)], dp_start := 0\<rparr>, example_client),
     Some (0, [service_item (1, 0xFFFF, BT_UUID16 0x1800)]))"
proof -
  have r: "map row_service (group_rows [0x11, 6, 1, 0, 0xFF, 0xFF, 0x00, 0x18]) = [(1, 0xFFFF, BT_UUID16 0x1800)]"
    by (simp add: group_rows_def row_service_def)
  show ?thesis
    using primary_response_handled [OF example_client_ok, of "[0x11, 6, 1, 0, 0xFF, 0xFF, 0x00, 0x18]" "\<lambda>_. 0" example_dp]
    unfolding r by (simp add: group_ok_def primary_round_def example_dp_def Let_def)
qed

text \<open>
  C14: Against a conforming server, which sees only the bytes the client sends, discovery of all
  primary services is complete and exact: whatever its services, and however many it packs into each
  response, the caller gets status 0 and every service once, in order, after at most one answer more
  than there are services.
\<close>

theorem primary_discovery_complete:
  assumes "gattrib_ok A g" "wf_services db" "primary_server db srv" "length db < n"
  shows "\<exists>rid dp g' sent.
    gatt_discover_primary (recorded (gattrib_ops A junk)) True NULL (g, []) = Some (rid, Some dp, (g', sent)) \<and>
    primary_rounds (recorded (gattrib_ops A junk)) (\<lambda>_. True) srv 0 n (dp, g', sent) =
      Some (Some (0, map service_item db))"
proof -
  obtain rid dp g' where d: "gatt_discover_primary (recorded (gattrib_ops A junk)) True NULL (g, []) =
      Some (rid, Some dp, (g', [primary_req 1]))"
    "gattrib_ok A g'" "dp_start dp = 1" "dp_primaries dp = []" using client.primary_start_sent [OF assms(1)] by blast
  have "services_from db 1 = db"
    using assms(2) by (auto simp: from_handle_def wf_services_def filter_id_conv)
  with d(3,4) assms(4) have "primary_rounds (recorded (gattrib_ops A junk)) (\<lambda>_. True) srv 0 n
      (dp, g', [primary_req (dp_start dp)]) = Some (Some (0, map service_item db))"
    by (intro client.primary_rounds_complete [OF assms(2,3) d(2), where pre = "[]"]) auto
  with d(1,3) show ?thesis by (simp only:) blast
qed

definition example_services :: "service list" where
  "example_services = [(1, 5, BT_UUID16 0x1800), (9, 0xFFFF, BT_UUID16 0x1801)]"

text \<open>It reads the first handle out of the request.\<close>

definition example_server :: "nat \<Rightarrow> buf \<Rightarrow> u8 \<times> buf" where
  "example_server i rq =
     (let h = of_le (take 2 (drop 1 rq)) :: u16 in
      if h \<le> 1 then (0, att_bytes (ReadByGroupResp (of_nat 6) [service_row (1, 5, BT_UUID16 0x1800)]))
      else if h \<le> 9 then (0, att_bytes (ReadByGroupResp (of_nat 6) [service_row (9, 0xFFFF, BT_UUID16 0x1801)]))
      else (ATT_ECODE_ATTR_NOT_FOUND, [1, 0x10, 0, 0, 0x0A]))"

lemma example_server_ok: "wf_services example_services \<and> primary_server example_services example_server"
proof
  show "wf_services example_services"
    by (auto simp: wf_services_def ordered_def example_services_def att_uuid_len_def)
  have r: "example_server i (primary_req h) =
     (if h \<le> 1 then (0, att_bytes (ReadByGroupResp (of_nat 6) [service_row (1, 5, BT_UUID16 0x1800)]))
      else if h \<le> 9 then (0, att_bytes (ReadByGroupResp (of_nat 6) [service_row (9, 0xFFFF, BT_UUID16 0x1801)]))
      else (ATT_ECODE_ATTR_NOT_FOUND, [1, 0x10, 0, 0, 0x0A]))" for i h
    by (simp add: example_server_def Let_def)
  have "h \<le> 9" if "h \<le> 1" for h :: u16 using that by (simp add: word_le_nat_alt)
  then have f: "services_from example_services h =
      (if h \<le> 1 then [(1, 5, BT_UUID16 0x1800)] @ [(9, 0xFFFF, BT_UUID16 0x1801)]
       else if h \<le> 9 then [(9, 0xFFFF, BT_UUID16 0x1801)] @ [] else [])" for h
    by (simp add: from_handle_def example_services_def)
  have row: "svcs \<noteq> [] \<Longrightarrow> \<forall>sv\<in>set svcs. length (service_row sv) = 6 \<Longrightarrow> length svcs * 6 + 2 < 65536 \<Longrightarrow>
      \<exists>svcs' later' n. svcs @ later = svcs' @ later' \<and> svcs' \<noteq> [] \<and> (\<forall>sv\<in>set svcs'. length (service_row sv) = n) \<and>
        length svcs' * n + 2 < 65536 \<and> (0 :: u8, att_bytes (ReadByGroupResp (of_nat 6) (map service_row svcs))) =
          (0, att_bytes (ReadByGroupResp (of_nat n) (map service_row svcs')))" for svcs later
    by blast
  show "primary_server example_services example_server"
    unfolding primary_server_def f r
    using row [of "[(1, 5, BT_UUID16 0x1800)]" "[(9, 0xFFFF, BT_UUID16 0x1801)]"]
      row [of "[(9, 0xFFFF, BT_UUID16 0x1801)]" "[]"] by simp
qed

theorem primary_discovery_complete_witness:
  "\<exists>rid dp g' sent.
    gatt_discover_primary (recorded (gattrib_ops counting_att (\<lambda>_. 0))) True NULL (example_client, []) =
      Some (rid, Some dp, (g', sent)) \<and>
    primary_rounds (recorded (gattrib_ops counting_att (\<lambda>_. 0))) (\<lambda>_. True) example_server 0 3 (dp, g', sent) =
      Some (Some (0, map service_item example_services))"
  by (rule primary_discovery_complete [OF example_client_ok]) (simp_all add: example_server_ok, simp add: example_services_def)

end
