(* ===== verification/GattChar.thy ===== *)
theory GattChar
  imports GattPrimary
begin

text \<open>
  Characteristic discovery, under the same contract as primary discovery (locale
  \<open>attrib_contract\<close> of theory GattPrimary).  Against a conforming server it is complete; it also
  has two defects that a peer can trigger, which the last section states: rows of a length the
  code does not expect are read past their end, and a row with handle 0xFFFF restarts the search
  at handle 0, without end.
\<close>

section \<open>Rows of characteristics\<close>

text \<open>A declaration: handle, properties, value handle, UUID.\<close>

type_synonym char_decl = "u16 \<times> u8 \<times> u16 \<times> bt_uuid"

fun char_row :: "char_decl \<Rightarrow> buf" where
  "char_row (h, p, v, u) = le16 h @ [p] @ le16 v @ uuid_bytes u"

fun char_item :: "char_decl \<Rightarrow> gatt_char" where
  "char_item (h, p, v, u) =
     \<lparr>char_uuid = uuid_text (uuid_canon u), char_handle = h, char_properties = p, char_value_handle = v\<rparr>"

definition row_char :: "buf \<Rightarrow> char_decl" where
  "row_char d = (of_le (take 2 d), d ! 2, of_le (take 2 (drop 3 d)),
     if length d = 7 then BT_UUID16 (of_le (drop 5 d)) else BT_UUID128 (rev (drop 5 d)))"

text \<open>A search by UUID keeps the rows with an equal UUID.\<close>

definition wanted :: "bt_uuid ptr \<Rightarrow> char_decl \<Rightarrow> bool" where
  "wanted uuid c = (case uuid of NULL \<Rightarrow> True | Ptr u \<Rightarrow> uuid_canon u = uuid_canon (snd (snd (snd c))))"

lemma row_char_row:
  assumes "wf_uuid u" "att_uuid_len u = Some n"
  shows "row_char (char_row (h, p, v, u)) = (h, p, v, u)"
  using att_uuid_len_cases [OF assms] by (auto simp: row_char_def nth_append)

lemma collect_chars_step:
  assumes "i < length ds" "length (ds ! i) = (if type = 16 then 7 else 21)" "type = 16 \<or> type = 128"
    "\<And>u. uuid = Ptr u \<Longrightarrow> wf_uuid u"
  shows "collect_chars mem type uuid ds (Suc k) i e cs =
    (if \<not> wanted uuid (row_char (ds ! i)) then
       collect_chars mem type uuid ds k (Suc i) (fst (row_char (ds ! i))) cs
     else if \<not> mem i then Some (False, fst (row_char (ds ! i)), cs)
     else collect_chars mem type uuid ds k (Suc i) (fst (row_char (ds ! i))) (cs @ [char_item (row_char (ds ! i))]))"
proof -
  have l: "length (ds ! i) = 5 + 2 \<and> type = 16 \<or> length (ds ! i) = 5 + 16 \<and> type = 128" "5 \<le> length (ds ! i)"
    using assms(2,3) by (auto split: if_splits)
  let ?u = "snd (snd (snd (row_char (ds ! i))))"
  have u: "get_uuid128 type (ds ! i) 5 = Some (BT_UUID128 (uuid_canon ?u))" "wf_uuid ?u"
    using l by (auto simp: get_uuid128_row [OF l(1)] row_char_def simp del: uuid_canon_simps)
  have c: "\<exists>c. bt_uuid_cmp v (BT_UUID128 (uuid_canon ?u)) = Some c \<and> (c = 0) = (uuid_canon v = uuid_canon ?u)"
    if "wf_uuid v" for v
    using that bt_uuid_cmp_0_iff [of v "BT_UUID128 (uuid_canon ?u)"] wf_uuid_canon_length [OF u(2)]
    by (auto simp: bt_uuid_cmp_wf)
  have r: "get_le16 (ds ! i) 0 = Some (fst (row_char (ds ! i)))" "rd8 (ds ! i) 2 = Some (ds ! i ! 2)"
    "get_le16 (ds ! i) 3 = Some (fst (snd (snd (row_char (ds ! i)))))"
    using l(2) by (simp_all add: get_le16_Some row_char_def rd8_def)
  have "(char_item (row_char (ds ! i)) :: gatt_char) =
      \<lparr>char_uuid = uuid_text (uuid_canon ?u), char_handle = fst (row_char (ds ! i)),
       char_properties = ds ! i ! 2, char_value_handle = fst (snd (snd (row_char (ds ! i))))\<rparr>"
    by (simp add: row_char_def)
  moreover have "(case uuid of NULL \<Rightarrow> Some False
      | Ptr v \<Rightarrow> do { c \<leftarrow> bt_uuid_cmp v (BT_UUID128 (uuid_canon ?u)); Some (c \<noteq> 0) }) =
      Some (\<not> wanted uuid (row_char (ds ! i)))"
    using assms(4) c by (cases uuid) (force simp: wanted_def)+
  ultimately show ?thesis using assms(1) u r uuid_string_row [OF u(2)]
    by (simp add: row_def del: char_item.simps)
qed

lemma collect_chars_all:
  assumes "i + k \<le> length ds" "\<forall>d\<in>set ds. length d = (if type = 16 then 7 else 21)" "type = 16 \<or> type = 128"
    "\<And>u. uuid = Ptr u \<Longrightarrow> wf_uuid u"
  shows "collect_chars (\<lambda>_. True) type uuid ds k i e cs =
    Some (True, if k = 0 then e else fst (row_char (ds ! (i + k - 1))),
      cs @ map char_item (filter (wanted uuid) (map row_char (take k (drop i ds)))))"
  using assms(1)
proof (induction k arbitrary: i e cs)
  case (Suc k)
  then have i: "i < length ds" by simp
  then have l: "length (ds ! i) = (if type = 16 then 7 else 21)" using assms(2) by simp
  have "take (Suc k) (drop i ds) = ds ! i # take k (drop (Suc i) ds)"
    by (simp add: i Cons_nth_drop_Suc [symmetric])
  with collect_chars_step [OF i l assms(3,4)] Suc.IH [of "Suc i"] Suc.prems show ?case
    by (simp del: collect_chars.simps(2) char_item.simps)
qed simp

lemma collect_chars_safe:
  assumes "i + k \<le> length ds" "\<forall>d\<in>set ds. length d = (if type = 16 then 7 else 21)" "type = 16 \<or> type = 128"
    "\<And>u. uuid = Ptr u \<Longrightarrow> wf_uuid u"
  shows "\<exists>r e' cs'. collect_chars mem type uuid ds k i e cs = Some (r, e', cs')"
  using assms(1)
proof (induction k arbitrary: i e cs)
  case (Suc k)
  then have i: "i < length ds" by simp
  then have l: "length (ds ! i) = (if type = 16 then 7 else 21)" using assms(2) by simp
  with collect_chars_step [OF i l assms(3,4)] Suc.IH [of "Suc i"] Suc.prems show ?case
    by (auto simp del: collect_chars.simps(2))
qed (simp add: exI)

section \<open>Responses\<close>

text \<open>A Read By Type response the procedure is made for: rows of 7 or 21 bytes.\<close>

definition type_rows :: "buf \<Rightarrow> buf list" where
  "type_rows pk = chunks ((length pk - 2) div unat (pk ! 1)) (unat (pk ! 1)) (drop 2 pk)"

definition type_ok :: "buf \<Rightarrow> bool" where
  "type_ok pk \<longleftrightarrow> 5 \<le> length pk \<and> length pk < 65536 \<and> pk ! 0 = ATT_OP_READ_BY_TYPE_RESP \<and>
     3 \<le> unat (pk ! 1) \<and> (length pk - 2) mod unat (pk ! 1) = 0"

lemma type_rows_props:
  assumes "type_ok pk"
  shows "type_rows pk \<noteq> []" "length (type_rows pk) < 65536" "\<forall>d\<in>set (type_rows pk). length d = unat (pk ! 1)"
proof -
  let ?n = "unat (pk ! 1)" and ?k = "(length pk - 2) div unat (pk ! 1)"
  have l: "?k * ?n = length pk - 2" using assms unfolding type_ok_def by (metis mult_div_mod_eq add_0_right mult.commute)
  then have "0 < ?k" using assms by (cases ?k) (auto simp: type_ok_def)
  then show "type_rows pk \<noteq> []" by (cases ?k) (auto simp: type_rows_def)
  have "?k < 65536" using div_le_dividend [of "length pk - 2" ?n] assms unfolding type_ok_def by linarith
  then show "length (type_rows pk) < 65536" by (simp add: type_rows_def)
  show "\<forall>d\<in>set (type_rows pk). length d = unat (pk ! 1)"
  proof
    fix d assume "d \<in> set (type_rows pk)"
    then show "length d = ?n" using l by (intro chunks_rows [of ?k ?n "drop 2 pk"]) (simp_all add: type_rows_def)
  qed
qed

lemma dec_type_ok:
  assumes "type_ok pk"
  shows "dec_read_by_type_resp (Ptr pk) (of_nat (length pk)) =
    Some (Ptr \<lparr>adl_num = of_nat (length (type_rows pk)), adl_len = ucast (pk ! 1), adl_data = type_rows pk\<rparr>)"
proof -
  have "pk \<noteq> []" "length pk < 65536" using assms by (auto simp: type_ok_def)
  with assms show ?thesis
    by (auto simp: dec_type_resp type_ok_def rows_list_def type_rows_def Let_def)
qed

lemma dec_type_other:
  assumes "\<not> type_ok pk" "pk \<noteq> []" "length pk < 65536"
  shows "dec_read_by_type_resp (Ptr pk) (of_nat (length pk)) = Some NULL"
  using assms by (auto simp: dec_type_resp type_ok_def)

lemma ucast_7: "((ucast (b :: u8) :: u16) = 7) = (b = 7)"
  using unat_lt_8 [of b] by (auto simp: word_unat_eq_iff)

section \<open>Rounds\<close>

text \<open>
  The exchange, as for primary services: \<open>srv i rq\<close> answers the bytes \<open>rq\<close> of the \<open>i\<close>-th request, the
  only one outstanding.
\<close>

primrec char_rounds ::
    "('s \<times> buf list) attrib_ops \<Rightarrow> (nat \<Rightarrow> bool) \<Rightarrow> (nat \<Rightarrow> buf \<Rightarrow> u8 \<times> buf) \<Rightarrow> nat \<Rightarrow> nat \<Rightarrow>
       discover_char \<times> 's \<times> buf list \<Rightarrow> (u8 \<times> gatt_char list) option option" where
  "char_rounds ops mem srv i 0 st = Some None"
| "char_rounds ops mem srv i (Suc n) st =
     (case st of
        (dc, s, [rq]) \<Rightarrow> do {
          let (status, pk) = srv i rq;
          (st, r) \<leftarrow> char_discovered_cb ops mem status pk (of_nat (length pk)) (dc, (s, []));
          (case r of Some x \<Rightarrow> Some (Some x) | None \<Rightarrow> char_rounds ops mem srv (Suc i) n st) }
      | _ \<Rightarrow> None)"

definition char_req :: "u16 \<Rightarrow> u16 \<Rightarrow> att_pdu" where
  "char_req st en = ReadByTypeReq st en (BT_UUID16 0x2803)"

lemma length_char_req [simp]: "length (att_bytes (char_req st en)) = 7"
  by (simp add: char_req_def)

lemma encode_char_req:
  assumes "7 \<le> length p"
  shows "enc_read_by_type_req st en (Ptr (snd (bt_uuid16_create 0x2803))) (Ptr p) n =
    Some (7, Ptr (written (att_bytes (char_req st en)) p))"
  using enc_uuid_req(1) [of "BT_UUID16 0x2803" 2 p st en n] assms
  by (simp add: encodes_def att_uuid_len_def bt_uuid16_create_def char_req_def)

text \<open>
  The characteristics of a server in the range from \<open>st\<close> to \<open>en\<close>, and a conforming server, which
  reads the first handle out of the request for the characteristics up to \<open>en\<close>.
\<close>

definition wf_chars :: "u16 \<Rightarrow> u16 \<Rightarrow> char_decl list \<Rightarrow> bool" where
  "wf_chars st en db \<longleftrightarrow>
     (\<forall>(h, p, v, u)\<in>set db. 1 \<le> h \<and> st \<le> h \<and> h < en \<and> wf_uuid u \<and> att_uuid_len u \<noteq> None) \<and>
     ordered fst fst db"

definition char_server :: "u16 \<Rightarrow> char_decl list \<Rightarrow> (nat \<Rightarrow> buf \<Rightarrow> u8 \<times> buf) \<Rightarrow> bool" where
  "char_server en db srv \<longleftrightarrow>
     (\<forall>i h. if from_handle fst db h = [] then fst (srv i (att_bytes (char_req h en))) = ATT_ECODE_ATTR_NOT_FOUND
       else \<exists>cs later n. from_handle fst db h = cs @ later \<and> cs \<noteq> [] \<and>
         (\<forall>c\<in>set cs. length (char_row c) = n) \<and> length cs * n + 2 < 65536 \<and>
         srv i (att_bytes (char_req h en)) = (0, att_bytes (ReadByTypeResp (of_nat n) (map char_row cs))))"

lemma char_row_len: "wf_chars st en db \<Longrightarrow> c \<in> set db \<Longrightarrow> length (char_row c) = 7 \<or> length (char_row c) = 21"
  by (cases c) (auto simp: wf_chars_def dest!: bspec att_uuid_len_cases)

lemma char_row_map:
  assumes "wf_chars st en db" "set cs \<subseteq> set db"
  shows "map row_char (map char_row cs) = cs"
proof -
  have "map (row_char \<circ> char_row) cs = cs"
    using assms by (intro map_idI) (force simp: wf_chars_def row_char_row simp del: char_row.simps)
  then show ?thesis by simp
qed

lemma type_resp_rows:
  assumes "\<forall>r\<in>set rows. length r = n" "3 \<le> n" "n < 256" "rows \<noteq> []" "length rows * n + 2 < 65536"
  shows "type_ok (att_bytes (ReadByTypeResp (of_nat n) rows))"
    "type_rows (att_bytes (ReadByTypeResp (of_nat n) rows)) = rows"
proof -
  have l: "length (concat rows) = length rows * n" using assms(1) by (induction rows) auto
  have c: "chunks (length rows) n (concat rows) = rows" using chunks_concat [of rows n "[]"] assms(1) by simp
  have n: "unat (of_nat n :: u8) = n" using assms(3) by (simp add: unat_of_nat take_bit_nat_eq_self)
  have "1 * 3 \<le> length rows * n" using assms(2,4) by (intro mult_le_mono) (cases rows; simp)+
  then show "type_ok (att_bytes (ReadByTypeResp (of_nat n) rows))"
    using assms(2,5) l n by (auto simp: type_ok_def)
  show "type_rows (att_bytes (ReadByTypeResp (of_nat n) rows)) = rows"
    using assms(2) l c n by (auto simp: type_rows_def)
qed

context attrib_contract
begin

lemma char_start:
  assumes "ok s"
  shows "\<exists>rid dc s'. gatt_discover_char ops True st en uuid s = Some (rid, Some dc, s') \<and> ok s' \<and> mtu s' = mtu s \<and>
    dc_start dc = st \<and> dc_end dc = en \<and> dc_uuid dc = uuid \<and> dc_characteristics dc = []"
proof -
  obtain b n s1 where b: "ao_buffer ops s = ((b, n), s1)" "23 \<le> length b" "delivers ops ok mtu b s1" "mtu s1 = mtu s"
    using request [OF assms] by blast
  from deliversD [OF b(3), of "char_req st en" 0 CHAR_DISCOVERED_CB] b(2,4) obtain rid s2 where
    "ao_send ops s1 0 (Ptr (written (att_bytes (char_req st en)) b)) 7 CHAR_DISCOVERED_CB = Some (rid, s2)" "ok s2"
    "mtu s2 = mtu s" by auto
  then show ?thesis using b(1,2)
    by (simp add: gatt_discover_char_def encode_char_req discover_char_ref_def Let_def)
qed

lemma char_start_sent:
  assumes "ok s"
  shows "\<exists>rid dc s'. gatt_discover_char (recorded ops) True st en uuid (s, []) =
      Some (rid, Some dc, (s', [att_bytes (char_req st en)])) \<and> ok s' \<and>
    dc_start dc = st \<and> dc_end dc = en \<and> dc_uuid dc = uuid \<and> dc_characteristics dc = []"
proof -
  obtain b n s1 where b: "\<And>l. ao_buffer (recorded ops) (s, l) = ((b, n), (s1, l))" "23 \<le> length b"
    "delivers_logged ops ok mtu b s1" using request_logged [OF assms] by blast
  from delivers_loggedD [OF b(3), of "char_req st en" "[]" 0 CHAR_DISCOVERED_CB] b(2) obtain rid s2 where
    "ao_send (recorded ops) (s1, []) 0 (Ptr (written (att_bytes (char_req st en)) b)) 7 CHAR_DISCOVERED_CB =
      Some (rid, (s2, [att_bytes (char_req st en)]))" "ok s2" by auto
  then show ?thesis using b(1,2)
    by (simp add: gatt_discover_char_def encode_char_req discover_char_ref_def Let_def)
qed

lemma char_round_sent:
  assumes "ok s" "type_ok pk" "pk ! 1 = 7 \<or> pk ! 1 = 21" "\<And>u. dc_uuid dc = Ptr u \<Longrightarrow> wf_uuid u"
    "char_discovered_cb (recorded ops) (\<lambda>_. True) 0 pk (of_nat (length pk)) (dc, (s, [])) = Some ((dc', (s', l)), None)"
  shows "l = [att_bytes (char_req (dc_start dc') (dc_end dc'))]"
proof -
  note R = type_rows_props [OF assms(2)]
  let ?ds = "type_rows pk" and ?type = "if pk ! 1 = 7 then 16 else 128 :: u8"
  have d: "\<forall>d\<in>set ?ds. length d = (if ?type = 16 then 7 else 21)" using R(3) assms(3) by auto
  obtain e kept where c: "collect_chars (\<lambda>_. True) ?type (dc_uuid dc) ?ds (length ?ds) 0 0 (dc_characteristics dc) =
      Some (True, e, kept)"
    using collect_chars_all [of 0 "length ?ds" ?ds ?type "dc_uuid dc" 0 "dc_characteristics dc", OF _ d] assms(4) by simp
  obtain b n s1 where b: "\<And>l. ao_buffer (recorded ops) (s, l) = ((b, n), (s1, l))" "23 \<le> length b"
    "delivers_logged ops ok mtu b s1" using request_logged [OF assms(1)] by blast
  from delivers_loggedD [OF b(3), of "char_req (e + 1) (dc_end dc)" "[]" "dc_id dc" CHAR_DISCOVERED_CB] b(2) obtain rid s2 where
    s2: "ao_send (recorded ops) (s1, []) (dc_id dc) (Ptr (written (att_bytes (char_req (e + 1) (dc_end dc))) b)) 7
      CHAR_DISCOVERED_CB = Some (rid, (s2, [att_bytes (char_req (e + 1) (dc_end dc))]))" by auto
  have w: "(ucast (of_nat (length pk) :: u16) :: size_t) = of_nat (length pk)"
    using assms(2) by (simp add: ucast_of_nat_16_32 type_ok_def)
  show ?thesis using assms(5) c R(2) b(1,2) s2 w
    by (auto simp add: char_discovered_cb_def dec_type_ok [OF assms(2)] encode_char_req ucast_7 discover_char_ref_def Let_def
        cong: ptr.case_cong split: if_splits)
qed

lemma char_round:
  assumes "ok s" "type_ok pk" "pk ! 1 = 7 \<or> pk ! 1 = 21" "\<And>u. dc_uuid dc = Ptr u \<Longrightarrow> wf_uuid u"
  defines "cs \<equiv> map row_char (type_rows pk)"
  defines "kept \<equiv> dc_characteristics dc @ map char_item (filter (wanted (dc_uuid dc)) cs)"
  shows "\<exists>dc' s' r. char_discovered_cb ops (\<lambda>_. True) 0 pk (of_nat (length pk)) (dc, s) = Some ((dc', s'), r) \<and> ok s' \<and>
    (if fst (last cs) < dc_start dc then r = Some (ATT_ECODE_UNLIKELY, kept)
     else dc_start dc' = fst (last cs) + 1 \<and> dc_end dc' = dc_end dc \<and> dc_uuid dc' = dc_uuid dc \<and>
       dc_characteristics dc' = kept \<and>
       r = (if fst (last cs) \<noteq> 0 \<and> fst (last cs) + 1 < dc_end dc then None else Some (0, kept)))"
proof -
  note R = type_rows_props [OF assms(2)]
  let ?ds = "type_rows pk" and ?type = "if pk ! 1 = 7 then 16 else 128 :: u8" and ?l = "fst (last cs)"
  have d: "\<forall>d\<in>set ?ds. length d = (if ?type = 16 then 7 else 21)" using R(3) assms(3) by auto
  have c: "collect_chars (\<lambda>_. True) ?type (dc_uuid dc) ?ds (length ?ds) 0 0 (dc_characteristics dc) = Some (True, ?l, kept)"
    using collect_chars_all [of 0 "length ?ds" ?ds ?type "dc_uuid dc" 0 "dc_characteristics dc", OF _ d] R(1) assms(4)
    by (simp add: cs_def kept_def last_map last_conv_nth comp_def)
  obtain b n s1 where b: "ao_buffer ops s = ((b, n), s1)" "23 \<le> length b" "delivers ops ok mtu b s1"
    using request [OF assms(1)] by blast
  from deliversD [OF b(3), of "char_req (?l + 1) (dc_end dc)" "dc_id dc" CHAR_DISCOVERED_CB] b(2) obtain rid s2 where
    s2: "ao_send ops s1 (dc_id dc) (Ptr (written (att_bytes (char_req (?l + 1) (dc_end dc))) b)) 7 CHAR_DISCOVERED_CB =
      Some (rid, s2)" "ok s2" by auto
  have w: "(ucast (of_nat (length pk) :: u16) :: size_t) = of_nat (length pk)"
    using assms(2) by (simp add: ucast_of_nat_16_32 type_ok_def)
  show ?thesis using c R(2) b(1,2) s2 assms(1) w
    by (auto simp add: char_discovered_cb_def dec_type_ok [OF assms(2)] encode_char_req ucast_7 discover_char_ref_def Let_def
        cong: ptr.case_cong)
qed

lemma char_rounds_complete:
  assumes "wf_chars st (dc_end dc) db" "char_server (dc_end dc) db srv" "ok s" "\<And>u. dc_uuid dc = Ptr u \<Longrightarrow> wf_uuid u"
    "dc_characteristics dc = map char_item (filter (wanted (dc_uuid dc)) pre)"
    "db = pre @ from_handle fst db (dc_start dc)" "length (from_handle fst db (dc_start dc)) < n"
  shows "\<exists>err. char_rounds (recorded ops) (\<lambda>_. True) srv i n (dc, s, [att_bytes (char_req (dc_start dc) (dc_end dc))]) =
      Some (Some (err, map char_item (filter (wanted (dc_uuid dc)) db))) \<and>
    (err = 0 \<or> filter (wanted (dc_uuid dc)) db = [])"
  using assms
proof (induction n arbitrary: i dc s pre)
  case (Suc n)
  let ?rest = "from_handle fst db (dc_start dc)" and ?rq = "att_bytes (char_req (dc_start dc) (dc_end dc))"
  show ?case
  proof (cases "?rest = []")
    case True
    then have "fst (srv i ?rq) = ATT_ECODE_ATTR_NOT_FOUND"
      using Suc.prems(2) by (simp add: char_server_def)
    with True Suc.prems(5,6) show ?thesis
      by (cases "srv i ?rq") (simp add: char_discovered_cb_def)
  next
    case False
    then obtain cs later k where r: "?rest = cs @ later" "cs \<noteq> []"
      "\<forall>c\<in>set cs. length (char_row c) = k" "length cs * k + 2 < 65536"
      "srv i ?rq = (0, att_bytes (ReadByTypeResp (of_nat k) (map char_row cs)))"
      using Suc.prems(2) unfolding char_server_def by meson
    let ?pk = "att_bytes (ReadByTypeResp (of_nat k) (map char_row cs))" and ?l = "fst (last cs)"
    note sub = from_handle_sub [OF r(1)] and lastc = from_handle_last [OF r(1,2)]
    have ord: "ordered fst fst db" using Suc.prems(1) by (simp add: wf_chars_def)
    have "1 \<le> ?l \<and> ?l < dc_end dc" using lastc Suc.prems(1) by (cases "last cs") (force simp: wf_chars_def)
    with lastc have l: "\<not> ?l < dc_start dc" "?l \<noteq> 0" "?l < dc_end dc" by auto
    then have m: "?l \<noteq> 0xFFFF" using handle_max [of "dc_end dc"] by auto
    have k: "k = 7 \<or> k = 21" using char_row_len [OF Suc.prems(1) conjunct1 [OF lastc]] r(2,3) by auto
    note g = type_resp_rows [of "map char_row cs" k]
    have g: "type_ok ?pk" "map row_char (type_rows ?pk) = cs" "?pk ! 1 = 7 \<or> ?pk ! 1 = 21"
      using g r(2-4) k char_row_map [OF Suc.prems(1) sub] by auto
    obtain dc' s' l' r' where s': "char_discovered_cb (recorded ops) (\<lambda>_. True) 0 ?pk (of_nat (length ?pk)) (dc, (s, [])) = Some ((dc', (s', l')), r')"
      "ok s'" "dc_start dc' = ?l + 1" "dc_end dc' = dc_end dc" "dc_uuid dc' = dc_uuid dc"
      "dc_characteristics dc' = dc_characteristics dc @ map char_item (filter (wanted (dc_uuid dc)) cs)"
      "r' = (if ?l + 1 < dc_end dc then None else Some (0, dc_characteristics dc'))"
      using attrib_contract.char_round [where dc = dc and s = "(s, [])", OF recorded_contract _ g(1,3) Suc.prems(4)]
        Suc.prems(3) l unfolding g(2)
      by (auto simp del: att_bytes.simps)
    note nx = from_handle_next [OF ord r(1,2) m]
    have ln: "length later < n" using Suc.prems(7) r(1,2) by (cases cs) auto
    show ?thesis
    proof (cases "?l + 1 < dc_end dc")
      case True
      have l': "l' = [att_bytes (char_req (dc_start dc') (dc_end dc'))]"
        using char_round_sent [OF Suc.prems(3) g(1,3) Suc.prems(4)] s'(1,7) True by simp
      have "\<exists>err. char_rounds (recorded ops) (\<lambda>_. True) srv (Suc i) n (dc', s', l') =
            Some (Some (err, map char_item (filter (wanted (dc_uuid dc')) db))) \<and>
          (err = 0 \<or> filter (wanted (dc_uuid dc')) db = [])"
        unfolding l' using Suc.prems r(1) nx ln s'(2-6) by (intro Suc.IH [where pre = "pre @ cs"]) auto
      then show ?thesis using True s'(1,5,7) r(5) by (simp del: att_bytes.simps)
    next
      case False
      have "later = []"
      proof (rule ccontr)
        assume "later \<noteq> []"
        then obtain c where "c \<in> set (from_handle fst db (?l + 1))" unfolding nx by (cases later) auto
        then have "?l + 1 \<le> fst c" "fst c < dc_end dc" using Suc.prems(1)
          by (auto simp: from_handle_def wf_chars_def dest!: bspec)
        with False show False by auto
      qed
      then show ?thesis using False s'(1,6,7) r(1,5) Suc.prems(5,6) by (simp del: att_bytes.simps)
    qed
  qed
qed simp

text \<open>Any answer without rows, or with rows of the two lengths.\<close>

lemma char_cb_safe:
  assumes "ok s" "pk \<noteq> []" "length pk < 65536" "\<And>u. dc_uuid dc = Ptr u \<Longrightarrow> wf_uuid u"
    "status = 0 \<and> type_ok pk \<longrightarrow> pk ! 1 = 7 \<or> pk ! 1 = 21"
  shows "\<exists>dc' s' r. char_discovered_cb ops (\<lambda>_. True) status pk (of_nat (length pk)) (dc, s) = Some ((dc', s'), r) \<and> ok s'"
proof (cases "status = 0 \<and> type_ok pk")
  case True
  then have t: "type_ok pk" "pk ! 1 = 7 \<or> pk ! 1 = 21" "status = 0" using assms(5) by auto
  show ?thesis using char_round [where dc = dc, OF assms(1) t(1,2) assms(4)] unfolding t(3) by blast
next
  case False
  have w: "(ucast (of_nat (length pk) :: u16) :: size_t) = of_nat (length pk)"
    using assms(3) by (simp add: ucast_of_nat_16_32)
  from False dec_type_other [OF _ assms(2,3)] show ?thesis
    using assms(1) w by (cases "status = 0") (auto simp: char_discovered_cb_def)
qed

lemma char_endless:
  assumes "ok s" "\<And>j rq. srv j rq = (0, [0x09, 7, 0xFF, 0xFF, 0x02, 0, 0, 0x00, 0x2A])" "0 < dc_end dc" "dc_uuid dc = NULL"
  shows "char_rounds (recorded ops) (\<lambda>_. True) srv i n (dc, s, [rq]) = Some None"
  using assms(1,3,4)
proof (induction n arbitrary: i dc s rq)
  case (Suc n)
  let ?pk = "[0x09, 7, 0xFF, 0xFF, 0x02, 0, 0, 0x00, 0x2A] :: buf"
  have r: "type_ok ?pk" "fst (last (map row_char (type_rows ?pk))) = 0xFFFF"
    by (simp_all add: type_ok_def type_rows_def row_char_def)
  have e: "(0x10000 :: u16) = 0" by simp
  have m: "\<not> (0xFFFF :: u16) < x" for x using unat_lt_16 [of x] by (simp add: word_less_nat_alt)
  obtain dc' s' l' where s': "char_discovered_cb (recorded ops) (\<lambda>_. True) 0 ?pk (of_nat (length ?pk)) (dc, (s, [])) =
      Some ((dc', (s', l')), None)"
    "ok s'" "dc_end dc' = dc_end dc" "dc_uuid dc' = NULL"
    using attrib_contract.char_round [OF recorded_contract _ r(1), of "(s, [])" dc] Suc.prems r(2) m by (auto simp: e)
  have "l' = [att_bytes (char_req (dc_start dc') (dc_end dc'))]"
    using char_round_sent [OF Suc.prems(1) r(1) _ _ s'(1)] Suc.prems(3) by simp
  with Suc.IH [of s' dc'] Suc.prems(2) assms(2) s' show ?case by simp
qed simp

end

section \<open>Properties\<close>

text \<open>
  C15: Against a conforming server, which sees only the bytes the client sends, discovery of
  characteristics is complete and exact: whatever the characteristics in the range, and however many
  the server packs into each response, the caller gets every one with its handle, properties, value handle and UUID, in order, once; or, in a
  search by UUID, those with an equal UUID; with status 0 unless there is none.
\<close>

theorem char_discovery_complete:
  assumes "gattrib_ok A g" "wf_chars st en db" "char_server en db srv" "\<And>u. uuid = Ptr u \<Longrightarrow> wf_uuid u" "length db < n"
  shows "\<exists>rid dc g' sent err.
    gatt_discover_char (recorded (gattrib_ops A junk)) True st en uuid (g, []) = Some (rid, Some dc, (g', sent)) \<and>
    char_rounds (recorded (gattrib_ops A junk)) (\<lambda>_. True) srv 0 n (dc, g', sent) =
      Some (Some (err, map char_item (filter (wanted uuid) db))) \<and>
    (err = 0 \<or> filter (wanted uuid) db = [])"
proof -
  obtain rid dc g' where d: "gatt_discover_char (recorded (gattrib_ops A junk)) True st en uuid (g, []) =
      Some (rid, Some dc, (g', [att_bytes (char_req st en)]))"
    "gattrib_ok A g'" "dc_start dc = st" "dc_end dc = en" "dc_uuid dc = uuid" "dc_characteristics dc = []"
    using client.char_start_sent [OF assms(1)] by blast
  have "from_handle fst db st = db"
    using assms(2) by (auto simp: from_handle_def wf_chars_def filter_id_conv)
  then have "\<exists>err. char_rounds (recorded (gattrib_ops A junk)) (\<lambda>_. True) srv 0 n
        (dc, g', [att_bytes (char_req (dc_start dc) (dc_end dc))]) =
      Some (Some (err, map char_item (filter (wanted (dc_uuid dc)) db))) \<and>
    (err = 0 \<or> filter (wanted (dc_uuid dc)) db = [])"
    using assms(2-5) d(2-6) by (intro client.char_rounds_complete [where pre = "[]"]) auto
  with d(1,3-5) show ?thesis by auto
qed

definition example_chars :: "char_decl list" where
  "example_chars = [(2, 0x02, 3, BT_UUID16 0x2A00)]"

definition example_char_server :: "nat \<Rightarrow> buf \<Rightarrow> u8 \<times> buf" where
  "example_char_server i rq =
     (if of_le (take 2 (drop 1 rq)) \<le> (2 :: u16) then (0, att_bytes (ReadByTypeResp (of_nat 7) (map char_row example_chars)))
      else (ATT_ECODE_ATTR_NOT_FOUND, [1, 0x08, 0, 0, 0x0A]))"

lemma example_char_server_ok: "wf_chars 1 0xFFFF example_chars \<and> char_server 0xFFFF example_chars example_char_server"
proof
  show "wf_chars 1 0xFFFF example_chars"
    by (auto simp: wf_chars_def ordered_def example_chars_def att_uuid_len_def)
  have f: "from_handle fst example_chars h = (if h \<le> 2 then example_chars @ [] else [])" for h
    by (simp add: from_handle_def example_chars_def)
  have r: "example_char_server i (att_bytes (char_req h en)) =
     (if h \<le> 2 then (0, att_bytes (ReadByTypeResp (of_nat 7) (map char_row example_chars)))
      else (ATT_ECODE_ATTR_NOT_FOUND, [1, 0x08, 0, 0, 0x0A]))" for i h en
    by (simp add: example_char_server_def char_req_def del: char_row.simps)
  show "char_server 0xFFFF example_chars example_char_server"
    unfolding char_server_def f r
  proof (intro allI)
    show "if (if h \<le> 2 then example_chars @ [] else []) = [] then
        fst (if h \<le> 2 then (0, att_bytes (ReadByTypeResp (of_nat 7) (map char_row example_chars)))
             else (ATT_ECODE_ATTR_NOT_FOUND, [1, 0x08, 0, 0, 0x0A])) = ATT_ECODE_ATTR_NOT_FOUND
      else \<exists>cs later n. (if h \<le> 2 then example_chars @ [] else []) = cs @ later \<and> cs \<noteq> [] \<and>
        (\<forall>c\<in>set cs. length (char_row c) = n) \<and> length cs * n + 2 < 65536 \<and>
        (if h \<le> 2 then (0 :: u8, att_bytes (ReadByTypeResp (of_nat 7) (map char_row example_chars)))
             else (ATT_ECODE_ATTR_NOT_FOUND, [1, 0x08, 0, 0, 0x0A])) =
          (0, att_bytes (ReadByTypeResp (of_nat n) (map char_row cs)))" for h :: u16
    proof (cases "h \<le> 2")
      case True
      then show ?thesis
        by (simp del: att_bytes.simps)
          (intro conjI impI exI [of _ example_chars] exI [of _ "[] :: char_decl list"] exI [of _ 7];
           simp add: example_chars_def)
    qed simp
  qed
qed

theorem char_discovery_complete_witness:
  "\<exists>rid dc g' sent err.
    gatt_discover_char (recorded (gattrib_ops counting_att (\<lambda>_. 0))) True 1 0xFFFF NULL (example_client, []) =
      Some (rid, Some dc, (g', sent)) \<and>
    char_rounds (recorded (gattrib_ops counting_att (\<lambda>_. 0))) (\<lambda>_. True) example_char_server 0 2 (dc, g', sent) =
      Some (Some (err, map char_item (filter (wanted NULL) example_chars))) \<and>
    (err = 0 \<or> filter (wanted NULL) example_chars = [])"
  by (rule char_discovery_complete [OF example_client_ok])
     (simp_all add: example_char_server_ok, simp add: example_chars_def)

text \<open>
  On every answer except rows of an unexpected length, the characteristics callback reads only
  inside the packet and keeps the client object well formed.
\<close>

theorem char_callback_safe:
  assumes "gattrib_ok A g" "pk \<noteq> []" "length pk < 65536" "\<And>u. dc_uuid dc = Ptr u \<Longrightarrow> wf_uuid u"
    "status = 0 \<and> type_ok pk \<longrightarrow> pk ! 1 = 7 \<or> pk ! 1 = 21"
  shows "\<exists>dc' g' r. char_discovered_cb (gattrib_ops A junk) (\<lambda>_. True) status pk (of_nat (length pk)) (dc, g) =
      Some ((dc', g'), r) \<and> gattrib_ok A g'"
  by (rule client.char_cb_safe [OF assms])

definition example_dc :: discover_char where
  "example_dc = \<lparr>dc_ref = 1, dc_id = 1, dc_uuid = NULL, dc_end = 0xFFFF, dc_start = 1, dc_characteristics = []\<rparr>"

theorem char_callback_safe_witness:
  "\<exists>dc' g' r. char_discovered_cb (gattrib_ops counting_att (\<lambda>_. 0)) (\<lambda>_. True) 0 [0x09, 7, 1, 0] 4 (example_dc, example_client) =
      Some ((dc', g'), r) \<and> gattrib_ok counting_att g'"
  using char_callback_safe [OF example_client_ok, of "[0x09, 7, 1, 0]" example_dc 0 "\<lambda>_. 0"]
  by (simp add: example_dc_def type_ok_def)

text \<open>
  A peer can make the characteristics callback read outside its row: with rows of any length
  other than 7 that cannot hold a 16-byte UUID at offset 5, which the decoder accepts, the callback
  reads past the end of the first row.
\<close>

theorem char_rows_overread:
  assumes "type_ok pk" "pk ! 1 \<noteq> 7" "unat (pk ! 1) < 21"
  shows "char_discovered_cb ops mem 0 pk (of_nat (length pk)) (dc, s) = None"
proof -
  note R = type_rows_props [OF assms(1)]
  then obtain d ds where ds: "type_rows pk = d # ds" by (cases "type_rows pk") auto
  with R(3) assms(3) have l: "length d < 21" by auto
  have w: "(ucast (of_nat (length pk) :: u16) :: size_t) = of_nat (length pk)"
    using assms(1) by (simp add: ucast_of_nat_16_32 type_ok_def)
  have u: "unat (1 + of_nat (length ds) :: u16) = Suc (length ds)"
    using R(2) unfolding ds by (simp add: unat_of_nat_16 [of "Suc (length ds)", simplified])
  have "get_uuid128 128 d 5 = None" using l by (auto simp: get_uuid128_def bswap_128_def rd_def)
  then have "collect_chars mem 128 uuid (d # ds) (Suc k) 0 0 cs = None" for uuid k cs
    by (cases "get_le16 d 0") (simp_all add: row_def)
  then show ?thesis using R(2) assms(2)
    by (simp add: char_discovered_cb_def dec_type_ok [OF assms(1)] ds w u ucast_7 Let_def
        del: collect_chars.simps cong: ptr.case_cong)
qed

theorem char_rows_overread_witness:
  "char_discovered_cb (gattrib_ops counting_att (\<lambda>_. 0)) (\<lambda>_. True) 0 [0x09, 3, 1, 0, 2] 5 (example_dc, example_client) = None"
  using char_rows_overread [of "[0x09, 3, 1, 0, 2]" "gattrib_ops counting_att (\<lambda>_. 0)" "\<lambda>_. True" example_dc example_client]
  by (simp add: type_ok_def)

text \<open>
  C37: A peer can keep characteristics discovery running forever: when it answers every request with
  one characteristic at handle 0xFFFF, the next start handle wraps to 0, the check against a
  decreasing handle passes every time, and the caller's function is never called.
\<close>

theorem char_discovery_endless:
  assumes "gattrib_ok A g" "0 < en"
  shows "\<exists>rid dc g' sent.
    gatt_discover_char (recorded (gattrib_ops A junk)) True st en NULL (g, []) = Some (rid, Some dc, (g', sent)) \<and>
    (\<forall>n. char_rounds (recorded (gattrib_ops A junk)) (\<lambda>_. True)
       (\<lambda>i rq. (0, [0x09, 7, 0xFF, 0xFF, 0x02, 0, 0, 0x00, 0x2A])) 0 n (dc, g', sent) = Some None)"
proof -
  obtain rid dc g' where d: "gatt_discover_char (recorded (gattrib_ops A junk)) True st en NULL (g, []) =
      Some (rid, Some dc, (g', [att_bytes (char_req st en)]))"
    "gattrib_ok A g'" "dc_end dc = en" "dc_uuid dc = NULL" using client.char_start_sent [OF assms(1)] by blast
  have "char_rounds (recorded (gattrib_ops A junk)) (\<lambda>_. True)
       (\<lambda>i rq. (0, [0x09, 7, 0xFF, 0xFF, 0x02, 0, 0, 0x00, 0x2A])) 0 n (dc, g', [att_bytes (char_req st en)]) = Some None" for n
    using assms(2) d(2-4) by (intro client.char_endless) auto
  with d(1) show ?thesis by blast
qed

theorem char_discovery_endless_witness:
  "\<exists>rid dc g' sent.
    gatt_discover_char (recorded (gattrib_ops counting_att (\<lambda>_. 0))) True 1 0xFFFF NULL (example_client, []) =
      Some (rid, Some dc, (g', sent)) \<and>
    (\<forall>n. char_rounds (recorded (gattrib_ops counting_att (\<lambda>_. 0))) (\<lambda>_. True)
       (\<lambda>i rq. (0, [0x09, 7, 0xFF, 0xFF, 0x02, 0, 0, 0x00, 0x2A])) 0 n (dc, g', sent) = Some None)"
  by (rule char_discovery_endless [OF example_client_ok]) simp

end
