(* ===== verification/GattDesc.thy ===== *)
theory GattDesc
  imports GattChar
begin

text \<open>
  Descriptor discovery with Find Information requests, under the contract of theory GattPrimary:
  complete against a conforming server, and undefined on a response of an unknown format.
\<close>

section \<open>Rows of descriptors\<close>

type_synonym desc_decl = "u16 \<times> bt_uuid"

fun desc_row :: "desc_decl \<Rightarrow> buf" where
  "desc_row (h, u) = le16 h @ uuid_bytes u"

text \<open>\<open>uuid16\<close> keeps the short form, and is 0 for a 128-bit UUID.\<close>

fun desc_item :: "desc_decl \<Rightarrow> gatt_desc" where
  "desc_item (h, u) = \<lparr>desc_uuid = uuid_text (uuid_canon u), desc_handle = h,
     desc_uuid16 = (case u of BT_UUID16 v \<Rightarrow> v | _ \<Rightarrow> 0)\<rparr>"

definition row_desc :: "buf \<Rightarrow> desc_decl" where
  "row_desc d = (of_le (take 2 d),
     if length d = 4 then BT_UUID16 (of_le (drop 2 d)) else BT_UUID128 (rev (drop 2 d)))"

lemma row_desc_row:
  assumes "wf_uuid u" "att_uuid_len u = Some n"
  shows "row_desc (desc_row (h, u)) = (h, u)"
  using att_uuid_len_cases [OF assms] by (auto simp: row_desc_def)

lemma collect_descs_step:
  assumes "i < length ds" "length (ds ! i) = (if type = 16 then 4 else 18)" "type = 16 \<or> type = 128" "mem i"
  shows "collect_descs mem type NULL ds (Suc k) i e descs =
    collect_descs mem type NULL ds k (Suc i) (fst (row_desc (ds ! i))) (descs @ [desc_item (row_desc (ds ! i))])"
proof -
  have l: "length (ds ! i) = 2 + 2 \<and> type = 16 \<or> length (ds ! i) = 2 + 16 \<and> type = 128" "2 \<le> length (ds ! i)"
    using assms(2,3) by (auto split: if_splits)
  let ?u = "snd (row_desc (ds ! i))"
  have u: "get_uuid128 type (ds ! i) 2 = Some (BT_UUID128 (uuid_canon ?u))" "wf_uuid ?u"
    using l by (auto simp: get_uuid128_row [OF l(1)] row_desc_def simp del: uuid_canon_simps)
  have "desc_item (row_desc (ds ! i)) =
      \<lparr>desc_uuid = uuid_text (uuid_canon ?u), desc_handle = fst (row_desc (ds ! i)),
       desc_uuid16 = (if type = 16 then of_le (take 2 (drop 2 (ds ! i))) else 0)\<rparr>"
    using l by (auto simp: row_desc_def simp del: uuid_canon_simps)
  then show ?thesis using assms(1,4) u l uuid_string_row [OF u(2)]
    by (auto simp: row_def get_le16_Some row_desc_def simp del: desc_item.simps)
qed

lemma collect_descs_all:
  assumes "i + k \<le> length ds" "\<forall>d\<in>set ds. length d = (if type = 16 then 4 else 18)" "type = 16 \<or> type = 128"
  shows "collect_descs (\<lambda>_. True) type NULL ds k i e descs =
    Some (True, False, if k = 0 then e else fst (row_desc (ds ! (i + k - 1))),
      descs @ map desc_item (map row_desc (take k (drop i ds))))"
  using assms(1)
proof (induction k arbitrary: i e descs)
  case (Suc k)
  then have i: "i < length ds" by simp
  then have l: "length (ds ! i) = (if type = 16 then 4 else 18)" using assms(2) by simp
  have "take (Suc k) (drop i ds) = ds ! i # take k (drop (Suc i) ds)"
    by (simp add: i Cons_nth_drop_Suc [symmetric])
  with collect_descs_step [OF i l assms(3)] Suc.IH [of "Suc i"] Suc.prems show ?case
    by (simp del: collect_descs.simps(2) desc_item.simps)
qed simp

section \<open>Responses\<close>

text \<open>A conforming answer: the format and the rows of its width, at least one.\<close>

definition info_resp :: "desc_decl list \<Rightarrow> buf \<Rightarrow> bool" where
  "info_resp ds pk \<longleftrightarrow> ds \<noteq> [] \<and> length pk < 65536 \<and>
     (\<exists>f. (f = 1 \<or> f = 2) \<and> (\<forall>d\<in>set ds. length (desc_row d) = info_len f) \<and>
        pk = att_bytes (FindInfoResp f (map desc_row ds)))"

lemma dec_info_rows:
  assumes "info_resp ds pk" "\<forall>(h, u)\<in>set ds. wf_uuid u \<and> att_uuid_len u \<noteq> None"
  shows "\<exists>f l. dec_find_info_resp (Ptr pk) (of_nat (length pk)) (Ptr 0) = Some (Ptr l, Ptr f) \<and> (f = 1 \<or> f = 2) \<and>
    unat (adl_num l) = length (adl_data l) \<and> adl_data l = map desc_row ds \<and> map row_desc (adl_data l) = ds \<and>
    (\<forall>d\<in>set (adl_data l). length d = (if (if f = 1 then 16 else 128 :: u8) = 16 then 4 else 18))"
proof -
  obtain f where f: "f = 1 \<or> f = 2" "\<forall>d\<in>set ds. length (desc_row d) = info_len f"
    "pk = att_bytes (FindInfoResp f (map desc_row ds))" "length pk < 65536"
    using assms(1) by (auto simp: info_resp_def)
  have r: "rows_list (info_len f) pk =
      \<lparr>adl_num = of_nat (length ds), adl_len = of_nat (info_len f), adl_data = map desc_row ds\<rparr>"
    unfolding f(3) att_bytes.simps using rows_list_att_bytes [of "map desc_row ds" "info_len f"] f(1,2)
    by (auto simp: info_len_def)
  have "length (concat (map desc_row ds)) = length ds * info_len f" using f(2) by (induction ds) auto
  then have n: "length ds < 65536" using f(1,3,4) by (auto simp: info_len_def)
  have "map (row_desc \<circ> desc_row) ds = ds"
    using assms(2) by (intro map_idI) (force simp: row_desc_row simp del: desc_row.simps)
  then have m: "map row_desc (map desc_row ds) = ds" by simp
  have "dec_find_info_resp (Ptr pk) (of_nat (length pk)) (Ptr 0) = Some (Ptr (rows_list (info_len f) pk), Ptr f)"
    using dec_info_resp [of pk 0] f(3,4) by simp
  then show ?thesis using r n m f(1,2)
    by (intro exI [of _ f] exI [of _ "rows_list (info_len f) pk"]) (auto simp: info_len_def simp del: desc_row.simps)
qed

section \<open>Rounds\<close>

text \<open>As for characteristics: \<open>srv i rq\<close> answers the bytes \<open>rq\<close> of the \<open>i\<close>-th request.\<close>

primrec desc_rounds ::
    "('s \<times> buf list) attrib_ops \<Rightarrow> (nat \<Rightarrow> bool) \<Rightarrow> (nat \<Rightarrow> buf \<Rightarrow> u8 \<times> buf) \<Rightarrow> nat \<Rightarrow> nat \<Rightarrow>
       discover_desc \<times> 's \<times> buf list \<Rightarrow> (u8 \<times> gatt_desc list) option option" where
  "desc_rounds ops mem srv i 0 st = Some None"
| "desc_rounds ops mem srv i (Suc n) st =
     (case st of
        (dd, s, [rq]) \<Rightarrow> do {
          let (status, pk) = srv i rq;
          (st, r) \<leftarrow> desc_discovered_cb ops mem status pk (of_nat (length pk)) (dd, (s, []));
          (case r of Some x \<Rightarrow> Some (Some x) | None \<Rightarrow> desc_rounds ops mem srv (Suc i) n st) }
      | _ \<Rightarrow> None)"

definition wf_descs :: "u16 \<Rightarrow> u16 \<Rightarrow> desc_decl list \<Rightarrow> bool" where
  "wf_descs st en db \<longleftrightarrow>
     (\<forall>(h, u)\<in>set db. 1 \<le> h \<and> st \<le> h \<and> h \<le> en \<and> wf_uuid u \<and> att_uuid_len u \<noteq> None) \<and> ordered fst fst db"

text \<open>A conforming server reads the first handle out of the request for the attributes up to \<open>en\<close>.\<close>

definition desc_server :: "u16 \<Rightarrow> desc_decl list \<Rightarrow> (nat \<Rightarrow> buf \<Rightarrow> u8 \<times> buf) \<Rightarrow> bool" where
  "desc_server en db srv \<longleftrightarrow>
     (\<forall>i h. let r = srv i (att_bytes (FindInfoReq h en)) in
        if from_handle fst db h = [] then fst r = ATT_ECODE_ATTR_NOT_FOUND
        else \<exists>ds later. from_handle fst db h = ds @ later \<and> fst r = 0 \<and> info_resp ds (snd r))"

lemma desc_server_answer:
  assumes "desc_server en db srv"
  obtains pk where "from_handle fst db h = []" "srv i (att_bytes (FindInfoReq h en)) = (ATT_ECODE_ATTR_NOT_FOUND, pk)"
  | ds later pk where "from_handle fst db h = ds @ later" "ds \<noteq> []"
      "srv i (att_bytes (FindInfoReq h en)) = (0, pk)" "info_resp ds pk"
proof -
  let ?r = "srv i (att_bytes (FindInfoReq h en))"
  have r: "?r = (fst ?r, snd ?r)" by simp
  from assms have a: "if from_handle fst db h = [] then fst ?r = ATT_ECODE_ATTR_NOT_FOUND
      else \<exists>ds later. from_handle fst db h = ds @ later \<and> fst ?r = 0 \<and> info_resp ds (snd ?r)"
    unfolding desc_server_def Let_def by (elim allE)
  show ?thesis
  proof (cases "from_handle fst db h = []")
    case True
    with a r that(1) show ?thesis by metis
  next
    case False
    with a obtain ds later where "from_handle fst db h = ds @ later" "fst ?r = 0" "info_resp ds (snd ?r)" by auto
    moreover from this(3) have "ds \<noteq> []" by (simp add: info_resp_def)
    ultimately show ?thesis using r that(2) by metis
  qed
qed

context attrib_contract
begin

lemma desc_start:
  assumes "ok s"
  shows "\<exists>rid dd s'. gatt_discover_desc ops True st en uuid s = Some (rid, Some dd, s') \<and> ok s' \<and> mtu s' = mtu s \<and>
    dd_start dd = st \<and> dd_end dd = en \<and> dd_uuid dd = uuid \<and> dd_descriptors dd = []"
proof -
  obtain b n s1 where b: "ao_buffer ops s = ((b, n), s1)" "23 \<le> length b" "delivers ops ok mtu b s1" "mtu s1 = mtu s"
    using request [OF assms] by blast
  have e: "enc_find_info_req st en (Ptr b) n = Some (5, Ptr (written (att_bytes (FindInfoReq st en)) b))"
    using enc_fixed(3) [of b st en n] b(2) by (simp add: encodes_def)
  from deliversD [OF b(3), of "FindInfoReq st en" 0 DESC_DISCOVERED_CB] b(2,4) obtain rid s2 where
    "ao_send ops s1 0 (Ptr (written (att_bytes (FindInfoReq st en)) b)) 5 DESC_DISCOVERED_CB = Some (rid, s2)" "ok s2"
    "mtu s2 = mtu s" by auto
  then show ?thesis using b(1) e
    by (simp add: gatt_discover_desc_def discover_desc_ref_def Let_def del: att_bytes.simps)
qed

lemma desc_start_sent:
  assumes "ok s"
  shows "\<exists>rid dd s'. gatt_discover_desc (recorded ops) True st en uuid (s, []) =
      Some (rid, Some dd, (s', [att_bytes (FindInfoReq st en)])) \<and> ok s' \<and>
    dd_start dd = st \<and> dd_end dd = en \<and> dd_uuid dd = uuid \<and> dd_descriptors dd = []"
proof -
  obtain b n s1 where b: "\<And>l. ao_buffer (recorded ops) (s, l) = ((b, n), (s1, l))" "23 \<le> length b"
    "delivers_logged ops ok mtu b s1" using request_logged [OF assms] by blast
  have e: "enc_find_info_req st en (Ptr b) n = Some (5, Ptr (written (att_bytes (FindInfoReq st en)) b))"
    using enc_fixed(3) [of b st en n] b(2) by (simp add: encodes_def)
  from delivers_loggedD [OF b(3), of "FindInfoReq st en" "[]" 0 DESC_DISCOVERED_CB] b(2) obtain rid s2 where
    "ao_send (recorded ops) (s1, []) 0 (Ptr (written (att_bytes (FindInfoReq st en)) b)) 5 DESC_DISCOVERED_CB =
      Some (rid, (s2, [att_bytes (FindInfoReq st en)]))" "ok s2" by auto
  then show ?thesis using b(1) e
    by (simp add: gatt_discover_desc_def discover_desc_ref_def Let_def del: att_bytes.simps)
qed

lemma desc_round:
  assumes "ok s" "info_resp ds pk" "\<forall>(h, u)\<in>set ds. wf_uuid u \<and> att_uuid_len u \<noteq> None"
    "dd_uuid dd = NULL" "\<not> fst (last ds) < dd_start dd"
  shows "\<exists>dd' s' r. desc_discovered_cb (recorded ops) (\<lambda>_. True) 0 pk (of_nat (length pk)) (dd, (s, [])) =
      Some ((dd', (s', if r = None then [att_bytes (FindInfoReq (dd_start dd') (dd_end dd'))] else [])), r) \<and> ok s' \<and>
    dd_start dd' = fst (last ds) + 1 \<and> dd_end dd' = dd_end dd \<and> dd_uuid dd' = NULL \<and>
    dd_descriptors dd' = dd_descriptors dd @ map desc_item ds \<and>
    r = (if fst (last ds) < dd_end dd then None else Some (0, dd_descriptors dd'))"
proof -
  let ?l = "fst (last ds)"
  obtain f l where f: "dec_find_info_resp (Ptr pk) (of_nat (length pk)) (Ptr 0) = Some (Ptr l, Ptr f)" "f = 1 \<or> f = 2"
    "unat (adl_num l) = length (adl_data l)" "adl_data l = map desc_row ds" "map row_desc (adl_data l) = ds"
    "\<forall>d\<in>set (adl_data l). length d = (if (if f = 1 then 16 else 128 :: u8) = 16 then 4 else 18)"
    using dec_info_rows [OF assms(2,3)] by blast
  have t: "(if f = 1 then 16 else 128 :: u8) = 16 \<or> (if f = 1 then 16 else 128 :: u8) = 128" by simp
  have ne: "ds \<noteq> []" "length pk < 65536" using assms(2) by (simp_all add: info_resp_def)
  have nel: "adl_data l \<noteq> []" using ne(1) f(4) by simp
  then have "row_desc (adl_data l ! (length (adl_data l) - 1)) = last ds"
    unfolding f(5) [symmetric] by (simp add: last_map last_conv_nth del: map_map)
  then have c: "collect_descs (\<lambda>_. True) (if f = 1 then 16 else 128) NULL (adl_data l) (unat (adl_num l)) 0 0xffff
      (dd_descriptors dd) = Some (True, False, ?l, dd_descriptors dd @ map desc_item ds)"
    using collect_descs_all [of 0 "length (adl_data l)" "adl_data l" _ "0xffff" "dd_descriptors dd", OF _ f(6) t]
      f(3,5) nel by (simp del: map_map)
  obtain b n s1 where b: "\<And>l. ao_buffer (recorded ops) (s, l) = ((b, n), (s1, l))" "23 \<le> length b"
    "delivers_logged ops ok mtu b s1" using request_logged [OF assms(1)] by blast
  have e: "enc_find_info_req st en (Ptr b) n = Some (5, Ptr (written (att_bytes (FindInfoReq st en)) b))" for st en
    using enc_fixed(3) [of b st en n] b(2) by (simp add: encodes_def)
  from delivers_loggedD [OF b(3), of "FindInfoReq (?l + 1) (dd_end dd)" "[]" "dd_id dd" DESC_DISCOVERED_CB] b(2) obtain rid s2 where
    s2: "ao_send (recorded ops) (s1, []) (dd_id dd) (Ptr (written (att_bytes (FindInfoReq (?l + 1) (dd_end dd))) b)) 5
      DESC_DISCOVERED_CB = Some (rid, (s2, [att_bytes (FindInfoReq (?l + 1) (dd_end dd))]))" "ok s2" by auto
  have w: "(ucast (of_nat (length pk) :: u16) :: size_t) = of_nat (length pk)"
    using ne(2) by (simp add: ucast_of_nat_16_32)
  show ?thesis using f(1) c b(1) e s2 assms(1,4,5) w
    by (auto simp: desc_discovered_cb_def discover_desc_ref_def Let_def simp del: att_bytes.simps cong: ptr.case_cong)
qed

lemma desc_rounds_complete:
  assumes "wf_descs st (dd_end dd) db" "desc_server (dd_end dd) db srv" "ok s" "dd_uuid dd = NULL"
    "dd_descriptors dd = map desc_item pre"
    "db = pre @ from_handle fst db (dd_start dd)" "length (from_handle fst db (dd_start dd)) < n"
  shows "desc_rounds (recorded ops) (\<lambda>_. True) srv i n (dd, s, [att_bytes (FindInfoReq (dd_start dd) (dd_end dd))]) =
      Some (Some (if db = [] then ATT_ECODE_ATTR_NOT_FOUND else 0, map desc_item db))"
  using assms
proof (induction n arbitrary: i dd s pre)
  case (Suc n)
  let ?rest = "from_handle fst db (dd_start dd)"
  show ?case
  proof (cases rule: desc_server_answer [OF Suc.prems(2), of "dd_start dd" i])
    case (1 pk)
    with Suc.prems(5,6) show ?thesis by (simp add: desc_discovered_cb_def del: att_bytes.simps)
  next
    case (2 ds later pk)
    note r = 2(1,4) and ne = 2(2) and a = 2(3)
    let ?l = "fst (last ds)"
    note sub = from_handle_sub [OF r(1)] and lastd = from_handle_last [OF r(1) ne]
    have ord: "ordered fst fst db" using Suc.prems(1) by (simp add: wf_descs_def)
    have wf: "\<forall>(h, u)\<in>set ds. wf_uuid u \<and> att_uuid_len u \<noteq> None"
      using sub Suc.prems(1) unfolding wf_descs_def by blast
    have "?l \<le> dd_end dd" using lastd Suc.prems(1) unfolding wf_descs_def by (cases "last ds") auto
    with lastd have l: "\<not> ?l < dd_start dd" "?l \<le> dd_end dd" by auto
    obtain dd' s' r' where s': "desc_discovered_cb (recorded ops) (\<lambda>_. True) 0 pk (of_nat (length pk)) (dd, (s, [])) =
        Some ((dd', (s', if r' = None then [att_bytes (FindInfoReq (dd_start dd') (dd_end dd'))] else [])), r')"
      "ok s'" "dd_start dd' = ?l + 1" "dd_end dd' = dd_end dd" "dd_uuid dd' = NULL"
      "dd_descriptors dd' = dd_descriptors dd @ map desc_item ds"
      "r' = (if ?l < dd_end dd then None else Some (0, dd_descriptors dd'))"
      using desc_round [OF Suc.prems(3) r(2) wf Suc.prems(4) l(1)] by blast
    show ?thesis
    proof (cases "?l < dd_end dd")
      case True
      then have m: "?l \<noteq> 0xFFFF" using handle_max [of "dd_end dd"] by auto
      have ln: "length later < n" using Suc.prems(7) r(1) ne by (cases ds) auto
      note nx = from_handle_next [OF ord r(1) ne m]
      have wf': "wf_descs st (dd_end dd') db" using Suc.prems(1) by (simp only: s'(4))
      have srv': "desc_server (dd_end dd') db srv" using Suc.prems(2) by (simp only: s'(4))
      have pre': "dd_descriptors dd' = map desc_item (pre @ ds)" by (simp only: s'(6) Suc.prems(5) map_append)
      have "db = (pre @ ds) @ from_handle fst db (dd_start dd')"
        unfolding s'(3) nx using Suc.prems(6) unfolding r(1) by (simp only: append_assoc)
      moreover have "length (from_handle fst db (dd_start dd')) < n" using ln by (simp only: s'(3) nx)
      ultimately have "desc_rounds (recorded ops) (\<lambda>_. True) srv (Suc i) n
          (dd', s', [att_bytes (FindInfoReq (dd_start dd') (dd_end dd'))]) =
          Some (Some (if db = [] then ATT_ECODE_ATTR_NOT_FOUND else 0, map desc_item db))"
        by (rule Suc.IH [OF wf' srv' s'(2,5) pre'])
      then show ?thesis using True s'(1,7) by (simp add: a del: att_bytes.simps)
    next
      case False
      have "later = []"
      proof (cases "?l = 0xFFFF")
        case True
        then show ?thesis using from_handle_end [OF ord r(1) ne] by simp
      next
        case m: False
        show ?thesis
        proof (rule ccontr)
          assume "later \<noteq> []"
          then obtain c where "c \<in> set (from_handle fst db (?l + 1))"
            unfolding from_handle_next [OF ord r(1) ne m] by (cases later) auto
          then have c: "c \<in> set db" "?l + 1 \<le> fst c" by (simp_all add: from_handle_def)
          then have "?l < fst c" using handle_next [OF m] by blast
          moreover have "fst c \<le> dd_end dd" using Suc.prems(1) c(1) unfolding wf_descs_def by (cases c) auto
          ultimately have "?l < fst c" "fst c \<le> dd_end dd" by auto
          with False show False by auto
        qed
      qed
      then have db: "db = pre @ ds" using Suc.prems(6) unfolding r(1) by simp
      have "dd_descriptors dd' = map desc_item db" by (simp add: s'(6) Suc.prems(5) db)
      then show ?thesis using False s'(1,7) ne db by (simp add: a del: att_bytes.simps)
    qed
  qed
qed simp

end

section \<open>Properties\<close>

text \<open>
  C16: Against a conforming server, which sees only the bytes the client sends, discovery of
  descriptors is complete and exact: the caller gets every attribute in the range with its handle, the text of its UUID and its 16-bit form, in order,
  once, with status 0, and Attribute Not Found when there is none.
\<close>

theorem desc_discovery_complete:
  assumes "gattrib_ok A g" "wf_descs st en db" "desc_server en db srv" "length db < n"
  shows "\<exists>rid dd g' sent.
    gatt_discover_desc (recorded (gattrib_ops A junk)) True st en NULL (g, []) = Some (rid, Some dd, (g', sent)) \<and>
    desc_rounds (recorded (gattrib_ops A junk)) (\<lambda>_. True) srv 0 n (dd, g', sent) =
      Some (Some (if db = [] then ATT_ECODE_ATTR_NOT_FOUND else 0, map desc_item db))"
proof -
  obtain rid dd g' where d: "gatt_discover_desc (recorded (gattrib_ops A junk)) True st en NULL (g, []) =
      Some (rid, Some dd, (g', [att_bytes (FindInfoReq st en)]))"
    "gattrib_ok A g'" "dd_start dd = st" "dd_end dd = en" "dd_uuid dd = NULL" "dd_descriptors dd = []"
    using client.desc_start_sent [OF assms(1)] by blast
  have "from_handle fst db st = db"
    using assms(2) by (auto simp: from_handle_def wf_descs_def filter_id_conv)
  then have "desc_rounds (recorded (gattrib_ops A junk)) (\<lambda>_. True) srv 0 n
        (dd, g', [att_bytes (FindInfoReq (dd_start dd) (dd_end dd))]) =
      Some (Some (if db = [] then ATT_ECODE_ATTR_NOT_FOUND else 0, map desc_item db))"
    using assms(2-4) d(2-6) by (intro client.desc_rounds_complete [where pre = "[]"]) auto
  with d(1,3,4) show ?thesis by auto
qed

definition example_desc_server :: "nat \<Rightarrow> buf \<Rightarrow> u8 \<times> buf" where
  "example_desc_server i rq =
     (if of_le (take 2 (drop 1 rq)) \<le> (4 :: u16) then (0, att_bytes (FindInfoResp 1 [desc_row (4, BT_UUID16 0x2902)]))
      else (0x0A, [1, 4, 0, 0, 0x0A]))"

theorem desc_discovery_complete_witness:
  "\<exists>rid dd g' sent.
    gatt_discover_desc (recorded (gattrib_ops counting_att (\<lambda>_. 0))) True 1 9 NULL (example_client, []) =
      Some (rid, Some dd, (g', sent)) \<and>
    desc_rounds (recorded (gattrib_ops counting_att (\<lambda>_. 0))) (\<lambda>_. True) example_desc_server 0 2 (dd, g', sent) =
      Some (Some (0, [desc_item (4, BT_UUID16 0x2902)]))"
proof -
  have wf: "wf_descs 1 9 [(4, BT_UUID16 0x2902)]" by (simp add: wf_descs_def ordered_def att_uuid_len_def)
  have i: "info_resp [(4, BT_UUID16 0x2902)] (att_bytes (FindInfoResp 1 [desc_row (4, BT_UUID16 0x2902)]))"
    unfolding info_resp_def by (intro conjI exI [of _ 1]) (simp_all add: info_len_def)
  have r: "example_desc_server i (att_bytes (FindInfoReq h en)) =
     (if h \<le> 4 then (0, att_bytes (FindInfoResp 1 [desc_row (4, BT_UUID16 0x2902)])) else (0x0A, [1, 4, 0, 0, 0x0A]))"
    for i h en by (simp add: example_desc_server_def)
  have srv: "desc_server 9 [(4, BT_UUID16 0x2902)] example_desc_server"
    unfolding desc_server_def from_handle_def r using i by (auto simp del: att_bytes.simps)
  show ?thesis using desc_discovery_complete [OF example_client_ok wf srv, of 2 "\<lambda>_. 0"] by simp
qed

text \<open>
  A peer can make the descriptors callback read outside its row: a Find Information response
  of any format other than 1 and 2 is decoded as rows of two bytes, and the callback then reads a
  16-byte UUID after the handle.
\<close>

theorem desc_format_overread:
  assumes "4 \<le> length pk" "length pk < 65536" "pk ! 0 = ATT_OP_FIND_INFO_RESP" "pk ! 1 \<noteq> 1" "pk ! 1 \<noteq> 2"
  shows "desc_discovered_cb ops mem 0 pk (of_nat (length pk)) (dd, s) = None"
proof -
  let ?k = "(length pk - 2) div 2"
  have l: "rows_list 2 pk = \<lparr>adl_num = of_nat ?k, adl_len = 2, adl_data = chunks ?k 2 (drop 2 pk)\<rparr>"
    by (simp add: rows_list_def Let_def)
  obtain k where k: "?k = Suc k" using assms(1) by (cases ?k) auto
  have "?k < 65536" using assms(2) by simp
  then have u: "unat (of_nat ?k :: u16) = Suc k" by (subst unat_of_nat_16) (auto simp: k)
  have "length (take 2 (drop 2 pk)) = 2" using assms(1) by simp
  then have "get_uuid128 128 (take 2 (drop 2 pk)) 2 = None" by (simp add: get_uuid128_def bswap_128_def rd_def)
  then have c: "collect_descs mem 128 uuid (chunks (Suc k) 2 (drop 2 pk)) (Suc k) 0 e descs = None" for uuid e descs
    by (cases "get_le16 (take 2 (drop 2 pk)) 0") (simp_all add: row_def)
  have "(ucast (of_nat (length pk) :: u16) :: size_t) = of_nat (length pk)"
    using assms(2) by (simp add: ucast_of_nat_16_32)
  moreover have "dec_find_info_resp (Ptr pk) (of_nat (length pk)) (Ptr 0) = Some (Ptr (rows_list 2 pk), Ptr (pk ! 1))"
    using dec_info_resp [of pk 0] assms by (simp add: info_len_def)
  ultimately show ?thesis using c [unfolded k [symmetric]] u assms(4) unfolding l
    by (simp add: desc_discovered_cb_def Let_def k del: collect_descs.simps chunks.simps cong: ptr.case_cong)
qed

theorem desc_format_overread_witness:
  "desc_discovered_cb (gattrib_ops counting_att (\<lambda>_. 0)) (\<lambda>_. True) 0 [0x05, 3, 4, 0] 4
     (\<lparr>dd_ref = 1, dd_id = 1, dd_uuid = NULL, dd_start = 1, dd_end = 9, dd_descriptors = []\<rparr>, example_client) = None"
  using desc_format_overread [of "[0x05, 3, 4, 0]" "gattrib_ops counting_att (\<lambda>_. 0)" "\<lambda>_. True"
    "\<lparr>dd_ref = 1, dd_id = 1, dd_uuid = NULL, dd_start = 1, dd_end = 9, dd_descriptors = []\<rparr>" example_client] by simp

end
