(* ===== verification/GattLong.thy ===== *)
theory GattLong
  imports GattPrimary
begin

text \<open>
  Long values: reads continued with Read Blob requests and writes split into Prepare Write
  requests.  \<open>accepting_contract\<close> extends the contract of theory GattPrimary by a transport that
  takes every request.  Both are stated on the bytes the client sends, which \<open>recorded\<close> of theory
  GattPrimary keeps: the peer of a long read answers them, a long write is the list of them.
\<close>

section \<open>A transport that takes every request\<close>

locale accepting_contract = attrib_contract +
  assumes accepted: "ok s \<Longrightarrow> 0 < len \<Longrightarrow> unat len \<le> length b \<Longrightarrow> mtu s \<le> length b \<Longrightarrow>
      ao_send ops s i (Ptr b) len cb = Some (rid, s') \<Longrightarrow> rid \<noteq> 0"
begin

text \<open>One request: the buffer, and the effect of sending a PDU from it.\<close>

lemma recorded_request:
  assumes "ok s"
  shows "\<exists>b n s1. (\<forall>l. ao_buffer (recorded ops) (s, l) = ((b, n), (s1, l))) \<and> unat n = mtu s \<and> mtu s \<le> length b \<and>
    ok s1 \<and> mtu s1 = mtu s \<and>
    (\<forall>l pdu i cb. length (att_bytes pdu) \<le> length b \<and> length (att_bytes pdu) < 65536 \<longrightarrow>
       (\<exists>rid s2. ao_send (recorded ops) (s1, l) i (Ptr (written (att_bytes pdu) b)) (of_nat (length (att_bytes pdu))) cb =
          Some (rid, (s2, l @ [att_bytes pdu])) \<and> rid \<noteq> 0 \<and> ok s2 \<and> mtu s2 = mtu s))"
proof -
  obtain b n s1 where b: "\<forall>l. ao_buffer (recorded ops) (s, l) = ((b, n), (s1, l))" "unat n = mtu s" "mtu s \<le> length b"
    "ok s1" "mtu s1 = mtu s" "delivers_logged ops ok mtu b s1" using request_logged [OF assms] by blast
  have "\<exists>rid s2. ao_send (recorded ops) (s1, l) i (Ptr (written (att_bytes pdu) b)) (of_nat (length (att_bytes pdu))) cb =
          Some (rid, (s2, l @ [att_bytes pdu])) \<and> rid \<noteq> 0 \<and> ok s2 \<and> mtu s2 = mtu s"
    if p: "length (att_bytes pdu) \<le> length b" "length (att_bytes pdu) < 65536" for l pdu i cb
  proof -
    obtain rid s2 where s2: "ao_send (recorded ops) (s1, l) i (Ptr (written (att_bytes pdu) b))
        (of_nat (length (att_bytes pdu))) cb = Some (rid, (s2, l @ [att_bytes pdu]))" "ok s2" "mtu s2 = mtu s"
      using delivers_loggedD [OF b(6) p, of l i cb] b(5) by auto
    then have s3: "ao_send ops s1 i (Ptr (written (att_bytes pdu) b)) (of_nat (length (att_bytes pdu))) cb = Some (rid, s2)"
      by (auto simp: recorded_def option_bind_Some_iff)
    have "0 < length (att_bytes pdu)" by (cases pdu) auto
    then have "0 < (of_nat (length (att_bytes pdu)) :: u16)" using p(2) by (simp add: word_less_nat_alt)
    moreover have "unat (of_nat (length (att_bytes pdu)) :: u16) = length (att_bytes pdu)" using p(2) by simp
    moreover have "length (written (att_bytes pdu) b) = length b" using p(1) by (rule length_written)
    ultimately have "rid \<noteq> 0" using accepted [OF b(4) _ _ _ s3] p(1) b(3,5) by simp
    with s2 show ?thesis by auto
  qed
  with b show ?thesis by (intro exI [of _ b] exI [of _ n] exI [of _ s1]) simp
qed

end

section \<open>Long writes\<close>

text \<open>What a long write puts on the wire: chunks of \<open>m\<close> bytes in order, then Execute Write.\<close>

fun write_pdus :: "nat \<Rightarrow> u16 \<Rightarrow> nat \<Rightarrow> buf \<Rightarrow> att_pdu list" where
  "write_pdus m h off v =
     (if v = [] then [ExecWriteReq 1]
      else if m = 0 then []
      else PrepWriteReq h (of_nat off) (take m v) # write_pdus m h (off + m) (drop m v))"

declare write_pdus.simps [simp del]

text \<open>
  The exchange with a server that answers every Prepare Write with success, echoing it: \<open>srv\<close>
  gives the length of the response for the last request sent.  The result is the state after the
  record is freed, or \<open>None\<close> when \<open>n\<close> answers were not enough.
\<close>

primrec write_rounds ::
    "'s attrib_ops \<Rightarrow> (write_long_data \<Rightarrow> u16) \<Rightarrow> nat \<Rightarrow> write_long_data \<times> 's \<Rightarrow> 's option option" where
  "write_rounds ops srv 0 st = Some None"
| "write_rounds ops srv (Suc n) st = do {
     ((lw, s), _) \<leftarrow> prepare_write_cb ops 0 [] (srv (fst st)) st;
     (case lw of None \<Rightarrow> Some (Some s) | Some lw \<Rightarrow> write_rounds ops srv n (lw, s)) }"

text \<open>The server echoes the chunk of \<open>m\<close> bytes, or what is left of the value.\<close>

definition echo_len :: "nat \<Rightarrow> write_long_data \<Rightarrow> u16" where
  "echo_len m lw = of_nat (5 + min m (unat (lw_vlen lw) - unat (lw_offset lw)))"

lemma clamp_16_32: "unat (o16 :: u16) \<le> unat (v :: size_t) \<Longrightarrow> unat (v - ucast o16) = unat v - unat o16"
  by (subst unat_minus_le) (simp_all add: word_le_nat_alt)

lemma enc_prep_chunk:
  assumes "unat n = m + 5" "m + 5 \<le> length b" "unat o16 \<le> length v" "unat vl = length v"
  shows "enc_prep_write_req h o16 (drop (unat o16) v) (vl - ucast o16) (Ptr b) n =
    Some (of_nat (length (att_bytes (PrepWriteReq h o16 (take m (drop (unat o16) v))))),
      Ptr (written (att_bytes (PrepWriteReq h o16 (take m (drop (unat o16) v)))) b))"
proof -
  have u: "unat (vl - ucast o16) = length v - unat o16" using assms(3,4) by (subst clamp_16_32) auto
  have "encodes (enc_prep_write_req h o16 (drop (unat o16) v) (vl - ucast o16) (Ptr b) n) b
      (PrepWriteReq h o16 (take (min (unat (vl - ucast o16)) (unat n - 5)) (drop (unat o16) v)))"
    using assms u by (intro enc_value(3)) auto
  moreover have "take (min (unat (vl - ucast o16)) (unat n - 5)) (drop (unat o16) v) = take m (drop (unat o16) v)"
    using assms(1,3) u by (cases "length v - unat o16 \<le> m") (auto simp: min_def)
  ultimately show ?thesis by (simp only: encodes_def)
qed

context accepting_contract
begin

lemma prepare_step:
  assumes "ok s" "mtu s = m + 5" "lw = \<lparr>lw_handle = h, lw_offset = of_nat off, lw_value = v, lw_vlen = of_nat (length v)\<rparr>"
    "off \<le> length v" "length v < 65536"
  shows "\<exists>rid s2. prepare_write (recorded ops) lw (s, l) =
      Some (rid, (s2, l @ [att_bytes (PrepWriteReq h (of_nat off) (take m (drop off v)))])) \<and> ok s2 \<and> mtu s2 = mtu s"
proof -
  let ?p = "PrepWriteReq h (of_nat off) (take m (drop off v))"
  obtain b n s1 where b: "ao_buffer (recorded ops) (s, l) = ((b, n), (s1, l))" "unat n = m + 5" "m + 5 \<le> length b"
    "\<And>pdu i cb. length (att_bytes pdu) \<le> length b \<Longrightarrow> length (att_bytes pdu) < 65536 \<Longrightarrow>
       (\<exists>rid s2. ao_send (recorded ops) (s1, l) i (Ptr (written (att_bytes pdu) b)) (of_nat (length (att_bytes pdu))) cb =
          Some (rid, (s2, l @ [att_bytes pdu])) \<and> rid \<noteq> 0 \<and> ok s2 \<and> mtu s2 = mtu s)"
    using recorded_request [OF assms(1)] unfolding assms(2) by blast
  have o16: "unat (of_nat off :: u16) = off" using assms(4,5) by simp
  have vl: "unat (of_nat (length v) :: size_t) = length v" using assms(5) by simp
  have l: "length (att_bytes ?p) \<le> m + 5" "0 < length (att_bytes ?p)" "m + 5 < 65536"
    using mtu_range [OF assms(1)] assms(2) by auto
  then have l2: "length (att_bytes ?p) \<le> length b" "length (att_bytes ?p) < 65536" using b(3) by auto
  obtain rid s2 where "ao_send (recorded ops) (s1, l) 0 (Ptr (written (att_bytes ?p) b))
      (of_nat (length (att_bytes ?p))) PREPARE_WRITE_CB = Some (rid, (s2, l @ [att_bytes ?p]))" "ok s2" "mtu s2 = mtu s"
    using b(4) [OF l2] by blast
  moreover have "(of_nat (length (att_bytes ?p)) :: u16) \<noteq> 0"
    using l(2) l2(2) by (metis bot_nat_0.not_eq_extremum unat_0 unat_of_nat_16)
  moreover have "enc_prep_write_req h (of_nat off) (drop (unat (of_nat off :: u16)) v)
      (of_nat (length v) - ucast (of_nat off :: u16)) (Ptr b) n =
      Some (of_nat (length (att_bytes ?p)), Ptr (written (att_bytes ?p) b))"
    using enc_prep_chunk [of n m b "of_nat off" v "of_nat (length v)" h] b(2,3) assms(4) o16 vl by simp
  ultimately show ?thesis using b(1) by (simp add: prepare_write_def assms(3) del: att_bytes.simps)
qed

lemma execute_step:
  assumes "ok s"
  shows "\<exists>rid s2. execute_write (recorded ops) 1 (s, l) = Some (rid, (s2, l @ [att_bytes (ExecWriteReq 1)])) \<and> ok s2"
proof -
  obtain b n s1 where b: "ao_buffer (recorded ops) (s, l) = ((b, n), (s1, l))" "mtu s \<le> length b"
    "\<And>pdu i cb. length (att_bytes pdu) \<le> length b \<Longrightarrow> length (att_bytes pdu) < 65536 \<Longrightarrow>
       (\<exists>rid s2. ao_send (recorded ops) (s1, l) i (Ptr (written (att_bytes pdu) b)) (of_nat (length (att_bytes pdu))) cb =
          Some (rid, (s2, l @ [att_bytes pdu])) \<and> rid \<noteq> 0 \<and> ok s2 \<and> mtu s2 = mtu s)"
    using recorded_request [OF assms(1)] by blast
  then have lb: "2 \<le> length b" using mtu_range [OF assms(1)] by auto
  then have "enc_exec_write_req 1 (Ptr b) n = Some (2, Ptr (written (att_bytes (ExecWriteReq 1)) b))"
    using enc_fixed(7) [of b 1 n] by (simp add: encodes_def)
  moreover obtain rid s2 where "ao_send (recorded ops) (s1, l) 0 (Ptr (written (att_bytes (ExecWriteReq 1)) b)) 2 USER_FUNC =
      Some (rid, (s2, l @ [att_bytes (ExecWriteReq 1)]))" "ok s2"
    using b(3) [of "ExecWriteReq 1" 0 USER_FUNC] lb by auto
  ultimately show ?thesis using b(1) by (simp add: execute_write_def del: att_bytes.simps)
qed

lemma write_rounds_cover:
  assumes "ok s" "mtu s = m + 5" "lw = \<lparr>lw_handle = h, lw_offset = of_nat off, lw_value = v, lw_vlen = of_nat (length v)\<rparr>"
    "off < length v" "length v < 65536" "length v - off \<le> n"
  shows "\<exists>s'. write_rounds (recorded ops) (echo_len m) n
      (lw, (s, l @ [att_bytes (PrepWriteReq h (of_nat off) (take m (drop off v)))])) =
      Some (Some (s', l @ map att_bytes (write_pdus m h off (drop off v)))) \<and> ok s'"
  using assms
proof (induction n arbitrary: off lw s l)
  case (Suc n)
  have m: "18 \<le> m" "m + 5 < 65536" using mtu_range [OF Suc.prems(1)] Suc.prems(2) by auto
  let ?c = "min m (length v - off)" and ?l = "l @ [att_bytes (PrepWriteReq h (of_nat off) (take m (drop off v)))]"
  let ?lw = "lw\<lparr>lw_offset := of_nat (off + ?c)\<rparr>"
  have o16: "unat (of_nat off :: u16) = off" "unat (of_nat (length v) :: size_t) = length v" using Suc.prems(4,5) by auto
  have oc: "unat (of_nat (off + ?c) :: u16) = off + ?c" using Suc.prems(4,5) by (intro unat_of_nat_16) linarith
  have e: "lw_offset lw + (echo_len m lw - 5) = of_nat (off + ?c)"
    by (simp add: Suc.prems(3) echo_len_def o16)
  have wp: "write_pdus m h off (drop off v) = PrepWriteReq h (of_nat off) (take m (drop off v)) #
      write_pdus m h (off + m) (drop (off + m) v)"
    using m(1) Suc.prems(4) by (subst write_pdus.simps) (simp add: add.commute)
  show ?case
  proof (cases "m < length v - off")
    case True
    then have c: "?c = m" and le: "off + m \<le> length v" "off + m < length v" "length v - (off + m) \<le> n"
      using m(1) Suc.prems(6) by auto
    obtain rid s2 where s2: "prepare_write (recorded ops) ?lw (s, ?l) =
        Some (rid, (s2, ?l @ [att_bytes (PrepWriteReq h (of_nat (off + m)) (take m (drop (off + m) v)))]))"
      "ok s2" "mtu s2 = mtu s"
      using prepare_step [OF Suc.prems(1,2), of ?lw h "off + m" v ?l] le Suc.prems(3,5) unfolding c by auto
    have "(ucast (of_nat (off + m) :: u16) :: size_t) \<noteq> of_nat (length v)"
      using True oc[unfolded c] o16(2) by (auto simp: word_unat_eq_iff)
    then have "write_rounds (recorded ops) (echo_len m) (Suc n) (lw, (s, ?l)) =
        write_rounds (recorded ops) (echo_len m) n (?lw, (s2, ?l @ [att_bytes (PrepWriteReq h (of_nat (off + m))
          (take m (drop (off + m) v)))]))"
      using s2(1) e[unfolded c] unfolding c by (simp add: prepare_write_cb_def Suc.prems(3) Let_def del: att_bytes.simps of_nat_add)
    moreover obtain s' where "write_rounds (recorded ops) (echo_len m) n (?lw, (s2, ?l @ [att_bytes (PrepWriteReq h (of_nat (off + m))
          (take m (drop (off + m) v)))])) =
        Some (Some (s', ?l @ map att_bytes (write_pdus m h (off + m) (drop (off + m) v))))" "ok s'"
      using Suc.IH [of s2 ?lw "off + m" ?l] s2(2,3) Suc.prems(2,3,5) le unfolding c by auto
    ultimately show ?thesis unfolding wp by (simp del: att_bytes.simps)
  next
    case False
    then have c: "off + ?c = length v" using Suc.prems(4) by simp
    obtain rid s2 where s2: "execute_write (recorded ops) 1 (s, ?l) = Some (rid, (s2, ?l @ [att_bytes (ExecWriteReq 1)]))" "ok s2"
      using execute_step [OF Suc.prems(1)] by blast
    have "(ucast (of_nat (length v) :: u16) :: size_t) = of_nat (length v)"
      using Suc.prems(5) by (simp add: ucast_of_nat_16_32)
    moreover have "write_pdus m h (off + m) (drop (off + m) v) = [ExecWriteReq 1]"
      using False by (subst write_pdus.simps) simp
    ultimately show ?thesis using s2 e[unfolded c] unfolding wp
      by (simp add: prepare_write_cb_def Suc.prems(3) Let_def del: att_bytes.simps)
  qed
qed simp

end

section \<open>Long reads\<close>

text \<open>
  The exchange: \<open>srv rq\<close> is the answer to the bytes \<open>rq\<close> of the one request outstanding, first the Read
  request, then the Read Blob requests.
\<close>

primrec blob_rounds ::
    "('s \<times> buf list) attrib_ops \<Rightarrow> (nat \<Rightarrow> u8) \<Rightarrow> (buf \<Rightarrow> u8 \<times> buf) \<Rightarrow> nat \<Rightarrow> read_long_data \<times> 's \<times> buf list \<Rightarrow>
       (u8 \<times> buf ptr \<times> u16) option option" where
  "blob_rounds ops junk srv 0 st = Some None"
| "blob_rounds ops junk srv (Suc n) st =
     (case st of
        (lr, s, [rq]) \<Rightarrow> do {
          let (status, pk) = srv rq;
          (st, r) \<leftarrow> read_blob_helper ops True junk status pk (of_nat (length pk)) (lr, (s, []));
          (case r of Some x \<Rightarrow> Some (Some x) | None \<Rightarrow> blob_rounds ops junk srv n st) }
      | _ \<Rightarrow> None)"

definition read_rounds ::
    "('s \<times> buf list) attrib_ops \<Rightarrow> (nat \<Rightarrow> u8) \<Rightarrow> (buf \<Rightarrow> u8 \<times> buf) \<Rightarrow> nat \<Rightarrow> read_long_data \<times> 's \<times> buf list \<Rightarrow>
       (u8 \<times> buf ptr \<times> u16) option option" where
  "read_rounds ops junk srv n st =
     (case st of
        (lr, s, [rq]) \<Rightarrow> do {
          let (status, pk) = srv rq;
          (st, r) \<leftarrow> read_char_helper ops True status pk (of_nat (length pk)) (lr, (s, []));
          (case r of Some x \<Rightarrow> Some (Some x) | None \<Rightarrow> blob_rounds ops junk srv n st) }
      | _ \<Rightarrow> None)"

text \<open>
  A server that holds the value \<open>v\<close> at the handle \<open>h\<close>, over an MTU of \<open>m + 1\<close>.  Nothing is known of
  its answers to other handles, to offsets behind the value, and to other bytes.
\<close>

definition value_server :: "nat \<Rightarrow> u16 \<Rightarrow> buf \<Rightarrow> (buf \<Rightarrow> u8 \<times> buf) \<Rightarrow> bool" where
  "value_server m h v srv \<longleftrightarrow>
     srv (att_bytes (ReadReq h)) = (0, att_bytes (ReadResp (take m v))) \<and>
     (\<forall>off. unat off \<le> length v \<longrightarrow>
        srv (att_bytes (ReadBlobReq h off)) = (0, att_bytes (ReadBlobResp (take m (drop (unat off) v)))))"

lemma enc_blob:
  "5 \<le> length b \<Longrightarrow> enc_read_blob_req h off (Ptr b) n = Some (5, Ptr (written (att_bytes (ReadBlobReq h off)) b))"
  using enc_fixed(2) [of b h off n] by (simp add: encodes_def)

context accepting_contract
begin

lemma blob_send:
  assumes "ok s"
  shows "\<exists>b n s1. (\<forall>l. ao_buffer (recorded ops) (s, l) = ((b, n), (s1, l))) \<and> unat n = mtu s \<and> 5 \<le> length b \<and>
    ok s1 \<and> mtu s1 = mtu s \<and>
    (\<forall>l i h off cb. \<exists>rid s2. ao_send (recorded ops) (s1, l) i (Ptr (written (att_bytes (ReadBlobReq h off)) b)) 5 cb =
       Some (rid, (s2, l @ [att_bytes (ReadBlobReq h off)])) \<and> rid \<noteq> 0 \<and> ok s2 \<and> mtu s2 = mtu s)"
proof -
  obtain b n s1 where b: "\<forall>l. ao_buffer (recorded ops) (s, l) = ((b, n), (s1, l))" "unat n = mtu s" "mtu s \<le> length b"
    "ok s1" "mtu s1 = mtu s"
    "\<And>l pdu i cb. length (att_bytes pdu) \<le> length b \<Longrightarrow> length (att_bytes pdu) < 65536 \<Longrightarrow>
       (\<exists>rid s2. ao_send (recorded ops) (s1, l) i (Ptr (written (att_bytes pdu) b)) (of_nat (length (att_bytes pdu))) cb =
          Some (rid, (s2, l @ [att_bytes pdu])) \<and> rid \<noteq> 0 \<and> ok s2 \<and> mtu s2 = mtu s)"
    using recorded_request [OF assms] by blast
  then have l: "5 \<le> length b" using mtu_range [OF assms] by simp
  have "\<exists>rid s2. ao_send (recorded ops) (s1, l) i (Ptr (written (att_bytes (ReadBlobReq h off)) b)) 5 cb =
       Some (rid, (s2, l @ [att_bytes (ReadBlobReq h off)])) \<and> rid \<noteq> 0 \<and> ok s2 \<and> mtu s2 = mtu s" for l i h off cb
    using b(6) [of "ReadBlobReq h off" l i cb] l by simp
  with b l show ?thesis by (intro exI [of _ b] exI [of _ n] exI [of _ s1]) simp
qed

lemma blob_rounds_value:
  assumes "ok s" "mtu s = m + 1" "rl_buffer lr = Ptr (0x0B # take k v)" "rl_size lr = of_nat (k + 1)"
    "k \<le> length v" "length v < 65535" "length v - k < n" "value_server m h v srv" "rl_handle lr = h"
  shows "blob_rounds (recorded ops) junk srv n (lr, s, [att_bytes (ReadBlobReq h (of_nat k))]) = Some (Some (0, Ptr (0x0B # v), of_nat (length v + 1)))"
  using assms
proof (induction n arbitrary: k lr s)
  case (Suc n)
  have m: "22 \<le> m" "m + 1 < 65536" using mtu_range [OF Suc.prems(1)] Suc.prems(2) by auto
  let ?d = "take m (drop k v)"
  define c where "c = min m (length v - k)"
  have uk: "unat (of_nat k :: u16) = k" "unat (of_nat (k + 1) :: u16) = k + 1" using Suc.prems(5,6) by (intro unat_of_nat_16; linarith)+
  have pk: "srv (att_bytes (ReadBlobReq h (of_nat k))) = (0, 0x0D # ?d)"
    using Suc.prems(5,8) uk(1) by (simp add: value_server_def)
  have ld: "length ?d = c" by (simp add: c_def min.commute)
  have c16: "c + 1 < 65536" "k + c \<le> length v" using m(2) Suc.prems(5) by (auto simp: c_def)
  define rlen where "rlen = (of_nat (c + 1) :: u16)"
  have step: "blob_rounds (recorded ops) junk srv (Suc n) (lr, s, [att_bytes (ReadBlobReq h (of_nat k))]) = do {
      (st, r) \<leftarrow> read_blob_helper (recorded ops) True junk 0 (0x0D # ?d) rlen (lr, (s, []));
      (case r of Some x \<Rightarrow> Some (Some x) | None \<Rightarrow> blob_rounds (recorded ops) junk srv n st) }"
    unfolding blob_rounds.simps prod.case list.case pk Let_def list.size ld by (simp add: rlen_def)
  have rl: "unat rlen = c + 1" unfolding rlen_def using c16(1) by (rule unat_of_nat_16)
  obtain b bl s1 where b: "\<And>l. ao_buffer (recorded ops) (s, l) = ((b, bl), (s1, l))" "unat bl = mtu s" "5 \<le> length b" "ok s1"
    "mtu s1 = mtu s"
    "\<And>l i h off cb. \<exists>rid s2. ao_send (recorded ops) (s1, l) i (Ptr (written (att_bytes (ReadBlobReq h off)) b)) 5 cb =
       Some (rid, (s2, l @ [att_bytes (ReadBlobReq h off)])) \<and> rid \<noteq> 0 \<and> ok s2 \<and> mtu s2 = mtu s" using blob_send [OF Suc.prems(1)] by blast
  show ?case
  proof (cases "c = 0")
    case True
    then have "k = length v" using m(1) Suc.prems(5) by (auto simp: c_def min_def split: if_splits)
    with True Suc.prems(3,4) show ?thesis unfolding step by (simp add: read_blob_helper_def rlen_def)
  next
    case False
    define sz where "sz = (of_nat (k + c + 1) :: u16)"
    let ?lr = "lr\<lparr>rl_buffer := Ptr (0x0B # take (k + c) v), rl_size := sz\<rparr>"
    have r1: "rlen \<noteq> 1" using False rl by (metis Suc_eq_plus1 add_is_1 unat_1)
    have a1: "ucast (rl_size lr) = (of_nat (k + 1) :: size_t)"
      unfolding Suc.prems(4) using Suc.prems(5,6) by (intro ucast_of_nat_16_32) linarith
    have a2: "ucast rlen = (of_nat (c + 1) :: size_t)" unfolding rlen_def using c16(1) by (rule ucast_of_nat_16_32)
    have n: "unat (ucast (rl_size lr) + ucast rlen - 1 :: size_t) = k + 1 + c"
    proof -
      have "(ucast (rl_size lr) + ucast rlen - 1 :: size_t) = of_nat (k + 1 + c)"
        unfolding a1 a2 by simp
      then show ?thesis using c16(2) Suc.prems(6) by (simp only: unat_of_nat_32)
    qed
    have u1: "unat (ucast rlen - 1 :: size_t) = c"
    proof -
      have "(ucast rlen - 1 :: size_t) = of_nat c" unfolding a2 by simp
      then show ?thesis using c16(1) by (simp only: unat_of_nat_32)
    qed
    have lt: "(ucast rlen < bl) = (c < m)" using rl b(2) Suc.prems(2) by (simp add: word_less_nat_alt)
    have w: "wr (0x0B # take k v @ map junk [k + 1..<k + 1 + c]) (k + 1) ?d = Some (0x0B # take (k + c) v)"
    proof -
      define J where "J = map junk [k + 1..<k + 1 + c]"
      have "length J = c" by (simp add: J_def)
      moreover have "take (k + c) v = take k v @ ?d" by (cases "m \<le> length v - k") (simp_all add: take_add c_def)
      ultimately show ?thesis using Suc.prems(5) ld unfolding J_def [symmetric] by (simp add: wr_def)
    qed
    have rd: "rd (0x0D # ?d) 1 c = Some ?d" unfolding One_nat_def rd_Cons_Suc using ld by (rule rd_all)
    have tk: "take (k + 1 + c) (0x0B # take k v) = 0x0B # take k v" using Suc.prems(5) by simp
    have sz2: "rl_size lr + (rlen - 1) = sz" "sz - 1 = of_nat (k + c)"
      by (simp_all add: Suc.prems(4) rlen_def sz_def)
    have us: "unat (rl_size lr) = k + 1" by (simp only: Suc.prems(4) uk(2))
    have nz: "(ucast (rl_size lr) + ucast rlen - 1 :: size_t) \<noteq> 0" using n by auto
    have H: "read_blob_helper (recorded ops) True junk 0 (0x0D # ?d) rlen (lr, (s, [])) =
        (if c < m then Some ((?lr, (s1, [])), Some (0, rl_buffer ?lr, rl_size ?lr))
         else do {
           (rid, s) \<leftarrow> ao_send (recorded ops) (s1, []) (rl_id lr) (Ptr (written (att_bytes (ReadBlobReq (rl_handle lr) (of_nat (k + c)))) b)) 5 READ_BLOB_HELPER;
           if rid \<noteq> 0 then Some ((?lr\<lparr>rl_ref := rl_ref ?lr + 1\<rparr>, s), None)
           else Some ((?lr, s), Some (ATT_ECODE_IO, rl_buffer ?lr, rl_size ?lr)) })"
      using r1 nz lt b(1,3) w tk sz2 rd Suc.prems(3,5)
      by (simp add: read_blob_helper_def n u1 us Let_def enc_blob del: att_bytes.simps of_nat_add upt_Suc)
    show ?thesis
    proof (cases "c < m")
      case True
      then have "k + c = length v" using c16(2) by (auto simp: c_def)
      with H True show ?thesis unfolding step by (simp add: sz_def)
    next
      case False
      obtain rid s2 where s2: "ao_send (recorded ops) (s1, []) (rl_id lr)
          (Ptr (written (att_bytes (ReadBlobReq (rl_handle lr) (of_nat (k + c)))) b)) 5 READ_BLOB_HELPER =
          Some (rid, (s2, [] @ [att_bytes (ReadBlobReq (rl_handle lr) (of_nat (k + c)))]))" "rid \<noteq> 0" "ok s2" "mtu s2 = mtu s" using b(6) by blast
      have "blob_rounds (recorded ops) junk srv n
          (?lr\<lparr>rl_ref := rl_ref ?lr + 1\<rparr>, s2, [att_bytes (ReadBlobReq h (of_nat (k + c)))]) =
          Some (Some (0, Ptr (0x0B # v), of_nat (length v + 1)))"
        using s2(3,4) Suc.prems(2,6-9) c16(2) False m(1) by (intro Suc.IH [where k = "k + c"]) (auto simp: sz_def)
      with H False s2 show ?thesis unfolding step Suc.prems(9) by (simp del: of_nat_add att_bytes.simps)
    qed
  qed
qed simp

lemma read_start:
  assumes "ok s"
  shows "\<exists>rid lr s2. gatt_read_char (recorded ops) True h (s, []) = Some (rid, Some lr, (s2, [att_bytes (ReadReq h)])) \<and>
    ok s2 \<and> mtu s2 = mtu s \<and> rl_handle lr = h"
proof -
  obtain b n s1 where b: "\<And>l. ao_buffer (recorded ops) (s, l) = ((b, n), (s1, l))" "mtu s \<le> length b"
    "\<And>l pdu i cb. length (att_bytes pdu) \<le> length b \<Longrightarrow> length (att_bytes pdu) < 65536 \<Longrightarrow>
       (\<exists>rid s2. ao_send (recorded ops) (s1, l) i (Ptr (written (att_bytes pdu) b)) (of_nat (length (att_bytes pdu))) cb =
          Some (rid, (s2, l @ [att_bytes pdu])) \<and> rid \<noteq> 0 \<and> ok s2 \<and> mtu s2 = mtu s)"
    using recorded_request [OF assms] by blast
  then have l: "3 \<le> length b" using mtu_range [OF assms] by simp
  then have e: "enc_read_req h (Ptr b) n = Some (3, Ptr (written (att_bytes (ReadReq h)) b))"
    using enc_fixed(1) [of b h n] by (simp add: encodes_def)
  obtain rid s2 where "ao_send (recorded ops) (s1, []) 0 (Ptr (written (att_bytes (ReadReq h)) b)) 3 READ_CHAR_HELPER =
      Some (rid, (s2, [att_bytes (ReadReq h)]))" "rid \<noteq> 0" "ok s2" "mtu s2 = mtu s"
    using b(3) [of "ReadReq h" "[]" 0 READ_CHAR_HELPER] l by auto
  with b(1) e show ?thesis by (simp add: gatt_read_char_def Let_def del: att_bytes.simps)
qed

lemma read_rounds_value:
  assumes "ok s" "mtu s = m + 1" "length v < 65535" "length v < n" "value_server m h v srv" "rl_handle lr = h"
  shows "read_rounds (recorded ops) junk srv n (lr, s, [att_bytes (ReadReq h)]) =
    Some (Some (0, Ptr (0x0B # v), of_nat (length v + 1)))"
proof -
  have m: "22 \<le> m" "m + 1 < 65536" using mtu_range [OF assms(1)] assms(2) by auto
  define c where "c = min m (length v)"
  define rlen where "rlen = (of_nat (c + 1) :: u16)"
  have lt: "length (take m v) = c" by (simp add: c_def min.commute)
  have c: "c + 1 < 65536" "c \<le> length v" using m(2) by (auto simp: c_def)
  have ur: "unat rlen = c + 1" unfolding rlen_def using c(1) by (rule unat_of_nat_16)
  have pk: "srv (att_bytes (ReadReq h)) = (0, 0x0B # take m v)" using assms(5) by (simp add: value_server_def)
  have step: "read_rounds (recorded ops) junk srv n (lr, s, [att_bytes (ReadReq h)]) = do {
      (st, r) \<leftarrow> read_char_helper (recorded ops) True 0 (0x0B # take m v) rlen (lr, (s, []));
      (case r of Some x \<Rightarrow> Some (Some x) | None \<Rightarrow> blob_rounds (recorded ops) junk srv n st) }"
    unfolding read_rounds_def prod.case list.case pk Let_def list.size lt by (simp add: rlen_def)
  obtain b bl s1 where b: "\<And>l. ao_buffer (recorded ops) (s, l) = ((b, bl), (s1, l))" "unat bl = mtu s" "5 \<le> length b" "ok s1"
    "mtu s1 = mtu s"
    "\<And>l i h off cb. \<exists>rid s2. ao_send (recorded ops) (s1, l) i (Ptr (written (att_bytes (ReadBlobReq h off)) b)) 5 cb =
       Some (rid, (s2, l @ [att_bytes (ReadBlobReq h off)])) \<and> rid \<noteq> 0 \<and> ok s2 \<and> mtu s2 = mtu s" using blob_send [OF assms(1)] by blast
  have lt2: "(ucast rlen < bl) = (c < m)" using ur b(2) assms(2) by (simp add: word_less_nat_alt)
  show ?thesis
  proof (cases "c < m")
    case True
    then have "take m v = v" "c = length v" by (auto simp: c_def)
    with True lt2 b(1) show ?thesis unfolding step by (simp add: read_char_helper_def rlen_def)
  next
    case False
    have rd: "rd (0x0B # take m v) 0 (c + 1) = Some (0x0B # take m v)" using lt by (intro rd_all) simp
    let ?lr = "lr\<lparr>rl_buffer := Ptr (0x0B # take m v), rl_size := rlen\<rparr>"
    obtain rid s2 where s2: "ao_send (recorded ops) (s1, []) (rl_id lr)
        (Ptr (written (att_bytes (ReadBlobReq (rl_handle lr) (rlen - 1))) b)) 5 READ_BLOB_HELPER =
        Some (rid, (s2, [] @ [att_bytes (ReadBlobReq (rl_handle lr) (rlen - 1))]))" "rid \<noteq> 0" "ok s2" "mtu s2 = mtu s" using b(6) by blast
    have "read_char_helper (recorded ops) True 0 (0x0B # take m v) rlen (lr, (s, [])) =
        Some ((?lr\<lparr>rl_ref := rl_ref ?lr + 1\<rparr>, (s2, [att_bytes (ReadBlobReq (rl_handle lr) (rlen - 1))])), None)"
      using False lt2 b(1,3) rd s2(1,2) by (simp add: read_char_helper_def ur enc_blob Let_def del: att_bytes.simps)
    moreover have cm: "c = m" "rlen - 1 = of_nat m" using False by (simp_all add: c_def rlen_def)
    then have "blob_rounds (recorded ops) junk srv n
        (?lr\<lparr>rl_ref := rl_ref ?lr + 1\<rparr>, s2, [att_bytes (ReadBlobReq h (of_nat m))]) =
        Some (Some (0, Ptr (0x0B # v), of_nat (length v + 1)))"
      using s2(3,4) assms(2-6) c(2) m(1) by (intro blob_rounds_value [where k = m]) (auto simp: rlen_def)
    ultimately show ?thesis unfolding step cm(2) assms(6) by (simp del: att_bytes.simps)
  qed
qed

end

section \<open>The contract on the model of attrib/gattrib.c\<close>

text \<open>A transport that takes every request.\<close>

definition takes_all :: "'a bt_att_ops \<Rightarrow> bool" where
  "takes_all A \<longleftrightarrow> (\<forall>a op body cb. fst (ba_send A a op body cb) \<noteq> 0) \<and>
     (\<forall>a i op body cb. fst (ba_resend A a i op body cb) = 0)"

definition accepting_ok :: "'a bt_att_ops \<Rightarrow> ('f, 'u, 'a) gattrib \<Rightarrow> bool" where
  "accepting_ok A g \<longleftrightarrow> gattrib_ok A g \<and> takes_all A"

lemma gattrib_accepted:
  assumes "accepting_ok A g" "0 < len" "unat len \<le> length b" "gattrib_mtu A g \<le> length b"
    "ao_send (gattrib_ops A junk) g i (Ptr b) len cb = Some (rid, g')"
  shows "rid \<noteq> 0"
proof -
  have ok: "gattrib_ok A g" "takes_all A" using assms(1) by (simp_all add: accepting_ok_def)
  obtain cs where cs: "wf_gattrib g cs" using ok(1) by (auto simp: gattrib_ok_def)
  let ?g = "g\<lparr>ga_buf := b\<rparr>"
  have "wf_gattrib ?g cs" using cs ok(1) assms(4) by (auto simp: wf_gattrib_def gattrib_ok_def)
  from send_wf [OF this assms(2,3), of "Ptr (ResultOf cb)" "destroy_of cb" A i "()"] obtain r h where
    r: "g_attrib_send A (Ptr ?g) i (Ptr b) len (Ptr (ResultOf cb)) () (destroy_of cb) = Some (r, Ptr h)"
    "(r, ga_att h) =
      (if i = 0 then ba_send A (ga_att g) (b ! 0) (take (unat len - 1) (drop 1 b)) (Ptr (ga_brk g))
       else let (err, att) = ba_resend A (ga_att g) i (b ! 0) (take (unat len - 1) (drop 1 b)) (Ptr (ga_brk g))
            in (if err \<noteq> 0 then 0 else i, att))" by auto
  then have "rid = r" using assms(5) by (simp add: gattrib_ops_def)
  with arg_cong [OF r(2), of fst] ok(2) show ?thesis
    by (auto simp: takes_all_def split: prod.splits if_splits) (metis fst_conv)+
qed

interpretation taking: accepting_contract "gattrib_ops A junk" "accepting_ok A" "gattrib_mtu A"
  for A :: "'a bt_att_ops" and junk
proof
  show "23 \<le> gattrib_mtu A s \<and> gattrib_mtu A s < 65536" if "accepting_ok A s" for s :: "(client_fn, unit, 'a) gattrib"
    using that gattrib_mtu_range by (auto simp: accepting_ok_def)
  show "\<exists>b n s'. ao_buffer (gattrib_ops A junk) s = ((b, n), s') \<and> unat n = gattrib_mtu A s \<and> gattrib_mtu A s \<le> length b \<and>
      accepting_ok A s' \<and> gattrib_mtu A s' = gattrib_mtu A s" if "accepting_ok A s" for s
    using that gattrib_buffer [of A s junk] by (simp add: accepting_ok_def)
  show "\<exists>rid s'. ao_send (gattrib_ops A junk) s i (Ptr b) len cb = Some (rid, s') \<and> accepting_ok A s' \<and>
      gattrib_mtu A s' = gattrib_mtu A s"
    if "accepting_ok A s" "0 < len" "unat len \<le> length b" "gattrib_mtu A s \<le> length b" for s len b i cb
    using that gattrib_send [of A s len b junk i cb] by (simp add: accepting_ok_def)
qed (rule gattrib_accepted)

section \<open>Properties\<close>

text \<open>
  C17: Reading a characteristic returns the whole value, however long it is: against a server that
  sees only the bytes the client sends, and answers the read and the blobs of this handle with as
  much as the MTU allows from the offset asked for, the caller gets status 0 and the response opcode
  followed by exactly the value, after at most one blob per byte and one more; also when the value
  ends exactly at the end of a packet.
\<close>

theorem long_read_complete:
  assumes "gattrib_ok A g" "takes_all A" "gattrib_mtu A g = m + 1" "length v < 65535" "length v < n"
    "value_server m h v srv"
  shows "\<exists>rid lr g' sent.
    gatt_read_char (recorded (gattrib_ops A junk)) True h (g, []) = Some (rid, Some lr, (g', sent)) \<and>
    read_rounds (recorded (gattrib_ops A junk)) junk2 srv n (lr, g', sent) =
      Some (Some (0, Ptr (0x0B # v), of_nat (length v + 1)))"
proof -
  have "accepting_ok A g" using assms(1,2) by (simp add: accepting_ok_def)
  then obtain rid lr g' where g': "gatt_read_char (recorded (gattrib_ops A junk)) True h (g, []) =
      Some (rid, Some lr, (g', [att_bytes (ReadReq h)]))"
    "accepting_ok A g'" "gattrib_mtu A g' = gattrib_mtu A g" "rl_handle lr = h"
    using taking.read_start by blast
  with taking.read_rounds_value [OF g'(2) _ assms(4-6) g'(4), of junk junk2] assms(3) show ?thesis by auto
qed

definition accepting_att :: "nat bt_att_ops" where
  "accepting_att = counting_att\<lparr>ba_send := \<lambda>a _ _ _. (1, Suc a)\<rparr>"

lemma accepting_att_ok:
  "gattrib_ok accepting_att example_client" "takes_all accepting_att" "gattrib_mtu accepting_att example_client = 23"
  by (auto simp: gattrib_ok_def wf_gattrib_def example_client_def mtu_kept_def accepting_att_def counting_att_def
      gattrib_mtu_def takes_all_def intro!: exI [of _ "[]"] rep_new)

definition example_value_server :: "buf \<Rightarrow> u8 \<times> buf" where
  "example_value_server rq =
     (if rq = att_bytes (ReadReq 3) then (0, att_bytes (ReadResp (replicate 22 7)))
      else (0, att_bytes (ReadBlobResp (take 22 (drop (unat (of_le (drop 3 rq) :: u16)) (replicate 44 7))))))"

theorem long_read_complete_witness:
  "\<exists>rid lr g' sent.
    gatt_read_char (recorded (gattrib_ops accepting_att (\<lambda>_. 0))) True 3 (example_client, []) =
      Some (rid, Some lr, (g', sent)) \<and>
    read_rounds (recorded (gattrib_ops accepting_att (\<lambda>_. 0))) (\<lambda>_. 0) example_value_server 45 (lr, g', sent) =
      Some (Some (0, Ptr (0x0B # replicate 44 7), 45))"
proof -
  have "value_server 22 3 (replicate 44 7) example_value_server"
    by (auto simp: value_server_def example_value_server_def)
  with long_read_complete [OF accepting_att_ok(1,2), of 22 "replicate 44 7" 45 3 example_value_server "\<lambda>_. 0" "\<lambda>_. 0"]
  show ?thesis by (simp add: accepting_att_ok(3))
qed

text \<open>
  C18: A long write delivers the whole value: against a server that takes every Prepare Write and
  echoes it, the client sends the chunks of the value in order, at consecutive offsets and each as
  large as the MTU allows, then Execute Write once, and frees its record.
\<close>

theorem long_write_covers_value:
  assumes "gattrib_ok A g" "takes_all A" "gattrib_mtu A g = m + 5" "m + 2 < length v" "length v < 65536"
    "length v \<le> n"
  shows "\<exists>rid lw g' sent g''. gatt_write_char (recorded (gattrib_ops A junk)) True h v (of_nat (length v)) (g, []) =
      Some (rid, Some lw, (g', sent)) \<and>
    write_rounds (recorded (gattrib_ops A junk)) (echo_len m) n (lw, (g', sent)) =
      Some (Some (g'', map att_bytes (write_pdus m h 0 v)))"
proof -
  have ok: "accepting_ok A g" using assms(1,2) by (simp add: accepting_ok_def)
  let ?lw = "\<lparr>lw_handle = h, lw_offset = 0, lw_value = v, lw_vlen = of_nat (length v)\<rparr>"
  obtain b n0 g1 where b: "ao_buffer (recorded (gattrib_ops A junk)) (g, []) = ((b, n0), (g1, []))" "unat n0 = m + 5"
    "accepting_ok A g1" "gattrib_mtu A g1 = m + 5"
    using taking.recorded_request [OF ok, of junk] unfolding assms(3) by blast
  have "unat (n0 - 3) = m + 2" using b(2) by (subst unat_minus_le) (auto simp: word_le_nat_alt)
  then have big: "\<not> (of_nat (length v) :: size_t) \<le> n0 - 3" using assms(4,5) by (simp add: word_le_nat_alt)
  have rd: "rd v 0 (unat (of_nat (length v) :: size_t)) = Some v" using assms(5) by (simp add: rd_all)
  obtain rid g2 where g2: "prepare_write (recorded (gattrib_ops A junk)) ?lw (g1, []) =
      Some (rid, (g2, [att_bytes (PrepWriteReq h (of_nat 0) (take m (drop 0 v)))]))" "accepting_ok A g2" "gattrib_mtu A g2 = m + 5"
    using taking.prepare_step [OF b(3,4), of ?lw h 0 v junk "[]"] assms(5) b(4) by auto
  have w: "gatt_write_char (recorded (gattrib_ops A junk)) True h v (of_nat (length v)) (g, []) =
      Some (rid, Some ?lw, (g2, [att_bytes (PrepWriteReq h (of_nat 0) (take m (drop 0 v)))]))"
    using b(1) big rd g2(1) by (simp add: gatt_write_char_def Let_def del: att_bytes.simps)
  obtain g'' where "write_rounds (recorded (gattrib_ops A junk)) (echo_len m) n
      (?lw, (g2, [] @ [att_bytes (PrepWriteReq h (of_nat 0) (take m (drop 0 v)))])) =
      Some (Some (g'', [] @ map att_bytes (write_pdus m h 0 (drop 0 v))))"
    using taking.write_rounds_cover [OF g2(2,3) _ _ assms(5), of ?lw h 0 n junk "[]"] assms(4,6) by fastforce
  then have "write_rounds (recorded (gattrib_ops A junk)) (echo_len m) n
      (?lw, (g2, [att_bytes (PrepWriteReq h (of_nat 0) (take m (drop 0 v)))])) =
      Some (Some (g'', map att_bytes (write_pdus m h 0 v)))" by (simp only: append_Nil drop_0)
  with w show ?thesis by blast
qed

theorem long_write_covers_value_witness:
  "\<exists>rid lw g' sent g''. gatt_write_char (recorded (gattrib_ops accepting_att (\<lambda>_. 0))) True 3 (replicate 30 7) 30
      (example_client, []) = Some (rid, Some lw, (g', sent)) \<and>
    write_rounds (recorded (gattrib_ops accepting_att (\<lambda>_. 0))) (echo_len 18) 30 (lw, (g', sent)) =
      Some (Some (g'', map att_bytes [PrepWriteReq 3 0 (replicate 18 7), PrepWriteReq 3 18 (replicate 12 7), ExecWriteReq 1]))"
proof -
  have "write_pdus 18 3 0 (replicate 30 7) = [PrepWriteReq 3 0 (replicate 18 7), PrepWriteReq 3 18 (replicate 12 7), ExecWriteReq 1]"
    by (subst write_pdus.simps, subst write_pdus.simps, subst write_pdus.simps) simp
  with long_write_covers_value [OF accepting_att_ok(1,2), of 18 "replicate 30 7" 30 "\<lambda>_. 0" 3] show ?thesis
    by (simp add: accepting_att_ok(3) del: att_bytes.simps)
qed

text \<open>
  A peer can make a long write read outside the value: a Prepare Write response whose length
  does not match the chunk sent, shorter than its five-byte header or longer than what was left,
  moves the offset past the value, and the next chunk is read from there.
\<close>

theorem prepare_response_overread:
  assumes "gattrib_ok A g" "unat (lw_vlen lw) = length (lw_value lw)"
    "unat (lw_vlen lw) < unat (lw_offset lw + (rlen - 5))"
  shows "prepare_write_cb (gattrib_ops A junk) 0 rpdu rlen (lw, g) = None"
proof -
  obtain b n g1 where b: "ao_buffer (gattrib_ops A junk) g = ((b, n), g1)" "unat n = gattrib_mtu A g"
    "gattrib_mtu A g \<le> length b" "23 \<le> length b" using client.request [OF assms(1)] by blast
  have n: "23 \<le> unat n" using gattrib_mtu_range [OF assms(1)] b(2) by simp
  define off where "off = lw_offset lw + (rlen - 5)"
  have o: "unat (lw_vlen lw) < unat off" using assms(3) by (simp add: off_def)
  define vlen where "vlen = clamp_vlen (lw_vlen lw - ucast off) n 5"
  have "lw_vlen lw \<noteq> ucast off" using o by auto
  then have "0 < unat (lw_vlen lw - ucast off)" by (simp only: unat_gt_0) simp
  then have v: "0 < vlen" using n
    by (auto simp: vlen_def clamp_vlen_def word_less_nat_alt unat_minus_le word_le_nat_alt)
  have r: "rd (drop (unat off) (lw_value lw)) 0 (unat vlen) = None"
    using o v assms(2) by (simp add: word_less_nat_alt)
  then have "put_value (drop (unat off) (lw_value lw)) vlen 5 p = None" for p unfolding put_value_def r using v by simp
  then have "enc_prep_write_req (lw_handle lw) off (drop (unat off) (lw_value lw)) (lw_vlen lw - ucast off) (Ptr b) n = None"
    by (simp add: enc_prep_write_req_def vlen_def [symmetric] Let_def split: bind_splits)
  then show ?thesis using b(1) \<open>lw_vlen lw \<noteq> ucast off\<close>
    by (simp add: prepare_write_cb_def prepare_write_def off_def [symmetric] Let_def)
qed

theorem prepare_response_overread_witness:
  "prepare_write_cb (gattrib_ops accepting_att (\<lambda>_. 0)) 0 [0x17] 1
     (\<lparr>lw_handle = 3, lw_offset = 0, lw_value = [1, 2], lw_vlen = 2\<rparr>, example_client) = None"
  using prepare_response_overread [OF accepting_att_ok(1), of "\<lparr>lw_handle = 3, lw_offset = 0, lw_value = [1, 2], lw_vlen = 2\<rparr>" 1
    "\<lambda>_. 0" "[0x17]"] by simp

end
