(* ===== verification/Gatttool.thy ===== *)
theory Gatttool
  imports GattIO
begin

text \<open>
  \<open>attrib/gatttool.c\<close>: the enumeration tool of this repository.  Once connected it starts the
  discovery of services, characteristics and descriptors at once; the callbacks print a
  \<open>GATTPRINT\<close> line per result on the standard output and append the same line to the log file,
  the characteristics callback reads every readable value, and the descriptors callback ends the
  main loop.

  \<open>tool\<close> holds the global variables of the file.  Its last fields stand for the process: what was
  printed on the standard output, the log file and the standard error, whether the main loop was
  told to quit, and the value reads in flight with the index of the array cell whose address they
  carry as \<open>user_data\<close>.  \<open>ops\<close> is the interface of the \<open>GAttrib\<close> object (theory Gatt).
\<close>

section \<open>State\<close>

record 's tool =
  opt_dst :: string
  opt_dst_type :: string
  opt_uuid :: "bt_uuid ptr"
  opt_start :: int
  opt_end :: int
  got_error :: bool
  g_max_handle :: u16
  char_value_handles_to_read :: "u16 list"
  num_char_value_handles :: nat
  g_attrib_copy :: "'s ptr"
  g_log_FILE :: string
  tl_stdout :: string
  tl_stderr :: string
  tl_quit :: bool
  tl_primary :: "discover_primary option"
  tl_char :: "discover_char option"
  tl_desc :: "discover_desc option"
  tl_reads :: "(u32 \<times> read_long_data option \<times> nat) list"

definition g_print :: "string \<Rightarrow> 's tool \<Rightarrow> 's tool" where
  "g_print str t = t\<lparr>tl_stdout := tl_stdout t @ str\<rparr>"

definition g_printerr :: "string \<Rightarrow> 's tool \<Rightarrow> 's tool" where
  "g_printerr str t = t\<lparr>tl_stderr := tl_stderr t @ str\<rparr>"

definition fprintf_log :: "string \<Rightarrow> 's tool \<Rightarrow> 's tool" where
  "fprintf_log str t = t\<lparr>g_log_FILE := g_log_FILE t @ str\<rparr>"

definition g_main_loop_quit :: "'s tool \<Rightarrow> 's tool" where
  "g_main_loop_quit t = t\<lparr>tl_quit := True\<rparr>"

text \<open>\<open>%d\<close> of a non-negative number, \<open>%04x\<close> and \<open>%02x\<close>, and the quoted fields of a line.\<close>

fun fmt_d :: "nat \<Rightarrow> string" where
  "fmt_d n = (if n < 10 then [hexdigit n] else fmt_d (n div 10) @ [hexdigit (n mod 10)])"

declare fmt_d.simps [simp del]

definition hex4 :: "u16 \<Rightarrow> string" where
  "hex4 v = ''0x'' @ fmt_x 4 (unat v)"

definition csv_field :: "string \<Rightarrow> string" where
  "csv_field str = [CHR 0x22] @ str @ [CHR 0x22]"

primrec csv_line :: "string list \<Rightarrow> string" where
  "csv_line [] = [CHR 0x0A]"
| "csv_line (f # fs) = csv_field f @ (if fs = [] then [] else '','') @ csv_line fs"

section \<open>Services\<close>

definition service_line :: "'s tool \<Rightarrow> gatt_primary \<Rightarrow> string" where
  "service_line t prim =
     csv_line [''GATTPRINT:SERVICE'', opt_dst_type t, opt_dst t, hex4 (rstart (prim_range prim)),
       hex4 (rend (prim_range prim)), prim_uuid prim]"

primrec print_services :: "gatt_primary list \<Rightarrow> 's tool \<Rightarrow> 's tool" where
  "print_services [] t = t"
| "print_services (prim # l) t =
     (let t = g_print (service_line t prim) t;
          t = fprintf_log (service_line t prim) t;
          t = t\<lparr>g_max_handle := rend (prim_range prim)\<rparr>
      in print_services l t)"

definition tool_primary_all_cb :: "u8 \<Rightarrow> gatt_primary list \<Rightarrow> 's tool \<Rightarrow> 's tool" where
  "tool_primary_all_cb status services t =
     (if status \<noteq> 0 then
        g_printerr (''Discover all primary services failed: '' @ att_ecode2str status @ [CHR 0x0A]) t
      else print_services services t)"

section \<open>Characteristics and their values\<close>

definition char_line :: "'s tool \<Rightarrow> gatt_char \<Rightarrow> string" where
  "char_line t chars =
     csv_line [''GATTPRINT:CHARACTERISTIC'', opt_dst_type t, opt_dst t, hex4 (char_handle chars),
       ''0x'' @ fmt_x 2 (unat (char_properties chars)), hex4 (char_value_handle chars), char_uuid chars]"

text \<open>
  The value handle is stored in the next cell of the array, whose address the read carries.  A
  null client object starts nothing: the encoder refuses the null buffer.
\<close>

definition read_value ::
    "'s attrib_ops \<Rightarrow> (nat \<Rightarrow> bool) \<Rightarrow> gatt_char \<Rightarrow> 's tool \<Rightarrow> 's tool option" where
  "read_value ops mem chars t =
     (let n = num_char_value_handles t in
      if n < length (char_value_handles_to_read t) then do {
        let t = t\<lparr>char_value_handles_to_read := (char_value_handles_to_read t)[n := char_value_handle chars]\<rparr>;
        t \<leftarrow> (case g_attrib_copy t of
                NULL \<Rightarrow> Some t
              | Ptr s \<Rightarrow> do {
                  (rid, lr, s) \<leftarrow> gatt_read_char ops (mem n) (char_value_handle chars) s;
                  Some (t\<lparr>g_attrib_copy := Ptr s,
                          tl_reads := (if rid = 0 then tl_reads t else tl_reads t @ [(rid, lr, n)])\<rparr>) });
        Some (t\<lparr>num_char_value_handles := n + 1\<rparr>) }
      else None)"

primrec print_chars ::
    "'s attrib_ops \<Rightarrow> (nat \<Rightarrow> bool) \<Rightarrow> gatt_char list \<Rightarrow> 's tool \<Rightarrow> 's tool option" where
  "print_chars ops mem [] t = Some t"
| "print_chars ops mem (chars # l) t = do {
     let t = g_print (char_line t chars) t;
     let t = fprintf_log (char_line t chars) t;
     t \<leftarrow>
       (if char_properties chars AND 0x2 = 0x2 then
          read_value ops mem chars
            (g_print (''Calling gatt_read_char() with handle '' @ fmt_d (unat (char_value_handle chars)) @ [CHR 0x0A]) t)
        else
          Some (g_print (''Skipping handle '' @ fmt_d (unat (char_value_handle chars)) @
            '' because it's not readable'' @ [CHR 0x0A]) t));
     print_chars ops mem l t }"

definition tool_char_discovered_cb ::
    "'s attrib_ops \<Rightarrow> (nat \<Rightarrow> bool) \<Rightarrow> u8 \<Rightarrow> gatt_char list \<Rightarrow> 's tool \<Rightarrow> 's tool option" where
  "tool_char_discovered_cb ops mem status characteristics t =
     (if status \<noteq> 0 then
        Some (g_printerr (''Discover all characteristics failed: '' @ att_ecode2str status @ [CHR 0x0A]) t)
      else print_chars ops mem characteristics t)"

definition value_text :: "buf \<Rightarrow> string" where
  "value_text v =
     concat (map (\<lambda>b. if 32 \<le> b \<and> b \<le> 126 then [char_of (unat b)] else fmt_x 2 (unat b) @ '' '') v)"

definition value_hex :: "buf \<Rightarrow> string" where
  "value_hex v = concat (map (\<lambda>b. fmt_x 2 (unat b)) v)"

text \<open>
  \<open>junk\<close> is the content of the uninitialised array \<open>value\<close>, whose size must not be zero; \<open>cell\<close>
  is the index of the array cell that \<open>user_data\<close> points to.
\<close>

definition char_read_cb ::
    "(nat \<Rightarrow> u8) \<Rightarrow> u8 \<Rightarrow> buf \<Rightarrow> u16 \<Rightarrow> nat \<Rightarrow> 's tool \<Rightarrow> 's tool option" where
  "char_read_cb junk status pdu plen cell t =
     (if plen = 0 then None
      else if status \<noteq> 0 then
        Some (g_printerr (''Characteristic value/descriptor read failed: '' @ att_ecode2str status @ [CHR 0x0A]) t)
      else do {
        (vlen, value) \<leftarrow> dec_read_resp (Ptr pdu) (ucast plen) (Ptr (map junk [0..<unat plen])) (ucast plen);
        if vlen < 0 then Some (g_printerr (''Protocol error'' @ [CHR 0x0A]) t)
        else do {
          v \<leftarrow> deref value;
          v \<leftarrow> rd v 0 (nat vlen);
          let t = g_print (''Characteristic value/descriptor: '' @ value_text v @ [CHR 0x0A]) t;
          if cell < length (char_value_handles_to_read t) then do {
            let fields = [''GATTPRINT:CHAR_VALUE'', opt_dst_type t, opt_dst t,
                          hex4 (char_value_handles_to_read t ! cell), value_hex v];
            Some (fprintf_log (csv_line fields) (g_print (csv_line fields) t)) }
          else None } })"

section \<open>Descriptors\<close>

definition desc_line :: "'s tool \<Rightarrow> gatt_desc \<Rightarrow> string" where
  "desc_line t desc =
     csv_line [''GATTPRINT:DESCRIPTORS'', opt_dst_type t, opt_dst t, hex4 (desc_handle desc), desc_uuid desc]"

text \<open>The variable \<open>desc\<close> of the code is uninitialised (\<open>NULL\<close> here) until the first iteration.\<close>

primrec print_descs :: "gatt_desc list \<Rightarrow> gatt_desc ptr \<times> 's tool \<Rightarrow> gatt_desc ptr \<times> 's tool" where
  "print_descs [] st = st"
| "print_descs (d # l) st =
     (case st of (_, t) \<Rightarrow>
        let t = g_print (desc_line t d) t;
            t = fprintf_log (desc_line t d) t
        in print_descs l (Ptr d, t))"

definition char_desc_cb :: "u8 \<Rightarrow> gatt_desc list \<Rightarrow> 's tool \<Rightarrow> 's tool option" where
  "char_desc_cb status descriptors t = do {
     let t = (if status \<noteq> 0 then
                g_main_loop_quit (g_printerr (''Discover descriptors failed: '' @ att_ecode2str status @ [CHR 0x0A]) t)
              else t);
     let (desc, t) = print_descs descriptors (NULL, t);
     d \<leftarrow> deref desc;
     Some (if desc_handle d = g_max_handle t then g_main_loop_quit t else t) }"

section \<open>Starting the procedures\<close>

definition primary :: "'s attrib_ops \<Rightarrow> bool \<Rightarrow> 's tool \<Rightarrow> 's tool option" where
  "primary ops mem t =
     (case g_attrib_copy t of
        NULL \<Rightarrow> Some t
      | Ptr s \<Rightarrow> do {
          (_, dp, s) \<leftarrow> gatt_discover_primary ops mem NULL s;
          Some (t\<lparr>g_attrib_copy := Ptr s, tl_primary := dp\<rparr>) })"

definition characteristics :: "'s attrib_ops \<Rightarrow> bool \<Rightarrow> 's tool \<Rightarrow> 's tool option" where
  "characteristics ops mem t =
     (case g_attrib_copy t of
        NULL \<Rightarrow> Some t
      | Ptr s \<Rightarrow> do {
          (_, dc, s) \<leftarrow> gatt_discover_char ops mem (word_of_int (opt_start t)) (word_of_int (opt_end t)) (opt_uuid t) s;
          Some (t\<lparr>g_attrib_copy := Ptr s, tl_char := dc\<rparr>) })"

definition characteristics_desc :: "'s attrib_ops \<Rightarrow> bool \<Rightarrow> 's tool \<Rightarrow> 's tool option" where
  "characteristics_desc ops mem t =
     (case g_attrib_copy t of
        NULL \<Rightarrow> Some t
      | Ptr s \<Rightarrow> do {
          (_, dd, s) \<leftarrow> gatt_discover_desc ops mem (word_of_int (opt_start t)) (word_of_int (opt_end t)) NULL s;
          Some (t\<lparr>g_attrib_copy := Ptr s, tl_desc := dd\<rparr>) })"

text \<open>
  \<open>err\<close> is the message of a failed connection.  \<open>io_get\<close> is what \<open>bt_io_get\<close> reports: the MTU and
  the channel id, or a message.  \<open>cid0\<close> is the unspecified content of the variable \<open>cid\<close> in the
  second case.  \<open>new\<close> is \<open>g_attrib_new\<close> on the channel, as a function of the MTU.
\<close>

definition connect_cb ::
    "'s attrib_ops \<Rightarrow> (u16 \<Rightarrow> 's ptr) \<Rightarrow> bool \<Rightarrow> string ptr \<Rightarrow> string + u16 \<times> u16 \<Rightarrow> u16 \<Rightarrow> 's tool \<Rightarrow> 's tool option" where
  "connect_cb ops new mem err io_get cid0 t = do {
     let t = (case err of
                NULL \<Rightarrow> t
              | Ptr msg \<Rightarrow>
                  g_main_loop_quit ((g_printerr (''GATTPRINT:CONNECT: '' @ msg @ [CHR 0x0A]) t)\<lparr>got_error := True\<rparr>));
     let (mtu, cid, t) = (case io_get of
                Inr (mtu, cid) \<Rightarrow> (mtu, cid, t)
              | Inl msg \<Rightarrow> (23, cid0, g_printerr (''Can't detect MTU, using default: '' @ msg) t));
     let mtu = (if cid = 4 then 23 else mtu);
     let t = t\<lparr>g_attrib_copy := new mtu\<rparr>;
     t \<leftarrow> primary ops mem t;
     t \<leftarrow> characteristics ops mem t;
     characteristics_desc ops mem t }"

section \<open>Options\<close>

text \<open>\<open>mem\<close> tells whether the allocation of the UUID succeeds; it keeps \<open>old\<close> when parsing fails.\<close>

definition parse_uuid :: "bool \<Rightarrow> bt_uuid \<Rightarrow> string ptr \<Rightarrow> 's tool \<Rightarrow> bool \<times> 's tool" where
  "parse_uuid mem old value t =
     (case value of
        NULL \<Rightarrow> (False, t)
      | Ptr _ \<Rightarrow>
          if \<not> mem then (False, t\<lparr>opt_uuid := NULL\<rparr>)
          else let (r, u) = bt_string_to_uuid old value; t = t\<lparr>opt_uuid := Ptr u\<rparr>
               in (0 \<le> r, t))"

end
