(* ===== verification/GatttoolProps.thy ===== *)
theory GatttoolProps
  imports Gatttool GattDesc
begin

text \<open>
  The enumeration tool: what its callbacks print and log, how the value reads are tied to their
  handles, when the main loop ends, and three defects a device can trigger.
\<close>

section \<open>Services\<close>

lemma print_services_effect:
  "g_log_FILE (print_services ss t) = g_log_FILE t @ concat (map (service_line t) ss)"
  "tl_stdout (print_services ss t) = tl_stdout t @ concat (map (service_line t) ss)"
  "g_max_handle (print_services ss t) = (if ss = [] then g_max_handle t else rend (prim_range (last ss)))"
  "tl_quit (print_services ss t) = tl_quit t"
proof -
  have e: "service_line (t\<lparr>tl_stdout := a, g_log_FILE := b, g_max_handle := c\<rparr>) = service_line t"
    "service_line (t\<lparr>tl_stdout := a\<rparr>) = service_line t" for t :: "'s tool" and a b c
    by (simp_all add: service_line_def fun_eq_iff)
  show "g_log_FILE (print_services ss t) = g_log_FILE t @ concat (map (service_line t) ss)"
    by (induction ss arbitrary: t) (auto simp: g_print_def fprintf_log_def Let_def e)
  show "tl_stdout (print_services ss t) = tl_stdout t @ concat (map (service_line t) ss)"
    by (induction ss arbitrary: t) (auto simp: g_print_def fprintf_log_def Let_def e)
  show "g_max_handle (print_services ss t) = (if ss = [] then g_max_handle t else rend (prim_range (last ss)))"
    by (induction ss arbitrary: t) (auto simp: g_print_def fprintf_log_def Let_def)
  show "tl_quit (print_services ss t) = tl_quit t"
    by (induction ss arbitrary: t) (auto simp: g_print_def fprintf_log_def Let_def)
qed

text \<open>The service the list of the discovery procedure holds.\<close>

fun prim_of :: "prim_item \<Rightarrow> gatt_primary" where
  "prim_of (Primary p) = p"
| "prim_of (Range r) = \<lparr>prim_uuid = '''', prim_changed = False, prim_range = r\<rparr>"

section \<open>Characteristics\<close>

definition readable :: "gatt_char \<Rightarrow> bool" where
  "readable c \<longleftrightarrow> char_properties c AND 0x2 = 0x2"

lemma char_line_cong:
  "opt_dst t' = opt_dst t \<Longrightarrow> opt_dst_type t' = opt_dst_type t \<Longrightarrow> char_line t' = char_line t"
  by (simp add: char_line_def fun_eq_iff)

lemma char_line_update [simp]:
  "char_line (t\<lparr>tl_stdout := a\<rparr>) = char_line t"
  "char_line (t\<lparr>g_log_FILE := a\<rparr>) = char_line t"
  "char_line (t\<lparr>char_value_handles_to_read := b\<rparr>) = char_line t"
  "char_line (t\<lparr>num_char_value_handles := c\<rparr>) = char_line t"
  "char_line (t\<lparr>g_attrib_copy := d\<rparr>) = char_line t"
  "char_line (t\<lparr>tl_reads := e\<rparr>) = char_line t"
  by (rule char_line_cong, simp, simp)+

text \<open>What a run of the loop over characteristics does to the state, for the reads it starts.\<close>

definition read_of :: "u16 \<Rightarrow> u32 \<times> read_long_data option \<times> nat \<Rightarrow> bool" where
  "read_of h r = (case r of (rid, lr, i) \<Rightarrow> \<exists>l. lr = Some l \<and> rl_id l = rid \<and> rl_handle l = h)"

definition reads_at :: "nat \<Rightarrow> u16 list \<Rightarrow> (u32 \<times> read_long_data option \<times> nat) list \<Rightarrow> bool" where
  "reads_at n hs rs \<longleftrightarrow>
     (\<forall>r\<in>set rs. n \<le> snd (snd r) \<and> snd (snd r) < n + length hs \<and> read_of (hs ! (snd (snd r) - n)) r)"

definition chars_run :: "gatt_char list \<Rightarrow> 's tool \<Rightarrow> 's tool \<Rightarrow> bool" where
  "chars_run cs t t' \<longleftrightarrow>
     (let n = num_char_value_handles t; hs = map char_value_handle (filter readable cs) in
      num_char_value_handles t' = n + length hs \<and>
      char_value_handles_to_read t' =
        take n (char_value_handles_to_read t) @ hs @ drop (n + length hs) (char_value_handles_to_read t) \<and>
      opt_dst t' = opt_dst t \<and> opt_dst_type t' = opt_dst_type t \<and>
      g_log_FILE t' = g_log_FILE t @ concat (map (char_line t) cs) \<and>
      (\<exists>new. tl_reads t' = tl_reads t @ new \<and> reads_at n hs new))"

lemma reads_at_Cons:
  assumes "\<forall>r\<in>set new. snd (snd r) = n \<and> read_of h r" "reads_at (Suc n) hs new'"
  shows "reads_at n (h # hs) (new @ new')"
  unfolding reads_at_def
proof
  fix r assume "r \<in> set (new @ new')"
  then consider "r \<in> set new" | "r \<in> set new'" by auto
  then show "n \<le> snd (snd r) \<and> snd (snd r) < n + length (h # hs) \<and> read_of ((h # hs) ! (snd (snd r) - n)) r"
  proof cases
    case 1
    then show ?thesis using assms(1) by auto
  next
    case 2
    then have "Suc n \<le> snd (snd r)" "snd (snd r) < Suc n + length hs" "read_of (hs ! (snd (snd r) - Suc n)) r"
      using assms(2) by (auto simp: reads_at_def)
    moreover from this(1) have "snd (snd r) - n = Suc (snd (snd r) - Suc n)" by simp
    ultimately show ?thesis by simp
  qed
qed

lemma chars_run_Cons:
  assumes "readable c" "num_char_value_handles t < length (char_value_handles_to_read t)"
    "num_char_value_handles w = Suc (num_char_value_handles t)"
    "char_value_handles_to_read w = (char_value_handles_to_read t)[num_char_value_handles t := char_value_handle c]"
    "opt_dst w = opt_dst t" "opt_dst_type w = opt_dst_type t" "g_log_FILE w = g_log_FILE t @ char_line t c"
    "tl_reads w = tl_reads t @ new"
    "\<forall>r\<in>set new. snd (snd r) = num_char_value_handles t \<and> read_of (char_value_handle c) r"
    "chars_run cs w t'"
  shows "chars_run (c # cs) t t'"
proof -
  let ?n = "num_char_value_handles t" and ?a = "char_value_handles_to_read t" and ?h = "char_value_handle c"
  let ?hs = "map char_value_handle (filter readable cs)"
  have line: "char_line w = char_line t" by (rule char_line_cong [OF assms(5,6)])
  have run: "num_char_value_handles t' = Suc ?n + length ?hs"
    "char_value_handles_to_read t' = take (Suc ?n) (?a[?n := ?h]) @ ?hs @ drop (Suc ?n + length ?hs) (?a[?n := ?h])"
    "opt_dst t' = opt_dst t" "opt_dst_type t' = opt_dst_type t"
    "g_log_FILE t' = g_log_FILE t @ char_line t c @ concat (map (char_line t) cs)"
    using assms(10) unfolding chars_run_def Let_def assms(3-7) line by simp_all
  obtain new' where new': "tl_reads t' = tl_reads w @ new'" "reads_at (Suc ?n) ?hs new'"
    using assms(10) unfolding chars_run_def Let_def assms(3) by blast
  note r = reads_at_Cons [OF assms(9) new'(2)]
  have "take (Suc ?n) (?a[?n := ?h]) = take ?n ?a @ [?h]"
    using assms(2) by (simp add: take_Suc_conv_app_nth)
  then have "char_value_handles_to_read t' = take ?n ?a @ (?h # ?hs) @ drop (?n + length (?h # ?hs)) ?a"
    unfolding run(2) by simp
  then show ?thesis using assms(1,8) run(1,3-5) new'(1) r
    unfolding chars_run_def Let_def by (intro conjI exI [of _ "new @ new'"]) simp_all
qed

context attrib_contract
begin

lemma read_char_any:
  assumes "ok s"
  shows "\<exists>rid lr s2. gatt_read_char ops m h s = Some (rid, lr, s2) \<and> ok s2 \<and>
    (rid \<noteq> 0 \<longrightarrow> (\<exists>l. lr = Some l \<and> rl_id l = rid \<and> rl_handle l = h))"
proof -
  obtain b n s1 where b: "ao_buffer ops s = ((b, n), s1)" "23 \<le> length b" "ok s1" "delivers ops ok mtu b s1"
    using request [OF assms] by blast
  have e: "enc_read_req h (Ptr b) n = Some (3, Ptr (written (att_bytes (ReadReq h)) b))"
    using enc_fixed(1) [of b h n] b(2) by (simp add: encodes_def)
  obtain rid s2 where "ao_send ops s1 0 (Ptr (written (att_bytes (ReadReq h)) b)) 3 READ_CHAR_HELPER = Some (rid, s2)"
    "ok s2" using deliversD [OF b(4), of "ReadReq h" 0 READ_CHAR_HELPER] b(2) by auto
  with b(1) e assms show ?thesis by (simp add: gatt_read_char_def Let_def del: att_bytes.simps)
qed

lemma print_chars_run:
  assumes "\<And>s. g_attrib_copy t = Ptr s \<Longrightarrow> ok s"
    "num_char_value_handles t + length (filter readable cs) \<le> length (char_value_handles_to_read t)"
  shows "\<exists>t'. print_chars ops mem cs t = Some t' \<and> chars_run cs t t' \<and> (\<forall>s. g_attrib_copy t' = Ptr s \<longrightarrow> ok s)"
  using assms
proof (induction cs arbitrary: t)
  case Nil
  then show ?case by (auto simp: chars_run_def reads_at_def)
next
  case (Cons c cs)
  let ?n = "num_char_value_handles t" and ?a = "char_value_handles_to_read t"
  define u where "u = fprintf_log (char_line t c) (g_print (char_line t c) t)"
  show ?case
  proof (cases "readable c")
    case False
    let ?t = "g_print (''Skipping handle '' @ fmt_d (unat (char_value_handle c)) @ '' because it's not readable'' @ [CHR 0x0A]) u"
    have "\<exists>t'. print_chars ops mem cs ?t = Some t' \<and> chars_run cs ?t t' \<and> (\<forall>s. g_attrib_copy t' = Ptr s \<longrightarrow> ok s)"
      using Cons.prems False by (intro Cons.IH) (auto simp: u_def fprintf_log_def g_print_def)
    then obtain t' where t': "print_chars ops mem cs ?t = Some t'" "chars_run cs ?t t'" "\<forall>s. g_attrib_copy t' = Ptr s \<longrightarrow> ok s"
      by blast
    have "print_chars ops mem (c # cs) t = Some t'" using t'(1) False by (simp add: readable_def u_def Let_def g_print_def)
    moreover have "chars_run (c # cs) t t'" using t'(2) False
      by (auto simp: chars_run_def u_def fprintf_log_def g_print_def Let_def)
    ultimately show ?thesis using t'(3) by blast
  next
    case True
    let ?t = "g_print (''Calling gatt_read_char() with handle '' @ fmt_d (unat (char_value_handle c)) @ [CHR 0x0A]) u"
    have n: "?n < length ?a" using Cons.prems(2) True by simp
    obtain w s' where w: "read_value ops mem c ?t = Some w" "num_char_value_handles w = Suc ?n"
      "char_value_handles_to_read w = ?a[?n := char_value_handle c]" "opt_dst w = opt_dst t" "opt_dst_type w = opt_dst_type t"
      "g_log_FILE w = g_log_FILE t @ char_line t c" "\<forall>s. g_attrib_copy w = Ptr s \<longrightarrow> ok s"
      "tl_reads w = tl_reads t @ s'"
      "\<forall>r\<in>set s'. snd (snd r) = ?n \<and> read_of (char_value_handle c) r"
    proof (cases "g_attrib_copy t")
      case NULL
      then have "read_value ops mem c ?t =
          Some (?t\<lparr>char_value_handles_to_read := ?a[?n := char_value_handle c], num_char_value_handles := Suc ?n\<rparr>)"
        using n by (simp add: read_value_def u_def fprintf_log_def g_print_def Let_def)
      then show ?thesis
        by (rule that [of _ "[]"]) (simp_all add: NULL u_def fprintf_log_def g_print_def)
    next
      case (Ptr s)
      with Cons.prems(1) obtain rid lr s2 where r: "gatt_read_char ops (mem ?n) (char_value_handle c) s = Some (rid, lr, s2)"
        "ok s2" "rid \<noteq> 0 \<longrightarrow> (\<exists>l. lr = Some l \<and> rl_id l = rid \<and> rl_handle l = char_value_handle c)"
        using read_char_any by blast
      define new where "new = (if rid = 0 then [] else [(rid, lr, ?n)])"
      have "read_value ops mem c ?t =
          Some (?t\<lparr>char_value_handles_to_read := ?a[?n := char_value_handle c], g_attrib_copy := Ptr s2,
            tl_reads := tl_reads t @ new, num_char_value_handles := Suc ?n\<rparr>)"
        using n Ptr r(1) by (simp add: read_value_def u_def fprintf_log_def g_print_def new_def Let_def)
      then show ?thesis
        by (rule that [of _ new]) (use r(2,3) in \<open>auto simp: new_def read_of_def u_def fprintf_log_def g_print_def\<close>)
    qed
    have "\<exists>t'. print_chars ops mem cs w = Some t' \<and> chars_run cs w t' \<and> (\<forall>s. g_attrib_copy t' = Ptr s \<longrightarrow> ok s)"
      using Cons.prems(2) True w(2,3,7) by (intro Cons.IH) auto
    then obtain t' where t': "print_chars ops mem cs w = Some t'" "chars_run cs w t'" "\<forall>s. g_attrib_copy t' = Ptr s \<longrightarrow> ok s"
      by blast
    have "print_chars ops mem (c # cs) t = Some t'" using t'(1) True w(1) by (simp add: readable_def u_def Let_def g_print_def)
    moreover have "chars_run (c # cs) t t'"
      using chars_run_Cons [OF True n w(2-6,8,9) t'(2)] .
    ultimately show ?thesis using t'(3) by blast
  qed
qed

text \<open>A readable characteristic after the array is full.\<close>

lemma print_chars_full:
  assumes "\<And>s. g_attrib_copy t = Ptr s \<Longrightarrow> ok s"
    "num_char_value_handles t \<le> length (char_value_handles_to_read t)"
    "length (char_value_handles_to_read t) < num_char_value_handles t + length (filter readable cs)"
  shows "print_chars ops mem cs t = None"
  using assms
proof (induction cs arbitrary: t)
  case (Cons c cs)
  show ?case
  proof (cases "readable c \<and> num_char_value_handles t < length (char_value_handles_to_read t)")
    case True
    obtain t1 where t1: "print_chars ops mem [c] t = Some t1" "chars_run [c] t t1" "\<forall>s. g_attrib_copy t1 = Ptr s \<longrightarrow> ok s"
      using print_chars_run [of t "[c]" mem] Cons.prems(1) True by auto
    have "print_chars ops mem (c # cs) t = print_chars ops mem cs t1"
      using t1(1) by (auto simp: Let_def option_bind_Some_iff split: if_splits)
    also have "\<dots> = None"
      using t1(2,3) True Cons.prems(2,3) by (intro Cons.IH) (auto simp: chars_run_def Let_def)
    finally show ?thesis .
  next
    case False
    show ?thesis
    proof (cases "readable c")
      case True
      with False Cons.prems(2) show ?thesis
        by (simp add: readable_def read_value_def Let_def g_print_def fprintf_log_def)
    next
      case False
      define w where "w = g_print (''Skipping handle '' @ fmt_d (unat (char_value_handle c)) @
        '' because it's not readable'' @ [CHR 0x0A]) (fprintf_log (char_line (g_print (char_line t c) t) c) (g_print (char_line t c) t))"
      have "print_chars ops mem (c # cs) t = print_chars ops mem cs w"
        using False by (simp add: readable_def Let_def w_def)
      also have "\<dots> = None"
        using Cons.prems False by (intro Cons.IH) (auto simp: w_def g_print_def fprintf_log_def)
      finally show ?thesis .
    qed
  qed
qed simp

text \<open>Starting the three procedures.\<close>

lemma procedures_start:
  assumes "g_attrib_copy t = Ptr s" "ok s"
  shows "\<exists>t1 t2 t3 dp dc dd. primary ops True t = Some t1 \<and> characteristics ops True t1 = Some t2 \<and>
    characteristics_desc ops True t2 = Some t3 \<and>
    t3 = t\<lparr>g_attrib_copy := g_attrib_copy t3, tl_primary := Some dp, tl_char := Some dc, tl_desc := Some dd\<rparr>"
proof -
  obtain rid dp s1 where p: "gatt_discover_primary ops True NULL s = Some (rid, Some dp, s1)" "ok s1"
    using primary_start [OF assms(2)] by blast
  obtain rid2 dc s2 where c: "gatt_discover_char ops True (word_of_int (opt_start t)) (word_of_int (opt_end t)) (opt_uuid t) s1 =
      Some (rid2, Some dc, s2)" "ok s2"
    using char_start [OF p(2)] by blast
  obtain rid3 dd s3 where d: "gatt_discover_desc ops True (word_of_int (opt_start t)) (word_of_int (opt_end t)) NULL s2 =
      Some (rid3, Some dd, s3)" using desc_start [OF c(2)] by blast
  let ?t3 = "t\<lparr>tl_primary := Some dp, tl_char := Some dc, g_attrib_copy := Ptr s3, tl_desc := Some dd\<rparr>"
  have "primary ops True t = Some (t\<lparr>g_attrib_copy := Ptr s1, tl_primary := Some dp\<rparr>)"
    "characteristics ops True (t\<lparr>g_attrib_copy := Ptr s1, tl_primary := Some dp\<rparr>) =
      Some (t\<lparr>tl_primary := Some dp, g_attrib_copy := Ptr s2, tl_char := Some dc\<rparr>)"
    "characteristics_desc ops True (t\<lparr>tl_primary := Some dp, g_attrib_copy := Ptr s2, tl_char := Some dc\<rparr>) = Some ?t3"
    using p c d assms(1) by (simp_all add: primary_def characteristics_def characteristics_desc_def)
  moreover have "?t3 = t\<lparr>g_attrib_copy := g_attrib_copy ?t3, tl_primary := Some dp, tl_char := Some dc, tl_desc := Some dd\<rparr>"
    by (cases t) simp
  ultimately show ?thesis by blast
qed

end

section \<open>Value lines\<close>

lemma length_value [simp]: "length (map junk [0..<n]) = n" for junk :: "nat \<Rightarrow> u8"
  by simp

lemma sint_of_nat32: "n < 0x80000000 \<Longrightarrow> sint (of_nat n :: size_t) = int n"
  by (simp add: signed_of_nat signed_take_bit_int_eq_self)

lemma char_read_cb_value:
  assumes "length v < 65535" "cell < length (char_value_handles_to_read t)"
  shows "\<exists>t'. char_read_cb junk 0 (0x0B # v) (of_nat (length v + 1)) cell t = Some t' \<and>
    g_log_FILE t' = g_log_FILE t @ csv_line [''GATTPRINT:CHAR_VALUE'', opt_dst_type t, opt_dst t,
      hex4 (char_value_handles_to_read t ! cell), value_hex v]"
proof -
  define plen where "plen = (of_nat (length v + 1) :: u16)"
  have u: "unat plen = length v + 1" unfolding plen_def using assms(1) by (intro unat_of_nat_16) simp
  have s: "(ucast plen :: size_t) = of_nat (length v + 1)" unfolding plen_def using assms(1) by (intro ucast_of_nat_16_32) simp
  have s1: "(ucast plen - 1 :: size_t) = of_nat (length v)" unfolding s by simp
  have i: "sint (of_nat (length v) :: size_t) = int (length v)"
    using assms(1) by (simp add: sint_of_nat32)
  define junkv where "junkv = map junk [0..<length v + 1]"
  have lj: "length junkv = length v + 1" by (simp add: junkv_def)
  have rd: "rd (0x0B # v) 1 (unat (of_nat (length v) :: size_t)) = Some v"
    using assms(1) by (simp add: rd_def)
  have w: "wr junkv 0 v = Some (written v junkv)" using lj by (intro wr_start) simp
  have b: "\<not> (ucast plen < (of_nat (length v) :: size_t))"
    unfolding s word_less_nat_alt using assms(1) unat_of_nat_32 [of "length v + 1"] unat_of_nat_32 [of "length v"] by linarith
  have d: "dec_read_resp (Ptr (0x0B # v)) (ucast plen) (Ptr junkv) (ucast plen) = Some (int (length v), Ptr (written v junkv))"
    using rd w b i unfolding dec_read_resp_def s1 by (simp add: rd8_def)
  have r: "rd (written v junkv) 0 (length v) = Some v" using lj by (simp add: rd_def)
  show ?thesis unfolding plen_def [symmetric]
    using d r assms(2) u by (simp add: char_read_cb_def junkv_def Let_def g_print_def fprintf_log_def)
      (auto simp: plen_def)
qed

lemma print_descs_effect:
  "print_descs ds (d, t) =
     (case ds of [] \<Rightarrow> (d, t)
      | _ \<Rightarrow> (Ptr (last ds), t\<lparr>tl_stdout := tl_stdout t @ concat (map (desc_line t) ds),
                            g_log_FILE := g_log_FILE t @ concat (map (desc_line t) ds)\<rparr>))"
proof (induction ds arbitrary: d t)
  case (Cons x xs)
  have e: "desc_line (t\<lparr>tl_stdout := a, g_log_FILE := b\<rparr>) = desc_line t" "desc_line (t\<lparr>tl_stdout := a\<rparr>) = desc_line t"
    for t :: "'a tool" and a b
    by (simp_all add: desc_line_def fun_eq_iff)
  have "print_descs (x # xs) (d, t) = print_descs xs (Ptr x, t\<lparr>tl_stdout := tl_stdout t @ desc_line t x,
      g_log_FILE := g_log_FILE t @ desc_line t x\<rparr>)"
    by (simp add: g_print_def fprintf_log_def Let_def e)
  then show ?case by (simp add: Cons.IH e split: list.split)
qed simp

section \<open>Properties\<close>

text \<open>An object of the examples: a tool about to enumerate with room for \<open>n\<close> value handles.\<close>

definition example_tool :: "nat \<Rightarrow> (client_fn, unit, nat) gattrib tool" where
  "example_tool n = \<lparr>opt_dst = ''00:11:22:33:44:55'', opt_dst_type = ''public'', opt_uuid = NULL, opt_start = 1,
     opt_end = 0xffff, got_error = False, g_max_handle = 0xffff, char_value_handles_to_read = replicate n 0,
     num_char_value_handles = 0, g_attrib_copy = Ptr example_client, g_log_FILE = '''', tl_stdout = '''',
     tl_stderr = '''', tl_quit = False, tl_primary = None, tl_char = None, tl_desc = None, tl_reads = []\<rparr>"

text \<open>
  C1: End to end, against a conforming server that sees only the bytes the tool sends: the tool's
  service discovery appends exactly one line per service of the server to the log, in order, with
  the device, the handle range and the text of the UUID, and remembers the last handle of the last
  service as the handle that ends the enumeration.
\<close>

theorem services_logged:
  assumes "gattrib_ok A g" "g_attrib_copy t = Ptr (g, [])" "wf_services db" "primary_server db srv" "length db < n" "db \<noteq> []"
  shows "\<exists>t1 dp g' sent prims. primary (recorded (gattrib_ops A junk)) True t = Some t1 \<and>
    tl_primary t1 = Some dp \<and> g_attrib_copy t1 = Ptr (g', sent) \<and>
    primary_rounds (recorded (gattrib_ops A junk)) (\<lambda>_. True) srv 0 n (dp, g', sent) = Some (Some (0, prims)) \<and>
    g_log_FILE (tool_primary_all_cb 0 (map prim_of prims) t1) =
      g_log_FILE t @ concat (map (\<lambda>(st, e, u). csv_line [''GATTPRINT:SERVICE'', opt_dst_type t, opt_dst t,
        hex4 st, hex4 e, uuid_text (uuid_canon u)]) db) \<and>
    g_max_handle (tool_primary_all_cb 0 (map prim_of prims) t1) = fst (snd (last db))"
proof -
  obtain rid dp g' where d: "gatt_discover_primary (recorded (gattrib_ops A junk)) True NULL (g, []) =
      Some (rid, Some dp, (g', [primary_req 1]))"
    "gattrib_ok A g'" "dp_start dp = 1" "dp_primaries dp = []" using client.primary_start_sent [OF assms(1)] by blast
  have "services_from db 1 = db"
    using assms(3) by (auto simp: from_handle_def wf_services_def filter_id_conv)
  with d(3,4) assms(5) have "primary_rounds (recorded (gattrib_ops A junk)) (\<lambda>_. True) srv 0 n
      (dp, g', [primary_req (dp_start dp)]) = Some (Some (0, map service_item db))"
    by (intro client.primary_rounds_complete [OF assms(3,4) d(2), where pre = "[]"]) auto
  then have r: "primary_rounds (recorded (gattrib_ops A junk)) (\<lambda>_. True) srv 0 n (dp, g', [primary_req 1]) =
      Some (Some (0, map service_item db))" by (simp only: d(3))
  let ?t1 = "t\<lparr>g_attrib_copy := Ptr (g', [primary_req 1]), tl_primary := Some dp\<rparr>"
  have p: "primary (recorded (gattrib_ops A junk)) True t = Some ?t1"
    using d(1) assms(2) by (simp add: primary_def)
  have "prim_of (service_item sv) = \<lparr>prim_uuid = uuid_text (uuid_canon (snd (snd sv))), prim_changed = False,
      prim_range = \<lparr>rstart = fst sv, rend = fst (snd sv)\<rparr>\<rparr>" for sv
    by (cases sv) simp
  then have "service_line ?t1 (prim_of (service_item sv)) = (case sv of (st, e, u) \<Rightarrow>
      csv_line [''GATTPRINT:SERVICE'', opt_dst_type t, opt_dst t, hex4 st, hex4 e, uuid_text (uuid_canon u)])"
    "rend (prim_range (prim_of (service_item sv))) = fst (snd sv)" for sv
    by (cases sv, simp_all add: service_line_def)
  with p r assms(6) show ?thesis
    by (intro exI [of _ ?t1] exI [of _ dp] exI [of _ g'] exI [of _ "[primary_req 1]"] exI [of _ "map service_item db"])
      (simp add: tool_primary_all_cb_def print_services_effect comp_def last_map del: csv_line.simps primary_rounds.simps att_bytes.simps)
qed

text \<open>The tool of the examples over an object that records its requests.\<close>

definition example_recorded_tool :: "((client_fn, unit, nat) gattrib \<times> buf list) tool" where
  "example_recorded_tool = \<lparr>opt_dst = ''00:11:22:33:44:55'', opt_dst_type = ''public'', opt_uuid = NULL, opt_start = 1,
     opt_end = 0xffff, got_error = False, g_max_handle = 0xffff, char_value_handles_to_read = replicate 512 0,
     num_char_value_handles = 0, g_attrib_copy = Ptr (example_client, []), g_log_FILE = '''', tl_stdout = '''',
     tl_stderr = '''', tl_quit = False, tl_primary = None, tl_char = None, tl_desc = None, tl_reads = []\<rparr>"

theorem services_logged_witness:
  "\<exists>t1 dp g' sent prims. primary (recorded (gattrib_ops counting_att (\<lambda>_. 0))) True example_recorded_tool = Some t1 \<and>
    tl_primary t1 = Some dp \<and> g_attrib_copy t1 = Ptr (g', sent) \<and>
    primary_rounds (recorded (gattrib_ops counting_att (\<lambda>_. 0))) (\<lambda>_. True) example_server 0 3 (dp, g', sent) =
      Some (Some (0, prims)) \<and>
    g_max_handle (tool_primary_all_cb 0 (map prim_of prims) t1) = 0xFFFF"
proof -
  have t: "g_attrib_copy example_recorded_tool = Ptr (example_client, [])" by (simp add: example_recorded_tool_def)
  have l: "fst (snd (last example_services)) = 0xFFFF" "length example_services < 3" "example_services \<noteq> []"
    by (simp_all add: example_services_def)
  show ?thesis
    using services_logged [OF example_client_ok t conjunct1 [OF example_server_ok] conjunct2 [OF example_server_ok] l(2,3),
      where junk = "\<lambda>_. 0"]
    unfolding l(1) by blast
qed

text \<open>
  C2: While the array has room, the characteristics callback logs every characteristic in order,
  stores exactly the value handles of the readable ones in the next cells, and starts reads of these
  handles only; each read carries the cell of its own handle, so that a value of any length that
  arrives for it is logged, in hexadecimal, under the handle it was read from.
\<close>

theorem values_logged_under_their_handle:
  assumes "gattrib_ok A g" "g_attrib_copy t = Ptr g"
    "num_char_value_handles t + length (filter readable cs) \<le> length (char_value_handles_to_read t)"
  shows "\<exists>t' new. tool_char_discovered_cb (gattrib_ops A junk) mem 0 cs t = Some t' \<and>
    g_log_FILE t' = g_log_FILE t @ concat (map (char_line t) cs) \<and>
    take (num_char_value_handles t') (char_value_handles_to_read t') =
      take (num_char_value_handles t) (char_value_handles_to_read t) @ map char_value_handle (filter readable cs) \<and>
    tl_reads t' = tl_reads t @ new \<and>
    (\<forall>(rid, lr, cell)\<in>set new. \<exists>c\<in>set (filter readable cs). \<exists>l. lr = Some l \<and> rl_id l = rid \<and>
      rl_handle l = char_value_handle c \<and>
      (\<forall>v j. length v < 65535 \<longrightarrow> (\<exists>t''. char_read_cb j 0 (0x0B # v) (of_nat (length v + 1)) cell t' = Some t'' \<and>
        g_log_FILE t'' = g_log_FILE t' @ csv_line [''GATTPRINT:CHAR_VALUE'', opt_dst_type t, opt_dst t,
          hex4 (char_value_handle c), value_hex v])))"
proof -
  obtain t' where t': "print_chars (gattrib_ops A junk) mem cs t = Some t'" "chars_run cs t t'"
    using client.print_chars_run [of t A cs junk mem] assms by auto
  let ?n = "num_char_value_handles t" and ?hs = "map char_value_handle (filter readable cs)"
  note run = t'(2) [unfolded chars_run_def Let_def]
  obtain new where new: "tl_reads t' = tl_reads t @ new" "reads_at ?n ?hs new" using run by blast
  have len: "length (take ?n (char_value_handles_to_read t)) = ?n" using assms(3) by simp
  have reads: "\<exists>c\<in>set (filter readable cs). \<exists>l. lr = Some l \<and> rl_id l = rid \<and> rl_handle l = char_value_handle c \<and>
      (\<forall>v j. length v < 65535 \<longrightarrow> (\<exists>t''. char_read_cb j 0 (0x0B # v) (of_nat (length v + 1)) cell t' = Some t'' \<and>
        g_log_FILE t'' = g_log_FILE t' @ csv_line [''GATTPRINT:CHAR_VALUE'', opt_dst_type t, opt_dst t,
          hex4 (char_value_handle c), value_hex v]))"
    if r: "(rid, lr, cell) \<in> set new" for rid lr cell
  proof -
    have c: "?n \<le> cell" "cell < ?n + length ?hs" "read_of (?hs ! (cell - ?n)) (rid, lr, cell)"
      using new(2) r by (auto simp: reads_at_def)
    let ?c = "filter readable cs ! (cell - ?n)"
    have i: "cell - ?n < length (filter readable cs)" using c(1,2) by auto
    then have "?c \<in> set (filter readable cs)" "?hs ! (cell - ?n) = char_value_handle ?c" by (metis nth_mem) (simp add: i)
    moreover have "char_value_handles_to_read t' ! cell = char_value_handle ?c"
      "cell < length (char_value_handles_to_read t')"
      using run c(1,2) i len assms(3) by (simp_all add: nth_append)
    moreover have "opt_dst t' = opt_dst t" "opt_dst_type t' = opt_dst_type t" using run by simp_all
    ultimately show ?thesis using c(3) char_read_cb_value [of _ cell t']
      by (intro bexI [of _ ?c]) (auto simp: read_of_def)
  qed
  have "take (num_char_value_handles t') (char_value_handles_to_read t') = take ?n (char_value_handles_to_read t) @ ?hs"
    using run assms(3) by simp
  with t'(1) new(1) run reads show ?thesis
    by (intro exI [of _ t'] exI [of _ new]) (auto simp: tool_char_discovered_cb_def)
qed

theorem values_logged_under_their_handle_witness:
  "\<exists>t' new. tool_char_discovered_cb (gattrib_ops counting_att (\<lambda>_. 0)) (\<lambda>_. True) 0
      [\<lparr>char_uuid = ''2a00'', char_handle = 2, char_properties = 0x0A, char_value_handle = 3\<rparr>,
       \<lparr>char_uuid = ''2a01'', char_handle = 4, char_properties = 0x08, char_value_handle = 5\<rparr>] (example_tool 512) = Some t' \<and>
    take (num_char_value_handles t') (char_value_handles_to_read t') = [3] \<and> tl_reads t' = new"
  using values_logged_under_their_handle [OF example_client_ok, of "example_tool 512"
      "[\<lparr>char_uuid = ''2a00'', char_handle = 2, char_properties = 0x0A, char_value_handle = 3\<rparr>,
        \<lparr>char_uuid = ''2a01'', char_handle = 4, char_properties = 0x08, char_value_handle = 5\<rparr>]" "\<lambda>_. 0" "\<lambda>_. True"]
  by (auto simp: example_tool_def readable_def)

text \<open>
  C38: A device can make the characteristics callback write outside its array of handles: as soon as
  it has reported more readable characteristics than the array has cells left, the store is out of
  bounds, for there is no test of the count.
\<close>

theorem value_handles_overflow:
  assumes "gattrib_ok A g" "g_attrib_copy t = Ptr g"
    "num_char_value_handles t \<le> length (char_value_handles_to_read t)"
    "length (char_value_handles_to_read t) < num_char_value_handles t + length (filter readable cs)"
  shows "tool_char_discovered_cb (gattrib_ops A junk) mem 0 cs t = None"
  using client.print_chars_full [of t A cs junk mem] assms by (simp add: tool_char_discovered_cb_def)

theorem value_handles_overflow_witness:
  "tool_char_discovered_cb (gattrib_ops counting_att (\<lambda>_. 0)) (\<lambda>_. True) 0
    (replicate 513 \<lparr>char_uuid = ''2a00'', char_handle = 2, char_properties = 0x02, char_value_handle = 3\<rparr>)
    (example_tool 512) = None"
  using value_handles_overflow [OF example_client_ok, of "example_tool 512"
      "replicate 513 \<lparr>char_uuid = ''2a00'', char_handle = 2, char_properties = 0x02, char_value_handle = 3\<rparr>"]
  by (simp add: example_tool_def readable_def)

text \<open>
  With at least one descriptor the descriptors callback logs every one, in order, and ends the
  main loop exactly when the discovery failed or the last handle is the one the services ended at.
\<close>

theorem descriptors_callback_effect:
  assumes "ds \<noteq> []"
  shows "\<exists>t'. char_desc_cb status ds t = Some t' \<and>
      g_log_FILE t' = g_log_FILE t @ concat (map (desc_line t) ds) \<and>
      tl_quit t' = (tl_quit t \<or> status \<noteq> 0 \<or> desc_handle (last ds) = g_max_handle t)"
proof -
  have "desc_line (t\<lparr>tl_stderr := a, tl_quit := b\<rparr>) = desc_line t" for a b
    by (simp add: desc_line_def fun_eq_iff)
  then show ?thesis using assms
    by (cases ds) (auto simp: char_desc_cb_def print_descs_effect g_main_loop_quit_def g_printerr_def Let_def
      simp del: print_descs.simps)
qed

theorem descriptors_callback_effect_witness:
  "\<exists>t'. char_desc_cb 0 [\<lparr>desc_uuid = ''2902'', desc_handle = 0xffff, desc_uuid16 = 0x2902\<rparr>] (example_tool 512) = Some t' \<and>
     tl_quit t'"
  using descriptors_callback_effect [of "[\<lparr>desc_uuid = ''2902'', desc_handle = 0xffff, desc_uuid16 = 0x2902\<rparr>]" 0
    "example_tool 512"] by (auto simp: example_tool_def)

text \<open>
  A device without attributes makes the descriptors callback read an uninitialised pointer: an
  error that answers the first request is passed on with an empty list, for which the callback has
  no defined result.
\<close>

theorem descriptors_callback_uninitialised:
  assumes "status \<noteq> 0" "dd_descriptors dd = []"
  shows "\<exists>st. desc_discovered_cb ops mem status pk n (dd, s) = Some (st, Some (status, [])) \<and>
    char_desc_cb status [] t = None"
  using assms by (auto simp: desc_discovered_cb_def char_desc_cb_def Let_def)

theorem descriptors_callback_uninitialised_witness:
  "\<exists>st. desc_discovered_cb (gattrib_ops counting_att (\<lambda>_. 0)) (\<lambda>_. True) 0x0A [1, 4, 1, 0, 0x0A] 5
      (\<lparr>dd_ref = 1, dd_id = 1, dd_uuid = NULL, dd_start = 1, dd_end = 0xffff, dd_descriptors = []\<rparr>, example_client) =
      Some (st, Some (0x0A, [])) \<and> char_desc_cb 0x0A [] (example_tool 512) = None"
  by (rule descriptors_callback_uninitialised) simp_all

text \<open>
  A failed connection does not stop the tool: the callback records the error and tells the main
  loop to quit, then goes on to create the client object and start all three procedures on it.
\<close>

theorem failed_connection_continues:
  assumes "new (if snd (case io_get of Inr x \<Rightarrow> x | Inl _ \<Rightarrow> (23, cid0)) = 4 then 23
      else fst (case io_get of Inr x \<Rightarrow> x | Inl _ \<Rightarrow> (23, cid0))) = Ptr g" "gattrib_ok A g"
  shows "\<exists>t' dp dc dd. connect_cb (gattrib_ops A junk) new True (Ptr msg) io_get cid0 t = Some t' \<and>
    got_error t' \<and> tl_quit t' \<and> tl_primary t' = Some dp \<and> tl_char t' = Some dc \<and> tl_desc t' = Some dd"
proof -
  let ?x = "case io_get of Inr x \<Rightarrow> x | Inl _ \<Rightarrow> (23, cid0)"
  define t0 where "t0 = g_main_loop_quit ((g_printerr (''GATTPRINT:CONNECT: '' @ msg @ [CHR 0x0A]) t)\<lparr>got_error := True\<rparr>)"
  define t1 where "t1 = (case io_get of Inr _ \<Rightarrow> t0 | Inl m \<Rightarrow> g_printerr (''Can't detect MTU, using default: '' @ m) t0)"
  have q: "got_error t1" "tl_quit t1"
    by (simp_all add: t1_def t0_def g_main_loop_quit_def g_printerr_def split: sum.split)
  obtain a b c dp dc dd where p: "primary (gattrib_ops A junk) True (t1\<lparr>g_attrib_copy := Ptr g\<rparr>) = Some a"
    "characteristics (gattrib_ops A junk) True a = Some b" "characteristics_desc (gattrib_ops A junk) True b = Some c"
    "c = t1\<lparr>g_attrib_copy := Ptr g, g_attrib_copy := g_attrib_copy c, tl_primary := Some dp, tl_char := Some dc, tl_desc := Some dd\<rparr>"
    using client.procedures_start [of "t1\<lparr>g_attrib_copy := Ptr g\<rparr>" g A junk] assms(2) by auto
  have "connect_cb (gattrib_ops A junk) new True (Ptr msg) io_get cid0 t = Some c"
    using assms(1) p(1-3) by (cases io_get) (auto simp: connect_cb_def t1_def t0_def Let_def split: if_splits)
  moreover have "got_error c" "tl_quit c" "tl_primary c = Some dp" "tl_char c = Some dc" "tl_desc c = Some dd"
    by (subst p(4), simp add: q)+
  ultimately show ?thesis by blast
qed

theorem failed_connection_continues_witness:
  "\<exists>t' dp dc dd. connect_cb (gattrib_ops counting_att (\<lambda>_. 0)) (\<lambda>_. Ptr example_client) True (Ptr ''Connection refused'')
      (Inl ''getsockopt'') 0 (example_tool 512) = Some t' \<and>
    got_error t' \<and> tl_quit t' \<and> tl_primary t' = Some dp \<and> tl_char t' = Some dc \<and> tl_desc t' = Some dd"
  by (rule failed_connection_continues [OF _ example_client_ok]) simp

end
