(* ===== verification/Transport.thy ===== *)
theory Transport
  imports Crypto Queue
begin

text \<open>
  \<open>src/shared/att.c\<close>, first part: the transport object, the operations it queues and how they are
  encoded, picked and written.

  Channels, operations and handlers are allocated objects: \<open>at_chan\<close>, \<open>at_op\<close>, \<open>at_notify\<close>,
  \<open>at_disconn\<close> and \<open>at_exchange\<close> map the address of each live one to its contents, and using a freed
  one is undefined (\<open>None\<close>).  A \<open>struct queue\<close> of such objects is the list of their addresses, which
  every operation of \<open>src/shared/queue.c\<close> refines (theory QueueLaws).  \<open>at_sent\<close> is what was written to
  each socket, \<open>at_timers\<close> the timers that run (their id, channel and operation id).

  \<open>att_env\<close> is what surrounds the transport: the functions of its client, which act on the whole
  state and so may call the transport again, and the sockets.  A client function is named by an
  \<open>'f\<close>, its \<open>user_data\<close> is an \<open>'u ptr\<close> and the client's own state is \<open>at_client\<close>.
\<close>

section \<open>Data\<close>

abbreviation (input) ATT_OP_CMD_MASK :: u8 where "ATT_OP_CMD_MASK \<equiv> 0x40"
abbreviation (input) ATT_OP_SIGNED_MASK :: u8 where "ATT_OP_SIGNED_MASK \<equiv> 0x80"
abbreviation (input) BT_ATT_SIGNATURE_LEN :: u16 where "BT_ATT_SIGNATURE_LEN \<equiv> 12"
abbreviation (input) BT_ATT_DEFAULT_LE_MTU :: u16 where "BT_ATT_DEFAULT_LE_MTU \<equiv> 23"
abbreviation (input) BT_ATT_BREDR :: u8 where "BT_ATT_BREDR \<equiv> 0x00"
abbreviation (input) BT_ATT_LE :: u8 where "BT_ATT_LE \<equiv> 0x01"
abbreviation (input) BT_ATT_EATT :: u8 where "BT_ATT_EATT \<equiv> 0x02"
abbreviation (input) BT_ATT_LOCAL :: u8 where "BT_ATT_LOCAL \<equiv> 0xff"
abbreviation (input) BT_ATT_OP_ERROR_RSP :: u8 where "BT_ATT_OP_ERROR_RSP \<equiv> 0x01"
abbreviation (input) BT_ATT_OP_MTU_REQ :: u8 where "BT_ATT_OP_MTU_REQ \<equiv> 0x02"
abbreviation (input) BT_ATT_OP_HANDLE_CONF :: u8 where "BT_ATT_OP_HANDLE_CONF \<equiv> 0x1E"

datatype att_op_type =
    ATT_OP_TYPE_REQ
  | ATT_OP_TYPE_RSP
  | ATT_OP_TYPE_CMD
  | ATT_OP_TYPE_IND
  | ATT_OP_TYPE_NFY
  | ATT_OP_TYPE_CONF
  | ATT_OP_TYPE_UNKNOWN

record ('f, 'u) att_send_op =
  op_id :: u32
  op_timeout_id :: nat
  op_type :: att_op_type
  op_opcode :: u8
  op_pdu :: buf
  op_len :: u16
  op_callback :: "'f ptr"
  op_destroy :: "'f ptr"
  op_user_data :: "'u ptr"

record bt_att_chan =
  ch_fd :: int
  ch_type :: u8
  ch_sec_level :: int
  ch_queue :: "nat list"
  ch_pending_req :: "nat ptr"
  ch_pending_ind :: "nat ptr"
  ch_writer_active :: bool
  ch_in_req :: bool
  ch_buf :: buf
  ch_mtu :: u16
  ch_shutdown :: bool

record ('f, 'u) att_notify =
  nt_id :: u32
  nt_opcode :: u16
  nt_callback :: "'f ptr"
  nt_destroy :: "'f ptr"
  nt_user_data :: "'u ptr"

record ('f, 'u) att_disconn =
  dn_id :: u32
  dn_removed :: bool
  dn_callback :: "'f ptr"
  dn_destroy :: "'f ptr"
  dn_user_data :: "'u ptr"

text \<open>\<open>struct att_exchange\<close> has the same members.\<close>

type_synonym ('f, 'u) att_exchange = "('f, 'u) att_disconn"

record ('f, 'u) sign_info =
  sg_key :: buf
  sg_counter :: "'f ptr"
  sg_user_data :: "'u ptr"

record ('f, 'u, 'w) bt_att =
  at_ref_count :: int
  at_close_on_unref :: bool
  at_chans :: "nat list"
  at_enc_size :: u8
  at_mtu :: u16
  at_notify_list :: "nat list"
  at_disconn_list :: "nat list"
  at_exchange_list :: "nat list"
  at_next_send_id :: u32
  at_next_reg_id :: u32
  at_req_queue :: "nat list"
  at_ind_queue :: "nat list"
  at_write_queue :: "nat list"
  at_in_disc :: bool
  at_timeout_callback :: "'f ptr"
  at_timeout_destroy :: "'f ptr"
  at_timeout_data :: "'u ptr"
  at_crypto :: "kalg ptr"
  at_local_sign :: "('f, 'u) sign_info ptr"
  at_remote_sign :: "('f, 'u) sign_info ptr"
  at_chan :: "nat \<rightharpoonup> bt_att_chan"
  at_op :: "nat \<rightharpoonup> ('f, 'u) att_send_op"
  at_notify :: "nat \<rightharpoonup> ('f, 'u) att_notify"
  at_disconn :: "nat \<rightharpoonup> ('f, 'u) att_disconn"
  at_exchange :: "nat \<rightharpoonup> ('f, 'u) att_exchange"
  at_brk :: nat
  at_timers :: "(nat \<times> nat \<times> u32) list"
  at_timer_brk :: nat
  at_freed :: bool
  at_sent :: "(int \<times> buf) list"
  at_client :: 'w

record ('f, 'u, 'w) att_env =
  ev_response :: "'f \<Rightarrow> u8 \<Rightarrow> buf ptr \<Rightarrow> u16 \<Rightarrow> 'u ptr \<Rightarrow> ('f, 'u, 'w) bt_att \<Rightarrow> ('f, 'u, 'w) bt_att option"
  ev_destroy :: "'f \<Rightarrow> 'u ptr \<Rightarrow> ('f, 'u, 'w) bt_att \<Rightarrow> ('f, 'u, 'w) bt_att option"
  ev_notify :: "'f \<Rightarrow> nat \<Rightarrow> u8 \<Rightarrow> buf \<Rightarrow> u16 \<Rightarrow> 'u ptr \<Rightarrow> ('f, 'u, 'w) bt_att \<Rightarrow> ('f, 'u, 'w) bt_att option"
  ev_disconn :: "'f \<Rightarrow> int \<Rightarrow> 'u ptr \<Rightarrow> ('f, 'u, 'w) bt_att \<Rightarrow> ('f, 'u, 'w) bt_att option"
  ev_exchange :: "'f \<Rightarrow> u16 \<Rightarrow> 'u ptr \<Rightarrow> ('f, 'u, 'w) bt_att \<Rightarrow> ('f, 'u, 'w) bt_att option"
  ev_timeout :: "'f \<Rightarrow> u32 \<Rightarrow> u8 \<Rightarrow> 'u ptr \<Rightarrow> ('f, 'u, 'w) bt_att \<Rightarrow> ('f, 'u, 'w) bt_att option"
  ev_counter :: "'f \<Rightarrow> u32 \<Rightarrow> 'u ptr \<Rightarrow> 'w \<Rightarrow> (bool \<times> u32) \<times> 'w"
  ev_send :: "int \<Rightarrow> buf \<Rightarrow> int"
  ev_watch :: "int \<Rightarrow> bool"
  ev_so_error :: "int \<Rightarrow> int option"
  ev_get_security :: "int \<Rightarrow> int option"
  ev_set_security :: "int \<Rightarrow> int \<Rightarrow> bool"
  ev_io :: "int \<Rightarrow> bool"
  ev_l2cap :: "int \<Rightarrow> bool"
  ev_src_type :: "int \<Rightarrow> int + u8"
  ev_omtu :: "int \<Rightarrow> u16 option"
  ev_sndmtu :: "int \<Rightarrow> u16 option"
  ev_mem :: bool
  ev_junk :: "nat \<Rightarrow> u8"

text \<open>Updating a live object through its address.\<close>

definition chan_update :: "nat \<Rightarrow> (bt_att_chan \<Rightarrow> bt_att_chan) \<Rightarrow> ('f, 'u, 'w) bt_att \<Rightarrow> ('f, 'u, 'w) bt_att option" where
  "chan_update c f a = do { ch \<leftarrow> at_chan a c; Some (a\<lparr>at_chan := (at_chan a)(c \<mapsto> f ch)\<rparr>) }"

definition op_update ::
    "nat \<Rightarrow> (('f, 'u) att_send_op \<Rightarrow> ('f, 'u) att_send_op) \<Rightarrow> ('f, 'u, 'w) bt_att \<Rightarrow> ('f, 'u, 'w) bt_att option" where
  "op_update p f a = do { op \<leftarrow> at_op a p; Some (a\<lparr>at_op := (at_op a)(p \<mapsto> f op)\<rparr>) }"

text \<open>A use of the transport object, which must not be freed.\<close>

definition att_live :: "('f, 'u, 'w) bt_att \<Rightarrow> unit option" where
  "att_live a = (if at_freed a then None else Some ())"

text \<open>Calling a destroy function that may be null.\<close>

definition call_destroy ::
    "('f, 'u, 'w) att_env \<Rightarrow> 'f ptr \<Rightarrow> 'u ptr \<Rightarrow> ('f, 'u, 'w) bt_att \<Rightarrow> ('f, 'u, 'w) bt_att option" where
  "call_destroy E destroy user_data a = (case destroy of NULL \<Rightarrow> Some a | Ptr f \<Rightarrow> ev_destroy E f user_data a)"

text \<open>Running \<open>f\<close> on each of the objects taken out of a queue.\<close>

primrec each :: "(nat \<Rightarrow> 's \<Rightarrow> 's option) \<Rightarrow> nat list \<Rightarrow> 's \<Rightarrow> 's option" where
  "each f [] s = Some s"
| "each f (x # xs) s = do { s \<leftarrow> f x s; each f xs s }"

section \<open>Opcodes\<close>

definition att_opcode_type_table :: "(u8 \<times> att_op_type) list" where
  "att_opcode_type_table =
     [(0x01, ATT_OP_TYPE_RSP), (0x02, ATT_OP_TYPE_REQ), (0x03, ATT_OP_TYPE_RSP),
      (0x04, ATT_OP_TYPE_REQ), (0x05, ATT_OP_TYPE_RSP), (0x06, ATT_OP_TYPE_REQ),
      (0x07, ATT_OP_TYPE_RSP), (0x08, ATT_OP_TYPE_REQ), (0x09, ATT_OP_TYPE_RSP),
      (0x0A, ATT_OP_TYPE_REQ), (0x0B, ATT_OP_TYPE_RSP), (0x0C, ATT_OP_TYPE_REQ),
      (0x0D, ATT_OP_TYPE_RSP), (0x0E, ATT_OP_TYPE_REQ), (0x0F, ATT_OP_TYPE_RSP),
      (0x10, ATT_OP_TYPE_REQ), (0x11, ATT_OP_TYPE_RSP), (0x12, ATT_OP_TYPE_REQ),
      (0x13, ATT_OP_TYPE_RSP), (0x52, ATT_OP_TYPE_CMD), (0xD2, ATT_OP_TYPE_CMD),
      (0x16, ATT_OP_TYPE_REQ), (0x17, ATT_OP_TYPE_RSP), (0x18, ATT_OP_TYPE_REQ),
      (0x19, ATT_OP_TYPE_RSP), (0x1B, ATT_OP_TYPE_NFY), (0x23, ATT_OP_TYPE_NFY),
      (0x1D, ATT_OP_TYPE_IND), (0x1E, ATT_OP_TYPE_CONF)]"

definition get_op_type :: "u8 \<Rightarrow> att_op_type" where
  "get_op_type opcode =
     (case map_of att_opcode_type_table opcode of
        Some t \<Rightarrow> t
      | None \<Rightarrow> if opcode AND ATT_OP_CMD_MASK \<noteq> 0 then ATT_OP_TYPE_CMD else ATT_OP_TYPE_UNKNOWN)"

definition att_rsp_req_mapping_table :: "(u8 \<times> u8) list" where
  "att_rsp_req_mapping_table =
     [(0x03, 0x02), (0x05, 0x04), (0x07, 0x06), (0x09, 0x08), (0x0B, 0x0A), (0x0D, 0x0C),
      (0x0F, 0x0E), (0x11, 0x10), (0x13, 0x12), (0x17, 0x16), (0x19, 0x18)]"

definition get_req_opcode :: "u8 \<Rightarrow> u8" where
  "get_req_opcode rsp_opcode =
     (case map_of att_rsp_req_mapping_table rsp_opcode of Some r \<Rightarrow> r | None \<Rightarrow> 0)"

section \<open>The life of an operation\<close>

definition timeout_remove :: "nat \<Rightarrow> ('f, 'u, 'w) bt_att \<Rightarrow> ('f, 'u, 'w) bt_att" where
  "timeout_remove i a = a\<lparr>at_timers := filter (\<lambda>(j, _). j \<noteq> i) (at_timers a)\<rparr>"

definition destroy_att_send_op ::
    "('f, 'u, 'w) att_env \<Rightarrow> nat \<Rightarrow> ('f, 'u, 'w) bt_att \<Rightarrow> ('f, 'u, 'w) bt_att option" where
  "destroy_att_send_op E p a = do {
     op \<leftarrow> at_op a p;
     let a = (if op_timeout_id op \<noteq> 0 then timeout_remove (op_timeout_id op) a else a);
     a \<leftarrow> call_destroy E (op_destroy op) (op_user_data op) a;
     _ \<leftarrow> at_op a p;
     Some (a\<lparr>at_op := (at_op a)(p := None)\<rparr>) }"

definition cancel_att_send_op ::
    "('f, 'u, 'w) att_env \<Rightarrow> nat \<Rightarrow> ('f, 'u, 'w) bt_att \<Rightarrow> ('f, 'u, 'w) bt_att option" where
  "cancel_att_send_op E p a = do {
     op \<leftarrow> at_op a p;
     a \<leftarrow> call_destroy E (op_destroy op) (op_user_data op) a;
     op_update p (\<lambda>op. op\<lparr>op_user_data := NULL, op_callback := NULL, op_destroy := NULL\<rparr>) a }"

text \<open>
  The result, and the operation with its PDU.  The memory of the PDU is uninitialised
  (\<open>ev_junk\<close>) until it is written.
\<close>

definition encode_pdu ::
    "('f, 'u, 'w) att_env \<Rightarrow> ('f, 'u) att_send_op \<Rightarrow> buf ptr \<Rightarrow> u16 \<Rightarrow> ('f, 'u, 'w) bt_att \<Rightarrow>
       (bool \<times> ('f, 'u) att_send_op \<times> ('f, 'u, 'w) bt_att) option" where
  "encode_pdu E op pdu len a = do {
     let signed = at_local_sign a \<noteq> NULL \<and> op_opcode op AND ATT_OP_SIGNED_MASK \<noteq> 0;
     let pdu_len = (if signed then 1 + BT_ATT_SIGNATURE_LEN else 1);
     let pdu_len = (if len \<noteq> 0 \<and> pdu \<noteq> NULL then pdu_len + len else pdu_len);
     if at_mtu a < pdu_len then Some (False, op, a)
     else if \<not> ev_mem E then Some (False, op\<lparr>op_len := pdu_len\<rparr>, a)
     else do {
       b \<leftarrow> wr8 (map (ev_junk E) [0..<unat pdu_len]) 0 (op_opcode op);
       b \<leftarrow> (if 1 < pdu_len \<and> len \<noteq> 0 then do {
               p \<leftarrow> deref pdu;
               s \<leftarrow> rd p 0 (unat len);
               wr b 1 s }
             else Some b);
       let op = op\<lparr>op_len := pdu_len, op_pdu := b\<rparr>;
       if \<not> signed \<or> at_crypto a = NULL then Some (True, op, a)
       else do {
         sign \<leftarrow> deref (at_local_sign a);
         f \<leftarrow> deref (sg_counter sign);
         let ((ok, cnt), w) = ev_counter E f 0 (sg_user_data sign) (at_client a);
         let a = a\<lparr>at_client := w\<rparr>;
         if \<not> ok then Some (False, op, a)
         else do {
           sg \<leftarrow> bt_crypto_sign_att (at_crypto a) (sg_key sign) b (1 + len) cnt;
           (case sg of
              None \<Rightarrow> Some (False, op, a)
            | Some s \<Rightarrow> do {
                b \<leftarrow> wr b (unat (1 + len)) s;
                Some (True, op\<lparr>op_pdu := b\<rparr>, a) }) } } } }"

text \<open>\<open>NULL\<close> when the arguments are refused or encoding fails.\<close>

definition create_att_send_op ::
    "('f, 'u, 'w) att_env \<Rightarrow> u8 \<Rightarrow> buf ptr \<Rightarrow> u16 \<Rightarrow> 'f ptr \<Rightarrow> 'u ptr \<Rightarrow> 'f ptr \<Rightarrow> ('f, 'u, 'w) bt_att \<Rightarrow>
       (nat ptr \<times> ('f, 'u, 'w) bt_att) option" where
  "create_att_send_op E opcode pdu len callback user_data destroy a =
     (let type = get_op_type opcode; answered = (type = ATT_OP_TYPE_REQ \<or> type = ATT_OP_TYPE_IND) in
      if len \<noteq> 0 \<and> pdu = NULL then Some (NULL, a)
      else if type = ATT_OP_TYPE_UNKNOWN then Some (NULL, a)
      else if callback \<noteq> NULL \<and> \<not> answered then Some (NULL, a)
      else if callback = NULL \<and> answered then Some (NULL, a)
      else do {
        (ok, op, a) \<leftarrow> encode_pdu E
          \<lparr>op_id = 0, op_timeout_id = 0, op_type = type, op_opcode = opcode, op_pdu = [], op_len = 0,
           op_callback = callback, op_destroy = destroy, op_user_data = user_data\<rparr> pdu len a;
        if \<not> ok then Some (NULL, a)
        else Some (Ptr (at_brk a), a\<lparr>at_op := (at_op a)(at_brk a \<mapsto> op), at_brk := Suc (at_brk a)\<rparr>) })"

section \<open>Picking and writing\<close>

text \<open>The head of a shared queue when its PDU fits the channel.\<close>

definition fits :: "('f, 'u, 'w) bt_att \<Rightarrow> bt_att_chan \<Rightarrow> nat list \<Rightarrow> bool option" where
  "fits a ch q =
     (case q of [] \<Rightarrow> Some False | p # _ \<Rightarrow> do { op \<leftarrow> at_op a p; Some (op_len op \<le> ch_mtu ch) })"

definition pick_indication ::
    "bt_att_chan \<Rightarrow> ('f, 'u, 'w) bt_att \<Rightarrow> (nat ptr \<times> ('f, 'u, 'w) bt_att) option" where
  "pick_indication ch a =
     (if ch_pending_ind ch \<noteq> NULL then Some (NULL, a)
      else do {
        ok \<leftarrow> fits a ch (at_ind_queue a);
        if ok then Some (Ptr (hd (at_ind_queue a)), a\<lparr>at_ind_queue := tl (at_ind_queue a)\<rparr>)
        else Some (NULL, a) })"

definition pick_next_send_op ::
    "nat \<Rightarrow> ('f, 'u, 'w) bt_att \<Rightarrow> (nat ptr \<times> ('f, 'u, 'w) bt_att) option" where
  "pick_next_send_op c a = do {
     ch \<leftarrow> at_chan a c;
     (case ch_queue ch of
        p # q \<Rightarrow> do { a \<leftarrow> chan_update c (\<lambda>ch. ch\<lparr>ch_queue := q\<rparr>) a; Some (Ptr p, a) }
      | [] \<Rightarrow> do {
          w \<leftarrow> fits a ch (at_write_queue a);
          if w then Some (Ptr (hd (at_write_queue a)), a\<lparr>at_write_queue := tl (at_write_queue a)\<rparr>)
          else if ch_pending_req ch = NULL then do {
            r \<leftarrow> fits a ch (at_req_queue a);
            if r then do {
              op \<leftarrow> at_op a (hd (at_req_queue a));
              if op_opcode op = BT_ATT_OP_MTU_REQ \<and> ch_type ch = BT_ATT_EATT then pick_indication ch a
              else Some (Ptr (hd (at_req_queue a)), a\<lparr>at_req_queue := tl (at_req_queue a)\<rparr>) }
            else pick_indication ch a }
          else pick_indication ch a }) }"

text \<open>Calling the response function of an operation that failed.\<close>

definition call_failed ::
    "('f, 'u, 'w) att_env \<Rightarrow> nat \<Rightarrow> ('f, 'u, 'w) bt_att \<Rightarrow> ('f, 'u, 'w) bt_att option" where
  "call_failed E p a = do {
     op \<leftarrow> at_op a p;
     (case op_callback op of
        NULL \<Rightarrow> Some a
      | Ptr f \<Rightarrow> ev_response E f BT_ATT_OP_ERROR_RSP NULL 0 (op_user_data op) a) }"

definition disc_att_send_op ::
    "('f, 'u, 'w) att_env \<Rightarrow> nat \<Rightarrow> ('f, 'u, 'w) bt_att \<Rightarrow> ('f, 'u, 'w) bt_att option" where
  "disc_att_send_op E p a = do { a \<leftarrow> call_failed E p a; destroy_att_send_op E p a }"

definition bt_att_chan_write ::
    "('f, 'u, 'w) att_env \<Rightarrow> nat \<Rightarrow> buf \<Rightarrow> u16 \<Rightarrow> ('f, 'u, 'w) bt_att \<Rightarrow> (int \<times> ('f, 'u, 'w) bt_att) option" where
  "bt_att_chan_write E c pdu len a = do {
     ch \<leftarrow> at_chan a c;
     b \<leftarrow> rd pdu 0 (unat len);
     let ret = ev_send E (ch_fd ch) b;
     Some (ret, if ret < 0 then a else a\<lparr>at_sent := at_sent a @ [(ch_fd ch, take (nat ret) b)]\<rparr>) }"

text \<open>\<open>timeout_add\<close> gives a fresh id, which is not zero.\<close>

definition timeout_add :: "nat \<Rightarrow> u32 \<Rightarrow> ('f, 'u, 'w) bt_att \<Rightarrow> nat \<times> ('f, 'u, 'w) bt_att" where
  "timeout_add c i a =
     (let n = Suc (at_timer_brk a) in
      (n, a\<lparr>at_timer_brk := n, at_timers := at_timers a @ [(n, c, i)]\<rparr>))"

text \<open>The timer of an operation that waits for its answer.\<close>

definition start_timeout ::
    "nat \<Rightarrow> nat \<Rightarrow> ('f, 'u, 'w) bt_att \<Rightarrow> ('f, 'u, 'w) bt_att option" where
  "start_timeout c p a = do {
     op \<leftarrow> at_op a p;
     let (n, a) = timeout_add c (op_id op) a;
     op_update p (\<lambda>op. op\<lparr>op_timeout_id := n\<rparr>) a }"

definition can_write_data ::
    "('f, 'u, 'w) att_env \<Rightarrow> nat \<Rightarrow> ('f, 'u, 'w) bt_att \<Rightarrow> (bool \<times> ('f, 'u, 'w) bt_att) option" where
  "can_write_data E c a = do {
     (p, a) \<leftarrow> pick_next_send_op c a;
     (case p of
        NULL \<Rightarrow> Some (False, a)
      | Ptr p \<Rightarrow> do {
          op \<leftarrow> at_op a p;
          (ret, a) \<leftarrow> bt_att_chan_write E c (op_pdu op) (op_len op) a;
          if ret = 0 then do { a \<leftarrow> disc_att_send_op E p a; Some (True, a) }
          else (case op_type op of
              ATT_OP_TYPE_REQ \<Rightarrow> do {
                a \<leftarrow> chan_update c (\<lambda>ch. ch\<lparr>ch_pending_req := Ptr p\<rparr>) a;
                a \<leftarrow> start_timeout c p a;
                Some (True, a) }
            | ATT_OP_TYPE_IND \<Rightarrow> do {
                a \<leftarrow> chan_update c (\<lambda>ch. ch\<lparr>ch_pending_ind := Ptr p\<rparr>) a;
                a \<leftarrow> start_timeout c p a;
                Some (True, a) }
            | ATT_OP_TYPE_RSP \<Rightarrow> do {
                a \<leftarrow> chan_update c (\<lambda>ch. ch\<lparr>ch_in_req := False\<rparr>) a;
                a \<leftarrow> destroy_att_send_op E p a;
                Some (True, a) }
            | _ \<Rightarrow> do { a \<leftarrow> destroy_att_send_op E p a; Some (True, a) }) }) }"

definition write_watch_destroy :: "nat \<Rightarrow> ('f, 'u, 'w) bt_att \<Rightarrow> ('f, 'u, 'w) bt_att option" where
  "write_watch_destroy c a = chan_update c (\<lambda>ch. ch\<lparr>ch_writer_active := False\<rparr>) a"

text \<open>The main loop calls the write handler, and removes it when it returns false.\<close>

definition write_ready ::
    "('f, 'u, 'w) att_env \<Rightarrow> nat \<Rightarrow> ('f, 'u, 'w) bt_att \<Rightarrow> ('f, 'u, 'w) bt_att option" where
  "write_ready E c a = do {
     (again, a) \<leftarrow> can_write_data E c a;
     if again then Some a else write_watch_destroy c a }"

text \<open>The write handler is set only when there is something that can be sent at all.\<close>

definition wakeup_chan_writer ::
    "('f, 'u, 'w) att_env \<Rightarrow> nat \<Rightarrow> ('f, 'u, 'w) bt_att \<Rightarrow> ('f, 'u, 'w) bt_att option" where
  "wakeup_chan_writer E c a = do {
     ch \<leftarrow> at_chan a c;
     if ch_writer_active ch then Some a
     else if ch_queue ch = [] \<and> at_write_queue a = [] \<and>
         (ch_pending_req ch \<noteq> NULL \<or> at_req_queue a = []) \<and> (ch_pending_ind ch \<noteq> NULL \<or> at_ind_queue a = [])
       then Some a
     else if \<not> ev_watch E (ch_fd ch) then Some a
     else chan_update c (\<lambda>ch. ch\<lparr>ch_writer_active := True\<rparr>) a }"

definition wakeup_writer ::
    "('f, 'u, 'w) att_env \<Rightarrow> ('f, 'u, 'w) bt_att \<Rightarrow> ('f, 'u, 'w) bt_att option" where
  "wakeup_writer E a = each (wakeup_chan_writer E) (at_chans a) a"

definition io_shutdown :: "nat \<Rightarrow> ('f, 'u, 'w) bt_att \<Rightarrow> ('f, 'u, 'w) bt_att option" where
  "io_shutdown c a = chan_update c (\<lambda>ch. ch\<lparr>ch_shutdown := True\<rparr>) a"

text \<open>
  \<open>timeout_cb\<close> for the timer with the \<open>timeout_data\<close> of channel \<open>c\<close> and operation id \<open>i\<close>.
\<close>

definition timeout_cb ::
    "('f, 'u, 'w) att_env \<Rightarrow> nat \<Rightarrow> u32 \<Rightarrow> ('f, 'u, 'w) bt_att \<Rightarrow> ('f, 'u, 'w) bt_att option" where
  "timeout_cb E c i a = do {
     ch \<leftarrow> at_chan a c;
     req \<leftarrow> (case ch_pending_req ch of NULL \<Rightarrow> Some False | Ptr p \<Rightarrow> do { op \<leftarrow> at_op a p; Some (op_id op = i) });
     ind \<leftarrow> (case ch_pending_ind ch of NULL \<Rightarrow> Some False | Ptr p \<Rightarrow> do { op \<leftarrow> at_op a p; Some (op_id op = i) });
     if \<not> req \<and> \<not> ind then Some a
     else do {
       p \<leftarrow> deref (if req then ch_pending_req ch else ch_pending_ind ch);
       a \<leftarrow> chan_update c (\<lambda>ch. if req then ch\<lparr>ch_pending_req := NULL\<rparr> else ch\<lparr>ch_pending_ind := NULL\<rparr>) a;
       op \<leftarrow> at_op a p;
       a \<leftarrow> (case at_timeout_callback a of
               NULL \<Rightarrow> Some a
             | Ptr f \<Rightarrow> ev_timeout E f (op_id op) (op_opcode op) (at_timeout_data a) a);
       a \<leftarrow> op_update p (\<lambda>op. op\<lparr>op_timeout_id := 0\<rparr>) a;
       a \<leftarrow> disc_att_send_op E p a;
       io_shutdown c a } }"

end
