(* ===== verification/TransportApi.thy ===== *)
theory TransportApi
  imports Transport
begin

text \<open>
  \<open>src/shared/att.c\<close>, second part: the interface of the transport.  Its functions take a pointer to
  the object, return at once for a null one, and must not be called with a freed one.  An \<open>errno\<close>
  value is the number it has on Linux.
\<close>

definition on_att ::
    "'r \<Rightarrow> (('f, 'u, 'w) bt_att \<Rightarrow> ('r \<times> ('f, 'u, 'w) bt_att) option) \<Rightarrow> ('f, 'u, 'w) bt_att ptr \<Rightarrow>
       ('r \<times> ('f, 'u, 'w) bt_att ptr) option" where
  "on_att r f att =
     (case att of
        NULL \<Rightarrow> Some (r, NULL)
      | Ptr a \<Rightarrow> do { _ \<leftarrow> att_live a; (r, a) \<leftarrow> f a; Some (r, Ptr a) })"

lemma on_att_simps [simp]:
  "on_att r f NULL = Some (r, NULL)"
  "on_att r f (Ptr a) = do { _ \<leftarrow> att_live a; (r, a) \<leftarrow> f a; Some (r, Ptr a) }"
  by (simp_all add: on_att_def)

section \<open>Sending\<close>

definition bt_att_send ::
    "('f, 'u, 'w) att_env \<Rightarrow> u8 \<Rightarrow> buf ptr \<Rightarrow> u16 \<Rightarrow> 'f ptr \<Rightarrow> 'u ptr \<Rightarrow> 'f ptr \<Rightarrow> ('f, 'u, 'w) bt_att ptr \<Rightarrow>
       (u32 \<times> ('f, 'u, 'w) bt_att ptr) option" where
  "bt_att_send E opcode pdu len callback user_data destroy = on_att 0 (\<lambda>a.
     if at_chans a = [] then Some (0, a)
     else do {
       (p, a) \<leftarrow> create_att_send_op E opcode pdu len callback user_data destroy a;
       (case p of
          NULL \<Rightarrow> Some (0, a)
        | Ptr p \<Rightarrow> do {
            let a = (if at_next_send_id a < 1 then a\<lparr>at_next_send_id := 1\<rparr> else a);
            let i = at_next_send_id a;
            a \<leftarrow> op_update p (\<lambda>op. op\<lparr>op_id := i\<rparr>) (a\<lparr>at_next_send_id := i + 1\<rparr>);
            op \<leftarrow> at_op a p;
            let a = (case op_type op of
                ATT_OP_TYPE_REQ \<Rightarrow> a\<lparr>at_req_queue := at_req_queue a @ [p]\<rparr>
              | ATT_OP_TYPE_IND \<Rightarrow> a\<lparr>at_ind_queue := at_ind_queue a @ [p]\<rparr>
              | _ \<Rightarrow> a\<lparr>at_write_queue := at_write_queue a @ [p]\<rparr>);
            a \<leftarrow> wakeup_writer E a;
            Some (i, a) }) })"

text \<open>Is a request with this id in flight on one of the channels?\<close>

fun in_flight :: "u32 \<Rightarrow> nat list \<Rightarrow> ('f, 'u, 'w) bt_att \<Rightarrow> bool option" where
  "in_flight i [] a = Some False"
| "in_flight i (c # cs) a = do {
     ch \<leftarrow> at_chan a c;
     here \<leftarrow> (case ch_pending_req ch of NULL \<Rightarrow> Some False | Ptr p \<Rightarrow> do { op \<leftarrow> at_op a p; Some (op_id op = i) });
     if here then Some True else in_flight i cs a }"

definition bt_att_resend ::
    "('f, 'u, 'w) att_env \<Rightarrow> u32 \<Rightarrow> u8 \<Rightarrow> buf ptr \<Rightarrow> u16 \<Rightarrow> 'f ptr \<Rightarrow> 'u ptr \<Rightarrow> 'f ptr \<Rightarrow>
       ('f, 'u, 'w) bt_att ptr \<Rightarrow> (int \<times> ('f, 'u, 'w) bt_att ptr) option" where
  "bt_att_resend E i opcode pdu len callback user_data destroy = on_att (-22) (\<lambda>a.
     if i = 0 then Some (-22, a)
     else do {
       found \<leftarrow> in_flight i (at_chans a) a;
       if \<not> found then Some (-2, a)
       else if get_op_type opcode \<noteq> ATT_OP_TYPE_REQ then Some (-95, a)
       else do {
         (p, a) \<leftarrow> create_att_send_op E opcode pdu len callback user_data destroy a;
         (case p of
            NULL \<Rightarrow> Some (-12, a)
          | Ptr p \<Rightarrow> do {
              a \<leftarrow> op_update p (\<lambda>op. op\<lparr>op_id := i\<rparr>) a;
              let a = (if opcode \<in> {0x0C, 0x16, 0x18} then a\<lparr>at_req_queue := p # at_req_queue a\<rparr>
                       else a\<lparr>at_req_queue := at_req_queue a @ [p]\<rparr>);
              a \<leftarrow> wakeup_writer E a;
              Some (0, a) }) } })"

text \<open>The id of the operation is never set here.\<close>

definition bt_att_chan_send ::
    "('f, 'u, 'w) att_env \<Rightarrow> nat \<Rightarrow> u8 \<Rightarrow> buf ptr \<Rightarrow> u16 \<Rightarrow> 'f ptr \<Rightarrow> 'u ptr \<Rightarrow> 'f ptr \<Rightarrow> ('f, 'u, 'w) bt_att \<Rightarrow>
       (u32 \<times> ('f, 'u, 'w) bt_att) option" where
  "bt_att_chan_send E c opcode pdu len callback user_data destroy a = do {
     (p, a) \<leftarrow> create_att_send_op E opcode pdu len callback user_data destroy a;
     (case p of
        NULL \<Rightarrow> Some (- 22, a)
      | Ptr p \<Rightarrow> do {
          a \<leftarrow> chan_update c (\<lambda>ch. ch\<lparr>ch_queue := ch_queue ch @ [p]\<rparr>) a;
          a \<leftarrow> wakeup_chan_writer E c a;
          op \<leftarrow> at_op a p;
          Some (op_id op, a) }) }"

definition att_ecode_from_error :: "int \<Rightarrow> u8" where
  "att_ecode_from_error err =
     (if 0 < err \<and> err < 255 then word_of_int err
      else if err = -2 then 0x01
      else if err = -12 then 0x11
      else if err = -114 then 0xfe
      else if err = -75 then 0xff
      else 0x0E)"

definition bt_att_chan_send_error_rsp ::
    "('f, 'u, 'w) att_env \<Rightarrow> nat ptr \<Rightarrow> u8 \<Rightarrow> u16 \<Rightarrow> int \<Rightarrow> ('f, 'u, 'w) bt_att \<Rightarrow>
       (u32 \<times> ('f, 'u, 'w) bt_att) option" where
  "bt_att_chan_send_error_rsp E chan opcode handle err a =
     (case chan of
        NULL \<Rightarrow> Some (- 22, a)
      | Ptr c \<Rightarrow>
          if opcode = 0 then Some (- 22, a)
          else do {
            pdu \<leftarrow> put_le16 handle [opcode, 0, 0, 0] 1;
            pdu \<leftarrow> wr8 pdu 3 (att_ecode_from_error err);
            bt_att_chan_send E c BT_ATT_OP_ERROR_RSP (Ptr pdu) 4 NULL NULL NULL a })"

section \<open>Cancelling\<close>

text \<open>\<open>match_op_id\<close> along a queue.\<close>

fun find_op :: "u32 \<Rightarrow> nat list \<Rightarrow> ('f, 'u, 'w) bt_att \<Rightarrow> nat ptr option" where
  "find_op i [] a = Some NULL"
| "find_op i (p # q) a = do { op \<leftarrow> at_op a p; if op_id op = i then Some (Ptr p) else find_op i q a }"

definition pending_id :: "nat ptr \<Rightarrow> u32 \<Rightarrow> ('f, 'u, 'w) bt_att \<Rightarrow> bool option" where
  "pending_id p i a = (case p of NULL \<Rightarrow> Some False | Ptr p \<Rightarrow> do { op \<leftarrow> at_op a p; Some (op_id op = i) })"

definition bt_att_chan_cancel ::
    "('f, 'u, 'w) att_env \<Rightarrow> nat \<Rightarrow> u32 \<Rightarrow> ('f, 'u, 'w) bt_att \<Rightarrow> (bool \<times> ('f, 'u, 'w) bt_att) option" where
  "bt_att_chan_cancel E c i a = do {
     ch \<leftarrow> at_chan a c;
     req \<leftarrow> pending_id (ch_pending_req ch) i a;
     if req then do { p \<leftarrow> deref (ch_pending_req ch); a \<leftarrow> cancel_att_send_op E p a; Some (True, a) }
     else do {
       ind \<leftarrow> pending_id (ch_pending_ind ch) i a;
       if ind then do { p \<leftarrow> deref (ch_pending_ind ch); a \<leftarrow> cancel_att_send_op E p a; Some (True, a) }
       else do {
         op \<leftarrow> find_op i (ch_queue ch) a;
         (case op of
            NULL \<Rightarrow> Some (False, a)
          | Ptr p \<Rightarrow> do {
              a \<leftarrow> chan_update c (\<lambda>ch. ch\<lparr>ch_queue := remove1 p (ch_queue ch)\<rparr>) a;
              a \<leftarrow> destroy_att_send_op E p a;
              a \<leftarrow> wakeup_chan_writer E c a;
              Some (True, a) }) } } }"

definition bt_att_disc_cancel ::
    "('f, 'u, 'w) att_env \<Rightarrow> u32 \<Rightarrow> ('f, 'u, 'w) bt_att \<Rightarrow> (bool \<times> ('f, 'u, 'w) bt_att) option" where
  "bt_att_disc_cancel E i a = do {
     op \<leftarrow> find_op i (at_req_queue a @ at_ind_queue a @ at_write_queue a) a;
     (case op of NULL \<Rightarrow> Some (False, a) | Ptr p \<Rightarrow> do { a \<leftarrow> cancel_att_send_op E p a; Some (True, a) }) }"

fun cancel_chans ::
    "('f, 'u, 'w) att_env \<Rightarrow> u32 \<Rightarrow> nat list \<Rightarrow> ('f, 'u, 'w) bt_att \<Rightarrow> (bool \<times> ('f, 'u, 'w) bt_att) option" where
  "cancel_chans E i [] a = Some (False, a)"
| "cancel_chans E i (c # cs) a = do {
     (done, a) \<leftarrow> bt_att_chan_cancel E c i a;
     if done then Some (True, a) else cancel_chans E i cs a }"

definition bt_att_cancel ::
    "('f, 'u, 'w) att_env \<Rightarrow> u32 \<Rightarrow> ('f, 'u, 'w) bt_att ptr \<Rightarrow> (bool \<times> ('f, 'u, 'w) bt_att ptr) option" where
  "bt_att_cancel E i = on_att False (\<lambda>a.
     if i = 0 then Some (False, a)
     else do {
       (done, a) \<leftarrow> cancel_chans E i (at_chans a) a;
       if done then Some (True, a)
       else if at_in_disc a then bt_att_disc_cancel E i a
       else do {
         r \<leftarrow> find_op i (at_req_queue a) a;
         n \<leftarrow> (if r \<noteq> NULL then Some NULL else find_op i (at_ind_queue a) a);
         w \<leftarrow> (if r \<noteq> NULL \<or> n \<noteq> NULL then Some NULL else find_op i (at_write_queue a) a);
         let drop_op = (\<lambda>p a. do { a \<leftarrow> destroy_att_send_op E p a; a \<leftarrow> wakeup_writer E a; Some (True, a) });
         (case (r, n, w) of
            (Ptr p, _, _) \<Rightarrow> drop_op p (a\<lparr>at_req_queue := remove1 p (at_req_queue a)\<rparr>)
          | (NULL, Ptr p, _) \<Rightarrow> drop_op p (a\<lparr>at_ind_queue := remove1 p (at_ind_queue a)\<rparr>)
          | (NULL, NULL, Ptr p) \<Rightarrow> drop_op p (a\<lparr>at_write_queue := remove1 p (at_write_queue a)\<rparr>)
          | _ \<Rightarrow> Some (False, a)) } })"

text \<open>Pending operations are kept for their answer; only their handlers are removed.\<close>

definition cancel_pending ::
    "('f, 'u, 'w) att_env \<Rightarrow> nat \<Rightarrow> ('f, 'u, 'w) bt_att \<Rightarrow> ('f, 'u, 'w) bt_att option" where
  "cancel_pending E c a = do {
     ch \<leftarrow> at_chan a c;
     a \<leftarrow> (case ch_pending_req ch of NULL \<Rightarrow> Some a | Ptr p \<Rightarrow> cancel_att_send_op E p a);
     ch \<leftarrow> at_chan a c;
     (case ch_pending_ind ch of NULL \<Rightarrow> Some a | Ptr p \<Rightarrow> cancel_att_send_op E p a) }"

definition cancel_all ::
    "('f, 'u, 'w) att_env \<Rightarrow> ('f, 'u, 'w) bt_att \<Rightarrow> ('f, 'u, 'w) bt_att option" where
  "cancel_all E a = do {
     a \<leftarrow> each (destroy_att_send_op E) (at_req_queue a) (a\<lparr>at_req_queue := []\<rparr>);
     a \<leftarrow> each (destroy_att_send_op E) (at_ind_queue a) (a\<lparr>at_ind_queue := []\<rparr>);
     a \<leftarrow> each (destroy_att_send_op E) (at_write_queue a) (a\<lparr>at_write_queue := []\<rparr>);
     each (cancel_pending E) (at_chans a) a }"

definition bt_att_cancel_all ::
    "('f, 'u, 'w) att_env \<Rightarrow> ('f, 'u, 'w) bt_att ptr \<Rightarrow> (bool \<times> ('f, 'u, 'w) bt_att ptr) option" where
  "bt_att_cancel_all E = on_att False (\<lambda>a. do { a \<leftarrow> cancel_all E a; Some (True, a) })"

section \<open>Handlers\<close>

definition destroy_att_notify ::
    "('f, 'u, 'w) att_env \<Rightarrow> nat \<Rightarrow> ('f, 'u, 'w) bt_att \<Rightarrow> ('f, 'u, 'w) bt_att option" where
  "destroy_att_notify E n a = do {
     r \<leftarrow> at_notify a n;
     a \<leftarrow> call_destroy E (nt_destroy r) (nt_user_data r) a;
     _ \<leftarrow> at_notify a n;
     Some (a\<lparr>at_notify := (at_notify a)(n := None)\<rparr>) }"

definition destroy_att_disconn ::
    "('f, 'u, 'w) att_env \<Rightarrow> nat \<Rightarrow> ('f, 'u, 'w) bt_att \<Rightarrow> ('f, 'u, 'w) bt_att option" where
  "destroy_att_disconn E n a = do {
     r \<leftarrow> at_disconn a n;
     a \<leftarrow> call_destroy E (dn_destroy r) (dn_user_data r) a;
     _ \<leftarrow> at_disconn a n;
     Some (a\<lparr>at_disconn := (at_disconn a)(n := None)\<rparr>) }"

definition destroy_att_exchange ::
    "('f, 'u, 'w) att_env \<Rightarrow> nat \<Rightarrow> ('f, 'u, 'w) bt_att \<Rightarrow> ('f, 'u, 'w) bt_att option" where
  "destroy_att_exchange E n a = do {
     r \<leftarrow> at_exchange a n;
     a \<leftarrow> call_destroy E (dn_destroy r) (dn_user_data r) a;
     _ \<leftarrow> at_exchange a n;
     Some (a\<lparr>at_exchange := (at_exchange a)(n := None)\<rparr>) }"

text \<open>The id of the next handler: never 0, and unique until the counter wraps.\<close>

definition new_reg_id :: "('f, 'u, 'w) bt_att \<Rightarrow> u32 \<times> ('f, 'u, 'w) bt_att" where
  "new_reg_id a =
     (let i = (if at_next_reg_id a < 1 then 1 else at_next_reg_id a) in (i, a\<lparr>at_next_reg_id := i + 1\<rparr>))"

definition bt_att_register ::
    "u8 \<Rightarrow> 'f ptr \<Rightarrow> 'u ptr \<Rightarrow> 'f ptr \<Rightarrow> ('f, 'u, 'w) bt_att ptr \<Rightarrow> (u32 \<times> ('f, 'u, 'w) bt_att ptr) option" where
  "bt_att_register opcode callback user_data destroy = on_att 0 (\<lambda>a.
     if callback = NULL \<or> at_chans a = [] then Some (0, a)
     else let (i, a) = new_reg_id a; n = at_brk a in
       Some (i, a\<lparr>at_notify := (at_notify a)(n \<mapsto> \<lparr>nt_id = i, nt_opcode = ucast opcode,
           nt_callback = callback, nt_destroy = destroy, nt_user_data = user_data\<rparr>),
         at_brk := Suc n, at_notify_list := at_notify_list a @ [n]\<rparr>))"

definition bt_att_register_disconnect ::
    "'f ptr \<Rightarrow> 'u ptr \<Rightarrow> 'f ptr \<Rightarrow> ('f, 'u, 'w) bt_att ptr \<Rightarrow> (u32 \<times> ('f, 'u, 'w) bt_att ptr) option" where
  "bt_att_register_disconnect callback user_data destroy = on_att 0 (\<lambda>a.
     if at_chans a = [] then Some (0, a)
     else let (i, a) = new_reg_id a; n = at_brk a in
       Some (i, a\<lparr>at_disconn := (at_disconn a)(n \<mapsto> \<lparr>dn_id = i, dn_removed = False,
           dn_callback = callback, dn_destroy = destroy, dn_user_data = user_data\<rparr>),
         at_brk := Suc n, at_disconn_list := at_disconn_list a @ [n]\<rparr>))"

definition bt_att_register_exchange ::
    "'f ptr \<Rightarrow> 'u ptr \<Rightarrow> 'f ptr \<Rightarrow> ('f, 'u, 'w) bt_att ptr \<Rightarrow> (u32 \<times> ('f, 'u, 'w) bt_att ptr) option" where
  "bt_att_register_exchange callback user_data destroy = on_att 0 (\<lambda>a.
     if at_chans a = [] then Some (0, a)
     else let (i, a) = new_reg_id a; n = at_brk a in
       Some (i, a\<lparr>at_exchange := (at_exchange a)(n \<mapsto> \<lparr>dn_id = i, dn_removed = False,
           dn_callback = callback, dn_destroy = destroy, dn_user_data = user_data\<rparr>),
         at_brk := Suc n, at_exchange_list := at_exchange_list a @ [n]\<rparr>))"

text \<open>\<open>match_notify_id\<close> and \<open>match_disconn_id\<close> along a list of handlers.\<close>

fun find_id :: "('h \<Rightarrow> u32) \<Rightarrow> (nat \<rightharpoonup> 'h) \<Rightarrow> u32 \<Rightarrow> nat list \<Rightarrow> nat ptr option" where
  "find_id get objs i [] = Some NULL"
| "find_id get objs i (n # ns) = do { h \<leftarrow> objs n; if get h = i then Some (Ptr n) else find_id get objs i ns }"

definition bt_att_unregister ::
    "('f, 'u, 'w) att_env \<Rightarrow> u32 \<Rightarrow> ('f, 'u, 'w) bt_att ptr \<Rightarrow> (bool \<times> ('f, 'u, 'w) bt_att ptr) option" where
  "bt_att_unregister E i = on_att False (\<lambda>a.
     if i = 0 then Some (False, a)
     else do {
       n \<leftarrow> find_id nt_id (at_notify a) i (at_notify_list a);
       (case n of
          NULL \<Rightarrow> Some (False, a)
        | Ptr n \<Rightarrow> do {
            a \<leftarrow> destroy_att_notify E n (a\<lparr>at_notify_list := remove1 n (at_notify_list a)\<rparr>);
            Some (True, a) }) })"

text \<open>While the disconnect handlers run (no channel is left) a handler is only marked.\<close>

definition bt_att_unregister_disconnect ::
    "('f, 'u, 'w) att_env \<Rightarrow> u32 \<Rightarrow> ('f, 'u, 'w) bt_att ptr \<Rightarrow> (bool \<times> ('f, 'u, 'w) bt_att ptr) option" where
  "bt_att_unregister_disconnect E i = on_att False (\<lambda>a.
     if i = 0 then Some (False, a)
     else do {
       n \<leftarrow> find_id dn_id (at_disconn a) i (at_disconn_list a);
       (case n of
          NULL \<Rightarrow> Some (False, a)
        | Ptr n \<Rightarrow>
            if at_chans a = [] then do {
              h \<leftarrow> at_disconn a n;
              Some (True, a\<lparr>at_disconn := (at_disconn a)(n \<mapsto> h\<lparr>dn_removed := True\<rparr>)\<rparr>) }
            else do {
              a \<leftarrow> destroy_att_disconn E n (a\<lparr>at_disconn_list := remove1 n (at_disconn_list a)\<rparr>);
              Some (True, a) }) })"

definition bt_att_unregister_exchange ::
    "('f, 'u, 'w) att_env \<Rightarrow> u32 \<Rightarrow> ('f, 'u, 'w) bt_att ptr \<Rightarrow> (bool \<times> ('f, 'u, 'w) bt_att ptr) option" where
  "bt_att_unregister_exchange E i = on_att False (\<lambda>a.
     if i = 0 then Some (False, a)
     else do {
       n \<leftarrow> find_id dn_id (at_exchange a) i (at_exchange_list a);
       (case n of
          NULL \<Rightarrow> Some (False, a)
        | Ptr n \<Rightarrow>
            if at_chans a = [] then do {
              h \<leftarrow> at_exchange a n;
              Some (True, a\<lparr>at_exchange := (at_exchange a)(n \<mapsto> h\<lparr>dn_removed := True\<rparr>)\<rparr>) }
            else do {
              a \<leftarrow> destroy_att_exchange E n (a\<lparr>at_exchange_list := remove1 n (at_exchange_list a)\<rparr>);
              Some (True, a) }) })"

definition unregister_all ::
    "('f, 'u, 'w) att_env \<Rightarrow> ('f, 'u, 'w) bt_att \<Rightarrow> ('f, 'u, 'w) bt_att option" where
  "unregister_all E a = do {
     a \<leftarrow> each (destroy_att_notify E) (at_notify_list a) (a\<lparr>at_notify_list := []\<rparr>);
     a \<leftarrow> each (destroy_att_disconn E) (at_disconn_list a) (a\<lparr>at_disconn_list := []\<rparr>);
     each (destroy_att_exchange E) (at_exchange_list a) (a\<lparr>at_exchange_list := []\<rparr>) }"

definition bt_att_unregister_all ::
    "('f, 'u, 'w) att_env \<Rightarrow> ('f, 'u, 'w) bt_att ptr \<Rightarrow> (bool \<times> ('f, 'u, 'w) bt_att ptr) option" where
  "bt_att_unregister_all E = on_att False (\<lambda>a. do { a \<leftarrow> unregister_all E a; Some (True, a) })"

text \<open>
  \<open>queue_foreach\<close> over handlers: the next entry is fetched before the handler runs, and must still
  be there afterwards unless the list is empty.
\<close>

fun next_in :: "nat \<Rightarrow> nat list \<Rightarrow> nat ptr" where
  "next_in x (y # ys) = (if x = y then (case ys of [] \<Rightarrow> NULL | z # _ \<Rightarrow> Ptr z) else next_in x ys)"
| "next_in x [] = NULL"

partial_function (option) foreach_entry ::
    "('s \<Rightarrow> nat list) \<Rightarrow> (nat \<Rightarrow> 's \<Rightarrow> 's option) \<Rightarrow> nat ptr \<Rightarrow> 's \<Rightarrow> 's option" where
  "foreach_entry queue f entry s =
     (case entry of
        NULL \<Rightarrow> Some s
      | Ptr x \<Rightarrow>
          if queue s = [] then Some s
          else if x \<notin> set (queue s) then None
          else do { s' \<leftarrow> f x s; foreach_entry queue f (next_in x (queue s)) s' })"

definition first_entry :: "nat list \<Rightarrow> nat ptr" where
  "first_entry q = (case q of [] \<Rightarrow> NULL | x # _ \<Rightarrow> Ptr x)"

section \<open>References, MTU and the rest of the interface\<close>

definition bt_att_ref :: "('f, 'u, 'w) bt_att \<Rightarrow> ('f, 'u, 'w) bt_att" where
  "bt_att_ref a = a\<lparr>at_ref_count := at_ref_count a + 1\<rparr>"

definition bt_att_chan_free ::
    "('f, 'u, 'w) att_env \<Rightarrow> nat \<Rightarrow> ('f, 'u, 'w) bt_att \<Rightarrow> ('f, 'u, 'w) bt_att option" where
  "bt_att_chan_free E c a = do {
     ch \<leftarrow> at_chan a c;
     a \<leftarrow> (case ch_pending_req ch of NULL \<Rightarrow> Some a | Ptr p \<Rightarrow> destroy_att_send_op E p a);
     ch \<leftarrow> at_chan a c;
     a \<leftarrow> (case ch_pending_ind ch of NULL \<Rightarrow> Some a | Ptr p \<Rightarrow> destroy_att_send_op E p a);
     ch \<leftarrow> at_chan a c;
     a \<leftarrow> chan_update c (\<lambda>ch. ch\<lparr>ch_queue := []\<rparr>) a;
     a \<leftarrow> each (destroy_att_send_op E) (ch_queue ch) a;
     _ \<leftarrow> at_chan a c;
     Some (a\<lparr>at_chan := (at_chan a)(c := None)\<rparr>) }"

definition bt_att_free ::
    "('f, 'u, 'w) att_env \<Rightarrow> ('f, 'u, 'w) bt_att \<Rightarrow> ('f, 'u, 'w) bt_att option" where
  "bt_att_free E a = do {
     a \<leftarrow> call_destroy E (at_timeout_destroy a) (at_timeout_data a) a;
     a \<leftarrow> each (bt_att_chan_free E) (at_chans a) (a\<lparr>at_chans := []\<rparr>);
     Some (a\<lparr>at_freed := True\<rparr>) }"

definition bt_att_unref ::
    "('f, 'u, 'w) att_env \<Rightarrow> ('f, 'u, 'w) bt_att \<Rightarrow> ('f, 'u, 'w) bt_att option" where
  "bt_att_unref E a = do {
     _ \<leftarrow> att_live a;
     let a = a\<lparr>at_ref_count := at_ref_count a - 1\<rparr>;
     if at_ref_count a \<noteq> 0 then Some a
     else do {
       a \<leftarrow> unregister_all E a;
       a \<leftarrow> cancel_all E a;
       bt_att_free E a } }"

definition bt_att_get_mtu :: "('f, 'u, 'w) bt_att ptr \<Rightarrow> u16" where
  "bt_att_get_mtu att = (case att of NULL \<Rightarrow> 0 | Ptr a \<Rightarrow> at_mtu a)"

definition exchange_handler ::
    "('f, 'u, 'w) att_env \<Rightarrow> u16 \<Rightarrow> nat \<Rightarrow> ('f, 'u, 'w) bt_att \<Rightarrow> ('f, 'u, 'w) bt_att option" where
  "exchange_handler E mtu n a = do {
     h \<leftarrow> at_exchange a n;
     if dn_removed h then Some a
     else (case dn_callback h of NULL \<Rightarrow> Some a | Ptr f \<Rightarrow> ev_exchange E f mtu (dn_user_data h) a) }"

text \<open>Without a channel the code returns \<open>-ENOTCONN\<close> as a \<open>bool\<close>, which is true.\<close>

definition bt_att_set_mtu ::
    "('f, 'u, 'w) att_env \<Rightarrow> u16 \<Rightarrow> ('f, 'u, 'w) bt_att ptr \<Rightarrow> (bool \<times> ('f, 'u, 'w) bt_att ptr) option" where
  "bt_att_set_mtu E mtu = on_att False (\<lambda>a.
     if mtu < BT_ATT_DEFAULT_LE_MTU then Some (False, a)
     else if at_chans a = [] then Some (True, a)
     else if \<not> ev_mem E then Some (False, a)
     else do {
       a \<leftarrow> chan_update (last (at_chans a))
         (\<lambda>ch. ch\<lparr>ch_mtu := mtu, ch_buf := map (ev_junk E) [0..<unat mtu]\<rparr>) a;
       a \<leftarrow> (if at_mtu a < mtu then
               (let a = a\<lparr>at_mtu := mtu\<rparr> in
                foreach_entry at_exchange_list (exchange_handler E mtu) (first_entry (at_exchange_list a)) a)
             else Some a);
       Some (True, a) })"

definition bt_att_get_link_type :: "('f, 'u, 'w) bt_att ptr \<Rightarrow> u8 option" where
  "bt_att_get_link_type att =
     (case att of
        NULL \<Rightarrow> Some (- 22)
      | Ptr a \<Rightarrow>
          if at_chans a = [] then Some (- 107)
          else do { ch \<leftarrow> at_chan a (last (at_chans a)); Some (ch_type ch) })"

definition bt_att_get_fd :: "('f, 'u, 'w) bt_att ptr \<Rightarrow> int option" where
  "bt_att_get_fd att =
     (case att of
        NULL \<Rightarrow> Some (- 1)
      | Ptr a \<Rightarrow>
          if at_chans a = [] then Some (- 107)
          else do { ch \<leftarrow> at_chan a (last (at_chans a)); Some (ch_fd ch) })"

definition bt_att_get_channels :: "('f, 'u, 'w) bt_att ptr \<Rightarrow> int" where
  "bt_att_get_channels att = (case att of NULL \<Rightarrow> 0 | Ptr a \<Rightarrow> int (length (at_chans a)))"

definition bt_att_set_timeout_cb ::
    "('f, 'u, 'w) att_env \<Rightarrow> 'f ptr \<Rightarrow> 'u ptr \<Rightarrow> 'f ptr \<Rightarrow> ('f, 'u, 'w) bt_att ptr \<Rightarrow>
       (bool \<times> ('f, 'u, 'w) bt_att ptr) option" where
  "bt_att_set_timeout_cb E callback user_data destroy = on_att False (\<lambda>a. do {
     a \<leftarrow> call_destroy E (at_timeout_destroy a) (at_timeout_data a) a;
     Some (True, a\<lparr>at_timeout_callback := callback, at_timeout_destroy := destroy, at_timeout_data := user_data\<rparr>) })"

definition sign_set_key ::
    "('f, 'u) sign_info ptr \<Rightarrow> buf \<Rightarrow> 'f ptr \<Rightarrow> 'u ptr \<Rightarrow> ('f, 'u) sign_info ptr option" where
  "sign_set_key sign key func user_data = do {
     k \<leftarrow> rd key 0 16;
     Some (Ptr \<lparr>sg_key = k, sg_counter = func, sg_user_data = user_data\<rparr>) }"

definition bt_att_set_local_key ::
    "buf \<Rightarrow> 'f ptr \<Rightarrow> 'u ptr \<Rightarrow> ('f, 'u, 'w) bt_att ptr \<Rightarrow> (bool \<times> ('f, 'u, 'w) bt_att ptr) option" where
  "bt_att_set_local_key key func user_data = on_att False (\<lambda>a. do {
     s \<leftarrow> sign_set_key (at_local_sign a) key func user_data;
     Some (True, a\<lparr>at_local_sign := s\<rparr>) })"

definition bt_att_set_remote_key ::
    "buf \<Rightarrow> 'f ptr \<Rightarrow> 'u ptr \<Rightarrow> ('f, 'u, 'w) bt_att ptr \<Rightarrow> (bool \<times> ('f, 'u, 'w) bt_att ptr) option" where
  "bt_att_set_remote_key key func user_data = on_att False (\<lambda>a. do {
     s \<leftarrow> sign_set_key (at_remote_sign a) key func user_data;
     Some (True, a\<lparr>at_remote_sign := s\<rparr>) })"

definition bt_att_has_crypto :: "('f, 'u, 'w) bt_att ptr \<Rightarrow> bool" where
  "bt_att_has_crypto att = (case att of NULL \<Rightarrow> False | Ptr a \<Rightarrow> at_crypto a \<noteq> NULL)"

end
