(* ===== verification/TransportRecv.thy ===== *)
theory TransportRecv
  imports TransportApi
begin

text \<open>
  \<open>src/shared/att.c\<close>, third part: what the main loop runs on incoming data and on a closed socket,
  and the creation of the transport.
\<close>

section \<open>Security\<close>

definition bt_att_chan_get_security :: "('f, 'u, 'w) att_env \<Rightarrow> bt_att_chan \<Rightarrow> int" where
  "bt_att_chan_get_security E ch =
     (if ch_type ch = BT_ATT_LOCAL then ch_sec_level ch
      else (case ev_get_security E (ch_fd ch) of None \<Rightarrow> - 5 | Some level \<Rightarrow> level))"

definition bt_att_chan_set_security ::
    "('f, 'u, 'w) att_env \<Rightarrow> nat \<Rightarrow> int \<Rightarrow> ('f, 'u, 'w) bt_att \<Rightarrow> (bool \<times> ('f, 'u, 'w) bt_att) option" where
  "bt_att_chan_set_security E c level a = do {
     ch \<leftarrow> at_chan a c;
     if ch_type ch = BT_ATT_LOCAL then do {
       a \<leftarrow> chan_update c (\<lambda>ch. ch\<lparr>ch_sec_level := level\<rparr>) a; Some (True, a) }
     else Some (ev_set_security E (ch_fd ch) level, a) }"

text \<open>The levels are AUTO 0, LOW 1, MEDIUM 2, HIGH 3 and FIPS 4.\<close>

definition change_security ::
    "('f, 'u, 'w) att_env \<Rightarrow> nat \<Rightarrow> u8 \<Rightarrow> ('f, 'u, 'w) bt_att \<Rightarrow> (bool \<times> ('f, 'u, 'w) bt_att) option" where
  "change_security E c ecode a = do {
     ch \<leftarrow> at_chan a c;
     if ch_sec_level ch \<noteq> 0 then Some (False, a)
     else (let security = bt_att_chan_get_security E ch in
       if ecode = 0x0F \<and> security < 2 then bt_att_chan_set_security E c 2 a
       else if ecode = 0x05 then
         (if security < 2 then bt_att_chan_set_security E c 2 a
          else if security < 3 then bt_att_chan_set_security E c 3 a
          else if security < 4 then bt_att_chan_set_security E c 4 a
          else Some (False, a))
       else Some (False, a)) }"

definition bt_att_get_security :: "('f, 'u, 'w) att_env \<Rightarrow> ('f, 'u, 'w) bt_att ptr \<Rightarrow> (int \<times> u8 ptr) option" where
  "bt_att_get_security E att =
     (case att of
        NULL \<Rightarrow> Some (- 22, NULL)
      | Ptr a \<Rightarrow>
          if at_chans a = [] then Some (- 107, NULL)
          else do {
            ch \<leftarrow> at_chan a (last (at_chans a));
            let ret = bt_att_chan_get_security E ch;
            Some (ret, if ret < 0 then NULL else Ptr (at_enc_size a)) })"

definition bt_att_set_security ::
    "('f, 'u, 'w) att_env \<Rightarrow> int \<Rightarrow> ('f, 'u, 'w) bt_att ptr \<Rightarrow> (bool \<times> ('f, 'u, 'w) bt_att ptr) option" where
  "bt_att_set_security E level = on_att False (\<lambda>a.
     if level < 0 \<or> 3 < level then Some (False, a)
     else if at_chans a = [] then Some (True, a)
     else bt_att_chan_set_security E (last (at_chans a)) level a)"

definition bt_att_set_enc_key_size :: "u8 \<Rightarrow> ('f, 'u, 'w) bt_att ptr \<Rightarrow> ('f, 'u, 'w) bt_att ptr" where
  "bt_att_set_enc_key_size enc_size att =
     (case att of NULL \<Rightarrow> NULL | Ptr a \<Rightarrow> Ptr (a\<lparr>at_enc_size := enc_size\<rparr>))"

section \<open>Responses and confirmations\<close>

text \<open>The result, and the opcode of the request the error answers.\<close>

definition handle_error_rsp ::
    "('f, 'u, 'w) att_env \<Rightarrow> nat \<Rightarrow> nat \<Rightarrow> buf \<Rightarrow> ('f, 'u, 'w) bt_att \<Rightarrow> (bool \<times> u8 \<times> ('f, 'u, 'w) bt_att) option" where
  "handle_error_rsp E c p pdu a =
     (if length pdu \<noteq> 4 then Some (False, 0, a)
      else do {
        opcode \<leftarrow> rd8 pdu 0;
        ecode \<leftarrow> rd8 pdu 3;
        (changed, a) \<leftarrow> change_security E c ecode a;
        if \<not> changed then Some (False, opcode, a)
        else do {
          op \<leftarrow> at_op a p;
          a \<leftarrow> (if op_timeout_id op \<noteq> 0
                 then op_update p (\<lambda>op. op\<lparr>op_timeout_id := 0\<rparr>) (timeout_remove (op_timeout_id op) a)
                 else Some a);
          a \<leftarrow> chan_update c (\<lambda>ch. ch\<lparr>ch_pending_req := NULL\<rparr>) a;
          Some (True, opcode, a\<lparr>at_req_queue := p # at_req_queue a\<rparr>) } })"

text \<open>The end of a request: its response function runs while it is still pending.\<close>

definition finish_req ::
    "('f, 'u, 'w) att_env \<Rightarrow> nat \<Rightarrow> nat \<Rightarrow> u8 \<Rightarrow> buf ptr \<Rightarrow> u16 \<Rightarrow> ('f, 'u, 'w) bt_att \<Rightarrow>
       ('f, 'u, 'w) bt_att option" where
  "finish_req E c p rsp_opcode rsp_pdu rsp_pdu_len a = do {
     op \<leftarrow> at_op a p;
     a \<leftarrow> (case op_callback op of
             NULL \<Rightarrow> Some a
           | Ptr f \<Rightarrow> ev_response E f rsp_opcode rsp_pdu rsp_pdu_len (op_user_data op) a);
     a \<leftarrow> destroy_att_send_op E p a;
     a \<leftarrow> chan_update c (\<lambda>ch. ch\<lparr>ch_pending_req := NULL\<rparr>) a;
     wakeup_chan_writer E c a }"

definition handle_rsp ::
    "('f, 'u, 'w) att_env \<Rightarrow> nat \<Rightarrow> u8 \<Rightarrow> buf \<Rightarrow> ('f, 'u, 'w) bt_att \<Rightarrow> ('f, 'u, 'w) bt_att option" where
  "handle_rsp E c opcode pdu a = do {
     ch \<leftarrow> at_chan a c;
     (case ch_pending_req ch of
        NULL \<Rightarrow> io_shutdown c a
      | Ptr p \<Rightarrow> do {
          (retry, req_opcode, a) \<leftarrow>
            (if opcode = BT_ATT_OP_ERROR_RSP then handle_error_rsp E c p pdu a
             else Some (False, get_req_opcode opcode, a));
          if retry then wakeup_chan_writer E c a
          else do {
            op \<leftarrow> at_op a p;
            if (opcode \<noteq> BT_ATT_OP_ERROR_RSP \<and> req_opcode = 0) \<or> req_opcode \<noteq> op_opcode op
            then finish_req E c p BT_ATT_OP_ERROR_RSP NULL 0 a
            else finish_req E c p opcode (if pdu = [] then NULL else Ptr pdu) (of_nat (length pdu)) a } }) }"

definition handle_conf ::
    "('f, 'u, 'w) att_env \<Rightarrow> nat \<Rightarrow> buf \<Rightarrow> ('f, 'u, 'w) bt_att \<Rightarrow> ('f, 'u, 'w) bt_att option" where
  "handle_conf E c pdu a = do {
     ch \<leftarrow> at_chan a c;
     (case ch_pending_ind ch of
        NULL \<Rightarrow> io_shutdown c a
      | Ptr p \<Rightarrow>
          if pdu \<noteq> [] then io_shutdown c a
          else do {
            op \<leftarrow> at_op a p;
            a \<leftarrow> (case op_callback op of
                    NULL \<Rightarrow> Some a
                  | Ptr f \<Rightarrow> ev_response E f BT_ATT_OP_HANDLE_CONF NULL 0 (op_user_data op) a);
            a \<leftarrow> destroy_att_send_op E p a;
            a \<leftarrow> chan_update c (\<lambda>ch. ch\<lparr>ch_pending_ind := NULL\<rparr>) a;
            wakeup_chan_writer E c a }) }"

section \<open>Requests, commands and notifications of the peer\<close>

abbreviation (input) ALL_REQUESTS :: u8 where "ALL_REQUESTS \<equiv> 0x00"

definition opcode_match :: "u8 \<Rightarrow> u8 \<Rightarrow> bool" where
  "opcode_match opcode test_opcode =
     (let t = get_op_type test_opcode in
      (opcode = ALL_REQUESTS \<and> (t = ATT_OP_TYPE_REQ \<or> t = ATT_OP_TYPE_CMD)) \<or> opcode = test_opcode)"

definition respond_not_supported ::
    "('f, 'u, 'w) att_env \<Rightarrow> u8 \<Rightarrow> ('f, 'u, 'w) bt_att \<Rightarrow> ('f, 'u, 'w) bt_att option" where
  "respond_not_supported E opcode a = do {
     (_, att) \<leftarrow> bt_att_send E BT_ATT_OP_ERROR_RSP (Ptr [opcode, 0, 0, 0x06]) 4 NULL NULL NULL (Ptr a);
     deref att }"

definition handle_signed ::
    "('f, 'u, 'w) att_env \<Rightarrow> buf \<Rightarrow> int \<Rightarrow> ('f, 'u, 'w) bt_att \<Rightarrow> (bool \<times> ('f, 'u, 'w) bt_att) option" where
  "handle_signed E pdu pdu_len a =
     (if pdu_len < 3 + 12 then Some (False, a)
      else (case at_remote_sign a of
          NULL \<Rightarrow> Some (False, a)
        | Ptr sign \<Rightarrow> do {
            cnt \<leftarrow> get_le32 pdu (nat (pdu_len - 12));
            f \<leftarrow> deref (sg_counter sign);
            let ((ok, _), w) = ev_counter E f cnt (sg_user_data sign) (at_client a);
            let a = a\<lparr>at_client := w\<rparr>;
            if \<not> ok then Some (False, a)
            else do {
              v \<leftarrow> bt_crypto_verify_att_sign (at_crypto a) (sg_key sign) pdu (word_of_int pdu_len);
              Some (v, a) } }))"

text \<open>
  The loop over the handlers: \<open>entry\<close> is the next one, \<open>pdu_len\<close> what is left of the length.  The
  result is \<open>None\<close> for the return after a signature that does not verify, which skips the end of
  the function, and otherwise whether a handler was found.
\<close>

partial_function (option) notify_loop ::
    "('f, 'u, 'w) att_env \<Rightarrow> nat \<Rightarrow> buf \<Rightarrow> int \<Rightarrow> bool \<Rightarrow> nat ptr \<Rightarrow> ('f, 'u, 'w) bt_att \<Rightarrow>
       (bool option \<times> ('f, 'u, 'w) bt_att) option" where
  "notify_loop E c pdu pdu_len found entry a =
     (case entry of
        NULL \<Rightarrow> Some (Some found, a)
      | Ptr n \<Rightarrow>
          if n \<notin> set (at_notify_list a) then None
          else do {
            h \<leftarrow> at_notify a n;
            opcode \<leftarrow> rd8 pdu 0;
            let next = next_in n (at_notify_list a);
            if \<not> opcode_match (ucast (nt_opcode h)) opcode then notify_loop E c pdu pdu_len found next a
            else do {
              (ok, len, a) \<leftarrow>
                (if opcode AND ATT_OP_SIGNED_MASK \<noteq> 0 \<and> at_crypto a \<noteq> NULL then do {
                   (v, a) \<leftarrow> handle_signed E pdu pdu_len a;
                   Some (v, pdu_len - 12, a) }
                 else Some (True, pdu_len, a));
              if \<not> ok then Some (None, a)
              else do {
                link \<leftarrow> bt_att_get_link_type (Ptr a);
                ch \<leftarrow> at_chan a c;
                if (link = BT_ATT_BREDR \<or> ch_type ch = BT_ATT_EATT) \<and> opcode = BT_ATT_OP_MTU_REQ
                then Some (Some found, a)
                else do {
                  a \<leftarrow> (case nt_callback h of
                          NULL \<Rightarrow> Some a
                        | Ptr f \<Rightarrow> ev_notify E f c opcode (drop 1 pdu) (word_of_int (len - 1)) (nt_user_data h) a);
                  if at_notify_list a = [] then Some (Some True, a)
                  else notify_loop E c pdu len True next a } } } })"

definition handle_notify ::
    "('f, 'u, 'w) att_env \<Rightarrow> nat \<Rightarrow> buf \<Rightarrow> ('f, 'u, 'w) bt_att \<Rightarrow> ('f, 'u, 'w) bt_att option" where
  "handle_notify E c pdu a = do {
     opcode \<leftarrow> rd8 pdu 0;
     let a = bt_att_ref a;
     (r, a) \<leftarrow> notify_loop E c pdu (int (length pdu)) False (first_entry (at_notify_list a)) a;
     (case r of
        None \<Rightarrow> Some a
      | Some found \<Rightarrow> do {
          a \<leftarrow> (if \<not> found \<and> get_op_type opcode \<noteq> ATT_OP_TYPE_CMD then respond_not_supported E opcode a
                 else Some a);
          bt_att_unref E a }) }"

text \<open>\<open>input\<close> is what \<open>read\<close> gives: \<open>None\<close> for an error, else a packet cut to the size of the buffer.\<close>

definition can_read_data ::
    "('f, 'u, 'w) att_env \<Rightarrow> nat \<Rightarrow> buf option \<Rightarrow> ('f, 'u, 'w) bt_att \<Rightarrow> (bool \<times> ('f, 'u, 'w) bt_att) option" where
  "can_read_data E c input a = do {
     ch \<leftarrow> at_chan a c;
     (case input of
        None \<Rightarrow> Some (False, a)
      | Some pk \<Rightarrow> do {
          let pk = take (unat (ch_mtu ch)) pk;
          buf \<leftarrow> wr (ch_buf ch) 0 pk;
          a \<leftarrow> chan_update c (\<lambda>ch. ch\<lparr>ch_buf := buf\<rparr>) a;
          if pk = [] then Some (True, a)
          else do {
            opcode \<leftarrow> rd8 pk 0;
            let a = bt_att_ref a;
            (case get_op_type opcode of
               ATT_OP_TYPE_RSP \<Rightarrow> do { a \<leftarrow> handle_rsp E c opcode (drop 1 pk) a; a \<leftarrow> bt_att_unref E a; Some (True, a) }
             | ATT_OP_TYPE_CONF \<Rightarrow> do { a \<leftarrow> handle_conf E c (drop 1 pk) a; a \<leftarrow> bt_att_unref E a; Some (True, a) }
             | ATT_OP_TYPE_REQ \<Rightarrow>
                 if ch_in_req ch then do { a \<leftarrow> io_shutdown c a; a \<leftarrow> bt_att_unref E a; Some (False, a) }
                 else do {
                   a \<leftarrow> chan_update c (\<lambda>ch. ch\<lparr>ch_in_req := True\<rparr>) a;
                   a \<leftarrow> handle_notify E c pk a;
                   a \<leftarrow> bt_att_unref E a;
                   Some (True, a) }
             | _ \<Rightarrow> do { a \<leftarrow> handle_notify E c pk a; a \<leftarrow> bt_att_unref E a; Some (True, a) }) } }) }"

section \<open>Disconnection\<close>

definition disconn_handler ::
    "('f, 'u, 'w) att_env \<Rightarrow> int \<Rightarrow> nat \<Rightarrow> ('f, 'u, 'w) bt_att \<Rightarrow> ('f, 'u, 'w) bt_att option" where
  "disconn_handler E err n a = do {
     h \<leftarrow> at_disconn a n;
     if dn_removed h then Some a
     else (case dn_callback h of NULL \<Rightarrow> Some a | Ptr f \<Rightarrow> ev_disconn E f err (dn_user_data h) a) }"

definition disc_pending ::
    "('f, 'u, 'w) att_env \<Rightarrow> nat \<Rightarrow> ('f, 'u, 'w) bt_att \<Rightarrow> ('f, 'u, 'w) bt_att option" where
  "disc_pending E c a = do {
     ch \<leftarrow> at_chan a c;
     a \<leftarrow> (case ch_pending_req ch of
             NULL \<Rightarrow> Some a
           | Ptr p \<Rightarrow> do { a \<leftarrow> disc_att_send_op E p a; chan_update c (\<lambda>ch. ch\<lparr>ch_pending_req := NULL\<rparr>) a });
     ch \<leftarrow> at_chan a c;
     (case ch_pending_ind ch of
        NULL \<Rightarrow> Some a
      | Ptr p \<Rightarrow> do { a \<leftarrow> disc_att_send_op E p a; chan_update c (\<lambda>ch. ch\<lparr>ch_pending_ind := NULL\<rparr>) a }) }"

definition disconnect_cb ::
    "('f, 'u, 'w) att_env \<Rightarrow> nat \<Rightarrow> ('f, 'u, 'w) bt_att \<Rightarrow> ('f, 'u, 'w) bt_att option" where
  "disconnect_cb E c a = do {
     ch \<leftarrow> at_chan a c;
     let err = (case ev_so_error E (ch_fd ch) of None \<Rightarrow> 0 | Some e \<Rightarrow> e);
     a \<leftarrow> disc_pending E c (a\<lparr>at_chans := remove1 c (at_chans a)\<rparr>);
     a \<leftarrow> bt_att_chan_free E c a;
     _ \<leftarrow> att_live a;
     if at_chans a \<noteq> [] then Some a
     else do {
       let a = (bt_att_ref a)\<lparr>at_in_disc := True\<rparr>;
       a \<leftarrow> each (disc_att_send_op E) (at_req_queue a) (a\<lparr>at_req_queue := []\<rparr>);
       a \<leftarrow> each (disc_att_send_op E) (at_ind_queue a) (a\<lparr>at_ind_queue := []\<rparr>);
       a \<leftarrow> each (disc_att_send_op E) (at_write_queue a) (a\<lparr>at_write_queue := []\<rparr>);
       let a = a\<lparr>at_in_disc := False\<rparr>;
       a \<leftarrow> foreach_entry at_disconn_list (disconn_handler E err) (first_entry (at_disconn_list a)) a;
       a \<leftarrow> unregister_all E a;
       bt_att_unref E a } }"

section \<open>Creation\<close>

definition io_get_mtu :: "('f, 'u, 'w) att_env \<Rightarrow> int \<Rightarrow> u16" where
  "io_get_mtu E fd =
     (case ev_omtu E fd of Some m \<Rightarrow> m | None \<Rightarrow> (case ev_sndmtu E fd of Some m \<Rightarrow> m | None \<Rightarrow> 0))"

text \<open>\<open>Inl\<close> is the error of \<open>getsockname\<close>, whose negation becomes a \<open>uint8_t\<close>.\<close>

definition io_get_type :: "('f, 'u, 'w) att_env \<Rightarrow> int \<Rightarrow> u8" where
  "io_get_type E fd =
     (if \<not> ev_l2cap E fd then BT_ATT_LOCAL
      else (case ev_src_type E fd of
          Inl errno \<Rightarrow> word_of_int (- errno)
        | Inr t \<Rightarrow> if t = 0 then BT_ATT_BREDR else BT_ATT_LE))"

definition bt_att_chan_new :: "('f, 'u, 'w) att_env \<Rightarrow> int \<Rightarrow> u8 \<Rightarrow> bt_att_chan ptr" where
  "bt_att_chan_new E fd type =
     (if fd < 0 then NULL
      else if \<not> ev_io E fd then NULL
      else
        let mtu = (if type = BT_ATT_LOCAL \<or> type = BT_ATT_LE then BT_ATT_DEFAULT_LE_MTU else io_get_mtu E fd) in
        if mtu < BT_ATT_DEFAULT_LE_MTU \<or> \<not> ev_mem E then NULL
        else Ptr \<lparr>ch_fd = fd, ch_type = type, ch_sec_level = (if type = BT_ATT_LOCAL then 1 else 0),
               ch_queue = [], ch_pending_req = NULL, ch_pending_ind = NULL, ch_writer_active = False,
               ch_in_req = False, ch_buf = map (ev_junk E) [0..<unat mtu], ch_mtu = mtu,
               ch_shutdown = False\<rparr>)"

definition bt_att_attach_chan ::
    "('f, 'u, 'w) att_env \<Rightarrow> bt_att_chan \<Rightarrow> ('f, 'u, 'w) bt_att \<Rightarrow> ('f, 'u, 'w) bt_att option" where
  "bt_att_attach_chan E ch a =
     (let c = at_brk a;
          a = a\<lparr>at_chan := (at_chan a)(c \<mapsto> ch), at_brk := Suc c, at_chans := c # at_chans a\<rparr>;
          a = (if at_mtu a < ch_mtu ch then a\<lparr>at_mtu := ch_mtu ch\<rparr> else a)
      in wakeup_chan_writer E c a)"

definition bt_att_attach_fd ::
    "('f, 'u, 'w) att_env \<Rightarrow> int \<Rightarrow> ('f, 'u, 'w) bt_att ptr \<Rightarrow> (int \<times> ('f, 'u, 'w) bt_att ptr) option" where
  "bt_att_attach_fd E fd = on_att (- 22) (\<lambda>a.
     if fd < 0 then Some (- 22, a)
     else (case bt_att_chan_new E fd BT_ATT_EATT of
         NULL \<Rightarrow> Some (- 22, a)
       | Ptr ch \<Rightarrow> do { a \<leftarrow> bt_att_attach_chan E ch a; Some (0, a) }))"

text \<open>\<open>crypto\<close> is what \<open>bt_crypto_new\<close> gives, \<open>w\<close> the state of the client.\<close>

definition bt_att_new ::
    "('f, 'u, 'w) att_env \<Rightarrow> int \<Rightarrow> bool \<Rightarrow> kalg ptr \<Rightarrow> 'w \<Rightarrow> ('f, 'u, 'w) bt_att ptr option" where
  "bt_att_new E fd ext_signed crypto w =
     (case bt_att_chan_new E fd (io_get_type E fd) of
        NULL \<Rightarrow> Some NULL
      | Ptr ch \<Rightarrow> do {
          a \<leftarrow> bt_att_attach_chan E ch
            \<lparr>at_ref_count = 0, at_close_on_unref = False, at_chans = [], at_enc_size = 0, at_mtu = ch_mtu ch,
             at_notify_list = [], at_disconn_list = [], at_exchange_list = [], at_next_send_id = 0,
             at_next_reg_id = 0, at_req_queue = [], at_ind_queue = [], at_write_queue = [],
             at_in_disc = False, at_timeout_callback = NULL, at_timeout_destroy = NULL,
             at_timeout_data = NULL, at_crypto = (if ext_signed then NULL else crypto),
             at_local_sign = NULL, at_remote_sign = NULL, at_chan = Map.empty, at_op = Map.empty,
             at_notify = Map.empty, at_disconn = Map.empty, at_exchange = Map.empty, at_brk = 0,
             at_timers = [], at_timer_brk = 0, at_freed = False, at_sent = [], at_client = w\<rparr>;
          Some (Ptr (bt_att_ref a)) })"

end
