(* ===== verification/TransportInv.thy ===== *)
theory TransportInv
  imports TransportRecv "HOL-Library.Multiset"
begin

text \<open>
  The invariant of the transport: every allocated operation has exactly one owner, a queue or the
  pending slot of a channel, of the kind the owner takes; the lists of channels and handlers hold
  exactly the allocated ones.  While a function works on them, operations and channels may be in its
  hands: \<open>H\<close> and \<open>cs\<close>.  A locale states what the functions of the client must keep.
\<close>

section \<open>Ownership\<close>

definition held_ptr :: "nat ptr \<Rightarrow> nat multiset" where
  "held_ptr p = (case p of NULL \<Rightarrow> {#} | Ptr x \<Rightarrow> {#x#})"

lemma held_ptr_simps [simp]: "held_ptr NULL = {#}" "held_ptr (Ptr x) = {#x#}"
  by (simp_all add: held_ptr_def)

definition chan_held :: "bt_att_chan \<Rightarrow> nat multiset" where
  "chan_held ch = mset (ch_queue ch) + held_ptr (ch_pending_req ch) + held_ptr (ch_pending_ind ch)"

primrec chans_held :: "(nat \<rightharpoonup> bt_att_chan) \<Rightarrow> nat list \<Rightarrow> nat multiset" where
  "chans_held m [] = {#}"
| "chans_held m (c # cs) = (case m c of None \<Rightarrow> {#} | Some ch \<Rightarrow> chan_held ch) + chans_held m cs"

definition held :: "nat list \<Rightarrow> ('f, 'u, 'w) bt_att \<Rightarrow> nat multiset" where
  "held cs a = chans_held (at_chan a) (cs @ at_chans a) +
     mset (at_req_queue a) + mset (at_ind_queue a) + mset (at_write_queue a)"

definition kind :: "(nat \<rightharpoonup> ('f, 'u) att_send_op) \<Rightarrow> nat \<Rightarrow> att_op_type option" where
  "kind m p = map_option op_type (m p)"

abbreviation answered :: "att_op_type \<Rightarrow> bool" where
  "answered t \<equiv> t = ATT_OP_TYPE_REQ \<or> t = ATT_OP_TYPE_IND"

definition quiet :: "(nat \<rightharpoonup> ('f, 'u) att_send_op) \<Rightarrow> nat \<Rightarrow> bool" where
  "quiet m p \<longleftrightarrow> (\<exists>t. kind m p = Some t \<and> \<not> answered t)"

definition op_ok :: "('f, 'u) att_send_op \<Rightarrow> bool" where
  "op_ok op \<longleftrightarrow> length (op_pdu op) = unat (op_len op) \<and> op_pdu op \<noteq> [] \<and> op_pdu op ! 0 = op_opcode op \<and>
     op_type op = get_op_type (op_opcode op)"

definition chan_ok :: "(nat \<rightharpoonup> ('f, 'u) att_send_op) \<Rightarrow> bt_att_chan \<Rightarrow> bool" where
  "chan_ok m ch \<longleftrightarrow> 23 \<le> ch_mtu ch \<and> length (ch_buf ch) = unat (ch_mtu ch) \<and>
     (\<forall>p. ch_pending_req ch = Ptr p \<longrightarrow> kind m p = Some ATT_OP_TYPE_REQ) \<and>
     (\<forall>p. ch_pending_ind ch = Ptr p \<longrightarrow> kind m p = Some ATT_OP_TYPE_IND) \<and>
     (\<forall>p\<in>set (ch_queue ch). quiet m p)"

definition ops_ok :: "('f, 'u, 'w) bt_att \<Rightarrow> bool" where
  "ops_ok a \<longleftrightarrow> (\<forall>p op. at_op a p = Some op \<longrightarrow> p < at_brk a \<and> op_ok op)"

definition queues_ok :: "('f, 'u, 'w) bt_att \<Rightarrow> bool" where
  "queues_ok a \<longleftrightarrow>
     (\<forall>p\<in>set (at_req_queue a). kind (at_op a) p = Some ATT_OP_TYPE_REQ) \<and>
     (\<forall>p\<in>set (at_ind_queue a). kind (at_op a) p = Some ATT_OP_TYPE_IND) \<and>
     (\<forall>p\<in>set (at_write_queue a). quiet (at_op a) p)"

definition chans_ok :: "nat list \<Rightarrow> ('f, 'u, 'w) bt_att \<Rightarrow> bool" where
  "chans_ok cs a \<longleftrightarrow> distinct (cs @ at_chans a) \<and> set (cs @ at_chans a) = dom (at_chan a) \<and>
     (\<forall>c ch. at_chan a c = Some ch \<longrightarrow> c < at_brk a \<and> chan_ok (at_op a) ch)"

text \<open>Handlers in the hands of a function that removes them: \<open>ns\<close>, \<open>ds\<close> and \<open>xs\<close>.\<close>

definition list_of :: "nat list \<Rightarrow> nat list \<Rightarrow> (nat \<rightharpoonup> 'h) \<Rightarrow> nat \<Rightarrow> bool" where
  "list_of hs l m brk \<longleftrightarrow> distinct (hs @ l) \<and> set (hs @ l) = dom m \<and> (\<forall>n\<in>dom m. n < brk)"

definition handlers_ok ::
    "nat list \<times> nat list \<times> nat list \<Rightarrow> ('f, 'u, 'w) bt_att \<Rightarrow> bool" where
  "handlers_ok hs a \<longleftrightarrow> (case hs of (ns, ds, xs) \<Rightarrow>
     list_of ns (at_notify_list a) (at_notify a) (at_brk a) \<and>
     list_of ds (at_disconn_list a) (at_disconn a) (at_brk a) \<and>
     list_of xs (at_exchange_list a) (at_exchange a) (at_brk a))"

text \<open>The keys and the cipher of signed writes.\<close>

definition sign_ok :: "('f, 'u) sign_info ptr \<Rightarrow> bool" where
  "sign_ok s \<longleftrightarrow> (\<forall>i. s = Ptr i \<longrightarrow> length (sg_key i) = 16 \<and> sg_counter i \<noteq> NULL)"

definition crypto_ok :: "kalg ptr \<Rightarrow> bool" where
  "crypto_ok k \<longleftrightarrow> (\<forall>c. k = Ptr c \<longrightarrow> (\<forall>key m out. cmac_aes c key m = Some out \<longrightarrow> length out = 16))"

definition wf_att ::
    "nat list \<times> nat list \<times> nat list \<Rightarrow> nat list \<Rightarrow> nat multiset \<Rightarrow> ('f, 'u, 'w) bt_att \<Rightarrow> bool" where
  "wf_att hs cs H a \<longleftrightarrow> H + held cs a = mset_set (dom (at_op a)) \<and> ops_ok a \<and> queues_ok a \<and> chans_ok cs a \<and>
     handlers_ok hs a \<and> sign_ok (at_local_sign a) \<and> sign_ok (at_remote_sign a) \<and> crypto_ok (at_crypto a) \<and>
     \<not> at_freed a"

named_theorems att_parts \<open>the parts of the invariant\<close>
lemmas [att_parts] = wf_att_def held_def ops_ok_def queues_ok_def chans_ok_def handlers_ok_def

text \<open>The fields the invariant does not look at.\<close>

lemma wf_att_frame [simp]:
  "wf_att hs cs H (a\<lparr>at_ref_count := r\<rparr>) = wf_att hs cs H a"
  "wf_att hs cs H (a\<lparr>at_close_on_unref := b\<rparr>) = wf_att hs cs H a"
  "wf_att hs cs H (a\<lparr>at_enc_size := e\<rparr>) = wf_att hs cs H a"
  "wf_att hs cs H (a\<lparr>at_mtu := m\<rparr>) = wf_att hs cs H a"
  "wf_att hs cs H (a\<lparr>at_next_send_id := i\<rparr>) = wf_att hs cs H a"
  "wf_att hs cs H (a\<lparr>at_next_reg_id := i\<rparr>) = wf_att hs cs H a"
  "wf_att hs cs H (a\<lparr>at_in_disc := b\<rparr>) = wf_att hs cs H a"
  "wf_att hs cs H (a\<lparr>at_timeout_callback := f\<rparr>) = wf_att hs cs H a"
  "wf_att hs cs H (a\<lparr>at_timeout_destroy := f\<rparr>) = wf_att hs cs H a"
  "wf_att hs cs H (a\<lparr>at_timeout_data := u\<rparr>) = wf_att hs cs H a"
  "wf_att hs cs H (a\<lparr>at_timers := ts\<rparr>) = wf_att hs cs H a"
  "wf_att hs cs H (a\<lparr>at_timer_brk := n\<rparr>) = wf_att hs cs H a"
  "wf_att hs cs H (a\<lparr>at_sent := s\<rparr>) = wf_att hs cs H a"
  "wf_att hs cs H (a\<lparr>at_client := w\<rparr>) = wf_att hs cs H a"
  by (simp_all add: att_parts)

lemma wf_live: "wf_att hs cs H a \<Longrightarrow> att_live a = Some ()"
  by (simp add: wf_att_def att_live_def)

lemma wf_owned: "wf_att hs cs H a \<Longrightarrow> H + held cs a = mset_set (dom (at_op a))"
  by (simp only: wf_att_def)

lemma wf_parts:
  "wf_att hs cs H a \<Longrightarrow> ops_ok a \<and> queues_ok a \<and> chans_ok cs a \<and> handlers_ok hs a \<and>
     sign_ok (at_local_sign a) \<and> sign_ok (at_remote_sign a) \<and> crypto_ok (at_crypto a) \<and> \<not> at_freed a"
  by (unfold wf_att_def) blast

lemma wf_attI:
  assumes "wf_att hs cs H a" "H' + held cs' a' = mset_set (dom (at_op a'))" "ops_ok a'" "queues_ok a'" "chans_ok cs' a'"
    "handlers_ok hs' a'" "at_local_sign a' = at_local_sign a" "at_remote_sign a' = at_remote_sign a"
    "at_crypto a' = at_crypto a" "at_freed a' = at_freed a"
  shows "wf_att hs' cs' H' a'"
  using wf_parts [OF assms(1)] assms(2-) unfolding wf_att_def by simp

lemma wf_finite: "wf_att hs cs H a \<Longrightarrow> finite (dom (at_op a))"
proof -
  assume "wf_att hs cs H a"
  then have "dom (at_op a) \<subseteq> {..<at_brk a}" by (auto simp: att_parts)
  then show ?thesis by (rule finite_subset) simp
qed

lemma wf_mem: "wf_att hs cs H a \<Longrightarrow> p \<in># H + held cs a \<Longrightarrow> p \<in> dom (at_op a)"
proof -
  assume w: "wf_att hs cs H a" and "p \<in># H + held cs a"
  then have "p \<in># mset_set (dom (at_op a))" by (metis wf_owned)
  then show ?thesis using wf_finite [OF w] by simp
qed

text \<open>An operation in hand is in no queue and no pending slot.\<close>

lemma wf_once: "wf_att hs cs (add_mset p H) a \<Longrightarrow> p \<notin># H + held cs a"
proof -
  assume w: "wf_att hs cs (add_mset p H) a"
  then have "count (add_mset p (H + held cs a)) p = count (mset_set (dom (at_op a))) p"
    by (simp add: wf_att_def)
  also have "\<dots> \<le> 1" using wf_finite [OF w] by (simp add: count_mset_set')
  finally show ?thesis by (simp add: not_in_iff)
qed

section \<open>Channels\<close>

lemma chans_held_cong: "(\<And>c. c \<in> set cs \<Longrightarrow> m c = m' c) \<Longrightarrow> chans_held m cs = chans_held m' cs"
  by (induction cs) simp_all

lemma chans_held_split:
  assumes "distinct cs" "c \<in> set cs" "m c = Some ch"
  shows "chans_held (m(c \<mapsto> ch')) cs + chan_held ch = chans_held m cs + chan_held ch'"
  using assms
proof (induction cs)
  case (Cons d cs)
  show ?case
  proof (cases "d = c")
    case True
    have "chans_held (m(c \<mapsto> ch')) cs = chans_held m cs" using Cons.prems(1) True by (intro chans_held_cong) auto
    then show ?thesis using True Cons.prems(3) by (simp add: ac_simps del: fun_upd_apply) (simp add: ac_simps)
  next
    case False
    then show ?thesis using Cons.IH Cons.prems by (simp add: union_assoc)
  qed
qed simp

lemma chans_held_in: "c \<in> set cs \<Longrightarrow> m c = Some ch \<Longrightarrow> p \<in># chan_held ch \<Longrightarrow> p \<in># chans_held m cs"
  by (induction cs) auto

lemma chans_held_append [simp]: "chans_held m (cs @ ds) = chans_held m cs + chans_held m ds"
  by (induction cs) simp_all

lemma chan_set [simp]: "p \<in># chan_held ch \<longleftrightarrow>
    p \<in> set (ch_queue ch) \<or> ch_pending_req ch = Ptr p \<or> ch_pending_ind ch = Ptr p"
  by (cases "ch_pending_req ch"; cases "ch_pending_ind ch") (auto simp: chan_held_def)

lemma wf_chan: "wf_att hs cs H a \<Longrightarrow> at_chan a c = Some ch \<Longrightarrow> chan_ok (at_op a) ch"
  using wf_parts by (fastforce simp: chans_ok_def)

lemma wf_chan_held: "wf_att hs cs H a \<Longrightarrow> at_chan a c = Some ch \<Longrightarrow> p \<in># chan_held ch \<Longrightarrow> p \<in># held cs a"
  using chans_held_in [of c "cs @ at_chans a" "at_chan a" ch p] by (auto simp: att_parts)

text \<open>Changing a channel, and moving operations between it and the hands.\<close>

lemma wf_chan_update:
  assumes "wf_att hs cs H a" "at_chan a c = Some ch" "H' + chan_held ch' = H + chan_held ch" "chan_ok (at_op a) ch'"
  shows "wf_att hs cs H' (a\<lparr>at_chan := (at_chan a)(c \<mapsto> ch')\<rparr>)"
proof -
  let ?cs = "cs @ at_chans a"
  have c: "distinct ?cs" "c \<in> set ?cs" using assms(1,2) by (auto simp: att_parts)
  have e: "chans_held ((at_chan a)(c \<mapsto> ch')) ?cs + chan_held ch = chans_held (at_chan a) ?cs + chan_held ch'"
    by (rule chans_held_split) (use c assms(2) in auto)
  let ?q = "mset (at_req_queue a) + mset (at_ind_queue a) + mset (at_write_queue a)"
  have "H' + chans_held ((at_chan a)(c \<mapsto> ch')) ?cs + chan_held ch = H' + chan_held ch' + chans_held (at_chan a) ?cs"
    using e by (simp add: ac_simps)
  also have "\<dots> = H + chans_held (at_chan a) ?cs + chan_held ch" using assms(3) by (simp add: ac_simps)
  finally have "H' + chans_held ((at_chan a)(c \<mapsto> ch')) ?cs = H + chans_held (at_chan a) ?cs" by simp
  then have "H' + held cs (a\<lparr>at_chan := (at_chan a)(c \<mapsto> ch')\<rparr>) = H + held cs a"
    by (simp add: held_def ac_simps)
  then have "H' + held cs (a\<lparr>at_chan := (at_chan a)(c \<mapsto> ch')\<rparr>) = mset_set (dom (at_op a))"
    using wf_owned [OF assms(1)] by simp
  moreover have "chans_ok cs (a\<lparr>at_chan := (at_chan a)(c \<mapsto> ch')\<rparr>)"
    using wf_parts [OF assms(1)] assms(2,4) by (auto simp: chans_ok_def)
  ultimately show ?thesis using wf_parts [OF assms(1)]
    by (intro wf_attI [OF assms(1)]) (simp_all add: ops_ok_def queues_ok_def handlers_ok_def)
qed

section \<open>Operations\<close>

lemma kind_upd: "m p = Some op \<Longrightarrow> op_type op' = op_type op \<Longrightarrow> kind (m(p \<mapsto> op')) = kind m"
  by (auto simp: kind_def)

lemma chan_ok_kind: "kind m' = kind m \<Longrightarrow> chan_ok m' ch = chan_ok m ch"
  by (simp add: chan_ok_def quiet_def)

lemma wf_op_update:
  assumes "wf_att hs cs H a" "at_op a p = Some op" "op_ok op'" "op_type op' = op_type op"
  shows "wf_att hs cs H (a\<lparr>at_op := (at_op a)(p \<mapsto> op')\<rparr>)"
proof -
  note k = kind_upd [of "at_op a" p op op', OF assms(2,4)]
  have "dom ((at_op a)(p \<mapsto> op')) = dom (at_op a)" using assms(2) by auto
  then have "H + held cs (a\<lparr>at_op := (at_op a)(p \<mapsto> op')\<rparr>) = mset_set (dom (at_op (a\<lparr>at_op := (at_op a)(p \<mapsto> op')\<rparr>)))"
    using wf_owned [OF assms(1)] by (simp add: held_def)
  moreover have "ops_ok (a\<lparr>at_op := (at_op a)(p \<mapsto> op')\<rparr>)"
    using wf_parts [OF assms(1)] assms(2,3) unfolding ops_ok_def by simp
  moreover have "chans_ok cs (a\<lparr>at_op := (at_op a)(p \<mapsto> op')\<rparr>)" "queues_ok (a\<lparr>at_op := (at_op a)(p \<mapsto> op')\<rparr>)"
    using wf_parts [OF assms(1)] unfolding chans_ok_def queues_ok_def quiet_def
    by (simp_all add: k chan_ok_kind [OF k] del: fun_upd_apply)
  ultimately show ?thesis using wf_parts [OF assms(1)]
    by (intro wf_attI [OF assms(1)]) (simp_all add: handlers_ok_def del: fun_upd_apply)
qed

lemma chan_ok_mono: "chan_ok m ch \<Longrightarrow> (\<And>p. p \<in># chan_held ch \<Longrightarrow> m' p = m p) \<Longrightarrow> chan_ok m' ch"
  by (auto simp: chan_ok_def quiet_def kind_def)

lemma wf_op_new:
  assumes "wf_att hs cs H a" "op_ok op"
  shows "wf_att hs cs (add_mset (at_brk a) H) (a\<lparr>at_op := (at_op a)(at_brk a \<mapsto> op), at_brk := Suc (at_brk a)\<rparr>)"
proof -
  let ?p = "at_brk a" and ?m = "(at_op a)(at_brk a \<mapsto> op)"
  have f: "?p \<notin> dom (at_op a)" using assms(1) by (auto simp: att_parts)
  then have ne: "q \<noteq> ?p" if "q \<in># H + held cs a" for q using wf_mem [OF assms(1) that] by auto
  have m: "?m q = at_op a q" if "q \<in># held cs a" for q using ne [of q] that by simp
  have chans: "chan_ok ?m ch" if "at_chan a c = Some ch" for c ch
    using chan_ok_mono [OF wf_chan [OF assms(1) that]] wf_chan_held [OF assms(1) that] m by blast
  have kinds: "kind ?m q = kind (at_op a) q" if "q \<in># held cs a" for q using m [OF that] by (simp add: kind_def)
  have "mset_set (dom ?m) = add_mset ?p (mset_set (dom (at_op a)))"
    using f wf_finite [OF assms(1)] by simp
  moreover have "held cs (a\<lparr>at_op := ?m, at_brk := Suc ?p\<rparr>) = held cs a" by (simp add: held_def)
  ultimately have "add_mset ?p H + held cs (a\<lparr>at_op := ?m, at_brk := Suc ?p\<rparr>) =
      mset_set (dom (at_op (a\<lparr>at_op := ?m, at_brk := Suc ?p\<rparr>)))"
    using wf_owned [OF assms(1)] by simp
  moreover have "queues_ok (a\<lparr>at_op := ?m, at_brk := Suc ?p\<rparr>)"
    using wf_parts [OF assms(1)] kinds by (simp add: queues_ok_def quiet_def held_def)
  moreover have "ops_ok (a\<lparr>at_op := ?m, at_brk := Suc ?p\<rparr>)" "handlers_ok hs (a\<lparr>at_op := ?m, at_brk := Suc ?p\<rparr>)"
    using wf_parts [OF assms(1)] assms(2) by (auto simp: ops_ok_def handlers_ok_def list_of_def less_Suc_eq)
  moreover have "chans_ok cs (a\<lparr>at_op := ?m, at_brk := Suc ?p\<rparr>)"
    using wf_parts [OF assms(1)] chans by (auto simp: chans_ok_def less_Suc_eq)
  ultimately show ?thesis by (intro wf_attI [OF assms(1)]) simp_all
qed

lemma wf_op_free:
  assumes "wf_att hs cs (add_mset p H) a"
  shows "wf_att hs cs H (a\<lparr>at_op := (at_op a)(p := None)\<rparr>)"
proof -
  have p: "p \<in> dom (at_op a)" using wf_mem [OF assms] by simp
  have m: "((at_op a)(p := None)) q = at_op a q" if "q \<in># held cs a" for q using wf_once [OF assms] that by auto
  let ?a = "a\<lparr>at_op := (at_op a)(p := None)\<rparr>"
  have chans: "chan_ok ((at_op a)(p := None)) ch" if "at_chan a c = Some ch" for c ch
    using chan_ok_mono [OF wf_chan [OF assms that]] wf_chan_held [OF assms that] m by blast
  have kinds: "kind ((at_op a)(p := None)) q = kind (at_op a) q" if "q \<in># held cs a" for q
    using m [OF that] by (simp add: kind_def)
  have "H + held cs ?a = mset_set (dom (at_op a)) - {#p#}"
    unfolding wf_owned [OF assms, symmetric] by (simp add: held_def)
  also have "\<dots> = mset_set (dom (at_op ?a))" using p wf_finite [OF assms] by (simp add: mset_set_Diff)
  moreover have "queues_ok ?a" using wf_parts [OF assms] kinds by (simp add: queues_ok_def quiet_def held_def)
  moreover have "ops_ok ?a" "chans_ok cs ?a" "handlers_ok hs ?a"
    using wf_parts [OF assms] chans by (auto simp: ops_ok_def chans_ok_def handlers_ok_def)
  ultimately show ?thesis by (intro wf_attI [OF assms]) simp_all
qed

end
