(* ===== verification/TransportKeep.thy ===== *)
theory TransportKeep
  imports TransportInv CryptoSpec
begin

text \<open>
  The interface of the transport keeps the invariant, for clients whose destroy functions only act
  on the client's own state.
\<close>

section \<open>What calls leave alone\<close>

definition slot :: "('f, 'u, 'w) bt_att \<Rightarrow> nat \<Rightarrow> (nat ptr \<times> nat ptr \<times> int) option" where
  "slot a c = map_option (\<lambda>ch. (ch_pending_req ch, ch_pending_ind ch, ch_fd ch)) (at_chan a c)"

definition stays :: "('f, 'u, 'w) bt_att \<Rightarrow> ('f, 'u, 'w) bt_att \<Rightarrow> bool" where
  "stays a a' \<longleftrightarrow> at_chans a' = at_chans a \<and> slot a' = slot a \<and> at_ref_count a' = at_ref_count a \<and>
     at_sent a' = at_sent a \<and> at_in_disc a' = at_in_disc a"

definition keeps :: "('f, 'u, 'w) bt_att \<Rightarrow> ('f, 'u, 'w) bt_att \<Rightarrow> bool" where
  "keeps a a' \<longleftrightarrow> at_chans a' = at_chans a \<and> slot a' = slot a \<and> at_ref_count a' = at_ref_count a \<and>
     at_sent a' = at_sent a \<and> at_in_disc a' = at_in_disc a \<and> at_notify_list a' = at_notify_list a \<and>
     at_disconn_list a' = at_disconn_list a \<and> at_exchange_list a' = at_exchange_list a"

lemma keeps_stays: "keeps a a' \<Longrightarrow> stays a a'"
  by (simp add: keeps_def stays_def)

lemma stays_refl [simp]: "stays a a"
  by (simp add: stays_def)

lemma stays_trans [trans]: "stays a b \<Longrightarrow> stays b c \<Longrightarrow> stays a c"
  by (simp add: stays_def)

lemma keeps_refl [simp]: "keeps a a"
  by (simp add: keeps_def)

lemma keeps_trans [trans]: "keeps a b \<Longrightarrow> keeps b c \<Longrightarrow> keeps a c"
  by (simp add: keeps_def)

text \<open>Updates of other fields keep these.\<close>

lemma slot_frame [simp]:
  "slot (a\<lparr>at_ref_count := r\<rparr>) = slot a"
  "slot (a\<lparr>at_chans := l\<rparr>) = slot a"
  "slot (a\<lparr>at_mtu := m\<rparr>) = slot a"
  "slot (a\<lparr>at_notify_list := l\<rparr>) = slot a"
  "slot (a\<lparr>at_disconn_list := l\<rparr>) = slot a"
  "slot (a\<lparr>at_exchange_list := l\<rparr>) = slot a"
  "slot (a\<lparr>at_next_send_id := i\<rparr>) = slot a"
  "slot (a\<lparr>at_next_reg_id := i\<rparr>) = slot a"
  "slot (a\<lparr>at_req_queue := l\<rparr>) = slot a"
  "slot (a\<lparr>at_ind_queue := l\<rparr>) = slot a"
  "slot (a\<lparr>at_write_queue := l\<rparr>) = slot a"
  "slot (a\<lparr>at_in_disc := b\<rparr>) = slot a"
  "slot (a\<lparr>at_op := x\<rparr>) = slot a"
  "slot (a\<lparr>at_notify := n\<rparr>) = slot a"
  "slot (a\<lparr>at_disconn := d\<rparr>) = slot a"
  "slot (a\<lparr>at_exchange := d\<rparr>) = slot a"
  "slot (a\<lparr>at_brk := k\<rparr>) = slot a"
  "slot (a\<lparr>at_timers := ts\<rparr>) = slot a"
  "slot (a\<lparr>at_timer_brk := k\<rparr>) = slot a"
  "slot (a\<lparr>at_sent := q\<rparr>) = slot a"
  "slot (a\<lparr>at_client := w\<rparr>) = slot a"
  by (simp_all add: slot_def fun_eq_iff)

lemma keeps_chan: "keeps a a' \<Longrightarrow> at_chan a c = Some ch \<Longrightarrow>
    \<exists>ch'. at_chan a' c = Some ch' \<and> ch_pending_req ch' = ch_pending_req ch \<and>
      ch_pending_ind ch' = ch_pending_ind ch \<and> ch_fd ch' = ch_fd ch"
proof -
  assume "keeps a a'" "at_chan a c = Some ch"
  then have "slot a' c = Some (ch_pending_req ch, ch_pending_ind ch, ch_fd ch)"
    unfolding keeps_def by (simp add: slot_def)
  then show ?thesis by (auto simp: slot_def)
qed

lemma slot_chan_update:
  assumes "at_chan a c = Some ch" "ch_pending_req ch' = ch_pending_req ch" "ch_pending_ind ch' = ch_pending_ind ch"
    "ch_fd ch' = ch_fd ch"
  shows "slot (a\<lparr>at_chan := (at_chan a)(c \<mapsto> ch')\<rparr>) = slot a"
  using assms by (auto simp: slot_def)

section \<open>Queues\<close>

lemma wf_req_queue:
  assumes "wf_att hs cs H a" "H' + mset q = H + mset (at_req_queue a)" "\<forall>p\<in>set q. kind (at_op a) p = Some ATT_OP_TYPE_REQ"
  shows "wf_att hs cs H' (a\<lparr>at_req_queue := q\<rparr>)"
proof -
  have "H' + held cs (a\<lparr>at_req_queue := q\<rparr>) = (H' + mset q) + (chans_held (at_chan a) (cs @ at_chans a) + mset (at_ind_queue a) +
      mset (at_write_queue a))" by (simp add: held_def ac_simps)
  also have "\<dots> = H + held cs a" unfolding assms(2) by (simp add: held_def ac_simps)
  finally show ?thesis using wf_owned [OF assms(1)] wf_parts [OF assms(1)] assms(3)
    by (intro wf_attI [OF assms(1)]) (simp_all add: ops_ok_def queues_ok_def chans_ok_def handlers_ok_def)
qed

lemma wf_ind_queue:
  assumes "wf_att hs cs H a" "H' + mset q = H + mset (at_ind_queue a)" "\<forall>p\<in>set q. kind (at_op a) p = Some ATT_OP_TYPE_IND"
  shows "wf_att hs cs H' (a\<lparr>at_ind_queue := q\<rparr>)"
proof -
  have "H' + held cs (a\<lparr>at_ind_queue := q\<rparr>) = (H' + mset q) + (chans_held (at_chan a) (cs @ at_chans a) + mset (at_req_queue a) +
      mset (at_write_queue a))" by (simp add: held_def ac_simps)
  also have "\<dots> = H + held cs a" unfolding assms(2) by (simp add: held_def ac_simps)
  finally show ?thesis using wf_owned [OF assms(1)] wf_parts [OF assms(1)] assms(3)
    by (intro wf_attI [OF assms(1)]) (simp_all add: ops_ok_def queues_ok_def chans_ok_def handlers_ok_def)
qed

lemma wf_write_queue:
  assumes "wf_att hs cs H a" "H' + mset q = H + mset (at_write_queue a)" "\<forall>p\<in>set q. quiet (at_op a) p"
  shows "wf_att hs cs H' (a\<lparr>at_write_queue := q\<rparr>)"
proof -
  have "H' + held cs (a\<lparr>at_write_queue := q\<rparr>) = (H' + mset q) + (chans_held (at_chan a) (cs @ at_chans a) + mset (at_req_queue a) +
      mset (at_ind_queue a))" by (simp add: held_def ac_simps)
  also have "\<dots> = H + held cs a" unfolding assms(2) by (simp add: held_def ac_simps)
  finally show ?thesis using wf_owned [OF assms(1)] wf_parts [OF assms(1)] assms(3)
    by (intro wf_attI [OF assms(1)]) (simp_all add: ops_ok_def queues_ok_def chans_ok_def handlers_ok_def)
qed

lemma wf_kinds:
  assumes "wf_att hs cs H a"
  shows "p \<in> set (at_req_queue a) \<Longrightarrow> kind (at_op a) p = Some ATT_OP_TYPE_REQ"
    "p \<in> set (at_ind_queue a) \<Longrightarrow> kind (at_op a) p = Some ATT_OP_TYPE_IND"
    "p \<in> set (at_write_queue a) \<Longrightarrow> quiet (at_op a) p"
  using wf_parts [OF assms] by (auto simp: queues_ok_def)

lemma kind_SomeD: "kind m p = Some t \<Longrightarrow> \<exists>op. m p = Some op \<and> op_type op = t"
  by (auto simp: kind_def)

lemma wf_op: "wf_att hs cs H a \<Longrightarrow> at_op a p = Some op \<Longrightarrow> op_ok op"
  using wf_parts [of hs cs H a] unfolding ops_ok_def by blast

section \<open>Waking the writers\<close>

text \<open>Nothing but the flags of channels changes.\<close>

definition same_chans :: "(nat \<rightharpoonup> bt_att_chan) \<Rightarrow> (nat \<rightharpoonup> bt_att_chan) \<Rightarrow> bool" where
  "same_chans m m' \<longleftrightarrow>
     (\<forall>c. map_option (\<lambda>ch. ch\<lparr>ch_writer_active := False\<rparr>) (m' c) = map_option (\<lambda>ch. ch\<lparr>ch_writer_active := False\<rparr>) (m c))"

lemma wakeup_chan_Some:
  assumes "at_chan a c = Some ch"
  shows "\<exists>m. wakeup_chan_writer E c a = Some (a\<lparr>at_chan := m\<rparr>) \<and> same_chans (at_chan a) m"
proof -
  have id: "\<exists>m. a = a\<lparr>at_chan := m\<rparr> \<and> same_chans (at_chan a) m"
    by (rule exI [of _ "at_chan a"]) (simp add: same_chans_def)
  have "same_chans (at_chan a) ((at_chan a)(c \<mapsto> ch\<lparr>ch_writer_active := True\<rparr>))"
    using assms by (simp add: same_chans_def)
  then have "\<exists>m. Some (a\<lparr>at_chan := (at_chan a)(c \<mapsto> ch\<lparr>ch_writer_active := True\<rparr>)\<rparr>) = Some (a\<lparr>at_chan := m\<rparr>) \<and> same_chans (at_chan a) m"
    by blast
  moreover have "\<exists>m. Some a = Some (a\<lparr>at_chan := m\<rparr>) \<and> same_chans (at_chan a) m" using id by metis
  ultimately show ?thesis unfolding wakeup_chan_writer_def chan_update_def assms by (simp del: fun_upd_apply)
qed

lemma same_chans_trans: "same_chans m m' \<Longrightarrow> same_chans m' m'' \<Longrightarrow> same_chans m m''"
  by (simp add: same_chans_def)

lemma same_chans_dom: "same_chans m m' \<Longrightarrow> dom m' = dom m"
  unfolding same_chans_def dom_def by (metis option.map_disc_iff)

lemma wakeup_each_Some:
  assumes "set cs \<subseteq> dom (at_chan a)"
  shows "\<exists>m. each (wakeup_chan_writer E) cs a = Some (a\<lparr>at_chan := m\<rparr>) \<and> same_chans (at_chan a) m"
  using assms
proof (induction cs arbitrary: a)
  case Nil
  show ?case by (rule exI [of _ "at_chan a"]) (simp add: same_chans_def)
next
  case (Cons c cs)
  then obtain ch where "at_chan a c = Some ch" by auto
  from wakeup_chan_Some [OF this, of E] obtain m where
    m: "wakeup_chan_writer E c a = Some (a\<lparr>at_chan := m\<rparr>)" "same_chans (at_chan a) m" by blast
  from same_chans_dom [OF m(2)] Cons.prems have "set cs \<subseteq> dom (at_chan (a\<lparr>at_chan := m\<rparr>))" by simp
  from Cons.IH [OF this] obtain m' where
    "each (wakeup_chan_writer E) cs (a\<lparr>at_chan := m\<rparr>) = Some (a\<lparr>at_chan := m'\<rparr>)" "same_chans m m'" by auto
  moreover from this(2) m(2) have "same_chans (at_chan a) m'" by (rule same_chans_trans [rotated])
  ultimately show ?case using m(1) by simp blast
qed

lemma same_chansD:
  assumes "same_chans m m'" "m c = Some ch"
  shows "\<exists>b. m' c = Some (ch\<lparr>ch_writer_active := b\<rparr>)"
proof -
  obtain ch' where c: "m' c = Some ch'" using same_chans_dom [OF assms(1)] assms(2) by blast
  then have "ch'\<lparr>ch_writer_active := False\<rparr> = ch\<lparr>ch_writer_active := False\<rparr>"
    using assms unfolding same_chans_def by (metis option.inject option.map(2))
  then have "ch' = ch\<lparr>ch_writer_active := ch_writer_active ch'\<rparr>" by (cases ch; cases ch') simp
  with c show ?thesis by metis
qed

lemma same_chans_sym: "same_chans m m' \<Longrightarrow> same_chans m' m"
  by (simp add: same_chans_def)

lemma same_chans_held: "same_chans m m' \<Longrightarrow> chans_held m' cs = chans_held m cs"
proof (induction cs)
  case (Cons c cs)
  show ?case
  proof (cases "m c")
    case None
    then have "m' c = None" using same_chans_dom [OF Cons.prems] by blast
    with None Cons show ?thesis by simp
  next
    case (Some ch)
    with same_chansD [OF Cons.prems] obtain b where "m' c = Some (ch\<lparr>ch_writer_active := b\<rparr>)" by blast
    with Some Cons show ?thesis by (simp add: chan_held_def)
  qed
qed simp

lemma wf_same_chans:
  assumes "wf_att hs cs H a" "same_chans (at_chan a) m"
  shows "wf_att hs cs H (a\<lparr>at_chan := m\<rparr>)"
proof -
  have "c < at_brk a \<and> chan_ok (at_op a) ch" if mc: "m c = Some ch" for c ch
  proof -
    obtain b where "at_chan a c = Some (ch\<lparr>ch_writer_active := b\<rparr>)"
      using same_chansD [OF same_chans_sym [OF assms(2)] mc] by blast
    then have "c < at_brk a" "chan_ok (at_op a) (ch\<lparr>ch_writer_active := b\<rparr>)"
      using wf_parts [OF assms(1)] unfolding chans_ok_def by blast+
    then show ?thesis by (simp add: chan_ok_def)
  qed
  then have "chans_ok cs (a\<lparr>at_chan := m\<rparr>)"
    using wf_parts [OF assms(1)] same_chans_dom [OF assms(2)] unfolding chans_ok_def by simp
  then show ?thesis using wf_owned [OF assms(1)] wf_parts [OF assms(1)]
    by (intro wf_attI [OF assms(1)]) (simp_all add: held_def same_chans_held [OF assms(2)] ops_ok_def queues_ok_def handlers_ok_def)
qed

lemma slot_same_chans: "same_chans (at_chan a) m \<Longrightarrow> slot (a\<lparr>at_chan := m\<rparr>) = slot a"
proof
  fix c assume s: "same_chans (at_chan a) m"
  show "slot (a\<lparr>at_chan := m\<rparr>) c = slot a c"
  proof (cases "at_chan a c")
    case None
    then have "m c = None" using same_chans_dom [OF s] by blast
    with None show ?thesis by (simp add: slot_def)
  next
    case (Some ch)
    from same_chansD [OF s this] Some show ?thesis by (auto simp: slot_def)
  qed
qed

lemma wakeup_writer_ok:
  assumes "wf_att hs cs H a"
  shows "\<exists>m. wakeup_writer E a = Some (a\<lparr>at_chan := m\<rparr>) \<and> same_chans (at_chan a) m \<and>
    wf_att hs cs H (a\<lparr>at_chan := m\<rparr>) \<and> keeps a (a\<lparr>at_chan := m\<rparr>)"
proof -
  have "set (at_chans a) \<subseteq> dom (at_chan a)" using wf_parts [OF assms] by (auto simp: chans_ok_def)
  from wakeup_each_Some [OF this, of E] obtain m where
    m: "wakeup_writer E a = Some (a\<lparr>at_chan := m\<rparr>)" "same_chans (at_chan a) m" by (auto simp: wakeup_writer_def)
  moreover have "keeps a (a\<lparr>at_chan := m\<rparr>)" by (simp add: keeps_def slot_same_chans [OF m(2)])
  ultimately show ?thesis using wf_same_chans [OF assms m(2)] by blast
qed

lemma wakeup_chan_ok:
  assumes "wf_att hs cs H a" "at_chan a c = Some ch"
  shows "\<exists>m. wakeup_chan_writer E c a = Some (a\<lparr>at_chan := m\<rparr>) \<and> same_chans (at_chan a) m \<and>
    wf_att hs cs H (a\<lparr>at_chan := m\<rparr>) \<and> keeps a (a\<lparr>at_chan := m\<rparr>)"
proof -
  obtain m where m: "wakeup_chan_writer E c a = Some (a\<lparr>at_chan := m\<rparr>)" "same_chans (at_chan a) m"
    using wakeup_chan_Some [OF assms(2), of E] by blast
  moreover have "keeps a (a\<lparr>at_chan := m\<rparr>)" by (simp add: keeps_def slot_same_chans [OF m(2)])
  ultimately show ?thesis using wf_same_chans [OF assms(1) m(2)] by blast
qed

section \<open>Encoding and creating operations\<close>

definition body_ok :: "buf ptr \<Rightarrow> u16 \<Rightarrow> bool" where
  "body_ok pdu len \<longleftrightarrow> unat len + 13 < 65536 \<and> (pdu = NULL \<longrightarrow> len = 0) \<and> (\<forall>p. pdu = Ptr p \<longrightarrow> unat len \<le> length p)"

definition body :: "buf ptr \<Rightarrow> u16 \<Rightarrow> buf" where
  "body pdu len = (case pdu of NULL \<Rightarrow> [] | Ptr p \<Rightarrow> take (unat len) p)"

lemma length_body: "body_ok pdu len \<Longrightarrow> length (body pdu len) = unat len"
  by (auto simp: body_ok_def body_def split: ptr.split)

lemma sign_att_Some:
  assumes "crypto_ok k" "length key = 16" "unat n \<le> length m" "unat n + 4 < 65536"
  shows "\<exists>r. bt_crypto_sign_att k key m n cnt = Some r \<and> (\<forall>s. r = Some s \<longrightarrow> length s = 12)"
proof (cases k)
  case (Ptr c)
  have n4: "unat (n + 4) = unat n + 4" using assms(4) by (simp add: unat_word_ariths)
  obtain s where s: "rd m 0 (unat n) = Some s" "length s = unat n" using assms(3) by (auto simp: rd_def)
  have "length s \<le> length (replicate (unat (n + 4)) (0 :: u8))" using s(2) n4 by simp
  then obtain m1 where m1: "wr (replicate (unat (n + 4)) 0) 0 s = Some m1" "length m1 = unat n + 4"
    using n4 by (auto simp: wr_def)
  obtain m2 where m2: "put_le32 cnt m1 (unat n) = Some m2" "length m2 = unat n + 4"
    using m1(2) by (auto simp: put_le32_def put_be32_def wr_def)
  obtain t where t: "swap_buf key 16 = Some t" using assms(2) by (auto simp: swap_buf_def rd_def)
  obtain ms where ms: "swap_buf m2 (unat (n + 4)) = Some ms" using m2(2) n4 by (auto simp: swap_buf_def rd_def)
  show ?thesis
  proof (cases "cmac_aes c t ms")
    case None
    then show ?thesis using Ptr s(1) m1(1) m2(1) t ms by (simp add: bt_crypto_sign_att_def Let_def)
  next
    case (Some out)
    then have o: "length out = 16" using assms(1) Ptr by (simp add: crypto_ok_def)
    obtain o1 where o1: "put_be32 cnt out 8 = Some o1" "length o1 = 16" using o by (auto simp: put_le32_def put_be32_def wr_def)
    then obtain o2 where o2: "swap_buf o1 16 = Some o2" "length o2 = 16" by (auto simp: swap_buf_def rd_def)
    then have "rd o2 4 12 = Some (take 12 (drop 4 o2))" by (simp add: rd_def)
    then show ?thesis using Ptr s(1) m1(1) m2(1) t ms Some o1(1) o2 by (simp add: bt_crypto_sign_att_def Let_def)
  qed
qed (simp add: bt_crypto_sign_att_def)

definition is_signed :: "('f, 'u, 'w) bt_att \<Rightarrow> u8 \<Rightarrow> bool" where
  "is_signed a opcode \<longleftrightarrow> at_local_sign a \<noteq> NULL \<and> opcode AND ATT_OP_SIGNED_MASK \<noteq> 0"

definition encoded_len :: "('f, 'u, 'w) bt_att \<Rightarrow> u8 \<Rightarrow> u16 \<Rightarrow> u16" where
  "encoded_len a opcode len = (if is_signed a opcode then 13 else 1) + len"

lemma unat_encoded_len:
  "unat len + 13 < 65536 \<Longrightarrow> unat (encoded_len a opcode len) = (if is_signed a opcode then 13 else 1) + unat len"
  by (simp add: encoded_len_def unat_word_ariths)

text \<open>The memory of the PDU once the opcode and the parameters are in it.\<close>

definition filled :: "('f, 'u, 'w) att_env \<Rightarrow> u8 \<Rightarrow> buf ptr \<Rightarrow> u16 \<Rightarrow> nat \<Rightarrow> buf" where
  "filled E opcode pdu len n = (opcode # body pdu len) @ map (ev_junk E) [Suc (unat len)..<n]"

lemma encoded_len_eq:
  "body_ok pdu len \<Longrightarrow> (if len \<noteq> 0 \<and> pdu \<noteq> NULL
      then (if at_local_sign a \<noteq> NULL \<and> opcode AND 128 \<noteq> 0 then 1 + 12 else 1) + len
      else (if at_local_sign a \<noteq> NULL \<and> opcode AND 128 \<noteq> 0 then 1 + 12 else 1)) = encoded_len a opcode len"
  by (auto simp: encoded_len_def is_signed_def body_ok_def)

lemma encode_pdu_step:
  assumes "body_ok pdu len" "ev_mem E" "encoded_len a (op_opcode op) len \<le> at_mtu a"
  defines "n \<equiv> encoded_len a (op_opcode op) len" and "b \<equiv> filled E (op_opcode op) pdu len (unat (encoded_len a (op_opcode op) len))"
  shows "encode_pdu E op pdu len a =
    (let op = op\<lparr>op_len := n, op_pdu := b\<rparr> in
     if \<not> is_signed a (op_opcode op) \<or> at_crypto a = NULL then Some (True, op, a)
     else do {
       sign \<leftarrow> deref (at_local_sign a);
       f \<leftarrow> deref (sg_counter sign);
       let ((ok, cnt), w) = ev_counter E f 0 (sg_user_data sign) (at_client a);
       let a = a\<lparr>at_client := w\<rparr>;
       if \<not> ok then Some (False, op, a)
       else do {
         sg \<leftarrow> bt_crypto_sign_att (at_crypto a) (sg_key sign) b (1 + len) cnt;
         (case sg of
            None \<Rightarrow> Some (False, op, a)
          | Some s \<Rightarrow> do {
              b \<leftarrow> wr b (unat (1 + len)) s;
              Some (True, op\<lparr>op_pdu := b\<rparr>, a) }) } })"
proof -
  let ?m = "map (ev_junk E) [0..<unat n]"
  have un: "unat n = (if is_signed a (op_opcode op) then 13 else 1) + unat len"
    using assms(1) unfolding n_def by (intro unat_encoded_len) (simp add: body_ok_def)
  note pl = encoded_len_eq [OF assms(1), of a "op_opcode op", folded n_def]
  obtain m where m: "?m = ev_junk E 0 # map (ev_junk E) [1..<unat n]"
    using un by (cases "unat n") (simp_all add: upt_conv_Cons split: if_splits)
  have w8: "wr8 ?m 0 (op_opcode op) = Some (op_opcode op # map (ev_junk E) [1..<unat n])"
    unfolding m by (simp add: wr8_def)
  have nl: "\<not> at_mtu a < n" using assms(3) by (simp add: n_def not_less)
  show ?thesis
  proof (cases "len = 0")
    case True
    then have "op_opcode op # map (ev_junk E) [1..<unat n] = b"
      by (simp add: b_def filled_def n_def body_def split: ptr.split)
    then show ?thesis
      using w8 assms(2) nl True unfolding encode_pdu_def Let_def unfolding pl unfolding is_signed_def [symmetric] by simp
  next
    case False
    then obtain p where p: "pdu = Ptr p" "unat len \<le> length p" using assms(1) by (cases pdu) (auto simp: body_ok_def)
    have "0 < unat len" using False by (simp add: unat_gt_0)
    then have "1 < n" using un unfolding word_less_nat_alt by auto
    moreover have "rd p 0 (unat len) = Some (take (unat len) p)" using p(2) by (simp add: rd_def)
    moreover have "wr (op_opcode op # map (ev_junk E) [Suc 0..<unat n]) (Suc 0) (take (unat len) p) = Some b"
      using p un by (simp add: wr_def b_def filled_def n_def body_def min_absorb2 drop_map)
    ultimately show ?thesis
      using w8 assms(2) nl False p(1) unfolding encode_pdu_def Let_def unfolding pl unfolding is_signed_def [symmetric] by simp
  qed
qed

lemma length_filled: "body_ok pdu len \<Longrightarrow> unat len < n \<Longrightarrow> length (filled E opcode pdu len n) = n"
  by (simp add: filled_def length_body)

lemma encode_pdu_ok:
  assumes "wf_att hs cs H a" "body_ok pdu len" "op_type op = get_op_type (op_opcode op)"
  shows "\<exists>ok op' w. encode_pdu E op pdu len a = Some (ok, op', a\<lparr>at_client := w\<rparr>) \<and>
    (ok \<longrightarrow> (\<exists>b. op' = op\<lparr>op_len := encoded_len a (op_opcode op) len, op_pdu := b\<rparr> \<and> op_ok op' \<and>
      encoded_len a (op_opcode op) len \<le> at_mtu a \<and> take (Suc (unat len)) b = op_opcode op # body pdu len)) \<and>
    (at_local_sign a = NULL \<longrightarrow> ok = (ev_mem E \<and> encoded_len a (op_opcode op) len \<le> at_mtu a) \<and> w = at_client a)"
proof -
  let ?n = "encoded_len a (op_opcode op) len"
  let ?b = "filled E (op_opcode op) pdu len (unat ?n)"
  have lb: "length (body pdu len) = unat len" using assms(2) by (rule length_body)
  have ln: "unat len + 13 < 65536" using assms(2) by (simp add: body_ok_def)
  have un: "unat ?n = (if is_signed a (op_opcode op) then 13 else 1) + unat len" using ln by (rule unat_encoded_len)
  have l: "length ?b = unat ?n" "take (Suc (unat len)) ?b = op_opcode op # body pdu len"
    using un lb assms(2) by (simp_all add: length_filled) (simp add: filled_def)
  have ok: "op_ok (op\<lparr>op_len := ?n, op_pdu := c\<rparr>)"
    if "length c = unat ?n" "take (Suc (unat len)) c = op_opcode op # body pdu len" for c
  proof -
    have "c \<noteq> []" "c ! 0 = op_opcode op" using that(2) by (cases c; simp)+
    then show ?thesis using that(1) assms(3) by (simp add: op_ok_def)
  qed
  have same: "a = a\<lparr>at_client := at_client a\<rparr>" by simp
  show ?thesis
  proof (cases "ev_mem E \<and> ?n \<le> at_mtu a")
    case False
    have "encode_pdu E op pdu len a = Some (False, op, a) \<or> encode_pdu E op pdu len a = Some (False, op\<lparr>op_len := ?n\<rparr>, a)"
      using False unfolding encode_pdu_def Let_def unfolding encoded_len_eq [OF assms(2)] by (auto simp: not_less)
    with False show ?thesis by (metis same)
  next
    case True
    note step = encode_pdu_step [OF assms(2), where a = a and op = op and E = E]
    show ?thesis
    proof (cases "\<not> is_signed a (op_opcode op) \<or> at_crypto a = NULL")
      case unsigned: True
      then have "encode_pdu E op pdu len a = Some (True, op\<lparr>op_len := ?n, op_pdu := ?b\<rparr>, a\<lparr>at_client := at_client a\<rparr>)"
        using step True by (simp add: Let_def)
      with True l ok show ?thesis by blast
    next
      case False
      then obtain sign f where s: "at_local_sign a = Ptr sign" "sg_counter sign = Ptr f" "length (sg_key sign) = 16"
        using wf_parts [OF assms(1)] by (cases "at_local_sign a"; cases "sg_counter (case at_local_sign a of Ptr s \<Rightarrow> s)")
          (auto simp: is_signed_def sign_ok_def)
      obtain good cnt w where c: "ev_counter E f 0 (sg_user_data sign) (at_client a) = ((good, cnt), w)"
        by (metis surj_pair)
      have l1: "unat (1 + len) = Suc (unat len)" using ln by (simp add: unat_word_ariths)
      obtain r where r: "bt_crypto_sign_att (at_crypto a) (sg_key sign) ?b (1 + len) cnt = Some r"
        "\<forall>s. r = Some s \<longrightarrow> length s = 12"
        using sign_att_Some [of "at_crypto a" "sg_key sign" "1 + len" ?b cnt] wf_parts [OF assms(1)] s(3) l(1) l1 un ln False
        by auto
      show ?thesis
      proof (cases "good \<and> r \<noteq> None")
        case True
        then obtain sg where sg: "r = Some sg" "length sg = 12" using r(2) by auto
        let ?c = "take (Suc (unat len)) ?b @ sg"
        have w: "wr ?b (unat (1 + len)) sg = Some ?c" using l(1) un sg(2) l1 False by (simp add: wr_def)
        have lc: "length ?c = unat ?n" "take (Suc (unat len)) ?c = op_opcode op # body pdu len"
          using l un sg(2) lb False by simp_all
        have "encode_pdu E op pdu len a = Some (True, op\<lparr>op_len := ?n, op_pdu := ?c\<rparr>, a\<lparr>at_client := w\<rparr>)"
          using step \<open>ev_mem E \<and> ?n \<le> at_mtu a\<close> False s(1,2) c r(1) sg(1) w True by (simp add: Let_def)
        moreover have "at_local_sign a \<noteq> NULL" using s(1) by simp
        ultimately show ?thesis using ok [OF lc] lc(2) \<open>ev_mem E \<and> ?n \<le> at_mtu a\<close> by blast
      next
        case no: False
        then have "\<exists>op'. encode_pdu E op pdu len a = Some (False, op', a\<lparr>at_client := w\<rparr>)"
          using step \<open>ev_mem E \<and> ?n \<le> at_mtu a\<close> False s(1,2) c r(1) by (cases r) (auto simp: Let_def)
        with s(1) show ?thesis by auto
      qed
    qed
  qed
qed

text \<open>What a new operation looks like, and when there is one.\<close>

definition created ::
    "('f, 'u, 'w) bt_att \<Rightarrow> u8 \<Rightarrow> buf ptr \<Rightarrow> u16 \<Rightarrow> 'f ptr \<Rightarrow> 'u ptr \<Rightarrow> 'f ptr \<Rightarrow> ('f, 'u) att_send_op \<Rightarrow> bool" where
  "created a opcode pdu len callback user_data destroy op \<longleftrightarrow>
     op_ok op \<and> op_opcode op = opcode \<and> op_type op = get_op_type opcode \<and> op_callback op = callback \<and>
     op_destroy op = destroy \<and> op_user_data op = user_data \<and> op_timeout_id op = 0 \<and>
     op_len op = encoded_len a opcode len \<and> op_len op \<le> at_mtu a \<and>
     take (Suc (unat len)) (op_pdu op) = opcode # body pdu len"

definition sendable :: "u8 \<Rightarrow> 'f ptr \<Rightarrow> bool" where
  "sendable opcode callback \<longleftrightarrow>
     get_op_type opcode \<noteq> ATT_OP_TYPE_UNKNOWN \<and> (callback \<noteq> NULL) = answered (get_op_type opcode)"

lemma create_op_ok:
  assumes "wf_att hs cs H a" "body_ok pdu len"
  obtains (refused) w where
      "create_att_send_op E opcode pdu len callback user_data destroy a = Some (NULL, a\<lparr>at_client := w\<rparr>)"
      "at_local_sign a = NULL \<and> ev_mem E \<and> encoded_len a opcode len \<le> at_mtu a \<Longrightarrow> \<not> sendable opcode callback"
    | (created) w op where
      "create_att_send_op E opcode pdu len callback user_data destroy a =
         Some (Ptr (at_brk a), a\<lparr>at_client := w, at_op := (at_op a)(at_brk a \<mapsto> op), at_brk := Suc (at_brk a)\<rparr>)"
      "created a opcode pdu len callback user_data destroy op" "sendable opcode callback"
      "at_local_sign a = NULL \<Longrightarrow> w = at_client a"
proof -
  let ?op = "\<lparr>op_id = 0, op_timeout_id = 0, op_type = get_op_type opcode, op_opcode = opcode, op_pdu = [], op_len = 0,
      op_callback = callback, op_destroy = destroy, op_user_data = user_data\<rparr>"
  have nn: "\<not> (len \<noteq> 0 \<and> pdu = NULL)" using assms(2) by (auto simp: body_ok_def)
  show thesis
  proof (cases "sendable opcode callback")
    case False
    then have "create_att_send_op E opcode pdu len callback user_data destroy a = Some (NULL, a\<lparr>at_client := at_client a\<rparr>)"
      using nn by (auto simp: create_att_send_op_def sendable_def Let_def)
    then show thesis by (rule refused) (rule False)
  next
    case True
    obtain ok op' w where e: "encode_pdu E ?op pdu len a = Some (ok, op', a\<lparr>at_client := w\<rparr>)"
      "ok \<Longrightarrow> \<exists>b. op' = ?op\<lparr>op_len := encoded_len a opcode len, op_pdu := b\<rparr> \<and> op_ok op' \<and>
        encoded_len a opcode len \<le> at_mtu a \<and> take (Suc (unat len)) b = opcode # body pdu len"
      "at_local_sign a = NULL \<Longrightarrow> ok = (ev_mem E \<and> encoded_len a opcode len \<le> at_mtu a) \<and> w = at_client a"
      using encode_pdu_ok [OF assms, of ?op E] unfolding att_send_op.select_convs by blast
    have c: "create_att_send_op E opcode pdu len callback user_data destroy a =
        (if ok then Some (Ptr (at_brk a), a\<lparr>at_client := w, at_op := (at_op a)(at_brk a \<mapsto> op'), at_brk := Suc (at_brk a)\<rparr>)
         else Some (NULL, a\<lparr>at_client := w\<rparr>))"
    proof -
      have "get_op_type opcode \<noteq> ATT_OP_TYPE_UNKNOWN" "\<not> (callback \<noteq> NULL \<and> \<not> answered (get_op_type opcode))"
        "\<not> (callback = NULL \<and> answered (get_op_type opcode))"
        using True unfolding sendable_def by blast+
      with nn show ?thesis unfolding create_att_send_op_def Let_def
        by (simp only: if_False e(1) bind.bind_lunit prod.case) simp
    qed
    show thesis
    proof (cases ok)
      case ok: True
      with e(2) have "created a opcode pdu len callback user_data destroy op'" by (auto simp: created_def)
      with c ok True e(3) show thesis by (intro created [of op' w]) auto
    next
      case False
      with c e(3) show thesis by (intro refused [of w]) auto
    qed
  qed
qed

section \<open>Sending keeps the invariant\<close>

definition enqueue :: "att_op_type \<Rightarrow> nat \<Rightarrow> ('f, 'u, 'w) bt_att \<Rightarrow> ('f, 'u, 'w) bt_att" where
  "enqueue t p a =
     (case t of
        ATT_OP_TYPE_REQ \<Rightarrow> a\<lparr>at_req_queue := at_req_queue a @ [p]\<rparr>
      | ATT_OP_TYPE_IND \<Rightarrow> a\<lparr>at_ind_queue := at_ind_queue a @ [p]\<rparr>
      | _ \<Rightarrow> a\<lparr>at_write_queue := at_write_queue a @ [p]\<rparr>)"

lemma enqueue_ok:
  assumes "wf_att hs cs (add_mset p H) a" "kind (at_op a) p = Some t"
  shows "wf_att hs cs H (enqueue t p a)" "keeps a (enqueue t p a)" "at_chan (enqueue t p a) = at_chan a"
    "at_op (enqueue t p a) = at_op a"
proof -
  have "wf_att hs cs H (a\<lparr>at_req_queue := at_req_queue a @ [p]\<rparr>)" if "t = ATT_OP_TYPE_REQ"
    by (rule wf_req_queue [OF assms(1)]) (use wf_kinds(1) [OF assms(1)] assms(2) that in auto)
  moreover have "wf_att hs cs H (a\<lparr>at_ind_queue := at_ind_queue a @ [p]\<rparr>)" if "t = ATT_OP_TYPE_IND"
    by (rule wf_ind_queue [OF assms(1)]) (use wf_kinds(2) [OF assms(1)] assms(2) that in auto)
  moreover have "wf_att hs cs H (a\<lparr>at_write_queue := at_write_queue a @ [p]\<rparr>)" if "\<not> answered t"
    by (rule wf_write_queue [OF assms(1)]) (use wf_kinds(3) [OF assms(1)] assms(2) that in \<open>auto simp: quiet_def\<close>)
  ultimately show "wf_att hs cs H (enqueue t p a)" by (cases t) (simp_all add: enqueue_def)
qed (cases t; simp add: enqueue_def keeps_def)+

definition next_id :: "u32 \<Rightarrow> u32" where
  "next_id i = (if i < 1 then 1 else i)"

lemma next_id_pos: "next_id i \<noteq> 0"
  by (simp add: next_id_def)

lemma wf_created:
  assumes "wf_att hs cs H a" "created a opcode pdu len callback user_data destroy op"
  shows "wf_att hs cs (add_mset (at_brk a) H)
    (a\<lparr>at_client := w, at_op := (at_op a)(at_brk a \<mapsto> op\<lparr>op_id := i\<rparr>), at_brk := Suc (at_brk a)\<rparr>)"
proof -
  have "op_ok (op\<lparr>op_id := i\<rparr>)" using assms(2) by (simp add: created_def op_ok_def)
  from wf_op_new [of hs cs H "a\<lparr>at_client := w\<rparr>", OF _ this] assms(1) show ?thesis by simp
qed

definition sent_state ::
    "u8 \<Rightarrow> u32 \<Rightarrow> ('f, 'u) att_send_op \<Rightarrow> 'w \<Rightarrow> ('f, 'u, 'w) bt_att \<Rightarrow> ('f, 'u, 'w) bt_att" where
  "sent_state opcode i op w a = enqueue (get_op_type opcode) (at_brk a)
     (a\<lparr>at_client := w, at_brk := Suc (at_brk a), at_next_send_id := i + 1, at_op := (at_op a)(at_brk a \<mapsto> op\<lparr>op_id := i\<rparr>)\<rparr>)"

lemma send_cases:
  assumes "wf_att hs cs H a" "body_ok pdu len"
  obtains (refused) w where
      "bt_att_send E opcode pdu len callback user_data destroy (Ptr a) = Some (0, Ptr (a\<lparr>at_client := w\<rparr>))"
      "at_chans a \<noteq> [] \<and> at_local_sign a = NULL \<and> ev_mem E \<and> encoded_len a opcode len \<le> at_mtu a \<Longrightarrow>
         \<not> sendable opcode callback"
    | (queued) w op m where
      "bt_att_send E opcode pdu len callback user_data destroy (Ptr a) =
         Some (next_id (at_next_send_id a), Ptr ((sent_state opcode (next_id (at_next_send_id a)) op w a)\<lparr>at_chan := m\<rparr>))"
      "created a opcode pdu len callback user_data destroy op" "sendable opcode callback" "same_chans (at_chan a) m"
      "wf_att hs cs H ((sent_state opcode (next_id (at_next_send_id a)) op w a)\<lparr>at_chan := m\<rparr>)"
      "at_local_sign a = NULL \<Longrightarrow> w = at_client a"
proof (cases "at_chans a = []")
  case True
  then have "bt_att_send E opcode pdu len callback user_data destroy (Ptr a) = Some (0, Ptr (a\<lparr>at_client := at_client a\<rparr>))"
    by (simp add: bt_att_send_def wf_live [OF assms(1)])
  then show ?thesis by (rule refused) (use True in simp)
next
  case False
  show ?thesis
  proof (cases rule: create_op_ok [OF assms, of E opcode callback user_data destroy])
    case (1 w)
    then have "bt_att_send E opcode pdu len callback user_data destroy (Ptr a) = Some (0, Ptr (a\<lparr>at_client := w\<rparr>))"
      using False by (simp add: bt_att_send_def wf_live [OF assms(1)])
    then show ?thesis by (rule refused) (use 1(2) in simp)
  next
    case (2 w op)
    let ?i = "next_id (at_next_send_id a)" and ?p = "at_brk a"
    let ?b = "a\<lparr>at_client := w, at_brk := Suc ?p, at_next_send_id := ?i + 1, at_op := (at_op a)(?p \<mapsto> op\<lparr>op_id := ?i\<rparr>)\<rparr>"
    have t: "op_type op = get_op_type opcode" using 2(2) by (simp add: created_def)
    have k: "kind (at_op ?b) ?p = Some (get_op_type opcode)" using t by (simp add: kind_def)
    have b: "?b = a\<lparr>at_client := w, at_op := (at_op a)(?p \<mapsto> op\<lparr>op_id := ?i\<rparr>), at_brk := Suc ?p, at_next_send_id := ?i + 1\<rparr>"
      by (cases a) simp
    have w: "wf_att hs cs (add_mset ?p H) ?b"
      unfolding b by (subst wf_att_frame(5)) (rule wf_created [OF assms(1) 2(2)])
    have s: "sent_state opcode ?i op w a = enqueue (get_op_type opcode) ?p ?b" by (simp add: sent_state_def)
    note e = enqueue_ok [OF w k, folded s]
    obtain m where m: "wakeup_writer E (sent_state opcode ?i op w a) = Some ((sent_state opcode ?i op w a)\<lparr>at_chan := m\<rparr>)"
      "same_chans (at_chan (sent_state opcode ?i op w a)) m" "wf_att hs cs H ((sent_state opcode ?i op w a)\<lparr>at_chan := m\<rparr>)"
      using wakeup_writer_ok [OF e(1), of E] by blast
    have "bt_att_send E opcode pdu len callback user_data destroy (Ptr a) =
        do { a \<leftarrow> wakeup_writer E (sent_state opcode ?i op w a); Some (?i, Ptr a) }"
      using False 2(1) t unfolding s enqueue_def
      by (cases "get_op_type opcode"; cases "at_next_send_id a < 1")
        (simp_all add: bt_att_send_def wf_live [OF assms(1)] Let_def op_update_def next_id_def)
    with m(1) have "bt_att_send E opcode pdu len callback user_data destroy (Ptr a) =
        Some (?i, Ptr ((sent_state opcode ?i op w a)\<lparr>at_chan := m\<rparr>))" by simp
    then show ?thesis by (rule queued) (use 2 m e(3) in simp_all)
  qed
qed

end
