(* ===== verification/TransportCalls.thy ===== *)
theory TransportCalls
  imports TransportKeep
begin

text \<open>
  Every function of the interface keeps the invariant and leaves channels, references and what was
  sent alone, whatever operations and handlers are in the hands of a function that waits for the
  call: these are the calls a client may make from its callbacks.
\<close>

locale destroy_contract =
  fixes E :: "('f, 'u, 'w) att_env"
  assumes destroy: "\<exists>w. ev_destroy E f u a = Some (a\<lparr>at_client := w\<rparr>)"

lemma ex_bool [simp]: "\<exists>r. r" "\<exists>r. \<not> r" "Ex Not"
  by blast+

section \<open>Destroying and cancelling operations\<close>

lemma find_op_Some:
  assumes "set q \<subseteq> dom (at_op a)"
  shows "\<exists>r. find_op i q a = Some r \<and> (\<forall>p. r = Ptr p \<longrightarrow> p \<in> set q)"
  using assms by (induction q) auto

lemma queue_dom:
  assumes "wf_att hs cs H a"
  shows "set (at_req_queue a) \<subseteq> dom (at_op a)" "set (at_ind_queue a) \<subseteq> dom (at_op a)"
    "set (at_write_queue a) \<subseteq> dom (at_op a)"
  using wf_mem [OF assms] by (auto simp: held_def)

lemma chan_dom:
  assumes "wf_att hs cs H a" "at_chan a c = Some ch"
  shows "set (ch_queue ch) \<subseteq> dom (at_op a)" "ch_pending_req ch = Ptr p \<Longrightarrow> p \<in> dom (at_op a)"
    "ch_pending_ind ch = Ptr p \<Longrightarrow> p \<in> dom (at_op a)"
proof -
  have "q \<in> dom (at_op a)" if "q \<in># chan_held ch" for q
    using wf_mem [OF assms(1)] wf_chan_held [OF assms that] by simp
  then show "set (ch_queue ch) \<subseteq> dom (at_op a)" "ch_pending_req ch = Ptr p \<Longrightarrow> p \<in> dom (at_op a)"
    "ch_pending_ind ch = Ptr p \<Longrightarrow> p \<in> dom (at_op a)" by (simp_all add: subsetI)
qed

lemma chans_dom: "wf_att hs cs H a \<Longrightarrow> set (cs @ at_chans a) = dom (at_chan a)"
  using wf_parts by (fastforce simp: chans_ok_def)

lemma pending_id_Some: "(\<forall>q. p = Ptr q \<longrightarrow> q \<in> dom (at_op a)) \<Longrightarrow>
    \<exists>b. pending_id p i a = Some b \<and> (b \<longrightarrow> p \<noteq> NULL)"
  by (cases p) (auto simp: pending_id_def)

context destroy_contract
begin

lemma call_destroy_Some: "\<exists>w. call_destroy E d u a = Some (a\<lparr>at_client := w\<rparr>)"
  by (cases d) (auto simp: call_destroy_def destroy intro: exI [of _ "at_client a"])

lemma destroy_op_Some:
  assumes "at_op a p = Some op"
  shows "\<exists>w ts. destroy_att_send_op E p a = Some (a\<lparr>at_timers := ts, at_client := w, at_op := (at_op a)(p := None)\<rparr>)"
proof -
  let ?a = "if op_timeout_id op \<noteq> 0 then timeout_remove (op_timeout_id op) a else a"
  obtain ts where ts: "?a = a\<lparr>at_timers := ts\<rparr>" by (cases "op_timeout_id op \<noteq> 0") (auto simp: timeout_remove_def
    intro: that [of "at_timers a"])
  obtain w where "call_destroy E (op_destroy op) (op_user_data op) ?a = Some (a\<lparr>at_timers := ts, at_client := w\<rparr>)"
    using call_destroy_Some [of "op_destroy op" "op_user_data op" ?a] unfolding ts by auto
  with assms show ?thesis by (auto simp: destroy_att_send_op_def Let_def)
qed

lemma destroy_op_ok:
  assumes "wf_att hs cs (add_mset p H) a"
  shows "\<exists>a'. destroy_att_send_op E p a = Some a' \<and> wf_att hs cs H a' \<and> keeps a a'"
proof -
  have "p \<in> dom (at_op a)" using wf_mem [OF assms] by simp
  then obtain op w ts where d: "at_op a p = Some op"
    "destroy_att_send_op E p a = Some (a\<lparr>at_timers := ts, at_client := w, at_op := (at_op a)(p := None)\<rparr>)"
    using destroy_op_Some by blast
  have "wf_att hs cs (add_mset p H) (a\<lparr>at_timers := ts, at_client := w\<rparr>)" using assms by simp
  from wf_op_free [OF this] have "wf_att hs cs H (a\<lparr>at_timers := ts, at_client := w, at_op := (at_op a)(p := None)\<rparr>)" by simp
  then show ?thesis using d(2) by (simp add: keeps_def)
qed

lemma cancel_op_ok:
  assumes "wf_att hs cs H a" "p \<in> dom (at_op a)"
  shows "\<exists>a'. cancel_att_send_op E p a = Some a' \<and> wf_att hs cs H a' \<and> keeps a a'"
proof -
  obtain op where op: "at_op a p = Some op" using assms(2) by auto
  obtain w where w: "call_destroy E (op_destroy op) (op_user_data op) a = Some (a\<lparr>at_client := w\<rparr>)"
    using call_destroy_Some by blast
  let ?op = "op\<lparr>op_user_data := NULL, op_callback := NULL, op_destroy := NULL\<rparr>"
  have "op_ok ?op" using wf_op [OF assms(1) op] by (simp add: op_ok_def)
  then have "wf_att hs cs H (a\<lparr>at_client := w, at_op := (at_op a)(p \<mapsto> ?op)\<rparr>)"
    using wf_op_update [of hs cs H "a\<lparr>at_client := w\<rparr>" p op ?op] assms(1) op by simp
  moreover have "cancel_att_send_op E p a = Some (a\<lparr>at_client := w, at_op := (at_op a)(p \<mapsto> ?op)\<rparr>)"
    using op w by (simp add: cancel_att_send_op_def op_update_def)
  ultimately show ?thesis by (simp add: keeps_def)
qed

lemma each_destroy_ok:
  assumes "wf_att hs cs (mset ps + H) a"
  shows "\<exists>a'. each (destroy_att_send_op E) ps a = Some a' \<and> wf_att hs cs H a' \<and> keeps a a'"
  using assms
proof (induction ps arbitrary: a)
  case (Cons p ps)
  then obtain a1 where a1: "destroy_att_send_op E p a = Some a1" "wf_att hs cs (mset ps + H) a1" "keeps a a1"
    using destroy_op_ok [of hs cs p "mset ps + H" a] by auto
  from Cons.IH [OF a1(2)] obtain a2 where "each (destroy_att_send_op E) ps a1 = Some a2" "wf_att hs cs H a2" "keeps a1 a2"
    by blast
  with a1 show ?case using keeps_trans by auto
qed simp

text \<open>Taking an operation out of a queue and dropping it.\<close>

lemma drop_op_ok:
  assumes "wf_att hs cs (add_mset p H) a"
  shows "\<exists>a'. destroy_att_send_op E p a \<bind> wakeup_writer E = Some a' \<and> wf_att hs cs H a' \<and> keeps a a'"
proof -
  obtain a1 where a1: "destroy_att_send_op E p a = Some a1" "wf_att hs cs H a1" "keeps a a1"
    using destroy_op_ok [OF assms] by blast
  from wakeup_writer_ok [OF a1(2), of E] obtain m where
    "wakeup_writer E a1 = Some (a1\<lparr>at_chan := m\<rparr>)" "wf_att hs cs H (a1\<lparr>at_chan := m\<rparr>)" "keeps a1 (a1\<lparr>at_chan := m\<rparr>)" by blast
  with a1 show ?thesis using keeps_trans by auto
qed

lemma chan_cancel_ok:
  assumes "wf_att hs cs H a" "at_chan a c = Some ch"
  shows "\<exists>r a'. bt_att_chan_cancel E c i a = Some (r, a') \<and> wf_att hs cs H a' \<and> keeps a a'"
proof -
  note dom = chan_dom [OF assms]
  obtain req where req: "pending_id (ch_pending_req ch) i a = Some req" "req \<Longrightarrow> ch_pending_req ch \<noteq> NULL"
    using pending_id_Some [of "ch_pending_req ch" a i] dom(2) by blast
  obtain ind where ind: "pending_id (ch_pending_ind ch) i a = Some ind" "ind \<Longrightarrow> ch_pending_ind ch \<noteq> NULL"
    using pending_id_Some [of "ch_pending_ind ch" a i] dom(3) by blast
  consider (isreq) p where req "ch_pending_req ch = Ptr p" | (isind) p where "\<not> req" ind "ch_pending_ind ch = Ptr p" | (queue) "\<not> req" "\<not> ind"
    using req(2) ind(2) by (metis ptr.exhaust)
  then show ?thesis
  proof cases
    case (isreq p)
    from cancel_op_ok [OF assms(1) dom(2) [OF isreq(2)]] isreq assms(2) req(1)
    show ?thesis by (auto simp: bt_att_chan_cancel_def)
  next
    case (isind p)
    from cancel_op_ok [OF assms(1) dom(3) [OF isind(3)]] isind assms(2) req(1) ind(1)
    show ?thesis by (auto simp: bt_att_chan_cancel_def)
  next
    case queue
    obtain r where r: "find_op i (ch_queue ch) a = Some r" "\<And>p. r = Ptr p \<Longrightarrow> p \<in> set (ch_queue ch)"
      using find_op_Some [OF dom(1), of i] by blast
    show ?thesis
    proof (cases r)
      case NULL
      then show ?thesis using queue r(1) assms req(1) ind(1) by (simp add: bt_att_chan_cancel_def)
    next
      case (Ptr p)
      let ?ch = "ch\<lparr>ch_queue := remove1 p (ch_queue ch)\<rparr>" let ?a = "a\<lparr>at_chan := (at_chan a)(c \<mapsto> ?ch)\<rparr>"
      have p: "p \<in> set (ch_queue ch)" using r(2) Ptr by blast
      have ok: "chan_ok (at_op a) ?ch" using wf_chan [OF assms] by (auto simp: chan_ok_def dest: notin_set_remove1)
      have "wf_att hs cs (add_mset p H) ?a"
        by (rule wf_chan_update [OF assms _ ok]) (use p in \<open>simp add: chan_held_def\<close>)
      from destroy_op_ok [OF this] obtain a1 where
        a1: "destroy_att_send_op E p ?a = Some a1" "wf_att hs cs H a1" "keeps ?a a1" by blast
      obtain ch1 where "at_chan a1 c = Some ch1" using keeps_chan [OF a1(3), of c ?ch] by auto
      from wakeup_chan_ok [OF a1(2) this, of E] obtain m where
        m: "wakeup_chan_writer E c a1 = Some (a1\<lparr>at_chan := m\<rparr>)" "wf_att hs cs H (a1\<lparr>at_chan := m\<rparr>)"
          "keeps a1 (a1\<lparr>at_chan := m\<rparr>)" by blast
      have "keeps a ?a" using slot_chan_update [of a c ch ?ch] assms(2) by (simp add: keeps_def)
      with a1(3) m(3) have "keeps a (a1\<lparr>at_chan := m\<rparr>)" by (blast intro: keeps_trans)
      then show ?thesis using queue r(1) assms req(1) ind(1) Ptr a1(1) m(1,2)
        by (simp add: bt_att_chan_cancel_def chan_update_def)
    qed
  qed
qed

lemma cancel_chans_ok:
  assumes "wf_att hs cs H a" "set ds \<subseteq> dom (at_chan a)"
  shows "\<exists>r a'. cancel_chans E i ds a = Some (r, a') \<and> wf_att hs cs H a' \<and> keeps a a'"
  using assms
proof (induction ds arbitrary: a)
  case (Cons c ds)
  then obtain ch where ch: "at_chan a c = Some ch" by auto
  from chan_cancel_ok [OF Cons.prems(1) this, of i] obtain r a1 where
    a1: "bt_att_chan_cancel E c i a = Some (r, a1)" "wf_att hs cs H a1" "keeps a a1" by blast
  show ?case
  proof (cases r)
    case False
    have "set ds \<subseteq> dom (at_chan a1)" using Cons.prems(2) keeps_chan [OF a1(3)] by fastforce
    from Cons.IH [OF a1(2) this] a1 False show ?thesis using keeps_trans [OF a1(3)] by auto
  qed (use a1 in auto)
qed simp

lemma cancel_ok:
  assumes "wf_att hs cs H a"
  shows "\<exists>r a'. bt_att_cancel E i (Ptr a) = Some (r, Ptr a') \<and> wf_att hs cs H a' \<and> keeps a a'"
proof (cases "i = 0")
  case True
  then show ?thesis using assms by (simp add: bt_att_cancel_def wf_live [OF assms])
next
  case False
  have "set (at_chans a) \<subseteq> dom (at_chan a)" using chans_dom [OF assms] by auto
  from cancel_chans_ok [OF assms this, of i] obtain fin a1 where
    a1: "cancel_chans E i (at_chans a) a = Some (fin, a1)" "wf_att hs cs H a1" "keeps a a1" by blast
  note dom = queue_dom [OF a1(2)] and k = wf_kinds [OF a1(2)]
  consider (fin) fin | (disc) "\<not> fin" "at_in_disc a1" | (normal) "\<not> fin" "\<not> at_in_disc a1" by blast
  then show ?thesis
  proof cases
    case fin
    with a1 False show ?thesis by (simp add: bt_att_cancel_def wf_live [OF assms])
  next
    case disc
    have d: "set (at_req_queue a1 @ at_ind_queue a1 @ at_write_queue a1) \<subseteq> dom (at_op a1)" using dom by auto
    obtain r where r: "find_op i (at_req_queue a1 @ at_ind_queue a1 @ at_write_queue a1) a1 = Some r"
      "\<And>p. r = Ptr p \<Longrightarrow> p \<in> dom (at_op a1)" using find_op_Some [OF d, of i] d by blast
    show ?thesis
    proof (cases r)
      case NULL
      with r(1) disc a1 False show ?thesis by (simp add: bt_att_cancel_def bt_att_disc_cancel_def wf_live [OF assms])
    next
      case (Ptr p)
      from cancel_op_ok [OF a1(2) r(2) [OF Ptr]] obtain a2 where
        "cancel_att_send_op E p a1 = Some a2" "wf_att hs cs H a2" "keeps a1 a2" by blast
      with Ptr r(1) disc a1 False show ?thesis using keeps_trans [OF a1(3)]
        by (simp add: bt_att_cancel_def bt_att_disc_cancel_def wf_live [OF assms])
    qed
  next
    case normal
    obtain r n w where f: "find_op i (at_req_queue a1) a1 = Some r" "\<And>p. r = Ptr p \<Longrightarrow> p \<in> set (at_req_queue a1)"
      "find_op i (at_ind_queue a1) a1 = Some n" "\<And>p. n = Ptr p \<Longrightarrow> p \<in> set (at_ind_queue a1)"
      "find_op i (at_write_queue a1) a1 = Some w" "\<And>p. w = Ptr p \<Longrightarrow> p \<in> set (at_write_queue a1)"
      using find_op_Some [OF dom(1), of i] find_op_Some [OF dom(2), of i] find_op_Some [OF dom(3), of i] by metis
    have drop: ?thesis if "wf_att hs cs (add_mset p H) b" "keeps a1 b"
      "bt_att_cancel E i (Ptr a) = do { a \<leftarrow> destroy_att_send_op E p b \<bind> wakeup_writer E; Some (True, Ptr a) }" for p b
      using drop_op_ok [OF that(1)] that(2,3) keeps_trans [OF a1(3)] keeps_trans by fastforce
    consider (req) p where "r = Ptr p" | (ind) p where "r = NULL" "n = Ptr p"
      | (cmd) p where "r = NULL" "n = NULL" "w = Ptr p" | (none) "r = NULL" "n = NULL" "w = NULL"
      by (cases r; cases n; cases w) auto
    then show ?thesis
    proof cases
      case (req p)
      have "wf_att hs cs (add_mset p H) (a1\<lparr>at_req_queue := remove1 p (at_req_queue a1)\<rparr>)"
        by (rule wf_req_queue [OF a1(2)]) (use f(2) [OF req] k(1) in \<open>auto dest: notin_set_remove1\<close>)
      then show ?thesis
        by (rule drop) (use normal False a1(1) f(1) req in \<open>simp_all add: keeps_def bt_att_cancel_def wf_live [OF assms]\<close>)
    next
      case (ind p)
      have "wf_att hs cs (add_mset p H) (a1\<lparr>at_ind_queue := remove1 p (at_ind_queue a1)\<rparr>)"
        by (rule wf_ind_queue [OF a1(2)]) (use f(4) [OF ind(2)] k(2) in \<open>auto dest: notin_set_remove1\<close>)
      then show ?thesis
        by (rule drop) (use normal False a1(1) f(1,3) ind in \<open>simp_all add: keeps_def bt_att_cancel_def wf_live [OF assms]\<close>)
    next
      case (cmd p)
      have "wf_att hs cs (add_mset p H) (a1\<lparr>at_write_queue := remove1 p (at_write_queue a1)\<rparr>)"
        by (rule wf_write_queue [OF a1(2)]) (use f(6) [OF cmd(3)] k(3) in \<open>auto dest: notin_set_remove1\<close>)
      then show ?thesis
        by (rule drop) (use normal False a1(1) f(1,3,5) cmd in \<open>simp_all add: keeps_def bt_att_cancel_def wf_live [OF assms]\<close>)
    next
      case none
      with normal False a1 f(1,3,5) show ?thesis by (simp add: bt_att_cancel_def wf_live [OF assms])
    qed
  qed
qed

lemma cancel_pending_ok:
  assumes "wf_att hs cs H a" "c \<in> dom (at_chan a)"
  shows "\<exists>a'. cancel_pending E c a = Some a' \<and> wf_att hs cs H a' \<and> keeps a a'"
proof -
  obtain ch where ch: "at_chan a c = Some ch" using assms(2) by auto
  obtain a1 where a1: "(case ch_pending_req ch of NULL \<Rightarrow> Some a | Ptr p \<Rightarrow> cancel_att_send_op E p a) = Some a1"
    "wf_att hs cs H a1" "keeps a a1"
    using cancel_op_ok [OF assms(1) chan_dom(2) [OF assms(1) ch]] assms(1) by (cases "ch_pending_req ch") auto
  obtain ch1 where ch1: "at_chan a1 c = Some ch1" using keeps_chan [OF a1(3) ch] by blast
  obtain a2 where "(case ch_pending_ind ch1 of NULL \<Rightarrow> Some a1 | Ptr p \<Rightarrow> cancel_att_send_op E p a1) = Some a2"
    "wf_att hs cs H a2" "keeps a1 a2"
    using cancel_op_ok [OF a1(2) chan_dom(3) [OF a1(2) ch1]] a1(2) by (cases "ch_pending_ind ch1") auto
  with ch a1 ch1 show ?thesis using keeps_trans [OF a1(3)] by (simp add: cancel_pending_def)
qed

lemma each_cancel_pending_ok:
  assumes "wf_att hs cs H a" "set ds \<subseteq> dom (at_chan a)"
  shows "\<exists>a'. each (cancel_pending E) ds a = Some a' \<and> wf_att hs cs H a' \<and> keeps a a'"
  using assms
proof (induction ds arbitrary: a)
  case (Cons c ds)
  then obtain a1 where a1: "cancel_pending E c a = Some a1" "wf_att hs cs H a1" "keeps a a1"
    using cancel_pending_ok [of hs cs H a c] by auto
  have "set ds \<subseteq> dom (at_chan a1)" using Cons.prems(2) keeps_chan [OF a1(3)] by fastforce
  from Cons.IH [OF a1(2) this] a1 show ?case using keeps_trans [OF a1(3)] by auto
qed simp

lemma cancel_all_ok:
  assumes "wf_att hs cs H a"
  shows "\<exists>a'. cancel_all E a = Some a' \<and> wf_att hs cs H a' \<and> keeps a a'"
proof -
  have "wf_att hs cs (mset (at_req_queue a) + H) (a\<lparr>at_req_queue := []\<rparr>)"
    by (rule wf_req_queue [OF assms]) simp_all
  from each_destroy_ok [OF this] obtain a1 where
    a1: "each (destroy_att_send_op E) (at_req_queue a) (a\<lparr>at_req_queue := []\<rparr>) = Some a1" "wf_att hs cs H a1" "keeps a a1"
    by (auto simp: keeps_def)
  have "wf_att hs cs (mset (at_ind_queue a1) + H) (a1\<lparr>at_ind_queue := []\<rparr>)"
    by (rule wf_ind_queue [OF a1(2)]) simp_all
  from each_destroy_ok [OF this] obtain a2 where
    a2: "each (destroy_att_send_op E) (at_ind_queue a1) (a1\<lparr>at_ind_queue := []\<rparr>) = Some a2" "wf_att hs cs H a2" "keeps a1 a2"
    by (auto simp: keeps_def)
  have "wf_att hs cs (mset (at_write_queue a2) + H) (a2\<lparr>at_write_queue := []\<rparr>)"
    by (rule wf_write_queue [OF a2(2)]) simp_all
  from each_destroy_ok [OF this] obtain a3 where
    a3: "each (destroy_att_send_op E) (at_write_queue a2) (a2\<lparr>at_write_queue := []\<rparr>) = Some a3" "wf_att hs cs H a3" "keeps a2 a3"
    by (auto simp: keeps_def)
  have "set (at_chans a3) \<subseteq> dom (at_chan a3)" using chans_dom [OF a3(2)] by auto
  from each_cancel_pending_ok [OF a3(2) this] obtain a4 where
    "each (cancel_pending E) (at_chans a3) a3 = Some a4" "wf_att hs cs H a4" "keeps a3 a4" by blast
  with a1 a2 a3 show ?thesis by (auto simp: cancel_all_def intro: keeps_trans)
qed

end

end
