(* ===== verification/TransportReg.thy ===== *)
theory TransportReg
  imports TransportCalls
begin

text \<open>
  The rest of the interface keeps the invariant: repeated requests, sends on one channel, and the
  registration and removal of handlers.
\<close>

section \<open>Sending again, and on one channel\<close>

lemma in_flight_Some:
  assumes "wf_att hs cs H a" "set ds \<subseteq> dom (at_chan a)"
  shows "\<exists>b. in_flight i ds a = Some b"
  using assms(2)
proof (induction ds)
  case (Cons c ds)
  then obtain ch where ch: "at_chan a c = Some ch" by auto
  obtain b where "pending_id (ch_pending_req ch) i a = Some b"
    using pending_id_Some [of "ch_pending_req ch" a i] chan_dom(2) [OF assms(1) ch] by blast
  with Cons ch show ?case by (auto simp: pending_id_def)
qed simp

lemma resend_ok:
  assumes "wf_att hs cs H a" "body_ok pdu len"
  shows "\<exists>r a'. bt_att_resend E i opcode pdu len callback user_data destroy (Ptr a) = Some (r, Ptr a') \<and>
    wf_att hs cs H a' \<and> keeps a a'"
proof -
  have "set (at_chans a) \<subseteq> dom (at_chan a)" using chans_dom [OF assms(1)] by auto
  then obtain b where b: "in_flight i (at_chans a) a = Some b" using in_flight_Some [OF assms(1)] by blast
  note live = wf_live [OF assms(1)]
  show ?thesis
  proof (cases "i \<noteq> 0 \<and> b \<and> get_op_type opcode = ATT_OP_TYPE_REQ")
    case False
    then have "\<exists>r. bt_att_resend E i opcode pdu len callback user_data destroy (Ptr a) = Some (r, Ptr a)"
      using b by (auto simp: bt_att_resend_def live)
    with assms(1) show ?thesis by auto
  next
    case ok: True
    show ?thesis
    proof (cases rule: create_op_ok [OF assms, of E opcode callback user_data destroy])
      case (1 w)
      with ok b assms(1) show ?thesis by (simp add: bt_att_resend_def live keeps_def)
    next
      case (2 w op)
      let ?p = "at_brk a" let ?b = "a\<lparr>at_client := w, at_brk := Suc ?p, at_op := (at_op a)(?p \<mapsto> op\<lparr>op_id := i\<rparr>)\<rparr>"
      have b': "?b = a\<lparr>at_client := w, at_op := (at_op a)(?p \<mapsto> op\<lparr>op_id := i\<rparr>), at_brk := Suc ?p\<rparr>" by (cases a) simp
      have w: "wf_att hs cs (add_mset ?p H) ?b" unfolding b' by (rule wf_created [OF assms(1) 2(2)])
      have k: "kind (at_op ?b) ?p = Some ATT_OP_TYPE_REQ" using 2(2) ok by (simp add: kind_def created_def)
      let ?q = "if opcode \<in> {0x0C, 0x16, 0x18} then ?p # at_req_queue a else at_req_queue a @ [?p]"
      let ?c = "?b\<lparr>at_req_queue := ?q\<rparr>"
      have c: "wf_att hs cs H ?c"
        by (rule wf_req_queue [OF w]) (use wf_kinds(1) [OF w] k in auto)
      obtain m where m: "wakeup_writer E ?c = Some (?c\<lparr>at_chan := m\<rparr>)" "wf_att hs cs H (?c\<lparr>at_chan := m\<rparr>)"
        "keeps ?c (?c\<lparr>at_chan := m\<rparr>)" using wakeup_writer_ok [OF c, of E] by blast
      have "bt_att_resend E i opcode pdu len callback user_data destroy (Ptr a) = do { a \<leftarrow> wakeup_writer E ?c; Some (0, Ptr a) }"
        using ok b 2(1) by (cases "opcode \<in> {0x0C, 0x16, 0x18}") (simp_all add: bt_att_resend_def live op_update_def Let_def)
      moreover have "keeps a ?c" by (simp add: keeps_def)
      ultimately show ?thesis using m keeps_trans by fastforce
    qed
  qed
qed

lemma chan_send_ok:
  assumes "wf_att hs cs H a" "body_ok pdu len" "\<not> answered (get_op_type opcode)" "at_chan a c = Some ch"
  shows "\<exists>r a'. bt_att_chan_send E c opcode pdu len callback user_data destroy a = Some (r, a') \<and>
    wf_att hs cs H a' \<and> keeps a a'"
proof (cases rule: create_op_ok [OF assms(1,2), of E opcode callback user_data destroy])
  case (1 w)
  with assms(1) show ?thesis by (simp add: bt_att_chan_send_def keeps_def)
next
  case (2 w op)
  let ?p = "at_brk a" let ?ch = "ch\<lparr>ch_queue := ch_queue ch @ [?p]\<rparr>"
  let ?b = "a\<lparr>at_client := w, at_op := (at_op a)(?p \<mapsto> op), at_brk := Suc ?p\<rparr>"
  have "op_ok op" using 2(2) by (simp add: created_def)
  with assms(1) have w: "wf_att hs cs (add_mset ?p H) ?b" using wf_op_new [of hs cs H "a\<lparr>at_client := w\<rparr>" op] by simp
  have ch: "at_chan ?b c = Some ch" using assms(4) by simp
  have "quiet (at_op ?b) ?p" using 2(2) assms(3) by (simp add: quiet_def kind_def created_def)
  then have "chan_ok (at_op ?b) ?ch" using wf_chan [OF w ch] by (simp add: chan_ok_def)
  then have u: "wf_att hs cs H (?b\<lparr>at_chan := (at_chan ?b)(c \<mapsto> ?ch)\<rparr>)"
    by (intro wf_chan_update [OF w ch]) (simp_all add: chan_held_def)
  let ?d = "?b\<lparr>at_chan := (at_chan a)(c \<mapsto> ?ch)\<rparr>"
  have d: "wf_att hs cs H ?d" "at_chan ?d c = Some ?ch" "keeps a ?d" "at_op ?d ?p = Some op"
    using u slot_chan_update [of ?b c ch ?ch] ch by (simp_all add: keeps_def)
  obtain m where m: "wakeup_chan_writer E c ?d = Some (?d\<lparr>at_chan := m\<rparr>)" "wf_att hs cs H (?d\<lparr>at_chan := m\<rparr>)"
    "keeps ?d (?d\<lparr>at_chan := m\<rparr>)" using wakeup_chan_ok [OF d(1,2), of E] by blast
  have "bt_att_chan_send E c opcode pdu len callback user_data destroy a = Some (op_id op, ?d\<lparr>at_chan := m\<rparr>)"
    using 2(1) assms(4) m(1) by (simp add: bt_att_chan_send_def chan_update_def)
  with m(2,3) d(3) show ?thesis using keeps_trans by blast
qed

section \<open>Handlers\<close>

lemma wf_handlers:
  assumes "wf_att hs cs H a" "handlers_ok hs' a'" "at_op a' = at_op a" "at_chan a' = at_chan a" "at_chans a' = at_chans a"
    "at_req_queue a' = at_req_queue a" "at_ind_queue a' = at_ind_queue a" "at_write_queue a' = at_write_queue a"
    "at_brk a \<le> at_brk a'" "at_local_sign a' = at_local_sign a" "at_remote_sign a' = at_remote_sign a"
    "at_crypto a' = at_crypto a" "at_freed a' = at_freed a"
  shows "wf_att hs' cs H a'"
proof (rule wf_attI [OF assms(1)])
  show "H + held cs a' = mset_set (dom (at_op a'))" using wf_owned [OF assms(1)] assms(3-8) by (simp add: held_def)
  show "ops_ok a'" using wf_parts [OF assms(1)] assms(3,9) by (fastforce simp: ops_ok_def)
  show "queues_ok a'" using wf_parts [OF assms(1)] assms(3,6-8) by (simp add: queues_ok_def)
  show "chans_ok cs a'" using wf_parts [OF assms(1)] assms(3-5,9) by (fastforce simp: chans_ok_def)
qed (use assms in auto)

lemma list_of_new: "list_of hs l m k \<Longrightarrow> list_of hs (l @ [k]) (m(k \<mapsto> h)) (Suc k)"
  by (auto simp: list_of_def less_Suc_eq)

lemma list_of_brk: "list_of hs l m k \<Longrightarrow> list_of hs l m (Suc k)"
  by (auto simp: list_of_def less_Suc_eq)

lemma list_of_remove: "list_of hs l m k \<Longrightarrow> n \<in> set l \<Longrightarrow> list_of (n # hs) (remove1 n l) m k"
  by (auto simp: list_of_def dest: notin_set_remove1)

lemma list_of_free: "list_of (n # hs) l m k \<Longrightarrow> list_of hs l (m(n := None)) k"
  by (auto simp: list_of_def)

lemma list_of_update: "list_of hs l m k \<Longrightarrow> n \<in> dom m \<Longrightarrow> list_of hs l (m(n \<mapsto> h)) k"
  by (auto simp: list_of_def)

lemma list_of_all: "list_of hs l m k \<Longrightarrow> list_of (l @ hs) [] m k"
  by (auto simp: list_of_def)

lemma handlers_dest: "wf_att (ns, ds, xs) cs H a \<Longrightarrow>
    list_of ns (at_notify_list a) (at_notify a) (at_brk a) \<and> list_of ds (at_disconn_list a) (at_disconn a) (at_brk a) \<and>
    list_of xs (at_exchange_list a) (at_exchange a) (at_brk a)"
  using wf_parts [of "(ns, ds, xs)" cs H a] by (simp add: handlers_ok_def)

lemma register_ok:
  assumes "wf_att (ns, ds, xs) cs H a"
  shows "\<exists>i a'. bt_att_register opcode callback user_data destroy (Ptr a) = Some (i, Ptr a') \<and>
    wf_att (ns, ds, xs) cs H a' \<and> stays a a'"
proof (cases "callback = NULL \<or> at_chans a = []")
  case True
  with assms show ?thesis by (auto simp: bt_att_register_def wf_live [OF assms])
next
  case False
  let ?i = "next_id (at_next_reg_id a)" and ?n = "at_brk a"
  let ?h = "\<lparr>nt_id = ?i, nt_opcode = ucast opcode, nt_callback = callback, nt_destroy = destroy, nt_user_data = user_data\<rparr>"
  let ?a = "a\<lparr>at_next_reg_id := ?i + 1, at_notify := (at_notify a)(?n \<mapsto> ?h), at_brk := Suc ?n,
    at_notify_list := at_notify_list a @ [?n]\<rparr>"
  have "wf_att (ns, ds, xs) cs H ?a"
    by (rule wf_handlers [OF assms])
      (use handlers_dest [OF assms] in \<open>simp_all add: handlers_ok_def list_of_new list_of_brk\<close>)
  moreover have "bt_att_register opcode callback user_data destroy (Ptr a) = Some (?i, Ptr ?a)"
    using False by (simp add: bt_att_register_def wf_live [OF assms] new_reg_id_def next_id_def Let_def)
  ultimately show ?thesis by (simp add: stays_def)
qed

lemma register_disconnect_ok:
  assumes "wf_att (ns, ds, xs) cs H a"
  shows "\<exists>i a'. bt_att_register_disconnect callback user_data destroy (Ptr a) = Some (i, Ptr a') \<and>
    wf_att (ns, ds, xs) cs H a' \<and> stays a a'"
proof (cases "at_chans a = []")
  case True
  with assms show ?thesis by (auto simp: bt_att_register_disconnect_def wf_live [OF assms])
next
  case False
  let ?i = "next_id (at_next_reg_id a)" and ?n = "at_brk a"
  let ?h = "\<lparr>dn_id = ?i, dn_removed = False, dn_callback = callback, dn_destroy = destroy, dn_user_data = user_data\<rparr>"
  let ?a = "a\<lparr>at_next_reg_id := ?i + 1, at_disconn := (at_disconn a)(?n \<mapsto> ?h), at_brk := Suc ?n,
    at_disconn_list := at_disconn_list a @ [?n]\<rparr>"
  have "wf_att (ns, ds, xs) cs H ?a"
    by (rule wf_handlers [OF assms])
      (use handlers_dest [OF assms] in \<open>simp_all add: handlers_ok_def list_of_new list_of_brk\<close>)
  moreover have "bt_att_register_disconnect callback user_data destroy (Ptr a) = Some (?i, Ptr ?a)"
    using False by (simp add: bt_att_register_disconnect_def wf_live [OF assms] new_reg_id_def next_id_def Let_def)
  ultimately show ?thesis by (simp add: stays_def)
qed

lemma register_exchange_ok:
  assumes "wf_att (ns, ds, xs) cs H a"
  shows "\<exists>i a'. bt_att_register_exchange callback user_data destroy (Ptr a) = Some (i, Ptr a') \<and>
    wf_att (ns, ds, xs) cs H a' \<and> stays a a'"
proof (cases "at_chans a = []")
  case True
  with assms show ?thesis by (auto simp: bt_att_register_exchange_def wf_live [OF assms])
next
  case False
  let ?i = "next_id (at_next_reg_id a)" and ?n = "at_brk a"
  let ?h = "\<lparr>dn_id = ?i, dn_removed = False, dn_callback = callback, dn_destroy = destroy, dn_user_data = user_data\<rparr>"
  let ?a = "a\<lparr>at_next_reg_id := ?i + 1, at_exchange := (at_exchange a)(?n \<mapsto> ?h), at_brk := Suc ?n,
    at_exchange_list := at_exchange_list a @ [?n]\<rparr>"
  have "wf_att (ns, ds, xs) cs H ?a"
    by (rule wf_handlers [OF assms])
      (use handlers_dest [OF assms] in \<open>simp_all add: handlers_ok_def list_of_new list_of_brk\<close>)
  moreover have "bt_att_register_exchange callback user_data destroy (Ptr a) = Some (?i, Ptr ?a)"
    using False by (simp add: bt_att_register_exchange_def wf_live [OF assms] new_reg_id_def next_id_def Let_def)
  ultimately show ?thesis by (simp add: stays_def)
qed

lemma find_id_Some:
  assumes "set q \<subseteq> dom m"
  shows "\<exists>r. find_id get m i q = Some r \<and> (\<forall>n. r = Ptr n \<longrightarrow> n \<in> set q)"
  using assms by (induction q) auto

lemma list_of_hand: "list_of (n # hs) l m k \<Longrightarrow> \<exists>h. m n = Some h"
proof -
  assume "list_of (n # hs) l m k"
  then have "n \<in> dom m" unfolding list_of_def by (metis append_Cons list.set_intros(1))
  then show ?thesis by blast
qed

lemma list_of_dom: "list_of hs l m k \<Longrightarrow> set l \<subseteq> dom m"
  by (auto simp: list_of_def)

text \<open>The frame rules of the handlers: other fields of the object do not matter to them.\<close>

lemma wf_notify_hand:
  assumes "wf_att (ns, ds, xs) cs H a" "list_of ns' l m (at_brk a)"
  shows "wf_att (ns', ds, xs) cs H (a\<lparr>at_notify_list := l, at_notify := m\<rparr>)"
  by (rule wf_handlers [OF assms(1)]) (use handlers_dest [OF assms(1)] assms(2) in \<open>simp_all add: handlers_ok_def\<close>)

lemma wf_disconn_hand:
  assumes "wf_att (ns, ds, xs) cs H a" "list_of ds' l m (at_brk a)"
  shows "wf_att (ns, ds', xs) cs H (a\<lparr>at_disconn_list := l, at_disconn := m\<rparr>)"
  by (rule wf_handlers [OF assms(1)]) (use handlers_dest [OF assms(1)] assms(2) in \<open>simp_all add: handlers_ok_def\<close>)

lemma wf_exchange_hand:
  assumes "wf_att (ns, ds, xs) cs H a" "list_of xs' l m (at_brk a)"
  shows "wf_att (ns, ds, xs') cs H (a\<lparr>at_exchange_list := l, at_exchange := m\<rparr>)"
  by (rule wf_handlers [OF assms(1)]) (use handlers_dest [OF assms(1)] assms(2) in \<open>simp_all add: handlers_ok_def\<close>)

context destroy_contract
begin

lemma destroy_notify_ok:
  assumes "wf_att (n # ns, ds, xs) cs H a"
  shows "\<exists>a'. destroy_att_notify E n a = Some a' \<and> wf_att (ns, ds, xs) cs H a' \<and> keeps a a'"
proof -
  have l: "list_of (n # ns) (at_notify_list a) (at_notify a) (at_brk a)" using handlers_dest [OF assms] by simp
  then obtain h where h: "at_notify a n = Some h" using list_of_hand by blast
  obtain w where w: "call_destroy E (nt_destroy h) (nt_user_data h) a = Some (a\<lparr>at_client := w\<rparr>)"
    using call_destroy_Some by blast
  have "wf_att (ns, ds, xs) cs H ((a\<lparr>at_client := w\<rparr>)\<lparr>at_notify_list := at_notify_list a, at_notify := (at_notify a)(n := None)\<rparr>)"
    by (rule wf_notify_hand) (use assms list_of_free [OF l] in simp_all)
  with h w show ?thesis by (simp add: destroy_att_notify_def keeps_def)
qed

lemma destroy_disconn_ok:
  assumes "wf_att (ns, n # ds, xs) cs H a"
  shows "\<exists>a'. destroy_att_disconn E n a = Some a' \<and> wf_att (ns, ds, xs) cs H a' \<and> keeps a a'"
proof -
  have l: "list_of (n # ds) (at_disconn_list a) (at_disconn a) (at_brk a)" using handlers_dest [OF assms] by simp
  then obtain h where h: "at_disconn a n = Some h" using list_of_hand by blast
  obtain w where w: "call_destroy E (dn_destroy h) (dn_user_data h) a = Some (a\<lparr>at_client := w\<rparr>)"
    using call_destroy_Some by blast
  have "wf_att (ns, ds, xs) cs H ((a\<lparr>at_client := w\<rparr>)\<lparr>at_disconn_list := at_disconn_list a, at_disconn := (at_disconn a)(n := None)\<rparr>)"
    by (rule wf_disconn_hand) (use assms list_of_free [OF l] in simp_all)
  with h w show ?thesis by (simp add: destroy_att_disconn_def keeps_def)
qed

lemma destroy_exchange_ok:
  assumes "wf_att (ns, ds, n # xs) cs H a"
  shows "\<exists>a'. destroy_att_exchange E n a = Some a' \<and> wf_att (ns, ds, xs) cs H a' \<and> keeps a a'"
proof -
  have l: "list_of (n # xs) (at_exchange_list a) (at_exchange a) (at_brk a)" using handlers_dest [OF assms] by simp
  then obtain h where h: "at_exchange a n = Some h" using list_of_hand by blast
  obtain w where w: "call_destroy E (dn_destroy h) (dn_user_data h) a = Some (a\<lparr>at_client := w\<rparr>)"
    using call_destroy_Some by blast
  have "wf_att (ns, ds, xs) cs H ((a\<lparr>at_client := w\<rparr>)\<lparr>at_exchange_list := at_exchange_list a, at_exchange := (at_exchange a)(n := None)\<rparr>)"
    by (rule wf_exchange_hand) (use assms list_of_free [OF l] in simp_all)
  with h w show ?thesis by (simp add: destroy_att_exchange_def keeps_def)
qed

lemma each_notify_ok:
  "wf_att (l @ ns, ds, xs) cs H a \<Longrightarrow>
     \<exists>a'. each (destroy_att_notify E) l a = Some a' \<and> wf_att (ns, ds, xs) cs H a' \<and> keeps a a'"
proof (induction l arbitrary: a)
  case (Cons n l)
  then obtain a1 where a1: "destroy_att_notify E n a = Some a1" "wf_att (l @ ns, ds, xs) cs H a1" "keeps a a1"
    using destroy_notify_ok [of n "l @ ns" ds xs cs H a] by auto
  from Cons.IH [OF a1(2)] a1 show ?case using keeps_trans [OF a1(3)] by auto
qed simp

lemma each_disconn_ok:
  "wf_att (ns, l @ ds, xs) cs H a \<Longrightarrow>
     \<exists>a'. each (destroy_att_disconn E) l a = Some a' \<and> wf_att (ns, ds, xs) cs H a' \<and> keeps a a'"
proof (induction l arbitrary: a)
  case (Cons n l)
  then obtain a1 where a1: "destroy_att_disconn E n a = Some a1" "wf_att (ns, l @ ds, xs) cs H a1" "keeps a a1"
    using destroy_disconn_ok [of ns n "l @ ds" xs cs H a] by auto
  from Cons.IH [OF a1(2)] a1 show ?case using keeps_trans [OF a1(3)] by auto
qed simp

lemma each_exchange_ok:
  "wf_att (ns, ds, l @ xs) cs H a \<Longrightarrow>
     \<exists>a'. each (destroy_att_exchange E) l a = Some a' \<and> wf_att (ns, ds, xs) cs H a' \<and> keeps a a'"
proof (induction l arbitrary: a)
  case (Cons n l)
  then obtain a1 where a1: "destroy_att_exchange E n a = Some a1" "wf_att (ns, ds, l @ xs) cs H a1" "keeps a a1"
    using destroy_exchange_ok [of ns ds n "l @ xs" cs H a] by auto
  from Cons.IH [OF a1(2)] a1 show ?case using keeps_trans [OF a1(3)] by auto
qed simp

text \<open>Afterwards no handler is left but those in the hands of callers.\<close>

lemma unregister_all_ok:
  assumes "wf_att (ns, ds, xs) cs H a"
  shows "\<exists>a'. unregister_all E a = Some a' \<and> wf_att (ns, ds, xs) cs H a' \<and> stays a a' \<and>
    at_notify_list a' = [] \<and> at_disconn_list a' = [] \<and> at_exchange_list a' = []"
proof -
  have "wf_att (at_notify_list a @ ns, ds, xs) cs H (a\<lparr>at_notify_list := [], at_notify := at_notify a\<rparr>)"
    by (rule wf_notify_hand [OF assms]) (use handlers_dest [OF assms] list_of_all in blast)
  then have "wf_att (at_notify_list a @ ns, ds, xs) cs H (a\<lparr>at_notify_list := []\<rparr>)" by simp
  from each_notify_ok [OF this] obtain a1 where
    a1: "each (destroy_att_notify E) (at_notify_list a) (a\<lparr>at_notify_list := []\<rparr>) = Some a1"
      "wf_att (ns, ds, xs) cs H a1" "stays a a1" "at_notify_list a1 = []" by (auto simp: stays_def keeps_def)
  have "wf_att (ns, at_disconn_list a1 @ ds, xs) cs H (a1\<lparr>at_disconn_list := [], at_disconn := at_disconn a1\<rparr>)"
    by (rule wf_disconn_hand [OF a1(2)]) (use handlers_dest [OF a1(2)] list_of_all in blast)
  then have "wf_att (ns, at_disconn_list a1 @ ds, xs) cs H (a1\<lparr>at_disconn_list := []\<rparr>)" by simp
  from each_disconn_ok [OF this] obtain a2 where
    a2: "each (destroy_att_disconn E) (at_disconn_list a1) (a1\<lparr>at_disconn_list := []\<rparr>) = Some a2"
      "wf_att (ns, ds, xs) cs H a2" "stays a1 a2" "at_notify_list a2 = []" "at_disconn_list a2 = []" using a1(4) by (auto simp: stays_def keeps_def)
  have "wf_att (ns, ds, at_exchange_list a2 @ xs) cs H (a2\<lparr>at_exchange_list := [], at_exchange := at_exchange a2\<rparr>)"
    by (rule wf_exchange_hand [OF a2(2)]) (use handlers_dest [OF a2(2)] list_of_all in blast)
  then have "wf_att (ns, ds, at_exchange_list a2 @ xs) cs H (a2\<lparr>at_exchange_list := []\<rparr>)" by simp
  from each_exchange_ok [OF this] obtain a3 where
    "each (destroy_att_exchange E) (at_exchange_list a2) (a2\<lparr>at_exchange_list := []\<rparr>) = Some a3"
    "wf_att (ns, ds, xs) cs H a3" "stays a2 a3" "at_notify_list a3 = []" "at_disconn_list a3 = []" "at_exchange_list a3 = []"
    using a2(4,5) by (auto simp: stays_def keeps_def)
  with a1 a2 show ?thesis using stays_trans [OF a1(3) a2(3)] by (auto simp: unregister_all_def intro: stays_trans)
qed

lemma unregister_ok:
  assumes "wf_att (ns, ds, xs) cs H a"
  shows "\<exists>r a'. bt_att_unregister E i (Ptr a) = Some (r, Ptr a') \<and> wf_att (ns, ds, xs) cs H a' \<and> stays a a'"
proof (cases "i = 0")
  case True
  with assms show ?thesis by (simp add: bt_att_unregister_def wf_live [OF assms])
next
  case False
  have l: "list_of ns (at_notify_list a) (at_notify a) (at_brk a)" using handlers_dest [OF assms] by simp
  obtain r where r: "find_id nt_id (at_notify a) i (at_notify_list a) = Some r" "\<And>n. r = Ptr n \<Longrightarrow> n \<in> set (at_notify_list a)"
    using find_id_Some [OF list_of_dom [OF l], of nt_id i] by blast
  show ?thesis
  proof (cases r)
    case NULL
    with False r(1) assms show ?thesis by (simp add: bt_att_unregister_def wf_live [OF assms])
  next
    case (Ptr n)
    let ?a = "a\<lparr>at_notify_list := remove1 n (at_notify_list a)\<rparr>"
    have "wf_att (n # ns, ds, xs) cs H (a\<lparr>at_notify_list := remove1 n (at_notify_list a), at_notify := at_notify a\<rparr>)"
      by (rule wf_notify_hand [OF assms]) (rule list_of_remove [OF l r(2) [OF Ptr]])
    then have "wf_att (n # ns, ds, xs) cs H ?a" by simp
    from destroy_notify_ok [OF this] obtain a1 where
      "destroy_att_notify E n ?a = Some a1" "wf_att (ns, ds, xs) cs H a1" "stays a a1" by (auto simp: stays_def keeps_def)
    with False r(1) Ptr show ?thesis by (simp add: bt_att_unregister_def wf_live [OF assms])
  qed
qed

end

end
