(* ===== verification/TransportRun.thy ===== *)
theory TransportRun
  imports TransportReg
begin

text \<open>
  The main loop keeps the invariant, for clients whose callbacks keep it: writing, reading, time-outs,
  disconnection and the end of the object.
\<close>

section \<open>Objects that go away\<close>

text \<open>Operations in hand are freed together.\<close>

lemma wf_ops_free:
  "wf_att hs cs (mset ps + H) a \<Longrightarrow> wf_att hs cs H (a\<lparr>at_op := at_op a |` (- set ps)\<rparr>)"
proof (induction ps arbitrary: a)
  case (Cons p ps)
  then have "wf_att hs cs (mset ps + H) (a\<lparr>at_op := (at_op a)(p := None)\<rparr>)"
    using wf_op_free [of hs cs p "mset ps + H" a] by simp
  moreover have "(at_op a)(p := None) |` (- set ps) = at_op a |` (- set (p # ps))"
    by (rule ext) (auto simp: restrict_map_def)
  ultimately show ?case using Cons.IH [of "a\<lparr>at_op := (at_op a)(p := None)\<rparr>"] by (simp del: fun_upd_apply)
qed (simp add: restrict_map_def)

text \<open>A channel in hand that owns nothing is freed.\<close>

lemma wf_chan_free:
  assumes "wf_att hs (c # cs) H a" "at_chan a c = Some ch" "chan_held ch = {#}"
  shows "wf_att hs cs H (a\<lparr>at_chan := (at_chan a)(c := None)\<rparr>)"
proof -
  let ?a = "a\<lparr>at_chan := (at_chan a)(c := None)\<rparr>"
  have d: "c \<notin> set (cs @ at_chans a)" "distinct (cs @ at_chans a)" "insert c (set (cs @ at_chans a)) = dom (at_chan a)"
    using wf_parts [OF assms(1)] by (auto simp: chans_ok_def)
  then have "chans_held ((at_chan a)(c := None)) (cs @ at_chans a) = chans_held (at_chan a) (cs @ at_chans a)"
    by (intro chans_held_cong) auto
  then have "held cs ?a = held (c # cs) a" using assms(2,3) by (simp add: held_def)
  then have "H + held cs ?a = mset_set (dom (at_op ?a))" using wf_owned [OF assms(1)] by simp
  moreover have "chans_ok cs ?a" using wf_parts [OF assms(1)] d unfolding chans_ok_def by auto
  ultimately show ?thesis using wf_parts [OF assms(1)]
    by (intro wf_attI [OF assms(1)]) (simp_all add: ops_ok_def queues_ok_def handlers_ok_def)
qed

definition chan_ops :: "bt_att_chan \<Rightarrow> nat list" where
  "chan_ops ch = (case ch_pending_req ch of NULL \<Rightarrow> [] | Ptr p \<Rightarrow> [p]) @
     (case ch_pending_ind ch of NULL \<Rightarrow> [] | Ptr p \<Rightarrow> [p]) @ ch_queue ch"

lemma mset_chan_ops: "mset (chan_ops ch) = chan_held ch"
  by (simp add: chan_ops_def chan_held_def split: ptr.split)

text \<open>A channel in hand and everything it owns goes away.\<close>

lemma wf_chan_gone:
  assumes "wf_att hs (c # cs) H a" "at_chan a c = Some ch"
  shows "wf_att hs cs H (a\<lparr>at_op := at_op a |` (- set (chan_ops ch)), at_chan := (at_chan a)(c := None)\<rparr>)"
proof -
  let ?e = "ch\<lparr>ch_queue := [], ch_pending_req := NULL, ch_pending_ind := NULL\<rparr>"
  have "wf_att hs (c # cs) (mset (chan_ops ch) + H) (a\<lparr>at_chan := (at_chan a)(c \<mapsto> ?e)\<rparr>)"
    by (rule wf_chan_update [OF assms])
      (use wf_chan [OF assms] in \<open>simp_all add: mset_chan_ops chan_held_def chan_ok_def ac_simps\<close>)
  from wf_chan_free [OF this, of ?e]
  have "wf_att hs cs (mset (chan_ops ch) + H) (a\<lparr>at_chan := (at_chan a)(c := None)\<rparr>)" by (simp add: chan_held_def)
  from wf_ops_free [OF this] have "wf_att hs cs H (a\<lparr>at_chan := (at_chan a)(c := None), at_op := at_op a |` (- set (chan_ops ch))\<rparr>)"
    by simp
  moreover have "a\<lparr>at_chan := (at_chan a)(c := None), at_op := at_op a |` (- set (chan_ops ch))\<rparr> =
      a\<lparr>at_op := at_op a |` (- set (chan_ops ch)), at_chan := (at_chan a)(c := None)\<rparr>" by (cases a) simp
  ultimately show ?thesis by simp
qed

lemma chans_held_sub: "c \<in> set cs \<Longrightarrow> m c = Some ch \<Longrightarrow> chan_held ch \<subseteq># chans_held m cs"
  by (induction cs) (auto simp: subset_mset.add_increasing subset_mset.add_increasing2)

lemma wf_distinct:
  assumes "wf_att hs cs H a" "at_chan a c = Some ch"
  shows "distinct (chan_ops ch)"
proof -
  have c: "c \<in> set (cs @ at_chans a)" using chans_dom [OF assms(1)] assms(2) by blast
  have "count (mset (chan_ops ch)) p \<le> 1" for p
  proof -
    have "chan_held ch \<subseteq># held cs a"
      unfolding held_def using chans_held_sub [of c "cs @ at_chans a" "at_chan a" ch, OF c assms(2)] by (simp add: subset_mset.add_increasing2)
    then have "count (chan_held ch) p \<le> count (H + held cs a) p" by (simp add: mset_subset_eq_count trans_le_add2)
    also have "\<dots> = count (mset_set (dom (at_op a))) p" by (simp only: wf_owned [OF assms(1)])
    also have "\<dots> \<le> 1" using wf_finite [OF assms(1)] by (simp add: count_mset_set')
    finally show ?thesis by (simp add: mset_chan_ops)
  qed
  then have "count (mset (chan_ops ch)) p = (if p \<in> set (chan_ops ch) then 1 else 0)" for p
    by (metis One_nat_def count_eq_zero_iff le_SucE le_zero_eq set_mset_mset)
  then show ?thesis by (simp add: distinct_count_atmost_1)
qed

context destroy_contract
begin

lemma each_destroy_eq:
  assumes "distinct ps" "set ps \<subseteq> dom (at_op a)"
  shows "\<exists>w ts. each (destroy_att_send_op E) ps a = Some (a\<lparr>at_timers := ts, at_client := w, at_op := at_op a |` (- set ps)\<rparr>)"
  using assms
proof (induction ps arbitrary: a)
  case Nil
  have "at_op a |` UNIV = at_op a" by (simp add: restrict_map_def)
  then show ?case by (intro exI [of _ "at_client a"] exI [of _ "at_timers a"]) simp
next
  case (Cons p ps)
  then obtain op where "at_op a p = Some op" by auto
  from destroy_op_Some [OF this] obtain w ts where
    1: "destroy_att_send_op E p a = Some (a\<lparr>at_timers := ts, at_client := w, at_op := (at_op a)(p := None)\<rparr>)" by blast
  let ?a = "a\<lparr>at_timers := ts, at_client := w, at_op := (at_op a)(p := None)\<rparr>"
  have "set ps \<subseteq> dom (at_op ?a)" using Cons.prems by auto
  then obtain w' ts' where
    "each (destroy_att_send_op E) ps ?a = Some (?a\<lparr>at_timers := ts', at_client := w', at_op := at_op ?a |` (- set ps)\<rparr>)"
    using Cons.IH [OF _ \<open>set ps \<subseteq> dom (at_op ?a)\<close>] Cons.prems(1) by (simp del: fun_upd_apply) blast
  moreover have "at_op ?a |` (- set ps) = at_op a |` (- set (p # ps))" by (rule ext) (auto simp: restrict_map_def)
  ultimately have "each (destroy_att_send_op E) (p # ps) a =
      Some (a\<lparr>at_timers := ts', at_client := w', at_op := at_op a |` (- set (p # ps))\<rparr>)"
    using 1 by (simp del: fun_upd_apply)
  then show ?case by blast
qed

lemma chan_free_ok:
  assumes "wf_att hs (c # cs) H a" "at_chan a c = Some ch"
  shows "\<exists>w ts. bt_att_chan_free E c a = Some (a\<lparr>at_timers := ts, at_client := w, at_op := at_op a |` (- set (chan_ops ch)),
      at_chan := (at_chan a)(c := None)\<rparr>) \<and>
    wf_att hs cs H (a\<lparr>at_timers := ts, at_client := w, at_op := at_op a |` (- set (chan_ops ch)), at_chan := (at_chan a)(c := None)\<rparr>)"
proof -
  define r where "r = (case ch_pending_req ch of NULL \<Rightarrow> [] | Ptr p \<Rightarrow> [p])"
  define i where "i = (case ch_pending_ind ch of NULL \<Rightarrow> [] | Ptr p \<Rightarrow> [p])"
  define q where "q = ch_queue ch"
  have d: "distinct (r @ i @ q)" using wf_distinct [OF assms] by (simp add: chan_ops_def r_def i_def q_def)
  have sub: "set (r @ i @ q) \<subseteq> dom (at_op a)"
    using chan_dom [OF assms] by (cases "ch_pending_req ch"; cases "ch_pending_ind ch") (auto simp: r_def i_def q_def)
  obtain w1 t1 where 1: "each (destroy_att_send_op E) r a = Some (a\<lparr>at_timers := t1, at_client := w1, at_op := at_op a |` (- set r)\<rparr>)"
    using each_destroy_eq [of r a] d sub by auto
  let ?a1 = "a\<lparr>at_timers := t1, at_client := w1, at_op := at_op a |` (- set r)\<rparr>"
  have "set i \<subseteq> dom (at_op ?a1)" using d sub by auto
  then obtain w2 t2 where 2: "each (destroy_att_send_op E) i ?a1 = Some (?a1\<lparr>at_timers := t2, at_client := w2, at_op := at_op ?a1 |` (- set i)\<rparr>)"
    using each_destroy_eq [of i ?a1] d by auto
  let ?a2 = "?a1\<lparr>at_timers := t2, at_client := w2, at_op := at_op ?a1 |` (- set i)\<rparr>"
  let ?a3 = "?a2\<lparr>at_chan := (at_chan a)(c \<mapsto> ch\<lparr>ch_queue := []\<rparr>)\<rparr>"
  have "set q \<subseteq> dom (at_op ?a3)" using d sub by auto
  then obtain w3 t3 where 3: "each (destroy_att_send_op E) q ?a3 = Some (?a3\<lparr>at_timers := t3, at_client := w3, at_op := at_op ?a3 |` (- set q)\<rparr>)"
    using each_destroy_eq [of q ?a3] d by auto
  let ?f = "a\<lparr>at_timers := t3, at_client := w3, at_op := at_op a |` (- set (chan_ops ch)), at_chan := (at_chan a)(c := None)\<rparr>"
  have one: "each (destroy_att_send_op E) (case p of NULL \<Rightarrow> [] | Ptr x \<Rightarrow> [x]) b =
      (case p of NULL \<Rightarrow> Some b | Ptr x \<Rightarrow> destroy_att_send_op E x b)" for p b by (cases p) simp_all
  have op: "at_op a |` (- set r) |` (- set i) |` (- set q) = at_op a |` (- set (chan_ops ch))"
    by (simp add: chan_ops_def r_def i_def q_def Int_assoc)
  have "bt_att_chan_free E c a = Some (a\<lparr>at_timers := t3, at_client := w3,
      at_op := at_op a |` (- set r) |` (- set i) |` (- set q), at_chan := (at_chan a)(c := None)\<rparr>)"
    using assms(2) 1 [unfolded r_def one, folded r_def] 2 [unfolded i_def one, folded i_def] 3 [unfolded q_def, folded q_def]
    by (simp add: bt_att_chan_free_def chan_update_def q_def [symmetric] del: restrict_restrict)
  then have "bt_att_chan_free E c a = Some ?f" unfolding op .
  moreover have "wf_att hs cs H ?f"
    using wf_chan_gone [of hs c cs H "a\<lparr>at_timers := t3, at_client := w3\<rparr>" ch] assms by simp
  ultimately show ?thesis by blast
qed

text \<open>A pending operation is destroyed before the channel lets go of it.\<close>

lemma pending_req_done:
  assumes "wf_att hs cs H a" "at_chan a c = Some ch" "ch_pending_req ch = Ptr p"
  shows "\<exists>b b'. destroy_att_send_op E p a = Some b \<and> chan_update c (\<lambda>ch. ch\<lparr>ch_pending_req := NULL\<rparr>) b = Some b' \<and>
    wf_att hs cs H b' \<and> at_chan b' = (at_chan a)(c \<mapsto> ch\<lparr>ch_pending_req := NULL\<rparr>) \<and> at_chans b' = at_chans a \<and>
    at_ref_count b' = at_ref_count a \<and> at_sent b' = at_sent a \<and> at_in_disc b' = at_in_disc a"
proof -
  let ?ch = "ch\<lparr>ch_pending_req := NULL\<rparr>"
  obtain op where op: "at_op a p = Some op" using chan_dom(2) [OF assms] by blast
  obtain w ts where d: "destroy_att_send_op E p a = Some (a\<lparr>at_timers := ts, at_client := w, at_op := (at_op a)(p := None)\<rparr>)"
    using destroy_op_Some [OF op] by blast
  have w: "wf_att hs cs H (a\<lparr>at_timers := ts, at_client := w\<rparr>)" using assms(1) by simp
  have "wf_att hs cs (add_mset p H) ((a\<lparr>at_timers := ts, at_client := w\<rparr>)\<lparr>at_chan := (at_chan a)(c \<mapsto> ?ch)\<rparr>)"
    using wf_chan_update [OF w, of c ch "add_mset p H" ?ch] assms(2,3) wf_chan [OF assms(1,2)]
    by (simp add: chan_held_def chan_ok_def)
  from wf_op_free [OF this] have "wf_att hs cs H (a\<lparr>at_timers := ts, at_client := w, at_chan := (at_chan a)(c \<mapsto> ?ch), at_op := (at_op a)(p := None)\<rparr>)"
    by simp
  moreover have "a\<lparr>at_timers := ts, at_client := w, at_chan := (at_chan a)(c \<mapsto> ?ch), at_op := (at_op a)(p := None)\<rparr> =
      a\<lparr>at_timers := ts, at_client := w, at_op := (at_op a)(p := None), at_chan := (at_chan a)(c \<mapsto> ?ch)\<rparr>" by (cases a) simp
  ultimately show ?thesis using d assms(2) by (simp add: chan_update_def del: fun_upd_apply)
qed

lemma pending_ind_done:
  assumes "wf_att hs cs H a" "at_chan a c = Some ch" "ch_pending_ind ch = Ptr p"
  shows "\<exists>b b'. destroy_att_send_op E p a = Some b \<and> chan_update c (\<lambda>ch. ch\<lparr>ch_pending_ind := NULL\<rparr>) b = Some b' \<and>
    wf_att hs cs H b' \<and> at_chan b' = (at_chan a)(c \<mapsto> ch\<lparr>ch_pending_ind := NULL\<rparr>) \<and> at_chans b' = at_chans a \<and>
    at_ref_count b' = at_ref_count a \<and> at_sent b' = at_sent a \<and> at_in_disc b' = at_in_disc a"
proof -
  let ?ch = "ch\<lparr>ch_pending_ind := NULL\<rparr>"
  obtain op where op: "at_op a p = Some op" using chan_dom(3) [OF assms] by blast
  obtain w ts where d: "destroy_att_send_op E p a = Some (a\<lparr>at_timers := ts, at_client := w, at_op := (at_op a)(p := None)\<rparr>)"
    using destroy_op_Some [OF op] by blast
  have w: "wf_att hs cs H (a\<lparr>at_timers := ts, at_client := w\<rparr>)" using assms(1) by simp
  have "wf_att hs cs (add_mset p H) ((a\<lparr>at_timers := ts, at_client := w\<rparr>)\<lparr>at_chan := (at_chan a)(c \<mapsto> ?ch)\<rparr>)"
    using wf_chan_update [OF w, of c ch "add_mset p H" ?ch] assms(2,3) wf_chan [OF assms(1,2)]
    by (simp add: chan_held_def chan_ok_def)
  from wf_op_free [OF this] have "wf_att hs cs H (a\<lparr>at_timers := ts, at_client := w, at_chan := (at_chan a)(c \<mapsto> ?ch), at_op := (at_op a)(p := None)\<rparr>)"
    by simp
  moreover have "a\<lparr>at_timers := ts, at_client := w, at_chan := (at_chan a)(c \<mapsto> ?ch), at_op := (at_op a)(p := None)\<rparr> =
      a\<lparr>at_timers := ts, at_client := w, at_op := (at_op a)(p := None), at_chan := (at_chan a)(c \<mapsto> ?ch)\<rparr>" by (cases a) simp
  ultimately show ?thesis using d assms(2) by (simp add: chan_update_def del: fun_upd_apply)
qed

end

section \<open>Clients that keep the invariant\<close>

definition att_kept ::
    "(('f, 'u, 'w) bt_att \<Rightarrow> ('f, 'u, 'w) bt_att option) \<Rightarrow> bool" where
  "att_kept f \<longleftrightarrow> (\<forall>hs cs H a. wf_att hs cs H a \<longrightarrow> (\<exists>a'. f a = Some a' \<and> wf_att hs cs H a' \<and> keeps a a'))"

lemma att_keptD: "att_kept f \<Longrightarrow> wf_att hs cs H a \<Longrightarrow> \<exists>a'. f a = Some a' \<and> wf_att hs cs H a' \<and> keeps a a'"
  by (unfold att_kept_def) blast

text \<open>A function that may be null.\<close>

lemma att_kept_case:
  assumes "\<And>f. att_kept (g f)" "wf_att hs cs H a"
  shows "\<exists>a'. (case p of NULL \<Rightarrow> Some a | Ptr f \<Rightarrow> g f a) = Some a' \<and> wf_att hs cs H a' \<and> keeps a a'"
  using att_keptD [OF assms] assms(2) by (cases p) simp_all

locale client_contract = destroy_contract E for E :: "('f, 'u, 'w) att_env" +
  assumes response: "att_kept (ev_response E f opcode rsp len u)"
    and notify: "att_kept (ev_notify E f c opcode pk len u)"
    and disconn: "att_kept (ev_disconn E f err u)"
    and exchange: "att_kept (ev_exchange E f mtu u)"
    and timeout: "att_kept (ev_timeout E f i opcode u)"
begin

lemma call_failed_ok:
  assumes "wf_att hs cs H a" "p \<in> dom (at_op a)"
  shows "\<exists>a'. call_failed E p a = Some a' \<and> wf_att hs cs H a' \<and> keeps a a'"
proof -
  obtain op where "at_op a p = Some op" using assms(2) by blast
  with att_kept_case [OF response assms(1)] show ?thesis by (simp add: call_failed_def)
qed

lemma disc_op_ok:
  assumes "wf_att hs cs (add_mset p H) a"
  shows "\<exists>a'. disc_att_send_op E p a = Some a' \<and> wf_att hs cs H a' \<and> keeps a a'"
proof -
  have "p \<in> dom (at_op a)" using wf_mem [OF assms] by simp
  from call_failed_ok [OF assms this] obtain a1 where
    a1: "call_failed E p a = Some a1" "wf_att hs cs (add_mset p H) a1" "keeps a a1" by blast
  from destroy_op_ok [OF a1(2)] a1 show ?thesis using keeps_trans [OF a1(3)] by (auto simp: disc_att_send_op_def)
qed

lemma each_disc_ok:
  assumes "wf_att hs cs (mset ps + H) a"
  shows "\<exists>a'. each (disc_att_send_op E) ps a = Some a' \<and> wf_att hs cs H a' \<and> keeps a a'"
  using assms
proof (induction ps arbitrary: a)
  case (Cons p ps)
  then obtain a1 where a1: "disc_att_send_op E p a = Some a1" "wf_att hs cs (mset ps + H) a1" "keeps a a1"
    using disc_op_ok [of hs cs p "mset ps + H" a] by auto
  from Cons.IH [OF a1(2)] obtain a2 where "each (disc_att_send_op E) ps a1 = Some a2" "wf_att hs cs H a2" "keeps a1 a2"
    by blast
  with a1 show ?case using keeps_trans by auto
qed simp

text \<open>The end of a request, and the answer to one.\<close>

lemma finish_req_ok:
  assumes "wf_att hs cs H a" "at_chan a c = Some ch" "ch_pending_req ch = Ptr p"
  shows "\<exists>a'. finish_req E c p opcode rsp len a = Some a' \<and> wf_att hs cs H a' \<and> at_chans a' = at_chans a \<and>
    at_ref_count a' = at_ref_count a"
proof -
  obtain op where op: "at_op a p = Some op" using chan_dom(2) [OF assms] by blast
  obtain a1 where a1: "(case op_callback op of NULL \<Rightarrow> Some a | Ptr f \<Rightarrow> ev_response E f opcode rsp len (op_user_data op) a) = Some a1"
    "wf_att hs cs H a1" "keeps a a1"
    using att_kept_case [of "\<lambda>f. ev_response E f opcode rsp len (op_user_data op)", OF response assms(1)] by blast
  obtain ch1 where ch1: "at_chan a1 c = Some ch1" "ch_pending_req ch1 = Ptr p"
    using keeps_chan [OF a1(3) assms(2)] assms(3) by auto
  obtain b b' where b: "destroy_att_send_op E p a1 = Some b" "chan_update c (\<lambda>ch. ch\<lparr>ch_pending_req := NULL\<rparr>) b = Some b'"
    "wf_att hs cs H b'" "at_chan b' = (at_chan a1)(c \<mapsto> ch1\<lparr>ch_pending_req := NULL\<rparr>)" "at_chans b' = at_chans a1"
    "at_ref_count b' = at_ref_count a1" using pending_req_done [OF a1(2) ch1] by blast
  have "at_chan b' c = Some (ch1\<lparr>ch_pending_req := NULL\<rparr>)" unfolding b(4) by simp
  from wakeup_chan_ok [OF b(3) this, of E] obtain m where
    "wakeup_chan_writer E c b' = Some (b'\<lparr>at_chan := m\<rparr>)" "wf_att hs cs H (b'\<lparr>at_chan := m\<rparr>)" by blast
  with op a1 b show ?thesis by (auto simp: finish_req_def keeps_def)
qed

lemma change_security_ok:
  assumes "wf_att hs cs H a" "at_chan a c = Some ch"
  shows "\<exists>r l. change_security E c ecode a = Some (r, a\<lparr>at_chan := (at_chan a)(c \<mapsto> ch\<lparr>ch_sec_level := l\<rparr>)\<rparr>) \<and>
    wf_att hs cs H (a\<lparr>at_chan := (at_chan a)(c \<mapsto> ch\<lparr>ch_sec_level := l\<rparr>)\<rparr>)"
proof -
  have id: "a\<lparr>at_chan := (at_chan a)(c \<mapsto> ch\<lparr>ch_sec_level := ch_sec_level ch\<rparr>)\<rparr> = a"
    using assms(2) by (cases a) (simp add: fun_upd_idem)
  define Q where "Q x \<longleftrightarrow> (\<exists>r l. x = Some (r :: bool, a\<lparr>at_chan := (at_chan a)(c \<mapsto> ch\<lparr>ch_sec_level := l\<rparr>)\<rparr>))" for x
  have base: "Q (Some (b, a))" for b
    unfolding Q_def by (rule exI [of _ b], rule exI [of _ "ch_sec_level ch"]) (simp only: id)
  have set: "Q (bt_att_chan_set_security E c lev a)" for lev
  proof (cases "ch_type ch = BT_ATT_LOCAL")
    case True
    then have "bt_att_chan_set_security E c lev a = Some (True, a\<lparr>at_chan := (at_chan a)(c \<mapsto> ch\<lparr>ch_sec_level := lev\<rparr>)\<rparr>)"
      using assms(2) by (simp add: bt_att_chan_set_security_def chan_update_def)
    then show ?thesis unfolding Q_def by blast
  qed (use assms(2) base in \<open>simp add: bt_att_chan_set_security_def\<close>)
  have "Q (change_security E c ecode a)"
    unfolding change_security_def Let_def using assms(2) by (simp add: base set)
  then have "\<exists>r l. change_security E c ecode a = Some (r, a\<lparr>at_chan := (at_chan a)(c \<mapsto> ch\<lparr>ch_sec_level := l\<rparr>)\<rparr>)"
    by (simp only: Q_def)
  moreover have "wf_att hs cs H (a\<lparr>at_chan := (at_chan a)(c \<mapsto> ch\<lparr>ch_sec_level := l\<rparr>)\<rparr>)" for l
    using wf_chan_update [OF assms, of H "ch\<lparr>ch_sec_level := l\<rparr>"] wf_chan [OF assms] by (simp add: chan_held_def chan_ok_def)
  ultimately show ?thesis by blast
qed

lemma handle_rsp_ok:
  assumes "wf_att hs cs H a" "at_chan a c = Some ch"
  shows "\<exists>a'. handle_rsp E c opcode pdu a = Some a' \<and> wf_att hs cs H a' \<and> at_chans a' = at_chans a \<and>
    at_ref_count a' = at_ref_count a"
proof (cases "ch_pending_req ch")
  case NULL
  have "wf_att hs cs H (a\<lparr>at_chan := (at_chan a)(c \<mapsto> ch\<lparr>ch_shutdown := True\<rparr>)\<rparr>)"
    using wf_chan_update [OF assms, of H "ch\<lparr>ch_shutdown := True\<rparr>"] wf_chan [OF assms] by (simp add: chan_held_def chan_ok_def)
  then show ?thesis using NULL assms(2) by (simp add: handle_rsp_def io_shutdown_def chan_update_def)
next
  case (Ptr p)
  obtain op where op: "at_op a p = Some op" using chan_dom(2) [OF assms Ptr] by blast
  note fin = finish_req_ok [OF assms Ptr]
  show ?thesis
  proof (cases "opcode = BT_ATT_OP_ERROR_RSP \<and> length pdu = 4")
    case False
    then have "(if opcode = BT_ATT_OP_ERROR_RSP then handle_error_rsp E c p pdu a else Some (False, get_req_opcode opcode, a)) =
        Some (False, if opcode = BT_ATT_OP_ERROR_RSP then 0 else get_req_opcode opcode, a)"
      by (simp add: handle_error_rsp_def)
    then show ?thesis using fin op assms(2) Ptr by (simp add: handle_rsp_def)
  next
    case True
    obtain r l where cs: "change_security E c (pdu ! 3) a = Some (r, a\<lparr>at_chan := (at_chan a)(c \<mapsto> ch\<lparr>ch_sec_level := l\<rparr>)\<rparr>)"
      "wf_att hs cs H (a\<lparr>at_chan := (at_chan a)(c \<mapsto> ch\<lparr>ch_sec_level := l\<rparr>)\<rparr>)" using change_security_ok [OF assms] by blast
    let ?ch = "ch\<lparr>ch_sec_level := l\<rparr>" let ?a = "a\<lparr>at_chan := (at_chan a)(c \<mapsto> ?ch)\<rparr>"
    have ch: "at_chan ?a c = Some ?ch" "ch_pending_req ?ch = Ptr p" using Ptr by simp_all
    show ?thesis
    proof (cases r)
      case False
      then have "handle_error_rsp E c p pdu a = Some (False, pdu ! 0, ?a)"
        using True cs(1) by (simp add: handle_error_rsp_def rd8_def)
      then show ?thesis using finish_req_ok [OF cs(2) ch] op assms(2) Ptr True by (simp add: handle_rsp_def del: fun_upd_apply)
    next
      case retry: True
      define op' where "op' = (if op_timeout_id op \<noteq> 0 then op\<lparr>op_timeout_id := 0\<rparr> else op)"
      define ts where "ts = (if op_timeout_id op \<noteq> 0 then filter (\<lambda>(j, _). j \<noteq> op_timeout_id op) (at_timers a) else at_timers a)"
      let ?b = "?a\<lparr>at_timers := ts, at_op := (at_op a)(p \<mapsto> op')\<rparr>"
      have "op_ok op'" "op_type op' = op_type op" using wf_op [OF assms(1) op] by (simp_all add: op'_def op_ok_def)
      then have b: "wf_att hs cs H ?b" using wf_op_update [of hs cs H "?a\<lparr>at_timers := ts\<rparr>" p op op'] cs(2) op by simp
      have chb: "at_chan ?b c = Some ?ch" by simp
      let ?c = "?b\<lparr>at_chan := (at_chan a)(c \<mapsto> ?ch\<lparr>ch_pending_req := NULL\<rparr>)\<rparr>"
      have c: "wf_att hs cs (add_mset p H) ?c"
        using wf_chan_update [OF b chb, of "add_mset p H" "?ch\<lparr>ch_pending_req := NULL\<rparr>"] wf_chan [OF b chb] Ptr
        by (simp add: chan_held_def chan_ok_def)
      have k: "kind (at_op ?b) p = Some ATT_OP_TYPE_REQ" using wf_chan [OF b chb] Ptr by (simp add: chan_ok_def)
      let ?d = "?c\<lparr>at_req_queue := p # at_req_queue a\<rparr>"
      have d: "wf_att hs cs H ?d"
        by (rule wf_req_queue [OF c]) (use wf_kinds(1) [OF c] k in \<open>simp_all del: fun_upd_apply\<close>)
      have chd: "at_chan ?d c = Some (?ch\<lparr>ch_pending_req := NULL\<rparr>)" by simp
      obtain m where m: "wakeup_chan_writer E c ?d = Some (?d\<lparr>at_chan := m\<rparr>)" "wf_att hs cs H (?d\<lparr>at_chan := m\<rparr>)"
        using wakeup_chan_ok [OF d chd, of E] by blast
      have "handle_error_rsp E c p pdu a = Some (True, pdu ! 0, ?d)"
      proof (cases "op_timeout_id op = 0")
        case z: True
        then have "?b = ?a" using op by (cases a) (simp add: op'_def ts_def fun_upd_idem)
        then have "?d = ?a\<lparr>at_chan := (at_chan a)(c \<mapsto> ?ch\<lparr>ch_pending_req := NULL\<rparr>), at_req_queue := p # at_req_queue a\<rparr>"
          by simp
        with z True cs(1) op retry show ?thesis by (simp add: handle_error_rsp_def rd8_def chan_update_def)
      next
        case False
        with True cs(1) op retry show ?thesis
          by (simp add: handle_error_rsp_def rd8_def chan_update_def op_update_def timeout_remove_def op'_def ts_def)
      qed
      with m True assms(2) Ptr show ?thesis by (simp add: handle_rsp_def)
    qed
  qed
qed

lemma shutdown_ok:
  assumes "wf_att hs cs H a" "at_chan a c = Some ch"
  shows "io_shutdown c a = Some (a\<lparr>at_chan := (at_chan a)(c \<mapsto> ch\<lparr>ch_shutdown := True\<rparr>)\<rparr>) \<and>
    wf_att hs cs H (a\<lparr>at_chan := (at_chan a)(c \<mapsto> ch\<lparr>ch_shutdown := True\<rparr>)\<rparr>)"
  using wf_chan_update [OF assms, of H "ch\<lparr>ch_shutdown := True\<rparr>"] wf_chan [OF assms] assms(2)
  by (simp add: chan_held_def chan_ok_def io_shutdown_def chan_update_def)

lemma handle_conf_ok:
  assumes "wf_att hs cs H a" "at_chan a c = Some ch"
  shows "\<exists>a'. handle_conf E c pdu a = Some a' \<and> wf_att hs cs H a' \<and> at_chans a' = at_chans a \<and>
    at_ref_count a' = at_ref_count a"
proof (cases "pdu = [] \<and> ch_pending_ind ch \<noteq> NULL")
  case False
  with shutdown_ok [OF assms] assms(2) show ?thesis by (auto simp: handle_conf_def split: ptr.split)
next
  case True
  then obtain p where p: "ch_pending_ind ch = Ptr p" by (cases "ch_pending_ind ch") auto
  obtain op where op: "at_op a p = Some op" using chan_dom(3) [OF assms p] by blast
  obtain a1 where a1: "(case op_callback op of NULL \<Rightarrow> Some a
      | Ptr f \<Rightarrow> ev_response E f BT_ATT_OP_HANDLE_CONF NULL 0 (op_user_data op) a) = Some a1"
    "wf_att hs cs H a1" "keeps a a1"
    using att_kept_case [of "\<lambda>f. ev_response E f BT_ATT_OP_HANDLE_CONF NULL 0 (op_user_data op)", OF response assms(1)] by blast
  obtain ch1 where ch1: "at_chan a1 c = Some ch1" "ch_pending_ind ch1 = Ptr p"
    using keeps_chan [OF a1(3) assms(2)] p by auto
  obtain b b' where b: "destroy_att_send_op E p a1 = Some b" "chan_update c (\<lambda>ch. ch\<lparr>ch_pending_ind := NULL\<rparr>) b = Some b'"
    "wf_att hs cs H b'" "at_chan b' = (at_chan a1)(c \<mapsto> ch1\<lparr>ch_pending_ind := NULL\<rparr>)" "at_chans b' = at_chans a1"
    "at_ref_count b' = at_ref_count a1" using pending_ind_done [OF a1(2) ch1] by blast
  have "at_chan b' c = Some (ch1\<lparr>ch_pending_ind := NULL\<rparr>)" unfolding b(4) by simp
  from wakeup_chan_ok [OF b(3) this, of E] obtain m where
    "wakeup_chan_writer E c b' = Some (b'\<lparr>at_chan := m\<rparr>)" "wf_att hs cs H (b'\<lparr>at_chan := m\<rparr>)" by blast
  with op a1 b True p assms(2) show ?thesis by (auto simp: handle_conf_def keeps_def)
qed

section \<open>Writing\<close>

lemma fits_Some: "set q \<subseteq> dom (at_op a) \<Longrightarrow> \<exists>b. fits a ch q = Some b \<and> (b \<longrightarrow> q \<noteq> [])"
  by (cases q) (auto simp: fits_def)

text \<open>What is picked is in hand, and a request only when none is pending; likewise an indication.\<close>

lemma pick_indication_ok:
  assumes "wf_att hs cs H a" "at_chan a c = Some ch"
  shows "\<exists>r a'. pick_indication ch a = Some (r, a') \<and> keeps a a' \<and> at_chan a' = at_chan a \<and> at_op a' = at_op a \<and>
    (r = NULL \<and> a' = a \<or> (\<exists>p. r = Ptr p \<and> wf_att hs cs (add_mset p H) a' \<and>
       kind (at_op a) p = Some ATT_OP_TYPE_IND \<and> ch_pending_ind ch = NULL))"
proof (cases "ch_pending_ind ch = NULL")
  case True
  obtain b where b: "fits a ch (at_ind_queue a) = Some b" "b \<Longrightarrow> at_ind_queue a \<noteq> []"
    using fits_Some [OF queue_dom(2) [OF assms(1)], of ch] by blast
  show ?thesis
  proof (cases b)
    case True
    then obtain p q where q: "at_ind_queue a = p # q" using b(2) by (cases "at_ind_queue a") auto
    have "wf_att hs cs (add_mset p H) (a\<lparr>at_ind_queue := q\<rparr>)"
      by (rule wf_ind_queue [OF assms(1)]) (use wf_kinds(2) [OF assms(1)] q in auto)
    then show ?thesis using True b(1) q \<open>ch_pending_ind ch = NULL\<close> wf_kinds(2) [OF assms(1), of p]
      by (simp add: pick_indication_def keeps_def)
  qed (use b(1) \<open>ch_pending_ind ch = NULL\<close> in \<open>simp add: pick_indication_def\<close>)
qed (simp add: pick_indication_def)

lemma pick_ok:
  assumes "wf_att hs cs H a" "at_chan a c = Some ch"
  shows "\<exists>r a' ch'. pick_next_send_op c a = Some (r, a') \<and> keeps a a' \<and> at_op a' = at_op a \<and> at_chan a' c = Some ch' \<and>
    ch_pending_req ch' = ch_pending_req ch \<and> ch_pending_ind ch' = ch_pending_ind ch \<and>
    (r = NULL \<and> a' = a \<or> (\<exists>p. r = Ptr p \<and> wf_att hs cs (add_mset p H) a' \<and>
       (kind (at_op a) p = Some ATT_OP_TYPE_REQ \<longrightarrow> ch_pending_req ch = NULL) \<and>
       (kind (at_op a) p = Some ATT_OP_TYPE_IND \<longrightarrow> ch_pending_ind ch = NULL)))"
proof (cases "ch_queue ch")
  case (Cons p q)
  let ?ch = "ch\<lparr>ch_queue := q\<rparr>"
  have "wf_att hs cs (add_mset p H) (a\<lparr>at_chan := (at_chan a)(c \<mapsto> ?ch)\<rparr>)"
    by (rule wf_chan_update [OF assms]) (use wf_chan [OF assms] Cons in \<open>simp_all add: chan_held_def chan_ok_def\<close>)
  moreover have "quiet (at_op a) p" using wf_chan [OF assms] Cons by (simp add: chan_ok_def)
  moreover have "keeps a (a\<lparr>at_chan := (at_chan a)(c \<mapsto> ?ch)\<rparr>)"
    using slot_chan_update [OF assms(2), of ?ch] by (simp add: keeps_def)
  ultimately show ?thesis using Cons assms(2) by (auto simp: pick_next_send_op_def chan_update_def quiet_def simp del: fun_upd_apply)
      (auto simp: fun_upd_apply)
next
  case Nil
  note ind = pick_indication_ok [OF assms]
  obtain w where w: "fits a ch (at_write_queue a) = Some w" "w \<Longrightarrow> at_write_queue a \<noteq> []"
    using fits_Some [OF queue_dom(3) [OF assms(1)], of ch] by blast
  obtain r where r: "fits a ch (at_req_queue a) = Some r" "r \<Longrightarrow> at_req_queue a \<noteq> []"
    using fits_Some [OF queue_dom(1) [OF assms(1)], of ch] by blast
  have indic: ?thesis if "pick_next_send_op c a = pick_indication ch a"
    using ind that assms(2) by auto
  show ?thesis
  proof (cases w)
    case True
    then obtain p q where q: "at_write_queue a = p # q" using w(2) by (cases "at_write_queue a") auto
    have "wf_att hs cs (add_mset p H) (a\<lparr>at_write_queue := q\<rparr>)"
      by (rule wf_write_queue [OF assms(1)]) (use wf_kinds(3) [OF assms(1)] q in auto)
    moreover have "quiet (at_op a) p" using wf_kinds(3) [OF assms(1)] q by simp
    ultimately show ?thesis using True w(1) q Nil assms(2) by (auto simp: pick_next_send_op_def keeps_def quiet_def)
  next
    case now: False
    show ?thesis
    proof (cases "ch_pending_req ch = NULL \<and> r")
      case False
      then have "pick_next_send_op c a = pick_indication ch a"
        using now w(1) r(1) Nil assms(2) by (auto simp: pick_next_send_op_def)
      then show ?thesis by (rule indic)
    next
      case True
      then obtain p q where q: "at_req_queue a = p # q" using r(2) by (cases "at_req_queue a") auto
      have "p \<in> dom (at_op a)" using queue_dom(1) [OF assms(1)] q by auto
      then obtain op where op: "at_op a p = Some op" by blast
      show ?thesis
      proof (cases "op_opcode op = BT_ATT_OP_MTU_REQ \<and> ch_type ch = BT_ATT_EATT")
        case blocked: True
        then have "pick_next_send_op c a = pick_indication ch a"
          using now w(1) r(1) Nil assms(2) True q op by (simp add: pick_next_send_op_def)
        then show ?thesis by (rule indic)
      next
        case False
        have "wf_att hs cs (add_mset p H) (a\<lparr>at_req_queue := q\<rparr>)"
          by (rule wf_req_queue [OF assms(1)]) (use wf_kinds(1) [OF assms(1)] q in auto)
        moreover have "kind (at_op a) p = Some ATT_OP_TYPE_REQ" using wf_kinds(1) [OF assms(1)] q by simp
        moreover have "pick_next_send_op c a = Some (Ptr p, a\<lparr>at_req_queue := q\<rparr>)"
          using now w(1) r(1) Nil assms(2) True q op False by (auto simp: pick_next_send_op_def)
        ultimately show ?thesis using True assms(2) by (simp add: keeps_def)
      qed
    qed
  qed
qed

end

end
