(* ===== verification/TransportLoop.thy ===== *)
theory TransportLoop
  imports TransportRun
begin

text \<open>
  The main loop keeps the invariant, continued: the write handler, the timer, the read handler, the
  last reference and the closed socket.
\<close>

section \<open>The write handler and the timer\<close>

lemma write_ok:
  assumes "wf_att hs cs H a" "at_chan a c = Some ch" "at_op a p = Some op"
  shows "\<exists>s. bt_att_chan_write E c (op_pdu op) (op_len op) a =
    Some (ev_send E (ch_fd ch) (op_pdu op), a\<lparr>at_sent := s\<rparr>)"
proof -
  have "rd (op_pdu op) 0 (unat (op_len op)) = Some (op_pdu op)"
    using wf_op [OF assms(1,3)] by (simp add: op_ok_def rd_def)
  then have "bt_att_chan_write E c (op_pdu op) (op_len op) a = Some (ev_send E (ch_fd ch) (op_pdu op),
      a\<lparr>at_sent := (if ev_send E (ch_fd ch) (op_pdu op) < 0 then at_sent a
        else at_sent a @ [(ch_fd ch, take (nat (ev_send E (ch_fd ch) (op_pdu op))) (op_pdu op))])\<rparr>)"
    using assms(2) by (simp add: bt_att_chan_write_def Let_def)
  then show ?thesis by blast
qed

lemma start_timeout_ok:
  assumes "wf_att hs cs H a" "at_op a p = Some op"
  shows "\<exists>a'. start_timeout c p a = Some a' \<and> wf_att hs cs H a' \<and> keeps a a' \<and> at_chan a' = at_chan a"
proof -
  let ?n = "Suc (at_timer_brk a)"
  let ?a = "a\<lparr>at_timer_brk := ?n, at_timers := at_timers a @ [(?n, c, op_id op)]\<rparr>"
  have "op_ok (op\<lparr>op_timeout_id := ?n\<rparr>)" using wf_op [OF assms] by (simp add: op_ok_def)
  then have "wf_att hs cs H (?a\<lparr>at_op := (at_op a)(p \<mapsto> op\<lparr>op_timeout_id := ?n\<rparr>)\<rparr>)"
    using wf_op_update [of hs cs H ?a p op] assms by simp
  then show ?thesis using assms(2) by (simp add: start_timeout_def timeout_add_def op_update_def Let_def keeps_def)
qed

text \<open>A request that was written becomes the pending one.\<close>

lemma pend_req_ok:
  assumes "wf_att hs cs (add_mset p H) a" "at_chan a c = Some ch" "ch_pending_req ch = NULL"
    "kind (at_op a) p = Some ATT_OP_TYPE_REQ"
  shows "wf_att hs cs H (a\<lparr>at_chan := (at_chan a)(c \<mapsto> ch\<lparr>ch_pending_req := Ptr p\<rparr>)\<rparr>)"
  by (rule wf_chan_update [OF assms(1,2)])
    (use assms(3,4) wf_chan [OF assms(1,2)] in \<open>simp_all add: chan_held_def chan_ok_def\<close>)

lemma pend_ind_ok:
  assumes "wf_att hs cs (add_mset p H) a" "at_chan a c = Some ch" "ch_pending_ind ch = NULL"
    "kind (at_op a) p = Some ATT_OP_TYPE_IND"
  shows "wf_att hs cs H (a\<lparr>at_chan := (at_chan a)(c \<mapsto> ch\<lparr>ch_pending_ind := Ptr p\<rparr>)\<rparr>)"
  by (rule wf_chan_update [OF assms(1,2)])
    (use assms(3,4) wf_chan [OF assms(1,2)] in \<open>simp_all add: chan_held_def chan_ok_def\<close>)

lemma flag_chan_ok:
  assumes "wf_att hs cs H a" "at_chan a c = Some ch" "chan_held ch' = chan_held ch"
    "chan_ok (at_op a) ch \<Longrightarrow> chan_ok (at_op a) ch'"
  shows "wf_att hs cs H (a\<lparr>at_chan := (at_chan a)(c \<mapsto> ch')\<rparr>)"
  by (rule wf_chan_update [OF assms(1,2)]) (use assms(3,4) wf_chan [OF assms(1,2)] in simp_all)

context client_contract
begin


lemma can_write_data_ok:
  assumes "wf_att hs cs H a" "at_chan a c = Some ch"
  shows "\<exists>r a'. can_write_data E c a = Some (r, a') \<and> wf_att hs cs H a' \<and> at_chans a' = at_chans a \<and>
    at_ref_count a' = at_ref_count a"
proof -
  obtain r a1 ch1 where pick: "pick_next_send_op c a = Some (r, a1)" "keeps a a1" "at_op a1 = at_op a" "at_chan a1 c = Some ch1"
      "ch_pending_req ch1 = ch_pending_req ch" "ch_pending_ind ch1 = ch_pending_ind ch"
    and dis: "r = NULL \<and> a1 = a \<or> (\<exists>p. r = Ptr p \<and> wf_att hs cs (add_mset p H) a1 \<and>
       (kind (at_op a) p = Some ATT_OP_TYPE_REQ \<longrightarrow> ch_pending_req ch = NULL) \<and>
       (kind (at_op a) p = Some ATT_OP_TYPE_IND \<longrightarrow> ch_pending_ind ch = NULL))"
    using pick_ok [OF assms] by blast
  from dis show ?thesis
  proof (elim disjE exE conjE)
    assume "r = NULL" "a1 = a"
    with pick assms show ?thesis by (simp add: can_write_data_def)
  next
    fix p assume r: "r = Ptr p" and w: "wf_att hs cs (add_mset p H) a1"
      and free: "kind (at_op a) p = Some ATT_OP_TYPE_REQ \<longrightarrow> ch_pending_req ch = NULL"
        "kind (at_op a) p = Some ATT_OP_TYPE_IND \<longrightarrow> ch_pending_ind ch = NULL"
    have "p \<in> dom (at_op a1)" using wf_mem [OF w] by simp
    then obtain op where op: "at_op a1 p = Some op" by blast
    obtain s where s: "bt_att_chan_write E c (op_pdu op) (op_len op) a1 =
        Some (ev_send E (ch_fd ch1) (op_pdu op), a1\<lparr>at_sent := s\<rparr>)" using write_ok [OF w pick(4) op] by blast
    let ?a2 = "a1\<lparr>at_sent := s\<rparr>"
    have w2: "wf_att hs cs (add_mset p H) ?a2" and ch2: "at_chan ?a2 c = Some ch1" and op2: "at_op ?a2 p = Some op"
      using w pick(4) op by simp_all
    have k: "at_chans ?a2 = at_chans a" "at_ref_count ?a2 = at_ref_count a" using pick(2) by (simp_all add: keeps_def)
    have step: "can_write_data E c a = (if ev_send E (ch_fd ch1) (op_pdu op) = 0
        then do { a \<leftarrow> disc_att_send_op E p ?a2; Some (True, a) }
        else (case op_type op of
              ATT_OP_TYPE_REQ \<Rightarrow> do {
                a \<leftarrow> chan_update c (\<lambda>ch. ch\<lparr>ch_pending_req := Ptr p\<rparr>) ?a2;
                a \<leftarrow> start_timeout c p a;
                Some (True, a) }
            | ATT_OP_TYPE_IND \<Rightarrow> do {
                a \<leftarrow> chan_update c (\<lambda>ch. ch\<lparr>ch_pending_ind := Ptr p\<rparr>) ?a2;
                a \<leftarrow> start_timeout c p a;
                Some (True, a) }
            | ATT_OP_TYPE_RSP \<Rightarrow> do {
                a \<leftarrow> chan_update c (\<lambda>ch. ch\<lparr>ch_in_req := False\<rparr>) ?a2;
                a \<leftarrow> destroy_att_send_op E p a;
                Some (True, a) }
            | _ \<Rightarrow> do { a \<leftarrow> destroy_att_send_op E p ?a2; Some (True, a) }))"
      using pick(1) r op s by (simp add: can_write_data_def cong: att_op_type.case_cong)
    show ?thesis
    proof (cases "ev_send E (ch_fd ch1) (op_pdu op) = 0")
      case True
      from disc_op_ok [OF w2] obtain a3 where "disc_att_send_op E p ?a2 = Some a3" "wf_att hs cs H a3" "keeps ?a2 a3" by blast
      with True step k show ?thesis by (simp add: keeps_def)
    next
      case False
      have kd: "kind (at_op ?a2) p = Some (op_type op)" using op2 by (simp add: kind_def)
      have d: "\<exists>a3. destroy_att_send_op E p b = Some a3 \<and> wf_att hs cs H a3 \<and> keeps b a3"
        if "wf_att hs cs (add_mset p H) b" for b using destroy_op_ok [OF that] .
      show ?thesis
      proof (cases "op_type op")
        case ATT_OP_TYPE_REQ
        let ?a3 = "?a2\<lparr>at_chan := (at_chan ?a2)(c \<mapsto> ch1\<lparr>ch_pending_req := Ptr p\<rparr>)\<rparr>"
        have "ch_pending_req ch1 = NULL" using free(1) kd ATT_OP_TYPE_REQ pick(3,5) by simp
        from pend_req_ok [OF w2 ch2 this] have w3: "wf_att hs cs H ?a3" using kd ATT_OP_TYPE_REQ by simp
        from start_timeout_ok [OF w3, of p op c] op2 obtain a4 where
          "start_timeout c p ?a3 = Some a4" "wf_att hs cs H a4" "keeps ?a3 a4" by auto
        with False step k ATT_OP_TYPE_REQ ch2 show ?thesis by (simp add: chan_update_def keeps_def)
      next
        case ATT_OP_TYPE_IND
        let ?a3 = "?a2\<lparr>at_chan := (at_chan ?a2)(c \<mapsto> ch1\<lparr>ch_pending_ind := Ptr p\<rparr>)\<rparr>"
        have "ch_pending_ind ch1 = NULL" using free(2) kd ATT_OP_TYPE_IND pick(3,6) by simp
        from pend_ind_ok [OF w2 ch2 this] have w3: "wf_att hs cs H ?a3" using kd ATT_OP_TYPE_IND by simp
        from start_timeout_ok [OF w3, of p op c] op2 obtain a4 where
          "start_timeout c p ?a3 = Some a4" "wf_att hs cs H a4" "keeps ?a3 a4" by auto
        with False step k ATT_OP_TYPE_IND ch2 show ?thesis by (simp add: chan_update_def keeps_def)
      next
        case ATT_OP_TYPE_RSP
        let ?a3 = "?a2\<lparr>at_chan := (at_chan ?a2)(c \<mapsto> ch1\<lparr>ch_in_req := False\<rparr>)\<rparr>"
        have "wf_att hs cs (add_mset p H) ?a3"
          by (rule flag_chan_ok [OF w2 ch2]) (simp_all add: chan_held_def chan_ok_def)
        from d [OF this] False step k ATT_OP_TYPE_RSP ch2 show ?thesis by (auto simp: chan_update_def keeps_def)
      qed (use d [OF w2] False step k in \<open>auto simp: keeps_def\<close>)
    qed
  qed
qed

lemma wf_chan_in: "wf_att hs cs H a \<Longrightarrow> c \<in> set (at_chans a) \<Longrightarrow> \<exists>ch. at_chan a c = Some ch"
  using chans_dom [of hs cs H a] by auto

lemma write_ready_ok:
  assumes "wf_att hs cs H a" "c \<in> set (at_chans a)"
  shows "\<exists>a'. write_ready E c a = Some a' \<and> wf_att hs cs H a' \<and> at_chans a' = at_chans a \<and>
    at_ref_count a' = at_ref_count a"
proof -
  obtain ch where "at_chan a c = Some ch" using wf_chan_in [OF assms] by blast
  from can_write_data_ok [OF assms(1) this] obtain r a1 where a1: "can_write_data E c a = Some (r, a1)"
    "wf_att hs cs H a1" "at_chans a1 = at_chans a" "at_ref_count a1 = at_ref_count a" by blast
  obtain ch1 where ch1: "at_chan a1 c = Some ch1" using wf_chan_in [OF a1(2)] a1(3) assms(2) by auto
  have "wf_att hs cs H (a1\<lparr>at_chan := (at_chan a1)(c \<mapsto> ch1\<lparr>ch_writer_active := False\<rparr>)\<rparr>)"
    by (rule flag_chan_ok [OF a1(2) ch1]) (simp_all add: chan_held_def chan_ok_def)
  with a1 ch1 show ?thesis by (simp add: write_ready_def write_watch_destroy_def chan_update_def)
qed

lemma timeout_cb_ok:
  assumes "wf_att hs cs H a" "at_chan a c = Some ch"
  shows "\<exists>a'. timeout_cb E c i a = Some a' \<and> wf_att hs cs H a' \<and> at_chans a' = at_chans a \<and>
    at_ref_count a' = at_ref_count a"
proof -
  define ch' where "ch' r = (if r then ch\<lparr>ch_pending_req := NULL\<rparr> else ch\<lparr>ch_pending_ind := NULL\<rparr>)" for r
  obtain req where req: "pending_id (ch_pending_req ch) i a = Some req" "req \<Longrightarrow> ch_pending_req ch \<noteq> NULL"
    using pending_id_Some [of "ch_pending_req ch" a i] chan_dom(2) [OF assms] by blast
  obtain ind where ind: "pending_id (ch_pending_ind ch) i a = Some ind" "ind \<Longrightarrow> ch_pending_ind ch \<noteq> NULL"
    using pending_id_Some [of "ch_pending_ind ch" a i] chan_dom(3) [OF assms] by blast
  show ?thesis
  proof (cases "req \<or> ind")
    case False
    with req ind assms show ?thesis by (simp add: timeout_cb_def pending_id_def)
  next
    case True
    define q where "q = (if req then ch_pending_req ch else ch_pending_ind ch)"
    obtain p where p: "q = Ptr p" using True req(2) ind(2) unfolding q_def by (metis ptr.exhaust)
    let ?a = "a\<lparr>at_chan := (at_chan a)(c \<mapsto> ch' req)\<rparr>"
    have w: "wf_att hs cs (add_mset p H) ?a"
      by (rule wf_chan_update [OF assms])
        (use p wf_chan [OF assms] in \<open>auto simp: q_def ch'_def chan_held_def chan_ok_def split: if_splits\<close>)
    have "p \<in> dom (at_op ?a)" using wf_mem [OF w] by simp
    then obtain op where op: "at_op ?a p = Some op" by blast
    obtain b where b: "(case at_timeout_callback ?a of NULL \<Rightarrow> Some ?a
        | Ptr f \<Rightarrow> ev_timeout E f (op_id op) (op_opcode op) (at_timeout_data ?a) ?a) = Some b"
      "wf_att hs cs (add_mset p H) b" "keeps ?a b"
      using att_kept_case [of "\<lambda>f. ev_timeout E f (op_id op) (op_opcode op) (at_timeout_data ?a)", OF timeout w] by blast
    have "p \<in> dom (at_op b)" using wf_mem [OF b(2)] by simp
    then obtain op1 where op1: "at_op b p = Some op1" by blast
    let ?b = "b\<lparr>at_op := (at_op b)(p \<mapsto> op1\<lparr>op_timeout_id := 0\<rparr>)\<rparr>"
    have "op_ok (op1\<lparr>op_timeout_id := 0\<rparr>)" using wf_op [OF b(2) op1] by (simp add: op_ok_def)
    then have wb: "wf_att hs cs (add_mset p H) ?b" using wf_op_update [OF b(2) op1] by simp
    obtain d where d: "disc_att_send_op E p ?b = Some d" "wf_att hs cs H d" "keeps ?b d" using disc_op_ok [OF wb] by blast
    have kd: "keeps ?a d" using keeps_trans [OF b(3), of d] d(3) by (simp add: keeps_def)
    from keeps_chan [OF this, of c] obtain chd where chd: "at_chan d c = Some chd" by auto
    have "timeout_cb E c i a = io_shutdown c d"
      using req(1) ind(1) True assms(2) p op b(1) op1 d(1)
      by (cases req) (simp_all add: timeout_cb_def pending_id_def chan_update_def op_update_def q_def ch'_def cong: ptr.case_cong)
    with shutdown_ok [OF d(2) chd] kd show ?thesis by (simp add: keeps_def)
  qed
qed

end

section \<open>The read handler\<close>

lemma verify_Some:
  assumes "crypto_ok k" "length key = 16" "unat n \<le> length pdu"
  shows "\<exists>b. bt_crypto_verify_att_sign k key pdu n = Some b"
proof (cases "n < 12")
  case False
  then have n: "unat (n - 12) = unat n - 12" "12 \<le> unat n"
    by (simp_all add: unat_sub not_less word_le_nat_alt)
  have un: "unat n < 65536" by (rule order.strict_trans2 [OF unsigned_less]) simp
  then have l: "unat (n - 12) \<le> length pdu" "unat (n - 12) + 4 < 65536" using n assms(3) by linarith+
  have "unat (n - 12) + 4 \<le> length pdu" using n assms(3) by linarith
  then obtain cnt where "get_le32 pdu (unat (n - 12)) = Some cnt" by (auto simp: get_le32_def rd_def)
  moreover obtain r where "bt_crypto_sign_att k key pdu (n - 12) cnt = Some r"
    using sign_att_Some [OF assms(1,2) l] by blast
  moreover have "\<exists>s. rd pdu (unat (n - 12)) 12 = Some s" using n assms(3) by (simp add: rd_def)
  ultimately show ?thesis using False by (auto simp: bt_crypto_verify_att_sign_def Let_def split: option.split)
qed (simp add: bt_crypto_verify_att_sign_def)

lemma first_entry_simps [simp]: "first_entry [] = NULL" "first_entry (n # l) = Ptr n"
  by (simp_all add: first_entry_def)

lemma next_in_app: "distinct (pre @ n # l) \<Longrightarrow> next_in n (pre @ n # l) = first_entry l"
  by (induction pre) (auto split: list.split simp: first_entry_def)

lemma handle_signed_ok:
  assumes "wf_att hs cs H a" "len \<le> int (length pdu)" "length pdu < 65536"
  shows "\<exists>v w. handle_signed E pdu len a = Some (v, a\<lparr>at_client := w\<rparr>)"
proof (cases "len < 15 \<or> at_remote_sign a = NULL")
  case True
  then have "handle_signed E pdu len a = Some (False, a\<lparr>at_client := at_client a\<rparr>)" by (auto simp: handle_signed_def)
  then show ?thesis by blast
next
  case False
  then obtain sign where s: "at_remote_sign a = Ptr sign" by (cases "at_remote_sign a") auto
  have ok: "length (sg_key sign) = 16" "sg_counter sign \<noteq> NULL" "crypto_ok (at_crypto a)"
    using wf_parts [OF assms(1)] s by (auto simp: sign_ok_def)
  then obtain f where f: "sg_counter sign = Ptr f" by (cases "sg_counter sign") auto
  have "nat (len - 12) + 4 \<le> length pdu" using False assms(2) by linarith
  then obtain cnt where cnt: "get_le32 pdu (nat (len - 12)) = Some cnt"
    by (auto simp: get_le32_def rd_def)
  obtain okc n w where ev: "ev_counter E f cnt (sg_user_data sign) (at_client a) = ((okc, n), w)" by (metis prod.exhaust)
  have "unat (word_of_int len :: u16) = nat len" using False assms(2,3) unat_of_nat_16 [of "nat len"] by simp
  then have "unat (word_of_int len :: u16) \<le> length pdu" using assms(2) by simp
  from verify_Some [OF ok(3,1) this] obtain b where "bt_crypto_verify_att_sign (at_crypto a) (sg_key sign) pdu (word_of_int len) = Some b" by blast
  with False s f cnt ev show ?thesis by (auto simp: handle_signed_def Let_def)
qed

context client_contract
begin

text \<open>The loop over the handlers that are left, \<open>l\<close>.\<close>

lemma notify_loop_ok:
  assumes "wf_att hs cs H a" "at_notify_list a = pre @ l" "pdu \<noteq> []" "length pdu < 65536" "len \<le> int (length pdu)"
    "c \<in> set (at_chans a)"
  shows "\<exists>r a'. notify_loop E c pdu len found (first_entry l) a = Some (r, a') \<and> wf_att hs cs H a' \<and> keeps a a'"
  using assms
proof (induction l arbitrary: pre a found len)
  case Nil
  then show ?case by (simp add: notify_loop.simps [of _ _ _ _ _ NULL])
next
  case (Cons n l)
  note w = Cons.prems(1) and lst = Cons.prems(2)
  have lo: "distinct (at_notify_list a)" "n \<in> dom (at_notify a)"
    using wf_parts [OF w] lst by (auto simp: handlers_ok_def list_of_def split: prod.splits)
  then obtain h where h: "at_notify a n = Some h" by blast
  have nx: "next_in n (at_notify_list a) = first_entry l" using next_in_app lo(1) unfolding lst by blast
  obtain opcode where opc: "rd8 pdu 0 = Some opcode" using Cons.prems(3) by (auto simp: rd8_def)
  note step = notify_loop.simps [of E c pdu len found "Ptr n" a]
  have IH: "\<exists>r b. notify_loop E c pdu k fd (first_entry l) a1 = Some (r, b) \<and> wf_att hs cs H b \<and> keeps a b"
    if "wf_att hs cs H a1" "keeps a a1" "k \<le> len" for k fd a1
  proof -
    have "at_notify_list a1 = (pre @ [n]) @ l" "c \<in> set (at_chans a1)" using that(2) lst Cons.prems(6) by (simp_all add: keeps_def)
    from Cons.IH [OF that(1) this(1) Cons.prems(3,4) _ this(2), of k fd] that(3) Cons.prems(5)
    show ?thesis using keeps_trans [OF that(2)] by fastforce
  qed
  show ?case
  proof (cases "opcode_match (ucast (nt_opcode h)) opcode")
    case False
    with step h opc nx lst IH [OF w keeps_refl order_refl, of found] show ?thesis by simp
  next
    case True
    define sgn where "sgn = (opcode AND ATT_OP_SIGNED_MASK \<noteq> 0 \<and> at_crypto a \<noteq> NULL)"
    obtain v k w1 where v: "(if sgn then do { (v, a) \<leftarrow> handle_signed E pdu len a; Some (v, len - 12, a) }
        else Some (True, len, a)) = Some (v, k, a\<lparr>at_client := w1\<rparr>)" "k \<le> len"
    proof (cases sgn)
      case True
      obtain v w1 where "handle_signed E pdu len a = Some (v, a\<lparr>at_client := w1\<rparr>)"
        using handle_signed_ok [OF w Cons.prems(5,4)] by blast
      with that [of v "len - 12" w1] True show thesis by simp
    next
      case False
      with that [of True len "at_client a"] show thesis by simp
    qed
    let ?a1 = "a\<lparr>at_client := w1\<rparr>"
    have w1: "wf_att hs cs H ?a1" "keeps a ?a1" using w by (simp_all add: keeps_def)
    obtain ch where ch: "at_chan ?a1 c = Some ch" using wf_chan_in [OF w Cons.prems(6)] by auto
    have "at_chans ?a1 \<noteq> []" using Cons.prems(6) by auto
    then obtain link where link: "bt_att_get_link_type (Ptr ?a1) = Some link"
      using wf_chan_in [OF w last_in_set] by (auto simp: bt_att_get_link_type_def)
    obtain a2 where a2: "(case nt_callback h of NULL \<Rightarrow> Some ?a1
        | Ptr f \<Rightarrow> ev_notify E f c opcode (drop 1 pdu) (word_of_int (k - 1)) (nt_user_data h) ?a1) = Some a2"
      "wf_att hs cs H a2" "keeps ?a1 a2"
      using att_kept_case [of "\<lambda>f. ev_notify E f c opcode (drop 1 pdu) (word_of_int (k - 1)) (nt_user_data h)", OF notify w1(1)] by blast
    have ka: "keeps a a2" using keeps_trans [OF w1(2) a2(3)] .
    have ne: "at_notify_list a2 \<noteq> []" using ka lst by (simp add: keeps_def)
    have red: "notify_loop E c pdu len found (Ptr n) a =
        (if \<not> v then Some (None, ?a1)
         else if (link = BT_ATT_BREDR \<or> ch_type ch = BT_ATT_EATT) \<and> opcode = BT_ATT_OP_MTU_REQ then Some (Some found, ?a1)
         else notify_loop E c pdu k True (first_entry l) a2)"
      using True h opc nx lst v(1) ch link a2(1) ne unfolding sgn_def [symmetric] step by (simp add: sgn_def [symmetric])
    show ?thesis unfolding first_entry_simps red using w1 IH [OF a2(2) ka v(2), of True] by simp
  qed
qed

end

end
