(* ===== verification/TransportEnd.thy ===== *)
theory TransportEnd
  imports TransportLoop
begin

text \<open>
  The read handler, the closed socket and the last reference: reading keeps the invariant and the
  references of the client, a closed socket takes its channel away, and the last reference frees every
  object, each once.
\<close>

section \<open>Sending, as a whole\<close>

lemma send_ok:
  assumes "wf_att hs cs H a" "body_ok pdu len"
  shows "\<exists>i a'. bt_att_send E opcode pdu len callback user_data destroy (Ptr a) = Some (i, Ptr a') \<and>
    wf_att hs cs H a' \<and> keeps a a'"
proof (cases rule: send_cases [OF assms, of E opcode callback user_data destroy])
  case (1 w)
  with assms(1) show ?thesis by (simp add: keeps_def)
next
  case (2 w op m)
  let ?s = "sent_state opcode (next_id (at_next_send_id a)) op w a"
  have "keeps a ?s" "at_chan ?s = at_chan a"
    by (cases "get_op_type opcode"; simp add: sent_state_def enqueue_def keeps_def)+
  moreover have "slot (?s\<lparr>at_chan := m\<rparr>) = slot ?s" using slot_same_chans [of ?s m] 2(4) calculation(2) by simp
  ultimately have "keeps a (?s\<lparr>at_chan := m\<rparr>)" by (simp add: keeps_def)
  with 2(1,5) show ?thesis by blast
qed

lemma respond_ok:
  assumes "wf_att hs cs H a"
  shows "\<exists>a'. respond_not_supported E opcode a = Some a' \<and> wf_att hs cs H a' \<and> keeps a a'"
proof -
  have "body_ok (Ptr [opcode, 0, 0, 6]) 4" by (simp add: body_ok_def)
  from send_ok [OF assms this] obtain i a1 where
    "bt_att_send E BT_ATT_OP_ERROR_RSP (Ptr [opcode, 0, 0, 0x06]) 4 NULL NULL NULL (Ptr a) = Some (i, Ptr a1)"
    "wf_att hs cs H a1" "keeps a a1" by blast
  then show ?thesis by (simp add: respond_not_supported_def)
qed

lemma unref_keep:
  assumes "wf_att hs cs H a" "at_ref_count a \<noteq> 1"
  shows "bt_att_unref E a = Some (a\<lparr>at_ref_count := at_ref_count a - 1\<rparr>)"
  using assms by (simp add: bt_att_unref_def wf_live)

section \<open>The read handler\<close>

context client_contract
begin

text \<open>A signature that does not verify leaves one reference behind.\<close>

lemma handle_notify_ok:
  assumes "wf_att hs cs H a" "c \<in> set (at_chans a)" "pdu \<noteq> []" "length pdu < 65536" "0 < at_ref_count a"
  shows "\<exists>a' k. handle_notify E c pdu a = Some a' \<and> wf_att hs cs H a' \<and> at_chans a' = at_chans a \<and>
    at_ref_count a' = at_ref_count a + k \<and> (k = 0 \<or> k = 1)"
proof -
  let ?a = "bt_att_ref a"
  have w: "wf_att hs cs H ?a" "c \<in> set (at_chans ?a)" "at_notify_list ?a = [] @ at_notify_list ?a"
    using assms(1,2) by (simp_all add: bt_att_ref_def)
  obtain r a1 where a1: "notify_loop E c pdu (int (length pdu)) False (first_entry (at_notify_list ?a)) ?a = Some (r, a1)"
    "wf_att hs cs H a1" "keeps ?a a1" using notify_loop_ok [OF w(1,3) assms(3,4) order_refl w(2)] by blast
  obtain opcode where opc: "rd8 pdu 0 = Some opcode" using assms(3) by (auto simp: rd8_def)
  have rc: "at_ref_count a1 = at_ref_count a + 1" "at_chans a1 = at_chans a" using a1(3) by (simp_all add: keeps_def bt_att_ref_def)
  show ?thesis
  proof (cases r)
    case None
    with opc a1 rc show ?thesis by (simp add: handle_notify_def Let_def)
  next
    case (Some found)
    obtain a2 where a2: "(if \<not> found \<and> get_op_type opcode \<noteq> ATT_OP_TYPE_CMD then respond_not_supported E opcode a1 else Some a1) = Some a2"
      "wf_att hs cs H a2" "keeps a1 a2"
      using respond_ok [OF a1(2), of E opcode] a1(2) by (cases "\<not> found \<and> get_op_type opcode \<noteq> ATT_OP_TYPE_CMD") auto
    have rc2: "at_ref_count a2 = at_ref_count a + 1" "at_chans a2 = at_chans a" using a2(3) rc by (simp_all add: keeps_def)
    then have "bt_att_unref E a2 = Some (a2\<lparr>at_ref_count := at_ref_count a\<rparr>)"
      using unref_keep [OF a2(2), of E] assms(5) by simp
    with opc a1(1) Some a2 rc2 show ?thesis by (simp add: handle_notify_def Let_def)
  qed
qed

lemma can_read_data_ok:
  assumes "wf_att hs cs H a" "c \<in> set (at_chans a)" "0 < at_ref_count a"
  shows "\<exists>r a' k. can_read_data E c input a = Some (r, a') \<and> wf_att hs cs H a' \<and> at_chans a' = at_chans a \<and>
    at_ref_count a' = at_ref_count a + k \<and> (k = 0 \<or> k = 1)"
proof -
  obtain ch where ch: "at_chan a c = Some ch" using wf_chan_in [OF assms(1,2)] by blast
  have ok: "chan_ok (at_op a) ch" using wf_chan [OF assms(1) ch] .
  show ?thesis
  proof (cases input)
    case None
    with ch assms(1) show ?thesis by (simp add: can_read_data_def)
  next
    case (Some inp)
    define pk where "pk = take (unat (ch_mtu ch)) inp"
    have lp: "length pk \<le> unat (ch_mtu ch)" by (simp add: pk_def)
    moreover have "unat (ch_mtu ch) < 65536" by (rule order.strict_trans2 [OF unsigned_less]) simp
    ultimately have l16: "length pk < 65536" by simp
    obtain buf where buf: "wr (ch_buf ch) 0 pk = Some buf" "length buf = length (ch_buf ch)"
      using lp ok by (auto simp: wr_def chan_ok_def)
    let ?ch = "ch\<lparr>ch_buf := buf\<rparr>" let ?a = "a\<lparr>at_chan := (at_chan a)(c \<mapsto> ?ch)\<rparr>"
    have w: "wf_att hs cs H ?a" by (rule flag_chan_ok [OF assms(1) ch]) (simp_all add: chan_held_def chan_ok_def buf(2))
    show ?thesis
    proof (cases "pk = []")
      case True
      with Some ch buf w show ?thesis
        by (simp add: can_read_data_def chan_update_def pk_def [symmetric] Let_def del: take_eq_Nil take_eq_Nil2)
    next
      case False
      then obtain opcode where opc: "rd8 pk 0 = Some opcode" by (auto simp: rd8_def)
      define b where "b = bt_att_ref ?a"
      have b: "wf_att hs cs H b" "at_chan b c = Some ?ch" "at_chans b = at_chans a" "at_ref_count b = at_ref_count a + 1"
        "c \<in> set (at_chans b)" "0 < at_ref_count b"
        using w assms(2,3) by (simp_all add: b_def bt_att_ref_def)
      define F where "F x \<longleftrightarrow> (\<exists>r a' k. x = Some (r :: bool, a') \<and> wf_att hs cs H a' \<and> at_chans a' = at_chans a \<and>
        at_ref_count a' = at_ref_count a + k \<and> (k = 0 \<or> k = 1))"
        for x :: "(bool \<times> ('f, 'u, 'w) bt_att) option"
      have un: "F (do { d \<leftarrow> bt_att_unref E d; Some (x, d) })"
        if "wf_att hs cs H d" "at_chans d = at_chans a" "at_ref_count d = at_ref_count a + 1 + k" "k = 0 \<or> k = 1" for d k x
      proof -
        have "bt_att_unref E d = Some (d\<lparr>at_ref_count := at_ref_count a + k\<rparr>)"
          using unref_keep [OF that(1), of E] that(3,4) assms(3) by auto
        with that show ?thesis by (auto simp: F_def)
      qed
      have rsp: "F (do { d \<leftarrow> handle_rsp E c opcode (drop 1 pk) b; d \<leftarrow> bt_att_unref E d; Some (True, d) })"
        using handle_rsp_ok [OF b(1,2), of opcode "drop 1 pk"] un [of _ 0] b(3,4) by auto
      have conf: "F (do { d \<leftarrow> handle_conf E c (drop 1 pk) b; d \<leftarrow> bt_att_unref E d; Some (True, d) })"
        using handle_conf_ok [OF b(1,2), of "drop 1 pk"] un [of _ 0] b(3,4) by auto
      have nfy: "F (do { d \<leftarrow> handle_notify E c pk d; d \<leftarrow> bt_att_unref E d; Some (True, d) })"
        if d: "wf_att hs cs H d" "at_chans d = at_chans b" "at_ref_count d = at_ref_count b" for d
        using handle_notify_ok [OF d(1) _ False l16] b(3-6) d(2,3) un by fastforce
      have shut: "F (do { d \<leftarrow> io_shutdown c b; d \<leftarrow> bt_att_unref E d; Some (False, d) })"
        using shutdown_ok [OF b(1,2)] un [of _ 0] b(3,4) by auto
      have inreq: "F (do { d \<leftarrow> chan_update c (\<lambda>ch. ch\<lparr>ch_in_req := True\<rparr>) b; d \<leftarrow> handle_notify E c pk d;
          d \<leftarrow> bt_att_unref E d; Some (True, d) })"
      proof -
        have "wf_att hs cs H (b\<lparr>at_chan := (at_chan b)(c \<mapsto> ?ch\<lparr>ch_in_req := True\<rparr>)\<rparr>)"
          by (rule flag_chan_ok [OF b(1,2)]) (simp_all add: chan_held_def chan_ok_def)
        from nfy [OF this] b(2) show ?thesis by (simp add: chan_update_def del: fun_upd_apply)
      qed
      have "F (can_read_data E c input a)"
      proof (cases "get_op_type opcode")
        case ATT_OP_TYPE_REQ
        with Some False ch buf(1) opc shut inreq show ?thesis
          by (simp add: can_read_data_def chan_update_def pk_def [symmetric] b_def [symmetric] Let_def
            del: take_eq_Nil take_eq_Nil2)
      qed (use Some False ch buf(1) opc rsp conf nfy [OF b(1)] in
        \<open>simp_all add: can_read_data_def chan_update_def pk_def [symmetric] b_def [symmetric] Let_def
          del: take_eq_Nil take_eq_Nil2\<close>)
      then show ?thesis by (simp only: F_def)
    qed
  qed
qed

end

section \<open>Channels in hand\<close>

lemma chans_held_mset: "chans_held m cs = (\<Sum>c\<in>#mset cs. case m c of None \<Rightarrow> {#} | Some ch \<Rightarrow> chan_held ch)"
  by (induction cs) simp_all

text \<open>A function may take channels out of the list of the transport and keep them in its hands.\<close>

lemma wf_chans_move:
  assumes "wf_att hs cs H a" "mset (cs' @ l) = mset (cs @ at_chans a)"
  shows "wf_att hs cs' H (a\<lparr>at_chans := l\<rparr>)"
proof -
  have "chans_held (at_chan a) (cs' @ l) = chans_held (at_chan a) (cs @ at_chans a)"
    unfolding chans_held_mset assms(2) ..
  then have "held cs' (a\<lparr>at_chans := l\<rparr>) = held cs a" by (simp add: held_def)
  moreover have "distinct (cs' @ l)" "set (cs' @ l) = dom (at_chan a)"
    using wf_parts [OF assms(1)] mset_eq_imp_distinct_iff [OF assms(2)] mset_eq_setD [OF assms(2)] by (auto simp: chans_ok_def)
  ultimately show ?thesis using wf_owned [OF assms(1)] wf_parts [OF assms(1)]
    by (intro wf_attI [OF assms(1)]) (simp_all add: ops_ok_def queues_ok_def handlers_ok_def chans_ok_def)
qed

section \<open>The last reference\<close>

definition queues :: "('f, 'u, 'w) bt_att \<Rightarrow> nat list \<times> nat list \<times> nat list" where
  "queues a = (at_req_queue a, at_ind_queue a, at_write_queue a)"

lemma each_same:
  assumes "each f xs s = Some s'" "\<And>x s s'. f x s = Some s' \<Longrightarrow> g s' = g s"
  shows "g s' = g s"
  using assms(1)
proof (induction xs arbitrary: s)
  case (Cons x xs)
  then obtain t where "f x s = Some t" "each f xs t = Some s'" by (auto split: bind_splits)
  with Cons.IH [of t] assms(2) show ?case by metis
qed simp

text \<open>Nothing is left of the transport.\<close>

definition gone :: "('f, 'u, 'w) bt_att \<Rightarrow> bool" where
  "gone a \<longleftrightarrow> at_freed a \<and> dom (at_op a) = {} \<and> dom (at_chan a) = {} \<and> dom (at_notify a) = {} \<and>
     dom (at_disconn a) = {} \<and> dom (at_exchange a) = {}"

context destroy_contract
begin

lemma destroy_op_queues: "destroy_att_send_op E p a = Some a' \<Longrightarrow> queues a' = queues a"
proof -
  assume d: "destroy_att_send_op E p a = Some a'"
  then obtain op where "at_op a p = Some op" by (auto simp: destroy_att_send_op_def split: bind_splits)
  from destroy_op_Some [OF this] d show ?thesis by (auto simp: queues_def)
qed

lemma cancel_op_queues: "cancel_att_send_op E p a = Some a' \<Longrightarrow> queues a' = queues a"
proof -
  assume d: "cancel_att_send_op E p a = Some a'"
  then obtain op where op: "at_op a p = Some op" by (auto simp: cancel_att_send_op_def split: bind_splits)
  obtain w where "call_destroy E (op_destroy op) (op_user_data op) a = Some (a\<lparr>at_client := w\<rparr>)" using call_destroy_Some by blast
  with d op show ?thesis by (auto simp: cancel_att_send_op_def op_update_def queues_def)
qed

lemma cancel_pending_queues: "cancel_pending E c a = Some a' \<Longrightarrow> queues a' = queues a"
  by (auto simp: cancel_pending_def split: bind_splits ptr.splits dest!: cancel_op_queues)

lemma cancel_all_queues:
  assumes "cancel_all E a = Some a'"
  shows "queues a' = ([], [], [])"
proof -
  obtain a1 a2 a3 where
    1: "each (destroy_att_send_op E) (at_req_queue a) (a\<lparr>at_req_queue := []\<rparr>) = Some a1" and
    2: "each (destroy_att_send_op E) (at_ind_queue a1) (a1\<lparr>at_ind_queue := []\<rparr>) = Some a2" and
    3: "each (destroy_att_send_op E) (at_write_queue a2) (a2\<lparr>at_write_queue := []\<rparr>) = Some a3" and
    4: "each (cancel_pending E) (at_chans a3) a3 = Some a'"
    using assms by (auto simp: cancel_all_def split: bind_splits)
  note q = each_same [where g = queues, OF _ destroy_op_queues]
  from q [OF 1] q [OF 2] q [OF 3] each_same [where g = queues, OF 4 cancel_pending_queues] show ?thesis
    by (simp add: queues_def)
qed

lemma each_chan_free_ok:
  "wf_att hs (ds @ cs) H a \<Longrightarrow>
     \<exists>a'. each (bt_att_chan_free E) ds a = Some a' \<and> wf_att hs cs H a' \<and> queues a' = queues a \<and> at_chans a' = at_chans a \<and>
       at_notify_list a' = at_notify_list a \<and> at_disconn_list a' = at_disconn_list a \<and> at_exchange_list a' = at_exchange_list a"
proof (induction ds arbitrary: a)
  case (Cons c ds)
  have "c \<in> dom (at_chan a)" using chans_dom [OF Cons.prems] by auto
  then obtain ch where "at_chan a c = Some ch" by blast
  with chan_free_ok [of hs c "ds @ cs" H a ch] Cons.prems obtain a1 where
    a1: "bt_att_chan_free E c a = Some a1" "wf_att hs (ds @ cs) H a1" "queues a1 = queues a" "at_chans a1 = at_chans a"
      "at_notify_list a1 = at_notify_list a" "at_disconn_list a1 = at_disconn_list a" "at_exchange_list a1 = at_exchange_list a"
    by (auto simp: queues_def)
  from Cons.IH [OF a1(2)] a1 show ?case by auto
qed simp

lemma wf_gone:
  assumes "wf_att ([], [], []) [] {#} a" "at_chans a = []" "queues a = ([], [], [])"
    "at_notify_list a = []" "at_disconn_list a = []" "at_exchange_list a = []"
  shows "gone (a\<lparr>at_freed := True\<rparr>)"
proof -
  have "held [] a = {#}" using assms(2,3) by (simp add: held_def queues_def)
  then have "mset_set (dom (at_op a)) = {#}" using wf_owned [OF assms(1)] by simp
  then have "dom (at_op a) = {}" using wf_finite [OF assms(1)] by (metis mset_set_empty_iff)
  moreover have "dom (at_chan a) = {}" using chans_dom [OF assms(1)] assms(2) by simp
  moreover have "dom (at_notify a) = {} \<and> dom (at_disconn a) = {} \<and> dom (at_exchange a) = {}"
    using handlers_dest [OF assms(1)] assms(4-6) by (auto simp: list_of_def)
  ultimately show ?thesis by (simp add: gone_def)
qed

lemma last_ref_frees:
  assumes "wf_att ([], [], []) [] {#} a" "at_ref_count a = 1"
  shows "\<exists>a'. bt_att_unref E a = Some a' \<and> gone a'"
proof -
  let ?a = "a\<lparr>at_ref_count := 0\<rparr>"
  have "wf_att ([], [], []) [] {#} ?a" using assms(1) by simp
  from unregister_all_ok [OF this] obtain a1 where
    a1: "unregister_all E ?a = Some a1" "wf_att ([], [], []) [] {#} a1" "at_notify_list a1 = []" "at_disconn_list a1 = []"
      "at_exchange_list a1 = []" by blast
  from cancel_all_ok [OF a1(2)] obtain a2 where
    a2: "cancel_all E a1 = Some a2" "wf_att ([], [], []) [] {#} a2" "keeps a1 a2" by blast
  obtain w where w: "call_destroy E (at_timeout_destroy a2) (at_timeout_data a2) a2 = Some (a2\<lparr>at_client := w\<rparr>)"
    using call_destroy_Some by blast
  let ?a3 = "a2\<lparr>at_client := w, at_chans := []\<rparr>"
  have "wf_att ([], [], []) (at_chans a2 @ []) {#} ((a2\<lparr>at_client := w\<rparr>)\<lparr>at_chans := []\<rparr>)"
    by (rule wf_chans_move [of _ "[]"]) (use a2(2) in simp_all)
  then have "wf_att ([], [], []) (at_chans a2 @ []) {#} ?a3" by simp
  from each_chan_free_ok [OF this] obtain a4 where
    a4: "each (bt_att_chan_free E) (at_chans a2) ?a3 = Some a4" "wf_att ([], [], []) [] {#} a4" "queues a4 = queues ?a3"
      "at_chans a4 = []" "at_notify_list a4 = at_notify_list a2" "at_disconn_list a4 = at_disconn_list a2"
      "at_exchange_list a4 = at_exchange_list a2" by auto
  have "queues a4 = ([], [], [])" using a4(3) cancel_all_queues [OF a2(1)] by (simp add: queues_def)
  from wf_gone [OF a4(2,4) this] a4(5-7) a2(3) a1(3-5) have "gone (a4\<lparr>at_freed := True\<rparr>)" by (simp add: keeps_def)
  moreover have "bt_att_unref E a = Some (a4\<lparr>at_freed := True\<rparr>)"
    using assms a1(1) a2(1) w a4(1) by (simp add: bt_att_unref_def wf_live bt_att_free_def Let_def)
  ultimately show ?thesis by blast
qed

end

section \<open>The closed socket\<close>

context client_contract
begin

lemma disc_pending_ok:
  assumes "wf_att hs cs H a" "at_chan a c = Some ch"
  shows "\<exists>a' ch'. disc_pending E c a = Some a' \<and> wf_att hs cs H a' \<and> at_chan a' c = Some ch' \<and> at_chans a' = at_chans a \<and>
    at_ref_count a' = at_ref_count a \<and> ch_pending_req ch' = NULL \<and> ch_pending_ind ch' = NULL"
proof -
  have req: "\<exists>a1 ch1. (case ch_pending_req ch of NULL \<Rightarrow> Some a
        | Ptr p \<Rightarrow> do { a \<leftarrow> disc_att_send_op E p a; chan_update c (\<lambda>ch. ch\<lparr>ch_pending_req := NULL\<rparr>) a }) = Some a1 \<and>
      wf_att hs cs H a1 \<and> at_chan a1 c = Some ch1 \<and> ch_pending_req ch1 = NULL \<and> ch_pending_ind ch1 = ch_pending_ind ch \<and>
      at_chans a1 = at_chans a \<and> at_ref_count a1 = at_ref_count a"
  proof (cases "ch_pending_req ch")
    case (Ptr p)
    obtain b where b: "call_failed E p a = Some b" "wf_att hs cs H b" "keeps a b"
      using call_failed_ok [OF assms(1) chan_dom(2) [OF assms Ptr]] by blast
    obtain chb where chb: "at_chan b c = Some chb" "ch_pending_req chb = Ptr p" "ch_pending_ind chb = ch_pending_ind ch"
      using keeps_chan [OF b(3) assms(2)] Ptr by auto
    from pending_req_done [OF b(2) chb(1,2)] b(1,3) chb(3) Ptr show ?thesis by (auto simp: disc_att_send_op_def keeps_def)
  qed (use assms in simp)
  then obtain a1 ch1 where 1: "(case ch_pending_req ch of NULL \<Rightarrow> Some a
        | Ptr p \<Rightarrow> do { a \<leftarrow> disc_att_send_op E p a; chan_update c (\<lambda>ch. ch\<lparr>ch_pending_req := NULL\<rparr>) a }) = Some a1"
      "wf_att hs cs H a1" "at_chan a1 c = Some ch1" "ch_pending_req ch1 = NULL" "ch_pending_ind ch1 = ch_pending_ind ch"
      "at_chans a1 = at_chans a" "at_ref_count a1 = at_ref_count a" by blast
  show ?thesis
  proof (cases "ch_pending_ind ch")
    case NULL
    with 1 assms show ?thesis by (simp add: disc_pending_def)
  next
    case (Ptr p)
    then have p: "ch_pending_ind ch1 = Ptr p" using 1(5) by simp
    obtain b where b: "call_failed E p a1 = Some b" "wf_att hs cs H b" "keeps a1 b"
      using call_failed_ok [OF 1(2) chan_dom(3) [OF 1(2,3) p]] by blast
    obtain chb where chb: "at_chan b c = Some chb" "ch_pending_ind chb = Ptr p" "ch_pending_req chb = NULL"
      using keeps_chan [OF b(3) 1(3)] p 1(4) by auto
    from pending_ind_done [OF b(2) chb(1,2)] b(1,3) chb(3) p 1 assms(2) show ?thesis
      by (auto simp: disc_pending_def disc_att_send_op_def keeps_def)
  qed
qed

lemma foreach_ok:
  assumes "wf_att hs cs H a" "queue a = pre @ l"
    and q: "\<And>a b. keeps a b \<Longrightarrow> queue b = queue a" "\<And>a. wf_att hs cs H a \<Longrightarrow> distinct (queue a)"
    and f: "\<And>n a. wf_att hs cs H a \<Longrightarrow> n \<in> set (queue a) \<Longrightarrow> \<exists>a'. f n a = Some a' \<and> wf_att hs cs H a' \<and> keeps a a'"
  shows "\<exists>a'. foreach_entry queue f (first_entry l) a = Some a' \<and> wf_att hs cs H a' \<and> keeps a a'"
  using assms(1,2)
proof (induction l arbitrary: pre a)
  case Nil
  then show ?case by (simp add: foreach_entry.simps [of _ _ NULL])
next
  case (Cons n l)
  then obtain a1 where a1: "f n a = Some a1" "wf_att hs cs H a1" "keeps a a1" using f [of a n] by auto
  have nx: "next_in n (queue a) = first_entry l" using next_in_app q(2) [OF Cons.prems(1)] unfolding Cons.prems(2) by blast
  have "queue a1 = (pre @ [n]) @ l" using q(1) [OF a1(3)] Cons.prems(2) by simp
  from Cons.IH [OF a1(2) this] obtain a2 where
    "foreach_entry queue f (first_entry l) a1 = Some a2" "wf_att hs cs H a2" "keeps a1 a2" by blast
  then show ?case using a1 nx Cons.prems(2) keeps_trans [OF a1(3)]
    by (simp add: foreach_entry.simps [of _ _ "Ptr n"])
qed

lemma disconn_handlers_ok:
  assumes "wf_att hs cs H a"
  shows "\<exists>a'. foreach_entry at_disconn_list (disconn_handler E err) (first_entry (at_disconn_list a)) a = Some a' \<and>
    wf_att hs cs H a' \<and> keeps a a'"
proof (rule foreach_ok [where pre = "[]"])
  fix n and b :: "('f, 'u, 'w) bt_att" assume w: "wf_att hs cs H b" "n \<in> set (at_disconn_list b)"
  then have "n \<in> dom (at_disconn b)" using wf_parts [OF w(1)] by (auto simp: handlers_ok_def list_of_def split: prod.splits)
  then obtain h where h: "at_disconn b n = Some h" by blast
  show "\<exists>a'. disconn_handler E err n b = Some a' \<and> wf_att hs cs H a' \<and> keeps b a'"
    using att_kept_case [of "\<lambda>f. ev_disconn E f err (dn_user_data h)", OF disconn w(1)] h w(1)
    by (cases "dn_removed h") (simp_all add: disconn_handler_def)
next
  show "distinct (at_disconn_list b)" if "wf_att hs cs H b" for b :: "('f, 'u, 'w) bt_att"
    using wf_parts [OF that] by (auto simp: handlers_ok_def list_of_def split: prod.splits)
qed (use assms in \<open>simp_all add: keeps_def\<close>)

lemma exchange_handlers_ok:
  assumes "wf_att hs cs H a"
  shows "\<exists>a'. foreach_entry at_exchange_list (exchange_handler E mtu) (first_entry (at_exchange_list a)) a = Some a' \<and>
    wf_att hs cs H a' \<and> keeps a a'"
proof (rule foreach_ok [where pre = "[]"])
  fix n and b :: "('f, 'u, 'w) bt_att" assume w: "wf_att hs cs H b" "n \<in> set (at_exchange_list b)"
  then have "n \<in> dom (at_exchange b)" using wf_parts [OF w(1)] by (auto simp: handlers_ok_def list_of_def split: prod.splits)
  then obtain h where h: "at_exchange b n = Some h" by blast
  show "\<exists>a'. exchange_handler E mtu n b = Some a' \<and> wf_att hs cs H a' \<and> keeps b a'"
    using att_kept_case [of "\<lambda>f. ev_exchange E f mtu (dn_user_data h)", OF exchange w(1)] h w(1)
    by (cases "dn_removed h") (simp_all add: exchange_handler_def)
next
  show "distinct (at_exchange_list b)" if "wf_att hs cs H b" for b :: "('f, 'u, 'w) bt_att"
    using wf_parts [OF that] by (auto simp: handlers_ok_def list_of_def split: prod.splits)
qed (use assms in \<open>simp_all add: keeps_def\<close>)

lemma each_disc_queues_ok:
  assumes "wf_att hs cs H a"
  shows "\<exists>a1 a2 a3. each (disc_att_send_op E) (at_req_queue a) (a\<lparr>at_req_queue := []\<rparr>) = Some a1 \<and>
    each (disc_att_send_op E) (at_ind_queue a1) (a1\<lparr>at_ind_queue := []\<rparr>) = Some a2 \<and>
    each (disc_att_send_op E) (at_write_queue a2) (a2\<lparr>at_write_queue := []\<rparr>) = Some a3 \<and>
    wf_att hs cs H a3 \<and> keeps a a3"
proof -
  have "wf_att hs cs (mset (at_req_queue a) + H) (a\<lparr>at_req_queue := []\<rparr>)"
    by (rule wf_req_queue [OF assms]) simp_all
  from each_disc_ok [OF this] obtain a1 where
    a1: "each (disc_att_send_op E) (at_req_queue a) (a\<lparr>at_req_queue := []\<rparr>) = Some a1" "wf_att hs cs H a1" "keeps a a1"
    by (auto simp: keeps_def)
  have "wf_att hs cs (mset (at_ind_queue a1) + H) (a1\<lparr>at_ind_queue := []\<rparr>)"
    by (rule wf_ind_queue [OF a1(2)]) simp_all
  from each_disc_ok [OF this] obtain a2 where
    a2: "each (disc_att_send_op E) (at_ind_queue a1) (a1\<lparr>at_ind_queue := []\<rparr>) = Some a2" "wf_att hs cs H a2" "keeps a1 a2"
    by (auto simp: keeps_def)
  have "wf_att hs cs (mset (at_write_queue a2) + H) (a2\<lparr>at_write_queue := []\<rparr>)"
    by (rule wf_write_queue [OF a2(2)]) simp_all
  from each_disc_ok [OF this] obtain a3 where
    "each (disc_att_send_op E) (at_write_queue a2) (a2\<lparr>at_write_queue := []\<rparr>) = Some a3" "wf_att hs cs H a3" "keeps a2 a3"
    by (auto simp: keeps_def)
  with a1 a2 show ?thesis by (meson keeps_trans)
qed

lemma disconnect_ok:
  assumes "wf_att ([], [], []) [] {#} a" "c \<in> set (at_chans a)" "0 < at_ref_count a"
  shows "\<exists>a'. disconnect_cb E c a = Some a' \<and> wf_att ([], [], []) [] {#} a' \<and> at_chans a' = remove1 c (at_chans a) \<and>
    at_ref_count a' = at_ref_count a \<and>
    (at_chans a' = [] \<longrightarrow> at_notify_list a' = [] \<and> at_disconn_list a' = [] \<and> at_exchange_list a' = [])"
proof -
  let ?r = "remove1 c (at_chans a)"
  obtain ch where ch: "at_chan a c = Some ch" using wf_chan_in [OF assms(1,2)] by blast
  define err where "err = (case ev_so_error E (ch_fd ch) of None \<Rightarrow> 0 | Some e \<Rightarrow> e)"
  have w0: "wf_att ([], [], []) [c] {#} (a\<lparr>at_chans := ?r\<rparr>)"
    by (rule wf_chans_move [OF assms(1)]) (use assms(2) in simp)
  obtain a1 ch1 where a1: "disc_pending E c (a\<lparr>at_chans := ?r\<rparr>) = Some a1" "wf_att ([], [], []) [c] {#} a1" "at_chan a1 c = Some ch1"
    "at_chans a1 = ?r" "at_ref_count a1 = at_ref_count a"
    using disc_pending_ok [OF w0, of c ch] ch by auto
  obtain a2 where a2: "bt_att_chan_free E c a1 = Some a2" "wf_att ([], [], []) [] {#} a2" "at_chans a2 = ?r"
    "at_ref_count a2 = at_ref_count a" using chan_free_ok [OF a1(2,3)] a1(4,5) by auto
  have live: "att_live a2 = Some ()" using wf_live [OF a2(2)] .
  show ?thesis
  proof (cases "?r = []")
    case False
    with ch a1(1) a2 live show ?thesis by (simp add: disconnect_cb_def Let_def)
  next
    case True
    let ?b = "(bt_att_ref a2)\<lparr>at_in_disc := True\<rparr>"
    have wb: "wf_att ([], [], []) [] {#} ?b" using a2(2) by (simp add: bt_att_ref_def)
    obtain b1 b2 b3 where b: "each (disc_att_send_op E) (at_req_queue ?b) (?b\<lparr>at_req_queue := []\<rparr>) = Some b1"
      "each (disc_att_send_op E) (at_ind_queue b1) (b1\<lparr>at_ind_queue := []\<rparr>) = Some b2"
      "each (disc_att_send_op E) (at_write_queue b2) (b2\<lparr>at_write_queue := []\<rparr>) = Some b3"
      "wf_att ([], [], []) [] {#} b3" "keeps ?b b3" using each_disc_queues_ok [OF wb] by blast
    let ?c = "b3\<lparr>at_in_disc := False\<rparr>"
    have "wf_att ([], [], []) [] {#} ?c" using b(4) by simp
    from disconn_handlers_ok [OF this, of err] obtain d where
      d: "foreach_entry at_disconn_list (disconn_handler E err) (first_entry (at_disconn_list ?c)) ?c = Some d"
      "wf_att ([], [], []) [] {#} d" "keeps ?c d" by blast
    from unregister_all_ok [OF d(2)] obtain e where
      e: "unregister_all E d = Some e" "wf_att ([], [], []) [] {#} e" "stays d e" "at_notify_list e = []" "at_disconn_list e = []"
      "at_exchange_list e = []" by blast
    have r: "at_ref_count e = at_ref_count a + 1" "at_chans e = []"
      using e(3) d(3) b(5) a2(3,4) True by (simp_all add: keeps_def stays_def bt_att_ref_def)
    then have "bt_att_unref E e = Some (e\<lparr>at_ref_count := at_ref_count a\<rparr>)"
      using unref_keep [OF e(2), of E] assms(3) by simp
    then have "disconnect_cb E c a = Some (e\<lparr>at_ref_count := at_ref_count a\<rparr>)"
      using ch a1(1) a2(1,3) live True b(1-3) d(1) e(1) by (simp add: disconnect_cb_def Let_def err_def)
    with e r True show ?thesis by simp
  qed
qed

end

end
