(* ===== verification/TransportSteps.thy ===== *)
theory TransportSteps
  imports TransportEnd
begin

text \<open>
  The transport as a whole: the calls of a client and the events of the main loop, in any order, as
  steps; the steps that are allowed; and the states they reach.  Everything such a sequence can reach
  satisfies the invariant, and no step of it is undefined.
\<close>

section \<open>The rest of the interface\<close>

text \<open>A handler of the disconnection is removed or, without a channel, marked.\<close>

context destroy_contract
begin

lemma unregister_disconnect_ok:
  assumes "wf_att (ns, ds, xs) cs H a"
  shows "\<exists>r a'. bt_att_unregister_disconnect E i (Ptr a) = Some (r, Ptr a') \<and> wf_att (ns, ds, xs) cs H a' \<and> stays a a'"
proof (cases "i = 0")
  case False
  have l: "list_of ds (at_disconn_list a) (at_disconn a) (at_brk a)" using handlers_dest [OF assms] by simp
  obtain r where r: "find_id dn_id (at_disconn a) i (at_disconn_list a) = Some r" "\<And>n. r = Ptr n \<Longrightarrow> n \<in> set (at_disconn_list a)"
    using find_id_Some [OF list_of_dom [OF l], of dn_id i] by blast
  show ?thesis
  proof (cases r)
    case (Ptr n)
    then have n: "n \<in> dom (at_disconn a)" using r(2) list_of_dom [OF l] by blast
    then obtain h where h: "at_disconn a n = Some h" by blast
    show ?thesis
    proof (cases "at_chans a = []")
      case True
      have "wf_att (ns, ds, xs) cs H (a\<lparr>at_disconn_list := at_disconn_list a, at_disconn := (at_disconn a)(n \<mapsto> h\<lparr>dn_removed := True\<rparr>)\<rparr>)"
        by (rule wf_disconn_hand [OF assms]) (rule list_of_update [OF l n])
      with False r(1) Ptr True h show ?thesis by (simp add: bt_att_unregister_disconnect_def wf_live [OF assms] stays_def)
    next
      case has: False
      let ?a = "a\<lparr>at_disconn_list := remove1 n (at_disconn_list a)\<rparr>"
      have "wf_att (ns, n # ds, xs) cs H (a\<lparr>at_disconn_list := remove1 n (at_disconn_list a), at_disconn := at_disconn a\<rparr>)"
        by (rule wf_disconn_hand [OF assms]) (rule list_of_remove [OF l r(2) [OF Ptr]])
      then have "wf_att (ns, n # ds, xs) cs H ?a" by simp
      from destroy_disconn_ok [OF this] obtain a1 where
        "destroy_att_disconn E n ?a = Some a1" "wf_att (ns, ds, xs) cs H a1" "stays a a1" by (auto simp: stays_def keeps_def)
      with False r(1) Ptr has show ?thesis by (simp add: bt_att_unregister_disconnect_def wf_live [OF assms])
    qed
  qed (use False r(1) assms in \<open>simp add: bt_att_unregister_disconnect_def wf_live [OF assms]\<close>)
qed (use assms in \<open>simp add: bt_att_unregister_disconnect_def wf_live [OF assms]\<close>)

lemma unregister_exchange_ok:
  assumes "wf_att (ns, ds, xs) cs H a"
  shows "\<exists>r a'. bt_att_unregister_exchange E i (Ptr a) = Some (r, Ptr a') \<and> wf_att (ns, ds, xs) cs H a' \<and> stays a a'"
proof (cases "i = 0")
  case False
  have l: "list_of xs (at_exchange_list a) (at_exchange a) (at_brk a)" using handlers_dest [OF assms] by simp
  obtain r where r: "find_id dn_id (at_exchange a) i (at_exchange_list a) = Some r" "\<And>n. r = Ptr n \<Longrightarrow> n \<in> set (at_exchange_list a)"
    using find_id_Some [OF list_of_dom [OF l], of dn_id i] by blast
  show ?thesis
  proof (cases r)
    case (Ptr n)
    then have n: "n \<in> dom (at_exchange a)" using r(2) list_of_dom [OF l] by blast
    then obtain h where h: "at_exchange a n = Some h" by blast
    show ?thesis
    proof (cases "at_chans a = []")
      case True
      have "wf_att (ns, ds, xs) cs H (a\<lparr>at_exchange_list := at_exchange_list a, at_exchange := (at_exchange a)(n \<mapsto> h\<lparr>dn_removed := True\<rparr>)\<rparr>)"
        by (rule wf_exchange_hand [OF assms]) (rule list_of_update [OF l n])
      with False r(1) Ptr True h show ?thesis by (simp add: bt_att_unregister_exchange_def wf_live [OF assms] stays_def)
    next
      case has: False
      let ?a = "a\<lparr>at_exchange_list := remove1 n (at_exchange_list a)\<rparr>"
      have "wf_att (ns, ds, n # xs) cs H (a\<lparr>at_exchange_list := remove1 n (at_exchange_list a), at_exchange := at_exchange a\<rparr>)"
        by (rule wf_exchange_hand [OF assms]) (rule list_of_remove [OF l r(2) [OF Ptr]])
      then have "wf_att (ns, ds, n # xs) cs H ?a" by simp
      from destroy_exchange_ok [OF this] obtain a1 where
        "destroy_att_exchange E n ?a = Some a1" "wf_att (ns, ds, xs) cs H a1" "stays a a1" by (auto simp: stays_def keeps_def)
      with False r(1) Ptr has show ?thesis by (simp add: bt_att_unregister_exchange_def wf_live [OF assms])
    qed
  qed (use False r(1) assms in \<open>simp add: bt_att_unregister_exchange_def wf_live [OF assms]\<close>)
qed (use assms in \<open>simp add: bt_att_unregister_exchange_def wf_live [OF assms]\<close>)

end

lemma chan_new_ok: "bt_att_chan_new E fd type = Ptr ch \<Longrightarrow> chan_ok m ch \<and> chan_held ch = {#}"
  by (auto simp: bt_att_chan_new_def chan_ok_def chan_held_def Let_def not_less word_le_nat_alt split: if_splits)

lemma attach_ok:
  assumes "wf_att hs cs H a" "bt_att_chan_new E fd type = Ptr ch"
  shows "\<exists>a'. bt_att_attach_chan E ch a = Some a' \<and> wf_att hs cs H a' \<and> at_chans a' = at_brk a # at_chans a \<and>
    at_ref_count a' = at_ref_count a \<and> at_op a' = at_op a"
proof -
  let ?c = "at_brk a"
  let ?a = "a\<lparr>at_chan := (at_chan a)(?c \<mapsto> ch), at_brk := Suc ?c, at_chans := ?c # at_chans a\<rparr>"
  let ?b = "if at_mtu ?a < ch_mtu ch then ?a\<lparr>at_mtu := ch_mtu ch\<rparr> else ?a"
  have new: "?c \<notin> dom (at_chan a)" using wf_parts [OF assms(1)] by (auto simp: chans_ok_def)
  then have "chans_held ((at_chan a)(?c \<mapsto> ch)) (cs @ at_chans a) = chans_held (at_chan a) (cs @ at_chans a)"
    using chans_dom [OF assms(1)] by (intro chans_held_cong) auto
  moreover have "chan_held ch = {#}" using chan_new_ok [OF assms(2)] by blast
  ultimately have "held cs ?a = held cs a" by (simp add: held_def)
  then have "H + held cs ?a = mset_set (dom (at_op ?a))" using wf_owned [OF assms(1)] by simp
  moreover have "chans_ok cs ?a" using wf_parts [OF assms(1)] new chan_new_ok [OF assms(2)]
    by (auto simp: chans_ok_def less_Suc_eq)
  moreover have "ops_ok ?a" using wf_parts [OF assms(1)] by (auto simp: ops_ok_def less_Suc_eq)
  moreover have "handlers_ok hs ?a" using wf_parts [OF assms(1)] by (auto simp: handlers_ok_def list_of_brk split: prod.splits)
  ultimately have w: "wf_att hs cs H ?a" using wf_parts [OF assms(1)]
    by (intro wf_attI [OF assms(1)]) (simp_all add: queues_ok_def)
  then have wb: "wf_att hs cs H ?b" by simp
  have "at_chan ?b ?c = Some ch" by simp
  from wakeup_chan_ok [OF wb this, of E] obtain m where
    "wakeup_chan_writer E ?c ?b = Some (?b\<lparr>at_chan := m\<rparr>)" "wf_att hs cs H (?b\<lparr>at_chan := m\<rparr>)" by blast
  moreover have "bt_att_attach_chan E ch a = wakeup_chan_writer E ?c ?b" by (simp add: bt_att_attach_chan_def Let_def)
  ultimately show ?thesis by simp
qed

text \<open>A transport starts with its one channel and one reference.\<close>

lemma new_ok:
  assumes "crypto_ok crypto"
  shows "\<exists>r. bt_att_new E fd ext_signed crypto w = Some r \<and>
    (\<forall>a. r = Ptr a \<longrightarrow> wf_att ([], [], []) [] {#} a \<and> at_ref_count a = 1)"
proof (cases "bt_att_chan_new E fd (io_get_type E fd)")
  case (Ptr ch)
  define a0 :: "('a, 'b, 'c) bt_att" where "a0 = \<lparr>at_ref_count = 0, at_close_on_unref = False, at_chans = [], at_enc_size = 0, at_mtu = ch_mtu ch,
             at_notify_list = [], at_disconn_list = [], at_exchange_list = [], at_next_send_id = 0,
             at_next_reg_id = 0, at_req_queue = [], at_ind_queue = [], at_write_queue = [],
             at_in_disc = False, at_timeout_callback = NULL, at_timeout_destroy = NULL,
             at_timeout_data = NULL, at_crypto = (if ext_signed then NULL else crypto),
             at_local_sign = NULL, at_remote_sign = NULL, at_chan = Map.empty, at_op = Map.empty,
             at_notify = Map.empty, at_disconn = Map.empty, at_exchange = Map.empty, at_brk = 0,
             at_timers = [], at_timer_brk = 0, at_freed = False, at_sent = [], at_client = w\<rparr>"
  have "wf_att ([], [], []) [] {#} a0"
    using assms by (simp add: a0_def att_parts list_of_def sign_ok_def crypto_ok_def)
  from attach_ok [OF this Ptr] obtain a1 where
    "bt_att_attach_chan E ch a0 = Some a1" "wf_att ([], [], []) [] {#} a1" "at_ref_count a1 = 0" by (auto simp: a0_def)
  then show ?thesis using Ptr unfolding a0_def by (simp add: bt_att_new_def bt_att_ref_def)
qed (simp add: bt_att_new_def)

lemma set_key_ok: "16 \<le> length key \<Longrightarrow> f \<noteq> NULL \<Longrightarrow> \<exists>s. sign_set_key old key f u = Some s \<and> sign_ok s"
  by (simp add: sign_set_key_def rd_def sign_ok_def)

lemma wf_sign:
  "wf_att hs cs H a \<Longrightarrow> sign_ok s \<Longrightarrow> wf_att hs cs H (a\<lparr>at_local_sign := s\<rparr>)"
  "wf_att hs cs H a \<Longrightarrow> sign_ok s \<Longrightarrow> wf_att hs cs H (a\<lparr>at_remote_sign := s\<rparr>)"
  by (simp_all add: att_parts)

context client_contract
begin

lemma set_mtu_ok:
  assumes "wf_att hs cs H a"
  shows "\<exists>r a'. bt_att_set_mtu E mtu (Ptr a) = Some (r, Ptr a') \<and> wf_att hs cs H a' \<and> at_chans a' = at_chans a \<and>
    at_ref_count a' = at_ref_count a"
proof (cases "mtu < 23 \<or> at_chans a = [] \<or> \<not> ev_mem E")
  case True
  then show ?thesis using assms by (auto simp: bt_att_set_mtu_def wf_live [OF assms])
next
  case False
  let ?c = "last (at_chans a)"
  obtain ch where ch: "at_chan a ?c = Some ch" using wf_chan_in [OF assms last_in_set] False by blast
  let ?ch = "ch\<lparr>ch_mtu := mtu, ch_buf := map (ev_junk E) [0..<unat mtu]\<rparr>"
  let ?a = "a\<lparr>at_chan := (at_chan a)(?c \<mapsto> ?ch)\<rparr>"
  have w: "wf_att hs cs H ?a"
    by (rule flag_chan_ok [OF assms ch]) (use False in \<open>simp_all add: chan_held_def chan_ok_def not_less\<close>)
  show ?thesis
  proof (cases "at_mtu a < mtu")
    case True
    let ?b = "?a\<lparr>at_mtu := mtu\<rparr>"
    have "wf_att hs cs H ?b" using w by simp
    from exchange_handlers_ok [OF this, of mtu] obtain b where
      "foreach_entry at_exchange_list (exchange_handler E mtu) (first_entry (at_exchange_list ?b)) ?b = Some b"
      "wf_att hs cs H b" "keeps ?b b" by blast
    then show ?thesis using False True ch
      by (simp add: bt_att_set_mtu_def wf_live [OF assms] chan_update_def keeps_def Let_def)
  qed (use False ch w in \<open>simp add: bt_att_set_mtu_def wf_live [OF assms] chan_update_def\<close>)
qed

end

section \<open>Steps\<close>

text \<open>
  What can happen to the transport: a call of its client, each with its arguments, or an event that
  the main loop handles for a channel.
\<close>

datatype ('f, 'u) att_event =
    Send u8 "buf ptr" u16 "'f ptr" "'u ptr" "'f ptr"
  | Resend u32 u8 "buf ptr" u16 "'f ptr" "'u ptr" "'f ptr"
  | ChanSend nat u8 "buf ptr" u16 "'f ptr" "'u ptr" "'f ptr"
  | Cancel u32
  | CancelAll
  | Register u8 "'f ptr" "'u ptr" "'f ptr"
  | RegisterDisconnect "'f ptr" "'u ptr" "'f ptr"
  | RegisterExchange "'f ptr" "'u ptr" "'f ptr"
  | Unregister u32
  | UnregisterDisconnect u32
  | UnregisterExchange u32
  | UnregisterAll
  | SetMtu u16
  | SetSecurity int
  | SetTimeout "'f ptr" "'u ptr" "'f ptr"
  | SetLocalKey buf "'f ptr" "'u ptr"
  | SetRemoteKey buf "'f ptr" "'u ptr"
  | Attach int
  | TakeRef
  | DropRef
  | WriteReady nat
  | TimeOut nat u32
  | Incoming nat "buf option"
  | Closed nat

definition result_att :: "('r \<times> 's ptr) option \<Rightarrow> 's option" where
  "result_att r = do { (_, p) \<leftarrow> r; deref p }"

lemma result_att_Some [simp]: "result_att (Some (r, Ptr a)) = Some a"
  by (simp add: result_att_def)

fun run_event ::
    "('f, 'u, 'w) att_env \<Rightarrow> ('f, 'u) att_event \<Rightarrow> ('f, 'u, 'w) bt_att \<Rightarrow> ('f, 'u, 'w) bt_att option" where
  "run_event E (Send opcode pdu len f u d) a = result_att (bt_att_send E opcode pdu len f u d (Ptr a))"
| "run_event E (Resend i opcode pdu len f u d) a = result_att (bt_att_resend E i opcode pdu len f u d (Ptr a))"
| "run_event E (ChanSend c opcode pdu len f u d) a = map_option snd (bt_att_chan_send E c opcode pdu len f u d a)"
| "run_event E (Cancel i) a = result_att (bt_att_cancel E i (Ptr a))"
| "run_event E CancelAll a = result_att (bt_att_cancel_all E (Ptr a))"
| "run_event E (Register opcode f u d) a = result_att (bt_att_register opcode f u d (Ptr a))"
| "run_event E (RegisterDisconnect f u d) a = result_att (bt_att_register_disconnect f u d (Ptr a))"
| "run_event E (RegisterExchange f u d) a = result_att (bt_att_register_exchange f u d (Ptr a))"
| "run_event E (Unregister i) a = result_att (bt_att_unregister E i (Ptr a))"
| "run_event E (UnregisterDisconnect i) a = result_att (bt_att_unregister_disconnect E i (Ptr a))"
| "run_event E (UnregisterExchange i) a = result_att (bt_att_unregister_exchange E i (Ptr a))"
| "run_event E UnregisterAll a = result_att (bt_att_unregister_all E (Ptr a))"
| "run_event E (SetMtu mtu) a = result_att (bt_att_set_mtu E mtu (Ptr a))"
| "run_event E (SetSecurity level) a = result_att (bt_att_set_security E level (Ptr a))"
| "run_event E (SetTimeout f u d) a = result_att (bt_att_set_timeout_cb E f u d (Ptr a))"
| "run_event E (SetLocalKey key f u) a = result_att (bt_att_set_local_key key f u (Ptr a))"
| "run_event E (SetRemoteKey key f u) a = result_att (bt_att_set_remote_key key f u (Ptr a))"
| "run_event E (Attach fd) a = result_att (bt_att_attach_fd E fd (Ptr a))"
| "run_event E TakeRef a = Some (bt_att_ref a)"
| "run_event E DropRef a = bt_att_unref E a"
| "run_event E (WriteReady c) a = write_ready E c a"
| "run_event E (TimeOut c i) a = timeout_cb E c i a"
| "run_event E (Incoming c input) a = map_option snd (can_read_data E c input a)"
| "run_event E (Closed c) a = disconnect_cb E c a"

text \<open>
  What callers must respect: lengths within their buffers, functions for keys, channels that are
  there, no answered operation on a single channel, and a reference of one's own to drop.
\<close>

fun event_ok :: "('f, 'u) att_event \<Rightarrow> ('f, 'u, 'w) bt_att \<Rightarrow> bool" where
  "event_ok (Send opcode pdu len f u d) a = body_ok pdu len"
| "event_ok (Resend i opcode pdu len f u d) a = body_ok pdu len"
| "event_ok (ChanSend c opcode pdu len f u d) a =
     (body_ok pdu len \<and> c \<in> set (at_chans a) \<and> \<not> answered (get_op_type opcode))"
| "event_ok (SetLocalKey key f u) a = (16 \<le> length key \<and> f \<noteq> NULL)"
| "event_ok (SetRemoteKey key f u) a = (16 \<le> length key \<and> f \<noteq> NULL)"
| "event_ok DropRef a = (1 < at_ref_count a)"
| "event_ok (WriteReady c) a = (c \<in> set (at_chans a))"
| "event_ok (TimeOut c i) a = (c \<in> set (at_chans a))"
| "event_ok (Incoming c input) a = (c \<in> set (at_chans a))"
| "event_ok (Closed c) a = (c \<in> set (at_chans a))"
| "event_ok _ a = True"

inductive att_reach :: "('f, 'u, 'w) att_env \<Rightarrow> ('f, 'u, 'w) bt_att \<Rightarrow> bool" for E where
  created: "bt_att_new E fd ext_signed crypto w = Some (Ptr a) \<Longrightarrow> crypto_ok crypto \<Longrightarrow> att_reach E a"
| step: "att_reach E a \<Longrightarrow> event_ok e a \<Longrightarrow> run_event E e a = Some a' \<Longrightarrow> att_reach E a'"

inductive_cases att_reach_elim: "att_reach E a"

definition att_inv :: "('f, 'u, 'w) bt_att \<Rightarrow> bool" where
  "att_inv a \<longleftrightarrow> wf_att ([], [], []) [] {#} a \<and> 0 < at_ref_count a"

lemma att_invI:
  assumes "\<exists>r a'. x = Some (r, Ptr a') \<and> wf_att ([], [], []) [] {#} a' \<and> keeps a a'" "0 < at_ref_count a"
  shows "\<exists>a'. result_att x = Some a' \<and> att_inv a'"
  using assms by (auto simp: att_inv_def keeps_def)

lemma att_invI_stays:
  assumes "\<exists>r a'. x = Some (r, Ptr a') \<and> wf_att ([], [], []) [] {#} a' \<and> stays a a'" "0 < at_ref_count a"
  shows "\<exists>a'. result_att x = Some a' \<and> att_inv a'"
  using assms by (auto simp: att_inv_def stays_def)

context client_contract
begin

lemma cancel_all_call_ok:
  assumes "wf_att hs cs H a"
  shows "\<exists>r a'. bt_att_cancel_all E (Ptr a) = Some (r, Ptr a') \<and> wf_att hs cs H a' \<and> keeps a a'"
  using cancel_all_ok [OF assms] wf_live [OF assms] by (auto simp: bt_att_cancel_all_def)

lemma unregister_all_call_ok:
  assumes "wf_att (ns, ds, xs) cs H a"
  shows "\<exists>r a'. bt_att_unregister_all E (Ptr a) = Some (r, Ptr a') \<and> wf_att (ns, ds, xs) cs H a' \<and> stays a a'"
  using unregister_all_ok [OF assms] wf_live [OF assms] by (auto simp: bt_att_unregister_all_def)

lemma set_timeout_ok:
  assumes "wf_att hs cs H a"
  shows "\<exists>r a'. bt_att_set_timeout_cb E f u d (Ptr a) = Some (r, Ptr a') \<and> wf_att hs cs H a' \<and> keeps a a'"
proof -
  obtain w where "call_destroy E (at_timeout_destroy a) (at_timeout_data a) a = Some (a\<lparr>at_client := w\<rparr>)"
    using call_destroy_Some by blast
  with assms show ?thesis by (simp add: bt_att_set_timeout_cb_def wf_live [OF assms] keeps_def slot_def [abs_def])
qed

lemma set_security_ok:
  assumes "wf_att hs cs H a"
  shows "\<exists>r a'. bt_att_set_security E level (Ptr a) = Some (r, Ptr a') \<and> wf_att hs cs H a' \<and> keeps a a'"
proof (cases "level < 0 \<or> 3 < level \<or> at_chans a = []")
  case True
  with assms show ?thesis by (auto simp: bt_att_set_security_def wf_live [OF assms])
next
  case False
  let ?c = "last (at_chans a)"
  obtain ch where ch: "at_chan a ?c = Some ch" using wf_chan_in [OF assms last_in_set] False by blast
  let ?a = "a\<lparr>at_chan := (at_chan a)(?c \<mapsto> ch\<lparr>ch_sec_level := level\<rparr>)\<rparr>"
  have "wf_att hs cs H ?a" by (rule flag_chan_ok [OF assms ch]) (simp_all add: chan_held_def chan_ok_def)
  moreover have "keeps a ?a" using slot_chan_update [OF ch, of "ch\<lparr>ch_sec_level := level\<rparr>"] by (simp add: keeps_def)
  ultimately show ?thesis using False ch assms
    by (cases "ch_type ch = BT_ATT_LOCAL")
      (auto simp: bt_att_set_security_def wf_live [OF assms] bt_att_chan_set_security_def chan_update_def simp del: fun_upd_apply)
qed

text \<open>One step: it is defined, and keeps the invariant.\<close>

lemma step_ok:
  assumes "att_inv a" "event_ok e a"
  shows "\<exists>a'. run_event E e a = Some a' \<and> att_inv a'"
proof -
  have w: "wf_att ([], [], []) [] {#} a" and r: "0 < at_ref_count a" using assms(1) by (simp_all add: att_inv_def)
  show ?thesis
  proof (cases e)
    case (ChanSend c opcode pdu len f u d)
    then obtain ch where ch: "at_chan a c = Some ch" using wf_chan_in [OF w] assms(2) by auto
    from ChanSend assms(2) have "body_ok pdu len" "\<not> answered (get_op_type opcode)" by simp_all
    from chan_send_ok [OF w this ch, of E f u d] ChanSend r show ?thesis by (auto simp: att_inv_def keeps_def)
  next
    case (SetMtu mtu)
    with set_mtu_ok [OF w, of mtu] r show ?thesis by (auto simp: att_inv_def)
  next
    case (SetLocalKey key f u)
    with set_key_ok [of key f "at_local_sign a" u] assms(2) wf_sign(1) [OF w] wf_live [OF w] r show ?thesis
      by (auto simp: att_inv_def bt_att_set_local_key_def)
  next
    case (SetRemoteKey key f u)
    with set_key_ok [of key f "at_remote_sign a" u] assms(2) wf_sign(2) [OF w] wf_live [OF w] r show ?thesis
      by (auto simp: att_inv_def bt_att_set_remote_key_def)
  next
    case (Attach fd)
    show ?thesis
    proof (cases "fd < 0")
      case False
      show ?thesis
      proof (cases "bt_att_chan_new E fd BT_ATT_EATT")
        case (Ptr ch)
        with attach_ok [OF w Ptr] Attach r wf_live [OF w] False show ?thesis by (auto simp: att_inv_def bt_att_attach_fd_def)
      qed (use Attach assms(1) wf_live [OF w] False in \<open>simp add: bt_att_attach_fd_def\<close>)
    qed (use Attach assms(1) wf_live [OF w] in \<open>simp add: bt_att_attach_fd_def\<close>)
  next
    case DropRef
    with assms(2) w show ?thesis by (simp add: unref_keep [OF w] att_inv_def)
  next
    case (WriteReady c)
    with write_ready_ok [OF w] assms(2) r show ?thesis by (fastforce simp: att_inv_def)
  next
    case (TimeOut c i)
    then obtain ch where "at_chan a c = Some ch" using wf_chan_in [OF w] assms(2) by auto
    from timeout_cb_ok [OF w this, of i] TimeOut r show ?thesis by (auto simp: att_inv_def)
  next
    case (Incoming c input)
    with can_read_data_ok [OF w _ r, of c input] assms(2) r show ?thesis by (auto simp: att_inv_def)
  next
    case (Closed c)
    with disconnect_ok [OF w _ r] assms(2) r show ?thesis by (fastforce simp: att_inv_def)
  qed (use assms(2) r send_ok [OF w, THEN att_invI] resend_ok [OF w, THEN att_invI] cancel_ok [OF w, THEN att_invI]
    cancel_all_call_ok [OF w, THEN att_invI] register_ok [OF w, THEN att_invI_stays]
    register_disconnect_ok [OF w, THEN att_invI_stays] register_exchange_ok [OF w, THEN att_invI_stays]
    unregister_ok [OF w, THEN att_invI_stays] unregister_disconnect_ok [OF w, THEN att_invI_stays]
    unregister_exchange_ok [OF w, THEN att_invI_stays] unregister_all_call_ok [OF w, THEN att_invI_stays]
    set_timeout_ok [OF w, THEN att_invI] set_security_ok [OF w, THEN att_invI] w in
    \<open>simp_all add: att_inv_def bt_att_ref_def\<close>)
qed

lemma reach_inv: "att_reach E a \<Longrightarrow> att_inv a"
proof (induction rule: att_reach.induct)
  case (created fd ext_signed crypto w a)
  from new_ok [OF created(2), of E fd ext_signed w] created(1) show ?case by (auto simp: att_inv_def)
next
  case (step a e a')
  with step_ok [OF step.IH step.hyps(2)] show ?case by simp
qed

end

end
