(* ===== verification/TransportWrite.thy ===== *)
theory TransportWrite
  imports TransportSteps
begin

text \<open>
  What one call of the write handler does, exactly: to the operation it picks, to the channel and to
  the socket; and what a sequence of calls does when the socket takes everything.
\<close>

definition sent_after :: "('f, 'u, 'w) att_env \<Rightarrow> int \<Rightarrow> buf \<Rightarrow> (int \<times> buf) list \<Rightarrow> (int \<times> buf) list" where
  "sent_after E fd pdu s =
     (if ev_send E fd pdu < 0 then s else s @ [(fd, take (nat (ev_send E fd pdu)) pdu)])"

text \<open>The write handler once it has picked an operation.\<close>

definition write_op ::
    "('f, 'u, 'w) att_env \<Rightarrow> nat \<Rightarrow> nat \<Rightarrow> ('f, 'u, 'w) bt_att \<Rightarrow> (bool \<times> ('f, 'u, 'w) bt_att) option" where
  "write_op E c p a = do {
     op \<leftarrow> at_op a p;
     (ret, a) \<leftarrow> bt_att_chan_write E c (op_pdu op) (op_len op) a;
     if ret = 0 then do { a \<leftarrow> disc_att_send_op E p a; Some (True, a) }
     else (case op_type op of
         ATT_OP_TYPE_REQ \<Rightarrow> do {
           a \<leftarrow> chan_update c (\<lambda>ch. ch\<lparr>ch_pending_req := Ptr p\<rparr>) a;
           a \<leftarrow> start_timeout c p a;
           Some (True, a) }
       | ATT_OP_TYPE_IND \<Rightarrow> do {
           a \<leftarrow> chan_update c (\<lambda>ch. ch\<lparr>ch_pending_ind := Ptr p\<rparr>) a;
           a \<leftarrow> start_timeout c p a;
           Some (True, a) }
       | ATT_OP_TYPE_RSP \<Rightarrow> do {
           a \<leftarrow> chan_update c (\<lambda>ch. ch\<lparr>ch_in_req := False\<rparr>) a;
           a \<leftarrow> destroy_att_send_op E p a;
           Some (True, a) }
       | _ \<Rightarrow> do { a \<leftarrow> destroy_att_send_op E p a; Some (True, a) }) }"

lemma can_write_data_picked:
  "pick_next_send_op c a = Some (Ptr p, a1) \<Longrightarrow> can_write_data E c a = write_op E c p a1"
  "pick_next_send_op c a = Some (NULL, a1) \<Longrightarrow> can_write_data E c a = Some (False, a1)"
  by (simp_all add: can_write_data_def write_op_def)

lemma write_eq:
  assumes "wf_att hs cs H a" "at_chan a c = Some ch" "at_op a p = Some op"
  shows "bt_att_chan_write E c (op_pdu op) (op_len op) a =
    Some (ev_send E (ch_fd ch) (op_pdu op), a\<lparr>at_sent := sent_after E (ch_fd ch) (op_pdu op) (at_sent a)\<rparr>)"
proof -
  have "rd (op_pdu op) 0 (unat (op_len op)) = Some (op_pdu op)"
    using wf_op [OF assms(1,3)] by (simp add: op_ok_def rd_def)
  then show ?thesis using assms(2) by (simp add: bt_att_chan_write_def Let_def sent_after_def)
qed

text \<open>A request that is written waits for its answer, with a timer.\<close>

lemma write_req:
  assumes "wf_att hs cs H a" "at_chan a c = Some ch" "at_op a p = Some op" "op_type op = ATT_OP_TYPE_REQ"
    "ev_send E (ch_fd ch) (op_pdu op) \<noteq> 0"
  shows "write_op E c p a = Some (True, a\<lparr>at_sent := sent_after E (ch_fd ch) (op_pdu op) (at_sent a),
    at_chan := (at_chan a)(c \<mapsto> ch\<lparr>ch_pending_req := Ptr p\<rparr>), at_timer_brk := Suc (at_timer_brk a),
    at_timers := at_timers a @ [(Suc (at_timer_brk a), c, op_id op)],
    at_op := (at_op a)(p \<mapsto> op\<lparr>op_timeout_id := Suc (at_timer_brk a)\<rparr>)\<rparr>)"
  using assms(2-5) write_eq [OF assms(1-3), of E]
  by (simp add: write_op_def chan_update_def start_timeout_def timeout_add_def op_update_def Let_def)

lemma write_ind:
  assumes "wf_att hs cs H a" "at_chan a c = Some ch" "at_op a p = Some op" "op_type op = ATT_OP_TYPE_IND"
    "ev_send E (ch_fd ch) (op_pdu op) \<noteq> 0"
  shows "write_op E c p a = Some (True, a\<lparr>at_sent := sent_after E (ch_fd ch) (op_pdu op) (at_sent a),
    at_chan := (at_chan a)(c \<mapsto> ch\<lparr>ch_pending_ind := Ptr p\<rparr>), at_timer_brk := Suc (at_timer_brk a),
    at_timers := at_timers a @ [(Suc (at_timer_brk a), c, op_id op)],
    at_op := (at_op a)(p \<mapsto> op\<lparr>op_timeout_id := Suc (at_timer_brk a)\<rparr>)\<rparr>)"
  using assms(2-5) write_eq [OF assms(1-3), of E]
  by (simp add: write_op_def chan_update_def start_timeout_def timeout_add_def op_update_def Let_def)

context destroy_contract
begin

text \<open>Anything else is gone once it is written.\<close>

lemma write_quiet:
  assumes "wf_att hs cs H a" "at_chan a c = Some ch" "at_op a p = Some op" "\<not> answered (op_type op)"
    "ev_send E (ch_fd ch) (op_pdu op) \<noteq> 0"
  shows "\<exists>b ts w. write_op E c p a = Some (True, a\<lparr>at_sent := sent_after E (ch_fd ch) (op_pdu op) (at_sent a),
    at_chan := (at_chan a)(c \<mapsto> ch\<lparr>ch_in_req := b\<rparr>), at_timers := ts, at_client := w, at_op := (at_op a)(p := None)\<rparr>)"
proof -
  let ?s = "sent_after E (ch_fd ch) (op_pdu op) (at_sent a)"
  define b where "b = (ch_in_req ch \<and> op_type op \<noteq> ATT_OP_TYPE_RSP)"
  let ?a = "a\<lparr>at_sent := ?s, at_chan := (at_chan a)(c \<mapsto> ch\<lparr>ch_in_req := b\<rparr>)\<rparr>"
  have same: "?a = a\<lparr>at_sent := ?s\<rparr>" if "op_type op \<noteq> ATT_OP_TYPE_RSP"
    using that assms(2) by (cases a) (simp add: b_def fun_upd_idem)
  have "at_op ?a p = Some op" using assms(3) by simp
  from destroy_op_Some [OF this] obtain w ts where
    d: "destroy_att_send_op E p ?a = Some (?a\<lparr>at_timers := ts, at_client := w, at_op := (at_op ?a)(p := None)\<rparr>)" by blast
  have "write_op E c p a = do { a \<leftarrow> destroy_att_send_op E p ?a; Some (True, a) }"
  proof (cases "op_type op = ATT_OP_TYPE_RSP")
    case True
    with assms(2-5) write_eq [OF assms(1-3), of E] show ?thesis by (simp add: write_op_def chan_update_def b_def)
  next
    case False
    with assms(2-5) write_eq [OF assms(1-3), of E] show ?thesis unfolding same [OF False]
      by (cases "op_type op") (simp_all add: write_op_def)
  qed
  with d show ?thesis by (simp del: fun_upd_apply) blast
qed

end

section \<open>One request at a time\<close>

context client_contract
begin

lemma write_zero:
  assumes "wf_att hs cs (add_mset p H) a" "at_chan a c = Some ch" "at_op a p = Some op"
    "ev_send E (ch_fd ch) (op_pdu op) = 0"
  shows "\<exists>a'. write_op E c p a = Some (True, a') \<and> at_sent a' = at_sent a @ [(ch_fd ch, [])] \<and> slot a' = slot a"
proof -
  let ?s = "sent_after E (ch_fd ch) (op_pdu op) (at_sent a)"
  have "wf_att hs cs (add_mset p H) (a\<lparr>at_sent := ?s\<rparr>)" using assms(1) by simp
  from disc_op_ok [OF this] obtain a1 where "disc_att_send_op E p (a\<lparr>at_sent := ?s\<rparr>) = Some a1"
    "keeps (a\<lparr>at_sent := ?s\<rparr>) a1" by blast
  with assms(3,4) write_eq [OF assms(1-3), of E] show ?thesis
    by (simp add: write_op_def keeps_def sent_after_def)
qed

text \<open>While a request waits for its answer, no other is written on its channel.\<close>

lemma no_second_request:
  assumes "wf_att hs cs H a" "at_chan a c = Some ch" "ch_pending_req ch = Ptr q"
  shows "\<exists>r a' xs fi. can_write_data E c a = Some (r, a') \<and> at_sent a' = at_sent a @ xs \<and>
    (\<forall>(fd, b)\<in>set xs. b = [] \<or> get_op_type (hd b) \<noteq> ATT_OP_TYPE_REQ) \<and> slot a' c = Some (Ptr q, fi)"
proof -
  obtain r a1 ch1 where pick: "pick_next_send_op c a = Some (r, a1)" "keeps a a1" "at_op a1 = at_op a" "at_chan a1 c = Some ch1"
      "ch_pending_req ch1 = ch_pending_req ch" "ch_pending_ind ch1 = ch_pending_ind ch"
    and dis: "r = NULL \<and> a1 = a \<or> (\<exists>p. r = Ptr p \<and> wf_att hs cs (add_mset p H) a1 \<and>
       (kind (at_op a) p = Some ATT_OP_TYPE_REQ \<longrightarrow> ch_pending_req ch = NULL) \<and>
       (kind (at_op a) p = Some ATT_OP_TYPE_IND \<longrightarrow> ch_pending_ind ch = NULL))"
    using pick_ok [OF assms(1,2)] by blast
  have sl: "slot a1 c = Some (Ptr q, ch_pending_ind ch1, ch_fd ch1)" using pick(4,5) assms(3) by (simp add: slot_def)
  have sent: "at_sent a1 = at_sent a" using pick(2) by (simp add: keeps_def)
  show ?thesis
  proof (cases r)
    case NULL
    with dis pick(1) sl can_write_data_picked(2) show ?thesis by force
  next
    case (Ptr p)
    then have w: "wf_att hs cs (add_mset p H) a1" and nr: "kind (at_op a) p \<noteq> Some ATT_OP_TYPE_REQ"
      using dis assms(3) by auto
    have "p \<in> dom (at_op a1)" using wf_mem [OF w] by simp
    then obtain op where op: "at_op a1 p = Some op" by blast
    have t: "op_type op \<noteq> ATT_OP_TYPE_REQ" "get_op_type (hd (op_pdu op)) = op_type op" "op_pdu op \<noteq> []"
      using nr op pick(3) wf_op [OF w op] by (auto simp: kind_def op_ok_def hd_conv_nth)
    have step: "can_write_data E c a = write_op E c p a1" using can_write_data_picked(1) pick(1) Ptr by blast
    have xs: "\<exists>xs. sent_after E (ch_fd ch1) (op_pdu op) (at_sent a1) = at_sent a @ xs \<and>
        (\<forall>(fd, b)\<in>set xs. b = [] \<or> get_op_type (hd b) \<noteq> ATT_OP_TYPE_REQ)"
      using t sent by (auto simp: sent_after_def)
    show ?thesis
    proof (cases "ev_send E (ch_fd ch1) (op_pdu op) = 0")
      case True
      from write_zero [OF w pick(4) op True] step sl sent show ?thesis by fastforce
    next
      case False
      show ?thesis
      proof (cases "op_type op = ATT_OP_TYPE_IND")
        case True
        with write_ind [OF w pick(4) op True False] step xs pick(5) assms(3) show ?thesis by (auto simp: slot_def)
      next
        case noind: False
        then have "\<not> answered (op_type op)" using t(1) by simp
        from write_quiet [OF w pick(4) op this False] step xs pick(5) assms(3) show ?thesis by (fastforce simp: slot_def)
      qed
    qed
  qed
qed

end

section \<open>A request reaches the wire\<close>

primrec writes :: "('f, 'u, 'w) att_env \<Rightarrow> nat \<Rightarrow> nat \<Rightarrow> ('f, 'u, 'w) bt_att \<Rightarrow> ('f, 'u, 'w) bt_att option" where
  "writes E c 0 a = Some a"
| "writes E c (Suc n) a = do { a \<leftarrow> write_ready E c a; writes E c n a }"

context client_contract
begin

lemma quiet_step:
  assumes "wf_att hs cs H a" "at_chan a c = Some ch" "pick_next_send_op c a = Some (Ptr x, a1)"
    "wf_att hs cs (add_mset x H) a1" "at_chan a1 c = Some ch1" "at_op a1 x = Some op" "\<not> answered (op_type op)"
    "\<And>fd b. ev_send E fd b = int (length b)"
  shows "\<exists>a2 b. write_ready E c a = Some a2 \<and> wf_att hs cs H a2 \<and> at_chan a2 c = Some (ch1\<lparr>ch_in_req := b\<rparr>) \<and>
    at_op a2 = (at_op a1)(x := None) \<and> at_req_queue a2 = at_req_queue a1 \<and> at_write_queue a2 = at_write_queue a1"
proof -
  have "op_pdu op \<noteq> []" using wf_op [OF assms(4,6)] by (simp add: op_ok_def)
  then have "ev_send E (ch_fd ch1) (op_pdu op) \<noteq> 0" by (simp add: assms(8))
  from write_quiet [OF assms(4-7) this] obtain b ts w s where
    "write_op E c x a1 = Some (True, a1\<lparr>at_sent := s, at_chan := (at_chan a1)(c \<mapsto> ch1\<lparr>ch_in_req := b\<rparr>),
      at_timers := ts, at_client := w, at_op := (at_op a1)(x := None)\<rparr>)" by blast
  moreover have "can_write_data E c a = write_op E c x a1" using can_write_data_picked(1) [OF assms(3)] .
  ultimately have "can_write_data E c a = Some (True, a1\<lparr>at_sent := s, at_chan := (at_chan a1)(c \<mapsto> ch1\<lparr>ch_in_req := b\<rparr>),
      at_timers := ts, at_client := w, at_op := (at_op a1)(x := None)\<rparr>)" by simp
  moreover from this can_write_data_ok [OF assms(1,2)] have "wf_att hs cs H (a1\<lparr>at_sent := s, at_chan := (at_chan a1)(c \<mapsto> ch1\<lparr>ch_in_req := b\<rparr>),
      at_timers := ts, at_client := w, at_op := (at_op a1)(x := None)\<rparr>)" by simp
  ultimately show ?thesis by (simp add: write_ready_def) blast
qed

lemma request_written:
  assumes "\<And>fd b. ev_send E fd b = int (length b)" "wf_att hs cs H a" "at_chan a c = Some ch" "ch_pending_req ch = NULL"
    "at_req_queue a = p # q" "at_op a p = Some op" "op_len op \<le> ch_mtu ch"
    "\<not> (op_opcode op = BT_ATT_OP_MTU_REQ \<and> ch_type ch = BT_ATT_EATT)"
    "k = length (ch_queue ch) + length (at_write_queue a)"
  shows "\<exists>n a' ch' s. n \<le> k \<and> writes E c (Suc n) a = Some a' \<and> at_chan a' c = Some ch' \<and> ch_pending_req ch' = Ptr p \<and>
    at_sent a' = s @ [(ch_fd ch, op_pdu op)] \<and> at_req_queue a' = q"
  using assms(2-9)
proof (induction k arbitrary: a ch rule: less_induct)
  case (less k)
  note w = less.prems(1) and ch = less.prems(2)
  have kp: "kind (at_op a) p = Some ATT_OP_TYPE_REQ" using wf_kinds(1) [OF w] less.prems(4) by simp
  have more: ?case if s: "pick_next_send_op c a = Some (Ptr x, a1)" "wf_att hs cs (add_mset x H) a1" "at_chan a1 c = Some ch1"
      "at_op a1 = at_op a" "quiet (at_op a) x" "at_req_queue a1 = at_req_queue a"
      "length (ch_queue ch1) + length (at_write_queue a1) < k" "ch_pending_req ch1 = NULL" "ch_mtu ch1 = ch_mtu ch"
      "ch_type ch1 = ch_type ch" "ch_fd ch1 = ch_fd ch" for x a1 ch1
  proof -
    obtain opx where x: "at_op a1 x = Some opx" "\<not> answered (op_type opx)" using s(4,5) by (auto simp: quiet_def kind_def)
    obtain a2 b where a2: "write_ready E c a = Some a2" "wf_att hs cs H a2" "at_chan a2 c = Some (ch1\<lparr>ch_in_req := b\<rparr>)"
      "at_op a2 = (at_op a1)(x := None)" "at_req_queue a2 = at_req_queue a1" "at_write_queue a2 = at_write_queue a1"
      using quiet_step [OF w ch s(1-3) x assms(1)] by blast
    have "x \<noteq> p" using x kp s(4) by (auto simp: kind_def)
    then have "at_op a2 p = Some op" using a2(4) s(4) less.prems(5) by simp
    from less.IH [OF s(7) a2(2,3) _ _ this] s(6,8-11) a2(5,6) less.prems(4,6,7) obtain n a' ch' s' where
      n: "n \<le> length (ch_queue ch1) + length (at_write_queue a1)" "writes E c (Suc n) a2 = Some a'" "at_chan a' c = Some ch'"
      "ch_pending_req ch' = Ptr p" "at_sent a' = s' @ [(ch_fd ch, op_pdu op)]" "at_req_queue a' = q" by auto
    have "writes E c (Suc (Suc n)) a = Some a'" using n(2) a2(1) by simp
    moreover have "Suc n \<le> k" using n(1) s(7) by simp
    ultimately show ?thesis using n(3-6) by blast
  qed
  show ?case
  proof (cases "ch_queue ch")
    case (Cons x xs)
    let ?ch = "ch\<lparr>ch_queue := xs\<rparr>"
    have "wf_att hs cs (add_mset x H) (a\<lparr>at_chan := (at_chan a)(c \<mapsto> ?ch)\<rparr>)"
      by (rule wf_chan_update [OF w ch]) (use wf_chan [OF w ch] Cons in \<open>simp_all add: chan_held_def chan_ok_def\<close>)
    moreover have "quiet (at_op a) x" using wf_chan [OF w ch] Cons by (simp add: chan_ok_def)
    moreover have "pick_next_send_op c a = Some (Ptr x, a\<lparr>at_chan := (at_chan a)(c \<mapsto> ?ch)\<rparr>)"
      using ch Cons by (simp add: pick_next_send_op_def chan_update_def)
    ultimately show ?thesis using Cons less.prems(3,8)
      by (intro more [of x "a\<lparr>at_chan := (at_chan a)(c \<mapsto> ?ch)\<rparr>" ?ch]) simp_all
  next
    case Nil
    obtain f where f: "fits a ch (at_write_queue a) = Some f" "f \<Longrightarrow> at_write_queue a \<noteq> []"
      using fits_Some [OF queue_dom(3) [OF w], of ch] by blast
    show ?thesis
    proof (cases f)
      case True
      then obtain x xs where x: "at_write_queue a = x # xs" using f(2) by (cases "at_write_queue a") auto
      have "wf_att hs cs (add_mset x H) (a\<lparr>at_write_queue := xs\<rparr>)"
        by (rule wf_write_queue [OF w]) (use wf_kinds(3) [OF w] x in auto)
      moreover have "quiet (at_op a) x" using wf_kinds(3) [OF w] x by simp
      moreover have "pick_next_send_op c a = Some (Ptr x, a\<lparr>at_write_queue := xs\<rparr>)"
        using ch Nil f(1) True x by (simp add: pick_next_send_op_def)
      ultimately show ?thesis using Nil x ch less.prems(3,8)
        by (intro more [of x "a\<lparr>at_write_queue := xs\<rparr>" ch]) simp_all
    next
      case False
      let ?a = "a\<lparr>at_req_queue := q\<rparr>"
      have "wf_att hs cs (add_mset p H) ?a"
        by (rule wf_req_queue [OF w]) (use wf_kinds(1) [OF w] less.prems(4) in auto)
      moreover have pk: "pick_next_send_op c a = Some (Ptr p, ?a)"
        using ch Nil f(1) False less.prems(3-7) by (auto simp: pick_next_send_op_def fits_def)
      moreover have "op_type op = ATT_OP_TYPE_REQ" using kp less.prems(5) by (simp add: kind_def)
      moreover have "op_pdu op \<noteq> []" using wf_op [OF w less.prems(5)] by (simp add: op_ok_def)
      ultimately have "\<exists>a'. can_write_data E c a = Some (True, a') \<and> at_chan a' c = Some (ch\<lparr>ch_pending_req := Ptr p\<rparr>) \<and>
          at_sent a' = at_sent a @ [(ch_fd ch, op_pdu op)] \<and> at_req_queue a' = q"
        using write_req [of hs cs "add_mset p H" ?a c ch p op E] ch less.prems(5) can_write_data_picked(1) [OF pk, of E]
        by (simp add: assms(1) sent_after_def)
      then obtain a' where "writes E c (Suc 0) a = Some a'" "at_chan a' c = Some (ch\<lparr>ch_pending_req := Ptr p\<rparr>)"
          "at_sent a' = at_sent a @ [(ch_fd ch, op_pdu op)]" "at_req_queue a' = q" by (auto simp: write_ready_def)
      then show ?thesis by (intro exI [of _ 0]) auto
    qed
  qed
qed

end

section \<open>Answers\<close>

context client_contract
begin

text \<open>A request that is answered: its function runs first, then the operation goes away.\<close>

lemma finish_req_exact:
  assumes "wf_att hs cs H a" "at_chan a c = Some ch" "ch_pending_req ch = Ptr p" "at_op a p = Some op" "op_callback op = Ptr f"
  shows "\<exists>a1 a' ch'. ev_response E f opcode rsp len (op_user_data op) a = Some a1 \<and> finish_req E c p opcode rsp len a = Some a' \<and>
    (\<exists>op1 w. at_op a1 p = Some op1 \<and>
       call_destroy E (op_destroy op1) (op_user_data op1)
         (if op_timeout_id op1 \<noteq> 0 then timeout_remove (op_timeout_id op1) a1 else a1) = Some w \<and> at_client a' = at_client w) \<and>
    at_op a' = (at_op a1)(p := None) \<and> at_sent a' = at_sent a1 \<and> at_req_queue a' = at_req_queue a1 \<and>
    at_ind_queue a' = at_ind_queue a1 \<and> at_write_queue a' = at_write_queue a1 \<and> at_sent a1 = at_sent a \<and>
    at_chan a' c = Some ch' \<and> ch_pending_req ch' = NULL"
proof -
  obtain a1 where a1: "ev_response E f opcode rsp len (op_user_data op) a = Some a1" "wf_att hs cs H a1" "keeps a a1"
    using att_keptD [OF response assms(1)] by blast
  obtain ch1 where ch1: "at_chan a1 c = Some ch1" "ch_pending_req ch1 = Ptr p"
    using keeps_chan [OF a1(3) assms(2)] assms(3) by auto
  obtain op1 where op1: "at_op a1 p = Some op1" using chan_dom(2) [OF a1(2) ch1] by blast
  from destroy_op_Some [OF op1] obtain w ts where
    d: "destroy_att_send_op E p a1 = Some (a1\<lparr>at_timers := ts, at_client := w, at_op := (at_op a1)(p := None)\<rparr>)" by blast
  let ?t = "if op_timeout_id op1 \<noteq> 0 then timeout_remove (op_timeout_id op1) a1 else a1"
  obtain v where v: "call_destroy E (op_destroy op1) (op_user_data op1) ?t = Some v" "at_client v = w"
  proof (cases "call_destroy E (op_destroy op1) (op_user_data op1) ?t")
    case None
    then show ?thesis using d op1 by (simp add: destroy_att_send_op_def)
  next
    case (Some v)
    with d op1 have "v\<lparr>at_op := (at_op v)(p := None)\<rparr> = a1\<lparr>at_timers := ts, at_client := w, at_op := (at_op a1)(p := None)\<rparr>"
      by (auto simp: destroy_att_send_op_def option_bind_Some_iff simp del: fun_upd_apply)
    from arg_cong [OF this, of at_client] Some that show ?thesis by simp
  qed
  let ?b = "a1\<lparr>at_timers := ts, at_client := w, at_op := (at_op a1)(p := None), at_chan := (at_chan a1)(c \<mapsto> ch1\<lparr>ch_pending_req := NULL\<rparr>)\<rparr>"
  have ch: "at_chan ?b c = Some (ch1\<lparr>ch_pending_req := NULL\<rparr>)" by simp
  obtain m where m: "wakeup_chan_writer E c ?b = Some (?b\<lparr>at_chan := m\<rparr>)" "same_chans (at_chan ?b) m"
    using wakeup_chan_Some [OF ch, of E] by blast
  obtain b where "m c = Some (ch1\<lparr>ch_pending_req := NULL, ch_writer_active := b\<rparr>)"
    using same_chansD [OF m(2) ch] by auto
  moreover have "finish_req E c p opcode rsp len a = Some (?b\<lparr>at_chan := m\<rparr>)"
    using assms(4,5) a1(1) d ch1(1) m(1) by (simp add: finish_req_def chan_update_def)
  moreover have "at_sent a1 = at_sent a" using a1(3) by (simp add: keeps_def)
  ultimately show ?thesis using a1(1) op1 v by (simp del: fun_upd_apply)
qed

end

text \<open>An insufficient security that can be raised puts the request back at the head of the queue.\<close>

lemma handle_error_retry:
  assumes "at_chan a c = Some ch" "ch_sec_level ch = 0" "ch_type ch \<noteq> BT_ATT_LOCAL" "at_op a p = Some op" "length pdu = 4"
    "pdu ! 3 = 0x0F" "ev_get_security E (ch_fd ch) = Some lev" "lev < 2" "ev_set_security E (ch_fd ch) 2"
  shows "\<exists>ts ti. handle_error_rsp E c p pdu a = Some (True, pdu ! 0, a\<lparr>at_timers := ts, at_op := (at_op a)(p \<mapsto> op\<lparr>op_timeout_id := ti\<rparr>),
    at_chan := (at_chan a)(c \<mapsto> ch\<lparr>ch_pending_req := NULL\<rparr>), at_req_queue := p # at_req_queue a\<rparr>) \<and> ti = 0 \<and>
    (op_timeout_id op \<noteq> 0 \<longrightarrow> ts = filter (\<lambda>(j, _). j \<noteq> op_timeout_id op) (at_timers a))"
proof -
  have cs: "change_security E c (pdu ! 3) a = Some (True, a)"
    using assms by (simp add: change_security_def bt_att_chan_get_security_def bt_att_chan_set_security_def Let_def)
  show ?thesis
  proof (cases "op_timeout_id op = 0")
    case True
    then have "op\<lparr>op_timeout_id := 0\<rparr> = op" by (cases op) simp
    then have "a\<lparr>at_timers := at_timers a, at_op := (at_op a)(p \<mapsto> op\<lparr>op_timeout_id := 0\<rparr>)\<rparr> = a"
      using assms(4) by (cases a) (simp add: fun_upd_idem)
    then have "handle_error_rsp E c p pdu a = Some (True, pdu ! 0, (a\<lparr>at_timers := at_timers a, at_op := (at_op a)(p \<mapsto> op\<lparr>op_timeout_id := 0\<rparr>)\<rparr>)
        \<lparr>at_chan := (at_chan a)(c \<mapsto> ch\<lparr>ch_pending_req := NULL\<rparr>), at_req_queue := p # at_req_queue a\<rparr>)"
      using assms(1,4,5) True cs by (simp add: handle_error_rsp_def rd8_def chan_update_def)
    with True show ?thesis by blast
  next
    case False
    with assms(1,4,5) cs show ?thesis
      by (simp add: handle_error_rsp_def rd8_def chan_update_def op_update_def timeout_remove_def)
  qed
qed

end
