(* ===== verification/TransportProps.thy ===== *)
theory TransportProps
  imports TransportWrite
begin

text \<open>
  The properties of \<open>src/shared/att.c\<close>.  Its client here is any set of scripted functions: when the
  transport calls one, it notes what it was told and then calls the transport again, as its script
  says.  The sockets are the parameter \<open>S\<close>, an environment of which only they are used.
\<close>

section \<open>A scripted client\<close>

datatype script = Script "act list"
  and act =
    ActSend u8 "buf ptr" u16 "script ptr"
  | ActResend u32 u8 "buf ptr" u16 "script ptr"
  | ActCancel u32
  | ActCancelAll

datatype client_event =
    GotResponse "nat ptr" u8 "buf ptr"
  | GotDestroy "nat ptr"
  | GotPdu u8 buf
  | GotDisconnect int
  | GotMtu u16
  | GotTimeout u32 u8

type_synonym env = "(script, nat, client_event list) att_env"
type_synonym att = "(script, nat, client_event list) bt_att"

definition noted :: "client_event \<Rightarrow> att \<Rightarrow> att" where
  "noted ev a = a\<lparr>at_client := at_client a @ [ev]\<rparr>"

fun run_act :: "env \<Rightarrow> act \<Rightarrow> att \<Rightarrow> att option" where
  "run_act E (ActSend opcode pdu len f) a =
     (if body_ok pdu len then result_att (bt_att_send E opcode pdu len f NULL NULL (Ptr a)) else Some a)"
| "run_act E (ActResend i opcode pdu len f) a =
     (if body_ok pdu len then result_att (bt_att_resend E i opcode pdu len f NULL NULL (Ptr a)) else Some a)"
| "run_act E (ActCancel i) a = result_att (bt_att_cancel E i (Ptr a))"
| "run_act E ActCancelAll a = result_att (bt_att_cancel_all E (Ptr a))"

primrec run_acts :: "env \<Rightarrow> act list \<Rightarrow> att \<Rightarrow> att option" where
  "run_acts E [] a = Some a"
| "run_acts E (x # xs) a = do { a \<leftarrow> run_act E x a; run_acts E xs a }"

fun run_script :: "env \<Rightarrow> script \<Rightarrow> client_event \<Rightarrow> att \<Rightarrow> att option" where
  "run_script E (Script xs) ev a = run_acts E xs (noted ev a)"

definition quiet_client :: "env \<Rightarrow> env" where
  "quiet_client S = S\<lparr>ev_destroy := \<lambda>f u a. Some (noted (GotDestroy u) a)\<rparr>"

definition scripted :: "env \<Rightarrow> env" where
  "scripted S = (quiet_client S)
     \<lparr>ev_response := \<lambda>f opcode pdu len u. run_script (quiet_client S) f (GotResponse u opcode pdu),
      ev_notify := \<lambda>f c opcode pdu len u. run_script (quiet_client S) f (GotPdu opcode pdu),
      ev_disconn := \<lambda>f err u. run_script (quiet_client S) f (GotDisconnect err),
      ev_exchange := \<lambda>f mtu u. run_script (quiet_client S) f (GotMtu mtu),
      ev_timeout := \<lambda>f i opcode u. run_script (quiet_client S) f (GotTimeout i opcode)\<rparr>"

interpretation qc: destroy_contract "quiet_client S" for S
  by unfold_locales (auto simp: quiet_client_def noted_def)

lemma noted_ok: "wf_att hs cs H a \<Longrightarrow> wf_att hs cs H (noted ev a) \<and> keeps a (noted ev a)"
  by (simp add: noted_def keeps_def)

lemma result_kept:
  assumes "\<exists>r a'. x = Some (r, Ptr a') \<and> wf_att hs cs H a' \<and> keeps a a'"
  shows "\<exists>a'. result_att x = Some a' \<and> wf_att hs cs H a' \<and> keeps a a'"
  using assms by auto

lemma run_act_ok:
  assumes "wf_att hs cs H a"
  shows "\<exists>a'. run_act (quiet_client S) x a = Some a' \<and> wf_att hs cs H a' \<and> keeps a a'"
proof (cases x)
  case (ActSend opcode pdu len f)
  with assms send_ok [OF assms, THEN result_kept, of pdu len "quiet_client S"] show ?thesis by simp
next
  case (ActResend i opcode pdu len f)
  with assms resend_ok [OF assms, THEN result_kept, of pdu len] show ?thesis by simp
next
  case (ActCancel i)
  with qc.cancel_ok [OF assms, THEN result_kept] show ?thesis by simp
next
  case ActCancelAll
  have "\<exists>r a'. bt_att_cancel_all (quiet_client S) (Ptr a) = Some (r, Ptr a') \<and> wf_att hs cs H a' \<and> keeps a a'"
    using qc.cancel_all_ok [OF assms, of S] wf_live [OF assms] by (auto simp: bt_att_cancel_all_def)
  from result_kept [OF this] ActCancelAll show ?thesis by simp
qed

lemma run_acts_ok:
  assumes "wf_att hs cs H a"
  shows "\<exists>a'. run_acts (quiet_client S) xs a = Some a' \<and> wf_att hs cs H a' \<and> keeps a a'"
  using assms
proof (induction xs arbitrary: a)
  case (Cons x xs)
  obtain a1 where a1: "run_act (quiet_client S) x a = Some a1" "wf_att hs cs H a1" "keeps a a1"
    using run_act_ok [OF Cons.prems] by blast
  with Cons.IH [OF a1(2)] show ?case using keeps_trans by auto
qed simp

lemma script_kept: "att_kept (run_script (quiet_client S) f ev)"
proof (cases f)
  case (Script xs)
  have "\<exists>a'. run_acts (quiet_client S) xs (noted ev a) = Some a' \<and> wf_att hs cs H a' \<and> keeps a a'"
    if "wf_att hs cs H a" for hs cs H a
    using run_acts_ok [of hs cs H "noted ev a" S xs] noted_ok [OF that, of ev] keeps_trans by blast
  with Script show ?thesis by (simp add: att_kept_def)
qed

lemma scripted_destroy: "ev_destroy (scripted S) f u a = Some (a\<lparr>at_client := at_client a @ [GotDestroy u]\<rparr>)"
  by (simp add: scripted_def quiet_client_def noted_def)

interpretation sc: client_contract "scripted S" for S
proof
  show "\<exists>w. ev_destroy (scripted S) f u a = Some (a\<lparr>at_client := w\<rparr>)" for f u a
    unfolding scripted_destroy by blast
qed (simp_all add: scripted_def script_kept)

section \<open>A concrete transport\<close>

text \<open>A working socket of an LE link, and a transport over it.\<close>

definition demo_env :: env where
  "demo_env = \<lparr>ev_response = \<lambda>_ _ _ _ _. Some, ev_destroy = \<lambda>_ _. Some, ev_notify = \<lambda>_ _ _ _ _ _. Some,
     ev_disconn = \<lambda>_ _ _. Some, ev_exchange = \<lambda>_ _ _. Some, ev_timeout = \<lambda>_ _ _ _. Some,
     ev_counter = \<lambda>_ n _ w. ((True, n), w), ev_send = \<lambda>_ b. int (length b), ev_watch = \<lambda>_. True,
     ev_so_error = \<lambda>_. Some 0, ev_get_security = \<lambda>_. Some 1, ev_set_security = \<lambda>_ _. True, ev_io = \<lambda>_. True,
     ev_l2cap = \<lambda>_. True, ev_src_type = \<lambda>_. Inr 1, ev_omtu = \<lambda>_. Some 64, ev_sndmtu = \<lambda>_. None, ev_mem = True,
     ev_junk = \<lambda>_. 0xEE\<rparr>"

definition demo_chan :: bt_att_chan where
  "demo_chan = \<lparr>ch_fd = 3, ch_type = 1, ch_sec_level = 0, ch_queue = [], ch_pending_req = NULL, ch_pending_ind = NULL,
     ch_writer_active = False, ch_in_req = False, ch_buf = replicate 23 0xEE, ch_mtu = 23, ch_shutdown = False\<rparr>"

definition demo_att :: att where
  "demo_att = \<lparr>at_ref_count = 1, at_close_on_unref = False, at_chans = [0], at_enc_size = 0, at_mtu = 23,
     at_notify_list = [], at_disconn_list = [], at_exchange_list = [], at_next_send_id = 0,
     at_next_reg_id = 0, at_req_queue = [], at_ind_queue = [], at_write_queue = [],
     at_in_disc = False, at_timeout_callback = NULL, at_timeout_destroy = NULL,
     at_timeout_data = NULL, at_crypto = NULL, at_local_sign = NULL, at_remote_sign = NULL,
     at_chan = [0 \<mapsto> demo_chan], at_op = Map.empty, at_notify = Map.empty, at_disconn = Map.empty,
     at_exchange = Map.empty, at_brk = 1, at_timers = [], at_timer_brk = 0, at_freed = False, at_sent = [],
     at_client = []\<rparr>"

lemma demo_new: "bt_att_new (scripted demo_env) 3 True NULL [] = Some (Ptr demo_att)"
  by (simp add: bt_att_new_def bt_att_chan_new_def io_get_type_def scripted_def quiet_client_def demo_env_def bt_att_attach_chan_def
      wakeup_chan_writer_def bt_att_ref_def demo_att_def demo_chan_def map_replicate_trivial)

lemma demo_reach: "att_reach (scripted demo_env) demo_att"
  by (rule att_reach.created [OF demo_new]) (simp add: crypto_ok_def)

section \<open>What every run keeps\<close>

lemma reach_wf:
  assumes "att_reach (scripted S) a"
  shows "wf_att ([], [], []) [] {#} a" "0 < at_ref_count a"
  using sc.reach_inv [OF assms] by (simp_all add: att_inv_def)

text \<open>
  C6: Whatever its client and the main loop do, in any order, and whatever the peer sends, the next
  allowed step of the transport is defined: no freed operation, channel or handler is used, nothing is
  freed twice, no null pointer is followed and no buffer is read or written outside its bounds, also
  when the functions it calls send, resend and cancel in turn.
\<close>

theorem transport_defined:
  assumes "att_reach (scripted S) a" "event_ok e a"
  shows "\<exists>a'. run_event (scripted S) e a = Some a'"
  using sc.step_ok [OF sc.reach_inv [OF assms(1)] assms(2)] by blast

lemma transport_defined_witness:
  "\<exists>a'. run_event (scripted demo_env) (Send 0x0A (Ptr [3, 0]) 2 (Ptr (Script [ActCancelAll])) NULL NULL) demo_att = Some a'"
  by (rule transport_defined [OF demo_reach]) (simp add: body_ok_def)

text \<open>
  C7: In every state a run reaches, each allocated operation is owned exactly once, by a queue of the
  transport, the queue of a channel or one of its pending slots, so none is leaked or shared; and the
  list of channels holds each allocated channel once.
\<close>

theorem operations_owned_once:
  assumes "att_reach (scripted S) a"
  shows "held [] a = mset_set (dom (at_op a)) \<and> finite (dom (at_op a)) \<and> distinct (at_chans a) \<and>
    set (at_chans a) = dom (at_chan a) \<and> \<not> at_freed a"
  using reach_wf(1) [OF assms] wf_finite [OF reach_wf(1) [OF assms]]
  by (simp add: wf_att_def chans_ok_def)

lemma operations_owned_once_witness:
  "held [] demo_att = mset_set (dom (at_op demo_att)) \<and> finite (dom (at_op demo_att)) \<and> distinct (at_chans demo_att) \<and>
    set (at_chans demo_att) = dom (at_chan demo_att) \<and> \<not> at_freed demo_att"
  by (rule operations_owned_once [OF demo_reach])

text \<open>
  C31: In every state a run reaches, an operation's PDU has the length that is sent and starts with its
  opcode, which gives its type; only requests wait in the request queue or are a channel's pending
  request, only indications in their queue and slot, and neither in the queues that are not answered.
\<close>

theorem operations_typed:
  assumes "att_reach (scripted S) a"
  shows "(\<forall>p op. at_op a p = Some op \<longrightarrow>
      length (op_pdu op) = unat (op_len op) \<and> op_pdu op \<noteq> [] \<and> hd (op_pdu op) = op_opcode op \<and>
      op_type op = get_op_type (op_opcode op)) \<and>
    (\<forall>p\<in>set (at_req_queue a). \<exists>op. at_op a p = Some op \<and> op_type op = ATT_OP_TYPE_REQ) \<and>
    (\<forall>p\<in>set (at_ind_queue a). \<exists>op. at_op a p = Some op \<and> op_type op = ATT_OP_TYPE_IND) \<and>
    (\<forall>p\<in>set (at_write_queue a). \<exists>op. at_op a p = Some op \<and> \<not> answered (op_type op)) \<and>
    (\<forall>c ch. at_chan a c = Some ch \<longrightarrow> 23 \<le> ch_mtu ch \<and> length (ch_buf ch) = unat (ch_mtu ch) \<and>
      (\<forall>p. ch_pending_req ch = Ptr p \<longrightarrow> (\<exists>op. at_op a p = Some op \<and> op_type op = ATT_OP_TYPE_REQ)) \<and>
      (\<forall>p. ch_pending_ind ch = Ptr p \<longrightarrow> (\<exists>op. at_op a p = Some op \<and> op_type op = ATT_OP_TYPE_IND)) \<and>
      (\<forall>p\<in>set (ch_queue ch). \<exists>op. at_op a p = Some op \<and> \<not> answered (op_type op)))"
proof -
  have w: "wf_att ([], [], []) [] {#} a" using reach_wf(1) [OF assms] .
  have "ops_ok a" "queues_ok a" "chans_ok [] a" using wf_parts [OF w] by simp_all
  then have 1: "\<forall>p op. at_op a p = Some op \<longrightarrow> op_ok op"
    and 2: "queues_ok a" and 3: "\<forall>c ch. at_chan a c = Some ch \<longrightarrow> chan_ok (at_op a) ch"
    by (simp_all add: ops_ok_def chans_ok_def)
  have q: "quiet m p \<longleftrightarrow> (\<exists>op. m p = Some op \<and> \<not> answered (op_type op))" for m :: "nat \<rightharpoonup> (script, nat) att_send_op" and p
    by (auto simp: quiet_def kind_def)
  show ?thesis
    using 1 2 3 by (simp add: queues_ok_def chan_ok_def q op_ok_def kind_def hd_conv_nth)
qed

text \<open>
  C29: When the last reference is dropped, in any state a run reaches, every operation, channel and
  handler is freed, each exactly once, and then the transport itself.
\<close>

theorem last_unref_frees_all:
  assumes "att_reach (scripted S) a" "at_ref_count a = 1"
  shows "\<exists>a'. bt_att_unref (scripted S) a = Some a' \<and> at_freed a' \<and> dom (at_op a') = {} \<and> dom (at_chan a') = {} \<and>
    dom (at_notify a') = {} \<and> dom (at_disconn a') = {} \<and> dom (at_exchange a') = {}"
  using sc.last_ref_frees [OF reach_wf(1) [OF assms(1)] assms(2)] by (simp add: gone_def)

lemma last_unref_frees_all_witness:
  "\<exists>a'. bt_att_unref (scripted demo_env) demo_att = Some a' \<and> at_freed a' \<and> dom (at_op a') = {} \<and> dom (at_chan a') = {} \<and>
    dom (at_notify a') = {} \<and> dom (at_disconn a') = {} \<and> dom (at_exchange a') = {}"
  by (rule last_unref_frees_all [OF demo_reach]) (simp add: demo_att_def)

section \<open>Requests\<close>

text \<open>The demonstration transport after a request was sent and written.\<close>

definition demo_op :: "(script, nat) att_send_op" where
  "demo_op = \<lparr>op_id = 1, op_timeout_id = 1, op_type = ATT_OP_TYPE_REQ, op_opcode = 0x0A, op_pdu = [0x0A, 3, 0], op_len = 3,
     op_callback = Ptr (Script []), op_destroy = NULL, op_user_data = Ptr 7\<rparr>"

definition demo_queued :: att where
  "demo_queued = demo_att\<lparr>at_next_send_id := 2, at_req_queue := [1], at_chan := [0 \<mapsto> demo_chan\<lparr>ch_writer_active := True\<rparr>],
     at_op := [1 \<mapsto> demo_op\<lparr>op_timeout_id := 0\<rparr>], at_brk := 2\<rparr>"

definition demo_pending :: att where
  "demo_pending = demo_queued\<lparr>at_req_queue := [], at_chan := [0 \<mapsto> demo_chan\<lparr>ch_pending_req := Ptr 1, ch_writer_active := True\<rparr>],
     at_op := [1 \<mapsto> demo_op], at_timers := [(1, 0, 1)], at_timer_brk := 1, at_sent := [(3, [0x0A, 3, 0])]\<rparr>"

lemma demo_env_simps [simp]:
  "ev_watch (scripted demo_env) fd" "ev_mem (scripted demo_env)" "ev_send (scripted demo_env) fd b = int (length b)"
  "ev_junk (scripted demo_env) n = 0xEE"
  by (simp_all add: scripted_def quiet_client_def demo_env_def)

lemma demo_send:
  "bt_att_send (scripted demo_env) 0x0A (Ptr [3, 0]) 2 (Ptr (Script [])) (Ptr 7) NULL (Ptr demo_att) = Some (1, Ptr demo_queued)"
  by (simp add: bt_att_send_def demo_att_def create_att_send_op_def encode_pdu_def get_op_type_def att_opcode_type_table_def Let_def
      att_live_def wr8_def rd_def wr_def upt_rec op_update_def wakeup_writer_def wakeup_chan_writer_def demo_chan_def chan_update_def
      demo_queued_def demo_op_def)

lemma demo_write: "write_ready (scripted demo_env) 0 demo_queued = Some demo_pending"
  by (simp add: write_ready_def can_write_data_def pick_next_send_op_def fits_def demo_queued_def demo_pending_def demo_att_def
      demo_chan_def demo_op_def bt_att_chan_write_def rd_def chan_update_def start_timeout_def timeout_add_def op_update_def Let_def)

lemma demo_reach_queued: "att_reach (scripted demo_env) demo_queued"
  by (rule att_reach.step [OF demo_reach, of "Send 0x0A (Ptr [3, 0]) 2 (Ptr (Script [])) (Ptr 7) NULL"])
    (simp_all add: body_ok_def demo_send)

lemma demo_reach_pending: "att_reach (scripted demo_env) demo_pending"
  by (rule att_reach.step [OF demo_reach_queued, of "WriteReady 0"])
    (simp_all add: demo_write, simp add: demo_queued_def demo_att_def)

lemma operations_typed_witness:
  "\<exists>op. at_op demo_pending 1 = Some op \<and> op_type op = ATT_OP_TYPE_REQ \<and> length (op_pdu op) = unat (op_len op) \<and>
     hd (op_pdu op) = op_opcode op \<and> op_type op = get_op_type (op_opcode op)"
proof -
  have c: "at_chan demo_pending 0 = Some (demo_chan\<lparr>ch_pending_req := Ptr 1, ch_writer_active := True\<rparr>)"
    by (simp add: demo_pending_def)
  note t = operations_typed [OF demo_reach_pending]
  have "\<exists>op. at_op demo_pending 1 = Some op \<and> op_type op = ATT_OP_TYPE_REQ"
    using conjunct2 [OF conjunct2 [OF conjunct2 [OF conjunct2 [OF t]]], THEN spec, THEN spec, THEN mp, OF c] by simp
  then obtain op where op: "at_op demo_pending 1 = Some op" "op_type op = ATT_OP_TYPE_REQ" by blast
  with conjunct1 [OF t, THEN spec, THEN spec, THEN mp, OF op(1)] show ?thesis by simp
qed

text \<open>
  A request that a client sends, with a callback and parameters that fit the MTU, gets an id that is
  not zero and waits at the end of the request queue, as an operation that holds its opcode, exactly
  the bytes given, and the callback.
\<close>

theorem request_queued:
  assumes "att_reach (scripted S) a" "body_ok pdu len" "get_op_type opcode = ATT_OP_TYPE_REQ" "at_chans a \<noteq> []"
    "ev_mem S" "at_local_sign a = NULL" "len < at_mtu a"
  shows "\<exists>i a' op. bt_att_send (scripted S) opcode pdu len (Ptr f) u d (Ptr a) = Some (i, Ptr a') \<and> i \<noteq> 0 \<and>
    at_req_queue a' = at_req_queue a @ [at_brk a] \<and> at_op a' = (at_op a)(at_brk a \<mapsto> op) \<and> op_id op = i \<and>
    op_pdu op = opcode # body pdu len \<and> op_callback op = Ptr f \<and> op_user_data op = u \<and> op_destroy op = d"
proof -
  have w: "wf_att ([], [], []) [] {#} a" using reach_wf(1) [OF assms(1)] .
  have mem: "ev_mem (scripted S)" using assms(5) by (simp add: scripted_def quiet_client_def)
  have un: "encoded_len a opcode len = len + 1" using assms(6) by (simp add: encoded_len_def is_signed_def)
  have "unat (len + 1) = Suc (unat len)" using assms(2) by (simp add: body_ok_def unat_word_ariths)
  then have fit: "encoded_len a opcode len \<le> at_mtu a" "unat (encoded_len a opcode len) = Suc (unat len)"
    using assms(7) un by (simp_all add: word_le_nat_alt word_less_nat_alt)
  have sendable: "sendable opcode (Ptr f)" using assms(3) by (simp add: sendable_def)
  show ?thesis
  proof (cases rule: send_cases [OF w assms(2), of "scripted S" opcode "Ptr f" u d])
    case (1 x)
    with assms(4,6) mem fit(1) sendable show ?thesis by blast
  next
    case (2 x op m)
    have "length (op_pdu op) = Suc (unat len)" "take (Suc (unat len)) (op_pdu op) = opcode # body pdu len"
      using 2(2) fit(2) by (auto simp: created_def op_ok_def)
    then have "op_pdu op = opcode # body pdu len" by simp
    with 2(1,2) assms(3) show ?thesis
      by (simp add: sent_state_def enqueue_def created_def next_id_pos del: fun_upd_apply) force
  qed
qed

lemma request_queued_witness:
  "\<exists>i a' op. bt_att_send (scripted demo_env) 0x0A (Ptr [3, 0]) 2 (Ptr (Script [])) (Ptr 7) NULL (Ptr demo_att) = Some (i, Ptr a') \<and>
    i \<noteq> 0 \<and> at_req_queue a' = at_req_queue demo_att @ [at_brk demo_att] \<and> at_op a' = (at_op demo_att)(at_brk demo_att \<mapsto> op) \<and>
    op_id op = i \<and> op_pdu op = 0x0A # body (Ptr [3, 0]) 2 \<and> op_callback op = Ptr (Script []) \<and> op_user_data op = Ptr 7 \<and>
    op_destroy op = NULL"
  by (rule request_queued [OF demo_reach])
    (simp_all add: body_ok_def get_op_type_def att_opcode_type_table_def demo_att_def demo_env_def)

text \<open>
  C8: The request at the head of the queue reaches the wire: when the socket takes what it is given and
  no request is pending on a channel the request fits, calling the write handler of that channel once
  for each operation that goes before it and once more writes the PDU, whole, and makes the request
  the pending one.
\<close>

theorem request_reaches_wire:
  assumes "att_reach (scripted S) a" "\<And>fd b. ev_send S fd b = int (length b)" "at_chan a c = Some ch" "ch_pending_req ch = NULL"
    "at_req_queue a = p # q" "at_op a p = Some op" "op_len op \<le> ch_mtu ch"
    "\<not> (op_opcode op = BT_ATT_OP_MTU_REQ \<and> ch_type ch = BT_ATT_EATT)"
  shows "\<exists>n a' ch' s. n \<le> length (ch_queue ch) + length (at_write_queue a) \<and> writes (scripted S) c (Suc n) a = Some a' \<and>
    at_chan a' c = Some ch' \<and> ch_pending_req ch' = Ptr p \<and> at_sent a' = s @ [(ch_fd ch, op_pdu op)] \<and> at_req_queue a' = q"
proof -
  have "ev_send (scripted S) fd b = int (length b)" for fd b
    using assms(2) by (simp add: scripted_def quiet_client_def)
  from sc.request_written [OF this reach_wf(1) [OF assms(1)] assms(3-8) refl] show ?thesis .
qed

lemma request_reaches_wire_witness:
  "\<exists>n a' ch' s. n \<le> 0 + 0 \<and> writes (scripted demo_env) 0 (Suc n) demo_queued = Some a' \<and>
    at_chan a' 0 = Some ch' \<and> ch_pending_req ch' = Ptr 1 \<and> at_sent a' = s @ [(3, [0x0A, 3, 0])] \<and> at_req_queue a' = []"
  using request_reaches_wire [OF demo_reach_queued, of 0 "demo_chan\<lparr>ch_writer_active := True\<rparr>" 1 "[]" "demo_op\<lparr>op_timeout_id := 0\<rparr>"]
  by (simp add: demo_queued_def demo_att_def demo_op_def demo_chan_def demo_env_def)

text \<open>
  What a channel may write next, in order: the head of its own queue; the heads of the shared queues of
  commands, of requests (when none is pending, and not an MTU exchange on an EATT channel) and of
  indications (when none is pending), each only when it fits the MTU of the channel.
\<close>

definition op_fits :: "('f, 'u, 'w) bt_att \<Rightarrow> bt_att_chan \<Rightarrow> nat \<Rightarrow> bool" where
  "op_fits a ch p = (case at_op a p of None \<Rightarrow> False | Some op \<Rightarrow> op_len op \<le> ch_mtu ch)"

definition eligible :: "bt_att_chan \<Rightarrow> ('f, 'u, 'w) bt_att \<Rightarrow> nat list" where
  "eligible ch a = take 1 (ch_queue ch) @ filter (op_fits a ch) (take 1 (at_write_queue a)) @
     (if ch_pending_req ch = NULL
      then filter (\<lambda>p. op_fits a ch p \<and> \<not> (map_option op_opcode (at_op a p) = Some BT_ATT_OP_MTU_REQ \<and> ch_type ch = BT_ATT_EATT))
        (take 1 (at_req_queue a))
      else []) @
     (if ch_pending_ind ch = NULL then filter (op_fits a ch) (take 1 (at_ind_queue a)) else [])"

lemma fits_op_fits:
  "fits a ch [] = Some False"
  "p \<in> dom (at_op a) \<Longrightarrow> fits a ch (p # q) = Some (op_fits a ch p)"
  by (auto simp: fits_def op_fits_def)

lemma pick_fst:
  assumes "wf_att hs cs H a" "at_chan a c = Some ch"
  shows "map_option fst (pick_next_send_op c a) = Some (first_entry (eligible ch a))"
proof -
  have dom: "p \<in> dom (at_op a)" if "p \<in> set (at_req_queue a) \<or> p \<in> set (at_ind_queue a) \<or> p \<in> set (at_write_queue a)" for p
    using queue_dom [OF assms(1)] that by blast
  have ind: "map_option fst (pick_indication ch a) =
      Some (first_entry (if ch_pending_ind ch = NULL then filter (op_fits a ch) (take 1 (at_ind_queue a)) else []))"
    using dom by (cases "at_ind_queue a") (simp_all add: pick_indication_def fits_op_fits)
  show ?thesis
  proof (cases "ch_queue ch")
    case (Cons p q)
    then show ?thesis using assms(2) by (simp add: pick_next_send_op_def eligible_def chan_update_def)
  next
    case Nil
    show ?thesis
    proof (cases "at_write_queue a \<noteq> [] \<and> op_fits a ch (hd (at_write_queue a))")
      case True
      then show ?thesis using assms(2) Nil dom
        by (cases "at_write_queue a") (simp_all add: pick_next_send_op_def eligible_def fits_op_fits)
    next
      case False
      then have w: "filter (op_fits a ch) (take 1 (at_write_queue a)) = []" "fits a ch (at_write_queue a) = Some False"
        using dom by (cases "at_write_queue a"; simp add: fits_op_fits)+
      show ?thesis
      proof (cases "at_req_queue a")
        case rq: Nil
        then show ?thesis using assms(2) Nil ind w by (simp add: pick_next_send_op_def eligible_def fits_op_fits)
      next
        case (Cons p q)
        then have "p \<in> dom (at_op a)" using dom by simp
        then obtain op where op: "at_op a p = Some op" by blast
        then have "fits a ch (p # q) = Some (op_fits a ch p)" using fits_op_fits(2) by blast
        then show ?thesis using assms(2) Nil ind w Cons op
          by (simp add: pick_next_send_op_def eligible_def)
      qed
    qed
  qed
qed

text \<open>
  C30: The operation the transport picks for a channel is the first eligible one, of those the channel
  may write next, and it is taken out of exactly the one place that held it; when none is eligible
  nothing changes.
\<close>

theorem pick_is_first_eligible:
  assumes "att_reach (scripted S) a" "at_chan a c = Some ch"
  shows "\<exists>a'. pick_next_send_op c a = Some (first_entry (eligible ch a), a') \<and> at_op a' = at_op a \<and>
    held [] a = mset (take 1 (eligible ch a)) + held [] a'"
proof -
  have w: "wf_att ([], [], []) [] {#} a" using reach_wf(1) [OF assms(1)] .
  obtain r a' where p: "pick_next_send_op c a = Some (r, a')" "at_op a' = at_op a"
    and d: "r = NULL \<and> a' = a \<or> (\<exists>p. r = Ptr p \<and> wf_att ([], [], []) [] {#p#} a')"
    using sc.pick_ok [OF w assms(2)] by auto
  have r: "r = first_entry (eligible ch a)" using pick_fst [OF w assms(2)] p(1) by simp
  have "held [] a = mset (take 1 (eligible ch a)) + held [] a'"
  proof (cases "eligible ch a")
    case Nil
    with d r show ?thesis by simp
  next
    case (Cons x xs)
    then have "wf_att ([], [], []) [] {#x#} a'" using d r by auto
    then have "{#x#} + held [] a' = mset_set (dom (at_op a))" using wf_owned p(2) by metis
    also have "\<dots> = held [] a" using wf_owned [OF w] by simp
    finally show ?thesis using Cons by simp
  qed
  with p r show ?thesis by blast
qed

lemma pick_is_first_eligible_witness:
  "\<exists>a'. pick_next_send_op 0 demo_queued = Some (Ptr 1, a') \<and> at_op a' = at_op demo_queued \<and>
    held [] demo_queued = {#1#} + held [] a'"
proof -
  have "eligible (demo_chan\<lparr>ch_writer_active := True\<rparr>) demo_queued = [1]"
    by (simp add: eligible_def op_fits_def demo_queued_def demo_chan_def demo_op_def demo_att_def)
  then show ?thesis
    using pick_is_first_eligible [OF demo_reach_queued, of 0 "demo_chan\<lparr>ch_writer_active := True\<rparr>"] by (simp add: demo_queued_def)
qed

text \<open>
  C10: A channel has at most one request in flight: while one waits for its answer, the write handler
  writes no other request on the channel, and the request stays the pending one.
\<close>

theorem one_request_in_flight:
  assumes "att_reach (scripted S) a" "at_chan a c = Some ch" "ch_pending_req ch = Ptr p"
  shows "\<exists>r a' ch' xs. can_write_data (scripted S) c a = Some (r, a') \<and> at_sent a' = at_sent a @ xs \<and>
    (\<forall>(fd, b)\<in>set xs. b = [] \<or> get_op_type (hd b) \<noteq> ATT_OP_TYPE_REQ) \<and>
    at_chan a' c = Some ch' \<and> ch_pending_req ch' = Ptr p"
proof -
  obtain r a' xs fi where 1: "can_write_data (scripted S) c a = Some (r, a')" "at_sent a' = at_sent a @ xs"
    "\<forall>(fd, b)\<in>set xs. b = [] \<or> get_op_type (hd b) \<noteq> ATT_OP_TYPE_REQ" "slot a' c = Some (Ptr p, fi)"
    using sc.no_second_request [OF reach_wf(1) [OF assms(1)] assms(2,3)] by blast
  then obtain ch' where "at_chan a' c = Some ch'" "ch_pending_req ch' = Ptr p" by (auto simp: slot_def)
  with 1 show ?thesis by blast
qed

lemma one_request_in_flight_witness:
  "\<exists>r a' ch' xs. can_write_data (scripted demo_env) 0 demo_pending = Some (r, a') \<and> at_sent a' = at_sent demo_pending @ xs \<and>
    (\<forall>(fd, b)\<in>set xs. b = [] \<or> get_op_type (hd b) \<noteq> ATT_OP_TYPE_REQ) \<and>
    at_chan a' 0 = Some ch' \<and> ch_pending_req ch' = Ptr 1"
  by (rule one_request_in_flight [OF demo_reach_pending, of 0 "demo_chan\<lparr>ch_pending_req := Ptr 1, ch_writer_active := True\<rparr>"])
    (simp_all add: demo_pending_def demo_queued_def)

section \<open>Answers\<close>

lemma scripted_response [simp]:
  "ev_response (scripted S) f opcode pdu len u = run_script (quiet_client S) f (GotResponse u opcode pdu)"
  by (simp add: scripted_def)

definition destroy_note :: "(script, nat) att_send_op \<Rightarrow> client_event list" where
  "destroy_note op = (case op_destroy op of NULL \<Rightarrow> [] | Ptr _ \<Rightarrow> [GotDestroy (op_user_data op)])"

text \<open>
  C9: A response (other than an Error Response) goes to the pending request of its channel, and to no
  other: the request's function is called once, with the opcode and the bytes of the response when that
  answers the request's opcode, and as an error without bytes otherwise.  The state after the
  function, whatever it did, is the one that is left, but for the request, whose destroy function is
  called and which is freed, and for the channel, which has no pending request; nothing is sent.
\<close>

theorem response_answers_request:
  assumes "att_reach (scripted S) a" "at_chan a c = Some ch" "ch_pending_req ch = Ptr p" "at_op a p = Some op"
    "op_callback op = Ptr f" "opcode \<noteq> BT_ATT_OP_ERROR_RSP"
  shows "\<exists>a1 op1 a' ch'. run_script (quiet_client S) f
      (if get_req_opcode opcode = op_opcode op
       then GotResponse (op_user_data op) opcode (if pdu = [] then NULL else Ptr pdu)
       else GotResponse (op_user_data op) BT_ATT_OP_ERROR_RSP NULL) a = Some a1 \<and> at_op a1 p = Some op1 \<and>
    handle_rsp (scripted S) c opcode pdu a = Some a' \<and>
    at_client a' = at_client a1 @ destroy_note op1 \<and> at_op a' = (at_op a1)(p := None) \<and>
    at_req_queue a' = at_req_queue a1 \<and> at_ind_queue a' = at_ind_queue a1 \<and> at_write_queue a' = at_write_queue a1 \<and>
    at_sent a' = at_sent a \<and> at_chan a' c = Some ch' \<and> ch_pending_req ch' = NULL"
proof -
  have w: "wf_att ([], [], []) [] {#} a" using reach_wf(1) [OF assms(1)] .
  have "get_op_type (op_opcode op) = ATT_OP_TYPE_REQ"
    using wf_chan [OF w assms(2)] assms(3,4) wf_op [OF w assms(4)] by (auto simp: chan_ok_def kind_def op_ok_def)
  then have "op_opcode op \<noteq> 0" by (auto simp: get_op_type_def att_opcode_type_table_def)
  then have h: "handle_rsp (scripted S) c opcode pdu a =
      (if get_req_opcode opcode = op_opcode op
       then finish_req (scripted S) c p opcode (if pdu = [] then NULL else Ptr pdu) (of_nat (length pdu)) a
       else finish_req (scripted S) c p BT_ATT_OP_ERROR_RSP NULL 0 a)"
    using assms(2-4,6) by (auto simp: handle_rsp_def)
  have n: "at_client v = at_client b @ destroy_note o1"
    if "call_destroy (scripted S) (op_destroy o1) (op_user_data o1) (if k then timeout_remove i b else b) = Some v" for k i b v o1
    using that by (auto simp: call_destroy_def destroy_note_def scripted_destroy timeout_remove_def split: ptr.splits if_splits)
  show ?thesis
  proof (cases "get_req_opcode opcode = op_opcode op")
    case True
    with sc.finish_req_exact [OF w assms(2-5), of S opcode "if pdu = [] then NULL else Ptr pdu" "of_nat (length pdu)"] h
    show ?thesis by (auto dest: n simp del: fun_upd_apply)
  next
    case False
    with sc.finish_req_exact [OF w assms(2-5), of S BT_ATT_OP_ERROR_RSP NULL 0] h
    show ?thesis by (auto dest: n simp del: fun_upd_apply)
  qed
qed

lemma response_answers_request_witness:
  "\<exists>a'. handle_rsp (scripted demo_env) 0 0x0B [9] demo_pending = Some a' \<and>
    at_client a' = [GotResponse (Ptr 7) 0x0B (Ptr [9])] @ destroy_note demo_op \<and> at_op a' 1 = None"
  using response_answers_request [OF demo_reach_pending, of 0 "demo_chan\<lparr>ch_pending_req := Ptr 1, ch_writer_active := True\<rparr>" 1
      demo_op "Script []" "0x0B" "[9]"]
  by (auto simp: demo_pending_def demo_queued_def demo_op_def demo_att_def noted_def destroy_note_def get_req_opcode_def
      att_rsp_req_mapping_table_def)

text \<open>
  An error response for insufficient encryption, on a link whose security can still be raised, does
  not reach the client: the security is raised, the timer stops, and the same request goes back to the
  head of the queue to be sent again.
\<close>

theorem refused_request_retried:
  assumes "att_reach (scripted S) a" "at_chan a c = Some ch" "ch_pending_req ch = Ptr p" "ch_sec_level ch = 0"
    "ch_type ch \<noteq> BT_ATT_LOCAL" "ev_get_security S (ch_fd ch) = Some lev" "lev < 2" "ev_set_security S (ch_fd ch) 2"
  shows "\<exists>a' ch' op op'. handle_rsp (scripted S) c BT_ATT_OP_ERROR_RSP [opcode, h0, h1, 0x0F] a = Some a' \<and>
    at_req_queue a' = p # at_req_queue a \<and> at_chan a' c = Some ch' \<and> ch_pending_req ch' = NULL \<and> at_client a' = at_client a \<and>
    at_op a p = Some op \<and> at_op a' p = Some op' \<and> op_timeout_id op' = 0 \<and> op' = op\<lparr>op_timeout_id := 0\<rparr>"
proof -
  have w: "wf_att ([], [], []) [] {#} a" using reach_wf(1) [OF assms(1)] .
  obtain op where op: "at_op a p = Some op" using chan_dom(2) [OF w assms(2,3)] by blast
  obtain ts where h: "handle_error_rsp (scripted S) c p [opcode, h0, h1, 0x0F] a =
      Some (True, opcode, a\<lparr>at_timers := ts, at_op := (at_op a)(p \<mapsto> op\<lparr>op_timeout_id := 0\<rparr>),
        at_chan := (at_chan a)(c \<mapsto> ch\<lparr>ch_pending_req := NULL\<rparr>), at_req_queue := p # at_req_queue a\<rparr>)"
    using handle_error_retry [of a c ch p op "[opcode, h0, h1, 0x0F]" "scripted S" lev] assms(2,4-8) op
    by (auto simp: scripted_def quiet_client_def)
  let ?b = "a\<lparr>at_timers := ts, at_op := (at_op a)(p \<mapsto> op\<lparr>op_timeout_id := 0\<rparr>),
        at_chan := (at_chan a)(c \<mapsto> ch\<lparr>ch_pending_req := NULL\<rparr>), at_req_queue := p # at_req_queue a\<rparr>"
  have ch: "at_chan ?b c = Some (ch\<lparr>ch_pending_req := NULL\<rparr>)" by simp
  obtain m where m: "wakeup_chan_writer (scripted S) c ?b = Some (?b\<lparr>at_chan := m\<rparr>)" "same_chans (at_chan ?b) m"
    using wakeup_chan_Some [OF ch, of "scripted S"] by blast
  obtain b where "m c = Some (ch\<lparr>ch_pending_req := NULL, ch_writer_active := b\<rparr>)"
    using same_chansD [OF m(2) ch] by auto
  moreover have "handle_rsp (scripted S) c BT_ATT_OP_ERROR_RSP [opcode, h0, h1, 0x0F] a = Some (?b\<lparr>at_chan := m\<rparr>)"
    using assms(2,3) h m(1) by (simp add: handle_rsp_def)
  ultimately show ?thesis using op by simp
qed

lemma refused_request_retried_witness:
  "\<exists>a' ch' op op'. handle_rsp (scripted demo_env) 0 BT_ATT_OP_ERROR_RSP [0x0A, 3, 0, 0x0F] demo_pending = Some a' \<and>
    at_req_queue a' = 1 # at_req_queue demo_pending \<and> at_chan a' 0 = Some ch' \<and> ch_pending_req ch' = NULL \<and>
    at_client a' = at_client demo_pending \<and> at_op demo_pending 1 = Some op \<and> at_op a' 1 = Some op' \<and> op_timeout_id op' = 0 \<and>
    op' = op\<lparr>op_timeout_id := 0\<rparr>"
  by (rule refused_request_retried [OF demo_reach_pending, of 0 "demo_chan\<lparr>ch_pending_req := Ptr 1, ch_writer_active := True\<rparr>" 1 1])
    (simp_all add: demo_pending_def demo_queued_def demo_chan_def demo_env_def)

end
