(* ===== verification/TransportSign.thy ===== *)
theory TransportSign
  imports TransportKeep
begin

text \<open>
  Signed PDUs from one transport to another: what \<open>encode_pdu\<close> signs, \<open>handle_signed\<close> accepts, when the
  two ends share the key and the cipher and the receiver accepts the counter.
\<close>

section \<open>The signature\<close>

text \<open>It starts with the counter, and depends on the message and the counter only.\<close>

lemma sign_counter:
  assumes "crypto_ok (Ptr k)" "bt_crypto_sign_att (Ptr k) key m n cnt = Some (Some s)"
  shows "length s = 12 \<and> take 4 s = le_of 4 cnt"
proof -
  obtain key' msg out out1 t where out: "cmac_aes k key' msg = Some out" and o1: "put_be32 cnt out 8 = Some out1"
    and t: "swap_buf out1 16 = Some t" "rd t 4 12 = Some s"
    using assms(2) by (auto simp: bt_crypto_sign_att_def Let_def split: bind_splits option.splits)
  have l: "length out = 16" using assms(1) out by (simp add: crypto_ok_def)
  then have out1: "out1 = take 8 out @ rev (le_of 4 cnt) @ drop 12 out" using o1 by (simp add: put_be32_def wr_def)
  then have "t = rev out1" using t(1) l by (simp add: swap_buf_def rd_def)
  then have "t = rev (drop 12 out) @ le_of 4 cnt @ rev (take 8 out)" using out1 by simp
  with t(2) l have "s = le_of 4 cnt @ rev (take 8 out)" by (simp add: rd_def)
  with l show ?thesis by simp
qed

lemma sign_prefix:
  assumes "take (unat n) m = take (unat n) m'" "unat n \<le> length m" "unat n \<le> length m'"
  shows "bt_crypto_sign_att k key m n cnt = bt_crypto_sign_att k key m' n cnt"
proof -
  have "rd m 0 (unat n) = rd m' 0 (unat n)" using assms by (simp add: rd_def)
  then show ?thesis by (cases k) (simp_all add: bt_crypto_sign_att_def)
qed

text \<open>A message followed by its signature verifies.\<close>

lemma verify_signed:
  assumes "crypto_ok (Ptr k)" "bt_crypto_sign_att (Ptr k) key m n cnt = Some (Some s)" "length m = unat n" "unat n + 12 < 65536"
  shows "bt_crypto_verify_att_sign (Ptr k) key (m @ s) (n + 12) = Some True" "get_le32 (m @ s) (unat n) = Some cnt"
proof -
  note s = sign_counter [OF assms(1,2)]
  have un: "unat (n + 12) = unat n + 12" using assms(4) by (simp add: unat_word_ariths)
  have r: "rd (m @ s) (unat n) 4 = Some (le_of 4 cnt)" "rd (m @ s) (unat n) 12 = Some s"
    using assms(3) s by (simp_all add: rd_def)
  then show c: "get_le32 (m @ s) (unat n) = Some cnt" by (simp add: get_le32_def)
  have "bt_crypto_sign_att (Ptr k) key (m @ s) n cnt = Some (Some s)"
    using sign_prefix [of n "m @ s" m "Ptr k" key cnt] assms(2,3) by simp
  moreover have "\<not> n + 12 < 12" using un by (simp add: word_less_nat_alt)
  ultimately show "bt_crypto_verify_att_sign (Ptr k) key (m @ s) (n + 12) = Some True"
    using c r by (simp add: bt_crypto_verify_att_sign_def)
qed

section \<open>From one end to the other\<close>

lemma encode_signed:
  assumes "wf_att hs cs H a" "body_ok pdu len" "is_signed a (op_opcode op)" "at_local_sign a = Ptr sg" "at_crypto a = Ptr k"
    "op_type op = get_op_type (op_opcode op)" "encode_pdu E op pdu len a = Some (True, op', a')"
  shows "\<exists>cnt s. bt_crypto_sign_att (Ptr k) (sg_key sg) (op_opcode op # body pdu len) (1 + len) cnt = Some (Some s) \<and>
    op_pdu op' = (op_opcode op # body pdu len) @ s"
proof -
  have mem: "ev_mem E" using assms(7) by (auto simp: encode_pdu_def Let_def split: if_splits)
  have fit: "encoded_len a (op_opcode op) len \<le> at_mtu a"
    using encode_pdu_ok [OF assms(1,2,6), of E] assms(7) by auto
  let ?n = "unat (encoded_len a (op_opcode op) len)"
  let ?b = "filled E (op_opcode op) pdu len ?n"
  let ?m = "op_opcode op # body pdu len"
  have ln: "unat len + 13 < 65536" using assms(2) by (simp add: body_ok_def)
  then have n: "?n = 13 + unat len" using unat_encoded_len [of len a "op_opcode op"] assms(3) by simp
  have u1: "unat (1 + len) = Suc (unat len)" using ln by (simp add: unat_word_ariths)
  have lb: "length (body pdu len) = unat len" using length_body [OF assms(2)] .
  have b: "take (Suc (unat len)) ?b = ?m" "length ?b = 13 + unat len"
    using lb n length_filled [OF assms(2), of ?n E "op_opcode op"] by (simp_all add: filled_def)
  obtain cnt s where cnt: "bt_crypto_sign_att (Ptr k) (sg_key sg) ?b (1 + len) cnt = Some (Some s)"
      "wr ?b (unat (1 + len)) s = Some (op_pdu op')"
    using assms(7) unfolding encode_pdu_step [OF assms(2) mem fit]
    using assms(3-5) by (auto simp: Let_def split: if_splits option.splits bind_splits prod.splits)
  have "bt_crypto_sign_att (Ptr k) (sg_key sg) ?m (1 + len) cnt = bt_crypto_sign_att (Ptr k) (sg_key sg) ?b (1 + len) cnt"
    by (rule sign_prefix) (use b lb u1 in simp_all)
  moreover have "crypto_ok (Ptr k)" using wf_parts [OF assms(1)] assms(5) by simp
  then have "length s = 12" using sign_counter cnt(1) by blast
  then have "op_pdu op' = ?m @ s" using cnt(2) b u1 by (simp add: wr_def)
  ultimately show ?thesis using cnt(1) by auto
qed

lemma signed_accepted:
  assumes "crypto_ok (Ptr k)" "bt_crypto_sign_att (Ptr k) key m n cnt = Some (Some s)" "length m = unat n" "3 \<le> unat n"
    "unat n + 12 < 65536" "at_remote_sign b = Ptr sg" "sg_key sg = key" "sg_counter sg = Ptr f" "at_crypto b = Ptr k"
    "fst (fst (ev_counter E f cnt (sg_user_data sg) (at_client b)))"
  shows "\<exists>w. handle_signed E (m @ s) (int (length (m @ s))) b = Some (True, b\<lparr>at_client := w\<rparr>)"
proof -
  note v = verify_signed [OF assms(1-3,5)]
  have l: "length (m @ s) = unat n + 12" using sign_counter [OF assms(1,2)] assms(3) by simp
  have u3: "3 \<le> uint n" using of_nat_le_iff [where 'a = int, of 3 "unat n"] assms(4) by simp
  have wl: "(word_of_int (int (unat n + 12)) :: u16) = n + 12" by simp
  obtain okc x w where ev: "ev_counter E f cnt (sg_user_data sg) (at_client b) = ((okc, x), w)" by (metis prod.exhaust)
  then have okc using assms(10) by simp
  have "handle_signed E (m @ s) (int (unat n + 12)) b = Some (True, b\<lparr>at_client := w\<rparr>)"
    using u3 assms(6-9) v ev \<open>okc\<close> wl by (simp add: handle_signed_def Let_def)
  with l show ?thesis by auto
qed

text \<open>With a cipher that never fails, encoding a signed PDU that fits does not either.\<close>

lemma sign_att_total:
  assumes "crypto_ok (Ptr k)" "length key = 16" "unat n \<le> length m" "unat n + 4 < 65536" "\<And>key m. cmac_aes k key m \<noteq> None"
  shows "\<exists>s. bt_crypto_sign_att (Ptr k) key m n cnt = Some (Some s)"
proof -
  obtain r where r: "bt_crypto_sign_att (Ptr k) key m n cnt = Some r" using sign_att_Some [OF assms(1-4)] by blast
  show ?thesis
  proof (cases r)
    case None
    with r obtain x y where "cmac_aes k x y = None"
      by (auto simp: bt_crypto_sign_att_def Let_def split: bind_splits option.splits)
    with assms(5) [of x y] show ?thesis by simp
  qed (use r in simp)
qed

lemma encode_signed_total:
  assumes "body_ok pdu len" "is_signed a (op_opcode op)" "at_local_sign a = Ptr sg" "sg_counter sg = Ptr f" "at_crypto a = Ptr k"
    "crypto_ok (Ptr k)" "length (sg_key sg) = 16" "ev_mem E" "encoded_len a (op_opcode op) len \<le> at_mtu a"
    "fst (fst (ev_counter E f 0 (sg_user_data sg) (at_client a)))" "\<And>key m. cmac_aes k key m \<noteq> None"
  shows "\<exists>op' a'. encode_pdu E op pdu len a = Some (True, op', a')"
proof -
  let ?n = "unat (encoded_len a (op_opcode op) len)"
  let ?b = "filled E (op_opcode op) pdu len ?n"
  have ln: "unat len + 13 < 65536" using assms(1) by (simp add: body_ok_def)
  then have n: "?n = 13 + unat len" using unat_encoded_len [of len a "op_opcode op"] assms(2) by simp
  have u1: "unat (1 + len) = Suc (unat len)" using ln by (simp add: unat_word_ariths)
  have lb: "length ?b = 13 + unat len" using n length_filled [OF assms(1), of ?n E "op_opcode op"] by simp
  obtain x w where ev: "ev_counter E f 0 (sg_user_data sg) (at_client a) = ((True, x), w)"
    using assms(10) by (metis fst_conv prod.exhaust)
  have "unat (1 + len) \<le> length ?b" "unat (1 + len) + 4 < 65536" using u1 lb ln by simp_all
  from sign_att_total [OF assms(6,7) this assms(11)] obtain s where
    s: "bt_crypto_sign_att (Ptr k) (sg_key sg) ?b (1 + len) x = Some (Some s)" by blast
  have "length s = 12" using sign_counter [OF assms(6) s] by simp
  then have "\<exists>c. wr ?b (unat (1 + len)) s = Some c" using u1 lb by (simp add: wr_def)
  then show ?thesis unfolding encode_pdu_step [OF assms(1,8,9)]
    using assms(2-5) ev s by (auto simp: Let_def)
qed

end
