(* ===== verification/TransportFaults.thy ===== *)
theory TransportFaults
  imports TransportProps TransportSign
begin

text \<open>
  Signed commands from one transport to another, and where \<open>src/shared/att.c\<close> goes wrong: a failed
  write, a signature that does not verify, a handler that removes another, and a missing cipher.
\<close>

section \<open>Signed PDUs\<close>

text \<open>
  C32: A signed command that one transport encodes is accepted by another that has the same key and
  cipher and whose counter function accepts the counter it carries.
\<close>

theorem signed_command_accepted:
  assumes "att_reach (scripted S) a" "at_local_sign a = Ptr sg" "at_crypto a = Ptr k" "body_ok pdu len" "2 \<le> len"
    "op_opcode op AND ATT_OP_SIGNED_MASK \<noteq> 0" "op_type op = get_op_type (op_opcode op)"
    "encode_pdu E op pdu len a = Some (True, op', a')"
    "at_remote_sign b = Ptr rs" "sg_key rs = sg_key sg" "sg_counter rs = Ptr f" "at_crypto b = Ptr k"
    "\<And>cnt. fst (fst (ev_counter R f cnt (sg_user_data rs) (at_client b)))"
  shows "\<exists>w. handle_signed R (op_pdu op') (int (length (op_pdu op'))) b = Some (True, b\<lparr>at_client := w\<rparr>)"
proof -
  have w: "wf_att ([], [], []) [] {#} a" using reach_wf(1) [OF assms(1)] .
  have "is_signed a (op_opcode op)" using assms(2,6) by (simp add: is_signed_def)
  from encode_signed [OF w assms(4) this assms(2,3,7,8)] obtain cnt s where
    s: "bt_crypto_sign_att (Ptr k) (sg_key sg) (op_opcode op # body pdu len) (1 + len) cnt = Some (Some s)"
      "op_pdu op' = (op_opcode op # body pdu len) @ s" by blast
  have ln: "unat len + 13 < 65536" using assms(4) by (simp add: body_ok_def)
  then have u1: "unat (1 + len) = Suc (unat len)" by (simp add: unat_word_ariths)
  have "2 \<le> unat len" using assms(5) by (simp add: word_le_nat_alt)
  moreover have "crypto_ok (Ptr k)" using wf_parts [OF w] assms(3) by simp
  ultimately show ?thesis unfolding s(2)
    using signed_accepted [OF _ s(1), of b rs f R] assms(9-13) ln u1 length_body [OF assms(4)] by simp
qed

definition demo_alg :: kalg where
  "demo_alg = \<lparr>ecb_aes = \<lambda>_ _. None, cmac_aes = \<lambda>_ _. Some (replicate 16 0x5A)\<rparr>"

definition demo_sign :: "(script, nat) sign_info" where
  "demo_sign = \<lparr>sg_key = replicate 16 1, sg_counter = Ptr (Script []), sg_user_data = NULL\<rparr>"

definition demo_signed :: att where
  "demo_signed = demo_att\<lparr>at_crypto := Ptr demo_alg, at_local_sign := Ptr demo_sign\<rparr>"

lemma demo_reach_crypto: "att_reach (scripted demo_env) (demo_att\<lparr>at_crypto := Ptr demo_alg\<rparr>)"
proof (rule att_reach.created)
  show "bt_att_new (scripted demo_env) 3 False (Ptr demo_alg) [] = Some (Ptr (demo_att\<lparr>at_crypto := Ptr demo_alg\<rparr>))"
    by (simp add: bt_att_new_def bt_att_chan_new_def io_get_type_def scripted_def quiet_client_def demo_env_def bt_att_attach_chan_def
        wakeup_chan_writer_def bt_att_ref_def demo_att_def demo_chan_def map_replicate_trivial)
  show "crypto_ok (Ptr demo_alg)" by (simp add: crypto_ok_def demo_alg_def)
qed

lemma demo_reach_signed: "att_reach (scripted demo_env) demo_signed"
  by (rule att_reach.step [OF demo_reach_crypto, of "SetLocalKey (replicate 16 1) (Ptr (Script [])) NULL"])
    (simp_all add: bt_att_set_local_key_def att_live_def sign_set_key_def rd_def demo_signed_def demo_sign_def demo_att_def)

definition demo_cmd :: "(script, nat) att_send_op" where
  "demo_cmd = \<lparr>op_id = 0, op_timeout_id = 0, op_type = ATT_OP_TYPE_CMD, op_opcode = 0xD2, op_pdu = [], op_len = 0,
     op_callback = NULL, op_destroy = NULL, op_user_data = NULL\<rparr>"

lemma demo_encode: "\<exists>op' a'. encode_pdu demo_env demo_cmd (Ptr [3, 0, 9]) 3 demo_signed = Some (True, op', a')"
  by (rule encode_signed_total [of _ _ _ _ demo_sign "Script []" demo_alg])
    (simp_all add: body_ok_def is_signed_def encoded_len_def crypto_ok_def demo_env_def demo_cmd_def demo_signed_def demo_att_def
      demo_sign_def demo_alg_def)

lemma signed_command_accepted_witness:
  "\<exists>op' a' w. encode_pdu demo_env demo_cmd (Ptr [3, 0, 9]) 3 demo_signed = Some (True, op', a') \<and>
     handle_signed demo_env (op_pdu op') (int (length (op_pdu op'))) (demo_att\<lparr>at_crypto := Ptr demo_alg, at_remote_sign := Ptr demo_sign\<rparr>) =
     Some (True, demo_att\<lparr>at_crypto := Ptr demo_alg, at_remote_sign := Ptr demo_sign, at_client := w\<rparr>)"
proof -
  let ?b = "demo_att\<lparr>at_crypto := Ptr demo_alg, at_remote_sign := Ptr demo_sign\<rparr>"
  obtain op' a' where e: "encode_pdu demo_env demo_cmd (Ptr [3, 0, 9]) 3 demo_signed = Some (True, op', a')"
    using demo_encode by blast
  have "\<exists>w. handle_signed demo_env (op_pdu op') (int (length (op_pdu op'))) ?b = Some (True, ?b\<lparr>at_client := w\<rparr>)"
    by (rule signed_command_accepted [OF demo_reach_signed, of demo_sign demo_alg "Ptr [3, 0, 9]" 3 demo_cmd demo_env _ a' _ demo_sign
        "Script []"])
      (use e in \<open>simp_all add: demo_signed_def demo_sign_def body_ok_def demo_cmd_def get_op_type_def att_opcode_type_table_def
        demo_env_def\<close>)
  with e show ?thesis by simp
qed

section \<open>Where the transport goes wrong\<close>

text \<open>
  A request whose write fails is treated as sent: the write handler takes only a result of 0 for a
  failure, so a negative one (the error of \<open>io_send\<close>) makes the request the pending one although
  nothing was written, and its function is not called.
\<close>

theorem failed_write_pends:
  assumes "att_reach (scripted S) a" "at_chan a c = Some ch" "ch_queue ch = []" "at_write_queue a = []"
    "ch_pending_req ch = NULL" "at_req_queue a = p # q" "at_op a p = Some op" "op_len op \<le> ch_mtu ch"
    "op_opcode op \<noteq> BT_ATT_OP_MTU_REQ" "ev_send S (ch_fd ch) (op_pdu op) < 0"
  shows "\<exists>a' ch'. write_ready (scripted S) c a = Some a' \<and> at_chan a' c = Some ch' \<and> ch_pending_req ch' = Ptr p \<and>
    at_sent a' = at_sent a \<and> at_client a' = at_client a \<and> at_req_queue a' = q"
proof -
  have w: "wf_att ([], [], []) [] {#} a" using reach_wf(1) [OF assms(1)] .
  have pick: "pick_next_send_op c a = Some (Ptr p, a\<lparr>at_req_queue := q\<rparr>)"
    using assms(2-9) by (simp add: pick_next_send_op_def fits_def)
  have t: "op_type op = ATT_OP_TYPE_REQ" using wf_kinds(1) [OF w, of p] assms(6,7) by (simp add: kind_def)
  have "wf_att ([], [], []) [] {#p#} (a\<lparr>at_req_queue := q\<rparr>)"
    by (rule wf_req_queue [OF w]) (use wf_kinds(1) [OF w] assms(6) in auto)
  from write_req [OF this, of c ch p op "scripted S"] assms(2,7,10) t can_write_data_picked(1) [OF pick]
  show ?thesis by (simp add: write_ready_def sent_after_def scripted_def quiet_client_def)
qed

lemma failed_write_pends_witness:
  "\<exists>a' ch'. write_ready (scripted (demo_env\<lparr>ev_send := \<lambda>_ _. -104\<rparr>)) 0 demo_queued = Some a' \<and> at_chan a' 0 = Some ch' \<and>
    ch_pending_req ch' = Ptr 1 \<and> at_sent a' = at_sent demo_queued \<and> at_client a' = at_client demo_queued \<and> at_req_queue a' = []"
proof (rule failed_write_pends)
  let ?S = "demo_env\<lparr>ev_send := \<lambda>_ _. -104\<rparr>"
  have new: "bt_att_new (scripted ?S) 3 True NULL [] = Some (Ptr demo_att)"
    by (simp add: bt_att_new_def bt_att_chan_new_def io_get_type_def scripted_def quiet_client_def demo_env_def bt_att_attach_chan_def
        wakeup_chan_writer_def bt_att_ref_def demo_att_def demo_chan_def map_replicate_trivial)
  have r: "att_reach (scripted ?S) demo_att" by (rule att_reach.created [OF new]) (simp add: crypto_ok_def)
  have "run_event (scripted ?S) (Send 0x0A (Ptr [3, 0]) 2 (Ptr (Script [])) (Ptr 7) NULL) demo_att = Some demo_queued"
    by (simp add: bt_att_send_def demo_att_def create_att_send_op_def encode_pdu_def get_op_type_def att_opcode_type_table_def Let_def
        att_live_def wr8_def rd_def wr_def upt_rec op_update_def wakeup_writer_def wakeup_chan_writer_def demo_chan_def chan_update_def
        demo_queued_def demo_op_def scripted_def quiet_client_def demo_env_def)
  from att_reach.step [OF r _ this] show "att_reach (scripted ?S) demo_queued" by (simp add: body_ok_def)
  show "at_chan demo_queued 0 = Some (demo_chan\<lparr>ch_writer_active := True\<rparr>)" "at_op demo_queued 1 = Some (demo_op\<lparr>op_timeout_id := 0\<rparr>)"
    "at_req_queue demo_queued = [1]" by (simp_all add: demo_queued_def)
qed (simp_all add: demo_chan_def demo_queued_def demo_att_def demo_op_def)

text \<open>
  A signed command whose signature does not verify leaks the transport: the early return of
  \<open>handle_notify\<close> skips its \<open>bt_att_unref\<close>, so each such packet of the peer leaves one reference
  behind, and the transport is never freed.
\<close>

theorem bad_signature_leaks_reference:
  assumes "att_reach (scripted S) a" "at_chan a c = Some ch" "at_notify_list a = n # ns" "at_notify a n = Some h"
    "ucast (nt_opcode h) = opcode" "opcode AND ATT_OP_SIGNED_MASK \<noteq> 0" "get_op_type opcode = ATT_OP_TYPE_CMD"
    "at_crypto a \<noteq> NULL" "at_remote_sign a = NULL" "length pk < unat (ch_mtu ch)"
  shows "\<exists>a'. run_event (scripted S) (Incoming c (Some (opcode # pk))) a = Some a' \<and> at_ref_count a' = at_ref_count a + 1 \<and>
    at_client a' = at_client a"
proof -
  have w: "wf_att ([], [], []) [] {#} a" and r: "0 < at_ref_count a" using reach_wf [OF assms(1)] by simp_all
  have tk: "take (unat (ch_mtu ch)) (opcode # pk) = opcode # pk" using assms(10) by simp
  have "length (opcode # pk) \<le> length (ch_buf ch)" using wf_chan [OF w assms(2)] assms(10) by (simp add: chan_ok_def)
  then obtain b where b: "wr (ch_buf ch) 0 (opcode # pk) = Some b" "length b = length (ch_buf ch)" by (auto simp: wr_def)
  let ?ch = "ch\<lparr>ch_buf := b\<rparr>" let ?a = "bt_att_ref (a\<lparr>at_chan := (at_chan a)(c \<mapsto> ?ch)\<rparr>)"
  have wa: "wf_att ([], [], []) [] {#} (a\<lparr>at_chan := (at_chan a)(c \<mapsto> ?ch)\<rparr>)"
    by (rule flag_chan_ok [OF w assms(2)]) (simp_all add: chan_held_def chan_ok_def b(2))
  have "notify_loop (scripted S) c (opcode # pk) len False (Ptr n) (bt_att_ref ?a) = Some (None, bt_att_ref ?a)" for len
    using assms(3-6,8,9)
    by (simp add: notify_loop.simps [of _ _ _ _ _ "Ptr n"] bt_att_ref_def rd8_def opcode_match_def handle_signed_def)
  then have "handle_notify (scripted S) c (opcode # pk) ?a = Some (bt_att_ref ?a)"
    using assms(3) by (simp add: handle_notify_def rd8_def Let_def) (simp add: bt_att_ref_def)
  moreover have "bt_att_unref (scripted S) (bt_att_ref ?a) = Some ?a"
    using unref_keep [of "([], [], [])" "[]" "{#}" "bt_att_ref ?a" "scripted S"] wa r by (simp add: bt_att_ref_def)
  ultimately have "can_read_data (scripted S) c (Some (opcode # pk)) a = Some (True, ?a)"
    using assms(2,7,10) b(1) by (simp add: can_read_data_def Let_def tk chan_update_def rd8_def del: take_Cons' take_all_iff take_all)
  then show ?thesis by (simp add: bt_att_ref_def)
qed

definition demo_hook :: "u32 \<Rightarrow> u16 \<Rightarrow> (script, nat) att_notify" where
  "demo_hook i opcode = \<lparr>nt_id = i, nt_opcode = opcode, nt_callback = Ptr (Script []), nt_destroy = NULL, nt_user_data = NULL\<rparr>"

definition demo_hooked :: att where
  "demo_hooked = demo_att\<lparr>at_crypto := Ptr demo_alg, at_next_reg_id := 2, at_notify := [1 \<mapsto> demo_hook 1 0xD2], at_brk := 2,
     at_notify_list := [1]\<rparr>"

lemma demo_reach_hooked: "att_reach (scripted demo_env) demo_hooked"
  by (rule att_reach.step [OF demo_reach_crypto, of "Register 0xD2 (Ptr (Script [])) NULL NULL"])
    (simp_all add: bt_att_register_def att_live_def new_reg_id_def Let_def demo_hooked_def demo_hook_def demo_att_def)

lemma bad_signature_leaks_reference_witness:
  "\<exists>a'. run_event (scripted demo_env) (Incoming 0 (Some (0xD2 # [3, 0, 9]))) demo_hooked = Some a' \<and>
    at_ref_count a' = at_ref_count demo_hooked + 1 \<and> at_client a' = at_client demo_hooked"
  by (rule bad_signature_leaks_reference [OF demo_reach_hooked, of 0 demo_chan 1 "[]" "demo_hook 1 0xD2"])
    (simp_all add: demo_hooked_def demo_att_def demo_hook_def demo_chan_def get_op_type_def att_opcode_type_table_def)

text \<open>
  A handler that removes the next entry of the list of handlers makes the loop of \<open>handle_notify\<close> use
  a freed entry: it reads the next entry before it calls a handler, and afterwards stops only when the
  whole list is empty.
\<close>

theorem notify_handler_removes_next:
  assumes "att_reach E a" "at_notify_list a = [m, n]" "at_notify a m = Some h" "at_notify a n = Some h'" "nt_id h \<noteq> nt_id h'"
    "nt_id h' \<noteq> 0" "nt_destroy h' = NULL" "nt_callback h = Ptr f" "opcode_match (ucast (nt_opcode h)) opcode"
    "at_crypto a = NULL" "at_chans a = [c]" "at_chan a c = Some ch" "opcode \<noteq> BT_ATT_OP_MTU_REQ" "\<not> at_freed a"
    "\<And>pk len u b. ev_notify E f c opcode pk len u b = result_att (bt_att_unregister E (nt_id h') (Ptr b))"
  shows "handle_notify E c (opcode # pk) a = None"
proof -
  have ne: "m \<noteq> n" using assms(3-5) by auto
  let ?a = "bt_att_ref a"
  let ?b = "?a\<lparr>at_notify_list := [m], at_notify := (at_notify a)(n := None)\<rparr>"
  have un: "bt_att_unregister E (nt_id h') (Ptr ?a) = Some (True, Ptr ?b)"
    using assms(2-7,14) ne by (simp add: bt_att_unregister_def att_live_def destroy_att_notify_def call_destroy_def bt_att_ref_def)
  have two: "notify_loop E c (opcode # pk) len True (Ptr n) ?b = None" for len
    using ne by (simp add: notify_loop.simps [of _ _ _ _ _ "Ptr n"])
  have "notify_loop E c (opcode # pk) len False (Ptr m) ?a = None" for len
    using assms(2,3,8-13,15) un two ne
    by (simp add: notify_loop.simps [of _ _ _ _ _ "Ptr m"] bt_att_ref_def rd8_def bt_att_get_link_type_def)
  then show ?thesis using assms(2) by (simp add: handle_notify_def rd8_def Let_def) (simp add: bt_att_ref_def)
qed

text \<open>Two handlers for the same notification, the first of which removes the second.\<close>

definition demo_removing :: env where
  "demo_removing = demo_env\<lparr>ev_notify := \<lambda>f c opcode pk len u b. result_att (bt_att_unregister demo_env 2 (Ptr b))\<rparr>"

definition demo_two :: att where
  "demo_two = demo_att\<lparr>at_next_reg_id := 3, at_notify := [1 \<mapsto> demo_hook 1 0x1B, 2 \<mapsto> demo_hook 2 0x1B], at_brk := 3,
     at_notify_list := [1, 2]\<rparr>"

lemma demo_reach_two: "att_reach demo_removing demo_two"
proof -
  let ?one = "demo_att\<lparr>at_next_reg_id := 2, at_notify := [1 \<mapsto> demo_hook 1 0x1B], at_brk := 2, at_notify_list := [1]\<rparr>"
  have new: "bt_att_new demo_removing 3 True NULL [] = Some (Ptr demo_att)"
    by (simp add: bt_att_new_def bt_att_chan_new_def io_get_type_def demo_removing_def demo_env_def bt_att_attach_chan_def
        wakeup_chan_writer_def bt_att_ref_def demo_att_def demo_chan_def map_replicate_trivial)
  have "att_reach demo_removing demo_att" by (rule att_reach.created [OF new]) (simp add: crypto_ok_def)
  then have "att_reach demo_removing ?one"
    by (rule att_reach.step [of _ _ "Register 0x1B (Ptr (Script [])) NULL NULL"])
      (simp_all add: bt_att_register_def att_live_def new_reg_id_def Let_def demo_hook_def demo_att_def)
  then show ?thesis
    by (rule att_reach.step [of _ _ "Register 0x1B (Ptr (Script [])) NULL NULL"])
      (simp_all add: bt_att_register_def att_live_def new_reg_id_def Let_def demo_hook_def demo_att_def demo_two_def)
qed

lemma demo_unregister: "bt_att_unregister demo_removing i p = bt_att_unregister demo_env i p"
proof -
  have "call_destroy demo_removing = call_destroy demo_env"
    by (intro ext) (simp add: call_destroy_def demo_removing_def split: ptr.split)
  then have e: "destroy_att_notify demo_removing = destroy_att_notify demo_env" by (intro ext) (simp add: destroy_att_notify_def)
  show ?thesis unfolding bt_att_unregister_def e ..
qed

lemma notify_handler_removes_next_witness: "handle_notify demo_removing 0 (0x1B # [3, 0, 9]) demo_two = None"
proof (rule notify_handler_removes_next [OF demo_reach_two, of 1 2 "demo_hook 1 0x1B" "demo_hook 2 0x1B" "Script []" _ 0 demo_chan])
  show "ev_notify demo_removing (Script []) 0 0x1B pk len u b =
      result_att (bt_att_unregister demo_removing (nt_id (demo_hook 2 0x1B)) (Ptr b))" for pk len u b
    unfolding demo_unregister by (simp add: demo_removing_def demo_hook_def)
qed (simp_all add: demo_two_def demo_att_def demo_hook_def opcode_match_def)

lemma destroy_plain:
  assumes "at_op a p = Some op" "op_destroy op = NULL"
  shows "\<exists>ts. destroy_att_send_op E p a = Some (a\<lparr>at_timers := ts, at_op := (at_op a)(p := None)\<rparr>)"
proof -
  have "\<exists>ts. (if op_timeout_id op \<noteq> 0 then timeout_remove (op_timeout_id op) a else a) = a\<lparr>at_timers := ts\<rparr>"
    by (cases "op_timeout_id op \<noteq> 0") (auto simp: timeout_remove_def intro: exI [of _ "at_timers a"])
  then obtain ts where "(if op_timeout_id op \<noteq> 0 then timeout_remove (op_timeout_id op) a else a) = a\<lparr>at_timers := ts\<rparr>" ..
  then have "destroy_att_send_op E p a = Some (a\<lparr>at_timers := ts, at_op := (at_op a)(p := None)\<rparr>)"
    using assms by (simp add: destroy_att_send_op_def call_destroy_def Let_def)
  then show ?thesis ..
qed

lemma cancel_disc_empty:
  assumes "\<not> at_freed a" "at_chans a = []" "at_in_disc a" "queues a = ([], [], [])"
  shows "bt_att_cancel E i (Ptr a) = Some (False, Ptr a)"
  using assms by (simp add: bt_att_cancel_def att_live_def bt_att_disc_cancel_def queues_def)

text \<open>An operation of a queue that is being emptied, whose function cancels another one, or nothing.\<close>

lemma disc_op_drained:
  assumes "\<not> at_freed a" "at_chans a = []" "at_in_disc a" "queues a = ([], [], [])" "at_op a p = Some op" "op_destroy op = NULL"
    "op_callback op = Ptr (Script xs)" "xs = [] \<or> xs = [ActCancel i]"
  shows "\<exists>ts. disc_att_send_op (scripted S) p a = Some (a\<lparr>at_client := at_client a @ [GotResponse (op_user_data op) BT_ATT_OP_ERROR_RSP NULL],
    at_timers := ts, at_op := (at_op a)(p := None)\<rparr>)"
proof -
  let ?a = "noted (GotResponse (op_user_data op) BT_ATT_OP_ERROR_RSP NULL) a"
  have "bt_att_cancel (quiet_client S) i (Ptr ?a) = Some (False, Ptr ?a)"
    by (rule cancel_disc_empty) (use assms(1-4) in \<open>simp_all add: noted_def queues_def\<close>)
  then have "call_failed (scripted S) p a = Some ?a" using assms(5,7,8) by (auto simp: call_failed_def)
  moreover have "at_op ?a p = Some op" using assms(5) by (simp add: noted_def)
  from destroy_plain [OF this assms(6), of "scripted S"] obtain ts where
    "destroy_att_send_op (scripted S) p ?a = Some (?a\<lparr>at_timers := ts, at_op := (at_op ?a)(p := None)\<rparr>)" by blast
  ultimately show ?thesis by (auto simp: disc_att_send_op_def noted_def)
qed

text \<open>
  Cancelling does not work while a closed socket is handled: \<open>disconnect_cb\<close> empties a queue before it
  calls the functions of the operations in it, and \<open>bt_att_cancel\<close> then looks for the operation in the
  empty queue.  A client whose first request fails and which cancels its second one in response is
  still called for the second one.
\<close>

theorem disconnect_ignores_cancel:
  assumes "att_reach (scripted S) a" "at_chans a = [c]" "at_chan a c = Some ch" "ch_queue ch = []" "ch_pending_req ch = NULL"
    "ch_pending_ind ch = NULL" "at_req_queue a = [p, q]" "at_ind_queue a = []" "at_write_queue a = []"
    "at_notify_list a = []" "at_disconn_list a = []" "at_exchange_list a = []"
    "at_op a p = Some op" "op_callback op = Ptr (Script [ActCancel (op_id op')])" "op_destroy op = NULL"
    "at_op a q = Some op'" "op_callback op' = Ptr (Script [])" "op_destroy op' = NULL"
  shows "\<exists>a'. disconnect_cb (scripted S) c a = Some a' \<and> at_client a' = at_client a @
    [GotResponse (op_user_data op) BT_ATT_OP_ERROR_RSP NULL, GotResponse (op_user_data op') BT_ATT_OP_ERROR_RSP NULL]"
proof -
  have w: "wf_att ([], [], []) [] {#} a" and r: "0 < at_ref_count a" using reach_wf [OF assms(1)] by simp_all
  have live: "\<not> at_freed a" using wf_parts [OF w] by simp
  have "count (held [] a) p = count (mset_set (dom (at_op a))) p" using wf_owned [OF w] by (metis add_0)
  also have "\<dots> \<le> 1" using wf_finite [OF w] by (simp add: count_mset_set')
  finally have ne: "p \<noteq> q" using assms(2-9) by (auto simp: held_def chan_held_def)
  define a1 where "a1 = a\<lparr>at_chans := [], at_chan := (at_chan a)(c := None)\<rparr>"
  have free: "bt_att_chan_free (scripted S) c (a\<lparr>at_chans := []\<rparr>) = Some a1"
    using assms(3-6) by (simp add: bt_att_chan_free_def chan_update_def a1_def)
  have pend: "disc_pending (scripted S) c (a\<lparr>at_chans := []\<rparr>) = Some (a\<lparr>at_chans := []\<rparr>)"
    using assms(3,5,6) by (simp add: disc_pending_def)
  define b where "b = a1\<lparr>at_ref_count := at_ref_count a + 1, at_in_disc := True, at_req_queue := []\<rparr>"
  have b: "\<not> at_freed b" "at_chans b = []" "at_in_disc b" "queues b = ([], [], [])" "at_op b = at_op a" "at_client b = at_client a"
    using live assms(8,9) by (simp_all add: b_def a1_def queues_def)
  obtain ts where 1: "disc_att_send_op (scripted S) p b = Some (b\<lparr>at_client := at_client a @ [GotResponse (op_user_data op) 1 NULL],
      at_timers := ts, at_op := (at_op a)(p := None)\<rparr>)"
    using disc_op_drained [OF b(1-4), of p op _ "op_id op'"] assms(13-15) b(5,6) by auto
  define d where "d = b\<lparr>at_client := at_client a @ [GotResponse (op_user_data op) 1 NULL], at_timers := ts, at_op := (at_op a)(p := None)\<rparr>"
  have d: "\<not> at_freed d" "at_chans d = []" "at_in_disc d" "queues d = ([], [], [])" "at_op d q = Some op'"
    using b ne assms(16) by (simp_all add: d_def queues_def)
  obtain ts' where 2: "disc_att_send_op (scripted S) q d = Some (d\<lparr>at_client := at_client d @ [GotResponse (op_user_data op') 1 NULL],
      at_timers := ts', at_op := (at_op d)(q := None)\<rparr>)"
    using disc_op_drained [OF d(1-5), of _ 0] assms(17,18) by auto
  define e where "e = d\<lparr>at_client := at_client d @ [GotResponse (op_user_data op') 1 NULL], at_timers := ts', at_op := (at_op d)(q := None)\<rparr>"
  have both: "each (disc_att_send_op (scripted S)) [p, q] b = Some e" using 1 2 by (simp add: d_def [symmetric] e_def)
  have ef: "\<not> at_freed e" "at_ind_queue e = []" "at_write_queue e = []" "at_notify_list e = []" "at_disconn_list e = []" "at_exchange_list e = []"
    "at_ref_count e = at_ref_count a + 1" "at_client e = at_client a @ [GotResponse (op_user_data op) 1 NULL, GotResponse (op_user_data op') 1 NULL]"
    using live assms(8-12) by (simp_all add: e_def d_def b_def a1_def)
  let ?f = "e\<lparr>at_ind_queue := [], at_write_queue := [], at_in_disc := False, at_notify_list := [], at_disconn_list := [], at_exchange_list := []\<rparr>"
  have none: "foreach_entry f g NULL x = Some x" for f and g :: "nat \<Rightarrow> att \<Rightarrow> att option" and x
    by (simp add: foreach_entry.simps [of _ _ NULL])
  have "disconnect_cb (scripted S) c a = bt_att_unref (scripted S) ?f"
    using assms(2,3,7) live pend free both ef
    by (simp add: disconnect_cb_def Let_def att_live_def bt_att_ref_def unregister_all_def none a1_def b_def)
  then show ?thesis using ef r by (simp add: bt_att_unref_def att_live_def)
qed

text \<open>Two requests, the function of the first of which cancels the second.\<close>

definition demo_request :: "u32 \<Rightarrow> act list \<Rightarrow> (script, nat) att_send_op" where
  "demo_request i xs = demo_op\<lparr>op_id := i, op_timeout_id := 0, op_callback := Ptr (Script xs), op_user_data := Ptr (unat i)\<rparr>"

definition demo_cancelling :: "nat list \<Rightarrow> u32 \<Rightarrow> (nat \<rightharpoonup> (script, nat) att_send_op) \<Rightarrow> att" where
  "demo_cancelling q i ops = demo_att\<lparr>at_next_send_id := i, at_req_queue := q, at_chan := [0 \<mapsto> demo_chan\<lparr>ch_writer_active := True\<rparr>],
     at_op := ops, at_brk := unat i\<rparr>"

lemma demo_reach_cancelling:
  "att_reach (scripted demo_env) (demo_cancelling [1, 2] 3 [1 \<mapsto> demo_request 1 [ActCancel 2], 2 \<mapsto> demo_request 2 []])"
proof -
  note defs = demo_att_def create_att_send_op_def encode_pdu_def get_op_type_def att_opcode_type_table_def Let_def
    att_live_def wr8_def rd_def wr_def upt_rec op_update_def wakeup_writer_def wakeup_chan_writer_def demo_chan_def chan_update_def
    demo_op_def demo_request_def demo_cancelling_def bt_att_send_def
  have "att_reach (scripted demo_env) (demo_cancelling [1] 2 [1 \<mapsto> demo_request 1 [ActCancel 2]])"
    by (rule att_reach.step [OF demo_reach, of "Send 0x0A (Ptr [3, 0]) 2 (Ptr (Script [ActCancel 2])) (Ptr 1) NULL"])
      (simp_all add: body_ok_def, simp add: defs)
  then show ?thesis
    by (rule att_reach.step [of _ _ "Send 0x0A (Ptr [3, 0]) 2 (Ptr (Script [])) (Ptr 2) NULL"])
      (simp_all add: body_ok_def, simp add: defs)
qed

lemma disconnect_ignores_cancel_witness:
  "\<exists>a'. disconnect_cb (scripted demo_env) 0
      (demo_cancelling [1, 2] 3 [1 \<mapsto> demo_request 1 [ActCancel 2], 2 \<mapsto> demo_request 2 []]) = Some a' \<and>
    at_client a' = [] @ [GotResponse (Ptr 1) BT_ATT_OP_ERROR_RSP NULL, GotResponse (Ptr 2) BT_ATT_OP_ERROR_RSP NULL]"
  using disconnect_ignores_cancel [OF demo_reach_cancelling, of 0 "demo_chan\<lparr>ch_writer_active := True\<rparr>" 1 2
      "demo_request 1 [ActCancel 2]" "demo_request 2 []"]
  by (simp add: demo_cancelling_def demo_request_def demo_op_def demo_att_def demo_chan_def)

text \<open>
  Without a cipher, a command of the signed kind is sent as if it were signed once there is a local
  key: room for the signature is added to the PDU but nothing is written there, so twelve bytes of
  uninitialised memory go to the peer.
\<close>

theorem signed_without_cipher:
  assumes "at_local_sign a = Ptr sg" "at_crypto a = NULL" "op_opcode op AND ATT_OP_SIGNED_MASK \<noteq> 0" "body_ok pdu len" "ev_mem E"
    "len + 13 \<le> at_mtu a"
  shows "encode_pdu E op pdu len a = Some (True, op\<lparr>op_len := len + 13,
    op_pdu := (op_opcode op # body pdu len) @ map (ev_junk E) [Suc (unat len)..<Suc (unat len) + 12]\<rparr>, a)"
proof -
  have s: "is_signed a (op_opcode op)" using assms(1,3) by (simp add: is_signed_def)
  then have e: "encoded_len a (op_opcode op) len = len + 13" by (simp add: encoded_len_def add.commute)
  have "unat (len + 13) = Suc (unat len) + 12" using assms(4) by (simp add: body_ok_def unat_word_ariths)
  then show ?thesis using encode_pdu_step [OF assms(4,5), of a op] assms(2,6) by (simp add: e filled_def Let_def)
qed

lemma signed_without_cipher_witness:
  "encode_pdu demo_env demo_cmd (Ptr [3, 0, 9]) 3 (demo_att\<lparr>at_local_sign := Ptr demo_sign\<rparr>) =
     Some (True, demo_cmd\<lparr>op_len := 3 + 13, op_pdu := (0xD2 # body (Ptr [3, 0, 9]) 3) @ map (ev_junk demo_env) [Suc 3..<Suc 3 + 12]\<rparr>,
       demo_att\<lparr>at_local_sign := Ptr demo_sign\<rparr>)"
  using signed_without_cipher [of "demo_att\<lparr>at_local_sign := Ptr demo_sign\<rparr>" demo_sign demo_cmd "Ptr [3, 0, 9]" 3 demo_env]
  by (simp add: demo_att_def demo_cmd_def body_ok_def demo_env_def)

end
