(* ===== verification/Stack.thy ===== *)
theory Stack
  imports TransportProps GattLong
begin

text \<open>
  The client object of \<open>attrib/gattrib.c\<close> over the transport of \<open>src/shared/att.c\<close>: the interface
  \<open>bt_att_ops\<close>, over which the client object is verified, implemented by the functions of the
  transport.  The transport's user data are the addresses of callback records, and what it calls
  (\<open>attrib_callback_result\<close>, \<open>attrib_callbacks_remove\<close>) is noted in its log in the order of the
  calls, from where \<open>deliver\<close> runs it on the client object.
\<close>

section \<open>The interface implemented\<close>

definition outcome :: "'r \<Rightarrow> att \<Rightarrow> ('r \<times> att ptr) option \<Rightarrow> 'r \<times> att" where
  "outcome r a x = (case x of Some (r', Ptr a') \<Rightarrow> (r', a') | _ \<Rightarrow> (r, a))"

text \<open>
  A request comes with functions exactly when it comes with a callback record; a registration always
  does.  What these functions do is left to \<open>deliver\<close>, so for the transport they are the script that
  only notes the call.
\<close>

definition glue :: "nat ptr \<Rightarrow> script ptr" where
  "glue cb = (case cb of NULL \<Rightarrow> NULL | Ptr _ \<Rightarrow> Ptr (Script []))"

definition destroyed :: "client_event list \<Rightarrow> nat list" where
  "destroyed log = concat (map (\<lambda>ev. case ev of GotDestroy (Ptr a) \<Rightarrow> [a] | _ \<Rightarrow> []) log)"

definition with_destroyed :: "att \<Rightarrow> bool \<times> att \<Rightarrow> bool \<times> nat list \<times> att" where
  "with_destroyed a r = (fst r, destroyed (drop (length (at_client a)) (at_client (snd r))), snd r)"

definition over_transport :: "env \<Rightarrow> kalg ptr \<Rightarrow> att bt_att_ops" where
  "over_transport S crypto = \<lparr>
     ba_new = (\<lambda>fd ext. case bt_att_new (scripted S) fd ext crypto [] of Some p \<Rightarrow> p | None \<Rightarrow> NULL),
     ba_set_mtu = (\<lambda>a mtu. outcome False a (bt_att_set_mtu (scripted S) mtu (Ptr a))),
     ba_get_mtu = (\<lambda>a. bt_att_get_mtu (Ptr a)),
     ba_send = (\<lambda>a op body cb. outcome 0 a
       (bt_att_send (scripted S) op (Ptr body) (of_nat (length body)) (glue cb) cb (glue cb) (Ptr a))),
     ba_resend = (\<lambda>a i op body cb. outcome (- 22) a
       (bt_att_resend (scripted S) i op (Ptr body) (of_nat (length body)) (glue cb) cb (glue cb) (Ptr a))),
     ba_cancel = (\<lambda>a i. with_destroyed a (outcome False a (bt_att_cancel (scripted S) i (Ptr a)))),
     ba_register = (\<lambda>a op cb. outcome 0 a (bt_att_register op (Ptr (Script [])) cb (Ptr (Script [])) (Ptr a))),
     ba_unregister = (\<lambda>a i. with_destroyed a (outcome False a (bt_att_unregister (scripted S) i (Ptr a)))),
     ba_unregister_all = (\<lambda>a. with_destroyed a (outcome False a (bt_att_unregister_all (scripted S) (Ptr a)))),
     ba_unref = (\<lambda>a. case bt_att_unref (scripted S) a of
        Some a' \<Rightarrow> destroyed (drop (length (at_client a)) (at_client a')) | None \<Rightarrow> [])\<rparr>"

text \<open>Running what the transport called on the client object.\<close>

fun deliver :: "client_event list \<Rightarrow> ('f, 'u, 'a) gattrib \<Rightarrow> (('f, 'u) event list \<times> ('f, 'u, 'a) gattrib) option" where
  "deliver [] g = Some ([], g)"
| "deliver (GotResponse u opcode pdu # log) g = do {
     e1 \<leftarrow> attrib_callback_result True opcode pdu (case pdu of NULL \<Rightarrow> 0 | Ptr p \<Rightarrow> of_nat (length p)) u g;
     (e2, g) \<leftarrow> deliver log g;
     Some (e1 @ e2, g) }"
| "deliver (GotDestroy u # log) g = do {
     (e1, g) \<leftarrow> attrib_callbacks_remove u g;
     (e2, g) \<leftarrow> deliver log g;
     Some (e1 @ e2, g) }"
| "deliver (_ # log) g = deliver log g"

section \<open>A request keeps the MTU\<close>

lemma outcome_mtu:
  assumes "\<And>r' a'. x = Some (r', Ptr a') \<Longrightarrow> at_mtu a' = at_mtu a"
  shows "at_mtu (snd (outcome r a x)) = at_mtu a"
  using assms by (auto simp: outcome_def split: option.split ptr.split)

definition mtu_after :: "('r \<Rightarrow> ('f, 'u, 'w) bt_att) \<Rightarrow> u16 \<Rightarrow> 'r option \<Rightarrow> bool" where
  "mtu_after g m x \<longleftrightarrow> (\<forall>r. x = Some r \<longrightarrow> at_mtu (g r) = m)"

lemma mtu_after_bind: "(\<And>y. x = Some y \<Longrightarrow> mtu_after g m (f y)) \<Longrightarrow> mtu_after g m (Option.bind x f)"
  by (cases x) (simp_all add: mtu_after_def)

lemma mtu_after_Some [simp]: "mtu_after g m (Some r) \<longleftrightarrow> at_mtu (g r) = m"
  by (simp add: mtu_after_def)

lemma encode_after: "mtu_after (\<lambda>r. snd (snd r)) (at_mtu a) (encode_pdu E op pdu len a)"
  unfolding encode_pdu_def Let_def
  by (auto intro!: mtu_after_bind split: prod.split option.split)

lemma encode_mtu: "encode_pdu E op pdu len a = Some (ok, op', a') \<Longrightarrow> at_mtu a' = at_mtu a"
  using encode_after [of a E op pdu len] by (simp add: mtu_after_def)

lemma create_after: "mtu_after snd (at_mtu a) (create_att_send_op E opcode pdu len f u d a)"
  unfolding create_att_send_op_def Let_def
  by (auto intro!: mtu_after_bind dest!: encode_mtu split: prod.split if_splits)

lemma create_mtu: "create_att_send_op E opcode pdu len f u d a = Some (p, a') \<Longrightarrow> at_mtu a' = at_mtu a"
  using create_after [of a E opcode pdu len f u d] by (simp add: mtu_after_def)

lemma wakeup_chan_after: "mtu_after id (at_mtu a) (wakeup_chan_writer E c a)"
  unfolding wakeup_chan_writer_def chan_update_def Let_def
  by (auto intro!: mtu_after_bind split: if_splits)

lemma wakeup_chan_mtu: "wakeup_chan_writer E c a = Some a' \<Longrightarrow> at_mtu a' = at_mtu a"
  using wakeup_chan_after [of a E c] by (simp add: mtu_after_def)

lemma each_mtu:
  assumes "\<And>x a a'. f x a = Some a' \<Longrightarrow> at_mtu a' = at_mtu a"
  shows "each f xs a = Some a' \<Longrightarrow> at_mtu a' = at_mtu a"
proof (induction xs arbitrary: a)
  case (Cons x xs)
  then obtain b where b: "f x a = Some b" "each f xs b = Some a'" by (auto simp: option_bind_Some_iff)
  with Cons.IH [OF b(2)] assms [OF b(1)] show ?case by simp
qed simp

lemma wakeup_mtu: "wakeup_writer E a = Some a' \<Longrightarrow> at_mtu a' = at_mtu a"
  unfolding wakeup_writer_def by (rule each_mtu [OF wakeup_chan_mtu])

lemma op_update_mtu: "op_update p f a = Some a' \<Longrightarrow> at_mtu a' = at_mtu a"
  by (auto simp: op_update_def option_bind_Some_iff)

definition att_of :: "('f, 'u, 'w) bt_att \<Rightarrow> 'r \<times> ('f, 'u, 'w) bt_att ptr \<Rightarrow> ('f, 'u, 'w) bt_att" where
  "att_of a r = (case snd r of NULL \<Rightarrow> a | Ptr b \<Rightarrow> b)"

lemma on_att_after: "mtu_after snd m (f a) \<Longrightarrow> mtu_after (att_of a) m (on_att r f (Ptr a))"
  by (cases "f a") (auto simp: on_att_def att_live_def mtu_after_def att_of_def)

lemma send_after: "mtu_after (att_of a) (at_mtu a) (bt_att_send E opcode pdu len f u d (Ptr a))"
  unfolding bt_att_send_def Let_def
  by (rule on_att_after)
    (auto intro!: mtu_after_bind dest!: create_mtu wakeup_mtu op_update_mtu
      split: prod.split ptr.split att_op_type.splits if_splits)

lemma resend_after: "mtu_after (att_of a) (at_mtu a) (bt_att_resend E i opcode pdu len f u d (Ptr a))"
  unfolding bt_att_resend_def Let_def
  by (rule on_att_after)
    (auto intro!: mtu_after_bind dest!: create_mtu wakeup_mtu op_update_mtu split: prod.split ptr.split if_splits)

lemma send_mtu: "bt_att_send E opcode pdu len f u d (Ptr a) = Some (i, Ptr a') \<Longrightarrow> at_mtu a' = at_mtu a"
  using send_after [of a E opcode pdu len f u d] by (simp add: mtu_after_def att_of_def)

lemma resend_mtu: "bt_att_resend E i opcode pdu len f u d (Ptr a) = Some (r, Ptr a') \<Longrightarrow> at_mtu a' = at_mtu a"
  using resend_after [of a E i opcode pdu len f u d] by (simp add: mtu_after_def att_of_def)

lemma over_transport_mtu_kept: "mtu_kept (over_transport S crypto)"
proof -
  have "at_mtu (snd (ba_send (over_transport S crypto) a op body cb)) = at_mtu a" for a op body cb
    by (simp add: over_transport_def) (rule outcome_mtu, erule send_mtu)
  moreover have "at_mtu (snd (ba_resend (over_transport S crypto) a i op body cb)) = at_mtu a" for a i op body cb
    by (simp add: over_transport_def) (rule outcome_mtu, erule resend_mtu)
  ultimately show ?thesis by (simp add: mtu_kept_def over_transport_def bt_att_get_mtu_def)
qed

end
