(* ===== verification/StackProps.thy ===== *)
theory StackProps
  imports Stack
begin

text \<open>
  A request from the client object to the socket and back: \<open>g_attrib_send\<close> queues it on the
  transport, the write handler sends it, the read handler takes the answer, and what the transport
  calls then runs the client's functions.
\<close>

section \<open>The transport's part\<close>

text \<open>What a request and its answer leave alone.\<close>

definition idle_fields :: "('f, 'u, 'w) bt_att \<Rightarrow> ('f, 'u, 'w) bt_att \<Rightarrow> bool" where
  "idle_fields a b \<longleftrightarrow> at_write_queue a = at_write_queue b \<and> at_chans a = at_chans b \<and> at_local_sign a = at_local_sign b \<and>
     at_mtu a = at_mtu b"

lemma idle_fields_trans: "idle_fields a b \<Longrightarrow> idle_fields b c \<Longrightarrow> idle_fields a c"
  by (simp add: idle_fields_def)

text \<open>The only operation that waits is written, and becomes the pending request.\<close>

lemma write_only_request:
  assumes "\<And>fd b. ev_send E fd b = int (length b)" "at_chan a c = Some ch" "ch_queue ch = []" "ch_pending_req ch = NULL"
    "at_write_queue a = []" "at_req_queue a = [p]" "at_op a p = Some op" "op_ok op" "op_type op = ATT_OP_TYPE_REQ"
    "op_len op \<le> ch_mtu ch" "\<not> (op_opcode op = BT_ATT_OP_MTU_REQ \<and> ch_type ch = BT_ATT_EATT)"
  shows "\<exists>a' n. write_ready E c a = Some a' \<and> at_chan a' c = Some (ch\<lparr>ch_pending_req := Ptr p\<rparr>) \<and>
    at_op a' = (at_op a)(p \<mapsto> op\<lparr>op_timeout_id := n\<rparr>) \<and> at_sent a' = at_sent a @ [(ch_fd ch, op_pdu op)] \<and>
    at_req_queue a' = [] \<and> at_client a' = at_client a \<and> at_ref_count a' = at_ref_count a \<and> at_freed a' = at_freed a \<and>
    idle_fields a' a"
proof -
  let ?b = "a\<lparr>at_req_queue := []\<rparr>"
  have "pick_next_send_op c a = Some (Ptr p, ?b)"
    using assms(2-7,10,11) by (auto simp: pick_next_send_op_def fits_def)
  then have w: "can_write_data E c a = write_op E c p ?b" by (rule can_write_data_picked(1))
  have "rd (op_pdu op) 0 (unat (op_len op)) = Some (op_pdu op)" "op_pdu op \<noteq> []"
    using assms(8) by (simp_all add: op_ok_def rd_def)
  then show ?thesis using w assms(1,2,7,9)
    by (simp add: write_ready_def write_op_def bt_att_chan_write_def chan_update_def start_timeout_def timeout_add_def
        op_update_def Let_def idle_fields_def) blast
qed

lemma destroy_noted:
  assumes "at_op a p = Some op" "op_destroy op = Ptr f"
  shows "\<exists>ts. destroy_att_send_op (scripted S) p a =
    Some (a\<lparr>at_timers := ts, at_client := at_client a @ [GotDestroy (op_user_data op)], at_op := (at_op a)(p := None)\<rparr>)"
  using assms
  by (cases "op_timeout_id op = 0")
    (auto simp: destroy_att_send_op_def call_destroy_def scripted_destroy timeout_remove_def Let_def
      simp del: fun_upd_apply intro: exI [of _ "at_timers a"])

text \<open>The answer to the pending request is handed to its function, and then the request is freed.\<close>

lemma read_answer:
  assumes "at_chan a c = Some ch" "ch_pending_req ch = Ptr p" "at_op a p = Some op" "op_callback op = Ptr (Script [])"
    "op_destroy op = Ptr f" "get_req_opcode rop = op_opcode op" "op_opcode op \<noteq> 0" "get_op_type rop = ATT_OP_TYPE_RSP"
    "rop \<noteq> BT_ATT_OP_ERROR_RSP" "Suc (length rbody) \<le> unat (ch_mtu ch)" "length (ch_buf ch) = unat (ch_mtu ch)"
    "\<not> at_freed a" "0 < at_ref_count a"
  shows "\<exists>a' ch'. can_read_data (scripted S) c (Some (rop # rbody)) a = Some (True, a') \<and>
    at_client a' = at_client a @ [GotResponse (op_user_data op) rop (if rbody = [] then NULL else Ptr rbody), GotDestroy (op_user_data op)] \<and>
    at_op a' = (at_op a)(p := None) \<and> at_sent a' = at_sent a \<and> at_req_queue a' = at_req_queue a \<and>
    at_ref_count a' = at_ref_count a \<and> at_chan a' c = Some ch' \<and> ch_pending_req ch' = NULL \<and> ch_queue ch' = ch_queue ch \<and>
    ch_mtu ch' = ch_mtu ch \<and> ch_type ch' = ch_type ch \<and> ch_fd ch' = ch_fd ch \<and> idle_fields a' a"
proof -
  let ?pdu = "if rbody = [] then NULL else Ptr rbody" and ?u = "op_user_data op"
  obtain buf where buf: "wr (ch_buf ch) 0 (rop # rbody) = Some buf" using assms(10,11) by (auto simp: wr_def)
  define ch1 where "ch1 = ch\<lparr>ch_buf := buf\<rparr>"
  define b where "b = a\<lparr>at_chan := (at_chan a)(c \<mapsto> ch1), at_ref_count := at_ref_count a + 1\<rparr>"
  define b1 where "b1 = noted (GotResponse ?u rop ?pdu) b"
  have b1: "at_op b1 p = Some op" "at_chan b1 c = Some ch1" "ch_pending_req ch1 = Ptr p"
    using assms(1-3) by (simp_all add: b1_def b_def noted_def ch1_def)
  obtain ts where d: "destroy_att_send_op (scripted S) p b1 =
      Some (b1\<lparr>at_timers := ts, at_client := at_client b1 @ [GotDestroy ?u], at_op := (at_op b1)(p := None)\<rparr>)"
    using destroy_noted [OF b1(1) assms(5)] by blast
  define b2 where "b2 = b1\<lparr>at_timers := ts, at_client := at_client b1 @ [GotDestroy ?u], at_op := (at_op b1)(p := None),
    at_chan := (at_chan b1)(c \<mapsto> ch1\<lparr>ch_pending_req := NULL\<rparr>)\<rparr>"
  have ch2: "at_chan b2 c = Some (ch1\<lparr>ch_pending_req := NULL\<rparr>)" by (simp add: b2_def)
  obtain m where m: "wakeup_chan_writer (scripted S) c b2 = Some (b2\<lparr>at_chan := m\<rparr>)" "same_chans (at_chan b2) m"
    using wakeup_chan_Some [OF ch2, of "scripted S"] by blast
  obtain w where w: "m c = Some (ch1\<lparr>ch_pending_req := NULL, ch_writer_active := w\<rparr>)"
    using same_chansD [OF m(2) ch2] by auto
  have "at_op b p = Some op" "at_chan b c = Some ch1" using assms(3) by (simp_all add: b_def)
  moreover have "finish_req (scripted S) c p rop ?pdu (of_nat (length rbody)) b = Some (b2\<lparr>at_chan := m\<rparr>)"
    using \<open>at_op b p = Some op\<close> assms(4) d b1(2) m(1)
    by (simp add: finish_req_def chan_update_def b1_def [symmetric] b2_def [symmetric])
  ultimately have h: "handle_rsp (scripted S) c rop rbody b = Some (b2\<lparr>at_chan := m\<rparr>)"
    using b1(3) assms(6,7,9) by (simp add: handle_rsp_def)
  have "can_read_data (scripted S) c (Some (rop # rbody)) a =
      do { a \<leftarrow> handle_rsp (scripted S) c rop rbody b; a \<leftarrow> bt_att_unref (scripted S) a; Some (True, a) }"
    using assms(1,8,10) buf
    by (simp add: can_read_data_def chan_update_def bt_att_ref_def rd8_def b_def ch1_def Let_def)
  moreover have "bt_att_unref (scripted S) (b2\<lparr>at_chan := m\<rparr>) = Some (b2\<lparr>at_chan := m, at_ref_count := at_ref_count a\<rparr>)"
    using assms(12,13) by (simp add: bt_att_unref_def att_live_def b2_def b1_def b_def noted_def)
  ultimately show ?thesis using h w assms(2) by (simp add: b2_def b1_def b_def noted_def ch1_def idle_fields_def)
qed

section \<open>The client object's part\<close>

text \<open>
  What the transport calls for an answered request: the client gets the whole PDU with its own data,
  then its destroy function, and the callback record is gone.
\<close>

lemma deliver_answer:
  assumes "wf_gattrib g (x # cs)" "ga_cbs g x = Some cb" "cb_result_func cb = Ptr func" "rop \<noteq> ATT_OP_ERROR"
    "length rbody < 65535"
  shows "\<exists>g'. deliver [GotResponse (Ptr x) rop (if rbody = [] then NULL else Ptr rbody), GotDestroy (Ptr x)] g =
      Some (CallResult func 0 (rop # rbody) (of_nat (Suc (length rbody))) (cb_user_data cb) # destroy_ev g x, g') \<and>
    wf_gattrib g' cs \<and> ga_cbs g' = (ga_cbs g)(x := None) \<and> ga_att g' = ga_att g \<and> ga_track_ids g' = ga_track_ids g"
proof -
  obtain g' where g': "attrib_callbacks_remove (Ptr x) g = Some (destroy_ev g x, g')" "wf_gattrib g' cs"
    "ga_cbs g' = (ga_cbs g)(x := None)" "ga_att g' = ga_att g" "ga_track_ids g' = ga_track_ids g"
    using callbacks_remove_wf [OF assms(1), of x] by auto
  have "unat (of_nat (length rbody) :: u16) = length rbody" using assms(5) by (simp add: unat_of_nat)
  then have "attrib_callback_result True rop (if rbody = [] then NULL else Ptr rbody) (of_nat (length rbody)) (Ptr x) g =
      Some [CallResult func 0 (rop # rbody) (of_nat (Suc (length rbody))) (cb_user_data cb)]"
    using assms(2-4)
    by (auto simp: attrib_callback_result_def construct_full_pdu_ok add.commute)
      (simp add: construct_full_pdu_def wr8_def)
  with g' show ?thesis by (cases "rbody = []") (simp_all add: option_bind_Some_iff)
qed

section \<open>The round trip\<close>

text \<open>A channel that can take a request now: nothing waits before it, and none is in flight on it.\<close>

definition ready_chan :: "nat \<Rightarrow> bt_att_chan \<Rightarrow> att \<Rightarrow> bool" where
  "ready_chan c ch a \<longleftrightarrow> at_chan a c = Some ch \<and> ch_queue ch = [] \<and> ch_pending_req ch = NULL \<and> at_write_queue a = [] \<and>
     at_req_queue a = [] \<and> at_chans a \<noteq> [] \<and> at_local_sign a = NULL"

text \<open>The request is queued: the client object and the transport after \<open>g_attrib_send\<close>.\<close>

lemma stack_send:
  assumes "att_reach (scripted S) (ga_att g)" "wf_gattrib g cs" "ready_chan c ch (ga_att g)" "ev_mem S"
    "get_op_type opcode = ATT_OP_TYPE_REQ" "length params + 13 < 65536" "length params < unat (at_mtu (ga_att g))"
  shows "\<exists>rid g1 op cb b. g_attrib_send (over_transport S crypto) (Ptr g) 0 (Ptr (opcode # params)) (of_nat (Suc (length params)))
      (Ptr func) ud notify = Some (rid, Ptr g1) \<and> rid \<noteq> 0 \<and> wf_gattrib g1 (ga_brk g # cs) \<and>
    (\<forall>x. x \<noteq> ga_brk g \<longrightarrow> ga_cbs g1 x = ga_cbs g x) \<and>
    ga_cbs g1 (ga_brk g) = Some cb \<and> cb_result_func cb = Ptr func \<and> cb_destroy_func cb = notify \<and> cb_user_data cb = ud \<and>
    wf_att ([], [], []) [] {#} (ga_att g1) \<and> at_chan (ga_att g1) c = Some (ch\<lparr>ch_writer_active := b\<rparr>) \<and>
    at_write_queue (ga_att g1) = [] \<and> at_req_queue (ga_att g1) = [at_brk (ga_att g)] \<and>
    at_op (ga_att g1) = (at_op (ga_att g))(at_brk (ga_att g) \<mapsto> op) \<and> op_ok op \<and> op_opcode op = opcode \<and>
    op_type op = ATT_OP_TYPE_REQ \<and> op_pdu op = opcode # params \<and> op_callback op = Ptr (Script []) \<and>
    op_destroy op = Ptr (Script []) \<and> op_user_data op = Ptr (ga_brk g) \<and> at_sent (ga_att g1) = at_sent (ga_att g) \<and>
    at_client (ga_att g1) = at_client (ga_att g) \<and> at_ref_count (ga_att g1) = at_ref_count (ga_att g) \<and>
    att_reach (scripted S) (ga_att g1) \<and> idle_fields (ga_att g1) (ga_att g)"
proof -
  define a where "a = ga_att g"
  define cbp where "cbp = Ptr (ga_brk g)"
  let ?n = "of_nat (length params) :: u16" and ?s = "Script []"
  have w: "wf_att ([], [], []) [] {#} a" using reach_wf(1) [OF assms(1)] by (simp add: a_def)
  have n: "unat ?n = length params" using assms(6) by (simp add: unat_of_nat)
  have b: "body_ok (Ptr params) ?n" using assms(6) n by (simp add: body_ok_def)
  have sign: "at_local_sign a = NULL" using assms(3) by (simp add: ready_chan_def a_def)
  have e: "encoded_len a opcode ?n = ?n + 1" using sign by (simp add: encoded_len_def is_signed_def add.commute)
  have e': "unat (?n + 1) = Suc (length params)" using assms(6) n by (simp add: unat_word_ariths)
  have fit: "encoded_len a opcode ?n \<le> at_mtu a" using assms(7) e' unfolding a_def [symmetric] e word_le_nat_alt by simp
  have mem: "ev_mem (scripted S)" using assms(4) by (simp add: scripted_def quiet_client_def)
  have sendable: "sendable opcode (Ptr ?s)" using assms(5) by (simp add: sendable_def)
  obtain i op m where snd: "bt_att_send (scripted S) opcode (Ptr params) ?n (Ptr ?s) cbp (Ptr ?s) (Ptr a) =
      Some (i, Ptr ((sent_state opcode i op (at_client a) a)\<lparr>at_chan := m\<rparr>))" "i \<noteq> 0"
    "created a opcode (Ptr params) ?n (Ptr ?s) cbp (Ptr ?s) op" "same_chans (at_chan a) m"
    "wf_att ([], [], []) [] {#} ((sent_state opcode i op (at_client a) a)\<lparr>at_chan := m\<rparr>)"
  proof (cases rule: send_cases [OF w b, of "scripted S" opcode "Ptr ?s" cbp "Ptr ?s"])
    case (1 x)
    with assms(3) sign mem fit sendable show ?thesis by (simp add: ready_chan_def a_def)
  next
    case (2 x op m)
    with sign that show ?thesis using next_id_pos by simp
  qed
  define a1 where "a1 = (sent_state opcode i op (at_client a) a)\<lparr>at_chan := m\<rparr>"
  have len: "unat (of_nat (Suc (length params)) :: u16) = Suc (length params)" using assms(6) by (simp add: unat_of_nat del: of_nat_Suc)
  have pos: "0 < (of_nat (Suc (length params)) :: u16)" using len by (simp add: word_less_nat_alt del: of_nat_Suc)
  obtain rid g1 where g1: "g_attrib_send (over_transport S crypto) (Ptr g) 0 (Ptr (opcode # params)) (of_nat (Suc (length params)))
      (Ptr func) ud notify = Some (rid, Ptr g1)" "wf_gattrib g1 (ga_brk g # cs)"
    "(rid, ga_att g1) = ba_send (over_transport S crypto) a opcode params cbp" "\<forall>x. x \<noteq> ga_brk g \<longrightarrow> ga_cbs g1 x = ga_cbs g x"
    "\<exists>cb. ga_cbs g1 (ga_brk g) = Some cb \<and> cb_destroy_func cb = notify \<and> cb_user_data cb = ud \<and> cb_result_func cb = Ptr func"
    using send_wf [OF assms(2) pos, of "opcode # params" "Ptr func" notify "over_transport S crypto" 0 ud] unfolding len a_def cbp_def
    by (auto simp del: of_nat_Suc)
  have r: "rid = i" "ga_att g1 = a1"
    using g1(3) snd(1) by (simp_all add: over_transport_def outcome_def glue_def cbp_def a1_def)
  obtain b where "m c = Some (ch\<lparr>ch_writer_active := b\<rparr>)"
    using same_chansD [OF snd(4)] assms(3) by (auto simp: ready_chan_def a_def)
  moreover have "length (op_pdu op) = Suc (length params)" "take (Suc (length params)) (op_pdu op) = opcode # params"
    using snd(3) n e e' by (auto simp: created_def op_ok_def body_def)
  then have "op_pdu op = opcode # params" by simp
  moreover obtain cb where "ga_cbs g1 (ga_brk g) = Some cb" "cb_result_func cb = Ptr func" "cb_destroy_func cb = notify" "cb_user_data cb = ud"
    using g1(5) by blast
  moreover have "at_req_queue a = []" "at_write_queue a = []" using assms(3) by (simp_all add: ready_chan_def a_def)
  then have "at_write_queue a1 = [] \<and> at_req_queue a1 = [at_brk a] \<and> at_op a1 = (at_op a)(at_brk a \<mapsto> op\<lparr>op_id := i\<rparr>) \<and>
      at_sent a1 = at_sent a \<and> at_client a1 = at_client a \<and> at_ref_count a1 = at_ref_count a \<and> at_chan a1 = m \<and>
      idle_fields a1 a"
    using assms(5) by (simp add: a1_def sent_state_def enqueue_def idle_fields_def)
  moreover have "att_reach (scripted S) a1"
    by (rule att_reach.step [OF assms(1) [folded a_def], of "Send opcode (Ptr params) ?n (Ptr ?s) cbp (Ptr ?s)"])
      (use b snd(1) in \<open>simp_all add: a1_def\<close>)
  moreover have "op_ok (op\<lparr>op_id := i\<rparr>) \<and> op_opcode op = opcode \<and> op_type op = ATT_OP_TYPE_REQ \<and> op_callback op = Ptr ?s \<and>
      op_destroy op = Ptr ?s \<and> op_user_data op = Ptr (ga_brk g)"
    using snd(3) assms(5) by (simp add: created_def op_ok_def cbp_def)
  ultimately show ?thesis using g1(1,2,4) r snd(2) snd(5) [folded a1_def] unfolding a_def [symmetric]
    by (intro exI [of _ rid] exI [of _ g1] exI [of _ "op\<lparr>op_id := i\<rparr>"] exI [of _ cb] exI [of _ b]) (simp del: fun_upd_apply)
qed

lemma response_of:
  assumes "get_req_opcode rop = opcode" "get_op_type opcode = ATT_OP_TYPE_REQ"
  shows "get_op_type rop = ATT_OP_TYPE_RSP \<and> rop \<noteq> BT_ATT_OP_ERROR_RSP \<and> opcode \<noteq> 0"
proof -
  have "opcode \<noteq> 0" using assms(2) by (auto simp: get_op_type_def att_opcode_type_table_def)
  with assms(1) have "rop \<in> {0x03, 0x05, 0x07, 0x09, 0x0B, 0x0D, 0x0F, 0x11, 0x13, 0x17, 0x19}"
    by (auto simp: get_req_opcode_def att_rsp_req_mapping_table_def split: if_splits)
  with \<open>opcode \<noteq> 0\<close> show ?thesis by (auto simp: get_op_type_def att_opcode_type_table_def)
qed

text \<open>
  One request and its answer: \<open>g_attrib_send\<close>, the write handler of the channel, the read handler with
  the response, and what the transport calls.
\<close>

record ('f, 'u) exchange =
  ex_opcode :: u8
  ex_params :: buf
  ex_func :: 'f
  ex_data :: 'u
  ex_notify :: "'f ptr"
  ex_rsp :: u8
  ex_answer :: buf

definition round_trip ::
    "env \<Rightarrow> kalg ptr \<Rightarrow> nat \<Rightarrow> ('f, 'u) exchange \<Rightarrow> ('f, 'u, att) gattrib \<Rightarrow>
       (('f, 'u) event list \<times> ('f, 'u, att) gattrib) option" where
  "round_trip S crypto c x g = do {
     (i, p) \<leftarrow> g_attrib_send (over_transport S crypto) (Ptr g) 0 (Ptr (ex_opcode x # ex_params x))
       (of_nat (Suc (length (ex_params x)))) (Ptr (ex_func x)) (ex_data x) (ex_notify x);
     g \<leftarrow> deref p;
     a \<leftarrow> write_ready (scripted S) c (ga_att g);
     (_, b) \<leftarrow> can_read_data (scripted S) c (Some (ex_rsp x # ex_answer x)) a;
     deliver (drop (length (at_client a)) (at_client b)) (g\<lparr>ga_att := b\<rparr>) }"

primrec conversation ::
    "env \<Rightarrow> kalg ptr \<Rightarrow> nat \<Rightarrow> ('f, 'u) exchange list \<Rightarrow> ('f, 'u, att) gattrib \<Rightarrow>
       (('f, 'u) event list \<times> ('f, 'u, att) gattrib) option" where
  "conversation S crypto c [] g = Some ([], g)"
| "conversation S crypto c (x # xs) g = do {
     (e1, g) \<leftarrow> round_trip S crypto c x g;
     (e2, g) \<leftarrow> conversation S crypto c xs g;
     Some (e1 @ e2, g) }"

definition exchange_ok :: "att \<Rightarrow> bt_att_chan \<Rightarrow> ('f, 'u) exchange \<Rightarrow> bool" where
  "exchange_ok a ch x \<longleftrightarrow> get_op_type (ex_opcode x) = ATT_OP_TYPE_REQ \<and> length (ex_params x) + 13 < 65536 \<and>
     length (ex_params x) < unat (at_mtu a) \<and> length (ex_params x) < unat (ch_mtu ch) \<and>
     \<not> (ex_opcode x = BT_ATT_OP_MTU_REQ \<and> ch_type ch = BT_ATT_EATT) \<and> get_req_opcode (ex_rsp x) = ex_opcode x \<and>
     length (ex_answer x) < unat (ch_mtu ch)"

definition answer_events :: "('f, 'u) exchange \<Rightarrow> ('f, 'u) event list" where
  "answer_events x = CallResult (ex_func x) 0 (ex_rsp x # ex_answer x) (of_nat (Suc (length (ex_answer x)))) (ex_data x) #
     (case ex_notify x of NULL \<Rightarrow> [] | Ptr d \<Rightarrow> [CallDestroy d (ex_data x)])"

definition stack_ok :: "env \<Rightarrow> nat \<Rightarrow> bt_att_chan \<Rightarrow> ('f, 'u, att) gattrib \<Rightarrow> nat list \<Rightarrow> bool" where
  "stack_ok S c ch g cs \<longleftrightarrow> att_reach (scripted S) (ga_att g) \<and> wf_gattrib g cs \<and> ready_chan c ch (ga_att g)"

lemma chan_listed: "wf_att hs [] H a \<Longrightarrow> at_chan a c = Some ch \<Longrightarrow> c \<in> set (at_chans a)"
  by (auto simp: att_parts)

lemma round_trip_ok:
  assumes "stack_ok S c ch g cs" "exchange_ok (ga_att g) ch x" "ev_mem S" "\<And>fd b. ev_send S fd b = int (length b)"
    "queue_rep (ga_track_ids g) old"
  shows "\<exists>g' ch' rid. round_trip S crypto c x g = Some (answer_events x, g') \<and> stack_ok S c ch' g' cs \<and>
    ga_cbs g' = ga_cbs g \<and> at_op (ga_att g') = at_op (ga_att g) \<and>
    at_sent (ga_att g') = at_sent (ga_att g) @ [(ch_fd ch, ex_opcode x # ex_params x)] \<and> ch_fd ch' = ch_fd ch \<and>
    queue_rep (ga_track_ids g') (old @ [Ptr rid]) \<and> rid \<noteq> 0 \<and>
    (\<forall>y :: ('f, 'u) exchange. exchange_ok (ga_att g') ch' y = exchange_ok (ga_att g) ch y)"
proof -
  define a where "a = ga_att g"
  define k where "k = ga_brk g"
  define p where "p = at_brk a"
  have st: "att_reach (scripted S) (ga_att g)" "wf_gattrib g cs" "ready_chan c ch (ga_att g)"
    using assms(1) by (simp_all add: stack_ok_def)
  have ex: "get_op_type (ex_opcode x) = ATT_OP_TYPE_REQ" "length (ex_params x) + 13 < 65536"
    "length (ex_params x) < unat (at_mtu (ga_att g))" "length (ex_params x) < unat (ch_mtu ch)"
    "\<not> (ex_opcode x = BT_ATT_OP_MTU_REQ \<and> ch_type ch = BT_ATT_EATT)" "get_req_opcode (ex_rsp x) = ex_opcode x"
    "length (ex_answer x) < unat (ch_mtu ch)" using assms(2) by (simp_all add: exchange_ok_def)
  have wf: "wf_att ([], [], []) [] {#} a" "0 < at_ref_count a" using reach_wf [OF st(1)] by (simp_all add: a_def)
  have ch: "at_chan a c = Some ch" "ch_queue ch = []" "ch_pending_req ch = NULL"
    using st(3) by (simp_all add: ready_chan_def a_def)
  have buf: "length (ch_buf ch) = unat (ch_mtu ch)" using wf_chan [OF wf(1) ch(1)] by (simp add: chan_ok_def)
  have fresh: "k \<notin> set cs" "at_op a p = None"
    using st(2) wf(1) by (auto simp: wf_gattrib_def k_def att_parts p_def) force
  note rsp = response_of [OF ex(6,1)]
  obtain rid g1 op cb b where g1: "g_attrib_send (over_transport S crypto) (Ptr g) 0 (Ptr (ex_opcode x # ex_params x))
      (of_nat (Suc (length (ex_params x)))) (Ptr (ex_func x)) (ex_data x) (ex_notify x) = Some (rid, Ptr g1)" "rid \<noteq> 0"
    "wf_gattrib g1 (k # cs)" "\<forall>y. y \<noteq> k \<longrightarrow> ga_cbs g1 y = ga_cbs g y" "ga_cbs g1 k = Some cb" "cb_result_func cb = Ptr (ex_func x)"
    "cb_destroy_func cb = ex_notify x" "cb_user_data cb = ex_data x" "wf_att ([], [], []) [] {#} (ga_att g1)"
    and ch1: "at_chan (ga_att g1) c = Some (ch\<lparr>ch_writer_active := b\<rparr>)" "at_write_queue (ga_att g1) = []"
    "at_req_queue (ga_att g1) = [p]" "at_op (ga_att g1) = (at_op a)(p \<mapsto> op)"
    and op: "op_ok op" "op_opcode op = ex_opcode x" "op_type op = ATT_OP_TYPE_REQ" "op_pdu op = ex_opcode x # ex_params x"
    "op_callback op = Ptr (Script [])" "op_destroy op = Ptr (Script [])" "op_user_data op = Ptr k"
    and a1: "at_sent (ga_att g1) = at_sent a" "at_client (ga_att g1) = at_client a" "at_ref_count (ga_att g1) = at_ref_count a"
    "att_reach (scripted S) (ga_att g1)" "idle_fields (ga_att g1) a"
    unfolding a_def k_def p_def
    using stack_send [OF st assms(3) ex(1-3), where crypto = crypto and func = "ex_func x" and ud = "ex_data x" and notify = "ex_notify x"]
    by blast
  have ids: "queue_rep (ga_track_ids g1) (old @ [Ptr rid])" by (rule send_tracks [OF g1(1,2) st(2) _ assms(5)]) simp
  have l: "unat (op_len op) = Suc (length (ex_params x))" using op(1,4) by (simp add: op_ok_def)
  have send: "ev_send (scripted S) fd b = int (length b)" for fd b using assms(4) by (simp add: scripted_def quiet_client_def)
  have "op_len op \<le> ch_mtu ch" using l ex(4) by (simp add: word_le_nat_alt)
  then obtain a2 n where a2: "write_ready (scripted S) c (ga_att g1) = Some a2"
    "at_chan a2 c = Some (ch\<lparr>ch_writer_active := b, ch_pending_req := Ptr p\<rparr>)" "at_op a2 = (at_op a)(p \<mapsto> op\<lparr>op_timeout_id := n\<rparr>)"
    "at_sent a2 = at_sent a @ [(ch_fd ch, ex_opcode x # ex_params x)]" "at_req_queue a2 = []" "at_client a2 = at_client a"
    "at_ref_count a2 = at_ref_count a" "\<not> at_freed a2" "idle_fields a2 (ga_att g1)"
    using write_only_request [OF send ch1(1) _ _ ch1(2,3), of op] ch ch1(4) op a1 ex(5) wf_live [OF g1(9)]
    by (auto simp: att_live_def split: if_splits)
  have r2: "att_reach (scripted S) a2"
    by (rule att_reach.step [OF a1(4), of "WriteReady c"]) (use a2(1) chan_listed [OF g1(9) ch1(1)] in simp_all)
  obtain a3 ch4 where a3: "can_read_data (scripted S) c (Some (ex_rsp x # ex_answer x)) a2 = Some (True, a3)"
    "at_client a3 = at_client a2 @ [GotResponse (Ptr k) (ex_rsp x) (if ex_answer x = [] then NULL else Ptr (ex_answer x)), GotDestroy (Ptr k)]"
    "at_op a3 = (at_op a2)(p := None)" "at_sent a3 = at_sent a2" "at_req_queue a3 = []" "at_chan a3 c = Some ch4" "ch_pending_req ch4 = NULL"
    "ch_queue ch4 = []" "ch_mtu ch4 = ch_mtu ch" "ch_type ch4 = ch_type ch" "ch_fd ch4 = ch_fd ch" "idle_fields a3 a2"
    using read_answer [OF a2(2), of p "op\<lparr>op_timeout_id := n\<rparr>" "Script []" "ex_rsp x" "ex_answer x" S] a2(3,5,7,8) op ex(6,7) rsp buf wf(2) ch(2)
    by auto
  have r3: "att_reach (scripted S) a3"
    by (rule att_reach.step [OF r2, of "Incoming c (Some (ex_rsp x # ex_answer x))"])
      (use a3(1) chan_listed [OF reach_wf(1) [OF r2] a2(2)] in simp_all)
  have "length (ex_answer x) < 65535" using ex(7) unat_lt_16 [of "ch_mtu ch"] by simp
  then obtain g4 where g4: "deliver [GotResponse (Ptr k) (ex_rsp x) (if ex_answer x = [] then NULL else Ptr (ex_answer x)), GotDestroy (Ptr k)]
      (g1\<lparr>ga_att := a3\<rparr>) = Some (CallResult (ex_func x) 0 (ex_rsp x # ex_answer x) (of_nat (Suc (length (ex_answer x)))) (ex_data x) #
        destroy_ev g1 k, g4)"
    "wf_gattrib g4 cs" "ga_cbs g4 = (ga_cbs g1)(k := None)" "ga_att g4 = a3" "ga_track_ids g4 = ga_track_ids g1"
    using deliver_answer [of "g1\<lparr>ga_att := a3\<rparr>" k cs cb "ex_func x" "ex_rsp x" "ex_answer x"] g1(3,5,6,8) rsp by auto
  have "destroy_ev g1 k = (case ex_notify x of NULL \<Rightarrow> [] | Ptr d \<Rightarrow> [CallDestroy d (ex_data x)])"
    using g1(5,7,8) by (simp add: destroy_ev_def split: ptr.split)
  then have "round_trip S crypto c x g = Some (answer_events x, g4)"
    using g1(1) a2(1) a3(1,2) g4(1) by (simp add: round_trip_def answer_events_def)
  moreover have "ga_cbs g k = None" using st(2) fresh(1) by (auto simp: wf_gattrib_def)
  then have "ga_cbs g4 = ga_cbs g" using g4(3) g1(4) by (auto simp: fun_eq_iff)
  moreover have "at_op (ga_att g4) = at_op a" using g4(4) a3(3) a2(3) fresh(2) by (simp add: fun_upd_idem)
  moreover have i: "idle_fields a3 a" using idle_fields_trans [OF a3(12) idle_fields_trans [OF a2(9) a1(5)]] .
  then have "stack_ok S c ch4 g4 cs" using r3 g4(2,4) a3(5-8) st(3) by (simp add: stack_ok_def ready_chan_def idle_fields_def a_def)
  moreover have "\<forall>y :: ('f, 'u) exchange. exchange_ok (ga_att g4) ch4 y = exchange_ok a ch y"
    using i a3(9,10) g4(4) by (simp add: exchange_ok_def idle_fields_def)
  ultimately show ?thesis using a2(4) a3(4,11) g4(4,5) g1(2) ids unfolding a_def [symmetric]
    by (intro exI [of _ g4] exI [of _ ch4] exI [of _ rid]) simp
qed

lemma conversation_ok:
  fixes xs :: "('f, 'u) exchange list"
  assumes "ev_mem S" "\<And>fd b. ev_send S fd b = int (length b)"
  shows "stack_ok S c ch g cs \<Longrightarrow> \<forall>x\<in>set xs. exchange_ok (ga_att g) ch x \<Longrightarrow> queue_rep (ga_track_ids g) old \<Longrightarrow>
    \<exists>g' ch' ids. conversation S crypto c xs g = Some (concat (map answer_events xs), g') \<and> stack_ok S c ch' g' cs \<and>
      ga_cbs g' = ga_cbs g \<and> at_op (ga_att g') = at_op (ga_att g) \<and>
      at_sent (ga_att g') = at_sent (ga_att g) @ map (\<lambda>x. (ch_fd ch, ex_opcode x # ex_params x)) xs \<and>
      queue_rep (ga_track_ids g') (old @ map Ptr ids) \<and> length ids = length xs \<and> 0 \<notin> set ids"
proof (induction xs arbitrary: g ch old)
  case Nil
  then show ?case by (intro exI [of _ g] exI [of _ ch] exI [of _ "[]"]) simp
next
  case (Cons x xs)
  obtain g1 ch1 rid where 1: "round_trip S crypto c x g = Some (answer_events x, g1)" "stack_ok S c ch1 g1 cs"
    "ga_cbs g1 = ga_cbs g" "at_op (ga_att g1) = at_op (ga_att g)"
    "at_sent (ga_att g1) = at_sent (ga_att g) @ [(ch_fd ch, ex_opcode x # ex_params x)]" "ch_fd ch1 = ch_fd ch"
    "\<forall>y :: ('f, 'u) exchange. exchange_ok (ga_att g1) ch1 y = exchange_ok (ga_att g) ch y"
    "queue_rep (ga_track_ids g1) (old @ [Ptr rid])" "rid \<noteq> 0"
    using round_trip_ok [OF Cons.prems(1) _ assms Cons.prems(3), of x crypto] Cons.prems(2) by auto
  have "\<forall>x\<in>set xs. exchange_ok (ga_att g1) ch1 x" using Cons.prems(2) 1(7) by simp
  with Cons.IH [OF 1(2) _ 1(8)] obtain g2 ch2 ids where 2: "conversation S crypto c xs g1 = Some (concat (map answer_events xs), g2)"
    "stack_ok S c ch2 g2 cs" "ga_cbs g2 = ga_cbs g1" "at_op (ga_att g2) = at_op (ga_att g1)"
    "at_sent (ga_att g2) = at_sent (ga_att g1) @ map (\<lambda>x. (ch_fd ch1, ex_opcode x # ex_params x)) xs"
    "queue_rep (ga_track_ids g2) ((old @ [Ptr rid]) @ map Ptr ids)" "length ids = length xs" "0 \<notin> set ids" by blast
  with 1 show ?case by (intro exI [of _ g2] exI [of _ ch2] exI [of _ "rid # ids"]) simp
qed

text \<open>
  C5: The client object and the transport together, over any number of requests, each answered before
  the next is given: exactly the PDUs of the requests are sent, in their order; each client function is
  called once, in the same order, with the whole response, status 0 and the data given with its
  request, and then its destroy function; and at the end the object holds the callback records, and the
  transport the operations, that they held before, and the channel is free.  What stays behind is one
  identifier for each request, at the end of the tracked ones: nothing removes it when the answer comes.
\<close>

theorem requests_answered_in_order:
  assumes "stack_ok S c ch g cs" "\<forall>x\<in>set xs. exchange_ok (ga_att g) ch x" "ev_mem S"
    "\<And>fd b. ev_send S fd b = int (length b)" "queue_rep (ga_track_ids g) old"
  shows "\<exists>g' ch' ids. conversation S crypto c xs g = Some (concat (map answer_events xs), g') \<and> stack_ok S c ch' g' cs \<and>
    ga_cbs g' = ga_cbs g \<and> at_op (ga_att g') = at_op (ga_att g) \<and>
    at_sent (ga_att g') = at_sent (ga_att g) @ map (\<lambda>x. (ch_fd ch, ex_opcode x # ex_params x)) xs \<and>
    queue_rep (ga_track_ids g') (old @ map Ptr ids) \<and> length ids = length xs \<and> 0 \<notin> set ids"
  by (rule conversation_ok [OF assms(3,4,1,2,5)])

text \<open>The client object over the demonstration transport.\<close>

definition demo_client :: "(nat, nat, att) gattrib" where
  "demo_client = \<lparr>ga_ref = 1, ga_att = demo_att, ga_io = 3, ga_destroy = NULL, ga_destroy_user_data = 0,
     ga_callbacks = queue_new, ga_buf = replicate 23 0, ga_buflen = 23, ga_track_ids = queue_new, ga_cbs = Map.empty, ga_brk = 0\<rparr>"

definition demo_exchanges :: "(nat, nat) exchange list" where
  "demo_exchanges =
     [\<lparr>ex_opcode = 0x0A, ex_params = [3, 0], ex_func = 8, ex_data = 9, ex_notify = Ptr 5, ex_rsp = 0x0B, ex_answer = [1]\<rparr>,
      \<lparr>ex_opcode = 0x10, ex_params = [1, 0, 0xFF, 0xFF, 0, 0x28], ex_func = 7, ex_data = 6, ex_notify = NULL, ex_rsp = 0x11,
       ex_answer = [6, 1, 0, 5, 0, 0, 0x18]\<rparr>]"

lemma demo_stack_ok: "stack_ok demo_env 0 demo_chan demo_client []"
proof -
  have "wf_gattrib demo_client []" by (auto simp: demo_client_def wf_gattrib_def intro!: exI [of _ "[]"] rep_new)
  then show ?thesis
    using demo_reach by (simp add: stack_ok_def ready_chan_def demo_client_def demo_att_def demo_chan_def)
qed

lemma requests_answered_in_order_witness:
  "\<exists>g' ch' i j. conversation demo_env NULL 0 demo_exchanges demo_client =
      Some ([CallResult 8 0 [0x0B, 1] 2 9, CallDestroy 5 9, CallResult 7 0 [0x11, 6, 1, 0, 5, 0, 0, 0x18] 8 6], g') \<and>
    stack_ok demo_env 0 ch' g' [] \<and> ga_cbs g' = ga_cbs demo_client \<and> at_op (ga_att g') = at_op (ga_att demo_client) \<and>
    at_sent (ga_att g') = at_sent (ga_att demo_client) @ [(3, [0x0A, 3, 0]), (3, [0x10, 1, 0, 0xFF, 0xFF, 0, 0x28])] \<and>
    queue_rep (ga_track_ids g') [Ptr i, Ptr j] \<and> i \<noteq> 0 \<and> j \<noteq> 0"
proof -
  have "\<forall>x\<in>set demo_exchanges. exchange_ok (ga_att demo_client) demo_chan x"
    by (simp add: demo_exchanges_def exchange_ok_def demo_client_def demo_att_def demo_chan_def get_op_type_def
        att_opcode_type_table_def get_req_opcode_def att_rsp_req_mapping_table_def)
  moreover have "ev_mem demo_env" "ev_send demo_env fd b = int (length b)" for fd b by (simp_all add: demo_env_def)
  moreover have "queue_rep (ga_track_ids demo_client) []" by (simp add: demo_client_def rep_new)
  ultimately obtain g' ch' ids where g': "conversation demo_env NULL 0 demo_exchanges demo_client =
      Some (concat (map answer_events demo_exchanges), g')" "stack_ok demo_env 0 ch' g' []"
    "ga_cbs g' = ga_cbs demo_client" "at_op (ga_att g') = at_op (ga_att demo_client)"
    "at_sent (ga_att g') = at_sent (ga_att demo_client) @
       map (\<lambda>x. (ch_fd demo_chan, ex_opcode x # ex_params x)) demo_exchanges"
    "queue_rep (ga_track_ids g') (map Ptr ids)" "length ids = length demo_exchanges" "0 \<notin> set ids"
    using requests_answered_in_order [OF demo_stack_ok, of demo_exchanges "[]" NULL] by auto
  from g'(7) obtain i j where "ids = [i, j]" by (auto simp: demo_exchanges_def length_Suc_conv)
  with g' show ?thesis by (intro exI [of _ g'] exI [of _ ch'] exI [of _ i] exI [of _ j])
    (simp add: demo_exchanges_def answer_events_def demo_chan_def)
qed

section \<open>A new client object\<close>

lemma foreach_nothing: "foreach_entry queue f NULL s = Some s"
  by (subst foreach_entry.simps) simp

lemma new_transport:
  assumes "bt_att_new (scripted S) fd ext crypto [] = Some (Ptr a)"
  shows "\<exists>ch. at_chan a = [0 \<mapsto> ch] \<and> at_chans a = [0] \<and> ch_fd ch = fd \<and> ch_queue ch = [] \<and> ch_pending_req ch = NULL \<and>
    at_write_queue a = [] \<and> at_req_queue a = [] \<and> at_local_sign a = NULL \<and> at_exchange_list a = [] \<and> at_freed a = False"
proof -
  obtain ch where ch: "bt_att_chan_new (scripted S) fd (io_get_type (scripted S) fd) = Ptr ch"
    using assms by (auto simp: bt_att_new_def split: ptr.splits)
  then have "ch_fd ch = fd" "ch_queue ch = []" "ch_pending_req ch = NULL" "ch_pending_ind ch = NULL" "ch_writer_active ch = False"
    by (auto simp: bt_att_chan_new_def Let_def split: if_splits)
  with assms ch show ?thesis
    by (auto simp: bt_att_new_def bt_att_attach_chan_def wakeup_chan_writer_def bt_att_ref_def)
qed

text \<open>
  The object \<open>g_attrib_new\<close> makes over a socket can take requests at once, and meets what discovery
  and the long procedures assume of it.
\<close>

theorem new_stack_ok:
  assumes "g_attrib_new (over_transport S crypto) (Some fd) mtu ext True u = Ptr g" "crypto_ok crypto"
  shows "\<exists>ch. stack_ok S 0 ch g [] \<and> gattrib_ok (over_transport S crypto) g \<and> ch_fd ch = fd \<and> ch_mtu ch = mtu \<and>
    mtu \<le> at_mtu (ga_att g)"
proof -
  let ?A = "over_transport S crypto"
  obtain a0 where a0: "ba_new ?A fd ext = Ptr a0" using assms(1) by (auto simp: g_attrib_new_def split: ptr.splits)
  then have new: "bt_att_new (scripted S) fd ext crypto [] = Some (Ptr a0)"
    by (auto simp: over_transport_def split: option.splits)
  obtain ch where c: "at_chan a0 = [0 \<mapsto> ch]" "at_chans a0 = [0]" "ch_fd ch = fd" "ch_queue ch = []" "ch_pending_req ch = NULL"
    "at_write_queue a0 = []" "at_req_queue a0 = []" "at_local_sign a0 = NULL" "at_exchange_list a0 = []" "at_freed a0 = False"
    using new_transport [OF new] by blast
  have ok: "fst (ba_set_mtu ?A a0 mtu)" using assms(1) a0 by (auto simp: g_attrib_new_def split: prod.splits if_splits)
  have g: "ga_att g = snd (ba_set_mtu ?A a0 mtu)" "ga_buflen g = int (unat mtu)"
    using assms(1) a0 ok by (auto simp: g_attrib_new_def g_attrib_ref_def split: prod.splits)
  define ch1 where "ch1 = ch\<lparr>ch_mtu := mtu, ch_buf := map (ev_junk (scripted S)) [0..<unat mtu]\<rparr>"
  define a1 where "a1 = a0\<lparr>at_chan := [0 \<mapsto> ch1]\<rparr>"
  define a2 where "a2 = (if at_mtu a0 < mtu then a1\<lparr>at_mtu := mtu\<rparr> else a1)"
  have set: "\<not> mtu < BT_ATT_DEFAULT_LE_MTU \<and> bt_att_set_mtu (scripted S) mtu (Ptr a0) = Some (True, Ptr a2)"
    using ok c unfolding over_transport_def outcome_def a2_def a1_def ch1_def
    by (auto simp: bt_att_set_mtu_def att_live_def chan_update_def foreach_nothing first_entry_def Let_def split: if_splits)
  then have a2: "ga_att g = a2" using g(1) by (simp add: over_transport_def outcome_def)
  have "att_reach (scripted S) a0" by (rule att_reach.created [OF new assms(2)])
  then have re: "att_reach (scripted S) a2" by (rule att_reach.step [of _ _ "SetMtu mtu"]) (use set in simp_all)
  have rd: "ready_chan 0 ch1 a2" using c by (simp add: ready_chan_def a2_def a1_def ch1_def)
  have m: "mtu \<le> at_mtu a2" "23 \<le> mtu" using set by (auto simp: a2_def a1_def not_less)
  then have "23 \<le> unat mtu" "unat mtu \<le> unat (at_mtu a2)" using m by (simp_all add: word_le_nat_alt)
  moreover have gm: "gattrib_mtu ?A g = unat (at_mtu a2)"
    using a2 by (simp add: gattrib_mtu_def over_transport_def bt_att_get_mtu_def)
  moreover have "ga_buflen g \<le> int (unat (at_mtu a2))" using m(1) g(2) by (simp add: word_le_def)
  ultimately have "gattrib_ok ?A g" using new_wf [OF assms(1)] over_transport_mtu_kept
    unfolding gattrib_ok_def by (simp only:) auto
  with new_wf [OF assms(1)] a2 c(3) re rd m(1) show ?thesis unfolding stack_ok_def
    by (intro exI [of _ ch1]) (simp add: ch1_def)
qed

end
