(* ===== verification/Sdp.thy ===== *)
theory Sdp
  imports Uuid
begin

text \<open>
  The data of the service discovery library (\<open>lib/sdp.h\<close>, \<open>lib/sdp_lib.h\<close>, \<open>lib/sdp.c\<close>) that
  \<open>sdptool browse\<close> runs on: UUIDs, data elements, lists, service records and the operations on
  them.

  An element (\<open>sdp_data_t\<close>) is a tree; the chain through its \<open>next\<close> pointers is a HOL list.
  The union \<open>val\<close> holds one member at a time, and the constructor of \<open>sdp_val\<close> says which; the
  128-bit members and the value of a UUID are their bytes in memory, a string is the object
  \<open>val.str\<close> points to.  Reading a pointer member the union does not hold is undefined
  (\<open>None\<close>); the two places that read a scalar member without looking at \<open>dtd\<close> read the bytes of
  the union (\<open>val_image\<close>), where the bytes of a pointer are given by the parameter \<open>addr\<close>.
\<close>

section \<open>Descriptors\<close>

abbreviation (input) SDP_DATA_NIL :: u8 where "SDP_DATA_NIL \<equiv> 0x00"
abbreviation (input) SDP_UINT8 :: u8 where "SDP_UINT8 \<equiv> 0x08"
abbreviation (input) SDP_UINT16 :: u8 where "SDP_UINT16 \<equiv> 0x09"
abbreviation (input) SDP_UINT32 :: u8 where "SDP_UINT32 \<equiv> 0x0A"
abbreviation (input) SDP_UINT64 :: u8 where "SDP_UINT64 \<equiv> 0x0B"
abbreviation (input) SDP_UINT128 :: u8 where "SDP_UINT128 \<equiv> 0x0C"
abbreviation (input) SDP_INT8 :: u8 where "SDP_INT8 \<equiv> 0x10"
abbreviation (input) SDP_INT16 :: u8 where "SDP_INT16 \<equiv> 0x11"
abbreviation (input) SDP_INT32 :: u8 where "SDP_INT32 \<equiv> 0x12"
abbreviation (input) SDP_INT64 :: u8 where "SDP_INT64 \<equiv> 0x13"
abbreviation (input) SDP_INT128 :: u8 where "SDP_INT128 \<equiv> 0x14"
abbreviation (input) SDP_UUID16 :: u8 where "SDP_UUID16 \<equiv> 0x19"
abbreviation (input) SDP_UUID32 :: u8 where "SDP_UUID32 \<equiv> 0x1A"
abbreviation (input) SDP_UUID128 :: u8 where "SDP_UUID128 \<equiv> 0x1C"
abbreviation (input) SDP_TEXT_STR8 :: u8 where "SDP_TEXT_STR8 \<equiv> 0x25"
abbreviation (input) SDP_TEXT_STR16 :: u8 where "SDP_TEXT_STR16 \<equiv> 0x26"
abbreviation (input) SDP_TEXT_STR32 :: u8 where "SDP_TEXT_STR32 \<equiv> 0x27"
abbreviation (input) SDP_BOOL :: u8 where "SDP_BOOL \<equiv> 0x28"
abbreviation (input) SDP_SEQ8 :: u8 where "SDP_SEQ8 \<equiv> 0x35"
abbreviation (input) SDP_SEQ16 :: u8 where "SDP_SEQ16 \<equiv> 0x36"
abbreviation (input) SDP_SEQ32 :: u8 where "SDP_SEQ32 \<equiv> 0x37"
abbreviation (input) SDP_ALT8 :: u8 where "SDP_ALT8 \<equiv> 0x3D"
abbreviation (input) SDP_ALT16 :: u8 where "SDP_ALT16 \<equiv> 0x3E"
abbreviation (input) SDP_ALT32 :: u8 where "SDP_ALT32 \<equiv> 0x3F"
abbreviation (input) SDP_URL_STR8 :: u8 where "SDP_URL_STR8 \<equiv> 0x45"
abbreviation (input) SDP_URL_STR16 :: u8 where "SDP_URL_STR16 \<equiv> 0x46"
abbreviation (input) SDP_URL_STR32 :: u8 where "SDP_URL_STR32 \<equiv> 0x47"

definition SDP_IS_UUID :: "u8 \<Rightarrow> bool" where
  "SDP_IS_UUID x \<longleftrightarrow> x = SDP_UUID16 \<or> x = SDP_UUID32 \<or> x = SDP_UUID128"

definition SDP_IS_SEQ :: "u8 \<Rightarrow> bool" where
  "SDP_IS_SEQ x \<longleftrightarrow> x = SDP_SEQ8 \<or> x = SDP_SEQ16 \<or> x = SDP_SEQ32"

definition SDP_IS_ALT :: "u8 \<Rightarrow> bool" where
  "SDP_IS_ALT x \<longleftrightarrow> x = SDP_ALT8 \<or> x = SDP_ALT16 \<or> x = SDP_ALT32"

definition SDP_IS_TEXT_STR :: "u8 \<Rightarrow> bool" where
  "SDP_IS_TEXT_STR x \<longleftrightarrow> x = SDP_TEXT_STR8 \<or> x = SDP_TEXT_STR16 \<or> x = SDP_TEXT_STR32"

text \<open>The other groups of \<open>case\<close> labels the switches of the library share.\<close>

definition is_url_str :: "u8 \<Rightarrow> bool" where
  "is_url_str x \<longleftrightarrow> x = SDP_URL_STR8 \<or> x = SDP_URL_STR16 \<or> x = SDP_URL_STR32"

definition is_int8 :: "u8 \<Rightarrow> bool" where
  "is_int8 x \<longleftrightarrow> x = SDP_UINT8 \<or> x = SDP_INT8 \<or> x = SDP_BOOL"

definition is_int16 :: "u8 \<Rightarrow> bool" where
  "is_int16 x \<longleftrightarrow> x = SDP_UINT16 \<or> x = SDP_INT16"

definition is_int32 :: "u8 \<Rightarrow> bool" where
  "is_int32 x \<longleftrightarrow> x = SDP_UINT32 \<or> x = SDP_INT32"

definition is_int64 :: "u8 \<Rightarrow> bool" where
  "is_int64 x \<longleftrightarrow> x = SDP_UINT64 \<or> x = SDP_INT64"

definition is_int128 :: "u8 \<Rightarrow> bool" where
  "is_int128 x \<longleftrightarrow> x = SDP_UINT128 \<or> x = SDP_INT128"

lemmas dtd_groups = SDP_IS_UUID_def SDP_IS_SEQ_def SDP_IS_ALT_def SDP_IS_TEXT_STR_def
  is_url_str_def is_int8_def is_int16_def is_int32_def is_int64_def is_int128_def

section \<open>UUIDs and data elements\<close>

text \<open>\<open>uval\<close> is the memory of the union \<open>value\<close>, sixteen bytes.\<close>

record uuid_t =
  utype :: u8
  uval :: buf

definition uuid16 :: "uuid_t \<Rightarrow> u16" where
  "uuid16 u = of_le (take 2 (uval u))"

definition uuid32 :: "uuid_t \<Rightarrow> u32" where
  "uuid32 u = of_le (take 4 (uval u))"

datatype sdp_data = Sdp_data (dtd: u8) (attrId: u16) (unitSize: int) (val: sdp_val)
  and sdp_val = Zeroed | V8 u8 | V16 u16 | V32 u32 | V64 u64 | V128 buf | Vuuid uuid_t
    | Vstr buf | Vseq "sdp_data list"

primrec set_attrId :: "u16 \<Rightarrow> sdp_data \<Rightarrow> sdp_data" where
  "set_attrId a (Sdp_data t b n v) = Sdp_data t a n v"

lemma set_attrId_sel [simp]:
  "attrId (set_attrId a d) = a" "dtd (set_attrId a d) = dtd d"
  "unitSize (set_attrId a d) = unitSize d" "val (set_attrId a d) = val d"
  by (cases d; simp)+

text \<open>
  The members of the union.  In a zeroed union both pointers are null: \<open>dataseq\<close> is the empty
  chain, and \<open>str\<close> an object without bytes, of which C may read none.
\<close>

definition dataseq :: "sdp_val \<Rightarrow> sdp_data list option" where
  "dataseq v = (case v of Vseq ds \<Rightarrow> Some ds | Zeroed \<Rightarrow> Some [] | _ \<Rightarrow> None)"

definition val_str :: "sdp_val \<Rightarrow> buf option" where
  "val_str v = (case v of Vstr s \<Rightarrow> Some s | Zeroed \<Rightarrow> Some [] | _ \<Rightarrow> None)"

definition val_image :: "(sdp_val \<Rightarrow> u32) \<Rightarrow> sdp_val \<Rightarrow> buf" where
  "val_image addr v = (case v of
     Zeroed \<Rightarrow> replicate 24 0
   | V8 w \<Rightarrow> w # replicate 23 0
   | V16 w \<Rightarrow> le_of 2 w @ replicate 22 0
   | V32 w \<Rightarrow> le_of 4 w @ replicate 20 0
   | V64 w \<Rightarrow> le_of 8 w @ replicate 16 0
   | V128 bs \<Rightarrow> bs @ replicate 8 0
   | Vuuid u \<Rightarrow> [utype u, 0, 0, 0] @ uval u @ replicate 4 0
   | _ \<Rightarrow> le_of 4 (addr v) @ replicate 20 0)"

definition val_uint32 :: "(sdp_val \<Rightarrow> u32) \<Rightarrow> sdp_val \<Rightarrow> u32" where
  "val_uint32 addr v = of_le (take 4 (val_image addr v))"

definition val_uuid :: "(sdp_val \<Rightarrow> u32) \<Rightarrow> sdp_val \<Rightarrow> uuid_t" where
  "val_uuid addr v = \<lparr>utype = val_image addr v ! 0, uval = take 16 (drop 4 (val_image addr v))\<rparr>"

text \<open>
  \<open>wf_data\<close>: the union holds the member the descriptor names, and a string has the bytes
  \<open>unitSize\<close> counts (with one for the descriptor).
\<close>

fun wf_data :: "sdp_data \<Rightarrow> bool" and wf_val :: "u8 \<Rightarrow> int \<Rightarrow> sdp_val \<Rightarrow> bool" where
  "wf_data (Sdp_data t a n v) = wf_val t n v"
| "wf_val t n Zeroed = (t = SDP_DATA_NIL)"
| "wf_val t n (V8 w) = is_int8 t"
| "wf_val t n (V16 w) = is_int16 t"
| "wf_val t n (V32 w) = is_int32 t"
| "wf_val t n (V64 w) = is_int64 t"
| "wf_val t n (V128 bs) = (is_int128 t \<and> length bs = 16)"
| "wf_val t n (Vuuid u) = (SDP_IS_UUID t \<and> utype u = t \<and> length (uval u) = 16)"
| "wf_val t n (Vstr s) =
     ((SDP_IS_TEXT_STR t \<or> is_url_str t) \<and> 1 \<le> n \<and> n - 1 \<le> int (length s))"
| "wf_val t n (Vseq ds) = ((SDP_IS_SEQ t \<or> SDP_IS_ALT t) \<and> (\<forall>d \<in> set ds. wf_data d))"

lemma wf_set_attrId [simp]: "wf_data (set_attrId a d) = wf_data d"
  by (cases d) simp

section \<open>UUID operations\<close>

definition sdp_uuid16_create :: "u16 \<Rightarrow> uuid_t" where
  "sdp_uuid16_create v = \<lparr>utype = SDP_UUID16, uval = le_of 2 v @ replicate 14 0\<rparr>"

definition sdp_uuid32_create :: "u32 \<Rightarrow> uuid_t" where
  "sdp_uuid32_create v = \<lparr>utype = SDP_UUID32, uval = le_of 4 v @ replicate 12 0\<rparr>"

definition sdp_uuid128_create :: "buf \<Rightarrow> uuid_t option" where
  "sdp_uuid128_create v = do {
     bs \<leftarrow> rd v 0 16;
     Some \<lparr>utype = SDP_UUID128, uval = bs\<rparr> }"

text \<open>
  The short value is brought to network order and added to the bytes of the base UUID, as an
  integer of the (little-endian) machine.
\<close>

definition sdp_uuid16_to_uuid128 :: "uuid_t \<Rightarrow> uuid_t" where
  "sdp_uuid16_to_uuid128 u =
     (let data1 = of_le (take 2 (drop 2 bluetooth_base_uuid)) + of_le (rev (le_of 2 (uuid16 u))) :: u16
      in \<lparr>utype = SDP_UUID128,
          uval = take 2 bluetooth_base_uuid @ le_of 2 data1 @ drop 4 bluetooth_base_uuid\<rparr>)"

definition sdp_uuid32_to_uuid128 :: "uuid_t \<Rightarrow> uuid_t" where
  "sdp_uuid32_to_uuid128 u =
     (let data0 = of_le (take 4 bluetooth_base_uuid) + of_le (rev (le_of 4 (uuid32 u))) :: u32
      in \<lparr>utype = SDP_UUID128, uval = le_of 4 data0 @ drop 4 bluetooth_base_uuid\<rparr>)"

definition sdp_uuid_to_uuid128 :: "uuid_t \<Rightarrow> uuid_t" where
  "sdp_uuid_to_uuid128 u =
     (if utype u = SDP_UUID128 then u
      else if utype u = SDP_UUID32 then sdp_uuid32_to_uuid128 u
      else if utype u = SDP_UUID16 then sdp_uuid16_to_uuid128 u
      else \<lparr>utype = 0, uval = replicate 16 0\<rparr>)"

definition sdp_uuid128_cmp :: "uuid_t \<Rightarrow> uuid_t \<Rightarrow> int" where
  "sdp_uuid128_cmp u1 u2 = memcmp (uval u1) (uval u2)"

definition sdp_uuid16_cmp :: "uuid_t \<Rightarrow> uuid_t \<Rightarrow> int" where
  "sdp_uuid16_cmp u1 u2 = memcmp (take 2 (uval u1)) (take 2 (uval u2))"

definition sdp_uuid_cmp :: "uuid_t \<Rightarrow> uuid_t \<Rightarrow> int" where
  "sdp_uuid_cmp p1 p2 = sdp_uuid128_cmp (sdp_uuid_to_uuid128 p1) (sdp_uuid_to_uuid128 p2)"

text \<open>The result and the UUID afterwards; the union keeps the bytes that are not overwritten.\<close>

definition sdp_uuid128_to_uuid :: "uuid_t \<Rightarrow> int \<times> uuid_t" where
  "sdp_uuid128_to_uuid u =
     (if utype u \<noteq> SDP_UUID128 then (1, u)
      else if drop 4 (uval u) \<noteq> drop 4 bluetooth_base_uuid then (0, u)
      else
        (let data = of_le (rev (take 4 (uval u))) :: u32
         in if data \<le> 0xffff
            then (1, \<lparr>utype = SDP_UUID16, uval = le_of 2 (ucast data :: u16) @ drop 2 (uval u)\<rparr>)
            else (1, \<lparr>utype = SDP_UUID32, uval = le_of 4 data @ drop 4 (uval u)\<rparr>)))"

definition sdp_uuid_to_proto :: "uuid_t \<Rightarrow> int" where
  "sdp_uuid_to_proto u =
     (let (r, v) = sdp_uuid128_to_uuid u
      in if r \<noteq> 0 then
           (if utype v = SDP_UUID16 then uint (uuid16 v)
            else if utype v = SDP_UUID32 then sint (uuid32 v) else 0)
         else 0)"

section \<open>Lists\<close>

definition sdp_list_append :: "'a list \<Rightarrow> 'a \<Rightarrow> 'a list" where
  "sdp_list_append l d = l @ [d]"

text \<open>
  The pointer to remove is the one of the element \<open>sdp_list_find\<close> returned, that is of the
  first element the comparison accepts; an earlier node with the same pointer would have been
  found first.
\<close>

fun sdp_list_remove :: "('a \<Rightarrow> bool) \<Rightarrow> 'a list \<Rightarrow> 'a list" where
  "sdp_list_remove same [] = []"
| "sdp_list_remove same (p # l) = (if same p then l else p # sdp_list_remove same l)"

fun sdp_list_insert_sorted :: "'a list \<Rightarrow> 'a \<Rightarrow> ('a \<Rightarrow> 'a \<Rightarrow> int) \<Rightarrow> 'a list" where
  "sdp_list_insert_sorted [] d f = [d]"
| "sdp_list_insert_sorted (p # l) d f =
     (if 0 \<le> f p d then d # p # l else p # sdp_list_insert_sorted l d f)"

fun sdp_list_find :: "'a list \<Rightarrow> 'b \<Rightarrow> ('a \<Rightarrow> 'b \<Rightarrow> int) \<Rightarrow> 'a option" where
  "sdp_list_find [] u f = None"
| "sdp_list_find (p # l) u f = (if f p u = 0 then Some p else sdp_list_find l u f)"

section \<open>Service records\<close>

record sdp_record =
  handle :: u32
  pattern :: "uuid_t list"
  attrlist :: "sdp_data list"
  svclass :: uuid_t

definition sdp_record_alloc :: sdp_record where
  "sdp_record_alloc =
     \<lparr>handle = 0xffffffff, pattern = [], attrlist = [],
      svclass = \<lparr>utype = 0, uval = replicate 16 0\<rparr>\<rparr>"

definition sdp_attrid_comp_func :: "sdp_data \<Rightarrow> u16 \<Rightarrow> int" where
  "sdp_attrid_comp_func d a = uint (attrId d) - uint a"

definition sdp_data_get :: "sdp_record \<Rightarrow> u16 \<Rightarrow> sdp_data option" where
  "sdp_data_get rec a = sdp_list_find (attrlist rec) a sdp_attrid_comp_func"

definition insert_attr :: "sdp_data list \<Rightarrow> sdp_data \<Rightarrow> sdp_data list" where
  "insert_attr l d = sdp_list_insert_sorted l d (\<lambda>p e. sdp_attrid_comp_func p (attrId e))"

definition extract_svclass_uuid :: "sdp_data \<Rightarrow> uuid_t \<Rightarrow> uuid_t option" where
  "extract_svclass_uuid data uuid =
     (if \<not> SDP_IS_SEQ (dtd data) then Some uuid
      else do {
        ds \<leftarrow> dataseq (val data);
        case ds of
          [] \<Rightarrow> Some uuid
        | d # _ \<Rightarrow>
            if dtd d < SDP_UUID16 \<or> SDP_UUID128 < dtd d then Some uuid
            else (case val d of Vuuid u \<Rightarrow> Some u | _ \<Rightarrow> None) })"

definition set_svclass :: "u16 \<Rightarrow> sdp_data \<Rightarrow> sdp_record \<Rightarrow> sdp_record option" where
  "set_svclass attr d rec =
     (if attr = 0x0001 then do {
        c \<leftarrow> extract_svclass_uuid d (svclass rec);
        Some (rec\<lparr>svclass := c\<rparr>) }
      else Some rec)"

definition sdp_attr_add :: "sdp_record \<Rightarrow> u16 \<Rightarrow> sdp_data \<Rightarrow> (int \<times> sdp_record) option" where
  "sdp_attr_add rec attr d =
     (case sdp_data_get rec attr of
        Some p \<Rightarrow> Some (- 1, rec)
      | None \<Rightarrow>
          let d = set_attrId attr d in do {
            rec \<leftarrow> set_svclass attr d (rec\<lparr>attrlist := insert_attr (attrlist rec) d\<rparr>);
            Some (0, rec) })"

definition sdp_attr_remove :: "sdp_record \<Rightarrow> u16 \<Rightarrow> sdp_record" where
  "sdp_attr_remove rec attr =
     (let rec = (case sdp_data_get rec attr of
          Some d \<Rightarrow> rec\<lparr>attrlist := sdp_list_remove (\<lambda>e. attrId e = attr) (attrlist rec)\<rparr>
        | None \<Rightarrow> rec)
      in if attr = 0x0001 then rec\<lparr>svclass := \<lparr>utype = 0, uval = replicate 16 0\<rparr>\<rparr> else rec)"

definition sdp_attr_replace :: "sdp_record \<Rightarrow> u16 \<Rightarrow> sdp_data \<Rightarrow> sdp_record option" where
  "sdp_attr_replace rec attr d =
     (let l = (case sdp_data_get rec attr of
          Some p \<Rightarrow> sdp_list_remove (\<lambda>e. attrId e = attr) (attrlist rec)
        | None \<Rightarrow> attrlist rec);
          d = set_attrId attr d
      in set_svclass attr d (rec\<lparr>attrlist := insert_attr l d\<rparr>))"

definition sdp_pattern_add_uuid :: "sdp_record \<Rightarrow> uuid_t \<Rightarrow> sdp_record" where
  "sdp_pattern_add_uuid rec uuid =
     (let u = sdp_uuid_to_uuid128 uuid
      in case sdp_list_find (pattern rec) u sdp_uuid128_cmp of
           None \<Rightarrow> rec\<lparr>pattern := sdp_list_insert_sorted (pattern rec) u sdp_uuid128_cmp\<rparr>
         | Some _ \<Rightarrow> rec)"

fun sdp_pattern_add_uuidseq :: "sdp_record \<Rightarrow> uuid_t list \<Rightarrow> sdp_record" where
  "sdp_pattern_add_uuidseq rec [] = rec"
| "sdp_pattern_add_uuidseq rec (u # seq) = sdp_pattern_add_uuidseq (sdp_pattern_add_uuid rec u) seq"

definition sdp_get_group_id :: "(sdp_val \<Rightarrow> u32) \<Rightarrow> sdp_record \<Rightarrow> int \<times> uuid_t option" where
  "sdp_get_group_id addr rec = (case sdp_data_get rec 0x0200 of
     Some data \<Rightarrow> (0, Some (val_uuid addr (val data)))
   | None \<Rightarrow> (- 1, None))"

end
