(* ===== verification/SdpEnc.thy ===== *)
theory SdpEnc
  imports Sdp
begin

text \<open>
  Encoding of data elements and records (\<open>lib/sdp.c\<close>): construction of elements, the size pass
  (\<open>sdp_gen_buffer\<close>), the writing pass (\<open>sdp_gen_pdu\<close>) and the buffers of whole records
  (\<open>sdp_append_to_buf\<close>, \<open>sdp_append_to_pdu\<close>, \<open>sdp_gen_record_pdu\<close>).

  The writing pass changes the tree: a sequence with an 8-bit length becomes one with a 16-bit
  length when its content does not fit.  A write outside the allocated object is \<open>None\<close>.
\<close>

section \<open>Construction\<close>

text \<open>
  What the untyped argument \<open>value\<close> points to: nothing, the bytes of an object, or the first
  element of a chain.
\<close>

datatype sdp_src = Null_src | Mem buf | Chain "sdp_data list"

definition mem_of :: "sdp_src \<Rightarrow> buf option" where
  "mem_of s = (case s of Mem b \<Rightarrow> Some b | _ \<Rightarrow> None)"

definition chain_of :: "sdp_src \<Rightarrow> sdp_data list option" where
  "chain_of s = (case s of Chain ds \<Rightarrow> Some ds | Null_src \<Rightarrow> Some [] | Mem _ \<Rightarrow> None)"

definition seq_header :: "u8 \<Rightarrow> int" where
  "seq_header t = (if t = SDP_ALT8 \<or> t = SDP_SEQ8 then 1
     else if t = SDP_ALT16 \<or> t = SDP_SEQ16 then 2 else 4)"

definition sdp_data_alloc_with_length :: "u8 \<Rightarrow> sdp_src \<Rightarrow> u32 \<Rightarrow> sdp_data ptr option" where
  "sdp_data_alloc_with_length t value len =
     (if t = SDP_DATA_NIL then Some (Ptr (Sdp_data t 0 1 Zeroed))
      else if is_int8 t then do {
        m \<leftarrow> mem_of value; v \<leftarrow> rd8 m 0; Some (Ptr (Sdp_data t 0 2 (V8 v))) }
      else if is_int16 t then do {
        m \<leftarrow> mem_of value; v \<leftarrow> get_le16 m 0; Some (Ptr (Sdp_data t 0 3 (V16 v))) }
      else if is_int32 t then do {
        m \<leftarrow> mem_of value; v \<leftarrow> get_le32 m 0; Some (Ptr (Sdp_data t 0 5 (V32 v))) }
      else if is_int64 t then do {
        m \<leftarrow> mem_of value; v \<leftarrow> get_le64 m 0; Some (Ptr (Sdp_data t 0 9 (V64 v))) }
      else if is_int128 t then do {
        m \<leftarrow> mem_of value; v \<leftarrow> rd m 0 16; Some (Ptr (Sdp_data t 0 17 (V128 v))) }
      else if t = SDP_UUID16 then do {
        m \<leftarrow> mem_of value; v \<leftarrow> get_le16 m 0;
        Some (Ptr (Sdp_data t 0 3 (Vuuid (sdp_uuid16_create v)))) }
      else if t = SDP_UUID32 then do {
        m \<leftarrow> mem_of value; v \<leftarrow> get_le32 m 0;
        Some (Ptr (Sdp_data t 0 5 (Vuuid (sdp_uuid32_create v)))) }
      else if t = SDP_UUID128 then do {
        m \<leftarrow> mem_of value; u \<leftarrow> sdp_uuid128_create m;
        Some (Ptr (Sdp_data t 0 17 (Vuuid u))) }
      else if t = SDP_URL_STR8 \<or> t = SDP_URL_STR16 \<or> t = SDP_TEXT_STR8 \<or> t = SDP_TEXT_STR16 then
        (case value of
           Null_src \<Rightarrow> Some NULL
         | _ \<Rightarrow>
           if len \<le> 65535 then do {
             m \<leftarrow> mem_of value; s \<leftarrow> rd m 0 (unat len);
             Some (Ptr (Sdp_data t 0 (1 + sint len) (Vstr s))) }
           else Some NULL)
      else if t = SDP_URL_STR32 \<or> t = SDP_TEXT_STR32 then Some (Ptr (Sdp_data t 0 1 Zeroed))
      else if SDP_IS_SEQ t \<or> SDP_IS_ALT t then do {
        ds \<leftarrow> chain_of value;
        Some (Ptr (Sdp_data t 0 (1 + seq_header t + sum_list (map unitSize ds)) (Vseq ds))) }
      else Some NULL)"

text \<open>\<open>strlen\<close>: the index of the first NUL, which has to be there.\<close>

fun c_strlen :: "buf \<Rightarrow> u32 option" where
  "c_strlen [] = None"
| "c_strlen (c # s) = (if c = 0 then Some 0 else map_option (\<lambda>n. n + 1) (c_strlen s))"

definition sdp_data_alloc :: "u8 \<Rightarrow> sdp_src \<Rightarrow> sdp_data ptr option" where
  "sdp_data_alloc t value =
     (if t = SDP_URL_STR8 \<or> t = SDP_URL_STR16 \<or> t = SDP_TEXT_STR8 \<or> t = SDP_TEXT_STR16 then
        (case value of
           Null_src \<Rightarrow> Some NULL
         | _ \<Rightarrow> do {
             m \<leftarrow> mem_of value; len \<leftarrow> c_strlen m;
             sdp_data_alloc_with_length t value len })
      else sdp_data_alloc_with_length t value 0)"

text \<open>
  \<open>sdp_seq_append\<close> hangs \<open>d\<close> behind the chain.  \<open>sdp_seq_alloc\<close> takes an element that is a
  sequence as it is and allocates the others; it gives up on the first that fails.
\<close>

definition sdp_seq_append :: "sdp_data list \<Rightarrow> sdp_data \<Rightarrow> sdp_data list" where
  "sdp_seq_append seq d = seq @ [d]"

fun sdp_seq_alloc_loop :: "(u8 \<times> sdp_src) list \<Rightarrow> sdp_data list \<Rightarrow> sdp_data list ptr option" where
  "sdp_seq_alloc_loop [] seq = Some (Ptr seq)"
| "sdp_seq_alloc_loop ((t, value) # args) seq = do {
     data \<leftarrow> (if SDP_SEQ8 \<le> t \<and> t \<le> SDP_ALT32
             then (case value of Chain [d] \<Rightarrow> Some (Ptr d) | Null_src \<Rightarrow> Some NULL | _ \<Rightarrow> None)
             else sdp_data_alloc t value);
     case data of
       NULL \<Rightarrow> Some NULL
     | Ptr d \<Rightarrow> sdp_seq_alloc_loop args (sdp_seq_append seq d) }"

definition sdp_seq_alloc :: "(u8 \<times> sdp_src) list \<Rightarrow> sdp_data ptr option" where
  "sdp_seq_alloc args = do {
     seq \<leftarrow> sdp_seq_alloc_loop args [];
     case seq of NULL \<Rightarrow> Some NULL | Ptr ds \<Rightarrow> sdp_data_alloc SDP_SEQ8 (Chain ds) }"

section \<open>Sizes\<close>

definition sdp_get_data_type_size :: "u8 \<Rightarrow> u32" where
  "sdp_get_data_type_size t =
     (if t = SDP_SEQ8 \<or> t = SDP_TEXT_STR8 \<or> t = SDP_URL_STR8 \<or> t = SDP_ALT8 then 2
      else if t = SDP_SEQ16 \<or> t = SDP_TEXT_STR16 \<or> t = SDP_URL_STR16 \<or> t = SDP_ALT16 then 3
      else if t = SDP_SEQ32 \<or> t = SDP_TEXT_STR32 \<or> t = SDP_URL_STR32 \<or> t = SDP_ALT32 then 5
      else 1)"

text \<open>The cases of \<open>sdp_get_data_size\<close> that do not depend on a chain.\<close>

definition leaf_data_size :: "u8 \<Rightarrow> int \<Rightarrow> u32" where
  "leaf_data_size t unit =
     (if t = SDP_DATA_NIL then 0
      else if is_int8 t then 1
      else if is_int16 t \<or> t = SDP_UUID16 then 2
      else if is_int32 t \<or> t = SDP_UUID32 then 4
      else if is_int64 t then 8
      else if is_int128 t \<or> t = SDP_UUID128 then 16
      else if SDP_IS_TEXT_STR t \<or> is_url_str t then word_of_int unit - 1
      else 0)"

text \<open>
  The size pass, on \<open>buf_size\<close>; the chain of a sequence is walked with the same counter, and
  the second component of the walk is the sum \<open>get_data_size\<close> returns.  In
  \<open>buf->buf_size += sdp_get_data_size(buf, d)\<close> the call changes the variable that is assigned;
  C does not say whether it is read before or after the call, and \<open>late\<close> stands for the choice
  of the compiler.
\<close>

fun sdp_gen_buffer :: "bool \<Rightarrow> u32 \<Rightarrow> sdp_data \<Rightarrow> u32 option"
  and gen_buffer_seq :: "bool \<Rightarrow> u32 \<Rightarrow> sdp_data list \<Rightarrow> (u32 \<times> u32) option" where
  "sdp_gen_buffer late b (Sdp_data t a unit v) =
     (let b = (if b = 0 \<and> t = 0 then b + 2 else b);
          b = b + 3 + sdp_get_data_type_size t in do {
        (b', n) \<leftarrow> (if SDP_IS_SEQ t \<or> SDP_IS_ALT t
                   then (case v of Vseq ds \<Rightarrow> gen_buffer_seq late b ds
                         | Zeroed \<Rightarrow> Some (b, 0) | _ \<Rightarrow> None)
                   else Some (b, leaf_data_size t unit));
        let b = (if late then b' else b) + n in
        Some (if 255 < b \<and> t = SDP_SEQ8 then b + 1 else b) })"
| "gen_buffer_seq late b [] = Some (b, 0)"
| "gen_buffer_seq late b (d # ds) = do {
     b' \<leftarrow> sdp_gen_buffer late b d;
     (b'', n) \<leftarrow> gen_buffer_seq late b' ds;
     Some (b'', b' - b + n) }"

section \<open>Writing\<close>

record sdp_buf =
  sdata :: buf
  data_size :: u32
  buf_size :: u32

definition sdp_set_seq_len :: "buf \<Rightarrow> nat \<Rightarrow> u32 \<Rightarrow> buf option" where
  "sdp_set_seq_len m i len = do {
     t \<leftarrow> rd8 m i;
     if t = SDP_SEQ8 \<or> t = SDP_ALT8 \<or> t = SDP_TEXT_STR8 \<or> t = SDP_URL_STR8 then wr8 m (i + 1) (ucast len)
     else if t = SDP_SEQ16 \<or> t = SDP_ALT16 \<or> t = SDP_TEXT_STR16 \<or> t = SDP_URL_STR16 then
       put_be16 (ucast len) m (i + 1)
     else if t = SDP_SEQ32 \<or> t = SDP_ALT32 \<or> t = SDP_TEXT_STR32 \<or> t = SDP_URL_STR32 then
       put_be32 len m (i + 1)
     else Some m }"

definition sdp_set_attrid :: "sdp_buf \<Rightarrow> u16 \<Rightarrow> sdp_buf option" where
  "sdp_set_attrid buf attr = do {
     m \<leftarrow> wr8 (sdata buf) 0 SDP_UINT16;
     m \<leftarrow> put_be16 attr m 1;
     Some (buf\<lparr>sdata := m, data_size := 3\<rparr>) }"

text \<open>The object \<open>src\<close> points to in \<open>sdp_gen_pdu\<close>, in network order.\<close>

definition src_bytes :: "u8 \<Rightarrow> sdp_val \<Rightarrow> buf ptr option" where
  "src_bytes t v =
     (if is_int8 t then (case v of V8 w \<Rightarrow> Some (Ptr [w]) | _ \<Rightarrow> None)
      else if is_int16 t then (case v of V16 w \<Rightarrow> Some (Ptr (rev (le_of 2 w))) | _ \<Rightarrow> None)
      else if is_int32 t then (case v of V32 w \<Rightarrow> Some (Ptr (rev (le_of 4 w))) | _ \<Rightarrow> None)
      else if is_int64 t then (case v of V64 w \<Rightarrow> Some (Ptr (rev (le_of 8 w))) | _ \<Rightarrow> None)
      else if is_int128 t then (case v of V128 bs \<Rightarrow> Some (Ptr (rev bs)) | _ \<Rightarrow> None)
      else if SDP_IS_TEXT_STR t \<or> is_url_str t then
        (case v of Vstr s \<Rightarrow> Some (Ptr s) | Zeroed \<Rightarrow> Some NULL | _ \<Rightarrow> None)
      else if t = SDP_UUID16 then
        (case v of Vuuid u \<Rightarrow> Some (Ptr (rev (le_of 2 (uuid16 u)))) | _ \<Rightarrow> None)
      else if t = SDP_UUID32 then
        (case v of Vuuid u \<Rightarrow> Some (Ptr (rev (le_of 4 (uuid32 u)))) | _ \<Rightarrow> None)
      else if t = SDP_UUID128 then (case v of Vuuid u \<Rightarrow> Some (Ptr (uval u)) | _ \<Rightarrow> None)
      else Some NULL)"

text \<open>
  \<open>gen\<close> stands for the recursive calls; \<open>gen_seq\<close> is \<open>get_data_size\<close> on a buffer with data, and
  \<open>gen_data_size\<close> is \<open>sdp_get_data_size\<close> there.
\<close>

primrec gen_seq ::
    "(sdp_buf \<Rightarrow> sdp_data \<Rightarrow> (sdp_data \<times> sdp_buf \<times> u32) option) \<Rightarrow> sdp_data list \<Rightarrow> sdp_buf \<Rightarrow>
       (sdp_data list \<times> sdp_buf \<times> u32) option" where
  "gen_seq gen [] buf = Some ([], buf, 0)"
| "gen_seq gen (d # ds) buf = do {
     (d, buf, n) \<leftarrow> gen buf d;
     (ds, buf, m) \<leftarrow> gen_seq gen ds buf;
     Some (d # ds, buf, n + m) }"

definition gen_data_size ::
    "(sdp_buf \<Rightarrow> sdp_data \<Rightarrow> (sdp_data \<times> sdp_buf \<times> u32) option) \<Rightarrow> sdp_buf \<Rightarrow> u8 \<Rightarrow> int \<Rightarrow> sdp_val \<Rightarrow>
       (sdp_val \<times> sdp_buf \<times> u32) option" where
  "gen_data_size gen buf t unit v =
     (if SDP_IS_SEQ t \<or> SDP_IS_ALT t then do {
        ds \<leftarrow> dataseq v;
        (ds, buf, n) \<leftarrow> gen_seq gen ds buf;
        Some (Vseq ds, buf, n) }
      else Some (v, buf, leaf_data_size t unit))"

text \<open>The part of \<open>sdp_gen_pdu\<close> after the size is known; \<open>i\<close> is the index of \<open>seqp\<close>.\<close>

definition gen_value :: "sdp_buf \<Rightarrow> nat \<Rightarrow> u8 \<Rightarrow> sdp_val \<Rightarrow> u32 \<Rightarrow> sdp_buf option" where
  "gen_value buf i t v sz = do {
     m \<leftarrow> wr8 (sdata buf) i t;
     if SDP_IS_SEQ t \<or> SDP_IS_ALT t then do {
       m \<leftarrow> sdp_set_seq_len m i sz;
       Some (buf\<lparr>sdata := m\<rparr>) }
     else do {
       src \<leftarrow> src_bytes t v;
       m \<leftarrow> (if SDP_IS_TEXT_STR t \<or> is_url_str t then sdp_set_seq_len m i sz else Some m);
       case src of
         NULL \<Rightarrow> Some (buf\<lparr>sdata := m\<rparr>)
       | Ptr src \<Rightarrow>
           if data_size buf + sz \<le> buf_size buf then do {
             xs \<leftarrow> rd src 0 (unat sz);
             m \<leftarrow> wr m (unat (data_size buf)) xs;
             Some (buf\<lparr>sdata := m, data_size := data_size buf + sz\<rparr>) }
           else Some (buf\<lparr>sdata := m\<rparr>) } }"

text \<open>
  The number is the depth of the recursion that is left; \<open>sdp_gen_pdu\<close> allows the depth of the
  tree.  Results: the element as changed, the buffer, and the size.
\<close>

primrec gen_pdu :: "nat \<Rightarrow> sdp_buf \<Rightarrow> sdp_data \<Rightarrow> (sdp_data \<times> sdp_buf \<times> u32) option" where
  "gen_pdu 0 buf d = None"
| "gen_pdu (Suc f) buf d = (case d of Sdp_data t a unit v \<Rightarrow>
     let orig = data_size buf in do {
       (v, buf, sz) \<leftarrow>
         gen_data_size (gen_pdu f) (buf\<lparr>data_size := orig + sdp_get_data_type_size t\<rparr>) t unit v;
       (t, v, buf, sz) \<leftarrow>
         (if 255 < sz \<and> t = SDP_SEQ8 then do {
            (v, buf, sz) \<leftarrow>
              gen_data_size (gen_pdu f) (buf\<lparr>data_size := orig + sdp_get_data_type_size SDP_SEQ16\<rparr>)
                SDP_SEQ16 unit v;
            Some (SDP_SEQ16, v, buf, sz) }
          else Some (t, v, buf, sz));
       buf \<leftarrow> gen_value buf (unat orig) t v sz;
       Some (Sdp_data t a unit v, buf, sdp_get_data_type_size t + sz) })"

fun depth :: "sdp_data \<Rightarrow> nat" and depth_val :: "sdp_val \<Rightarrow> nat" where
  "depth (Sdp_data t a unit v) = Suc (depth_val v)"
| "depth_val (Vseq ds) = foldr max (map depth ds) 0"
| "depth_val _ = 0"

definition sdp_gen_pdu :: "sdp_buf \<Rightarrow> sdp_data \<Rightarrow> (sdp_data \<times> sdp_buf \<times> u32) option" where
  "sdp_gen_pdu buf d = gen_pdu (depth d) buf d"

section \<open>Records\<close>

text \<open>
  The first append to a buffer that is empty adds the header of the sequence, after the check
  that the data fits; \<open>append_data\<close> is the rest of \<open>sdp_append_to_buf\<close>.
\<close>

definition set_buf_len :: "sdp_buf \<Rightarrow> sdp_buf option" where
  "set_buf_len dst = do {
     t \<leftarrow> rd8 (sdata dst) 0;
     m \<leftarrow> (if t = SDP_SEQ8 then wr8 (sdata dst) 1 (ucast (data_size dst - 2))
          else if t = SDP_SEQ16 then put_be16 (ucast (data_size dst - 3)) (sdata dst) 1
          else if t = SDP_SEQ32 then put_be32 (data_size dst - 5) (sdata dst) 1
          else Some (sdata dst));
     Some (dst\<lparr>sdata := m\<rparr>) }"

definition append_data :: "sdp_buf \<Rightarrow> buf \<Rightarrow> u32 \<Rightarrow> sdp_buf option" where
  "append_data dst data len = do {
     xs \<leftarrow> rd data 0 (unat len);
     m \<leftarrow> wr (sdata dst) (unat (data_size dst)) xs;
     let dst = dst\<lparr>sdata := m, data_size := data_size dst + len\<rparr>;
     t \<leftarrow> rd8 (sdata dst) 0;
     dst \<leftarrow> (if 255 < data_size dst \<and> t = SDP_SEQ8 then do {
              xs \<leftarrow> rd (sdata dst) 2 (unat (data_size dst - 2));
              m \<leftarrow> wr (sdata dst) 3 xs;
              m \<leftarrow> wr8 m 0 SDP_SEQ16;
              Some (dst\<lparr>sdata := m, data_size := data_size dst + 1\<rparr>) }
            else Some dst);
     set_buf_len dst }"

definition sdp_append_to_buf :: "sdp_buf \<Rightarrow> buf \<Rightarrow> u32 \<Rightarrow> sdp_buf option" where
  "sdp_append_to_buf dst data len = do {
     t \<leftarrow> rd8 (sdata dst) 0;
     if buf_size dst < data_size dst + len then Some dst
     else if data_size dst = 0 \<and> t = 0 then do {
       m \<leftarrow> wr8 (sdata dst) 0 SDP_SEQ8;
       append_data (dst\<lparr>sdata := m, data_size := data_size dst + 2\<rparr>) data len }
     else append_data dst data len }"

text \<open>\<open>junk i\<close> is the byte \<open>malloc\<close> leaves at index \<open>i\<close> of the temporary buffer.\<close>

definition sdp_append_to_pdu :: "(nat \<Rightarrow> u8) \<Rightarrow> bool \<Rightarrow> sdp_buf \<Rightarrow> sdp_data \<Rightarrow> (sdp_data \<times> sdp_buf) option" where
  "sdp_append_to_pdu junk late pdu d = do {
     sz \<leftarrow> sdp_gen_buffer late 0 d;
     append \<leftarrow> sdp_set_attrid
       \<lparr>sdata = map junk [0..<unat sz], data_size = 0, buf_size = sz\<rparr> (attrId d);
     (d, append, n) \<leftarrow> sdp_gen_pdu append d;
     pdu \<leftarrow> sdp_append_to_buf pdu (sdata append) (data_size append);
     Some (d, pdu) }"

primrec attr_sizes :: "bool \<Rightarrow> sdp_data list \<Rightarrow> u32 \<Rightarrow> u32 option" where
  "attr_sizes late [] b = Some b"
| "attr_sizes late (d # ds) b = do { b \<leftarrow> sdp_gen_buffer late b d; attr_sizes late ds b }"

primrec attr_pdus ::
    "(nat \<Rightarrow> u8) \<Rightarrow> bool \<Rightarrow> sdp_data list \<Rightarrow> sdp_buf \<Rightarrow> (sdp_data list \<times> sdp_buf) option" where
  "attr_pdus junk late [] pdu = Some ([], pdu)"
| "attr_pdus junk late (d # ds) pdu = do {
     (d, pdu) \<leftarrow> sdp_append_to_pdu junk late pdu d;
     (ds, pdu) \<leftarrow> attr_pdus junk late ds pdu;
     Some (d # ds, pdu) }"

definition sdp_gen_record_pdu ::
    "(nat \<Rightarrow> u8) \<Rightarrow> bool \<Rightarrow> sdp_record \<Rightarrow> (sdp_record \<times> sdp_buf) option" where
  "sdp_gen_record_pdu junk late rec = do {
     sz \<leftarrow> attr_sizes late (attrlist rec) 0;
     (ds, pdu) \<leftarrow> attr_pdus junk late (attrlist rec)
       \<lparr>sdata = replicate (unat sz) 0, data_size = 0, buf_size = sz\<rparr>;
     Some (rec\<lparr>attrlist := ds\<rparr>, pdu) }"

end
