(* ===== verification/SdpDec.thy ===== *)
theory SdpDec
  imports Sdp
begin

text \<open>
  Decoding of data elements and records (\<open>lib/sdp.c\<close>): \<open>extract_int\<close>, \<open>extract_uuid\<close>,
  \<open>extract_str\<close>, \<open>sdp_extract_seqtype\<close>, \<open>extract_seq\<close>, \<open>sdp_extract_attr\<close>, \<open>sdp_extract_pdu\<close>.

  A pointer into the packet is the memory from there to the end of its object, \<open>bufsize\<close> is
  what the code believes to be left; reads are checked against the memory (\<open>None\<close>).  The
  loop of \<open>extract_seq\<close> need not end, so the functions carry a bound on the depth of the calls and
  on the iterations of each loop, and \<open>NoFuel\<close> is the answer of a run that is cut off by it.
\<close>

datatype 'a run = NoFuel | Ret 'a

primrec run_bind :: "'a run option \<Rightarrow> ('a \<Rightarrow> 'b run option) \<Rightarrow> 'b run option" where
  "run_bind None f = None"
| "run_bind (Some r) f = (case r of NoFuel \<Rightarrow> Some NoFuel | Ret a \<Rightarrow> f a)"

text \<open>\<open>adv p n\<close> is \<open>p += n\<close>; a pointer may not leave the object by more than one past its end.\<close>

definition adv :: "buf \<Rightarrow> int \<Rightarrow> buf option" where
  "adv p n = (if 0 \<le> n \<and> n \<le> int (length p) then Some (drop (nat n) p) else None)"

section \<open>Scalars, UUIDs, strings\<close>

definition int_val :: "u8 \<Rightarrow> buf \<Rightarrow> (int \<times> sdp_val option) option" where
  "int_val t p =
     (if is_int8 t then Some (1, map_option V8 (rd8 p 0))
      else if is_int16 t then Some (2, map_option V16 (get_be16 p 0))
      else if is_int32 t then Some (4, map_option V32 (get_be32 p 0))
      else if is_int64 t then Some (8, map_option V64 (get_be64 p 0))
      else if is_int128 t then Some (16, map_option V128 (bswap_128 p 0))
      else None)"

definition extract_int :: "buf \<Rightarrow> int \<Rightarrow> int \<Rightarrow> (sdp_data ptr \<times> int) option" where
  "extract_int p bufsize len =
     (if bufsize < 1 then Some (NULL, len)
      else do {
        t \<leftarrow> rd8 p 0;
        let len = len + 1; bufsize = bufsize - 1 in
        if t = SDP_DATA_NIL then Some (Ptr (Sdp_data t 0 0 Zeroed), len)
        else case int_val t (drop 1 p) of
            None \<Rightarrow> Some (NULL, len)
          | Some (w, v) \<Rightarrow>
              if bufsize < w then Some (NULL, len)
              else do { v \<leftarrow> v; Some (Ptr (Sdp_data t 0 0 v), len + w) } })"

text \<open>Result, UUID (where one is stored) and \<open>scanned\<close>.\<close>

definition sdp_uuid_extract :: "buf \<Rightarrow> int \<Rightarrow> int \<Rightarrow> (int \<times> uuid_t ptr \<times> int) option" where
  "sdp_uuid_extract p bufsize scanned =
     (if bufsize < 1 then Some (- 1, NULL, scanned)
      else do {
        type \<leftarrow> rd8 p 0;
        if \<not> SDP_IS_UUID type then Some (- 1, NULL, scanned)
        else
          let p = drop 1 p; scanned = scanned + 1; bufsize = bufsize - 1 in
          if type = SDP_UUID16 then
            (if bufsize < 2 then Some (- 1, NULL, scanned)
             else do { v \<leftarrow> get_be16 p 0; Some (0, Ptr (sdp_uuid16_create v), scanned + 2) })
          else if type = SDP_UUID32 then
            (if bufsize < 4 then Some (- 1, NULL, scanned)
             else do { v \<leftarrow> get_be32 p 0; Some (0, Ptr (sdp_uuid32_create v), scanned + 4) })
          else
            (if bufsize < 16 then Some (- 1, NULL, scanned)
             else do { u \<leftarrow> sdp_uuid128_create p; Some (0, Ptr u, scanned + 16) }) })"

definition extract_uuid ::
    "buf \<Rightarrow> int \<Rightarrow> int \<Rightarrow> sdp_record \<Rightarrow> (sdp_data ptr \<times> int \<times> sdp_record) option" where
  "extract_uuid p bufsize len rec = do {
     (r, u, len) \<leftarrow> sdp_uuid_extract p bufsize len;
     if r < 0 then Some (NULL, len, rec)
     else do {
       t \<leftarrow> rd8 p 0;
       u \<leftarrow> deref u;
       Some (Ptr (Sdp_data t 0 0 (Vuuid u)), len, sdp_pattern_add_uuid rec u) } }"

text \<open>The width of the length field of a string, and its value.\<close>

definition str_size :: "u8 \<Rightarrow> buf \<Rightarrow> (int \<times> int option) option" where
  "str_size t p =
     (if t = SDP_TEXT_STR8 \<or> t = SDP_URL_STR8 then Some (1, map_option uint (rd8 p 0))
      else if t = SDP_TEXT_STR16 \<or> t = SDP_URL_STR16 then Some (2, map_option uint (get_be16 p 0))
      else None)"

definition extract_str :: "buf \<Rightarrow> int \<Rightarrow> int \<Rightarrow> (sdp_data ptr \<times> int) option" where
  "extract_str p bufsize len =
     (if bufsize < 1 then Some (NULL, len)
      else do {
        t \<leftarrow> rd8 p 0;
        let p = drop 1 p; len = len + 1; bufsize = bufsize - 1 in
        case str_size t p of
          None \<Rightarrow> Some (NULL, len)
        | Some (w, n) \<Rightarrow>
            if bufsize < w then Some (NULL, len)
            else do {
              n \<leftarrow> n;
              let len = len + w; bufsize = bufsize - w in
              if bufsize < n then Some (NULL, len)
              else do {
                s \<leftarrow> rd p (nat w) (nat n);
                Some (Ptr (Sdp_data t 0 (n + 1) (Vstr (s @ [0]))), len + n) } } })"

section \<open>Sequences\<close>

text \<open>
  \<open>(scanned, dtd, size)\<close>; the last two are \<open>None\<close> where the call leaves the caller's variable
  alone.  A 32-bit length is stored in an \<open>int\<close>.
\<close>

definition seq_size :: "u8 \<Rightarrow> buf \<Rightarrow> (int \<times> int option) option" where
  "seq_size t p =
     (if t = SDP_SEQ8 \<or> t = SDP_ALT8 then Some (1, map_option uint (rd8 p 0))
      else if t = SDP_SEQ16 \<or> t = SDP_ALT16 then Some (2, map_option uint (get_be16 p 0))
      else if t = SDP_SEQ32 \<or> t = SDP_ALT32 then Some (4, map_option sint (get_be32 p 0))
      else None)"

definition sdp_extract_seqtype :: "buf \<Rightarrow> int \<Rightarrow> (int \<times> u8 option \<times> int option) option" where
  "sdp_extract_seqtype p bufsize =
     (if bufsize < 1 then Some (0, None, None)
      else do {
        t \<leftarrow> rd8 p 0;
        let bufsize = bufsize - 1 in
        case seq_size t (drop 1 p) of
          None \<Rightarrow> Some (0, Some t, None)
        | Some (w, n) \<Rightarrow>
            if bufsize < w then Some (0, Some t, None)
            else do { n \<leftarrow> n; Some (1 + w, Some t, Some n) } })"

text \<open>The cases of \<open>sdp_extract_attr\<close> that do not recurse.\<close>

definition extract_leaf ::
    "u8 \<Rightarrow> buf \<Rightarrow> int \<Rightarrow> sdp_record \<Rightarrow> (sdp_data ptr \<times> int \<times> sdp_record) option" where
  "extract_leaf t p bufsize rec =
     (if t = SDP_DATA_NIL \<or> is_int8 t \<or> is_int16 t \<or> is_int32 t \<or> is_int64 t \<or> is_int128 t then do {
        (elem, n) \<leftarrow> extract_int p bufsize 0;
        Some (elem, n, rec) }
      else if SDP_IS_UUID t then extract_uuid p bufsize 0 rec
      else if SDP_IS_TEXT_STR t \<or> is_url_str t then do {
        (elem, n) \<leftarrow> extract_str p bufsize 0;
        Some (elem, n, rec) }
      else Some (NULL, 0, rec))"

text \<open>
  \<open>attr\<close> stands for the recursive calls of \<open>sdp_extract_attr\<close>; the bound of the loop counts
  iterations.
\<close>

primrec extract_seq_loop ::
    "nat \<Rightarrow> (buf \<Rightarrow> int \<Rightarrow> sdp_record \<Rightarrow> (sdp_data ptr \<times> int \<times> sdp_record) run option) \<Rightarrow>
       buf \<Rightarrow> int \<Rightarrow> int \<Rightarrow> int \<Rightarrow> sdp_data list \<Rightarrow> sdp_record \<Rightarrow>
       (sdp_data list \<times> int \<times> sdp_record) run option" where
  "extract_seq_loop 0 attr p bufsize n seqlen ds rec = Some NoFuel"
| "extract_seq_loop (Suc f) attr p bufsize n seqlen ds rec =
     (if \<not> n < seqlen then Some (Ret (ds, n, rec))
      else
        run_bind (attr p bufsize rec)
          (\<lambda>(curr, attrlen, rec). case curr of
             NULL \<Rightarrow> Some (Ret (ds, n, rec))
           | Ptr d \<Rightarrow> do {
               p \<leftarrow> adv p attrlen;
               extract_seq_loop f attr p (bufsize - attrlen) (n + attrlen) seqlen (ds @ [d]) rec }))"

definition extract_seq ::
    "nat \<Rightarrow> (buf \<Rightarrow> int \<Rightarrow> sdp_record \<Rightarrow> (sdp_data ptr \<times> int \<times> sdp_record) run option) \<Rightarrow>
       buf \<Rightarrow> int \<Rightarrow> sdp_record \<Rightarrow> (sdp_data ptr \<times> int \<times> sdp_record) run option" where
  "extract_seq f attr p bufsize rec = do {
     (len, t, seqlen) \<leftarrow> sdp_extract_seqtype p bufsize;
     let t = (case t of None \<Rightarrow> 0 | Some t \<Rightarrow> t);
     if len = 0 then Some (Ret (Ptr (Sdp_data t 0 0 (Vseq [])), len, rec))
     else if bufsize < len then Some (Ret (NULL, len, rec))
     else do {
       p \<leftarrow> adv p len;
       seqlen \<leftarrow> seqlen;
       run_bind (extract_seq_loop f attr p (bufsize - len) 0 seqlen [] rec)
         (\<lambda>(ds, n, rec). Some (Ret (Ptr (Sdp_data t 0 0 (Vseq ds)), len + n, rec))) } }"

primrec sdp_extract_attr ::
    "nat \<Rightarrow> buf \<Rightarrow> int \<Rightarrow> int \<Rightarrow> sdp_record \<Rightarrow> (sdp_data ptr \<times> int \<times> sdp_record) run option" where
  "sdp_extract_attr 0 p bufsize sz rec = Some NoFuel"
| "sdp_extract_attr (Suc f) p bufsize sz rec =
     (if bufsize < 1 then Some (Ret (NULL, sz, rec))
      else do {
        t \<leftarrow> rd8 p 0;
        run_bind
          (if SDP_IS_SEQ t \<or> SDP_IS_ALT t
           then extract_seq f (\<lambda>p bufsize rec. sdp_extract_attr f p bufsize 0 rec) p bufsize rec
           else map_option Ret (extract_leaf t p bufsize rec))
          (\<lambda>(elem, n, rec). Some (Ret (elem, sz + n, rec))) })"

section \<open>Records\<close>

text \<open>
  \<open>sdp_extract_pdu_loop\<close> is the loop over the attributes.  The record handle is read from the
  union whatever the descriptor of the attribute; \<open>addr\<close> gives the bytes of a pointer there.
\<close>

definition set_handle :: "(sdp_val \<Rightarrow> u32) \<Rightarrow> u16 \<Rightarrow> sdp_data \<Rightarrow> sdp_record \<Rightarrow> sdp_record" where
  "set_handle addr attr data rec =
     (if attr = 0x0000 then rec\<lparr>handle := val_uint32 addr (val data)\<rparr> else rec)"

primrec sdp_extract_pdu_loop ::
    "nat \<Rightarrow> (sdp_val \<Rightarrow> u32) \<Rightarrow> buf \<Rightarrow> int \<Rightarrow> int \<Rightarrow> int \<Rightarrow> sdp_record \<Rightarrow> sdp_record run option" where
  "sdp_extract_pdu_loop 0 addr p bufsize extracted seqlen rec = Some NoFuel"
| "sdp_extract_pdu_loop (Suc f) addr p bufsize extracted seqlen rec =
     (if \<not> (extracted < seqlen \<and> 0 < bufsize) then Some (Ret rec)
      else if bufsize < 3 then Some (Ret rec)
      else do {
        t \<leftarrow> rd8 p 0;
        attr \<leftarrow> get_be16 p 1;
        q \<leftarrow> adv p 3;
        run_bind (sdp_extract_attr f q (bufsize - 3) 0 rec)
          (\<lambda>(data, attrlen, rec). case data of
             NULL \<Rightarrow> Some (Ret rec)
           | Ptr data \<Rightarrow> do {
               let rec = set_handle addr attr data rec;
               rec \<leftarrow> set_svclass attr data rec;
               let n = 3 + attrlen;
               p \<leftarrow> adv p n;
               rec \<leftarrow> sdp_attr_replace rec attr data;
               sdp_extract_pdu_loop f addr p (bufsize - n) (extracted + n) seqlen rec }) })"

text \<open>The record and \<open>*scanned\<close>, which overflows where it leaves the range of \<open>int\<close>.\<close>

definition sdp_extract_pdu ::
    "nat \<Rightarrow> (sdp_val \<Rightarrow> u32) \<Rightarrow> buf \<Rightarrow> int \<Rightarrow> (sdp_record \<times> int) run option" where
  "sdp_extract_pdu f addr p bufsize = do {
     (scanned, t, seqlen) \<leftarrow> sdp_extract_seqtype p bufsize;
     let seqlen = (case seqlen of None \<Rightarrow> 0 | Some n \<Rightarrow> n);
     p \<leftarrow> adv p scanned;
     run_bind (sdp_extract_pdu_loop f addr p (bufsize - scanned) 0 seqlen sdp_record_alloc)
       (\<lambda>rec. if scanned + seqlen < 2 ^ 31 then Some (Ret (rec, scanned + seqlen)) else None) }"

primrec extract_record_handle_seq ::
    "nat \<Rightarrow> buf \<Rightarrow> int \<Rightarrow> u32 list \<Rightarrow> u32 \<Rightarrow> (u32 list \<times> u32) option" where
  "extract_record_handle_seq 0 pdata bufsize seq scanned = Some (seq, scanned)"
| "extract_record_handle_seq (Suc count) pdata bufsize seq scanned =
     (if bufsize < 4 then Some (seq, scanned)
      else do {
        h \<leftarrow> get_be32 pdata 0;
        pdata \<leftarrow> adv pdata 4;
        extract_record_handle_seq count pdata (bufsize - 4) (sdp_list_append seq h) (scanned + 4) })"

end
