(* ===== verification/SdpReq.thy ===== *)
theory SdpReq
  imports SdpEnc SdpDec
begin

text \<open>
  The service search attribute request (\<open>lib/sdp.c\<close>): building the request, the exchange with
  the server, the continuation of split responses, and the scan of the records.

  The server and the socket are a script: one entry per exchange, with the results of the
  \<open>send\<close> calls and what \<open>select\<close> and \<open>recv\<close> give, all of it a function of the request that was
  sent; a script that has ended is a socket that fails.  The buffers \<open>malloc\<close> returns have arbitrary
  contents, parameters of the model.
\<close>

section \<open>Requests\<close>

text \<open>
  An item of a sequence is the memory the list element points to, which for a UUID is its
  member \<open>value\<close>.  Result: the bytes copied to the destination, and the length returned.
\<close>

definition gen_dataseq_pdu ::
    "(nat \<Rightarrow> u8) \<Rightarrow> bool \<Rightarrow> buf list \<Rightarrow> u8 \<Rightarrow> (buf \<times> int) option" where
  "gen_dataseq_pdu junk late seq t = do {
     dataseq \<leftarrow> sdp_seq_alloc (map (\<lambda>m. (t, Mem m)) seq);
     case dataseq of
       NULL \<Rightarrow> Some ([], - 12)
     | Ptr d \<Rightarrow> do {
         n \<leftarrow> sdp_gen_buffer late 0 d;
         (d, buf, len) \<leftarrow> sdp_gen_pdu \<lparr>sdata = map junk [0..<unat n], data_size = 0, buf_size = n\<rparr> d;
         xs \<leftarrow> rd (sdata buf) 0 (unat (data_size buf));
         Some (xs, sint len) } }"

definition gen_searchseq_pdu ::
    "(nat \<Rightarrow> u8) \<Rightarrow> bool \<Rightarrow> uuid_t list \<Rightarrow> (buf \<times> int) option" where
  "gen_searchseq_pdu junk late seq =
     (case seq of [] \<Rightarrow> None | u # _ \<Rightarrow> gen_dataseq_pdu junk late (map uval seq) (utype u))"

definition gen_attridseq_pdu ::
    "(nat \<Rightarrow> u8) \<Rightarrow> bool \<Rightarrow> buf list \<Rightarrow> u8 \<Rightarrow> (buf \<times> int) option" where
  "gen_attridseq_pdu junk late seq t = gen_dataseq_pdu junk late seq t"

text \<open>
  \<open>copy_cstate\<close> writes at \<open>i\<close> in the request buffer; the continuation state is a position in the
  response buffer, and its length byte says how much of what follows is copied.
\<close>

definition copy_cstate :: "buf \<Rightarrow> nat \<Rightarrow> int \<Rightarrow> buf \<Rightarrow> nat option \<Rightarrow> (buf \<times> u32) option" where
  "copy_cstate req i pdata_len rsp cstate = (case cstate of
     Some c \<Rightarrow> do {
       len \<leftarrow> rd8 rsp c;
       let len = (if pdata_len \<le> uint len then word_of_int (pdata_len - 1) else len);
       req \<leftarrow> wr8 req i len;
       xs \<leftarrow> rd rsp (c + 1) (unat len);
       req \<leftarrow> wr req (i + 1) xs;
       Some (req, ucast len + 1) }
   | None \<Rightarrow> do { req \<leftarrow> wr8 req i 0; Some (req, 1) })"

section \<open>Exchange\<close>

datatype reply = Timed_out | Recv_fails | Received buf

type_synonym exchange = "int list \<times> reply"

type_synonym peer = "buf \<Rightarrow> exchange"

fun sdp_send_req :: "int list \<Rightarrow> int \<Rightarrow> int \<Rightarrow> int" where
  "sdp_send_req sends sz sent =
     (if \<not> sent < sz then 0
      else case sends of
        [] \<Rightarrow> - 1
      | n # ns \<Rightarrow> if n < 0 then - 1 else sdp_send_req ns sz (sent + n))"

text \<open>\<open>sdp_read_rsp\<close>: the result and the response buffer, of which a packet overwrites the front.\<close>

definition sdp_read_rsp :: "reply \<Rightarrow> buf \<Rightarrow> int \<times> buf" where
  "sdp_read_rsp r rsp = (case r of
     Timed_out \<Rightarrow> (- 1, rsp)
   | Recv_fails \<Rightarrow> (- 1, rsp)
   | Received pkt \<Rightarrow>
       let xs = take (length rsp) pkt in (int (length xs), xs @ drop (length xs) rsp))"

text \<open>Status, response buffer and \<open>*rspsize\<close>, which keeps its value on an error.\<close>

definition sdp_send_req_w4_rsp ::
    "exchange \<Rightarrow> buf \<Rightarrow> buf \<Rightarrow> u32 \<Rightarrow> u32 \<Rightarrow> (int \<times> buf \<times> u32) option" where
  "sdp_send_req_w4_rsp x req rsp reqsize rspsize =
     (if sdp_send_req (fst x) (uint reqsize) 0 < 0 then Some (- 1, rsp, rspsize)
      else let (n, rsp) = sdp_read_rsp (snd x) rsp in
        if n < 0 then Some (- 1, rsp, rspsize)
        else do {
          a \<leftarrow> rd req 1 2;
          b \<leftarrow> rd rsp 1 2;
          if n = 0 \<or> a \<noteq> b then Some (- 1, rsp, rspsize)
          else Some (0, rsp, word_of_int n) })"

section \<open>Split responses\<close>

text \<open>
  \<open>attr_list_len\<close> is the sum of the lengths of the pieces so far: the code keeps it in an \<open>int\<close>, here it
  is a number without a bound, so an answer of \<open>2 ^ 31\<close> bytes or more is outside the model.
\<close>

record req_state =
  reqbuf :: buf
  rspbuf :: buf
  rspsize :: u32
  attr_list_len :: int
  cstate :: "nat option"
  concat_buf :: buf
  session_tid :: u16
  sent :: "buf list"

text \<open>
  One iteration of the loop, with \<open>reqsize0\<close> the size of the request before the continuation
  state; the peer is asked with the bytes handed to \<open>send\<close>, the last ones of \<open>sent\<close>.  \<open>Inl\<close> is the
  exit with a status, \<open>Inr\<close> the state at the loop condition.
\<close>

definition send_request :: "nat \<Rightarrow> req_state \<Rightarrow> (req_state \<times> u32) option" where
  "send_request reqsize0 s = do {
     r \<leftarrow> put_be16 (session_tid s) (reqbuf s) 1;
     (r, n) \<leftarrow> copy_cstate r reqsize0 (2048 - int reqsize0) (rspbuf s) (cstate s);
     let reqsize = of_nat reqsize0 + n;
     r \<leftarrow> put_be16 (ucast (reqsize - 5)) r 3;
     out \<leftarrow> rd r 0 (unat reqsize);
     Some (s\<lparr>reqbuf := r, session_tid := session_tid s + 1, sent := sent s @ [out]\<rparr>, reqsize) }"

definition take_response :: "req_state \<Rightarrow> (int + req_state) option" where
  "take_response s = do {
     pdu_id \<leftarrow> rd8 (rspbuf s) 0;
     if pdu_id = 0x01 then Some (Inl (- 1))
     else if rspsize s - 5 < 2 then Some (Inl (- 1))
     else do {
       count \<leftarrow> get_be16 (rspbuf s) 5;
       let rsp_count = unat count;
       let s = s\<lparr>attr_list_len := attr_list_len s + int rsp_count\<rparr>;
       let pdata_len = rspsize s - 7;
       if pdata_len < ucast count + 1 then Some (Inl (- 1))
       else do {
         clen \<leftarrow> rd8 (rspbuf s) (7 + rsp_count);
         if 0 < clen \<or> concat_buf s \<noteq> [] then do {
           xs \<leftarrow> rd (rspbuf s) 7 rsp_count;
           Some (Inr (s\<lparr>cstate := (if 0 < clen then Some (7 + rsp_count) else None),
                       concat_buf := concat_buf s @ xs\<rparr>)) }
         else Some (Inr s) } } }"

definition exchange_step :: "nat \<Rightarrow> peer \<Rightarrow> req_state \<Rightarrow> (int + req_state) option" where
  "exchange_step reqsize0 x s = do {
     (s, reqsize) \<leftarrow> send_request reqsize0 s;
     (status, r, n) \<leftarrow> sdp_send_req_w4_rsp (x (last (sent s))) (reqbuf s) (rspbuf s) reqsize (rspsize s);
     let s = s\<lparr>rspbuf := r, rspsize := n\<rparr>;
     if n < 5 then Some (Inl (- 1))
     else if status < 0 then Some (Inl status)
     else take_response s }"

fun exchange_loop :: "nat \<Rightarrow> peer list \<Rightarrow> req_state \<Rightarrow> (int + req_state) option" where
  "exchange_loop reqsize0 [] s = Some (Inl (- 1))"
| "exchange_loop reqsize0 (x # xs) s = do {
     r \<leftarrow> exchange_step reqsize0 x s;
     case r of
       Inl status \<Rightarrow> Some (Inl status)
     | Inr s \<Rightarrow> if cstate s \<noteq> None then exchange_loop reqsize0 xs s else Some (Inr s) }"

section \<open>The records of the response\<close>

text \<open>
  \<open>scan_records\<close> walks over the records; \<open>p\<close> is the position in the object \<open>m\<close>.  The length a
  record reports is the one its header claims, and the position moves by it; a position
  outside the object is undefined.
\<close>

definition move :: "buf \<Rightarrow> int \<Rightarrow> int \<Rightarrow> int option" where
  "move m p n = (if 0 \<le> p + n \<and> p + n \<le> int (length m) then Some (p + n) else None)"

primrec scan_records ::
    "nat \<Rightarrow> (sdp_val \<Rightarrow> u32) \<Rightarrow> buf \<Rightarrow> int \<Rightarrow> u32 \<Rightarrow> int \<Rightarrow> int \<Rightarrow> sdp_record list \<Rightarrow>
       sdp_record list run option" where
  "scan_records 0 addr m p pdata_len scanned limit recs = Some NoFuel"
| "scan_records (Suc f) addr m p pdata_len scanned limit recs =
     run_bind (sdp_extract_pdu f addr (drop (nat p) m) (sint pdata_len))
       (\<lambda>(rec, recsize).
         if recsize = 0 then Some (Ret recs)
         else do {
           p \<leftarrow> move m p recsize;
           let scanned = scanned + recsize;
           let pdata_len = pdata_len - word_of_int recsize;
           let recs = sdp_list_append recs rec;
           if scanned < 2 ^ 31 \<and> - (2 ^ 31) \<le> scanned then
             (if scanned < limit \<and> 0 < pdata_len
              then scan_records f addr m p pdata_len scanned limit recs
              else Some (Ret recs))
           else None })"

definition parse_response ::
    "nat \<Rightarrow> (sdp_val \<Rightarrow> u32) \<Rightarrow> req_state \<Rightarrow> sdp_record list run option" where
  "parse_response f addr s =
     (if attr_list_len s \<le> 0 then Some (Ret [])
      else
        let (m, p, pdata_len) = (if concat_buf s \<noteq> [] then (concat_buf s, 0, of_nat (length (concat_buf s)))
                                 else (rspbuf s, 7, rspsize s - 7)) in do {
        (scanned, t, seqlen) \<leftarrow> sdp_extract_seqtype (drop p m) (sint (pdata_len :: u32));
        if scanned \<noteq> 0 \<and> seqlen \<noteq> Some 0
        then scan_records f addr m (int p + scanned) (pdata_len - word_of_int scanned) scanned
               (attr_list_len s) []
        else Some (Ret []) })"

section \<open>The request\<close>

text \<open>
  \<open>attrids\<close> are the bytes of the attribute identifiers or ranges.  Result: the status, the list
  of records, and the state at the end (with the requests sent); the first argument bounds the
  loops.
\<close>

definition start_request ::
    "(nat \<Rightarrow> u8) \<Rightarrow> bool \<Rightarrow> buf \<Rightarrow> uuid_t list \<Rightarrow> bool \<Rightarrow> buf list \<Rightarrow> (int + (buf \<times> nat)) option" where
  "start_request junk late req search ranges attrids = do {
     req \<leftarrow> wr8 req 0 0x06;
     (xs, seqlen) \<leftarrow> gen_searchseq_pdu junk late search;
     req \<leftarrow> wr req 5 xs;
     if seqlen < 0 then Some (Inl (- 1))
     else do {
       let i = 5 + nat seqlen;
       req \<leftarrow> put_be16 65535 req i;
       (xs, seqlen) \<leftarrow> gen_attridseq_pdu junk late attrids (if ranges then SDP_UINT32 else SDP_UINT16);
       req \<leftarrow> wr req (i + 2) xs;
       if seqlen = - 1 then Some (Inl (- 1))
       else if int i + 2 + seqlen < 0 then None
       else Some (Inr (req, nat (int i + 2 + seqlen))) } }"

definition sdp_service_search_attr_req ::
    "nat \<Rightarrow> (nat \<Rightarrow> u8) \<Rightarrow> bool \<Rightarrow> (sdp_val \<Rightarrow> u32) \<Rightarrow> buf \<Rightarrow> buf \<Rightarrow> u16 \<Rightarrow> peer list \<Rightarrow>
       uuid_t list \<Rightarrow> bool \<Rightarrow> buf list \<Rightarrow> (int \<times> sdp_record list) run option" where
  "sdp_service_search_attr_req f junk late addr reqmem rspmem tid xs search ranges attrids = do {
     r \<leftarrow> start_request junk late reqmem search ranges attrids;
     case r of
       Inl status \<Rightarrow> Some (Ret (status, []))
     | Inr (req, reqsize0) \<Rightarrow> do {
         r \<leftarrow> exchange_loop reqsize0 xs
           \<lparr>reqbuf = req, rspbuf = rspmem, rspsize = 0, attr_list_len = 0, cstate = None,
            concat_buf = [], session_tid = tid, sent = []\<rparr>;
         case r of
           Inl status \<Rightarrow> Some (Ret (status, []))
         | Inr s \<Rightarrow> run_bind (parse_response f addr s) (\<lambda>recs. Some (Ret (0, recs))) } }"

end
