(* ===== verification/SdpXml.thy ===== *)
theory SdpXml
  imports Sdp CText
begin

text \<open>
  Printing of records as XML (\<open>src/sdp-xml.c\<close>): \<open>convert_raw_data_to_xml\<close>,
  \<open>convert_raw_attr_to_xml_func\<close>, \<open>convert_sdp_record_to_xml\<close>.  The text passed to the appender is a
  HOL string; \<open>None\<close> is an access C leaves undefined.
\<close>

section \<open>Conversions of the C library\<close>

fun dec_of :: "nat \<Rightarrow> string" where
  "dec_of n = (if n < 10 then [hexdigit n] else dec_of (n div 10) @ [hexdigit (n mod 10)])"

declare dec_of.simps [simp del]

text \<open>\<open>%d\<close> and \<open>%jd\<close>; \<open>%02x\<close> of every byte in turn.\<close>

definition fmt_d :: "int \<Rightarrow> string" where
  "fmt_d i = (if i < 0 then ''-'' @ dec_of (nat (- i)) else dec_of (nat i))"

definition hex_bytes :: "buf \<Rightarrow> string" where
  "hex_bytes bs = concat (map (\<lambda>b. fmt_x 2 (unat b)) bs)"

text \<open>\<open>isprint\<close> in the C locale, on the unsigned \<open>char\<close> of the build.\<close>

definition isprint :: "u8 \<Rightarrow> bool" where
  "isprint b \<longleftrightarrow> 0x20 \<le> b \<and> b \<le> 0x7e"

definition chr :: "u8 \<Rightarrow> char" where
  "chr b = char_of (unat b)"

definition byte :: "char \<Rightarrow> u8" where
  "byte c = of_nat (of_char c)"

lemma unat_byte [simp]: "unat (byte c) = of_char c"
proof -
  have "(of_char c :: nat) < 256" by simp
  then show ?thesis by (simp add: byte_def unat_of_nat)
qed

lemma chr_byte [simp]: "chr (byte c) = c"
  by (simp add: chr_def)

lemma byte_nonzero: "0 < (of_char c :: nat) \<Longrightarrow> byte c \<noteq> 0"
  by (metis less_irrefl unat_byte unsigned_0)

section \<open>Text\<close>

text \<open>
  \<open>text_is_hex\<close> is the scan that decides on the encoding: it stops at the first byte that is
  neither printable nor NUL.
\<close>

definition text_is_hex :: "buf \<Rightarrow> bool" where
  "text_is_hex bs \<longleftrightarrow> (\<exists>b \<in> set bs. \<not> isprint b \<and> b \<noteq> 0)"

text \<open>The entities are written without their semicolon.\<close>

definition escape_char :: "u8 \<Rightarrow> string" where
  "escape_char b =
     (if chr b = CHR ''&'' then ''&amp''
      else if chr b = CHR ''<'' then ''&lt''
      else if chr b = CHR ''>'' then ''&gt''
      else if chr b = CHR 0x22 then ''&quot''
      else if b = 0 then '' ''
      else [chr b])"

definition text_value :: "buf \<Rightarrow> string" where
  "text_value bs = (if text_is_hex bs then hex_bytes bs else concat (map escape_char bs))"

text \<open>\<open>strndup(str, n)\<close>: up to \<open>n\<close> bytes, or to the first NUL.\<close>

fun strndup :: "buf \<Rightarrow> nat \<Rightarrow> string option" where
  "strndup s 0 = Some []"
| "strndup [] (Suc n) = None"
| "strndup (b # s) (Suc n) = (if b = 0 then Some [] else map_option ((#) (chr b)) (strndup s n))"

section \<open>Elements\<close>

definition tabs :: "nat \<Rightarrow> string" where
  "tabs level = replicate (if 64 \<le> level then 62 else level) (CHR 0x09)"

text \<open>One printed element: indentation, the part before the value, the value, the end.\<close>

definition quote :: string where
  "quote = [CHR 0x22]"

definition leaf_line :: "nat \<Rightarrow> string \<Rightarrow> string \<Rightarrow> string" where
  "leaf_line level name v = tabs level @ ''<'' @ name @ '' value='' @ quote @ v @ quote @ '' />'' @ [CHR 0x0A]"

text \<open>The printed value of a scalar and its element name, by the descriptor.\<close>

definition int_text :: "u8 \<Rightarrow> sdp_val \<Rightarrow> (string \<times> string) option" where
  "int_text t v =
     (if t = SDP_BOOL then
        (case v of V8 w \<Rightarrow> Some (''boolean'', if w \<noteq> 0 then ''true'' else ''false'') | _ \<Rightarrow> None)
      else if t = SDP_UINT8 then (case v of V8 w \<Rightarrow> Some (''uint8'', ''0x'' @ fmt_x 2 (unat w)) | _ \<Rightarrow> None)
      else if t = SDP_UINT16 then (case v of V16 w \<Rightarrow> Some (''uint16'', ''0x'' @ fmt_x 4 (unat w)) | _ \<Rightarrow> None)
      else if t = SDP_UINT32 then (case v of V32 w \<Rightarrow> Some (''uint32'', ''0x'' @ fmt_x 8 (unat w)) | _ \<Rightarrow> None)
      else if t = SDP_UINT64 then (case v of V64 w \<Rightarrow> Some (''uint64'', ''0x'' @ fmt_x 16 (unat w)) | _ \<Rightarrow> None)
      else if t = SDP_UINT128 then (case v of V128 bs \<Rightarrow> Some (''uint128'', hex_bytes bs) | _ \<Rightarrow> None)
      else if t = SDP_INT8 then (case v of V8 w \<Rightarrow> Some (''int8'', fmt_d (sint w)) | _ \<Rightarrow> None)
      else if t = SDP_INT16 then (case v of V16 w \<Rightarrow> Some (''int16'', fmt_d (sint w)) | _ \<Rightarrow> None)
      else if t = SDP_INT32 then (case v of V32 w \<Rightarrow> Some (''int32'', fmt_d (sint w)) | _ \<Rightarrow> None)
      else if t = SDP_INT64 then (case v of V64 w \<Rightarrow> Some (''int64'', fmt_d (sint w)) | _ \<Rightarrow> None)
      else if t = SDP_INT128 then (case v of V128 bs \<Rightarrow> Some (''int128'', hex_bytes bs) | _ \<Rightarrow> None)
      else None)"

definition uuid_xml :: "u8 \<Rightarrow> uuid_t \<Rightarrow> string" where
  "uuid_xml t u =
     (if t = SDP_UUID16 then ''0x'' @ fmt_x 4 (unat (uuid16 u))
      else if t = SDP_UUID32 then ''0x'' @ fmt_x 8 (unat (uuid32 u))
      else hex_bytes (take 4 (uval u)) @ ''-'' @ hex_bytes (take 2 (drop 4 (uval u))) @ ''-'' @
        hex_bytes (take 2 (drop 6 (uval u))) @ ''-'' @ hex_bytes (take 2 (drop 8 (uval u))) @ ''-'' @
        hex_bytes (take 6 (drop 10 (uval u))))"

definition leaf_xml :: "nat \<Rightarrow> u8 \<Rightarrow> int \<Rightarrow> sdp_val \<Rightarrow> string option" where
  "leaf_xml level t unit v =
     (if t = SDP_DATA_NIL then Some (tabs level @ ''<nil/>'' @ [CHR 0x0A])
      else if SDP_IS_UUID t then
        (case v of Vuuid u \<Rightarrow> Some (leaf_line level ''uuid'' (uuid_xml t u)) | _ \<Rightarrow> None)
      else if SDP_IS_TEXT_STR t then do {
        s \<leftarrow> val_str v;
        bs \<leftarrow> rd s 0 (nat (unit - 1));
        Some (tabs level @ ''<text '' @ (if text_is_hex bs then ''encoding='' @ quote @ ''hex'' @ quote @ '' '' else []) @
          ''value='' @ quote @ text_value bs @ quote @ '' />'' @ [CHR 0x0A]) }
      else if is_url_str t then do {
        s \<leftarrow> val_str v;
        u \<leftarrow> strndup s (nat (unit - 1));
        Some (leaf_line level ''url'' u) }
      else if is_int8 t \<or> is_int16 t \<or> is_int32 t \<or> is_int64 t \<or> is_int128 t then do {
        (name, x) \<leftarrow> int_text t v;
        Some (leaf_line level name x) }
      else Some [])"

text \<open>\<open>xml_chain\<close> follows the \<open>next\<close> pointers.\<close>

fun convert_raw_data_to_xml :: "nat \<Rightarrow> sdp_data \<Rightarrow> string option"
  and xml_chain :: "nat \<Rightarrow> sdp_data list \<Rightarrow> string option" where
  "convert_raw_data_to_xml level (Sdp_data t a unit v) =
     (if SDP_IS_SEQ t \<or> SDP_IS_ALT t then do {
        inner \<leftarrow> (case v of Vseq ds \<Rightarrow> xml_chain ((if 64 \<le> level then 62 else level) + 1) ds
                 | Zeroed \<Rightarrow> Some [] | _ \<Rightarrow> None);
        let name = (if SDP_IS_SEQ t then ''sequence'' else ''alternate'');
        Some (tabs level @ ''<'' @ name @ ''>'' @ [CHR 0x0A] @ inner @ tabs level @ ''</'' @ name @ ''>'' @ [CHR 0x0A]) }
      else leaf_xml level t unit v)"
| "xml_chain level [] = Some []"
| "xml_chain level (d # ds) = do {
     x \<leftarrow> convert_raw_data_to_xml level d;
     xs \<leftarrow> xml_chain level ds;
     Some (x @ xs) }"

section \<open>Records\<close>

text \<open>The attributes of a record are not chained to each other, their \<open>next\<close> is null.\<close>

definition convert_raw_attr_to_xml_func :: "sdp_data \<Rightarrow> string option" where
  "convert_raw_attr_to_xml_func d = do {
     x \<leftarrow> xml_chain 2 [d];
     Some ([CHR 0x09] @ ''<attribute id='' @ quote @ ''0x'' @ fmt_x 4 (unat (attrId d)) @ quote @ ''>'' @ [CHR 0x0A] @
       x @ [CHR 0x09] @ ''</attribute>'' @ [CHR 0x0A]) }"

primrec xml_attrs :: "sdp_data list \<Rightarrow> string option" where
  "xml_attrs [] = Some []"
| "xml_attrs (d # ds) = do {
     x \<leftarrow> convert_raw_attr_to_xml_func d;
     xs \<leftarrow> xml_attrs ds;
     Some (x @ xs) }"

definition xml_head :: string where
  "xml_head = ''<?xml version='' @ quote @ ''1.0'' @ quote @ '' encoding='' @ quote @ ''UTF-8'' @ quote @ '' ?>'' @
     [CHR 0x0A, CHR 0x0A]"

definition convert_sdp_record_to_xml :: "sdp_data list \<Rightarrow> string option" where
  "convert_sdp_record_to_xml attrs =
     (if attrs = [] then Some []
      else do {
        x \<leftarrow> xml_attrs attrs;
        Some (xml_head @ ''<record>'' @ [CHR 0x0A] @ x @ ''</record>'' @ [CHR 0x0A]) })"

end
