(* ===== verification/SdpTool.thy ===== *)
theory SdpTool
  imports SdpReq SdpXml
begin

text \<open>
  \<open>sdptool browse --xml\<close> (\<open>tools/sdptool.c\<close>): the browse loop with its descent into groups.

  The network is a parameter: what the \<open>k\<close>-th connection attempt of the run gives.  A failed
  attempt, and a session whose request fails, come with the text of \<open>strerror(errno)\<close>.  A new
  session starts with transaction identifier zero.
\<close>

record session =
  reqmem :: buf
  rspmem :: buf
  script :: "peer list"
  fails_with :: string

type_synonym network = "nat \<Rightarrow> string + session"

record tool =
  attempts :: nat
  printed :: string

definition print :: "string \<Rightarrow> tool \<Rightarrow> tool" where
  "print x s = s\<lparr>printed := printed s @ x\<rparr>"

definition hexdigit_upper :: "nat \<Rightarrow> char" where
  "hexdigit_upper n = char_of (if n < 10 then 48 + n else 55 + n)"

definition ba2str :: "buf \<Rightarrow> string" where
  "ba2str ba =
     (let x = (\<lambda>b. [hexdigit_upper (unat b div 16), hexdigit_upper (unat b mod 16)]) in
      x (ba ! 5) @ '':'' @ x (ba ! 4) @ '':'' @ x (ba ! 3) @ '':'' @ x (ba ! 2) @ '':'' @
      x (ba ! 1) @ '':'' @ x (ba ! 0))"

text \<open>
  The loop over the records; \<open>search\<close> stands for the recursive call on the group of a record.
  Its result is not used.
\<close>

primrec browse_records ::
    "(uuid_t \<Rightarrow> tool \<Rightarrow> (int \<times> tool) run option) \<Rightarrow> (sdp_val \<Rightarrow> u32) \<Rightarrow> uuid_t \<Rightarrow>
       sdp_record list \<Rightarrow> tool \<Rightarrow> tool run option" where
  "browse_records search addr grp [] s = Some (Ret s)"
| "browse_records search addr grp (rec # recs) s = do {
     x \<leftarrow> convert_sdp_record_to_xml (attrlist rec);
     let s = print x s;
     case sdp_get_group_id addr rec of
       (r, Some u) \<Rightarrow>
         if uuid16 u \<noteq> uuid16 grp
         then run_bind (search u s) (\<lambda>(status, s). browse_records search addr grp recs s)
         else browse_records search addr grp recs s
     | (r, None) \<Rightarrow> browse_records search addr grp recs s }"

text \<open>
  \<open>do_search\<close> in the XML view without a service name.  The number bounds the depth of the
  descent, \<open>f\<close> the loops of one request.
\<close>

primrec do_search ::
    "nat \<Rightarrow> nat \<Rightarrow> (nat \<Rightarrow> u8) \<Rightarrow> bool \<Rightarrow> (sdp_val \<Rightarrow> u32) \<Rightarrow> network \<Rightarrow> buf \<Rightarrow> uuid_t \<Rightarrow> tool \<Rightarrow>
       (int \<times> tool) run option" where
  "do_search 0 f junk late addr net bdaddr grp s = Some NoFuel"
| "do_search (Suc n) f junk late addr net bdaddr grp s =
     (let str = ba2str bdaddr; con = net (attempts s); s = s\<lparr>attempts := attempts s + 1\<rparr> in
      case con of
        Inl err \<Rightarrow> Some (Ret (- 1, print (''Failed to connect to SDP server on '' @ str @ '': '' @ err @ [CHR 0x0A]) s))
      | Inr sess \<Rightarrow>
          let s = print (''Browsing '' @ str @ '' ...'' @ [CHR 0x0A]) s in
          run_bind
            (sdp_service_search_attr_req f junk late addr (reqmem sess) (rspmem sess) 0 (script sess)
               [grp] True [le_of 4 (0x0000FFFF :: u32)])
            (\<lambda>(status, seq).
               if status \<noteq> 0
               then Some (Ret (- 1, print (''Service Search failed: '' @ fails_with sess @ [CHR 0x0A]) s))
               else run_bind (browse_records (do_search n f junk late addr net bdaddr) addr grp seq s)
                 (\<lambda>s. Some (Ret (0, s)))))"

definition PUBLIC_BROWSE_GROUP :: u16 where
  "PUBLIC_BROWSE_GROUP = 0x1002"

definition browse_xml ::
    "nat \<Rightarrow> nat \<Rightarrow> (nat \<Rightarrow> u8) \<Rightarrow> bool \<Rightarrow> (sdp_val \<Rightarrow> u32) \<Rightarrow> network \<Rightarrow> buf \<Rightarrow> (int \<times> tool) run option" where
  "browse_xml n f junk late addr net bdaddr =
     do_search n f junk late addr net bdaddr (sdp_uuid16_create PUBLIC_BROWSE_GROUP)
       \<lparr>attempts = 0, printed = []\<rparr>"

end
