(* ===== verification/SdpPrint.thy ===== *)
theory SdpPrint
  imports SdpXml
begin

text \<open>
  Printing is defined for every element the decoder makes, and quotes and angle brackets of the
  peer's text never reach the value of a \<open>text\<close> element.
\<close>

section \<open>Every element can be printed\<close>

lemma strndup_total: "n \<le> length s \<Longrightarrow> \<exists>u. strndup s n = Some u"
  by (induction s n rule: strndup.induct) auto

lemma leaf_xml_total:
  assumes "wf_val t n v" "\<not> (SDP_IS_SEQ t \<or> SDP_IS_ALT t)"
  shows "\<exists>x. leaf_xml level t n v = Some x"
proof -
  consider "t = SDP_DATA_NIL"
    | w where "t = SDP_UINT8 \<or> t = SDP_INT8 \<or> t = SDP_BOOL" "v = V8 w"
    | w where "t = SDP_UINT16 \<or> t = SDP_INT16" "v = V16 w"
    | w where "t = SDP_UINT32 \<or> t = SDP_INT32" "v = V32 w"
    | w where "t = SDP_UINT64 \<or> t = SDP_INT64" "v = V64 w"
    | w where "t = SDP_UINT128 \<or> t = SDP_INT128" "v = V128 w"
    | w where "SDP_IS_UUID t" "v = Vuuid w"
    | s where "SDP_IS_TEXT_STR t" "v = Vstr s" "nat (n - 1) \<le> length s"
    | s where "is_url_str t" "v = Vstr s" "nat (n - 1) \<le> length s"
    using assms by (cases v) (auto simp: is_int8_def is_int16_def is_int32_def is_int64_def is_int128_def)
  then show ?thesis
  proof cases
    case 7
    then show ?thesis by (auto simp: leaf_xml_def dtd_groups)
  next
    case 8
    then show ?thesis by (auto simp: leaf_xml_def dtd_groups val_str_def rd_def)
  next
    case 9
    then show ?thesis using strndup_total [of "nat (n - 1)" s] by (auto simp: leaf_xml_def dtd_groups val_str_def)
  qed ((elim disjE)?; simp add: leaf_xml_def int_text_def dtd_groups)+
qed

lemma convert_total:
  "wf_data d \<Longrightarrow> \<exists>x. convert_raw_data_to_xml level d = Some x"
  "\<forall>d \<in> set ds. wf_data d \<Longrightarrow> \<exists>x. xml_chain level ds = Some x"
proof (induction level d and level ds rule: convert_raw_data_to_xml_xml_chain.induct)
  case (1 level t a unit v)
  then show ?case
    using leaf_xml_total [of t unit v level] by (cases v) (auto simp: dtd_groups)
next
  case (3 level d ds)
  then show ?case by fastforce
qed simp

lemma convert_record_total:
  assumes "\<forall>d \<in> set ds. wf_data d"
  shows "\<exists>x. convert_sdp_record_to_xml ds = Some x"
proof -
  have "\<exists>x. xml_attrs ds = Some x"
    using assms
  proof (induction ds)
    case (Cons d ds)
    then show ?case
      using convert_total(2) [of "[d]" 2] by (auto simp: convert_raw_attr_to_xml_func_def)
  qed simp
  then show ?thesis by (auto simp: convert_sdp_record_to_xml_def)
qed

section \<open>Text\<close>

text \<open>
  \<open>plain c\<close>: a printable character that cannot end the attribute value or open a tag.  A text
  that is not given in hexadecimal has such a value, with room for it in the buffer the code
  allocates from the number of characters to escape.
\<close>

definition plain :: "char \<Rightarrow> bool" where
  "plain c \<longleftrightarrow> 0x20 \<le> (of_char c :: nat) \<and> of_char c \<le> (0x7e :: nat) \<and>
     c \<notin> {CHR 0x22, CHR ''<'', CHR ''>''}"

definition escapes :: "buf \<Rightarrow> nat" where
  "escapes bs = length (filter (\<lambda>b. chr b \<in> {CHR ''<'', CHR ''>'', CHR 0x22, CHR ''&''}) bs)"

lemma of_char_chr [simp]: "(of_char (chr b) :: nat) = unat b"
  using unat_lt_8 [of b] by (simp add: chr_def)

lemma escape_char_plain:
  assumes "isprint b \<or> b = 0"
  shows "\<forall>c \<in> set (escape_char b). plain c"
proof (cases "b = 0 \<or> chr b \<in> {CHR ''&'', CHR ''<'', CHR ''>'', CHR 0x22}")
  case True
  then show ?thesis by (auto simp: escape_char_def plain_def)
next
  case False
  moreover from this assms have "0x20 \<le> unat b" "unat b \<le> 0x7e"
    by (auto simp: isprint_def word_le_nat_alt)
  ultimately show ?thesis by (auto simp: escape_char_def plain_def)
qed

lemma escape_char_length:
  "length (escape_char b) \<le> 1 + (if chr b \<in> {CHR ''<'', CHR ''>'', CHR 0x22, CHR ''&''} then 4 else 0)"
  by (simp add: escape_char_def)

lemma escaped_length: "length (concat (map escape_char bs)) \<le> length bs + 4 * escapes bs"
proof (induction bs)
  case (Cons b bs)
  then show ?case using escape_char_length [of b] by (auto simp: escapes_def)
qed (simp add: escapes_def)

lemma plain_pos: "plain c \<Longrightarrow> 0 < (of_char c :: nat)"
  by (simp add: plain_def)

lemma escape_plain:
  assumes "plain c" "c \<noteq> CHR ''&''"
  shows "escape_char (byte c) = [c]"
proof -
  have "byte c \<noteq> 0" using assms(1) by (intro byte_nonzero plain_pos)
  moreover have "c \<notin> {CHR 0x22, CHR ''<'', CHR ''>''}" using assms(1) unfolding plain_def by blast
  ultimately show ?thesis using assms(2) unfolding escape_char_def chr_byte by simp
qed

lemma isprint_byte: "plain c \<Longrightarrow> isprint (byte c)"
  by (simp add: isprint_def plain_def word_le_nat_alt)

lemma plain_hexdigit: "n < 16 \<Longrightarrow> plain (hexdigit n)"
  by (auto simp: plain_def hexdigit_def less_Suc_eq numeral_eq_Suc)

lemma hex_bytes_plain: "\<forall>c \<in> set (hex_bytes bs). plain c"
proof (induction bs)
  case (Cons b bs)
  have "unat b < 16 ^ 2" using unat_lt_8 [of b] by simp
  then have "set (fmt_x 2 (unat b)) = {hexdigit (unat b div 16 mod 16), hexdigit (unat b mod 16)}"
    by (simp add: fmt_x_hexw numeral_2_eq_2)
  with Cons show ?case by (auto simp: hex_bytes_def plain_hexdigit)
qed (simp add: hex_bytes_def)

lemma text_value_plain: "c \<in> set (text_value bs) \<Longrightarrow> plain c"
  using escape_char_plain hex_bytes_plain [of bs]
  by (auto simp: text_value_def text_is_hex_def split: if_splits)

lemma hex_bytes_length: "length (hex_bytes bs) = 2 * length bs"
proof (induction bs)
  case (Cons b bs)
  have "unat b < 16 ^ 2" using unat_lt_8 [of b] by simp
  with Cons show ?case by (simp add: hex_bytes_def fmt_x_hexw)
qed (simp add: hex_bytes_def)

end
