(* ===== verification/SdpRec.thy ===== *)
theory SdpRec
  imports Sdp CText "HOL-Library.List_Lexorder"
begin

text \<open>
  Service records keep two sorted lists: the attributes by their identifiers and the search
  pattern by the bytes of its UUIDs.  Both are handled with the same list functions and a
  comparison function each; the locale states what the comparison has to satisfy and proves the
  functions correct, and it is interpreted on the two comparisons of the library.
\<close>

section \<open>Sorted lists\<close>

locale sorted_list =
  fixes ok :: "'a \<Rightarrow> bool" and key :: "'a \<Rightarrow> 'k::linorder" and cmp :: "'a \<Rightarrow> 'a \<Rightarrow> int"
  assumes cmp_ge: "ok a \<Longrightarrow> ok b \<Longrightarrow> 0 \<le> cmp a b \<longleftrightarrow> key b \<le> key a"
    and cmp_eq: "ok a \<Longrightarrow> ok b \<Longrightarrow> cmp a b = 0 \<longleftrightarrow> key a = key b"
begin

lemma set_insert: "set (sdp_list_insert_sorted l d cmp) = insert d (set l)"
  by (induction l) auto

lemma insert_sorted:
  assumes "\<forall>a \<in> set l. ok a" "ok d" "sorted_wrt (<) (map key l)" "key d \<notin> key ` set l"
  shows "sorted_wrt (<) (map key (sdp_list_insert_sorted l d cmp))"
  using assms
proof (induction l)
  case Nil
  then show ?case by simp
next
  case (Cons p l)
  show ?case
  proof (cases "key d \<le> key p")
    case True
    with Cons.prems have "key d < key p" by (auto simp: less_le)
    with Cons.prems True show ?thesis by (auto simp: cmp_ge)
  next
    case False
    with Cons.prems Cons.IH show ?thesis by (auto simp: cmp_ge set_insert)
  qed
qed

lemma find_None_iff:
  "\<forall>a \<in> set l. ok a \<Longrightarrow> ok u \<Longrightarrow> sdp_list_find l u cmp = None \<longleftrightarrow> key u \<notin> key ` set l"
  by (induction l) (auto simp: cmp_eq)

lemma insert_position:
  assumes "\<forall>a \<in> set l. ok a" "ok d" "sorted_wrt (<) (map key l)" "key d \<notin> key ` set l"
  shows "sdp_list_insert_sorted l d cmp =
           filter (\<lambda>a. key a < key d) l @ d # filter (\<lambda>a. key d < key a) l"
  using assms
proof (induction l)
  case Nil
  then show ?case by simp
next
  case (Cons p l)
  show ?case
  proof (cases "key d \<le> key p")
    case True
    with Cons.prems have lt: "key d < key p" by (auto simp: less_le)
    with Cons.prems have "\<forall>a \<in> set l. key d < key a" by force
    then have "filter (\<lambda>a. key a < key d) l = []" "filter (\<lambda>a. key d < key a) l = l"
      by (auto simp: filter_empty_conv less_imp_not_less)
    with Cons.prems True lt show ?thesis by (simp add: cmp_ge less_imp_not_less)
  next
    case False
    with Cons.prems Cons.IH show ?thesis by (auto simp: cmp_ge)
  qed
qed

end

section \<open>Attributes by identifier\<close>

lemma sdp_list_find_attr:
  "sdp_list_find l a sdp_attrid_comp_func = find (\<lambda>e. attrId e = a) l"
  by (induction l) (auto simp: sdp_attrid_comp_func_def word_uint_eq_iff)

interpretation attrs: sorted_list "\<lambda>_. True" attrId "\<lambda>p e. sdp_attrid_comp_func p (attrId e)"
  by unfold_locales (simp_all add: sdp_attrid_comp_func_def word_le_def word_uint_eq_iff)

definition attrs_ok :: "sdp_data list \<Rightarrow> bool" where
  "attrs_ok l \<longleftrightarrow> sorted_wrt (<) (map attrId l)"

lemma attrs_ok_Nil [simp]: "attrs_ok []"
  by (simp add: attrs_ok_def)

lemma remove_attr_filter:
  "attrs_ok l \<Longrightarrow> sdp_list_remove (\<lambda>e. attrId e = a) l = filter (\<lambda>e. attrId e \<noteq> a) l"
proof (induction l)
  case Nil
  then show ?case by simp
next
  case (Cons p l)
  then have "attrId p = a \<Longrightarrow> \<forall>e \<in> set l. attrId e \<noteq> a" by (auto simp: attrs_ok_def)
  with Cons show ?case by (auto simp: attrs_ok_def filter_id_conv)
qed

lemma attrs_ok_filter: "attrs_ok l \<Longrightarrow> attrs_ok (filter P l)"
  by (induction l) (auto simp: attrs_ok_def)

lemma find_filter_None: "find (\<lambda>e. attrId e = a) l = None \<longleftrightarrow> filter (\<lambda>e. attrId e \<noteq> a) l = l"
  by (auto simp: find_None_iff filter_id_conv)

lemma replace_attrlist:
  assumes "sdp_attr_replace rec a d = Some rec'" "attrs_ok (attrlist rec)"
  shows "attrlist rec' = insert_attr (filter (\<lambda>e. attrId e \<noteq> a) (attrlist rec)) (set_attrId a d)"
proof -
  have "(case sdp_data_get rec a of
          Some p \<Rightarrow> sdp_list_remove (\<lambda>e. attrId e = a) (attrlist rec) | None \<Rightarrow> attrlist rec) =
        filter (\<lambda>e. attrId e \<noteq> a) (attrlist rec)"
    using assms(2) find_filter_None [of a "attrlist rec"]
    by (auto simp: remove_attr_filter sdp_data_get_def sdp_list_find_attr split: option.splits)
  with assms(1) show ?thesis
    by (auto simp: sdp_attr_replace_def Let_def set_svclass_def option_bind_Some_iff split: if_splits)
qed

lemma insert_attr_ok:
  "attrs_ok l \<Longrightarrow> a \<notin> attrId ` set l \<Longrightarrow> attrs_ok (insert_attr l (set_attrId a d))"
  using attrs.insert_sorted [of l "set_attrId a d"] by (simp add: attrs_ok_def insert_attr_def)

lemma set_insert_attr: "set (insert_attr l d) = insert d (set l)"
  by (simp add: insert_attr_def attrs.set_insert)

lemma replace_attrs_ok:
  assumes "sdp_attr_replace rec a d = Some rec'" "attrs_ok (attrlist rec)"
  shows "attrs_ok (attrlist rec')"
  using replace_attrlist [OF assms] assms(2) by (auto intro: insert_attr_ok attrs_ok_filter)

lemma find_attr_sorted:
  "attrs_ok l \<Longrightarrow> e \<in> set l \<Longrightarrow> find (\<lambda>x. attrId x = attrId e) l = Some e"
  by (induction l) (auto simp: attrs_ok_def)

lemma find_insert_attr:
  assumes "attrs_ok l" "a \<notin> attrId ` set l"
  shows "find (\<lambda>e. attrId e = b) (insert_attr l (set_attrId a d)) =
           (if b = a then Some (set_attrId a d) else find (\<lambda>e. attrId e = b) l)"
proof (cases "find (\<lambda>e. attrId e = b) l")
  case None
  then have "b \<noteq> a \<Longrightarrow> find (\<lambda>e. attrId e = b) (insert_attr l (set_attrId a d)) = None"
    by (auto simp: find_None_iff set_insert_attr)
  with None show ?thesis
    using find_attr_sorted [OF insert_attr_ok [OF assms], of "set_attrId a d" d]
    by (auto simp: set_insert_attr)
next
  case (Some e)
  then have "e \<in> set l" "attrId e = b" by (auto simp: find_Some_iff)
  with Some show ?thesis
    using find_attr_sorted [OF insert_attr_ok [OF assms], of _ d] assms(2)
    by (metis image_eqI insert_iff set_attrId_sel(1) set_insert_attr)
qed

section \<open>The search pattern\<close>

definition uuid128 :: "uuid_t \<Rightarrow> bool" where
  "uuid128 u \<longleftrightarrow> utype u = SDP_UUID128 \<and> length (uval u) = 16"

lemma memcmp_le:
  "length a = length b \<Longrightarrow> 0 \<le> memcmp a b \<longleftrightarrow> b \<le> a"
  by (induction a b rule: memcmp.induct) (auto simp: less_list_code le_less)

interpretation pats: sorted_list uuid128 uval sdp_uuid128_cmp
  by unfold_locales (simp_all add: sdp_uuid128_cmp_def uuid128_def memcmp_le memcmp_eq_0)

definition pattern_ok :: "uuid_t list \<Rightarrow> bool" where
  "pattern_ok l \<longleftrightarrow> (\<forall>u \<in> set l. uuid128 u) \<and> sorted_wrt (<) (map uval l)"

definition valid_uuid :: "uuid_t \<Rightarrow> bool" where
  "valid_uuid u \<longleftrightarrow> SDP_IS_UUID (utype u) \<and> length (uval u) = 16"

lemma uuid128_of: "valid_uuid u \<Longrightarrow> uuid128 (sdp_uuid_to_uuid128 u)"
  by (auto simp: sdp_uuid_to_uuid128_def uuid128_def valid_uuid_def SDP_IS_UUID_def
      sdp_uuid32_to_uuid128_def sdp_uuid16_to_uuid128_def)

lemma pattern_add:
  assumes "pattern_ok (pattern rec)" "valid_uuid u"
  shows "pattern_ok (pattern (sdp_pattern_add_uuid rec u)) \<and>
         set (pattern (sdp_pattern_add_uuid rec u)) = insert (sdp_uuid_to_uuid128 u) (set (pattern rec))"
proof -
  let ?w = "sdp_uuid_to_uuid128 u"
  have w: "uuid128 ?w" by (rule uuid128_of [OF assms(2)])
  have ok: "\<forall>a \<in> set (pattern rec). uuid128 a" "sorted_wrt (<) (map uval (pattern rec))"
    using assms(1) by (auto simp: pattern_ok_def)
  show ?thesis
  proof (cases "sdp_list_find (pattern rec) ?w sdp_uuid128_cmp")
    case None
    with w ok have new: "uval ?w \<notin> uval ` set (pattern rec)" by (simp add: pats.find_None_iff)
    have "sdp_pattern_add_uuid rec u =
            rec\<lparr>pattern := sdp_list_insert_sorted (pattern rec) ?w sdp_uuid128_cmp\<rparr>"
      using None by (simp add: sdp_pattern_add_uuid_def)
    with ok w pats.insert_sorted [OF ok(1) w ok(2) new] show ?thesis
      by (auto simp: pattern_ok_def pats.set_insert)
  next
    case (Some a)
    then have rec: "sdp_pattern_add_uuid rec u = rec" by (simp add: sdp_pattern_add_uuid_def)
    from Some w ok pats.find_None_iff [of "pattern rec" ?w]
    obtain b where b: "b \<in> set (pattern rec)" "uval b = uval ?w" by auto
    with ok(1) w have "b = ?w" by (auto simp: uuid128_def intro: uuid_t.equality)
    with b(1) rec assms(1) show ?thesis by auto
  qed
qed

lemma pattern_add_fields [simp]:
  "attrlist (sdp_pattern_add_uuid rec u) = attrlist rec"
  "svclass (sdp_pattern_add_uuid rec u) = svclass rec"
  "handle (sdp_pattern_add_uuid rec u) = handle rec"
  by (simp_all add: sdp_pattern_add_uuid_def Let_def split: option.split)

lemma pattern_adds_fields [simp]:
  "attrlist (foldl sdp_pattern_add_uuid rec us) = attrlist rec"
  "svclass (foldl sdp_pattern_add_uuid rec us) = svclass rec"
  "handle (foldl sdp_pattern_add_uuid rec us) = handle rec"
  by (induction us arbitrary: rec) auto

lemma pattern_adds:
  assumes "pattern_ok (pattern rec)" "\<forall>u \<in> set us. valid_uuid u"
  shows "pattern_ok (pattern (foldl sdp_pattern_add_uuid rec us)) \<and>
         set (pattern (foldl sdp_pattern_add_uuid rec us)) =
           set (pattern rec) \<union> sdp_uuid_to_uuid128 ` set us"
  using assms
proof (induction us arbitrary: rec)
  case Nil
  then show ?case by simp
next
  case (Cons u us)
  from Cons.prems pattern_add [of rec u] Cons.IH [of "sdp_pattern_add_uuid rec u"] show ?case
    by auto
qed

end
