(* ===== verification/SdpSafe.thy ===== *)
theory SdpSafe
  imports SdpDec SdpRec
begin

text \<open>
  What the decoder does on any packet: it reads nothing outside the \<open>bufsize\<close> bytes it is
  given, consumes at most these, yields well-typed elements and keeps the record's invariants;
  and it returns unless the bytes stop inside the header of a sequence.
\<close>

fun uuids_data :: "sdp_data \<Rightarrow> uuid_t list" and uuids_val :: "sdp_val \<Rightarrow> uuid_t list" where
  "uuids_data (Sdp_data t a n v) = uuids_val v"
| "uuids_val (Vuuid u) = [u]"
| "uuids_val (Vseq ds) = concat (map uuids_data ds)"
| "uuids_val _ = []"

lemma uuids_set_attrId [simp]: "uuids_data (set_attrId a d) = uuids_data d"
  by (cases d) simp

lemma wf_uuids_valid:
  "wf_data d \<Longrightarrow> \<forall>u \<in> set (uuids_data d). valid_uuid u"
  "wf_val t n v \<Longrightarrow> \<forall>u \<in> set (uuids_val v). valid_uuid u"
  by (induction d and t n v rule: wf_data_wf_val.induct) (auto simp: valid_uuid_def)

section \<open>One element\<close>

text \<open>
  \<open>decodes b r rec\<close>: the outcome \<open>r\<close> of a call on at most \<open>b\<close> bytes, from the record \<open>rec\<close>,
  is defined; what it consumed is within the bytes, the element is well-typed, and the record
  has gained the UUIDs of the element.
\<close>

definition decodes :: "int \<Rightarrow> sdp_record \<Rightarrow> (sdp_data ptr \<times> int \<times> sdp_record) \<Rightarrow> bool" where
  "decodes b rec r = (case r of (elem, n, rec') \<Rightarrow>
     0 \<le> n \<and> n \<le> b \<and>
     (case elem of NULL \<Rightarrow> rec' = rec
      | Ptr d \<Rightarrow> wf_data d \<and> rec' = foldl sdp_pattern_add_uuid rec (uuids_data d)))"

definition decodes_run :: "int \<Rightarrow> sdp_record \<Rightarrow> (sdp_data ptr \<times> int \<times> sdp_record) run option \<Rightarrow> bool" where
  "decodes_run b rec m \<longleftrightarrow> m = Some NoFuel \<or> (\<exists>r. m = Some (Ret r) \<and> decodes b rec r)"

lemma decodesI:
  "0 \<le> n \<Longrightarrow> n \<le> b \<Longrightarrow> wf_data d \<Longrightarrow> rec' = foldl sdp_pattern_add_uuid rec (uuids_data d) \<Longrightarrow>
     decodes b rec (Ptr d, n, rec')"
  "0 \<le> n \<Longrightarrow> n \<le> b \<Longrightarrow> decodes b rec (NULL, n, rec)"
  by (simp_all add: decodes_def)

lemma decodes_runE:
  assumes "decodes_run b rec m"
  obtains (nofuel) "m = Some NoFuel"
    | (null) n where "m = Some (Ret (NULL, n, rec))" "0 \<le> n" "n \<le> b"
    | (elem) d n where "m = Some (Ret (Ptr d, n, foldl sdp_pattern_add_uuid rec (uuids_data d)))"
        "0 \<le> n" "n \<le> b" "wf_data d"
  using assms unfolding decodes_run_def
proof (elim disjE exE conjE)
  assume "m = Some NoFuel"
  then show thesis by (rule nofuel)
next
  fix r assume m: "m = Some (Ret r)" and r: "decodes b rec r"
  obtain e n rec' where "r = (e, n, rec')" by (cases r)
  with m r null elem show thesis by (cases e) (auto simp: decodes_def)
qed

lemma get_be_Some:
  "2 \<le> length p \<Longrightarrow> get_be16 p 0 = Some (of_le (rev (take 2 p)))"
  "4 \<le> length p \<Longrightarrow> get_be32 p 0 = Some (of_le (rev (take 4 p)))"
  "8 \<le> length p \<Longrightarrow> get_be64 p 0 = Some (of_le (rev (take 8 p)))"
  "16 \<le> length p \<Longrightarrow> bswap_128 p 0 = Some (rev (take 16 p))"
  by (simp_all add: get_be16_def get_be32_def get_be64_def bswap_128_def rd_def)

lemma int_val_safe:
  assumes "int_val t p = Some (w, v)"
  shows "1 \<le> w \<and> w \<le> 16 \<and>
     (w \<le> int (length p) \<longrightarrow> (\<exists>x. v = Some x \<and> wf_val t 0 x \<and> uuids_val x = []))"
  using assms by (auto simp: int_val_def get_be_Some rd8_def split: if_splits)

lemma extract_int_safe:
  assumes "1 \<le> b" "b \<le> int (length p)"
  shows "\<exists>e n. extract_int p b 0 = Some (e, n) \<and> decodes b rec (e, n, rec)"
proof -
  from assms obtain t q where p: "p = t # q" by (cases p) auto
  show ?thesis
  proof (cases "t = SDP_DATA_NIL")
    case True
    with assms p show ?thesis by (simp add: extract_int_def mem_simps decodes_def)
  next
    case nil: False
    show ?thesis
    proof (cases "int_val t q")
      case None
      with assms p nil show ?thesis by (simp add: extract_int_def mem_simps decodes_def)
    next
      case (Some a)
      obtain w v where wv: "int_val t q = Some (w, v)" using Some by (cases a) auto
      have len: "int (length q) = int (length p) - 1" using p by simp
      show ?thesis
      proof (cases "b - 1 < w")
        case True
        with assms p nil wv show ?thesis by (simp add: extract_int_def mem_simps decodes_def)
      next
        case False
        with assms(2) len have "w \<le> int (length q)" by linarith
        with int_val_safe [OF wv] obtain x where "v = Some x" "wf_val t 0 x" "uuids_val x = []" "1 \<le> w"
          by auto
        with assms p nil wv False show ?thesis
          by (simp add: extract_int_def mem_simps decodes_def)
      qed
    qed
  qed
qed

lemma extract_str_safe:
  assumes "1 \<le> b" "b \<le> int (length p)"
  shows "\<exists>e n. extract_str p b 0 = Some (e, n) \<and> decodes b rec (e, n, rec)"
proof -
  from assms obtain t q where p: "p = t # q" by (cases p) auto
  show ?thesis
  proof (cases "str_size t q")
    case None
    with assms p show ?thesis by (simp add: extract_str_def mem_simps decodes_def)
  next
    case (Some a)
    obtain w v where wv: "str_size t q = Some (w, v)" using Some by (cases a) auto
    then have t: "SDP_IS_TEXT_STR t \<or> is_url_str t" and w: "w = 1 \<or> w = 2"
      by (auto simp: str_size_def dtd_groups split: if_splits)
    show ?thesis
    proof (cases "b - 1 < w")
      case True
      with assms p wv show ?thesis by (simp add: extract_str_def mem_simps decodes_def)
    next
      case False
      with assms p wv w obtain n where v: "v = Some n" "0 \<le> n"
        by (auto simp: str_size_def get_be_Some rd8_def split: if_splits)
      show ?thesis
      proof (cases "b - 1 - w < n")
        case True
        with assms p wv w v False show ?thesis
          by (auto simp: extract_str_def mem_simps decodes_def)
      next
        case fits: False
        have "nat w + nat n \<le> length q" using False fits assms(2) p w v by auto
        then have "rd q (nat w) (nat n) = Some (take (nat n) (drop (nat w) q))" by (simp add: rd_def)
        moreover have "length (take (nat n) (drop (nat w) q)) = nat n"
          using \<open>nat w + nat n \<le> length q\<close> by simp
        ultimately show ?thesis
          using assms p wv w v False fits t
          by (auto simp: extract_str_def mem_simps decodes_def)
      qed
    qed
  qed
qed

lemma extract_uuid_safe:
  assumes "1 \<le> b" "b \<le> int (length p)"
  shows "\<exists>r. extract_uuid p b 0 rec = Some r \<and> decodes b rec r"
proof -
  from assms obtain t q where p: "p = t # q" by (cases p) auto
  have "b - 1 \<le> int (length q)" using assms p by simp
  then have "2 \<le> b - 1 \<Longrightarrow> 2 \<le> length q" "4 \<le> b - 1 \<Longrightarrow> 4 \<le> length q" "16 \<le> b - 1 \<Longrightarrow> 16 \<le> length q"
    by linarith+
  then show ?thesis
    using assms(1) p
    by (auto simp: extract_uuid_def sdp_uuid_extract_def mem_simps decodes_def get_be_Some rd_take
        sdp_uuid128_create_def sdp_uuid16_create_def sdp_uuid32_create_def SDP_IS_UUID_def not_less)
qed

lemma extract_leaf_safe:
  assumes "1 \<le> b" "b \<le> int (length p)"
  shows "\<exists>r. extract_leaf t p b rec = Some r \<and> decodes b rec r"
  using extract_int_safe [OF assms, of rec] extract_str_safe [OF assms, of rec]
    extract_uuid_safe [OF assms, of rec] assms
  by (auto simp: extract_leaf_def decodes_def)

lemma seqtype_safe:
  assumes "b \<le> int (length p)"
  obtains (bad) t where "sdp_extract_seqtype p b = Some (0, t, None)"
  | (ok) w t n where "sdp_extract_seqtype p b = Some (1 + w, Some t, Some n)"
      "1 \<le> w" "w \<le> 4" "1 + w \<le> b" "SDP_IS_SEQ t \<or> SDP_IS_ALT t" "p \<noteq> []" "t = hd p"
proof (cases "b < 1")
  case True
  then show ?thesis using bad by (simp add: sdp_extract_seqtype_def)
next
  case False
  with assms obtain t q where p: "p = t # q" by (cases p) auto
  show ?thesis
  proof (cases "seq_size t q")
    case None
    with False p bad show ?thesis by (simp add: sdp_extract_seqtype_def mem_simps)
  next
    case (Some a)
    obtain w v where wv: "seq_size t q = Some (w, v)" using Some by (cases a) auto
    then have t: "SDP_IS_SEQ t \<or> SDP_IS_ALT t" and w: "1 \<le> w" "w \<le> 4"
      by (auto simp: seq_size_def dtd_groups split: if_splits)
    show ?thesis
    proof (cases "b - 1 < w")
      case True
      with False p wv bad show ?thesis by (simp add: sdp_extract_seqtype_def mem_simps)
    next
      case fits: False
      with assms p have "w \<le> int (length q)" by simp
      with wv obtain n where "v = Some n"
        by (auto simp: seq_size_def get_be_Some rd8_def split: if_splits)
      with False p wv fits show ?thesis
        by (intro ok [OF _ w _ t]) (auto simp: sdp_extract_seqtype_def mem_simps)
    qed
  qed
qed

lemma adv_ok: "0 \<le> n \<Longrightarrow> n \<le> int (length p) \<Longrightarrow> adv p n = Some (drop (nat n) p)"
  by (simp add: adv_def)

lemma seq_loop_safe:
  assumes attr: "\<And>p b rec. 0 \<le> b \<Longrightarrow> b \<le> int (length p) \<Longrightarrow> decodes_run b rec (attr p b rec)"
    and "0 \<le> b" "b \<le> int (length p)"
  shows "extract_seq_loop f attr p b n s ds rec = Some NoFuel \<or>
    (\<exists>es m. extract_seq_loop f attr p b n s ds rec =
        Some (Ret (ds @ es, n + m, foldl sdp_pattern_add_uuid rec (concat (map uuids_data es)))) \<and>
      0 \<le> m \<and> m \<le> b \<and> (\<forall>d \<in> set es. wf_data d))"
  using assms(2,3)
proof (induction f arbitrary: p b n ds rec)
  case 0
  then show ?case by simp
next
  case (Suc f)
  show ?case
  proof (cases "n < s")
    case False
    then show ?thesis using Suc.prems by simp
  next
    case True
    from attr [OF Suc.prems, of rec] show ?thesis
    proof (cases rule: decodes_runE)
      case nofuel
      with True show ?thesis by simp
    next
      case (null k)
      with True Suc.prems show ?thesis by simp
    next
      case (elem d k)
      let ?rec = "foldl sdp_pattern_add_uuid rec (uuids_data d)"
      have "0 \<le> b - k" "b - k \<le> int (length (drop (nat k) p))" using elem Suc.prems by auto
      from Suc.IH [OF this, of "n + k" "ds @ [d]" ?rec] show ?thesis
      proof (elim disjE exE conjE, goal_cases)
        case 1
        with True elem Suc.prems show ?thesis by (simp add: adv_ok)
      next
        case (2 es m)
        with True elem Suc.prems show ?thesis
          by (intro disjI2 exI [of _ "d # es"] exI [of _ "k + m"]) (auto simp: adv_ok add.assoc)
      qed
    qed
  qed
qed

lemma extract_seq_safe:
  assumes attr: "\<And>p b rec. 0 \<le> b \<Longrightarrow> b \<le> int (length p) \<Longrightarrow> decodes_run b rec (attr p b rec)"
    and "0 \<le> b" "b \<le> int (length p)" "p \<noteq> [] \<Longrightarrow> SDP_IS_SEQ (hd p) \<or> SDP_IS_ALT (hd p)"
    and "1 \<le> b"
  shows "decodes_run b rec (extract_seq f attr p b rec)"
  using assms(3)
proof (cases rule: seqtype_safe)
  case (bad t)
  from assms obtain c q where p: "p = c # q" by (cases p) auto
  have "t = Some c" using bad assms p
    by (auto simp: sdp_extract_seqtype_def mem_simps option_bind_Some_iff Let_def
        split: if_splits option.splits)
  with bad assms p show ?thesis by (simp add: extract_seq_def decodes_run_def decodes_def)
next
  case (ok w t n)
  have b': "0 \<le> b - (1 + w)" "b - (1 + w) \<le> int (length (drop (nat (1 + w)) p))"
    using ok assms by auto
  have adv: "adv p (1 + w) = Some (drop (nat (1 + w)) p)"
    using ok assms by (simp add: adv_ok)
  from seq_loop_safe [of attr, OF attr b', of f 0 n "[]" rec] show ?thesis
    using ok adv by (auto simp: extract_seq_def decodes_run_def decodes_def)
qed

lemma sdp_extract_attr_safe:
  "0 \<le> b \<Longrightarrow> b \<le> int (length p) \<Longrightarrow> decodes_run b rec (sdp_extract_attr f p b 0 rec)"
proof (induction f arbitrary: p b rec)
  case 0
  then show ?case by (simp add: decodes_run_def)
next
  case (Suc f)
  show ?case
  proof (cases "b < 1")
    case True
    with Suc.prems show ?thesis by (simp add: decodes_run_def decodes_def)
  next
    case False
    with Suc.prems obtain t q where p: "p = t # q" by (cases p) auto
    show ?thesis
    proof (cases "SDP_IS_SEQ t \<or> SDP_IS_ALT t")
      case True
      have "decodes_run b rec
          (extract_seq f (\<lambda>p b rec. sdp_extract_attr f p b 0 rec) p b rec)"
        by (rule extract_seq_safe) (use Suc p True False in auto)
      then show ?thesis
        by (cases rule: decodes_runE)
          (use p True False in \<open>auto simp: decodes_run_def decodes_def mem_simps\<close>)
    next
      case leaf: False
      obtain r where "extract_leaf t p b rec = Some r" "decodes b rec r"
        using extract_leaf_safe [of b p t rec] False Suc.prems by auto
      with p leaf False show ?thesis
        by (cases r) (auto simp: decodes_run_def mem_simps)
    qed
  qed
qed

section \<open>Return\<close>

text \<open>\<open>uncut p b\<close>: no sequence header that starts within the \<open>b\<close> bytes runs past them.\<close>

definition header_width :: "u8 \<Rightarrow> int" where
  "header_width t = (if t = SDP_SEQ8 \<or> t = SDP_ALT8 then 1
     else if t = SDP_SEQ16 \<or> t = SDP_ALT16 then 2
     else if t = SDP_SEQ32 \<or> t = SDP_ALT32 then 4 else 0)"

definition uncut :: "buf \<Rightarrow> int \<Rightarrow> bool" where
  "uncut p b \<longleftrightarrow> (\<forall>i < nat b. header_width (p ! i) < b - int i)"

lemma uncut_drop:
  assumes "uncut p b" "0 \<le> k" "k \<le> b" "b \<le> int (length p)"
  shows "uncut (drop (nat k) p) (b - k)"
  unfolding uncut_def
proof (intro allI impI)
  fix i assume "i < nat (b - k)"
  with assms have "nat k + i < nat b" "nat k + i < length p" by linarith+
  with assms show "header_width (drop (nat k) p ! i) < b - k - int i"
    by (auto simp: uncut_def)
qed

lemma uncut_head: "uncut (t # q) b \<Longrightarrow> 1 \<le> b \<Longrightarrow> header_width t < b"
  by (auto simp: uncut_def dest!: spec [of _ 0])

lemma seqtype_uncut:
  assumes "uncut (t # q) b" "1 \<le> b" "SDP_IS_SEQ t \<or> SDP_IS_ALT t"
  shows "sdp_extract_seqtype (t # q) b \<noteq> Some (0, u, None)"
  using uncut_head [OF assms(1,2)] assms(2,3)
  by (auto simp: sdp_extract_seqtype_def mem_simps header_width_def seq_size_def dtd_groups
      option_bind_Some_iff split: if_splits)

lemma extract_leaf_progress:
  assumes "extract_leaf t p b rec = Some (Ptr d, n, rec')" "1 \<le> b" "b \<le> int (length p)"
  shows "1 \<le> n"
  using assms
  by (auto simp: extract_leaf_def extract_int_def extract_uuid_def sdp_uuid_extract_def extract_str_def
      option_bind_Some_iff Let_def str_size_def dest!: int_val_safe split: if_splits option.splits)

definition returns :: "(sdp_data ptr \<times> int \<times> sdp_record) run option \<Rightarrow> bool" where
  "returns m \<longleftrightarrow> (\<exists>e n rec. m = Some (Ret (e, n, rec)) \<and> (e \<noteq> NULL \<longrightarrow> 1 \<le> n))"

lemma seq_loop_returns:
  assumes attr: "\<And>p b rec. 0 \<le> b \<Longrightarrow> b \<le> int (length p) \<Longrightarrow> decodes_run b rec (attr p b rec)"
    and ret: "\<And>p b rec. 0 \<le> b \<Longrightarrow> b \<le> int (length p) \<Longrightarrow> b < B \<Longrightarrow> uncut p b \<Longrightarrow> returns (attr p b rec)"
    and "0 \<le> b" "b \<le> int (length p)" "b < int f" "b < B" "uncut p b"
  shows "extract_seq_loop f attr p b n s ds rec \<noteq> Some NoFuel"
  using assms(3-)
proof (induction f arbitrary: p b n ds rec)
  case 0
  then show ?case by simp
next
  case (Suc f)
  from attr [OF Suc.prems(1,2), of rec] ret [OF Suc.prems(1,2,4,5), of rec]
  obtain e k rec' where m: "attr p b rec = Some (Ret (e, k, rec'))" "e \<noteq> NULL \<Longrightarrow> 1 \<le> k" "0 \<le> k" "k \<le> b"
    by (auto simp: returns_def decodes_run_def decodes_def)
  show ?case
  proof (cases e)
    case NULL
    with m show ?thesis by simp
  next
    case (Ptr d)
    have "extract_seq_loop f attr (drop (nat k) p) (b - k) (n + k) s (ds @ [d]) rec' \<noteq> Some NoFuel"
      by (rule Suc.IH) (use Suc.prems m Ptr uncut_drop [of p b k] in auto)
    with m Ptr Suc.prems show ?thesis by (simp add: adv_ok)
  qed
qed

lemma sdp_extract_attr_returns:
  "0 \<le> b \<Longrightarrow> b \<le> int (length p) \<Longrightarrow> uncut p b \<Longrightarrow> b < int f \<Longrightarrow>
     returns (sdp_extract_attr f p b 0 rec)"
proof (induction f arbitrary: p b rec)
  case 0
  then show ?case by simp
next
  case (Suc f)
  show ?case
  proof (cases "b < 1")
    case True
    then show ?thesis by (simp add: returns_def)
  next
    case False
    with Suc.prems obtain t q where p: "p = t # q" by (cases p) auto
    show ?thesis
    proof (cases "SDP_IS_SEQ t \<or> SDP_IS_ALT t")
      case leaf: False
      obtain e n rec' where r: "extract_leaf t p b rec = Some (e, n, rec')"
        using extract_leaf_safe [of b p t rec] False Suc.prems by auto
      with p leaf False extract_leaf_progress [of t p b rec _ n rec'] Suc.prems show ?thesis
        by (cases e) (auto simp: returns_def mem_simps)
    next
      case seq: True
      let ?attr = "\<lambda>p b rec. sdp_extract_attr f p b 0 rec"
      from Suc.prems(2) have "\<exists>e n rec'. extract_seq f ?attr p b rec = Some (Ret (e, n, rec')) \<and> 1 \<le> n"
      proof (cases rule: seqtype_safe)
        case (bad u)
        with seqtype_uncut [of t q b u] Suc.prems False seq p show ?thesis by simp
      next
        case (ok w u s)
        let ?p = "drop (nat (1 + w)) p" and ?b = "b - (1 + w)"
        have b': "0 \<le> ?b" "?b \<le> int (length ?p)" "uncut ?p ?b" "?b < int f"
          using ok Suc.prems uncut_drop [of p b "1 + w"] by auto
        have dec: "\<And>p b rec. 0 \<le> b \<Longrightarrow> b \<le> int (length p) \<Longrightarrow> decodes_run b rec (?attr p b rec)"
          by (rule sdp_extract_attr_safe)
        have "extract_seq_loop f ?attr ?p ?b 0 s [] rec \<noteq> Some NoFuel"
          by (rule seq_loop_returns [of ?attr, where B = "int f", OF dec]) (use Suc.IH b' in auto)
        with seq_loop_safe [of ?attr, OF dec b'(1,2), of f 0 s "[]" rec] ok Suc.prems
        show ?thesis by (auto simp: extract_seq_def adv_ok)
      qed
      with seq p False show ?thesis by (auto simp: returns_def mem_simps)
    qed
  qed
qed

section \<open>More fuel\<close>

text \<open>A run that ended does the same with a larger bound.\<close>

definition extends :: "'a run option \<Rightarrow> 'a run option \<Rightarrow> bool" where
  "extends m m' \<longleftrightarrow> m = Some NoFuel \<or> m' = m"

lemma extends_refl [simp]: "extends m m"
  by (simp add: extends_def)

lemma extends_NoFuel [simp]: "extends (Some NoFuel) m"
  by (simp add: extends_def)

lemma extends_run_bind:
  "extends m m' \<Longrightarrow> (\<And>a. extends (f a) (g a)) \<Longrightarrow> extends (run_bind m f) (run_bind m' g)"
  by (cases m) (auto simp: extends_def split: run.split, metis)

lemma extends_bind:
  "(\<And>a. extends (f a) (g a)) \<Longrightarrow> extends (Option.bind m f) (Option.bind m g)"
  by (cases m) auto

lemma seq_loop_extends:
  assumes "\<And>p b rec. extends (attr p b rec) (attr' p b rec)" "f \<le> f'"
  shows "extends (extract_seq_loop f attr p b n s ds rec) (extract_seq_loop f' attr' p b n s ds rec)"
  using assms(2)
proof (induction f arbitrary: f' p b n ds rec)
  case 0
  then show ?case by simp
next
  case (Suc f)
  then obtain g where g: "f' = Suc g" "f \<le> g" by (cases f') auto
  show ?case unfolding g(1) extract_seq_loop.simps
    using g(2) by (auto intro!: extends_run_bind extends_bind assms Suc.IH split: prod.split ptr.split)
qed

lemma sdp_extract_attr_extends:
  "f \<le> f' \<Longrightarrow> extends (sdp_extract_attr f p b sz rec) (sdp_extract_attr f' p b sz rec)"
proof (induction f arbitrary: f' p b sz rec)
  case 0
  then show ?case by simp
next
  case (Suc f)
  then obtain g where g: "f' = Suc g" "f \<le> g" by (cases f') auto
  show ?case unfolding g(1) sdp_extract_attr.simps extract_seq_def Let_def
    using g(2)
    by (auto intro!: extends_run_bind extends_bind seq_loop_extends Suc.IH split: prod.split)
qed

end
