(* ===== verification/SdpGrammar.thy ===== *)
theory SdpGrammar
  imports SdpSafe
begin

text \<open>
  The byte format of data elements as a function, and the decoder on it: decoding an encoded
  element gives the element back.
\<close>

section \<open>The format\<close>

definition len_field :: "u8 \<Rightarrow> nat \<Rightarrow> buf" where
  "len_field t n =
     (if t = SDP_SEQ8 \<or> t = SDP_ALT8 \<or> t = SDP_TEXT_STR8 \<or> t = SDP_URL_STR8 then [of_nat n]
      else if t = SDP_SEQ16 \<or> t = SDP_ALT16 \<or> t = SDP_TEXT_STR16 \<or> t = SDP_URL_STR16
      then rev (le_of 2 (of_nat n :: u16))
      else if t = SDP_SEQ32 \<or> t = SDP_ALT32 \<or> t = SDP_TEXT_STR32 \<or> t = SDP_URL_STR32
      then rev (le_of 4 (of_nat n :: u32))
      else [])"

definition promoted :: "u8 \<Rightarrow> nat \<Rightarrow> u8" where
  "promoted t n = (if t = SDP_SEQ8 \<and> 255 < n then SDP_SEQ16 else t)"

fun enc :: "sdp_data \<Rightarrow> buf" and enc_val :: "u8 \<Rightarrow> int \<Rightarrow> sdp_val \<Rightarrow> buf" where
  "enc (Sdp_data t a n v) =
     (let c = enc_val t n v; t = promoted t (length c) in t # len_field t (length c) @ c)"
| "enc_val t n Zeroed = []"
| "enc_val t n (V8 w) = [w]"
| "enc_val t n (V16 w) = rev (le_of 2 w)"
| "enc_val t n (V32 w) = rev (le_of 4 w)"
| "enc_val t n (V64 w) = rev (le_of 8 w)"
| "enc_val t n (V128 bs) = rev bs"
| "enc_val t n (Vuuid u) =
     (if t = SDP_UUID16 then rev (le_of 2 (uuid16 u))
      else if t = SDP_UUID32 then rev (le_of 4 (uuid32 u)) else uval u)"
| "enc_val t n (Vstr s) = take (nat (n - 1)) s"
| "enc_val t n (Vseq ds) = concat (map enc ds)"

text \<open>
  \<open>length_ok t n\<close>: a content of \<open>n\<close> bytes fits the length field the encoder chooses for \<open>t\<close>.
  Only a sequence is given a wider field; strings with a 32-bit length are not supported by the
  library.
\<close>

definition length_ok :: "u8 \<Rightarrow> nat \<Rightarrow> bool" where
  "length_ok t n \<longleftrightarrow>
     (if t = SDP_ALT8 \<or> t = SDP_TEXT_STR8 \<or> t = SDP_URL_STR8 then n \<le> 255
      else if t = SDP_SEQ8 \<or> t = SDP_SEQ16 \<or> t = SDP_ALT16 \<or> t = SDP_TEXT_STR16 \<or> t = SDP_URL_STR16
      then n \<le> 65535
      else t \<noteq> SDP_TEXT_STR32 \<and> t \<noteq> SDP_URL_STR32 \<and> n < 2 ^ 31)"

fun encodable :: "sdp_data \<Rightarrow> bool" and encodable_val :: "sdp_val \<Rightarrow> bool" where
  "encodable (Sdp_data t a n v) \<longleftrightarrow>
     wf_val t n v \<and> length_ok t (length (enc_val t n v)) \<and> encodable_val v"
| "encodable_val (Vseq ds) \<longleftrightarrow> (\<forall>d \<in> set ds. encodable d)"
| "encodable_val _ \<longleftrightarrow> True"

lemma encodable_wf: "encodable d \<Longrightarrow> wf_data d"
  by (cases d) simp

text \<open>
  The element the decoder makes of the bytes: attribute identifiers and the sizes of anything
  but a string are not in them, and a string gets a terminating NUL.
\<close>

definition canon_uuid :: "u8 \<Rightarrow> uuid_t \<Rightarrow> uuid_t" where
  "canon_uuid t u =
     (if t = SDP_UUID16 then sdp_uuid16_create (uuid16 u)
      else if t = SDP_UUID32 then sdp_uuid32_create (uuid32 u) else u)"

fun decoded :: "sdp_data \<Rightarrow> sdp_data" and decoded_val :: "u8 \<Rightarrow> int \<Rightarrow> sdp_val \<Rightarrow> sdp_val" where
  "decoded (Sdp_data t a n v) =
     Sdp_data (promoted t (length (enc_val t n v))) 0 (case v of Vstr s \<Rightarrow> n | _ \<Rightarrow> 0) (decoded_val t n v)"
| "decoded_val t n (Vuuid u) = Vuuid (canon_uuid t u)"
| "decoded_val t n (Vstr s) = Vstr (take (nat (n - 1)) s @ [0])"
| "decoded_val t n (Vseq ds) = Vseq (map decoded ds)"
| "decoded_val t n v = v"

lemma enc_Cons: "\<exists>c. enc d = promoted (dtd d) (length (enc_val (dtd d) (unitSize d) (val d))) # c"
  by (cases d) (simp add: Let_def)

lemma length_enc_pos: "0 < length (enc d)"
  using enc_Cons [of d] by auto

section \<open>Reading it back\<close>

lemma take_le_of [simp]: "take n (rev (le_of n w) @ q) = rev (le_of n w)"
  by simp

lemma get_be_enc [simp]:
  "get_be16 (rev (le_of 2 (w :: u16)) @ q) 0 = Some w"
  "get_be32 (rev (le_of 4 (x :: u32)) @ q) 0 = Some x"
  "get_be64 (rev (le_of 8 (y :: u64)) @ q) 0 = Some y"
  "length bs = 16 \<Longrightarrow> bswap_128 (rev bs @ q) 0 = Some bs"
  "length bs = 16 \<Longrightarrow> rd (bs @ q) 0 16 = Some bs"
  by (simp_all add: get_be16_def get_be32_def get_be64_def bswap_128_def rd_def)

lemmas leaf_simps = extract_leaf_def extract_int_def int_val_def extract_uuid_def sdp_uuid_extract_def
  extract_str_def str_size_def len_field_def promoted_def length_ok_def dtd_groups mem_simps Let_def
  canon_uuid_def sdp_uuid128_create_def

lemma str_roundtrip:
  assumes "nat (n - 1) \<le> length s" "1 \<le> n" "length_ok t (nat (n - 1))" "SDP_IS_TEXT_STR t \<or> is_url_str t"
    and "int (length (enc (Sdp_data t a n (Vstr s)))) \<le> b"
  shows "extract_leaf t (enc (Sdp_data t a n (Vstr s)) @ q) b rec =
     Some (Ptr (decoded (Sdp_data t a n (Vstr s))), int (length (enc (Sdp_data t a n (Vstr s)))), rec)"
proof -
  let ?c = "take (nat (n - 1)) s"
  have len: "length ?c = nat (n - 1)" and n: "int (nat (n - 1)) = n - 1" using assms by auto
  have b: "\<not> b < 2" "t = SDP_TEXT_STR16 \<or> t = SDP_URL_STR16 \<Longrightarrow> \<not> b < 3" using assms(2,5) enc_Cons [of "Sdp_data t a n (Vstr s)"] assms(3,4)
    by (auto simp: Let_def len_field_def promoted_def dtd_groups length_ok_def split: if_splits)
  have rds: "rd (x # ?c @ q) 1 (nat (n - 1)) = Some ?c" "rd (x # y # ?c @ q) 2 (nat (n - 1)) = Some ?c" for x y
    using len by (simp_all add: mem_simps)
  consider "t = SDP_TEXT_STR8 \<or> t = SDP_URL_STR8" | "t = SDP_TEXT_STR16 \<or> t = SDP_URL_STR16"
    using assms(3,4) by (auto simp: dtd_groups length_ok_def)
  then show ?thesis
  proof cases
    case 1
    then have l: "nat (n - 1) \<le> 255" using assms(3) by (auto simp: length_ok_def)
    then have "uint (of_nat (nat (n - 1)) :: u8) = n - 1" using n by (simp add: uint_nat unat_of_nat)
    with 1 l assms n len rds b show ?thesis
      by (elim disjE) (simp_all add: leaf_simps)
  next
    case 2
    then have l: "nat (n - 1) \<le> 65535" using assms(3) by (auto simp: length_ok_def)
    then have "uint (of_nat (nat (n - 1)) :: u16) = n - 1" using n by (simp add: uint_nat unat_of_nat)
    with 2 l assms n len rds b(2) show ?thesis
      by (elim disjE) (simp_all add: leaf_simps)
  qed
qed

lemma scalar_roundtrip:
  assumes "wf_val t n v" "v = Zeroed \<or> (\<exists>w. v = V8 w) \<or> (\<exists>w. v = V16 w) \<or> (\<exists>w. v = V32 w) \<or> (\<exists>w. v = V64 w) \<or> (\<exists>w. v = V128 w)"
    and "int (length (enc (Sdp_data t a n v))) \<le> b"
  shows "extract_int (enc (Sdp_data t a n v) @ q) b 0 =
     Some (Ptr (decoded (Sdp_data t a n v)), int (length (enc (Sdp_data t a n v))))"
proof -
  consider "t = SDP_DATA_NIL" "v = Zeroed"
    | w where "t = SDP_UINT8 \<or> t = SDP_INT8 \<or> t = SDP_BOOL" "v = V8 w"
    | w where "t = SDP_UINT16 \<or> t = SDP_INT16" "v = V16 w"
    | w where "t = SDP_UINT32 \<or> t = SDP_INT32" "v = V32 w"
    | w where "t = SDP_UINT64 \<or> t = SDP_INT64" "v = V64 w"
    | w where "t = SDP_UINT128 \<or> t = SDP_INT128" "v = V128 w" "length w = 16"
    using assms(1,2) by (auto simp: is_int8_def is_int16_def is_int32_def is_int64_def is_int128_def)
  then show ?thesis
    using assms(3) by cases (((elim disjE)?; simp add: leaf_simps)+)
qed

lemma uuid_rebuild: "utype u = t \<Longrightarrow> \<lparr>utype = t, uval = uval u\<rparr> = u"
  by (cases u) simp

lemma uuid_roundtrip:
  assumes "wf_val t n (Vuuid u)" "int (length (enc (Sdp_data t a n (Vuuid u)))) \<le> b"
  shows "extract_uuid (enc (Sdp_data t a n (Vuuid u)) @ q) b 0 rec =
     Some (Ptr (decoded (Sdp_data t a n (Vuuid u))), int (length (enc (Sdp_data t a n (Vuuid u)))),
       sdp_pattern_add_uuid rec (canon_uuid t u))"
proof -
  from assms(1) have "t = SDP_UUID16 \<or> t = SDP_UUID32 \<or> t = SDP_UUID128" "utype u = t" "length (uval u) = 16"
    by (auto simp: dtd_groups)
  then show ?thesis
    using assms(2) by (elim disjE) (simp_all add: leaf_simps uuid_rebuild)
qed

lemma leaf_roundtrip:
  assumes "wf_val t n v" "length_ok t (length (enc_val t n v))" "\<nexists>ds. v = Vseq ds"
    and "int (length (enc (Sdp_data t a n v))) \<le> b"
  shows "extract_leaf t (enc (Sdp_data t a n v) @ q) b rec =
     Some (Ptr (decoded (Sdp_data t a n v)), int (length (enc (Sdp_data t a n v))),
       foldl sdp_pattern_add_uuid rec (uuids_data (decoded (Sdp_data t a n v))))"
proof (cases v)
  case (Vstr s)
  with assms(1) have len: "nat (n - 1) \<le> length s" "min (length s) (nat (n - 1)) = nat (n - 1)" by auto
  with Vstr assms str_roundtrip [of n s t a b q rec] show ?thesis by simp
next
  case (Vuuid u)
  with assms(1) have "extract_leaf t p b rec = extract_uuid p b 0 rec" for p
    by (auto simp: extract_leaf_def dtd_groups)
  with Vuuid assms uuid_roundtrip [of t n u a b q rec] show ?thesis by simp
next
  case (Vseq ds)
  with assms(3) show ?thesis by blast
qed (use assms(1) scalar_roundtrip [of t n v a b q] assms(4) in \<open>simp_all add: extract_leaf_def\<close>)

section \<open>Sequences\<close>

lemma seqtype_enc:
  assumes "SDP_IS_SEQ t \<or> SDP_IS_ALT t" "length_ok t n" "promoted t n = u"
    and "1 + int (length (len_field u n)) \<le> b"
  shows "sdp_extract_seqtype (u # len_field u n @ q) b =
    Some (1 + int (length (len_field u n)), Some u, Some (int n))"
proof -
  consider "u = SDP_SEQ8 \<or> u = SDP_ALT8" "n \<le> 255" | "u = SDP_SEQ16 \<or> u = SDP_ALT16" "n \<le> 65535"
    | "u = SDP_SEQ32 \<or> u = SDP_ALT32" "n < 2 ^ 31"
    using assms(1-3) by (auto simp: dtd_groups length_ok_def promoted_def split: if_splits)
  then show ?thesis
  proof cases
    case 1
    then have "uint (of_nat n :: u8) = int n" by (simp add: uint_nat unat_of_nat)
    with 1 assms(4) show ?thesis
      by (elim disjE) (simp_all add: sdp_extract_seqtype_def seq_size_def len_field_def mem_simps)
  next
    case 2
    then have "uint (of_nat n :: u16) = int n" by (simp add: uint_nat unat_of_nat)
    with 2 assms(4) show ?thesis
      by (elim disjE) (simp_all add: sdp_extract_seqtype_def seq_size_def len_field_def mem_simps)
  next
    case 3
    then have "sint (of_nat n :: u32) = int n"
      by (simp add: sint_uint uint_nat unat_of_nat signed_take_bit_int_eq_self)
    with 3 assms(4) show ?thesis
      by (elim disjE) (simp_all add: sdp_extract_seqtype_def seq_size_def len_field_def mem_simps)
  qed
qed

definition decodes_to :: "(buf \<Rightarrow> int \<Rightarrow> sdp_record \<Rightarrow> (sdp_data ptr \<times> int \<times> sdp_record) run option) \<Rightarrow> nat \<Rightarrow> sdp_data \<Rightarrow> bool" where
  "decodes_to attr m d \<longleftrightarrow> (length (enc d) \<le> m \<longrightarrow>
     (\<forall>q b rec. int (length (enc d)) \<le> b \<longrightarrow>
        attr (enc d @ q) b rec = Some (Ret (Ptr (decoded d), int (length (enc d)),
          foldl sdp_pattern_add_uuid rec (uuids_data (decoded d))))))"

lemma length_sum_pos: "xs \<noteq> [] \<Longrightarrow> 0 < int (length xs) + int (length ys)"
  by (cases xs) auto

lemma seq_loop_enc:
  assumes "\<forall>d \<in> set es. decodes_to attr m d" "length (concat (map enc es)) \<le> m"
    and "int (length (concat (map enc es))) \<le> b" "length (concat (map enc es)) < f"
  shows "extract_seq_loop f attr (concat (map enc es) @ q) b n (n + int (length (concat (map enc es)))) ds rec =
    Some (Ret (ds @ map decoded es, n + int (length (concat (map enc es))),
      foldl sdp_pattern_add_uuid rec (concat (map (uuids_data \<circ> decoded) es))))"
  using assms
proof (induction es arbitrary: f b n ds rec)
  case Nil
  then show ?case by (cases f) auto
next
  case (Cons e es)
  let ?c = "concat (map enc es)" and ?k = "int (length (enc e))"
  from Cons.prems(4) obtain g where f: "f = Suc g" and g: "length (enc e) + length ?c \<le> g"
    by (cases f) auto
  have k: "0 < ?k" using length_enc_pos by simp
  have "attr (enc e @ ?c @ q) b rec =
      Some (Ret (Ptr (decoded e), ?k, foldl sdp_pattern_add_uuid rec (uuids_data (decoded e))))"
    using Cons.prems by (auto simp: decodes_to_def)
  moreover have "adv (enc e @ ?c @ q) ?k = Some (?c @ q)" by (simp add: adv_def)
  moreover have "length ?c < g" using k g by linarith
  ultimately show ?case
    using Cons.IH [of "b - ?k" g "n + ?k" "ds @ [decoded e]"
        "foldl sdp_pattern_add_uuid rec (uuids_data (decoded e))"] Cons.prems k
    by (simp add: f add.assoc length_sum_pos)
qed

lemma sdp_extract_attr_enc:
  "encodable d \<Longrightarrow> length (enc d) \<le> f \<Longrightarrow> int (length (enc d)) \<le> b \<Longrightarrow>
     sdp_extract_attr f (enc d @ q) b sz rec = Some (Ret (Ptr (decoded d), sz + int (length (enc d)),
       foldl sdp_pattern_add_uuid rec (uuids_data (decoded d))))"
proof (induction f arbitrary: d q b sz rec)
  case 0
  then show ?case using length_enc_pos [of d] by simp
next
  case (Suc f)
  obtain t a n v where d: "d = Sdp_data t a n v" by (cases d)
  obtain p where p: "enc d @ q = promoted t (length (enc_val t n v)) # p"
    using enc_Cons [of d] d by (metis append_Cons sdp_data.sel(1,3,4))
  have b: "\<not> b < 1" using Suc.prems(3) length_enc_pos [of d] by linarith
  show ?case
  proof (cases "\<exists>ds. v = Vseq ds")
    case False
    with Suc.prems(1) d have np: "promoted t (length (enc_val t n v)) = t" "\<not> (SDP_IS_SEQ t \<or> SDP_IS_ALT t)"
      by (cases v; auto simp: promoted_def dtd_groups)+
    have "extract_leaf t (enc d @ q) b rec = Some (Ptr (decoded d), int (length (enc d)),
        foldl sdp_pattern_add_uuid rec (uuids_data (decoded d)))"
      unfolding d using Suc.prems d False by (intro leaf_roundtrip) auto
    with np p b show ?thesis by (simp add: mem_simps del: enc.simps decoded.simps)
  next
    case True
    then obtain ds where v: "v = Vseq ds" by blast
    let ?c = "concat (map enc ds)"
    let ?u = "promoted t (length ?c)"
    let ?attr = "\<lambda>p b rec. sdp_extract_attr f p b 0 rec"
    have t: "SDP_IS_SEQ t \<or> SDP_IS_ALT t" "length_ok t (length ?c)" "\<forall>e \<in> set ds. encodable e"
      using Suc.prems(1) d v by auto
    then have u: "SDP_IS_SEQ ?u \<or> SDP_IS_ALT ?u" by (auto simp: promoted_def dtd_groups)
    have encd: "enc d = ?u # len_field ?u (length ?c) @ ?c" using d v by (simp add: Let_def)
    have w: "1 \<le> length (len_field ?u (length ?c))" using u by (auto simp: len_field_def dtd_groups)
    have m: "length ?c < f" using Suc.prems(2) encd w by simp
    have "decodes_to ?attr (length ?c) e" if "e \<in> set ds" for e
      using Suc.IH [of e] t(3) that m by (auto simp: decodes_to_def)
    then have loop: "extract_seq_loop f ?attr (?c @ q) (b - (1 + int (length (len_field ?u (length ?c))))) 0
        (int (length ?c)) [] rec =
      Some (Ret (map decoded ds, int (length ?c),
        foldl sdp_pattern_add_uuid rec (concat (map (uuids_data \<circ> decoded) ds))))"
      using seq_loop_enc [of ds ?attr "length ?c" "b - (1 + int (length (len_field ?u (length ?c))))" f q 0 "[]" rec]
        Suc.prems(3) encd m by simp
    have st: "sdp_extract_seqtype (enc d @ q) b =
        Some (1 + int (length (len_field ?u (length ?c))), Some ?u, Some (int (length ?c)))"
      using seqtype_enc [OF t(1,2) refl, of b "?c @ q"] Suc.prems(3) encd by simp
    have adv: "adv (enc d @ q) (1 + int (length (len_field ?u (length ?c)))) = Some (?c @ q)"
      using encd by (simp add: adv_def nat_add_distrib)
    have "extract_seq f ?attr (enc d @ q) b rec = Some (Ret (Ptr (decoded d), int (length (enc d)),
        foldl sdp_pattern_add_uuid rec (uuids_data (decoded d))))"
      using Suc.prems(3) st adv loop encd d v by (simp add: extract_seq_def)
    with p u b d v show ?thesis by (simp add: mem_simps del: enc.simps decoded.simps)
  qed
qed

end
