(* ===== verification/SdpWrite.thy ===== *)
theory SdpWrite
  imports SdpGrammar SdpEnc
begin

text \<open>
  The encoder writes the format: \<open>sdp_gen_buffer\<close> counts enough bytes, and \<open>sdp_gen_pdu\<close> fills
  the buffer with the encoding of the element and nothing else.
\<close>

section \<open>The size pass\<close>

text \<open>
  \<open>grow late d\<close> bounds what the size pass adds for \<open>d\<close>; where it stays below \<open>2 ^ 32\<close> the
  counter does not wrap.
\<close>

fun grow :: "bool \<Rightarrow> sdp_data \<Rightarrow> nat" and grow_val :: "bool \<Rightarrow> int \<Rightarrow> sdp_val \<Rightarrow> nat" where
  "grow late (Sdp_data t a n v) = 6 + unat (sdp_get_data_type_size t) + grow_val late n v"
| "grow_val late n (Vseq ds) = (if late then 2 else 1) * sum_list (map (grow late) ds)"
| "grow_val late n (Vstr s) = nat (n - 1)"
| "grow_val late n _ = 16"

lemma type_size_le: "unat (sdp_get_data_type_size t) \<le> 5" "1 \<le> unat (sdp_get_data_type_size t)"
  by (simp_all add: sdp_get_data_type_size_def)

lemma len_field_size:
  "1 + length (len_field t n) = unat (sdp_get_data_type_size t)"
  by (simp add: len_field_def sdp_get_data_type_size_def)

lemma leaf_size:
  assumes "wf_val t n v" "length_ok t (length (enc_val t n v))" "\<nexists>ds. v = Vseq ds"
  shows "unat (leaf_data_size t n) = length (enc_val t n v)" "length (enc_val t n v) \<le> grow_val late n v"
    "\<not> (SDP_IS_SEQ t \<or> SDP_IS_ALT t)"
proof -
  consider "t = SDP_DATA_NIL" "v = Zeroed"
    | w where "t = SDP_UINT8 \<or> t = SDP_INT8 \<or> t = SDP_BOOL" "v = V8 w"
    | w where "t = SDP_UINT16 \<or> t = SDP_INT16" "v = V16 w"
    | w where "t = SDP_UINT32 \<or> t = SDP_INT32" "v = V32 w"
    | w where "t = SDP_UINT64 \<or> t = SDP_INT64" "v = V64 w"
    | w where "t = SDP_UINT128 \<or> t = SDP_INT128" "v = V128 w" "length w = 16"
    | w where "t = SDP_UUID16 \<or> t = SDP_UUID32 \<or> t = SDP_UUID128" "v = Vuuid w" "length (uval w) = 16"
    | s where "SDP_IS_TEXT_STR t \<or> is_url_str t" "v = Vstr s" "1 \<le> n" "n - 1 \<le> int (length s)"
    using assms(1,3)
    by (cases v) (auto simp: is_int8_def is_int16_def is_int32_def is_int64_def is_int128_def SDP_IS_UUID_def)
  then have "unat (leaf_data_size t n) = length (enc_val t n v) \<and>
      length (enc_val t n v) \<le> grow_val late n v \<and> \<not> (SDP_IS_SEQ t \<or> SDP_IS_ALT t)"
  proof cases
    case 8
    then have "length (enc_val t n v) = nat (n - 1)" by auto
    moreover from this assms(2) 8 have "n - 1 \<le> 65535"
      by (auto simp: length_ok_def dtd_groups split: if_splits)
    then have "unat (word_of_int (n - 1) :: u32) = nat (n - 1)"
      using 8 by (simp add: unat_eq_nat_uint uint_word_of_int_eq take_bit_int_eq_self del: of_int_diff)
    then have "unat (word_of_int n - 1 :: u32) = nat (n - 1)" by simp
    ultimately show ?thesis
      using 8 by (auto simp: leaf_data_size_def dtd_groups)
  qed (((elim disjE)?; simp add: leaf_data_size_def dtd_groups)+)
  then show "unat (leaf_data_size t n) = length (enc_val t n v)" "length (enc_val t n v) \<le> grow_val late n v"
    "\<not> (SDP_IS_SEQ t \<or> SDP_IS_ALT t)" by auto
qed

lemma unat_plus: "unat a + unat b < 2 ^ 32 \<Longrightarrow> unat (a + b :: u32) = unat a + unat b"
  by (simp add: unat_word_ariths)

lemma unat_plus_nat: "unat (a :: u32) + n < 2 ^ 32 \<Longrightarrow> unat (a + of_nat n) = unat a + n"
  by (simp add: unat_word_ariths)

text \<open>
  \<open>sizes late b b' m n\<close>: the pass took the counter from \<open>b\<close> to \<open>b'\<close>, that is by at least \<open>m\<close>
  and at most \<open>n\<close>.
\<close>

definition sizes :: "u32 \<Rightarrow> u32 \<Rightarrow> nat \<Rightarrow> nat \<Rightarrow> bool" where
  "sizes b b' m n \<longleftrightarrow> unat b + m \<le> unat b' \<and> unat b' \<le> unat b + n"

definition sized :: "bool \<Rightarrow> sdp_data \<Rightarrow> bool" where
  "sized late d \<longleftrightarrow> (\<forall>b. unat b + grow late d < 2 ^ 32 \<longrightarrow>
     (\<exists>b'. sdp_gen_buffer late b d = Some b' \<and> sizes b b' (3 + length (enc d)) (grow late d)))"

lemma gen_buffer_seq_sized:
  assumes "\<forall>d \<in> set ds. sized late d" "unat b + sum_list (map (grow late) ds) < 2 ^ 32"
  shows "\<exists>b'. gen_buffer_seq late b ds = Some (b', b' - b) \<and>
    sizes b b' (length (concat (map enc ds))) (sum_list (map (grow late) ds))"
  using assms
proof (induction ds arbitrary: b)
  case Nil
  then show ?case by (simp add: sizes_def)
next
  case (Cons d ds)
  from Cons.prems have "sized late d" "unat b + grow late d < 2 ^ 32" by auto
  then obtain b1 where b1: "sdp_gen_buffer late b d = Some b1"
    "sizes b b1 (3 + length (enc d)) (grow late d)"
    unfolding sized_def by blast
  with Cons.prems Cons.IH [of b1] obtain b2 where "gen_buffer_seq late b1 ds = Some (b2, b2 - b1)"
    "sizes b1 b2 (length (concat (map enc ds))) (sum_list (map (grow late) ds))"
    by (auto simp: sizes_def)
  with b1 show ?case by (auto simp: sizes_def)
qed

lemma head_size:
  assumes "unat b + 5 + unat (sdp_get_data_type_size t) < 2 ^ 32"
  shows "let b0 = (if b = 0 \<and> t = 0 then b + 2 else b) + 3 + sdp_get_data_type_size t in
    sizes b b0 (3 + unat (sdp_get_data_type_size t)) (5 + unat (sdp_get_data_type_size t))"
  using assms type_size_le [of t]
  by (auto simp: Let_def sizes_def unat_word_ariths)

lemma size_child: "e \<in> set ds \<Longrightarrow> size e < size (Sdp_data t a n (Vseq ds))"
  by (induction ds) auto

lemma gen_buffer_sized:
  "encodable d \<Longrightarrow> sized late d"
proof (induction "size d" arbitrary: d rule: less_induct)
  case less
  obtain t a n v where d: "d = Sdp_data t a n v" by (cases d)
  show ?case unfolding sized_def
  proof (intro allI impI)
    fix b :: u32 assume small: "unat b + grow late d < 2 ^ 32"
    let ?w = "unat (sdp_get_data_type_size t)"
    define b0 where "b0 = (if b = 0 \<and> t = 0 then b + 2 else b) + 3 + sdp_get_data_type_size t"
    have b0: "sizes b b0 (3 + ?w) (5 + ?w)"
      using head_size [of b t] small d type_size_le [of t] by (auto simp: b0_def Let_def)
    show "\<exists>b'. sdp_gen_buffer late b d = Some b' \<and> sizes b b' (3 + length (enc d)) (grow late d)"
    proof (cases "\<exists>ds. v = Vseq ds")
      case False
      then have lf: "unat (leaf_data_size t n) = length (enc_val t n v)"
        "length (enc_val t n v) \<le> grow_val late n v" "\<not> (SDP_IS_SEQ t \<or> SDP_IS_ALT t)"
        using leaf_size(1,3) [of t n v] leaf_size(2) [of t n v late] less.prems d by auto
      have lenc: "length (enc d) = ?w + length (enc_val t n v)"
        using lf(3) len_field_size [of t "length (enc_val t n v)"] d
        by (auto simp: promoted_def dtd_groups Let_def)
      have "unat (b0 + leaf_data_size t n) = unat b0 + length (enc_val t n v)"
        using lf small d b0 by (subst unat_plus) (auto simp: sizes_def)
      then have "sizes b (b0 + leaf_data_size t n) (3 + length (enc d)) (grow late d)"
        using b0 lf lenc d by (auto simp: sizes_def)
      moreover have "sdp_gen_buffer late b d = Some (b0 + leaf_data_size t n)"
        using lf(3) d by (auto simp: Let_def b0_def dtd_groups)
      ultimately show ?thesis by auto
    next
      case True
      then obtain ds where v: "v = Vseq ds" by blast
      let ?c = "length (concat (map enc ds))" and ?g = "sum_list (map (grow late) ds)"
      have t: "SDP_IS_SEQ t \<or> SDP_IS_ALT t" "\<forall>e \<in> set ds. encodable e"
        using less.prems d v by auto
      have "\<forall>e \<in> set ds. sized late e"
        using less.hyps t(2) d v size_child by blast
      moreover have "unat b0 + ?g < 2 ^ 32" using b0 small d v by (auto simp: sizes_def split: if_splits)
      ultimately obtain b1 where b1: "gen_buffer_seq late b0 ds = Some (b1, b1 - b0)" "sizes b0 b1 ?c ?g"
        using gen_buffer_seq_sized [of ds late b0] by auto
      let ?b = "(if late then b1 else b0) + (b1 - b0)"
      have n: "unat (b1 - b0) = unat b1 - unat b0" using b1(2) by (auto simp: sizes_def unat_sub word_le_nat_alt)
      have b: "sizes b0 ?b ?c (if late then 2 * ?g else ?g)"
        using b1(2) n small d v b0
        by (auto simp: sizes_def unat_word_ariths split: if_splits)
      have eq: "sdp_gen_buffer late b d = Some (if 255 < ?b \<and> t = SDP_SEQ8 then ?b + 1 else ?b)"
        unfolding d v sdp_gen_buffer.simps Let_def b0_def [symmetric]
        using b1(1) t(1) by simp
      have lenc: "length (enc d) = ?w + ?c + (if t = SDP_SEQ8 \<and> 255 < ?c then 1 else 0)"
        using len_field_size [of t ?c] len_field_size [of SDP_SEQ16 ?c] d v
        by (auto simp: promoted_def Let_def sdp_get_data_type_size_def)
      show ?thesis
      proof (cases "255 < ?b \<and> t = SDP_SEQ8")
        case True
        have "unat (?b + 1) = unat ?b + 1"
          using b b0 small d v by (subst unat_plus) (auto simp: sizes_def split: if_splits)
        with True eq b b0 lenc d v show ?thesis
          by (auto simp: sizes_def split: if_splits)
      next
        case False
        have "\<not> (t = SDP_SEQ8 \<and> 255 < ?c)"
        proof
          assume "t = SDP_SEQ8 \<and> 255 < ?c"
          with b have "255 < unat ?b" "t = SDP_SEQ8" by (auto simp: sizes_def)
          with False show False by (simp add: word_less_nat_alt)
        qed
        with False eq b b0 lenc d v show ?thesis
          by (auto simp: sizes_def split: if_splits)
      qed
    qed
  qed
qed

section \<open>The writing pass\<close>

fun settled :: "sdp_data \<Rightarrow> sdp_data" and settled_val :: "sdp_val \<Rightarrow> sdp_val" where
  "settled (Sdp_data t a n v) = Sdp_data (promoted t (length (enc_val t n v))) a n (settled_val v)"
| "settled_val (Vseq ds) = Vseq (map settled ds)"
| "settled_val v = v"

lemma promoted_idem [simp]: "promoted (promoted t n) n = promoted t n"
  by (simp add: promoted_def)

lemma enc_val_promoted [simp]: "enc_val (promoted t k) n v = enc_val t n v"
  by (cases v) (auto simp: promoted_def)

lemma settled_enc [simp]:
  "enc (settled d) = enc d"
  "enc_val t n (settled_val v) = enc_val t n v"
  by (induction d and t n v rule: enc_enc_val.induct) (auto simp: Let_def comp_def cong: map_cong)

lemma settled_encodable [simp]: "encodable d \<Longrightarrow> encodable (settled d)"
proof (induction "size d" arbitrary: d rule: less_induct)
  case less
  obtain t a n v where d: "d = Sdp_data t a n v" by (cases d)
  show ?case
  proof (cases "\<exists>ds. v = Vseq ds")
    case False
    with less.prems d have "promoted t (length (enc_val t n v)) = t" "settled_val v = v"
      by (cases v; auto simp: promoted_def dtd_groups)+
    with less.prems d show ?thesis by simp
  next
    case True
    then obtain ds where v: "v = Vseq ds" by blast
    have "\<forall>e \<in> set ds. encodable (settled e)"
      using less.hyps less.prems d v size_child by (metis encodable.simps encodable_val.simps(1))
    moreover have "length_ok (promoted t (length (enc_val t n v))) (length (enc_val t n v))"
      using less.prems d by (auto simp: length_ok_def promoted_def split: if_splits)
    ultimately show ?thesis
      using less.prems d v encodable_wf by (auto simp: promoted_def dtd_groups comp_def)
  qed
qed

lemma settled_idem [simp]:
  "settled (settled d) = settled d"
  "settled_val (settled_val v) = settled_val v"
  by (induction d and v rule: settled_settled_val.induct) (auto simp: comp_def)

lemma settled_depth [simp]:
  "depth (settled d) = depth d" "depth_val (settled_val v) = depth_val v"
  by (induction d and v rule: settled_settled_val.induct) (auto simp: comp_def cong: map_cong)

lemma depth_child: "e \<in> set ds \<Longrightarrow> depth e \<le> depth_val (Vseq ds)"
  by (induction ds) auto

definition writes :: "(sdp_buf \<Rightarrow> sdp_data \<Rightarrow> (sdp_data \<times> sdp_buf \<times> u32) option) \<Rightarrow> sdp_data \<Rightarrow> bool" where
  "writes gen d \<longleftrightarrow> (\<forall>buf pre rest.
     sdata buf = pre @ rest \<longrightarrow> unat (data_size buf) = length pre \<longrightarrow>
     unat (buf_size buf) = length (pre @ rest) \<longrightarrow> length (enc d) \<le> length rest \<longrightarrow>
     gen buf d = Some (settled d,
       buf\<lparr>sdata := pre @ enc d @ drop (length (enc d)) rest,
           data_size := data_size buf + of_nat (length (enc d))\<rparr>, of_nat (length (enc d))))"

lemma writesD:
  assumes "writes gen d" "sdata buf = pre @ rest" "unat (data_size buf) = length pre"
    "unat (buf_size buf) = length (pre @ rest)" "length (enc d) \<le> length rest"
  shows "gen buf d = Some (settled d,
       buf\<lparr>sdata := pre @ enc d @ drop (length (enc d)) rest,
           data_size := data_size buf + of_nat (length (enc d))\<rparr>, of_nat (length (enc d)))"
  using assms unfolding writes_def by blast

lemma gen_seq_writes:
  assumes "\<forall>d \<in> set ds. writes gen d"
    and "sdata buf = pre @ rest" "unat (data_size buf) = length pre"
    and "unat (buf_size buf) = length (pre @ rest)" "length (concat (map enc ds)) \<le> length rest"
  shows "gen_seq gen ds buf = Some (map settled ds,
       buf\<lparr>sdata := pre @ concat (map enc ds) @ drop (length (concat (map enc ds))) rest,
           data_size := data_size buf + of_nat (length (concat (map enc ds)))\<rparr>,
       of_nat (length (concat (map enc ds))))"
  using assms
proof (induction ds arbitrary: buf pre rest)
  case Nil
  then show ?case by simp
next
  case (Cons d ds)
  let ?k = "length (enc d)"
  let ?buf = "buf\<lparr>sdata := pre @ enc d @ drop ?k rest, data_size := data_size buf + of_nat ?k\<rparr>"
  have k: "?k \<le> length rest" using Cons.prems(5) by simp
  from Cons.prems have g: "gen buf d = Some (settled d, ?buf, of_nat ?k)"
    by (intro writesD k) auto
  have lt: "length pre + ?k < 2 ^ 32"
    using Cons.prems(4) k unat_lt_32 [of "buf_size buf"] by simp
  have "unat (data_size ?buf) = length (pre @ enc d)"
    using Cons.prems(3) lt by (simp add: unat_plus_nat)
  moreover have "unat (buf_size ?buf) = length ((pre @ enc d) @ drop ?k rest)"
    using Cons.prems(4) k by simp
  ultimately have "gen_seq gen ds ?buf = Some (map settled ds,
       ?buf\<lparr>sdata := (pre @ enc d) @ concat (map enc ds) @ drop (length (concat (map enc ds))) (drop ?k rest),
           data_size := data_size ?buf + of_nat (length (concat (map enc ds)))\<rparr>,
       of_nat (length (concat (map enc ds))))"
    using Cons.prems by (intro Cons.IH) auto
  with g show ?case by (simp add: add.commute add.left_commute)
qed

lemma wr8_mid: "wr8 (pre @ x # r) (length pre) v = Some (pre @ v # r)"
  by (simp add: wr8_def list_update_append)

lemma rd8_mid: "rd8 (pre @ x # r) (length pre) = Some x"
  by (simp add: rd8_def nth_append)

lemma wr_mid: "length h = length xs \<Longrightarrow> wr (pre @ h @ r) (length pre) xs = Some (pre @ xs @ r)"
  by (simp add: wr_def)

lemma set_seq_len_mid:
  assumes "length h = length (len_field t (unat n))"
  shows "sdp_set_seq_len (pre @ t # h @ r) (length pre) n = Some (pre @ t # len_field t (unat n) @ r)"
proof -
  have w: "length h = length xs \<Longrightarrow> wr (pre @ u # h @ r) (Suc (length pre)) xs = Some (pre @ u # xs @ r)" for xs u
    using wr_mid [of h xs "pre @ [u]" r] by simp
  have b: "wr8 (pre @ u # x # r) (Suc (length pre)) v = Some (pre @ u # v # r)" for x v u
    using wr8_mid [of "pre @ [u]" x r v] by simp
  consider "t = SDP_SEQ8 \<or> t = SDP_ALT8 \<or> t = SDP_TEXT_STR8 \<or> t = SDP_URL_STR8"
    | "t = SDP_SEQ16 \<or> t = SDP_ALT16 \<or> t = SDP_TEXT_STR16 \<or> t = SDP_URL_STR16"
    | "t = SDP_SEQ32 \<or> t = SDP_ALT32 \<or> t = SDP_TEXT_STR32 \<or> t = SDP_URL_STR32"
    | "len_field t (unat n) = []" "\<not> (t = SDP_SEQ8 \<or> t = SDP_ALT8 \<or> t = SDP_TEXT_STR8 \<or> t = SDP_URL_STR8)"
       "\<not> (t = SDP_SEQ16 \<or> t = SDP_ALT16 \<or> t = SDP_TEXT_STR16 \<or> t = SDP_URL_STR16)"
       "\<not> (t = SDP_SEQ32 \<or> t = SDP_ALT32 \<or> t = SDP_TEXT_STR32 \<or> t = SDP_URL_STR32)"
    by (auto simp: len_field_def)
  then show ?thesis
  proof cases
    case 1
    with assms obtain x where "h = [x]" by (auto simp: len_field_def length_Suc_conv)
    with 1 show ?thesis unfolding sdp_set_seq_len_def rd8_mid
      by (elim disjE) (simp_all add: len_field_def b)
  next
    case 2
    with assms show ?thesis unfolding sdp_set_seq_len_def rd8_mid
      by (elim disjE) (simp_all add: len_field_def put_be16_def w)
  next
    case 3
    with assms show ?thesis unfolding sdp_set_seq_len_def rd8_mid
      by (elim disjE) (simp_all add: len_field_def put_be32_def w)
  next
    case 4
    with assms show ?thesis unfolding sdp_set_seq_len_def rd8_mid by simp
  qed
qed

lemma take_split:
  assumes "1 + k + m \<le> length rest"
  obtains x h c where "rest = x # h @ c @ drop (1 + k + m) rest" "length h = k" "length c = m"
proof -
  obtain x r where r: "rest = x # r" using assms by (cases rest) auto
  have "r = take k r @ take m (drop k r) @ drop (k + m) r"
    by (metis append_take_drop_id drop_drop add.commute)
  moreover have "length (take k r) = k" "length (take m (drop k r)) = m" using assms r by auto
  ultimately show ?thesis using that [of x "take k r" "take m (drop k r)"] r by simp
qed

text \<open>The header and the value of a leaf.\<close>

lemma src_bytes_enc:
  assumes "wf_val t n v" "length_ok t (length (enc_val t n v))" "\<nexists>ds. v = Vseq ds"
  shows "(v = Zeroed \<and> src_bytes t v = Some NULL \<and> enc_val t n v = []) \<or>
    (\<exists>s. src_bytes t v = Some (Ptr s) \<and> rd s 0 (length (enc_val t n v)) = Some (enc_val t n v))"
proof -
  consider "t = SDP_DATA_NIL" "v = Zeroed"
    | w where "t = SDP_UINT8 \<or> t = SDP_INT8 \<or> t = SDP_BOOL" "v = V8 w"
    | w where "t = SDP_UINT16 \<or> t = SDP_INT16" "v = V16 w"
    | w where "t = SDP_UINT32 \<or> t = SDP_INT32" "v = V32 w"
    | w where "t = SDP_UINT64 \<or> t = SDP_INT64" "v = V64 w"
    | w where "t = SDP_UINT128 \<or> t = SDP_INT128" "v = V128 w" "length w = 16"
    | w where "t = SDP_UUID16 \<or> t = SDP_UUID32 \<or> t = SDP_UUID128" "v = Vuuid w" "length (uval w) = 16"
    | s where "SDP_IS_TEXT_STR t \<or> is_url_str t" "v = Vstr s" "1 \<le> n" "n - 1 \<le> int (length s)"
    using assms(1,3)
    by (cases v) (auto simp: is_int8_def is_int16_def is_int32_def is_int64_def is_int128_def SDP_IS_UUID_def)
  then show ?thesis
  proof cases
    case 8
    then have "src_bytes t v = Some (Ptr s)"
      by (elim disjE) (auto simp: src_bytes_def dtd_groups)
    with 8 show ?thesis by (simp add: rd_def min_absorb2)
  qed (((elim disjE)?; simp add: src_bytes_def dtd_groups rd_def)+)
qed

lemma gen_value_leaf:
  assumes v: "wf_val t n v" "length_ok t (length (enc_val t n v))" "\<nexists>ds. v = Vseq ds"
    and enc: "e = t # len_field t (length (enc_val t n v)) @ enc_val t n v"
    and buf: "sdata buf = pre @ rest" "unat (data_size buf) = length pre + (1 + length (len_field t (length (enc_val t n v))))"
    and fit: "unat (buf_size buf) = length (pre @ rest)" "length e \<le> length rest"
  shows "gen_value buf (length pre) t v (leaf_data_size t n) =
    Some (buf\<lparr>sdata := pre @ e @ drop (length e) rest,
      data_size := data_size buf + leaf_data_size t n\<rparr>)"
proof -
  let ?c = "enc_val t n v"
  have size: "unat (leaf_data_size t n) = length ?c" and ns: "\<not> (SDP_IS_SEQ t \<or> SDP_IS_ALT t)"
    using leaf_size(1,3) [OF v] by auto
  let ?f = "len_field t (length ?c)"
  define R where "R = drop (length e) rest"
  obtain x h c where r: "rest = x # h @ c @ R" "length h = length ?f" "length c = length ?c"
    using take_split [of "length ?f" "length ?c" rest] fit(2) enc by (auto simp: R_def)
  have m1: "wr8 (sdata buf) (length pre) t = Some (pre @ t # h @ c @ R)"
    unfolding buf(1) r(1) by (rule wr8_mid)
  have m2: "(if SDP_IS_TEXT_STR t \<or> is_url_str t then sdp_set_seq_len (pre @ t # h @ c @ R) (length pre) (leaf_data_size t n)
      else Some (pre @ t # h @ c @ R)) = Some (pre @ t # ?f @ c @ R)"
  proof (cases "SDP_IS_TEXT_STR t \<or> is_url_str t")
    case True
    with set_seq_len_mid [of h t "leaf_data_size t n" pre "c @ R"] r(2) size show ?thesis by simp
  next
    case False
    with ns have "?f = []" by (auto simp: len_field_def dtd_groups)
    with False r(2) show ?thesis by simp
  qed
  have sum: "unat (data_size buf + leaf_data_size t n) = length pre + length e"
    using fit enc size buf(2) unat_lt_32 [of "buf_size buf"] by (subst unat_plus) auto
  then have le: "data_size buf + leaf_data_size t n \<le> buf_size buf"
    using fit by (simp add: word_le_nat_alt)
  have m3: "wr (pre @ t # ?f @ c @ R) (unat (data_size buf)) ?c = Some (pre @ t # ?f @ ?c @ R)"
    using wr_mid [of c ?c "pre @ t # ?f" R] r(3) buf(2) by simp
  from src_bytes_enc [OF v] show ?thesis
  proof (elim disjE exE conjE)
    assume z: "v = Zeroed" "src_bytes t v = Some NULL" "?c = []"
    then have "leaf_data_size t n = 0" using size by (simp add: unat_eq_0)
    moreover from v(1) z(1) have "t = SDP_DATA_NIL" by simp
    ultimately show ?thesis using z m1 r(2,3)
      by (simp add: gen_value_def enc dtd_groups len_field_def R_def)
  next
    fix s assume "src_bytes t v = Some (Ptr s)" "rd s 0 (length ?c) = Some ?c"
    with m1 m2 m3 ns le size show ?thesis
      unfolding R_def [symmetric] by (simp add: gen_value_def enc split del: if_split)
  qed
qed

lemma gen_value_seq:
  assumes t: "SDP_IS_SEQ t \<or> SDP_IS_ALT t"
    and buf: "sdata buf = pre @ x # h @ c @ r" "length h = length (len_field t (unat k))"
  shows "gen_value buf (length pre) t v k =
    Some (buf\<lparr>sdata := pre @ t # len_field t (unat k) @ c @ r\<rparr>)"
  using t set_seq_len_mid [of h t k pre "c @ r"] buf(2)
  by (simp add: gen_value_def buf(1) wr8_mid)

lemma gen_data_size_seq:
  assumes "\<forall>d \<in> set ds. writes gen d" "SDP_IS_SEQ t \<or> SDP_IS_ALT t"
    and "sdata buf = pre @ x # h @ rest" "unat (data_size buf) = length pre + (1 + length h)"
    and "unat (buf_size buf) = length (sdata buf)" "length (concat (map enc ds)) \<le> length rest"
  shows "gen_data_size gen buf t n (Vseq ds) = Some (Vseq (map settled ds),
       buf\<lparr>sdata := pre @ x # h @ concat (map enc ds) @ drop (length (concat (map enc ds))) rest,
           data_size := data_size buf + of_nat (length (concat (map enc ds)))\<rparr>,
       of_nat (length (concat (map enc ds))))"
  using gen_seq_writes [of ds gen buf "pre @ x # h" rest] assms
  by (simp add: gen_data_size_def dataseq_def)

lemma rest_split:
  assumes "1 + k \<le> length rest"
  obtains x h where "rest = x # h @ drop (1 + k) rest" "length h = k"
  by (rule take_split [of k 0 rest]) (use assms in auto)

lemma gen_pdu_plain:
  assumes "gen_data_size (gen_pdu f) (buf\<lparr>data_size := data_size buf + sdp_get_data_type_size t\<rparr>) t n v =
      Some (v', buf', k)"
    and "\<not> (255 < k \<and> t = SDP_SEQ8)"
    and "gen_value buf' (unat (data_size buf)) t v' k = Some b"
  shows "gen_pdu (Suc f) buf (Sdp_data t a n v) = Some (Sdp_data t a n v', b, sdp_get_data_type_size t + k)"
  using assms(1,3) by (simp add: Let_def if_not_P [OF assms(2)])

lemma gen_pdu_wide:
  assumes "gen_data_size (gen_pdu f) (buf\<lparr>data_size := data_size buf + sdp_get_data_type_size t\<rparr>) t n v =
      Some (v', buf', k)"
    and "t = SDP_SEQ8" "255 < k"
    and "gen_data_size (gen_pdu f) (buf'\<lparr>data_size := data_size buf + sdp_get_data_type_size SDP_SEQ16\<rparr>)
      SDP_SEQ16 n v' = Some (v'', buf'', k')"
    and "gen_value buf'' (unat (data_size buf)) SDP_SEQ16 v'' k' = Some b"
  shows "gen_pdu (Suc f) buf (Sdp_data t a n v) =
    Some (Sdp_data SDP_SEQ16 a n v'', b, sdp_get_data_type_size SDP_SEQ16 + k')"
  using assms by (simp add: Let_def)

lemma drop_past: "drop (length xs + n) (xs @ ys) = drop n ys"
  by simp

lemma gen_pdu_seq:
  assumes t: "SDP_IS_SEQ t \<or> SDP_IS_ALT t" "length_ok t (length (concat (map enc ds)))"
    "\<forall>e \<in> set ds. encodable e"
    and w: "\<forall>e \<in> set ds. writes (gen_pdu f) e" "\<forall>e \<in> set (map settled ds). writes (gen_pdu f) e"
    and buf: "sdata buf = pre @ rest" "unat (data_size buf) = length pre"
      "unat (buf_size buf) = length (pre @ rest)"
    and fit: "length (enc (Sdp_data t a n (Vseq ds))) \<le> length rest"
  shows "gen_pdu (Suc f) buf (Sdp_data t a n (Vseq ds)) = Some (settled (Sdp_data t a n (Vseq ds)),
       buf\<lparr>sdata := pre @ enc (Sdp_data t a n (Vseq ds)) @ drop (length (enc (Sdp_data t a n (Vseq ds)))) rest,
           data_size := data_size buf + of_nat (length (enc (Sdp_data t a n (Vseq ds))))\<rparr>,
       of_nat (length (enc (Sdp_data t a n (Vseq ds)))))"
proof -
  define C where "C = concat (map enc ds)"
  let ?k = "length C"
  let ?u = "promoted t ?k"
  have e: "enc (Sdp_data t a n (Vseq ds)) = ?u # len_field ?u ?k @ C" by (simp add: C_def Let_def)
  have CS: "concat (map enc (map settled ds)) = C" by (simp add: C_def comp_def)
  have total: "length pre + length rest < 2 ^ 32" using buf(3) unat_lt_32 [of "buf_size buf"] by simp
  have ts: "unat (sdp_get_data_type_size t) = 1 + length (len_field t m)" for t m
    using len_field_size [of t m] by simp
  have le: "length (len_field t ?k) \<le> length (len_field ?u ?k)"
    by (auto simp: promoted_def len_field_def)
  have size: "sdp_get_data_type_size ?u + of_nat ?k = of_nat (1 + length (len_field ?u ?k) + ?k)"
    using total fit e by (intro word_eq_of_nat) (simp add: unat_plus ts [of ?u ?k])
  from rest_split [of "length (len_field t ?k)" rest] le fit e
  obtain x h where xh: "rest = x # h @ drop (1 + length (len_field t ?k)) rest"
    "length h = length (len_field t ?k)" by auto
  define R where "R = drop (1 + length (len_field t ?k)) rest"
  have r: "rest = x # h @ R" "length h = length (len_field t ?k)" using xh by (simp_all only: R_def)
  let ?b = "buf\<lparr>data_size := data_size buf + sdp_get_data_type_size t\<rparr>"
  have kR: "?k \<le> length R" using fit e le by (simp add: R_def)
  have first: "gen_data_size (gen_pdu f) ?b t n (Vseq ds) = Some (Vseq (map settled ds),
      ?b\<lparr>sdata := pre @ x # h @ C @ drop ?k R, data_size := data_size ?b + of_nat ?k\<rparr>, of_nat ?k)"
    unfolding C_def
    by (rule gen_data_size_seq [OF w(1) t(1)])
      (use r buf total fit e le kR in \<open>auto simp: C_def [symmetric] unat_plus ts [of t ?k]\<close>)
  have k32: "unat (of_nat ?k :: u32) = ?k" using total fit e by (simp add: unat_of_nat_32)
  show ?thesis
  proof (cases "t = SDP_SEQ8 \<and> 255 < ?k")
    case False
    then have u: "?u = t" by (auto simp: promoted_def)
    have no: "\<not> (255 < (of_nat ?k :: u32) \<and> t = SDP_SEQ8)"
      using False k32 by (auto simp: word_less_nat_alt)
    let ?b1 = "?b\<lparr>sdata := pre @ x # h @ C @ drop ?k R, data_size := data_size ?b + of_nat ?k\<rparr>"
    have g: "gen_value ?b1 (unat (data_size buf)) t (Vseq (map settled ds)) (of_nat ?k) =
        Some (?b1\<lparr>sdata := pre @ t # len_field t ?k @ C @ drop ?k R\<rparr>)"
      using gen_value_seq [OF t(1), of ?b1 pre x h C "drop ?k R" "of_nat ?k"] r(2) k32 buf(2) by simp
    have tail: "drop ?k R = drop (1 + length (len_field t ?k) + ?k) rest" by (simp add: R_def add.commute)
    have "?b1\<lparr>sdata := pre @ t # len_field t ?k @ C @ drop ?k R\<rparr> =
        buf\<lparr>sdata := pre @ (t # len_field t ?k @ C) @ drop (length (t # len_field t ?k @ C)) rest,
          data_size := data_size buf + of_nat (length (t # len_field t ?k @ C))\<rparr>"
      using size unfolding tail u by (cases buf) (simp add: add.assoc)
    with gen_pdu_plain [OF first no g, of a] size show ?thesis
      unfolding e by (simp add: u C_def [symmetric] del: gen_pdu.simps)
  next
    case True
    then have t8: "t = SDP_SEQ8" and big: "255 < (of_nat ?k :: u32)"
      using k32 by (auto simp: word_less_nat_alt)
    then have u: "?u = SDP_SEQ16" using True by (simp add: promoted_def)
    have h1: "length h = 1" using r(2) t8 by (simp add: len_field_def)
    define r2 where "r2 = h @ C @ drop ?k R"
    have l2: "2 \<le> length r2" using h1 True by (simp add: r2_def)
    define h2 R2 where "h2 = take 2 r2" and "R2 = drop 2 r2"
    have hR: "r2 = h2 @ R2" "length h2 = 2" using l2 by (simp_all add: h2_def R2_def)
    have total2: "length pre + 3 + ?k \<le> length pre + length rest" using fit e u
      by (simp add: len_field_def)
    have "drop ?k R2 = drop (length (h @ C) + 1) ((h @ C) @ drop ?k R)"
      unfolding R2_def r2_def drop_drop append_assoc [symmetric]
      by (rule arg_cong2 [where f = drop]) (simp_all add: h1)
    then have "drop ?k R2 = drop 1 (drop ?k R)" by (simp only: drop_past)
    also have "\<dots> = drop (3 + ?k) rest"
      unfolding R_def drop_drop by (rule arg_cong2 [where f = drop]) (simp_all add: t8 len_field_def)
    finally have R2k: "drop ?k R2 = drop (3 + ?k) rest" "?k \<le> length R2"
      using h1 total2 t8 by (auto simp: R2_def r2_def R_def len_field_def)
    let ?b1 = "?b\<lparr>sdata := pre @ x # h @ C @ drop ?k R, data_size := data_size ?b + of_nat ?k\<rparr>"
    let ?b2 = "?b1\<lparr>data_size := data_size buf + sdp_get_data_type_size SDP_SEQ16\<rparr>"
    have ty: "sdp_get_data_type_size SDP_SEQ16 = 3" by (simp add: sdp_get_data_type_size_def)
    let ?b3 = "?b2\<lparr>sdata := pre @ x # h2 @ C @ drop ?k R2, data_size := data_size ?b2 + of_nat ?k\<rparr>"
    have len_b1: "length (pre @ x # h @ C @ drop ?k R) = length (pre @ rest)"
      using kR r(1) by simp
    have second: "gen_data_size (gen_pdu f) ?b2 SDP_SEQ16 n (Vseq (map settled ds)) =
        Some (Vseq (map settled (map settled ds)), ?b3, of_nat ?k)"
      unfolding CS [symmetric]
      by (rule gen_data_size_seq [OF w(2)])
        (use r2_def hR R2k(2) buf total total2 len_b1 in
          \<open>auto simp: CS [unfolded map_map] ty unat_plus SDP_IS_SEQ_def\<close>)
    have g: "gen_value ?b3 (unat (data_size buf)) SDP_SEQ16 (Vseq (map settled (map settled ds))) (of_nat ?k) =
        Some (?b3\<lparr>sdata := pre @ SDP_SEQ16 # len_field SDP_SEQ16 ?k @ C @ drop ?k R2\<rparr>)"
      using gen_value_seq [of SDP_SEQ16 ?b3 pre x h2 C "drop ?k R2" "of_nat ?k"] hR(2) k32 buf(2)
      by (simp add: SDP_IS_SEQ_def len_field_def)
    have eqb: "?b3\<lparr>sdata := pre @ SDP_SEQ16 # len_field SDP_SEQ16 ?k @ C @ drop ?k R2\<rparr> =
        buf\<lparr>sdata := pre @ (?u # len_field ?u ?k @ C) @ drop (length (?u # len_field ?u ?k @ C)) rest,
          data_size := data_size buf + of_nat (length (?u # len_field ?u ?k @ C))\<rparr>"
      using size unfolding R2k(1) u by (cases buf) (simp add: len_field_def ty add.assoc numeral_3_eq_3)
    have "gen_pdu (Suc f) buf (Sdp_data t a n (Vseq ds)) =
      Some (Sdp_data SDP_SEQ16 a n (Vseq (map settled (map settled ds))),
        ?b3\<lparr>sdata := pre @ SDP_SEQ16 # len_field SDP_SEQ16 ?k @ C @ drop ?k R2\<rparr>,
        sdp_get_data_type_size SDP_SEQ16 + of_nat ?k)"
      by (rule gen_pdu_wide [OF first t8 big second g])
    then show ?thesis
      unfolding e eqb using size
      by (simp add: u C_def [symmetric] comp_def del: gen_pdu.simps)
  qed
qed

lemma gen_pdu_writes:
  "encodable d \<Longrightarrow> depth d \<le> f \<Longrightarrow> writes (gen_pdu f) d"
proof (induction f arbitrary: d)
  case 0
  then show ?case by (cases d) simp
next
  case (Suc f)
  obtain t a n v where d: "d = Sdp_data t a n v" by (cases d)
  show ?case unfolding writes_def
  proof (intro allI impI)
    fix buf :: sdp_buf and pre rest
    assume buf: "sdata buf = pre @ rest" "unat (data_size buf) = length pre"
      "unat (buf_size buf) = length (pre @ rest)" and fit: "length (enc d) \<le> length rest"
    have total: "length (pre @ rest) < 2 ^ 32" using buf(3) unat_lt_32 [of "buf_size buf"] by simp
    show "gen_pdu (Suc f) buf d = Some (settled d,
       buf\<lparr>sdata := pre @ enc d @ drop (length (enc d)) rest,
           data_size := data_size buf + of_nat (length (enc d))\<rparr>, of_nat (length (enc d)))"
    proof (cases "\<exists>ds. v = Vseq ds")
      case False
      have v: "wf_val t n v" "length_ok t (length (enc_val t n v))" "\<nexists>ds. v = Vseq ds"
        using Suc.prems(1) d False by auto
      have ns: "\<not> (SDP_IS_SEQ t \<or> SDP_IS_ALT t)" and sz: "unat (leaf_data_size t n) = length (enc_val t n v)"
        using leaf_size [OF v] by auto
      then have pr: "promoted t k = t" for k by (auto simp: promoted_def dtd_groups)
      have e: "enc d = t # len_field t (length (enc_val t n v)) @ enc_val t n v"
        using d by (simp add: Let_def pr)
      have st: "settled d = d" using d v(3) pr by (cases v) auto
      let ?b = "buf\<lparr>data_size := data_size buf + sdp_get_data_type_size t\<rparr>"
      have ds: "unat (data_size ?b) = length pre + (1 + length (len_field t (length (enc_val t n v))))"
        using buf(2) total fit e len_field_size [of t "length (enc_val t n v)"]
        by (simp add: unat_plus)
      have "gen_value ?b (length pre) t v (leaf_data_size t n) =
        Some (?b\<lparr>sdata := pre @ enc d @ drop (length (enc d)) rest,
                data_size := data_size ?b + leaf_data_size t n\<rparr>)"
        using buf(1,3) fit by (intro gen_value_leaf [OF v e _ ds]) auto
      moreover have "sdp_get_data_type_size t + leaf_data_size t n = of_nat (length (enc d))"
        using sz e total fit len_field_size [of t "length (enc_val t n v)"]
        by (intro word_eq_of_nat) (simp add: unat_plus)
      moreover have "gen_data_size (gen_pdu f) ?b t n v = Some (v, ?b, leaf_data_size t n)"
        using ns by (simp add: gen_data_size_def)
      moreover have "\<not> (255 < leaf_data_size t n \<and> t = SDP_SEQ8)" using ns by (auto simp: dtd_groups)
      ultimately have "gen_pdu (Suc f) buf (Sdp_data t a n v) = Some (Sdp_data t a n v,
          ?b\<lparr>sdata := pre @ enc d @ drop (length (enc d)) rest,
             data_size := data_size ?b + leaf_data_size t n\<rparr>, sdp_get_data_type_size t + leaf_data_size t n)"
        by (intro gen_pdu_plain) (simp_all add: buf(2))
      then show ?thesis
        using st d \<open>_ = of_nat (length (enc d))\<close> by (cases buf) (simp add: add.assoc del: gen_pdu.simps enc.simps)
    next
      case True
      then obtain ds where v: "v = Vseq ds" by blast
      have t: "SDP_IS_SEQ t \<or> SDP_IS_ALT t" "length_ok t (length (concat (map enc ds)))"
        "\<forall>e \<in> set ds. encodable e"
        using Suc.prems(1) d v by auto
      have dep: "depth e \<le> f" if "e \<in> set ds" for e
        using Suc.prems(2) depth_child [OF that] d v by simp
      have w: "\<forall>e \<in> set ds. writes (gen_pdu f) e" "\<forall>e \<in> set (map settled ds). writes (gen_pdu f) e"
        using t(3) dep by (auto intro!: Suc.IH)
      show ?thesis unfolding d v by (rule gen_pdu_seq [OF t w buf fit [unfolded d v]])
    qed
  qed
qed

end
