(* ===== verification/SdpRead.thy ===== *)
theory SdpRead
  imports SdpSafe
begin

text \<open>
  Reading a record: \<open>sdp_extract_pdu\<close> on any packet.  The record it yields keeps its attributes
  sorted and well-typed, and its search pattern holds every UUID of its attributes.
\<close>

definition rec_ok :: "sdp_record \<Rightarrow> bool" where
  "rec_ok rec \<longleftrightarrow>
     attrs_ok (attrlist rec) \<and> (\<forall>d \<in> set (attrlist rec). wf_data d) \<and>
     pattern_ok (pattern rec) \<and>
     (\<forall>d \<in> set (attrlist rec). sdp_uuid_to_uuid128 ` set (uuids_data d) \<subseteq> set (pattern rec))"

lemma rec_ok_alloc [simp]: "rec_ok sdp_record_alloc"
  by (simp add: rec_ok_def sdp_record_alloc_def pattern_ok_def)

lemma rec_ok_handle [simp]: "rec_ok (set_handle addr a d rec) = rec_ok rec"
  by (simp add: rec_ok_def set_handle_def)

lemma rec_ok_svclass [simp]: "rec_ok (rec\<lparr>svclass := c\<rparr>) = rec_ok rec"
  by (simp add: rec_ok_def)

lemma extract_svclass_defined:
  assumes "wf_data d"
  shows "extract_svclass_uuid d c \<noteq> None"
proof (cases "SDP_IS_SEQ (dtd d)")
  case False
  then show ?thesis by (simp add: extract_svclass_uuid_def)
next
  case True
  with assms obtain ds where ds: "val d = Vseq ds" "\<forall>e \<in> set ds. wf_data e"
    by (cases d; cases "val d") (auto simp: dtd_groups)
  show ?thesis
  proof (cases ds)
    case Nil
    with True ds show ?thesis by (simp add: extract_svclass_uuid_def dataseq_def)
  next
    case (Cons e es)
    with ds have "wf_data e" by simp
    then have "SDP_UUID16 \<le> dtd e \<Longrightarrow> dtd e \<le> SDP_UUID128 \<Longrightarrow> \<exists>u. val e = Vuuid u"
      by (cases e; cases "val e") (auto simp: dtd_groups)
    with True ds Cons show ?thesis
      by (cases "dtd e < SDP_UUID16 \<or> SDP_UUID128 < dtd e")
        (auto simp: extract_svclass_uuid_def dataseq_def not_less)
  qed
qed

lemma set_svclass_defined:
  assumes "wf_data d"
  obtains c where "set_svclass a d rec = Some (rec\<lparr>svclass := c\<rparr>)"
proof (cases "a = 0x0001")
  case True
  with extract_svclass_defined [OF assms, of "svclass rec"] that show ?thesis
    by (auto simp: set_svclass_def)
next
  case False
  then have "set_svclass a d rec = Some (rec\<lparr>svclass := svclass rec\<rparr>)"
    by (simp add: set_svclass_def)
  then show ?thesis by (rule that)
qed

lemma attr_replace_defined:
  assumes "wf_data d"
  shows "\<exists>rec'. sdp_attr_replace rec a d = Some rec' \<and> pattern rec' = pattern rec \<and> handle rec' = handle rec"
proof -
  have "wf_data (set_attrId a d)" using assms by simp
  then show ?thesis
    unfolding sdp_attr_replace_def Let_def by (rule set_svclass_defined) fastforce
qed

lemma rec_ok_replace:
  assumes ok: "rec_ok rec" and d: "wf_data d"
    and us: "sdp_uuid_to_uuid128 ` set (uuids_data d) \<subseteq> set (pattern rec)"
    and r: "sdp_attr_replace rec a d = Some rec'"
  shows "rec_ok rec'"
proof -
  from ok have srt: "attrs_ok (attrlist rec)" by (simp add: rec_ok_def)
  from attr_replace_defined [OF d, of rec a] r have pat: "pattern rec' = pattern rec" by auto
  from replace_attrlist [OF r srt] replace_attrs_ok [OF r srt] ok d us show ?thesis
    by (auto simp: rec_ok_def pat set_insert_attr)
qed

lemma rec_ok_uuids:
  assumes "rec_ok rec" "wf_data d"
  shows "rec_ok (foldl sdp_pattern_add_uuid rec (uuids_data d)) \<and>
    sdp_uuid_to_uuid128 ` set (uuids_data d) \<subseteq> set (pattern (foldl sdp_pattern_add_uuid rec (uuids_data d)))"
  using assms(1) pattern_adds [of rec "uuids_data d"] wf_uuids_valid(1) [OF assms(2)]
  unfolding rec_ok_def by (simp add: le_supI1)

text \<open>One attribute: the loop either stops with a good record or goes on with one.\<close>

definition pdu_step ::
    "(sdp_val \<Rightarrow> u32) \<Rightarrow> u16 \<Rightarrow> sdp_data \<Rightarrow> sdp_record \<Rightarrow> sdp_record option" where
  "pdu_step addr attr data rec = do {
     rec \<leftarrow> set_svclass attr data (set_handle addr attr data rec);
     sdp_attr_replace rec attr data }"

lemma pdu_step_ok:
  assumes "rec_ok rec" "wf_data d"
    "sdp_uuid_to_uuid128 ` set (uuids_data d) \<subseteq> set (pattern rec)"
  shows "\<exists>rec'. pdu_step addr a d rec = Some rec' \<and> rec_ok rec'"
proof -
  obtain c where c: "set_svclass a d (set_handle addr a d rec) = Some ((set_handle addr a d rec)\<lparr>svclass := c\<rparr>)"
    using set_svclass_defined [OF assms(2)] by blast
  let ?rec = "(set_handle addr a d rec)\<lparr>svclass := c\<rparr>"
  have ok: "rec_ok ?rec" using assms(1) by simp
  have us: "sdp_uuid_to_uuid128 ` set (uuids_data d) \<subseteq> set (pattern ?rec)"
    using assms(3) by (simp add: set_handle_def)
  obtain rec' where "sdp_attr_replace ?rec a d = Some rec'"
    using attr_replace_defined [OF assms(2)] by blast
  with rec_ok_replace [OF ok assms(2) us] c show ?thesis by (simp add: pdu_step_def)
qed

lemma get_be16_1: "3 \<le> length p \<Longrightarrow> get_be16 p 1 \<noteq> None"
  by (simp add: get_be16_def rd_def)

lemma pdu_loop_unfold:
  assumes "3 \<le> b" "b \<le> int (length p)" "x < s" "0 \<le> k" "k \<le> b - 3"
    and "sdp_extract_attr f (drop 3 p) (b - 3) 0 rec = Some (Ret (Ptr d, k, rec'))"
    and "get_be16 p 1 = Some a"
    and "pdu_step addr a d rec' = Some rec''"
  shows "sdp_extract_pdu_loop (Suc f) addr p b x s rec =
    sdp_extract_pdu_loop f addr (drop (nat (3 + k)) p) (b - (3 + k)) (x + (3 + k)) s rec''"
proof -
  from assms(1,2) obtain t where t: "rd8 p 0 = Some t" by (cases p) (auto simp: rd8_def)
  from assms(8) obtain r1 where r: "set_svclass a d (set_handle addr a d rec') = Some r1"
    "sdp_attr_replace r1 a d = Some rec''"
    by (auto simp: pdu_step_def option_bind_Some_iff)
  from assms(1,2,4,5) have "adv p 3 = Some (drop 3 p)" "adv p (3 + k) = Some (drop (nat (3 + k)) p)"
    by (simp_all add: adv_ok)
  with assms t r show ?thesis by (simp add: Let_def)
qed

lemma pdu_loop_safe:
  assumes "rec_ok rec" "b \<le> int (length p)"
  shows "sdp_extract_pdu_loop f addr p b x s rec = Some NoFuel \<or>
    (\<exists>rec'. sdp_extract_pdu_loop f addr p b x s rec = Some (Ret rec') \<and> rec_ok rec')"
  using assms
proof (induction f arbitrary: p b x rec)
  case 0
  then show ?case by simp
next
  case (Suc f)
  show ?case
  proof (cases "x < s \<and> 3 \<le> b")
    case False
    with Suc.prems show ?thesis by auto
  next
    case True
    with Suc.prems obtain t a where ta: "rd8 p 0 = Some t" "get_be16 p 1 = Some a"
      using get_be16_1 [of p] by (cases p) (auto simp: rd8_def)
    have b3: "0 \<le> b - 3" "b - 3 \<le> int (length (drop 3 p))" using True Suc.prems by auto
    have adv: "adv p 3 = Some (drop 3 p)" using True Suc.prems by (simp add: adv_ok)
    from sdp_extract_attr_safe [OF b3, of rec f] show ?thesis
    proof (cases rule: decodes_runE)
      case nofuel
      with True ta adv show ?thesis by simp
    next
      case (null n)
      with True ta adv Suc.prems show ?thesis by simp
    next
      case (elem d k)
      let ?rec = "foldl sdp_pattern_add_uuid rec (uuids_data d)"
      from rec_ok_uuids [OF Suc.prems(1) elem(4)] elem(4) pdu_step_ok [of ?rec d addr a]
      obtain rec' where s: "pdu_step addr a d ?rec = Some rec'" "rec_ok rec'" by auto
      have "b - (3 + k) \<le> int (length (drop (nat (3 + k)) p))" using elem True Suc.prems by auto
      from Suc.IH [OF s(2) this] show ?thesis
        using pdu_loop_unfold [OF _ Suc.prems(2) _ elem(2,3,1) ta(2) s(1)] True by simp
    qed
  qed
qed

lemma pdu_loop_returns:
  assumes "rec_ok rec" "0 \<le> b" "b \<le> int (length p)" "uncut p b" "b < int f"
  shows "sdp_extract_pdu_loop f addr p b x s rec \<noteq> Some NoFuel"
  using assms
proof (induction f arbitrary: p b x rec)
  case 0
  then show ?case by simp
next
  case (Suc f)
  show ?case
  proof (cases "x < s \<and> 3 \<le> b")
    case False
    then show ?thesis by auto
  next
    case True
    with Suc.prems obtain t a where ta: "rd8 p 0 = Some t" "get_be16 p 1 = Some a"
      using get_be16_1 [of p] by (cases p) (auto simp: rd8_def)
    have b3: "0 \<le> b - 3" "b - 3 \<le> int (length (drop 3 p))" "uncut (drop 3 p) (b - 3)" "b - 3 < int f"
      using True Suc.prems uncut_drop [of p b 3] by auto
    have adv: "adv p 3 = Some (drop 3 p)" using True Suc.prems by (simp add: adv_ok)
    from sdp_extract_attr_safe [OF b3(1,2), of rec f] show ?thesis
    proof (cases rule: decodes_runE)
      case nofuel
      with sdp_extract_attr_returns [OF b3, of rec] show ?thesis by (simp add: returns_def)
    next
      case (null n)
      with True ta adv show ?thesis by simp
    next
      case (elem d k)
      let ?rec = "foldl sdp_pattern_add_uuid rec (uuids_data d)"
      from rec_ok_uuids [OF Suc.prems(1) elem(4)] elem(4) pdu_step_ok [of ?rec d addr a]
      obtain rec' where s: "pdu_step addr a d ?rec = Some rec'" "rec_ok rec'" by auto
      have "sdp_extract_pdu_loop f addr (drop (nat (3 + k)) p) (b - (3 + k)) (x + (3 + k)) s rec'
              \<noteq> Some NoFuel"
        by (rule Suc.IH) (use s elem True Suc.prems uncut_drop [of p b "3 + k"] in auto)
      then show ?thesis
        using pdu_loop_unfold [OF _ Suc.prems(3) _ elem(2,3,1) ta(2) s(1)] True by simp
    qed
  qed
qed

lemma pdu_loop_extends:
  "f \<le> f' \<Longrightarrow> extends (sdp_extract_pdu_loop f addr p b x s rec) (sdp_extract_pdu_loop f' addr p b x s rec)"
proof (induction f arbitrary: f' p b x rec)
  case 0
  then show ?case by simp
next
  case (Suc f)
  then obtain g where g: "f' = Suc g" "f \<le> g" by (cases f') auto
  show ?case unfolding g(1) sdp_extract_pdu_loop.simps Let_def
    using g(2)
    by (auto intro!: extends_run_bind extends_bind sdp_extract_attr_extends Suc.IH
        split: prod.split ptr.split)
qed

text \<open>The length the header of the record claims, when the header is there.\<close>

definition claimed :: "buf \<Rightarrow> int \<Rightarrow> int" where
  "claimed p b = (case sdp_extract_seqtype p b of Some (n, t, Some s) \<Rightarrow> n + s | _ \<Rightarrow> 0)"

lemma sdp_extract_pdu_safe:
  assumes "0 \<le> b" "b \<le> int (length p)" "claimed p b < 2 ^ 31"
  shows "sdp_extract_pdu f addr p b = Some NoFuel \<or>
    (\<exists>rec. sdp_extract_pdu f addr p b = Some (Ret (rec, claimed p b)) \<and> rec_ok rec)"
  using assms(2)
proof (cases rule: seqtype_safe)
  case (bad t)
  then have c: "claimed p b = 0" by (simp add: claimed_def)
  have "adv p 0 = Some p" by (simp add: adv_def)
  with pdu_loop_safe [OF rec_ok_alloc assms(2), of f addr 0 0] bad c show ?thesis
    by (auto simp: sdp_extract_pdu_def)
next
  case (ok w t n)
  then have c: "claimed p b = 1 + w + n" by (simp add: claimed_def)
  have "b - (1 + w) \<le> int (length (drop (nat (1 + w)) p))" "adv p (1 + w) = Some (drop (nat (1 + w)) p)"
    using ok assms by (auto simp: adv_ok)
  with pdu_loop_safe [OF rec_ok_alloc, of "b - (1 + w)" "drop (nat (1 + w)) p" f addr 0 n] ok c assms(3)
  show ?thesis by (auto simp: sdp_extract_pdu_def)
qed

lemma sdp_extract_pdu_returns:
  assumes "0 \<le> b" "b \<le> int (length p)" "uncut p b" "b < int f"
  shows "sdp_extract_pdu f addr p b \<noteq> Some NoFuel"
  using assms(2)
proof (cases rule: seqtype_safe)
  case (bad t)
  have "adv p 0 = Some p" by (simp add: adv_def)
  with pdu_loop_returns [OF rec_ok_alloc assms, of addr 0 0] pdu_loop_safe [OF rec_ok_alloc assms(2), of f addr 0 0] bad
  show ?thesis by (auto simp: sdp_extract_pdu_def)
next
  case (ok w t n)
  let ?p = "drop (nat (1 + w)) p" and ?b = "b - (1 + w)"
  have *: "0 \<le> ?b" "?b \<le> int (length ?p)" "uncut ?p ?b" "?b < int f" "adv p (1 + w) = Some ?p"
    using ok assms uncut_drop [of p b "1 + w"] by (auto simp: adv_ok)
  from pdu_loop_returns [OF rec_ok_alloc *(1-4), of addr 0 n] pdu_loop_safe [OF rec_ok_alloc *(2), of f addr 0 n]
    ok *(5)
  show ?thesis by (auto simp: sdp_extract_pdu_def split: if_splits)
qed

lemma sdp_extract_pdu_extends:
  assumes "f \<le> f'"
  shows "extends (sdp_extract_pdu f addr p b) (sdp_extract_pdu f' addr p b)"
  unfolding sdp_extract_pdu_def Let_def
  by (auto intro!: extends_bind extends_run_bind pdu_loop_extends assms split: prod.split)

end
