(* ===== verification/SdpRecord.thy ===== *)
theory SdpRecord
  imports SdpWrite SdpRead
begin

text \<open>
  Whole records: what \<open>sdp_gen_record_pdu\<close> writes, and that \<open>sdp_extract_pdu\<close> reads it back.
\<close>

section \<open>Appending to the buffer of a record\<close>

definition rec_header :: "nat \<Rightarrow> buf" where
  "rec_header n = (if 2 + n \<le> 255 then [SDP_SEQ8, of_nat n] else SDP_SEQ16 # rev (le_of 2 (of_nat n :: u16)))"

definition rec_bytes :: "buf \<Rightarrow> buf" where
  "rec_bytes c = rec_header (length c) @ c"

text \<open>The buffer after the attributes with the encoding \<open>c\<close> have been appended.\<close>

definition holds :: "buf \<Rightarrow> sdp_buf \<Rightarrow> bool" where
  "holds c pdu \<longleftrightarrow>
     (if c = [] then sdata pdu = replicate (unat (buf_size pdu)) 0 \<and> data_size pdu = 0
      else (\<exists>zs. sdata pdu = rec_bytes c @ zs \<and> unat (data_size pdu) = length (rec_bytes c) \<and>
             unat (buf_size pdu) = length (sdata pdu)))"

lemma length_rec_header: "length (rec_header n) = (if 2 + n \<le> 255 then 2 else 3)"
  by (simp add: rec_header_def)

lemma wr8_Cons0: "wr8 (x # r) 0 v = Some (v # r)"
  by (simp add: wr8_def)

lemma wr8_Cons1: "wr8 (x # y # r) 1 v = Some (x # v # r)"
  by (simp add: wr8_def)

lemma set_buf_len8:
  assumes "sdata dst = SDP_SEQ8 # y # c" "n = unat (data_size dst) - 2" "2 \<le> unat (data_size dst)"
  shows "set_buf_len dst = Some (dst\<lparr>sdata := SDP_SEQ8 # of_nat n # c\<rparr>)"
proof -
  have "unat (data_size dst - 2) = n" using assms(2,3) by (simp add: unat_sub word_le_nat_alt)
  then have "(ucast (data_size dst - 2) :: u8) = of_nat n" by auto
  then show ?thesis by (simp add: set_buf_len_def assms(1) rd8_Cons_0 wr8_def)
qed

lemma set_buf_len16:
  assumes "sdata dst = SDP_SEQ16 # x # y # c" "n = unat (data_size dst) - 3" "3 \<le> unat (data_size dst)"
  shows "set_buf_len dst = Some (dst\<lparr>sdata := SDP_SEQ16 # rev (le_of 2 (of_nat n :: u16)) @ c\<rparr>)"
proof -
  have "unat (data_size dst - 3) = n" using assms(2,3) by (simp add: unat_sub word_le_nat_alt)
  then have "(ucast (data_size dst - 3) :: u16) = of_nat n" by auto
  then show ?thesis by (simp add: set_buf_len_def assms(1) rd8_Cons_0 put_be16_def wr_def)
qed

lemma append_data_spec:
  fixes len :: u32 and dst :: sdp_buf
  assumes dst: "sdata dst = h @ c @ zs" "unat (data_size dst) = length h + length c"
    "unat (buf_size dst) = length (sdata dst)"
    and h: "(\<exists>y. h = [SDP_SEQ8, y] \<and> 2 + length c \<le> 255) \<or> (\<exists>x y. h = [SDP_SEQ16, x, y] \<and> 255 < 2 + length c)"
    and x: "length x = unat len" "x \<noteq> []" "length (rec_bytes (c @ x)) \<le> length (sdata dst)"
  shows "\<exists>dst'. append_data dst (x @ r) len = Some dst' \<and> holds (c @ x) dst' \<and> buf_size dst' = buf_size dst"
proof -
  have lt: "length (sdata dst) < 2 ^ 32" using dst(3) unat_lt_32 [of "buf_size dst"] by simp
  have hx: "length h + length c + length x \<le> length (sdata dst)"
    using h x(3) by (auto simp: rec_bytes_def length_rec_header split: if_splits)
  define z1 z2 where "z1 = take (length x) zs" and "z2 = drop (length x) zs"
  have zs: "zs = z1 @ z2" "length z1 = length x" using hx dst(1) by (simp_all add: z1_def z2_def)
  have xs: "rd (x @ r) 0 (unat len) = Some x" using x(1) by (simp add: rd_def)
  have m: "wr (sdata dst) (unat (data_size dst)) x = Some (h @ c @ x @ z2)"
    using wr_mid [of z1 x "h @ c" z2] zs dst(1,2) by simp
  have n: "unat (data_size dst + len) = length h + length c + length x"
    using dst(2) x(1) hx lt by (subst unat_plus) auto
  let ?d = "dst\<lparr>sdata := h @ c @ x @ z2, data_size := data_size dst + len\<rparr>"
  from h show ?thesis
  proof (elim disjE exE conjE)
    fix y assume h8: "h = [SDP_SEQ8, y]" "2 + length c \<le> 255"
    show ?thesis
    proof (cases "255 < data_size dst + len")
      case False
      then have small: "2 + length (c @ x) \<le> 255" using n h8 by (simp add: word_less_nat_alt)
      have "append_data dst (x @ r) len = set_buf_len ?d"
        using xs m h8 False by (simp add: append_data_def Let_def rd8_Cons_0)
      also have "\<dots> = Some (?d\<lparr>sdata := SDP_SEQ8 # of_nat (length (c @ x)) # c @ x @ z2\<rparr>)"
        using set_buf_len8 [of ?d y "c @ x @ z2" "length (c @ x)"] h8 n by simp
      finally show ?thesis
        using small x(2) n h8 hx dst zs
        by (auto simp: holds_def rec_bytes_def rec_header_def)
    next
      case True
      then have big: "255 < 2 + length (c @ x)" using n h8 by (simp add: word_less_nat_alt)
      then have fit: "3 + length c + length x \<le> length (sdata dst)"
        using x(3) by (simp add: rec_bytes_def length_rec_header)
      then obtain w z3 where z2: "z2 = w # z3" using h8 dst(1) zs by (cases z2) auto
      have n2: "unat (data_size dst + len - 2) = length c + length x"
        using n h8 by (simp add: unat_sub word_le_nat_alt)
      have n3: "unat (data_size dst + len + 1) = 3 + length c + length x"
        using n h8 fit lt by (subst unat_plus) auto
      have r2: "rd (SDP_SEQ8 # y # c @ x @ z2) 2 (length c + length x) = Some (c @ x)"
        by (simp add: rd_def)
      have c0: "c @ x \<noteq> []" using x(2) by simp
      then obtain p ps where px: "c @ x = p # ps" by (cases "c @ x") auto
      define b3 where "b3 = SDP_SEQ8 # y # p # c @ x @ z3"
      have l: "length (SDP_SEQ8 # y # c @ x @ z2) = 3 + length c + length x + length z3" by (simp add: z2)
      have w3: "wr (SDP_SEQ8 # y # c @ x @ z2) 3 (c @ x) = Some b3"
      proof -
        have "SDP_SEQ8 # y # c @ x @ z2 = [SDP_SEQ8, y, p] @ (ps @ [w]) @ z3"
          using px z2 by (metis append.assoc append_Cons append_Nil)
        moreover have "length (ps @ [w]) = length (c @ x)" using px by simp
        ultimately show ?thesis
          using wr_mid [of "ps @ [w]" "c @ x" "[SDP_SEQ8, y, p]" z3]
          by (simp add: b3_def numeral_3_eq_3)
      qed
      let ?e = "?d\<lparr>sdata := SDP_SEQ16 # y # p # c @ x @ z3, data_size := data_size dst + len + 1\<rparr>"
      have "append_data dst (x @ r) len = set_buf_len ?e"
        using xs m h8 True n2 r2 w3
        by (simp add: append_data_def Let_def rd8_Cons_0 b3_def wr8_Cons0)
      also have "\<dots> = Some (?e\<lparr>sdata := SDP_SEQ16 # rev (le_of 2 (of_nat (length (c @ x)) :: u16)) @ c @ x @ z3\<rparr>)"
        using set_buf_len16 [of ?e y p "c @ x @ z3" "length (c @ x)"] n3 by simp
      finally show ?thesis
        using big x(2) n3 dst zs z2 h8
        by (auto simp: holds_def rec_bytes_def rec_header_def)
    qed
  next
    fix x1 y assume h16: "h = [SDP_SEQ16, x1, y]" "255 < 2 + length c"
    have "append_data dst (x @ r) len = set_buf_len ?d"
      using xs m h16 by (simp add: append_data_def Let_def rd8_Cons_0)
    also have "\<dots> = Some (?d\<lparr>sdata := SDP_SEQ16 # rev (le_of 2 (of_nat (length (c @ x)) :: u16)) @ c @ x @ z2\<rparr>)"
      using set_buf_len16 [of ?d x1 y "c @ x @ z2" "length (c @ x)"] h16 n by simp
    finally show ?thesis
      using h16 x(2) n hx dst zs
      by (auto simp: holds_def rec_bytes_def rec_header_def)
  qed
qed

lemma holds_length:
  assumes "holds c pdu"
  shows "length (sdata pdu) = unat (buf_size pdu)"
  using assms by (auto simp: holds_def split: if_splits)

lemma rec_bytes_mono: "length (rec_bytes c) + length x \<le> length (rec_bytes (c @ x))"
  by (simp add: rec_bytes_def length_rec_header)

lemma append_to_buf_spec:
  assumes "holds c pdu" "x \<noteq> []" "length x = unat len"
    and "length (rec_bytes (c @ x)) \<le> unat (buf_size pdu)"
  shows "\<exists>pdu'. sdp_append_to_buf pdu (x @ r) len = Some pdu' \<and> holds (c @ x) pdu' \<and>
    buf_size pdu' = buf_size pdu"
proof -
  have lt: "unat (buf_size pdu) < 2 ^ 32" using unat_lt_32 by simp
  show ?thesis
  proof (cases "c = []")
    case True
    then have pdu: "sdata pdu = replicate (unat (buf_size pdu)) 0" "data_size pdu = 0"
      using assms(1) by (simp_all add: holds_def)
    have two: "2 + length x \<le> unat (buf_size pdu)"
      using assms(4) True by (simp add: rec_bytes_def length_rec_header split: if_splits)
    then obtain j where "unat (buf_size pdu) = 2 + length x + j" using le_Suc_ex by blast
    then obtain k where k: "unat (buf_size pdu) = Suc (Suc k)" by simp
    have fit: "\<not> buf_size pdu < data_size pdu + len"
      using two assms(3) pdu(2) by (simp add: not_less word_le_nat_alt)
    let ?d = "pdu\<lparr>sdata := [SDP_SEQ8, 0] @ [] @ replicate k 0, data_size := 2\<rparr>"
    have "\<exists>dst'. append_data ?d (x @ r) len = Some dst' \<and> holds ([] @ x) dst' \<and> buf_size dst' = buf_size ?d"
    proof (rule append_data_spec [where h = "[SDP_SEQ8, 0]" and zs = "replicate k 0"])
      show "unat (buf_size ?d) = length (sdata ?d)" using k by simp
      show "length (rec_bytes ([] @ x)) \<le> length (sdata ?d)" using assms(4) k True by simp
    qed (use assms(2,3) in simp_all)
    moreover have "sdp_append_to_buf pdu (x @ r) len = append_data ?d (x @ r) len"
      using pdu k fit by (simp add: sdp_append_to_buf_def rd8_Cons_0 wr8_Cons0)
    ultimately show ?thesis using True by simp
  next
    case False
    with assms(1) obtain zs where pdu: "sdata pdu = rec_bytes c @ zs"
      "unat (data_size pdu) = length (rec_bytes c)" "unat (buf_size pdu) = length (sdata pdu)"
      by (auto simp: holds_def)
    have "rec_bytes c = hd (rec_bytes c) # tl (rec_bytes c)" "hd (rec_bytes c) \<noteq> 0"
      by (simp_all add: rec_bytes_def rec_header_def)
    then obtain t q where t: "rec_bytes c = t # q" "t \<noteq> 0" by metis
    have sum: "unat (data_size pdu + len) = length (rec_bytes c) + length x"
      using pdu(2) assms(3,4) rec_bytes_mono [of c x] lt by (subst unat_plus) auto
    then have fit: "\<not> buf_size pdu < data_size pdu + len"
      using assms(4) rec_bytes_mono [of c x] by (simp add: not_less word_le_nat_alt)
    have "\<exists>dst'. append_data pdu (x @ r) len = Some dst' \<and> holds (c @ x) dst' \<and> buf_size dst' = buf_size pdu"
    proof (rule append_data_spec [where h = "rec_header (length c)" and zs = zs])
      show "length (rec_bytes (c @ x)) \<le> length (sdata pdu)" using assms(4) pdu(3) by simp
      show "(\<exists>y. rec_header (length c) = [SDP_SEQ8, y] \<and> 2 + length c \<le> 255) \<or>
          (\<exists>x y. rec_header (length c) = [SDP_SEQ16, x, y] \<and> 255 < 2 + length c)"
        by (auto simp: rec_header_def numeral_2_eq_2)
    qed (use assms(2,3) pdu in \<open>simp_all add: rec_bytes_def\<close>)
    moreover have "sdp_append_to_buf pdu (x @ r) len = append_data pdu (x @ r) len"
      using pdu(1) t fit by (simp add: sdp_append_to_buf_def rd8_Cons_0)
    ultimately show ?thesis by simp
  qed
qed

section \<open>One attribute\<close>

definition attr_enc :: "sdp_data \<Rightarrow> buf" where
  "attr_enc d = SDP_UINT16 # rev (le_of 2 (attrId d)) @ enc d"

lemma length_attr_enc: "length (attr_enc d) = 3 + length (enc d)"
  by (simp add: attr_enc_def)

lemma append_to_pdu_attr:
  assumes "encodable d" "grow late d < 2 ^ 32"
  shows "\<exists>q. sdp_append_to_pdu junk late pdu d =
      map_option (Pair (settled d)) (sdp_append_to_buf pdu (attr_enc d @ q) (of_nat (length (attr_enc d)))) \<and>
    unat (of_nat (length (attr_enc d)) :: u32) = length (attr_enc d)"
proof -
  have "unat (0 :: u32) + grow late d < 2 ^ 32" using assms(2) by simp
  with gen_buffer_sized [OF assms(1), of late] obtain s where s:
    "sdp_gen_buffer late 0 d = Some s" "3 + length (enc d) \<le> unat s"
    unfolding sized_def sizes_def by fastforce
  define M where "M = map junk [0..<unat s]"
  define rest where "rest = drop 3 M"
  have M: "length M = unat s" by (simp add: M_def)
  let ?h = "SDP_UINT16 # rev (le_of 2 (attrId d))"
  let ?fresh = "\<lparr>sdata = M, data_size = 0, buf_size = s\<rparr>"
  let ?a = "?fresh\<lparr>sdata := ?h @ rest, data_size := 3\<rparr>"
  have set: "sdp_set_attrid ?fresh (attrId d) = Some ?a"
  proof -
    from M s(2) obtain x y z q where q: "M = x # y # z # q"
      by (cases M; cases "tl M"; cases "tl (tl M)") auto
    then show ?thesis
      by (simp add: sdp_set_attrid_def rest_def wr8_Cons0 put_be16_def wr_def)
  qed
  have rest: "length (enc d) \<le> length rest" "length rest + 3 = unat s"
    using M s(2) by (simp_all add: rest_def)
  have "sdp_gen_pdu ?a d = Some (settled d, ?a\<lparr>sdata := ?h @ enc d @ drop (length (enc d)) rest,
      data_size := data_size ?a + of_nat (length (enc d))\<rparr>, of_nat (length (enc d)))"
    unfolding sdp_gen_pdu_def
    by (rule writesD [OF gen_pdu_writes [OF assms(1) order_refl]]) (use rest in auto)
  then have gen: "sdp_gen_pdu ?a d = Some (settled d, ?a\<lparr>sdata := attr_enc d @ drop (length (enc d)) rest,
      data_size := of_nat (length (attr_enc d))\<rparr>, of_nat (length (enc d)))"
    by (simp add: attr_enc_def)
  have len: "length (attr_enc d) = unat (of_nat (length (attr_enc d)) :: u32)"
    using s(2) unat_lt_32 [of s] by (simp add: length_attr_enc unat_of_nat_32 del: of_nat_add)
  have "sdp_append_to_pdu junk late pdu d =
      map_option (Pair (settled d)) (sdp_append_to_buf pdu (attr_enc d @ drop (length (enc d)) rest)
        (of_nat (length (attr_enc d))))"
    using s(1) set gen
    by (cases "sdp_append_to_buf pdu (attr_enc d @ drop (length (enc d)) rest) (of_nat (length (attr_enc d)))")
      (simp_all add: sdp_append_to_pdu_def M_def [symmetric])
  with len show ?thesis by auto
qed

lemma append_to_pdu_spec:
  assumes "encodable d" "grow late d < 2 ^ 32" "holds c pdu"
    and "length (rec_bytes (c @ attr_enc d)) \<le> unat (buf_size pdu)"
  shows "\<exists>pdu'. sdp_append_to_pdu junk late pdu d = Some (settled d, pdu') \<and>
    holds (c @ attr_enc d) pdu' \<and> buf_size pdu' = buf_size pdu"
proof -
  obtain q where q: "sdp_append_to_pdu junk late pdu d =
      map_option (Pair (settled d)) (sdp_append_to_buf pdu (attr_enc d @ q) (of_nat (length (attr_enc d))))"
    "unat (of_nat (length (attr_enc d)) :: u32) = length (attr_enc d)"
    using append_to_pdu_attr [OF assms(1,2)] by blast
  have "attr_enc d \<noteq> []" by (simp add: attr_enc_def)
  from append_to_buf_spec [OF assms(3) this q(2) [symmetric] assms(4), of q]
  show ?thesis using q(1) by auto
qed

section \<open>All attributes\<close>

lemma attr_pdus_spec:
  assumes "\<forall>d \<in> set ds. encodable d \<and> grow late d < 2 ^ 32" "holds c pdu"
    and "length (rec_bytes (c @ concat (map attr_enc ds))) \<le> unat (buf_size pdu)"
  shows "\<exists>pdu'. attr_pdus junk late ds pdu = Some (map settled ds, pdu') \<and>
    holds (c @ concat (map attr_enc ds)) pdu' \<and> buf_size pdu' = buf_size pdu"
  using assms
proof (induction ds arbitrary: c pdu)
  case Nil
  then show ?case by simp
next
  case (Cons d ds)
  have "length (rec_bytes (c @ attr_enc d)) \<le> length (rec_bytes (c @ concat (map attr_enc (d # ds))))"
    using rec_bytes_mono [of "c @ attr_enc d" "concat (map attr_enc ds)"] by simp
  with Cons.prems obtain pdu1 where 1: "sdp_append_to_pdu junk late pdu d = Some (settled d, pdu1)"
    "holds (c @ attr_enc d) pdu1" "buf_size pdu1 = buf_size pdu"
    using append_to_pdu_spec [of d late c pdu junk] by auto
  with Cons.prems Cons.IH [OF _ 1(2)] show ?case by auto
qed

lemma gen_record_written:
  assumes "\<forall>d \<in> set (attrlist rec). encodable d \<and> grow late d < 2 ^ 32"
    and "attr_sizes late (attrlist rec) 0 = Some s"
    and "length (rec_bytes (concat (map attr_enc (attrlist rec)))) \<le> unat s" "attrlist rec \<noteq> []"
  shows "\<exists>pdu. sdp_gen_record_pdu junk late rec = Some (rec\<lparr>attrlist := map settled (attrlist rec)\<rparr>, pdu) \<and>
    rd (sdata pdu) 0 (unat (data_size pdu)) = Some (rec_bytes (concat (map attr_enc (attrlist rec))))"
proof -
  let ?p = "\<lparr>sdata = replicate (unat s) 0, data_size = 0, buf_size = s\<rparr>"
  have "holds [] ?p" by (simp add: holds_def)
  from attr_pdus_spec [OF assms(1) this, of junk] assms(3)
  obtain pdu where p: "attr_pdus junk late (attrlist rec) ?p = Some (map settled (attrlist rec), pdu)"
    "holds (concat (map attr_enc (attrlist rec))) pdu"
    by auto
  define C where "C = concat (map attr_enc (attrlist rec))"
  have "C \<noteq> []" using assms(4) by (cases "attrlist rec") (auto simp: C_def attr_enc_def)
  with p(2) [folded C_def] have "rd (sdata pdu) 0 (unat (data_size pdu)) = Some (rec_bytes C)"
    by (auto simp: holds_def rd_def)
  then have "rd (sdata pdu) 0 (unat (data_size pdu)) = Some (rec_bytes (concat (map attr_enc (attrlist rec))))"
    by (simp only: C_def)
  with p(1) assms(2) show ?thesis by (simp add: sdp_gen_record_pdu_def)
qed

lemma gen_record_spec:
  assumes "\<forall>d \<in> set (attrlist rec). encodable d \<and> grow late d < 2 ^ 32"
    and "attr_sizes late (attrlist rec) 0 = Some s"
    and "length (rec_bytes (concat (map attr_enc (attrlist rec)))) \<le> unat s" "attrlist rec \<noteq> []"
  shows "\<exists>pdu. sdp_gen_record_pdu junk late rec = Some (rec\<lparr>attrlist := map settled (attrlist rec)\<rparr>, pdu) \<and>
    take (unat (data_size pdu)) (sdata pdu) = rec_bytes (concat (map attr_enc (attrlist rec)))"
  using gen_record_written [OF assms, of junk] by (auto simp: rd_def split: if_splits)

section \<open>Reading it back\<close>

definition received :: "sdp_data \<Rightarrow> sdp_data" where
  "received d = set_attrId (attrId d) (decoded d)"

lemma received_id [simp]: "attrId (received d) = attrId d"
  by (simp add: received_def)

lemma wf_decoded:
  assumes "encodable d"
  shows "wf_data (decoded d)"
proof -
  let ?n = "length (enc d)"
  have "sdp_extract_attr ?n (enc d @ []) (int ?n) 0 sdp_record_alloc =
      Some (Ret (Ptr (decoded d), 0 + int ?n, foldl sdp_pattern_add_uuid sdp_record_alloc (uuids_data (decoded d))))"
    by (rule sdp_extract_attr_enc [OF assms]) auto
  with sdp_extract_attr_safe [of "int ?n" "enc d" sdp_record_alloc ?n] show ?thesis
    by (auto simp: decodes_run_def decodes_def)
qed

lemma insert_attr_last:
  assumes "attrs_ok l" "\<forall>e \<in> set l. attrId e < attrId d"
  shows "insert_attr l d = l @ [d]"
proof -
  have "attrId d \<notin> attrId ` set l" using assms(2) by auto
  moreover have "filter (\<lambda>a. attrId a < attrId d) l = l" "filter (\<lambda>a. attrId d < attrId a) l = []"
    using assms(2) by (auto simp: filter_id_conv filter_empty_conv dest: less_imp_not_less)
  ultimately show ?thesis
    using assms(1) attrs.insert_position [of l d] by (simp add: insert_attr_def attrs_ok_def)
qed

lemma pdu_step_append:
  assumes "rec_ok rec" "wf_data d" "sdp_uuid_to_uuid128 ` set (uuids_data d) \<subseteq> set (pattern rec)"
    and "\<forall>e \<in> set (attrlist rec). attrId e < a"
  shows "\<exists>rec'. pdu_step addr a d rec = Some rec' \<and> rec_ok rec' \<and>
    attrlist rec' = attrlist rec @ [set_attrId a d]"
proof -
  obtain rec' where r: "pdu_step addr a d rec = Some rec'" "rec_ok rec'"
    using pdu_step_ok [OF assms(1-3)] by blast
  obtain c where c: "set_svclass a d (set_handle addr a d rec) = Some ((set_handle addr a d rec)\<lparr>svclass := c\<rparr>)"
    using set_svclass_defined [OF assms(2)] by blast
  let ?rec = "(set_handle addr a d rec)\<lparr>svclass := c\<rparr>"
  have l: "attrlist ?rec = attrlist rec" by (simp add: set_handle_def)
  have ok: "attrs_ok (attrlist ?rec)" using assms(1) unfolding l by (simp add: rec_ok_def)
  have "sdp_attr_replace ?rec a d = Some rec'" using r(1) c by (simp add: pdu_step_def)
  from replace_attrlist [OF this ok] have
    "attrlist rec' = insert_attr (filter (\<lambda>e. attrId e \<noteq> a) (attrlist rec)) (set_attrId a d)"
    unfolding l .
  moreover have "filter (\<lambda>e. attrId e \<noteq> a) (attrlist rec) = attrlist rec"
    using assms(4) by (auto simp: filter_id_conv)
  moreover have "insert_attr (attrlist rec) (set_attrId a d) = attrlist rec @ [set_attrId a d]"
    using assms(4) ok l by (intro insert_attr_last) simp_all
  ultimately show ?thesis using r by auto
qed

lemma pdu_loop_reads:
  assumes "\<forall>d \<in> set ds. encodable d" "attrs_ok ds" "rec_ok rec"
    and "\<forall>d \<in> set ds. \<forall>e \<in> set (attrlist rec). attrId e < attrId d"
    and "length (concat (map attr_enc ds)) < f" "int (length (concat (map attr_enc ds))) \<le> b"
    and "b \<le> int (length (concat (map attr_enc ds) @ q))"
  shows "\<exists>rec'. sdp_extract_pdu_loop f addr (concat (map attr_enc ds) @ q) b x
      (x + int (length (concat (map attr_enc ds)))) rec = Some (Ret rec') \<and>
    rec_ok rec' \<and> attrlist rec' = attrlist rec @ map received ds"
  using assms
proof (induction ds arbitrary: f b x rec)
  case Nil
  then show ?case by (cases f) auto
next
  case (Cons d ds)
  let ?c = "concat (map attr_enc ds)" and ?k = "int (length (enc d))"
  let ?p = "attr_enc d @ ?c @ q"
  obtain g where f: "f = Suc g" using Cons.prems(5) by (cases f) auto
  have enc: "encodable d" using Cons.prems(1) by simp
  have b3: "3 \<le> b" "int (length (enc d)) \<le> b - 3" "length (enc d) \<le> g"
    using Cons.prems(5,6) f by (auto simp: length_attr_enc)
  let ?rec = "foldl sdp_pattern_add_uuid rec (uuids_data (decoded d))"
  have attr: "sdp_extract_attr g (drop 3 ?p) (b - 3) 0 rec = Some (Ret (Ptr (decoded d), ?k, ?rec))"
    using sdp_extract_attr_enc [OF enc b3(3,2), of "?c @ q" 0 rec] by (simp add: attr_enc_def)
  have id: "get_be16 ?p 1 = Some (attrId d)"
    by (simp add: attr_enc_def get_be16_def rd_def)
  from rec_ok_uuids [OF Cons.prems(3) wf_decoded [OF enc]]
  obtain rec1 where s: "pdu_step addr (attrId d) (decoded d) ?rec = Some rec1" "rec_ok rec1"
    "attrlist rec1 = attrlist rec @ [received d]"
    using pdu_step_append [of ?rec "decoded d" "attrId d" addr] wf_decoded [OF enc] Cons.prems(4)
    by (auto simp: received_def)
  have step: "sdp_extract_pdu_loop f addr ?p b x (x + int (length (attr_enc d @ ?c))) rec =
      sdp_extract_pdu_loop g addr (drop (nat (3 + ?k)) ?p) (b - (3 + ?k)) (x + (3 + ?k))
        (x + int (length (attr_enc d @ ?c))) rec1"
    unfolding f
    by (rule pdu_loop_unfold [OF b3(1) _ _ _ b3(2) attr id s(1)])
      (use Cons.prems(7) in \<open>auto simp: length_attr_enc\<close>)
  have dr: "drop (nat (3 + ?k)) ?p = ?c @ q"
    using drop_past [of "attr_enc d" 0 "?c @ q"] by (simp add: length_attr_enc nat_add_distrib)
  have "\<exists>rec'. sdp_extract_pdu_loop g addr (?c @ q) (b - (3 + ?k)) (x + (3 + ?k))
      (x + (3 + ?k) + int (length ?c)) rec1 = Some (Ret rec') \<and>
    rec_ok rec' \<and> attrlist rec' = attrlist rec1 @ map received ds"
  proof (rule Cons.IH)
    show "\<forall>d \<in> set ds. \<forall>e \<in> set (attrlist rec1). attrId e < attrId d"
      using Cons.prems(2,4) s(3) by (auto simp: attrs_ok_def)
  qed (use Cons.prems s(2) f in \<open>auto simp: length_attr_enc attrs_ok_def\<close>)
  with step dr s(3) show ?case by (simp add: length_attr_enc add.assoc)
qed

lemma rec_header_seqtype:
  assumes "n \<le> 65535" "int (length (rec_header n)) \<le> b"
  shows "sdp_extract_seqtype (rec_header n @ q) b =
    Some (int (length (rec_header n)), Some (hd (rec_header n)), Some (int n))"
proof (cases "2 + n \<le> 255")
  case True
  have "sdp_extract_seqtype (SDP_SEQ8 # len_field SDP_SEQ8 n @ q) b =
      Some (1 + int (length (len_field SDP_SEQ8 n)), Some SDP_SEQ8, Some (int n))"
    using True assms by (intro seqtype_enc [of SDP_SEQ8])
      (auto simp: SDP_IS_SEQ_def length_ok_def promoted_def len_field_def rec_header_def)
  with True show ?thesis by (simp add: rec_header_def len_field_def)
next
  case False
  have "sdp_extract_seqtype (SDP_SEQ16 # len_field SDP_SEQ16 n @ q) b =
      Some (1 + int (length (len_field SDP_SEQ16 n)), Some SDP_SEQ16, Some (int n))"
    using False assms by (intro seqtype_enc [of SDP_SEQ16])
      (auto simp: SDP_IS_SEQ_def length_ok_def promoted_def len_field_def rec_header_def)
  with False show ?thesis by (simp add: rec_header_def len_field_def)
qed

lemma attrlist_alloc: "attrlist sdp_record_alloc = []"
  by (simp add: sdp_record_alloc_def)

lemma extract_pdu_reads:
  assumes "\<forall>d \<in> set ds. encodable d" "attrs_ok ds"
    and "length (concat (map attr_enc ds)) \<le> 65535"
    and "length (concat (map attr_enc ds)) < f" "int (length (rec_bytes (concat (map attr_enc ds)))) \<le> b"
    and "b \<le> int (length (rec_bytes (concat (map attr_enc ds)) @ q))"
  shows "\<exists>rec'. sdp_extract_pdu f addr (rec_bytes (concat (map attr_enc ds)) @ q) b =
      Some (Ret (rec', int (length (rec_bytes (concat (map attr_enc ds)))))) \<and>
    rec_ok rec' \<and> attrlist rec' = map received ds"
proof -
  let ?c = "concat (map attr_enc ds)"
  let ?h = "rec_header (length ?c)"
  have st: "sdp_extract_seqtype (?h @ ?c @ q) b = Some (int (length ?h), Some (hd ?h), Some (int (length ?c)))"
    using assms(3,5) by (intro rec_header_seqtype) (auto simp: rec_bytes_def)
  have adv: "adv (?h @ ?c @ q) (int (length ?h)) = Some (?c @ q)" by (simp add: adv_def)
  have loop: "\<exists>rec'. sdp_extract_pdu_loop f addr (?c @ q) (b - int (length ?h)) 0 (0 + int (length ?c))
      sdp_record_alloc = Some (Ret rec') \<and> rec_ok rec' \<and>
      attrlist rec' = attrlist sdp_record_alloc @ map received ds"
    using assms by (intro pdu_loop_reads) (auto simp: rec_bytes_def attrlist_alloc)
  have "int (length ?h) + int (length ?c) < 2 ^ 31" using assms(3) by (simp add: length_rec_header)
  with st adv loop show ?thesis
    by (auto simp: sdp_extract_pdu_def rec_bytes_def attrlist_alloc)
qed

end
