(* ===== verification/SdpSplit.thy ===== *)
theory SdpSplit
  imports SdpReq SdpRecord
begin

text \<open>
  A server may split its answer: every response carries a piece of the attribute lists and, but
  for the last, a continuation state that the next request has to return.  The client sends the
  requests the protocol asks for, and ends with the pieces put together.
\<close>

section \<open>The server\<close>

text \<open>
  A chunk is a piece and the continuation state after it.  \<open>plen\<close> is the parameter length of the
  response, which the client does not look at.
\<close>

definition be16 :: "u16 \<Rightarrow> buf" where
  "be16 v = rev (le_of 2 v)"

lemma length_be16 [simp]: "length (be16 v) = 2"
  by (simp add: be16_def)

definition response_of :: "u8 \<Rightarrow> u16 \<Rightarrow> u16 \<Rightarrow> buf \<Rightarrow> buf \<Rightarrow> buf" where
  "response_of pid plen tid p c =
     (pid + 1) # be16 tid @ be16 plen @ be16 (of_nat (length p)) @ p @ of_nat (length c) # c"

definition request_of :: "u8 \<Rightarrow> u16 \<Rightarrow> buf \<Rightarrow> buf \<Rightarrow> buf" where
  "request_of pid tid body c =
     pid # be16 tid @ be16 (of_nat (length body + 1 + length c)) @ body @ of_nat (length c) # c"

fun serve_of :: "u8 \<Rightarrow> u16 \<Rightarrow> u16 \<Rightarrow> nat \<Rightarrow> buf \<Rightarrow> (buf \<times> buf) list \<Rightarrow> peer list" where
  "serve_of pid plen tid n c [] = []"
| "serve_of pid plen tid n c ((p, d) # xs) =
     (\<lambda>_. ([int (6 + n + length c)], Received (response_of pid plen tid p d))) # serve_of pid plen (tid + 1) n d xs"

text \<open>
  \<open>serve_of\<close> answers whatever it is asked.  Of a peer that \<open>answers\<close> in these pieces only the answers
  to the requests of the protocol are known: the body, and the continuation state of the piece before.
\<close>

fun answers :: "u8 \<Rightarrow> u16 \<Rightarrow> u16 \<Rightarrow> buf \<Rightarrow> buf \<Rightarrow> (buf \<times> buf) list \<Rightarrow> peer list \<Rightarrow> bool" where
  "answers pid plen tid body c [] scr = True"
| "answers pid plen tid body c ((p, d) # xs) [] = False"
| "answers pid plen tid body c ((p, d) # xs) (x # scr) \<longleftrightarrow>
     x (request_of pid tid body c) = ([int (6 + length body + length c)], Received (response_of pid plen tid p d)) \<and>
     answers pid plen (tid + 1) body d xs scr"

lemma serve_answers: "length body = n \<Longrightarrow> answers pid plen tid body c xs (serve_of pid plen tid n c xs)"
  by (induction pid plen tid n c xs rule: serve_of.induct) auto

fun requests_of :: "u8 \<Rightarrow> u16 \<Rightarrow> buf \<Rightarrow> buf \<Rightarrow> (buf \<times> buf) list \<Rightarrow> buf list" where
  "requests_of pid tid body c [] = []"
| "requests_of pid tid body c ((p, d) # xs) = request_of pid tid body c # requests_of pid (tid + 1) body d xs"

abbreviation response :: "u16 \<Rightarrow> u16 \<Rightarrow> buf \<Rightarrow> buf \<Rightarrow> buf" where "response \<equiv> response_of 0x06"
abbreviation request :: "u16 \<Rightarrow> buf \<Rightarrow> buf \<Rightarrow> buf" where "request \<equiv> request_of 0x06"
abbreviation serve :: "u16 \<Rightarrow> u16 \<Rightarrow> nat \<Rightarrow> buf \<Rightarrow> (buf \<times> buf) list \<Rightarrow> peer list" where "serve \<equiv> serve_of 0x06"
abbreviation requests :: "u16 \<Rightarrow> buf \<Rightarrow> buf \<Rightarrow> (buf \<times> buf) list \<Rightarrow> buf list" where "requests \<equiv> requests_of 0x06"

lemma response_def:
  "response plen tid p c = 0x07 # be16 tid @ be16 plen @ be16 (of_nat (length p)) @ p @ of_nat (length c) # c"
  by (simp add: response_of_def)

fun chunks_ok :: "(buf \<times> buf) list \<Rightarrow> bool" where
  "chunks_ok [] = False"
| "chunks_ok [(p, c)] = (p \<noteq> [] \<and> c = [] \<and> length p \<le> 65000)"
| "chunks_ok ((p, c) # xs) = (p \<noteq> [] \<and> c \<noteq> [] \<and> length c \<le> 16 \<and> length p \<le> 65000 \<and> chunks_ok xs)"

section \<open>One exchange\<close>

definition cstate_is :: "req_state \<Rightarrow> buf \<Rightarrow> bool" where
  "cstate_is s c \<longleftrightarrow> length c \<le> 16 \<and> (case cstate s of
     None \<Rightarrow> c = []
   | Some i \<Rightarrow> i + 1 + length c \<le> length (rspbuf s) \<and> rspbuf s ! i = of_nat (length c) \<and>
       take (length c) (drop (i + 1) (rspbuf s)) = c)"

definition req_of :: "u8 \<Rightarrow> buf \<Rightarrow> buf \<Rightarrow> bool" where
  "req_of pid body r \<longleftrightarrow> (\<exists>t1 t2 p1 p2 junk. r = pid # t1 # t2 # p1 # p2 # body @ junk \<and> length r = 2048)"

abbreviation req_is :: "buf \<Rightarrow> buf \<Rightarrow> bool" where "req_is \<equiv> req_of 0x06"

lemmas req_is_def = req_of_def

lemma be16_split: "\<exists>x y. be16 v = [x, y]"
  by (simp add: be16_def numeral_2_eq_2)

lemma copy_cstate_spec:
  assumes "cstate_is s c" "length r = 2048" "i + 17 \<le> 2048" "length pre = i" "r = pre @ junk"
  shows "\<exists>junk'. copy_cstate r i (2048 - int i) (rspbuf s) (cstate s) =
    Some (pre @ (of_nat (length c) # c) @ junk', of_nat (length c) + 1) \<and>
    length (pre @ (of_nat (length c) # c) @ junk') = 2048"
proof -
  have c: "length c \<le> 16" using assms(1) by (simp add: cstate_is_def)
  have lj: "length junk = 2048 - i" using assms by simp
  have u8: "unat (of_nat (length c) :: u8) = length c" using c by (simp add: unat_of_nat)
  then have ui: "uint (of_nat (length c) :: u8) = int (length c)" by (simp add: uint_nat)
  have uc: "ucast (of_nat (length c) :: u8) = (of_nat (length c) :: u32)"
    using u8 c by (intro word_eq_of_nat) (simp add: unat_ucast_up)
  define junk' where "junk' = drop (1 + length c) junk"
  have "1 + length c \<le> length junk" using c lj assms(3) by simp
  then obtain x h where j: "junk = x # h @ junk'" "length h = length c"
    using rest_split [of "length c" junk] by (auto simp: junk'_def)
  have w1: "wr8 r i v = Some (pre @ v # h @ junk')" for v
    using assms(4,5) j wr8_mid [of pre x "h @ junk'" v] by simp
  have w2: "wr (pre @ v # h @ junk') (Suc i) c = Some (pre @ v # c @ junk')" for v
    using wr_mid [of h c "pre @ [v]" junk'] assms(4) j(2) by simp
  have len: "length (pre @ (of_nat (length c) # c) @ junk') = 2048"
    using assms(2,4,5) j by simp
  show ?thesis
  proof (cases "cstate s")
    case None
    then have "c = []" using assms(1) by (simp add: cstate_is_def)
    with None w1 j len show ?thesis by (auto simp: copy_cstate_def)
  next
    case (Some k)
    with assms(1) have k: "k + 1 + length c \<le> length (rspbuf s)" "rspbuf s ! k = of_nat (length c)"
      "take (length c) (drop (k + 1) (rspbuf s)) = c"
      by (auto simp: cstate_is_def)
    have "rd8 (rspbuf s) k = Some (of_nat (length c))" "rd (rspbuf s) (k + 1) (length c) = Some c"
      using k by (auto simp: rd8_def rd_def)
    moreover have "\<not> 2048 - int i \<le> int (length c)" using c assms(3) by simp
    ultimately show ?thesis
      using Some w1 w2 ui u8 uc len
      by (auto simp: copy_cstate_def Let_def)
  qed
qed

lemma send_request_spec:
  assumes "req_of pid body (reqbuf s)" "cstate_is s c" "length body \<le> 1000"
  shows "\<exists>r. send_request (5 + length body) s =
      Some (s\<lparr>reqbuf := r, session_tid := session_tid s + 1,
               sent := sent s @ [request_of pid (session_tid s) body c]\<rparr>,
            of_nat (6 + length body + length c)) \<and>
    req_of pid body r \<and> rd r 1 2 = Some (be16 (session_tid s))"
proof -
  obtain t1 t2 p1 p2 junk where r0: "reqbuf s = pid # t1 # t2 # p1 # p2 # body @ junk"
    "length (reqbuf s) = 2048"
    using assms(1) by (auto simp: req_of_def)
  have c: "length c \<le> 16" using assms(2) by (simp add: cstate_is_def)
  let ?n = "5 + length body"
  let ?pre = "pid # be16 (session_tid s) @ p1 # p2 # body"
  obtain x y where xy: "be16 (session_tid s) = [x, y]" using be16_split by blast
  have 1: "put_be16 (session_tid s) (reqbuf s) 1 = Some (?pre @ junk)"
    using r0 xy by (simp add: put_be16_def be16_def [symmetric] wr_def)
  obtain junk' where 2: "copy_cstate (?pre @ junk) ?n (2048 - int ?n) (rspbuf s) (cstate s) =
      Some (?pre @ (of_nat (length c) # c) @ junk', of_nat (length c) + 1)"
    "length (?pre @ (of_nat (length c) # c) @ junk') = 2048"
    using copy_cstate_spec [OF assms(2), of "?pre @ junk" ?n ?pre junk] r0 xy assms(3) by auto
  define plen where "plen = be16 (of_nat (length body + 1 + length c))"
  have pl: "(ucast (of_nat (length body) + (of_nat (length c) + 1) :: u32) :: u16) = of_nat (length body + 1 + length c)"
    using assms(3) c by (intro word_eq_of_nat) (simp add: unat_word_ariths unat_sub word_le_nat_alt)
  obtain a b where ab: "plen = [a, b]" unfolding plen_def using be16_split by blast
  let ?r = "pid # be16 (session_tid s) @ plen @ body @ (of_nat (length c) # c) @ junk'"
  have 3: "put_be16 (of_nat (length body + 1 + length c)) (?pre @ (of_nat (length c) # c) @ junk') 3 = Some ?r"
    using ab xy by (simp add: put_be16_def be16_def [symmetric] plen_def wr_def)
  have sz: "unat (of_nat ?n + (of_nat (length c) + 1) :: u32) = 6 + length body + length c"
    using assms(3) c by (simp add: unat_word_ariths)
  have 4: "rd ?r 0 (6 + length body + length c) = Some (request_of pid (session_tid s) body c)"
  proof -
    have "?r = request_of pid (session_tid s) body c @ junk'" by (simp add: request_of_def plen_def)
    moreover have "rd (request_of pid (session_tid s) body c @ junk') 0 (6 + length body + length c) =
        Some (request_of pid (session_tid s) body c)"
      by (rule rd_append_hit) (simp add: request_of_def)
    ultimately show ?thesis by (simp only:)
  qed
  have "req_of pid body ?r" using 2(2) xy ab by (auto simp: req_of_def)
  moreover have "rd ?r 1 2 = Some (be16 (session_tid s))" using xy by (simp add: rd_def)
  moreover have "of_nat ?n + (of_nat (length c) + 1) = (of_nat (6 + length body + length c) :: u32)" by simp
  ultimately show ?thesis
    using 1 2(1) 3 4 pl sz by (auto simp: send_request_def Let_def)
qed

lemma of_le_be16 [simp]: "of_le (rev (be16 v)) = v"
  by (simp add: be16_def)

lemma take_response_spec:
  assumes s: "rspbuf s = response_of pid plen tid p c @ junk" "rspsize s = of_nat (8 + length p + j)"
    and len: "length p \<le> 65000" "length c \<le> 16" "j \<le> length c" and pid: "pid \<noteq> 0"
  shows "take_response s = Some (Inr (s\<lparr>attr_list_len := attr_list_len s + int (length p),
     cstate := (if c \<noteq> [] then Some (7 + length p) else if concat_buf s \<noteq> [] then None else cstate s),
     concat_buf := (if c \<noteq> [] \<or> concat_buf s \<noteq> [] then concat_buf s @ p else concat_buf s)\<rparr>))"
proof -
  obtain x y a b where xy: "be16 tid = [x, y]" "be16 plen = [a, b]" using be16_split by metis
  let ?count = "of_nat (length p) :: u16"
  have r: "rspbuf s = (pid + 1) # x # y # a # b # be16 ?count @ p @ (of_nat (length c) # c @ junk)"
    by (simp add: s(1) response_of_def xy)
  have cnt: "unat ?count = length p" using len(1) by simp
  have g: "get_be16 (rspbuf s) 5 = Some ?count"
    by (simp add: r get_be16_def rd_def be16_def)
  have big: "\<not> rspsize s - 5 < 2"
    using len s(2) by (simp add: word_less_nat_alt unat_word_ariths unat_sub word_le_nat_alt)
  have fit: "\<not> rspsize s - 7 < ucast ?count + 1"
    using len s(2) by (simp add: word_less_nat_alt unat_word_ariths unat_sub word_le_nat_alt)
  have cl: "rd8 (rspbuf s) (7 + length p) = Some (of_nat (length c))"
    by (simp add: r rd8_def nth_append)
  have pc: "rd (rspbuf s) 7 (length p) = Some p" by (simp add: r rd_def)
  have nz: "(0 < (of_nat (length c) :: u8)) = (c \<noteq> [])"
  proof -
    have "unat (of_nat (length c) :: u8) = length c" using len(2) by (simp add: unat_of_nat)
    then show ?thesis by (simp add: word_less_nat_alt)
  qed
  have id: "rd8 (rspbuf s) 0 = Some (pid + 1)" by (simp add: r rd8_def)
  show ?thesis
    using g big fit cl pc nz cnt id pid by (simp add: take_response_def Let_def)
qed

text \<open>
  The packet may lack the end of the continuation state: the code does not check its length, and
  what is left in the buffer of an earlier packet completes it.
\<close>

lemma exchange_step_cut:
  assumes "req_of pid body (reqbuf s)" "cstate_is s c" "length body \<le> 1000" "length (rspbuf s) = 65535"
    and "length p \<le> 65000" "length d \<le> 16" "j \<le> length d"
    and "take (length d - j) (drop (8 + length p + j) (rspbuf s)) = drop j d" and "pid \<noteq> 0"
    and "x (request_of pid (session_tid s) body c) =
      ([int (6 + length body + length c)], Received (take (8 + length p + j) (response_of pid plen (session_tid s) p d)))"
  shows "\<exists>s'. exchange_step (5 + length body) x s = Some (Inr s') \<and>
    req_of pid body (reqbuf s') \<and> length (rspbuf s') = 65535 \<and>
    session_tid s' = session_tid s + 1 \<and> sent s' = sent s @ [request_of pid (session_tid s) body c] \<and>
    attr_list_len s' = attr_list_len s + int (length p) \<and>
    cstate s' = (if d \<noteq> [] then Some (7 + length p) else if concat_buf s \<noteq> [] then None else cstate s) \<and>
    concat_buf s' = (if d \<noteq> [] \<or> concat_buf s \<noteq> [] then concat_buf s @ p else concat_buf s) \<and>
    take (8 + length p + length d) (rspbuf s') = response_of pid plen (session_tid s) p d \<and>
    rspsize s' = of_nat (8 + length p + j)"
proof -
  let ?t = "session_tid s" and ?R = "response_of pid plen (session_tid s) p d"
  obtain r where r: "send_request (5 + length body) s =
      Some (s\<lparr>reqbuf := r, session_tid := ?t + 1, sent := sent s @ [request_of pid ?t body c]\<rparr>,
            of_nat (6 + length body + length c))" "req_of pid body r" "rd r 1 2 = Some (be16 ?t)"
    using send_request_spec [OF assms(1-3)] by blast
  let ?n = "8 + length p + j"
  have lr: "length ?R = 8 + length p + length d" by (simp add: response_of_def)
  define junk where "junk = drop (length ?R) (rspbuf s)"
  have fill: "take ?n ?R @ drop ?n (rspbuf s) = ?R @ junk"
  proof -
    define h where "h = (pid + 1) # be16 ?t @ be16 plen @ be16 (of_nat (length p)) @ p @ [of_nat (length d)]"
    have "?R = h @ d" "length h = 8 + length p" by (simp_all add: response_of_def h_def)
    then have "drop ?n ?R = drop j d" by simp
    moreover have "drop ?n (rspbuf s) = take (length d - j) (drop ?n (rspbuf s)) @ junk"
      using append_take_drop_id [of "length d - j" "drop ?n (rspbuf s)"] assms(7) lr
      by (simp add: junk_def add.commute)
    ultimately show ?thesis
      using assms(8) append_take_drop_id [of ?n ?R] by (metis append_assoc)
  qed
  have u: "uint (of_nat (6 + length body + length c) :: u32) = int (6 + length body + length c)"
    using assms(2,3) by (simp add: cstate_is_def uint_nat del: of_nat_add)
  have rsp: "sdp_read_rsp (Received (take ?n ?R)) (rspbuf s) = (int ?n, ?R @ junk)"
    using assms(4-7) lr fill by (simp add: sdp_read_rsp_def Let_def)
  have tid: "rd (?R @ junk) 1 2 = Some (be16 ?t)" by (simp add: response_of_def rd_def)
  have w: "sdp_send_req_w4_rsp ([int (6 + length body + length c)], Received (take ?n ?R)) r (rspbuf s)
      (of_nat (6 + length body + length c)) n = Some (0, ?R @ junk, of_nat ?n)" for n
    unfolding sdp_send_req_w4_rsp_def fst_conv snd_conv u rsp using r(3) tid by simp
  have n5: "\<not> (of_nat ?n :: u32) < 5"
    using assms(5-7) by (simp add: word_less_nat_alt del: of_nat_add)
  let ?s = "s\<lparr>reqbuf := r, session_tid := ?t + 1, sent := sent s @ [request_of pid ?t body c],
              rspbuf := ?R @ junk, rspsize := of_nat ?n\<rparr>"
  have step: "exchange_step (5 + length body) x s = take_response ?s"
    using r(1) w n5 by (simp add: exchange_step_def assms(10) Let_def del: of_nat_add)
  have tr: "take_response ?s = Some (Inr (?s\<lparr>attr_list_len := attr_list_len ?s + int (length p),
     cstate := (if d \<noteq> [] then Some (7 + length p) else if concat_buf ?s \<noteq> [] then None else cstate ?s),
     concat_buf := (if d \<noteq> [] \<or> concat_buf ?s \<noteq> [] then concat_buf ?s @ p else concat_buf ?s)\<rparr>))"
    by (rule take_response_spec [OF _ _ assms(5,6,7,9)]) (simp_all del: of_nat_add)
  have "length (?R @ junk) = 65535" using assms(4-6) lr by (simp add: junk_def)
  then show ?thesis unfolding step tr using r(2) lr by (simp del: of_nat_add)
qed

lemma exchange_step_spec:
  assumes "req_of pid body (reqbuf s)" "cstate_is s c" "length body \<le> 1000" "length (rspbuf s) = 65535"
    and "length p \<le> 65000" "length d \<le> 16" "pid \<noteq> 0"
    and "x (request_of pid (session_tid s) body c) =
      ([int (6 + length body + length c)], Received (response_of pid plen (session_tid s) p d))"
  shows "\<exists>s'. exchange_step (5 + length body) x s = Some (Inr s') \<and>
    req_of pid body (reqbuf s') \<and> length (rspbuf s') = 65535 \<and>
    session_tid s' = session_tid s + 1 \<and> sent s' = sent s @ [request_of pid (session_tid s) body c] \<and>
    attr_list_len s' = attr_list_len s + int (length p) \<and>
    cstate s' = (if d \<noteq> [] then Some (7 + length p) else if concat_buf s \<noteq> [] then None else cstate s) \<and>
    concat_buf s' = (if d \<noteq> [] \<or> concat_buf s \<noteq> [] then concat_buf s @ p else concat_buf s) \<and>
    take (8 + length p + length d) (rspbuf s') = response_of pid plen (session_tid s) p d \<and>
    rspsize s' = of_nat (8 + length p + length d)"
proof -
  have "take (8 + length p + length d) (response_of pid plen (session_tid s) p d) = response_of pid plen (session_tid s) p d"
    by (simp add: response_of_def)
  with exchange_step_cut [OF assms(1-6) order_refl _ assms(7), of x plen] assms(8) show ?thesis by simp
qed

section \<open>The whole exchange\<close>

lemma cstate_after:
  assumes "take (8 + length p + length d) (rspbuf s) = response_of pid plen t p d" "length (rspbuf s) = 65535"
    and "d \<noteq> []" "length d \<le> 16" "length p \<le> 65000" "cstate s = Some (7 + length p)"
  shows "cstate_is s d"
proof -
  obtain x y a b where xy: "be16 t = [x, y]" "be16 plen = [a, b]" using be16_split by metis
  define junk where "junk = drop (8 + length p + length d) (rspbuf s)"
  have "rspbuf s = response_of pid plen t p d @ junk"
    using assms(1) append_take_drop_id [of "8 + length p + length d" "rspbuf s"] by (simp add: junk_def)
  then have r: "rspbuf s = ((pid + 1) # x # y # a # b # be16 (of_nat (length p)) @ p) @ of_nat (length d) # d @ junk"
    by (simp add: response_of_def xy)
  have n: "length ((pid + 1) # x # y # a # b # be16 (of_nat (length p)) @ p) = 7 + length p" by simp
  have "rspbuf s ! (7 + length p) = of_nat (length d)"
    unfolding r n [symmetric] by (rule nth_append_length)
  moreover have "take (length d) (drop (7 + length p + 1) (rspbuf s)) = d"
    unfolding r n [symmetric] drop_past by simp
  ultimately show ?thesis using assms(2-6) by (simp add: cstate_is_def)
qed

lemma exchange_loop_of:
  assumes "chunks_ok xs" "length body \<le> 1000" "req_of pid body (reqbuf s)" "cstate_is s c"
    and "length (rspbuf s) = 65535" "attr_list_len s = int (length (concat_buf s))"
    and "concat_buf s = [] \<Longrightarrow> cstate s = None" "pid \<noteq> 0" "answers pid plen (session_tid s) body c xs scr"
  shows "\<exists>s'. exchange_loop (5 + length body) scr s = Some (Inr s') \<and>
    sent s' = sent s @ requests_of pid (session_tid s) body c xs \<and>
    attr_list_len s' = int (length (concat_buf s @ concat (map fst xs))) \<and>
    length (rspbuf s') = 65535 \<and>
    (concat_buf s' = concat_buf s @ concat (map fst xs) \<or>
     length xs = 1 \<and> concat_buf s' = [] \<and> concat_buf s = [] \<and>
       (\<exists>t. take (8 + length (concat (map fst xs))) (rspbuf s') = response_of pid plen t (concat (map fst xs)) []) \<and>
       rspsize s' = of_nat (8 + length (concat (map fst xs))))"
  using assms
proof (induction xs arbitrary: s c scr rule: chunks_ok.induct)
  case 1
  then show ?case by simp
next
  case (2 p d)
  then have d: "d = []" "p \<noteq> []" "length p \<le> 65000" by auto
  from 2(9) d(1) obtain x scr1 where x: "scr = x # scr1" "x (request_of pid (session_tid s) body c) =
      ([int (6 + length body + length c)], Received (response_of pid plen (session_tid s) p []))" by (cases scr) auto
  from exchange_step_spec [where d = "[]", OF 2(3,4,2,5) d(3) _ 2(8), of x plen] x(2) obtain s1 where s1:
    "exchange_step (5 + length body) x s = Some (Inr s1)"
    "length (rspbuf s1) = 65535" "sent s1 = sent s @ [request_of pid (session_tid s) body c]"
    "attr_list_len s1 = attr_list_len s + int (length p)"
    "cstate s1 = (if concat_buf s \<noteq> [] then None else cstate s)"
    "concat_buf s1 = (if concat_buf s \<noteq> [] then concat_buf s @ p else concat_buf s)"
    "take (8 + length p) (rspbuf s1) = response_of pid plen (session_tid s) p []"
    "rspsize s1 = of_nat (8 + length p)"
    by auto
  have "cstate s1 = None" using s1(5) 2(7) by auto
  with s1 d 2(6) x(1) show ?case by (auto simp del: of_nat_add)
next
  case (3 p d y xs)
  then have ok: "p \<noteq> []" "d \<noteq> []" "length d \<le> 16" "length p \<le> 65000" "chunks_ok (y # xs)" by auto
  from 3(10) obtain x scr1 where x: "scr = x # scr1" "x (request_of pid (session_tid s) body c) =
      ([int (6 + length body + length c)], Received (response_of pid plen (session_tid s) p d))"
    "answers pid plen (session_tid s + 1) body d (y # xs) scr1" by (cases scr) auto
  from exchange_step_spec [OF 3(4,5,3,6) ok(4,3) 3(9), of x plen] x(2) ok(2) obtain s1 where s1:
    "exchange_step (5 + length body) x s = Some (Inr s1)"
    "req_of pid body (reqbuf s1)" "length (rspbuf s1) = 65535" "session_tid s1 = session_tid s + 1"
    "sent s1 = sent s @ [request_of pid (session_tid s) body c]"
    "attr_list_len s1 = attr_list_len s + int (length p)"
    "cstate s1 = Some (7 + length p)" "concat_buf s1 = concat_buf s @ p"
    "take (8 + length p + length d) (rspbuf s1) = response_of pid plen (session_tid s) p d"
    by auto
  have cs: "cstate_is s1 d" by (rule cstate_after [OF s1(9,3) ok(2,3,4) s1(7)])
  have ne: "concat_buf s1 \<noteq> []" using s1(8) ok(1) by simp
  have al: "attr_list_len s1 = int (length (concat_buf s1))" using s1(6,8) 3(7) by simp
  from 3(1) [OF ok(5) 3(3) s1(2) cs s1(3) al _ 3(9)] ne x(3) s1(4) obtain s2 where
    "exchange_loop (5 + length body) scr1 s1 = Some (Inr s2)"
    "sent s2 = sent s1 @ requests_of pid (session_tid s1) body d (y # xs)"
    "attr_list_len s2 = int (length (concat_buf s1 @ concat (map fst (y # xs))))"
    "length (rspbuf s2) = 65535" "concat_buf s2 = concat_buf s1 @ concat (map fst (y # xs))"
    by auto
  with s1 x(1) show ?case by (auto simp del: of_nat_add)
qed

lemma search_attr_pid: "(0x06 :: u8) \<noteq> 0"
  by simp

lemmas exchange_loop_spec = exchange_loop_of [where pid = "0x06", OF _ _ _ _ _ _ _ search_attr_pid]

end
