(* ===== verification/SdpAnswer.thy ===== *)
theory SdpAnswer
  imports SdpSplit
begin

text \<open>
  The records of an answer: the client reads back the attribute lists the server sent, whatever
  the way the answer was split.
\<close>

definition service_bytes :: "sdp_data list \<Rightarrow> buf" where
  "service_bytes ds = rec_bytes (concat (map attr_enc ds))"

definition service_ok :: "sdp_data list \<Rightarrow> bool" where
  "service_ok ds \<longleftrightarrow> (\<forall>d \<in> set ds. encodable d) \<and> attrs_ok ds \<and>
     length (concat (map attr_enc ds)) \<le> 65535"

definition answer :: "u8 \<Rightarrow> sdp_data list list \<Rightarrow> buf" where
  "answer t dss = t # len_field t (length (concat (map service_bytes dss))) @ concat (map service_bytes dss)"

definition answer_ok :: "u8 \<Rightarrow> sdp_data list list \<Rightarrow> bool" where
  "answer_ok t dss \<longleftrightarrow> (\<forall>ds \<in> set dss. service_ok ds) \<and> SDP_IS_SEQ t \<and>
     (let n = length (concat (map service_bytes dss)) in
        length_ok t n \<and> promoted t n = t \<and> n < 2 ^ 30)"

lemma length_service_bytes: "2 \<le> length (service_bytes ds)"
  by (simp add: service_bytes_def rec_bytes_def length_rec_header)

lemma service_bytes_ne [simp]: "service_bytes ds \<noteq> []"
  using length_service_bytes [of ds] by auto

definition reads :: "sdp_record list \<Rightarrow> sdp_data list list \<Rightarrow> bool" where
  "reads rs dss \<longleftrightarrow> map attrlist rs = map (map received) dss \<and> (\<forall>r \<in> set rs. rec_ok r)"

lemma unat_minus_int:
  assumes "j \<le> unat (n :: u32)"
  shows "unat (n - word_of_int (int j)) = unat n - j"
proof -
  have "unat (of_nat j :: u32) = j" using assms unat_lt_32 [of n] by simp
  with assms show ?thesis by (simp add: unat_sub word_le_nat_alt)
qed

lemma scan_records_reads:
  assumes "\<forall>ds \<in> set dss. service_ok ds" "dss \<noteq> []"
    and "m = pre @ concat (map service_bytes dss) @ post" "p = int (length pre)"
    and "unat pdata_len = length (concat (map service_bytes dss)) + k" "k \<le> length post"
    and "unat pdata_len < 2 ^ 31" "0 \<le> scanned"
    and "limit = scanned + int (length (concat (map service_bytes dss)))" "limit < 2 ^ 31"
    and "length (concat (map service_bytes dss)) < f"
  shows "\<exists>rs. scan_records f addr m p pdata_len scanned limit recs = Some (Ret (recs @ rs)) \<and> reads rs dss"
  using assms
proof (induction dss arbitrary: f pre p pdata_len scanned recs)
  case Nil
  then show ?case by simp
next
  case (Cons ds dss)
  let ?c = "concat (map service_bytes dss)" and ?l = "length (service_bytes ds)"
  obtain g where f: "f = Suc g" using Cons.prems(11) by (cases f) auto
  have ok: "service_ok ds" "\<forall>ds \<in> set dss. service_ok ds" using Cons.prems(1) by auto
  have l: "2 \<le> ?l" by (rule length_service_bytes)
  have drop: "drop (nat p) m = service_bytes ds @ ?c @ post"
    using Cons.prems(3,4) by simp
  have sp: "sint pdata_len = int (unat pdata_len)" by (rule sint_small [OF Cons.prems(7)])
  obtain rec where rec: "sdp_extract_pdu g addr (drop (nat p) m) (sint pdata_len) = Some (Ret (rec, int ?l))"
    "rec_ok rec" "attrlist rec = map received ds"
  proof -
    have "length (concat (map attr_enc ds)) + 2 \<le> ?l"
      by (simp add: service_bytes_def rec_bytes_def length_rec_header)
    then have "length (concat (map attr_enc ds)) < g" using Cons.prems(11) f by simp
    moreover have "int (length (rec_bytes (concat (map attr_enc ds)))) \<le> sint pdata_len"
      using Cons.prems(5) sp by (simp add: service_bytes_def [of ds])
    moreover have "sint pdata_len \<le> int (length (rec_bytes (concat (map attr_enc ds)) @ ?c @ post))"
      using Cons.prems(5,6) sp by (simp add: service_bytes_def [of ds])
    ultimately show ?thesis
      using extract_pdu_reads [of ds g "sint pdata_len" "?c @ post" addr] ok(1) that
      unfolding drop by (auto simp: service_ok_def service_bytes_def)
  qed
  have mv: "move m p (int ?l) = Some (p + int ?l)"
    using Cons.prems(3,4) by (simp add: move_def)
  have u: "unat (pdata_len - word_of_int (int ?l)) = length ?c + k"
    using Cons.prems(5) by (subst unat_minus_int) simp_all
  have range: "scanned + int ?l < 2 ^ 31" "- (2 ^ 31) \<le> scanned + int ?l"
    using Cons.prems(8,9,10) by auto
  show ?case
  proof (cases dss)
    case Nil
    then have "\<not> scanned + int ?l < limit" using Cons.prems(9) by simp
    with rec mv range l show ?thesis
      by (intro exI [of _ "[rec]"]) (simp add: f Nil reads_def sdp_list_append_def)
  next
    case (Cons ds2 dss2)
    then have c: "2 \<le> length ?c" using length_service_bytes [of ds2] by simp
    have "dss \<noteq> []" using Cons by simp
    with Cons.prems(9) have lt: "scanned + int ?l < limit" by simp
    have pos: "0 < pdata_len - word_of_int (int ?l)"
      using u \<open>dss \<noteq> []\<close> by (simp add: word_less_nat_alt)
    have "\<exists>rs. scan_records g addr m (p + int ?l) (pdata_len - word_of_int (int ?l)) (scanned + int ?l) limit
        (recs @ [rec]) = Some (Ret ((recs @ [rec]) @ rs)) \<and> reads rs dss"
    proof (rule Cons.IH)
      show "m = (pre @ service_bytes ds) @ ?c @ post" using Cons.prems(3) by simp
      show "p + int ?l = int (length (pre @ service_bytes ds))" using Cons.prems(4) by simp
      show "unat (pdata_len - word_of_int (int ?l)) < 2 ^ 31" using u Cons.prems(5,7) by simp
      show "length ?c < g" using Cons.prems(11) f l by simp
    qed (use ok u Cons.prems Cons in \<open>simp_all\<close>)
    with rec mv range l lt pos show ?thesis
      by (auto simp: f reads_def sdp_list_append_def)
  qed
qed

lemma parse_response_reads:
  assumes "answer_ok t dss" "limit = int (length (answer t dss))"
    and "m = pre @ answer t dss @ post" "k \<le> length post" "k < 10"
    and "unat pdata_len = length (answer t dss) + k" "length (answer t dss) < f"
  shows "\<exists>rs. (do {
        (scanned, u, seqlen) \<leftarrow> sdp_extract_seqtype (drop (length pre) m) (sint pdata_len);
        if scanned \<noteq> 0 \<and> seqlen \<noteq> Some 0
        then scan_records f addr m (int (length pre) + scanned) (pdata_len - word_of_int scanned) scanned limit []
        else Some (Ret []) }) = Some (Ret rs) \<and> reads rs dss"
proof -
  let ?c = "concat (map service_bytes dss)"
  let ?h = "t # len_field t (length ?c)"
  have ok: "\<forall>ds \<in> set dss. service_ok ds" "SDP_IS_SEQ t" "length_ok t (length ?c)"
    "promoted t (length ?c) = t" "length ?c < 2 ^ 30"
    using assms(1) by (auto simp: answer_ok_def Let_def)
  have a: "answer t dss = ?h @ ?c" by (simp add: answer_def)
  have h: "length ?h \<le> 5" "2 \<le> length ?h" using ok(2) by (auto simp: len_field_def SDP_IS_SEQ_def)
  have small: "unat pdata_len < 2 ^ 31" using assms(5,6) a h ok(5) by simp
  have st: "sdp_extract_seqtype (drop (length pre) m) (sint pdata_len) =
      Some (int (length ?h), Some t, Some (int (length ?c)))"
    using seqtype_enc [of t "length ?c" t "sint pdata_len" "?c @ post"] ok sint_small [OF small] assms(3,6) a
    by simp
  show ?thesis
  proof (cases "dss = []")
    case True
    with st show ?thesis by (simp add: reads_def)
  next
    case False
    then have c: "2 \<le> length ?c" using length_service_bytes [of "hd dss"] by (cases dss) auto
    have "\<exists>rs. scan_records f addr m (int (length pre) + int (length ?h)) (pdata_len - word_of_int (int (length ?h)))
        (int (length ?h)) limit [] = Some (Ret ([] @ rs)) \<and> reads rs dss"
    proof (rule scan_records_reads [OF ok(1) False, where k = k and post = post and pre = "pre @ ?h"])
      show "unat (pdata_len - word_of_int (int (length ?h))) = length ?c + k"
        using assms(6) a by (subst unat_minus_int) simp_all
      then show "unat (pdata_len - word_of_int (int (length ?h))) < 2 ^ 31" using ok(5) assms(5) by simp
      show "limit < 2 ^ 31" using assms(2) a h ok(5) by simp
    qed (use assms a in simp_all)
    with st h c show ?thesis by auto
  qed
qed

end
