(* ===== verification/SdpSearch.thy ===== *)
theory SdpSearch
  imports SdpAnswer
begin

text \<open>
  The whole request for a service class and all attributes: what is sent, and what comes back.
\<close>

section \<open>The request\<close>

lemma size_pass_fits:
  assumes "encodable d" "grow late d < 2 ^ 31"
  shows "\<exists>n. sdp_gen_buffer late 0 d = Some n \<and> 3 + length (enc d) \<le> unat n \<and> unat n \<le> grow late d"
proof -
  have "unat (0 :: u32) + grow late d < 2 ^ 32" using assms(2) by simp
  with gen_buffer_sized [OF assms(1), of late] obtain n where
    "sdp_gen_buffer late 0 d = Some n" "sizes 0 n (3 + length (enc d)) (grow late d)"
    unfolding sized_def by blast
  then show ?thesis by (auto simp: sizes_def)
qed

lemma gen_dataseq_writes:
  assumes "sdp_seq_alloc (map (\<lambda>m. (t, Mem m)) seq) = Some (Ptr d)" "encodable d"
    "grow late d < 2 ^ 31"
  shows "gen_dataseq_pdu junk late seq t = Some (enc d, int (length (enc d)))"
proof -
  obtain n where n:
    "sdp_gen_buffer late 0 d = Some n" "3 + length (enc d) \<le> unat n" "unat n \<le> grow late d"
    using size_pass_fits [OF assms(2,3)] by blast
  let ?b = "\<lparr>sdata = map junk [0..<unat n], data_size = 0, buf_size = n\<rparr>"
  let ?k = "length (enc d)"
  have w: "sdp_gen_pdu ?b d = Some (settled d,
      ?b\<lparr>sdata := [] @ enc d @ drop ?k (map junk [0..<unat n]),
         data_size := data_size ?b + of_nat ?k\<rparr>, of_nat ?k)"
    unfolding sdp_gen_pdu_def using n(2)
    by (intro writesD [OF gen_pdu_writes [OF assms(2) order_refl]]) auto
  have k: "unat (of_nat ?k :: u32) = ?k" using n assms(3) by (simp add: unat_of_nat)
  moreover have "sint (of_nat ?k :: u32) = int ?k"
    using n assms(3) k by (subst sint_small) simp_all
  ultimately show ?thesis
    using assms(1) n(1) w rd_append_hit [of "enc d" ?k "drop ?k (map junk [0..<unat n])"]
    by (simp add: gen_dataseq_pdu_def)
qed

lemma get_le_of:
  "get_le16 (le_of 2 (v :: u16) @ q) 0 = Some v"
  "get_le32 (le_of 4 (w :: u32)) 0 = Some w"
  by (simp_all add: get_le16_def get_le32_def rd_def)

lemma uuid16_create [simp]: "uuid16 (sdp_uuid16_create g) = g"
  by (simp add: sdp_uuid16_create_def uuid16_def)

lemmas alloc_simps = sdp_seq_alloc_def sdp_data_alloc_def sdp_data_alloc_with_length_def sdp_seq_append_def
  mem_of_def chain_of_def seq_header_def dtd_groups mem_simps

definition body_of :: "u16 \<Rightarrow> buf" where
  "body_of g = [0x35, 3, 0x19] @ be16 g @ [0xFF, 0xFF, 0x35, 5, 0x0A, 0, 0, 0xFF, 0xFF]"

lemma length_search_body [simp]: "length (body_of g) = 14"
  by (simp add: body_of_def)

lemma searchseq_pdu:
  "gen_searchseq_pdu junk late [sdp_uuid16_create g] = Some ([0x35, 3, 0x19] @ be16 g, 5)"
proof -
  let ?d = "Sdp_data SDP_SEQ8 0 5 (Vseq [Sdp_data SDP_UUID16 0 3 (Vuuid (sdp_uuid16_create g))])"
  have "sdp_seq_alloc (map (\<lambda>m. (SDP_UUID16, Mem m)) [uval (sdp_uuid16_create g)]) = Some (Ptr ?d)"
    by (simp add: alloc_simps sdp_uuid16_create_def get_le_of)
  moreover have "encodable ?d" by (simp add: leaf_simps sdp_uuid16_create_def)
  moreover have "grow late ?d < 2 ^ 31" by (simp add: sdp_get_data_type_size_def)
  moreover have "enc ?d = [0x35, 3, 0x19] @ be16 g"
    by (simp add: leaf_simps be16_def)
  ultimately show ?thesis
    using gen_dataseq_writes [of SDP_UUID16 "[uval (sdp_uuid16_create g)]" ?d late junk]
    by (simp add: gen_searchseq_pdu_def sdp_uuid16_create_def del: enc.simps)
qed

lemma le_ffff: "le_of 4 (65535 :: u32) = [0xFF, 0xFF, 0, 0]" "le_of 2 (65535 :: u16) = [0xFF, 0xFF]"
  by code_simp+

lemma attridseq_pdu:
  "gen_attridseq_pdu junk late [le_of 4 (0x0000FFFF :: u32)] SDP_UINT32 =
     Some ([0x35, 5, 0x0A, 0, 0, 0xFF, 0xFF], 7)"
proof -
  let ?d = "Sdp_data SDP_SEQ8 0 7 (Vseq [Sdp_data SDP_UINT32 0 5 (V32 0xFFFF)])"
  have "sdp_seq_alloc (map (\<lambda>m. (SDP_UINT32, Mem m)) [le_of 4 (0x0000FFFF :: u32)]) = Some (Ptr ?d)"
    using get_le_of(2) [of 65535] by (simp add: alloc_simps)
  moreover have "encodable ?d" by (simp add: length_ok_def promoted_def len_field_def Let_def dtd_groups)
  moreover have "grow late ?d < 2 ^ 31" by (simp add: sdp_get_data_type_size_def)
  moreover have "enc ?d = [0x35, 5, 0x0A, 0, 0, 0xFF, 0xFF]"
    by (simp add: len_field_def promoted_def le_ffff)
  ultimately show ?thesis
    using gen_dataseq_writes [of SDP_UINT32 "[le_of 4 (0x0000FFFF :: u32)]" ?d late junk]
    by (simp add: gen_attridseq_pdu_def del: enc.simps)
qed

lemma list_of_five: "length xs = 5 \<Longrightarrow> \<exists>a b c d e. xs = [a, b, c, d, e]"
  by (auto simp: length_Suc_conv numeral_eq_Suc)

lemma start_request_spec:
  assumes "length req = 2048"
  shows "\<exists>r. start_request junk late req [sdp_uuid16_create g] True [le_of 4 (0x0000FFFF :: u32)] =
    Some (Inr (r, 19)) \<and> req_is (body_of g) r"
proof -
  have "length (take 5 req) = 5" using assms by simp
  then obtain a b c d e where h: "take 5 req = [a, b, c, d, e]"
    using list_of_five by metis
  define rest where "rest = drop 5 req"
  have req: "req = a # b # c # d # e # rest"
    using h append_take_drop_id [of 5 req] by (simp add: rest_def)
  have lr: "length rest = 2043" using assms by (simp add: rest_def)
  obtain x y where g: "be16 g = [x, y]" using be16_split by blast
  have f: "rev (le_of 2 (0xFFFF :: u16)) = [0xFF, 0xFF]" by (simp add: le_ffff)
  show ?thesis
    unfolding start_request_def searchseq_pdu if_True attridseq_pdu req g
    using lr by (simp add: wr8_def wr_def put_be16_def f req_is_def body_of_def g)
qed

section \<open>The answer\<close>

lemma parse_single:
  assumes "answer_ok t dss" "length (answer t dss) < f"
    and "attr_list_len s = int (length (answer t dss))" "concat_buf s = []"
    and "take (8 + length (answer t dss)) (rspbuf s) = response plen tid (answer t dss) []"
    and "rspsize s = of_nat (8 + length (answer t dss))" "length (answer t dss) \<le> 65527"
  shows "\<exists>rs. parse_response f addr s = Some (Ret rs) \<and> reads rs dss"
proof -
  let ?a = "answer t dss"
  define junk where "junk = drop (8 + length ?a) (rspbuf s)"
  define pre where "pre = 0x07 # be16 tid @ be16 plen @ be16 (of_nat (length ?a))"
  have pre: "length pre = 7" by (simp add: pre_def)
  have m: "rspbuf s = pre @ ?a @ 0 # junk"
    using assms(5) append_take_drop_id [of "8 + length ?a" "rspbuf s"]
    by (simp add: junk_def response_def pre_def)
  have "unat (rspsize s - 7) = length ?a + 1"
    using assms(6,7) by (simp add: unat_word_ariths unat_sub word_le_nat_alt)
  with assms m have "\<exists>rs. (do {
        (scanned, u, seqlen) \<leftarrow> sdp_extract_seqtype (drop (length pre) (rspbuf s)) (sint (rspsize s - 7));
        if scanned \<noteq> 0 \<and> seqlen \<noteq> Some 0
        then scan_records f addr (rspbuf s) (int (length pre) + scanned)
          (rspsize s - 7 - word_of_int scanned) scanned (attr_list_len s) []
        else Some (Ret []) }) = Some (Ret rs) \<and> reads rs dss"
    by (intro parse_response_reads [where post = "0 # junk" and k = 1]) simp_all
  moreover have "0 < attr_list_len s" using assms(3) by (simp add: answer_def)
  ultimately show ?thesis
    using assms(4) unfolding parse_response_def pre by simp
qed

lemma parse_concat:
  assumes "answer_ok t dss" "length (answer t dss) < f"
    and "attr_list_len s = int (length (answer t dss))" "concat_buf s = answer t dss"
  shows "\<exists>rs. parse_response f addr s = Some (Ret rs) \<and> reads rs dss"
proof -
  let ?a = "answer t dss"
  have ne: "?a \<noteq> []" by (simp add: answer_def)
  have "length ?a < 2 ^ 32"
    using assms(1) by (auto simp: answer_ok_def answer_def len_field_def Let_def)
  then have "unat (of_nat (length ?a) :: u32) = length ?a + 0" by (simp add: unat_of_nat)
  with assms(1,2,3) have "\<exists>rs. (do {
        (scanned, u, seqlen) \<leftarrow> sdp_extract_seqtype (drop (length ([] :: buf)) ?a) (sint (of_nat (length ?a) :: u32));
        if scanned \<noteq> 0 \<and> seqlen \<noteq> Some 0
        then scan_records f addr ?a (int (length ([] :: buf)) + scanned)
          (of_nat (length ?a) - word_of_int scanned) scanned (attr_list_len s) []
        else Some (Ret []) }) = Some (Ret rs) \<and> reads rs dss"
    by - (rule parse_response_reads [where pre = "[]" and post = "[]" and k = 0]; simp)
  then show ?thesis
    unfolding parse_response_def assms(4) list.size of_nat_0 using assms(3) ne by simp
qed

lemma search_attr_req_reads:
  assumes "length reqmem = 2048" "length rspmem = 65535"
    and "chunks_ok xs" "concat (map fst xs) = answer t dss" "answer_ok t dss"
    and "length (answer t dss) < f" "answers 0x06 plen tid (body_of g) [] xs scr"
  shows "\<exists>rs. sdp_service_search_attr_req f junk late addr reqmem rspmem tid scr
      [sdp_uuid16_create g] True [le_of 4 (0x0000FFFF :: u32)] = Some (Ret (0, rs)) \<and> reads rs dss"
proof -
  obtain r where r: "start_request junk late reqmem [sdp_uuid16_create g] True [le_of 4 (0x0000FFFF :: u32)] =
    Some (Inr (r, 19))" "req_is (body_of g) r"
    using start_request_spec [OF assms(1)] by blast
  let ?s = "\<lparr>reqbuf = r, rspbuf = rspmem, rspsize = 0, attr_list_len = 0, cstate = None,
            concat_buf = [], session_tid = tid, sent = []\<rparr>"
  have "cstate_is ?s []" by (simp add: cstate_is_def)
  with exchange_loop_spec [of xs "body_of g" ?s "[]" plen scr] assms r(2) obtain s where
    s: "exchange_loop 19 scr ?s = Some (Inr s)"
      "attr_list_len s = int (length (answer t dss))" "length (rspbuf s) = 65535"
    and c: "concat_buf s = answer t dss \<or> concat_buf s = [] \<and>
       (\<exists>u. take (8 + length (answer t dss)) (rspbuf s) = response plen u (answer t dss) []) \<and>
       rspsize s = of_nat (8 + length (answer t dss))"
    by auto
  have "\<exists>rs. parse_response f addr s = Some (Ret rs) \<and> reads rs dss"
    using c
  proof (elim disjE conjE exE)
    assume "concat_buf s = answer t dss"
    with assms(5,6) s(2) show ?thesis by (intro parse_concat)
  next
    fix u assume a: "take (8 + length (answer t dss)) (rspbuf s) = response plen u (answer t dss) []"
      "concat_buf s = []" "rspsize s = of_nat (8 + length (answer t dss))"
    have "8 + length (answer t dss) \<le> length (rspbuf s)"
      using arg_cong [OF a(1), of length] by (simp add: response_def min_def split: if_splits)
    with a assms(5,6) s(2,3) show ?thesis by (intro parse_single) auto
  qed
  with r(1) s(1) show ?thesis by (auto simp: sdp_service_search_attr_req_def)
qed

end
