(* ===== verification/SdpBrowse.thy ===== *)
theory SdpBrowse
  imports SdpTool SdpPrint SdpSearch
begin

text \<open>
  The browse from end to end: a peer that answers every request with its services, and the text
  the tool prints for it.
\<close>

section \<open>The services of a peer\<close>

text \<open>
  The services of a browse group, in the order the peer lists them; a \<open>Group\<close> is a record that
  names another browse group, with the services in that one.
\<close>

datatype entry = Service "sdp_data list" | Group "sdp_data list" u16 "entry list"

primrec attrs_of :: "entry \<Rightarrow> sdp_data list" where
  "attrs_of (Service ds) = ds"
| "attrs_of (Group ds h es) = ds"

text \<open>The group a record names in its attribute \<open>GroupID\<close>.\<close>

fun group_of :: "sdp_data list \<Rightarrow> u16 option" where
  "group_of [] = None"
| "group_of (Sdp_data t a n v # ds) =
     (if a = 0x0200 then (case v of Vuuid u \<Rightarrow> Some (uuid16 u) | _ \<Rightarrow> None) else group_of ds)"

definition typed_group :: "sdp_data list \<Rightarrow> bool" where
  "typed_group ds \<longleftrightarrow> (\<forall>d \<in> set ds. attrId d = 0x0200 \<longrightarrow> dtd d = SDP_UUID16)"

primrec entry_ok :: "u16 \<Rightarrow> entry \<Rightarrow> bool" where
  "entry_ok g (Service ds) \<longleftrightarrow> typed_group ds \<and> (group_of ds = None \<or> group_of ds = Some g)"
| "entry_ok g (Group ds h es) \<longleftrightarrow> typed_group ds \<and> group_of ds = Some h \<and> h \<noteq> g \<and>
     list_all (entry_ok h) es"

text \<open>The groups in the order the tool visits them, each with its services, and the text it prints.\<close>

type_synonym level = "u16 \<times> entry list"

primrec entry_levels :: "entry \<Rightarrow> level list" where
  "entry_levels (Service ds) = []"
| "entry_levels (Group ds h es) = (h, es) # concat (map entry_levels es)"

definition levels :: "u16 \<Rightarrow> entry list \<Rightarrow> level list" where
  "levels g es = (g, es) # concat (map entry_levels es)"

primrec entry_depth :: "entry \<Rightarrow> nat" where
  "entry_depth (Service ds) = 0"
| "entry_depth (Group ds h es) = Suc (foldr max (map entry_depth es) 0)"

definition record_text :: "sdp_data list \<Rightarrow> string" where
  "record_text ds = the (convert_sdp_record_to_xml (map received ds))"

definition browsing :: "string \<Rightarrow> string" where
  "browsing str = ''Browsing '' @ str @ '' ...'' @ [CHR 0x0A]"

primrec entry_text :: "string \<Rightarrow> entry \<Rightarrow> string" where
  "entry_text str (Service ds) = record_text ds"
| "entry_text str (Group ds h es) = record_text ds @ browsing str @ concat (map (entry_text str) es)"

definition level_text :: "string \<Rightarrow> entry list \<Rightarrow> string" where
  "level_text str es = browsing str @ concat (map (entry_text str) es)"

text \<open>
  \<open>serves f c g dss\<close>: the connection \<open>c\<close> comes up and answers the request for the services of the
  group \<open>g\<close> with \<open>dss\<close>, in pieces of its choice.  What it answers to a request for another group, or
  with another continuation state, is open.
\<close>

definition serves :: "nat \<Rightarrow> string + session \<Rightarrow> u16 \<Rightarrow> sdp_data list list \<Rightarrow> bool" where
  "serves f c g dss \<longleftrightarrow> (\<exists>sess plen xs t. c = Inr sess \<and> length (reqmem sess) = 2048 \<and>
     length (rspmem sess) = 65535 \<and> answers 0x06 plen 0 (body_of g) [] xs (script sess) \<and> chunks_ok xs \<and>
     concat (map fst xs) = answer t dss \<and> answer_ok t dss \<and> length (answer t dss) < f)"

definition serves_level :: "nat \<Rightarrow> string + session \<Rightarrow> level \<Rightarrow> bool" where
  "serves_level f c l \<longleftrightarrow> serves f c (fst l) (map attrs_of (snd l))"

definition serves_all :: "nat \<Rightarrow> network \<Rightarrow> nat \<Rightarrow> level list \<Rightarrow> bool" where
  "serves_all f net k ls \<longleftrightarrow> (\<forall>i < length ls. serves_level f (net (k + i)) (ls ! i))"

lemma serves_all_Cons:
  "serves_all f net k (l # ls) \<longleftrightarrow> serves_level f (net k) l \<and> serves_all f net (Suc k) ls"
  by (auto simp: serves_all_def nth_Cons split: nat.splits)

lemma serves_all_append:
  "serves_all f net k (xs @ ys) \<longleftrightarrow> serves_all f net k xs \<and> serves_all f net (k + length xs) ys"
  by (induction xs arbitrary: k) (simp_all add: serves_all_Cons, simp add: serves_all_def)

section \<open>The group of a record that was read\<close>

lemma find_received:
  assumes "typed_group ds" "\<forall>d \<in> set ds. wf_data d"
  shows "case group_of ds of
     None \<Rightarrow> sdp_list_find (map received ds) 0x0200 sdp_attrid_comp_func = None
   | Some g \<Rightarrow> \<exists>d. sdp_list_find (map received ds) 0x0200 sdp_attrid_comp_func = Some d \<and>
       val d = Vuuid (sdp_uuid16_create g)"
  using assms
proof (induction ds rule: group_of.induct)
  case 1
  then show ?case by simp
next
  case (2 t a n v ds)
  show ?case
  proof (cases "a = 0x0200")
    case True
    with 2(2,3) have "t = SDP_UUID16" "wf_val t n v" by (auto simp: typed_group_def)
    then have "\<exists>u. v = Vuuid u" by (cases v) (auto simp: dtd_groups)
    with True \<open>t = SDP_UUID16\<close> show ?thesis
      by (auto simp: canon_uuid_def received_def sdp_attrid_comp_func_def)
  next
    case False
    moreover from this have "uint a \<noteq> 0x0200" by (metis of_int_numeral word_of_int_uint)
    then have "sdp_attrid_comp_func (received (Sdp_data t a n v)) 0x0200 \<noteq> 0"
      by (auto simp: sdp_attrid_comp_func_def)
    ultimately show ?thesis using 2 by (auto simp: typed_group_def split: option.splits)
  qed
qed

lemma val_uuid_id [simp]: "val_uuid addr (Vuuid (sdp_uuid16_create g)) = sdp_uuid16_create g"
  by (simp add: val_uuid_def val_image_def sdp_uuid16_create_def)

lemma group_id_received:
  assumes "typed_group ds" "\<forall>d \<in> set ds. wf_data d" "attrlist rec = map received ds"
  shows "sdp_get_group_id addr rec = (case group_of ds of
     None \<Rightarrow> (- 1, None) | Some g \<Rightarrow> (0, Some (sdp_uuid16_create g)))"
  using find_received [OF assms(1,2)] assms(3)
  by (auto simp: sdp_get_group_id_def sdp_data_get_def split: option.splits)

section \<open>The run of the tool\<close>

text \<open>The state after the groups \<open>ls\<close> have been visited and \<open>x\<close> printed.\<close>

definition visited :: "level list \<Rightarrow> string \<Rightarrow> tool \<Rightarrow> tool" where
  "visited ls x s = s\<lparr>attempts := attempts s + length ls, printed := printed s @ x\<rparr>"

lemma record_text:
  assumes "rec_ok rec" "attrlist rec = map received ds"
  shows "convert_sdp_record_to_xml (attrlist rec) = Some (record_text ds)"
  using assms convert_record_total [of "attrlist rec"] by (auto simp: rec_ok_def record_text_def)

lemma browse_records_reads:
  assumes "reads rs (map attrs_of es)" "\<forall>e \<in> set es. entry_ok g e"
    and "\<forall>e \<in> set es. \<forall>d \<in> set (attrs_of e). wf_data d"
    and "\<And>ds h sub (s :: tool). Group ds h sub \<in> set es \<Longrightarrow> serves_all f net (attempts s) (levels h sub) \<Longrightarrow>
       search (sdp_uuid16_create h) s = Some (Ret (0, visited (levels h sub) (level_text str sub) s))"
    and "serves_all f net (attempts s) (concat (map entry_levels es))"
  shows "browse_records search addr (sdp_uuid16_create g) rs s =
    Some (Ret (visited (concat (map entry_levels es)) (concat (map (entry_text str) es)) s))"
  using assms
proof (induction es arbitrary: rs s)
  case Nil
  then show ?case by (simp add: reads_def visited_def)
next
  case (Cons e es)
  from Cons.prems(1) obtain r rs2 where rs: "rs = r # rs2" "rec_ok r" "attrlist r = map received (attrs_of e)"
    "reads rs2 (map attrs_of es)"
    by (auto simp: reads_def map_eq_Cons_conv)
  have xml: "convert_sdp_record_to_xml (attrlist r) = Some (record_text (attrs_of e))"
    by (rule record_text [OF rs(2,3)])
  have grp: "typed_group (attrs_of e) \<Longrightarrow> sdp_get_group_id addr r = (case group_of (attrs_of e) of
      None \<Rightarrow> (- 1, None) | Some g \<Rightarrow> (0, Some (sdp_uuid16_create g)))"
    using Cons.prems(3) rs(3) by (intro group_id_received) auto
  let ?s = "print (record_text (attrs_of e)) s"
  have rest: "serves_all f net (attempts (s2 :: tool)) (concat (map entry_levels es)) \<Longrightarrow>
      browse_records search addr (sdp_uuid16_create g) rs2 s2 =
        Some (Ret (visited (concat (map entry_levels es)) (concat (map (entry_text str) es)) s2))" for s2
    using Cons.prems by (intro Cons.IH rs(4)) auto
  show ?case
  proof (cases e)
    case (Service ds)
    with Cons.prems(5) have "serves_all f net (attempts ?s) (concat (map entry_levels es))"
      by (simp add: print_def)
    with rest [of ?s] xml grp Cons.prems(2) Service rs(1) show ?thesis
      by (auto simp: visited_def print_def)
  next
    case (Group ds h sub)
    let ?s2 = "visited (levels h sub) (level_text str sub) ?s"
    from Cons.prems(5) Group have net: "serves_all f net (attempts ?s) (levels h sub)"
      "serves_all f net (attempts ?s2) (concat (map entry_levels es))"
      by (simp_all add: print_def visited_def levels_def serves_all_append serves_all_Cons)
    have "search (sdp_uuid16_create h) ?s = Some (Ret (0, ?s2))"
      using Group net(1) by (intro Cons.prems(4)) auto
    with rest [OF net(2)] xml grp Cons.prems(2) Group rs(1) show ?thesis
      by (auto simp: visited_def print_def levels_def level_text_def)
  qed
qed

lemma entry_depth_le: "e \<in> set es \<Longrightarrow> entry_depth e \<le> foldr max (map entry_depth es) 0"
  by (induction es) auto

lemma serves_reads:
  assumes "serves f (Inr sess) g dss"
  shows "\<exists>rs. sdp_service_search_attr_req f junk late addr (reqmem sess) (rspmem sess) 0 (script sess)
      [sdp_uuid16_create g] True [le_of 4 (0x0000FFFF :: u32)] = Some (Ret (0, rs)) \<and> reads rs dss"
  using assms unfolding serves_def by (elim exE conjE) (rule search_attr_req_reads; simp)

lemma serves_wf:
  assumes "serves f c g dss"
  shows "\<forall>ds \<in> set dss. \<forall>d \<in> set ds. wf_data d"
  using assms by (auto simp: serves_def answer_ok_def service_ok_def encodable_wf)

lemma do_search_visits:
  assumes "\<forall>e \<in> set es. entry_ok g e" "foldr max (map entry_depth es) 0 < n"
    and "serves_all f net (attempts s) (levels g es)"
  shows "do_search n f junk late addr net bdaddr (sdp_uuid16_create g) s =
    Some (Ret (0, visited (levels g es) (level_text (ba2str bdaddr) es) s))"
  using assms
proof (induction n arbitrary: es g s)
  case 0
  then show ?case by simp
next
  case (Suc n)
  let ?str = "ba2str bdaddr"
  let ?s = "print (browsing ?str) (s\<lparr>attempts := attempts s + 1\<rparr>)"
  from Suc.prems(3) have c: "serves f (net (attempts s)) g (map attrs_of es)"
    and net: "serves_all f net (Suc (attempts s)) (concat (map entry_levels es))"
    by (simp_all add: levels_def serves_all_Cons serves_level_def)
  from c obtain sess where sess: "net (attempts s) = Inr sess" by (auto simp: serves_def)
  obtain rs where rs: "sdp_service_search_attr_req f junk late addr (reqmem sess) (rspmem sess) 0 (script sess)
      [sdp_uuid16_create g] True [le_of 4 (0x0000FFFF :: u32)] = Some (Ret (0, rs))" "reads rs (map attrs_of es)"
    using serves_reads c sess by metis
  have "browse_records (do_search n f junk late addr net bdaddr) addr (sdp_uuid16_create g) rs ?s =
    Some (Ret (visited (concat (map entry_levels es)) (concat (map (entry_text ?str) es)) ?s))"
  proof (rule browse_records_reads [OF rs(2) Suc.prems(1)])
    show "\<forall>e \<in> set es. \<forall>d \<in> set (attrs_of e). wf_data d" using serves_wf [OF c] by auto
    show "serves_all f net (attempts ?s) (concat (map entry_levels es))" using net by (simp add: print_def)
  next
    fix ds h sub and s :: tool
    assume sub: "Group ds h sub \<in> set es" "serves_all f net (attempts s) (levels h sub)"
    have "foldr max (map entry_depth sub) 0 < n"
      using entry_depth_le [OF sub(1)] Suc.prems(2) by simp
    moreover have "\<forall>e \<in> set sub. entry_ok h e"
      using Suc.prems(1) sub(1) by (auto simp: list_all_iff)
    ultimately show "do_search n f junk late addr net bdaddr (sdp_uuid16_create h) s =
        Some (Ret (0, visited (levels h sub) (level_text ?str sub) s))"
      using sub(2) by (intro Suc.IH)
  qed
  with rs(1) sess show ?case
    by (simp add: Let_def browsing_def visited_def print_def levels_def level_text_def)
qed

end
