(* ===== verification/SdpFaults.thy ===== *)
theory SdpFaults
  imports SdpBrowse
begin

text \<open>
  What goes wrong: inputs of a peer on which the SDP code of the tool does not end, leaves its
  buffers, discloses memory or prints something else than what was sent.
\<close>

section \<open>A sequence header cut off\<close>

lemma cut_header:
  assumes "SDP_IS_SEQ t \<or> SDP_IS_ALT t" "1 \<le> b" "b \<le> header_width t"
  shows "sdp_extract_attr (Suc f) (t # q) b 0 rec = Some (Ret (Ptr (Sdp_data t 0 0 (Vseq [])), 0, rec))"
proof -
  have "sdp_extract_seqtype (t # q) b = Some (0, Some t, None)"
    using assms by (auto simp: sdp_extract_seqtype_def seq_size_def dtd_groups mem_simps header_width_def)
  with assms show ?thesis by (simp add: extract_seq_def mem_simps)
qed

lemma cut_header_loop:
  assumes "SDP_IS_SEQ t \<or> SDP_IS_ALT t" "1 \<le> b" "b \<le> header_width t" "0 < n"
  shows "extract_seq_loop f (\<lambda>p b rec. sdp_extract_attr f' p b 0 rec) (t # q) b 0 n ds rec = Some NoFuel"
proof (induction f arbitrary: ds)
  case (Suc f)
  show ?case
  proof (cases f')
    case (Suc g)
    have "adv (t # q) 0 = Some (t # q)" by (simp add: adv_def)
    with Suc \<open>\<And>ds. _ = Some NoFuel\<close> assms cut_header [OF assms(1-3), of g q rec] show ?thesis
      by (simp del: sdp_extract_attr.simps)
  qed (use assms in \<open>simp add: header_width_def\<close>)
qed simp

lemma cut_header_endless:
  assumes "SDP_IS_SEQ t \<or> SDP_IS_ALT t" "3 \<le> b" "b - 2 \<le> header_width t" "0 < n"
  shows "sdp_extract_attr f (SDP_SEQ8 # n # t # q) b 0 rec = Some NoFuel"
proof (cases f)
  case (Suc g)
  have "sdp_extract_seqtype (SDP_SEQ8 # n # t # q) b = Some (2, Some SDP_SEQ8, Some (uint n))"
    using assms(2) by (simp add: sdp_extract_seqtype_def seq_size_def mem_simps)
  moreover have "adv (SDP_SEQ8 # n # t # q) 2 = Some (t # q)" by (simp add: adv_def)
  moreover have "0 < uint n" using assms(4) by (simp add: word_less_def)
  ultimately show ?thesis
    using cut_header_loop [OF assms(1) _ assms(3), of "uint n" g g q "[]" rec] assms(2)
    by (simp add: Suc extract_seq_def SDP_IS_SEQ_def mem_simps)
qed simp

text \<open>
  The same in an answer of one record with one attribute.  The bytes the parser may read include the
  length of the continuation state where the answer was not split, so the header is a wide one.
\<close>

definition cut_answer :: buf where
  "cut_answer = [0x35, 8, 0x35, 6, 0x09, 0, 1, 0x35, 1, 0x36]"

lemma scan_cut:
  assumes "sint pdata_len = 8 \<or> sint pdata_len = 9"
  shows "scan_records f addr (pre @ [0x35, 6, 0x09, 0, 1, 0x35, 1, 0x36] @ post) (int (length pre)) pdata_len
    scanned limit recs = Some NoFuel"
proof (cases f)
  case (Suc g)
  let ?p = "[0x35, 6, 0x09, 0, 1, 0x35, 1, 0x36] @ post"
  have st: "sdp_extract_seqtype ?p (sint pdata_len) = Some (2, Some SDP_SEQ8, Some 6)"
    using assms by (auto simp: sdp_extract_seqtype_def seq_size_def mem_simps)
  have loop: "sdp_extract_pdu_loop g addr ([0x09, 0, 1, 0x35, 1, 0x36] @ post) (sint pdata_len - 2) 0 6
      sdp_record_alloc = Some NoFuel"
  proof (cases g)
    case (Suc h)
    have "sdp_extract_attr h (SDP_SEQ8 # 1 # 0x36 # post) (sint pdata_len - 2 - 3) 0 sdp_record_alloc = Some NoFuel"
      using assms by (intro cut_header_endless) (auto simp: SDP_IS_SEQ_def header_width_def)
    moreover have "get_be16 (0x09 # 0 # 1 # q) 1 = Some 1" for q
      by (simp add: get_be16_def rd_def eval_nat_numeral)
    moreover have "adv (0x09 # 0 # 1 # q) 3 = Some q" for q by (simp add: adv_def)
    ultimately show ?thesis using assms Suc by (auto simp: mem_simps)
  qed simp
  have "adv ?p 2 = Some ([0x09, 0, 1, 0x35, 1, 0x36] @ post)" by (simp add: adv_def)
  with st loop Suc show ?thesis by (simp add: sdp_extract_pdu_def)
qed simp

section \<open>The size of a record\<close>

lemma append_first_overflow:
  assumes "length x = unat len" "unat n < length x + 2" "len \<le> n" "0 < n"
  shows "sdp_append_to_buf \<lparr>sdata = replicate (unat n) 0, data_size = 0, buf_size = n\<rparr> (x @ q) len = None"
proof -
  have n: "unat n = Suc (unat n - 1)" using assms(4) by (simp add: word_less_nat_alt)
  then have m: "replicate (unat n) (0 :: u8) = 0 # replicate (unat n - 1) 0" by (metis replicate_Suc)
  have "wr (SDP_SEQ8 # replicate (unat n - 1) 0) 2 x \<bind> k = None" for k :: "buf \<Rightarrow> sdp_buf option"
    using assms(1,2) n by (simp add: wr_def)
  moreover have "\<not> n < len" using assms(3) by simp
  ultimately show ?thesis
    using assms(1) by (simp add: sdp_append_to_buf_def m rd8_Cons_0 wr8_Cons0 append_data_def rd_append_hit)
qed

section \<open>The length of a record\<close>

text \<open>
  An answer that was not split is either in the response buffer behind the seven bytes of the
  header, or collected; the scan of its records starts after its own header of two bytes.
\<close>

lemma parse_short:
  assumes "x = [0x35, n] @ y" "0 < n" "length x \<le> 65000"
    and "attr_list_len s = int (length x)"
    and "concat_buf s = x \<or> concat_buf s = [] \<and>
      take (8 + length x) (rspbuf s) = response plen u x [] \<and> rspsize s = of_nat (8 + length x)"
    and "\<And>pre post pdata_len. length pre = 2 \<or> length pre = 9 \<Longrightarrow>
      sint pdata_len = int (length y) \<or> sint pdata_len = int (length y) + 1 \<Longrightarrow>
      scan_records f addr (pre @ y @ post) (int (length pre)) pdata_len 2 (attr_list_len s) [] = m"
  shows "parse_response f addr s = m"
proof -
  have st: "sdp_extract_seqtype ([0x35, n] @ q) b = Some (2, Some SDP_SEQ8, Some (uint n))" if "2 \<le> b" for q b
    using that by (simp add: sdp_extract_seqtype_def seq_size_def mem_simps)
  have n: "uint n \<noteq> 0" using assms(2) by (metis unsigned_eq_0_iff less_irrefl)
  have pos: "\<not> attr_list_len s \<le> 0" using assms(1,4) by simp
  have len: "sint (of_nat k :: u32) = int k" if "k \<le> 65010" for k
    using that by (subst sint_small) (simp_all add: unat_of_nat)
  have minus: "of_nat k - word_of_int (2 :: int) = (of_nat (k - 2) :: u32)" if "2 \<le> k" for k
    using that by simp
  show ?thesis
    using assms(5)
  proof (elim disjE conjE)
    assume c: "concat_buf s = x"
    have "scan_records f addr ([0x35, n] @ y @ []) (int (length [0x35, n :: u8])) (of_nat (length y)) 2
        (attr_list_len s) [] = m"
      by (rule assms(6)) (use len assms(1,3) in simp_all)
    with c pos st [of "int (length x)" y] n len [of "length x"] minus [of "length x"] assms(1,3) show ?thesis
      by (simp add: parse_response_def)
  next
    assume c: "concat_buf s = []" "rspsize s = of_nat (8 + length x)" and
      r: "take (8 + length x) (rspbuf s) = response plen u x []"
    define junk where "junk = drop (8 + length x) (rspbuf s)"
    define pre where "pre = 0x07 # be16 u @ be16 plen @ be16 (of_nat (length x))"
    have pre: "length pre = 7" by (simp add: pre_def)
    have mem: "rspbuf s = pre @ [0x35, n] @ y @ 0 # junk"
      using r append_take_drop_id [of "8 + length x" "rspbuf s"] assms(1)
      by (simp add: response_def junk_def pre_def)
    have sz: "rspsize s - 7 = of_nat (1 + length x)" using c(2) by simp
    have "scan_records f addr ((pre @ [0x35, n]) @ y @ 0 # junk) (int (length (pre @ [0x35, n])))
        (of_nat (1 + length x - 2)) 2 (attr_list_len s) [] = m"
      by (rule assms(6)) (use len assms(1,3) pre in \<open>simp_all del: of_nat_Suc of_nat_add\<close>)
    with c(1) pos st [of "int (1 + length x)" "y @ 0 # junk"] n len [of "1 + length x"]
      minus [of "1 + length x"] assms(1,3) mem pre sz show ?thesis
      by (simp add: parse_response_def del: of_nat_Suc of_nat_add)
  qed
qed

lemma search_short:
  assumes "length reqm = 2048" "length rspm = 65535"
    and "x = [0x35, n] @ y" "0 < n" "length x \<le> 65000"
    and "\<And>pre post pdata_len. length pre = 2 \<or> length pre = 9 \<Longrightarrow>
      sint pdata_len = int (length y) \<or> sint pdata_len = int (length y) + 1 \<Longrightarrow>
      scan_records f addr (pre @ y @ post) (int (length pre)) pdata_len 2 (int (length x)) [] = m"
  shows "sdp_service_search_attr_req f junk late addr reqm rspm tid (serve plen tid 14 [] [(x, [])])
      [sdp_uuid16_create g] True [le_of 4 (0x0000FFFF :: u32)] = run_bind m (\<lambda>recs. Some (Ret (0, recs)))"
proof -
  obtain r where r: "start_request junk late reqm [sdp_uuid16_create g] True [le_of 4 (0x0000FFFF :: u32)] =
    Some (Inr (r, 19))" "req_is (body_of g) r"
    using start_request_spec [OF assms(1)] by blast
  let ?s = "\<lparr>reqbuf = r, rspbuf = rspm, rspsize = 0, attr_list_len = 0, cstate = None,
            concat_buf = [], session_tid = tid, sent = []\<rparr>"
  have "cstate_is ?s []" "chunks_ok [(x, [])]" using assms(3,5) by (auto simp: cstate_is_def)
  moreover have "answers 0x06 plen tid (body_of g) [] [(x, [])] (serve plen tid 14 [] [(x, [])])"
    by (rule serve_answers) simp
  ultimately obtain s u where
    s: "exchange_loop 19 (serve plen tid 14 [] [(x, [])]) ?s = Some (Inr s)" "attr_list_len s = int (length x)"
      "concat_buf s = x \<or> concat_buf s = [] \<and>
        take (8 + length x) (rspbuf s) = response plen u x [] \<and> rspsize s = of_nat (8 + length x)"
    using exchange_loop_spec [of "[(x, [])]" "body_of g" ?s "[]" plen "serve plen tid 14 [] [(x, [])]"] assms(1,2) r(2)
    by (auto simp del: answers.simps serve_of.simps)
  have "parse_response f addr s = m"
    by (rule parse_short [OF assms(3-5) s(2,3)]) (use assms(6) s(2) in simp)
  with r(1) s(1) show ?thesis by (simp add: sdp_service_search_attr_req_def del: serve_of.simps)
qed

text \<open>The answer of a peer that claims a record of negative length.\<close>

definition negative_record :: "u32 \<Rightarrow> buf" where
  "negative_record n = [0x35, 5, 0x37] @ rev (le_of 4 n)"

lemma scan_negative:
  assumes "sint (n :: u32) < - 14" "length pre \<le> 9" "5 \<le> sint pdata_len"
  shows "scan_records (Suc (Suc f)) addr (pre @ (0x37 # rev (le_of 4 n)) @ post) (int (length pre)) pdata_len
    scanned limit recs = None"
proof -
  let ?p = "0x37 # rev (le_of 4 n) @ post"
  have st: "sdp_extract_seqtype ?p (sint pdata_len) = Some (5, Some SDP_SEQ32, Some (sint n))"
    using assms(3) by (simp add: sdp_extract_seqtype_def seq_size_def mem_simps)
  have "adv ?p 5 = Some post" by (simp add: adv_def)
  with st assms(1) have "sdp_extract_pdu (Suc f) addr ?p (sint pdata_len) =
      Some (Ret (sdp_record_alloc, 5 + sint n))"
    by (simp add: sdp_extract_pdu_def)
  with assms(1,2) show ?thesis by (simp add: move_def)
qed

lemma negative_record_read:
  assumes "sint n < - 14" "length reqm = 2048" "length rspm = 65535"
  shows "sdp_service_search_attr_req (Suc (Suc f)) junk late addr reqm rspm tid
    (serve plen tid 14 [] [(negative_record n, [])])
    [sdp_uuid16_create g] True [le_of 4 (0x0000FFFF :: u32)] = None"
  using assms
  by (subst search_short [where x = "negative_record n" and n = 5 and y = "0x37 # rev (le_of 4 n)" and m = None])
    (auto simp: negative_record_def run_bind_def simp del: scan_records.simps intro!: scan_negative [simplified])

lemma cut_answer_read:
  assumes "length reqm = 2048" "length rspm = 65535"
  shows "sdp_service_search_attr_req f junk late addr reqm rspm tid (serve plen tid 14 [] [(cut_answer, [])])
    [sdp_uuid16_create g] True [le_of 4 (0x0000FFFF :: u32)] = Some NoFuel"
  using assms
  by (subst search_short [where x = cut_answer and n = 8 and y = "[0x35, 6, 0x09, 0, 1, 0x35, 1, 0x36]"
        and m = "Some NoFuel"])
    (auto simp: cut_answer_def run_bind_def intro!: scan_cut [simplified])

section \<open>URLs in the output\<close>

definition url_elem :: "buf \<Rightarrow> sdp_data" where
  "url_elem s = Sdp_data SDP_URL_STR8 0 (int (length s) + 1) (Vstr (s @ [0]))"

definition text_elem :: "buf \<Rightarrow> sdp_data" where
  "text_elem s = Sdp_data SDP_TEXT_STR8 0 (int (length s) + 1) (Vstr (s @ [0]))"

definition closing :: "nat \<Rightarrow> buf" where
  "closing level = map byte (quote @ '' />'' @ [CHR 0x0A] @ tabs level @ ''<text value='' @ quote)"

lemma strndup_all: "0 \<notin> set s \<Longrightarrow> strndup (s @ [0]) (length s) = Some (map chr s)"
  by (induction s) auto

lemma url_xml:
  "0 \<notin> set s \<Longrightarrow> convert_raw_data_to_xml level (url_elem s) = Some (leaf_line level ''url'' (map chr s))"
  by (simp add: url_elem_def leaf_xml_def dtd_groups val_str_def strndup_all)

lemma text_xml:
  assumes "\<forall>c \<in> set x. plain c \<and> c \<noteq> CHR ''&''"
  shows "convert_raw_data_to_xml level (text_elem (map byte x)) = Some (leaf_line level ''text'' x)"
proof -
  have "concat (map escape_char (map byte x)) = x"
    using assms by (induction x) (auto simp: escape_plain)
  moreover have "\<not> text_is_hex (map byte x)"
    using assms isprint_byte by (auto simp: text_is_hex_def)
  ultimately show ?thesis
    by (simp add: text_elem_def leaf_xml_def dtd_groups val_str_def rd_def text_value_def leaf_line_def)
qed

section \<open>Groups\<close>

lemma group_id_of_number:
  assumes "sdp_data_get rec 0x0200 = Some d" "val d = V16 w"
  shows "sdp_get_group_id addr rec = (0, Some \<lparr>utype = ucast w, uval = replicate 16 0\<rparr>)"
  using assms by (simp add: sdp_get_group_id_def val_uuid_def val_image_def numeral_2_eq_2)

lemma descent_endless:
  assumes "\<And>k. \<exists>ds. serves f (net k) (gs k) [ds] \<and> typed_group ds \<and> group_of ds = Some (gs (Suc k))"
    and "\<And>k. gs (Suc k) \<noteq> gs k"
  shows "do_search n f junk late addr net bdaddr (sdp_uuid16_create (gs (attempts s))) s = Some NoFuel"
proof (induction n arbitrary: s)
  case (Suc n)
  obtain ds where ds: "serves f (net (attempts s)) (gs (attempts s)) [ds]" "typed_group ds" "group_of ds = Some (gs (Suc (attempts s)))"
    using assms(1) by blast
  then obtain sess where sess: "net (attempts s) = Inr sess" by (auto simp: serves_def)
  obtain rs where rs: "sdp_service_search_attr_req f junk late addr (reqmem sess) (rspmem sess) 0 (script sess)
      [sdp_uuid16_create (gs (attempts s))] True [le_of 4 (0x0000FFFF :: u32)] = Some (Ret (0, rs))" "reads rs [ds]"
    using serves_reads ds(1) sess by metis
  from rs(2) obtain r where r: "rs = [r]" "rec_ok r" "attrlist r = map received ds"
    by (auto simp: reads_def map_eq_Cons_conv)
  have "\<forall>d \<in> set ds. wf_data d" using serves_wf [OF ds(1)] by simp
  with ds(2,3) r(3) have g: "sdp_get_group_id addr r = (0, Some (sdp_uuid16_create (gs (Suc (attempts s)))))"
    using group_id_received [of ds r addr] by simp
  have x: "convert_sdp_record_to_xml (attrlist r) = Some (record_text ds)"
    by (rule record_text [OF r(2,3)])
  have "do_search n f junk late addr net bdaddr (sdp_uuid16_create (gs (Suc (attempts s))))
      (print (record_text ds) (print (''Browsing '' @ ba2str bdaddr @ '' ...'' @ [CHR 0x0A])
        (s\<lparr>attempts := attempts s + 1\<rparr>))) = Some NoFuel"
    using Suc.IH [of "print (record_text ds) (print (''Browsing '' @ ba2str bdaddr @ '' ...'' @ [CHR 0x0A])
        (s\<lparr>attempts := attempts s + 1\<rparr>))"] by (simp add: print_def)
  with rs(1) r(1) g x sess assms(2) [of "attempts s"] show ?case
    by (simp add: Let_def)
qed simp

end
