(* ===== verification/SdpProps.thy ===== *)
theory SdpProps
  imports SdpFaults
begin

text \<open>
  The properties of the SDP library (\<open>lib/sdp.c\<close>), of the XML printer (\<open>src/sdp-xml.c\<close>) and of
  \<open>sdptool browse --xml\<close>.
\<close>

section \<open>A service\<close>

definition serial_port :: "sdp_data list" where
  "serial_port =
     [Sdp_data SDP_UINT32 0x0000 5 (V32 0x00010001),
      Sdp_data SDP_SEQ8 0x0001 5 (Vseq [Sdp_data SDP_UUID16 0 3 (Vuuid (sdp_uuid16_create 0x1101))]),
      Sdp_data SDP_TEXT_STR8 0x0100 5 (Vstr (map byte ''COM1''))]"

definition printers :: "sdp_data list" where
  "printers =
     [Sdp_data SDP_UINT32 0x0000 5 (V32 0x00010002),
      Sdp_data SDP_UUID16 0x0200 3 (Vuuid (sdp_uuid16_create 0x1234))]"

lemma wf_uuid16: "length (uval (sdp_uuid16_create g)) = 16" "utype (sdp_uuid16_create g) = SDP_UUID16"
  by (simp_all add: sdp_uuid16_create_def)

lemmas enc_simps = length_ok_def promoted_def len_field_def dtd_groups wf_uuid16

lemma serial_port_ok: "service_ok serial_port"
  by (simp add: service_ok_def serial_port_def enc_simps attr_enc_def attrs_ok_def)

lemma printers_ok: "service_ok printers"
  by (simp add: service_ok_def printers_def enc_simps attr_enc_def attrs_ok_def)

section \<open>Data elements\<close>

text \<open>
  C12: an element that the library can encode comes back: the size pass gives a buffer that the
  writing pass fits into, whatever was in it, and the decoder makes of the bytes written the
  element in its decoded form (a wider sequence where the length asked for it, a terminated string),
  consumes all of them, and enters every UUID of it in the pattern of the record.
\<close>
theorem element_roundtrip:
  assumes "encodable d" "grow late d < 2 ^ 31" "length (enc d) \<le> f"
  shows "\<exists>n d' buf len.
    sdp_gen_buffer late 0 d = Some n \<and>
    sdp_gen_pdu \<lparr>sdata = map junk [0..<unat n], data_size = 0, buf_size = n\<rparr> d = Some (d', buf, len) \<and>
    sdp_extract_attr f (sdata buf) (sint (data_size buf)) 0 rec =
      Some (Ret (Ptr (decoded d), sint (data_size buf), foldl sdp_pattern_add_uuid rec (uuids_data (decoded d))))"
proof -
  obtain n where n: "sdp_gen_buffer late 0 d = Some n" "3 + length (enc d) \<le> unat n" "unat n \<le> grow late d"
    using size_pass_fits [OF assms(1)] assms(2) by auto
  let ?b = "\<lparr>sdata = map junk [0..<unat n], data_size = 0, buf_size = n\<rparr>"
  have "sdp_gen_pdu ?b d = Some (settled d,
      ?b\<lparr>sdata := [] @ enc d @ drop (length (enc d)) (map junk [0..<unat n]),
         data_size := data_size ?b + of_nat (length (enc d))\<rparr>, of_nat (length (enc d)))"
    unfolding sdp_gen_pdu_def using n(2)
    by (intro writesD [OF gen_pdu_writes [OF assms(1) order_refl]]) auto
  moreover have "sint (of_nat (length (enc d)) :: u32) = int (length (enc d))"
    using n assms(2) by (subst sint_small) (simp_all add: unat_of_nat)
  ultimately show ?thesis
    using n(1) sdp_extract_attr_enc [OF assms(1,3), of "int (length (enc d))" _ 0 rec] by simp
qed

theorem element_roundtrip_witness:
  "\<exists>n d' buf len.
    sdp_gen_buffer False 0 (serial_port ! 1) = Some n \<and>
    sdp_gen_pdu \<lparr>sdata = map (\<lambda>i. 0xAA) [0..<unat n], data_size = 0, buf_size = n\<rparr> (serial_port ! 1) =
      Some (d', buf, len) \<and>
    sdp_extract_attr 10 (sdata buf) (sint (data_size buf)) 0 sdp_record_alloc =
      Some (Ret (Ptr (decoded (serial_port ! 1)), sint (data_size buf),
        foldl sdp_pattern_add_uuid sdp_record_alloc (uuids_data (decoded (serial_port ! 1)))))"
  by (rule element_roundtrip) (simp_all add: serial_port_def enc_simps sdp_get_data_type_size_def)

lemma uncut_0: "uncut q 0"
  by (simp add: uncut_def)

lemma uncut_Cons: "1 \<le> b \<Longrightarrow> uncut (t # q) b \<longleftrightarrow> header_width t < b \<and> uncut q (b - 1)"
proof -
  assume "1 \<le> b"
  then have "nat b = Suc (nat (b - 1))" by simp
  then show ?thesis by (auto simp: uncut_def All_less_Suc2)
qed

text \<open>
  C13: the decoder is memory safe on every packet: reading an element from \<open>b\<close> bytes that are there
  never touches another byte, consumes at most \<open>b\<close>, and gives a well formed element, whose UUIDs are
  the ones added to the record.  It ends, with a recursion no deeper than the packet is long, unless
  some byte can be a sequence header that the end of the packet cuts off (see
  \<open>cut_sequence_endless\<close>).
\<close>
theorem decoder_memory_safe:
  assumes "0 \<le> b" "b \<le> int (length p)"
  shows "(sdp_extract_attr f p b 0 rec = Some NoFuel \<or>
     (\<exists>elem n rec'. sdp_extract_attr f p b 0 rec = Some (Ret (elem, n, rec')) \<and> 0 \<le> n \<and> n \<le> b \<and>
        (case elem of NULL \<Rightarrow> rec' = rec
         | Ptr d \<Rightarrow> wf_data d \<and> rec' = foldl sdp_pattern_add_uuid rec (uuids_data d)))) \<and>
    (uncut p b \<and> b < int f \<longrightarrow> sdp_extract_attr f p b 0 rec \<noteq> Some NoFuel)"
proof
  show "sdp_extract_attr f p b 0 rec = Some NoFuel \<or>
     (\<exists>elem n rec'. sdp_extract_attr f p b 0 rec = Some (Ret (elem, n, rec')) \<and> 0 \<le> n \<and> n \<le> b \<and>
        (case elem of NULL \<Rightarrow> rec' = rec
         | Ptr d \<Rightarrow> wf_data d \<and> rec' = foldl sdp_pattern_add_uuid rec (uuids_data d)))"
    using sdp_extract_attr_safe [OF assms, of rec f] unfolding decodes_run_def decodes_def
    by (elim disjE exE) (auto split: prod.splits)
next
  show "uncut p b \<and> b < int f \<longrightarrow> sdp_extract_attr f p b 0 rec \<noteq> Some NoFuel"
    using sdp_extract_attr_returns [OF assms, of f rec] by (auto simp: returns_def)
qed

theorem decoder_memory_safe_witness:
  "\<exists>elem n rec'. sdp_extract_attr 9 [0x35, 3, 0x19, 0x11, 0x01] 5 0 sdp_record_alloc = Some (Ret (elem, n, rec')) \<and>
     0 \<le> n \<and> n \<le> 5 \<and>
     (case elem of NULL \<Rightarrow> rec' = sdp_record_alloc
      | Ptr d \<Rightarrow> wf_data d \<and> rec' = foldl sdp_pattern_add_uuid sdp_record_alloc (uuids_data d))"
proof -
  have "uncut [0x35, 3, 0x19, 0x11, 0x01] 5" by (simp add: uncut_Cons uncut_0 header_width_def)
  then show ?thesis
    using decoder_memory_safe [of 5 "[0x35, 3, 0x19, 0x11, 0x01]" 9 sdp_record_alloc]
    by (simp del: sdp_extract_attr.simps) blast
qed

text \<open>
  C20: the encoder writes the data element format and nothing else: at any position of a buffer with
  enough room left it writes exactly the encoding of the element, advances by its length, and leaves
  the bytes before and after alone.
\<close>
theorem encoder_writes_format:
  assumes "encodable d" "sdata buf = pre @ rest" "unat (data_size buf) = length pre"
    and "unat (buf_size buf) = length (pre @ rest)" "length (enc d) \<le> length rest"
  shows "sdp_gen_pdu buf d = Some (settled d,
    buf\<lparr>sdata := pre @ enc d @ drop (length (enc d)) rest,
        data_size := data_size buf + of_nat (length (enc d))\<rparr>, of_nat (length (enc d)))"
  unfolding sdp_gen_pdu_def
  by (rule writesD [OF gen_pdu_writes [OF assms(1) order_refl] assms(2-5)])

theorem encoder_writes_format_witness:
  "sdp_gen_pdu \<lparr>sdata = [1] @ replicate 9 2, data_size = 1, buf_size = 10\<rparr> (serial_port ! 1) =
    Some (settled (serial_port ! 1),
      \<lparr>sdata = [1] @ enc (serial_port ! 1) @ drop (length (enc (serial_port ! 1))) (replicate 9 2),
       data_size = 1 + of_nat (length (enc (serial_port ! 1))), buf_size = 10\<rparr>,
      of_nat (length (enc (serial_port ! 1))))"
  using encoder_writes_format [of "serial_port ! 1" "\<lparr>sdata = [1] @ replicate 9 2, data_size = 1, buf_size = 10\<rparr>"
      "[1]" "replicate 9 2"]
  by (simp add: serial_port_def enc_simps)

section \<open>Records\<close>

text \<open>
  Replacing an attribute of a record keeps the list sorted by identifier without duplicates, and
  a lookup then finds the new element under its identifier and what it found before under any
  other.
\<close>
theorem attr_replace_updates:
  assumes "attrs_ok (attrlist rec)" "sdp_attr_replace rec a d = Some rec'"
  shows "attrs_ok (attrlist rec') \<and>
    sdp_data_get rec' b = (if b = a then Some (set_attrId a d) else sdp_data_get rec b)"
proof -
  let ?l = "filter (\<lambda>e. attrId e \<noteq> a) (attrlist rec)"
  have l: "attrs_ok ?l" "a \<notin> attrId ` set ?l" using assms(1) by (auto intro: attrs_ok_filter)
  have "find (\<lambda>e. attrId e = b) (filter (\<lambda>e. attrId e \<noteq> a) l) =
      (if b = a then None else find (\<lambda>e. attrId e = b) l)" for l
    by (induction l) auto
  then show ?thesis
    using replace_attrs_ok [OF assms(2,1)] find_insert_attr [OF l, of b d] replace_attrlist [OF assms(2,1)]
    by (simp add: sdp_data_get_def sdp_list_find_attr)
qed

definition renamed :: sdp_data where
  "renamed = Sdp_data SDP_TEXT_STR8 0 4 (Vstr (map byte ''SPP''))"

theorem attr_replace_updates_witness:
  "\<exists>rec'. sdp_attr_replace (sdp_record_alloc\<lparr>attrlist := serial_port\<rparr>) 0x0100 renamed = Some rec' \<and>
     attrs_ok (attrlist rec') \<and> sdp_data_get rec' 0x0100 = Some (set_attrId 0x0100 renamed)"
proof -
  let ?rec = "sdp_record_alloc\<lparr>attrlist := serial_port\<rparr>"
  have "attrs_ok (attrlist ?rec)" by (simp add: serial_port_def attrs_ok_def)
  moreover obtain rec' where "sdp_attr_replace ?rec 0x0100 renamed = Some rec'"
    by (simp add: sdp_attr_replace_def set_svclass_def Let_def)
  ultimately show ?thesis using attr_replace_updates by fastforce
qed

text \<open>
  C21: a record read from any packet keeps the invariant: the attributes are sorted by identifier
  and well formed, the pattern is a sorted list of 128-bit UUIDs, and every UUID of an attribute is
  in it; the length reported is the one the header of the record claims.
\<close>
theorem record_invariant:
  assumes "0 \<le> b" "b \<le> int (length p)" "claimed p b < 2 ^ 31"
  shows "sdp_extract_pdu f addr p b = Some NoFuel \<or>
    (\<exists>rec. sdp_extract_pdu f addr p b = Some (Ret (rec, claimed p b)) \<and>
       attrs_ok (attrlist rec) \<and> pattern_ok (pattern rec) \<and>
       (\<forall>d \<in> set (attrlist rec). wf_data d \<and> sdp_uuid_to_uuid128 ` set (uuids_data d) \<subseteq> set (pattern rec)))"
  using sdp_extract_pdu_safe [OF assms, of f addr] by (auto simp: rec_ok_def)

theorem record_invariant_witness:
  "sdp_extract_pdu 20 (\<lambda>v. 0) [0x35, 6, 9, 0, 1, 0x19, 0x11, 1] 8 = Some NoFuel \<or>
    (\<exists>rec. sdp_extract_pdu 20 (\<lambda>v. 0) [0x35, 6, 9, 0, 1, 0x19, 0x11, 1] 8 =
         Some (Ret (rec, claimed [0x35, 6, 9, 0, 1, 0x19, 0x11, 1] 8)) \<and>
       attrs_ok (attrlist rec) \<and> pattern_ok (pattern rec) \<and>
       (\<forall>d \<in> set (attrlist rec). wf_data d \<and> sdp_uuid_to_uuid128 ` set (uuids_data d) \<subseteq> set (pattern rec)))"
  by (rule record_invariant) (simp_all add: claimed_def sdp_extract_seqtype_def seq_size_def mem_simps)

text \<open>
  C22: a record comes back: where the sizes of the attributes leave room for the header of the
  record (see \<open>record_buffer_too_small\<close>), the bytes \<open>sdp_gen_record_pdu\<close> makes are read as a record
  with the same attributes in the same order, and all of them are consumed.
\<close>
theorem record_roundtrip:
  assumes "\<forall>d \<in> set (attrlist rec). encodable d \<and> grow late d < 2 ^ 32"
    and "attrs_ok (attrlist rec)" "attrlist rec \<noteq> []"
    and "attr_sizes late (attrlist rec) 0 = Some s"
    and "length (rec_bytes (concat (map attr_enc (attrlist rec)))) \<le> unat s"
    and "length (concat (map attr_enc (attrlist rec))) \<le> 65535"
    and "length (concat (map attr_enc (attrlist rec))) < f"
  shows "\<exists>rec' buf r.
    sdp_gen_record_pdu junk late rec = Some (rec', buf) \<and>
    (let p = take (unat (data_size buf)) (sdata buf) in
       sdp_extract_pdu f addr p (int (length p)) = Some (Ret (r, int (length p)))) \<and>
    attrlist r = map received (attrlist rec) \<and> rec_ok r"
proof -
  let ?p = "rec_bytes (concat (map attr_enc (attrlist rec)))"
  obtain buf where g: "sdp_gen_record_pdu junk late rec = Some (rec\<lparr>attrlist := map settled (attrlist rec)\<rparr>, buf)"
    "take (unat (data_size buf)) (sdata buf) = ?p"
    using gen_record_spec [OF assms(1,4,5,3)] by blast
  have "\<forall>d \<in> set (attrlist rec). encodable d" using assms(1) by blast
  then obtain r where "sdp_extract_pdu f addr (?p @ []) (int (length ?p)) = Some (Ret (r, int (length ?p)))"
    "rec_ok r" "attrlist r = map received (attrlist rec)"
    using extract_pdu_reads [OF _ assms(2,6,7), of "int (length ?p)" "[]" addr] by auto
  with g show ?thesis by (auto simp: Let_def simp del: length_take)
qed

lemma serial_port_bytes: "length (concat (map attr_enc serial_port)) = 25"
  by (simp add: serial_port_def attr_enc_def enc_simps)

theorem record_roundtrip_witness:
  "\<exists>rec' buf r.
    sdp_gen_record_pdu (\<lambda>i. 0xAA) False (sdp_record_alloc\<lparr>attrlist := serial_port\<rparr>) = Some (rec', buf) \<and>
    (let p = take (unat (data_size buf)) (sdata buf) in
       sdp_extract_pdu 30 (\<lambda>v. 0) p (int (length p)) = Some (Ret (r, int (length p)))) \<and>
    attrlist r = map received (attrlist (sdp_record_alloc\<lparr>attrlist := serial_port\<rparr>)) \<and> rec_ok r"
proof (rule record_roundtrip [where s = 28])
  show "\<forall>d \<in> set (attrlist (sdp_record_alloc\<lparr>attrlist := serial_port\<rparr>)). encodable d \<and> grow False d < 2 ^ 32"
    by (simp add: serial_port_def enc_simps sdp_get_data_type_size_def)
  show "attr_sizes False (attrlist (sdp_record_alloc\<lparr>attrlist := serial_port\<rparr>)) 0 = Some 28"
    by (simp add: serial_port_def dtd_groups sdp_get_data_type_size_def leaf_data_size_def)
qed (simp_all add: serial_port_bytes rec_bytes_def length_rec_header, simp_all add: serial_port_def attrs_ok_def)

section \<open>Requests\<close>

text \<open>
  C11: the client follows the protocol of split responses: against a server that hands its answer out
  in pieces, each but the last with a continuation state, it sends one request per piece, with
  increasing transaction identifiers, the same body and the continuation state of the piece before,
  and ends with the length of the whole answer.
\<close>
theorem requests_follow_protocol:
  assumes "chunks_ok xs" "length body \<le> 1000" "req_is body req" "length rspm = 65535"
  shows "\<exists>s. exchange_loop (5 + length body) (serve plen tid (length body) [] xs)
      \<lparr>reqbuf = req, rspbuf = rspm, rspsize = 0, attr_list_len = 0, cstate = None,
       concat_buf = [], session_tid = tid, sent = []\<rparr> = Some (Inr s) \<and>
    sent s = requests tid body [] xs \<and>
    attr_list_len s = int (length (concat (map fst xs))) \<and>
    (1 < length xs \<longrightarrow> concat_buf s = concat (map fst xs))"
proof -
  let ?s = "\<lparr>reqbuf = req, rspbuf = rspm, rspsize = 0, attr_list_len = 0, cstate = None,
       concat_buf = [], session_tid = tid, sent = []\<rparr>"
  have "cstate_is ?s []" by (simp add: cstate_is_def)
  moreover have "answers 0x06 plen tid body [] xs (serve plen tid (length body) [] xs)" by (rule serve_answers) simp
  ultimately obtain s where s:
    "exchange_loop (5 + length body) (serve plen tid (length body) [] xs) ?s = Some (Inr s)"
    "sent s = requests tid body [] xs" "attr_list_len s = int (length (concat (map fst xs)))"
    "concat_buf s = concat (map fst xs) \<or> length xs = 1"
    using exchange_loop_spec [of xs body ?s "[]" plen "serve plen tid (length body) [] xs"] assms by auto
  then show ?thesis by auto
qed

theorem requests_follow_protocol_witness:
  "\<exists>s. exchange_loop (5 + 2) (serve 0 9 2 [] [([1, 2], [7]), ([3], [])])
      \<lparr>reqbuf = [6, 0, 0, 0, 0, 0x35, 0] @ replicate 2041 0, rspbuf = replicate 65535 0xAA, rspsize = 0,
       attr_list_len = 0, cstate = None, concat_buf = [], session_tid = 9, sent = []\<rparr> = Some (Inr s) \<and>
    sent s = [request 9 [0x35, 0] [], request 10 [0x35, 0] [7]] \<and> concat_buf s = [1, 2, 3]"
proof -
  have "req_is [0x35, 0] ([6, 0, 0, 0, 0, 0x35, 0] @ replicate 2041 0)" by (simp add: req_is_def)
  then show ?thesis
    using requests_follow_protocol [of "[([1, 2], [7]), ([3], [])]" "[0x35, 0]"
        "[6, 0, 0, 0, 0, 0x35, 0] @ replicate 2041 0" "replicate 65535 0xAA" 0 9]
    by auto
qed


lemma service_length: "length (service_bytes serial_port) = 27" "length (service_bytes printers) = 16"
  by (simp_all add: service_bytes_def rec_bytes_def length_rec_header serial_port_bytes)
    (simp add: printers_def attr_enc_def enc_simps)

lemma sample_answers:
  "answer_ok SDP_SEQ8 [serial_port]" "length (answer SDP_SEQ8 [serial_port]) = 29"
  "answer_ok SDP_SEQ8 [printers, serial_port]" "length (answer SDP_SEQ8 [printers, serial_port]) = 45"
  by (simp_all add: answer_ok_def answer_def service_length serial_port_ok printers_ok length_ok_def
      promoted_def SDP_IS_SEQ_def len_field_def)


section \<open>Printing\<close>

text \<open>
  Whatever bytes a peer puts into a text attribute, the value printed consists of printable
  ASCII characters without quotes and angle brackets, so it cannot leave the attribute of the XML
  element; and it fits the buffer allocated for it (two characters per byte in hexadecimal, four
  extra characters for each one to escape).
\<close>
theorem text_values_contained:
  "list_all plain (text_value bs) \<and>
   length (text_value bs) \<le> (if text_is_hex bs then 2 * length bs else length bs + 4 * escapes bs)"
  using text_value_plain [of _ bs] escaped_length [of bs]
  by (simp add: list_all_iff text_value_def hex_bytes_length)

theorem text_values_contained_witness:
  "list_all plain (text_value [0x3C, 0x61, 0x22]) \<and> length (text_value [0x3C, 0x61, 0x22]) \<le> 11"
proof -
  have "\<not> text_is_hex [0x3C, 0x61, 0x22]" by code_simp
  moreover have "escapes [0x3C, 0x61, 0x22] = 2" by code_simp
  ultimately show ?thesis using text_values_contained [of "[0x3C, 0x61, 0x22]"] by simp
qed

text \<open>
  C3: browsing a peer prints all of its services: where the groups nest to a finite depth,
  the tool asks for the public browse group and, at each record that names another group than the one
  it is listed in, for that group, in this order, and prints for each group one line and
  then, for each service of it, the XML of all attributes the peer sent.  The peer sees the requests:
  nothing is assumed of its answers on the \<open>i\<close>-th connection but for the requests for the \<open>i\<close>-th group.
\<close>
theorem browse_prints_hierarchy:
  assumes "\<forall>e \<in> set es. entry_ok PUBLIC_BROWSE_GROUP e" "foldr max (map entry_depth es) 0 < n"
    and "\<forall>i < length (levels PUBLIC_BROWSE_GROUP es). serves_level f (net i) (levels PUBLIC_BROWSE_GROUP es ! i)"
  shows "browse_xml n f junk late addr net bdaddr =
    Some (Ret (0, \<lparr>attempts = length (levels PUBLIC_BROWSE_GROUP es), printed = level_text (ba2str bdaddr) es\<rparr>))"
proof -
  let ?s = "\<lparr>attempts = 0, printed = []\<rparr>"
  have "serves_all f net (attempts ?s) (levels PUBLIC_BROWSE_GROUP es)" using assms(3) by (simp add: serves_all_def)
  from do_search_visits [OF assms(1,2) this]
  show ?thesis by (simp add: browse_xml_def visited_def)
qed

text \<open>A session that answers the request for one group, and no other.\<close>

definition sample_session :: "u16 \<Rightarrow> sdp_data list list \<Rightarrow> session" where
  "sample_session g dss = \<lparr>reqmem = replicate 2048 0xAA, rspmem = replicate 65535 0xAA,
     script = [\<lambda>rq. if rq = request 0 (body_of g) [] then ([20], Received (response 0 0 (answer SDP_SEQ8 dss) []))
                    else ([20], Timed_out)],
     fails_with = []\<rparr>"

definition sample_net :: network where
  "sample_net k = (if k = 0 then Inr (sample_session PUBLIC_BROWSE_GROUP [printers, serial_port])
     else if k = 1 then Inr (sample_session 0x1234 [serial_port]) else Inl ''gone'')"

definition sample_services :: "entry list" where
  "sample_services = [Group printers 0x1234 [Service serial_port], Service serial_port]"

lemma sample_serves:
  assumes "answer_ok SDP_SEQ8 dss" "length (answer SDP_SEQ8 dss) < f" "length (answer SDP_SEQ8 dss) \<le> 65000"
  shows "serves f (Inr (sample_session g dss)) g dss"
proof -
  have "answer SDP_SEQ8 dss \<noteq> []" by (simp add: answer_def)
  with assms show ?thesis unfolding serves_def
    by (intro exI [of _ "sample_session g dss"] exI [of _ "0 :: u16"] exI [of _ "[(answer SDP_SEQ8 dss, [])]"]
        exI [of _ SDP_SEQ8]) (simp add: sample_session_def)
qed

theorem browse_prints_hierarchy_witness:
  "browse_xml 2 100 (\<lambda>i. 0xAA) True (\<lambda>v. 0) sample_net [1, 2, 3, 4, 5, 6] =
    Some (Ret (0, \<lparr>attempts = 2, printed = level_text ''06:05:04:03:02:01'' sample_services\<rparr>))"
proof -
  have l: "levels PUBLIC_BROWSE_GROUP sample_services =
      [(PUBLIC_BROWSE_GROUP, sample_services), (0x1234, [Service serial_port])]"
    by (simp add: levels_def sample_services_def)
  have "ba2str [1, 2, 3, 4, 5, 6] = ''06:05:04:03:02:01''" by code_simp
  moreover have "\<forall>i < length (levels PUBLIC_BROWSE_GROUP sample_services).
      serves_level 100 (sample_net i) (levels PUBLIC_BROWSE_GROUP sample_services ! i)"
    using sample_serves [OF sample_answers(1), of 100] sample_serves [OF sample_answers(3), of 100]
    by (auto simp: l less_Suc_eq sample_net_def sample_answers serves_level_def) (simp_all add: sample_services_def)
  moreover have "\<forall>e \<in> set sample_services. entry_ok PUBLIC_BROWSE_GROUP e"
    by (simp add: sample_services_def typed_group_def serial_port_def printers_def PUBLIC_BROWSE_GROUP_def)
  ultimately show ?thesis
    using browse_prints_hierarchy [of sample_services 2 100 sample_net "\<lambda>i. 0xAA" True "\<lambda>v. 0" "[1, 2, 3, 4, 5, 6]"] l
    by (simp add: sample_services_def)
qed

section \<open>Where the code goes wrong\<close>

text \<open>
  C39: a peer stops the scan for good with one short answer: a record whose last byte is the header
  of a sequence with its length cut off.  The header is read as a sequence that took no bytes, so the
  loop over the elements around it allocates one after the other without moving, and the request does
  not return with any bound on its loops.
\<close>
theorem cut_sequence_endless:
  assumes "length reqm = 2048" "length rspm = 65535"
  shows "\<forall>f. sdp_service_search_attr_req f junk late addr reqm rspm tid (serve plen tid 14 [] [(cut_answer, [])])
    [sdp_uuid16_create g] True [le_of 4 (0x0000FFFF :: u32)] = Some NoFuel"
  using cut_answer_read [OF assms] by blast

theorem cut_sequence_endless_witness:
  "\<forall>f. sdp_service_search_attr_req f (\<lambda>i. 0) True (\<lambda>v. 0) (replicate 2048 0) (replicate 65535 0) 0
      (serve 0 0 14 [] [([0x35, 8, 0x35, 6, 0x09, 0, 1, 0x35, 1, 0x36], [])])
    [sdp_uuid16_create 0x1002] True [le_of 4 (0x0000FFFF :: u32)] = Some NoFuel"
  unfolding cut_answer_def [symmetric] by (rule cut_sequence_endless) simp_all

text \<open>
  The length of a record is what its header claims, and a 32-bit length is read as a signed one:
  an answer with a negative record length makes the scan go on at an address before the response
  buffer.
\<close>
theorem record_length_unchecked:
  assumes "sint (n :: u32) < - 14" "length reqm = 2048" "length rspm = 65535"
  shows "sdp_service_search_attr_req (Suc (Suc f)) junk late addr reqm rspm tid
    (serve plen tid 14 [] [([0x35, 5, 0x37] @ rev (le_of 4 n), [])])
    [sdp_uuid16_create g] True [le_of 4 (0x0000FFFF :: u32)] = None"
  using negative_record_read [OF assms] by (simp add: negative_record_def)

theorem record_length_unchecked_witness:
  "sdp_service_search_attr_req 100 (\<lambda>i. 0) True (\<lambda>v. 0) (replicate 2048 0) (replicate 65535 0) 0
      (serve 0 0 14 [] [([0x35, 5, 0x37] @ rev (le_of 4 (0xFFFFFFF0 :: u32)), [])])
    [sdp_uuid16_create 0x1002] True [le_of 4 (0x0000FFFF :: u32)] = None"
  using record_length_unchecked [where n = "0xFFFFFFF0" and f = 98 and junk = "\<lambda>i. 0" and late = True and
      addr = "\<lambda>v. 0" and reqm = "replicate 2048 0" and rspm = "replicate 65535 0" and tid = 0 and plen = 0 and
      g = "0x1002"]
  by simp

text \<open>
  C40: the length byte of a continuation state is not compared with the size of the packet: after a
  response that ends right behind it, the next request carries as many bytes of what was in the
  response buffer before, memory that \<open>malloc\<close> returned uninitialised on the first exchange.
\<close>
theorem continuation_discloses_memory:
  assumes "req_is body (reqbuf s)" "cstate_is s c" "length body \<le> 1000" "length (rspbuf s) = 65535"
    and "length p \<le> 65000" "0 < k" "k \<le> 16" "stale = take k (drop (8 + length p) (rspbuf s))"
  shows "\<exists>s1 s2 n.
    exchange_step (5 + length body) (\<lambda>_. ([int (6 + length body + length c)],
      Received (take (8 + length p) (response plen (session_tid s) p stale)))) s = Some (Inr s1) \<and>
    send_request (5 + length body) s1 = Some (s2, n) \<and>
    sent s2 = sent s @ [request (session_tid s) body c, request (session_tid s + 1) body stale]"
proof -
  have st: "length stale = k" "stale \<noteq> []" using assms(4-8) by auto
  let ?x = "\<lambda>_. ([int (6 + length body + length c)], Received (take (8 + length p + 0) (response plen (session_tid s) p stale)))"
  obtain s1 where s1: "exchange_step (5 + length body) ?x s = Some (Inr s1)"
    "req_is body (reqbuf s1)" "length (rspbuf s1) = 65535" "session_tid s1 = session_tid s + 1"
    "sent s1 = sent s @ [request (session_tid s) body c]" "cstate s1 = Some (7 + length p)"
    "take (8 + length p + length stale) (rspbuf s1) = response plen (session_tid s) p stale"
    using exchange_step_cut [OF assms(1-5), of stale 0 ?x plen] assms(6-8) st by auto
  have "cstate_is s1 stale"
    by (rule cstate_after [OF s1(7,3) st(2) _ assms(5) s1(6)]) (use st assms(7) in simp)
  with send_request_spec [OF s1(2) _ assms(3), of stale] s1 show ?thesis by auto
qed

definition fresh_state :: req_state where
  "fresh_state = \<lparr>reqbuf = [6, 0, 0, 0, 0, 0x35, 0] @ replicate 2041 0, rspbuf = replicate 65535 0xAA, rspsize = 0,
     attr_list_len = 0, cstate = None, concat_buf = [], session_tid = 9, sent = []\<rparr>"

theorem continuation_discloses_memory_witness:
  "\<exists>s1 s2 n.
    exchange_step 7 (\<lambda>_. ([8], Received (take 9 (response 0 9 [1] [0xAA, 0xAA])))) fresh_state = Some (Inr s1) \<and>
    send_request 7 s1 = Some (s2, n) \<and>
    sent s2 = [request 9 [0x35, 0] [], request 10 [0x35, 0] [0xAA, 0xAA]]"
proof -
  have "req_is [0x35, 0] (reqbuf fresh_state)" by (simp add: req_is_def fresh_state_def)
  moreover have "cstate_is fresh_state []" by (simp add: cstate_is_def fresh_state_def)
  moreover have "[0xAA, 0xAA] = take 2 (drop (8 + length [1 :: u8]) (rspbuf fresh_state))"
    by (simp add: fresh_state_def numeral_2_eq_2)
  ultimately show ?thesis
    using continuation_discloses_memory [of "[0x35, 0]" fresh_state "[]" "[1]" 2 "[0xAA, 0xAA]" 0]
    by (simp add: fresh_state_def)
qed

text \<open>
  The buffer of a record has no room for the header of the record: for a record with one
  attribute whose size is counted without slack (a number, a UUID, a string), writing it into the
  buffer that \<open>sdp_gen_record_pdu\<close> allocates overflows the heap.
\<close>
theorem record_buffer_too_small:
  assumes "encodable d" "grow late d < 2 ^ 32"
    and "sdp_gen_buffer late 0 d = Some n" "unat n < 5 + length (enc d)"
  shows "sdp_gen_record_pdu junk late (rec\<lparr>attrlist := [d]\<rparr>) = None"
proof -
  obtain q where q: "\<And>pdu. \<exists>q. sdp_append_to_pdu junk late pdu d =
      map_option (Pair (settled d)) (sdp_append_to_buf pdu (attr_enc d @ q) (of_nat (length (attr_enc d))))"
    "unat (of_nat (length (attr_enc d)) :: u32) = length (attr_enc d)"
    using append_to_pdu_attr [OF assms(1,2)] by blast
  have "unat (0 :: u32) + grow late d < 2 ^ 32" using assms(2) by simp
  with gen_buffer_sized [OF assms(1), of late] assms(3) have n: "3 + length (enc d) \<le> unat n"
    unfolding sized_def sizes_def by fastforce
  have "sdp_append_to_buf \<lparr>sdata = replicate (unat n) 0, data_size = 0, buf_size = n\<rparr> (attr_enc d @ q)
      (of_nat (length (attr_enc d))) = None" for q
    using q(2) n assms(4)
    by (intro append_first_overflow) (auto simp: length_attr_enc word_le_nat_alt word_less_nat_alt simp del: of_nat_add)
  then have "sdp_append_to_pdu junk late \<lparr>sdata = replicate (unat n) 0, data_size = 0, buf_size = n\<rparr> d = None"
    using q(1) [of "\<lparr>sdata = replicate (unat n) 0, data_size = 0, buf_size = n\<rparr>"] by auto
  with assms(3) show ?thesis by (simp add: sdp_gen_record_pdu_def)
qed

theorem record_buffer_too_small_witness:
  "sdp_gen_record_pdu (\<lambda>i. 0) True (sdp_record_alloc\<lparr>attrlist := [Sdp_data SDP_UINT32 0 5 (V32 0x00010001)]\<rparr>) = None"
  by (rule record_buffer_too_small [where n = 8])
    (simp_all add: enc_simps sdp_get_data_type_size_def leaf_data_size_def)

text \<open>
  the value of a URL is printed as it came: a peer that puts a quote and the text of further
  elements into it gets the same XML as one that has these elements, so what the log says does
  not tell the two apart.
\<close>
theorem url_injects_elements:
  assumes "0 \<notin> set u" "\<forall>c \<in> set x. plain c \<and> c \<noteq> CHR ''&''"
  shows "xml_chain level [url_elem (u @ closing level @ map byte x)] =
    xml_chain level [url_elem u, text_elem (map byte x)]"
proof -
  have "\<forall>c \<in> set x. 0 < (of_char c :: nat)" using assms(2) plain_pos by blast
  then have "0 \<notin> set (map byte x)" using byte_nonzero by fastforce
  moreover have "0 \<notin> set (closing level)"
  proof -
    have "\<forall>c \<in> set (quote @ '' />'' @ [CHR 0x0A] @ tabs level @ ''<text value='' @ quote). 0 < (of_char c :: nat)"
      by (simp add: quote_def tabs_def)
    then show ?thesis unfolding closing_def using byte_nonzero by fastforce
  qed
  ultimately have "0 \<notin> set (u @ closing level @ map byte x)" using assms(1) by simp
  then have "convert_raw_data_to_xml level (url_elem (u @ closing level @ map byte x)) =
      Some (leaf_line level ''url'' (map chr (u @ closing level @ map byte x)))"
    by (rule url_xml)
  then show ?thesis
    using url_xml [OF assms(1)] text_xml [OF assms(2)]
    by (simp add: closing_def comp_def leaf_line_def del: convert_raw_data_to_xml.simps)
qed

theorem url_injects_elements_witness:
  "xml_chain 2 [url_elem ([0x61] @ closing 2 @ map byte ''COM1'')] =
    xml_chain 2 [url_elem [0x61], text_elem (map byte ''COM1'')]"
  by (rule url_injects_elements) (simp_all add: plain_def)

lemma zero_uuid16: "uuid16 \<lparr>utype = t, uval = replicate 16 0\<rparr> = 0"
  by (simp add: uuid16_def numeral_2_eq_2)

text \<open>
  A number is taken for a browse group: attribute 0x0200 is \<open>GroupID\<close> only in group records;
  in the record of an input device it is a number (the release of the device), and the tool reads the union
  as a UUID without looking at the descriptor.  It connects to the peer a second time and searches for
  a UUID that the peer never named.
\<close>
theorem number_taken_for_group:
  assumes "serves f (net (attempts s)) g [ds]" "net (attempts s + 1) = Inl err"
    and "Sdp_data SDP_UINT16 0x0200 n (V16 w) \<in> set ds" "g \<noteq> 0"
  shows "do_search (Suc (Suc k)) f junk late addr net bdaddr (sdp_uuid16_create g) s =
    Some (Ret (0, s\<lparr>attempts := attempts s + 2,
      printed := printed s @ browsing (ba2str bdaddr) @ record_text ds @
        ''Failed to connect to SDP server on '' @ ba2str bdaddr @ '': '' @ err @ [CHR 0x0A]\<rparr>))"
proof -
  from assms(1) obtain sess where sess: "net (attempts s) = Inr sess" by (auto simp: serves_def)
  obtain rs where rs: "sdp_service_search_attr_req f junk late addr (reqmem sess) (rspmem sess) 0 (script sess)
      [sdp_uuid16_create g] True [le_of 4 (0x0000FFFF :: u32)] = Some (Ret (0, rs))" "reads rs [ds]"
    using serves_reads assms(1) sess by metis
  from rs(2) obtain r where r: "rs = [r]" "rec_ok r" "attrlist r = map received ds"
    by (auto simp: reads_def map_eq_Cons_conv)
  have x: "convert_sdp_record_to_xml (attrlist r) = Some (record_text ds)"
    by (rule record_text [OF r(2,3)])
  let ?d = "received (Sdp_data SDP_UINT16 0x0200 n (V16 w))"
  have "?d \<in> set (attrlist r)" "attrId ?d = 0x0200" using assms(3) r(3) by auto
  then have "sdp_data_get r 0x0200 = Some ?d"
    using r(2) find_attr_sorted [of "attrlist r" ?d]
    by (simp add: sdp_data_get_def sdp_list_find_attr rec_ok_def)
  then have "sdp_get_group_id addr r = (0, Some \<lparr>utype = ucast w, uval = replicate 16 0\<rparr>)"
    by (rule group_id_of_number) (simp add: received_def)
  with rs(1) r(1) x sess assms(2,4) show ?thesis
    by (simp add: Let_def print_def browsing_def zero_uuid16)
qed

definition mouse :: "sdp_data list" where
  "mouse = [Sdp_data SDP_UINT16 0x0200 3 (V16 0x0100)]"

lemma mouse_answers: "answer_ok SDP_SEQ8 [mouse]" "length (answer SDP_SEQ8 [mouse]) = 10"
  by (simp_all add: answer_ok_def answer_def service_ok_def service_bytes_def rec_bytes_def length_rec_header
      mouse_def attr_enc_def attrs_ok_def enc_simps)

definition mouse_net :: network where
  "mouse_net k = (if k = 0 then Inr (sample_session 0x1002 [mouse]) else Inl ''gone'')"

theorem number_taken_for_group_witness:
  "do_search (Suc (Suc 0)) 50 (\<lambda>i. 0) True (\<lambda>v. 0) mouse_net [1, 2, 3, 4, 5, 6] (sdp_uuid16_create 0x1002)
      \<lparr>attempts = 0, printed = []\<rparr> =
    Some (Ret (0, \<lparr>attempts = 0, printed = []\<rparr>\<lparr>attempts := 2,
      printed := browsing (ba2str [1, 2, 3, 4, 5, 6]) @ record_text mouse @
        ''Failed to connect to SDP server on '' @ ba2str [1, 2, 3, 4, 5, 6] @ '': '' @ ''gone'' @ [CHR 0x0A]\<rparr>))"
proof -
  let ?s = "\<lparr>attempts = 0, printed = []\<rparr>"
  have "serves 50 (mouse_net (attempts ?s)) 0x1002 [mouse]"
    using sample_serves [OF mouse_answers(1), of 50] mouse_answers(2) by (simp add: mouse_net_def)
  moreover have "mouse_net (attempts ?s + 1) = Inl ''gone''" by (simp add: mouse_net_def)
  moreover have "Sdp_data SDP_UINT16 0x0200 3 (V16 0x0100) \<in> set mouse" by (simp add: mouse_def)
  moreover have "(0x1002 :: u16) \<noteq> 0" by simp
  ultimately have "do_search (Suc (Suc 0)) 50 (\<lambda>i. 0) True (\<lambda>v. 0) mouse_net [1, 2, 3, 4, 5, 6]
      (sdp_uuid16_create 0x1002) ?s = Some (Ret (0, ?s\<lparr>attempts := attempts ?s + 2,
      printed := printed ?s @ browsing (ba2str [1, 2, 3, 4, 5, 6]) @ record_text mouse @
        ''Failed to connect to SDP server on '' @ ba2str [1, 2, 3, 4, 5, 6] @ '': '' @ ''gone'' @ [CHR 0x0A]\<rparr>))"
    by (rule number_taken_for_group)
  then show ?thesis by (simp only: tool.select_convs append_Nil add_0)
qed

text \<open>
  The descent into groups has no end of its own: a peer that names another group in every answer
  keeps the tool connecting and recursing, whatever depth is allowed.
\<close>
theorem browse_descends_forever:
  assumes "\<And>k. \<exists>ds. serves f (net k) (gs k) [ds] \<and> typed_group ds \<and> group_of ds = Some (gs (Suc k))"
    and "\<And>k. gs (Suc k) \<noteq> gs k" "gs 0 = PUBLIC_BROWSE_GROUP"
  shows "\<forall>n. browse_xml n f junk late addr net bdaddr = Some NoFuel"
proof
  fix n
  show "browse_xml n f junk late addr net bdaddr = Some NoFuel"
    using descent_endless [of f net gs n junk late addr bdaddr "\<lparr>attempts = 0, printed = []\<rparr>"] assms
    by (simp add: browse_xml_def)
qed

definition back_to_root :: "sdp_data list" where
  "back_to_root = [Sdp_data SDP_UUID16 0x0200 3 (Vuuid (sdp_uuid16_create 0x1002))]"

lemma cycle_answers:
  "answer_ok SDP_SEQ8 [back_to_root]" "length (answer SDP_SEQ8 [back_to_root]) = 10"
  "answer_ok SDP_SEQ8 [printers]" "length (answer SDP_SEQ8 [printers]) = 18"
  by (simp_all add: answer_ok_def answer_def service_length printers_ok length_ok_def promoted_def SDP_IS_SEQ_def
      len_field_def)
    (simp_all add: service_ok_def service_bytes_def rec_bytes_def length_rec_header back_to_root_def attr_enc_def
      attrs_ok_def enc_simps)

theorem browse_descends_forever_witness:
  "\<forall>n. browse_xml n 50 (\<lambda>i. 0) True (\<lambda>v. 0)
      (\<lambda>k. Inr (if even k then sample_session 0x1002 [printers] else sample_session 0x1234 [back_to_root])) [1, 2, 3, 4, 5, 6] = Some NoFuel"
proof (rule browse_descends_forever [where gs = "\<lambda>k. if even k then PUBLIC_BROWSE_GROUP else 0x1234"])
  fix k :: nat
  have "serves 50 (Inr (sample_session 0x1002 [printers])) 0x1002 [printers]"
    "serves 50 (Inr (sample_session 0x1234 [back_to_root])) 0x1234 [back_to_root]"
    using cycle_answers by (auto intro!: sample_serves)
  then show "\<exists>ds. serves 50 (Inr (if even k then sample_session 0x1002 [printers] else sample_session 0x1234 [back_to_root]))
        (if even k then PUBLIC_BROWSE_GROUP else 0x1234) [ds] \<and>
      typed_group ds \<and> group_of ds = Some (if even (Suc k) then PUBLIC_BROWSE_GROUP else 0x1234)"
    by (intro exI [of _ "if even k then printers else back_to_root"])
      (simp add: typed_group_def printers_def back_to_root_def PUBLIC_BROWSE_GROUP_def)
qed (simp_all add: PUBLIC_BROWSE_GROUP_def)

end
