(* ===== verification/SdpXmlRead.thy ===== *)
theory SdpXmlRead
  imports SdpEnc SdpXml
begin

text \<open>
  Reading of records from XML (\<open>src/sdp-xml.c\<close>): the conversions of attribute values
  (\<open>sdp_xml_parse_\<dots>\<close>) and the two handlers that GLib's markup parser calls for the elements of
  the document, \<open>element_start\<close> and \<open>element_end\<close>, with the stack of unfinished elements they
  keep.  GLib's parser itself is a parameter of \<open>sdp_xml_parse_record\<close>.

  A C string is a HOL string without its NUL.  \<open>None\<close> is an access C leaves undefined.
\<close>

section \<open>Numbers in any base\<close>

text \<open>
  \<open>strtoul(s, &endptr, 0)\<close> and its kin: \<open>0x\<close> announces base 16, another leading zero base 8.
  The results are the value and \<open>endptr\<close>, as the rest of the string.
\<close>

fun scan_base :: "nat \<Rightarrow> nat \<Rightarrow> string \<Rightarrow> nat \<times> string" where
  "scan_base base acc [] = (acc, [])"
| "scan_base base acc (c # s) = (case hexval c of
     None \<Rightarrow> (acc, c # s)
   | Some d \<Rightarrow> if d < base then scan_base base (base * acc + d) s else (acc, c # s))"

definition has_0x :: "string \<Rightarrow> bool" where
  "has_0x t = (case t of c # d # _ \<Rightarrow> c = CHR ''0'' \<and> (d = CHR ''x'' \<or> d = CHR ''X'') | _ \<Rightarrow> False)"

definition strto0 :: "string \<Rightarrow> bool \<times> nat \<times> string" where
  "strto0 s =
     (let (neg, _, t) = scan_sign 0 (dropWhile is_space s)
      in if has_0x t then strto16 s
         else let base = (case t of c # _ \<Rightarrow> if c = CHR ''0'' then 8 else 10 | [] \<Rightarrow> 10);
                  (v, r) = scan_base base 0 t
              in if length r = length t then (False, 0, s) else (neg, v, r))"

definition strtoul0 :: "string \<Rightarrow> u32 \<times> string" where
  "strtoul0 s = (let (neg, v, r) = strto0 s in
     (if 2 ^ 32 \<le> v then - 1 else if neg then - word_of_nat v else word_of_nat v, r))"

definition strtoull0 :: "string \<Rightarrow> u64 \<times> string" where
  "strtoull0 s = (let (neg, v, r) = strto0 s in
     (if 2 ^ 64 \<le> v then - 1 else if neg then - word_of_nat v else word_of_nat v, r))"

definition strtol0 :: "string \<Rightarrow> int \<times> string" where
  "strtol0 s = (let (neg, v, r) = strto0 s in
     (if neg then - int (min v (2 ^ 31)) else int (min v (2 ^ 31 - 1)), r))"

definition strtoll16 :: "string \<Rightarrow> int \<times> string" where
  "strtoll16 s = (let (neg, v, r) = strto16 s in
     (if neg then - int (min v (2 ^ 63)) else int (min v (2 ^ 63 - 1)), r))"

section \<open>Pairs of hexadecimal digits\<close>

text \<open>
  \<open>strtoul(buf, 0, 16)\<close> of a buffer with two characters, of which the second may be the NUL of the
  string.
\<close>

definition pair_value :: "string \<Rightarrow> u8" where
  "pair_value s = ucast (fst (strtoul16 s))"

fun hex_pairs :: "nat \<Rightarrow> string \<Rightarrow> buf option" where
  "hex_pairs 0 s = Some []"
| "hex_pairs (Suc n) (c # d # s) = map_option ((#) (pair_value [c, d])) (hex_pairs n s)"
| "hex_pairs (Suc n) _ = None"

text \<open>
  The sixteen bytes of \<open>val\<close> are filled from the digits, dashes left out; the code does not look
  at the number of digits.
\<close>

fun uuid128_bytes :: "string \<Rightarrow> nat \<Rightarrow> buf \<Rightarrow> buf option" where
  "uuid128_bytes [] j bs = Some bs"
| "uuid128_bytes (c # s) j bs =
     (if c = CHR ''-'' then uuid128_bytes s j bs
      else (case s of
          [] \<Rightarrow> wr8 bs j (pair_value [c])
        | d # s \<Rightarrow> do { bs \<leftarrow> wr8 bs j (pair_value [c, d]); uuid128_bytes s (j + 1) bs }))"

definition sdp_xml_parse_uuid128 :: "string \<Rightarrow> sdp_data ptr option" where
  "sdp_xml_parse_uuid128 data = do {
     bs \<leftarrow> uuid128_bytes data 0 (replicate 16 0);
     sdp_data_alloc SDP_UUID128 (Mem bs) }"

section \<open>Values\<close>

text \<open>\<open>ret->val.uuid\<close> of an element that was allocated as a UUID.\<close>

definition the_uuid :: "sdp_data \<Rightarrow> uuid_t option" where
  "the_uuid d = (case val d of Vuuid u \<Rightarrow> Some u | _ \<Rightarrow> None)"

definition sdp_xml_parse_uuid :: "string \<Rightarrow> sdp_record \<Rightarrow> (sdp_data ptr \<times> sdp_record) option" where
  "sdp_xml_parse_uuid data rec =
     (let (v, endptr) = strtoll16 data; v = word_of_int v :: u32 in
      if length data \<noteq> 36 \<and> endptr \<noteq> [] then Some (NULL, rec)
      else do {
        ret \<leftarrow> (if length data = 36 then sdp_xml_parse_uuid128 data
               else if 65535 < v then sdp_data_alloc SDP_UUID32 (Mem (le_of 4 v))
               else sdp_data_alloc SDP_UUID16 (Mem (le_of 2 (ucast v :: u16))));
        case ret of
          NULL \<Rightarrow> Some (NULL, rec)
        | Ptr d \<Rightarrow> do { u \<leftarrow> the_uuid d; Some (ret, sdp_pattern_add_uuid rec u) } })"

text \<open>
  \<open>failed data endptr\<close> is the test behind every integer conversion: a string of which nothing
  was read (\<open>endptr == data\<close>) passes it.
\<close>

definition failed :: "string \<Rightarrow> string \<Rightarrow> bool" where
  "failed data endptr \<longleftrightarrow> length endptr \<noteq> length data \<and> endptr \<noteq> []"

definition sdp_xml_parse_int :: "string \<Rightarrow> u8 \<Rightarrow> sdp_data ptr option" where
  "sdp_xml_parse_int data t =
     (if t = SDP_BOOL then
        (if data = ''true'' then sdp_data_alloc t (Mem [1])
         else if data = ''false'' then sdp_data_alloc t (Mem [0])
         else Some NULL)
      else if t = SDP_INT8 \<or> t = SDP_UINT8 then
        (let (v, endptr) = strtoul0 data in
         if failed data endptr then Some NULL else sdp_data_alloc t (Mem [ucast v]))
      else if t = SDP_INT16 \<or> t = SDP_UINT16 then
        (let (v, endptr) = strtoul0 data in
         if failed data endptr then Some NULL else sdp_data_alloc t (Mem (le_of 2 (ucast v :: u16))))
      else if t = SDP_INT32 \<or> t = SDP_UINT32 then
        (let (v, endptr) = strtoul0 data in
         if failed data endptr then Some NULL else sdp_data_alloc t (Mem (le_of 4 v)))
      else if t = SDP_INT64 \<or> t = SDP_UINT64 then
        (let (v, endptr) = strtoull0 data in
         if failed data endptr then Some NULL else sdp_data_alloc t (Mem (le_of 8 v)))
      else if t = SDP_INT128 \<or> t = SDP_UINT128 then do {
        bs \<leftarrow> hex_pairs 16 data;
        sdp_data_alloc t (Mem bs) }
      else Some NULL)"

text \<open>\<open>encoding\<close> is true for \<open>SDP_XML_ENCODING_HEX\<close>; the result is the object and \<open>*length\<close>.\<close>

definition sdp_xml_parse_string_decode :: "string \<Rightarrow> bool \<Rightarrow> (buf \<times> u32) option" where
  "sdp_xml_parse_string_decode data encoding =
     (if \<not> encoding then Some (map byte data @ [0], word_of_nat (length data))
      else do {
        decoded \<leftarrow> hex_pairs (length data div 2) data;
        Some (decoded @ [0], word_of_nat (length data div 2)) })"

definition sdp_xml_parse_url :: "string \<Rightarrow> sdp_data ptr option" where
  "sdp_xml_parse_url data = do {
     (url, len) \<leftarrow> sdp_xml_parse_string_decode data False;
     sdp_data_alloc_with_length (if 255 < len then SDP_URL_STR16 else SDP_URL_STR8) (Mem url) len }"

definition sdp_xml_parse_text :: "string \<Rightarrow> bool \<Rightarrow> sdp_data ptr option" where
  "sdp_xml_parse_text data encoding = do {
     (s, len) \<leftarrow> sdp_xml_parse_string_decode data encoding;
     sdp_data_alloc_with_length (if 255 < len then SDP_TEXT_STR16 else SDP_TEXT_STR8) (Mem s) len }"

definition sdp_xml_parse_nil :: "string \<Rightarrow> sdp_data ptr option" where
  "sdp_xml_parse_nil data = sdp_data_alloc SDP_DATA_NIL Null_src"

section \<open>The stack of unfinished elements\<close>

text \<open>
  \<open>struct sdp_xml_data\<close>: \<open>xsize\<close> is the size of the object \<open>text\<close> points to, of which the string
  and its NUL are the used part.  The stack is a list, its head first.
\<close>

record sdp_xml_data =
  xtext :: string
  xsize :: nat
  xdata :: "sdp_data ptr"
  xhex :: bool
  xname :: "string ptr"

record context_data =
  crecord :: sdp_record
  cstack :: "sdp_xml_data list"
  cattr :: u16

definition sdp_xml_data_alloc :: sdp_xml_data where
  "sdp_xml_data_alloc = \<lparr>xtext = [], xsize = 1024, xdata = NULL, xhex = False, xname = NULL\<rparr>"

definition sdp_xml_data_expand :: "sdp_xml_data \<Rightarrow> sdp_xml_data" where
  "sdp_xml_data_expand e = e\<lparr>xsize := 2 * xsize e\<rparr>"

partial_function (option) make_room :: "nat \<Rightarrow> sdp_xml_data \<Rightarrow> sdp_xml_data option" where
  "make_room n e = (if xsize e < n then make_room n (sdp_xml_data_expand e) else Some e)"

definition append_text :: "string \<Rightarrow> sdp_xml_data \<Rightarrow> sdp_xml_data option" where
  "append_text s e = do {
     e \<leftarrow> make_room (length (xtext e) + 1 + length s) e;
     if length (xtext e) + length s < xsize e then Some (e\<lparr>xtext := xtext e @ s\<rparr>) else None }"

definition sdp_xml_parse_datatype ::
    "string \<Rightarrow> sdp_xml_data \<Rightarrow> sdp_record \<Rightarrow> (sdp_data ptr \<times> sdp_record) option" where
  "sdp_xml_parse_datatype el e rec =
     (let data = xtext e; ret = map_option (\<lambda>d. (d, rec)) in
      if el = ''boolean'' then ret (sdp_xml_parse_int data SDP_BOOL)
      else if el = ''uint8'' then ret (sdp_xml_parse_int data SDP_UINT8)
      else if el = ''uint16'' then ret (sdp_xml_parse_int data SDP_UINT16)
      else if el = ''uint32'' then ret (sdp_xml_parse_int data SDP_UINT32)
      else if el = ''uint64'' then ret (sdp_xml_parse_int data SDP_UINT64)
      else if el = ''uint128'' then ret (sdp_xml_parse_int data SDP_UINT128)
      else if el = ''int8'' then ret (sdp_xml_parse_int data SDP_INT8)
      else if el = ''int16'' then ret (sdp_xml_parse_int data SDP_INT16)
      else if el = ''int32'' then ret (sdp_xml_parse_int data SDP_INT32)
      else if el = ''int64'' then ret (sdp_xml_parse_int data SDP_INT64)
      else if el = ''int128'' then ret (sdp_xml_parse_int data SDP_INT128)
      else if el = ''uuid'' then sdp_xml_parse_uuid data rec
      else if el = ''url'' then ret (sdp_xml_parse_url data)
      else if el = ''text'' then ret (sdp_xml_parse_text data (xhex e))
      else if el = ''nil'' then ret (sdp_xml_parse_nil data)
      else Some (NULL, rec))"

section \<open>The handlers\<close>

type_synonym xattrs = "(string \<times> string) list"

primrec attr_id_of :: "xattrs \<Rightarrow> u16 \<Rightarrow> u16" where
  "attr_id_of [] i = i"
| "attr_id_of (a # as) i = (if fst a = ''id'' then word_of_int (fst (strtol0 (snd a))) else attr_id_of as i)"

primrec read_attrs :: "xattrs \<Rightarrow> sdp_xml_data \<Rightarrow> sdp_xml_data option" where
  "read_attrs [] e = Some e"
| "read_attrs (a # as) e = do {
     e \<leftarrow> (if fst a = ''value'' then append_text (snd a) e else Some e);
     let e = (if fst a = ''encoding'' \<and> snd a = ''hex'' then e\<lparr>xhex := True\<rparr> else e);
     let e = (if fst a = ''name'' then e\<lparr>xname := Ptr (snd a)\<rparr> else e);
     read_attrs as e }"

definition element_start :: "string \<Rightarrow> xattrs \<Rightarrow> context_data \<Rightarrow> context_data option" where
  "element_start el attrs ctx =
     (if el = ''record'' then Some ctx
      else if el = ''attribute'' then Some (ctx\<lparr>cattr := attr_id_of attrs (cattr ctx)\<rparr>)
      else if el = ''sequence'' then do {
        d \<leftarrow> sdp_data_alloc SDP_SEQ8 Null_src;
        Some (ctx\<lparr>cstack := sdp_xml_data_alloc\<lparr>xdata := d\<rparr> # cstack ctx\<rparr>) }
      else if el = ''alternate'' then do {
        d \<leftarrow> sdp_data_alloc SDP_ALT8 Null_src;
        Some (ctx\<lparr>cstack := sdp_xml_data_alloc\<lparr>xdata := d\<rparr> # cstack ctx\<rparr>) }
      else do {
        e \<leftarrow> read_attrs attrs sdp_xml_data_alloc;
        (d, rec) \<leftarrow> sdp_xml_parse_datatype el e (crecord ctx);
        Some (ctx\<lparr>crecord := rec, cstack := e\<lparr>xdata := d\<rparr> # cstack ctx\<rparr>) })"

definition compute_seq_size :: "sdp_data \<Rightarrow> int option" where
  "compute_seq_size d = do { ds \<leftarrow> dataseq (val d); Some (unitSize d + sum_list (map unitSize ds)) }"

text \<open>
  The end of a sequence or alternative: its size, and with it its descriptor.  \<open>base\<close> is the
  8-bit descriptor, the 16-bit and 32-bit ones follow it.
\<close>

definition close_seq :: "u8 \<Rightarrow> sdp_data \<Rightarrow> sdp_data option" where
  "close_seq base d = do {
     n \<leftarrow> compute_seq_size d;
     Some (if 65535 < n then Sdp_data (base + 2) (attrId d) (n + 4) (val d)
           else if 255 < n then Sdp_data (base + 1) (attrId d) (n + 2) (val d)
           else Sdp_data (dtd d) (attrId d) (n + 1) (val d)) }"

definition close_elem :: "string \<Rightarrow> sdp_data \<Rightarrow> sdp_data option" where
  "close_elem el d =
     (if el = ''sequence'' then close_seq SDP_SEQ8 d
      else if el = ''alternate'' then close_seq SDP_ALT8 d
      else Some d)"

definition adopt :: "sdp_data \<Rightarrow> sdp_data \<Rightarrow> sdp_data option" where
  "adopt p d =
     (if SDP_IS_SEQ (dtd p) \<or> SDP_IS_ALT (dtd p) then do {
        ds \<leftarrow> dataseq (val p);
        Some (Sdp_data (dtd p) (attrId p) (unitSize p) (Vseq (sdp_seq_append ds d))) }
      else Some p)"

text \<open>
  At the end of an attribute the head of the stack is added to the record (a second value for the
  same attribute is dropped) and the stack is forgotten; without a value nothing happens.
\<close>

definition element_end :: "string \<Rightarrow> context_data \<Rightarrow> context_data option" where
  "element_end el ctx =
     (if el = ''record'' then Some ctx
      else if el = ''attribute'' then
        (case cstack ctx of
           [] \<Rightarrow> Some ctx
         | e # _ \<Rightarrow> (case xdata e of
             NULL \<Rightarrow> Some ctx
           | Ptr d \<Rightarrow> do {
               (_, rec) \<leftarrow> sdp_attr_add (crecord ctx) (cattr ctx) d;
               Some (ctx\<lparr>crecord := rec, cstack := []\<rparr>) }))
      else
        (case cstack ctx of
           [] \<Rightarrow> Some ctx
         | e # st \<Rightarrow> (case xdata e of
             NULL \<Rightarrow> Some ctx
           | Ptr d \<Rightarrow> do {
               d \<leftarrow> close_elem el d;
               case st of
                 [] \<Rightarrow> Some (ctx\<lparr>cstack := e\<lparr>xdata := Ptr d\<rparr> # st\<rparr>)
               | p # below \<Rightarrow> (case xdata p of
                   NULL \<Rightarrow> Some (ctx\<lparr>cstack := e\<lparr>xdata := Ptr d\<rparr> # st\<rparr>)
                 | Ptr pd \<Rightarrow> do {
                     pd \<leftarrow> adopt pd d;
                     Some (ctx\<lparr>cstack := p\<lparr>xdata := Ptr pd\<rparr> # below\<rparr>) }) })))"

section \<open>The parser\<close>

text \<open>
  GLib's parser is the parameter \<open>markup\<close>: the calls of the handlers it makes for a text, in their
  order, and whether it returns success.
\<close>

datatype markup_event = Start_el string xattrs | End_el string

primrec handle_event :: "markup_event \<Rightarrow> context_data \<Rightarrow> context_data option" where
  "handle_event (Start_el el as) ctx = element_start el as ctx"
| "handle_event (End_el el) ctx = element_end el ctx"

primrec handle_events :: "markup_event list \<Rightarrow> context_data \<Rightarrow> context_data option" where
  "handle_events [] ctx = Some ctx"
| "handle_events (ev # evs) ctx = do { ctx \<leftarrow> handle_event ev ctx; handle_events evs ctx }"

definition sdp_xml_parse_record ::
    "(string \<Rightarrow> markup_event list \<times> bool) \<Rightarrow> string \<Rightarrow> nat \<Rightarrow> sdp_record ptr option" where
  "sdp_xml_parse_record markup data n =
     (let (evs, ok) = markup (take n data) in do {
        ctx \<leftarrow> handle_events evs \<lparr>crecord = sdp_record_alloc, cstack = [], cattr = 0\<rparr>;
        Some (if ok then Ptr (crecord ctx) else NULL) })"

end
