(* ===== verification/SdpXmlNum.thy ===== *)
theory SdpXmlNum
  imports SdpXmlRead
begin

text \<open>
  The conversions of the XML reader give back what the printer wrote: numbers, pairs of
  hexadecimal digits, UUIDs.
\<close>

section \<open>Decimal numbers\<close>

lemma dec_digit_less: "n < 10 \<Longrightarrow> hexval (hexdigit n) = Some n"
  by simp

lemma scan_base_dec: "scan_base 10 0 (dec_of n @ r) = scan_base 10 n r"
proof (induction n arbitrary: r rule: dec_of.induct)
  case (1 n)
  show ?case
  proof (cases "n < 10")
    case True
    then show ?thesis by (simp add: dec_of.simps [of n])
  next
    case False
    have "n mod 10 < 16" using mod_less_divisor [of 10 n] by linarith
    with 1 [OF False, of "hexdigit (n mod 10) # r"] False show ?thesis
      by (simp add: dec_of.simps [of n])
  qed
qed

lemma dec_of_head: "0 < n \<Longrightarrow> \<exists>k s. dec_of n = hexdigit k # s \<and> 0 < k \<and> k < 10"
proof (induction n rule: dec_of.induct)
  case (1 n)
  show ?case
  proof (cases "n < 10")
    case True
    with "1.prems" show ?thesis by (simp add: dec_of.simps [of n]) blast
  next
    case False
    then have "0 < n div 10" by simp
    with "1.IH" [OF False] False show ?thesis by (auto simp: dec_of.simps [of n])
  qed
qed

lemma dec_of_0: "dec_of 0 = ''0''"
  by (simp add: dec_of.simps hexdigit_def)

lemma strto0_digits:
  assumes "0 < n"
  shows "\<not> has_0x (dec_of n)" "dropWhile is_space (dec_of n) = dec_of n"
    "scan_sign 0 (dec_of n) = (False, 0, dec_of n)"
    "(case dec_of n of c # _ \<Rightarrow> if c = CHR ''0'' then 8 else 10 | [] \<Rightarrow> 10) = (10::nat)"
proof -
  obtain k s where k: "dec_of n = hexdigit k # s" "0 < k" "k < 10" using dec_of_head [OF assms] by blast
  have z: "hexdigit k \<noteq> CHR ''0''" using k hexdigit_eq_char(1) [of k] by simp
  note p = hexdigit_plain [of k]
  show "\<not> has_0x (dec_of n)" using k z by (simp add: has_0x_def split: list.splits)
  show "dropWhile is_space (dec_of n) = dec_of n" using k p by simp
  show "scan_sign 0 (dec_of n) = (False, 0, dec_of n)" using k p by (simp add: scan_sign_def)
  show "(case dec_of n of c # _ \<Rightarrow> if c = CHR ''0'' then 8 else 10 | [] \<Rightarrow> 10) = (10::nat)"
    using k z by simp
qed

lemma dec_of_nonempty [simp]: "dec_of n \<noteq> []"
  by (subst dec_of.simps) simp

lemma strto0_dec: "strto0 (dec_of n) = (False, n, [])"
proof (cases "n = 0")
  case True
  then show ?thesis by (simp add: dec_of_0 strto0_def is_space_def scan_sign_def has_0x_def hexval_def)
next
  case False
  then have "0 < n" by simp
  with strto0_digits [OF this] scan_base_dec [of n "[]"] show ?thesis
    by (simp add: strto0_def)
qed

lemma strto0_neg: "0 < n \<Longrightarrow> strto0 (''-'' @ dec_of n) = (True, n, [])"
  using strto0_digits [of n] scan_base_dec [of n "[]"]
  by (simp add: strto0_def is_space_def scan_sign_def)

lemma strto0_0x: "0 < w \<Longrightarrow> n < 16 ^ w \<Longrightarrow> strto0 (''0x'' @ hexw w n) = (False, n, [])"
  using strto16_0x_hexw [of w "[]" n] by (simp add: strto0_def is_space_def scan_sign_def has_0x_def)

lemma strtoul0_fmt_d:
  assumes "- (2 ^ 31) \<le> i" "i < 2 ^ 31"
  shows "strtoul0 (fmt_d i) = (word_of_int i, [])"
proof (cases "i < 0")
  case True
  with assms(1) have "0 < nat (- i)" "nat (- i) < 2 ^ 32" by (auto simp: nat_less_iff)
  then show ?thesis using True strto0_neg [of "nat (- i)"]
    by (simp add: fmt_d_def strtoul0_def del: nat_less_iff)
next
  case False
  with assms(2) have "nat i < 2 ^ 32" by (auto simp: nat_less_iff)
  then show ?thesis using False strto0_dec [of "nat i"] by (simp add: fmt_d_def strtoul0_def)
qed

lemma strtoull0_fmt_d:
  assumes "- (2 ^ 63) \<le> i" "i < 2 ^ 63"
  shows "strtoull0 (fmt_d i) = (word_of_int i, [])"
proof (cases "i < 0")
  case True
  with assms(1) have "0 < nat (- i)" "nat (- i) < 2 ^ 64" by (auto simp: nat_less_iff)
  then show ?thesis using True strto0_neg [of "nat (- i)"]
    by (simp add: fmt_d_def strtoull0_def del: nat_less_iff)
next
  case False
  with assms(2) have "nat i < 2 ^ 64" by (auto simp: nat_less_iff)
  then show ?thesis using False strto0_dec [of "nat i"] by (simp add: fmt_d_def strtoull0_def)
qed

section \<open>Hexadecimal numbers\<close>

lemma strtoul0_fmt_x:
  assumes "0 < w" "w \<le> 8" "n < 16 ^ w"
  shows "strtoul0 (''0x'' @ fmt_x w n) = (word_of_nat n, [])"
proof -
  have "(16::nat) ^ w \<le> 16 ^ 8" using assms(2) by (rule power_increasing) simp
  with assms(3) have "n < 2 ^ 32" by simp
  then show ?thesis using assms strto0_0x [of w n] by (simp add: fmt_x_hexw strtoul0_def)
qed

lemma strtoull0_fmt_x:
  assumes "n < 16 ^ 16"
  shows "strtoull0 (''0x'' @ fmt_x 16 n) = (word_of_nat n, [])"
  using assms strto0_0x [of 16 n] by (simp add: fmt_x_hexw strtoull0_def)

lemma strtol0_fmt_x4:
  assumes "n < 16 ^ 4"
  shows "strtol0 (''0x'' @ fmt_x 4 n) = (int n, [])"
  using assms strto0_0x [of 4 n] by (simp add: fmt_x_hexw strtol0_def)

lemma strtoll16_fmt_x:
  assumes "0 < w" "w \<le> 8" "n < 16 ^ w"
  shows "strtoll16 (''0x'' @ fmt_x w n) = (int n, [])"
proof -
  have "(16::nat) ^ w \<le> 16 ^ 8" using assms(2) by (rule power_increasing) simp
  with assms(3) have "n < 2 ^ 63 - 1" by simp
  then show ?thesis using assms strto16_0x_hexw [of w "[]" n] by (simp add: fmt_x_hexw strtoll16_def)
qed

section \<open>Bytes\<close>

lemma pair_value_hexw: "pair_value (hexw 2 (unat b)) = b"
proof -
  have lt: "unat b < 16 ^ 2" using unsigned_less [of b] by simp
  then have "strto16 (hexw 2 (unat b)) = (False, unat b, [])"
    using strto16_hexw [of 2 "[]" "unat b"] by simp
  moreover have "unat b < 2 ^ 32" using lt by simp
  ultimately show ?thesis using lt by (simp add: pair_value_def strtoul16_def word_unat_eq_iff unat_of_nat take_bit_eq_mod mod_mod_cancel)
qed

lemma hex_bytes_Cons:
  "hex_bytes (b # bs) =
     [hexdigit (unat b div 16 mod 16), hexdigit (unat b mod 16)] @ hex_bytes bs"
proof -
  have "unat b < 16 ^ 2" using unsigned_less [of b] by simp
  then show ?thesis by (simp add: hex_bytes_def fmt_x_hexw numeral_2_eq_2)
qed

lemma pair_of_byte:
  "pair_value [hexdigit (unat b div 16 mod 16), hexdigit (unat b mod 16)] = b"
  using pair_value_hexw [of b] by (simp add: numeral_2_eq_2)

lemma hex_bytes_Nil [simp]: "hex_bytes [] = []"
  by (simp add: hex_bytes_def)

lemma length_hex_bytes [simp]: "length (hex_bytes bs) = 2 * length bs"
  by (induction bs) (simp_all add: hex_bytes_Cons)

lemma hex_pairs_bytes: "hex_pairs (length bs) (hex_bytes bs @ r) = Some bs"
  by (induction bs) (simp_all add: hex_bytes_Cons pair_of_byte)

lemma uuid128_bytes_hex:
  "j + length bs \<le> length v \<Longrightarrow>
   uuid128_bytes (hex_bytes bs @ r) j v =
     uuid128_bytes r (j + length bs) (take j v @ bs @ drop (j + length bs) v)"
proof (induction bs arbitrary: j v)
  case (Cons b bs)
  have "take (Suc j) (v[j := b]) @ bs @ drop (Suc j + length bs) (v[j := b]) =
      take j v @ (b # bs) @ drop (j + length (b # bs)) v"
    using Cons.prems by (simp add: take_Suc_conv_app_nth)
  with Cons.IH [of "Suc j" "v[j := b]"] Cons.prems show ?case
    by (simp add: hex_bytes_Cons hexdigit_plain pair_of_byte wr8_def)
qed simp

lemma uuid128_text:
  assumes "length bs = 16"
  shows "uuid128_bytes (hex_bytes (take 4 bs) @ ''-'' @ hex_bytes (take 2 (drop 4 bs)) @ ''-'' @
      hex_bytes (take 2 (drop 6 bs)) @ ''-'' @ hex_bytes (take 2 (drop 8 bs)) @ ''-'' @
      hex_bytes (take 6 (drop 10 bs))) 0 (replicate 16 0) = Some bs"
proof -
  have "take 6 (drop 10 bs) = drop 10 bs" using assms by simp
  moreover have "take 2 (drop 8 bs) @ drop 10 bs = drop 8 bs" "take 2 (drop 6 bs) @ drop 8 bs = drop 6 bs"
    "take 2 (drop 4 bs) @ drop 6 bs = drop 4 bs"
    using append_take_drop_id [of 2 "drop 8 bs"] append_take_drop_id [of 2 "drop 6 bs"]
      append_take_drop_id [of 2 "drop 4 bs"] by simp_all
  ultimately have "take 4 bs @ take 2 (drop 4 bs) @ take 2 (drop 6 bs) @ take 2 (drop 8 bs) @
      take 6 (drop 10 bs) = bs" by simp
  then show ?thesis
    using assms uuid128_bytes_hex [where bs = "take 6 (drop 10 bs)" and r = "[]"]
    by (simp add: uuid128_bytes_hex)
qed

end
