(* ===== verification/SdpXmlDoc.thy ===== *)
theory SdpXmlDoc
  imports SdpXmlNum SdpPrint
begin

text \<open>
  The document a record is printed as: a tree of elements with attributes, its text, the events
  GLib reports for it, and what the reader makes of each value.
\<close>

section \<open>Documents\<close>

datatype xml = Elem string xattrs "xml list"

fun events :: "xml \<Rightarrow> markup_event list" where
  "events (Elem el as cs) = Start_el el as # concat (map events cs) @ [End_el el]"

text \<open>
  Elements with attributes are written as one empty-element tag, \<open>nil\<close> too; the others enclose
  their members, one tab deeper.
\<close>

definition show_attr :: "string \<times> string \<Rightarrow> string" where
  "show_attr a = '' '' @ fst a @ ''='' @ quote @ snd a @ quote"

fun show_xml :: "nat \<Rightarrow> xml \<Rightarrow> string" where
  "show_xml level (Elem el as cs) =
     (if el = ''nil'' then tabs level @ ''<nil/>'' @ [CHR 0x0A]
      else if as \<noteq> [] then tabs level @ ''<'' @ el @ concat (map show_attr as) @ '' />'' @ [CHR 0x0A]
      else tabs level @ ''<'' @ el @ ''>'' @ [CHR 0x0A] @
        concat (map (show_xml ((if 64 \<le> level then 62 else level) + 1)) cs) @
        tabs level @ ''</'' @ el @ ''>'' @ [CHR 0x0A])"

text \<open>The element of a value.\<close>

definition content :: "int \<Rightarrow> buf \<Rightarrow> buf" where
  "content n s = take (nat (n - 1)) s"

definition leaf_doc :: "u8 \<Rightarrow> int \<Rightarrow> sdp_val \<Rightarrow> xml" where
  "leaf_doc t n v = (case v of
     Zeroed \<Rightarrow> Elem ''nil'' [] []
   | Vuuid u \<Rightarrow> Elem ''uuid'' [(''value'', uuid_xml t u)] []
   | Vstr s \<Rightarrow>
       if SDP_IS_TEXT_STR t
       then Elem ''text'' ((if text_is_hex (content n s) then [(''encoding'', ''hex'')] else []) @
              [(''value'', text_value (content n s))]) []
       else Elem ''url'' [(''value'', map chr (content n s))] []
   | _ \<Rightarrow> (case the (int_text t v) of (name, x) \<Rightarrow> Elem name [(''value'', x)] []))"

fun doc_of :: "sdp_data \<Rightarrow> xml" where
  "doc_of (Sdp_data t a n v) = (case v of
     Vseq ds \<Rightarrow> Elem (if SDP_IS_SEQ t then ''sequence'' else ''alternate'') [] (map doc_of ds)
   | _ \<Rightarrow> leaf_doc t n v)"

definition attr_doc :: "sdp_data \<Rightarrow> xml" where
  "attr_doc d = Elem ''attribute'' [(''id'', ''0x'' @ fmt_x 4 (unat (attrId d)))] [doc_of d]"

definition record_doc :: "sdp_data list \<Rightarrow> xml" where
  "record_doc ds = Elem ''record'' [] (map attr_doc ds)"

definition show_attribute :: "sdp_data \<Rightarrow> string" where
  "show_attribute d =
     [CHR 0x09] @ ''<attribute'' @ show_attr (''id'', ''0x'' @ fmt_x 4 (unat (attrId d))) @ ''>'' @ [CHR 0x0A] @
     show_xml 2 (doc_of d) @ [CHR 0x09] @ ''</attribute>'' @ [CHR 0x0A]"

definition show_record :: "sdp_data list \<Rightarrow> string" where
  "show_record ds = xml_head @ ''<record>'' @ [CHR 0x0A] @ concat (map show_attribute ds) @ ''</record>'' @ [CHR 0x0A]"

section \<open>Values that survive printing\<close>

text \<open>
  \<open>readable d\<close>: the strings are at most 65535 bytes, the limit of \<open>sdp_data_alloc\<close>; a text
  that is not written in hexadecimal, and a URL, holds no character the printer writes in another
  form or that means something in an attribute value.
\<close>

definition clean :: "buf \<Rightarrow> bool" where
  "clean bs \<longleftrightarrow> list_all (\<lambda>b. plain (chr b) \<and> chr b \<noteq> CHR ''&'') bs"

fun readable :: "sdp_data \<Rightarrow> bool" and readable_val :: "u8 \<Rightarrow> int \<Rightarrow> sdp_val \<Rightarrow> bool" where
  "readable (Sdp_data t a n v) = (wf_val t n v \<and> readable_val t n v)"
| "readable_val t n (Vstr s) =
     (length (content n s) \<le> 65535 \<and>
      (SDP_IS_TEXT_STR t \<and> text_is_hex (content n s) \<or> clean (content n s)))"
| "readable_val t n (Vseq ds) = list_all readable ds"
| "readable_val t n _ = True"

section \<open>What is read\<close>

definition str_elem :: "u8 \<Rightarrow> buf \<Rightarrow> sdp_data" where
  "str_elem t bs = Sdp_data (if 255 < length bs then t + 1 else t) 0 (1 + int (length bs)) (Vstr bs)"

definition uuid_elem :: "u8 \<Rightarrow> uuid_t \<Rightarrow> sdp_data" where
  "uuid_elem t u =
     (if t = SDP_UUID128 then Sdp_data t 0 17 (Vuuid u)
      else if t = SDP_UUID32 \<and> 65535 < uuid32 u then Sdp_data t 0 5 (Vuuid (sdp_uuid32_create (uuid32 u)))
      else Sdp_data SDP_UUID16 0 3 (Vuuid (sdp_uuid16_create (if t = SDP_UUID32 then ucast (uuid32 u) else uuid16 u))))"

definition seq_elem :: "u8 \<Rightarrow> sdp_data list \<Rightarrow> sdp_data" where
  "seq_elem base ds = the (close_seq base (Sdp_data base 0 2 (Vseq ds)))"

fun reread :: "sdp_data \<Rightarrow> sdp_data" and reread_val :: "u8 \<Rightarrow> int \<Rightarrow> sdp_val \<Rightarrow> sdp_data" where
  "reread (Sdp_data t a n v) = reread_val t n v"
| "reread_val t n Zeroed = Sdp_data t 0 1 Zeroed"
| "reread_val t n (V8 w) = Sdp_data t 0 2 (V8 (if t = SDP_BOOL then (if w \<noteq> 0 then 1 else 0) else w))"
| "reread_val t n (V16 w) = Sdp_data t 0 3 (V16 w)"
| "reread_val t n (V32 w) = Sdp_data t 0 5 (V32 w)"
| "reread_val t n (V64 w) = Sdp_data t 0 9 (V64 w)"
| "reread_val t n (V128 bs) = Sdp_data t 0 17 (V128 bs)"
| "reread_val t n (Vuuid u) = uuid_elem t u"
| "reread_val t n (Vstr s) = str_elem (if SDP_IS_TEXT_STR t then SDP_TEXT_STR8 else SDP_URL_STR8) (content n s)"
| "reread_val t n (Vseq ds) = seq_elem (if SDP_IS_SEQ t then SDP_SEQ8 else SDP_ALT8) (map reread ds)"

text \<open>The UUIDs of a value, in the order they are read.\<close>

fun read_uuids :: "sdp_data \<Rightarrow> uuid_t list" and read_uuids_val :: "u8 \<Rightarrow> sdp_val \<Rightarrow> uuid_t list" where
  "read_uuids (Sdp_data t a n v) = read_uuids_val t v"
| "read_uuids_val t (Vuuid u) = [the (the_uuid (uuid_elem t u))]"
| "read_uuids_val t (Vseq ds) = concat (map read_uuids ds)"
| "read_uuids_val t _ = []"

section \<open>The meaning of a value\<close>

text \<open>
  What a value says, whatever descriptor width, size and form of UUID it is stored with.
\<close>

datatype sval = Snil | Sbool bool | Snum u8 sdp_val | Suuid buf | Stext buf | Surl buf
  | Sseq "sval list" | Salt "sval list"

fun meaning :: "sdp_data \<Rightarrow> sval" where
  "meaning (Sdp_data t a n v) = (case v of
     Zeroed \<Rightarrow> Snil
   | V8 w \<Rightarrow> if t = SDP_BOOL then Sbool (w \<noteq> 0) else Snum t v
   | Vuuid u \<Rightarrow> Suuid (uval (sdp_uuid_to_uuid128 u))
   | Vstr s \<Rightarrow> (if SDP_IS_TEXT_STR t then Stext else Surl) (content n s)
   | Vseq ds \<Rightarrow> (if SDP_IS_SEQ t then Sseq else Salt) (map meaning ds)
   | _ \<Rightarrow> Snum t v)"

section \<open>The printed text is the text of the document\<close>

lemma strndup_clean:
  "clean (take n s) \<Longrightarrow> n \<le> length s \<Longrightarrow> strndup s n = Some (map chr (take n s))"
proof (induction s n rule: strndup.induct)
  case (3 b s n)
  have "b \<noteq> 0" using "3.prems"(1) by (auto simp: clean_def plain_def chr_def)
  with 3 show ?case by (simp add: clean_def)
qed simp_all

lemma show_leaf: "as \<noteq> [] \<Longrightarrow> el \<noteq> ''nil'' \<Longrightarrow>
  show_xml level (Elem el as cs) = tabs level @ ''<'' @ el @ concat (map show_attr as) @ '' />'' @ [CHR 0x0A]"
  by simp

lemma leaf_line_show:
  "el \<noteq> ''nil'' \<Longrightarrow> leaf_line level el x = show_xml level (Elem el [(''value'', x)] cs)"
  by (simp add: leaf_line_def show_attr_def)

lemma leaf_xml_show:
  assumes "wf_val t n v" "readable_val t n v" "\<not> (SDP_IS_SEQ t \<or> SDP_IS_ALT t)"
  shows "leaf_xml level t n v = Some (show_xml level (leaf_doc t n v))"
proof -
  consider "t = SDP_DATA_NIL" "v = Zeroed"
    | w where "t = SDP_UINT8 \<or> t = SDP_INT8 \<or> t = SDP_BOOL" "v = V8 w"
    | w where "t = SDP_UINT16 \<or> t = SDP_INT16" "v = V16 w"
    | w where "t = SDP_UINT32 \<or> t = SDP_INT32" "v = V32 w"
    | w where "t = SDP_UINT64 \<or> t = SDP_INT64" "v = V64 w"
    | w where "t = SDP_UINT128 \<or> t = SDP_INT128" "v = V128 w"
    | w where "SDP_IS_UUID t" "v = Vuuid w"
    | s where "SDP_IS_TEXT_STR t" "v = Vstr s" "nat (n - 1) \<le> length s"
    | s where "is_url_str t" "v = Vstr s" "nat (n - 1) \<le> length s"
    using assms(1,3) by (cases v) (auto simp: is_int8_def is_int16_def is_int32_def is_int64_def is_int128_def)
  then show ?thesis
  proof cases
    case 7
    then show ?thesis by (auto simp: leaf_xml_def leaf_doc_def leaf_line_def show_attr_def dtd_groups)
  next
    case 8
    then have "rd s 0 (nat (n - 1)) = Some (content n s)" by (simp add: rd_def content_def)
    with 8 show ?thesis
      by (auto simp: leaf_xml_def leaf_doc_def show_attr_def val_str_def dtd_groups)
  next
    case 9
    then have "\<not> SDP_IS_TEXT_STR t" by (auto simp: dtd_groups)
    with 9 assms(2) have "strndup s (nat (n - 1)) = Some (map chr (content n s))"
      by (simp add: content_def strndup_clean)
    with 9 show ?thesis
      by (auto simp: leaf_xml_def leaf_doc_def leaf_line_def show_attr_def val_str_def dtd_groups)
  qed ((elim disjE)?;
       simp add: leaf_xml_def leaf_doc_def leaf_line_def show_attr_def int_text_def dtd_groups)+
qed

lemma convert_show:
  "readable d \<Longrightarrow> convert_raw_data_to_xml level d = Some (show_xml level (doc_of d))"
  "list_all readable ds \<Longrightarrow> xml_chain level ds = Some (concat (map (\<lambda>d. show_xml level (doc_of d)) ds))"
proof (induction level d and level ds rule: convert_raw_data_to_xml_xml_chain.induct)
  case (1 level t a n v)
  show ?case
  proof (cases "SDP_IS_SEQ t \<or> SDP_IS_ALT t")
    case True
    with "1.prems" obtain ds where v: "v = Vseq ds" by (cases v) (auto simp: dtd_groups)
    with 1 True show ?thesis by (auto simp: comp_def)
  next
    case False
    with "1.prems" have "doc_of (Sdp_data t a n v) = leaf_doc t n v" by (cases v) auto
    with False "1.prems" leaf_xml_show [of t n v level] show ?thesis by simp
  qed
qed simp_all

lemma convert_record_show:
  assumes "list_all readable ds" "ds \<noteq> []"
  shows "convert_sdp_record_to_xml ds = Some (show_record ds)"
proof -
  have "xml_attrs ds = Some (concat (map show_attribute ds))"
    using assms(1)
    by (induction ds)
      (simp_all add: convert_raw_attr_to_xml_func_def convert_show show_attribute_def show_attr_def)
  with assms(2) show ?thesis by (simp add: convert_sdp_record_to_xml_def show_record_def)
qed

end
