(* ===== verification/SdpXmlRound.thy ===== *)
theory SdpXmlRound
  imports SdpXmlDoc SdpRec
begin

text \<open>
  The events of a printed record, handled one after the other, build the record again: every
  element leaves its value on the stack, its end hands the value to the element around it.
\<close>

section \<open>Single values\<close>

text \<open>\<open>reads_value el x hex d us\<close>: an element \<open>el\<close> with the value \<open>x\<close> becomes \<open>d\<close>.\<close>

definition reads_value :: "string \<Rightarrow> string \<Rightarrow> bool \<Rightarrow> sdp_data \<Rightarrow> uuid_t list \<Rightarrow> bool" where
  "reads_value el x hex d us \<longleftrightarrow>
     (\<forall>e rec. xtext e = x \<longrightarrow> xhex e = hex \<longrightarrow>
        sdp_xml_parse_datatype el e rec = Some (Ptr d, sdp_pattern_add_uuidseq rec us))"

lemmas alloc_defs = sdp_data_alloc_def sdp_data_alloc_with_length_def mem_of_def dtd_groups

lemma read_bool: "reads_value ''boolean'' (if w \<noteq> 0 then ''true'' else ''false'') h
    (Sdp_data SDP_BOOL 0 2 (V8 (if w \<noteq> 0 then 1 else 0))) []" for w :: u8
  by (simp add: reads_value_def sdp_xml_parse_datatype_def sdp_xml_parse_int_def alloc_defs rd8_def)

lemma read_int8:
  assumes "strtoul0 x = (v, [])" "ucast v = (w :: u8)" "t = SDP_UINT8 \<and> el = ''uint8'' \<or> t = SDP_INT8 \<and> el = ''int8''"
  shows "reads_value el x h (Sdp_data t 0 2 (V8 w)) []"
  using assms
  by (auto simp: reads_value_def sdp_xml_parse_datatype_def sdp_xml_parse_int_def failed_def alloc_defs rd8_def)

lemma read_int16:
  assumes "strtoul0 x = (v, [])" "ucast v = (w :: u16)"
    "t = SDP_UINT16 \<and> el = ''uint16'' \<or> t = SDP_INT16 \<and> el = ''int16''"
  shows "reads_value el x h (Sdp_data t 0 3 (V16 w)) []"
  using assms
  by (auto simp: reads_value_def sdp_xml_parse_datatype_def sdp_xml_parse_int_def failed_def alloc_defs get_le16_def rd_def)

lemma read_int32:
  assumes "strtoul0 x = (w, [])" "t = SDP_UINT32 \<and> el = ''uint32'' \<or> t = SDP_INT32 \<and> el = ''int32''"
  shows "reads_value el x h (Sdp_data t 0 5 (V32 w)) []"
  using assms
  by (auto simp: reads_value_def sdp_xml_parse_datatype_def sdp_xml_parse_int_def failed_def alloc_defs get_le32_def rd_def)

lemma read_int64:
  assumes "strtoull0 x = (w, [])" "t = SDP_UINT64 \<and> el = ''uint64'' \<or> t = SDP_INT64 \<and> el = ''int64''"
  shows "reads_value el x h (Sdp_data t 0 9 (V64 w)) []"
  using assms
  by (auto simp: reads_value_def sdp_xml_parse_datatype_def sdp_xml_parse_int_def failed_def alloc_defs get_le64_def rd_def)

lemma read_int128:
  assumes "length bs = 16" "t = SDP_UINT128 \<and> el = ''uint128'' \<or> t = SDP_INT128 \<and> el = ''int128''"
  shows "reads_value el (hex_bytes bs) h (Sdp_data t 0 17 (V128 bs)) []"
  using assms hex_pairs_bytes [of bs "[]"]
  by (auto simp: reads_value_def sdp_xml_parse_datatype_def sdp_xml_parse_int_def alloc_defs rd_def)

lemma read_nil: "reads_value ''nil'' x h (Sdp_data SDP_DATA_NIL 0 1 Zeroed) []"
  by (simp add: reads_value_def sdp_xml_parse_datatype_def sdp_xml_parse_nil_def alloc_defs)

lemma ucast_short: "\<not> 65535 < (ucast w :: u32)" "ucast (ucast w :: u32) = w" for w :: u16
proof -
  have "unat w < 2 ^ 16" using unsigned_less [of w] by simp
  then show "\<not> 65535 < (ucast w :: u32)"
    by (simp add: word_less_nat_alt unsigned_ucast_eq take_bit_eq_mod)
qed (rule bit_word_eqI, simp add: bit_simps)

lemma read_uuid:
  assumes "SDP_IS_UUID t" "utype u = t" "length (uval u) = 16"
  shows "reads_value ''uuid'' (uuid_xml t u) h (uuid_elem t u) [the (the_uuid (uuid_elem t u))]"
proof -
  consider "t = SDP_UUID16" | "t = SDP_UUID32" | "t = SDP_UUID128" using assms(1) by (auto simp: dtd_groups)
  then have "\<exists>v. sdp_xml_parse_uuid (uuid_xml t u) rec =
      Some (Ptr (uuid_elem t u), sdp_pattern_add_uuid rec v) \<and> the_uuid (uuid_elem t u) = Some v" for rec
  proof cases
    case 1
    have "unat (uuid16 u) < 16 ^ 4" using unsigned_less [of "uuid16 u"] by simp
    then show ?thesis using 1 strtoll16_fmt_x [of 4 "unat (uuid16 u)"]
      by (auto simp: sdp_xml_parse_uuid_def uuid_xml_def fmt_x_hexw uuid_elem_def alloc_defs the_uuid_def get_le16_def rd_def
          Let_def ucast_short)
  next
    case 2
    have "unat (uuid32 u) < 16 ^ 8" using unsigned_less [of "uuid32 u"] by simp
    then show ?thesis using 2 strtoll16_fmt_x [of 8 "unat (uuid32 u)"]
      by (auto simp: sdp_xml_parse_uuid_def uuid_xml_def fmt_x_hexw uuid_elem_def alloc_defs the_uuid_def
          get_le16_def get_le32_def rd_def Let_def)
  next
    case 3
    moreover obtain vs where "u = \<lparr>utype = t, uval = vs\<rparr>" using assms(2) by (cases u) auto
    ultimately show ?thesis using assms(3) uuid128_text [of vs]
      by (auto simp: sdp_xml_parse_uuid_def sdp_xml_parse_uuid128_def uuid_xml_def uuid_elem_def alloc_defs
          the_uuid_def sdp_uuid128_create_def rd_def)
  qed
  then show ?thesis by (force simp: reads_value_def sdp_xml_parse_datatype_def)
qed

lemma byte_chr [simp]: "byte (chr b) = b"
proof -
  have "unat b < 256" using unsigned_less [of b] by simp
  then show ?thesis by (simp add: byte_def chr_def)
qed

lemma bytes_chrs: "map byte (map chr bs) = bs"
  by (induction bs) simp_all

lemma alloc_str_len:
  assumes "unat n = length bs" "n \<le> 65535"
    "t = SDP_TEXT_STR8 \<and> t16 = SDP_TEXT_STR16 \<or> t = SDP_URL_STR8 \<and> t16 = SDP_URL_STR16"
  shows "sdp_data_alloc_with_length (if 255 < n then t16 else t) (Mem (bs @ [0])) n = Some (Ptr (str_elem t bs))"
proof -
  have "unat n < 2 ^ 31" using assms(2) by (simp add: word_le_nat_alt)
  then have "sint n = int (length bs)" using assms(1) by (simp only: sint_small)
  moreover have "255 < n \<longleftrightarrow> 255 < length bs" using assms(1) by (simp add: word_less_nat_alt)
  moreover have "rd (bs @ [0]) 0 (unat n) = Some bs" by (simp add: rd_def assms(1))
  ultimately show ?thesis using assms(2,3)
    by (cases "255 < length bs") (auto simp: alloc_defs str_elem_def)
qed

lemma alloc_str:
  assumes "length bs \<le> 65535"
    "t = SDP_TEXT_STR8 \<and> t16 = SDP_TEXT_STR16 \<or> t = SDP_URL_STR8 \<and> t16 = SDP_URL_STR16"
  shows "sdp_data_alloc_with_length (if 255 < (word_of_nat (length bs) :: u32) then t16 else t)
      (Mem (bs @ [0])) (word_of_nat (length bs)) = Some (Ptr (str_elem t bs))"
proof (rule alloc_str_len [OF _ _ assms(2)])
  show u: "unat (word_of_nat (length bs) :: u32) = length bs" using assms(1) by (simp add: unat_of_nat)
  show "(word_of_nat (length bs) :: u32) \<le> 65535" unfolding word_le_nat_alt u using assms(1) by simp
qed

lemmas alloc_text = alloc_str [of _ SDP_TEXT_STR8 SDP_TEXT_STR16, simplified]
lemmas alloc_url = alloc_str [of _ SDP_URL_STR8 SDP_URL_STR16, simplified]

lemma text_value_clean: "clean bs \<Longrightarrow> \<not> text_is_hex bs \<Longrightarrow> text_value bs = map chr bs"
proof -
  assume "clean bs" and nohex: "\<not> text_is_hex bs"
  then have "escape_char b = [chr b]" if "b \<in> set bs" for b
    using escape_plain [of "chr b"] that by (simp add: clean_def list_all_iff)
  then have "concat (map escape_char bs) = map chr bs" by (induction bs) simp_all
  with nohex show ?thesis by (simp add: text_value_def)
qed

lemma read_text:
  assumes "length bs \<le> 65535" "text_is_hex bs \<or> clean bs"
  shows "reads_value ''text'' (text_value bs) (text_is_hex bs) (str_elem SDP_TEXT_STR8 bs) []"
proof (cases "text_is_hex bs")
  case True
  then show ?thesis using hex_pairs_bytes [of bs "[]"] alloc_text [OF assms(1)]
    by (simp add: reads_value_def sdp_xml_parse_datatype_def sdp_xml_parse_text_def
        sdp_xml_parse_string_decode_def text_value_def split del: if_split)
next
  case False
  with assms(2) have "clean bs" by simp
  then show ?thesis using False text_value_clean alloc_text [OF assms(1)] bytes_chrs
    by (simp add: reads_value_def sdp_xml_parse_datatype_def sdp_xml_parse_text_def
        sdp_xml_parse_string_decode_def del: map_map split del: if_split)
qed

lemma read_url:
  assumes "length bs \<le> 65535" "clean bs"
  shows "reads_value ''url'' (map chr bs) h (str_elem SDP_URL_STR8 bs) []"
  using alloc_url [OF assms(1)] bytes_chrs
  by (simp add: reads_value_def sdp_xml_parse_datatype_def sdp_xml_parse_url_def
      sdp_xml_parse_string_decode_def del: map_map split del: if_split)

section \<open>The attributes of an element\<close>

lemma make_room_enough:
  "0 < xsize e \<Longrightarrow> \<exists>m. make_room n e = Some (e\<lparr>xsize := m\<rparr>) \<and> n \<le> m \<and> 0 < m"
proof (induction "n - xsize e" arbitrary: e rule: less_induct)
  case less
  show ?case
  proof (cases "xsize e < n")
    case True
    have "n - xsize (sdp_xml_data_expand e) < n - xsize e"
      using True less.prems by (simp add: sdp_xml_data_expand_def)
    from less.hyps [OF this] less.prems True show ?thesis
      by (subst make_room.simps) (auto simp: sdp_xml_data_expand_def)
  next
    case False
    have "e\<lparr>xsize := xsize e\<rparr> = e" by simp
    with False less.prems show ?thesis by (subst make_room.simps) (metis not_less)
  qed
qed

lemma append_text_room:
  "0 < xsize e \<Longrightarrow> \<exists>m. append_text s e = Some (e\<lparr>xsize := m, xtext := xtext e @ s\<rparr>) \<and> 0 < m"
  using make_room_enough [of e "length (xtext e) + 1 + length s"]
  by (auto simp: append_text_def)

lemma read_value_attr:
  "\<exists>e. read_attrs ((if h then [(''encoding'', ''hex'')] else []) @ [(''value'', x)]) sdp_xml_data_alloc = Some e \<and>
     xtext e = x \<and> xhex e = h"
  using append_text_room [of "sdp_xml_data_alloc\<lparr>xhex := h\<rparr>" x]
  by (auto simp: sdp_xml_data_alloc_def)

section \<open>Elements\<close>

text \<open>
  \<open>opens evs el d0 us\<close>: the events push an element whose value is \<open>d0\<close>, to be closed by the end of
  \<open>el\<close>; the UUIDs \<open>us\<close> go to the pattern of the record.
\<close>

definition opens :: "markup_event list \<Rightarrow> sdp_data \<Rightarrow> uuid_t list \<Rightarrow> bool" where
  "opens evs d us \<longleftrightarrow>
     (\<forall>ctx. \<exists>e. handle_events evs ctx =
        Some (ctx\<lparr>crecord := sdp_pattern_add_uuidseq (crecord ctx) us, cstack := e # cstack ctx\<rparr>) \<and>
        xdata e = Ptr d)"

lemma opens_leaf:
  assumes "reads_value el x h d us" "el \<notin> {''record'', ''attribute'', ''sequence'', ''alternate''}"
  shows "opens [Start_el el ((if h then [(''encoding'', ''hex'')] else []) @ [(''value'', x)])] d us"
  unfolding opens_def
proof (intro allI)
  fix ctx
  obtain e where e: "read_attrs ((if h then [(''encoding'', ''hex'')] else []) @ [(''value'', x)]) sdp_xml_data_alloc = Some e"
    "xtext e = x" "xhex e = h" using read_value_attr by blast
  with assms have "element_start el ((if h then [(''encoding'', ''hex'')] else []) @ [(''value'', x)]) ctx =
      Some (ctx\<lparr>crecord := sdp_pattern_add_uuidseq (crecord ctx) us, cstack := e\<lparr>xdata := Ptr d\<rparr> # cstack ctx\<rparr>)"
    unfolding element_start_def reads_value_def by simp
  then show "\<exists>e. handle_events [Start_el el ((if h then [(''encoding'', ''hex'')] else []) @ [(''value'', x)])] ctx =
        Some (ctx\<lparr>crecord := sdp_pattern_add_uuidseq (crecord ctx) us, cstack := e # cstack ctx\<rparr>) \<and> xdata e = Ptr d"
    by (intro exI [of _ "e\<lparr>xdata := Ptr d\<rparr>"]) simp
qed

lemma opens_nil: "opens [Start_el ''nil'' []] (Sdp_data SDP_DATA_NIL 0 1 Zeroed) []"
  using read_nil [of "[]" False]
  by (auto simp: opens_def element_start_def reads_value_def sdp_xml_data_alloc_def)

lemma opens_value:
  assumes "reads_value el x False d us" "el \<notin> {''record'', ''attribute'', ''sequence'', ''alternate''}"
  shows "opens [Start_el el [(''value'', x)]] d us"
  using opens_leaf [OF assms] by simp

lemma sint_back:
  "ucast (word_of_int (sint w) :: u32) = w" "- (2 ^ 31) \<le> sint w" "sint w < 2 ^ 31" for w :: u8
proof -
  show "ucast (word_of_int (sint w) :: u32) = w" by (rule bit_word_eqI) (simp add: bit_simps bit_sint_iff)
  show "- (2 ^ 31) \<le> sint w" using sint_greater_eq [of w] by simp
  show "sint w < 2 ^ 31" using sint_less [of w] by simp
qed

lemma sint_back16:
  "ucast (word_of_int (sint w) :: u32) = w" "- (2 ^ 31) \<le> sint w" "sint w < 2 ^ 31" for w :: u16
proof -
  show "ucast (word_of_int (sint w) :: u32) = w" by (rule bit_word_eqI) (simp add: bit_simps bit_sint_iff)
  show "- (2 ^ 31) \<le> sint w" using sint_greater_eq [of w] by simp
  show "sint w < 2 ^ 31" using sint_less [of w] by simp
qed

lemma ucast_back:
  "ucast (word_of_nat (unat a) :: u32) = a" "ucast (word_of_nat (unat b) :: u32) = b" for a :: u8 and b :: u16
  by (rule bit_word_eqI, simp add: bit_simps)+

lemma read_num8:
  "reads_value ''uint8'' (''0x'' @ fmt_x 2 (unat w)) False (Sdp_data SDP_UINT8 0 2 (V8 w)) []"
  "reads_value ''int8'' (fmt_d (sint w)) False (Sdp_data SDP_INT8 0 2 (V8 w)) []"
proof -
  have "unat w < 16 ^ 2" using unsigned_less [of w] by simp
  then have "strtoul0 (''0x'' @ fmt_x 2 (unat w)) = (word_of_nat (unat w), [])" by (intro strtoul0_fmt_x) auto
  from read_int8 [OF this ucast_back(1)]
  show "reads_value ''uint8'' (''0x'' @ fmt_x 2 (unat w)) False (Sdp_data SDP_UINT8 0 2 (V8 w)) []" by simp
  from read_int8 [OF strtoul0_fmt_d [OF sint_back(2,3)] sint_back(1)]
  show "reads_value ''int8'' (fmt_d (sint w)) False (Sdp_data SDP_INT8 0 2 (V8 w)) []" by simp
qed

lemma read_num16:
  "reads_value ''uint16'' (''0x'' @ fmt_x 4 (unat w)) False (Sdp_data SDP_UINT16 0 3 (V16 w)) []"
  "reads_value ''int16'' (fmt_d (sint w)) False (Sdp_data SDP_INT16 0 3 (V16 w)) []"
proof -
  have "unat w < 16 ^ 4" using unsigned_less [of w] by simp
  then have "strtoul0 (''0x'' @ fmt_x 4 (unat w)) = (word_of_nat (unat w), [])" by (intro strtoul0_fmt_x) auto
  from read_int16 [OF this ucast_back(2)]
  show "reads_value ''uint16'' (''0x'' @ fmt_x 4 (unat w)) False (Sdp_data SDP_UINT16 0 3 (V16 w)) []" by simp
  from read_int16 [OF strtoul0_fmt_d [OF sint_back16(2,3)] sint_back16(1)]
  show "reads_value ''int16'' (fmt_d (sint w)) False (Sdp_data SDP_INT16 0 3 (V16 w)) []" by simp
qed

lemma read_num32:
  "reads_value ''uint32'' (''0x'' @ fmt_x 8 (unat w)) False (Sdp_data SDP_UINT32 0 5 (V32 w)) []"
  "reads_value ''int32'' (fmt_d (sint w)) False (Sdp_data SDP_INT32 0 5 (V32 w)) []"
proof -
  have "unat w < 16 ^ 8" using unsigned_less [of w] by simp
  then have "strtoul0 (''0x'' @ fmt_x 8 (unat w)) = (word_of_nat (unat w), [])" by (intro strtoul0_fmt_x) auto
  then show "reads_value ''uint32'' (''0x'' @ fmt_x 8 (unat w)) False (Sdp_data SDP_UINT32 0 5 (V32 w)) []"
    by (intro read_int32) simp_all
  have "- (2 ^ 31) \<le> sint w" "sint w < 2 ^ 31" using sint_greater_eq [of w] sint_less [of w] by simp_all
  from strtoul0_fmt_d [OF this]
  show "reads_value ''int32'' (fmt_d (sint w)) False (Sdp_data SDP_INT32 0 5 (V32 w)) []"
    by (intro read_int32) simp_all
qed

lemma read_num64:
  "reads_value ''uint64'' (''0x'' @ fmt_x 16 (unat w)) False (Sdp_data SDP_UINT64 0 9 (V64 w)) []"
  "reads_value ''int64'' (fmt_d (sint w)) False (Sdp_data SDP_INT64 0 9 (V64 w)) []"
proof -
  have "unat w < 16 ^ 16" using unsigned_less [of w] by simp
  then have "strtoull0 (''0x'' @ fmt_x 16 (unat w)) = (word_of_nat (unat w), [])" by (rule strtoull0_fmt_x)
  then show "reads_value ''uint64'' (''0x'' @ fmt_x 16 (unat w)) False (Sdp_data SDP_UINT64 0 9 (V64 w)) []"
    by (intro read_int64) simp_all
  have "- (2 ^ 63) \<le> sint w" "sint w < 2 ^ 63" using sint_greater_eq [of w] sint_less [of w] by simp_all
  from strtoull0_fmt_d [OF this]
  show "reads_value ''int64'' (fmt_d (sint w)) False (Sdp_data SDP_INT64 0 9 (V64 w)) []"
    by (intro read_int64) simp_all
qed

lemma num_reads:
  assumes "wf_val t n v" "v \<noteq> Zeroed" "\<forall>u. v \<noteq> Vuuid u" "\<forall>s. v \<noteq> Vstr s" "\<forall>ds. v \<noteq> Vseq ds"
  shows "\<exists>el x. int_text t v = Some (el, x) \<and> reads_value el x False (reread_val t n v) [] \<and>
    el \<notin> {''record'', ''attribute'', ''sequence'', ''alternate''}"
proof (cases v)
  case (V8 w)
  with assms(1) consider "t = SDP_BOOL" | "t = SDP_UINT8" | "t = SDP_INT8" by (auto simp: is_int8_def)
  then show ?thesis using V8 read_bool [of w False] read_num8 [of w] by cases (simp_all add: int_text_def)
next
  case (V16 w)
  with assms(1) consider "t = SDP_UINT16" | "t = SDP_INT16" by (auto simp: is_int16_def)
  then show ?thesis using V16 read_num16 [of w] by cases (simp_all add: int_text_def)
next
  case (V32 w)
  with assms(1) consider "t = SDP_UINT32" | "t = SDP_INT32" by (auto simp: is_int32_def)
  then show ?thesis using V32 read_num32 [of w] by cases (simp_all add: int_text_def)
next
  case (V64 w)
  with assms(1) consider "t = SDP_UINT64" | "t = SDP_INT64" by (auto simp: is_int64_def)
  then show ?thesis using V64 read_num64 [of w] by cases (simp_all add: int_text_def)
next
  case (V128 w)
  with assms(1) consider "t = SDP_UINT128" | "t = SDP_INT128" by (auto simp: is_int128_def)
  then show ?thesis using V128 assms(1) read_int128 [of w t _ False] by cases (simp_all add: int_text_def)
qed (use assms in auto)

lemma leaf_opens:
  assumes "wf_val t n v" "readable_val t n v" "\<not> (SDP_IS_SEQ t \<or> SDP_IS_ALT t)"
  shows "\<exists>el as. leaf_doc t n v = Elem el as [] \<and> el \<notin> {''record'', ''attribute'', ''sequence'', ''alternate''} \<and>
    opens [Start_el el as] (reread_val t n v) (read_uuids_val t v)"
proof -
  consider "v = Zeroed" | u where "v = Vuuid u" | s where "v = Vstr s"
    | "v \<noteq> Zeroed" "\<forall>u. v \<noteq> Vuuid u" "\<forall>s. v \<noteq> Vstr s" "\<forall>ds. v \<noteq> Vseq ds"
    using assms(1,3) by (cases v) auto
  then show ?thesis
  proof cases
    case 1
    then show ?thesis using assms(1) opens_nil by (auto simp: leaf_doc_def)
  next
    case 2
    then show ?thesis using assms(1) opens_value [OF read_uuid [of t u False]] by (auto simp: leaf_doc_def)
  next
    case 3
    let ?bs = "content n s"
    show ?thesis
    proof (cases "SDP_IS_TEXT_STR t")
      case True
      with 3 have "reads_value ''text'' (text_value ?bs) (text_is_hex ?bs) (reread_val t n v) (read_uuids_val t v)"
        using assms(2) read_text [of ?bs] by auto
      from opens_leaf [OF this] 3 True show ?thesis by (auto simp: leaf_doc_def)
    next
      case False
      with 3 have "reads_value ''url'' (map chr ?bs) False (reread_val t n v) (read_uuids_val t v)"
        using assms(2) read_url [of ?bs] by auto
      from opens_value [OF this] 3 False show ?thesis by (auto simp: leaf_doc_def)
    qed
  next
    case 4
    from num_reads [OF assms(1) 4] obtain el x where *: "int_text t v = Some (el, x)"
      "reads_value el x False (reread_val t n v) []" "el \<notin> {''record'', ''attribute'', ''sequence'', ''alternate''}"
      by blast
    have "leaf_doc t n v = Elem el [(''value'', x)] []" "read_uuids_val t v = []"
      using 4 *(1) by (cases v; simp add: leaf_doc_def)+
    with opens_value [OF *(2,3)] *(3) show ?thesis by auto
  qed
qed

section \<open>Whole values\<close>

lemma handle_append: "handle_events (xs @ ys) ctx = Option.bind (handle_events xs ctx) (handle_events ys)"
  by (induction xs arbitrary: ctx) (auto split: bind_splits)

lemma add_uuids_append:
  "sdp_pattern_add_uuidseq rec (us @ vs) = sdp_pattern_add_uuidseq (sdp_pattern_add_uuidseq rec us) vs"
  by (induction us arbitrary: rec) auto

definition builds :: "sdp_data \<Rightarrow> bool" where
  "builds d \<longleftrightarrow> (\<exists>el as cs d0. doc_of d = Elem el as cs \<and> el \<notin> {''record'', ''attribute''} \<and>
     opens (Start_el el as # concat (map events cs)) d0 (read_uuids d) \<and> close_elem el d0 = Some (reread d))"

text \<open>Inside a sequence, the value is hung behind the members read so far.\<close>

lemma builds_member:
  assumes "builds d" "cstack ctx = p # below" "xdata p = Ptr (Sdp_data t a n (Vseq qs))"
    "SDP_IS_SEQ t \<or> SDP_IS_ALT t"
  shows "handle_events (events (doc_of d)) ctx =
    Some (ctx\<lparr>crecord := sdp_pattern_add_uuidseq (crecord ctx) (read_uuids d),
      cstack := p\<lparr>xdata := Ptr (Sdp_data t a n (Vseq (qs @ [reread d])))\<rparr> # below\<rparr>)"
proof -
  obtain el as cs d0 where *: "doc_of d = Elem el as cs" "el \<notin> {''record'', ''attribute''}"
    "opens (Start_el el as # concat (map events cs)) d0 (read_uuids d)" "close_elem el d0 = Some (reread d)"
    using assms(1) unfolding builds_def by blast
  obtain e where e: "handle_events (Start_el el as # concat (map events cs)) ctx =
      Some (ctx\<lparr>crecord := sdp_pattern_add_uuidseq (crecord ctx) (read_uuids d), cstack := e # cstack ctx\<rparr>)"
    "xdata e = Ptr d0" using *(3) unfolding opens_def by blast
  have ev: "events (doc_of d) = (Start_el el as # concat (map events cs)) @ [End_el el]" using *(1) by simp
  have "adopt (Sdp_data t a n (Vseq qs)) (reread d) = Some (Sdp_data t a n (Vseq (qs @ [reread d])))"
    using assms(4) by (simp add: adopt_def dataseq_def sdp_seq_append_def)
  then show ?thesis
    unfolding ev handle_append e(1)
    using *(2,4) e(2) assms(2,3) by (simp add: element_end_def)
qed

lemma members_read:
  assumes "\<forall>d \<in> set ds. builds d" "cstack ctx = p # below" "xdata p = Ptr (Sdp_data t a n (Vseq qs))"
    "SDP_IS_SEQ t \<or> SDP_IS_ALT t"
  shows "handle_events (concat (map (\<lambda>d. events (doc_of d)) ds)) ctx =
    Some (ctx\<lparr>crecord := sdp_pattern_add_uuidseq (crecord ctx) (concat (map read_uuids ds)),
      cstack := p\<lparr>xdata := Ptr (Sdp_data t a n (Vseq (qs @ map reread ds)))\<rparr> # below\<rparr>)"
  using assms(1,2,3)
proof (induction ds arbitrary: ctx p qs)
  case Nil
  then have "p\<lparr>xdata := Ptr (Sdp_data t a n (Vseq qs))\<rparr> = p" "ctx\<lparr>cstack := p # below\<rparr> = ctx" by (cases p; cases ctx; simp)+
  then show ?case by simp
next
  case (Cons d ds)
  have "builds d" using Cons.prems(1) by simp
  note first = builds_member [OF this Cons.prems(2,3) assms(4)]
  show ?case using Cons.IH Cons.prems(1)
    by (simp add: handle_append first add_uuids_append)
qed

lemma opens_seq:
  assumes "\<forall>d \<in> set ds. builds d" "el = ''sequence'' \<and> base = SDP_SEQ8 \<or> el = ''alternate'' \<and> base = SDP_ALT8"
  shows "opens (Start_el el [] # concat (map events (map doc_of ds))) (Sdp_data base 0 2 (Vseq (map reread ds)))
    (concat (map read_uuids ds))"
  unfolding opens_def
proof (intro allI)
  fix ctx
  let ?e = "sdp_xml_data_alloc\<lparr>xdata := Ptr (Sdp_data base 0 2 (Vseq []))\<rparr>"
  have start: "handle_event (Start_el el []) ctx = Some (ctx\<lparr>cstack := ?e # cstack ctx\<rparr>)"
    using assms(2) by (auto simp: element_start_def alloc_defs chain_of_def seq_header_def)
  have "SDP_IS_SEQ base \<or> SDP_IS_ALT base" using assms(2) by (auto simp: dtd_groups)
  from members_read [OF assms(1) _ _ this, of "ctx\<lparr>cstack := ?e # cstack ctx\<rparr>" ?e "cstack ctx" 0 2 "[]"]
  show "\<exists>e. handle_events (Start_el el [] # concat (map events (map doc_of ds))) ctx =
      Some (ctx\<lparr>crecord := sdp_pattern_add_uuidseq (crecord ctx) (concat (map read_uuids ds)), cstack := e # cstack ctx\<rparr>) \<and>
      xdata e = Ptr (Sdp_data base 0 2 (Vseq (map reread ds)))"
    using start by (intro exI [of _ "?e\<lparr>xdata := Ptr (Sdp_data base 0 2 (Vseq (map reread ds)))\<rparr>"]) (simp add: comp_def)
qed

lemma close_seq_elem: "close_seq base (Sdp_data base 0 2 (Vseq ds)) = Some (seq_elem base ds)"
  by (simp add: seq_elem_def close_seq_def compute_seq_size_def dataseq_def)

lemma leaf_builds:
  assumes "wf_val t n v" "readable_val t n v" "\<forall>ds. v \<noteq> Vseq ds"
  shows "builds (Sdp_data t a n v)"
proof -
  have "\<not> (SDP_IS_SEQ t \<or> SDP_IS_ALT t)" using assms(1,3) by (cases v) (auto simp: dtd_groups)
  from leaf_opens [OF assms(1,2) this] obtain el as where leaf: "leaf_doc t n v = Elem el as []"
    "el \<notin> {''record'', ''attribute'', ''sequence'', ''alternate''}"
    "opens [Start_el el as] (reread_val t n v) (read_uuids_val t v)" by blast
  moreover have "doc_of (Sdp_data t a n v) = leaf_doc t n v" using assms(3) by (cases v) simp_all
  ultimately show ?thesis
    unfolding builds_def
    by (intro exI [of _ el] exI [of _ as] exI [of _ "[]"] exI [of _ "reread_val t n v"]) (simp add: close_elem_def)
qed

lemma readable_builds:
  "readable d \<Longrightarrow> builds d"
  "wf_val t n v \<Longrightarrow> readable_val t n v \<Longrightarrow> builds (Sdp_data t a n v)"
proof (induction d and t n v arbitrary: and a rule: readable_readable_val.induct)
  case (3 t n ds)
  let ?el = "if SDP_IS_SEQ t then ''sequence'' else ''alternate''"
  let ?base = "if SDP_IS_SEQ t then SDP_SEQ8 else SDP_ALT8"
  have "\<forall>d \<in> set ds. builds d" using 3 by (simp add: list_all_iff)
  then have "opens (Start_el ?el [] # concat (map events (map doc_of ds))) (Sdp_data ?base 0 2 (Vseq (map reread ds)))
      (concat (map read_uuids ds))" by (rule opens_seq) simp
  moreover have "close_elem ?el (Sdp_data ?base 0 2 (Vseq (map reread ds))) = Some (reread (Sdp_data t a n (Vseq ds)))"
    by (simp add: close_elem_def close_seq_elem)
  ultimately show ?case
    unfolding builds_def
    by (intro exI [of _ ?el] exI [of _ "[] :: xattrs"] exI [of _ "map doc_of ds"]
        exI [of _ "Sdp_data ?base 0 2 (Vseq (map reread ds))"]) simp
qed (simp_all add: leaf_builds)

section \<open>Records\<close>

text \<open>An attribute is added behind the ones with smaller identifiers.\<close>

definition add_attr :: "sdp_record \<Rightarrow> sdp_data \<Rightarrow> sdp_record option" where
  "add_attr rec d =
     (let rec = sdp_pattern_add_uuidseq rec (read_uuids d) in
      map_option snd (sdp_attr_add rec (attrId d) (reread d)))"

lemma attr_read:
  assumes "readable d" "cstack ctx = []" "add_attr (crecord ctx) d = Some rec"
  shows "handle_events (events (attr_doc d)) ctx = Some (ctx\<lparr>crecord := rec, cattr := attrId d\<rparr>)"
proof -
  let ?as = "[(''id'', ''0x'' @ fmt_x 4 (unat (attrId d)))]" and ?ctx = "ctx\<lparr>cattr := attrId d\<rparr>"
  have "unat (attrId d) < 16 ^ 4" using unsigned_less [of "attrId d"] by simp
  then have "attr_id_of ?as (cattr ctx) = attrId d" using strtol0_fmt_x4 [of "unat (attrId d)"] by simp
  then have start: "element_start ''attribute'' ?as ctx = Some ?ctx" by (simp add: element_start_def)
  obtain el as cs d0 where *: "doc_of d = Elem el as cs" "el \<notin> {''record'', ''attribute''}"
    "opens (Start_el el as # concat (map events cs)) d0 (read_uuids d)" "close_elem el d0 = Some (reread d)"
    using readable_builds(1) [OF assms(1)] unfolding builds_def by blast
  define evs where "evs = Start_el el as # concat (map events cs)"
  obtain e where e: "handle_events evs ?ctx =
      Some (?ctx\<lparr>crecord := sdp_pattern_add_uuidseq (crecord ?ctx) (read_uuids d), cstack := e # cstack ?ctx\<rparr>)"
    "xdata e = Ptr d0"
    using *(3) unfolding opens_def evs_def by blast
  have ev: "events (attr_doc d) = [Start_el ''attribute'' ?as] @ evs @ [End_el el, End_el ''attribute'']"
    using *(1) by (simp add: attr_doc_def evs_def)
  have "handle_events (events (attr_doc d)) ctx =
      Some (ctx\<lparr>crecord := rec, cstack := [], cattr := attrId d\<rparr>)"
    unfolding ev handle_append
    using start e *(2,4) assms(2,3)
    by (auto simp: element_end_def add_attr_def Let_def)
  with assms(2) show ?thesis by (cases ctx) simp
qed

end
