(* ===== verification/SdpXmlBack.thy ===== *)
theory SdpXmlBack
  imports SdpXmlRound SdpRead
begin

text \<open>
  What a value says survives printing and reading, and so do the attributes of a record and its
  search pattern.
\<close>

section \<open>Meanings\<close>

lemma uuid16_create_128:
  "uval (sdp_uuid_to_uuid128 (sdp_uuid16_create w)) = [0, 0] @ rev (le_of 2 w) @ drop 4 bluetooth_base_uuid"
proof -
  have "le_of 2 (of_le (rev (le_of 2 w)) :: u16) = rev (le_of 2 w)" by simp
  moreover have "of_le (take 2 (drop 2 bluetooth_base_uuid)) = (0 :: u16)" by (simp add: bluetooth_base_uuid_def)
  ultimately show ?thesis
    by (simp add: sdp_uuid_to_uuid128_def sdp_uuid16_create_def sdp_uuid16_to_uuid128_def uuid16_def
        bluetooth_base_uuid_def Let_def)
qed

lemma uuid32_create_128:
  "uval (sdp_uuid_to_uuid128 (sdp_uuid32_create w)) = rev (le_of 4 w) @ drop 4 bluetooth_base_uuid"
proof -
  have "le_of 4 (of_le (rev (le_of 4 w)) :: u32) = rev (le_of 4 w)" by simp
  moreover have "of_le (take 4 bluetooth_base_uuid) = (0 :: u32)" by (simp add: bluetooth_base_uuid_def)
  ultimately show ?thesis
    by (simp add: sdp_uuid_to_uuid128_def sdp_uuid32_create_def sdp_uuid32_to_uuid128_def uuid32_def
        bluetooth_base_uuid_def Let_def)
qed

lemma uuid_by_value:
  assumes "utype u = SDP_UUID16"
  shows "sdp_uuid_to_uuid128 u = sdp_uuid_to_uuid128 (sdp_uuid16_create (uuid16 u))"
  using assms
  by (simp add: sdp_uuid_to_uuid128_def sdp_uuid16_create_def sdp_uuid16_to_uuid128_def uuid16_def Let_def)

lemma uuid_by_value32:
  assumes "utype u = SDP_UUID32"
  shows "sdp_uuid_to_uuid128 u = sdp_uuid_to_uuid128 (sdp_uuid32_create (uuid32 u))"
  using assms
  by (simp add: sdp_uuid_to_uuid128_def sdp_uuid32_create_def sdp_uuid32_to_uuid128_def uuid32_def Let_def)

lemma short_uuid32:
  assumes "\<not> 65535 < w"
  shows "sdp_uuid_to_uuid128 (sdp_uuid16_create (ucast w)) = sdp_uuid_to_uuid128 (sdp_uuid32_create w)"
proof -
  have "unat w < 2 ^ 16" using assms by (simp add: word_less_nat_alt)
  then have top: "drop_bit 16 w = 0" by (simp add: word_unat_eq_iff drop_bit_eq_div unat_div)
  have "le_of 4 w = [ucast w, ucast (drop_bit 8 w), ucast (drop_bit 16 w), ucast (drop_bit 8 (drop_bit 16 w))]"
    by (simp add: numeral_eq_Suc)
  moreover have "le_of 2 (ucast w :: u16) = [ucast (ucast w :: u16), ucast (drop_bit 8 (ucast w :: u16))]"
    by (simp add: numeral_eq_Suc)
  moreover have "(ucast (ucast w :: u16) :: u8) = ucast w" "(ucast (drop_bit 8 (ucast w :: u16)) :: u8) = ucast (drop_bit 8 w)"
    by (rule bit_word_eqI, simp add: bit_simps)+
  ultimately have "le_of 4 w = le_of 2 (ucast w :: u16) @ [0, 0]" by (simp add: top)
  then have "uval (sdp_uuid_to_uuid128 (sdp_uuid16_create (ucast w))) =
      uval (sdp_uuid_to_uuid128 (sdp_uuid32_create w))"
    by (simp add: uuid16_create_128 uuid32_create_128)
  then show ?thesis
    by (simp add: sdp_uuid_to_uuid128_def sdp_uuid16_create_def sdp_uuid32_create_def
        sdp_uuid16_to_uuid128_def sdp_uuid32_to_uuid128_def Let_def)
qed

lemma uuid_elem_same:
  assumes "SDP_IS_UUID t" "utype u = t" "length (uval u) = 16"
  shows "\<exists>v. the_uuid (uuid_elem t u) = Some v \<and> sdp_uuid_to_uuid128 v = sdp_uuid_to_uuid128 u \<and>
    wf_data (uuid_elem t u) \<and> meaning (uuid_elem t u) = Suuid (uval (sdp_uuid_to_uuid128 u)) \<and>
    dtd (uuid_elem t u) \<noteq> SDP_BOOL"
  using assms uuid_by_value [of u] uuid_by_value32 [of u] short_uuid32 [of "uuid32 u"]
  by (auto simp: uuid_elem_def the_uuid_def dtd_groups sdp_uuid16_create_def sdp_uuid32_create_def)

lemma meaning_str:
  assumes "is_text \<longleftrightarrow> SDP_IS_TEXT_STR t"
  shows "meaning (str_elem (if is_text then SDP_TEXT_STR8 else SDP_URL_STR8) bs) =
    (if is_text then Stext bs else Surl bs)"
  by (simp add: str_elem_def content_def dtd_groups)

lemma seq_elem_form:
  "\<exists>b n. seq_elem base ds = Sdp_data b 0 n (Vseq ds) \<and> b \<in> {base, base + 1, base + 2}"
  by (simp add: seq_elem_def close_seq_def compute_seq_size_def dataseq_def)

lemma seq_elem_kind:
  fixes s :: bool
  shows "\<exists>b n. seq_elem (if s then SDP_SEQ8 else SDP_ALT8) ds = Sdp_data b 0 n (Vseq ds) \<and>
    (SDP_IS_SEQ b \<or> SDP_IS_ALT b) \<and> SDP_IS_SEQ b = s"
  using seq_elem_form [of "if s then SDP_SEQ8 else SDP_ALT8" ds] by (cases s) (auto simp: dtd_groups)

lemma meaning_seq:
  "meaning (seq_elem (if s then SDP_SEQ8 else SDP_ALT8) ds) = (if s then Sseq else Salt) (map meaning ds)"
  using seq_elem_kind [of s ds] by auto

lemma wf_seq:
  "\<forall>d \<in> set ds. wf_data d \<Longrightarrow> wf_data (seq_elem (if s then SDP_SEQ8 else SDP_ALT8) ds)"
  using seq_elem_kind [of s ds] by auto

lemma reread_same:
  "wf_data d \<Longrightarrow> meaning (reread d) = meaning d"
  "wf_val t n v \<Longrightarrow> meaning (reread_val t n v) = meaning (Sdp_data t a n v)"
proof (induction d and t n v arbitrary: and a rule: wf_data_wf_val.induct)
  case (8 t n u)
  then show ?case using uuid_elem_same [of t u] by auto
next
  case (9 t n s)
  then show ?case using meaning_str [OF refl, of t "content n s"] by auto
next
  case (10 t n ds)
  then have "map (meaning \<circ> reread) ds = map meaning ds" by simp
  with meaning_seq [of "SDP_IS_SEQ t" "map reread ds"] show ?case by simp
qed (auto simp: dtd_groups)

lemma reread_wf:
  "wf_data d \<Longrightarrow> wf_data (reread d)"
  "wf_val t n v \<Longrightarrow> wf_data (reread_val t n v)"
proof (induction d and t n v rule: wf_data_wf_val.induct)
  case (8 t n u)
  then show ?case using uuid_elem_same [of t u] by auto
next
  case (9 t n s)
  then show ?case by (auto simp: str_elem_def dtd_groups)
next
  case (10 t n ds)
  then show ?case using wf_seq [of "map reread ds" "SDP_IS_SEQ t"] by simp
qed (auto simp: dtd_groups)

lemma read_uuids_same:
  "wf_data d \<Longrightarrow> sdp_uuid_to_uuid128 ` set (read_uuids d) = sdp_uuid_to_uuid128 ` set (uuids_data d) \<and>
     (\<forall>u \<in> set (read_uuids d). valid_uuid u)"
  "wf_val t n v \<Longrightarrow> sdp_uuid_to_uuid128 ` set (read_uuids_val t v) = sdp_uuid_to_uuid128 ` set (uuids_val v) \<and>
     (\<forall>u \<in> set (read_uuids_val t v). valid_uuid u)"
proof (induction d and t n v rule: wf_data_wf_val.induct)
  case (8 t n u)
  then obtain v where v: "the_uuid (uuid_elem t u) = Some v" "sdp_uuid_to_uuid128 v = sdp_uuid_to_uuid128 u"
    "wf_data (uuid_elem t u)" using uuid_elem_same [of t u] by auto
  then have "valid_uuid v"
    by (cases "uuid_elem t u") (auto simp: the_uuid_def valid_uuid_def split: sdp_val.splits)
  with v show ?case by simp
next
  case (10 t n ds)
  then show ?case by (simp add: image_UN)
qed simp_all

section \<open>Records\<close>

lemma seq_foldl: "sdp_pattern_add_uuidseq rec us = foldl sdp_pattern_add_uuid rec us"
  by (induction us arbitrary: rec) simp_all

lemma insert_attr_at_end:
  "\<forall>e \<in> set l. attrId e < attrId d \<Longrightarrow> insert_attr l d = l @ [d]"
  by (induction l) (auto simp: insert_attr_def sdp_attrid_comp_func_def word_less_def)

lemma add_attr_last:
  assumes "wf_data d" "pattern_ok (pattern rec)" "\<forall>e \<in> set (attrlist rec). attrId e < attrId d"
  shows "\<exists>rec'. add_attr rec d = Some rec' \<and> attrlist rec' = attrlist rec @ [set_attrId (attrId d) (reread d)] \<and>
    pattern_ok (pattern rec') \<and>
    set (pattern rec') = set (pattern rec) \<union> sdp_uuid_to_uuid128 ` set (uuids_data d)"
proof -
  let ?rec = "sdp_pattern_add_uuidseq rec (read_uuids d)" and ?e = "set_attrId (attrId d) (reread d)"
  have "sdp_data_get ?rec (attrId d) = None"
    using assms(3) by (auto simp: sdp_data_get_def sdp_list_find_attr seq_foldl find_None_iff)
  moreover obtain c where "set_svclass (attrId d) ?e (?rec\<lparr>attrlist := insert_attr (attrlist ?rec) ?e\<rparr>) =
      Some (?rec\<lparr>attrlist := insert_attr (attrlist ?rec) ?e, svclass := c\<rparr>)"
    using set_svclass_defined [of ?e] reread_wf(1) [OF assms(1)] by (metis wf_set_attrId)
  moreover have "insert_attr (attrlist ?rec) ?e = attrlist rec @ [?e]"
    using assms(3) by (simp add: seq_foldl insert_attr_at_end)
  ultimately have "add_attr rec d = Some (?rec\<lparr>attrlist := attrlist rec @ [?e], svclass := c\<rparr>)"
    by (simp add: add_attr_def sdp_attr_add_def Let_def)
  moreover have "pattern_ok (pattern ?rec) \<and>
      set (pattern ?rec) = set (pattern rec) \<union> sdp_uuid_to_uuid128 ` set (uuids_data d)"
    using pattern_adds [OF assms(2), of "read_uuids d"] read_uuids_same(1) [OF assms(1)] by (simp add: seq_foldl)
  ultimately show ?thesis by simp
qed

lemma readable_wf: "readable d \<Longrightarrow> wf_data d"
  by (cases d) simp

lemma attrs_read:
  assumes "list_all readable ds" "attrs_ok ds" "cstack ctx = []" "pattern_ok (pattern (crecord ctx))"
    "\<forall>e \<in> set (attrlist (crecord ctx)). \<forall>d \<in> set ds. attrId e < attrId d"
  shows "\<exists>ctx'. handle_events (concat (map (\<lambda>d. events (attr_doc d)) ds)) ctx = Some ctx' \<and> cstack ctx' = [] \<and>
    attrlist (crecord ctx') = attrlist (crecord ctx) @ map (\<lambda>d. set_attrId (attrId d) (reread d)) ds \<and>
    pattern_ok (pattern (crecord ctx')) \<and>
    set (pattern (crecord ctx')) =
      set (pattern (crecord ctx)) \<union> sdp_uuid_to_uuid128 ` (\<Union>d \<in> set ds. set (uuids_data d))"
  using assms
proof (induction ds arbitrary: ctx)
  case Nil
  then show ?case by simp
next
  case (Cons d ds)
  obtain rec where rec: "add_attr (crecord ctx) d = Some rec"
    "attrlist rec = attrlist (crecord ctx) @ [set_attrId (attrId d) (reread d)]" "pattern_ok (pattern rec)"
    "set (pattern rec) = set (pattern (crecord ctx)) \<union> sdp_uuid_to_uuid128 ` set (uuids_data d)"
    using add_attr_last [of d "crecord ctx"] Cons.prems readable_wf by auto
  let ?ctx = "ctx\<lparr>crecord := rec, cattr := attrId d\<rparr>"
  have step: "handle_events (events (attr_doc d)) ctx = Some ?ctx"
    using attr_read [OF _ _ rec(1)] Cons.prems by simp
  have "\<exists>ctx'. handle_events (concat (map (\<lambda>d. events (attr_doc d)) ds)) ?ctx = Some ctx' \<and> cstack ctx' = [] \<and>
    attrlist (crecord ctx') = attrlist (crecord ?ctx) @ map (\<lambda>d. set_attrId (attrId d) (reread d)) ds \<and>
    pattern_ok (pattern (crecord ctx')) \<and>
    set (pattern (crecord ctx')) =
      set (pattern (crecord ?ctx)) \<union> sdp_uuid_to_uuid128 ` (\<Union>d \<in> set ds. set (uuids_data d))"
    using Cons.prems rec(2,3) by (intro Cons.IH) (auto simp: attrs_ok_def)
  then show ?case using rec(2,4) by (force simp: handle_append step image_Un)
qed

lemma record_read:
  assumes "list_all readable ds" "attrs_ok ds"
    and "markup (show_record ds) = (events (record_doc ds), True)"
  shows "\<exists>rec. sdp_xml_parse_record markup (show_record ds) (length (show_record ds)) = Some (Ptr rec) \<and>
    attrlist rec = map (\<lambda>d. set_attrId (attrId d) (reread d)) ds \<and>
    set (pattern rec) = sdp_uuid_to_uuid128 ` (\<Union>d \<in> set ds. set (uuids_data d))"
proof -
  let ?ctx = "\<lparr>crecord = sdp_record_alloc, cstack = [], cattr = 0\<rparr>"
  obtain ctx where ctx: "handle_events (concat (map (\<lambda>d. events (attr_doc d)) ds)) ?ctx = Some ctx"
    "attrlist (crecord ctx) = map (\<lambda>d. set_attrId (attrId d) (reread d)) ds"
    "set (pattern (crecord ctx)) = sdp_uuid_to_uuid128 ` (\<Union>d \<in> set ds. set (uuids_data d))"
    using attrs_read [OF assms(1,2), of ?ctx] by (auto simp: sdp_record_alloc_def pattern_ok_def)
  have "handle_events (events (record_doc ds)) ?ctx = Some ctx"
    using ctx(1) by (simp add: record_doc_def element_start_def handle_append element_end_def comp_def)
  with ctx(2,3) assms(3) show ?thesis by (simp add: sdp_xml_parse_record_def)
qed

lemma meaning_set_attrId [simp]: "meaning (set_attrId a d) = meaning d"
  by (cases d) simp

lemma meanings_read:
  assumes "list_all readable ds"
  shows "map (\<lambda>d. (attrId d, meaning d)) (map (\<lambda>d. set_attrId (attrId d) (reread d)) ds) =
    map (\<lambda>d. (attrId d, meaning d)) ds"
  using assms by (induction ds) (auto simp: reread_same(1) readable_wf)

end
