(* ===== verification/SdpXmlFaults.thy ===== *)
theory SdpXmlFaults
  imports SdpXmlBack
begin

text \<open>
  Documents the XML reader does not survive, or misreads: a value that cannot be parsed stays on
  the stack and derails the elements after it; a UUID of 36 digits without dashes is written past
  its sixteen bytes; text that is no number at all is read as zero.
\<close>

section \<open>A value that cannot be parsed\<close>

definition value_doc :: "string \<Rightarrow> string \<Rightarrow> xml" where
  "value_doc el x = Elem el [(''value'', x)] []"

definition bad_doc :: "string \<Rightarrow> string \<Rightarrow> string \<Rightarrow> xml" where
  "bad_doc i x y = Elem ''record'' [] [Elem ''attribute'' [(''id'', i)]
     [Elem ''sequence'' [] [value_doc ''uint8'' x, value_doc ''uint8'' y]]]"

lemma read_one_value:
  "\<exists>e. read_attrs [(''value'', x)] sdp_xml_data_alloc = Some e \<and> xtext e = x \<and> xhex e = False"
  using read_value_attr [of False x] by simp

lemma start_uint8:
  assumes "sdp_xml_parse_int x SDP_UINT8 = Some d"
  shows "\<exists>e. element_start ''uint8'' [(''value'', x)] ctx = Some (ctx\<lparr>cstack := e # cstack ctx\<rparr>) \<and> xdata e = d"
proof -
  obtain e where e: "read_attrs [(''value'', x)] sdp_xml_data_alloc = Some e" "xtext e = x"
    using read_one_value by blast
  then have "element_start ''uint8'' [(''value'', x)] ctx = Some (ctx\<lparr>cstack := e\<lparr>xdata := d\<rparr> # cstack ctx\<rparr>)"
    using assms unfolding element_start_def by (simp add: sdp_xml_parse_datatype_def)
  then show ?thesis by (intro exI [of _ "e\<lparr>xdata := d\<rparr>"]) simp
qed

lemma parse_uint8:
  "sdp_xml_parse_int x SDP_UINT8 =
     Some (if failed x (snd (strtoul0 x)) then NULL else Ptr (Sdp_data SDP_UINT8 0 2 (V8 (ucast (fst (strtoul0 x))))))"
  by (simp add: sdp_xml_parse_int_def alloc_defs rd8_def split: prod.split)

lemma bad_doc_derails:
  assumes "failed x (snd (strtoul0 x))" "\<not> failed y (snd (strtoul0 y))"
  shows "handle_events (events (bad_doc i x y)) ctx = None"
proof -
  obtain c where c: "element_start ''attribute'' [(''id'', i)] ctx = Some c"
    by (simp add: element_start_def)
  obtain c1 where c1: "element_start ''sequence'' [] c = Some c1"
    "\<exists>p. cstack c1 = p # cstack c"
    by (simp add: element_start_def alloc_defs chain_of_def seq_header_def)
  obtain b c2 where c2: "element_start ''uint8'' [(''value'', x)] c1 = Some c2" "cstack c2 = b # cstack c1" "xdata b = NULL"
    using start_uint8 [OF parse_uint8, of x c1] assms(1) by auto
  obtain g c3 where c3: "element_start ''uint8'' [(''value'', y)] c2 = Some c3" "cstack c3 = g # cstack c2"
    "xdata g = Ptr (Sdp_data SDP_UINT8 0 2 (V8 (ucast (fst (strtoul0 y)))))"
    using start_uint8 [OF parse_uint8, of y c2] assms(2) by auto
  have b_end: "element_end ''uint8'' c2 = Some c2" using c2 by (simp add: element_end_def)
  have same: "g\<lparr>xdata := xdata g\<rparr> = g" "c3\<lparr>cstack := cstack c3\<rparr> = c3" by simp_all
  have g_end: "element_end ''uint8'' c3 = Some c3"
    using c2(2,3) c3(2,3) same by (simp add: element_end_def close_elem_def)
  have s_end: "element_end ''sequence'' c3 = None"
    using c3(2,3) by (simp add: element_end_def close_elem_def close_seq_def compute_seq_size_def dataseq_def)
  have ev: "events (bad_doc i x y) = [Start_el ''record'' [], Start_el ''attribute'' [(''id'', i)],
      Start_el ''sequence'' [], Start_el ''uint8'' [(''value'', x)], End_el ''uint8'',
      Start_el ''uint8'' [(''value'', y)], End_el ''uint8'', End_el ''sequence''] @ [End_el ''attribute'', End_el ''record'']"
    by (simp add: bad_doc_def value_doc_def)
  have "element_start ''record'' [] ctx = Some ctx" by (simp add: element_start_def)
  with c c1(1) c2(1) c3(1) b_end g_end s_end show ?thesis
    unfolding ev handle_append by simp
qed

section \<open>UUIDs without dashes\<close>

lemma uuid128_bytes_overflow:
  "CHR ''-'' \<notin> set s \<Longrightarrow> length bs = 16 \<Longrightarrow> j \<le> 16 \<Longrightarrow> 32 < 2 * j + length s \<Longrightarrow> uuid128_bytes s j bs = None"
proof (induction s arbitrary: j bs rule: induct_list012)
  case (3 c d s)
  then show ?case by (cases "j = 16") (auto simp: wr8_def)
qed (auto simp: wr8_def)

lemma uuid_overflow:
  assumes "length data = 36" "CHR ''-'' \<notin> set data"
  shows "sdp_xml_parse_uuid data rec = None"
proof -
  have "uuid128_bytes data 0 (replicate 16 0) = None"
    using assms by (intro uuid128_bytes_overflow) auto
  with assms(1) show ?thesis by (simp add: sdp_xml_parse_uuid_def sdp_xml_parse_uuid128_def split: prod.split)
qed

section \<open>Text that is no number\<close>

text \<open>The conversion of such a text stops where it begins, which the reader takes for success.\<close>

lemma no_number_zero:
  assumes "hexval c = None" "\<not> is_space c" "c \<noteq> CHR ''-''" "c \<noteq> CHR ''+''"
  shows "sdp_xml_parse_int (c # s) SDP_UINT8 = Some (Ptr (Sdp_data SDP_UINT8 0 2 (V8 0)))"
proof -
  have "c \<noteq> CHR ''0''" using assms(1) by (auto simp: hexval_def)
  then have "strto0 (c # s) = (False, 0, c # s)"
    using assms by (simp add: strto0_def scan_sign_def has_0x_def split: list.split)
  then have "strtoul0 (c # s) = (0, c # s)" by (simp add: strtoul0_def)
  then show ?thesis by (simp add: parse_uint8 failed_def)
qed

end
