(* ===== verification/SdpXmlProps.thy ===== *)
theory SdpXmlProps
  imports SdpXmlFaults
begin

text \<open>
  The properties of the XML reader: a printed record is read back, and the documents that
  break it.
\<close>

section \<open>Reading back\<close>

definition sample_attrs :: "sdp_data list" where
  "sample_attrs =
     [Sdp_data SDP_SEQ8 1 8 (Vseq [Sdp_data SDP_UUID32 0 5 (Vuuid (sdp_uuid32_create 0x110E)),
        Sdp_data SDP_INT8 0 2 (V8 0xFB)]),
      Sdp_data SDP_TEXT_STR8 0x0100 4 (Vstr [0x41, 0x01, 0x42, 0])]"

lemma sample_readable: "list_all readable sample_attrs" "attrs_ok sample_attrs" "sample_attrs \<noteq> []"
proof -
  have "text_is_hex [0x41, 0x01, 0x42]" by (simp add: text_is_hex_def isprint_def word_le_nat_alt)
  then show "list_all readable sample_attrs"
    by (simp add: sample_attrs_def dtd_groups sdp_uuid32_create_def content_def)
qed (simp_all add: sample_attrs_def attrs_ok_def)

text \<open>
  C23: A record printed by \<open>convert_sdp_record_to_xml\<close> and read by \<open>sdp_xml_parse_record\<close> has the same
  attributes with the same meaning (integers, booleans, UUIDs, text, URLs and their nesting in
  sequences and alternatives), and its search pattern holds the UUIDs of the record.  Required are
  well-formed elements whose strings need no escaping (\<open>readable\<close>), ascending attribute
  identifiers, and that GLib reports the elements of the document that was printed.
\<close>

theorem xml_read_back:
  assumes "list_all readable ds" "attrs_ok ds" "ds \<noteq> []"
    and "markup (show_record ds) = (events (record_doc ds), True)"
  shows "\<exists>xml rec. convert_sdp_record_to_xml ds = Some xml \<and>
    sdp_xml_parse_record markup xml (length xml) = Some (Ptr rec) \<and>
    map (\<lambda>d. (attrId d, meaning d)) (attrlist rec) = map (\<lambda>d. (attrId d, meaning d)) ds \<and>
    set (pattern rec) = sdp_uuid_to_uuid128 ` (\<Union>d \<in> set ds. set (uuids_data d))"
proof -
  obtain rec where "sdp_xml_parse_record markup (show_record ds) (length (show_record ds)) = Some (Ptr rec)"
    "attrlist rec = map (\<lambda>d. set_attrId (attrId d) (reread d)) ds"
    "set (pattern rec) = sdp_uuid_to_uuid128 ` (\<Union>d \<in> set ds. set (uuids_data d))"
    using record_read [OF assms(1,2), of markup] assms(4) by auto
  moreover have "convert_sdp_record_to_xml ds = Some (show_record ds)"
    by (rule convert_record_show [OF assms(1,3)])
  ultimately show ?thesis using meanings_read [OF assms(1)] by auto
qed

theorem xml_read_back_witness:
  "\<exists>xml rec. convert_sdp_record_to_xml sample_attrs = Some xml \<and>
    sdp_xml_parse_record (\<lambda>_. (events (record_doc sample_attrs), True)) xml (length xml) = Some (Ptr rec) \<and>
    map (\<lambda>d. (attrId d, meaning d)) (attrlist rec) = map (\<lambda>d. (attrId d, meaning d)) sample_attrs \<and>
    set (pattern rec) = sdp_uuid_to_uuid128 ` (\<Union>d \<in> set sample_attrs. set (uuids_data d))"
  using xml_read_back [OF sample_readable, of "\<lambda>_. (events (record_doc sample_attrs), True)"] by simp

section \<open>Documents that break the reader\<close>

text \<open>
  When the value of one member of a sequence cannot be parsed, its element stays on the stack
  without data, the members after it are not hung into the sequence, and the end of the sequence
  is applied to the last of them: \<open>compute_seq_size\<close> follows the value of an integer as a pointer.
\<close>

theorem unparsable_value_derails:
  assumes "markup (take n data) = (events (bad_doc i x y), ok)"
    and "failed x (snd (strtoul0 x))" "\<not> failed y (snd (strtoul0 y))" "(ucast (fst (strtoul0 y)) :: u8) \<noteq> 0"
  shows "sdp_xml_parse_record markup data n = None"
  using bad_doc_derails [OF assms(2,3), of i] assms(1) by (simp add: sdp_xml_parse_record_def)

theorem unparsable_value_derails_witness:
  "sdp_xml_parse_record (\<lambda>_. (events (bad_doc ''0x0001'' ''1z'' ''7''), True)) ''<record>'' 8 = None"
proof (rule unparsable_value_derails [where x = "''1z''" and y = "''7''" and i = "''0x0001''" and ok = True])
  have "strtoul0 ''1z'' = (1, ''z'')" "strtoul0 ''7'' = (7, [])"
    by (simp_all add: strtoul0_def strto0_def is_space_def scan_sign_def has_0x_def hexval_def)
  then show "failed ''1z'' (snd (strtoul0 ''1z''))" "\<not> failed ''7'' (snd (strtoul0 ''7''))"
    "(ucast (fst (strtoul0 ''7'')) :: u8) \<noteq> 0"
    by (simp_all add: failed_def)
qed simp

text \<open>
  A UUID of 36 characters is taken for the form with dashes whatever it holds: 36 digits without
  a dash are written past the sixteen bytes of the value on the stack of \<open>sdp_xml_parse_uuid128\<close>.
\<close>

theorem uuid_digits_overflow:
  assumes "length data = 36" "CHR ''-'' \<notin> set data"
  shows "sdp_xml_parse_uuid data rec = None"
  by (rule uuid_overflow [OF assms])

theorem uuid_digits_overflow_witness:
  "sdp_xml_parse_uuid (replicate 36 (CHR ''a'')) sdp_record_alloc = None"
  by (rule uuid_digits_overflow) simp_all

end
