(* ===== verification/SdpGet.thy ===== *)
theory SdpGet
  imports SdpEnc
begin

text \<open>
  The getters of single attributes (\<open>lib/sdp.c\<close>, \<open>lib/sdp_lib.h\<close>): protocol descriptors,
  lists of UUIDs, languages, profiles, versions and the basic values.  A list
  a getter gives back is empty for the null pointer; a pointer to an element is the chain from it on,
  so that the null pointer is the empty chain.
\<close>

section \<open>Members of the union\<close>

definition as_uint8 :: "sdp_val \<Rightarrow> u8 option" where
  "as_uint8 v = (case v of V8 w \<Rightarrow> Some w | _ \<Rightarrow> None)"

definition as_uint16 :: "sdp_val \<Rightarrow> u16 option" where
  "as_uint16 v = (case v of V16 w \<Rightarrow> Some w | _ \<Rightarrow> None)"

definition as_uuid :: "sdp_val \<Rightarrow> uuid_t option" where
  "as_uuid v = (case v of Vuuid u \<Rightarrow> Some u | _ \<Rightarrow> None)"

section \<open>Protocol descriptors\<close>

text \<open>
  The list of access protocols: for each alternative the list of its protocols, and for each protocol
  the chain of its UUID and parameters.
\<close>

type_synonym proto_list = "sdp_data list list list"

abbreviation (input) L2CAP_UUID :: int where "L2CAP_UUID \<equiv> 0x0100"
abbreviation (input) RFCOMM_UUID :: int where "RFCOMM_UUID \<equiv> 0x0003"

definition find_port :: "sdp_data list \<Rightarrow> int \<Rightarrow> int option" where
  "find_port seq proto =
     (case seq of
        d # e # _ \<Rightarrow>
          if \<not> SDP_IS_UUID (dtd d) then Some 0
          else do {
            u \<leftarrow> as_uuid (val d);
            if sdp_uuid_to_proto u \<noteq> proto then Some 0
            else if dtd e = SDP_UINT8 then do { v \<leftarrow> as_uint8 (val e); Some (uint v) }
            else if dtd e = SDP_UINT16 then do { v \<leftarrow> as_uint16 (val e); Some (uint v) }
            else Some 0 }
      | _ \<Rightarrow> Some 0)"

text \<open>The first result that is not zero, as the two loops look for it.\<close>

fun first_port :: "('a \<Rightarrow> int option) \<Rightarrow> 'a list \<Rightarrow> int option" where
  "first_port f [] = Some 0"
| "first_port f (x # xs) = do { port \<leftarrow> f x; if port \<noteq> 0 then Some port else first_port f xs }"

definition sdp_get_proto_port :: "proto_list \<Rightarrow> int \<Rightarrow> int option" where
  "sdp_get_proto_port list proto =
     (if proto \<noteq> L2CAP_UUID \<and> proto \<noteq> RFCOMM_UUID then Some (- 1)
      else first_port (first_port (\<lambda>seq. find_port seq proto)) list)"

text \<open>\<open>Some ds\<close> in the result is a pointer that was returned, which may itself be null.\<close>

fun desc_in :: "int \<Rightarrow> sdp_data list list \<Rightarrow> sdp_data list option option" where
  "desc_in proto [] = Some None"
| "desc_in proto ([] # p) = None"
| "desc_in proto ((d # ds) # p) =
     (if \<not> SDP_IS_UUID (dtd d) then desc_in proto p
      else do { u \<leftarrow> as_uuid (val d); if sdp_uuid_to_proto u = proto then Some (Some ds) else desc_in proto p })"

fun sdp_get_proto_desc :: "proto_list \<Rightarrow> int \<Rightarrow> sdp_data list option" where
  "sdp_get_proto_desc [] proto = Some []"
| "sdp_get_proto_desc (p # list) proto = do {
     r \<leftarrow> desc_in proto p;
     case r of Some ds \<Rightarrow> Some ds | None \<Rightarrow> sdp_get_proto_desc list proto }"

fun protos_of :: "sdp_data list \<Rightarrow> sdp_data list list \<Rightarrow> sdp_data list list ptr option" where
  "protos_of [] pds = Some (Ptr pds)"
| "protos_of (e # cs) pds =
     (if \<not> SDP_IS_SEQ (dtd e) then Some NULL
      else do { ds \<leftarrow> dataseq (val e); protos_of cs (sdp_list_append pds ds) })"

fun proto_descs :: "sdp_data list \<Rightarrow> proto_list \<Rightarrow> proto_list ptr option" where
  "proto_descs [] ap = Some (Ptr ap)"
| "proto_descs (pd # pdlist) ap =
     (if \<not> SDP_IS_SEQ (dtd pd) \<and> \<not> SDP_IS_ALT (dtd pd) then Some NULL
      else do {
        cs \<leftarrow> dataseq (val pd);
        r \<leftarrow> protos_of cs [];
        case r of NULL \<Rightarrow> Some NULL | Ptr pds \<Rightarrow> proto_descs pdlist (sdp_list_append ap pds) })"

text \<open>The list is written to \<open>*pap\<close> on success only.\<close>

definition sdp_get_proto_descs :: "u16 \<Rightarrow> sdp_record \<Rightarrow> (int \<times> proto_list ptr) option" where
  "sdp_get_proto_descs attr_id rec =
     (case sdp_data_get rec attr_id of
        None \<Rightarrow> Some (- 1, NULL)
      | Some pd \<Rightarrow>
          if attr_id = 0x000d \<and> \<not> SDP_IS_SEQ (dtd pd) then Some (- 1, NULL)
          else do {
            pdlist \<leftarrow> (if attr_id = 0x000d then dataseq (val pd) else Some [pd]);
            ap \<leftarrow> proto_descs pdlist [];
            Some (if ap = NULL then - 1 else 0, ap) })"

definition sdp_get_access_protos :: "sdp_record \<Rightarrow> (int \<times> proto_list ptr) option" where
  "sdp_get_access_protos rec = sdp_get_proto_descs 0x0004 rec"

definition sdp_get_add_access_protos :: "sdp_record \<Rightarrow> (int \<times> proto_list ptr) option" where
  "sdp_get_add_access_protos rec = sdp_get_proto_descs 0x000d rec"

section \<open>Lists of values\<close>

text \<open>A loop over the chain gives up at the first element it does not expect: the null pointer.\<close>

definition list_result :: "'a list ptr option \<Rightarrow> (int \<times> 'a list) option" where
  "list_result r = do { r \<leftarrow> r; Some (case r of NULL \<Rightarrow> (- 1, []) | Ptr l \<Rightarrow> (0, l)) }"

fun uuids_of :: "sdp_data list \<Rightarrow> uuid_t list \<Rightarrow> uuid_t list ptr option" where
  "uuids_of [] seq = Some (Ptr seq)"
| "uuids_of (d # ds) seq =
     (if dtd d < SDP_UUID16 \<or> SDP_UUID128 < dtd d then Some NULL
      else do { u \<leftarrow> as_uuid (val d); uuids_of ds (sdp_list_append seq u) })"

definition sdp_get_uuidseq_attr :: "sdp_record \<Rightarrow> u16 \<Rightarrow> (int \<times> uuid_t list) option" where
  "sdp_get_uuidseq_attr rec attr =
     (case sdp_data_get rec attr of
        None \<Rightarrow> Some (- 1, [])
      | Some d \<Rightarrow>
          if \<not> SDP_IS_SEQ (dtd d) then Some (- 1, [])
          else do { ds \<leftarrow> dataseq (val d); list_result (uuids_of ds []) })"

definition sdp_get_service_classes :: "sdp_record \<Rightarrow> (int \<times> uuid_t list) option" where
  "sdp_get_service_classes rec = sdp_get_uuidseq_attr rec 0x0001"

definition sdp_get_browse_groups :: "sdp_record \<Rightarrow> (int \<times> uuid_t list) option" where
  "sdp_get_browse_groups rec = sdp_get_uuidseq_attr rec 0x0005"

record sdp_lang_attr_t =
  code_ISO639 :: u16
  encoding :: u16
  base_offset :: u16

fun langs_of :: "sdp_data list \<Rightarrow> sdp_lang_attr_t list \<Rightarrow> sdp_lang_attr_t list ptr option" where
  "langs_of [] l = Some (Ptr l)"
| "langs_of (c # e # b # ds) l =
     (if dtd c \<noteq> SDP_UINT16 \<or> dtd e \<noteq> SDP_UINT16 \<or> dtd b \<noteq> SDP_UINT16 then Some NULL
      else do {
        x \<leftarrow> as_uint16 (val c);
        y \<leftarrow> as_uint16 (val e);
        z \<leftarrow> as_uint16 (val b);
        langs_of ds (sdp_list_append l \<lparr>code_ISO639 = x, encoding = y, base_offset = z\<rparr>) })"
| "langs_of _ l = Some NULL"

definition sdp_get_lang_attr :: "sdp_record \<Rightarrow> (int \<times> sdp_lang_attr_t list) option" where
  "sdp_get_lang_attr rec =
     (case sdp_data_get rec 0x0006 of
        None \<Rightarrow> Some (- 1, [])
      | Some d \<Rightarrow>
          if \<not> SDP_IS_SEQ (dtd d) then Some (- 1, [])
          else do { ds \<leftarrow> dataseq (val d); list_result (langs_of ds []) })"

record sdp_profile_desc_t =
  prof_uuid :: uuid_t
  prof_version :: u16

text \<open>One descriptor: a bare UUID, with the version 0x100 or the one that follows it, or a sequence.\<close>

definition profile_in_seq :: "sdp_data \<Rightarrow> sdp_profile_desc_t ptr option" where
  "profile_in_seq seq = do {
     ds \<leftarrow> dataseq (val seq);
     case ds of
       [] \<Rightarrow> Some NULL
     | puuid # rest \<Rightarrow>
         if \<not> SDP_IS_UUID (dtd puuid) then Some NULL
         else do {
           u \<leftarrow> as_uuid (val puuid);
           case rest of
             [] \<Rightarrow> Some NULL
           | pVnum # _ \<Rightarrow>
               if dtd pVnum \<noteq> SDP_UINT16 then Some NULL
               else do { v \<leftarrow> as_uint16 (val pVnum); Some (Ptr \<lparr>prof_uuid = u, prof_version = v\<rparr>) } } }"

fun profiles_of :: "sdp_data list \<Rightarrow> sdp_profile_desc_t list \<Rightarrow> sdp_profile_desc_t list ptr option" where
  "profiles_of [] l = Some (Ptr l)"
| "profiles_of (d # ds) l =
     (if SDP_IS_UUID (dtd d) then do {
        u \<leftarrow> as_uuid (val d);
        (case ds of
           e # ds' \<Rightarrow>
             if dtd e = SDP_UINT16 then do {
               v \<leftarrow> as_uint16 (val e);
               profiles_of ds' (sdp_list_append l \<lparr>prof_uuid = u, prof_version = v\<rparr>) }
             else profiles_of ds (sdp_list_append l \<lparr>prof_uuid = u, prof_version = 0x100\<rparr>)
         | [] \<Rightarrow> profiles_of ds (sdp_list_append l \<lparr>prof_uuid = u, prof_version = 0x100\<rparr>)) }
      else if SDP_IS_SEQ (dtd d) then do {
        p \<leftarrow> profile_in_seq d;
        (case p of NULL \<Rightarrow> Some NULL | Ptr p \<Rightarrow> profiles_of ds (sdp_list_append l p)) }
      else Some NULL)"

definition sdp_get_profile_descs :: "sdp_record \<Rightarrow> (int \<times> sdp_profile_desc_t list) option" where
  "sdp_get_profile_descs rec =
     (case sdp_data_get rec 0x0009 of
        None \<Rightarrow> Some (- 1, [])
      | Some d \<Rightarrow>
          if \<not> SDP_IS_SEQ (dtd d) then Some (- 1, [])
          else do { ds \<leftarrow> dataseq (val d); if ds = [] then Some (- 1, []) else list_result (profiles_of ds []) })"

text \<open>The list holds pointers to the values in the record; here it is the values.\<close>

fun versions_of :: "sdp_data list \<Rightarrow> u16 list \<Rightarrow> u16 list ptr option" where
  "versions_of [] l = Some (Ptr l)"
| "versions_of (d # ds) l =
     (if dtd d \<noteq> SDP_UINT16 then Some NULL
      else do { v \<leftarrow> as_uint16 (val d); versions_of ds (sdp_list_append l v) })"

definition sdp_get_server_ver :: "sdp_record \<Rightarrow> (int \<times> u16 list) option" where
  "sdp_get_server_ver rec =
     (case sdp_data_get rec 0x0200 of
        None \<Rightarrow> Some (- 1, [])
      | Some d \<Rightarrow>
          if \<not> SDP_IS_SEQ (dtd d) then Some (- 1, [])
          else do { ds \<leftarrow> dataseq (val d); if ds = [] then Some (- 1, []) else list_result (versions_of ds []) })"

section \<open>Single values\<close>

definition sdp_get_int_attr :: "(sdp_val \<Rightarrow> u32) \<Rightarrow> sdp_record \<Rightarrow> u16 \<Rightarrow> int \<times> int ptr" where
  "sdp_get_int_attr addr rec attrid =
     (case sdp_data_get rec attrid of
        Some d \<Rightarrow>
          if dtd d = SDP_BOOL \<or> dtd d = SDP_UINT8 \<or> dtd d = SDP_UINT16 \<or> dtd d = SDP_UINT32 \<or>
             dtd d = SDP_INT8 \<or> dtd d = SDP_INT16 \<or> dtd d = SDP_INT32
          then (0, Ptr (sint (val_uint32 addr (val d)))) else (- 1, NULL)
      | None \<Rightarrow> (- 1, NULL))"

text \<open>\<open>value\<close> is the caller's buffer of \<open>valuelen\<close> bytes.\<close>

definition sdp_get_string_attr :: "sdp_record \<Rightarrow> u16 \<Rightarrow> buf \<Rightarrow> int \<Rightarrow> (int \<times> buf) option" where
  "sdp_get_string_attr rec attrid value valuelen =
     (case sdp_data_get rec attrid of
        None \<Rightarrow> Some (- 1, value)
      | Some d \<Rightarrow>
          if \<not> SDP_IS_TEXT_STR (dtd d) then Some (- 1, value)
          else do {
            s \<leftarrow> val_str (val d);
            n \<leftarrow> c_strlen s;
            if sint n < valuelen then do { b \<leftarrow> wr value 0 (take (unat n) s @ [0]); Some (0, b) }
            else Some (- 1, value) })"

text \<open>\<open>get_basic_attr\<close> reads a member of the union whatever the descriptor says.\<close>

definition get_basic_attr :: "u16 \<Rightarrow> (sdp_val \<Rightarrow> 'a) \<Rightarrow> sdp_record \<Rightarrow> int \<times> 'a option" where
  "get_basic_attr attrID member rec =
     (case sdp_data_get rec attrID of Some d \<Rightarrow> (0, Some (member (val d))) | None \<Rightarrow> (- 1, None))"

definition val_uint8 :: "(sdp_val \<Rightarrow> u32) \<Rightarrow> sdp_val \<Rightarrow> u8" where
  "val_uint8 addr v = val_image addr v ! 0"

definition sdp_get_service_id :: "(sdp_val \<Rightarrow> u32) \<Rightarrow> sdp_record \<Rightarrow> int \<times> uuid_t option" where
  "sdp_get_service_id addr = get_basic_attr 0x0003 (val_uuid addr)"

definition sdp_get_record_state :: "(sdp_val \<Rightarrow> u32) \<Rightarrow> sdp_record \<Rightarrow> int \<times> u32 option" where
  "sdp_get_record_state addr = get_basic_attr 0x0002 (val_uint32 addr)"

definition sdp_get_service_avail :: "(sdp_val \<Rightarrow> u32) \<Rightarrow> sdp_record \<Rightarrow> int \<times> u8 option" where
  "sdp_get_service_avail addr = get_basic_attr 0x0008 (val_uint8 addr)"

definition sdp_get_service_ttl :: "(sdp_val \<Rightarrow> u32) \<Rightarrow> sdp_record \<Rightarrow> int \<times> u32 option" where
  "sdp_get_service_ttl addr = get_basic_attr 0x0007 (val_uint32 addr)"

definition sdp_get_database_state :: "(sdp_val \<Rightarrow> u32) \<Rightarrow> sdp_record \<Rightarrow> int \<times> u32 option" where
  "sdp_get_database_state addr = get_basic_attr 0x0201 (val_uint32 addr)"

end
