(* ===== verification/SdpSet.thy ===== *)
theory SdpSet
  imports SdpGet
begin

text \<open>
  The setters of single attributes (\<open>lib/sdp.c\<close>, \<open>lib/sdp_lib.h\<close>), and the copy of a record.  The
  setter of the access protocols is not here: it hangs one element for each alternative into a single
  attribute, which the model's records do not have; the one of the additional protocols puts them
  into a sequence.
\<close>

section \<open>New attributes\<close>

definition sdp_attr_add_new :: "sdp_record \<Rightarrow> u16 \<Rightarrow> u8 \<Rightarrow> sdp_src \<Rightarrow> (int \<times> sdp_record) option" where
  "sdp_attr_add_new rec attr t value = do {
     d \<leftarrow> sdp_data_alloc t value;
     (case d of NULL \<Rightarrow> Some (- 1, rec) | Ptr d \<Rightarrow> do { rec \<leftarrow> sdp_attr_replace rec attr d; Some (0, rec) }) }"

definition sdp_attr_add_new_with_length ::
    "sdp_record \<Rightarrow> u16 \<Rightarrow> u8 \<Rightarrow> sdp_src \<Rightarrow> u32 \<Rightarrow> (int \<times> sdp_record) option" where
  "sdp_attr_add_new_with_length rec attr t value len = do {
     d \<leftarrow> sdp_data_alloc_with_length t value len;
     (case d of NULL \<Rightarrow> Some (- 1, rec) | Ptr d \<Rightarrow> do { rec \<leftarrow> sdp_attr_replace rec attr d; Some (0, rec) }) }"

definition str_src :: "buf ptr \<Rightarrow> sdp_src" where
  "str_src s = (case s of NULL \<Rightarrow> Null_src | Ptr m \<Rightarrow> Mem m)"

definition set_text :: "u16 \<Rightarrow> buf ptr \<Rightarrow> sdp_record \<Rightarrow> sdp_record option" where
  "set_text attr s rec =
     (case s of NULL \<Rightarrow> Some rec | Ptr m \<Rightarrow> do { (_, rec) \<leftarrow> sdp_attr_add_new rec attr SDP_TEXT_STR8 (Mem m); Some rec })"

definition sdp_set_info_attr :: "sdp_record \<Rightarrow> buf ptr \<Rightarrow> buf ptr \<Rightarrow> buf ptr \<Rightarrow> sdp_record option" where
  "sdp_set_info_attr rec name prov desc = do {
     rec \<leftarrow> set_text 0x0100 name rec;
     rec \<leftarrow> set_text 0x0102 prov rec;
     set_text 0x0101 desc rec }"

definition sdp_set_url_attr :: "sdp_record \<Rightarrow> buf ptr \<Rightarrow> buf ptr \<Rightarrow> buf ptr \<Rightarrow> sdp_record option" where
  "sdp_set_url_attr rec client doc icon = do {
     (_, rec) \<leftarrow> sdp_attr_add_new rec 0x000b SDP_URL_STR8 (str_src client);
     (_, rec) \<leftarrow> sdp_attr_add_new rec 0x000a SDP_URL_STR8 (str_src doc);
     (_, rec) \<leftarrow> sdp_attr_add_new rec 0x000c SDP_URL_STR8 (str_src icon);
     Some rec }"

text \<open>The pointer to the value of a UUID, and the setters of an attribute that is one.\<close>

definition set_uuid_attr :: "u16 \<Rightarrow> sdp_record \<Rightarrow> uuid_t \<Rightarrow> sdp_record option" where
  "set_uuid_attr attr rec uuid = do {
     rec \<leftarrow> (if SDP_IS_UUID (utype uuid)
             then do { (_, rec) \<leftarrow> sdp_attr_add_new rec attr (utype uuid) (Mem (uval uuid)); Some rec }
             else Some rec);
     Some (sdp_pattern_add_uuid rec uuid) }"

definition sdp_set_service_id :: "sdp_record \<Rightarrow> uuid_t \<Rightarrow> sdp_record option" where
  "sdp_set_service_id = set_uuid_attr 0x0003"

definition sdp_set_group_id :: "sdp_record \<Rightarrow> uuid_t \<Rightarrow> sdp_record option" where
  "sdp_set_group_id = set_uuid_attr 0x0200"

definition sdp_set_service_ttl :: "sdp_record \<Rightarrow> u32 \<Rightarrow> (int \<times> sdp_record) option" where
  "sdp_set_service_ttl rec ttl = sdp_attr_add_new rec 0x0007 SDP_UINT32 (Mem (le_of 4 ttl))"

definition sdp_set_record_state :: "sdp_record \<Rightarrow> u32 \<Rightarrow> (int \<times> sdp_record) option" where
  "sdp_set_record_state rec state = sdp_attr_add_new rec 0x0002 SDP_UINT32 (Mem (le_of 4 state))"

definition sdp_set_service_avail :: "sdp_record \<Rightarrow> u8 \<Rightarrow> (int \<times> sdp_record) option" where
  "sdp_set_service_avail rec avail = sdp_attr_add_new rec 0x0008 SDP_UINT8 (Mem [avail])"

section \<open>Lists\<close>

text \<open>The objects a list points to; the null pointer when one of its pointers is null.\<close>

fun all_ptrs :: "'a ptr list \<Rightarrow> 'a list ptr" where
  "all_ptrs [] = Ptr []"
| "all_ptrs (NULL # l) = NULL"
| "all_ptrs (Ptr x # l) = (case all_ptrs l of NULL \<Rightarrow> NULL | Ptr xs \<Rightarrow> Ptr (x # xs))"

text \<open>The entries of the arrays \<open>dtds\<close> and \<open>values\<close> for a UUID and for a number.\<close>

definition uuid_arg :: "uuid_t \<Rightarrow> u8 \<times> sdp_src" where
  "uuid_arg u = (utype u, Mem (uval u))"

definition uint16_arg :: "u16 \<Rightarrow> u8 \<times> sdp_src" where
  "uint16_arg w = (SDP_UINT16, Mem (le_of 2 w))"

definition sdp_set_uuidseq_attr :: "sdp_record \<Rightarrow> u16 \<Rightarrow> uuid_t ptr list \<Rightarrow> (int \<times> sdp_record) option" where
  "sdp_set_uuidseq_attr rec aid seq =
     (if seq = [] then Some (- 1, rec)
      else (case all_ptrs seq of
          NULL \<Rightarrow> Some (- 1, rec)
        | Ptr us \<Rightarrow>
            if \<exists>u\<in>set us. \<not> SDP_IS_UUID (utype u) then Some (- 1, rec)
            else do {
              data \<leftarrow> sdp_seq_alloc (map uuid_arg us);
              d \<leftarrow> deref data;
              rec \<leftarrow> sdp_attr_replace rec aid d;
              Some (0, sdp_pattern_add_uuidseq rec us) }))"

definition sdp_set_service_classes :: "sdp_record \<Rightarrow> uuid_t ptr list \<Rightarrow> (int \<times> sdp_record) option" where
  "sdp_set_service_classes rec seq = sdp_set_uuidseq_attr rec 0x0001 seq"

definition sdp_set_browse_groups :: "sdp_record \<Rightarrow> uuid_t ptr list \<Rightarrow> (int \<times> sdp_record) option" where
  "sdp_set_browse_groups rec seq = sdp_set_uuidseq_attr rec 0x0005 seq"

definition lang_args :: "sdp_lang_attr_t \<Rightarrow> (u8 \<times> sdp_src) list" where
  "lang_args l = [uint16_arg (code_ISO639 l), uint16_arg (encoding l), uint16_arg (base_offset l)]"

text \<open>What \<open>sdp_attr_add\<close> returns is not looked at.\<close>

definition sdp_set_lang_attr :: "sdp_record \<Rightarrow> sdp_lang_attr_t ptr list \<Rightarrow> (int \<times> sdp_record) option" where
  "sdp_set_lang_attr rec seq =
     (case all_ptrs seq of
        NULL \<Rightarrow> Some (- 1, rec)
      | Ptr ls \<Rightarrow> do {
          s \<leftarrow> sdp_seq_alloc (concat (map lang_args ls));
          d \<leftarrow> deref s;
          (_, rec) \<leftarrow> sdp_attr_add rec 0x0006 d;
          Some (0, rec) })"

definition sdp_add_lang_attr :: "sdp_record \<Rightarrow> sdp_record option" where
  "sdp_add_lang_attr rec =
     map_option snd (sdp_set_lang_attr rec [Ptr \<lparr>code_ISO639 = 0x656E, encoding = 106, base_offset = 0x0100\<rparr>])"

text \<open>
  Each profile is made a sequence of its own; its UUID goes into the pattern at once, also when a
  later profile makes the call fail.
\<close>

fun profile_args ::
    "sdp_profile_desc_t ptr list \<Rightarrow> sdp_record \<Rightarrow> (u8 \<times> sdp_src) list \<Rightarrow> ((u8 \<times> sdp_src) list ptr \<times> sdp_record) option" where
  "profile_args [] rec args = Some (Ptr args, rec)"
| "profile_args (NULL # l) rec args = Some (NULL, rec)"
| "profile_args (Ptr p # l) rec args =
     (if \<not> SDP_IS_UUID (utype (prof_uuid p)) then Some (NULL, rec)
      else do {
        s \<leftarrow> sdp_seq_alloc [uuid_arg (prof_uuid p), uint16_arg (prof_version p)];
        (case s of
           NULL \<Rightarrow> Some (NULL, rec)
         | Ptr d \<Rightarrow> profile_args l (sdp_pattern_add_uuid rec (prof_uuid p)) (args @ [(dtd d, Chain [d])])) })"

definition sdp_set_profile_descs :: "sdp_record \<Rightarrow> sdp_profile_desc_t ptr list \<Rightarrow> (int \<times> sdp_record) option" where
  "sdp_set_profile_descs rec profiles = do {
     (args, rec) \<leftarrow> profile_args profiles rec [];
     (case args of
        NULL \<Rightarrow> Some (- 1, rec)
      | Ptr args \<Rightarrow> do {
          s \<leftarrow> sdp_seq_alloc args;
          d \<leftarrow> deref s;
          (_, rec) \<leftarrow> sdp_attr_add rec 0x0009 d;
          Some (0, rec) }) }"

section \<open>Additional protocols\<close>

text \<open>
  A protocol is a list of objects that are UUIDs or elements, told apart by their first byte; an
  element of a kind the switch does not list leaves its slot of \<open>values\<close> uninitialised, and one that
  claims to be a UUID is read as one.
\<close>

datatype proto_elt = Elt_uuid uuid_t | Elt_data sdp_data

fun elt_arg :: "proto_elt \<Rightarrow> (u8 \<times> sdp_src) option" where
  "elt_arg (Elt_uuid u) = (if SDP_IS_UUID (utype u) then Some (uuid_arg u) else None)"
| "elt_arg (Elt_data d) =
     (if dtd d = SDP_UINT8 then do { w \<leftarrow> as_uint8 (val d); Some (SDP_UINT8, Mem [w]) }
      else if dtd d = SDP_UINT16 then do { w \<leftarrow> as_uint16 (val d); Some (uint16_arg w) }
      else if SDP_IS_SEQ (dtd d) then Some (dtd d, Chain [d])
      else None)"

fun last_uuid :: "proto_elt list \<Rightarrow> uuid_t ptr \<Rightarrow> uuid_t ptr" where
  "last_uuid [] u = u"
| "last_uuid (Elt_uuid u # elt) _ = last_uuid elt (Ptr u)"
| "last_uuid (Elt_data d # elt) u = last_uuid elt u"

fun elt_args :: "proto_elt list \<Rightarrow> (u8 \<times> sdp_src) list option" where
  "elt_args [] = Some []"
| "elt_args (e # elt) = do { x \<leftarrow> elt_arg e; xs \<leftarrow> elt_args elt; Some (x # xs) }"

text \<open>
  The arrays have room for ten objects, and the rest is left out.  A protocol that gives no sequence
  leaves its slots of the outer arrays uninitialised, which are read afterwards.
\<close>

fun proto_args :: "proto_elt list list \<Rightarrow> sdp_record \<Rightarrow> (u8 \<times> sdp_src) list \<Rightarrow> ((u8 \<times> sdp_src) list \<times> sdp_record) option" where
  "proto_args [] rec args = Some (args, rec)"
| "proto_args (elt # proto) rec args = do {
     dv \<leftarrow> elt_args (take 10 elt);
     s \<leftarrow> sdp_seq_alloc dv;
     s \<leftarrow> deref s;
     proto_args proto
       (case last_uuid (take 10 elt) NULL of NULL \<Rightarrow> rec | Ptr u \<Rightarrow> sdp_pattern_add_uuid rec u)
       (args @ [(dtd s, Chain [s])]) }"

definition access_proto_to_dataseq :: "sdp_record \<Rightarrow> proto_elt list list \<Rightarrow> (sdp_data ptr \<times> sdp_record) option" where
  "access_proto_to_dataseq rec proto = do {
     (args, rec) \<leftarrow> proto_args proto rec [];
     seq \<leftarrow> sdp_seq_alloc args;
     Some (seq, rec) }"

fun proto_chain :: "proto_elt list list list \<Rightarrow> sdp_record \<Rightarrow> sdp_data list \<Rightarrow> (sdp_data list \<times> sdp_record) option" where
  "proto_chain [] rec protos = Some (protos, rec)"
| "proto_chain (p # ap) rec protos = do {
     (seq, rec) \<leftarrow> access_proto_to_dataseq rec p;
     seq \<leftarrow> deref seq;
     proto_chain ap rec (sdp_seq_append protos seq) }"

text \<open>Without protocols the element to be added is the null pointer, looked at if it is to be added.\<close>

definition sdp_set_add_access_protos :: "sdp_record \<Rightarrow> proto_elt list list list \<Rightarrow> (int \<times> sdp_record) option" where
  "sdp_set_add_access_protos rec ap = do {
     (protos, rec) \<leftarrow> proto_chain ap rec [];
     if protos = [] then (if sdp_data_get rec 0x000d = None then None else Some (0, rec))
     else do {
       s \<leftarrow> sdp_data_alloc SDP_SEQ8 (Chain protos);
       d \<leftarrow> deref s;
       (_, rec) \<leftarrow> sdp_attr_add rec 0x000d d;
       Some (0, rec) } }"

section \<open>Supported features\<close>

text \<open>
  \<open>sdp_seq_alloc_with_length\<close> takes the pointer of a member that is a sequence for the member itself,
  with the chain behind it, which the next member cuts off.
\<close>

fun seq_alloc_lengths :: "(u8 \<times> sdp_src \<times> u32) list \<Rightarrow> sdp_data list \<Rightarrow> sdp_data list ptr option" where
  "seq_alloc_lengths [] seq = Some (Ptr seq)"
| "seq_alloc_lengths ((t, value, len) # args) seq = do {
     data \<leftarrow> (if SDP_SEQ8 \<le> t \<and> t \<le> SDP_ALT32 then chain_of value
             else do { d \<leftarrow> sdp_data_alloc_with_length t value len; Some (case d of NULL \<Rightarrow> [] | Ptr d \<Rightarrow> [d]) });
     (case data of
        [] \<Rightarrow> Some NULL
      | d # ds \<Rightarrow> seq_alloc_lengths args (seq @ (if args = [] then d # ds else [d]))) }"

definition sdp_seq_alloc_with_length :: "(u8 \<times> sdp_src \<times> u32) list \<Rightarrow> sdp_data ptr option" where
  "sdp_seq_alloc_with_length args = do {
     seq \<leftarrow> seq_alloc_lengths args [];
     case seq of NULL \<Rightarrow> Some NULL | Ptr ds \<Rightarrow> sdp_data_alloc SDP_SEQ8 (Chain ds) }"

text \<open>For a member that is no string and no sequence the pointer is that of the whole union.\<close>

definition feat_arg :: "(sdp_val \<Rightarrow> u32) \<Rightarrow> sdp_data \<Rightarrow> (u8 \<times> sdp_src \<times> u32) option" where
  "feat_arg addr d =
     (if dtd d = SDP_URL_STR8 \<or> dtd d = SDP_URL_STR16 \<or> dtd d = SDP_TEXT_STR8 \<or> dtd d = SDP_TEXT_STR16 then do {
        s \<leftarrow> val_str (val d);
        Some (dtd d, if val d = Zeroed then Null_src else Mem s, word_of_int (unitSize d - 1)) }
      else if SDP_IS_SEQ (dtd d) \<or> SDP_IS_ALT (dtd d) then do { ds \<leftarrow> dataseq (val d); Some (dtd d, Chain ds, 0) }
      else Some (dtd d, Mem (val_image addr (val d)), 0))"

fun feat_args :: "(sdp_val \<Rightarrow> u32) \<Rightarrow> sdp_data list \<Rightarrow> (u8 \<times> sdp_src \<times> u32) list option" where
  "feat_args addr [] = Some []"
| "feat_args addr (d # ds) = do { x \<leftarrow> feat_arg addr d; xs \<leftarrow> feat_args addr ds; Some (x # xs) }"

fun feats_args :: "(sdp_val \<Rightarrow> u32) \<Rightarrow> sdp_data list list \<Rightarrow> (u8 \<times> sdp_src) list \<Rightarrow> (u8 \<times> sdp_src) list ptr option" where
  "feats_args addr [] args = Some (Ptr args)"
| "feats_args addr (p # sf) args = do {
     xs \<leftarrow> feat_args addr p;
     feat \<leftarrow> sdp_seq_alloc_with_length xs;
     (case feat of NULL \<Rightarrow> Some NULL | Ptr f \<Rightarrow> feats_args addr sf (args @ [(dtd f, Chain [f])])) }"

definition sdp_set_supp_feat :: "(sdp_val \<Rightarrow> u32) \<Rightarrow> sdp_record \<Rightarrow> sdp_data list list \<Rightarrow> (int \<times> sdp_record) option" where
  "sdp_set_supp_feat addr rec sf = do {
     args \<leftarrow> feats_args addr sf [];
     (case args of
        NULL \<Rightarrow> Some (- 1, rec)
      | Ptr args \<Rightarrow> do {
          s \<leftarrow> sdp_seq_alloc args;
          (case s of NULL \<Rightarrow> Some (- 1, rec) | Ptr d \<Rightarrow> do { rec \<leftarrow> sdp_attr_replace rec 0x0200 d; Some (0, rec) }) }) }"

text \<open>The members of one feature; the null pointer for one of another kind.\<close>

fun feature_of :: "sdp_data list \<Rightarrow> sdp_data list \<Rightarrow> sdp_data list ptr option" where
  "feature_of [] sub = Some (Ptr sub)"
| "feature_of (dd # dds) sub = do {
     r \<leftarrow> (if dtd dd = SDP_URL_STR8 \<or> dtd dd = SDP_URL_STR16 \<or> dtd dd = SDP_TEXT_STR8 \<or> dtd dd = SDP_TEXT_STR16 then do {
            s \<leftarrow> val_str (val dd);
            d \<leftarrow> sdp_data_alloc_with_length (dtd dd) (if val dd = Zeroed then Null_src else Mem s) (word_of_int (unitSize dd - 1));
            Some (Ptr d) }
          else if dtd dd = SDP_UINT8 \<or> dtd dd = SDP_UINT16 then do {
            m \<leftarrow> (case val dd of V8 w \<Rightarrow> Some [w] | V16 w \<Rightarrow> Some (le_of 2 w) | _ \<Rightarrow> None);
            d \<leftarrow> sdp_data_alloc_with_length (dtd dd) (Mem m) 0;
            Some (Ptr d) }
          else Some NULL);
     (case r of
        NULL \<Rightarrow> Some NULL
      | Ptr NULL \<Rightarrow> feature_of dds sub
      | Ptr (Ptr d) \<Rightarrow> feature_of dds (sdp_list_append sub d)) }"

text \<open>
  On a failure the list read so far is freed: all of it at once, by a loop that then goes on to its
  second node, so more than one feature is a use of freed memory.
\<close>

fun features_of :: "sdp_data list \<Rightarrow> sdp_data list list \<Rightarrow> sdp_data list list ptr option" where
  "features_of [] tseq = Some (Ptr tseq)"
| "features_of (d # ds) tseq = do {
     r \<leftarrow> (if \<not> SDP_IS_SEQ (dtd d) then Some NULL else do { dds \<leftarrow> dataseq (val d); feature_of dds [] });
     (case r of
        NULL \<Rightarrow> if 2 \<le> length tseq then None else Some NULL
      | Ptr sub \<Rightarrow> features_of ds (sdp_list_append tseq sub)) }"

text \<open>A list of UUIDs comes back from the getter of those, and the list of features otherwise.\<close>

definition sdp_get_supp_feat :: "sdp_record \<Rightarrow> (int \<times> (uuid_t list + sdp_data list list) ptr) option" where
  "sdp_get_supp_feat rec =
     (case sdp_data_get rec 0x0200 of
        None \<Rightarrow> do { (r, us) \<leftarrow> sdp_get_uuidseq_attr rec 0x0200; Some (r, Ptr (Inl us)) }
      | Some d \<Rightarrow>
          if \<not> SDP_IS_SEQ (dtd d) then do { (r, us) \<leftarrow> sdp_get_uuidseq_attr rec 0x0200; Some (r, Ptr (Inl us)) }
          else do {
            ds \<leftarrow> dataseq (val d);
            r \<leftarrow> features_of ds [];
            Some (case r of NULL \<Rightarrow> (- 1, NULL) | Ptr l \<Rightarrow> (0, Ptr (Inr l))) })"

section \<open>Copying a record\<close>

text \<open>The memory of a scalar member of the union.\<close>

definition member_mem :: "sdp_val \<Rightarrow> buf option" where
  "member_mem v = (case v of
     V8 w \<Rightarrow> Some [w] | V16 w \<Rightarrow> Some (le_of 2 w) | V32 w \<Rightarrow> Some (le_of 4 w) | V64 w \<Rightarrow> Some (le_of 8 w)
   | V128 bs \<Rightarrow> Some bs | Vuuid u \<Rightarrow> Some (uval u) | _ \<Rightarrow> None)"

text \<open>
  \<open>sdp_data_value\<close> gives the pointer to the value and the length of a string; the length is 0 for
  anything else.  A sequence is copied: \<open>copy_chain\<close> is the loop of \<open>sdp_copy_seq\<close>, where the
  length of every member is its \<open>unitSize\<close>, and a member that cannot be copied ends the chain, so
  that the next one starts it anew.
\<close>

fun sdp_data_value :: "sdp_data \<Rightarrow> (sdp_src \<times> u32) option"
  and copy_chain :: "sdp_data list \<Rightarrow> bool \<Rightarrow> sdp_data list \<Rightarrow> sdp_data list option" where
  "sdp_data_value (Sdp_data t a n v) =
     (if is_int8 t \<or> is_int16 t \<or> is_int32 t \<or> is_int64 t \<or> is_int128 t \<or> SDP_IS_UUID t then do {
        m \<leftarrow> member_mem v; Some (Mem m, 0) }
      else if SDP_IS_TEXT_STR t \<or> is_url_str t then do {
        s \<leftarrow> val_str v; Some (if v = Zeroed then Null_src else Mem s, word_of_int (n - 1)) }
      else if SDP_IS_SEQ t \<or> SDP_IS_ALT t then
        (case v of
           Vseq ds \<Rightarrow> do { ds \<leftarrow> copy_chain ds False []; Some (Chain ds, 0) }
         | Zeroed \<Rightarrow> Some (Chain [], 0)
         | _ \<Rightarrow> None)
      else Some (Null_src, 0))"
| "copy_chain [] cur seq = Some seq"
| "copy_chain (tmp # ds) cur seq = do {
     (value, _) \<leftarrow> sdp_data_value tmp;
     datatmp \<leftarrow> sdp_data_alloc_with_length (dtd tmp) value (word_of_int (unitSize tmp));
     (case datatmp of
        NULL \<Rightarrow> copy_chain ds False (if cur then seq else [])
      | Ptr d \<Rightarrow> copy_chain ds True (if cur then seq @ [d] else [d])) }"

definition sdp_copy_seq :: "sdp_data list \<Rightarrow> sdp_data list option" where
  "sdp_copy_seq data = copy_chain data False []"

definition sdp_copy_attrlist :: "sdp_data \<Rightarrow> sdp_record \<Rightarrow> sdp_record option" where
  "sdp_copy_attrlist data rec = do {
     (value, len) \<leftarrow> sdp_data_value data;
     (_, rec) \<leftarrow> (if len = 0 then sdp_attr_add_new rec (attrId data) (dtd data) value
                   else sdp_attr_add_new_with_length rec (attrId data) (dtd data) value len);
     Some rec }"

fun copy_attrs :: "sdp_data list \<Rightarrow> sdp_record \<Rightarrow> sdp_record option" where
  "copy_attrs [] cpy = Some cpy"
| "copy_attrs (d # ds) cpy = do { cpy \<leftarrow> sdp_copy_attrlist d cpy; copy_attrs ds cpy }"

definition sdp_copy_record :: "sdp_record \<Rightarrow> sdp_record option" where
  "sdp_copy_record rec = do {
     cpy \<leftarrow> copy_attrs (attrlist rec) (sdp_pattern_add_uuidseq (sdp_record_alloc\<lparr>handle := handle rec\<rparr>) (pattern rec));
     Some (cpy\<lparr>svclass := svclass rec\<rparr>) }"

end
