(* ===== verification/SdpAttrs.thy ===== *)
theory SdpAttrs
  imports SdpSet SdpRead SdpGrammar
begin

text \<open>
  What the setters of attributes put into a record, and that the getters read it back.
\<close>

section \<open>Lookup\<close>

lemma data_get_found: "sdp_data_get rec a = Some d \<Longrightarrow> d \<in> set (attrlist rec) \<and> attrId d = a"
  by (auto simp: sdp_data_get_def sdp_list_find_attr find_Some_iff)

lemma data_get_wf: "rec_ok rec \<Longrightarrow> sdp_data_get rec a = Some d \<Longrightarrow> wf_data d"
  using data_get_found by (auto simp: rec_ok_def)

lemma data_get_replace:
  assumes "sdp_attr_replace rec a d = Some rec'" "attrs_ok (attrlist rec)"
  shows "sdp_data_get rec' a = Some (set_attrId a d)"
proof -
  have "a \<notin> attrId ` set (filter (\<lambda>e. attrId e \<noteq> a) (attrlist rec))" by auto
  from find_insert_attr [OF attrs_ok_filter [OF assms(2)] this, of a d] show ?thesis
    by (simp add: sdp_data_get_def sdp_list_find_attr replace_attrlist [OF assms])
qed

lemma data_get_pattern [simp]:
  "sdp_data_get (sdp_pattern_add_uuid rec u) a = sdp_data_get rec a"
  "sdp_data_get (foldl sdp_pattern_add_uuid rec us) a = sdp_data_get rec a"
  by (simp_all add: sdp_data_get_def)

lemma uuidseq_foldl: "sdp_pattern_add_uuidseq rec us = foldl sdp_pattern_add_uuid rec us"
  by (induction us arbitrary: rec) simp_all

lemma attr_add_replace: "sdp_data_get rec a = None \<Longrightarrow> sdp_attr_add rec a d = map_option (Pair 0) (sdp_attr_replace rec a d)"
  by (cases "set_svclass a (set_attrId a d) (rec\<lparr>attrlist := insert_attr (attrlist rec) (set_attrId a d)\<rparr>)")
    (simp_all add: sdp_attr_add_def sdp_attr_replace_def Let_def)

text \<open>A new attribute whose UUIDs then go into the pattern: the invariant, and the lookup.\<close>

lemma set_attr_ok:
  assumes "rec_ok rec" "wf_data d" "sdp_uuid_to_uuid128 ` set (uuids_data d) = sdp_uuid_to_uuid128 ` set us"
    "\<forall>u\<in>set us. valid_uuid u"
  shows "\<exists>rec'. sdp_attr_replace rec a d = Some rec' \<and> rec_ok (foldl sdp_pattern_add_uuid rec' us) \<and>
    sdp_data_get (foldl sdp_pattern_add_uuid rec' us) a = Some (set_attrId a d)"
proof -
  obtain rec' where r: "sdp_attr_replace rec a d = Some rec'" "pattern rec' = pattern rec"
    using attr_replace_defined [OF assms(2), of rec a] by blast
  have srt: "attrs_ok (attrlist rec)" "pattern_ok (pattern rec)" using assms(1) by (simp_all add: rec_ok_def)
  let ?rec = "foldl sdp_pattern_add_uuid rec' us"
  have l: "set (attrlist rec') \<subseteq> insert (set_attrId a d) (set (attrlist rec))"
    using replace_attrlist [OF r(1) srt(1)] by (auto simp: set_insert_attr)
  have p: "pattern_ok (pattern ?rec)" "set (pattern ?rec) = set (pattern rec) \<union> sdp_uuid_to_uuid128 ` set us"
    using pattern_adds [of rec' us] assms(4) srt(2) r(2) by simp_all
  have "wf_data e \<and> sdp_uuid_to_uuid128 ` set (uuids_data e) \<subseteq> set (pattern ?rec)" if e: "e \<in> set (attrlist rec')" for e
  proof (cases "e = set_attrId a d")
    case True
    then show ?thesis using assms(2,3) p(2) by simp
  next
    case False
    then have "e \<in> set (attrlist rec)" using l e by blast
    then show ?thesis using assms(1) p(2) unfolding rec_ok_def by blast
  qed
  then have "rec_ok ?rec" using replace_attrs_ok [OF r(1) srt(1)] p(1) by (simp add: rec_ok_def)
  with r(1) data_get_replace [OF r(1) srt(1)] show ?thesis by auto
qed

section \<open>Allocation\<close>

definition uuid_elem_of :: "uuid_t \<Rightarrow> sdp_data" where
  "uuid_elem_of u = Sdp_data (utype u) 0 (if utype u = SDP_UUID16 then 3 else if utype u = SDP_UUID32 then 5 else 17)
     (Vuuid (canon_uuid (utype u) u))"

definition uint16_elem :: "u16 \<Rightarrow> sdp_data" where
  "uint16_elem w = Sdp_data SDP_UINT16 0 3 (V16 w)"

lemma elem_sel [simp]:
  "dtd (uuid_elem_of u) = utype u" "val (uuid_elem_of u) = Vuuid (canon_uuid (utype u) u)"
  "dtd (uint16_elem w) = SDP_UINT16" "val (uint16_elem w) = V16 w"
  by (simp_all add: uuid_elem_of_def uint16_elem_def)

lemma canon_valid:
  assumes "valid_uuid u"
  shows "valid_uuid (canon_uuid (utype u) u)" "utype (canon_uuid (utype u) u) = utype u"
    "sdp_uuid_to_uuid128 (canon_uuid (utype u) u) = sdp_uuid_to_uuid128 u"
  using assms
  by (auto simp: canon_uuid_def valid_uuid_def SDP_IS_UUID_def sdp_uuid16_create_def sdp_uuid32_create_def
      sdp_uuid_to_uuid128_def sdp_uuid16_to_uuid128_def sdp_uuid32_to_uuid128_def uuid16_def uuid32_def)

lemma uuid_elem_wf: "valid_uuid u \<Longrightarrow> wf_data (uuid_elem_of u)"
  using canon_valid [of u] by (simp add: uuid_elem_of_def valid_uuid_def)

text \<open>An entry of the two arrays, and the element made of it.\<close>

definition makes :: "u8 \<times> sdp_src \<Rightarrow> sdp_data \<Rightarrow> bool" where
  "makes x d \<longleftrightarrow> (if SDP_SEQ8 \<le> fst x \<and> fst x \<le> SDP_ALT32 then snd x = Chain [d]
     else sdp_data_alloc (fst x) (snd x) = Some (Ptr d))"

lemma makes_uuid: "valid_uuid u \<Longrightarrow> makes (uuid_arg u) (uuid_elem_of u)"
  by (auto simp: makes_def uuid_arg_def uuid_elem_of_def valid_uuid_def SDP_IS_UUID_def sdp_data_alloc_def
      sdp_data_alloc_with_length_def dtd_groups mem_of_def canon_uuid_def uuid16_def uuid32_def get_le16_def get_le32_def
      rd_def sdp_uuid128_create_def)

lemma makes_uint16: "makes (uint16_arg w) (uint16_elem w)"
  by (simp add: makes_def uint16_arg_def uint16_elem_def sdp_data_alloc_def sdp_data_alloc_with_length_def dtd_groups
      mem_of_def get_le16_def rd_def)

lemma seq_alloc_loop: "list_all2 makes args ds \<Longrightarrow> sdp_seq_alloc_loop args seq = Some (Ptr (seq @ ds))"
proof (induction args ds arbitrary: seq rule: list_all2_induct)
  case (Cons x xs d ds)
  then show ?case by (cases x) (auto simp: makes_def sdp_seq_append_def)
qed simp

definition seq_of :: "sdp_data list \<Rightarrow> sdp_data" where
  "seq_of ds = Sdp_data SDP_SEQ8 0 (2 + sum_list (map unitSize ds)) (Vseq ds)"

lemma seq_of_sel [simp]: "dtd (seq_of ds) = SDP_SEQ8" "val (seq_of ds) = Vseq ds" "wf_data (seq_of ds) = (\<forall>d\<in>set ds. wf_data d)"
  by (simp_all add: seq_of_def SDP_IS_SEQ_def)

lemma seq_alloc: "list_all2 makes args ds \<Longrightarrow> sdp_seq_alloc args = Some (Ptr (seq_of ds))"
  by (simp add: sdp_seq_alloc_def seq_alloc_loop sdp_data_alloc_def sdp_data_alloc_with_length_def dtd_groups chain_of_def
      seq_of_def seq_header_def)

lemma makes_map: "(\<And>x. x \<in> set xs \<Longrightarrow> makes (f x) (g x)) \<Longrightarrow> list_all2 makes (map f xs) (map g xs)"
  by (simp add: list_all2_map1 list_all2_map2 list_all2_same)

lemma all_ptrs_map [simp]: "all_ptrs (map Ptr xs) = Ptr xs"
  by (induction xs) simp_all

section \<open>Lists of UUIDs\<close>

lemma uuids_of_elems:
  "\<forall>u\<in>set us. valid_uuid u \<Longrightarrow>
    uuids_of (map uuid_elem_of us) seq = Some (Ptr (seq @ map (\<lambda>u. canon_uuid (utype u) u) us))"
  by (induction us arbitrary: seq) (auto simp: as_uuid_def sdp_list_append_def valid_uuid_def SDP_IS_UUID_def)

lemma set_uuidseq:
  assumes "rec_ok rec" "us \<noteq> []" "\<forall>u\<in>set us. valid_uuid u"
  shows "\<exists>rec'. sdp_set_uuidseq_attr rec a (map Ptr us) = Some (0, rec') \<and> rec_ok rec' \<and>
    sdp_get_uuidseq_attr rec' a = Some (0, map (\<lambda>u. canon_uuid (utype u) u) us)"
proof -
  let ?d = "seq_of (map uuid_elem_of us)"
  have alloc: "sdp_seq_alloc (map uuid_arg us) = Some (Ptr ?d)"
    by (rule seq_alloc) (use assms(3) makes_uuid in \<open>auto intro: makes_map\<close>)
  have "uuids_data (seq_of (map uuid_elem_of us)) = map (\<lambda>u. canon_uuid (utype u) u) us"
    by (simp add: seq_of_def comp_def) (induction us, simp_all add: uuid_elem_of_def)
  moreover have "sdp_uuid_to_uuid128 ` set (map (\<lambda>u. canon_uuid (utype u) u) us) = sdp_uuid_to_uuid128 ` set us"
    using assms(3) canon_valid(3) by (auto simp: image_image)
  moreover have "wf_data ?d" using assms(3) uuid_elem_wf by simp
  ultimately obtain rec' where r: "sdp_attr_replace rec a ?d = Some rec'" "rec_ok (foldl sdp_pattern_add_uuid rec' us)"
    "sdp_data_get (foldl sdp_pattern_add_uuid rec' us) a = Some (set_attrId a ?d)"
    using set_attr_ok [OF assms(1), of ?d us a] assms(3) by metis
  have "sdp_set_uuidseq_attr rec a (map Ptr us) = Some (0, foldl sdp_pattern_add_uuid rec' us)"
    using assms(2,3) alloc r(1) by (auto simp: sdp_set_uuidseq_attr_def uuidseq_foldl valid_uuid_def)
  moreover have "sdp_get_uuidseq_attr (foldl sdp_pattern_add_uuid rec' us) a =
      Some (0, map (\<lambda>u. canon_uuid (utype u) u) us)"
    unfolding sdp_get_uuidseq_attr_def r(3)
    using uuids_of_elems [OF assms(3), of "[]"] by (simp add: dataseq_def list_result_def SDP_IS_SEQ_def)
  ultimately show ?thesis using r(2) by blast
qed

section \<open>Languages\<close>

definition lang_elems :: "sdp_lang_attr_t \<Rightarrow> sdp_data list" where
  "lang_elems l = [uint16_elem (code_ISO639 l), uint16_elem (encoding l), uint16_elem (base_offset l)]"

lemma makes_langs: "list_all2 makes (concat (map lang_args ls)) (concat (map lang_elems ls))"
  by (induction ls) (simp_all add: lang_args_def lang_elems_def makes_uint16)

lemma langs_of_elems: "langs_of (concat (map lang_elems ls)) seq = Some (Ptr (seq @ ls))"
  by (induction ls arbitrary: seq) (simp_all add: lang_elems_def as_uint16_def sdp_list_append_def)

lemma set_langs:
  assumes "rec_ok rec" "sdp_data_get rec 0x0006 = None"
  shows "\<exists>rec'. sdp_set_lang_attr rec (map Ptr ls) = Some (0, rec') \<and> rec_ok rec' \<and> sdp_get_lang_attr rec' = Some (0, ls)"
proof -
  let ?d = "seq_of (concat (map lang_elems ls))"
  have "wf_data ?d" by (auto simp: lang_elems_def uint16_elem_def is_int16_def)
  moreover have "uuids_data ?d = []"
    by (simp add: seq_of_def) (induction ls, simp_all add: lang_elems_def uint16_elem_def)
  ultimately obtain rec' where r: "sdp_attr_replace rec 0x0006 ?d = Some rec'" "rec_ok rec'"
    "sdp_data_get rec' 0x0006 = Some (set_attrId 0x0006 ?d)"
    using set_attr_ok [OF assms(1), where d = ?d and us = "[]" and a = "0x0006"] by auto
  have add: "sdp_attr_add rec 0x0006 ?d = Some (0, rec')" using attr_add_replace [OF assms(2)] r(1) by simp
  have "sdp_seq_alloc (concat (map lang_args ls)) = Some (Ptr ?d)" by (rule seq_alloc [OF makes_langs])
  with add have "sdp_set_lang_attr rec (map Ptr ls) = Some (0, rec')"
    by (simp add: sdp_set_lang_attr_def)
  moreover have "sdp_get_lang_attr rec' = Some (0, ls)"
    unfolding sdp_get_lang_attr_def r(3)
    using langs_of_elems [where seq = "[]"] by (simp add: dataseq_def list_result_def SDP_IS_SEQ_def)
  ultimately show ?thesis using r(2) by blast
qed

section \<open>Profiles\<close>

definition profile_elem :: "sdp_profile_desc_t \<Rightarrow> sdp_data" where
  "profile_elem p = seq_of [uuid_elem_of (prof_uuid p), uint16_elem (prof_version p)]"

definition canon_profile :: "sdp_profile_desc_t \<Rightarrow> sdp_profile_desc_t" where
  "canon_profile p = p\<lparr>prof_uuid := canon_uuid (utype (prof_uuid p)) (prof_uuid p)\<rparr>"

lemma profile_args_made:
  "\<forall>p\<in>set ps. valid_uuid (prof_uuid p) \<Longrightarrow>
    profile_args (map Ptr ps) rec args =
      Some (Ptr (args @ map (\<lambda>p. (SDP_SEQ8, Chain [profile_elem p])) ps), foldl sdp_pattern_add_uuid rec (map prof_uuid ps))"
proof (induction ps arbitrary: rec args)
  case (Cons p ps)
  have v: "valid_uuid (prof_uuid p)" using Cons.prems by simp
  have "sdp_seq_alloc [uuid_arg (prof_uuid p), uint16_arg (prof_version p)] = Some (Ptr (profile_elem p))"
    unfolding profile_elem_def by (rule seq_alloc) (simp add: makes_uuid [OF v] makes_uint16)
  moreover have "dtd (profile_elem p) = SDP_SEQ8" by (simp add: profile_elem_def)
  ultimately show ?case using Cons v by (simp add: valid_uuid_def)
qed simp

lemma profiles_of_elems:
  "\<forall>p\<in>set ps. valid_uuid (prof_uuid p) \<Longrightarrow> profiles_of (map profile_elem ps) seq = Some (Ptr (seq @ map canon_profile ps))"
proof (induction ps arbitrary: seq)
  case (Cons p ps)
  then have v: "SDP_IS_UUID (utype (prof_uuid p))" by (simp add: valid_uuid_def)
  have "profile_in_seq (profile_elem p) = Some (Ptr (canon_profile p))"
    using v by (simp add: profile_in_seq_def profile_elem_def dataseq_def as_uuid_def as_uint16_def canon_profile_def)
  moreover have "\<not> SDP_IS_UUID (dtd (profile_elem p))" "SDP_IS_SEQ (dtd (profile_elem p))"
    by (simp_all add: profile_elem_def dtd_groups)
  ultimately show ?case using Cons by (simp add: sdp_list_append_def)
qed simp

lemma rec_ok_patterns:
  assumes "rec_ok rec" "\<forall>u\<in>set us. valid_uuid u"
  shows "rec_ok (foldl sdp_pattern_add_uuid rec us)"
    "sdp_uuid_to_uuid128 ` set us \<subseteq> set (pattern (foldl sdp_pattern_add_uuid rec us))"
  using assms pattern_adds [of rec us] unfolding rec_ok_def by (simp_all add: le_supI1)

lemma set_profiles:
  assumes "rec_ok rec" "sdp_data_get rec 0x0009 = None" "ps \<noteq> []" "\<forall>p\<in>set ps. valid_uuid (prof_uuid p)"
  shows "\<exists>rec'. sdp_set_profile_descs rec (map Ptr ps) = Some (0, rec') \<and> rec_ok rec' \<and>
    sdp_get_profile_descs rec' = Some (0, map canon_profile ps)"
proof -
  let ?d = "seq_of (map profile_elem ps)" and ?rec = "foldl sdp_pattern_add_uuid rec (map prof_uuid ps)"
  have ok: "rec_ok ?rec" "sdp_uuid_to_uuid128 ` set (map prof_uuid ps) \<subseteq> set (pattern ?rec)"
    using rec_ok_patterns [OF assms(1), of "map prof_uuid ps"] assms(4) by simp_all
  have wf: "wf_data ?d" using assms(4) uuid_elem_wf by (simp add: profile_elem_def) (simp add: uint16_elem_def is_int16_def)
  have us: "uuids_data ?d = map (\<lambda>p. canon_uuid (utype (prof_uuid p)) (prof_uuid p)) ps"
    by (simp add: seq_of_def comp_def) (induction ps, simp_all add: profile_elem_def seq_of_def uuid_elem_of_def uint16_elem_def)
  have "sdp_uuid_to_uuid128 ` set (uuids_data ?d) \<subseteq> set (pattern ?rec)"
    using ok(2) assms(4) canon_valid(3) unfolding us by (auto simp: image_subset_iff)
  moreover obtain rec' where r: "sdp_attr_replace ?rec 0x0009 ?d = Some rec'"
    using attr_replace_defined [OF wf] by blast
  ultimately have ok': "rec_ok rec'" using rec_ok_replace [OF ok(1) wf] by blast
  have g: "sdp_data_get rec' 0x0009 = Some (set_attrId 0x0009 ?d)"
    using data_get_replace [OF r] ok(1) by (simp add: rec_ok_def)
  have none: "sdp_data_get ?rec 0x0009 = None" using assms(2) by simp
  have "sdp_seq_alloc (map (\<lambda>p. (SDP_SEQ8, Chain [profile_elem p])) ps) = Some (Ptr ?d)"
    by (rule seq_alloc, rule makes_map) (simp add: makes_def)
  then have "sdp_set_profile_descs rec (map Ptr ps) = Some (0, rec')"
    using profile_args_made [OF assms(4), of rec "[]"] attr_add_replace [OF none] r
    by (simp add: sdp_set_profile_descs_def)
  moreover have "sdp_get_profile_descs rec' = Some (0, map canon_profile ps)"
    unfolding sdp_get_profile_descs_def g
    using profiles_of_elems [OF assms(4), of "[]"] assms(3) by (simp add: dataseq_def list_result_def SDP_IS_SEQ_def)
  ultimately show ?thesis using ok' by blast
qed

section \<open>Additional protocols\<close>

text \<open>A protocol is its UUID and its parameters.\<close>

definition proto_elts :: "uuid_t \<times> u16 list \<Rightarrow> proto_elt list" where
  "proto_elts p = Elt_uuid (fst p) # map (\<lambda>w. Elt_data (uint16_elem w)) (snd p)"

definition proto_elems :: "uuid_t \<times> u16 list \<Rightarrow> sdp_data list" where
  "proto_elems p = uuid_elem_of (fst p) # map uint16_elem (snd p)"

definition proto_ok :: "uuid_t \<times> u16 list \<Rightarrow> bool" where
  "proto_ok p \<longleftrightarrow> valid_uuid (fst p) \<and> length (snd p) \<le> 9"

lemma elt_args_params: "elt_args (map (\<lambda>w. Elt_data (uint16_elem w)) ws) = Some (map uint16_arg ws)"
  by (induction ws) (simp_all add: as_uint16_def)

lemma last_uuid_params: "last_uuid (map (\<lambda>w. Elt_data (uint16_elem w)) ws) u = u"
  by (induction ws) simp_all

lemma proto_alloc:
  assumes "proto_ok p"
  shows "elt_args (take 10 (proto_elts p)) = Some (uuid_arg (fst p) # map uint16_arg (snd p))"
    "last_uuid (take 10 (proto_elts p)) NULL = Ptr (fst p)"
    "sdp_seq_alloc (uuid_arg (fst p) # map uint16_arg (snd p)) = Some (Ptr (seq_of (proto_elems p)))"
proof -
  have t: "take 10 (proto_elts p) = proto_elts p" using assms by (simp add: proto_elts_def proto_ok_def)
  show "elt_args (take 10 (proto_elts p)) = Some (uuid_arg (fst p) # map uint16_arg (snd p))"
    using assms unfolding t by (simp add: proto_elts_def elt_args_params proto_ok_def valid_uuid_def)
  show "last_uuid (take 10 (proto_elts p)) NULL = Ptr (fst p)"
    unfolding t by (simp add: proto_elts_def last_uuid_params)
  show "sdp_seq_alloc (uuid_arg (fst p) # map uint16_arg (snd p)) = Some (Ptr (seq_of (proto_elems p)))"
    unfolding proto_elems_def using assms
    by (intro seq_alloc) (simp add: makes_uuid proto_ok_def makes_map makes_uint16)
qed

lemma proto_args_made:
  "\<forall>p\<in>set ps. proto_ok p \<Longrightarrow>
    proto_args (map proto_elts ps) rec args =
      Some (args @ map (\<lambda>p. (SDP_SEQ8, Chain [seq_of (proto_elems p)])) ps, foldl sdp_pattern_add_uuid rec (map fst ps))"
  by (induction ps arbitrary: rec args) (simp_all add: proto_alloc)

lemma access_proto:
  assumes "\<forall>p\<in>set ps. proto_ok p"
  shows "access_proto_to_dataseq rec (map proto_elts ps) =
    Some (Ptr (seq_of (map (seq_of \<circ> proto_elems) ps)), foldl sdp_pattern_add_uuid rec (map fst ps))"
proof -
  have "sdp_seq_alloc (map (\<lambda>p. (SDP_SEQ8, Chain [seq_of (proto_elems p)])) ps) = Some (Ptr (seq_of (map (seq_of \<circ> proto_elems) ps)))"
    by (rule seq_alloc, rule makes_map) (simp add: makes_def)
  then show ?thesis using proto_args_made [OF assms, of rec "[]"] by (simp add: access_proto_to_dataseq_def)
qed

lemma proto_chain_made:
  "\<forall>ps\<in>set ap. \<forall>p\<in>set ps. proto_ok p \<Longrightarrow>
    proto_chain (map (map proto_elts) ap) rec protos =
      Some (protos @ map (\<lambda>ps. seq_of (map (seq_of \<circ> proto_elems) ps)) ap,
        foldl sdp_pattern_add_uuid rec (map fst (concat ap)))"
  by (induction ap arbitrary: rec protos) (simp_all add: access_proto sdp_seq_append_def)

lemma protos_of_elems: "protos_of (map (seq_of \<circ> proto_elems) ps) pds = Some (Ptr (pds @ map proto_elems ps))"
  by (induction ps arbitrary: pds) (simp_all add: dataseq_def SDP_IS_SEQ_def sdp_list_append_def)

lemma proto_descs_elems:
  "proto_descs (map (\<lambda>ps. seq_of (map (seq_of \<circ> proto_elems) ps)) ap) pl = Some (Ptr (pl @ map (map proto_elems) ap))"
  by (induction ap arbitrary: pl) (simp_all add: dataseq_def SDP_IS_SEQ_def sdp_list_append_def protos_of_elems)

lemma uuids_seq_of: "uuids_data (seq_of ds) = concat (map uuids_data ds)"
  by (simp add: seq_of_def)

lemma proto_uuids: "uuids_data (seq_of (proto_elems p)) = [canon_uuid (utype (fst p)) (fst p)]"
proof -
  have "concat (map uuids_data (map uint16_elem ws)) = []" for ws by (induction ws) (simp_all add: uint16_elem_def)
  then show ?thesis by (simp add: seq_of_def proto_elems_def uuid_elem_of_def comp_def)
qed

lemma protos_uuids: "uuids_data (seq_of (map (seq_of \<circ> proto_elems) ps)) = map (\<lambda>p. canon_uuid (utype (fst p)) (fst p)) ps"
proof -
  have "map (uuids_data \<circ> (seq_of \<circ> proto_elems)) ps = map (\<lambda>p. [canon_uuid (utype (fst p)) (fst p)]) ps"
    by (simp add: proto_uuids)
  moreover have "concat (map (\<lambda>p. [canon_uuid (utype (fst p)) (fst p)]) ps) = map (\<lambda>p. canon_uuid (utype (fst p)) (fst p)) ps"
    by (induction ps) simp_all
  ultimately show ?thesis by (simp only: uuids_seq_of map_map)
qed

lemma set_add_protos:
  assumes "rec_ok rec" "sdp_data_get rec 0x000d = None" "ap \<noteq> []" "\<forall>ps\<in>set ap. \<forall>p\<in>set ps. proto_ok p"
  shows "\<exists>rec'. sdp_set_add_access_protos rec (map (map proto_elts) ap) = Some (0, rec') \<and> rec_ok rec' \<and>
    sdp_get_add_access_protos rec' = Some (0, Ptr (map (map proto_elems) ap))"
proof -
  let ?d = "seq_of (map (\<lambda>ps. seq_of (map (seq_of \<circ> proto_elems) ps)) ap)"
  let ?us = "map fst (concat ap)" and ?rec = "foldl sdp_pattern_add_uuid rec (map fst (concat ap))"
  have v: "\<forall>u\<in>set ?us. valid_uuid u" using assms(4) by (auto simp: proto_ok_def)
  have ok: "rec_ok ?rec" "sdp_uuid_to_uuid128 ` set ?us \<subseteq> set (pattern ?rec)"
    using rec_ok_patterns [OF assms(1) v] by simp_all
  have wf: "wf_data ?d" using v uuid_elem_wf by (auto simp: proto_elems_def uint16_elem_def is_int16_def)
  have "set (uuids_data ?d) = (\<lambda>u. canon_uuid (utype u) u) ` set ?us"
    unfolding uuids_seq_of [of "map _ ap"] by (auto simp: protos_uuids [unfolded comp_def] comp_def image_iff)
  then have "sdp_uuid_to_uuid128 ` set (uuids_data ?d) \<subseteq> set (pattern ?rec)"
    using ok(2) v canon_valid(3) by (auto simp: image_subset_iff)
  moreover obtain rec' where r: "sdp_attr_replace ?rec 0x000d ?d = Some rec'"
    using attr_replace_defined [OF wf] by blast
  ultimately have ok': "rec_ok rec'" using rec_ok_replace [OF ok(1) wf] by blast
  have g: "sdp_data_get rec' 0x000d = Some (set_attrId 0x000d ?d)"
    using data_get_replace [OF r] ok(1) by (simp add: rec_ok_def)
  have none: "sdp_data_get ?rec 0x000d = None" using assms(2) by simp
  have "sdp_data_alloc SDP_SEQ8 (Chain (map (\<lambda>ps. seq_of (map (seq_of \<circ> proto_elems) ps)) ap)) = Some (Ptr ?d)"
    by (simp add: sdp_data_alloc_def sdp_data_alloc_with_length_def dtd_groups chain_of_def seq_of_def [of "map _ ap"] seq_header_def)
  then have "sdp_set_add_access_protos rec (map (map proto_elts) ap) = Some (0, rec')"
    using proto_chain_made [OF assms(4), of rec "[]"] assms(3) attr_add_replace [OF none] r
    by (simp add: sdp_set_add_access_protos_def)
  moreover have "sdp_get_add_access_protos rec' = Some (0, Ptr (map (map proto_elems) ap))"
    unfolding sdp_get_add_access_protos_def sdp_get_proto_descs_def g
    using proto_descs_elems [of ap "[]"] by (simp add: dataseq_def SDP_IS_SEQ_def)
  ultimately show ?thesis using ok' by blast
qed

end
