(* ===== verification/GattRecord.thy ===== *)
theory GattRecord
  imports SdpGet
begin

text \<open>
  The end of \<open>attrib/gatt.c\<close>: what a client reads from the service record of a GATT service on a
  classic device, the UUID of the service, its PSM and its range of handles.
\<close>

text \<open>The chain behind the UUID of the attribute protocol; \<open>Some ds\<close> is a pointer that was returned.\<close>

fun att_seq_in :: "sdp_data list list \<Rightarrow> sdp_data list option option" where
  "att_seq_in [] = Some None"
| "att_seq_in ([] # p) = att_seq_in p"
| "att_seq_in ((d # ds) # p) =
     (if dtd d \<noteq> SDP_UUID16 then att_seq_in p
      else do {
        u \<leftarrow> as_uuid (val d);
        if sdp_uuid16_cmp (sdp_uuid16_create 0x0007) u = 0 then Some (Some ds) else att_seq_in p })"

fun proto_seq_find :: "proto_list \<Rightarrow> sdp_data list option" where
  "proto_seq_find [] = Some []"
| "proto_seq_find (p # list) = do {
     r \<leftarrow> att_seq_in p;
     case r of Some ds \<Rightarrow> Some ds | None \<Rightarrow> proto_seq_find list }"

text \<open>A pointer argument that may be null, written through when it is not.\<close>

definition put :: "'a ptr \<Rightarrow> 'a \<Rightarrow> 'a ptr" where
  "put p x = (case p of NULL \<Rightarrow> NULL | Ptr _ \<Rightarrow> Ptr x)"

definition parse_proto_params ::
    "proto_list \<Rightarrow> u16 ptr \<Rightarrow> u16 ptr \<Rightarrow> u16 ptr \<Rightarrow> (bool \<times> u16 ptr \<times> u16 ptr \<times> u16 ptr) option" where
  "parse_proto_params protos psm start end' = do {
     psm \<leftarrow> (if psm = NULL then Some NULL
            else do { port \<leftarrow> sdp_get_proto_port protos L2CAP_UUID; Some (put psm (word_of_int port)) });
     seq1 \<leftarrow> proto_seq_find protos;
     (case seq1 of
        [] \<Rightarrow> Some (False, psm, start, end')
      | d1 # seq2 \<Rightarrow>
          if dtd d1 \<noteq> SDP_UINT16 then Some (False, psm, start, end')
          else (case seq2 of
              [] \<Rightarrow> Some (False, psm, start, end')
            | d2 # _ \<Rightarrow>
                if dtd d2 \<noteq> SDP_UINT16 then Some (False, psm, start, end')
                else do {
                  s \<leftarrow> as_uint16 (val d1);
                  e \<leftarrow> as_uint16 (val d2);
                  Some (True, psm, put start s, put end' e) })) }"

text \<open>The first of the service classes is used without a look at whether there is one.\<close>

definition gatt_parse_record ::
    "sdp_record \<Rightarrow> uuid_t ptr \<Rightarrow> u16 ptr \<Rightarrow> u16 ptr \<Rightarrow> u16 ptr \<Rightarrow>
       (bool \<times> uuid_t ptr \<times> u16 ptr \<times> u16 ptr \<times> u16 ptr) option" where
  "gatt_parse_record rec prim_uuid psm start end' = do {
     (r, classes) \<leftarrow> sdp_get_service_classes rec;
     if r < 0 then Some (False, prim_uuid, psm, start, end')
     else do {
       uuid \<leftarrow> (case classes of [] \<Rightarrow> None | u # _ \<Rightarrow> Some u);
       (r, protos) \<leftarrow> sdp_get_access_protos rec;
       if r < 0 then Some (False, prim_uuid, psm, start, end')
       else do {
         protos \<leftarrow> deref protos;
         (ret, psm, start, end') \<leftarrow> parse_proto_params protos psm start end';
         Some (ret, if ret then put prim_uuid uuid else prim_uuid, psm, start, end') } } }"

end
