(* ===== verification/SdpAttrProps.thy ===== *)
theory SdpAttrProps
  imports SdpAttrs GattRecord SdpRecord
begin

text \<open>
  The getters on records of any origin, the record of a GATT service, and what goes wrong when
  attributes are set.
\<close>

section \<open>The getters are defined\<close>

lemma wf_uuid: "wf_data d \<Longrightarrow> SDP_UUID16 \<le> dtd d \<Longrightarrow> dtd d \<le> SDP_UUID128 \<Longrightarrow> \<exists>u. as_uuid (val d) = Some u"
  by (cases d; cases "val d") (auto simp: dtd_groups as_uuid_def)

lemma wf_is_uuid: "wf_data d \<Longrightarrow> SDP_IS_UUID (dtd d) \<Longrightarrow> \<exists>u. as_uuid (val d) = Some u"
  by (rule wf_uuid) (auto simp: SDP_IS_UUID_def)

lemma wf_uint8: "wf_data d \<Longrightarrow> dtd d = SDP_UINT8 \<Longrightarrow> \<exists>w. as_uint8 (val d) = Some w"
  by (cases d; cases "val d") (auto simp: dtd_groups as_uint8_def)

lemma wf_uint16: "wf_data d \<Longrightarrow> dtd d = SDP_UINT16 \<Longrightarrow> \<exists>w. as_uint16 (val d) = Some w"
  by (cases d; cases "val d") (auto simp: dtd_groups as_uint16_def)

lemma wf_members:
  "wf_data d \<Longrightarrow> SDP_IS_SEQ (dtd d) \<or> SDP_IS_ALT (dtd d) \<Longrightarrow> \<exists>ds. dataseq (val d) = Some ds \<and> (\<forall>e\<in>set ds. wf_data e)"
  by (cases d; cases "val d") (auto simp: dtd_groups dataseq_def)

lemma uuids_of_defined: "\<forall>d\<in>set ds. wf_data d \<Longrightarrow> \<exists>r. uuids_of ds seq = Some r"
proof (induction ds arbitrary: seq)
  case (Cons d ds)
  with wf_uuid [of d] show ?case by (cases "dtd d < SDP_UUID16 \<or> SDP_UUID128 < dtd d") (auto simp: not_less)
qed simp

lemma langs_of_defined: "\<forall>d\<in>set ds. wf_data d \<Longrightarrow> \<exists>r. langs_of ds l = Some r"
proof (induction ds l rule: langs_of.induct)
  case (2 c e b ds l)
  then have "wf_data c" "wf_data e" "wf_data b" by simp_all
  with 2 wf_uint16 [of c] wf_uint16 [of e] wf_uint16 [of b] show ?case
    by (cases "dtd c \<noteq> SDP_UINT16 \<or> dtd e \<noteq> SDP_UINT16 \<or> dtd b \<noteq> SDP_UINT16") auto
qed simp_all

lemma profile_in_seq_defined: "wf_data d \<Longrightarrow> SDP_IS_SEQ (dtd d) \<Longrightarrow> \<exists>r. profile_in_seq d = Some r"
proof -
  assume "wf_data d" "SDP_IS_SEQ (dtd d)"
  then obtain ds where ds: "dataseq (val d) = Some ds" "\<forall>e\<in>set ds. wf_data e" using wf_members by blast
  then show ?thesis using wf_is_uuid wf_uint16
    by (cases ds; cases "tl ds") (fastforce simp: profile_in_seq_def)+
qed

lemma profiles_of_defined: "\<forall>d\<in>set ds. wf_data d \<Longrightarrow> \<exists>r. profiles_of ds l = Some r"
proof (induction ds arbitrary: l rule: length_induct)
  case (1 ds)
  show ?case
  proof (cases ds)
    case (Cons d es)
    have d: "wf_data d" and es: "\<forall>e\<in>set es. wf_data e" using 1(2) Cons by simp_all
    have ih: "\<exists>r. profiles_of es' l = Some r" if "length es' < length ds" "\<forall>e\<in>set es'. wf_data e" for es' l
      using 1(1) that by blast
    show ?thesis
    proof (cases "SDP_IS_UUID (dtd d)")
      case True
      then obtain u where u: "as_uuid (val d) = Some u" using wf_is_uuid [OF d] by blast
      show ?thesis
      proof (cases es)
        case Nil
        with Cons True u show ?thesis by simp
      next
        case (Cons e es')
        then have "wf_data e" "\<forall>e\<in>set es'. wf_data e" using es by simp_all
        with ih [of es'] ih [of es] wf_uint16 [of e] Cons \<open>ds = d # es\<close> True u es show ?thesis
          by (cases "dtd e = SDP_UINT16") auto
      qed
    next
      case False
      show ?thesis
      proof (cases "SDP_IS_SEQ (dtd d)")
        case True
        then obtain p where "profile_in_seq d = Some p" using profile_in_seq_defined [OF d] by blast
        with Cons False True ih [of es] es show ?thesis by (cases p) auto
      qed (use Cons False in simp)
    qed
  qed simp
qed

lemma versions_of_defined: "\<forall>d\<in>set ds. wf_data d \<Longrightarrow> \<exists>r. versions_of ds l = Some r"
proof (induction ds arbitrary: l)
  case (Cons d ds)
  with wf_uint16 [of d] show ?case by (cases "dtd d = SDP_UINT16") auto
qed simp

lemma list_result_defined: "\<exists>r. x = Some r \<Longrightarrow> \<exists>r. list_result x = Some r"
  by (auto simp: list_result_def)

definition chains_wf :: "proto_list \<Rightarrow> bool" where
  "chains_wf l \<longleftrightarrow> (\<forall>p\<in>set l. \<forall>ds\<in>set p. \<forall>d\<in>set ds. wf_data d)"

lemma protos_of_defined:
  "\<forall>d\<in>set cs. wf_data d \<Longrightarrow> \<forall>ds\<in>set pds. \<forall>d\<in>set ds. wf_data d \<Longrightarrow>
    \<exists>r. protos_of cs pds = Some r \<and> (\<forall>l. r = Ptr l \<longrightarrow> (\<forall>ds\<in>set l. \<forall>d\<in>set ds. wf_data d))"
proof (induction cs arbitrary: pds)
  case (Cons c cs)
  show ?case
  proof (cases "SDP_IS_SEQ (dtd c)")
    case True
    then obtain ds where ds: "dataseq (val c) = Some ds" "\<forall>d\<in>set ds. wf_data d" using wf_members [of c] Cons.prems by auto
    with Cons.IH [of "sdp_list_append pds ds"] Cons.prems True show ?thesis by (auto simp: sdp_list_append_def)
  qed simp
qed simp

lemma proto_descs_defined:
  "\<forall>d\<in>set pl. wf_data d \<Longrightarrow> chains_wf ap \<Longrightarrow> \<exists>r. proto_descs pl ap = Some r \<and> (\<forall>l. r = Ptr l \<longrightarrow> chains_wf l)"
proof (induction pl arbitrary: ap)
  case (Cons d pl)
  show ?case
  proof (cases "SDP_IS_SEQ (dtd d) \<or> SDP_IS_ALT (dtd d)")
    case True
    then obtain cs where cs: "dataseq (val d) = Some cs" "\<forall>d\<in>set cs. wf_data d" using wf_members [of d] Cons.prems by auto
    obtain r where r: "protos_of cs [] = Some r" "\<forall>l. r = Ptr l \<longrightarrow> (\<forall>ds\<in>set l. \<forall>d\<in>set ds. wf_data d)"
      using protos_of_defined [OF cs(2), of "[]"] by auto
    show ?thesis
    proof (cases r)
      case NULL
      with True cs(1) r(1) show ?thesis by simp
    next
      case (Ptr l)
      then have "chains_wf (sdp_list_append ap l)" using r(2) Cons.prems(2) by (auto simp: chains_wf_def sdp_list_append_def)
      with Cons.IH [OF _ this] Cons.prems True cs(1) r(1) Ptr show ?thesis by simp
    qed
  qed simp
qed simp

lemma proto_descs_attr:
  assumes "rec_ok rec"
  shows "\<exists>r l. sdp_get_proto_descs a rec = Some (r, l) \<and> (r = 0 \<longleftrightarrow> l \<noteq> NULL) \<and> (r < 0 \<longleftrightarrow> l = NULL) \<and>
    (\<forall>ps. l = Ptr ps \<longrightarrow> chains_wf ps)"
proof (cases "sdp_data_get rec a")
  case (Some d)
  then have d: "wf_data d" using data_get_wf [OF assms] by blast
  show ?thesis
  proof (cases "a = 0x000d \<and> \<not> SDP_IS_SEQ (dtd d)")
    case False
    obtain pl where pl: "(if a = 0x000d then dataseq (val d) else Some [d]) = Some pl" "\<forall>d\<in>set pl. wf_data d"
      using wf_members [OF d] False d by (cases "a = 0x000d") auto
    obtain r where r: "proto_descs pl [] = Some r" "\<forall>l. r = Ptr l \<longrightarrow> chains_wf l"
      using proto_descs_defined [OF pl(2), of "[]"] by (auto simp: chains_wf_def)
    have "sdp_get_proto_descs a rec = Some (if r = NULL then - 1 else 0, r)"
      using Some False pl(1) r(1) by (simp add: sdp_get_proto_descs_def)
    with r(2) show ?thesis by (cases r) auto
  qed (use Some in \<open>simp add: sdp_get_proto_descs_def\<close>)
qed (simp add: sdp_get_proto_descs_def)

lemma first_port_defined: "\<forall>x\<in>set xs. \<exists>p. f x = Some p \<Longrightarrow> \<exists>p. first_port f xs = Some p"
  by (induction xs) auto

lemma find_port_defined:
  assumes "\<forall>d\<in>set seq. wf_data d"
  shows "\<exists>p. find_port seq proto = Some p"
proof (cases seq)
  case (Cons d ds)
  show ?thesis
  proof (cases ds)
    case (Cons e es)
    with assms \<open>seq = d # ds\<close> have "wf_data d" "wf_data e" by simp_all
    with wf_is_uuid [of d] wf_uint8 [of e] wf_uint16 [of e] Cons \<open>seq = d # ds\<close> show ?thesis
      by (cases "SDP_IS_UUID (dtd d)") (auto simp: find_port_def)
  qed (simp add: find_port_def Cons)
qed (simp add: find_port_def)

lemma proto_port_defined: "chains_wf l \<Longrightarrow> \<exists>p. sdp_get_proto_port l proto = Some p"
  unfolding sdp_get_proto_port_def chains_wf_def
  by (auto intro!: first_port_defined find_port_defined)

lemma att_seq_defined: "\<forall>ds\<in>set p. \<forall>d\<in>set ds. wf_data d \<Longrightarrow>
    \<exists>r. att_seq_in p = Some r \<and> (\<forall>ds. r = Some ds \<longrightarrow> (\<forall>d\<in>set ds. wf_data d))"
proof (induction p rule: att_seq_in.induct)
  case (3 d ds p)
  then have "wf_data d" by simp
  with 3 wf_uuid [of d] show ?case by (cases "dtd d = SDP_UUID16") auto
qed simp_all

lemma proto_seq_defined: "chains_wf l \<Longrightarrow> \<exists>ds. proto_seq_find l = Some ds \<and> (\<forall>d\<in>set ds. wf_data d)"
proof (induction l)
  case (Cons p l)
  then obtain r where "att_seq_in p = Some r" "\<forall>ds. r = Some ds \<longrightarrow> (\<forall>d\<in>set ds. wf_data d)"
    using att_seq_defined [of p] by (auto simp: chains_wf_def)
  with Cons show ?case by (cases r) (auto simp: chains_wf_def)
qed simp

lemma proto_params_defined:
  assumes "chains_wf l"
  shows "\<exists>r. parse_proto_params l psm start end' = Some r"
proof -
  obtain p where p: "sdp_get_proto_port l L2CAP_UUID = Some p" using proto_port_defined [OF assms] by blast
  obtain ds where ds: "proto_seq_find l = Some ds" "\<forall>d\<in>set ds. wf_data d" using proto_seq_defined [OF assms] by blast
  obtain m where m: "(if psm = NULL then Some NULL
      else do { port \<leftarrow> sdp_get_proto_port l L2CAP_UUID; Some (put psm (word_of_int port)) }) = Some m"
    using p by (cases "psm = NULL") auto
  show ?thesis
  proof (cases ds)
    case (Cons d es)
    show ?thesis
    proof (cases es)
      case (Cons e es')
      then have "wf_data d" "wf_data e" using ds(2) \<open>ds = d # es\<close> by simp_all
      with m ds(1) Cons \<open>ds = d # es\<close> wf_uint16 [of d] wf_uint16 [of e] show ?thesis
        by (cases "dtd d = SDP_UINT16"; cases "dtd e = SDP_UINT16") (auto simp: parse_proto_params_def)
    qed (use m ds(1) Cons in \<open>auto simp: parse_proto_params_def\<close>)
  qed (use m ds(1) in \<open>auto simp: parse_proto_params_def\<close>)
qed

text \<open>
  The getters of lists are defined on every record that keeps the invariant, such as one read from a
  packet.
\<close>

lemma getters_defined:
  assumes "rec_ok rec"
  shows "\<exists>r. sdp_get_uuidseq_attr rec a = Some r" "\<exists>r. sdp_get_lang_attr rec = Some r"
    "\<exists>r. sdp_get_profile_descs rec = Some r" "\<exists>r. sdp_get_server_ver rec = Some r"
    "\<exists>r. sdp_get_proto_descs a rec = Some r"
proof -
  have seq: "\<exists>r. (case sdp_data_get rec b of None \<Rightarrow> Some x
      | Some d \<Rightarrow> if \<not> SDP_IS_SEQ (dtd d) then Some x else do { ds \<leftarrow> dataseq (val d); f ds }) = Some r"
    if "\<And>ds. \<forall>d\<in>set ds. wf_data d \<Longrightarrow> \<exists>r. f ds = Some r" for b x and f :: "sdp_data list \<Rightarrow> 'z option"
  proof (cases "sdp_data_get rec b")
    case (Some d)
    show ?thesis
    proof (cases "SDP_IS_SEQ (dtd d)")
      case True
      then obtain ds where "dataseq (val d) = Some ds" "\<forall>e\<in>set ds. wf_data e"
        using wf_members [OF data_get_wf [OF assms Some]] by blast
      with that [of ds] Some True show ?thesis by simp
    qed (use Some in simp)
  qed simp
  show "\<exists>r. sdp_get_uuidseq_attr rec a = Some r" unfolding sdp_get_uuidseq_attr_def
    by (rule seq, rule list_result_defined, rule uuids_of_defined)
  show "\<exists>r. sdp_get_lang_attr rec = Some r" unfolding sdp_get_lang_attr_def
    by (rule seq, rule list_result_defined, rule langs_of_defined)
  show "\<exists>r. sdp_get_profile_descs rec = Some r" unfolding sdp_get_profile_descs_def
    by (rule seq) (use list_result_defined [OF profiles_of_defined] in auto)
  show "\<exists>r. sdp_get_server_ver rec = Some r" unfolding sdp_get_server_ver_def
    by (rule seq) (use list_result_defined [OF versions_of_defined] in auto)
  show "\<exists>r. sdp_get_proto_descs a rec = Some r" using proto_descs_attr [OF assms] by blast
qed

lemma classes_empty:
  assumes "rec_ok rec" "sdp_get_service_classes rec = Some (r, [])" "0 \<le> r"
  shows "\<exists>d. sdp_data_get rec 0x0001 = Some d \<and> SDP_IS_SEQ (dtd d) \<and> dataseq (val d) = Some []"
proof -
  have grow: "uuids_of ds seq = Some (Ptr l) \<Longrightarrow> length l = length seq + length ds" for ds seq l
    by (induction ds seq rule: uuids_of.induct) (auto simp: option_bind_Some_iff sdp_list_append_def split: if_splits)
  obtain d where d: "sdp_data_get rec 0x0001 = Some d" "SDP_IS_SEQ (dtd d)"
    using assms(2,3) by (auto simp: sdp_get_service_classes_def sdp_get_uuidseq_attr_def split: option.splits if_splits)
  obtain ds where ds: "dataseq (val d) = Some ds" using wf_members [OF data_get_wf [OF assms(1) d(1)]] d(2) by blast
  obtain x where x: "uuids_of ds [] = Some x" "(r, []) = (case x of NULL \<Rightarrow> (- 1, []) | Ptr l \<Rightarrow> (0, l))"
    using assms(2) d ds
    by (auto simp: sdp_get_service_classes_def sdp_get_uuidseq_attr_def list_result_def option_bind_Some_iff)
  then have "x = Ptr []" using assms(3) by (cases x) auto
  with grow x(1) have "ds = []" by fastforce
  with d ds show ?thesis by blast
qed

text \<open>
  C26: What \<open>gatt_parse_record\<close> makes of a record read from any packet is defined, except when the
  record has a list of service classes that is empty: then it copies the UUID from a null pointer.
\<close>

theorem gatt_record_parsed_unless_classless:
  assumes "rec_ok rec"
  shows "gatt_parse_record rec prim_uuid psm start end' = None \<longleftrightarrow>
    (\<exists>d. sdp_data_get rec 0x0001 = Some d \<and> SDP_IS_SEQ (dtd d) \<and> dataseq (val d) = Some [])"
proof -
  obtain r us where c: "sdp_get_service_classes rec = Some (r, us)"
    using getters_defined(1) [OF assms, where a = "0x0001"] unfolding sdp_get_service_classes_def by fastforce
  obtain q l where l: "sdp_get_access_protos rec = Some (q, l)" "q < 0 \<longleftrightarrow> l = NULL" "\<forall>ps. l = Ptr ps \<longrightarrow> chains_wf ps"
    using proto_descs_attr [OF assms, where a = "0x0004"] by (auto simp: sdp_get_access_protos_def)
  have empty: "r = 0 \<and> us = []" if "sdp_data_get rec 0x0001 = Some d" "SDP_IS_SEQ (dtd d)" "dataseq (val d) = Some []" for d
    using c that by (simp add: sdp_get_service_classes_def sdp_get_uuidseq_attr_def list_result_def)
  show ?thesis
  proof (cases "r < 0")
    case True
    with c empty show ?thesis by (auto simp: gatt_parse_record_def)
  next
    case False
    show ?thesis
    proof (cases us)
      case Nil
      with c False classes_empty [OF assms, of r] show ?thesis by (simp add: gatt_parse_record_def)
    next
      case (Cons u us')
      have "\<exists>x. gatt_parse_record rec prim_uuid psm start end' = Some x"
      proof (cases l)
        case NULL
        with c False Cons l show ?thesis by (auto simp: gatt_parse_record_def)
      next
        case (Ptr ps)
        then obtain x where "parse_proto_params ps psm start end' = Some x" using l(3) proto_params_defined by blast
        with c False Cons l Ptr show ?thesis by (cases x) (simp add: gatt_parse_record_def)
      qed
      with empty Cons show ?thesis by auto
    qed
  qed
qed

text \<open>A record read from a packet, of which the packet can be given.\<close>

definition classless :: "sdp_data list" where
  "classless = [set_attrId 0x0001 (seq_of [])]"

lemma gatt_record_parsed_unless_classless_witness:
  "gatt_parse_record (sdp_record_alloc\<lparr>attrlist := classless\<rparr>) NULL NULL NULL NULL = None"
proof -
  have "rec_ok (sdp_record_alloc\<lparr>attrlist := classless\<rparr>)"
    by (simp add: rec_ok_def sdp_record_alloc_def classless_def seq_of_def attrs_ok_def pattern_ok_def SDP_IS_SEQ_def)
  moreover have "sdp_data_get (sdp_record_alloc\<lparr>attrlist := classless\<rparr>) 0x0001 = Some (set_attrId 0x0001 (seq_of []))"
    by (simp add: sdp_data_get_def sdp_list_find_attr classless_def)
  ultimately show ?thesis
    using gatt_record_parsed_unless_classless [of "sdp_record_alloc\<lparr>attrlist := classless\<rparr>" NULL NULL NULL NULL]
    by (simp add: dataseq_def SDP_IS_SEQ_def)
qed

section \<open>The record of a GATT service\<close>

text \<open>The attributes a GATT service has on a classic device: its classes and its protocols.\<close>

definition gatt_classes :: "uuid_t list \<Rightarrow> sdp_data" where
  "gatt_classes us = set_attrId 0x0001 (seq_of (map uuid_elem_of us))"

definition gatt_protocols :: "u16 \<Rightarrow> u16 \<Rightarrow> u16 \<Rightarrow> sdp_data" where
  "gatt_protocols psm s e = set_attrId 0x0004 (seq_of
     [seq_of [uuid_elem_of (sdp_uuid16_create 0x0100), uint16_elem psm],
      seq_of [uuid_elem_of (sdp_uuid16_create 0x0007), uint16_elem s, uint16_elem e]])"

lemma created_uuid [simp]:
  "utype (sdp_uuid16_create w) = SDP_UUID16" "uuid16 (sdp_uuid16_create w) = w"
  "canon_uuid SDP_UUID16 (sdp_uuid16_create w) = sdp_uuid16_create w" "length (uval (sdp_uuid16_create w)) = 16"
  by (simp_all add: sdp_uuid16_create_def uuid16_def canon_uuid_def)

lemma decoded_gatt_protocols:
  "\<exists>n. received (gatt_protocols psm s e) = Sdp_data SDP_SEQ8 0x0004 n (Vseq
     [Sdp_data SDP_SEQ8 0 0 (Vseq [Sdp_data SDP_UUID16 0 0 (Vuuid (sdp_uuid16_create 0x0100)), Sdp_data SDP_UINT16 0 0 (V16 psm)]),
      Sdp_data SDP_SEQ8 0 0 (Vseq [Sdp_data SDP_UUID16 0 0 (Vuuid (sdp_uuid16_create 0x0007)), Sdp_data SDP_UINT16 0 0 (V16 s),
        Sdp_data SDP_UINT16 0 0 (V16 e)])])"
  by (simp add: received_def gatt_protocols_def seq_of_def uuid_elem_of_def uint16_elem_def promoted_def Let_def len_field_def)

lemma proto_created [simp]: "sdp_uuid_to_proto (sdp_uuid16_create w) = uint w"
  by (simp add: sdp_uuid_to_proto_def sdp_uuid128_to_uuid_def)

lemma cmp_created [simp]:
  "sdp_uuid16_cmp (sdp_uuid16_create 0x0007) (sdp_uuid16_create 0x0100) \<noteq> 0" "sdp_uuid16_cmp u u = 0"
  by (simp_all add: sdp_uuid16_create_def sdp_uuid16_cmp_def le_of_def)

lemma created_uuid32 [simp]: "uuid32 (sdp_uuid32_create w) = w"
  by (simp add: sdp_uuid32_create_def uuid32_def)

lemma decoded_uuid_elem: "valid_uuid u \<Longrightarrow> \<exists>n. decoded (uuid_elem_of u) = Sdp_data (utype u) 0 n (Vuuid (canon_uuid (utype u) u))"
  by (auto simp: uuid_elem_of_def promoted_def Let_def len_field_def canon_uuid_def valid_uuid_def SDP_IS_UUID_def)

lemma received_classes: "\<exists>t n. received (gatt_classes us) = Sdp_data t 0x0001 n (Vseq (map (decoded \<circ> uuid_elem_of) us)) \<and> SDP_IS_SEQ t"
  by (simp add: received_def gatt_classes_def seq_of_def promoted_def Let_def SDP_IS_SEQ_def)

lemma uuids_of_decoded:
  "\<forall>u\<in>set us. valid_uuid u \<Longrightarrow>
    uuids_of (map (decoded \<circ> uuid_elem_of) us) seq = Some (Ptr (seq @ map (\<lambda>u. canon_uuid (utype u) u) us))"
proof (induction us arbitrary: seq)
  case (Cons u us)
  then obtain n where "decoded (uuid_elem_of u) = Sdp_data (utype u) 0 n (Vuuid (canon_uuid (utype u) u))"
    using decoded_uuid_elem [of u] Cons.prems by auto
  with Cons show ?case by (auto simp: as_uuid_def sdp_list_append_def valid_uuid_def SDP_IS_UUID_def)
qed simp

lemma received_found:
  assumes "attrlist r = map received ds" "attrs_ok (attrlist r)" "d \<in> set ds"
  shows "sdp_data_get r (attrId d) = Some (received d)"
  using find_attr_sorted [OF assms(2), of "received d"] assms(1,3) by (simp add: sdp_data_get_def sdp_list_find_attr)

text \<open>
  C24: The record of a GATT service, as a server sends it on the wire among any other attributes, is
  read by the client and understood: \<open>gatt_parse_record\<close> gives the UUID of the service, its PSM and its
  first and last handle.
\<close>

theorem gatt_record_from_wire:
  assumes "\<forall>d\<in>set ds. encodable d" "attrs_ok ds" "length (concat (map attr_enc ds)) \<le> 65535"
    "length (concat (map attr_enc ds)) < f" "p = rec_bytes (concat (map attr_enc ds))"
    "gatt_classes us \<in> set ds" "gatt_protocols psm s e \<in> set ds" "us \<noteq> []" "\<forall>u\<in>set us. valid_uuid u"
  shows "\<exists>r. sdp_extract_pdu f addr p (int (length p)) = Some (Ret (r, int (length p))) \<and>
    gatt_parse_record r (Ptr u0) (Ptr x) (Ptr y) (Ptr z) =
      Some (True, Ptr (canon_uuid (utype (hd us)) (hd us)), Ptr psm, Ptr s, Ptr e)"
proof -
  obtain r where r: "sdp_extract_pdu f addr p (int (length p)) = Some (Ret (r, int (length p)))" "rec_ok r"
    "attrlist r = map received ds"
    using extract_pdu_reads [OF assms(1-4), of "int (length p)" "[]" addr] assms(5) by auto
  have srt: "attrs_ok (attrlist r)" using r(2) by (simp add: rec_ok_def)
  have id: "attrId (gatt_classes us) = 0x0001" "attrId (gatt_protocols psm s e) = 0x0004"
    by (simp_all add: gatt_classes_def gatt_protocols_def)
  obtain t n where c: "sdp_data_get r 0x0001 = Some (Sdp_data t 0x0001 n (Vseq (map (decoded \<circ> uuid_elem_of) us)))" "SDP_IS_SEQ t"
    using received_found [OF r(3) srt assms(6)] received_classes [of us] unfolding id by auto
  have classes: "sdp_get_service_classes r = Some (0, map (\<lambda>u. canon_uuid (utype u) u) us)"
    using c uuids_of_decoded [OF assms(9), of "[]"]
    by (simp add: sdp_get_service_classes_def sdp_get_uuidseq_attr_def dataseq_def list_result_def)
  obtain n where d: "sdp_data_get r 0x0004 = Some (Sdp_data SDP_SEQ8 0x0004 n (Vseq
     [Sdp_data SDP_SEQ8 0 0 (Vseq [Sdp_data SDP_UUID16 0 0 (Vuuid (sdp_uuid16_create 0x0100)), Sdp_data SDP_UINT16 0 0 (V16 psm)]),
      Sdp_data SDP_SEQ8 0 0 (Vseq [Sdp_data SDP_UUID16 0 0 (Vuuid (sdp_uuid16_create 0x0007)), Sdp_data SDP_UINT16 0 0 (V16 s),
        Sdp_data SDP_UINT16 0 0 (V16 e)])]))"
    using received_found [OF r(3) srt assms(7)] decoded_gatt_protocols [of psm s e] unfolding id by auto
  define protos where "protos =
     [[[Sdp_data SDP_UUID16 0 0 (Vuuid (sdp_uuid16_create 0x0100)), Sdp_data SDP_UINT16 0 0 (V16 psm)],
       [Sdp_data SDP_UUID16 0 0 (Vuuid (sdp_uuid16_create 0x0007)), Sdp_data SDP_UINT16 0 0 (V16 s), Sdp_data SDP_UINT16 0 0 (V16 e)]]]"
  have ap: "sdp_get_access_protos r = Some (0, Ptr protos)"
    by (simp add: sdp_get_access_protos_def sdp_get_proto_descs_def d SDP_IS_SEQ_def dataseq_def sdp_list_append_def protos_def)
  have port: "sdp_get_proto_port protos L2CAP_UUID = Some (uint psm)"
    by (simp add: sdp_get_proto_port_def protos_def find_port_def SDP_IS_UUID_def as_uuid_def as_uint16_def)
  have params: "parse_proto_params protos (Ptr x) (Ptr y) (Ptr z) = Some (True, Ptr psm, Ptr s, Ptr e)"
    using port by (simp add: parse_proto_params_def put_def) (simp add: protos_def as_uuid_def as_uint16_def put_def)
  have "gatt_parse_record r (Ptr u0) (Ptr x) (Ptr y) (Ptr z) =
      Some (True, Ptr (canon_uuid (utype (hd us)) (hd us)), Ptr psm, Ptr s, Ptr e)"
    using assms(8) by (cases us) (simp_all add: gatt_parse_record_def classes ap params put_def)
  with r(1) show ?thesis by blast
qed

definition battery_service :: "sdp_data list" where
  "battery_service = [gatt_classes [sdp_uuid16_create 0x180F], gatt_protocols 0x001F 0x0010 0x0015]"

lemmas battery_simps = battery_service_def gatt_classes_def gatt_protocols_def attr_enc_def seq_of_def uuid_elem_of_def
  uint16_elem_def promoted_def len_field_def Let_def

lemma battery_length: "length (concat (map attr_enc battery_service)) = 32"
  by (simp add: battery_simps)

lemma gatt_record_from_wire_witness:
  "\<exists>r. sdp_extract_pdu 40 (\<lambda>_. 0) (rec_bytes (concat (map attr_enc battery_service))) (int (length (rec_bytes (concat (map attr_enc battery_service))))) =
      Some (Ret (r, int (length (rec_bytes (concat (map attr_enc battery_service)))))) \<and>
    gatt_parse_record r (Ptr (sdp_uuid16_create 0)) (Ptr 0) (Ptr 0) (Ptr 0) =
      Some (True, Ptr (canon_uuid (utype (hd [sdp_uuid16_create 0x180F])) (hd [sdp_uuid16_create 0x180F])), Ptr 0x001F, Ptr 0x0010, Ptr 0x0015)"
proof (rule gatt_record_from_wire [OF _ _ _ _ refl])
  show "\<forall>d\<in>set battery_service. encodable d"
    by (simp add: battery_simps dtd_groups length_ok_def)
  show "attrs_ok battery_service"
    by (simp add: attrs_ok_def battery_service_def gatt_classes_def gatt_protocols_def)
qed (simp_all add: battery_length, simp_all add: battery_service_def valid_uuid_def SDP_IS_UUID_def)

section \<open>Setting attributes\<close>

text \<open>
  C25: What is set is got: a list of UUIDs under any attribute, and, where a record has none of the
  attributes 0x0006, 0x0009 and 0x000d yet, its languages, its profiles and its additional protocols,
  come back from their getters as they were given (a UUID with the bytes beyond its type cleared), and
  the record keeps its invariant, so its pattern holds the UUIDs.  Languages, profiles and additional
  protocols that are there already are silently kept (see \<open>lists_not_replaced\<close>).
\<close>

theorem attributes_set_and_got:
  assumes "rec_ok rec" "us \<noteq> []" "\<forall>u\<in>set us. valid_uuid u" "ps \<noteq> []" "\<forall>p\<in>set ps. valid_uuid (prof_uuid p)"
    "ap \<noteq> []" "\<forall>ps\<in>set ap. \<forall>p\<in>set ps. proto_ok p"
    "sdp_data_get rec 0x0006 = None" "sdp_data_get rec 0x0009 = None" "sdp_data_get rec 0x000d = None"
  shows "\<exists>r1 r2 r3 r4. sdp_set_uuidseq_attr rec a (map Ptr us) = Some (0, r1) \<and> rec_ok r1 \<and>
      sdp_get_uuidseq_attr r1 a = Some (0, map (\<lambda>u. canon_uuid (utype u) u) us) \<and>
    sdp_set_lang_attr rec (map Ptr ls) = Some (0, r2) \<and> rec_ok r2 \<and> sdp_get_lang_attr r2 = Some (0, ls) \<and>
    sdp_set_profile_descs rec (map Ptr ps) = Some (0, r3) \<and> rec_ok r3 \<and>
      sdp_get_profile_descs r3 = Some (0, map canon_profile ps) \<and>
    sdp_set_add_access_protos rec (map (map proto_elts) ap) = Some (0, r4) \<and> rec_ok r4 \<and>
      sdp_get_add_access_protos r4 = Some (0, Ptr (map (map proto_elems) ap))"
  using set_uuidseq [OF assms(1-3), where a = a] set_langs [OF assms(1,8), where ls = ls]
    set_profiles [OF assms(1,9,4,5)] set_add_protos [OF assms(1,10,6,7)] by blast

lemma data_get_alloc: "sdp_data_get sdp_record_alloc a = None"
  by (simp add: sdp_data_get_def sdp_record_alloc_def)

lemma attributes_set_and_got_witness:
  "\<exists>r1 r2 r3 r4.
    sdp_set_uuidseq_attr sdp_record_alloc 0x0005 (map Ptr [sdp_uuid16_create 0x1002]) = Some (0, r1) \<and> rec_ok r1 \<and>
      sdp_get_uuidseq_attr r1 0x0005 = Some (0, map (\<lambda>u. canon_uuid (utype u) u) [sdp_uuid16_create 0x1002]) \<and>
    sdp_set_lang_attr sdp_record_alloc (map Ptr [\<lparr>code_ISO639 = 0x656E, encoding = 106, base_offset = 0x0100\<rparr>]) = Some (0, r2) \<and>
      rec_ok r2 \<and> sdp_get_lang_attr r2 = Some (0, [\<lparr>code_ISO639 = 0x656E, encoding = 106, base_offset = 0x0100\<rparr>]) \<and>
    sdp_set_profile_descs sdp_record_alloc (map Ptr [\<lparr>prof_uuid = sdp_uuid16_create 0x1101, prof_version = 0x0102\<rparr>]) = Some (0, r3) \<and>
      rec_ok r3 \<and> sdp_get_profile_descs r3 =
        Some (0, map canon_profile [\<lparr>prof_uuid = sdp_uuid16_create 0x1101, prof_version = 0x0102\<rparr>]) \<and>
    sdp_set_add_access_protos sdp_record_alloc (map (map proto_elts) [[(sdp_uuid16_create 0x0100, [0x001B]), (sdp_uuid16_create 0x0017, [0x0103])]]) =
        Some (0, r4) \<and>
      rec_ok r4 \<and> sdp_get_add_access_protos r4 =
        Some (0, Ptr (map (map proto_elems) [[(sdp_uuid16_create 0x0100, [0x001B]), (sdp_uuid16_create 0x0017, [0x0103])]]))"
  by (rule attributes_set_and_got)
    (simp_all add: valid_uuid_def SDP_IS_UUID_def data_get_alloc proto_ok_def)

text \<open>
  Languages and profiles that a record already has stay as they are, and the caller is told that they
  were set.
\<close>

theorem lists_not_replaced:
  assumes "sdp_data_get rec 0x0006 = Some d" "sdp_data_get rec 0x0009 = Some e" "\<forall>p\<in>set ps. valid_uuid (prof_uuid p)"
  shows "sdp_set_lang_attr rec (map Ptr ls) = Some (0, rec) \<and>
    (\<exists>rec'. sdp_set_profile_descs rec (map Ptr ps) = Some (0, rec') \<and> attrlist rec' = attrlist rec)"
proof
  have "sdp_seq_alloc (concat (map lang_args ls)) = Some (Ptr (seq_of (concat (map lang_elems ls))))"
    by (rule seq_alloc [OF makes_langs])
  then show "sdp_set_lang_attr rec (map Ptr ls) = Some (0, rec)"
    using assms(1) by (simp add: sdp_set_lang_attr_def sdp_attr_add_def)
  have "sdp_seq_alloc (map (\<lambda>p. (SDP_SEQ8, Chain [profile_elem p])) ps) = Some (Ptr (seq_of (map profile_elem ps)))"
    by (rule seq_alloc, rule makes_map) (simp add: makes_def)
  then show "\<exists>rec'. sdp_set_profile_descs rec (map Ptr ps) = Some (0, rec') \<and> attrlist rec' = attrlist rec"
    using assms(2) profile_args_made [OF assms(3), of rec "[]"]
    by (simp add: sdp_set_profile_descs_def sdp_attr_add_def)
qed

lemma strlen_no_nul: "0 \<notin> set s \<Longrightarrow> c_strlen s = None"
  by (induction s) auto

lemma strlen_nul: "0 \<notin> set s \<Longrightarrow> c_strlen (s @ [0]) = Some (of_nat (length s))"
  by (induction s) (auto simp: add.commute)

text \<open>
  A text that is set cannot be got: \<open>sdp_data_alloc\<close> keeps as many bytes as \<open>strlen\<close> counts, without
  the NUL, and \<open>sdp_get_string_attr\<close> looks for a NUL beyond them.
\<close>

theorem set_text_overread:
  assumes "rec_ok rec" "0 \<notin> set s" "length s \<le> 65535"
  shows "\<exists>rec'. sdp_set_info_attr rec (Ptr (s @ [0])) NULL NULL = Some rec' \<and> sdp_get_string_attr rec' 0x0100 value n = None"
proof -
  let ?d = "Sdp_data SDP_TEXT_STR8 0 (1 + sint (of_nat (length s) :: u32)) (Vstr s)"
  have len: "unat (of_nat (length s) :: u32) = length s" using assms(3) by (simp add: unat_of_nat)
  have le: "(of_nat (length s) :: u32) \<le> 65535" using assms(3) len by (simp add: word_le_nat_alt)
  have si: "sint (of_nat (length s) :: u32) = int (length s)"
    using assms(3) by (simp add: sint_uint signed_take_bit_int_eq_self take_bit_nat_eq_self unat_of_nat uint_nat)
  have d: "sdp_data_alloc SDP_TEXT_STR8 (Mem (s @ [0])) = Some (Ptr ?d)"
    using len le by (simp add: sdp_data_alloc_def strlen_nul [OF assms(2)] mem_of_def sdp_data_alloc_with_length_def dtd_groups rd_def)
  have wf: "wf_data ?d" using si by (simp add: SDP_IS_TEXT_STR_def)
  obtain rec' where r: "sdp_attr_replace rec 0x0100 ?d = Some rec'" using attr_replace_defined [OF wf] by blast
  have "sdp_data_get rec' 0x0100 = Some (set_attrId 0x0100 ?d)" using data_get_replace [OF r] assms(1) by (simp add: rec_ok_def)
  then have "sdp_get_string_attr rec' 0x0100 value n = None"
    by (simp add: sdp_get_string_attr_def SDP_IS_TEXT_STR_def val_str_def strlen_no_nul [OF assms(2)])
  with d r show ?thesis by (simp add: sdp_set_info_attr_def set_text_def sdp_attr_add_new_def)
qed

text \<open>A negative number of eight or sixteen bits is read as a positive one.\<close>

lemma int_attr_not_extended:
  assumes "sdp_data_get rec a = Some (Sdp_data SDP_INT8 b n (V8 w))"
  shows "sdp_get_int_attr addr rec a = (0, Ptr (uint w))"
proof -
  have "sint (ucast w :: u32) = signed_take_bit 31 (uint w)"
    using uint_lt2p [of w] by (simp add: sint_uint unsigned_ucast_eq take_bit_int_eq_self)
  also have "\<dots> = uint w"
  proof (rule signed_take_bit_int_eq_self)
    have "- (2 ^ 31) \<le> (0 :: int)" by simp
    then show "- (2 ^ 31) \<le> uint w" by (rule order_trans) simp
    show "uint w < 2 ^ 31" using uint_lt2p [of w] by simp
  qed
  finally have "sint (ucast w :: u32) = uint w" .
  moreover have "of_le (replicate 3 (0 :: u8)) = (0 :: u32)" by (simp add: numeral_3_eq_3)
  ultimately show ?thesis using assms by (simp add: sdp_get_int_attr_def val_uint32_def val_image_def)
qed

text \<open>Two features before one of an unexpected kind: freed memory is used.\<close>

lemma features_freed_twice:
  assumes "sdp_data_get rec 0x0200 = Some (seq_of (f1 # f2 # bad # ds))" "\<not> SDP_IS_SEQ (dtd bad)" "f1 = seq_of []" "f2 = seq_of []"
  shows "sdp_get_supp_feat rec = None"
  using assms by (simp add: sdp_get_supp_feat_def SDP_IS_SEQ_def dataseq_def sdp_list_append_def)

text \<open>
  A UUID among the features that are set comes out as its own type: the setter gives the pointer to the
  union, where the value lies four bytes further.
\<close>

lemma feature_uuid_garbled:
  "feats_args addr [[uuid_elem_of (sdp_uuid16_create w)]] [] =
    Some (Ptr [(SDP_SEQ8, Chain [seq_of [uuid_elem_of (sdp_uuid16_create 0x0019)]])])"
  by (simp add: feat_arg_def dtd_groups val_image_def sdp_seq_alloc_with_length_def sdp_data_alloc_def
      sdp_data_alloc_with_length_def mem_of_def get_le16_def rd_def chain_of_def seq_of_def seq_header_def uuid_elem_of_def)

end
