(* ===== verification/SdpCopy.thy ===== *)
theory SdpCopy
  imports SdpAttrs SdpRecord
begin

text \<open>
  Copying a record: without texts and URLs the copy has the same encoding, attribute by attribute; a
  text loses its terminator, and one inside a sequence gains a byte.
\<close>

section \<open>Elements\<close>

fun textless :: "sdp_data \<Rightarrow> bool" where
  "textless (Sdp_data t a n v) = (case v of Vstr _ \<Rightarrow> False | Vseq ds \<Rightarrow> (\<forall>d\<in>set ds. textless d) | _ \<Rightarrow> True)"

definition same_elem :: "sdp_data \<Rightarrow> sdp_data \<Rightarrow> bool" where
  "same_elem d d' \<longleftrightarrow> enc d' = enc d \<and> wf_data d' \<and>
     sdp_uuid_to_uuid128 ` set (uuids_data d') = sdp_uuid_to_uuid128 ` set (uuids_data d)"

definition copies :: "sdp_data \<Rightarrow> bool" where
  "copies d \<longleftrightarrow> (\<exists>src. sdp_data_value d = Some (src, 0) \<and>
     (\<forall>len. \<exists>d'. sdp_data_alloc_with_length (dtd d) src len = Some (Ptr d') \<and> same_elem d d'))"

lemma copy_chain_same:
  "\<forall>d\<in>set ds. copies d \<Longrightarrow> cur \<or> seq = [] \<Longrightarrow>
    \<exists>ds'. copy_chain ds cur seq = Some (seq @ ds') \<and> list_all2 same_elem ds ds'"
proof (induction ds arbitrary: cur seq)
  case (Cons d ds)
  obtain src d' where d: "sdp_data_value d = Some (src, 0)" "same_elem d d'"
    "sdp_data_alloc_with_length (dtd d) src (word_of_int (unitSize d)) = Some (Ptr d')"
    using Cons.prems(1) unfolding copies_def by (metis list.set_intros(1))
  obtain ds' where "copy_chain ds True (seq @ [d']) = Some ((seq @ [d']) @ ds')" "list_all2 same_elem ds ds'"
    using Cons.IH [of True "seq @ [d']"] Cons.prems(1) by auto
  with d Cons.prems(2) show ?case by (intro exI [of _ "d' # ds'"]) auto
qed simp

lemma same_elems:
  assumes "list_all2 same_elem ds ds'"
  shows "map enc ds' = map enc ds" "\<forall>d\<in>set ds'. wf_data d"
    "sdp_uuid_to_uuid128 ` set (concat (map uuids_data ds')) = sdp_uuid_to_uuid128 ` set (concat (map uuids_data ds))"
  using assms by (induction ds ds' rule: list_all2_induct) (simp_all add: same_elem_def image_Un)

lemma size_member: "d \<in> set ds \<Longrightarrow> size d < size (Sdp_data t a n (Vseq ds))"
  by (induction ds) auto

lemma wf_copies: "wf_data d \<Longrightarrow> textless d \<Longrightarrow> copies d"
proof (induction d rule: measure_induct_rule [of size])
  case (less d)
  obtain t a n v where d: "d = Sdp_data t a n v" by (cases d)
  show ?case
  proof (cases v)
    case Zeroed
    with less.prems(1) d show ?thesis
      by (auto simp: copies_def dtd_groups sdp_data_alloc_with_length_def same_elem_def)
  next
    case (V8 w)
    with less.prems(1) d have t: "t = SDP_UINT8 \<or> t = SDP_INT8 \<or> t = SDP_BOOL" by (simp add: is_int8_def)
    then show ?thesis unfolding d V8
      by (elim disjE) (simp_all add: copies_def dtd_groups member_mem_def sdp_data_alloc_with_length_def mem_of_def rd8_def same_elem_def)
  next
    case (V16 w)
    with less.prems(1) d have t: "t = SDP_UINT16 \<or> t = SDP_INT16" by (simp add: is_int16_def)
    then show ?thesis unfolding d V16
      by (elim disjE) (simp_all add: copies_def dtd_groups member_mem_def sdp_data_alloc_with_length_def mem_of_def get_le16_def rd_def same_elem_def)
  next
    case (V32 w)
    with less.prems(1) d have t: "t = SDP_UINT32 \<or> t = SDP_INT32" by (simp add: is_int32_def)
    then show ?thesis unfolding d V32
      by (elim disjE) (simp_all add: copies_def dtd_groups member_mem_def sdp_data_alloc_with_length_def mem_of_def get_le32_def rd_def same_elem_def)
  next
    case (V64 w)
    with less.prems(1) d have t: "t = SDP_UINT64 \<or> t = SDP_INT64" by (simp add: is_int64_def)
    then show ?thesis unfolding d V64
      by (elim disjE) (simp_all add: copies_def dtd_groups member_mem_def sdp_data_alloc_with_length_def mem_of_def get_le64_def rd_def same_elem_def)
  next
    case (V128 bs)
    with less.prems(1) d have t: "t = SDP_UINT128 \<or> t = SDP_INT128" "length bs = 16" by (simp_all add: is_int128_def)
    then show ?thesis unfolding d V128
      by (elim disjE) (simp_all add: copies_def dtd_groups member_mem_def sdp_data_alloc_with_length_def mem_of_def rd_def same_elem_def)
  next
    case (Vuuid u)
    with less.prems(1) d have v: "valid_uuid u" "utype u = t" by (simp_all add: valid_uuid_def)
    have m: "sdp_data_value d = Some (Mem (uval u), 0)"
      using v unfolding d Vuuid by (auto simp: valid_uuid_def SDP_IS_UUID_def member_mem_def)
    have al: "sdp_data_alloc_with_length t (Mem (uval u)) len = Some (Ptr (uuid_elem_of u))" for len
      using v by (auto simp: valid_uuid_def uuid_elem_of_def SDP_IS_UUID_def sdp_data_alloc_with_length_def dtd_groups mem_of_def
          canon_uuid_def uuid16_def uuid32_def get_le16_def get_le32_def rd_def sdp_uuid128_create_def)
    have "same_elem d (uuid_elem_of u)"
      unfolding same_elem_def using uuid_elem_wf [OF v(1)] canon_valid [OF v(1)] v
      by (auto simp: d Vuuid uuid_elem_of_def valid_uuid_def SDP_IS_UUID_def canon_uuid_def
          sdp_uuid16_create_def sdp_uuid32_create_def uuid16_def uuid32_def)
    with m al show ?thesis by (auto simp: copies_def d)
  next
    case (Vstr s)
    with less.prems(2) d show ?thesis by simp
  next
    case (Vseq ds)
    with less.prems(1) d have t: "SDP_IS_SEQ t \<or> SDP_IS_ALT t" "\<forall>e\<in>set ds. wf_data e" by simp_all
    have "\<forall>e\<in>set ds. copies e"
      using less.IH t(2) less.prems(2) size_member unfolding d Vseq by fastforce
    then obtain ds' where ds': "copy_chain ds False [] = Some ds'" "list_all2 same_elem ds ds'"
      using copy_chain_same [of ds False "[]"] by auto
    have m: "sdp_data_value d = Some (Chain ds', 0)"
      using t(1) ds'(1) unfolding d Vseq by (auto simp: dtd_groups)
    have al: "\<exists>k. sdp_data_alloc_with_length t (Chain ds') len = Some (Ptr (Sdp_data t 0 k (Vseq ds')))" for len
      using t(1) by (auto simp: sdp_data_alloc_with_length_def dtd_groups chain_of_def)
    have "same_elem d (Sdp_data t 0 k (Vseq ds'))" for k
      using same_elems [OF ds'(2)] t(1) unfolding same_elem_def d Vseq by simp
    with m al show ?thesis unfolding copies_def d by (metis sdp_data.sel(1))
  qed
qed

section \<open>Records\<close>

lemma textless_not_text: "wf_data d \<Longrightarrow> textless d \<Longrightarrow> \<not> SDP_IS_TEXT_STR (dtd d) \<and> \<not> is_url_str (dtd d)"
  by (cases d; cases "val d") (auto simp: dtd_groups)

lemma same_elem_attr [simp]: "same_elem d (set_attrId a d') = same_elem d d'"
  by (cases d') (simp add: same_elem_def)

lemma copy_attr:
  assumes "rec_ok cpy" "wf_data d" "textless d" "\<forall>e\<in>set (attrlist cpy). attrId e < attrId d"
    "sdp_uuid_to_uuid128 ` set (uuids_data d) \<subseteq> set (pattern cpy)"
  shows "\<exists>cpy' d'. sdp_copy_attrlist d cpy = Some cpy' \<and> rec_ok cpy' \<and> pattern cpy' = pattern cpy \<and> handle cpy' = handle cpy \<and>
    attrlist cpy' = attrlist cpy @ [d'] \<and> same_elem d d' \<and> attrId d' = attrId d"
proof -
  obtain src d' where d': "sdp_data_value d = Some (src, 0)" "sdp_data_alloc_with_length (dtd d) src 0 = Some (Ptr d')" "same_elem d d'"
    using wf_copies [OF assms(2,3)] unfolding copies_def by blast
  have "sdp_data_alloc (dtd d) src = Some (Ptr d')"
    using textless_not_text [OF assms(2,3)] d'(2) by (auto simp: sdp_data_alloc_def dtd_groups)
  moreover have wf: "wf_data d'" "sdp_uuid_to_uuid128 ` set (uuids_data d') \<subseteq> set (pattern cpy)"
    using d'(3) assms(5) by (simp_all add: same_elem_def)
  moreover obtain r where r: "sdp_attr_replace cpy (attrId d) d' = Some r" "pattern r = pattern cpy" "handle r = handle cpy"
    using attr_replace_defined [OF wf(1), of cpy "attrId d"] by blast
  ultimately have c: "sdp_copy_attrlist d cpy = Some r"
    using d'(1) by (simp add: sdp_copy_attrlist_def sdp_attr_add_new_def)
  have srt: "attrs_ok (attrlist cpy)" using assms(1) by (simp add: rec_ok_def)
  have "filter (\<lambda>e. attrId e \<noteq> attrId d) (attrlist cpy) = attrlist cpy" using assms(4) by (auto simp: filter_id_conv)
  then have "attrlist r = attrlist cpy @ [set_attrId (attrId d) d']"
    using replace_attrlist [OF r(1) srt] insert_attr_last [OF srt, of "set_attrId (attrId d) d'"] assms(4) by simp
  moreover have "rec_ok r" using rec_ok_replace [OF assms(1) wf r(1)] .
  ultimately show ?thesis using c r(2,3) d'(3) by (intro exI [of _ r] exI [of _ "set_attrId (attrId d) d'"]) simp
qed

lemma copy_attrs_same:
  assumes "rec_ok cpy" "\<forall>d\<in>set ds. wf_data d \<and> textless d" "attrs_ok ds"
    "\<forall>d\<in>set ds. \<forall>e\<in>set (attrlist cpy). attrId e < attrId d"
    "\<forall>d\<in>set ds. sdp_uuid_to_uuid128 ` set (uuids_data d) \<subseteq> set (pattern cpy)"
  shows "\<exists>cpy' ds'. copy_attrs ds cpy = Some cpy' \<and> rec_ok cpy' \<and> pattern cpy' = pattern cpy \<and> handle cpy' = handle cpy \<and>
    attrlist cpy' = attrlist cpy @ ds' \<and> list_all2 same_elem ds ds' \<and> map attrId ds' = map attrId ds"
  using assms
proof (induction ds arbitrary: cpy)
  case (Cons d ds)
  obtain c d' where c: "sdp_copy_attrlist d cpy = Some c" "rec_ok c" "pattern c = pattern cpy" "handle c = handle cpy"
    "attrlist c = attrlist cpy @ [d']" "same_elem d d'" "attrId d' = attrId d"
    using copy_attr [OF Cons.prems(1), of d] Cons.prems(2,4,5) by auto
  have "\<forall>x\<in>set ds. \<forall>e\<in>set (attrlist c). attrId e < attrId x"
    using Cons.prems(3,4) c(5,7) by (auto simp: attrs_ok_def)
  moreover have "attrs_ok ds" using Cons.prems(3) by (simp add: attrs_ok_def)
  moreover have "\<forall>x\<in>set ds. sdp_uuid_to_uuid128 ` set (uuids_data x) \<subseteq> set (pattern c)" using Cons.prems(5) c(3) by simp
  ultimately obtain cpy' ds' where "copy_attrs ds c = Some cpy'" "rec_ok cpy'" "pattern cpy' = pattern c" "handle cpy' = handle c"
    "attrlist cpy' = attrlist c @ ds'" "list_all2 same_elem ds ds'" "map attrId ds' = map attrId ds"
    using Cons.IH [OF c(2)] Cons.prems(2) by auto
  with c show ?case by (intro exI [of _ cpy'] exI [of _ "d' # ds'"]) simp
qed auto

text \<open>
  The copy of a record without texts and URLs is the record: the same identifiers in the same
  order with elements of the same encoding, the same handle and service class, and the same UUIDs in
  its pattern.
\<close>

theorem record_copied:
  assumes "rec_ok rec" "\<forall>d\<in>set (attrlist rec). textless d"
  shows "\<exists>cpy. sdp_copy_record rec = Some cpy \<and> rec_ok cpy \<and> handle cpy = handle rec \<and> svclass cpy = svclass rec \<and>
    set (pattern cpy) = set (pattern rec) \<and> map attrId (attrlist cpy) = map attrId (attrlist rec) \<and>
    map enc (attrlist cpy) = map enc (attrlist rec)"
proof -
  let ?r = "sdp_record_alloc\<lparr>handle := handle rec\<rparr>"
  let ?c = "foldl sdp_pattern_add_uuid ?r (pattern rec)"
  have p: "pattern_ok (pattern rec)" "attrs_ok (attrlist rec)" using assms(1) by (simp_all add: rec_ok_def)
  have "\<forall>u\<in>set (pattern rec). uuid128 u" using p(1) by (simp add: pattern_ok_def)
  then have u: "\<forall>u\<in>set (pattern rec). valid_uuid u" "sdp_uuid_to_uuid128 ` set (pattern rec) = set (pattern rec)"
    by (auto simp: uuid128_def valid_uuid_def SDP_IS_UUID_def sdp_uuid_to_uuid128_def image_iff)
  have r: "rec_ok ?r" "pattern ?r = []" by (simp_all add: rec_ok_def sdp_record_alloc_def pattern_ok_def)
  have c: "rec_ok ?c" "set (pattern ?c) = set (pattern rec)"
    using rec_ok_patterns(1) [OF r(1) u(1)] pattern_adds [of ?r "pattern rec"] r u by (simp_all add: pattern_ok_def)
  have "attrlist ?c = []" by (simp add: sdp_record_alloc_def)
  then obtain cpy ds' where d: "copy_attrs (attrlist rec) ?c = Some cpy" "rec_ok cpy" "pattern cpy = pattern ?c" "handle cpy = handle ?c"
    "attrlist cpy = ds'" "list_all2 same_elem (attrlist rec) ds'" "map attrId ds' = map attrId (attrlist rec)"
    using copy_attrs_same [OF c(1) _ p(2)] assms c(2) by (auto simp: rec_ok_def)
  have "sdp_copy_record rec = Some (cpy\<lparr>svclass := svclass rec\<rparr>)"
    using d(1) by (simp add: sdp_copy_record_def uuidseq_foldl)
  with c(2) d same_elems(1) [OF d(6)] show ?thesis by simp
qed

section \<open>Texts\<close>

text \<open>
  \<open>sdp_copy_seq\<close> takes \<open>unitSize\<close>, which counts the descriptor, for the length of a text, and so reads one
  byte more than a text has that was set; a text that was read from a packet has its NUL there, and
  the copy is a byte longer than the text.
\<close>

lemma copied_text_overread:
  assumes "length s < 65535"
  shows "sdp_data_value (seq_of [Sdp_data SDP_TEXT_STR8 0 (1 + int (length s)) (Vstr s)]) = None"
proof -
  have "unat (1 + word_of_nat (length s) :: u32) = length s + 1"
    using assms by (simp add: unat_word_ariths unat_of_nat)
  moreover from this have "(1 + word_of_nat (length s) :: u32) \<le> 65535" using assms by (simp add: word_le_nat_alt)
  ultimately show ?thesis
    by (simp add: seq_of_def dtd_groups val_str_def sdp_data_alloc_with_length_def mem_of_def rd_def)
qed

end
