(* ===== verification/SdpClient.thy ===== *)
theory SdpClient
  imports SdpReq
begin

text \<open>
  The other requests of the client (\<open>lib/sdp.c\<close>): the search for handles, the attributes of one
  service, the registration of records with the local server, and the asynchronous requests with
  \<open>sdp_process\<close>.  The server and the socket are a script, as for the combined request; \<open>errno\<close> is a
  parameter.
\<close>

section \<open>The attributes of a service\<close>

definition start_attr_request ::
    "(nat \<Rightarrow> u8) \<Rightarrow> bool \<Rightarrow> buf \<Rightarrow> u32 \<Rightarrow> bool \<Rightarrow> buf list \<Rightarrow> (int + (buf \<times> nat)) option" where
  "start_attr_request junk late req hdl ranges attrids = do {
     req \<leftarrow> wr8 req 0 0x04;
     req \<leftarrow> put_be32 hdl req 5;
     req \<leftarrow> put_be16 65535 req 9;
     (xs, seqlen) \<leftarrow> gen_attridseq_pdu junk late attrids (if ranges then SDP_UINT32 else SDP_UINT16);
     req \<leftarrow> wr req 11 xs;
     if seqlen = - 1 then Some (Inl (- 1))
     else if 11 + seqlen < 0 then None
     else Some (Inr (req, nat (11 + seqlen))) }"

text \<open>
  The loop is that of the combined request, up to the order of steps that do not depend on each
  other; every status that ends it makes the result the null pointer.
\<close>

definition sdp_service_attr_req ::
    "nat \<Rightarrow> (nat \<Rightarrow> u8) \<Rightarrow> bool \<Rightarrow> (sdp_val \<Rightarrow> u32) \<Rightarrow> buf \<Rightarrow> buf \<Rightarrow> u16 \<Rightarrow> peer list \<Rightarrow>
       u32 \<Rightarrow> bool \<Rightarrow> buf list \<Rightarrow> sdp_record ptr run option" where
  "sdp_service_attr_req f junk late addr reqmem rspmem tid xs hdl ranges attrids = do {
     r \<leftarrow> start_attr_request junk late reqmem hdl ranges attrids;
     case r of
       Inl _ \<Rightarrow> Some (Ret NULL)
     | Inr (req, reqsize0) \<Rightarrow> do {
         r \<leftarrow> exchange_loop reqsize0 xs
           \<lparr>reqbuf = req, rspbuf = rspmem, rspsize = 0, attr_list_len = 0, cstate = None,
            concat_buf = [], session_tid = tid, sent = []\<rparr>;
         case r of
           Inl _ \<Rightarrow> Some (Ret NULL)
         | Inr s \<Rightarrow>
             if attr_list_len s \<le> 0 then Some (Ret NULL)
             else run_bind
               (if concat_buf s \<noteq> []
                then sdp_extract_pdu f addr (concat_buf s) (sint (of_nat (length (concat_buf s)) :: u32))
                else sdp_extract_pdu f addr (drop 7 (rspbuf s)) (sint (rspsize s - 7)))
               (\<lambda>(rec, _). Some (Ret (Ptr rec))) } }"

section \<open>The handles of the services of a class\<close>

definition start_search :: "(nat \<Rightarrow> u8) \<Rightarrow> bool \<Rightarrow> buf \<Rightarrow> uuid_t list \<Rightarrow> u16 \<Rightarrow> (int + (buf \<times> nat)) option" where
  "start_search junk late req search max_rec_num = do {
     req \<leftarrow> wr8 req 0 0x02;
     (xs, seqlen) \<leftarrow> gen_searchseq_pdu junk late search;
     req \<leftarrow> wr req 5 xs;
     if seqlen < 0 then Some (Inl (- 1))
     else do {
       req \<leftarrow> put_be16 max_rec_num req (5 + nat seqlen);
       Some (Inr (req, 5 + nat seqlen + 2)) } }"

text \<open>
  A response: the handles it adds to the list, and the status of the exit or the state at the loop
  condition.  The continuation state is looked for only if the length in the header leaves room for
  one; otherwise that of the response before stays.
\<close>

definition take_handles :: "req_state \<Rightarrow> u32 list \<Rightarrow> ((int + req_state) \<times> u32 list) option" where
  "take_handles s hs = do {
     rsplen \<leftarrow> get_be16 (rspbuf s) 3;
     pdu_id \<leftarrow> rd8 (rspbuf s) 0;
     if pdu_id = 0x01 then Some (Inl (- 1), hs)
     else if rspsize s - 5 < 4 then Some (Inl (- 1), hs)
     else do {
       rec_count \<leftarrow> get_be16 (rspbuf s) 7;
       if rec_count = 0 then Some (Inl (- 1), hs)
       else do {
         (hs, scanned) \<leftarrow> extract_record_handle_seq (unat rec_count) (drop 9 (rspbuf s)) (sint (rspsize s - 9)) hs 4;
         if scanned < ucast rsplen then
           if rspsize s < 5 + scanned + 1 then Some (Inl (- 1), hs)
           else do {
             cstate_len \<leftarrow> rd8 (rspbuf s) (5 + unat scanned);
             Some (Inr (s\<lparr>cstate := if 0 < cstate_len then Some (5 + unat scanned) else None\<rparr>), hs) }
         else Some (Inr s, hs) } } }"

definition search_step :: "nat \<Rightarrow> exchange \<Rightarrow> req_state \<Rightarrow> u32 list \<Rightarrow> ((int + req_state) \<times> u32 list) option" where
  "search_step reqsize0 x s hs = do {
     (s, reqsize) \<leftarrow> send_request reqsize0 s;
     (status, r, n) \<leftarrow> sdp_send_req_w4_rsp x (reqbuf s) (rspbuf s) reqsize (rspsize s);
     let s = s\<lparr>rspbuf := r, rspsize := n\<rparr>;
     if status < 0 then Some (Inl status, hs)
     else if n < 5 then Some (Inl (- 1), hs)
     else take_handles s hs }"

fun search_loop :: "nat \<Rightarrow> exchange list \<Rightarrow> req_state \<Rightarrow> u32 list \<Rightarrow> ((int + req_state) \<times> u32 list) option" where
  "search_loop reqsize0 [] s hs = Some (Inl (- 1), hs)"
| "search_loop reqsize0 (x # xs) s hs = do {
     (r, hs) \<leftarrow> search_step reqsize0 x s hs;
     case r of
       Inl status \<Rightarrow> Some (Inl status, hs)
     | Inr s \<Rightarrow> if cstate s \<noteq> None then search_loop reqsize0 xs s hs else Some (Inr s, hs) }"

text \<open>Status and list of handles, which on a failure is what was read before it.\<close>

definition sdp_service_search_req ::
    "(nat \<Rightarrow> u8) \<Rightarrow> bool \<Rightarrow> buf \<Rightarrow> buf \<Rightarrow> u16 \<Rightarrow> exchange list \<Rightarrow> uuid_t list \<Rightarrow> u16 \<Rightarrow> (int \<times> u32 list) option" where
  "sdp_service_search_req junk late reqmem rspmem tid xs search max_rec_num = do {
     r \<leftarrow> start_search junk late reqmem search max_rec_num;
     case r of
       Inl status \<Rightarrow> Some (status, [])
     | Inr (req, reqsize0) \<Rightarrow> do {
         (r, hs) \<leftarrow> search_loop reqsize0 xs
           \<lparr>reqbuf = req, rspbuf = rspmem, rspsize = 0, attr_list_len = 0, cstate = None,
            concat_buf = [], session_tid = tid, sent = []\<rparr> [];
         Some (case r of Inl status \<Rightarrow> status | Inr _ \<Rightarrow> 0, hs) } }"

section \<open>Registration\<close>

text \<open>
  The session with the local server: whether it is local, and the next transaction identifier.  The
  results carry the session and the request that was sent, for which \<open>exchange_sent\<close> is
  \<open>sdp_send_req_w4_rsp\<close> on a request of \<open>n\<close> bytes with its length filled in.
\<close>

record local_session =
  is_local :: bool
  tid_of :: u16

definition exchange_sent :: "exchange \<Rightarrow> buf \<Rightarrow> buf \<Rightarrow> nat \<Rightarrow> (int \<times> buf \<times> u32 \<times> buf) option" where
  "exchange_sent x req rsp n = do {
     req \<leftarrow> put_be16 (of_nat (n - 5)) req 3;
     out \<leftarrow> rd req 0 n;
     (status, rsp, size) \<leftarrow> sdp_send_req_w4_rsp x req rsp (of_nat n) 0;
     Some (status, rsp, size, out) }"

abbreviation BDADDR_ANY :: buf where "BDADDR_ANY \<equiv> replicate 6 0"

text \<open>The bytes are copied behind the header whatever their number.\<close>

definition sdp_device_record_register_binary ::
    "buf \<Rightarrow> buf \<Rightarrow> exchange \<Rightarrow> local_session \<Rightarrow> buf \<Rightarrow> buf \<Rightarrow> u8 \<Rightarrow> (int \<times> u32 option \<times> local_session \<times> buf list) option" where
  "sdp_device_record_register_binary reqmem rspmem x session device data flags =
     (if \<not> is_local session then Some (- 1, None, session, [])
      else do {
        req \<leftarrow> wr8 reqmem 0 0x75;
        req \<leftarrow> put_be16 (tid_of session) req 1;
        let session = session\<lparr>tid_of := tid_of session + 1\<rparr>;
        (req, p) \<leftarrow> (if device \<noteq> BDADDR_ANY
                    then do { req \<leftarrow> wr8 req 5 (flags OR 0x02); req \<leftarrow> wr req 6 device; Some (req, 12) }
                    else do { req \<leftarrow> wr8 req 5 flags; Some (req, 6) });
        req \<leftarrow> wr req p data;
        (status, rsp, rspsize, out) \<leftarrow> exchange_sent x req rspmem (p + length data);
        if status < 0 then Some (status, None, session, [out])
        else if rspsize < 5 then Some (- 1, None, session, [out])
        else do {
          pdu_id \<leftarrow> rd8 rsp 0;
          if pdu_id \<noteq> 0x76 then Some (- 1, None, session, [out])
          else if rspsize < 9 then Some (- 1, None, session, [out])
          else do { h \<leftarrow> get_be32 rsp 5; Some (status, Some h, session, [out]) } } })"

definition set_record_handle :: "sdp_record \<Rightarrow> u32 \<Rightarrow> sdp_record option" where
  "set_record_handle rec h = do {
     d \<leftarrow> sdp_data_alloc SDP_UINT32 (Mem (le_of 4 h));
     d \<leftarrow> deref d;
     sdp_attr_replace rec 0x0000 d }"

definition sdp_device_record_register ::
    "(nat \<Rightarrow> u8) \<Rightarrow> bool \<Rightarrow> buf \<Rightarrow> buf \<Rightarrow> exchange \<Rightarrow> local_session \<Rightarrow> buf \<Rightarrow> sdp_record \<Rightarrow> u8 \<Rightarrow>
       (int \<times> sdp_record \<times> local_session \<times> buf list) option" where
  "sdp_device_record_register junk late reqmem rspmem x session device rec flags = do {
     rec \<leftarrow> (if handle rec \<noteq> 0 \<and> handle rec \<noteq> 0xFFFFFFFF then set_record_handle rec (handle rec) else Some rec);
     (rec, pdu) \<leftarrow> sdp_gen_record_pdu junk late rec;
     data \<leftarrow> rd (sdata pdu) 0 (unat (data_size pdu));
     (err, h, session, out) \<leftarrow> sdp_device_record_register_binary reqmem rspmem x session device data flags;
     rec \<leftarrow> (if err = 0 then do { h \<leftarrow> h; set_record_handle (rec\<lparr>handle := h\<rparr>) h } else Some rec);
     Some (err, rec, session, out) }"

definition sdp_record_register ::
    "(nat \<Rightarrow> u8) \<Rightarrow> bool \<Rightarrow> buf \<Rightarrow> buf \<Rightarrow> exchange \<Rightarrow> local_session \<Rightarrow> sdp_record \<Rightarrow> u8 \<Rightarrow>
       (int \<times> sdp_record \<times> local_session \<times> buf list) option" where
  "sdp_record_register junk late reqmem rspmem x session rec flags =
     sdp_device_record_register junk late reqmem rspmem x session BDADDR_ANY rec flags"

text \<open>The status in the response to the two other requests is taken as it lies in memory.\<close>

definition status_response :: "u8 \<Rightarrow> exchange \<Rightarrow> buf \<Rightarrow> buf \<Rightarrow> nat \<Rightarrow> (int \<times> buf list) option" where
  "status_response pid x req rspmem n = do {
     (status, rsp, rspsize, out) \<leftarrow> exchange_sent x req rspmem n;
     if status < 0 then Some (status, [out])
     else if rspsize < 7 then Some (- 1, [out])
     else do {
       pdu_id \<leftarrow> rd8 rsp 0;
       if pdu_id \<noteq> pid then Some (- 1, [out])
       else do { tmp \<leftarrow> get_le16 rsp 5; Some (uint tmp, [out]) } } }"

definition sdp_device_record_unregister_binary ::
    "buf \<Rightarrow> buf \<Rightarrow> exchange \<Rightarrow> local_session \<Rightarrow> u32 \<Rightarrow> (int \<times> local_session \<times> buf list) option" where
  "sdp_device_record_unregister_binary reqmem rspmem x session hdl =
     (if hdl = 0 then Some (- 1, session, [])
      else if \<not> is_local session then Some (- 1, session, [])
      else do {
        req \<leftarrow> wr8 reqmem 0 0x79;
        req \<leftarrow> put_be16 (tid_of session) req 1;
        req \<leftarrow> put_be32 hdl req 5;
        (status, out) \<leftarrow> status_response 0x80 x req rspmem 9;
        Some (status, session\<lparr>tid_of := tid_of session + 1\<rparr>, out) })"

text \<open>The record is freed on success, and then the null pointer here.\<close>

definition sdp_device_record_unregister ::
    "buf \<Rightarrow> buf \<Rightarrow> exchange \<Rightarrow> local_session \<Rightarrow> sdp_record \<Rightarrow> (int \<times> sdp_record ptr \<times> local_session \<times> buf list) option" where
  "sdp_device_record_unregister reqmem rspmem x session rec = do {
     (err, session, out) \<leftarrow> sdp_device_record_unregister_binary reqmem rspmem x session (handle rec);
     Some (err, if err = 0 then NULL else Ptr rec, session, out) }"

definition sdp_record_unregister ::
    "buf \<Rightarrow> buf \<Rightarrow> exchange \<Rightarrow> local_session \<Rightarrow> sdp_record \<Rightarrow> (int \<times> sdp_record ptr \<times> local_session \<times> buf list) option" where
  "sdp_record_unregister reqmem rspmem x session rec = sdp_device_record_unregister reqmem rspmem x session rec"

definition sdp_device_record_update_binary :: "local_session \<Rightarrow> u32 \<Rightarrow> buf \<Rightarrow> int" where
  "sdp_device_record_update_binary session hdl data = - 1"

definition sdp_device_record_update ::
    "(nat \<Rightarrow> u8) \<Rightarrow> bool \<Rightarrow> buf \<Rightarrow> buf \<Rightarrow> exchange \<Rightarrow> local_session \<Rightarrow> sdp_record \<Rightarrow>
       (int \<times> sdp_record \<times> local_session \<times> buf list) option" where
  "sdp_device_record_update junk late reqmem rspmem x session rec =
     (if handle rec = 0 then Some (- 1, rec, session, [])
      else if \<not> is_local session then Some (- 1, rec, session, [])
      else do {
        req \<leftarrow> wr8 reqmem 0 0x77;
        req \<leftarrow> put_be16 (tid_of session) req 1;
        req \<leftarrow> put_be32 (handle rec) req 5;
        (rec, pdu) \<leftarrow> sdp_gen_record_pdu junk late rec;
        data \<leftarrow> rd (sdata pdu) 0 (unat (data_size pdu));
        req \<leftarrow> wr req 9 data;
        (status, out) \<leftarrow> status_response 0x78 x req rspmem (9 + length data);
        Some (status, rec, session\<lparr>tid_of := tid_of session + 1\<rparr>, out) })"

definition sdp_record_update ::
    "(nat \<Rightarrow> u8) \<Rightarrow> bool \<Rightarrow> buf \<Rightarrow> buf \<Rightarrow> exchange \<Rightarrow> local_session \<Rightarrow> sdp_record \<Rightarrow>
       (int \<times> sdp_record \<times> local_session \<times> buf list) option" where
  "sdp_record_update junk late reqmem rspmem x session rec = sdp_device_record_update junk late reqmem rspmem x session rec"

end
