(* ===== verification/SdpClientProps.thy ===== *)
theory SdpClientProps
  imports SdpSearch SdpClient SdpSet
begin

text \<open>
  The other requests against a server that conforms, and where they go wrong.
\<close>

section \<open>The attributes of a service\<close>

definition be32 :: "u32 \<Rightarrow> buf" where
  "be32 v = rev (le_of 4 v)"

lemma length_be32 [simp]: "length (be32 v) = 4"
  by (simp add: be32_def)

lemma be32_split: "\<exists>w x y z. be32 v = [w, x, y, z]"
  by (simp add: be32_def numeral_eq_Suc)

definition attr_body :: "u32 \<Rightarrow> buf" where
  "attr_body h = be32 h @ [0xFF, 0xFF, 0x35, 5, 0x0A, 0, 0, 0xFF, 0xFF]"

lemma length_attr_body [simp]: "length (attr_body h) = 13"
  by (simp add: attr_body_def)

lemma start_attr_request_spec:
  assumes "length req = 2048"
  shows "\<exists>r. start_attr_request junk late req h True [le_of 4 (0x0000FFFF :: u32)] = Some (Inr (r, 18)) \<and>
    req_of 0x04 (attr_body h) r"
proof -
  have "length (take 5 req) = 5" using assms by simp
  then obtain a b c d e where t: "take 5 req = [a, b, c, d, e]" using list_of_five by metis
  define rest where "rest = drop 5 req"
  have req: "req = a # b # c # d # e # rest"
    using t append_take_drop_id [of 5 req] by (simp add: rest_def)
  have lr: "length rest = 2043" using assms by (simp add: rest_def)
  obtain w x y z where h: "be32 h = [w, x, y, z]" using be32_split by blast
  have f: "rev (le_of 2 (0xFFFF :: u16)) = [0xFF, 0xFF]" by (simp add: le_ffff)
  show ?thesis
    unfolding start_attr_request_def if_True attridseq_pdu req
    using lr by (simp add: wr8_def wr_def put_be16_def put_be32_def be32_def [symmetric] h f req_of_def attr_body_def)
qed

lemma length_service: "service_ok ds \<Longrightarrow> length (service_bytes ds) \<le> 65540"
  by (simp add: service_ok_def service_bytes_def rec_bytes_def length_rec_header)

lemma service_read:
  assumes "service_ok ds" "length (service_bytes ds) < f" "unat n = length (service_bytes ds) + k" "k \<le> length q"
    "length q < 2 ^ 17"
  shows "\<exists>r. sdp_extract_pdu f addr (service_bytes ds @ q) (sint (n :: u32)) = Some (Ret (r, int (length (service_bytes ds)))) \<and>
    rec_ok r \<and> attrlist r = map received ds"
proof -
  have "sint n = int (unat n)" using assms(3-5) length_service [OF assms(1)] by (intro sint_small) simp
  with extract_pdu_reads [of ds f "sint n" q addr] assms show ?thesis
    by (simp add: service_ok_def service_bytes_def rec_bytes_def)
qed

text \<open>
  A request for the attributes of a service returns the record of that service: however the
  answer is split, its attributes are those the server sent, in order, and it satisfies the invariant.
\<close>

theorem attr_req_returns_record:
  assumes "length reqm = 2048" "length rspm = 65535" "chunks_ok xs" "concat (map fst xs) = service_bytes ds"
    "service_ok ds" "length (service_bytes ds) < f"
  shows "\<exists>r. sdp_service_attr_req f junk late addr reqm rspm tid (serve_of 0x04 plen tid 13 [] xs) h True
      [le_of 4 (0x0000FFFF :: u32)] = Some (Ret (Ptr r)) \<and> attrlist r = map received ds \<and> rec_ok r"
proof -
  obtain req where r: "start_attr_request junk late reqm h True [le_of 4 (0x0000FFFF :: u32)] = Some (Inr (req, 18))"
    "req_of 0x04 (attr_body h) req"
    using start_attr_request_spec [OF assms(1)] by blast
  let ?s = "\<lparr>reqbuf = req, rspbuf = rspm, rspsize = 0, attr_list_len = 0, cstate = None,
            concat_buf = [], session_tid = tid, sent = []\<rparr>"
  let ?a = "service_bytes ds"
  have "cstate_is ?s []" by (simp add: cstate_is_def)
  moreover have "answers 0x04 plen tid (attr_body h) [] xs (serve_of 0x04 plen tid 13 [] xs)"
    by (rule serve_answers) simp
  ultimately obtain s where
    s: "exchange_loop 18 (serve_of 0x04 plen tid 13 [] xs) ?s = Some (Inr s)"
      "attr_list_len s = int (length ?a)" "length (rspbuf s) = 65535"
    and c: "concat_buf s = ?a \<or> concat_buf s = [] \<and>
       (\<exists>u. take (8 + length ?a) (rspbuf s) = response_of 0x04 plen u ?a []) \<and> rspsize s = of_nat (8 + length ?a)"
    using exchange_loop_of [of xs "attr_body h" "0x04" ?s "[]" plen "serve_of 0x04 plen tid 13 [] xs"] assms r(2) by auto
  have pos: "\<not> attr_list_len s \<le> 0" using s(2) by simp
  have n: "unat (of_nat (length ?a) :: u32) = length ?a"
    using length_service [OF assms(5)] by (simp add: unat_of_nat)
  have "\<exists>r. (if concat_buf s \<noteq> [] then sdp_extract_pdu f addr (concat_buf s) (sint (of_nat (length (concat_buf s)) :: u32))
      else sdp_extract_pdu f addr (drop 7 (rspbuf s)) (sint (rspsize s - 7))) = Some (Ret (r, int (length ?a))) \<and>
      rec_ok r \<and> attrlist r = map received ds"
    using c
  proof (elim disjE conjE exE)
    assume "concat_buf s = ?a"
    with service_read [OF assms(5,6), of "of_nat (length ?a)" 0 "[]" addr] n show ?thesis by simp
  next
    fix u assume a: "take (8 + length ?a) (rspbuf s) = response_of 0x04 plen u ?a []"
      "concat_buf s = []" "rspsize s = of_nat (8 + length ?a)"
    define junk where "junk = drop (8 + length ?a) (rspbuf s)"
    have "rspbuf s = response_of 0x04 plen u ?a [] @ junk"
      using a(1) append_take_drop_id [of "8 + length ?a" "rspbuf s"] by (simp add: junk_def)
    then have "drop 7 (rspbuf s) = ?a @ 0 # junk" by (simp add: response_of_def)
    moreover have "length junk < 65535" using s(3) by (simp add: junk_def)
    moreover have "unat (rspsize s - 7) = length ?a + 1"
      using length_service [OF assms(5)] by (simp add: a(3) unat_word_ariths unat_sub word_le_nat_alt)
    ultimately show ?thesis
      using service_read [OF assms(5,6), of "rspsize s - 7" 1 "0 # junk" addr] a(2) by simp
  qed
  with r(1) s(1) pos show ?thesis by (auto simp: sdp_service_attr_req_def)
qed

section \<open>The handles of the services of a class\<close>

text \<open>
  A server that hands the handles out in pieces: \<open>tsrc\<close> is the number of all of them, which the
  client does not look at.
\<close>

definition handles_response :: "u16 \<Rightarrow> u16 \<Rightarrow> u32 list \<Rightarrow> buf \<Rightarrow> buf" where
  "handles_response tsrc tid hs c =
     0x03 # be16 tid @ be16 (of_nat (5 + 4 * length hs + length c)) @ be16 tsrc @ be16 (of_nat (length hs)) @
       concat (map be32 hs) @ of_nat (length c) # c"

fun serve_handles :: "u16 \<Rightarrow> u16 \<Rightarrow> nat \<Rightarrow> buf \<Rightarrow> (u32 list \<times> buf) list \<Rightarrow> exchange list" where
  "serve_handles tsrc tid n c [] = []"
| "serve_handles tsrc tid n c ((hs, d) # xs) =
     ([int (6 + n + length c)], Received (handles_response tsrc tid hs d)) # serve_handles tsrc (tid + 1) n d xs"

fun pieces_ok :: "(u32 list \<times> buf) list \<Rightarrow> bool" where
  "pieces_ok [] = False"
| "pieces_ok [(hs, c)] = (hs \<noteq> [] \<and> c = [] \<and> length hs \<le> 16000)"
| "pieces_ok ((hs, c) # xs) = (hs \<noteq> [] \<and> c \<noteq> [] \<and> length c \<le> 16 \<and> length hs \<le> 16000 \<and> pieces_ok xs)"

lemma length_handles [simp]: "length (concat (map be32 hs)) = 4 * length hs"
  by (induction hs) simp_all

lemma get_be32_mid: "get_be32 (be32 h @ q) 0 = Some h"
  by (simp add: get_be32_def be32_def rd_def)

lemma handle_seq_reads:
  "int (4 * length hs) \<le> b \<Longrightarrow> extract_record_handle_seq (length hs) (concat (map be32 hs) @ q) b acc sc =
    Some (acc @ hs, sc + of_nat (4 * length hs))"
  by (induction hs arbitrary: b acc sc) (simp_all add: get_be32_mid adv_def sdp_list_append_def)

lemma cstate_mid:
  assumes "rspbuf s = pre @ of_nat (length d) # d @ junk" "cstate s = (if d \<noteq> [] then Some (length pre) else None)"
    "length d \<le> 16"
  shows "cstate_is s d"
  using assms drop_past [of pre 1 "of_nat (length d) # d @ junk"]
  by (cases "d = []") (simp_all add: cstate_is_def nth_append)

lemma take_handles_spec:
  assumes "rspbuf s = handles_response tsrc tid hs c @ junk" "rspsize s = of_nat (10 + 4 * length hs + length c)"
    "hs \<noteq> []" "length hs \<le> 16000" "length c \<le> 16"
  shows "take_handles s acc = Some (Inr (s\<lparr>cstate := (if c \<noteq> [] then Some (9 + 4 * length hs) else None)\<rparr>), acc @ hs)"
proof -
  let ?k = "length hs"
  define plen where "plen = (of_nat (5 + 4 * ?k + length c) :: u16)"
  obtain x y a b v w where xy: "be16 tid = [x, y]" "be16 plen = [a, b]" "be16 tsrc = [v, w]" using be16_split by metis
  have r: "rspbuf s = 0x03 # x # y # a # b # v # w # be16 (of_nat ?k) @ concat (map be32 hs) @ of_nat (length c) # c @ junk"
    unfolding assms(1) handles_response_def plen_def [symmetric] by (simp add: xy)
  have pl: "get_be16 (rspbuf s) 3 = Some plen"
  proof -
    have "rd (rspbuf s) 3 2 = Some (be16 plen)" by (simp add: r rd_def xy(2))
    then show ?thesis by (simp add: get_be16_def)
  qed
  have id: "rd8 (rspbuf s) 0 = Some 0x03" by (simp add: r rd8_def)
  have cnt: "get_be16 (rspbuf s) 7 = Some (of_nat ?k)" by (simp add: r get_be16_def rd_def be16_def)
  have k: "unat (of_nat ?k :: u16) = ?k" "(of_nat ?k :: u16) \<noteq> 0"
    using assms(3,4) by (auto simp: unat_of_nat unat_eq_zero [symmetric])
  have up: "unat plen = 5 + 4 * ?k + length c" using assms(4,5) by (simp add: plen_def unat_of_nat del: of_nat_add)
  have us: "unat (rspsize s) = 10 + 4 * ?k + length c" using assms(2,4,5) by (simp add: unat_of_nat del: of_nat_add)
  have big: "\<not> rspsize s - 5 < 4" using us by (simp add: word_less_nat_alt unat_sub word_le_nat_alt)
  have u9: "unat (rspsize s - 9) = 1 + 4 * ?k + length c" using us by (simp add: unat_sub word_le_nat_alt)
  have s9: "sint (rspsize s - 9) = int (1 + 4 * ?k + length c)"
    using sint_small [of "rspsize s - 9"] u9 assms(4,5) by simp
  have sc: "unat (4 + of_nat (4 * ?k) :: u32) = 4 + 4 * ?k" using assms(4) by (simp add: unat_word_ariths unat_of_nat)
  have ex: "extract_record_handle_seq ?k (drop 9 (rspbuf s)) (sint (rspsize s - 9)) acc 4 = Some (acc @ hs, 4 + of_nat (4 * ?k))"
    using handle_seq_reads [of hs "sint (rspsize s - 9)" "of_nat (length c) # c @ junk" acc 4] s9 by (simp add: r)
  have lt: "(4 + of_nat (4 * ?k) :: u32) < ucast plen" using sc up by (simp add: word_less_nat_alt unat_ucast_up)
  have fit: "\<not> rspsize s < 5 + (4 + of_nat (4 * ?k)) + 1"
  proof -
    have "unat (5 + (4 + of_nat (4 * ?k)) + 1 :: u32) = 10 + 4 * ?k" using assms(4) by (simp add: unat_word_ariths unat_of_nat)
    then show ?thesis using us by (simp add: word_less_nat_alt)
  qed
  have cl: "rd8 (rspbuf s) (5 + (4 + 4 * ?k)) = Some (of_nat (length c))" by (simp add: r rd8_def nth_append)
  have nz: "(0 < (of_nat (length c) :: u8)) = (c \<noteq> [])"
  proof -
    have "unat (of_nat (length c) :: u8) = length c" using assms(5) by (simp add: unat_of_nat)
    then show ?thesis by (simp add: word_less_nat_alt)
  qed
  show ?thesis
    unfolding take_handles_def pl id cnt bind.bind_lunit k(1) ex if_not_P [OF k(2)] if_not_P [OF big] prod.case
      if_P [OF lt] if_not_P [OF fit] sc cl nz by simp
qed

end
