(* ===== verification/SdpHandles.thy ===== *)
theory SdpHandles
  imports SdpClientProps SdpAttrs SdpProps
begin

text \<open>
  The search for handles against a server that hands them out in pieces, and the registration of a
  record with the local server.
\<close>

section \<open>The search for handles\<close>

text \<open>A request is sent and the response lies at the start of the buffer: the rest of the step.\<close>

lemma search_step_takes:
  assumes "req_of 0x02 body (reqbuf s)" "cstate_is s c" "length body \<le> 1000" "length (rspbuf s) = 65535"
    "length hs \<le> 16000" "length d \<le> 16"
  shows "\<exists>s' junk. search_step (5 + length body)
      ([int (6 + length body + length c)], Received (handles_response tsrc (session_tid s) hs d)) s acc = take_handles s' acc \<and>
    req_of 0x02 body (reqbuf s') \<and> rspbuf s' = handles_response tsrc (session_tid s) hs d @ junk \<and>
    length (rspbuf s') = 65535 \<and> rspsize s' = of_nat (10 + 4 * length hs + length d) \<and>
    session_tid s' = session_tid s + 1 \<and> sent s' = sent s @ [request_of 0x02 (session_tid s) body c]"
proof -
  let ?t = "session_tid s" and ?R = "handles_response tsrc (session_tid s) hs d"
  obtain r where r: "send_request (5 + length body) s =
      Some (s\<lparr>reqbuf := r, session_tid := ?t + 1, sent := sent s @ [request_of 0x02 ?t body c]\<rparr>,
            of_nat (6 + length body + length c))" "req_of 0x02 body r" "rd r 1 2 = Some (be16 ?t)"
    using send_request_spec [OF assms(1-3)] by blast
  let ?n = "10 + 4 * length hs + length d"
  have lr: "length ?R = ?n" by (simp add: handles_response_def)
  define junk where "junk = drop ?n (rspbuf s)"
  have rsp: "sdp_read_rsp (Received ?R) (rspbuf s) = (int ?n, ?R @ junk)"
    using assms(4-6) lr by (simp add: sdp_read_rsp_def Let_def junk_def)
  have tid: "rd (?R @ junk) 1 2 = Some (be16 ?t)" by (simp add: handles_response_def rd_def)
  have u: "uint (of_nat (6 + length body + length c) :: u32) = int (6 + length body + length c)"
    using assms(2,3) by (simp add: cstate_is_def uint_nat del: of_nat_add)
  have w: "sdp_send_req_w4_rsp ([int (6 + length body + length c)], Received ?R) r (rspbuf s)
      (of_nat (6 + length body + length c)) n = Some (0, ?R @ junk, of_nat ?n)" for n
    unfolding sdp_send_req_w4_rsp_def fst_conv snd_conv u rsp using r(3) tid by simp
  have n5: "\<not> (of_nat ?n :: u32) < 5"
    using assms(5,6) by (simp add: word_less_nat_alt unat_of_nat del: of_nat_add)
  let ?s = "s\<lparr>reqbuf := r, session_tid := ?t + 1, sent := sent s @ [request_of 0x02 ?t body c],
              rspbuf := ?R @ junk, rspsize := of_nat ?n\<rparr>"
  have "search_step (5 + length body) ([int (6 + length body + length c)], Received ?R) s acc = take_handles ?s acc"
    using r(1) w n5 by (simp add: search_step_def Let_def del: of_nat_add)
  moreover have "length (?R @ junk) = 65535" using assms(4-6) lr by (simp add: junk_def)
  ultimately show ?thesis using r(2) by (intro exI [of _ ?s] exI [of _ junk]) simp
qed

lemma search_step_spec:
  assumes "req_of 0x02 body (reqbuf s)" "cstate_is s c" "length body \<le> 1000" "length (rspbuf s) = 65535"
    "hs \<noteq> []" "length hs \<le> 16000" "length d \<le> 16"
  shows "\<exists>s'. search_step (5 + length body)
      ([int (6 + length body + length c)], Received (handles_response tsrc (session_tid s) hs d)) s acc = Some (Inr s', acc @ hs) \<and>
    req_of 0x02 body (reqbuf s') \<and> length (rspbuf s') = 65535 \<and> session_tid s' = session_tid s + 1 \<and>
    sent s' = sent s @ [request_of 0x02 (session_tid s) body c] \<and> cstate_is s' d \<and> (cstate s' = None \<longleftrightarrow> d = [])"
proof -
  obtain s1 junk where s1: "search_step (5 + length body)
      ([int (6 + length body + length c)], Received (handles_response tsrc (session_tid s) hs d)) s acc = take_handles s1 acc"
    "req_of 0x02 body (reqbuf s1)" "rspbuf s1 = handles_response tsrc (session_tid s) hs d @ junk"
    "length (rspbuf s1) = 65535" "rspsize s1 = of_nat (10 + 4 * length hs + length d)"
    "session_tid s1 = session_tid s + 1" "sent s1 = sent s @ [request_of 0x02 (session_tid s) body c]"
    using search_step_takes [OF assms(1-4,6,7)] by blast
  let ?s = "s1\<lparr>cstate := (if d \<noteq> [] then Some (9 + 4 * length hs) else None)\<rparr>"
  have "take_handles s1 acc = Some (Inr ?s, acc @ hs)" by (rule take_handles_spec [OF s1(3,5) assms(5-7)])
  moreover have "cstate_is ?s d"
  proof (rule cstate_mid)
    show "rspbuf ?s = (0x03 # be16 (session_tid s) @ be16 (of_nat (5 + 4 * length hs + length d)) @ be16 tsrc @
        be16 (of_nat (length hs)) @ concat (map be32 hs)) @ of_nat (length d) # d @ junk"
      by (simp add: s1(3) handles_response_def)
  qed (simp_all add: assms(7))
  ultimately show ?thesis using s1 by (intro exI [of _ ?s]) simp
qed

lemma search_loop_spec:
  assumes "pieces_ok xs" "req_of 0x02 body (reqbuf s)" "cstate_is s c" "length body \<le> 1000" "length (rspbuf s) = 65535"
  shows "\<exists>s'. search_loop (5 + length body) (serve_handles tsrc (session_tid s) (length body) c xs) s acc =
      Some (Inr s', acc @ concat (map fst xs)) \<and>
    sent s' = sent s @ requests_of 0x02 (session_tid s) body c (map (\<lambda>(hs, d). ([], d)) xs)"
  using assms
proof (induction xs arbitrary: s c acc rule: pieces_ok.induct)
  case (2 hs d)
  then have "hs \<noteq> []" "length hs \<le> 16000" "length d \<le> 16" by simp_all
  with search_step_spec [OF 2(2-5), of hs d tsrc acc] 2(1) show ?case by (auto simp del: of_nat_add)
next
  case (3 hs d x xs)
  then have ok: "hs \<noteq> []" "length hs \<le> 16000" "length d \<le> 16" "d \<noteq> []" "pieces_ok (x # xs)" by simp_all
  obtain s1 where s1: "search_step (5 + length body)
      ([int (6 + length body + length c)], Received (handles_response tsrc (session_tid s) hs d)) s acc = Some (Inr s1, acc @ hs)"
    "req_of 0x02 body (reqbuf s1)" "length (rspbuf s1) = 65535" "session_tid s1 = session_tid s + 1"
    "sent s1 = sent s @ [request_of 0x02 (session_tid s) body c]" "cstate_is s1 d" "cstate s1 \<noteq> None"
    using search_step_spec [OF 3(3-6) ok(1-3), of tsrc acc] ok(4) by blast
  obtain s2 where "search_loop (5 + length body) (serve_handles tsrc (session_tid s1) (length body) d (x # xs)) s1 (acc @ hs) =
      Some (Inr s2, (acc @ hs) @ concat (map fst (x # xs)))"
    "sent s2 = sent s1 @ requests_of 0x02 (session_tid s1) body d (map (\<lambda>(hs, d). ([], d)) (x # xs))"
    using 3(1) [OF ok(5) s1(2,6) 3(5) s1(3), of "acc @ hs"] by blast
  with s1 show ?case by (auto simp del: of_nat_add)
qed simp

definition search_body :: "u16 \<Rightarrow> u16 \<Rightarrow> buf" where
  "search_body g n = [0x35, 3, 0x19] @ be16 g @ be16 n"

lemma start_search_spec:
  assumes "length req = 2048"
  shows "\<exists>r. start_search junk late req [sdp_uuid16_create g] n = Some (Inr (r, 12)) \<and> req_of 0x02 (search_body g n) r"
proof -
  have "length (take 5 req) = 5" using assms by simp
  then obtain a b c d e where t: "take 5 req = [a, b, c, d, e]" using list_of_five by metis
  define rest where "rest = drop 5 req"
  have req: "req = a # b # c # d # e # rest"
    using t append_take_drop_id [of 5 req] by (simp add: rest_def)
  have lr: "length rest = 2043" using assms by (simp add: rest_def)
  obtain x y where g: "be16 g = [x, y]" using be16_split by blast
  obtain v w where n: "be16 n = [v, w]" using be16_split by blast
  show ?thesis
    unfolding start_search_def searchseq_pdu req g
    using lr by (simp add: wr8_def wr_def put_be16_def be16_def [symmetric] n g req_of_def search_body_def)
qed

text \<open>
  A search for a service class returns the handles of all services of the server, in order, however
  they are spread over its responses.
\<close>

theorem search_req_returns_handles:
  assumes "length reqm = 2048" "length rspm = 65535" "pieces_ok xs"
  shows "sdp_service_search_req junk late reqm rspm tid (serve_handles tsrc tid 7 [] xs) [sdp_uuid16_create g] n =
    Some (0, concat (map fst xs))"
proof -
  obtain req where r: "start_search junk late reqm [sdp_uuid16_create g] n = Some (Inr (req, 12))"
    "req_of 0x02 (search_body g n) req"
    using start_search_spec [OF assms(1)] by blast
  let ?s = "\<lparr>reqbuf = req, rspbuf = rspm, rspsize = 0, attr_list_len = 0, cstate = None,
            concat_buf = [], session_tid = tid, sent = []\<rparr>"
  have "cstate_is ?s []" by (simp add: cstate_is_def)
  with search_loop_spec [OF assms(3), of "search_body g n" ?s "[]" tsrc "[]"] assms(2) r(2)
  show ?thesis using r(1) by (auto simp: sdp_service_search_req_def search_body_def)
qed

text \<open>No service of the class is a failure, and not an empty list.\<close>

theorem no_handles_is_failure:
  assumes "length reqm = 2048" "length rspm = 65535"
  shows "sdp_service_search_req junk late reqm rspm tid (([int 13], Received (handles_response 0 tid [] [])) # xs)
      [sdp_uuid16_create g] n = Some (- 1, [])"
proof -
  obtain req where r: "start_search junk late reqm [sdp_uuid16_create g] n = Some (Inr (req, 12))"
    "req_of 0x02 (search_body g n) req"
    using start_search_spec [OF assms(1)] by blast
  let ?s = "\<lparr>reqbuf = req, rspbuf = rspm, rspsize = 0, attr_list_len = 0, cstate = None,
            concat_buf = [], session_tid = tid, sent = []\<rparr>"
  have "cstate_is ?s []" by (simp add: cstate_is_def)
  with search_step_takes [of "search_body g n" ?s "[]" "[]" "[]" 0 "[]"] r(2) assms(2)
  obtain s junk where s: "search_step 12 ([int 13], Received (handles_response 0 tid [] [])) ?s [] = take_handles s []"
    "rspbuf s = handles_response 0 tid [] [] @ junk" "rspsize s = 10"
    by (auto simp: search_body_def)
  obtain x y where xy: "be16 tid = [x, y]" using be16_split by blast
  have z: "be16 0 = [0, 0]" "be16 5 = [0, 5]" by code_simp+
  have "take_handles s [] = Some (Inl (- 1), [])"
    using s(2,3) by (simp add: take_handles_def handles_response_def xy z get_be16_def rd_def rd8_def of_le_def)
  with r(1) s(1) show ?thesis by (simp add: sdp_service_search_req_def)
qed

section \<open>Registration\<close>

definition register_request :: "u16 \<Rightarrow> u8 \<Rightarrow> buf \<Rightarrow> buf" where
  "register_request tid flags data = 0x75 # be16 tid @ be16 (of_nat (1 + length data)) @ flags # data"

definition register_response :: "u16 \<Rightarrow> u32 \<Rightarrow> buf" where
  "register_response tid h = 0x76 # be16 tid @ be16 4 @ be32 h"

text \<open>The request of \<open>sdp_record_register\<close> in a buffer of 2048 bytes: it has to fit.\<close>

lemma register_binary_writes:
  assumes "length reqm = 2048" "is_local session"
  shows "sdp_device_record_register_binary reqm rspm x session BDADDR_ANY data flags =
    (if length data \<le> 2042 then
       (do {
          (status, rsp, rspsize, out) \<leftarrow> exchange_sent x
            (0x75 # be16 (tid_of session) @ take 2 (drop 3 reqm) @ flags # data @ drop (6 + length data) reqm) rspm (6 + length data);
          let session = session\<lparr>tid_of := tid_of session + 1\<rparr>;
          if status < 0 then Some (status, None, session, [out])
          else if rspsize < 5 then Some (- 1, None, session, [out])
          else do {
            pdu_id \<leftarrow> rd8 rsp 0;
            if pdu_id \<noteq> 0x76 then Some (- 1, None, session, [out])
            else if rspsize < 9 then Some (- 1, None, session, [out])
            else do { h \<leftarrow> get_be32 rsp 5; Some (status, Some h, session, [out]) } } })
     else None)"
proof -
  have "length (take 5 reqm) = 5" using assms by simp
  then obtain a b c d e where t: "take 5 reqm = [a, b, c, d, e]" using list_of_five by metis
  obtain f rest where "drop 5 reqm = f # rest" using assms by (cases "drop 5 reqm") auto
  then have req: "reqm = a # b # c # d # e # f # rest"
    using t append_take_drop_id [of 5 reqm] by simp
  have lr: "length rest = 2042" using assms(1) by (simp add: req)
  obtain v w where n: "be16 (tid_of session) = [v, w]" using be16_split by blast
  have dr: "drop (6 + k) (p1 # p2 # p3 # p4 # p5 # p6 # q) = drop k q" for k p1 p2 p3 p4 p5 p6 and q :: buf
    using drop_drop [of k 6 "p1 # p2 # p3 # p4 # p5 # p6 # q"] by (simp add: add.commute)
  show ?thesis
    unfolding sdp_device_record_register_binary_def req using lr assms(2)
    by (simp add: wr8_def wr_def put_be16_def be16_def [symmetric] n dr Let_def)
qed

lemma register_exchange:
  assumes "length data \<le> 2042" "length rspm = 65535" "length req = 2048"
    "req = 0x75 # be16 tid @ p1 # p2 # flags # data @ junk"
  shows "\<exists>rsp. exchange_sent ([int (6 + length data)], Received (register_response tid h)) req rspm (6 + length data) =
    Some (0, rsp, 9, register_request tid flags data) \<and> rd8 rsp 0 = Some 0x76 \<and> get_be32 rsp 5 = Some h"
proof -
  let ?n = "6 + length data" and ?rsp = "register_response tid h @ drop 9 rspm"
  obtain v w where t: "be16 tid = [v, w]" using be16_split by blast
  obtain a b where l: "be16 (of_nat (1 + length data)) = [a, b]" using be16_split by blast
  have w: "put_be16 (of_nat (?n - 5)) req 3 = Some (register_request tid flags data @ junk)"
    using l by (simp add: assms(4) put_be16_def be16_def [symmetric] wr_def t register_request_def)
  have r: "rd (register_request tid flags data @ junk) 0 ?n = Some (register_request tid flags data)"
    by (rule rd_append_hit) (simp add: register_request_def)
  have n: "uint (of_nat ?n :: u32) = int ?n" using assms(1) by (simp add: uint_nat unat_of_nat del: of_nat_add)
  have rsp: "sdp_read_rsp (Received (register_response tid h)) rspm = (9, ?rsp)"
    using assms(2) by (simp add: sdp_read_rsp_def register_response_def Let_def)
  have tid: "rd (register_request tid flags data @ junk) 1 2 = Some (be16 tid)" "rd ?rsp 1 2 = Some (be16 tid)"
    by (simp_all add: register_request_def register_response_def rd_def)
  have "sdp_send_req_w4_rsp ([int ?n], Received (register_response tid h)) (register_request tid flags data @ junk) rspm (of_nat ?n) 0 =
      Some (0, ?rsp, 9)"
    unfolding sdp_send_req_w4_rsp_def fst_conv snd_conv n rsp using tid by simp
  moreover have "rd8 ?rsp 0 = Some 0x76" by (simp add: register_response_def rd8_def)
  moreover have "get_be32 ?rsp 5 = Some h"
    by (simp add: register_response_def t get_be32_def rd_def be32_def)
  ultimately show ?thesis
    unfolding exchange_sent_def w bind.bind_lunit r by (intro exI [of _ ?rsp]) (simp del: of_nat_add)
qed

lemma settled_attrId [simp]: "attrId (settled d) = attrId d"
  by (cases d) simp

lemma list_of_two: "length xs = 2 \<Longrightarrow> \<exists>a b. xs = [a, b]"
  by (auto simp: length_Suc_conv numeral_2_eq_2)

lemma filter_insert_attr: "filter (\<lambda>e. attrId e \<noteq> a) (insert_attr l (set_attrId a d)) = filter (\<lambda>e. attrId e \<noteq> a) l"
  unfolding insert_attr_def by (induction l) simp_all

definition fresh_record :: "sdp_record \<Rightarrow> bool" where
  "fresh_record rec \<longleftrightarrow> handle rec = 0 \<or> handle rec = 0xFFFFFFFF"

text \<open>
  C27: A new record that fits its buffers is registered over a local session: the request carries the
  record exactly, and the handle the server gives becomes the handle of the record and its attribute 0;
  the other attributes stay.  To fit, the size pass has to leave room for the header of the record (see
  \<open>record_buffer_too_small\<close>), and the record has to have at most 2042 bytes, so that it fits behind the
  header of the request (see \<open>long_record_overflows\<close>).
\<close>

theorem record_registered:
  assumes "\<forall>d \<in> set (attrlist rec). encodable d \<and> grow late d < 2 ^ 32" "attrs_ok (attrlist rec)" "attrlist rec \<noteq> []"
    "attr_sizes late (attrlist rec) 0 = Some s" "length (service_bytes (attrlist rec)) \<le> unat s"
    "length (service_bytes (attrlist rec)) \<le> 2042" "fresh_record rec"
    "length reqm = 2048" "length rspm = 65535" "is_local session"
  shows "\<exists>rec'. sdp_record_register junk late reqm rspm
      ([int (6 + length (service_bytes (attrlist rec)))], Received (register_response (tid_of session) h)) session rec flags =
      Some (0, rec', session\<lparr>tid_of := tid_of session + 1\<rparr>,
        [register_request (tid_of session) flags (service_bytes (attrlist rec))]) \<and>
    handle rec' = h \<and> sdp_data_get rec' 0x0000 = Some (Sdp_data SDP_UINT32 0x0000 5 (V32 h)) \<and>
    map enc (filter (\<lambda>d. attrId d \<noteq> 0) (attrlist rec')) = map enc (filter (\<lambda>d. attrId d \<noteq> 0) (attrlist rec))"
proof -
  let ?b = "service_bytes (attrlist rec)" and ?rec = "rec\<lparr>attrlist := map settled (attrlist rec)\<rparr>"
  obtain pdu where pdu: "sdp_gen_record_pdu junk late rec = Some (?rec, pdu)"
    "rd (sdata pdu) 0 (unat (data_size pdu)) = Some ?b"
    using gen_record_written [OF assms(1,4) _ assms(3), of junk] assms(5) by (auto simp: service_bytes_def)
  have fresh: "\<not> (handle rec \<noteq> 0 \<and> handle rec \<noteq> 0xFFFFFFFF)" using assms(7) by (auto simp: fresh_record_def)
  let ?req = "0x75 # be16 (tid_of session) @ take 2 (drop 3 reqm) @ flags # ?b @ drop (6 + length ?b) reqm"
  have "length (take 2 (drop 3 reqm)) = 2" using assms(8) by simp
  then obtain p1 p2 where "take 2 (drop 3 reqm) = [p1, p2]" using list_of_two by metis
  moreover have "length ?req = 2048" using assms(6,8) by simp
  ultimately obtain rsp where ex: "exchange_sent ([int (6 + length ?b)], Received (register_response (tid_of session) h)) ?req rspm (6 + length ?b) =
      Some (0, rsp, 9, register_request (tid_of session) flags ?b)" "rd8 rsp 0 = Some 0x76" "get_be32 rsp 5 = Some h"
    using register_exchange [OF assms(6,9), of ?req] by force
  have bin: "sdp_device_record_register_binary reqm rspm
      ([int (6 + length ?b)], Received (register_response (tid_of session) h)) session BDADDR_ANY ?b flags =
      Some (0, Some h, session\<lparr>tid_of := tid_of session + 1\<rparr>, [register_request (tid_of session) flags ?b])"
    unfolding register_binary_writes [OF assms(8,10)] if_P [OF assms(6)] ex(1) by (simp add: Let_def ex(2,3))
  let ?d = "Sdp_data SDP_UINT32 0 5 (V32 h)" and ?r = "?rec\<lparr>handle := h\<rparr>"
  have srt: "attrs_ok (attrlist ?r)" using assms(2) by (simp add: attrs_ok_def comp_def)
  have "sdp_data_alloc SDP_UINT32 (Mem (le_of 4 h)) = Some (Ptr ?d)"
    by (simp add: sdp_data_alloc_def sdp_data_alloc_with_length_def dtd_groups mem_of_def get_le_of)
  then have set: "set_record_handle ?r h = sdp_attr_replace ?r 0 ?d" by (simp add: set_record_handle_def)
  have wf: "wf_data ?d" by (simp add: is_int32_def)
  obtain rec' where r: "sdp_attr_replace ?r 0 ?d = Some rec'" "handle rec' = handle ?r"
    using attr_replace_defined [OF wf] by blast
  have "sdp_record_register junk late reqm rspm
      ([int (6 + length ?b)], Received (register_response (tid_of session) h)) session rec flags =
      Some (0, rec', session\<lparr>tid_of := tid_of session + 1\<rparr>, [register_request (tid_of session) flags ?b])"
    unfolding sdp_record_register_def sdp_device_record_register_def if_not_P [OF fresh] by (simp add: pdu bin set r(1) del: of_nat_add)
  moreover have "sdp_data_get rec' 0 = Some (Sdp_data SDP_UINT32 0 5 (V32 h))"
    using data_get_replace [OF r(1) srt] by simp
  moreover have "filter (\<lambda>d. attrId d \<noteq> 0) (attrlist rec') = filter (\<lambda>d. attrId d \<noteq> 0) (map settled (attrlist rec))"
    using filter_insert_attr [of 0 "filter (\<lambda>d. attrId d \<noteq> 0) (map settled (attrlist rec))" ?d]
    unfolding replace_attrlist [OF r(1) srt] by simp
  moreover have "map enc (filter (\<lambda>d. attrId d \<noteq> 0) (map settled ds)) = map enc (filter (\<lambda>d. attrId d \<noteq> 0) ds)" for ds
    by (induction ds) simp_all
  ultimately show ?thesis using r(2) by (intro exI [of _ rec']) simp
qed

definition adapter_session :: local_session where
  "adapter_session = \<lparr>is_local = True, tid_of = 5\<rparr>"

definition serial_record :: sdp_record where
  "serial_record = sdp_record_alloc\<lparr>attrlist := serial_port\<rparr>"

lemma serial_record_attrs: "attrlist serial_record = serial_port" "length (service_bytes serial_port) = 27"
  by (simp_all add: serial_record_def service_length)

theorem record_registered_witness:
  "\<exists>rec'. sdp_record_register (\<lambda>_. 0) False (replicate 2048 0) (replicate 65535 0)
      ([int (6 + length (service_bytes (attrlist serial_record)))], Received (register_response (tid_of adapter_session) 0x10001))
      adapter_session serial_record 0 =
      Some (0, rec', adapter_session\<lparr>tid_of := tid_of adapter_session + 1\<rparr>,
        [register_request (tid_of adapter_session) 0 (service_bytes (attrlist serial_record))]) \<and>
    handle rec' = 0x10001 \<and> sdp_data_get rec' 0x0000 = Some (Sdp_data SDP_UINT32 0x0000 5 (V32 0x10001)) \<and>
    map enc (filter (\<lambda>d. attrId d \<noteq> 0) (attrlist rec')) = map enc (filter (\<lambda>d. attrId d \<noteq> 0) (attrlist serial_record))"
proof (rule record_registered [where s = 28])
  show "\<forall>d \<in> set (attrlist serial_record). encodable d \<and> grow False d < 2 ^ 32"
    by (simp add: serial_record_attrs) (simp add: serial_port_def enc_simps sdp_get_data_type_size_def)
  show "attr_sizes False (attrlist serial_record) 0 = Some 28"
    by (simp add: serial_record_attrs) (simp add: serial_port_def dtd_groups sdp_get_data_type_size_def leaf_data_size_def)
  show "attrs_ok (attrlist serial_record)" "attrlist serial_record \<noteq> []"
    by (simp_all add: serial_record_attrs) (simp_all add: serial_port_def attrs_ok_def)
  show "fresh_record serial_record" by (simp add: fresh_record_def serial_record_def sdp_record_alloc_def)
qed (simp_all add: serial_record_attrs, simp add: adapter_session_def)

text \<open>A record that does not fit is written beyond the end of the request buffer.\<close>

theorem long_record_overflows:
  assumes "\<forall>d \<in> set (attrlist rec). encodable d \<and> grow late d < 2 ^ 32" "attrlist rec \<noteq> []"
    "attr_sizes late (attrlist rec) 0 = Some s" "length (service_bytes (attrlist rec)) \<le> unat s"
    "2042 < length (service_bytes (attrlist rec))" "fresh_record rec" "length reqm = 2048" "is_local session"
  shows "sdp_record_register junk late reqm rspm x session rec flags = None"
proof -
  let ?b = "service_bytes (attrlist rec)" and ?rec = "rec\<lparr>attrlist := map settled (attrlist rec)\<rparr>"
  obtain pdu where pdu: "sdp_gen_record_pdu junk late rec = Some (?rec, pdu)"
    "rd (sdata pdu) 0 (unat (data_size pdu)) = Some ?b"
    using gen_record_written [OF assms(1,3) _ assms(2), of junk] assms(4) by (auto simp: service_bytes_def)
  have fresh: "\<not> (handle rec \<noteq> 0 \<and> handle rec \<noteq> 0xFFFFFFFF)" using assms(6) by (auto simp: fresh_record_def)
  have "\<not> length ?b \<le> 2042" using assms(5) by simp
  then have "sdp_device_record_register_binary reqm rspm x session BDADDR_ANY ?b flags = None"
    unfolding register_binary_writes [OF assms(7,8)] by (rule if_not_P)
  then show ?thesis
    unfolding sdp_record_register_def sdp_device_record_register_def if_not_P [OF fresh] by (simp add: pdu)
qed

end
