(* ===== verification/SdpAsync.thy ===== *)
theory SdpAsync
  imports SdpReq
begin

text \<open>
  The asynchronous requests of the client (\<open>lib/sdp.c\<close>): a transaction keeps the request and what
  came of the answer; \<open>sdp_process\<close> takes one response at a time, asks for the next piece, and at the
  end gives the answer to the callback.
\<close>

section \<open>Sessions and transactions\<close>

text \<open>
  A callback and its data are named by numbers; \<open>errno\<close> is a parameter of the functions.  The
  response buffer is allocated for each call and zeroed.
\<close>

record sdp_transaction =
  t_cb :: "nat ptr"
  t_udata :: nat
  t_reqbuf :: "buf ptr"
  t_concat :: buf
  t_reqsize :: u32
  t_err :: int

record sdp_session_t =
  s_tid :: u16
  s_priv :: "sdp_transaction ptr"

abbreviation (input) EINVAL :: int where "EINVAL \<equiv> 22"
abbreviation (input) EPROTO :: int where "EPROTO \<equiv> 71"

definition sdp_create :: "sdp_session_t" where
  "sdp_create = \<lparr>s_tid = 0, s_priv = Ptr \<lparr>t_cb = NULL, t_udata = 0, t_reqbuf = NULL, t_concat = [], t_reqsize = 0, t_err = 0\<rparr>\<rparr>"

definition sdp_set_notify :: "sdp_session_t ptr \<Rightarrow> nat ptr \<Rightarrow> nat \<Rightarrow> int \<times> sdp_session_t ptr" where
  "sdp_set_notify session func udata =
     (case session of
        NULL \<Rightarrow> (- 1, session)
      | Ptr s \<Rightarrow> (case s_priv s of
          NULL \<Rightarrow> (- 1, session)
        | Ptr t \<Rightarrow> (0, Ptr (s\<lparr>s_priv := Ptr (t\<lparr>t_cb := func, t_udata := udata\<rparr>)\<rparr>))))"

definition sdp_get_error :: "sdp_session_t ptr \<Rightarrow> int" where
  "sdp_get_error session =
     (case session of NULL \<Rightarrow> - 1 | Ptr s \<Rightarrow> (case s_priv s of NULL \<Rightarrow> - 1 | Ptr t \<Rightarrow> t_err t))"

section \<open>Starting a transaction\<close>

text \<open>
  The body of a request, written behind the header, and where it ends: on an error \<open>Inl\<close>.  The three functions
  differ in it and in the identifier of the PDU, and \<open>start_async\<close> is what they share.
\<close>

definition async_search_body :: "(nat \<Rightarrow> u8) \<Rightarrow> bool \<Rightarrow> uuid_t list \<Rightarrow> u16 \<Rightarrow> buf \<Rightarrow> (nat + (buf \<times> nat)) option" where
  "async_search_body junk late search max_rec_num req = do {
     (xs, seqlen) \<leftarrow> gen_searchseq_pdu junk late search;
     req \<leftarrow> wr req 5 xs;
     if seqlen < 0 then Some (Inl 5)
     else do {
       req \<leftarrow> put_be16 max_rec_num req (5 + nat seqlen);
       Some (Inr (req, 5 + nat seqlen + 2)) } }"

definition async_attr_body :: "(nat \<Rightarrow> u8) \<Rightarrow> bool \<Rightarrow> u32 \<Rightarrow> bool \<Rightarrow> buf list \<Rightarrow> buf \<Rightarrow> (nat + (buf \<times> nat)) option" where
  "async_attr_body junk late hdl ranges attrid_list req = do {
     req \<leftarrow> put_be32 hdl req 5;
     req \<leftarrow> put_be16 65535 req 9;
     (xs, seqlen) \<leftarrow> gen_attridseq_pdu junk late attrid_list (if ranges then SDP_UINT32 else SDP_UINT16);
     req \<leftarrow> wr req 11 xs;
     if seqlen = - 1 then Some (Inl 11)
     else if 11 + seqlen < 0 then None
     else Some (Inr (req, nat (11 + seqlen))) }"

definition async_search_attr_body ::
    "(nat \<Rightarrow> u8) \<Rightarrow> bool \<Rightarrow> uuid_t list \<Rightarrow> bool \<Rightarrow> buf list \<Rightarrow> buf \<Rightarrow> (nat + (buf \<times> nat)) option" where
  "async_search_attr_body junk late search ranges attrid_list req = do {
     (xs, seqlen) \<leftarrow> gen_searchseq_pdu junk late search;
     req \<leftarrow> wr req 5 xs;
     if seqlen < 0 then Some (Inl 5)
     else do {
       let i = 5 + nat seqlen;
       req \<leftarrow> put_be16 65535 req i;
       (xs, seqlen) \<leftarrow> gen_attridseq_pdu junk late attrid_list (if ranges then SDP_UINT32 else SDP_UINT16);
       req \<leftarrow> wr req (i + 2) xs;
       if seqlen = - 1 then Some (Inl (i + 2))
       else if int i + 2 + seqlen < 0 then None
       else Some (Inr (req, nat (int i + 2 + seqlen))) } }"

definition start_async ::
    "u8 \<Rightarrow> (buf \<Rightarrow> (nat + (buf \<times> nat)) option) \<Rightarrow> int list \<Rightarrow> int \<Rightarrow> sdp_session_t ptr \<Rightarrow>
       (int \<times> sdp_session_t ptr \<times> buf list) option" where
  "start_async pid body sends errno session =
     (case session of
        NULL \<Rightarrow> Some (- 1, session, [])
      | Ptr s \<Rightarrow> (case s_priv s of
          NULL \<Rightarrow> Some (- 1, session, [])
        | Ptr t \<Rightarrow> do {
            let t = t\<lparr>t_concat := []\<rparr>;
            req \<leftarrow> put_be16 (s_tid s) (replicate 2048 0) 1;
            let s = s\<lparr>s_tid := s_tid s + 1\<rparr>;
            req \<leftarrow> wr8 req 0 pid;
            r \<leftarrow> body req;
            (case r of
               Inl n \<Rightarrow> Some (- 1, Ptr (s\<lparr>s_priv := Ptr (t\<lparr>t_err := EINVAL, t_reqbuf := NULL, t_reqsize := of_nat n\<rparr>)\<rparr>), [])
             | Inr (req, n) \<Rightarrow> do {
                 (req, cstate_len) \<leftarrow> copy_cstate req n (2048 - int n) [] None;
                 req \<leftarrow> put_be16 (ucast (of_nat n + cstate_len - 5)) req 3;
                 out \<leftarrow> rd req 0 (n + unat cstate_len);
                 if sdp_send_req sends (int (length out)) 0 < 0
                 then Some (- 1, Ptr (s\<lparr>s_priv := Ptr (t\<lparr>t_err := errno, t_reqbuf := NULL, t_reqsize := of_nat n\<rparr>)\<rparr>), [out])
                 else Some (0, Ptr (s\<lparr>s_priv := Ptr (t\<lparr>t_reqbuf := Ptr req, t_reqsize := of_nat n\<rparr>)\<rparr>), [out]) }) }))"

definition sdp_service_search_async ::
    "(nat \<Rightarrow> u8) \<Rightarrow> bool \<Rightarrow> uuid_t list \<Rightarrow> u16 \<Rightarrow> int list \<Rightarrow> int \<Rightarrow>
       sdp_session_t ptr \<Rightarrow> (int \<times> sdp_session_t ptr \<times> buf list) option" where
  "sdp_service_search_async junk late search max_rec_num = start_async 0x02 (async_search_body junk late search max_rec_num)"

definition sdp_service_attr_async ::
    "(nat \<Rightarrow> u8) \<Rightarrow> bool \<Rightarrow> u32 \<Rightarrow> bool \<Rightarrow> buf list \<Rightarrow> int list \<Rightarrow> int \<Rightarrow>
       sdp_session_t ptr \<Rightarrow> (int \<times> sdp_session_t ptr \<times> buf list) option" where
  "sdp_service_attr_async junk late hdl ranges attrid_list = start_async 0x04 (async_attr_body junk late hdl ranges attrid_list)"

definition sdp_service_search_attr_async ::
    "(nat \<Rightarrow> u8) \<Rightarrow> bool \<Rightarrow> uuid_t list \<Rightarrow> bool \<Rightarrow> buf list \<Rightarrow> int list \<Rightarrow> int \<Rightarrow>
       sdp_session_t ptr \<Rightarrow> (int \<times> sdp_session_t ptr \<times> buf list) option" where
  "sdp_service_search_attr_async junk late search ranges attrid_list =
     start_async 0x06 (async_search_attr_body junk late search ranges attrid_list)"

section \<open>Processing a response\<close>

text \<open>What the callback is called with: itself, the PDU, the status, the bytes and its data.\<close>

type_synonym notification = "nat \<times> u8 \<times> u16 \<times> buf \<times> nat"

definition notify :: "sdp_transaction \<Rightarrow> u8 \<Rightarrow> u16 \<Rightarrow> buf \<Rightarrow> notification list" where
  "notify t pdu_id status data = (case t_cb t of NULL \<Rightarrow> [] | Ptr cb \<Rightarrow> [(cb, pdu_id, status, data, t_udata t)])"

text \<open>
  The parameters of a response: \<open>Inl\<close> is an end with the transaction, the status and the number of
  bytes for the callback; \<open>Inr\<close> the transaction, where the bytes of the answer are and how many, and
  the length of the parameters.
\<close>

definition response_parts ::
    "buf \<Rightarrow> sdp_transaction \<Rightarrow> ((sdp_transaction \<times> u16 \<times> nat) + (sdp_transaction \<times> nat \<times> nat \<times> nat)) option" where
  "response_parts rsp t = do {
     pdu_id \<leftarrow> rd8 rsp 0;
     if pdu_id = 0x03 then do {
       tsrc \<leftarrow> get_be16 rsp 5;
       csrc \<leftarrow> get_be16 rsp 7;
       if tsrc < csrc then Some (Inl (t\<lparr>t_err := EPROTO\<rparr>, 0xFFFF, 0))
       else if t_concat t = [] then Some (Inr (t, 5, 4 + 4 * unat csrc, 4 + 4 * unat csrc))
       else if 4 \<le> length (t_concat t) then do {
         tcsrc \<leftarrow> get_le16 (t_concat t) 2;
         tcsrc2 \<leftarrow> get_le16 rsp 7;
         c \<leftarrow> put_le16 (tcsrc + tcsrc2) (t_concat t) 2;
         Some (Inr (t\<lparr>t_concat := c\<rparr>, 9, 4 * unat csrc, 4 + 4 * unat csrc)) }
       else Some (Inl (t\<lparr>t_err := EPROTO\<rparr>, 4, 0)) }
     else if pdu_id = 0x05 \<or> pdu_id = 0x07 then do {
       rsp_count \<leftarrow> get_be16 rsp 5;
       if t_concat t = [] \<and> rsp_count < 2 then Some (Inl (t\<lparr>t_err := EPROTO\<rparr>, 4, 0))
       else Some (Inr (t, 7, unat rsp_count, 2 + unat rsp_count)) }
     else if pdu_id = 0x01 then do {
       status \<leftarrow> get_be16 rsp 5;
       plen \<leftarrow> get_be16 rsp 3;
       Some (Inl (t, status, unat plen)) }
     else Some (Inl (t\<lparr>t_err := EPROTO\<rparr>, 0xFFFF, 0)) }"

text \<open>The end of a transaction: the answer if there is one, else \<open>size\<close> bytes at \<open>pdata\<close>.\<close>

definition process_end ::
    "sdp_session_t \<Rightarrow> sdp_transaction \<Rightarrow> buf \<Rightarrow> u8 \<Rightarrow> u16 \<Rightarrow> nat \<Rightarrow> nat \<Rightarrow> buf list \<Rightarrow>
       (int \<times> sdp_session_t ptr \<times> buf list \<times> notification list) option" where
  "process_end s t rsp pdu_id status pdata n out = do {
     data \<leftarrow> (if t_concat t \<noteq> [] then Some (t_concat t) else rd rsp pdata n);
     Some (- 1, Ptr (s\<lparr>s_priv := Ptr t\<rparr>), out, notify t pdu_id status data) }"

text \<open>The next request, with a new identifier and the continuation state.\<close>

definition process_continue ::
    "int list \<Rightarrow> int \<Rightarrow> sdp_session_t \<Rightarrow> sdp_transaction \<Rightarrow> buf \<Rightarrow> u8 \<Rightarrow> nat \<Rightarrow>
       (int \<times> sdp_session_t ptr \<times> buf list \<times> notification list) option" where
  "process_continue sends errno s t rsp pdu_id pcstate = do {
     req \<leftarrow> deref (t_reqbuf t);
     req \<leftarrow> put_be16 (s_tid s) req 1;
     let s = s\<lparr>s_tid := s_tid s + 1\<rparr>;
     (req, cstate_len) \<leftarrow> copy_cstate req (unat (t_reqsize t)) (2048 - uint (t_reqsize t)) rsp (Some pcstate);
     let reqsize = t_reqsize t + cstate_len;
     req \<leftarrow> put_be16 (ucast (reqsize - 5)) req 3;
     out \<leftarrow> rd req 0 (unat reqsize);
     let t = t\<lparr>t_reqbuf := Ptr req\<rparr>;
     if sdp_send_req sends (uint reqsize) 0 < 0
     then process_end s (t\<lparr>t_err := errno\<rparr>) rsp pdu_id 0xFFFF 0 0 [out]
     else Some (0, Ptr (s\<lparr>s_priv := Ptr t\<rparr>), [out], []) }"

definition process_response ::
    "int list \<Rightarrow> int \<Rightarrow> sdp_session_t \<Rightarrow> sdp_transaction \<Rightarrow> buf \<Rightarrow> int \<Rightarrow>
       (int \<times> sdp_session_t ptr \<times> buf list \<times> notification list) option" where
  "process_response sends errno s t rsp n = do {
     pdu_id \<leftarrow> rd8 rsp 0;
     r \<leftarrow> response_parts rsp t;
     (case r of
        Inl (t, status, k) \<Rightarrow> process_end s t rsp pdu_id status 5 k []
      | Inr (t, pdata, rsp_count, plen) \<Rightarrow>
          if n - 5 < int plen + 1 then process_end s (t\<lparr>t_err := EPROTO\<rparr>) rsp pdu_id 4 pdata 0 []
          else do {
            len \<leftarrow> rd8 rsp (pdata + rsp_count);
            if n - 5 \<noteq> int plen + uint len + 1
            then process_end s (t\<lparr>t_err := EPROTO\<rparr>) rsp pdu_id 0xFFFF pdata 0 []
            else do {
              xs \<leftarrow> rd rsp pdata rsp_count;
              let t = t\<lparr>t_concat := t_concat t @ xs\<rparr>;
              if 0 < len then process_continue sends errno s t rsp pdu_id (pdata + rsp_count)
              else process_end s t rsp pdu_id 0 pdata 0 [] } }) }"

definition sdp_process ::
    "exchange \<Rightarrow> int \<Rightarrow> sdp_session_t ptr \<Rightarrow> (int \<times> sdp_session_t ptr \<times> buf list \<times> notification list) option" where
  "sdp_process x errno session =
     (case session of
        NULL \<Rightarrow> Some (- 1, session, [], [])
      | Ptr s \<Rightarrow> (case s_priv s of
          NULL \<Rightarrow> Some (- 1, session, [], [])
        | Ptr t \<Rightarrow>
            let (n, rsp) = sdp_read_rsp (snd x) (replicate 65535 0) in
            if n < 0 then process_end s (t\<lparr>t_err := errno\<rparr>) rsp 0 0xFFFF 5 0 []
            else do {
              req \<leftarrow> deref (t_reqbuf t);
              a \<leftarrow> rd req 1 2;
              b \<leftarrow> rd rsp 1 2;
              if a \<noteq> b then process_end s (t\<lparr>t_err := EPROTO\<rparr>) rsp 0 0xFFFF 5 0 []
              else do {
                plen \<leftarrow> get_be16 rsp 3;
                if n \<noteq> uint plen + 5 then process_end s (t\<lparr>t_err := EPROTO\<rparr>) rsp 0 0xFFFF 5 0 []
                else process_response (fst x) errno s t rsp n } }))"

end
