(* ===== verification/SdpAsyncProps.thy ===== *)
theory SdpAsyncProps
  imports SdpHandles SdpAsync
begin

text \<open>
  The asynchronous requests against a server that answers in pieces: the requests are those of the
  synchronous one, and the callback is called once, with the whole answer.
\<close>

section \<open>The server\<close>

definition async_response :: "u8 \<Rightarrow> u16 \<Rightarrow> buf \<Rightarrow> buf \<Rightarrow> buf" where
  "async_response pid tid p c = response_of pid (of_nat (3 + length p + length c)) tid p c"

text \<open>The response to the request that is out, and the result of sending the next.\<close>

fun serve_async :: "u8 \<Rightarrow> u16 \<Rightarrow> nat \<Rightarrow> (buf \<times> buf) list \<Rightarrow> exchange list" where
  "serve_async pid tid n [] = []"
| "serve_async pid tid n ((p, d) # xs) =
     ([int (6 + n + length d)], Received (async_response pid tid p d)) # serve_async pid (tid + 1) n xs"

text \<open>The responses are processed until the transaction is over.\<close>

fun process_all ::
    "exchange list \<Rightarrow> int \<Rightarrow> sdp_session_t ptr \<Rightarrow> (int \<times> sdp_session_t ptr \<times> buf list \<times> notification list) option" where
  "process_all [] errno session = Some (0, session, [], [])"
| "process_all (x # xs) errno session = do {
     (err, session, out, calls) \<leftarrow> sdp_process x errno session;
     if err \<noteq> 0 then Some (err, session, out, calls)
     else do {
       (err, session, out', calls') \<leftarrow> process_all xs errno session;
       Some (err, session, out @ out', calls @ calls') } }"

section \<open>One response\<close>

lemma process_continue_sends:
  assumes "t_reqbuf t = Ptr r" "t_reqsize t = of_nat (5 + length body)" "length body \<le> 1000" "req_of pid body r"
    "rsp = pre @ of_nat (length d) # d @ junk" "length d \<le> 16" "d \<noteq> []"
  shows "\<exists>r'. process_continue [int (6 + length body + length d)] errno s t rsp pdu_id (length pre) =
      Some (0, Ptr (s\<lparr>s_tid := s_tid s + 1, s_priv := Ptr (t\<lparr>t_reqbuf := Ptr r'\<rparr>)\<rparr>), [request_of pid (s_tid s) body d], []) \<and>
    req_of pid body r' \<and> rd r' 1 2 = Some (be16 (s_tid s))"
proof -
  let ?S = "\<lparr>reqbuf = r, rspbuf = rsp, rspsize = 0, attr_list_len = 0, cstate = Some (length pre),
            concat_buf = [], session_tid = s_tid s, sent = []\<rparr>"
  have "cstate_is ?S d" by (rule cstate_mid) (use assms(5-7) in simp_all)
  then obtain r' where r': "send_request (5 + length body) ?S =
      Some (?S\<lparr>reqbuf := r', session_tid := s_tid s + 1, sent := [request_of pid (s_tid s) body d]\<rparr>,
            of_nat (6 + length body + length d))" "req_of pid body r'" "rd r' 1 2 = Some (be16 (s_tid s))"
    using send_request_spec [of pid body ?S d] assms(3,4) by auto
  have u: "unat (t_reqsize t) = 5 + length body" using assms(2,3) by (simp add: unat_of_nat del: of_nat_add)
  then have ui: "uint (t_reqsize t) = int (5 + length body)" by (simp add: uint_nat)
  let ?n = "of_nat (6 + length body + length d) :: u32"
  have n: "uint ?n = int (6 + length body + length d)" using assms(3,6) by (simp add: uint_nat unat_of_nat del: of_nat_add)
  have "process_continue sends errno s t rsp pdu_id (length pre) = do {
      (S, reqsize) \<leftarrow> send_request (5 + length body) ?S;
      let s = s\<lparr>s_tid := s_tid s + 1\<rparr>; let t = t\<lparr>t_reqbuf := Ptr (reqbuf S)\<rparr>;
      if sdp_send_req sends (uint reqsize) 0 < 0 then process_end s (t\<lparr>t_err := errno\<rparr>) rsp pdu_id 0xFFFF 0 0 (sent S)
      else Some (0, Ptr (s\<lparr>s_priv := Ptr t\<rparr>), sent S, []) }" for sends
    unfolding process_continue_def send_request_def u ui using assms(1,2) by (simp add: Let_def split_def del: of_nat_add sdp_send_req.simps cong: if_cong)
  then show ?thesis unfolding r'(1) using r'(2,3) n
    by (intro exI [of _ r']) (simp add: Let_def del: of_nat_add)
qed

lemma response_parts_attr:
  assumes "rsp = async_response pid tid p d @ junk" "pid = 0x04 \<or> pid = 0x06" "length p \<le> 65000" "length d \<le> 16"
    "t_concat t = [] \<Longrightarrow> 2 \<le> length p"
  shows "response_parts rsp t = Some (Inr (t, 7, length p, 2 + length p))"
proof -
  obtain x y where xy: "be16 tid = [x, y]" using be16_split by blast
  obtain a b where ab: "be16 (of_nat (3 + length p + length d)) = [a, b]" using be16_split by blast
  have r: "rsp = (pid + 1) # x # y # a # b # be16 (of_nat (length p)) @ p @ of_nat (length d) # d @ junk"
    unfolding assms(1) async_response_def response_of_def ab by (simp add: xy)
  have "rd8 rsp 0 = Some (pid + 1)" by (simp add: r rd8_def)
  moreover have "get_be16 rsp 5 = Some (of_nat (length p))" by (simp add: r get_be16_def rd_def be16_def)
  moreover have "unat (of_nat (length p) :: u16) = length p" using assms(3) by (simp add: unat_of_nat)
  moreover have "pid + 1 = 0x05 \<or> pid + 1 = 0x07" "pid + 1 \<noteq> 0x03" using assms(2) by auto
  ultimately show ?thesis using assms(5) by (auto simp: response_parts_def word_less_nat_alt)
qed

lemma notify_updates [simp]:
  "notify (t\<lparr>t_concat := c\<rparr>) = notify t" "notify (t\<lparr>t_reqbuf := r\<rparr>) = notify t" "notify (t\<lparr>t_reqsize := n\<rparr>) = notify t"
  by (simp_all add: notify_def fun_eq_iff split: ptr.split)

lemma process_piece:
  assumes "s_priv s = Ptr t" "t_reqbuf t = Ptr r" "t_reqsize t = of_nat (5 + length body)" "length body \<le> 1000"
    "req_of pid body r" "rd r 1 2 = Some (be16 tid)" "pid = 0x04 \<or> pid = 0x06" "length p \<le> 65000" "length d \<le> 16"
    "t_concat t = [] \<Longrightarrow> 2 \<le> length p" "p \<noteq> []"
  shows "if d = [] then
      sdp_process (sends, Received (async_response pid tid p [])) errno (Ptr s) =
        Some (- 1, Ptr (s\<lparr>s_priv := Ptr (t\<lparr>t_concat := t_concat t @ p\<rparr>)\<rparr>), [], notify t (pid + 1) 0 (t_concat t @ p))
    else \<exists>r'. sdp_process ([int (6 + length body + length d)], Received (async_response pid tid p d)) errno (Ptr s) =
        Some (0, Ptr (s\<lparr>s_tid := s_tid s + 1, s_priv := Ptr (t\<lparr>t_concat := t_concat t @ p, t_reqbuf := Ptr r'\<rparr>)\<rparr>),
          [request_of pid (s_tid s) body d], []) \<and>
      req_of pid body r' \<and> rd r' 1 2 = Some (be16 (s_tid s))"
proof -
  let ?R = "async_response pid tid p d"
  define junk where "junk = (replicate (65535 - length ?R) 0 :: buf)"
  define rsp where "rsp = ?R @ junk"
  have lr: "length ?R = 8 + length p + length d" by (simp add: async_response_def response_of_def)
  have read: "sdp_read_rsp (Received ?R) (replicate 65535 0) = (int (8 + length p + length d), rsp)"
    using assms(8,9) lr by (simp add: sdp_read_rsp_def Let_def rsp_def junk_def)
  obtain x y where xy: "be16 tid = [x, y]" using be16_split by blast
  define plen where "plen = (of_nat (3 + length p + length d) :: u16)"
  obtain a b where ab: "be16 plen = [a, b]" using be16_split by blast
  have r: "rsp = (pid + 1) # x # y # be16 plen @ be16 (of_nat (length p)) @ p @ of_nat (length d) # d @ junk"
    unfolding rsp_def async_response_def response_of_def plen_def [symmetric] by (simp add: xy)
  have up: "uint plen = int (3 + length p + length d)"
    using assms(8,9) by (simp add: plen_def uint_nat unat_of_nat del: of_nat_add)
  have tid: "rd rsp 1 2 = Some (be16 tid)" by (simp add: r rd_def xy)
  have pl: "get_be16 rsp 3 = Some plen" by (simp add: r get_be16_def rd_def be16_def)
  have id: "rd8 rsp 0 = Some (pid + 1)" by (simp add: r rd8_def)
  have parts: "response_parts rsp t = Some (Inr (t, 7, length p, 2 + length p))"
    by (rule response_parts_attr [OF rsp_def assms(7-9)]) (use assms(10) in auto)
  have cl: "rd8 rsp (7 + length p) = Some (of_nat (length d))" by (simp add: r rd8_def nth_append)
  have ud: "unat (of_nat (length d) :: u8) = length d" using assms(9) by (simp add: unat_of_nat)
  have pc: "rd rsp 7 (length p) = Some p" by (simp add: r rd_def)
  let ?t = "t\<lparr>t_concat := t_concat t @ p\<rparr>"
  have "sdp_process (sends, Received ?R) errno (Ptr s) = process_response sends errno s t rsp (int (8 + length p + length d))" for sends
    using assms(1,2,6) tid pl up by (simp add: sdp_process_def read)
  also have "\<dots> sends = (if d \<noteq> [] then process_continue sends errno s ?t rsp (pid + 1) (7 + length p)
      else process_end s ?t rsp (pid + 1) 0 7 0 [])" for sends
  proof -
    have "0 < (of_nat (length d) :: u8) \<longleftrightarrow> d \<noteq> []" using ud by (simp add: word_less_nat_alt)
    moreover have "uint (of_nat (length d) :: u8) = int (length d)" using ud by (simp add: uint_nat)
    ultimately show ?thesis by (simp add: process_response_def id parts cl pc Let_def)
  qed
  finally have step: "sdp_process (sends, Received ?R) errno (Ptr s) =
      (if d \<noteq> [] then process_continue sends errno s ?t rsp (pid + 1) (7 + length p)
       else process_end s ?t rsp (pid + 1) 0 7 0 [])" for sends .
  show ?thesis
  proof (cases "d = []")
    case True
    then show ?thesis using step [of sends] assms(11) by (simp add: process_end_def)
  next
    case False
    let ?pre = "(pid + 1) # x # y # be16 plen @ be16 (of_nat (length p)) @ p"
    have l: "7 + length p = length ?pre" by simp
    have "\<exists>r'. process_continue [int (6 + length body + length d)] errno s ?t rsp (pid + 1) (7 + length p) =
        Some (0, Ptr (s\<lparr>s_tid := s_tid s + 1, s_priv := Ptr (?t\<lparr>t_reqbuf := Ptr r'\<rparr>)\<rparr>), [request_of pid (s_tid s) body d], []) \<and>
      req_of pid body r' \<and> rd r' 1 2 = Some (be16 (s_tid s))"
      unfolding l by (rule process_continue_sends) (use assms(2-5,9) False in \<open>simp_all add: r\<close>)
    then show ?thesis using False by (simp add: step)
  qed
qed

section \<open>The whole answer\<close>

lemma process_all_spec:
  assumes "chunks_ok xs" "s_priv s = Ptr t" "t_reqbuf t = Ptr r" "t_reqsize t = of_nat (5 + length body)" "length body \<le> 1000"
    "req_of pid body r" "rd r 1 2 = Some (be16 tid)" "s_tid s = tid + 1" "pid = 0x04 \<or> pid = 0x06"
    "t_concat t = [] \<Longrightarrow> 2 \<le> length (fst (hd xs))"
  shows "\<exists>s'. process_all (serve_async pid tid (length body) xs) errno (Ptr s) =
    Some (- 1, Ptr s', requests_of pid (tid + 1) body (snd (hd xs)) (tl xs), notify t (pid + 1) 0 (t_concat t @ concat (map fst xs)))"
  using assms
proof (induction xs arbitrary: s t r tid rule: chunks_ok.induct)
  case (2 p d)
  then have "p \<noteq> []" "d = []" "length p \<le> 65000" "t_concat t = [] \<longrightarrow> 2 \<le> length p" by auto
  with process_piece [OF 2(2-7,9), of p "[]" "[int (6 + length body)]" errno] show ?case by simp
next
  case (3 p d x xs)
  then have ok: "p \<noteq> []" "d \<noteq> []" "length p \<le> 65000" "length d \<le> 16" "chunks_ok (x # xs)"
    "t_concat t = [] \<longrightarrow> 2 \<le> length p" by auto
  obtain r' where r': "sdp_process ([int (6 + length body + length d)], Received (async_response pid tid p d)) errno (Ptr s) =
        Some (0, Ptr (s\<lparr>s_tid := s_tid s + 1, s_priv := Ptr (t\<lparr>t_concat := t_concat t @ p, t_reqbuf := Ptr r'\<rparr>)\<rparr>),
          [request_of pid (tid + 1) body d], [])"
    "req_of pid body r'" "rd r' 1 2 = Some (be16 (tid + 1))"
    using process_piece [OF 3(3-8,10) ok(3,4) _ ok(1)] ok(2,6) 3(9) by auto
  let ?t = "t\<lparr>t_concat := t_concat t @ p, t_reqbuf := Ptr r'\<rparr>"
  let ?s = "s\<lparr>s_tid := s_tid s + 1, s_priv := Ptr ?t\<rparr>"
  obtain s' where "process_all (serve_async pid (tid + 1) (length body) (x # xs)) errno (Ptr ?s) =
    Some (- 1, Ptr s', requests_of pid (tid + 1 + 1) body (snd (hd (x # xs))) (tl (x # xs)),
      notify ?t (pid + 1) 0 (t_concat ?t @ concat (map fst (x # xs))))"
    using 3(1) [OF ok(5), of ?s ?t r' "tid + 1"] 3(5,6,9,10) r'(2,3) ok(1) by auto
  moreover have "serve_async pid tid (length body) ((p, d) # x # xs) =
      ([int (6 + length body + length d)], Received (async_response pid tid p d)) # serve_async pid (tid + 1) (length body) (x # xs)"
    by (rule serve_async.simps)
  moreover obtain q e where "x = (q, e)" by (cases x)
  ultimately show ?case
    using r'(1) by (simp add: process_all.simps(2) [of "(_, Received (async_response pid tid p d))"] del: process_all.simps serve_async.simps of_nat_add)
qed simp

section \<open>The start\<close>

lemma start_async_sends:
  assumes "s_priv s = Ptr t" "length body \<le> 1000"
    "\<And>a b. fill (pid # a # b # 0 # 0 # replicate 2043 0) =
       Some (Inr (pid # a # b # 0 # 0 # body @ replicate (2043 - length body) 0, 5 + length body))"
  shows "\<exists>r. start_async pid fill [int (6 + length body)] errno (Ptr s) =
      Some (0, Ptr (s\<lparr>s_tid := s_tid s + 1, s_priv := Ptr (t\<lparr>t_concat := [], t_reqbuf := Ptr r, t_reqsize := of_nat (5 + length body)\<rparr>)\<rparr>),
        [request_of pid (s_tid s) body []]) \<and>
    req_of pid body r \<and> rd r 1 2 = Some (be16 (s_tid s))"
proof -
  let ?n = "5 + length body"
  obtain a b where ab: "be16 (s_tid s) = [a, b]" using be16_split by blast
  have z: "replicate 2048 (0 :: u8) = 0 # 0 # 0 # 0 # 0 # replicate 2043 0" by (simp add: numeral_eq_Suc)
  have 1: "put_be16 (s_tid s) (replicate 2048 0) 1 = Some (0 # a # b # 0 # 0 # replicate 2043 0)"
    unfolding z by (simp add: put_be16_def be16_def [symmetric] wr_def ab)
  have 2: "wr8 (0 # a # b # 0 # 0 # replicate 2043 0) 0 pid = Some (pid # a # b # 0 # 0 # replicate 2043 0)"
    by (simp add: wr8_def)
  let ?pre = "pid # a # b # 0 # 0 # body"
  have "replicate (2043 - length body) (0 :: u8) = 0 # replicate (2042 - length body) 0"
    using assms(2) by (cases "2043 - length body") auto
  then have body: "pid # a # b # 0 # 0 # body @ replicate (2043 - length body) 0 = ?pre @ 0 # replicate (2042 - length body) 0"
    by simp
  have 3: "copy_cstate (?pre @ 0 # replicate (2042 - length body) 0) ?n (2048 - int ?n) [] None =
      Some (?pre @ 0 # replicate (2042 - length body) 0, 1)"
  proof -
    have l: "length ?pre = ?n" by simp
    have "wr8 (?pre @ 0 # replicate (2042 - length body) 0) ?n 0 = Some (?pre @ 0 # replicate (2042 - length body) 0)"
      using wr8_mid [of ?pre 0 "replicate (2042 - length body) 0" 0] unfolding l .
    then show ?thesis unfolding copy_cstate_def by simp
  qed
  have pl: "(ucast (of_nat ?n + 1 - 5 :: u32) :: u16) = of_nat (length body + 1)"
    using assms(2) by (intro word_eq_of_nat) (simp add: unat_word_ariths unat_sub word_le_nat_alt)
  let ?r = "pid # a # b # be16 (of_nat (length body + 1)) @ body @ 0 # replicate (2042 - length body) 0"
  obtain c d where cd: "be16 (of_nat (length body + 1)) = [c, d]" using be16_split by blast
  have 4: "put_be16 (of_nat (length body + 1)) (?pre @ 0 # replicate (2042 - length body) 0) 3 = Some ?r"
    unfolding cd put_be16_def be16_def [symmetric] by (simp add: wr_def)
  have 5: "rd ?r 0 (?n + unat (1 :: u32)) = Some (request_of pid (s_tid s) body [])"
  proof -
    have "?r = request_of pid (s_tid s) body [] @ replicate (2042 - length body) 0" by (simp add: request_of_def ab)
    moreover have "length (request_of pid (s_tid s) body []) = ?n + unat (1 :: u32)" by (simp add: request_of_def)
    ultimately show ?thesis by (simp only: rd_append_hit)
  qed
  have len: "int (length (request_of pid (s_tid s) body [])) = int (6 + length body)" by (simp add: request_of_def)
  have "start_async pid fill [int (6 + length body)] errno (Ptr s) =
      Some (0, Ptr (s\<lparr>s_tid := s_tid s + 1, s_priv := Ptr (t\<lparr>t_concat := [], t_reqbuf := Ptr ?r, t_reqsize := of_nat ?n\<rparr>)\<rparr>),
        [request_of pid (s_tid s) body []])"
    unfolding start_async_def ptr.case assms(1) 1 bind.bind_lunit Let_def 2 assms(3) sum.case prod.case body 3 pl 4 5 len
    by simp
  moreover have "req_of pid body ?r" using cd assms(2) by (auto simp: req_of_def)
  moreover have "rd ?r 1 2 = Some (be16 (s_tid s))" by (simp add: rd_def ab)
  ultimately show ?thesis by blast
qed

lemma async_search_attr_fills:
  "async_search_attr_body junk late [sdp_uuid16_create g] True [le_of 4 (0x0000FFFF :: u32)] (pid # a # b # 0 # 0 # replicate 2043 0) =
    Some (Inr (pid # a # b # 0 # 0 # body_of g @ replicate (2043 - length (body_of g)) 0, 5 + length (body_of g)))"
proof -
  obtain x y where g: "be16 g = [x, y]" using be16_split by blast
  have f: "rev (le_of 2 (0xFFFF :: u16)) = [0xFF, 0xFF]" by (simp add: le_ffff)
  show ?thesis
    unfolding async_search_attr_body_def searchseq_pdu if_True attridseq_pdu g
    by (simp add: wr_def put_be16_def f body_of_def g)
qed

lemma async_attr_fills:
  "async_attr_body junk late h True [le_of 4 (0x0000FFFF :: u32)] (pid # a # b # 0 # 0 # replicate 2043 0) =
    Some (Inr (pid # a # b # 0 # 0 # attr_body h @ replicate (2043 - length (attr_body h)) 0, 5 + length (attr_body h)))"
proof -
  obtain w x y z where h: "be32 h = [w, x, y, z]" using be32_split by blast
  have f: "rev (le_of 2 (0xFFFF :: u16)) = [0xFF, 0xFF]" by (simp add: le_ffff)
  show ?thesis
    unfolding async_attr_body_def if_True attridseq_pdu
    by (simp add: wr_def put_be16_def put_be32_def be32_def [symmetric] h f attr_body_def)
qed

text \<open>A transaction that is started and served in pieces: all requests, and one call of the callback.\<close>

lemma async_transaction:
  assumes "s_priv s = Ptr t" "t_cb t = Ptr cb" "chunks_ok xs" "2 \<le> length (fst (hd xs))" "pid = 0x04 \<or> pid = 0x06"
    "length body \<le> 1000"
    "\<And>a b. fill (pid # a # b # 0 # 0 # replicate 2043 0) =
       Some (Inr (pid # a # b # 0 # 0 # body @ replicate (2043 - length body) 0, 5 + length body))"
  shows "\<exists>s1 s2 out. start_async pid fill [int (6 + length body)] errno (Ptr s) = Some (0, Ptr s1, [request_of pid (s_tid s) body []]) \<and>
    process_all (serve_async pid (s_tid s) (length body) xs) errno (Ptr s1) =
      Some (- 1, Ptr s2, out, [(cb, pid + 1, 0, concat (map fst xs), t_udata t)]) \<and>
    request_of pid (s_tid s) body [] # out = requests_of pid (s_tid s) body [] xs"
proof -
  obtain r where r: "start_async pid fill [int (6 + length body)] errno (Ptr s) =
      Some (0, Ptr (s\<lparr>s_tid := s_tid s + 1, s_priv := Ptr (t\<lparr>t_concat := [], t_reqbuf := Ptr r, t_reqsize := of_nat (5 + length body)\<rparr>)\<rparr>),
        [request_of pid (s_tid s) body []])"
    "req_of pid body r" "rd r 1 2 = Some (be16 (s_tid s))"
    using start_async_sends [OF assms(1,6,7)] by blast
  let ?t = "t\<lparr>t_concat := [], t_reqbuf := Ptr r, t_reqsize := of_nat (5 + length body)\<rparr>"
  let ?s = "s\<lparr>s_tid := s_tid s + 1, s_priv := Ptr ?t\<rparr>"
  obtain s2 where "process_all (serve_async pid (s_tid s) (length body) xs) errno (Ptr ?s) =
    Some (- 1, Ptr s2, requests_of pid (s_tid s + 1) body (snd (hd xs)) (tl xs), notify ?t (pid + 1) 0 (t_concat ?t @ concat (map fst xs)))"
    using process_all_spec [OF assms(3), of ?s ?t r body pid "s_tid s" errno] assms(4-6) r(2,3) by auto
  moreover have "notify ?t (pid + 1) 0 (t_concat ?t @ concat (map fst xs)) = [(cb, pid + 1, 0, concat (map fst xs), t_udata t)]"
    using assms(2) by (simp add: notify_def)
  moreover obtain p d ys where "xs = (p, d) # ys" using assms(3) by (cases xs) auto
  ultimately show ?thesis using r(1) by simp
qed

text \<open>
  C28: \<open>sdp_service_search_attr_async\<close> (for one UUID and all attributes) and \<open>sdp_service_attr_async\<close>
  deliver the answer: however it is split, the requests are those of the protocol, and the callback is
  called once, at the end, with status 0 and the bytes of all pieces.  The third of these functions,
  \<open>sdp_service_search_async\<close>, reports a wrong count for a split answer (\<open>search_count_carry_lost\<close>).
\<close>

theorem async_answer_delivered:
  assumes "s_priv s = Ptr t" "t_cb t = Ptr cb" "chunks_ok xs" "2 \<le> length (fst (hd xs))"
  shows "(\<exists>s1 s2 out. sdp_service_search_attr_async junk late [sdp_uuid16_create g] True [le_of 4 (0x0000FFFF :: u32)] [20] errno (Ptr s) =
      Some (0, Ptr s1, [request_of 0x06 (s_tid s) (body_of g) []]) \<and>
    process_all (serve_async 0x06 (s_tid s) 14 xs) errno (Ptr s1) =
      Some (- 1, Ptr s2, out, [(cb, 0x07, 0, concat (map fst xs), t_udata t)]) \<and>
    request_of 0x06 (s_tid s) (body_of g) [] # out = requests_of 0x06 (s_tid s) (body_of g) [] xs) \<and>
    (\<exists>s1 s2 out. sdp_service_attr_async junk late h True [le_of 4 (0x0000FFFF :: u32)] [19] errno (Ptr s) =
      Some (0, Ptr s1, [request_of 0x04 (s_tid s) (attr_body h) []]) \<and>
    process_all (serve_async 0x04 (s_tid s) 13 xs) errno (Ptr s1) =
      Some (- 1, Ptr s2, out, [(cb, 0x05, 0, concat (map fst xs), t_udata t)]) \<and>
    request_of 0x04 (s_tid s) (attr_body h) [] # out = requests_of 0x04 (s_tid s) (attr_body h) [] xs)"
  using async_transaction [OF assms, of "0x06" "body_of g"
      "async_search_attr_body junk late [sdp_uuid16_create g] True [le_of 4 (0x0000FFFF :: u32)]" errno]
    async_transaction [OF assms, of "0x04" "attr_body h" "async_attr_body junk late h True [le_of 4 (0x0000FFFF :: u32)]" errno]
  by (simp add: sdp_service_search_attr_async_def sdp_service_attr_async_def async_search_attr_fills async_attr_fills)

definition notified :: sdp_transaction where
  "notified = \<lparr>t_cb = Ptr 7, t_udata = 3, t_reqbuf = NULL, t_concat = [], t_reqsize = 0, t_err = 0\<rparr>"

definition notified_session :: sdp_session_t where
  "notified_session = \<lparr>s_tid = 1, s_priv = Ptr notified\<rparr>"

definition two_pieces :: "(buf \<times> buf) list" where
  "two_pieces = [([0x35, 1], [9]), ([0], [])]"

theorem async_answer_delivered_witness:
  "(\<exists>s1 s2 out. sdp_service_search_attr_async (\<lambda>_. 0) False [sdp_uuid16_create 0x1002] True [le_of 4 (0x0000FFFF :: u32)] [20] 5
      (Ptr notified_session) = Some (0, Ptr s1, [request_of 0x06 (s_tid notified_session) (body_of 0x1002) []]) \<and>
    process_all (serve_async 0x06 (s_tid notified_session) 14 two_pieces) 5 (Ptr s1) =
      Some (- 1, Ptr s2, out, [(7, 0x07, 0, concat (map fst two_pieces), t_udata notified)]) \<and>
    request_of 0x06 (s_tid notified_session) (body_of 0x1002) [] # out =
      requests_of 0x06 (s_tid notified_session) (body_of 0x1002) [] two_pieces) \<and>
   (\<exists>s1 s2 out. sdp_service_attr_async (\<lambda>_. 0) False 0x10001 True [le_of 4 (0x0000FFFF :: u32)] [19] 5
      (Ptr notified_session) = Some (0, Ptr s1, [request_of 0x04 (s_tid notified_session) (attr_body 0x10001) []]) \<and>
    process_all (serve_async 0x04 (s_tid notified_session) 13 two_pieces) 5 (Ptr s1) =
      Some (- 1, Ptr s2, out, [(7, 0x05, 0, concat (map fst two_pieces), t_udata notified)]) \<and>
    request_of 0x04 (s_tid notified_session) (attr_body 0x10001) [] # out =
      requests_of 0x04 (s_tid notified_session) (attr_body 0x10001) [] two_pieces)"
  by (rule async_answer_delivered) (simp_all add: notified_session_def notified_def two_pieces_def)

section \<open>The count of a search\<close>

text \<open>
  The counts of the pieces of a search are added up in network byte order, where a carry goes the wrong
  way: after pieces with 200 and 100 handles the answer says 44, and not 300.
\<close>

theorem search_count_carry_lost:
  assumes "t_concat t = be16 300 @ be16 200 @ old" "rsp = handles_response 300 tid hs [] @ junk" "length hs = 100"
  shows "response_parts rsp t = Some (Inr (t\<lparr>t_concat := be16 300 @ be16 44 @ old\<rparr>, 9, 400, 404))"
proof -
  obtain x y where xy: "be16 tid = [x, y]" using be16_split by blast
  have b: "be16 300 = [1, 44]" "be16 200 = [0, 200]" "be16 100 = [0, 100]" "be16 44 = [0, 44]" "be16 405 = [1, 149]"
    by code_simp+
  have r: "rsp = 0x03 # x # y # 1 # 149 # 1 # 44 # 0 # 100 # concat (map be32 hs) @ 0 # junk"
    using assms(2,3) b by (simp add: handles_response_def xy)
  have c: "t_concat t = 1 # 44 # 0 # 200 # old" using assms(1) b by simp
  have g: "get_be16 rsp 5 = Some 300" "get_be16 rsp 7 = Some 100" "get_le16 rsp 7 = Some 0x6400"
    "get_le16 (t_concat t) 2 = Some 0xC800"
    by (simp_all add: r c get_be16_def get_le16_def rd_def)
  have s: "le_of 2 (0xC800 + 0x6400 :: u16) = [0, 44]" by code_simp
  have "put_le16 (0xC800 + 0x6400) (t_concat t) 2 = Some (1 # 44 # 0 # 44 # old)"
    unfolding put_le16_def s c by (simp add: wr_def)
  moreover have "rd8 rsp 0 = Some 0x03" by (simp add: r rd8_def)
  moreover have "t_concat t \<noteq> []" "4 \<le> length (t_concat t)" by (simp_all add: c)
  ultimately show ?thesis by (simp add: response_parts_def g b)
qed

end
